(* ===== verification/Nob_Prelude.thy ===== *)
theory Nob_Prelude
  imports Main "HOL-Library.Word"
begin

text \<open>
  Shared vocabulary of the development: bytes and the ctype predicates, the
  \<open>String_View\<close> helpers of \<open>vendor/nob.h\<close> that the sources call, the case-insensitive
  comparisons the components repeat, and the generic list lemmas their proofs use.

  A \<open>String_View\<close> is modelled by the bytes it shows (\<open>string\<close>, a list of 8-bit characters);
  \<open>size_t\<close> is \<open>nat\<close>, with the bound \<open>SIZE_MAX\<close> written out where the code checks it.
\<close>

named_theorems sv_simps \<open>evaluation and algebra of string views\<close>
named_theorems suffix_intros \<open>facts that a parser leaves a suffix of its input\<close>

type_synonym string_view = string

abbreviation NUL :: char where "NUL \<equiv> CHR 0x00"
abbreviation NL :: char where "NL \<equiv> CHR 0x0A"
abbreviation CR :: char where "CR \<equiv> CHR 0x0D"
abbreviation BACKSLASH :: char where "BACKSLASH \<equiv> CHR 0x5C"
abbreviation DQUOTE :: char where "DQUOTE \<equiv> CHR 0x22"

abbreviation code :: "char \<Rightarrow> nat" where "code c \<equiv> of_char c"

definition SIZE_MAX :: nat where "SIZE_MAX = 2 ^ 64 - 1"

subsection \<open>The ctype predicates of the C locale\<close>

definition c_isspace :: "char \<Rightarrow> bool" where
  "c_isspace c \<longleftrightarrow> (9 \<le> code c \<and> code c \<le> 13) \<or> code c = 32"

definition c_isdigit :: "char \<Rightarrow> bool" where
  "c_isdigit c \<longleftrightarrow> 48 \<le> code c \<and> code c \<le> 57"

definition c_isupper :: "char \<Rightarrow> bool" where
  "c_isupper c \<longleftrightarrow> 65 \<le> code c \<and> code c \<le> 90"

definition c_islower :: "char \<Rightarrow> bool" where
  "c_islower c \<longleftrightarrow> 97 \<le> code c \<and> code c \<le> 122"

definition c_isalpha :: "char \<Rightarrow> bool" where
  "c_isalpha c \<longleftrightarrow> c_isupper c \<or> c_islower c"

definition c_isalnum :: "char \<Rightarrow> bool" where
  "c_isalnum c \<longleftrightarrow> c_isalpha c \<or> c_isdigit c"

definition c_toupper :: "char \<Rightarrow> char" where
  "c_toupper c = (if c_islower c then char_of (code c - 32) else c)"

definition c_tolower :: "char \<Rightarrow> char" where
  "c_tolower c = (if c_isupper c then char_of (code c + 32) else c)"

lemma code_char_of [simp]: "code (char_of (n::nat)) = n mod 256"
  by simp

lemma code_inject: "code c = code d \<longleftrightarrow> c = d"
  by simp

lemma c_toupper_idem [simp]: "c_toupper (c_toupper c) = c_toupper c"
  by (auto simp: c_toupper_def c_islower_def)

lemma c_tolower_idem [simp]: "c_tolower (c_tolower c) = c_tolower c"
  by (auto simp: c_tolower_def c_isupper_def)

text \<open>Folding up and folding down identify the same characters.\<close>

lemma c_toupper_tolower [simp]: "c_toupper (c_tolower c) = c_toupper c"
  by (cases "c_isupper c") (simp_all add: c_toupper_def c_tolower_def c_islower_def c_isupper_def)

lemma c_tolower_toupper [simp]: "c_tolower (c_toupper c) = c_tolower c"
proof (cases "c_islower c")
  case True
  then have "(code c - 32) mod 256 = code c - 32" "97 \<le> code c" "code c \<le> 122"
    "65 \<le> code c - 32" "code c - 32 \<le> 90"
    by (auto simp: c_islower_def)
  then show ?thesis by (simp add: c_toupper_def c_tolower_def c_islower_def c_isupper_def)
qed (simp add: c_toupper_def)

lemma c_case_fold_eq: "c_toupper c = c_toupper d \<longleftrightarrow> c_tolower c = c_tolower d"
  by (metis c_toupper_tolower c_tolower_toupper)

lemma c_isspace_toupper [simp]: "c_isspace (c_toupper c) = c_isspace c"
  by (auto simp: c_toupper_def c_islower_def c_isspace_def)

subsection \<open>String views of nob.h\<close>

definition nob_sv_trim_left :: "string_view \<Rightarrow> string_view" where
  "nob_sv_trim_left sv = dropWhile c_isspace sv"

definition nob_sv_trim_right :: "string_view \<Rightarrow> string_view" where
  "nob_sv_trim_right sv = rev (dropWhile c_isspace (rev sv))"

definition nob_sv_trim :: "string_view \<Rightarrow> string_view" where
  "nob_sv_trim sv = nob_sv_trim_right (nob_sv_trim_left sv)"

definition nob_sv_eq :: "string_view \<Rightarrow> string_view \<Rightarrow> bool" where
  "nob_sv_eq a b = (if length a \<noteq> length b then False else a = b)"

definition nob_sv_starts_with :: "string_view \<Rightarrow> string_view \<Rightarrow> bool" where
  "nob_sv_starts_with sv p = (if length p \<le> length sv then nob_sv_eq p (take (length p) sv) else False)"

definition nob_sv_ends_with :: "string_view \<Rightarrow> string_view \<Rightarrow> bool" where
  "nob_sv_ends_with sv suf =
     (if length suf \<le> length sv then nob_sv_eq (drop (length sv - length suf) sv) suf else False)"

text \<open>A C string ends at its first NUL byte: what \<open>strlen\<close> sees of a buffer.\<close>

definition c_str :: "string \<Rightarrow> string" where
  "c_str s = takeWhile (\<lambda>c. c \<noteq> NUL) s"

lemma c_str_id: "NUL \<notin> set s \<Longrightarrow> c_str s = s"
  by (auto simp: c_str_def takeWhile_eq_all_conv)

lemma c_str_idem [simp]: "c_str (c_str s) = c_str s"
  by (rule c_str_id) (auto simp: c_str_def dest: set_takeWhileD)

text \<open>
  Case-insensitive equality, in the two spellings of the sources: every component folds
  with \<open>toupper\<close> or with \<open>tolower\<close>, byte by byte, after comparing the lengths.
\<close>

definition sv_eq_ci_upper :: "string_view \<Rightarrow> string_view \<Rightarrow> bool" where
  "sv_eq_ci_upper a b =
     (if length a \<noteq> length b then False
      else list_all2 (\<lambda>x y. c_toupper x = c_toupper y) a b)"

definition sv_eq_ci_lower :: "string_view \<Rightarrow> string_view \<Rightarrow> bool" where
  "sv_eq_ci_lower a b =
     (if length a \<noteq> length b then False
      else list_all2 (\<lambda>x y. c_tolower x = c_tolower y) a b)"

lemma nob_sv_eq_iff [simp, sv_simps]: "nob_sv_eq a b \<longleftrightarrow> a = b"
  by (auto simp: nob_sv_eq_def)

lemma list_all2_map_eq: "list_all2 (\<lambda>x y. f x = f y) a b \<longleftrightarrow> map f a = map f b"
proof (induction a arbitrary: b)
  case Nil
  then show ?case by (cases b) auto
next
  case (Cons x a)
  then show ?case by (cases b) auto
qed

lemma sv_eq_ci_upper_map: "sv_eq_ci_upper a b \<longleftrightarrow> map c_toupper a = map c_toupper b"
  by (auto simp: sv_eq_ci_upper_def list_all2_map_eq dest: map_eq_imp_length_eq)

lemma sv_eq_ci_lower_map: "sv_eq_ci_lower a b \<longleftrightarrow> map c_tolower a = map c_tolower b"
  by (auto simp: sv_eq_ci_lower_def list_all2_map_eq dest: map_eq_imp_length_eq)

lemma map_case_fold_eq: "map c_toupper a = map c_toupper b \<longleftrightarrow> map c_tolower a = map c_tolower b"
proof (induction a arbitrary: b)
  case Nil
  then show ?case by auto
next
  case (Cons x a)
  then show ?case by (cases b) (auto simp: c_case_fold_eq)
qed

text \<open>Both spellings are one relation, and it is an equivalence.\<close>

lemma sv_eq_ci_lower_upper: "sv_eq_ci_lower a b = sv_eq_ci_upper a b"
  by (simp add: sv_eq_ci_upper_map sv_eq_ci_lower_map map_case_fold_eq)

lemma sv_eq_ci_refl [simp]: "sv_eq_ci_upper a a"
  by (simp add: sv_eq_ci_upper_map)

lemma sv_eq_ci_sym: "sv_eq_ci_upper a b = sv_eq_ci_upper b a"
  by (auto simp: sv_eq_ci_upper_map)

lemma sv_eq_ci_trans: "sv_eq_ci_upper a b \<Longrightarrow> sv_eq_ci_upper b c \<Longrightarrow> sv_eq_ci_upper a c"
  by (simp add: sv_eq_ci_upper_map)

lemma sv_eq_ci_length: "sv_eq_ci_upper a b \<Longrightarrow> length a = length b"
  by (simp add: sv_eq_ci_upper_def split: if_splits)

subsection \<open>Trimming\<close>

lemma nob_sv_trim_left_length: "length (nob_sv_trim_left s) \<le> length s"
  by (simp add: nob_sv_trim_left_def length_dropWhile_le)

lemma nob_sv_trim_right_length: "length (nob_sv_trim_right s) \<le> length s"
  by (metis length_dropWhile_le length_rev nob_sv_trim_right_def)

lemma nob_sv_trim_length: "length (nob_sv_trim s) \<le> length s"
  by (metis nob_sv_trim_def nob_sv_trim_left_length nob_sv_trim_right_length order_trans)

lemma nob_sv_trim_Nil [simp]: "nob_sv_trim [] = []"
  by (simp add: nob_sv_trim_def nob_sv_trim_left_def nob_sv_trim_right_def)

definition sv_trimmed :: "string_view \<Rightarrow> bool" where
  "sv_trimmed s \<longleftrightarrow> s = [] \<or> (\<not> c_isspace (hd s) \<and> \<not> c_isspace (last s))"

lemma nob_sv_trim_trimmed: "sv_trimmed (nob_sv_trim s)"
proof (cases "nob_sv_trim s")
  case Nil
  then show ?thesis by (simp add: sv_trimmed_def)
next
  case (Cons x xs)
  let ?l = "nob_sv_trim_left s" and ?r = "dropWhile c_isspace (rev (nob_sv_trim_left s))"
  have r: "?r \<noteq> []" "nob_sv_trim s = rev ?r"
    using Cons by (auto simp: nob_sv_trim_def nob_sv_trim_right_def)
  have last: "\<not> c_isspace (last (nob_sv_trim s))"
    using r hd_dropWhile [of c_isspace "rev ?l"] by (simp add: last_rev)
  have "?l = nob_sv_trim s @ rev (takeWhile c_isspace (rev ?l))"
    using r(2) by (metis rev_append rev_rev_ident takeWhile_dropWhile_id)
  then have "hd ?l = hd (nob_sv_trim s)" "?l \<noteq> []"
    using Cons by (metis hd_append2 list.distinct(1), metis append_is_Nil_conv list.distinct(1))
  then have "\<not> c_isspace (hd (nob_sv_trim s))"
    using hd_dropWhile [of c_isspace s] by (simp add: nob_sv_trim_left_def)
  with last show ?thesis by (simp add: sv_trimmed_def)
qed

lemma nob_sv_trim_id: "sv_trimmed s \<Longrightarrow> nob_sv_trim s = s"
proof (cases s)
  case (Cons x xs)
  assume t: "sv_trimmed s"
  with Cons have "nob_sv_trim_left s = s"
    by (simp add: sv_trimmed_def nob_sv_trim_left_def)
  moreover have "dropWhile c_isspace (rev s) = rev s"
  proof (cases "rev s")
    case Nil
    then show ?thesis by simp
  next
    fix y ys
    assume ys: "rev s = y # ys"
    then have "y = last s" by (metis hd_rev list.sel(1))
    with t Cons have "\<not> c_isspace y" by (simp add: sv_trimmed_def)
    with ys show ?thesis by simp
  qed
  ultimately show ?thesis by (simp add: nob_sv_trim_def nob_sv_trim_right_def)
qed simp

lemma nob_sv_trim_idem [simp]: "nob_sv_trim (nob_sv_trim s) = nob_sv_trim s"
  by (rule nob_sv_trim_id) (rule nob_sv_trim_trimmed)

lemma set_nob_sv_trim: "set (nob_sv_trim s) \<subseteq> set s"
  unfolding nob_sv_trim_def nob_sv_trim_left_def nob_sv_trim_right_def
  by (metis set_dropWhileD set_rev subset_code(1))

subsection \<open>Lists read by index\<close>

lemma drop_nth_Cons: "i < length xs \<Longrightarrow> drop i xs = xs ! i # drop (Suc i) xs"
  by (simp add: Cons_nth_drop_Suc)

lemma drop_eq_ConsD: "drop i xs = y # ys \<Longrightarrow> i < length xs \<and> xs ! i = y \<and> drop (Suc i) xs = ys"
  by (metis drop_Suc hd_drop_conv_nth leI drop_all list.distinct(1) list.sel(1,3) tl_drop)

lemma take_drop_split:
  assumes "i \<le> j" "j \<le> k"
  shows "take (j - i) (drop i xs) @ take (k - j) (drop j xs) = take (k - i) (drop i xs)"
proof -
  have "take (k - i) (drop i xs) = take ((j - i) + (k - j)) (drop i xs)" using assms by simp
  also have "\<dots> = take (j - i) (drop i xs) @ take (k - j) (drop (j - i) (drop i xs))"
    by (rule take_add)
  also have "drop (j - i) (drop i xs) = drop j xs" using assms by simp
  finally show ?thesis by simp
qed

lemma foldr_max_ge: "x \<in> set xs \<Longrightarrow> x \<le> foldr max xs (0 :: nat)"
  by (induction xs) (auto intro: le_max_iff_disj [THEN iffD2])

section \<open>Severities\<close>

text \<open>Of the reports of the diagnostics and of the build model.\<close>

datatype diag_severity = DIAG_SEV_WARNING | DIAG_SEV_ERROR

end
