(* ===== verification/Cmk_Lexer.thy ===== *)
theory Cmk_Lexer
  imports Nob_Prelude
begin

text \<open>
  The CMake lexer, \<open>src_v2/lexer/lexer.c\<close>. A \<open>Lexer\<close> is the record \<open>lexer\<close> with the fields
  of the C struct; every helper that takes \<open>Lexer *\<close> returns the updated record. The loops
  are recursive functions whose measure is the number of bytes left. \<open>lexer_next\<close> is the
  whole scanner: trivia, punctuation, strings, bracket arguments, variable references,
  generator expressions and identifiers.
\<close>

subsection \<open>Data\<close>

datatype token_kind =
    TOKEN_END | TOKEN_INVALID | TOKEN_LPAREN | TOKEN_RPAREN | TOKEN_SEMICOLON
  | TOKEN_STRING | TOKEN_RAW_STRING | TOKEN_IDENTIFIER | TOKEN_VAR | TOKEN_GEN_EXP

record token =
  tok_kind :: token_kind
  tok_text :: string_view
  tok_line :: nat
  tok_col :: nat
  has_space_left :: bool

record lexer =
  content :: string_view
  cursor :: nat
  line :: nat
  bol :: nat

fun token_kind_name :: "token_kind \<Rightarrow> string" where
  "token_kind_name TOKEN_END = ''END''"
| "token_kind_name TOKEN_INVALID = ''INVALID''"
| "token_kind_name TOKEN_LPAREN = ''LPAREN''"
| "token_kind_name TOKEN_RPAREN = ''RPAREN''"
| "token_kind_name TOKEN_SEMICOLON = ''SEMICOLON''"
| "token_kind_name TOKEN_STRING = ''STRING''"
| "token_kind_name TOKEN_RAW_STRING = ''RAW_STRING''"
| "token_kind_name TOKEN_IDENTIFIER = ''IDENTIFIER''"
| "token_kind_name TOKEN_VAR = ''VAR''"
| "token_kind_name TOKEN_GEN_EXP = ''GEN_EXP''"

definition lexer_init :: "string_view \<Rightarrow> lexer" where
  "lexer_init s = \<lparr>content = s, cursor = 0, line = 1, bol = 0\<rparr>"

subsection \<open>Navigation helpers\<close>

definition peek :: "lexer \<Rightarrow> nat \<Rightarrow> char" where
  "peek l off = (if cursor l + off \<ge> length (content l) then NUL else content l ! (cursor l + off))"

definition current :: "lexer \<Rightarrow> char" where
  "current l = peek l 0"

definition at_end :: "lexer \<Rightarrow> bool" where
  "at_end l \<longleftrightarrow> cursor l \<ge> length (content l)"

definition advance :: "lexer \<Rightarrow> lexer" where
  "advance l =
     (if cursor l < length (content l) then
        (let l1 = (if current l = NL then l\<lparr>line := line l + 1, bol := cursor l + 1\<rparr> else l)
         in l1\<lparr>cursor := cursor l + 1\<rparr>)
      else l)"

fun advance_n :: "lexer \<Rightarrow> nat \<Rightarrow> lexer" where
  "advance_n l 0 = l"
| "advance_n l (Suc n) = advance_n (advance l) n"

lemma advance_content [simp]: "content (advance l) = content l"
  by (simp add: advance_def Let_def)

lemma advance_cursor: "cursor (advance l) = (if at_end l then cursor l else Suc (cursor l))"
  by (simp add: advance_def at_end_def Let_def)

lemma advance_at_end: "at_end l \<Longrightarrow> advance l = l"
  by (simp add: advance_def at_end_def)

text \<open>The measure of every loop: the bytes not yet consumed.\<close>

definition left :: "lexer \<Rightarrow> nat" where
  "left l = length (content l) - cursor l"

lemma left_advance: "\<not> at_end l \<Longrightarrow> left (advance l) < left l"
  by (simp add: left_def advance_cursor at_end_def)

lemma left_advance_le: "left (advance l) \<le> left l"
  by (auto simp: left_def advance_cursor)

lemma left_advance_n_le: "left (advance_n l n) \<le> left l"
  by (induction n arbitrary: l) (auto intro: order_trans left_advance_le)

lemma left_advance_n: "\<not> at_end l \<Longrightarrow> 0 < n \<Longrightarrow> left (advance_n l n) < left l"
  by (cases n) (auto intro: le_less_trans left_advance_n_le left_advance)

subsection \<open>Bracket arguments\<close>

function bracket_eqs :: "lexer \<Rightarrow> nat \<Rightarrow> nat" where
  "bracket_eqs l k =
     (if cursor l + k < length (content l) \<and> peek l k = CHR ''='' then bracket_eqs l (Suc k) else k)"
  by pat_completeness auto
termination by (relation "measure (\<lambda>(l, k). length (content l) - (cursor l + k))") auto

definition get_bracket_open_len :: "lexer \<Rightarrow> nat" where
  "get_bracket_open_len l =
     (if current l \<noteq> CHR ''['' then 0
      else (let k = bracket_eqs l 1 in
        if cursor l + k < length (content l) \<and> peek l k = CHR ''['' then k + 1 else 0))"

text \<open>The closer test of \<open>skip_bracket_content\<close>: \<open>]\<close>, the counted \<open>=\<close> signs, \<open>]\<close>.\<close>

definition bracket_close_here :: "lexer \<Rightarrow> nat \<Rightarrow> bool" where
  "bracket_close_here l eq_count \<longleftrightarrow>
     current l = CHR '']'' \<and> list_all (\<lambda>k. peek l k = CHR ''='') [1..<Suc eq_count] \<and>
     peek l (eq_count + 1) = CHR '']''"

function skip_bracket_content :: "lexer \<Rightarrow> nat \<Rightarrow> lexer" where
  "skip_bracket_content l open_len =
     (if at_end l then l
      else if bracket_close_here l (open_len - 2) then advance_n l open_len
      else skip_bracket_content (advance l) open_len)"
  by pat_completeness auto
termination by (relation "measure (\<lambda>(l, n). left l)") (auto simp: left_advance)

subsection \<open>Variable references\<close>

function var_name_end :: "lexer \<Rightarrow> nat \<Rightarrow> nat" where
  "var_name_end l k =
     (if c_isalnum (peek l k) \<or> peek l k = CHR ''_'' then var_name_end l (Suc k) else k)"
  by pat_completeness auto
termination
  by (relation "measure (\<lambda>(l, k). length (content l) - (cursor l + k))")
     (auto simp: peek_def c_isalnum_def c_isalpha_def c_isupper_def c_islower_def c_isdigit_def
           split: if_splits)

definition check_var_start :: "lexer \<Rightarrow> nat" where
  "check_var_start l =
     (if current l \<noteq> CHR ''$'' then 0
      else if peek l 1 = CHR ''{'' then 2
      else if peek l 1 = CHR ''<'' then 0
      else (let k = var_name_end l 1 in if peek l k = CHR ''{'' then k + 1 else 0))"

subsection \<open>Trivia: white space, comments, line continuations\<close>

function skip_line_comment :: "lexer \<Rightarrow> lexer" where
  "skip_line_comment l =
     (if \<not> at_end l \<and> current l \<noteq> NL then skip_line_comment (advance l) else l)"
  by pat_completeness auto
termination by (relation "measure left") (auto simp: left_advance)

definition skip_comment :: "lexer \<Rightarrow> lexer" where
  "skip_comment l =
     (let l1 = advance l; open_len = get_bracket_open_len l1 in
      if open_len > 0 then skip_bracket_content (advance_n l1 open_len) open_len
      else skip_line_comment l1)"

declare bracket_eqs.simps [simp del] var_name_end.simps [simp del]
  skip_bracket_content.simps [simp del] skip_line_comment.simps [simp del]

lemma left_skip_bracket_content: "left (skip_bracket_content l n) \<le> left l"
proof (induction l n rule: skip_bracket_content.induct)
  case (1 l n)
  then show ?case
    by (subst skip_bracket_content.simps)
       (auto intro: left_advance_n_le order_trans left_advance_le)
qed

lemma left_skip_line_comment: "left (skip_line_comment l) \<le> left l"
proof (induction l rule: skip_line_comment.induct)
  case (1 l)
  then show ?case
    by (subst skip_line_comment.simps) (auto intro: order_trans left_advance_le)
qed

lemma left_skip_comment: "\<not> at_end l \<Longrightarrow> left (skip_comment l) < left l"
  using left_advance [of l] left_advance_n_le [of "advance l"] left_skip_line_comment [of "advance l"]
    left_skip_bracket_content
  by (fastforce simp: skip_comment_def Let_def intro: le_less_trans order_trans)

function skip_trivia :: "lexer \<Rightarrow> lexer" where
  "skip_trivia l =
     (if at_end l then l
      else if c_isspace (current l) then skip_trivia (advance l)
      else if current l = CHR ''#'' then skip_trivia (skip_comment l)
      else if current l = BACKSLASH then
        (if peek l 1 = NL then skip_trivia (advance_n l 2)
         else if peek l 1 = CR \<and> peek l 2 = NL then skip_trivia (advance_n l 3)
         else l)
      else l)"
  by pat_completeness auto
termination
  by (relation "measure left") (auto simp: left_advance left_skip_comment left_advance_n)

declare skip_trivia.simps [simp del]

subsection \<open>Token scanners\<close>

text \<open>The view \<open>sv_from_parts(start_ptr, len)\<close> of a token that starts at the cursor of \<open>l\<close>.\<close>

definition lex_text :: "lexer \<Rightarrow> nat \<Rightarrow> string_view" where
  "lex_text l len = take len (drop (cursor l) (content l))"

text \<open>Quoted strings: the loop returns the lexer, the length and the \<open>closed\<close> flag.\<close>

function lex_string_loop :: "lexer \<Rightarrow> nat \<Rightarrow> lexer \<times> nat \<times> bool" where
  "lex_string_loop l len =
     (if at_end l then (l, len, False)
      else if current l = DQUOTE then (advance l, len + 1, True)
      else if current l = BACKSLASH then
        (if \<not> at_end (advance l) then lex_string_loop (advance (advance l)) (len + 2)
         else lex_string_loop (advance l) (len + 1))
      else lex_string_loop (advance l) (len + 1))"
  by pat_completeness auto
termination
  by (relation "measure (\<lambda>(l, n). left l)")
     (auto intro: left_advance le_less_trans left_advance_le)

definition lex_string :: "lexer \<Rightarrow> token_kind \<times> string_view \<times> lexer" where
  "lex_string l =
     (case lex_string_loop (advance l) 1 of
        (l', len, closed) \<Rightarrow>
          (if closed then TOKEN_STRING else TOKEN_INVALID, lex_text l len, l'))"

text \<open>Bracket strings: at end of input the suffix must still be a matching closer.\<close>

definition has_bracket_closer :: "string_view \<Rightarrow> nat \<Rightarrow> bool" where
  "has_bracket_closer s n =
     (if length s \<ge> n then
        (let closer_start = length s - n in
         s ! closer_start = CHR '']'' \<and>
         list_all (\<lambda>k. s ! (closer_start + k) = CHR ''='') [1..<n - 1] \<and>
         s ! (length s - 1) = CHR '']'')
      else False)"

definition lex_raw_string :: "lexer \<Rightarrow> nat \<Rightarrow> token_kind \<times> string_view \<times> lexer" where
  "lex_raw_string l bracket_len =
     (let l1 = advance_n l bracket_len;
          l2 = skip_bracket_content l1 bracket_len;
          total_len = bracket_len + (cursor l2 - cursor l1);
          kind = (if at_end l2 \<and> \<not> has_bracket_closer (content l2) bracket_len
                  then TOKEN_INVALID else TOKEN_RAW_STRING)
      in (kind, lex_text l total_len, l2))"

text \<open>
  Generator expressions: nested \<open><\<close> and \<open>>\<close>; the loop returns lexer, length, depth.
  \<open>nest_depth\<close> is the pair of depth updates both nesting loops make for one byte.
\<close>

definition nest_depth :: "char \<Rightarrow> char \<Rightarrow> char \<Rightarrow> nat \<Rightarrow> nat" where
  "nest_depth op cl cc depth =
     (let depth1 = (if cc = op then depth + 1 else depth)
      in (if cc = cl then depth1 - 1 else depth1))"

function lex_genex_loop :: "lexer \<Rightarrow> nat \<Rightarrow> nat \<Rightarrow> lexer \<times> nat \<times> nat" where
  "lex_genex_loop l len depth =
     (if \<not> at_end l \<and> depth > 0 then
        lex_genex_loop (advance l) (len + 1) (nest_depth CHR ''<'' CHR ''>'' (current l) depth)
      else (l, len, depth))"
  by pat_completeness auto
termination by (relation "measure (\<lambda>(l, n, d). left l)") (auto simp: left_advance)

definition lex_genex :: "lexer \<Rightarrow> token_kind \<times> string_view \<times> lexer" where
  "lex_genex l =
     (case lex_genex_loop (advance_n l 2) 2 1 of
        (l', len, depth) \<Rightarrow>
          (if depth \<noteq> 0 then TOKEN_INVALID else TOKEN_GEN_EXP, lex_text l len, l'))"

text \<open>Variable references: nested braces, a backslash protects the next byte.\<close>

function lex_var_loop :: "lexer \<Rightarrow> nat \<Rightarrow> nat \<Rightarrow> lexer \<times> nat \<times> nat" where
  "lex_var_loop l len depth =
     (if \<not> at_end l \<and> depth > 0 then
        (if current l = BACKSLASH then
           (if \<not> at_end (advance l) then
              lex_var_loop (advance (advance l)) (len + 2) (nest_depth CHR ''{'' CHR ''}'' (current l) depth)
            else lex_var_loop (advance l) (len + 1) (nest_depth CHR ''{'' CHR ''}'' (current l) depth))
         else lex_var_loop (advance l) (len + 1) (nest_depth CHR ''{'' CHR ''}'' (current l) depth))
      else (l, len, depth))"
  by pat_completeness auto
termination
  by (relation "measure (\<lambda>(l, n, d). left l)")
     (auto intro: left_advance le_less_trans left_advance_le)

definition lex_var :: "lexer \<Rightarrow> nat \<Rightarrow> token_kind \<times> string_view \<times> lexer" where
  "lex_var l var_prefix =
     (case lex_var_loop (advance_n l var_prefix) var_prefix 1 of
        (l', len, depth) \<Rightarrow>
          (if depth \<noteq> 0 then TOKEN_INVALID else TOKEN_VAR, lex_text l len, l'))"

text \<open>Identifiers and unquoted arguments: stop at separators and at real \<open>$\<close> openers.\<close>

definition ident_break :: "char \<Rightarrow> bool" where
  "ident_break c \<longleftrightarrow> c_isspace c \<or> c = CHR ''('' \<or> c = CHR '')'' \<or> c = DQUOTE \<or>
     c = CHR ''#'' \<or> c = CHR '';''"

function lex_ident_loop :: "lexer \<Rightarrow> nat \<Rightarrow> lexer \<times> nat" where
  "lex_ident_loop l len =
     (if at_end l then (l, len)
      else if ident_break (current l) then (l, len)
      else if current l = CHR ''$'' \<and> (peek l 1 = CHR ''<'' \<or> check_var_start l > 0) then (l, len)
      else if current l = BACKSLASH then
        (if peek l 1 = NL \<or> (peek l 1 = CR \<and> peek l 2 = NL) then (l, len)
         else if \<not> at_end (advance l) then lex_ident_loop (advance (advance l)) (len + 2)
         else lex_ident_loop (advance l) (len + 1))
      else lex_ident_loop (advance l) (len + 1))"
  by pat_completeness auto
termination
  by (relation "measure (\<lambda>(l, n). left l)")
     (auto intro: left_advance le_less_trans left_advance_le)

declare lex_string_loop.simps [simp del] lex_genex_loop.simps [simp del]
  lex_var_loop.simps [simp del] lex_ident_loop.simps [simp del]

subsection \<open>lexer_next\<close>

definition lex_dollar :: "lexer \<Rightarrow> token_kind \<times> string_view \<times> lexer" where
  "lex_dollar l =
     (if peek l 1 = CHR ''<'' then lex_genex l
      else if check_var_start l > 0 then lex_var l (check_var_start l)
      else (TOKEN_IDENTIFIER, lex_text l 1, advance l))"

definition lex_visible :: "lexer \<Rightarrow> token_kind \<times> string_view \<times> lexer" where
  "lex_visible l =
     (let c = current l in
      if c = CHR ''('' then (TOKEN_LPAREN, lex_text l 1, advance l)
      else if c = CHR '')'' then (TOKEN_RPAREN, lex_text l 1, advance l)
      else if c = CHR '';'' then (TOKEN_SEMICOLON, lex_text l 1, advance l)
      else if c = DQUOTE then lex_string l
      else if get_bracket_open_len l > 0 then lex_raw_string l (get_bracket_open_len l)
      else if c = CHR ''$'' then lex_dollar l
      else if \<not> c_isspace c then
        (case lex_ident_loop l 0 of (l', len) \<Rightarrow> (TOKEN_IDENTIFIER, lex_text l len, l'))
      else (TOKEN_INVALID, [], advance l))"

definition lexer_next :: "lexer \<Rightarrow> token \<times> lexer" where
  "lexer_next l0 =
     (let l = skip_trivia l0;
          mk = (\<lambda>k txt. \<lparr>tok_kind = k, tok_text = txt, tok_line = line l,
                        tok_col = cursor l - bol l + 1, has_space_left = cursor l > cursor l0\<rparr>)
      in if at_end l then (mk TOKEN_END [], l)
         else (case lex_visible l of (k, txt, l') \<Rightarrow> (mk k txt, l')))"

end
