(* ===== verification/Cmk_Lexer_Facts.thy ===== *)
theory Cmk_Lexer_Facts
  imports Cmk_Lexer "HOL-Library.Sublist"
begin

text \<open>
  Facts about the lexer of \<open>Cmk_Lexer\<close>: every helper only ever advances the cursor
  (\<open>lex_reaches\<close>), tokens are exact slices of the input, every call makes progress, and the
  line and column counters are functions of the cursor.
\<close>

subsection \<open>Only advancing\<close>

definition lex_reaches :: "lexer \<Rightarrow> lexer \<Rightarrow> bool" where
  "lex_reaches l l' \<longleftrightarrow> (\<exists>n. l' = advance_n l n)"

lemma advance_n_add: "advance_n l (m + n) = advance_n (advance_n l m) n"
  by (induction m arbitrary: l) auto

lemma lex_reaches_refl [simp, intro]: "lex_reaches l l"
  unfolding lex_reaches_def by (rule exI [of _ 0]) simp

lemma lex_reaches_trans [trans]: "lex_reaches a b \<Longrightarrow> lex_reaches b c \<Longrightarrow> lex_reaches a c"
  by (auto simp: lex_reaches_def simp flip: advance_n_add)

lemma lex_reaches_advance_n [simp, intro]: "lex_reaches l (advance_n l n)"
  by (auto simp: lex_reaches_def)

lemma lex_reaches_advance [simp, intro]: "lex_reaches l (advance l)"
  unfolding lex_reaches_def by (rule exI [of _ 1]) simp

lemma lex_reaches_step: "lex_reaches (advance l) l' \<Longrightarrow> lex_reaches l l'"
  by (rule lex_reaches_trans [OF lex_reaches_advance])

lemma lex_reaches_steps: "lex_reaches (advance_n l n) l' \<Longrightarrow> lex_reaches l l'"
  by (rule lex_reaches_trans [OF lex_reaches_advance_n])

lemma advance_n_content [simp]: "content (advance_n l n) = content l"
  by (induction n arbitrary: l) auto

lemma advance_n_cursor:
  "cursor l \<le> length (content l) \<Longrightarrow> cursor (advance_n l n) = min (cursor l + n) (length (content l))"
  by (induction n arbitrary: l) (auto simp: advance_cursor at_end_def)

lemma advance_n_at_end: "at_end l \<Longrightarrow> advance_n l n = l"
  by (induction n) (auto simp: advance_at_end)

lemma lex_reaches_content: "lex_reaches l l' \<Longrightarrow> content l' = content l"
  by (auto simp: lex_reaches_def)

lemma advance_cursor_le: "cursor l \<le> cursor (advance l)"
  by (simp add: advance_cursor)

lemma lex_reaches_cursor: "lex_reaches l l' \<Longrightarrow> cursor l \<le> cursor l'"
proof -
  have "cursor l \<le> cursor (advance_n l n)" for n l
    by (induction n arbitrary: l) (auto intro: order_trans advance_cursor_le)
  then show "lex_reaches l l' \<Longrightarrow> cursor l \<le> cursor l'" by (auto simp: lex_reaches_def)
qed

lemma lex_reaches_bound:
  "lex_reaches l l' \<Longrightarrow> cursor l \<le> length (content l) \<Longrightarrow> cursor l' \<le> length (content l)"
  by (auto simp: lex_reaches_def advance_n_cursor)

lemma skip_bracket_reaches: "lex_reaches l (skip_bracket_content l n)"
proof (induction l n rule: skip_bracket_content.induct)
  case (1 l n)
  then show ?case by (subst skip_bracket_content.simps) (auto intro: lex_reaches_step)
qed

lemma skip_line_comment_reaches: "lex_reaches l (skip_line_comment l)"
proof (induction l rule: skip_line_comment.induct)
  case (1 l)
  then show ?case by (subst skip_line_comment.simps) (auto intro: lex_reaches_step)
qed

lemma skip_comment_reaches: "lex_reaches l (skip_comment l)"
  by (auto simp: skip_comment_def Let_def
      intro: lex_reaches_step lex_reaches_steps skip_bracket_reaches skip_line_comment_reaches)

lemma skip_trivia_reaches: "lex_reaches l (skip_trivia l)"
proof (induction l rule: skip_trivia.induct)
  case (1 l)
  then show ?case
    by (subst skip_trivia.simps)
       (auto intro: lex_reaches_step lex_reaches_steps lex_reaches_trans [OF skip_comment_reaches])
qed

lemma lex_string_loop_reaches: "lex_string_loop l len = (l', len', b) \<Longrightarrow> lex_reaches l l'"
proof (induction l len rule: lex_string_loop.induct)
  case (1 l len)
  then show ?case
    by (auto simp: lex_string_loop.simps [of l len] split: if_splits intro: lex_reaches_step)
qed

lemma lex_genex_loop_reaches: "lex_genex_loop l len d = (l', len', d') \<Longrightarrow> lex_reaches l l'"
proof (induction l len d rule: lex_genex_loop.induct)
  case (1 l len d)
  then show ?case
    by (auto simp: lex_genex_loop.simps [of l len d] split: if_splits intro: lex_reaches_step)
qed

lemma lex_var_loop_reaches: "lex_var_loop l len d = (l', len', d') \<Longrightarrow> lex_reaches l l'"
proof (induction l len d rule: lex_var_loop.induct)
  case (1 l len d)
  then show ?case
    by (auto simp: lex_var_loop.simps [of l len d] split: if_splits intro: lex_reaches_step)
qed

lemma lex_ident_loop_reaches: "lex_ident_loop l len = (l', len') \<Longrightarrow> lex_reaches l l'"
proof (induction l len rule: lex_ident_loop.induct)
  case (1 l len)
  then show ?case
    by (auto simp: lex_ident_loop.simps [of l len] split: if_splits intro: lex_reaches_step)
qed

lemmas loop_reaches = skip_bracket_reaches skip_trivia_reaches lex_string_loop_reaches
  lex_genex_loop_reaches lex_var_loop_reaches lex_ident_loop_reaches

subsection \<open>Lengths are cursor distances\<close>

lemma lex_string_loop_len:
  "lex_string_loop l len = (l', len', b) \<Longrightarrow> len' + cursor l = len + cursor l'"
proof (induction l len rule: lex_string_loop.induct)
  case (1 l len)
  then show ?case
    by (auto simp: lex_string_loop.simps [of l len] advance_cursor split: if_splits)
qed

lemma lex_genex_loop_len:
  "lex_genex_loop l len d = (l', len', d') \<Longrightarrow> len' + cursor l = len + cursor l'"
proof (induction l len d rule: lex_genex_loop.induct)
  case (1 l len d)
  then show ?case
    by (auto simp: lex_genex_loop.simps [of l len d] advance_cursor split: if_splits)
qed

lemma lex_var_loop_len:
  "lex_var_loop l len d = (l', len', d') \<Longrightarrow> len' + cursor l = len + cursor l'"
proof (induction l len d rule: lex_var_loop.induct)
  case (1 l len d)
  then show ?case
    by (auto simp: lex_var_loop.simps [of l len d] advance_cursor split: if_splits)
qed

lemma lex_ident_loop_len:
  "lex_ident_loop l len = (l', len') \<Longrightarrow> len' + cursor l = len + cursor l'"
proof (induction l len rule: lex_ident_loop.induct)
  case (1 l len)
  then show ?case
    by (auto simp: lex_ident_loop.simps [of l len] advance_cursor split: if_splits)
qed

lemmas loop_len = lex_string_loop_len lex_genex_loop_len lex_var_loop_len lex_ident_loop_len

subsection \<open>Openers lie inside the input\<close>

lemma peek_not_NUL: "peek l k \<noteq> NUL \<Longrightarrow> cursor l + k < length (content l)"
  by (auto simp: peek_def split: if_splits)

lemma peek_nth: "cursor l + k < length (content l) \<Longrightarrow> peek l k = content l ! (cursor l + k)"
  by (simp add: peek_def)

lemma current_nth: "\<not> at_end l \<Longrightarrow> current l = content l ! cursor l"
  by (simp add: current_def peek_def at_end_def)

lemma bracket_open_in: "0 < get_bracket_open_len l \<Longrightarrow>
  cursor l + get_bracket_open_len l \<le> length (content l) \<and> current l = CHR ''[''"
  by (auto simp: get_bracket_open_len_def Let_def split: if_splits)

lemma var_start_in: "0 < check_var_start l \<Longrightarrow>
  cursor l + check_var_start l \<le> length (content l) \<and> current l = CHR ''$''"
proof -
  have a: "peek l k = CHR ''{'' \<Longrightarrow> cursor l + k < length (content l)" for k
    using peek_not_NUL [of l k] by auto
  show "0 < check_var_start l \<Longrightarrow> ?thesis"
    using a [of 1] a [of "var_name_end l 1"]
    by (auto simp: check_var_start_def Let_def split: if_splits)
qed

lemma current_dollar_in: "current l = c \<Longrightarrow> c \<noteq> NUL \<Longrightarrow> \<not> at_end l"
  using peek_not_NUL [of l 0] by (simp add: current_def at_end_def)

subsection \<open>Where trivia stops\<close>

definition trivia_stop :: "lexer \<Rightarrow> bool" where
  "trivia_stop l \<longleftrightarrow> at_end l \<or>
     (\<not> c_isspace (current l) \<and> current l \<noteq> CHR ''#'' \<and>
      \<not> (current l = BACKSLASH \<and> (peek l 1 = NL \<or> (peek l 1 = CR \<and> peek l 2 = NL))))"

lemma skip_trivia_stop: "trivia_stop (skip_trivia l)"
proof (induction l rule: skip_trivia.induct)
  case (1 l)
  show ?case
  proof (cases "trivia_stop l")
    case True
    then have "skip_trivia l = l" by (auto simp: trivia_stop_def skip_trivia.simps [of l])
    with True show ?thesis by simp
  next
    case False
    then show ?thesis using 1
      by (auto simp: trivia_stop_def [of l] skip_trivia.simps [of l])
  qed
qed

lemma skip_trivia_fixed: "trivia_stop l \<Longrightarrow> skip_trivia l = l"
  by (auto simp: trivia_stop_def skip_trivia.simps [of l])

lemma skip_trivia_idem: "skip_trivia (skip_trivia l) = skip_trivia l"
  by (rule skip_trivia_fixed) (rule skip_trivia_stop)

subsection \<open>One token: an exact, non-empty slice\<close>

definition lexeme_ok :: "lexer \<Rightarrow> string_view \<Rightarrow> lexer \<Rightarrow> bool" where
  "lexeme_ok l txt l' \<longleftrightarrow> lex_reaches l l' \<and> cursor l < cursor l' \<and>
     txt = take (cursor l' - cursor l) (drop (cursor l) (content l))"

lemma lexeme_okI:
  "lex_reaches l l' \<Longrightarrow> cursor l' = cursor l + len \<Longrightarrow> 0 < len \<Longrightarrow> txt = lex_text l len \<Longrightarrow>
   lexeme_ok l txt l'"
  by (auto simp: lexeme_ok_def lex_text_def)

lemma advance_lexeme: "\<not> at_end l \<Longrightarrow> lexeme_ok l (lex_text l (Suc 0)) (advance l)"
  by (rule lexeme_okI [of _ _ 1]) (simp_all add: advance_cursor)

text \<open>The common end of the scanners that open with \<open>n\<close> bytes and then run a loop.\<close>

lemma lexeme_loopI:
  assumes "lex_reaches l0 l'" "lex_reaches l l0" "cursor l0 = cursor l + n" "0 < n"
    "len + cursor l0 = n + cursor l'" "txt = lex_text l len"
  shows "lexeme_ok l txt l'"
  using assms lex_reaches_cursor [OF assms(1)]
  by (intro lexeme_okI [of _ _ len]) (auto intro: lex_reaches_trans)

lemma lex_string_lexeme:
  "\<not> at_end l \<Longrightarrow> lex_string l = (k, txt, l') \<Longrightarrow> lexeme_ok l txt l'"
  unfolding lex_string_def
  by (auto split: prod.splits simp: advance_cursor
      intro!: lexeme_loopI [OF lex_string_loop_reaches lex_reaches_advance _ _ lex_string_loop_len])

lemma lex_raw_lexeme:
  assumes "0 < get_bracket_open_len l" "lex_raw_string l (get_bracket_open_len l) = (k, txt, l')"
  shows "lexeme_ok l txt l'"
proof -
  let ?n = "get_bracket_open_len l" and ?l1 = "advance_n l (get_bracket_open_len l)"
  have c: "cursor ?l1 = cursor l + ?n" and "cursor l \<le> length (content l)"
    using bracket_open_in [OF assms(1)] by (auto simp: advance_n_cursor)
  have l': "l' = skip_bracket_content ?l1 ?n" "txt = lex_text l (?n + (cursor l' - cursor ?l1))"
    using assms(2) by (auto simp: lex_raw_string_def Let_def)
  have r: "lex_reaches ?l1 l'" using l'(1) by (simp add: skip_bracket_reaches)
  then have "cursor ?l1 \<le> cursor l'" by (rule lex_reaches_cursor)
  then show ?thesis using c assms(1) l'(2)
    by (intro lexeme_loopI [OF r lex_reaches_advance_n]) simp_all
qed

lemma lex_genex_lexeme:
  assumes "peek l 1 = CHR ''<''" "lex_genex l = (k, txt, l')"
  shows "lexeme_ok l txt l'"
proof -
  have "cursor l + 1 < length (content l)" using peek_not_NUL [of l 1] assms(1) by simp
  then have c: "cursor (advance_n l 2) = cursor l + 2" by (simp add: advance_n_cursor)
  obtain len d where "lex_genex_loop (advance_n l 2) 2 1 = (l', len, d)" "txt = lex_text l len"
    using assms(2) by (auto simp: lex_genex_def split: prod.splits)
  with c show ?thesis
    by (intro lexeme_loopI [OF lex_genex_loop_reaches lex_reaches_advance_n _ _ lex_genex_loop_len]) auto
qed

lemma lex_var_lexeme:
  assumes "0 < check_var_start l" "lex_var l (check_var_start l) = (k, txt, l')"
  shows "lexeme_ok l txt l'"
proof -
  let ?n = "check_var_start l"
  have c: "cursor (advance_n l ?n) = cursor l + ?n"
    using var_start_in [OF assms(1)] by (simp add: advance_n_cursor)
  obtain len d where *: "lex_var_loop (advance_n l ?n) ?n 1 = (l', len, d)" "txt = lex_text l len"
    using assms(2) by (auto simp: lex_var_def split: prod.splits)
  with c assms(1) show ?thesis
    by (intro lexeme_loopI [OF lex_var_loop_reaches lex_reaches_advance_n _ _ lex_var_loop_len]) auto
qed

lemma lex_ident_lexeme:
  assumes "\<not> at_end l" "trivia_stop l" "\<not> ident_break (current l)" "current l \<noteq> CHR ''$''"
    "lex_ident_loop l 0 = (l', len)"
  shows "lexeme_ok l (lex_text l len) l'"
proof (rule lexeme_okI)
  have "l' \<noteq> l"
  proof
    assume "l' = l"
    have "cursor (advance l) \<le> cursor l'"
      using assms by (auto simp: lex_ident_loop.simps [of l] trivia_stop_def split: if_splits
          dest!: lex_ident_loop_reaches lex_reaches_cursor intro: order_trans advance_cursor_le)
    then show False using \<open>l' = l\<close> assms(1) by (simp add: advance_cursor)
  qed
  then obtain n where "l' = advance_n l n" "n \<noteq> 0"
    using lex_ident_loop_reaches [OF assms(5)] by (metis advance_n.simps(1) lex_reaches_def)
  then have "cursor l < cursor l'"
    using left_advance_n [of l n] assms(1) by (auto simp: left_def)
  then show "0 < len" using lex_ident_loop_len [OF assms(5)] by simp
qed (use lex_ident_loop_len [OF assms(5)] lex_ident_loop_reaches [OF assms(5)] in simp_all)

lemma lex_dollar_lexeme:
  assumes "current l = CHR ''$''" "lex_dollar l = (k, txt, l')"
  shows "lexeme_ok l txt l'"
  using assms current_dollar_in [OF assms(1)]
  by (auto simp: lex_dollar_def lex_genex_lexeme lex_var_lexeme advance_lexeme split: if_splits)

lemma lex_visible_lexeme:
  assumes "\<not> at_end l" "trivia_stop l" "lex_visible l = (k, txt, l')"
  shows "lexeme_ok l txt l'"
proof -
  have sp: "\<not> c_isspace (current l)" "current l \<noteq> CHR ''#''"
    using assms(1,2) by (auto simp: trivia_stop_def)
  consider (punct) "txt = lex_text l (Suc 0)" "l' = advance l" | (str) "lex_string l = (k, txt, l')"
    | (raw) "0 < get_bracket_open_len l" "lex_raw_string l (get_bracket_open_len l) = (k, txt, l')"
    | (dollar) "current l = CHR ''$''" "lex_dollar l = (k, txt, l')"
    | (ident) len where "\<not> ident_break (current l)" "current l \<noteq> CHR ''$''"
        "lex_ident_loop l 0 = (l', len)" "txt = lex_text l len"
    using assms(3) sp by (auto simp: lex_visible_def Let_def ident_break_def split: if_splits prod.splits)
  then show ?thesis
    using assms by cases (auto simp: advance_lexeme lex_string_lexeme lex_raw_lexeme
        lex_dollar_lexeme lex_ident_lexeme)
qed

lemma lex_visible_kind: "lex_visible l = (k, txt, l') \<Longrightarrow> k \<noteq> TOKEN_END"
  by (auto simp: lex_visible_def lex_string_def lex_raw_string_def lex_dollar_def lex_genex_def
      lex_var_def Let_def split: if_splits prod.splits)

lemma lexer_next_cases:
  assumes "lexer_next l = (t, l')"
  obtains (finish) "tok_kind t = TOKEN_END" "at_end (skip_trivia l)" "l' = skip_trivia l" "tok_text t = []"
  | (tok) "\<not> at_end (skip_trivia l)" "lex_visible (skip_trivia l) = (tok_kind t, tok_text t, l')"
      "lexeme_ok (skip_trivia l) (tok_text t) l'" "tok_kind t \<noteq> TOKEN_END"
  using assms lex_visible_lexeme [OF _ skip_trivia_stop] lex_visible_kind
  by (cases "lex_visible (skip_trivia l)") (auto simp: lexer_next_def Let_def split: if_splits)

lemma lexer_next_reaches: "lexer_next l = (t, l') \<Longrightarrow> lex_reaches l l'"
  by (erule lexer_next_cases)
     (auto simp: lexeme_ok_def intro: skip_trivia_reaches lex_reaches_trans)

subsection \<open>Line and column are functions of the cursor\<close>

primrec line_start :: "string \<Rightarrow> nat \<Rightarrow> nat" where
  "line_start s 0 = 0"
| "line_start s (Suc i) = (if s ! i = NL then Suc i else line_start s i)"

lemma line_start_le: "line_start s i \<le> i"
  by (induction i) auto

text \<open>\<open>line_start\<close> is the index after the last newline before \<open>i\<close>.\<close>

lemma line_start_newline: "0 < line_start s i \<Longrightarrow> s ! (line_start s i - 1) = NL"
  by (induction i) auto

lemma line_start_clean: "line_start s i \<le> k \<Longrightarrow> k < i \<Longrightarrow> s ! k \<noteq> NL"
  by (induction i) (auto simp: less_Suc_eq split: if_splits)

definition newlines_before :: "string \<Rightarrow> nat \<Rightarrow> nat" where
  "newlines_before s i = count_list (take i s) NL"

definition lex_inv :: "lexer \<Rightarrow> bool" where
  "lex_inv l \<longleftrightarrow> cursor l \<le> length (content l) \<and>
     line l = newlines_before (content l) (cursor l) + 1 \<and>
     bol l = line_start (content l) (cursor l)"

lemma lex_inv_init: "lex_inv (lexer_init s)"
  by (simp add: lex_inv_def lexer_init_def newlines_before_def)

lemma lex_inv_advance: "lex_inv l \<Longrightarrow> lex_inv (advance l)"
  by (auto simp: lex_inv_def advance_def Let_def newlines_before_def current_def peek_def
      take_Suc_conv_app_nth)

lemma lex_inv_reaches: "lex_reaches l l' \<Longrightarrow> lex_inv l \<Longrightarrow> lex_inv l'"
proof -
  have "lex_inv l \<Longrightarrow> lex_inv (advance_n l n)" for n
    by (induction n arbitrary: l) (auto intro: lex_inv_advance)
  then show "lex_reaches l l' \<Longrightarrow> lex_inv l \<Longrightarrow> lex_inv l'" by (auto simp: lex_reaches_def)
qed

subsection \<open>The token stream\<close>

lemma lexer_next_progress:
  assumes "lexer_next l = (t, l')" "tok_kind t \<noteq> TOKEN_END"
  shows "left l' < left l"
  using assms(1)
proof (cases rule: lexer_next_cases)
  case tok
  have "cursor l \<le> cursor (skip_trivia l)" "content (skip_trivia l) = content l"
    by (simp_all add: lex_reaches_cursor lex_reaches_content skip_trivia_reaches)
  moreover have "content l' = content l"
    using lex_reaches_content lexer_next_reaches [OF assms(1)] by blast
  ultimately show ?thesis
    using tok(1,3) by (auto simp: left_def lexeme_ok_def at_end_def)
qed (use assms in simp)

text \<open>
  The loop of \<open>flow_parse_inline_script\<close> (and of every other caller): call \<open>lexer_next\<close>,
  stop at \<open>TOKEN_END\<close>, collect the other tokens. It terminates by \<open>lexer_next_progress\<close>.
\<close>

function lex_all :: "lexer \<Rightarrow> token list" where
  "lex_all l =
     (if tok_kind (fst (lexer_next l)) = TOKEN_END then []
      else fst (lexer_next l) # lex_all (snd (lexer_next l)))"
  by pat_completeness auto
termination
  by (relation "measure left") (auto intro: lexer_next_progress [OF surjective_pairing])

declare lex_all.simps [simp del]

definition tokenize :: "string_view \<Rightarrow> token list" where
  "tokenize s = lex_all (lexer_init s)"

text \<open>What the stream leaves out: the trivia before each token and after the last one.\<close>

definition trivia_text :: "lexer \<Rightarrow> string_view" where
  "trivia_text l = take (cursor (skip_trivia l) - cursor l) (drop (cursor l) (content l))"

function lex_gaps :: "lexer \<Rightarrow> string_view list" where
  "lex_gaps l =
     (if tok_kind (fst (lexer_next l)) = TOKEN_END then [trivia_text l]
      else trivia_text l # lex_gaps (snd (lexer_next l)))"
  by pat_completeness auto
termination
  by (relation "measure left") (auto intro: lexer_next_progress [OF surjective_pairing])

declare lex_gaps.simps [simp del]

fun interleave :: "string_view list \<Rightarrow> string_view list \<Rightarrow> string_view" where
  "interleave (g # gs) (x # xs) = g @ x @ interleave gs xs"
| "interleave gs xs = concat gs @ concat xs"

lemma length_lex_gaps: "length (lex_gaps l) = Suc (length (lex_all l))"
  by (induction l rule: lex_all.induct) (simp add: lex_gaps.simps lex_all.simps)

lemma lexer_next_slices:
  assumes "lexer_next l = (t, l')"
  shows "drop (cursor l) (content l) = trivia_text l @ tok_text t @ drop (cursor l') (content l')"
proof -
  let ?m = "skip_trivia l"
  have m: "cursor l \<le> cursor ?m" "content ?m = content l"
    by (simp_all add: lex_reaches_cursor lex_reaches_content skip_trivia_reaches)
  have 1: "drop (cursor l) (content l) = trivia_text l @ drop (cursor ?m) (content l)"
    using m append_take_drop_id [of "cursor ?m - cursor l" "drop (cursor l) (content l)"]
    by (simp add: trivia_text_def)
  have "drop (cursor ?m) (content l) = tok_text t @ drop (cursor l') (content l')"
    using assms
  proof (cases rule: lexer_next_cases)
    case tok
    then show ?thesis
      using m append_take_drop_id [of "cursor l' - cursor ?m" "drop (cursor ?m) (content l)"]
        lex_reaches_content [OF lexer_next_reaches [OF assms]]
      by (simp add: lexeme_ok_def)
  qed (use m in \<open>simp_all\<close>)
  with 1 show ?thesis by simp
qed

lemma lex_all_end: "tok_kind (fst (lexer_next l)) = TOKEN_END \<Longrightarrow>
  drop (cursor l) (content l) = trivia_text l"
  by (rule lexer_next_cases [OF surjective_pairing, of l])
     (use lexer_next_slices [OF surjective_pairing, of l] in \<open>auto simp: at_end_def\<close>)

lemma lex_all_interleave:
  "drop (cursor l) (content l) = interleave (lex_gaps l) (map tok_text (lex_all l))"
proof (induction l rule: lex_all.induct)
  case (1 l)
  then show ?case
    using lexer_next_slices [OF surjective_pairing, of l] lex_all_end [of l]
    by (simp add: lex_all.simps [of l] lex_gaps.simps [of l])
qed

lemma lex_all_length: "length (lex_all l) \<le> left l"
proof (induction l rule: lex_all.induct)
  case (1 l)
  then show ?case
    using lexer_next_progress [OF surjective_pairing, of l]
    by (auto simp: lex_all.simps [of l])
qed

lemma lex_all_gap_space:
  "i < length (lex_all l) \<Longrightarrow> has_space_left (lex_all l ! i) \<longleftrightarrow> lex_gaps l ! i \<noteq> []"
proof (induction l arbitrary: i rule: lex_all.induct)
  case (1 l)
  have "at_end l \<Longrightarrow> skip_trivia l = l" by (simp add: skip_trivia.simps)
  then have "has_space_left (fst (lexer_next l)) \<longleftrightarrow> trivia_text l \<noteq> []"
    using lex_reaches_bound [OF skip_trivia_reaches, of l] lex_reaches_cursor [OF skip_trivia_reaches, of l]
    by (auto simp: lexer_next_def Let_def trivia_text_def at_end_def lex_reaches_content [OF skip_trivia_reaches]
        split: prod.splits)
  with 1 show ?case
    by (cases i) (auto simp: lex_all.simps [of l] lex_gaps.simps [of l] split: if_splits)
qed

lemma lex_all_nonempty: "t \<in> set (lex_all l) \<Longrightarrow> tok_text t \<noteq> [] \<and> tok_kind t \<noteq> TOKEN_END"
proof (induction l rule: lex_all.induct)
  case (1 l)
  have "tok_kind (fst (lexer_next l)) \<noteq> TOKEN_END \<Longrightarrow> tok_text (fst (lexer_next l)) \<noteq> []"
    by (rule lexer_next_cases [OF surjective_pairing, of l])
       (auto simp: lexeme_ok_def at_end_def lex_reaches_content)
  with 1 show ?case by (auto simp: lex_all.simps [of l] split: if_splits)
qed

end
