(* ===== verification/Cmk_Lexer_Grammar.thy ===== *)
theory Cmk_Lexer_Grammar
  imports Cmk_Lexer_Facts
begin

text \<open>
  The shape of the lexer's tokens, read off the unread input: bracket arguments are an
  opener, a body without an earlier closer, and the closer with the same number of \<open>=\<close>;
  quoted strings are a body whose inner quotes are escaped; identifiers hold no unescaped
  separator; and an invalid token is always an unterminated construct that runs to the
  end of the input.
\<close>

subsection \<open>The unread input\<close>

definition rest :: "lexer \<Rightarrow> string" where
  "rest l = drop (cursor l) (content l)"

lemma rest_Nil_iff: "rest l = [] \<longleftrightarrow> at_end l"
  by (auto simp: rest_def at_end_def)

lemma rest_advance [simp]: "rest (advance l) = tl (rest l)"
  by (auto simp: rest_def advance_cursor at_end_def drop_Suc tl_drop)

lemma rest_advance_n [simp]: "rest (advance_n l n) = drop n (rest l)"
  by (induction n arbitrary: l) (auto simp: drop_Suc)

lemma peek_rest: "peek l k = (if k < length (rest l) then rest l ! k else NUL)"
  by (auto simp: peek_def rest_def)

lemma current_rest: "current l = (case rest l of [] \<Rightarrow> NUL | c # _ \<Rightarrow> c)"
  by (simp add: current_def peek_rest split: list.splits)

lemma lex_text_rest: "lex_text l n = take n (rest l)"
  by (simp add: lex_text_def rest_def)

lemma advance_n_rest_cursor: "n \<le> length (rest l) \<Longrightarrow> cursor (advance_n l n) = cursor l + n"
proof (cases "cursor l \<le> length (content l)")
  case False
  then show "n \<le> length (rest l) \<Longrightarrow> ?thesis" by (simp add: rest_def)
qed (auto simp: advance_n_cursor rest_def)

subsection \<open>Bracket arguments\<close>

definition bracket_opener :: "nat \<Rightarrow> string" where
  "bracket_opener n = CHR ''['' # replicate n CHR ''='' @ ''[''"

definition bracket_closer :: "nat \<Rightarrow> string" where
  "bracket_closer n = CHR '']'' # replicate n CHR ''='' @ '']''"

lemma length_bracket [simp]: "length (bracket_opener n) = n + 2" "length (bracket_closer n) = n + 2"
  by (simp_all add: bracket_opener_def bracket_closer_def)

lemma bracket_nonempty [simp]: "bracket_opener n \<noteq> []" "bracket_closer n \<noteq> []"
  by (simp_all add: bracket_opener_def bracket_closer_def)

lemma fence_prefix_iff:
  "prefix (a # replicate n CHR ''='' @ [b]) r \<longleftrightarrow>
     n + 2 \<le> length r \<and> r ! 0 = a \<and> (\<forall>k\<in>{1..<Suc n}. r ! k = CHR ''='') \<and> r ! (n + 1) = b"
  (is "?P \<longleftrightarrow> ?Q")
proof
  assume ?P
  then obtain s where "r = (a # replicate n CHR ''='' @ [b]) @ s" by (auto elim: prefixE)
  then show ?Q by (auto simp: nth_Cons nth_append split: nat.splits)
next
  assume q: ?Q
  have "take (n + 2) r = a # replicate n CHR ''='' @ [b]"
  proof (rule nth_equalityI)
    fix i
    assume "i < length (take (n + 2) r)"
    then have "i < n + 2" by simp
    moreover have "i = 0 \<or> i \<in> {1..<Suc n} \<or> i = n + 1" using \<open>i < n + 2\<close> by auto
    ultimately show "take (n + 2) r ! i = (a # replicate n CHR ''='' @ [b]) ! i"
      using q by (auto simp: nth_Cons nth_append split: nat.splits)
  qed (use q in simp)
  then show ?P by (metis take_is_prefix)
qed

lemma bracket_close_here_iff: "bracket_close_here l n \<longleftrightarrow> prefix (bracket_closer n) (rest l)"
proof -
  have "bracket_close_here l n \<longleftrightarrow> n + 2 \<le> length (rest l) \<and> rest l ! 0 = CHR '']'' \<and>
      (\<forall>k\<in>{1..<Suc n}. rest l ! k = CHR ''='') \<and> rest l ! (n + 1) = CHR '']''"
    by (auto simp: bracket_close_here_def list_all_iff current_def peek_rest split: if_splits simp del: upt_Suc)
  then show ?thesis unfolding bracket_closer_def by (simp only: fence_prefix_iff)
qed

fun bracket_scan :: "nat \<Rightarrow> string \<Rightarrow> nat" where
  "bracket_scan n [] = 0"
| "bracket_scan n (c # s) =
     (if prefix (bracket_closer n) (c # s) then n + 2 else Suc (bracket_scan n s))"

lemma skip_bracket_scan: "skip_bracket_content l (n + 2) = advance_n l (bracket_scan n (rest l))"
proof (induction l "n + 2" rule: skip_bracket_content.induct)
  case (1 l)
  show ?case
  proof (cases "rest l")
    case Nil
    then have "at_end l" by (simp add: rest_Nil_iff)
    with Nil show ?thesis by (simp add: skip_bracket_content.simps)
  next
    case (Cons c s)
    then have "\<not> at_end l" by (metis list.distinct(1) rest_Nil_iff)
    with 1 Cons show ?thesis
      by (simp add: skip_bracket_content.simps [of l] bracket_close_here_iff)
  qed
qed

text \<open>A body is free when its own bytes do not close the bracket before the real closer does.\<close>

definition bracket_free :: "nat \<Rightarrow> string \<Rightarrow> bool" where
  "bracket_free n s \<longleftrightarrow>
     list_all (\<lambda>i. \<not> prefix (bracket_closer n) (drop i (s @ bracket_closer n))) [0..<length s]"

lemma bracket_free_Cons:
  "bracket_free n (c # s) \<longleftrightarrow>
     \<not> prefix (bracket_closer n) (c # s @ bracket_closer n) \<and> bracket_free n s"
proof -
  have "list_all P [0..<Suc k] \<longleftrightarrow> P 0 \<and> list_all (\<lambda>i. P (Suc i)) [0..<k]" for P k
    by (auto simp: list_all_iff all_set_conv_all_nth less_Suc_eq_0_disj simp del: upt_Suc)
  then show ?thesis by (simp add: bracket_free_def del: upt_Suc)
qed

lemma prefix_closer_app: "prefix p (x @ y) \<Longrightarrow> length p \<le> length x \<Longrightarrow> prefix p x"
  by (metis prefix_length_prefix prefixI)

lemma bracket_scan_free:
  "bracket_free n s \<Longrightarrow> bracket_scan n (s @ bracket_closer n @ r) = length s + (n + 2)"
proof (induction s)
  case Nil
  then show ?case by (cases "bracket_closer n @ r") (auto simp: bracket_closer_def)
next
  case (Cons c s)
  have "\<not> prefix (bracket_closer n) (c # s @ bracket_closer n @ r)"
    using Cons.prems prefix_closer_app [of "bracket_closer n" "c # s @ bracket_closer n" r]
    by (auto simp: bracket_free_Cons)
  with Cons show ?case by (simp add: bracket_free_Cons)
qed

lemma bracket_scan_cases:
  obtains (closed) s r where "w = s @ bracket_closer n @ r" "bracket_free n s"
  | (unclosed) "bracket_scan n w = length w" "\<not> suffix (bracket_closer n) w"
proof (induction w arbitrary: thesis)
  case Nil
  then show ?case by simp
next
  case (Cons c w)
  show ?case
  proof (cases "prefix (bracket_closer n) (c # w)")
    case True
    then obtain r where "c # w = [] @ bracket_closer n @ r" by (auto elim: prefixE)
    then show ?thesis by (rule Cons.prems(1)) (simp add: bracket_free_def)
  next
    case False
    show ?thesis
    proof (rule Cons.IH)
      fix s r
      assume w: "w = s @ bracket_closer n @ r" "bracket_free n s"
      have "\<not> prefix (bracket_closer n) (c # s @ bracket_closer n)"
        using False by (metis append_Cons append_assoc prefix_prefix w(1))
      then show ?thesis
        using w by (intro Cons.prems(1) [of "c # s" r]) (auto simp: bracket_free_Cons)
    next
      assume "bracket_scan n w = length w" "\<not> suffix (bracket_closer n) w"
      then show ?thesis using False by (intro Cons.prems(2)) (auto simp: suffix_Cons)
    qed
  qed
qed

lemma bracket_eqs_rest:
  "bracket_eqs l k = k + length (takeWhile (\<lambda>c. c = CHR ''='') (drop k (rest l)))"
proof (induction l k rule: bracket_eqs.induct)
  case (1 l k)
  show ?case
  proof (cases "k < length (rest l) \<and> rest l ! k = CHR ''=''")
    case True
    then have "drop k (rest l) = CHR ''='' # drop (Suc k) (rest l)"
      by (metis Cons_nth_drop_Suc)
    with True 1 show ?thesis
      by (auto simp: bracket_eqs.simps [of l k] peek_rest rest_def)
  next
    case False
    then have "takeWhile (\<lambda>c. c = CHR ''='') (drop k (rest l)) = []"
      by (cases "drop k (rest l)") (auto dest: drop_eq_ConsD)
    with False show ?thesis
      by (auto simp: bracket_eqs.simps [of l k] peek_rest rest_def)
  qed
qed

lemma dropWhile_ConsD:
  "dropWhile P r = d # s \<Longrightarrow> length (takeWhile P r) < length r \<and> r ! length (takeWhile P r) = d"
  by (metis dropWhile_eq_drop drop_eq_ConsD)

lemma dropWhile_NilD: "dropWhile P r = [] \<Longrightarrow> length (takeWhile P r) = length r"
  by (metis append_Nil2 takeWhile_dropWhile_id)

definition opener_len :: "string \<Rightarrow> nat" where
  "opener_len s = (case s of [] \<Rightarrow> 0 | c # r \<Rightarrow>
     (case dropWhile (\<lambda>c. c = CHR ''='') r of [] \<Rightarrow> 0
      | d # _ \<Rightarrow> if c = CHR ''['' \<and> d = CHR ''['' then length (takeWhile (\<lambda>c. c = CHR ''='') r) + 2 else 0))"

lemma get_bracket_open_rest: "get_bracket_open_len l = opener_len (rest l)"
proof (cases "rest l")
  case (Cons c r)
  let ?n = "length (takeWhile (\<lambda>c. c = CHR ''='') r)"
  have n: "cursor l + k < length (content l) \<longleftrightarrow> k < length (rest l)" for k
    by (auto simp: rest_def)
  have "get_bracket_open_len l =
      (if c = CHR ''['' \<and> ?n < length r \<and> r ! ?n = CHR ''['' then ?n + 2 else 0)"
    using Cons by (simp add: get_bracket_open_len_def bracket_eqs_rest n peek_rest current_rest)
  then show ?thesis
    using Cons dropWhile_NilD [of "\<lambda>c. c = CHR ''=''" r] dropWhile_ConsD [of "\<lambda>c. c = CHR ''=''" r]
    by (cases "dropWhile (\<lambda>c. c = CHR ''='') r") (simp_all add: opener_len_def del: dropWhile_eq_Nil_conv)
qed (simp add: get_bracket_open_len_def current_rest opener_len_def)

lemma bracket_opener_prefix:
  "prefix (bracket_opener n) (c # r) \<longleftrightarrow>
     c = CHR ''['' \<and> takeWhile (\<lambda>c. c = CHR ''='') r = replicate n CHR ''='' \<and>
     (\<exists>s. dropWhile (\<lambda>c. c = CHR ''='') r = CHR ''['' # s)"
  (is "?P \<longleftrightarrow> ?Q")
proof
  assume ?Q
  then obtain s where "c = CHR ''[''" "r = replicate n CHR ''='' @ CHR ''['' # s"
    by (metis takeWhile_dropWhile_id)
  then show ?P by (simp add: bracket_opener_def)
next
  assume ?P
  then obtain s where s: "c = CHR ''[''" "r = replicate n CHR ''='' @ CHR ''['' # s"
    by (auto simp: bracket_opener_def prefix_def)
  have "takeWhile (\<lambda>c. c = CHR ''='') (replicate n CHR ''='' @ CHR ''['' # s) = replicate n CHR ''=''"
    "dropWhile (\<lambda>c. c = CHR ''='') (replicate n CHR ''='' @ CHR ''['' # s) = CHR ''['' # s"
    by (induction n) auto
  with s show ?Q by simp
qed

lemma takeWhile_eq_replicate:
  "takeWhile (\<lambda>c. c = a) r = replicate n a \<longleftrightarrow> length (takeWhile (\<lambda>c. c = a) r) = n"
proof
  have "takeWhile (\<lambda>c. c = a) r = replicate (length (takeWhile (\<lambda>c. c = a) r)) a"
    by (induction r) auto
  then show "length (takeWhile (\<lambda>c. c = a) r) = n \<Longrightarrow> takeWhile (\<lambda>c. c = a) r = replicate n a"
    by simp
qed simp

lemma opener_len_iff: "opener_len s = n + 2 \<longleftrightarrow> prefix (bracket_opener n) s"
proof (cases s)
  case (Cons c r)
  then show ?thesis
    by (cases "dropWhile (\<lambda>c. c = CHR ''='') r")
       (auto simp: opener_len_def bracket_opener_prefix takeWhile_eq_replicate
         simp del: dropWhile_eq_Nil_conv)
qed (simp add: opener_len_def)

lemma opener_len_cases:
  obtains "opener_len s = 0" | n where "opener_len s = n + 2"
  by (cases "opener_len s") (auto simp: opener_len_def split: list.splits if_splits)

lemma has_bracket_closer_iff: "has_bracket_closer s (n + 2) \<longleftrightarrow> suffix (bracket_closer n) s"
proof (cases "n + 2 \<le> length s")
  case True
  let ?d = "drop (length s - (n + 2)) s"
  have "has_bracket_closer s (n + 2) \<longleftrightarrow> n + 2 \<le> length ?d \<and> ?d ! 0 = CHR '']'' \<and>
      (\<forall>k\<in>{1..<Suc n}. ?d ! k = CHR ''='') \<and> ?d ! (n + 1) = CHR '']''"
  proof -
    have i: "length s - (n + 2) + (n + 1) = length s - 1" using True by simp
    show ?thesis using True
      by (simp add: has_bracket_closer_def list_all_iff i
          del: upt_Suc add_2_eq_Suc add_2_eq_Suc' One_nat_def)
  qed
  also have "\<dots> \<longleftrightarrow> prefix (bracket_closer n) ?d"
    unfolding bracket_closer_def by (rule fence_prefix_iff [symmetric])
  also have "\<dots> \<longleftrightarrow> bracket_closer n = ?d"
    using True not_equal_is_parallel [of "bracket_closer n" ?d] by auto
  also have "\<dots> \<longleftrightarrow> suffix (bracket_closer n) s"
    using True by (auto simp: suffix_def) (metis append_take_drop_id)
  finally show ?thesis .
next
  case False
  then show ?thesis by (auto simp: has_bracket_closer_def dest: suffix_length_le)
qed

lemma drop_opener [simp]: "drop (n + 2) (bracket_opener n @ w) = w"
  by (simp del: add_2_eq_Suc add_2_eq_Suc')

lemma closer_no_bracket: "CHR ''['' \<notin> set (bracket_closer n)"
  by (auto simp: bracket_closer_def)

lemma suffix_closer_body:
  "suffix (bracket_closer n) (p @ bracket_opener m @ w) \<longleftrightarrow> suffix (bracket_closer n) w"
proof
  assume a: "suffix (bracket_closer n) (p @ bracket_opener m @ w)"
  have b: "suffix (CHR ''['' # w) (p @ bracket_opener m @ w)"
    by (rule suffixI [of _ "p @ CHR ''['' # replicate m CHR ''=''"]) (simp add: bracket_opener_def)
  from suffix_same_cases [OF a b] show "suffix (bracket_closer n) w"
  proof
    assume "suffix (CHR ''['' # w) (bracket_closer n)"
    then show ?thesis using closer_no_bracket [of n] by (auto dest: set_mono_suffix)
  qed (use closer_no_bracket [of n] in \<open>auto simp: suffix_Cons\<close>)
qed (auto intro: suffix_appendI)

text \<open>
  The scanner of a bracket argument, in both directions: a terminated one is exactly an
  opener, a free body and its closer; anything else runs to the end and is invalid.
\<close>

lemma lex_raw_closed:
  assumes "rest l = bracket_opener n @ s @ bracket_closer n @ r" "bracket_free n s"
  shows "lex_raw_string l (n + 2) =
    (TOKEN_RAW_STRING, bracket_opener n @ s @ bracket_closer n,
     advance_n l (length (bracket_opener n @ s @ bracket_closer n)))"
proof -
  let ?l1 = "advance_n l (n + 2)"
  have "rest ?l1 = s @ bracket_closer n @ r" unfolding rest_advance_n assms(1) by (rule drop_opener)
  then have 2: "skip_bracket_content ?l1 (n + 2) = advance_n l (n + 2 + (length s + (n + 2)))"
    using assms(2) by (simp only: skip_bracket_scan bracket_scan_free advance_n_add)
  have c: "cursor (advance_n l k) = cursor l + k" if "k \<le> length (rest l)" for k
    using that by (rule advance_n_rest_cursor)
  have "content l = take (cursor l) (content l) @ rest l" by (simp add: rest_def)
  then have suf: "r = [] \<Longrightarrow> suffix (bracket_closer n) (content l)"
    using assms(1) by (metis append.assoc append_Nil2 suffixI)
  have r: "rest (advance_n l (n + 2 + (length s + (n + 2)))) = r"
    unfolding advance_n_add rest_advance_n assms(1) drop_opener by simp
  have kind: "\<not> (at_end (advance_n l (n + 2 + (length s + (n + 2)))) \<and>
      \<not> has_bracket_closer (content l) (n + 2))"
    unfolding rest_Nil_iff [symmetric] r has_bracket_closer_iff using suf by blast
  have "cursor (advance_n l (n + 2 + (length s + (n + 2)))) - cursor ?l1 = length s + (n + 2)"
    using assms(1) by (subst (1 2) c) simp_all
  with kind assms(1) show ?thesis
    by (simp add: lex_raw_string_def 2 Let_def lex_text_rest del: add_2_eq_Suc add_2_eq_Suc')
qed

lemma lex_raw_unclosed:
  assumes "rest l = bracket_opener n @ w" "bracket_scan n w = length w" "\<not> suffix (bracket_closer n) w"
  shows "lex_raw_string l (n + 2) = (TOKEN_INVALID, rest l, advance_n l (length (rest l)))"
proof -
  let ?l1 = "advance_n l (n + 2)"
  have "rest ?l1 = w" unfolding rest_advance_n assms(1) by (rule drop_opener)
  then have 2: "skip_bracket_content ?l1 (n + 2) = advance_n l (n + 2 + length w)"
    using assms(2) by (simp only: skip_bracket_scan advance_n_add)
  have c: "cursor (advance_n l k) = cursor l + k" if "k \<le> length (rest l)" for k
    using that by (rule advance_n_rest_cursor)
  have "content l = take (cursor l) (content l) @ bracket_opener n @ w"
    using assms(1) by (metis append_take_drop_id rest_def)
  then have "\<not> has_bracket_closer (content l) (n + 2)"
    unfolding has_bracket_closer_iff by (metis assms(3) suffix_closer_body)
  moreover have "at_end (advance_n l (n + 2 + length w))"
    using assms(1) by (simp flip: rest_Nil_iff)
  moreover have "cursor (advance_n l (n + 2 + length w)) - cursor ?l1 = length w"
    using assms(1) by (subst (1 2) c) simp_all
  ultimately show ?thesis using assms(1)
    by (simp add: lex_raw_string_def 2 Let_def lex_text_rest del: add_2_eq_Suc add_2_eq_Suc')
qed

subsection \<open>Quoted strings\<close>

fun dq_body :: "string \<Rightarrow> bool" where
  "dq_body [] = True"
| "dq_body (c # s) =
     (if c = DQUOTE then False
      else if c = BACKSLASH then (case s of [] \<Rightarrow> False | d # s' \<Rightarrow> dq_body s')
      else dq_body s)"

lemma at_end_rest: "at_end l \<longleftrightarrow> rest l = []"
  by (simp add: rest_Nil_iff)

lemma lex_string_loop_closed:
  "rest l = s @ DQUOTE # r \<Longrightarrow> dq_body s \<Longrightarrow>
   lex_string_loop l len = (advance_n l (Suc (length s)), len + Suc (length s), True)"
proof (induction s arbitrary: l len rule: dq_body.induct)
  case 1
  then show ?case by (simp add: lex_string_loop.simps [of l] at_end_rest current_rest)
next
  case (2 c s)
  then show ?case
    by (auto simp: lex_string_loop.simps [of l] at_end_rest current_rest split: if_splits list.splits)
qed

lemma lex_string_loop_result:
  assumes "lex_string_loop l len = (l', len', closed)"
  shows "if closed then \<exists>s. dq_body s \<and> rest l = s @ DQUOTE # rest l' \<and> len' = len + Suc (length s)
         else at_end l' \<and> len' = len + length (rest l)"
  using assms
proof (induction l len rule: lex_string_loop.induct)
  case (1 l len)
  consider (e) "rest l = []" | (q) r where "rest l = DQUOTE # r"
    | (b) d r where "rest l = BACKSLASH # d # r" | (b1) "rest l = [BACKSLASH]"
    | (o) c r where "rest l = c # r" "c \<noteq> DQUOTE" "c \<noteq> BACKSLASH"
    by (metis neq_Nil_conv)
  then show ?case
  proof cases
    case e
    with 1 show ?thesis by (auto simp: lex_string_loop.simps [of l] at_end_rest)
  next
    case q
    with 1 show ?thesis
      by (auto simp: lex_string_loop.simps [of l] at_end_rest current_rest intro!: exI [of _ "[]"])
  next
    case (b d r)
    with 1 show ?thesis
      by (auto simp: lex_string_loop.simps [of l] at_end_rest current_rest
          split: if_splits intro: exI [of _ "BACKSLASH # d # _"])
  next
    case b1
    with 1 show ?thesis
      by (auto simp: lex_string_loop.simps [of l] lex_string_loop.simps [of "advance l"]
          at_end_rest current_rest)
  next
    case (o c r)
    with 1 show ?thesis
      by (auto simp: lex_string_loop.simps [of l] at_end_rest current_rest
          split: if_splits intro: exI [of _ "c # _"])
  qed
qed

subsection \<open>Generator expressions and variable references\<close>

lemma lex_genex_loop_end: "lex_genex_loop l len d = (l', len', d') \<Longrightarrow> d' \<noteq> 0 \<Longrightarrow> at_end l'"
proof (induction l len d rule: lex_genex_loop.induct)
  case (1 l len d)
  then show ?case by (auto simp: lex_genex_loop.simps [of l len d] split: if_splits)
qed

lemma lex_var_loop_end: "lex_var_loop l len d = (l', len', d') \<Longrightarrow> d' \<noteq> 0 \<Longrightarrow> at_end l'"
proof (induction l len d rule: lex_var_loop.induct)
  case (1 l len d)
  then show ?case by (auto simp: lex_var_loop.simps [of l len d] split: if_splits)
qed

text \<open>Depth of a body: what the nesting loop would count over a whole text.\<close>

fun angle_depth :: "string \<Rightarrow> nat \<Rightarrow> nat option" where
  "angle_depth [] d = Some d"
| "angle_depth (c # s) d =
     (if d = 0 then None else angle_depth s (nest_depth CHR ''<'' CHR ''>'' c d))"

lemma lex_genex_loop_depth:
  "lex_genex_loop l len d = (l', len', d') \<Longrightarrow>
   \<exists>s. rest l = s @ rest l' \<and> len' = len + length s \<and> angle_depth s d = Some d'"
proof (induction l len d rule: lex_genex_loop.induct)
  case (1 l len d)
  show ?case
  proof (cases "\<not> at_end l \<and> d > 0")
    case True
    then obtain c r where "rest l = c # r" by (metis at_end_rest neq_Nil_conv)
    with 1 True show ?thesis
      by (auto simp: lex_genex_loop.simps [of l len d] current_rest intro: exI [of _ "c # _"])
  qed (use 1 in \<open>auto simp: lex_genex_loop.simps [of l len d]\<close>)
qed

subsection \<open>Identifiers\<close>

fun ident_ok :: "string \<Rightarrow> bool" where
  "ident_ok [] = True"
| "ident_ok (c # s) =
     (if c = BACKSLASH then (case s of [] \<Rightarrow> True | d # s' \<Rightarrow> ident_ok s')
      else \<not> ident_break c \<and> ident_ok s)"

lemma lex_ident_loop_ok:
  "lex_ident_loop l len = (l', len') \<Longrightarrow>
   \<exists>s. rest l = s @ rest l' \<and> len' = len + length s \<and> ident_ok s"
proof (induction l len rule: lex_ident_loop.induct)
  case (1 l len)
  consider (stop) "lex_ident_loop l len = (l, len)"
    | (b) d r where "rest l = BACKSLASH # d # r" | (b1) "rest l = [BACKSLASH]"
    | (o) c r where "rest l = c # r" "c \<noteq> BACKSLASH" "\<not> ident_break c"
    by (cases "rest l"; cases "tl (rest l)"; cases "ident_break (hd (rest l))")
       (auto simp: lex_ident_loop.simps [of l len] at_end_rest current_rest)
  then show ?case
  proof cases
    case stop
    with 1 show ?thesis by auto
  next
    case (b d r)
    with 1 show ?thesis
      by (auto simp: lex_ident_loop.simps [of l len] at_end_rest current_rest ident_break_def c_isspace_def
          split: if_splits intro: exI [of _ "BACKSLASH # d # _"])
  next
    case b1
    with 1 show ?thesis
      by (auto simp: lex_ident_loop.simps [of l len] lex_ident_loop.simps [of "advance l"]
          at_end_rest current_rest split: if_splits intro!: exI [of _ "[BACKSLASH]"])
  next
    case (o c r)
    with 1 show ?thesis
      by (auto simp: lex_ident_loop.simps [of l len] at_end_rest current_rest
          split: if_splits intro: exI [of _ "c # _"])
  qed
qed

end
