(* ===== verification/Cmk_Lexer_Props.thy ===== *)
theory Cmk_Lexer_Props
  imports Cmk_Lexer_Grammar
begin

text \<open>
  The lexer's contract: the interface \<open>token_stream\<close> that every caller's
  read-until-end loop relies on, its interpretation on \<open>lexer_next\<close>, and the properties of
  the scanner as a whole.
\<close>

subsection \<open>The interface of a token source\<close>

locale token_stream =
  fixes next_tok :: "'s \<Rightarrow> 't \<times> 's"
    and is_end :: "'t \<Rightarrow> bool"
    and remaining :: "'s \<Rightarrow> nat"
  assumes progress: "\<not> is_end (fst (next_tok s)) \<Longrightarrow> remaining (snd (next_tok s)) < remaining s"
begin

text \<open>The callers' loop with a call budget \<open>n\<close>: \<open>None\<close> when the budget ran out.\<close>

fun drain :: "nat \<Rightarrow> 's \<Rightarrow> 't list option" where
  "drain 0 s = None"
| "drain (Suc n) s =
     (if is_end (fst (next_tok s)) then Some []
      else map_option ((#) (fst (next_tok s))) (drain n (snd (next_tok s))))"

lemma drain_enough: "remaining s < n \<Longrightarrow> \<exists>ts. drain n s = Some ts \<and> length ts \<le> remaining s"
proof (induction n arbitrary: s)
  case (Suc n)
  show ?case
  proof (cases "is_end (fst (next_tok s))")
    case False
    then have "remaining (snd (next_tok s)) < remaining s" by (rule progress)
    with Suc.IH [of "snd (next_tok s)"] Suc.prems False show ?thesis by fastforce
  qed simp
qed simp

lemma drain_mono: "drain n s = Some ts \<Longrightarrow> drain (n + k) s = Some ts"
proof (induction n arbitrary: s ts)
  case (Suc n)
  show ?case
  proof (cases "is_end (fst (next_tok s))")
    case False
    with Suc.prems obtain us where "drain n (snd (next_tok s)) = Some us" "ts = fst (next_tok s) # us"
      by (auto simp: map_option_case split: option.splits)
    with Suc.IH False show ?thesis by simp
  qed (use Suc.prems in simp)
qed simp

end

lemma lexer_next_progress_snd:
  "tok_kind (fst (lexer_next l)) \<noteq> TOKEN_END \<Longrightarrow> left (snd (lexer_next l)) < left l"
  by (rule lexer_next_progress [OF surjective_pairing])

interpretation lx: token_stream lexer_next "\<lambda>t. tok_kind t = TOKEN_END" left
  by unfold_locales (rule lexer_next_progress_snd)

lemma drain_lex_all: "left l < n \<Longrightarrow> lx.drain n l = Some (lex_all l)"
proof (induction n arbitrary: l)
  case (Suc n)
  show ?case
  proof (cases "tok_kind (fst (lexer_next l)) = TOKEN_END")
    case False
    then have "left (snd (lexer_next l)) < n" using lx.progress [of l] Suc.prems by linarith
    then show ?thesis using Suc.IH False by (simp add: lex_all.simps [of l])
  qed (simp add: lex_all.simps [of l])
qed simp

subsection \<open>Token kinds and their texts\<close>

lemma current_hd: "\<not> at_end l \<Longrightarrow> rest l = current l # tl (rest l)"
  by (cases "rest l") (auto simp: at_end_rest current_rest)

lemma lex_dollar_kind:
  "lex_dollar l = (k, txt, l') \<Longrightarrow> k \<in> {TOKEN_GEN_EXP, TOKEN_VAR, TOKEN_INVALID, TOKEN_IDENTIFIER}"
  by (auto simp: lex_dollar_def lex_genex_def lex_var_def split: if_splits prod.splits)

lemma lex_visible_string_iff:
  "fst (lex_visible l) = TOKEN_STRING \<longleftrightarrow> current l = DQUOTE \<and> fst (lex_string l) = TOKEN_STRING"
  by (cases "lex_dollar l")
     (auto simp: lex_visible_def Let_def lex_raw_string_def dest: lex_dollar_kind split: prod.splits)

lemma lex_visible_raw_iff:
  "fst (lex_visible l) = TOKEN_RAW_STRING \<longleftrightarrow>
     0 < get_bracket_open_len l \<and> fst (lex_raw_string l (get_bracket_open_len l)) = TOKEN_RAW_STRING"
  by (cases "lex_dollar l")
     (auto simp: lex_visible_def Let_def lex_string_def dest: lex_dollar_kind bracket_open_in split: prod.splits)

lemma lexer_next_visible:
  "\<not> at_end (skip_trivia l) \<Longrightarrow>
     tok_kind (fst (lexer_next l)) = fst (lex_visible (skip_trivia l)) \<and>
     tok_text (fst (lexer_next l)) = fst (snd (lex_visible (skip_trivia l))) \<and>
     snd (lexer_next l) = snd (snd (lex_visible (skip_trivia l)))"
  by (simp add: lexer_next_def Let_def split: prod.splits)

lemma lexer_next_end:
  "at_end (skip_trivia l) \<Longrightarrow> tok_kind (fst (lexer_next l)) = TOKEN_END \<and> snd (lexer_next l) = skip_trivia l"
  by (simp add: lexer_next_def Let_def)

lemma lex_string_iff:
  assumes "rest l = DQUOTE # w"
  shows "(\<exists>s r. w = s @ DQUOTE # r \<and> dq_body s \<and> txt = DQUOTE # s @ [DQUOTE] \<and> rest l' = r)
     \<longleftrightarrow> fst (lex_string l) = TOKEN_STRING \<and> fst (snd (lex_string l)) = txt \<and>
         rest (snd (snd (lex_string l))) = rest l'"
proof (cases "lex_string_loop (advance l) 1")
  case (fields m len closed)
  note res = lex_string_loop_result [OF fields]
  show ?thesis
  proof
    assume "\<exists>s r. w = s @ DQUOTE # r \<and> dq_body s \<and> txt = DQUOTE # s @ [DQUOTE] \<and> rest l' = r"
    then obtain s where s: "w = s @ DQUOTE # rest l'" "dq_body s" "txt = DQUOTE # s @ [DQUOTE]" by blast
    then have "rest (advance l) = s @ DQUOTE # rest l'" using assms by simp
    from lex_string_loop_closed [OF this s(2), of 1] fields
    have m: "m = advance_n (advance l) (Suc (length s))" "len = Suc (Suc (length s))" closed by simp_all
    have "rest m = drop (Suc (length s)) (s @ DQUOTE # rest l')"
      unfolding m(1) rest_advance_n using s(1) assms by simp
    also have "\<dots> = rest l'" by simp
    finally have "rest m = rest l'" .
    with m fields s assms show "fst (lex_string l) = TOKEN_STRING \<and> fst (snd (lex_string l)) = txt \<and>
         rest (snd (snd (lex_string l))) = rest l'"
      by (simp add: lex_string_def lex_text_rest)
  next
    assume a: "fst (lex_string l) = TOKEN_STRING \<and> fst (snd (lex_string l)) = txt \<and>
         rest (snd (snd (lex_string l))) = rest l'"
    with fields have closed and r: "rest m = rest l'" and t: "txt = lex_text l len"
      by (auto simp: lex_string_def split: if_splits)
    with res assms obtain s where s: "dq_body s" "w = s @ DQUOTE # rest l'" "len = Suc (Suc (length s))"
      by auto
    with t assms show "\<exists>s r. w = s @ DQUOTE # r \<and> dq_body s \<and> txt = DQUOTE # s @ [DQUOTE] \<and> rest l' = r"
      by (auto simp: lex_text_rest)
  qed
qed

lemma lex_raw_iff:
  "(\<exists>n s r. rest l = bracket_opener n @ s @ bracket_closer n @ r \<and> bracket_free n s \<and>
      txt = bracket_opener n @ s @ bracket_closer n \<and> rest l' = r)
   \<longleftrightarrow> 0 < get_bracket_open_len l \<and>
       fst (lex_raw_string l (get_bracket_open_len l)) = TOKEN_RAW_STRING \<and>
       fst (snd (lex_raw_string l (get_bracket_open_len l))) = txt \<and>
       rest (snd (snd (lex_raw_string l (get_bracket_open_len l)))) = rest l'"
  (is "?G \<longleftrightarrow> ?R")
proof
  assume ?G
  then obtain n s where s: "rest l = bracket_opener n @ s @ bracket_closer n @ rest l'"
      "bracket_free n s" "txt = bracket_opener n @ s @ bracket_closer n" by blast
  then have "get_bracket_open_len l = n + 2" 
    unfolding get_bracket_open_rest opener_len_iff by (simp add: s(1))
  moreover have "rest (advance_n l (length (bracket_opener n @ s @ bracket_closer n))) = rest l'"
    unfolding rest_advance_n s(1) by simp
  ultimately show ?R using lex_raw_closed [OF s(1,2)] s(3) by simp
next
  assume r: ?R
  then obtain n where n: "get_bracket_open_len l = n + 2"
    by (auto simp: get_bracket_open_rest intro: opener_len_cases [of "rest l"])
  then have "prefix (bracket_opener n) (rest l)"
    unfolding opener_len_iff [symmetric] get_bracket_open_rest .
  then obtain w where w: "rest l = bracket_opener n @ w" by (elim prefixE)
  show ?G
  proof (cases rule: bracket_scan_cases [of w n])
    case (closed s u)
    with w have l: "rest l = bracket_opener n @ s @ bracket_closer n @ u" by simp
    have "rest (advance_n l (length (bracket_opener n @ s @ bracket_closer n))) = u"
      unfolding rest_advance_n l by simp
    with r n lex_raw_closed [OF l closed(2)] l closed show ?thesis by auto
  next
    case unclosed
    with r n lex_raw_unclosed [OF w] show ?thesis by simp
  qed
qed

lemma rest_content_eq: "content l = content l' \<Longrightarrow> cursor l \<le> length (content l) \<Longrightarrow>
  cursor l' \<le> length (content l) \<Longrightarrow> rest l = rest l' \<Longrightarrow> cursor l = cursor l'"
  by (metis diff_diff_cancel length_drop rest_def)

lemma lex_dollar_invalid: "fst (lex_dollar l) = TOKEN_INVALID \<Longrightarrow> at_end (snd (snd (lex_dollar l)))"
  by (auto simp: lex_dollar_def lex_genex_def lex_var_def split: if_splits prod.splits
      dest: lex_genex_loop_end lex_var_loop_end)

lemma lex_string_invalid: "fst (lex_string l) = TOKEN_INVALID \<Longrightarrow> at_end (snd (snd (lex_string l)))"
  by (auto simp: lex_string_def split: if_splits prod.splits dest: lex_string_loop_result)

lemma lex_raw_invalid: "fst (lex_raw_string l n) = TOKEN_INVALID \<Longrightarrow> at_end (snd (snd (lex_raw_string l n)))"
  by (auto simp: lex_raw_string_def Let_def split: if_splits)

lemma lex_visible_invalid:
  "\<not> c_isspace (current l) \<Longrightarrow> fst (lex_visible l) = TOKEN_INVALID \<Longrightarrow> at_end (snd (snd (lex_visible l)))"
  using lex_dollar_invalid [of l] lex_string_invalid [of l] lex_raw_invalid [of l]
  by (simp add: lex_visible_def Let_def split: if_splits prod.splits)

subsection \<open>Properties\<close>

text \<open>
  C4. The token stream of an input loses nothing and invents nothing: the texts of the
  tokens, interleaved with the skipped trivia, are the input byte for byte; every token has
  a non-empty text (so there are at most as many tokens as bytes), and a token reports a space on its left exactly
  when trivia was skipped before it.
\<close>

theorem tokenize_tiles:
  "interleave (lex_gaps (lexer_init s)) (map tok_text (tokenize s)) = s \<and>
   length (lex_gaps (lexer_init s)) = Suc (length (tokenize s)) \<and>
   list_all (\<lambda>t. tok_text t \<noteq> [] \<and> tok_kind t \<noteq> TOKEN_END) (tokenize s) \<and>
   map has_space_left (tokenize s) = map (\<lambda>g. g \<noteq> []) (butlast (lex_gaps (lexer_init s)))"
proof (intro conjI)
  let ?l = "lexer_init s"
  have l: "content ?l = s" "cursor ?l = 0" by (simp_all add: lexer_init_def)
  show "interleave (lex_gaps ?l) (map tok_text (tokenize s)) = s"
    using lex_all_interleave [of ?l] l by (simp add: tokenize_def)
  show 2: "length (lex_gaps ?l) = Suc (length (tokenize s))"
    by (simp add: tokenize_def length_lex_gaps)
  show "list_all (\<lambda>t. tok_text t \<noteq> [] \<and> tok_kind t \<noteq> TOKEN_END) (tokenize s)"
    by (auto simp: list_all_iff tokenize_def dest: lex_all_nonempty)
  show "map has_space_left (tokenize s) = map (\<lambda>g. g \<noteq> []) (butlast (lex_gaps ?l))"
    using 2 by (intro nth_equalityI) (auto simp: tokenize_def lex_all_gap_space nth_butlast)
qed

text \<open>
  The caller's read-until-\<open>TOKEN_END\<close> loop returns: a budget of one call more than there
  are bytes is enough, and then it collects the whole stream.
\<close>

theorem tokenize_terminates:
  "lx.drain (Suc (length s)) (lexer_init s) = Some (tokenize s) \<and> length (tokenize s) \<le> length s"
proof -
  have "left (lexer_init s) = length s" by (simp add: left_def lexer_init_def)
  then show ?thesis
    using drain_lex_all [of "lexer_init s" "Suc (length s)"] lex_all_length [of "lexer_init s"]
    by (simp add: tokenize_def)
qed

text \<open>
  C36. Source positions are right: for every lexer reached from the start of an input, the
  next token's line is one more than the number of newlines before its first byte, and its
  column is the distance from the start of that line plus one.
\<close>

theorem lexer_next_position:
  assumes "lex_reaches (lexer_init s) l" "p = cursor (skip_trivia l)"
  shows "tok_line (fst (lexer_next l)) = newlines_before s p + 1 \<and>
    tok_col (fst (lexer_next l)) = p - line_start s p + 1 \<and>
    lex_reaches (lexer_init s) (snd (lexer_next l))"
proof -
  let ?m = "skip_trivia l"
  have r: "lex_reaches (lexer_init s) ?m"
    by (rule lex_reaches_trans [OF assms(1) skip_trivia_reaches])
  then have "lex_inv ?m" by (rule lex_inv_reaches) (rule lex_inv_init)
  moreover have "content ?m = s" using lex_reaches_content [OF r] by (simp add: lexer_init_def)
  moreover have "lex_reaches (lexer_init s) (snd (lexer_next l))"
    by (rule lex_reaches_trans [OF assms(1) lexer_next_reaches [OF surjective_pairing]])
  ultimately show ?thesis
    using assms(2) by (simp add: lexer_next_def Let_def lex_inv_def split: prod.splits)
qed

theorem lexer_next_position_witness:
  "tok_line (fst (lexer_next (advance_n (lexer_init (''ab'' @ [NL] @ '' c'')) 2))) = 2 \<and>
   tok_col (fst (lexer_next (advance_n (lexer_init (''ab'' @ [NL] @ '' c'')) 2))) = 2"
proof -
  have "cursor (skip_trivia (advance_n (lexer_init (''ab'' @ [NL] @ '' c'')) 2)) = 4"
    "newlines_before (''ab'' @ [NL] @ '' c'') 4 = 1" "line_start (''ab'' @ [NL] @ '' c'') 4 = 3"
    by code_simp+
  then show ?thesis
    using lexer_next_position [of "''ab'' @ [NL] @ '' c''" "advance_n (lexer_init (''ab'' @ [NL] @ '' c'')) 2" 4]
    by simp
qed

text \<open>
  C27. A bracket argument is recognised exactly: the next token is \<open>TOKEN_RAW_STRING\<close> with a
  given text, leaving a given remainder, if and only if the input after trivia is an opener
  with some number \<open>n\<close> of \<open>=\<close>, a body in which the closer with \<open>n\<close> signs does not
  start before its end, that closer, and the remainder.
\<close>

theorem raw_string_iff:
  "(tok_kind (fst (lexer_next l)) = TOKEN_RAW_STRING \<and> tok_text (fst (lexer_next l)) = txt \<and>
    rest (snd (lexer_next l)) = r) \<longleftrightarrow>
   (\<exists>n s. rest (skip_trivia l) = bracket_opener n @ s @ bracket_closer n @ r \<and>
      bracket_free n s \<and> txt = bracket_opener n @ s @ bracket_closer n)"
proof (cases "at_end (skip_trivia l)")
  case True
  then show ?thesis using lexer_next_end [of l] by (simp add: at_end_rest)
next
  case False
  let ?m = "skip_trivia l"
  have e: "rest (lexer_init r) = r" by (simp add: rest_def lexer_init_def)
  have sep: "get_bracket_open_len ?m > 0 \<Longrightarrow> lex_visible ?m = lex_raw_string ?m (get_bracket_open_len ?m)"
    using bracket_open_in [of ?m] by (simp add: lex_visible_def)
  note lex_raw_iff [of ?m "txt" "lexer_init r", unfolded e]
  then show ?thesis
    using lexer_next_visible [OF False] lex_visible_raw_iff [of ?m] sep by (auto 0 4)
qed

text \<open>
  C28. A quoted argument is recognised exactly: the next token is \<open>TOKEN_STRING\<close> if and only
  if the input after trivia is a quote, a body in which every inner quote is escaped and no
  backslash dangles, and a closing quote; the token's text is that slice with both quotes.
\<close>

theorem quoted_string_iff:
  "(tok_kind (fst (lexer_next l)) = TOKEN_STRING \<and> tok_text (fst (lexer_next l)) = txt \<and>
    rest (snd (lexer_next l)) = r) \<longleftrightarrow>
   (\<exists>s. rest (skip_trivia l) = DQUOTE # s @ DQUOTE # r \<and> dq_body s \<and> txt = DQUOTE # s @ [DQUOTE])"
proof (cases "at_end (skip_trivia l)")
  case True
  then show ?thesis using lexer_next_end [of l] by (simp add: at_end_rest)
next
  case False
  let ?m = "skip_trivia l"
  have e: "rest (lexer_init r) = r" by (simp add: rest_def lexer_init_def)
  show ?thesis
  proof (cases "current ?m = DQUOTE")
    case True
    with current_hd [OF False] obtain w where q: "rest ?m = DQUOTE # w" by metis
    have "lex_visible ?m = lex_string ?m" using True by (simp add: lex_visible_def)
    then show ?thesis
      using lexer_next_visible [OF False] lex_string_iff [OF q, of "txt" "lexer_init r"]
      unfolding e q by simp
  next
    case no: False
    then show ?thesis
      using lexer_next_visible [OF False] lex_visible_string_iff [of ?m] current_hd [OF False] by auto
  qed
qed

text \<open>
  An identifier or unquoted argument never swallows a separator: in the text of a
  \<open>TOKEN_IDENTIFIER\<close>, white space, parentheses, quotes, \<open>#\<close> and \<open>;\<close> occur only right
  after a backslash.
\<close>

theorem identifier_text:
  assumes "tok_kind (fst (lexer_next l)) = TOKEN_IDENTIFIER"
  shows "ident_ok (tok_text (fst (lexer_next l)))"
proof (cases "at_end (skip_trivia l)")
  case False
  let ?m = "skip_trivia l"
  note v = lexer_next_visible [OF False]
  consider (d) "current ?m = CHR ''$''" "fst (snd (lex_visible ?m)) = lex_text ?m 1"
    | (i) l' len where "lex_ident_loop ?m 0 = (l', len)" "fst (snd (lex_visible ?m)) = lex_text ?m len"
    using assms v
    by (auto simp: lex_visible_def Let_def lex_dollar_def lex_string_def lex_raw_string_def
        lex_genex_def lex_var_def split: if_splits prod.splits)
  then show ?thesis
  proof cases
    case d
    then have "tok_text (fst (lexer_next l)) = ''$''"
      using v current_hd [OF False] by (cases "rest ?m") (simp_all add: lex_text_rest)
    then show ?thesis by (simp add: ident_break_def c_isspace_def)
  next
    case i
    then show ?thesis using v lex_ident_loop_ok [OF i(1)] by (auto simp: lex_text_rest)
  qed
qed (use assms lexer_next_end [of l] in simp)

theorem identifier_text_witness: "ident_ok ''a;b'' = False \<and> ident_ok ''lib''"
proof -
  have "tok_kind (fst (lexer_next (lexer_init ''lib;x''))) = TOKEN_IDENTIFIER"
    "tok_text (fst (lexer_next (lexer_init ''lib;x''))) = ''lib''" by code_simp+
  then have "ident_ok ''lib''" using identifier_text [of "lexer_init ''lib;x''"] by simp
  then show ?thesis by code_simp
qed

text \<open>
  \<open>TOKEN_INVALID\<close> has one meaning: an unterminated quoted string, bracket argument,
  generator expression or variable reference, which runs to the end of the input, so that
  the call after it returns \<open>TOKEN_END\<close>.
\<close>

theorem invalid_token_at_end:
  assumes "tok_kind (fst (lexer_next l)) = TOKEN_INVALID"
  shows "at_end (snd (lexer_next l)) \<and> tok_kind (fst (lexer_next (snd (lexer_next l)))) = TOKEN_END"
proof (cases "at_end (skip_trivia l)")
  case False
  let ?m = "skip_trivia l"
  note v = lexer_next_visible [OF False]
  have "\<not> c_isspace (current ?m)" using skip_trivia_stop [of l] False by (auto simp: trivia_stop_def)
  moreover have "fst (lex_visible ?m) = TOKEN_INVALID" using assms v by simp
  ultimately have "at_end (snd (snd (lex_visible ?m)))" by (rule lex_visible_invalid)
  then have "at_end (snd (lexer_next l))" using v by simp
  then show ?thesis by (simp add: lexer_next_end skip_trivia.simps [of "snd (lexer_next l)"])
qed (use assms lexer_next_end [of l] in simp)

theorem invalid_token_at_end_witness: "at_end (snd (lexer_next (lexer_init (DQUOTE # ''ab''))))"
proof -
  have "tok_kind (fst (lexer_next (lexer_init (DQUOTE # ''ab'')))) = TOKEN_INVALID" by code_simp
  then show ?thesis using invalid_token_at_end by blast
qed

end
