(* ===== verification/Diagnostics.thy ===== *)
theory Diagnostics
  imports Nob_Prelude
begin

text \<open>
  The diagnostics component, \<open>src_v2/diagnostics/diagnostics.c\<close>: the global \<open>g_diag\<close> is the
  record \<open>diag_state\<close>, threaded explicitly, with the lines handed to \<open>nob_log\<close> in \<open>log\<close>. The
  two arrays of the telemetry table are the lists \<open>names\<close> and \<open>counts\<close> (their common length is
  \<open>unsupported.count\<close>); \<open>malloc\<close> results are the arguments \<open>grow_ok\<close> and \<open>dup_ok\<close> of the
  recording operation, since the C code handles both failures.
\<close>

subsection \<open>State\<close>

datatype nob_level = NOB_INFO | NOB_WARNING | NOB_ERROR

record diag_line =
  dl_level :: nob_level
  dl_severity :: string
  dl_component :: string
  dl_source :: string
  dl_line :: nat
  dl_col :: nat
  dl_command :: string
  dl_cause :: string
  dl_hint :: string

record diag_state =
  strict_mode :: bool
  warning_count :: nat
  error_count :: nat
  names :: "string list"
  counts :: "nat list"
  capacity :: nat
  total :: nat
  log :: "diag_line list"

definition diag_init :: diag_state where
  "diag_init = \<lparr>strict_mode = False, warning_count = 0, error_count = 0, names = [], counts = [],
                capacity = 0, total = 0, log = []\<rparr>"

subsection \<open>Severities and counters\<close>

definition diag_to_nob_level :: "diag_severity \<Rightarrow> nob_level" where
  "diag_to_nob_level sev = (if sev = DIAG_SEV_ERROR then NOB_ERROR else NOB_WARNING)"

definition diag_safe_str :: "string \<Rightarrow> string" where
  "diag_safe_str s = (if s \<noteq> [] \<and> hd s \<noteq> NUL then s else ''-'')"

definition diag_effective_severity :: "diag_state \<Rightarrow> diag_severity \<Rightarrow> diag_severity" where
  "diag_effective_severity d sev =
     (if strict_mode d \<and> sev = DIAG_SEV_WARNING then DIAG_SEV_ERROR else sev)"

definition diag_reset :: "diag_state \<Rightarrow> diag_state" where
  "diag_reset d = d\<lparr>warning_count := 0, error_count := 0\<rparr>"

definition diag_set_strict :: "bool \<Rightarrow> diag_state \<Rightarrow> diag_state" where
  "diag_set_strict b d = d\<lparr>strict_mode := b\<rparr>"

definition diag_has_warnings :: "diag_state \<Rightarrow> bool" where
  "diag_has_warnings d \<longleftrightarrow> warning_count d > 0"

definition diag_has_errors :: "diag_state \<Rightarrow> bool" where
  "diag_has_errors d \<longleftrightarrow> error_count d > 0"

definition diag_log ::
  "diag_severity \<Rightarrow> string \<Rightarrow> string \<Rightarrow> nat \<Rightarrow> nat \<Rightarrow> string \<Rightarrow> string \<Rightarrow> string \<Rightarrow> diag_state \<Rightarrow> diag_state" where
  "diag_log sev component source l c command cause hint d =
     (let effective = diag_effective_severity d sev;
          d1 = (if sev = DIAG_SEV_WARNING then d\<lparr>warning_count := warning_count d + 1\<rparr> else d);
          d2 = (if effective = DIAG_SEV_ERROR then d1\<lparr>error_count := error_count d1 + 1\<rparr> else d1)
      in d2\<lparr>log := log d2 @
           [\<lparr>dl_level = diag_to_nob_level effective,
             dl_severity = (if effective = DIAG_SEV_ERROR then ''ERROR'' else ''WARNING''),
             dl_component = diag_safe_str component, dl_source = diag_safe_str source,
             dl_line = l, dl_col = c, dl_command = diag_safe_str command,
             dl_cause = diag_safe_str cause, dl_hint = diag_safe_str hint\<rparr>]\<rparr>)"

subsection \<open>Unsupported-command telemetry\<close>

definition diag_telemetry_reset :: "diag_state \<Rightarrow> diag_state" where
  "diag_telemetry_reset d = d\<lparr>names := [], counts := [], capacity := 0, total := 0\<rparr>"

text \<open>The linear search both readers make: the first entry whose name, as a C string, is the key.\<close>

fun telemetry_find :: "string list \<Rightarrow> string_view \<Rightarrow> nat option" where
  "telemetry_find [] key = None"
| "telemetry_find (n # ns) key =
     (if nob_sv_eq (c_str n) key then Some 0 else map_option Suc (telemetry_find ns key))"

definition diag_telemetry_record_unsupported_sv ::
  "bool \<Rightarrow> bool \<Rightarrow> string_view \<Rightarrow> diag_state \<Rightarrow> diag_state" where
  "diag_telemetry_record_unsupported_sv grow_ok dup_ok cmd_name d =
     (if cmd_name = [] then d
      else (let d1 = d\<lparr>total := total d + 1\<rparr> in
        case telemetry_find (names d1) cmd_name of
          Some i \<Rightarrow> d1\<lparr>counts := (counts d1)[i := counts d1 ! i + 1]\<rparr>
        | None \<Rightarrow>
            (let full = (length (names d1) = capacity d1);
                 d2 = (if full \<and> grow_ok
                       then d1\<lparr>capacity := (if capacity d1 = 0 then 8 else capacity d1 * 2)\<rparr> else d1)
             in if full \<and> \<not> grow_ok then d1
                else if \<not> dup_ok then d2
                else d2\<lparr>names := names d2 @ [cmd_name], counts := counts d2 @ [1]\<rparr>)))"

definition diag_telemetry_unsupported_unique :: "diag_state \<Rightarrow> nat" where
  "diag_telemetry_unsupported_unique d = length (names d)"

definition diag_telemetry_unsupported_count_for :: "string \<Rightarrow> diag_state \<Rightarrow> nat" where
  "diag_telemetry_unsupported_count_for cmd_name d =
     (case telemetry_find (names d) (c_str cmd_name) of Some i \<Rightarrow> counts d ! i | None \<Rightarrow> 0)"

text \<open>The lines of the summary: the totals, then one \<open>(name, count)\<close> per entry, or nothing.\<close>

definition diag_telemetry_emit_summary :: "diag_state \<Rightarrow> ((nat \<times> nat) \<times> (string \<times> nat) list) option" where
  "diag_telemetry_emit_summary d =
     (if total d = 0 then None
      else Some ((total d, length (names d)), zip (map c_str (names d)) (counts d)))"

subsection \<open>Counting diagnostics\<close>

lemma diag_log_counts:
  "warning_count (diag_log sev cp src l c cmd ca h d) =
     warning_count d + (if sev = DIAG_SEV_WARNING then 1 else 0)"
  "error_count (diag_log sev cp src l c cmd ca h d) =
     error_count d + (if sev = DIAG_SEV_ERROR \<or> strict_mode d then 1 else 0)"
  by (cases sev; simp add: diag_log_def Let_def diag_effective_severity_def)+

lemma diag_log_strict [simp]: "strict_mode (diag_log sev cp src l c cmd ca h d) = strict_mode d"
  by (simp add: diag_log_def Let_def)

subsection \<open>The telemetry table is a counter\<close>

definition telemetry_inv :: "diag_state \<Rightarrow> bool" where
  "telemetry_inv d \<longleftrightarrow>
     length (counts d) = length (names d) \<and> length (names d) \<le> capacity d \<and>
     sum_list (counts d) \<le> total d \<and> list_all (\<lambda>k. 0 < k) (counts d)"

lemma telemetry_find_Some: "telemetry_find ns k = Some i \<Longrightarrow> i < length ns \<and> c_str (ns ! i) = k"
  by (induction ns arbitrary: i) (auto split: if_splits)

lemma telemetry_find_append:
  "telemetry_find (ns @ ms) k =
     (case telemetry_find ns k of Some i \<Rightarrow> Some i | None \<Rightarrow> map_option ((+) (length ns)) (telemetry_find ms k))"
  by (induction ns) (auto simp: option.map_comp o_def map_option_case split: option.splits)

lemma telemetry_record_inv:
  assumes "telemetry_inv d"
  shows "telemetry_inv (diag_telemetry_record_unsupported_sv g k n d)"
proof (cases "telemetry_find (names d) n")
  case None
  with assms show ?thesis
    by (auto simp: telemetry_inv_def diag_telemetry_record_unsupported_sv_def Let_def)
next
  case (Some i)
  then have i: "i < length (counts d)"
    using assms telemetry_find_Some by (force simp: telemetry_inv_def)
  then have "sum_list ((counts d)[i := Suc (counts d ! i)]) = Suc (sum_list (counts d))"
    using sum_list_update [of i "counts d" "Suc (counts d ! i)"] member_le_sum_list [of "counts d ! i" "counts d"]
    by simp
  with i Some assms show ?thesis
    by (auto simp: telemetry_inv_def diag_telemetry_record_unsupported_sv_def Let_def list_all_iff
        dest!: set_update_subset_insert [THEN subsetD])
qed

lemma telemetry_record_count:
  assumes "telemetry_inv d" "n \<noteq> []" "NUL \<notin> set n"
  shows "diag_telemetry_unsupported_count_for k (diag_telemetry_record_unsupported_sv True True n d) =
    diag_telemetry_unsupported_count_for k d + (if c_str k = n then 1 else 0)"
proof (cases "telemetry_find (names d) n")
  case None
  have l: "length (counts d) = length (names d)" using assms(1) by (simp add: telemetry_inv_def)
  have "c_str n = n" using assms(3) by (rule c_str_id)
  moreover have "telemetry_find (names d) (c_str k) = Some i \<Longrightarrow> c_str k \<noteq> n" for i
    using None by auto
  ultimately show ?thesis using None assms(2) l
    by (auto simp: diag_telemetry_unsupported_count_for_def diag_telemetry_record_unsupported_sv_def
        Let_def telemetry_find_append nth_append dest: telemetry_find_Some split: option.splits)
next
  case (Some i)
  with assms telemetry_find_Some [OF Some] have i: "i < length (counts d)" "c_str (names d ! i) = n"
    by (auto simp: telemetry_inv_def)
  have "telemetry_find (names d) (c_str k) = Some j \<Longrightarrow> c_str k \<noteq> n \<Longrightarrow> j \<noteq> i" for j
    using telemetry_find_Some i(2) by auto
  then show ?thesis using Some assms(2) i
    by (auto simp: diag_telemetry_unsupported_count_for_def diag_telemetry_record_unsupported_sv_def
        Let_def split: option.splits)
qed

text \<open>A run of the telemetry: recording a list of command names in order.\<close>

definition telemetry_run :: "string_view list \<Rightarrow> diag_state \<Rightarrow> diag_state" where
  "telemetry_run ns d = fold (diag_telemetry_record_unsupported_sv True True) ns d"

lemma telemetry_record_total:
  "total (diag_telemetry_record_unsupported_sv g k n d) = total d + (if n = [] then 0 else 1)"
  by (simp add: diag_telemetry_record_unsupported_sv_def Let_def split: option.splits)

lemma telemetry_run_count:
  assumes "telemetry_inv d" "list_all (\<lambda>n. n \<noteq> [] \<and> NUL \<notin> set n) ns"
  shows "diag_telemetry_unsupported_count_for k (telemetry_run ns d) =
      diag_telemetry_unsupported_count_for k d + count_list ns (c_str k) \<and>
    total (telemetry_run ns d) = total d + length ns \<and> telemetry_inv (telemetry_run ns d)"
  using assms
proof (induction ns arbitrary: d)
  case (Cons n ns)
  then show ?case
    using Cons.IH [of "diag_telemetry_record_unsupported_sv True True n d"]
    by (simp add: telemetry_run_def telemetry_record_inv telemetry_record_count telemetry_record_total)
qed (simp add: telemetry_run_def)

lemma telemetry_inv_init: "telemetry_inv diag_init"
  by (simp add: telemetry_inv_def diag_init_def)

subsection \<open>Properties\<close>

text \<open>
  The unsupported-command telemetry counts exactly: after recording any sequence of
  non-empty command names into a fresh table, each name's count is the number of times it was
  recorded, the total is the number of recordings, and the table stays well formed (one
  positive count per name, within the capacity).
\<close>

theorem telemetry_counts:
  assumes "list_all (\<lambda>n. n \<noteq> [] \<and> NUL \<notin> set n) ns"
  shows "diag_telemetry_unsupported_count_for k (telemetry_run ns diag_init) = count_list ns (c_str k) \<and>
    total (telemetry_run ns diag_init) = length ns \<and> telemetry_inv (telemetry_run ns diag_init)"
  using telemetry_run_count [OF telemetry_inv_init assms, of k]
  by (simp add: diag_init_def diag_telemetry_unsupported_count_for_def)

theorem telemetry_counts_witness:
  "diag_telemetry_unsupported_count_for ''b'' (telemetry_run [''b'', ''a'', ''b''] diag_init) = 2"
  using telemetry_counts [of "[''b'', ''a'', ''b'']" "''b''"] by (simp add: c_str_def)

text \<open>
  The error and warning counters follow the severities: from a fresh state in a fixed
  mode, after any sequence of \<open>diag_log\<close> calls, the warning counter is the number of warnings
  sent, the error counter is the number of lines printed at \<open>ERROR\<close> (in strict mode every
  line), and one line is printed per call.
\<close>

definition diag_run :: "(diag_severity \<times> string) list \<Rightarrow> diag_state \<Rightarrow> diag_state" where
  "diag_run calls d = fold (\<lambda>(sev, cause). diag_log sev ''c'' ''s'' 0 0 ''cmd'' cause ''h'') calls d"

lemma diag_run_append: "diag_run (xs @ [(sev, cause)]) d = diag_log sev ''c'' ''s'' 0 0 ''cmd'' cause ''h'' (diag_run xs d)"
  by (simp add: diag_run_def)

theorem diag_counters:
  "warning_count (diag_run calls (diag_set_strict b diag_init)) =
     length (filter (\<lambda>c. fst c = DIAG_SEV_WARNING) calls) \<and>
   error_count (diag_run calls (diag_set_strict b diag_init)) =
     length (filter (\<lambda>x. dl_severity x = ''ERROR'') (log (diag_run calls (diag_set_strict b diag_init)))) \<and>
   map dl_level (log (diag_run calls (diag_set_strict b diag_init))) =
     map (\<lambda>c. if b \<or> fst c = DIAG_SEV_ERROR then NOB_ERROR else NOB_WARNING) calls"
proof -
  have "strict_mode (diag_run calls (diag_set_strict b diag_init)) = b" for calls
    by (induction calls rule: rev_induct)
       (auto simp: diag_run_append, auto simp: diag_run_def diag_set_strict_def)
  then show ?thesis
  proof (induction calls rule: rev_induct)
    case Nil
    then show ?case by (simp add: diag_run_def diag_set_strict_def diag_init_def)
  next
    case (snoc c calls)
    then show ?case
      by (cases c; cases "fst c")
         (auto simp: diag_run_append diag_log_def Let_def diag_effective_severity_def diag_to_nob_level_def)
  qed
qed

end
