(* ===== verification/Cmk_Parser.thy ===== *)
theory Cmk_Parser
  imports Cmk_Lexer_Facts Diagnostics
begin

text \<open>
  The CMake parser, \<open>src_v2/parser/parser.c\<close>. The token array and its cursor are the list of
  tokens not yet consumed. \<open>Parser_Context\<close> is the record \<open>parser_ctx\<close>, extended with two
  things the C code reaches through its arguments: \<open>arena_pushes\<close>, how many more array
  growths the arena will grant (\<open>None\<close>: no failure; the parser stops at the first one, so
  this covers every arena), and \<open>pdiag\<close>, the state of the diagnostics component. Every function
  returns its result with the remaining tokens and the context.

  \<open>parse_block\<close> recurses on the number of block levels still allowed,
  \<open>max_block_depth - block_depth\<close>; its statement loop and the \<open>elseif\<close> loop carry the number of
  remaining tokens as a bound. \<open>Cmk_Parser_Facts\<close> proves that neither bound is ever felt: the
  functions satisfy the recursion equations of the C code.
\<close>

subsection \<open>Numbers read from the environment\<close>

definition ULLONG_MAX :: nat where "ULLONG_MAX = 2 ^ 64 - 1"

definition digit_val :: "char \<Rightarrow> nat" where
  "digit_val c = code c - 48"

definition digits_value :: "string \<Rightarrow> nat" where
  "digits_value ds = foldl (\<lambda>n c. 10 * n + digit_val c) 0 ds"

text \<open>
  \<open>strtoull(s, &end, 10)\<close>: \<open>None\<close> when no number starts the text (\<open>end == s\<close>), otherwise the
  value, saturated or negated modulo \<open>2^64\<close>, and the text at \<open>end\<close>.
\<close>

definition c_strtoull :: "string \<Rightarrow> (nat \<times> string) option" where
  "c_strtoull s =
     (let t = dropWhile c_isspace s;
          neg = (t \<noteq> [] \<and> hd t = CHR ''-'');
          u = (if t \<noteq> [] \<and> (hd t = CHR ''-'' \<or> hd t = CHR ''+'') then tl t else t);
          ds = takeWhile c_isdigit u; v = digits_value ds
      in if ds = [] then None
         else Some (if v > ULLONG_MAX then ULLONG_MAX
                    else if neg then (2 ^ 64 - v) mod 2 ^ 64 else v, dropWhile c_isdigit u))"

definition parser_fail_after_from_env :: "string option \<Rightarrow> nat" where
  "parser_fail_after_from_env env =
     (case env of None \<Rightarrow> SIZE_MAX
      | Some e \<Rightarrow>
          if e = [] then SIZE_MAX
          else (case c_strtoull e of None \<Rightarrow> SIZE_MAX
                | Some (raw, rest) \<Rightarrow>
                    if rest \<noteq> [] then SIZE_MAX else if raw > SIZE_MAX then SIZE_MAX else raw))"

definition parser_limit_from_env :: "string option \<Rightarrow> nat \<Rightarrow> nat \<Rightarrow> nat" where
  "parser_limit_from_env env fallback min_value =
     (case env of None \<Rightarrow> fallback
      | Some e \<Rightarrow>
          if e = [] then fallback
          else (case c_strtoull e of None \<Rightarrow> fallback
                | Some (raw, rest) \<Rightarrow>
                    if rest \<noteq> [] then fallback else if raw > SIZE_MAX then fallback
                    else if raw < min_value then min_value else raw))"

definition PARSER_DEFAULT_MAX_BLOCK_DEPTH :: nat where "PARSER_DEFAULT_MAX_BLOCK_DEPTH = 512"
definition PARSER_DEFAULT_MAX_PAREN_DEPTH :: nat where "PARSER_DEFAULT_MAX_PAREN_DEPTH = 2048"

subsection \<open>The syntax tree\<close>

datatype arg_kind = ARG_UNQUOTED | ARG_QUOTED | ARG_BRACKET

record arg =
  items :: "token list"
  arg_kind_of :: arg_kind

text \<open>
  The tagged union \<open>Node\<close>: each constructor carries the source line and column first. The
  zero node \<open>(Node){0}\<close> is the command with an empty name at line and column 0.
\<close>

datatype node =
    Node_Command nat nat string_view "arg list"
  | Node_If nat nat "arg list" "node list" "elseif_clause list" "node list"
  | Node_Foreach nat nat "arg list" "node list"
  | Node_While nat nat "arg list" "node list"
  | Node_Function nat nat string_view "arg list" "node list"
  | Node_Macro nat nat string_view "arg list" "node list"
and elseif_clause = ElseIf_Clause "arg list" "node list"

abbreviation zero_node :: node where "zero_node \<equiv> Node_Command 0 0 [] []"

definition parser_make_empty_statement :: "nat \<Rightarrow> nat \<Rightarrow> node" where
  "parser_make_empty_statement l c = Node_Command l c [] []"

subsection \<open>Context and diagnostics\<close>

record parser_ctx =
  oom :: bool
  fail_after_appends :: nat
  block_depth :: nat
  max_block_depth :: nat
  max_paren_depth :: nat
  arena_pushes :: "nat option"
  pdiag :: diag_state

datatype parse_args_mode = ARGS_COMMAND_DEFAULT | ARGS_CONDITION_EXPR

text \<open>\<open>diag_log(sev, "parser", "<input>", line, col, command, cause, hint)\<close>.\<close>

definition parser_diag ::
  "diag_severity \<Rightarrow> nat \<Rightarrow> nat \<Rightarrow> string \<Rightarrow> string \<Rightarrow> string \<Rightarrow> parser_ctx \<Rightarrow> parser_ctx" where
  "parser_diag sev l c cmd cause hint ctx =
     ctx\<lparr>pdiag := diag_log sev ''parser'' ''<input>'' l c cmd cause hint (pdiag ctx)\<rparr>"

text \<open>\<open>SV_Fmt\<close> prints a view with \<open>%.*s\<close>, which stops at a NUL byte.\<close>

definition sv_fmt :: "string_view \<Rightarrow> string" where
  "sv_fmt sv = c_str sv"

definition parser_report_oom :: "parser_ctx \<Rightarrow> parser_ctx" where
  "parser_report_oom ctx =
     (let ctx1 = (if \<not> oom ctx then
                    parser_diag DIAG_SEV_ERROR 0 0 ''internal'' ''falha de alocacao ao expandir array''
                      ''reduza o arquivo de entrada ou aumente memoria'' ctx
                  else ctx)
      in ctx1\<lparr>oom := True\<rparr>)"

definition parser_consume_append_budget :: "parser_ctx \<Rightarrow> bool \<times> parser_ctx" where
  "parser_consume_append_budget ctx =
     (if fail_after_appends ctx = SIZE_MAX then (True, ctx)
      else if fail_after_appends ctx = 0 then (False, ctx)
      else (True, ctx\<lparr>fail_after_appends := fail_after_appends ctx - 1\<rparr>))"

text \<open>\<open>arena_arr_push\<close> as far as the parser sees it: whether it succeeded.\<close>

definition parser_arena_push :: "parser_ctx \<Rightarrow> bool \<times> parser_ctx" where
  "parser_arena_push ctx =
     (case arena_pushes ctx of None \<Rightarrow> (True, ctx)
      | Some n \<Rightarrow> if n = 0 then (False, ctx) else (True, ctx\<lparr>arena_pushes := Some (n - 1)\<rparr>))"

text \<open>The common body of the four \<open>parser_append_\<close> functions: push \<open>x\<close> at the end of \<open>xs\<close>.\<close>

definition parser_append :: "parser_ctx \<Rightarrow> 'a list \<Rightarrow> 'a \<Rightarrow> bool \<times> 'a list \<times> parser_ctx" where
  "parser_append ctx xs x =
     (case parser_consume_append_budget ctx of (ok, ctx1) \<Rightarrow>
        if \<not> ok then (False, xs, parser_report_oom ctx1)
        else (case parser_arena_push ctx1 of (ok2, ctx2) \<Rightarrow>
                if \<not> ok2 then (False, xs, parser_report_oom ctx2) else (True, xs @ [x], ctx2)))"

definition parser_append_token :: "parser_ctx \<Rightarrow> arg \<Rightarrow> token \<Rightarrow> bool \<times> arg \<times> parser_ctx" where
  "parser_append_token ctx a tok =
     (case parser_append ctx (items a) tok of (ok, its, ctx1) \<Rightarrow> (ok, a\<lparr>items := its\<rparr>, ctx1))"

definition parser_append_arg :: "parser_ctx \<Rightarrow> arg list \<Rightarrow> arg \<Rightarrow> bool \<times> arg list \<times> parser_ctx" where
  "parser_append_arg ctx args a = parser_append ctx args a"

definition parser_append_node :: "parser_ctx \<Rightarrow> node list \<Rightarrow> node \<Rightarrow> bool \<times> node list \<times> parser_ctx" where
  "parser_append_node ctx ns n = parser_append ctx ns n"

definition parser_append_elseif ::
  "parser_ctx \<Rightarrow> elseif_clause list \<Rightarrow> elseif_clause \<Rightarrow> bool \<times> elseif_clause list \<times> parser_ctx" where
  "parser_append_elseif ctx cs c = parser_append ctx cs c"

definition parser_emit_unexpected_token :: "token \<Rightarrow> string \<Rightarrow> parser_ctx \<Rightarrow> parser_ctx" where
  "parser_emit_unexpected_token t hint =
     parser_diag DIAG_SEV_ERROR (tok_line t) (tok_col t) ''token''
       (''token inesperado no nivel de bloco: '' @ sv_fmt (tok_text t)) hint"

definition parser_warn_end_mismatch ::
  "nat \<Rightarrow> nat \<Rightarrow> string \<Rightarrow> string_view \<Rightarrow> string_view \<Rightarrow> parser_ctx \<Rightarrow> parser_ctx" where
  "parser_warn_end_mismatch l c kw expected got =
     parser_diag DIAG_SEV_WARNING l c kw (kw @ ''() assinatura de fechamento divergente'')
       (''esperado: '' @ sv_fmt expected @ '' ; recebido: '' @ sv_fmt got)"

subsection \<open>Token tests\<close>

fun parser_sync_after_statement_error :: "token list \<Rightarrow> nat \<Rightarrow> token list" where
  "parser_sync_after_statement_error [] start_line = []"
| "parser_sync_after_statement_error (t # ts) start_line =
     (if tok_line t \<noteq> start_line then t # ts else parser_sync_after_statement_error ts start_line)"

definition match_token_text :: "token \<Rightarrow> string \<Rightarrow> bool" where
  "match_token_text t lit =
     (if tok_kind t \<noteq> TOKEN_IDENTIFIER then False else sv_eq_ci_upper (tok_text t) lit)"

definition parser_first_arg_text :: "arg list \<Rightarrow> string_view" where
  "parser_first_arg_text args =
     (case args of [] \<Rightarrow> []
      | a # _ \<Rightarrow> (case items a of [] \<Rightarrow> [] | t # _ \<Rightarrow> tok_text t))"

definition is_cmake_bracket_literal :: "string_view \<Rightarrow> bool" where
  "is_cmake_bracket_literal sv =
     (if length sv < 4 then False
      else if sv ! 0 \<noteq> CHR ''['' then False
      else (let i = 1 + length (takeWhile (\<lambda>c. c = CHR ''='') (drop 1 sv)) in
        if i \<ge> length sv \<or> sv ! i \<noteq> CHR ''['' then False
        else (let open_len = i + 1; eq_count = open_len - 2 in
          if length sv < open_len + eq_count + 2 then False
          else (let close_pos = length sv - (eq_count + 2) in
            if sv ! close_pos \<noteq> CHR '']'' then False
            else if \<not> list_all (\<lambda>k. sv ! (close_pos + 1 + k) = CHR ''='') [0..<eq_count] then False
            else sv ! (length sv - 1) = CHR '']''))))"

definition parser_infer_arg_kind :: "token \<Rightarrow> arg_kind" where
  "parser_infer_arg_kind tok =
     (if tok_kind tok = TOKEN_STRING then ARG_QUOTED
      else if tok_kind tok = TOKEN_RAW_STRING \<or> is_cmake_bracket_literal (tok_text tok) then ARG_BRACKET
      else ARG_UNQUOTED)"

definition is_valid_command_name :: "string_view \<Rightarrow> bool" where
  "is_valid_command_name name =
     (case name of [] \<Rightarrow> False
      | c0 # cs \<Rightarrow> if \<not> (c_isalpha c0 \<or> c0 = CHR ''_'') then False
                  else list_all (\<lambda>c. c_isalnum c \<or> c = CHR ''_'') cs)"

subsection \<open>Argument lists\<close>

definition parser_append_new_arg_with_token ::
  "parser_ctx \<Rightarrow> arg list \<Rightarrow> token \<Rightarrow> arg_kind \<Rightarrow> bool \<times> arg list \<times> parser_ctx" where
  "parser_append_new_arg_with_token ctx args tok k =
     (case parser_append_token ctx \<lparr>items = [], arg_kind_of = k\<rparr> tok of (ok, a, ctx1) \<Rightarrow>
        if \<not> ok then (False, args, ctx1) else parser_append_arg ctx1 args a)"

text \<open>Push a token onto the last argument of a non-empty list.\<close>

definition append_to_last :: "parser_ctx \<Rightarrow> arg list \<Rightarrow> token \<Rightarrow> bool \<times> arg list \<times> parser_ctx" where
  "append_to_last ctx args tok =
     (case parser_append_token ctx (last args) tok of (ok, a, ctx1) \<Rightarrow>
        if \<not> ok then (False, args, ctx1) else (True, butlast args @ [a], ctx1))"

definition parser_append_to_last_or_new ::
  "parser_ctx \<Rightarrow> arg list \<Rightarrow> token \<Rightarrow> arg_kind \<Rightarrow> bool \<times> arg list \<times> parser_ctx" where
  "parser_append_to_last_or_new ctx args tok k =
     (if args \<noteq> [] \<and> \<not> has_space_left tok then append_to_last ctx args tok
      else parser_append_new_arg_with_token ctx args tok k)"

definition condition_can_merge :: "arg list \<Rightarrow> token \<Rightarrow> bool" where
  "condition_can_merge args tok =
     (if args \<noteq> [] \<and> \<not> has_space_left tok then
        (if items (last args) \<noteq> [] \<and>
            (tok_kind (last (items (last args))) = TOKEN_LPAREN \<or>
             tok_kind (last (items (last args))) = TOKEN_RPAREN) then False else True)
      else False)"

definition parser_append_with_condition_merge_rules ::
  "parser_ctx \<Rightarrow> arg list \<Rightarrow> token \<Rightarrow> bool \<times> arg list \<times> parser_ctx" where
  "parser_append_with_condition_merge_rules ctx args tok =
     (if condition_can_merge args tok then append_to_last ctx args tok
      else parser_append_new_arg_with_token ctx args tok (parser_infer_arg_kind tok))"

text \<open>Where a parenthesis and any other token of an argument list go, in either mode.\<close>

definition append_paren ::
  "parse_args_mode \<Rightarrow> parser_ctx \<Rightarrow> arg list \<Rightarrow> token \<Rightarrow> bool \<times> arg list \<times> parser_ctx" where
  "append_paren mode ctx args t =
     (if mode = ARGS_CONDITION_EXPR then parser_append_new_arg_with_token ctx args t ARG_UNQUOTED
      else parser_append_to_last_or_new ctx args t ARG_UNQUOTED)"

definition append_word ::
  "parse_args_mode \<Rightarrow> parser_ctx \<Rightarrow> arg list \<Rightarrow> token \<Rightarrow> bool \<times> arg list \<times> parser_ctx" where
  "append_word mode ctx args t =
     (if mode = ARGS_CONDITION_EXPR then parser_append_with_condition_merge_rules ctx args t
      else parser_append_to_last_or_new ctx args t (parser_infer_arg_kind t))"

text \<open>
  The \<open>while\<close> loop of \<open>parse_args\<close>: depth, the number of parentheses open beyond the limit,
  whether the limit was reported, \<open>ok\<close>, the arguments so far. An append failure returns
  no arguments and leaves \<open>*out_ok\<close> true.
\<close>

fun parse_args_loop ::
  "parse_args_mode \<Rightarrow> nat \<Rightarrow> nat \<Rightarrow> nat \<Rightarrow> nat \<Rightarrow> bool \<Rightarrow> bool \<Rightarrow> arg list \<Rightarrow> token list \<Rightarrow> parser_ctx \<Rightarrow>
   arg list \<times> bool \<times> token list \<times> parser_ctx" where
  "parse_args_loop mode ol oc depth extra reported ok args [] ctx =
     (args, False, [],
      parser_diag DIAG_SEV_ERROR ol oc ''args'' ''argumento nao fechado, esperado ')''
        ''feche parenteses no comando atual'' ctx)"
| "parse_args_loop mode ol oc depth extra reported ok args (t # ts) ctx =
     (if extra > 0 then
        (let extra1 = (if tok_kind t = TOKEN_LPAREN then extra + 1 else extra);
             extra2 = (if tok_kind t = TOKEN_RPAREN then extra1 - 1 else extra1)
         in parse_args_loop mode ol oc depth extra2 reported ok args ts ctx)
      else if tok_kind t = TOKEN_LPAREN then
        (if depth \<ge> max_paren_depth ctx then
           parse_args_loop mode ol oc depth 1 True False args ts
             (if \<not> reported then
                parser_diag DIAG_SEV_ERROR (tok_line t) (tok_col t) ''args''
                  ''profundidade maxima de parenteses excedida''
                  ''reduza aninhamento ou ajuste CMK2NOB_PARSER_MAX_PAREN_DEPTH'' ctx
              else ctx)
         else (case append_paren mode ctx args t of (pushed, args1, ctx1) \<Rightarrow>
                 if \<not> pushed then ([], True, t # ts, ctx1)
                 else parse_args_loop mode ol oc (depth + 1) 0 reported ok args1 ts ctx1))
      else if tok_kind t = TOKEN_RPAREN then
        (if depth = 1 then (args, ok, ts, ctx)
         else (case append_paren mode ctx args t of (pushed, args1, ctx1) \<Rightarrow>
                 if \<not> pushed then ([], True, t # ts, ctx1)
                 else parse_args_loop mode ol oc (depth - 1) 0 reported ok args1 ts ctx1))
      else if tok_kind t = TOKEN_SEMICOLON \<and> depth = 1 then
        parse_args_loop mode ol oc depth 0 reported ok args ts ctx
      else (case append_word mode ctx args t of (pushed, args1, ctx1) \<Rightarrow>
              if \<not> pushed then ([], True, t # ts, ctx1)
              else parse_args_loop mode ol oc depth 0 reported ok args1 ts ctx1))"

definition parse_args ::
  "parse_args_mode \<Rightarrow> nat \<Rightarrow> nat \<Rightarrow> token list \<Rightarrow> parser_ctx \<Rightarrow>
   arg list \<times> bool \<times> token list \<times> parser_ctx" where
  "parse_args mode ol oc toks ctx =
     (if oom ctx then ([], True, toks, ctx)
      else (case toks of
              [] \<Rightarrow> ([], False, toks, ctx)
            | t # ts \<Rightarrow>
                if tok_kind t \<noteq> TOKEN_LPAREN then ([], False, toks, ctx)
                else parse_args_loop mode ol oc 1 0 False True [] ts ctx))"

subsection \<open>Statements\<close>

text \<open>
  The block parser as the statement parsers call it: terminators, tokens, context to
  statements, the terminator text found (empty when none), remaining tokens, context.
\<close>

type_synonym block_parser =
  "string list \<Rightarrow> token list \<Rightarrow> parser_ctx \<Rightarrow> node list \<times> string_view \<times> token list \<times> parser_ctx"

text \<open>
  The optional closing signature, \<open>endif(VAR)\<close> and its siblings: the code repeats these
  lines at the end of every block parser. \<open>node\<close> is returned when nothing is wrong.
\<close>

definition parse_end_signature ::
  "string \<Rightarrow> string_view \<Rightarrow> node \<Rightarrow> nat \<Rightarrow> nat \<Rightarrow> token list \<Rightarrow> parser_ctx \<Rightarrow> node \<times> token list \<times> parser_ctx" where
  "parse_end_signature kw expected node l c toks ctx =
     (if toks \<noteq> [] \<and> tok_kind (hd toks) = TOKEN_LPAREN then
        (case parse_args ARGS_COMMAND_DEFAULT l c toks ctx of (end_args, end_args_ok, toks1, ctx1) \<Rightarrow>
           if oom ctx1 then (zero_node, toks1, ctx1)
           else if \<not> end_args_ok then (parser_make_empty_statement l c, toks1, ctx1)
           else (let got = parser_first_arg_text end_args in
             (node, toks1,
              if expected \<noteq> [] \<and> got \<noteq> [] \<and> \<not> sv_eq_ci_upper expected got
              then parser_warn_end_mismatch l c kw expected got ctx1 else ctx1)))
      else (node, toks, ctx))"

definition if_terminators :: "string list" where
  "if_terminators = [''else'', ''elseif'', ''endif'']"

text \<open>
  The \<open>while\<close> loop over \<open>elseif\<close> clauses. \<open>Inl\<close>: the node to return at once (out of memory,
  bad condition). \<open>Inr\<close>: the clauses and the terminator that ended the loop.
\<close>

fun parse_elseifs ::
  "block_parser \<Rightarrow> nat \<Rightarrow> nat \<Rightarrow> nat \<Rightarrow> elseif_clause list \<Rightarrow> string_view \<Rightarrow> token list \<Rightarrow> parser_ctx \<Rightarrow>
   (node + elseif_clause list \<times> string_view) \<times> token list \<times> parser_ctx" where
  "parse_elseifs pb 0 l c clauses term toks ctx = (Inr (clauses, term), toks, ctx)"
| "parse_elseifs pb (Suc k) l c clauses term toks ctx =
     (if sv_eq_ci_upper term ''elseif'' then
        (case parse_args ARGS_CONDITION_EXPR l c toks ctx of (cond, elseif_ok, toks1, ctx1) \<Rightarrow>
           if oom ctx1 then (Inl zero_node, toks1, ctx1)
           else if \<not> elseif_ok then (Inl (parser_make_empty_statement l c), toks1, ctx1)
           else (case pb if_terminators toks1 ctx1 of (blk, elseif_term, toks2, ctx2) \<Rightarrow>
             if oom ctx2 then (Inl zero_node, toks2, ctx2)
             else (case parser_append_elseif ctx2 clauses (ElseIf_Clause cond blk) of
                     (pushed, clauses1, ctx3) \<Rightarrow>
                       if \<not> pushed then (Inl zero_node, toks2, ctx3)
                       else parse_elseifs pb k l c clauses1 elseif_term toks2 ctx3)))
      else (Inr (clauses, term), toks, ctx))"

definition if_unterminated :: "nat \<Rightarrow> nat \<Rightarrow> token list \<Rightarrow> parser_ctx \<Rightarrow> node \<times> token list \<times> parser_ctx" where
  "if_unterminated l c toks ctx =
     (parser_make_empty_statement l c, toks,
      parser_diag DIAG_SEV_ERROR l c ''if'' ''if sem terminador endif()'' ''adicione endif() ao bloco'' ctx)"

definition parse_else ::
  "block_parser \<Rightarrow> nat \<Rightarrow> nat \<Rightarrow> arg list \<Rightarrow> node list \<Rightarrow> elseif_clause list \<Rightarrow> token list \<Rightarrow> parser_ctx \<Rightarrow>
   node \<times> token list \<times> parser_ctx" where
  "parse_else pb l c cond then_block clauses toks ctx =
     (case parse_args ARGS_COMMAND_DEFAULT l c toks ctx of (else_args, else_args_ok, toks1, ctx1) \<Rightarrow>
        if oom ctx1 then (zero_node, toks1, ctx1)
        else if \<not> else_args_ok then (parser_make_empty_statement l c, toks1, ctx1)
        else (case pb [''endif''] toks1 ctx1 of (else_block, end_term, toks2, ctx2) \<Rightarrow>
          if oom ctx2 then (zero_node, toks2, ctx2)
          else if \<not> sv_eq_ci_upper end_term ''endif'' then if_unterminated l c toks2 ctx2
          else parse_end_signature ''endif'' (parser_first_arg_text cond)
                 (Node_If l c cond then_block clauses else_block) l c toks2 ctx2))"

definition parse_if ::
  "block_parser \<Rightarrow> nat \<Rightarrow> nat \<Rightarrow> token list \<Rightarrow> parser_ctx \<Rightarrow> node \<times> token list \<times> parser_ctx" where
  "parse_if pb l c toks ctx =
     (if oom ctx then (zero_node, toks, ctx)
      else (case parse_args ARGS_CONDITION_EXPR l c toks ctx of (cond, cond_ok, toks1, ctx1) \<Rightarrow>
        if oom ctx1 then (zero_node, toks1, ctx1)
        else if \<not> cond_ok then (parser_make_empty_statement l c, toks1, ctx1)
        else (case pb if_terminators toks1 ctx1 of (then_block, found_term, toks2, ctx2) \<Rightarrow>
          if oom ctx2 then (zero_node, toks2, ctx2)
          else (case parse_elseifs pb (Suc (length toks2)) l c [] found_term toks2 ctx2 of
            (Inl node, toks3, ctx3) \<Rightarrow> (node, toks3, ctx3)
          | (Inr (clauses, term), toks3, ctx3) \<Rightarrow>
              if sv_eq_ci_upper term ''else'' then parse_else pb l c cond then_block clauses toks3 ctx3
              else if sv_eq_ci_upper term ''endif'' then
                parse_end_signature ''endif'' (parser_first_arg_text cond)
                  (Node_If l c cond then_block clauses []) l c toks3 ctx3
              else if_unterminated l c toks3 ctx3))))"

definition parse_foreach ::
  "block_parser \<Rightarrow> nat \<Rightarrow> nat \<Rightarrow> token list \<Rightarrow> parser_ctx \<Rightarrow> node \<times> token list \<times> parser_ctx" where
  "parse_foreach pb l c toks ctx =
     (if oom ctx then (zero_node, toks, ctx)
      else (case parse_args ARGS_COMMAND_DEFAULT l c toks ctx of (args, args_ok, toks1, ctx1) \<Rightarrow>
        if oom ctx1 then (zero_node, toks1, ctx1)
        else if \<not> args_ok then (parser_make_empty_statement l c, toks1, ctx1)
        else (case pb [''endforeach''] toks1 ctx1 of (body, found_term, toks2, ctx2) \<Rightarrow>
          if oom ctx2 then (zero_node, toks2, ctx2)
          else if \<not> sv_eq_ci_upper found_term ''endforeach'' then
            (parser_make_empty_statement l c, toks2,
             parser_diag DIAG_SEV_ERROR l c ''foreach'' ''foreach sem terminador endforeach()''
               ''adicione endforeach() ao bloco'' ctx2)
          else parse_end_signature ''endforeach'' (parser_first_arg_text args)
                 (Node_Foreach l c args body) l c toks2 ctx2)))"

definition parse_while ::
  "block_parser \<Rightarrow> nat \<Rightarrow> nat \<Rightarrow> token list \<Rightarrow> parser_ctx \<Rightarrow> node \<times> token list \<times> parser_ctx" where
  "parse_while pb l c toks ctx =
     (if oom ctx then (zero_node, toks, ctx)
      else (case parse_args ARGS_CONDITION_EXPR l c toks ctx of (cond, cond_ok, toks1, ctx1) \<Rightarrow>
        if oom ctx1 then (zero_node, toks1, ctx1)
        else if \<not> cond_ok then (parser_make_empty_statement l c, toks1, ctx1)
        else (case pb [''endwhile''] toks1 ctx1 of (body, found_term, toks2, ctx2) \<Rightarrow>
          if oom ctx2 then (zero_node, toks2, ctx2)
          else if \<not> sv_eq_ci_upper found_term ''endwhile'' then
            (parser_make_empty_statement l c, toks2,
             parser_diag DIAG_SEV_ERROR l c ''while'' ''while sem terminador endwhile()''
               ''adicione endwhile() ao bloco'' ctx2)
          else parse_end_signature ''endwhile'' (parser_first_arg_text cond)
                 (Node_While l c cond body) l c toks2 ctx2)))"

text \<open>The loop that stores the declared parameters one by one.\<close>

fun append_params :: "parser_ctx \<Rightarrow> arg list \<Rightarrow> arg list \<Rightarrow> bool \<times> arg list \<times> parser_ctx" where
  "append_params ctx params [] = (True, params, ctx)"
| "append_params ctx params (a # as) =
     (case parser_append_arg ctx params a of (pushed, params1, ctx1) \<Rightarrow>
        if \<not> pushed then (False, params1, ctx1) else append_params ctx1 params1 as)"

definition parse_function_macro ::
  "block_parser \<Rightarrow> bool \<Rightarrow> nat \<Rightarrow> nat \<Rightarrow> token list \<Rightarrow> parser_ctx \<Rightarrow> node \<times> token list \<times> parser_ctx" where
  "parse_function_macro pb is_macro l c toks ctx =
     (if oom ctx then (zero_node, toks, ctx)
      else (case parse_args ARGS_COMMAND_DEFAULT l c toks ctx of (all_args, def_args_ok, toks1, ctx1) \<Rightarrow>
        if oom ctx1 then (zero_node, toks1, ctx1)
        else if \<not> def_args_ok then (parser_make_empty_statement l c, toks1, ctx1)
        else (let name = parser_first_arg_text all_args;
                  endkw = (if is_macro then ''endmacro'' else ''endfunction'')
              in case append_params ctx1 [] (tl all_args) of (pushed, params, ctx2) \<Rightarrow>
                if \<not> pushed then (zero_node, toks1, ctx2)
                else (case pb [endkw] toks1 ctx2 of (body, found_term, toks2, ctx3) \<Rightarrow>
                  if oom ctx3 then (zero_node, toks2, ctx3)
                  else if \<not> sv_eq_ci_upper found_term endkw then
                    (parser_make_empty_statement l c, toks2,
                     parser_diag DIAG_SEV_ERROR l c (if is_macro then ''macro'' else ''function'')
                       ''bloco sem terminador''
                       (if is_macro then ''adicione endmacro()'' else ''adicione endfunction()'') ctx3)
                  else parse_end_signature endkw name
                         (if is_macro then Node_Macro l c name params body
                          else Node_Function l c name params body) l c toks2 ctx3))))"

definition parse_statement ::
  "block_parser \<Rightarrow> token list \<Rightarrow> parser_ctx \<Rightarrow> node \<times> token list \<times> parser_ctx" where
  "parse_statement pb toks ctx =
     (if oom ctx then (zero_node, toks, ctx)
      else (case toks of
        [] \<Rightarrow> (parser_make_empty_statement 0 0, toks, ctx)
      | t # ts \<Rightarrow>
          (let l = tok_line t; c = tok_col t; txt = tok_text t; empty = parser_make_empty_statement l c in
           if tok_kind t \<noteq> TOKEN_IDENTIFIER then
             (empty, parser_sync_after_statement_error toks l,
              if tok_kind t = TOKEN_INVALID then
                parser_diag DIAG_SEV_ERROR l c ''token'' (''token invalido: '' @ sv_fmt txt)
                  ''revise caractere/token na posicao informada'' ctx
              else
                parser_diag DIAG_SEV_ERROR l c ''token''
                  (''token inesperado no inicio de statement: '' @ sv_fmt txt)
                  ''inicie statement com nome_de_comando(...)'' ctx)
           else if \<not> is_valid_command_name txt then
             (empty, parser_sync_after_statement_error ts l,
              parser_diag DIAG_SEV_ERROR l c ''command'' (''nome de comando invalido: '' @ sv_fmt txt)
                ''use [A-Za-z_][A-Za-z0-9_]* para nome de comando'' ctx)
           else if ts = [] \<or> tok_kind (hd ts) \<noteq> TOKEN_LPAREN then
             (empty, parser_sync_after_statement_error ts l,
              parser_diag DIAG_SEV_ERROR l c ''command'' (''comando sem parenteses: '' @ sv_fmt txt)
                ''use sintaxe nome_do_comando(...)'' ctx)
           else if match_token_text t ''if'' then parse_if pb l c ts ctx
           else if match_token_text t ''foreach'' then parse_foreach pb l c ts ctx
           else if match_token_text t ''while'' then parse_while pb l c ts ctx
           else if match_token_text t ''function'' then parse_function_macro pb False l c ts ctx
           else if match_token_text t ''macro'' then parse_function_macro pb True l c ts ctx
           else (case parse_args ARGS_COMMAND_DEFAULT l c ts ctx of (args, args_ok, toks1, ctx1) \<Rightarrow>
             if oom ctx1 then (zero_node, toks1, ctx1)
             else if \<not> args_ok then (empty, toks1, ctx1)
             else (Node_Command l c txt args, toks1, ctx1)))))"

subsection \<open>Blocks\<close>

definition is_terminator :: "string list \<Rightarrow> token \<Rightarrow> bool" where
  "is_terminator terms t \<longleftrightarrow> tok_kind t = TOKEN_IDENTIFIER \<and> list_ex (match_token_text t) terms"

text \<open>Recovery beyond the depth limit: skip to the first terminator.\<close>

fun parse_block_skip :: "string list \<Rightarrow> token list \<Rightarrow> string_view \<times> token list" where
  "parse_block_skip terms [] = ([], [])"
| "parse_block_skip terms (t # ts) =
     (if is_terminator terms t then (tok_text t, ts) else parse_block_skip terms ts)"

definition parse_block_too_deep :: block_parser where
  "parse_block_too_deep terms toks ctx =
     (let l = (case toks of [] \<Rightarrow> 0 | t # _ \<Rightarrow> tok_line t);
          c = (case toks of [] \<Rightarrow> 0 | t # _ \<Rightarrow> tok_col t);
          ctx1 = parser_diag DIAG_SEV_ERROR l c ''depth'' ''profundidade maxima de blocos excedida''
                   ''reduza aninhamento ou ajuste CMK2NOB_PARSER_MAX_BLOCK_DEPTH'' ctx
      in case parse_block_skip terms toks of (found, toks1) \<Rightarrow> ([], found, toks1, ctx1))"

definition leave_block :: "parser_ctx \<Rightarrow> parser_ctx" where
  "leave_block ctx = ctx\<lparr>block_depth := block_depth ctx - 1\<rparr>"

definition node_is_empty :: "node \<Rightarrow> bool" where
  "node_is_empty n = (case n of Node_Command _ _ name _ \<Rightarrow> name = [] | _ \<Rightarrow> False)"

fun parse_block_loop :: "block_parser \<Rightarrow> nat \<Rightarrow> node list \<Rightarrow> block_parser" where
  "parse_block_loop pb 0 lst terms toks ctx = (lst, [], toks, leave_block ctx)"
| "parse_block_loop pb (Suc k) lst terms toks ctx =
     (case toks of
        [] \<Rightarrow> (lst, [], toks, leave_block ctx)
      | t # ts \<Rightarrow>
          if tok_kind t = TOKEN_LPAREN \<or> tok_kind t = TOKEN_RPAREN then
            parse_block_loop pb k lst terms ts
              (parser_emit_unexpected_token t ''parenteses no nivel de bloco exigem um comando valido'' ctx)
          else if is_terminator terms t then (lst, tok_text t, ts, leave_block ctx)
          else (case parse_statement pb toks ctx of (node, toks1, ctx1) \<Rightarrow>
            if oom ctx1 then ([], [], toks1, leave_block ctx1)
            else if node_is_empty node then parse_block_loop pb k lst terms toks1 ctx1
            else (case parser_append_node ctx1 lst node of (pushed, lst1, ctx2) \<Rightarrow>
              if \<not> pushed then ([], [], toks1, leave_block ctx2)
              else parse_block_loop pb k lst1 terms toks1 ctx2)))"

text \<open>
  \<open>parse_block\<close> at a given number of levels still allowed. With no level left the depth
  guard of the code holds, and the body is never entered.
\<close>

fun parse_block_level :: "nat \<Rightarrow> block_parser" where
  "parse_block_level 0 terms toks ctx =
     (if oom ctx then ([], [], toks, ctx) else parse_block_too_deep terms toks ctx)"
| "parse_block_level (Suc n) terms toks ctx =
     (if oom ctx then ([], [], toks, ctx)
      else if block_depth ctx \<ge> max_block_depth ctx then parse_block_too_deep terms toks ctx
      else parse_block_loop (parse_block_level n) (length toks) [] terms toks
             (ctx\<lparr>block_depth := block_depth ctx + 1\<rparr>))"

definition parse_block :: block_parser where
  "parse_block terms toks ctx =
     parse_block_level (max_block_depth ctx - block_depth ctx) terms toks ctx"

subsection \<open>parse_tokens\<close>

text \<open>
  The environment is the map \<open>env\<close>; \<open>arena\<close> is \<open>None\<close> for a null arena and otherwise the
  number of growths it will grant.
\<close>

definition parser_ctx_init :: "(string \<Rightarrow> string option) \<Rightarrow> nat option \<Rightarrow> diag_state \<Rightarrow> parser_ctx" where
  "parser_ctx_init env pushes d =
     \<lparr>oom = False,
      fail_after_appends = parser_fail_after_from_env (env ''CMK2NOB_PARSER_FAIL_APPEND_AFTER''),
      block_depth = 0,
      max_block_depth = parser_limit_from_env (env ''CMK2NOB_PARSER_MAX_BLOCK_DEPTH'') PARSER_DEFAULT_MAX_BLOCK_DEPTH 1,
      max_paren_depth = parser_limit_from_env (env ''CMK2NOB_PARSER_MAX_PAREN_DEPTH'') PARSER_DEFAULT_MAX_PAREN_DEPTH 1,
      arena_pushes = pushes, pdiag = d\<rparr>"

definition parse_tokens ::
  "(string \<Rightarrow> string option) \<Rightarrow> nat option option \<Rightarrow> token list \<Rightarrow> diag_state \<Rightarrow> node list \<times> diag_state" where
  "parse_tokens env arena tokens d =
     (case arena of
        None \<Rightarrow> ([], diag_log DIAG_SEV_ERROR ''parser'' ''<input>'' 0 0 ''parse_tokens''
                     ''arena obrigatoria ausente''
                     ''inicialize Arena e passe ponteiro valido para parse_tokens'' d)
      | Some pushes \<Rightarrow>
          (case parse_block [] tokens (parser_ctx_init env pushes d) of (root, _, _, ctx) \<Rightarrow>
             (if oom ctx then [] else root, pdiag ctx)))"

end
