(* ===== verification/Cmk_Parser_Facts.thy ===== *)
theory Cmk_Parser_Facts
  imports Cmk_Parser
begin

text \<open>
  The parser only moves forward, balances its depth counter, never loses a diagnostic and
  satisfies the recursion equations of the C code. The contract between a block parser and
  the statement parsers that call it is the locale \<open>block_contract\<close>; it is interpreted on
  \<open>parse_block_level\<close> at every level.
\<close>

subsection \<open>What every step keeps of the context\<close>

definition ctx_le :: "parser_ctx \<Rightarrow> parser_ctx \<Rightarrow> bool" where
  "ctx_le a b \<longleftrightarrow> block_depth b = block_depth a \<and> max_block_depth b = max_block_depth a \<and>
     max_paren_depth b = max_paren_depth a \<and> (oom a \<longrightarrow> oom b) \<and>
     error_count (pdiag a) \<le> error_count (pdiag b) \<and> prefix (log (pdiag a)) (log (pdiag b))"

lemma ctx_le_refl [simp]: "ctx_le a a"
  by (simp add: ctx_le_def)

lemma ctx_le_trans [trans]: "ctx_le a b \<Longrightarrow> ctx_le b c \<Longrightarrow> ctx_le a c"
  by (auto simp: ctx_le_def intro: prefix_order.trans)

lemma ctx_le_oom: "ctx_le a b \<Longrightarrow> \<not> oom b \<Longrightarrow> \<not> oom a"
  by (auto simp: ctx_le_def)

lemma diag_log_prefix [simp]: "prefix (log d) (log (diag_log sev cp src l c cmd ca h d))"
  by (simp add: diag_log_def Let_def)

lemma parser_diag_le [simp]: "ctx_le ctx (parser_diag sev l c cmd cause hint ctx)"
  by (simp add: ctx_le_def parser_diag_def diag_log_counts)

lemma parser_diag_oom [simp]: "oom (parser_diag sev l c cmd cause hint ctx) = oom ctx"
  by (simp add: parser_diag_def)

lemma parser_report_oom_le [simp]: "ctx_le ctx (parser_report_oom ctx)" "oom (parser_report_oom ctx)"
  by (simp_all add: ctx_le_def parser_report_oom_def parser_diag_def Let_def diag_log_counts)

lemma parser_append_le:
  "parser_append ctx xs x = (ok, ys, ctx') \<Longrightarrow>
     ctx_le ctx ctx' \<and> (if ok then ys = xs @ [x] \<and> oom ctx' = oom ctx else ys = xs \<and> oom ctx')"
  by (auto simp: parser_append_def parser_consume_append_budget_def parser_arena_push_def
      ctx_le_def parser_report_oom_def parser_diag_def Let_def diag_log_counts split: if_splits option.splits prod.splits)

lemma parser_append_token_le:
  "parser_append_token ctx a tok = (ok, a', ctx') \<Longrightarrow>
     ctx_le ctx ctx' \<and> (if ok then a' = a\<lparr>items := items a @ [tok]\<rparr> \<and> oom ctx' = oom ctx else oom ctx')"
  by (auto simp: parser_append_token_def split: prod.splits dest!: parser_append_le)

text \<open>The pure effect of adding one token to an argument list, in either mode.\<close>

definition new_arg :: "arg list \<Rightarrow> token \<Rightarrow> arg_kind \<Rightarrow> arg list" where
  "new_arg args t k = args @ [\<lparr>items = [t], arg_kind_of = k\<rparr>]"

definition extend_last :: "arg list \<Rightarrow> token \<Rightarrow> arg list" where
  "extend_last args t = butlast args @ [(last args)\<lparr>items := items (last args) @ [t]\<rparr>]"

definition is_paren :: "token \<Rightarrow> bool" where
  "is_paren t \<longleftrightarrow> tok_kind t = TOKEN_LPAREN \<or> tok_kind t = TOKEN_RPAREN"

definition add_tok :: "parse_args_mode \<Rightarrow> arg list \<Rightarrow> token \<Rightarrow> arg list" where
  "add_tok mode args t =
     (let k = (if is_paren t then ARG_UNQUOTED else parser_infer_arg_kind t) in
      if mode = ARGS_CONDITION_EXPR then
        (if \<not> is_paren t \<and> condition_can_merge args t then extend_last args t else new_arg args t k)
      else if args \<noteq> [] \<and> \<not> has_space_left t then extend_last args t else new_arg args t k)"

lemma new_arg_append:
  "parser_append_new_arg_with_token ctx args tok k = (ok, args', ctx') \<Longrightarrow>
     ctx_le ctx ctx' \<and> (if ok then args' = new_arg args tok k \<and> oom ctx' = oom ctx else oom ctx')"
  by (auto simp: parser_append_new_arg_with_token_def parser_append_arg_def new_arg_def
      split: prod.splits if_splits dest!: parser_append_token_le parser_append_le intro: ctx_le_trans)

lemma append_to_last_le:
  "append_to_last ctx args tok = (ok, args', ctx') \<Longrightarrow>
     ctx_le ctx ctx' \<and> (if ok then args' = extend_last args tok \<and> oom ctx' = oom ctx else oom ctx')"
  by (auto simp: append_to_last_def extend_last_def split: prod.splits if_splits dest!: parser_append_token_le)

lemma append_paren_le:
  assumes "append_paren mode ctx args t = (ok, args', ctx')" "is_paren t"
  shows "ctx_le ctx ctx' \<and> (if ok then args' = add_tok mode args t \<and> oom ctx' = oom ctx else oom ctx')"
  using assms
  by (auto simp: append_paren_def parser_append_to_last_or_new_def add_tok_def
      split: if_splits dest!: new_arg_append append_to_last_le)

lemma append_word_le:
  assumes "append_word mode ctx args t = (ok, args', ctx')" "\<not> is_paren t"
  shows "ctx_le ctx ctx' \<and> (if ok then args' = add_tok mode args t \<and> oom ctx' = oom ctx else oom ctx')"
  using assms
  by (auto simp: append_word_def parser_append_to_last_or_new_def parser_append_with_condition_merge_rules_def
      add_tok_def split: if_splits dest!: new_arg_append append_to_last_le)

lemma parse_args_loop_le:
  "parse_args_loop mode ol oc depth extra reported ok args toks ctx = (args', ok', toks', ctx') \<Longrightarrow>
     ctx_le ctx ctx' \<and> suffix toks' toks"
proof (induction toks arbitrary: depth extra reported ok args ctx)
  case (Cons t ts)
  have p: "tok_kind t = TOKEN_LPAREN \<or> tok_kind t = TOKEN_RPAREN \<longleftrightarrow> is_paren t"
    by (simp add: is_paren_def)
  show ?case
    using Cons.prems
    by (auto simp: p [symmetric] Let_def suffix_Cons split: if_splits prod.splits
        dest!: Cons.IH append_paren_le append_word_le
        intro: ctx_le_trans ctx_le_trans [OF parser_diag_le])
qed auto

lemma parse_args_le:
  "parse_args mode l c toks ctx = (args, ok, toks', ctx') \<Longrightarrow> ctx_le ctx ctx' \<and> suffix toks' toks"
  by (auto simp: parse_args_def suffix_Cons split: if_splits list.splits dest!: parse_args_loop_le)

lemma parse_args_eats: "parse_args mode l c (t # ts) ctx = (args, ok, toks', ctx') \<Longrightarrow>
  tok_kind t = TOKEN_LPAREN \<Longrightarrow> \<not> oom ctx \<Longrightarrow> suffix toks' ts"
  by (auto simp: parse_args_def dest!: parse_args_loop_le)

lemma parse_args_ok_eats: "parse_args mode l c toks ctx = (args, True, toks', ctx') \<Longrightarrow>
  \<not> oom ctx' \<Longrightarrow> length toks' < length toks"
proof -
  assume a: "parse_args mode l c toks ctx = (args, True, toks', ctx')" "\<not> oom ctx'"
  then have "\<not> oom ctx" using parse_args_le ctx_le_oom by blast
  with a show ?thesis
    by (auto simp: parse_args_def split: list.splits if_splits dest!: parse_args_loop_le suffix_length_le)
qed

lemma sync_suffix: "suffix (parser_sync_after_statement_error toks l) toks"
  by (induction toks) (auto simp: suffix_Cons)

text \<open>One relation for both: the tokens shrink to a suffix and the context only grows.\<close>

definition moves :: "token list \<Rightarrow> parser_ctx \<Rightarrow> token list \<Rightarrow> parser_ctx \<Rightarrow> bool" where
  "moves toks ctx toks' ctx' \<longleftrightarrow> ctx_le ctx ctx' \<and> suffix toks' toks"

lemma moves_refl [simp]: "moves t c t c"
  by (simp add: moves_def)

lemma moves_trans: "moves t c t' c' \<Longrightarrow> moves t' c' t'' c'' \<Longrightarrow> moves t c t'' c''"
  by (auto simp: moves_def intro: ctx_le_trans suffix_order.trans)

lemma moves_ctx: "moves t c t' c' \<Longrightarrow> ctx_le c' c'' \<Longrightarrow> moves t c t' c''"
  by (auto simp: moves_def intro: ctx_le_trans)

lemma moves_diag: "moves t c t' c' \<Longrightarrow> moves t c t' (parser_diag sev l co cmd cause hint c')"
  by (rule moves_ctx, assumption, rule parser_diag_le)

lemma moves_oom: "moves t c t' c' \<Longrightarrow> \<not> oom c' \<Longrightarrow> \<not> oom c"
  by (auto simp: moves_def dest: ctx_le_oom)

lemma moves_length: "moves t c t' c' \<Longrightarrow> length t' \<le> length t"
  by (auto simp: moves_def suffix_length_le)

lemma parse_args_moves:
  "parse_args mode l c toks ctx = (args, ok, toks', ctx') \<Longrightarrow> moves toks ctx toks' ctx'"
  by (simp add: moves_def parse_args_le)

lemma append_params_le:
  "append_params ctx params xs = (ok, params', ctx') \<Longrightarrow>
     ctx_le ctx ctx' \<and> (if ok then params' = params @ xs \<and> oom ctx' = oom ctx else oom ctx')"
proof (induction xs arbitrary: params ctx)
  case (Cons a xs)
  from Cons.prems show ?case
    by (auto simp: parser_append_arg_def split: prod.splits if_splits
        dest!: parser_append_le Cons.IH intro: ctx_le_trans)
qed simp

lemma parse_end_signature_moves:
  "parse_end_signature kw expected node l c toks ctx = (node', toks', ctx') \<Longrightarrow> moves toks ctx toks' ctx'"
  by (auto simp: parse_end_signature_def parser_warn_end_mismatch_def Let_def
      split: if_splits prod.splits dest!: parse_args_moves intro: moves_diag)

lemma append_elseif_ctx: "parser_append_elseif ctx xs x = (ok, ys, ctx') \<Longrightarrow> ctx_le ctx ctx'"
  by (auto simp: parser_append_elseif_def dest: parser_append_le)

lemma append_params_ctx: "append_params ctx params xs = (ok, params', ctx') \<Longrightarrow> ctx_le ctx ctx'"
  by (auto dest: append_params_le)

subsection \<open>The contract of a block parser\<close>

locale block_contract =
  fixes pb :: block_parser
  assumes pb_moves: "pb terms toks ctx = (ns, trm, toks', ctx') \<Longrightarrow> moves toks ctx toks' ctx'"
begin

lemma parse_elseifs_moves:
  "parse_elseifs pb k l c clauses trm toks ctx = (r, toks', ctx') \<Longrightarrow> moves toks ctx toks' ctx'"
proof (induction k arbitrary: clauses trm toks ctx)
  case (Suc k)
  obtain cond ok t1 c1 where 1: "parse_args ARGS_CONDITION_EXPR l c toks ctx = (cond, ok, t1, c1)"
    by (metis prod_cases4)
  obtain blk et t2 c2 where 2: "pb if_terminators t1 c1 = (blk, et, t2, c2)" by (metis prod_cases4)
  obtain pushed cl c3 where 3: "parser_append_elseif c2 clauses (ElseIf_Clause cond blk) = (pushed, cl, c3)"
    by (metis prod_cases3)
  note m = parse_args_moves [OF 1] pb_moves [OF 2] append_elseif_ctx [OF 3]
  from Suc.prems 1 2 3 m show ?case
    by (auto split: if_splits dest!: Suc.IH intro: moves_trans moves_ctx) (meson moves_trans moves_ctx)
qed simp

lemma parse_else_moves:
  "parse_else pb l c cond blk clauses toks ctx = (n, toks', ctx') \<Longrightarrow> moves toks ctx toks' ctx'"
  by (auto simp: parse_else_def if_unterminated_def split: if_splits prod.splits
      dest!: parse_args_moves pb_moves parse_end_signature_moves intro: moves_trans moves_diag)

lemma parse_if_moves:
  assumes "parse_if pb l c toks ctx = (n, toks', ctx')"
  shows "moves toks ctx toks' ctx'"
proof -
  obtain cond ok t1 c1 where 1: "parse_args ARGS_CONDITION_EXPR l c toks ctx = (cond, ok, t1, c1)"
    by (metis prod_cases4)
  obtain blk ft t2 c2 where 2: "pb if_terminators t1 c1 = (blk, ft, t2, c2)" by (metis prod_cases4)
  obtain r t3 c3 where 3: "parse_elseifs pb (Suc (length t2)) l c [] ft t2 c2 = (r, t3, c3)"
    by (metis prod_cases3)
  note m = parse_args_moves [OF 1] pb_moves [OF 2] parse_elseifs_moves [OF 3]
  then have "moves toks ctx t2 c2" "moves toks ctx t3 c3" by (blast intro: moves_trans)+
  with assms 1 2 3 m(1) show ?thesis
    by (auto simp: parse_if_def if_unterminated_def split: if_splits sum.splits simp del: parse_elseifs.simps
        dest!: parse_else_moves parse_end_signature_moves intro: moves_trans moves_diag)
qed

lemma parse_foreach_moves:
  "parse_foreach pb l c toks ctx = (n, toks', ctx') \<Longrightarrow> moves toks ctx toks' ctx'"
  by (auto simp: parse_foreach_def split: if_splits prod.splits
      dest!: parse_args_moves pb_moves parse_end_signature_moves intro: moves_trans moves_diag)

lemma parse_while_moves:
  "parse_while pb l c toks ctx = (n, toks', ctx') \<Longrightarrow> moves toks ctx toks' ctx'"
  by (auto simp: parse_while_def split: if_splits prod.splits
      dest!: parse_args_moves pb_moves parse_end_signature_moves intro: moves_trans moves_diag)

lemma parse_function_macro_moves:
  assumes "parse_function_macro pb m l c toks ctx = (n, toks', ctx')"
  shows "moves toks ctx toks' ctx'"
proof -
  let ?kw = "if m then ''endmacro'' else ''endfunction''"
  obtain args ok t1 c1 where 1: "parse_args ARGS_COMMAND_DEFAULT l c toks ctx = (args, ok, t1, c1)"
    by (metis prod_cases4)
  obtain pushed ps c2 where 2: "append_params c1 [] (tl args) = (pushed, ps, c2)" by (metis prod_cases3)
  obtain blk ft t2 c3 where 3: "pb [?kw] t1 c2 = (blk, ft, t2, c3)" by (metis prod_cases4)
  have m: "moves toks ctx t1 c1" "moves toks ctx t1 c2"
    using parse_args_moves [OF 1] append_params_ctx [OF 2] by (auto intro: moves_ctx)
  then have "moves toks ctx t2 c3" using pb_moves [OF 3] by (blast intro: moves_trans)
  with assms 1 2 3 m show ?thesis
    unfolding parse_function_macro_def
    by (cases m) (auto simp: Let_def split: if_splits
        dest!: parse_end_signature_moves intro: moves_trans moves_diag)
qed

lemmas statement_moves = parse_if_moves parse_foreach_moves parse_while_moves parse_function_macro_moves

lemma moves_tail: "moves ts ctx toks' ctx' \<Longrightarrow> moves (t # ts) ctx toks' ctx'"
  by (auto simp: moves_def suffix_Cons)

text \<open>A statement always consumes a token: its first one.\<close>

lemma parse_statement_moves:
  assumes "parse_statement pb (t # ts) ctx = (n, toks', ctx')" "\<not> oom ctx"
  shows "moves ts ctx toks' ctx'"
proof -
  have s: "moves ts ctx (parser_sync_after_statement_error ts k) ctx" for k
    by (simp add: moves_def sync_suffix)
  show ?thesis
    using assms s
    by (auto simp: parse_statement_def Let_def split: if_splits prod.splits
        dest!: statement_moves parse_args_moves intro: moves_diag)
qed

lemma parse_statement_moves_any:
  assumes "parse_statement pb toks ctx = (n, toks', ctx')"
  shows "moves toks ctx toks' ctx'"
proof (cases "oom ctx \<or> toks = []")
  case True
  then show ?thesis using assms by (auto simp: parse_statement_def split: if_splits)
next
  case False
  then obtain t ts where "toks = t # ts" by (cases toks) auto
  with assms False show ?thesis by (auto intro: moves_tail dest: parse_statement_moves)
qed

lemma moves_leave: "moves t c t' c' \<Longrightarrow> moves t (leave_block c) t' (leave_block c')"
  by (simp add: moves_def ctx_le_def leave_block_def)

lemma append_node_le: "parser_append_node ctx xs x = (ok, ys, ctx') \<Longrightarrow>
  ctx_le ctx ctx' \<and> (if ok then ys = xs @ [x] \<and> oom ctx' = oom ctx else oom ctx')"
  by (auto simp: parser_append_node_def dest: parser_append_le)

lemma parse_block_loop_moves:
  "parse_block_loop pb k lst terms toks ctx = (ns, trm, toks', ctx') \<Longrightarrow> moves toks (leave_block ctx) toks' ctx'"
proof (induction k arbitrary: lst toks ctx)
  case (Suc k)
  show ?case
  proof (cases toks)
    case (Cons t ts)
    obtain n t1 c1 where 1: "parse_statement pb toks ctx = (n, t1, c1)" by (metis prod_cases3)
    obtain ok l1 c2 where 2: "parser_append_node c1 lst n = (ok, l1, c2)" by (metis prod_cases3)
    have m: "moves toks ctx t1 c1" by (rule parse_statement_moves_any [OF 1])
    then have m2: "moves toks ctx t1 c2" using append_node_le [OF 2] by (auto intro: moves_ctx)
    have d: "moves ts (leave_block ctx) t' c' \<Longrightarrow> moves toks (leave_block ctx) t' c'" for t' c'
      by (simp add: Cons moves_tail)
    have e: "moves toks ctx ts (parser_emit_unexpected_token t h ctx)" for h
      unfolding parser_emit_unexpected_token_def
      by (rule moves_diag) (simp add: Cons moves_tail)
    note l = moves_leave [OF m] moves_leave [OF m2] moves_leave [OF e]
    consider (paren) "parse_block_loop pb k lst terms ts
        (parser_emit_unexpected_token t ''parenteses no nivel de bloco exigem um comando valido'' ctx)
          = (ns, trm, toks', ctx')"
      | (stop) "toks' = ts" "ctx' = leave_block ctx"
      | (oom) "toks' = t1" "ctx' = leave_block c1"
      | (skip) "parse_block_loop pb k lst terms t1 c1 = (ns, trm, toks', ctx')"
      | (fail) "toks' = t1" "ctx' = leave_block c2"
      | (push) "parse_block_loop pb k l1 terms t1 c2 = (ns, trm, toks', ctx')"
      using Suc.prems Cons 1 2 by (auto split: if_splits)
    then show ?thesis
      by cases (auto dest!: Suc.IH intro: moves_trans [OF l(1)] moves_trans [OF l(2)] moves_trans [OF l(3)]
          l d)
  qed (use Suc.prems in simp)
qed simp

text \<open>The bound of the statement loop is never felt.\<close>

lemma parse_block_loop_bound:
  "length toks \<le> k \<Longrightarrow> length toks \<le> k' \<Longrightarrow> \<not> oom ctx \<Longrightarrow>
   parse_block_loop pb k lst terms toks ctx = parse_block_loop pb k' lst terms toks ctx"
proof (induction k arbitrary: k' lst toks ctx)
  case 0
  then show ?case by (cases k') auto
next
  case (Suc k)
  show ?case
  proof (cases toks)
    case Nil
    then show ?thesis by (cases k') auto
  next
    case (Cons t ts)
    then obtain j where j: "k' = Suc j" using Suc.prems by (cases k') auto
    obtain n t1 c1 where 1: "parse_statement pb toks ctx = (n, t1, c1)" by (metis prod_cases3)
    obtain ok l1 c2 where 2: "parser_append_node c1 lst n = (ok, l1, c2)" by (metis prod_cases3)
    have l: "length t1 \<le> k" "length t1 \<le> j"
      using moves_length [OF parse_statement_moves [OF 1 [unfolded Cons]]] Suc.prems Cons j by auto
    have e: "\<not> oom (parser_emit_unexpected_token t h ctx)" for h
      using Suc.prems(3) by (simp add: parser_emit_unexpected_token_def)
    show ?thesis
      using Cons j 1 2 l e Suc.prems append_node_le [OF 2] Suc.IH [of ts j] Suc.IH [OF l]
      by (auto simp del: parse_block_loop.simps simp: parse_block_loop.simps(2))
  qed
qed

text \<open>Nor is the bound of the \<open>elseif\<close> loop.\<close>

lemma parse_elseifs_bound:
  "length toks < k \<Longrightarrow> length toks < k' \<Longrightarrow>
   parse_elseifs pb k l c clauses trm toks ctx = parse_elseifs pb k' l c clauses trm toks ctx"
proof (induction k arbitrary: k' clauses trm toks ctx)
  case (Suc k)
  then obtain j where j: "k' = Suc j" by (cases k') auto
  obtain cond ok t1 c1 where 1: "parse_args ARGS_CONDITION_EXPR l c toks ctx = (cond, ok, t1, c1)"
    by (metis prod_cases4)
  obtain blk et t2 c2 where 2: "pb if_terminators t1 c1 = (blk, et, t2, c2)" by (metis prod_cases4)
  obtain pushed cl c3 where 3: "parser_append_elseif c2 clauses (ElseIf_Clause cond blk) = (pushed, cl, c3)"
    by (metis prod_cases3)
  have "ok \<Longrightarrow> \<not> oom c1 \<Longrightarrow> length t2 < k \<and> length t2 < j"
    using parse_args_ok_eats [of _ l c toks ctx cond t1 c1] 1 moves_length [OF pb_moves [OF 2]] Suc.prems j
    by fastforce
  with 1 2 3 j Suc.IH show ?case by auto
qed simp

end

subsection \<open>The contract holds at every level\<close>

lemma parse_block_skip_suffix: "parse_block_skip terms toks = (f, toks') \<Longrightarrow> suffix toks' toks"
  by (induction toks) (auto simp: suffix_Cons split: if_splits)

lemma parse_block_too_deep_moves:
  "parse_block_too_deep terms toks ctx = (ns, trm, toks', ctx') \<Longrightarrow> moves toks ctx toks' ctx'"
  by (auto simp: parse_block_too_deep_def Let_def moves_def split: prod.splits dest: parse_block_skip_suffix)

lemma enter_leave [simp]: "leave_block (ctx\<lparr>block_depth := Suc (block_depth ctx)\<rparr>) = ctx"
  by (simp add: leave_block_def)

lemma level_contract: "block_contract (parse_block_level n)"
proof (induction n)
  case 0
  show ?case by unfold_locales (auto split: if_splits dest: parse_block_too_deep_moves)
next
  case (Suc n)
  then show ?case
    by unfold_locales (auto split: if_splits
        dest: parse_block_too_deep_moves block_contract.parse_block_loop_moves)
qed

interpretation level: block_contract "parse_block_level n" for n
  by (rule level_contract)

lemma parse_block_moves: "parse_block terms toks ctx = (ns, trm, toks', ctx') \<Longrightarrow> moves toks ctx toks' ctx'"
  by (simp add: parse_block_def level.pb_moves)

interpretation pblock: block_contract parse_block
  by unfold_locales (rule parse_block_moves)

subsection \<open>The recursion equations of the code\<close>

text \<open>
  Two block parsers that agree wherever the depth counter is \<open>d\<close> of \<open>m\<close> are
  interchangeable for the statements parsed there.
\<close>

definition at_depth :: "nat \<Rightarrow> nat \<Rightarrow> parser_ctx \<Rightarrow> bool" where
  "at_depth d m ctx \<longleftrightarrow> block_depth ctx = d \<and> max_block_depth ctx = m"

lemma at_depth_moves: "moves t c t' c' \<Longrightarrow> at_depth d m c \<Longrightarrow> at_depth d m c'"
  by (simp add: moves_def ctx_le_def at_depth_def)

lemma at_depth_le: "ctx_le c c' \<Longrightarrow> at_depth d m c \<Longrightarrow> at_depth d m c'"
  by (simp add: ctx_le_def at_depth_def)

locale agreeing = block_contract +
  fixes qb :: block_parser and d m :: nat
  assumes agree: "at_depth d m ctx \<Longrightarrow> pb terms toks ctx = qb terms toks ctx"
begin

lemma args_then: "parse_args mode l c toks ctx = (a, ok, toks1, ctx1) \<Longrightarrow> at_depth d m ctx \<Longrightarrow>
   pb terms toks1 ctx1 = qb terms toks1 ctx1"
  by (blast intro: agree at_depth_moves parse_args_moves)

lemma elseifs_cong: "at_depth d m ctx \<Longrightarrow>
  parse_elseifs pb k l c clauses trm toks ctx = parse_elseifs qb k l c clauses trm toks ctx"
proof (induction k arbitrary: clauses trm toks ctx)
  case (Suc k)
  obtain cond ok t1 c1 where 1: "parse_args ARGS_CONDITION_EXPR l c toks ctx = (cond, ok, t1, c1)"
    by (metis prod_cases4)
  obtain blk et t2 c2 where 2: "pb if_terminators t1 c1 = (blk, et, t2, c2)" by (metis prod_cases4)
  obtain pushed cl c3 where 3: "parser_append_elseif c2 clauses (ElseIf_Clause cond blk) = (pushed, cl, c3)"
    by (metis prod_cases3)
  have "qb if_terminators t1 c1 = (blk, et, t2, c2)" using args_then [OF 1 Suc.prems] 2 by simp
  moreover have "at_depth d m c3"
    using Suc.prems at_depth_moves [OF parse_args_moves [OF 1]] at_depth_moves [OF pb_moves [OF 2]]
      at_depth_le [OF append_elseif_ctx [OF 3]] by blast
  ultimately show ?case using 1 2 3 Suc.IH by simp
qed simp

lemma else_cong: "at_depth d m ctx \<Longrightarrow> parse_else pb l c cond blk clauses toks ctx = parse_else qb l c cond blk clauses toks ctx"
  by (auto simp: parse_else_def split: prod.splits dest: args_then [where terms = "[''endif'']"])

lemma if_cong: assumes "at_depth d m ctx" shows "parse_if pb l c toks ctx = parse_if qb l c toks ctx"
proof -
  obtain cond ok t1 c1 where 1: "parse_args ARGS_CONDITION_EXPR l c toks ctx = (cond, ok, t1, c1)"
    by (metis prod_cases4)
  obtain blk ft t2 c2 where 2: "pb if_terminators t1 c1 = (blk, ft, t2, c2)" by (metis prod_cases4)
  have q: "qb if_terminators t1 c1 = (blk, ft, t2, c2)" using args_then [OF 1 assms] 2 by simp
  have d2: "at_depth d m c2"
    using assms at_depth_moves [OF parse_args_moves [OF 1]] at_depth_moves [OF pb_moves [OF 2]] by blast
  obtain r t3 c3 where 3: "parse_elseifs pb (Suc (length t2)) l c [] ft t2 c2 = (r, t3, c3)"
    by (metis prod_cases3)
  have "at_depth d m c3" by (rule at_depth_moves [OF parse_elseifs_moves [OF 3] d2])
  with 1 2 3 q elseifs_cong [OF d2, of "Suc (length t2)" l c "[]" ft t2] else_cong show ?thesis
    by (simp add: parse_if_def split: sum.splits del: parse_elseifs.simps)
qed

lemma function_macro_cong:
  assumes "at_depth d m ctx"
  shows "parse_function_macro pb mac l c toks ctx = parse_function_macro qb mac l c toks ctx"
proof -
  obtain args ok t1 c1 where 1: "parse_args ARGS_COMMAND_DEFAULT l c toks ctx = (args, ok, t1, c1)"
    by (metis prod_cases4)
  obtain pushed ps c2 where 2: "append_params c1 [] (tl args) = (pushed, ps, c2)" by (metis prod_cases3)
  have "at_depth d m c2"
    using assms at_depth_moves [OF parse_args_moves [OF 1]] at_depth_le [OF append_params_ctx [OF 2]] by blast
  then show ?thesis using 1 2 agree by (simp add: parse_function_macro_def Let_def)
qed

lemma foreach_cong: "at_depth d m ctx \<Longrightarrow> parse_foreach pb l c toks ctx = parse_foreach qb l c toks ctx"
  by (auto simp: parse_foreach_def split: prod.splits dest: args_then [where terms = "[''endforeach'']"])

lemma while_cong: "at_depth d m ctx \<Longrightarrow> parse_while pb l c toks ctx = parse_while qb l c toks ctx"
  by (auto simp: parse_while_def split: prod.splits dest: args_then [where terms = "[''endwhile'']"])

lemma statement_cong: "at_depth d m ctx \<Longrightarrow> parse_statement pb toks ctx = parse_statement qb toks ctx"
  by (simp add: parse_statement_def Let_def if_cong foreach_cong while_cong function_macro_cong
      cong: if_cong split: list.splits)

lemma loop_cong: "at_depth d m ctx \<Longrightarrow>
  parse_block_loop pb k lst terms toks ctx = parse_block_loop qb k lst terms toks ctx"
proof (induction k arbitrary: lst toks ctx)
  case (Suc k)
  obtain n t1 c1 where 1: "parse_statement pb toks ctx = (n, t1, c1)" by (metis prod_cases3)
  obtain ok l1 c2 where 2: "parser_append_node c1 lst n = (ok, l1, c2)" by (metis prod_cases3)
  have 3: "parse_statement qb toks ctx = (n, t1, c1)" using statement_cong [OF Suc.prems] 1 by simp
  have d: "at_depth d m c1" "at_depth d m c2"
    "at_depth d m (parser_emit_unexpected_token t h ctx)" for t h
    using Suc.prems at_depth_moves [OF parse_statement_moves_any [OF 1]] append_node_le [OF 2]
    by (auto intro: at_depth_le at_depth_le [OF parser_diag_le] simp: parser_emit_unexpected_token_def)
  show ?case
  proof (cases toks)
    case (Cons t ts)
    show ?thesis using 1 2 3 d Suc.IH unfolding Cons by simp
  qed simp
qed simp

end

interpretation lvl: agreeing "parse_block_level n" parse_block d "d + n" for n d
  by unfold_locales (simp add: parse_block_def at_depth_def)

text \<open>\<open>parse_block\<close> satisfies the equation the C function is.\<close>

lemma parse_block_eq:
  "parse_block terms toks ctx =
     (if oom ctx then ([], [], toks, ctx)
      else if block_depth ctx \<ge> max_block_depth ctx then parse_block_too_deep terms toks ctx
      else parse_block_loop parse_block (length toks) [] terms toks
             (ctx\<lparr>block_depth := block_depth ctx + 1\<rparr>))"
proof (cases "max_block_depth ctx - block_depth ctx")
  case 0
  then show ?thesis by (simp add: parse_block_def)
next
  case (Suc n)
  let ?c = "ctx\<lparr>block_depth := block_depth ctx + 1\<rparr>"
  have "at_depth (Suc (block_depth ctx)) (Suc (block_depth ctx) + n) ?c"
    using Suc by (auto simp: at_depth_def)
  then have "parse_block_loop (parse_block_level n) (length toks) [] terms toks ?c =
      parse_block_loop parse_block (length toks) [] terms toks ?c"
    by (rule lvl.loop_cong)
  with Suc show ?thesis by (simp add: parse_block_def)
qed

end
