(* ===== verification/Cmk_Parser_Props.thy ===== *)
theory Cmk_Parser_Props
  imports Cmk_Parser_Facts
begin

text \<open>
  What the parser produces: well-formed syntax trees no deeper than the limit, argument lists
  that agree with a reference reading of the parentheses, and trees that survive printing
  and parsing again.
\<close>

subsection \<open>Argument lists against a reference\<close>

text \<open>No injected append failure and an arena that never refuses.\<close>

definition reliable :: "parser_ctx \<Rightarrow> bool" where
  "reliable ctx \<longleftrightarrow> \<not> oom ctx \<and> fail_after_appends ctx = SIZE_MAX \<and> arena_pushes ctx = None"

lemma reliable_append [simp]: "reliable ctx \<Longrightarrow> parser_append ctx xs x = (True, xs @ [x], ctx)"
  by (simp add: reliable_def parser_append_def parser_consume_append_budget_def parser_arena_push_def)

lemma reliable_oom [simp]: "reliable ctx \<Longrightarrow> \<not> oom ctx"
  by (simp add: reliable_def)

lemma reliable_depth [simp]:
  "reliable (ctx\<lparr>block_depth := k\<rparr>) = reliable ctx"
  "reliable (parser_diag sev l c cmd cause hint ctx) = reliable ctx"
  by (simp_all add: reliable_def parser_diag_def)

lemma reliable_new_arg [simp]:
  "reliable ctx \<Longrightarrow> parser_append_new_arg_with_token ctx args t k = (True, new_arg args t k, ctx)"
  by (simp add: parser_append_new_arg_with_token_def parser_append_token_def parser_append_arg_def new_arg_def)

lemma reliable_to_last [simp]: "reliable ctx \<Longrightarrow> append_to_last ctx args t = (True, extend_last args t, ctx)"
  by (simp add: append_to_last_def parser_append_token_def extend_last_def)

lemma reliable_append_paren [simp]:
  "reliable ctx \<Longrightarrow> is_paren t \<Longrightarrow> append_paren mode ctx args t = (True, add_tok mode args t, ctx)"
  by (simp add: append_paren_def add_tok_def parser_append_to_last_or_new_def)

lemma reliable_append_word [simp]:
  "reliable ctx \<Longrightarrow> \<not> is_paren t \<Longrightarrow> append_word mode ctx args t = (True, add_tok mode args t, ctx)"
  by (simp add: append_word_def add_tok_def parser_append_to_last_or_new_def
      parser_append_with_condition_merge_rules_def)

text \<open>
  The reference: from depth \<open>d\<close>, the tokens up to the parenthesis that closes the list
  (without the semicolons at the outermost depth) and what follows it; \<open>None\<close> when the list
  does not close or nests deeper than \<open>m\<close>.
\<close>

fun close_args :: "nat \<Rightarrow> nat \<Rightarrow> token list \<Rightarrow> (token list \<times> token list) option" where
  "close_args m d [] = None"
| "close_args m d (t # ts) =
     (if tok_kind t = TOKEN_LPAREN then
        (if d \<ge> m then None else map_option (apfst ((#) t)) (close_args m (d + 1) ts))
      else if tok_kind t = TOKEN_RPAREN then
        (if d = 1 then Some ([], ts) else map_option (apfst ((#) t)) (close_args m (d - 1) ts))
      else if tok_kind t = TOKEN_SEMICOLON \<and> d = 1 then close_args m d ts
      else map_option (apfst ((#) t)) (close_args m d ts))"

lemma parse_args_loop_closed:
  "reliable ctx \<Longrightarrow> close_args (max_paren_depth ctx) d toks = Some (kept, after) \<Longrightarrow>
   parse_args_loop mode ol oc d 0 rep ok args toks ctx = (foldl (add_tok mode) args kept, ok, after, ctx)"
proof (induction toks arbitrary: d args kept)
  case (Cons t ts)
  have p: "tok_kind t = TOKEN_LPAREN \<Longrightarrow> is_paren t" "tok_kind t = TOKEN_RPAREN \<Longrightarrow> is_paren t"
    "tok_kind t \<noteq> TOKEN_LPAREN \<Longrightarrow> tok_kind t \<noteq> TOKEN_RPAREN \<Longrightarrow> \<not> is_paren t"
    by (simp_all add: is_paren_def)
  from Cons p show ?case by (auto split: if_splits)
qed simp

lemma error_count_parser_diag:
  "error_count (pdiag (parser_diag DIAG_SEV_ERROR l c cmd ca h ctx)) = Suc (error_count (pdiag ctx))"
  by (simp add: parser_diag_def diag_log_counts)

text \<open>Any other list is refused and reported.\<close>

lemma is_paren_cases:
  obtains "tok_kind t = TOKEN_LPAREN" "is_paren t" | "tok_kind t = TOKEN_RPAREN" "is_paren t"
  | "tok_kind t \<noteq> TOKEN_LPAREN" "tok_kind t \<noteq> TOKEN_RPAREN" "\<not> is_paren t"
  by (auto simp: is_paren_def)

lemma parse_args_loop_bad:
  "parse_args_loop mode ol oc d extra rep False args toks ctx = (args', ok', toks', ctx') \<Longrightarrow>
   reliable ctx \<Longrightarrow> \<not> ok'"
proof (induction toks arbitrary: d extra rep args ctx)
  case (Cons t ts)
  show ?case
    by (rule is_paren_cases [of t]) (use Cons in \<open>auto simp: Let_def split: if_splits dest: Cons.IH\<close>)
qed simp

lemma max_paren_diag [simp]: "max_paren_depth (parser_diag sev l c cmd ca h ctx) = max_paren_depth ctx"
  by (simp add: parser_diag_def)

lemma parse_args_loop_open:
  "parse_args_loop mode ol oc d 0 False ok args toks ctx = (args', ok', toks', ctx') \<Longrightarrow>
   reliable ctx \<Longrightarrow> close_args (max_paren_depth ctx) d toks = None \<Longrightarrow>
   \<not> ok' \<and> error_count (pdiag ctx) < error_count (pdiag ctx')"
proof (induction toks arbitrary: d ok args)
  case Nil
  then show ?case by (auto simp: error_count_parser_diag)
next
  case (Cons t ts)
  have over: "\<not> ok' \<and> error_count (pdiag ctx) < error_count (pdiag ctx')"
    if "parse_args_loop mode ol oc d 1 True False args ts (parser_diag DIAG_SEV_ERROR l c cmd ca h ctx) =
          (args', ok', toks', ctx')" for l c cmd ca h
    using parse_args_loop_bad [OF that] parse_args_loop_le [OF that] Cons.prems(2)
    by (auto simp: error_count_parser_diag ctx_le_def)
  show ?case
    by (rule is_paren_cases [of t]) (use Cons over in \<open>auto split: if_splits dest: Cons.IH\<close>)
qed

subsection \<open>Well-formed syntax trees\<close>

definition args_ok :: "arg list \<Rightarrow> bool" where
  "args_ok args \<longleftrightarrow> list_all (\<lambda>a. items a \<noteq> []) args"

text \<open>\<open>node_ok n\<close>: commands have valid names, arguments have tokens, blocks nest at most \<open>n\<close> deep.\<close>

primrec node_ok :: "nat \<Rightarrow> node \<Rightarrow> bool" where
  "node_ok 0 nd =
     (case nd of Node_Command _ _ name args \<Rightarrow> is_valid_command_name name \<and> args_ok args | _ \<Rightarrow> False)"
| "node_ok (Suc n) nd =
     (case nd of
        Node_Command _ _ name args \<Rightarrow> is_valid_command_name name \<and> args_ok args
      | Node_If _ _ cond b els e \<Rightarrow> args_ok cond \<and> list_all (node_ok n) b \<and> list_all (node_ok n) e \<and>
          list_all (\<lambda>cl. case cl of ElseIf_Clause a blk \<Rightarrow> args_ok a \<and> list_all (node_ok n) blk) els
      | Node_Foreach _ _ args b \<Rightarrow> args_ok args \<and> list_all (node_ok n) b
      | Node_While _ _ cond b \<Rightarrow> args_ok cond \<and> list_all (node_ok n) b
      | Node_Function _ _ _ ps b \<Rightarrow> args_ok ps \<and> list_all (node_ok n) b
      | Node_Macro _ _ _ ps b \<Rightarrow> args_ok ps \<and> list_all (node_ok n) b)"

lemma add_tok_ok: "args_ok args \<Longrightarrow> args_ok (add_tok mode args t)"
proof -
  assume a: "args_ok args"
  have "args_ok (extend_last args t)"
    using a by (cases args rule: rev_cases) (simp_all add: extend_last_def args_ok_def)
  moreover have "args_ok (new_arg args t k)" for k using a by (simp add: new_arg_def args_ok_def)
  ultimately show ?thesis by (auto simp: add_tok_def Let_def)
qed

lemma parse_args_loop_ok:
  "parse_args_loop mode ol oc d extra rep ok args toks ctx = (args', ok', toks', ctx') \<Longrightarrow>
   args_ok args \<Longrightarrow> args_ok args'"
proof (induction toks arbitrary: d extra rep ok args ctx)
  case (Cons t ts)
  have n: "args_ok []" by (simp add: args_ok_def)
  show ?case
    by (rule is_paren_cases [of t])
       (use Cons n in \<open>auto simp: Let_def split: if_splits prod.splits
          dest!: append_paren_le append_word_le intro: Cons.IH add_tok_ok\<close>)
qed simp

lemma parse_args_args_ok: "parse_args mode l c toks ctx = (args, ok, toks', ctx') \<Longrightarrow> args_ok args"
proof -
  have n: "args_ok []" by (simp add: args_ok_def)
  show "parse_args mode l c toks ctx = (args, ok, toks', ctx') \<Longrightarrow> args_ok args"
    by (auto simp: parse_args_def n split: if_splits list.splits intro: parse_args_loop_ok)
qed

definition stmt_ok :: "nat \<Rightarrow> node \<Rightarrow> bool" where
  "stmt_ok n nd \<longleftrightarrow> node_is_empty nd \<or> node_ok n nd"

lemma stmt_ok_empty [simp]: "stmt_ok n zero_node" "stmt_ok n (parser_make_empty_statement l c)"
  by (simp_all add: stmt_ok_def node_is_empty_def parser_make_empty_statement_def)

lemma parse_end_signature_node:
  "parse_end_signature kw expected node l c toks ctx = (nd, toks', ctx') \<Longrightarrow> stmt_ok n node \<Longrightarrow> stmt_ok n nd"
  by (auto simp: parse_end_signature_def Let_def split: if_splits prod.splits)

locale block_nodes = block_contract +
  fixes n :: nat
  assumes pb_nodes: "pb terms toks ctx = (ns, trm, toks', ctx') \<Longrightarrow> list_all (node_ok n) ns"
begin

definition clause_ok :: "elseif_clause \<Rightarrow> bool" where
  "clause_ok cl = (case cl of ElseIf_Clause a blk \<Rightarrow> args_ok a \<and> list_all (node_ok n) blk)"

lemma parse_elseifs_nodes:
  "parse_elseifs pb k l c clauses trm toks ctx = (r, toks', ctx') \<Longrightarrow> list_all clause_ok clauses \<Longrightarrow>
   case r of Inl nd \<Rightarrow> stmt_ok (Suc n) nd | Inr (cls, _) \<Rightarrow> list_all clause_ok cls"
proof (induction k arbitrary: clauses trm toks ctx)
  case (Suc k)
  obtain cond ok t1 c1 where 1: "parse_args ARGS_CONDITION_EXPR l c toks ctx = (cond, ok, t1, c1)"
    by (metis prod_cases4)
  obtain blk et t2 c2 where 2: "pb if_terminators t1 c1 = (blk, et, t2, c2)" by (metis prod_cases4)
  obtain pushed cl c3 where 3: "parser_append_elseif c2 clauses (ElseIf_Clause cond blk) = (pushed, cl, c3)"
    by (metis prod_cases3)
  have "clause_ok (ElseIf_Clause cond blk)"
    using parse_args_args_ok [OF 1] pb_nodes [OF 2] by (simp add: clause_ok_def)
  then have "pushed \<Longrightarrow> list_all clause_ok cl"
    using 3 Suc.prems(2) by (auto simp: parser_append_elseif_def dest!: parser_append_le)
  with Suc.prems 1 2 3 show ?case by (auto split: if_splits dest: Suc.IH)
qed auto

lemma parse_else_nodes:
  "parse_else pb l c cond blk clauses toks ctx = (nd, toks', ctx') \<Longrightarrow> args_ok cond \<Longrightarrow>
   list_all (node_ok n) blk \<Longrightarrow> list_all clause_ok clauses \<Longrightarrow> stmt_ok (Suc n) nd"
  by (auto simp: parse_else_def if_unterminated_def split: if_splits prod.splits
      dest!: pb_nodes elim!: parse_end_signature_node)
     (auto simp: stmt_ok_def clause_ok_def [abs_def])

lemma parse_if_nodes:
  assumes "parse_if pb l c toks ctx = (nd, toks', ctx')"
  shows "stmt_ok (Suc n) nd"
proof -
  obtain cond ok t1 c1 where 1: "parse_args ARGS_CONDITION_EXPR l c toks ctx = (cond, ok, t1, c1)"
    by (metis prod_cases4)
  obtain blk ft t2 c2 where 2: "pb if_terminators t1 c1 = (blk, ft, t2, c2)" by (metis prod_cases4)
  obtain r t3 c3 where 3: "parse_elseifs pb (Suc (length t2)) l c [] ft t2 c2 = (r, t3, c3)"
    by (metis prod_cases3)
  note ok = parse_args_args_ok [OF 1] pb_nodes [OF 2]
  have r: "case r of Inl nd \<Rightarrow> stmt_ok (Suc n) nd | Inr (cls, _) \<Rightarrow> list_all clause_ok cls"
    by (rule parse_elseifs_nodes [OF 3]) simp
  have i: "list_all clause_ok cls \<Longrightarrow> stmt_ok (Suc n) (Node_If l c cond blk cls [])" for cls
    using ok by (simp add: stmt_ok_def clause_ok_def [abs_def])
  from assms 1 2 3 r ok i show ?thesis
    by (auto simp: parse_if_def if_unterminated_def split: if_splits sum.splits simp del: parse_elseifs.simps
        elim: parse_else_nodes parse_end_signature_node [OF _ i])
qed

lemma parse_foreach_nodes:
  "parse_foreach pb l c toks ctx = (nd, toks', ctx') \<Longrightarrow> stmt_ok (Suc n) nd"
  by (auto simp: parse_foreach_def split: if_splits prod.splits
      dest!: pb_nodes parse_args_args_ok elim!: parse_end_signature_node)
     (auto simp: stmt_ok_def)

lemma parse_while_nodes:
  "parse_while pb l c toks ctx = (nd, toks', ctx') \<Longrightarrow> stmt_ok (Suc n) nd"
  by (auto simp: parse_while_def split: if_splits prod.splits
      dest!: pb_nodes parse_args_args_ok elim!: parse_end_signature_node)
     (auto simp: stmt_ok_def)

lemma parse_function_macro_nodes:
  assumes "parse_function_macro pb m l c toks ctx = (nd, toks', ctx')"
  shows "stmt_ok (Suc n) nd"
proof -
  let ?kw = "if m then ''endmacro'' else ''endfunction''"
  obtain args ok t1 c1 where 1: "parse_args ARGS_COMMAND_DEFAULT l c toks ctx = (args, ok, t1, c1)"
    by (metis prod_cases4)
  obtain pushed ps c2 where 2: "append_params c1 [] (tl args) = (pushed, ps, c2)" by (metis prod_cases3)
  obtain blk ft t2 c3 where 3: "pb [?kw] t1 c2 = (blk, ft, t2, c3)" by (metis prod_cases4)
  have "args_ok (tl args)" using parse_args_args_ok [OF 1] by (cases args) (auto simp: args_ok_def)
  then have "pushed \<Longrightarrow> args_ok ps" using append_params_le [OF 2] by auto
  with assms 1 2 3 pb_nodes [OF 3] show ?thesis
    unfolding parse_function_macro_def
    by (cases m) (auto simp: Let_def split: if_splits elim!: parse_end_signature_node, auto simp: stmt_ok_def)
qed

lemma parse_statement_nodes:
  "parse_statement pb toks ctx = (nd, toks', ctx') \<Longrightarrow> stmt_ok (Suc n) nd"
  by (auto simp: parse_statement_def Let_def split: if_splits prod.splits list.splits
      dest: parse_if_nodes parse_foreach_nodes parse_while_nodes parse_function_macro_nodes parse_args_args_ok)
     (auto simp: stmt_ok_def dest: parse_args_args_ok)

lemma parse_block_loop_nodes:
  "parse_block_loop pb k lst terms toks ctx = (ns, trm, toks', ctx') \<Longrightarrow>
   list_all (node_ok (Suc n)) lst \<Longrightarrow> list_all (node_ok (Suc n)) ns"
proof (induction k arbitrary: lst toks ctx)
  case (Suc k)
  obtain nd t1 c1 where 1: "parse_statement pb toks ctx = (nd, t1, c1)" by (metis prod_cases3)
  obtain ok l1 c2 where 2: "parser_append_node c1 lst nd = (ok, l1, c2)" by (metis prod_cases3)
  have nd: "\<not> node_is_empty nd \<Longrightarrow> node_ok (Suc n) nd"
    using parse_statement_nodes [OF 1] by (simp add: stmt_ok_def del: node_ok.simps)
  have "\<not> node_is_empty nd \<Longrightarrow> ok \<Longrightarrow> list_all (node_ok (Suc n)) l1"
    using append_node_le [OF 2] Suc.prems(2) nd by (simp del: node_ok.simps)
  with Suc.prems 1 2 show ?case
    by (auto simp del: node_ok.simps split: if_splits list.splits dest: Suc.IH)
qed simp

end

lemma level_nodes: "block_nodes (parse_block_level n) n"
proof (induction n)
  case 0
  show ?case
    by unfold_locales (auto split: if_splits prod.splits simp: parse_block_too_deep_def Let_def)
next
  case (Suc n)
  show ?case
    by unfold_locales
       (auto simp del: node_ok.simps split: if_splits prod.splits simp: parse_block_too_deep_def Let_def
         dest!: block_nodes.parse_block_loop_nodes [OF Suc])
qed

interpretation lvln: block_nodes "parse_block_level n" n for n
  by (rule level_nodes)

subsection \<open>Printing a tree\<close>

text \<open>
  A concrete token sequence for a tree: the command name, its argument tokens between
  parentheses, the statements of a block, the closing keyword with empty parentheses.
\<close>

definition word_tok :: "nat \<Rightarrow> nat \<Rightarrow> string \<Rightarrow> token" where
  "word_tok l c s = \<lparr>tok_kind = TOKEN_IDENTIFIER, tok_text = s, tok_line = l, tok_col = c, has_space_left = True\<rparr>"

definition lparen_tok :: token where
  "lparen_tok = \<lparr>tok_kind = TOKEN_LPAREN, tok_text = ''('', tok_line = 0, tok_col = 0, has_space_left = False\<rparr>"

definition rparen_tok :: token where
  "rparen_tok = \<lparr>tok_kind = TOKEN_RPAREN, tok_text = '')'', tok_line = 0, tok_col = 0, has_space_left = False\<rparr>"

definition args_toks :: "arg list \<Rightarrow> token list" where
  "args_toks args = concat (map items args)"

definition call_toks :: "nat \<Rightarrow> nat \<Rightarrow> string \<Rightarrow> arg list \<Rightarrow> token list" where
  "call_toks l c name args = word_tok l c name # lparen_tok # args_toks args @ [rparen_tok]"

definition name_arg :: "string \<Rightarrow> arg" where
  "name_arg s = \<lparr>items = [word_tok 0 0 s], arg_kind_of = ARG_UNQUOTED\<rparr>"

primrec unparse :: "node \<Rightarrow> token list" and unparse_clause :: "elseif_clause \<Rightarrow> nat \<Rightarrow> nat \<Rightarrow> token list"
  where
  "unparse (Node_Command l c name args) = call_toks l c name args"
| "unparse (Node_If l c cond b els e) =
     call_toks l c ''if'' cond @ concat (map unparse b) @ concat (map (\<lambda>cl. unparse_clause cl l c) els) @
     (if e = [] then [] else call_toks l c ''else'' [] @ concat (map unparse e)) @ call_toks l c ''endif'' []"
| "unparse (Node_Foreach l c args b) =
     call_toks l c ''foreach'' args @ concat (map unparse b) @ call_toks l c ''endforeach'' []"
| "unparse (Node_While l c cond b) =
     call_toks l c ''while'' cond @ concat (map unparse b) @ call_toks l c ''endwhile'' []"
| "unparse (Node_Function l c name ps b) =
     call_toks l c ''function'' (name_arg name # ps) @ concat (map unparse b) @ call_toks l c ''endfunction'' []"
| "unparse (Node_Macro l c name ps b) =
     call_toks l c ''macro'' (name_arg name # ps) @ concat (map unparse b) @ call_toks l c ''endmacro'' []"
| "unparse_clause (ElseIf_Clause cond b) l c = call_toks l c ''elseif'' cond @ concat (map unparse b)"

text \<open>
  Canonical arguments: their tokens, read again, give the same arguments. Canonical trees
  with \<open>n\<close> block levels and \<open>m\<close> parenthesis levels to spare: valid and unreserved command
  names, canonical arguments, and no block where no level is left.
\<close>

definition canon_args :: "parse_args_mode \<Rightarrow> nat \<Rightarrow> arg list \<Rightarrow> bool" where
  "canon_args mode m args \<longleftrightarrow>
     close_args m 1 (args_toks args @ [rparen_tok]) = Some (args_toks args, []) \<and>
     foldl (add_tok mode) [] (args_toks args) = args"

definition cmk_keywords :: "string list" where
  "cmk_keywords = [''if'', ''foreach'', ''while'', ''function'', ''macro'', ''else'', ''elseif'', ''endif'',
     ''endforeach'', ''endwhile'', ''endfunction'', ''endmacro'']"

definition free_name :: "string \<Rightarrow> bool" where
  "free_name s \<longleftrightarrow> is_valid_command_name s \<and> \<not> list_ex (sv_eq_ci_upper s) cmk_keywords"

definition canon_fun :: "nat \<Rightarrow> string \<Rightarrow> arg list \<Rightarrow> bool" where
  "canon_fun m name ps \<longleftrightarrow> canon_args ARGS_COMMAND_DEFAULT m (name_arg name # ps)"

primrec node_canon :: "nat \<Rightarrow> nat \<Rightarrow> node \<Rightarrow> bool" where
  "node_canon m 0 nd =
     (case nd of Node_Command _ _ name args \<Rightarrow> free_name name \<and> canon_args ARGS_COMMAND_DEFAULT m args
      | _ \<Rightarrow> False)"
| "node_canon m (Suc n) nd =
     (case nd of
        Node_Command _ _ name args \<Rightarrow> free_name name \<and> canon_args ARGS_COMMAND_DEFAULT m args
      | Node_If _ _ cond b els e \<Rightarrow>
          canon_args ARGS_CONDITION_EXPR m cond \<and> list_all (node_canon m n) b \<and> list_all (node_canon m n) e \<and>
          list_all (\<lambda>cl. case cl of ElseIf_Clause a blk \<Rightarrow>
             canon_args ARGS_CONDITION_EXPR m a \<and> list_all (node_canon m n) blk) els
      | Node_Foreach _ _ args b \<Rightarrow> canon_args ARGS_COMMAND_DEFAULT m args \<and> list_all (node_canon m n) b
      | Node_While _ _ cond b \<Rightarrow> canon_args ARGS_CONDITION_EXPR m cond \<and> list_all (node_canon m n) b
      | Node_Function _ _ name ps b \<Rightarrow> canon_fun m name ps \<and> list_all (node_canon m n) b
      | Node_Macro _ _ name ps b \<Rightarrow> canon_fun m name ps \<and> list_all (node_canon m n) b)"

lemma close_args_extend:
  "close_args m d (ts @ [rp]) = Some (k, []) \<Longrightarrow> close_args m d (ts @ rp # rem) = Some (k, rem)"
proof (induction ts arbitrary: d k)
  case Nil
  then show ?case by (auto split: if_splits)
next
  case (Cons t ts)
  then show ?case by (auto split: if_splits simp del: One_nat_def)
qed

text \<open>The situation of every statement printed: a parser at depth \<open>d\<close> that nothing disturbs.\<close>

definition calm :: "nat \<Rightarrow> nat \<Rightarrow> parser_ctx \<Rightarrow> bool" where
  "calm m n ctx \<longleftrightarrow> reliable ctx \<and> max_paren_depth ctx = m \<and> block_depth ctx + n \<le> max_block_depth ctx"

lemma parse_args_canon:
  "canon_args mode m args \<Longrightarrow> calm m n ctx \<Longrightarrow>
   parse_args mode l c (lparen_tok # args_toks args @ rparen_tok # rem) ctx = (args, True, rem, ctx)"
  using close_args_extend [of m 1 "args_toks args" rparen_tok "args_toks args" rem]
    parse_args_loop_closed [of ctx 1 "args_toks args @ rparen_tok # rem" "args_toks args" rem mode l c False True "[]"]
  by (auto simp: canon_args_def calm_def parse_args_def lparen_tok_def)

lemma canon_args_Nil: "canon_args mode m []"
  by (simp add: canon_args_def args_toks_def rparen_tok_def)

lemma parse_end_signature_canon:
  "calm m n ctx \<Longrightarrow>
   parse_end_signature kw expected node l c (lparen_tok # rparen_tok # rem) ctx = (node, rem, ctx)"
  using parse_args_canon [OF canon_args_Nil, of m n ctx ARGS_COMMAND_DEFAULT l c rem]
  by (simp add: parse_end_signature_def args_toks_def parser_first_arg_text_def calm_def)
     (simp add: lparen_tok_def)

lemma word_tok_simps [simp]:
  "tok_kind (word_tok l c s) = TOKEN_IDENTIFIER" "tok_text (word_tok l c s) = s"
  "tok_line (word_tok l c s) = l" "tok_col (word_tok l c s) = c"
  by (simp_all add: word_tok_def)

lemma match_word: "match_token_text (word_tok l c s) lit = sv_eq_ci_upper s lit"
  by (simp add: match_token_text_def word_tok_def)

lemma is_terminator_word: "is_terminator terms (word_tok l c s) = list_ex (sv_eq_ci_upper s) terms"
  by (simp add: is_terminator_def list_ex_iff match_word)

lemma lparen_kind [simp]: "tok_kind lparen_tok = TOKEN_LPAREN"
  by (simp add: lparen_tok_def)

text \<open>The keyword comparisons the parser makes on printed trees.\<close>

lemma kw_simps [simp]:
  "\<not> sv_eq_ci_upper ''if'' ''foreach''"
  "\<not> sv_eq_ci_upper ''foreach'' ''if''" "\<not> sv_eq_ci_upper ''while'' ''if''"
  "\<not> sv_eq_ci_upper ''while'' ''foreach''" "\<not> sv_eq_ci_upper ''function'' ''if''"
  "\<not> sv_eq_ci_upper ''function'' ''foreach''" "\<not> sv_eq_ci_upper ''function'' ''while''"
  "\<not> sv_eq_ci_upper ''macro'' ''if''" "\<not> sv_eq_ci_upper ''macro'' ''foreach''"
  "\<not> sv_eq_ci_upper ''macro'' ''while''" "\<not> sv_eq_ci_upper ''macro'' ''function''"
  "\<not> sv_eq_ci_upper ''endif'' ''elseif''" "\<not> sv_eq_ci_upper ''endif'' ''else''"
  "\<not> sv_eq_ci_upper ''else'' ''elseif''" "\<not> sv_eq_ci_upper ''else'' ''endif''"
  "\<not> sv_eq_ci_upper ''elseif'' ''else''" "\<not> sv_eq_ci_upper ''elseif'' ''endif''"
  by (simp_all add: sv_eq_ci_upper_def c_toupper_def c_islower_def)

lemma valid_keywords [simp]:
  "is_valid_command_name ''if''" "is_valid_command_name ''foreach''" "is_valid_command_name ''while''"
  "is_valid_command_name ''function''" "is_valid_command_name ''macro''"
  by (simp_all add: is_valid_command_name_def c_isalpha_def c_isalnum_def c_islower_def c_isupper_def)

text \<open>The keywords that end a block, and the rest of an \<open>if\<close> after its first block.\<close>

definition end_keywords :: "string list" where
  "end_keywords = [''else'', ''elseif'', ''endif'', ''endforeach'', ''endwhile'', ''endfunction'', ''endmacro'']"

definition if_tail :: "nat \<Rightarrow> nat \<Rightarrow> elseif_clause list \<Rightarrow> node list \<Rightarrow> token list" where
  "if_tail l c els e = concat (map (\<lambda>cl. unparse_clause cl l c) els) @
     (if e = [] then [] else call_toks l c ''else'' [] @ concat (map unparse e)) @ call_toks l c ''endif'' []"

definition tail_kw :: "elseif_clause list \<Rightarrow> node list \<Rightarrow> string" where
  "tail_kw els e = (if els \<noteq> [] then ''elseif'' else if e \<noteq> [] then ''else'' else ''endif'')"

lemma if_tail_head: "if_tail l c els e = word_tok l c (tail_kw els e) # tl (if_tail l c els e)"
proof (cases els)
  case (Cons cl els)
  then show ?thesis by (cases cl) (simp add: if_tail_def tail_kw_def call_toks_def)
qed (simp add: if_tail_def tail_kw_def call_toks_def)

lemma if_tail_length: "length els < length (if_tail l c els e)"
proof (induction els)
  case (Cons cl els)
  then show ?case by (cases cl) (simp add: if_tail_def call_toks_def)
qed (simp add: if_tail_def call_toks_def)

lemma call_toks_app: "call_toks l c name args @ rem =
  word_tok l c name # lparen_tok # args_toks args @ rparen_tok # rem"
  by (simp add: call_toks_def)

lemma parse_args_call: "canon_args mode m args \<Longrightarrow> calm m n ctx \<Longrightarrow>
   parse_args mode l c (tl (call_toks l c name args @ rem)) ctx = (args, True, rem, ctx)"
  using parse_args_canon [of mode m args n ctx l c rem] by (simp add: call_toks_def)

lemma calm_reliable: "calm m n ctx \<Longrightarrow> reliable ctx \<and> \<not> oom ctx"
  by (simp add: calm_def)

lemma canon_fun_parts: "canon_fun m name ps \<Longrightarrow> parser_first_arg_text (name_arg name # ps) = name"
  by (simp add: parser_first_arg_text_def name_arg_def)

lemma append_params_calm: "reliable ctx \<Longrightarrow> append_params ctx qs ps = (True, qs @ ps, ctx)"
  by (induction ps arbitrary: qs) (simp_all add: parser_append_arg_def)

text \<open>A printed statement starts with its command name, which never ends a block.\<close>

lemma free_name_valid: "free_name s \<Longrightarrow> is_valid_command_name s \<and> s \<noteq> []"
  by (auto simp: free_name_def is_valid_command_name_def)

lemma keyword_start:
  "list_all (\<lambda>s. is_valid_command_name s \<and> \<not> list_ex (sv_eq_ci_upper s) end_keywords)
     [''if'', ''foreach'', ''while'', ''function'', ''macro'']"
  by code_simp

definition starts_statement :: "token list \<Rightarrow> bool" where
  "starts_statement ts \<longleftrightarrow> (\<exists>l c s rest. ts = word_tok l c s # lparen_tok # rest \<and>
     is_valid_command_name s \<and> \<not> list_ex (sv_eq_ci_upper s) end_keywords)"

lemma starts_call:
  "is_valid_command_name s \<and> \<not> list_ex (sv_eq_ci_upper s) end_keywords \<Longrightarrow>
   starts_statement (call_toks l c s args @ rest)"
  unfolding starts_statement_def call_toks_app by blast

lemma unparse_head:
  assumes "node_canon m n nd"
  shows "starts_statement (unparse nd @ rem)"
proof -
  have f: "free_name s \<Longrightarrow> is_valid_command_name s \<and> \<not> list_ex (sv_eq_ci_upper s) end_keywords" for s
    by (simp add: free_name_def cmk_keywords_def end_keywords_def)
  have k: "is_valid_command_name ''if'' \<and> \<not> list_ex (sv_eq_ci_upper ''if'') end_keywords"
    "is_valid_command_name ''foreach'' \<and> \<not> list_ex (sv_eq_ci_upper ''foreach'') end_keywords"
    "is_valid_command_name ''while'' \<and> \<not> list_ex (sv_eq_ci_upper ''while'') end_keywords"
    "is_valid_command_name ''function'' \<and> \<not> list_ex (sv_eq_ci_upper ''function'') end_keywords"
    "is_valid_command_name ''macro'' \<and> \<not> list_ex (sv_eq_ci_upper ''macro'') end_keywords"
    using keyword_start by simp_all
  show ?thesis
  proof (cases nd)
    case (Node_Command l c s args)
    then have "free_name s" using assms by (cases n) auto
    then show ?thesis using Node_Command f by (simp add: starts_call)
  qed (simp_all add: starts_call [OF k(1)] starts_call [OF k(2)] starts_call [OF k(3)]
      starts_call [OF k(4)] starts_call [OF k(5)])
qed

lemma node_canon_nonempty: "node_canon m n nd \<Longrightarrow> \<not> node_is_empty nd"
  by (cases nd; cases n) (auto simp: node_is_empty_def dest: free_name_valid)

text \<open>A block parser that reads back the blocks of canonical trees.\<close>

locale block_roundtrip =
  fixes pb :: block_parser and m n :: nat
  assumes pb_reads: "calm m (Suc n) ctx \<Longrightarrow> list_all (node_canon m n) ns \<Longrightarrow>
     list_ex (sv_eq_ci_upper kw) terms \<Longrightarrow> set terms \<subseteq> set end_keywords \<Longrightarrow>
     pb terms (concat (map unparse ns) @ word_tok l c kw # rem) ctx = (ns, kw, rem, ctx)"
begin

lemma if_block_reads:
  assumes "calm m (Suc n) ctx" "list_all (node_canon m n) b"
  shows "pb if_terminators (concat (map unparse b) @ if_tail l c els e @ rem) ctx =
    (b, tail_kw els e, tl (if_tail l c els e) @ rem, ctx)"
proof -
  have "pb if_terminators (concat (map unparse b) @ word_tok l c (tail_kw els e) # tl (if_tail l c els e) @ rem) ctx =
      (b, tail_kw els e, tl (if_tail l c els e) @ rem, ctx)"
    by (rule pb_reads [OF assms]) (simp_all add: tail_kw_def if_terminators_def end_keywords_def)
  then show ?thesis by (subst if_tail_head) simp
qed

lemma elseifs_read:
  "calm m (Suc n) ctx \<Longrightarrow> length els < k \<Longrightarrow>
   list_all (\<lambda>cl. case cl of ElseIf_Clause a blk \<Rightarrow>
     canon_args ARGS_CONDITION_EXPR m a \<and> list_all (node_canon m n) blk) els \<Longrightarrow>
   parse_elseifs pb k l c cls (tail_kw els e) (tl (if_tail l c els e) @ rem) ctx =
     (Inr (cls @ els, tail_kw [] e), tl (if_tail l c [] e) @ rem, ctx)"
proof (induction els arbitrary: k cls)
  case Nil
  then obtain j where "k = Suc j" by (cases k) auto
  then show ?case by (simp add: tail_kw_def)
next
  case (Cons cl els)
  obtain a blk where cl: "cl = ElseIf_Clause a blk" by (cases cl)
  obtain j where k: "k = Suc j" "length els < j" using Cons.prems(2) by (cases k) auto
  have t: "tl (if_tail l c (cl # els) e) @ rem =
      tl (call_toks l c ''elseif'' a @ concat (map unparse blk) @ if_tail l c els e @ rem)"
    by (simp add: if_tail_def cl call_toks_def)
  show ?case
    using Cons.prems Cons.IH [OF _ k(2), of "cls @ [cl]"] calm_reliable [OF Cons.prems(1)]
      parse_args_call [of ARGS_CONDITION_EXPR m a "Suc n" ctx l c "''elseif''" "concat (map unparse blk) @ if_tail l c els e @ rem"]
      if_block_reads [of ctx blk l c els e rem]
    unfolding t by (simp add: k cl tail_kw_def [of "_ # _"] parser_append_elseif_def)
qed

lemma if_reads:
  assumes "calm m (Suc n) ctx" "node_canon m (Suc n) (Node_If l c cond b els e)"
  shows "parse_if pb l c (tl (unparse (Node_If l c cond b els e)) @ rem) ctx =
    (Node_If l c cond b els e, rem, ctx)"
proof -
  let ?tail = "if_tail l c els e"
  have canon: "canon_args ARGS_CONDITION_EXPR m cond" "list_all (node_canon m n) b" "list_all (node_canon m n) e"
    "list_all (\<lambda>cl. case cl of ElseIf_Clause a blk \<Rightarrow>
       canon_args ARGS_CONDITION_EXPR m a \<and> list_all (node_canon m n) blk) els"
    using assms(2) by simp_all
  have u: "tl (unparse (Node_If l c cond b els e)) @ rem =
      tl (call_toks l c ''if'' cond @ concat (map unparse b) @ ?tail @ rem)"
    by (simp add: if_tail_def call_toks_def)
  have els: "parse_elseifs pb (Suc (length (tl ?tail @ rem))) l c [] (tail_kw els e) (tl ?tail @ rem) ctx =
      (Inr (els, tail_kw [] e), tl (if_tail l c [] e) @ rem, ctx)"
    using elseifs_read [OF assms(1) _ canon(4), of "Suc (length (tl ?tail @ rem))" l c "[]" e rem]
      if_tail_length [of els l c e] by (simp del: parse_elseifs.simps)
  have else_part: "e \<noteq> [] \<Longrightarrow>
      parse_else pb l c cond b els (tl (if_tail l c [] e) @ rem) ctx = (Node_If l c cond b els e, rem, ctx)"
  proof -
    assume e: "e \<noteq> []"
    have t: "tl (if_tail l c [] e) @ rem =
        tl (call_toks l c ''else'' [] @ concat (map unparse e) @ call_toks l c ''endif'' [] @ rem)"
      using e by (simp add: if_tail_def call_toks_def)
    have "pb [''endif''] (concat (map unparse e) @ word_tok l c ''endif'' # lparen_tok # rparen_tok # rem) ctx =
        (e, ''endif'', lparen_tok # rparen_tok # rem, ctx)"
      by (rule pb_reads [OF assms(1) canon(3)]) (simp_all add: end_keywords_def)
    then have "pb [''endif''] (concat (map unparse e) @ call_toks l c ''endif'' [] @ rem) ctx =
        (e, ''endif'', lparen_tok # rparen_tok # rem, ctx)"
      by (simp add: call_toks_app args_toks_def)
    then show ?thesis
      unfolding t parse_else_def parse_args_call [OF canon_args_Nil assms(1)]
      using calm_reliable [OF assms(1)] parse_end_signature_canon [OF assms(1)] by simp
  qed
  have no_else: "e = [] \<Longrightarrow> tl (if_tail l c [] e) @ rem = lparen_tok # rparen_tok # rem"
    by (simp add: if_tail_def call_toks_def args_toks_def)
  show ?thesis
    unfolding u parse_if_def parse_args_call [OF canon(1) assms(1)]
    using calm_reliable [OF assms(1)] if_block_reads [OF assms(1) canon(2)] els else_part no_else
      parse_end_signature_canon [OF assms(1)]
    by (cases "e = []") (simp_all add: tail_kw_def [of "[]"] del: parse_elseifs.simps)
qed

lemma body_reads:
  assumes "calm m (Suc n) ctx" "list_all (node_canon m n) b" "kw \<in> set end_keywords"
  shows "pb [kw] (concat (map unparse b) @ call_toks l c kw [] @ rem) ctx = (b, kw, lparen_tok # rparen_tok # rem, ctx)"
proof -
  have "pb [kw] (concat (map unparse b) @ word_tok l c kw # lparen_tok # rparen_tok # rem) ctx =
      (b, kw, lparen_tok # rparen_tok # rem, ctx)"
    by (rule pb_reads [OF assms(1,2)]) (use assms(3) in simp_all)
  then show ?thesis by (simp add: call_toks_app args_toks_def)
qed

lemma foreach_reads:
  assumes "calm m (Suc n) ctx" "node_canon m (Suc n) (Node_Foreach l c args b)"
  shows "parse_foreach pb l c (tl (unparse (Node_Foreach l c args b)) @ rem) ctx = (Node_Foreach l c args b, rem, ctx)"
proof -
  have canon: "canon_args ARGS_COMMAND_DEFAULT m args" "list_all (node_canon m n) b" using assms(2) by simp_all
  have u: "tl (unparse (Node_Foreach l c args b)) @ rem =
      tl (call_toks l c ''foreach'' args @ concat (map unparse b) @ call_toks l c ''endforeach'' [] @ rem)"
    by (simp add: call_toks_def)
  show ?thesis
    unfolding u parse_foreach_def parse_args_call [OF canon(1) assms(1)]
    using calm_reliable [OF assms(1)] body_reads [OF assms(1) canon(2), of "''endforeach''" l c rem]
      parse_end_signature_canon [OF assms(1)] by (simp add: end_keywords_def)
qed

lemma while_reads:
  assumes "calm m (Suc n) ctx" "node_canon m (Suc n) (Node_While l c cond b)"
  shows "parse_while pb l c (tl (unparse (Node_While l c cond b)) @ rem) ctx = (Node_While l c cond b, rem, ctx)"
proof -
  have canon: "canon_args ARGS_CONDITION_EXPR m cond" "list_all (node_canon m n) b" using assms(2) by simp_all
  have u: "tl (unparse (Node_While l c cond b)) @ rem =
      tl (call_toks l c ''while'' cond @ concat (map unparse b) @ call_toks l c ''endwhile'' [] @ rem)"
    by (simp add: call_toks_def)
  show ?thesis
    unfolding u parse_while_def parse_args_call [OF canon(1) assms(1)]
    using calm_reliable [OF assms(1)] body_reads [OF assms(1) canon(2), of "''endwhile''" l c rem]
      parse_end_signature_canon [OF assms(1)] by (simp add: end_keywords_def)
qed

lemma function_macro_reads:
  assumes "calm m (Suc n) ctx" "canon_fun m name ps" "list_all (node_canon m n) b"
  shows "parse_function_macro pb mac l c
      (tl (call_toks l c kw (name_arg name # ps) @ concat (map unparse b) @
           call_toks l c (if mac then ''endmacro'' else ''endfunction'') [] @ rem)) ctx =
    (if mac then Node_Macro l c name ps b else Node_Function l c name ps b, rem, ctx)"
proof -
  let ?kw = "if mac then ''endmacro'' else ''endfunction''"
  have k: "?kw \<in> set end_keywords" by (simp add: end_keywords_def)
  show ?thesis
    unfolding parse_function_macro_def parse_args_call [OF assms(2) [unfolded canon_fun_def] assms(1)]
    using calm_reliable [OF assms(1)] body_reads [OF assms(1,3) k, of l c rem] canon_fun_parts [OF assms(2)]
      parse_end_signature_canon [OF assms(1)] by (simp add: Let_def append_params_calm)
qed

lemma statement_reads:
  assumes "calm m (Suc n) ctx" "node_canon m (Suc n) nd"
  shows "parse_statement pb (unparse nd @ rem) ctx = (nd, rem, ctx)"
proof -
  have st: "parse_statement pb (word_tok l c s # lparen_tok # ts) ctx =
      (if sv_eq_ci_upper s ''if'' then parse_if pb l c (lparen_tok # ts) ctx
       else if sv_eq_ci_upper s ''foreach'' then parse_foreach pb l c (lparen_tok # ts) ctx
       else if sv_eq_ci_upper s ''while'' then parse_while pb l c (lparen_tok # ts) ctx
       else if sv_eq_ci_upper s ''function'' then parse_function_macro pb False l c (lparen_tok # ts) ctx
       else if sv_eq_ci_upper s ''macro'' then parse_function_macro pb True l c (lparen_tok # ts) ctx
       else (case parse_args ARGS_COMMAND_DEFAULT l c (lparen_tok # ts) ctx of (args, acc, toks1, ctx1) \<Rightarrow>
         if oom ctx1 then (zero_node, toks1, ctx1)
         else if \<not> acc then (parser_make_empty_statement l c, toks1, ctx1)
         else (Node_Command l c s args, toks1, ctx1)))" if "is_valid_command_name s" for l c s ts
    using calm_reliable [OF assms(1)] that by (simp add: parse_statement_def Let_def match_word)
  show ?thesis
  proof (cases nd)
    case (Node_Command l c s args)
    with assms(2) have "free_name s" "canon_args ARGS_COMMAND_DEFAULT m args" by simp_all
    with Node_Command show ?thesis
      using calm_reliable [OF assms(1)] parse_args_canon [OF _ assms(1), of ARGS_COMMAND_DEFAULT args l c rem]
      by (simp add: call_toks_def st free_name_def cmk_keywords_def)
  next
    case (Node_If l c cond b els e)
    then show ?thesis using if_reads [OF assms(1), of l c cond b els e rem] assms(2)
      by (simp add: call_toks_def st del: node_canon.simps)
  next
    case (Node_Foreach l c args b)
    then show ?thesis using foreach_reads [OF assms(1), of l c args b rem] assms(2)
      by (simp add: call_toks_def st del: node_canon.simps)
  next
    case (Node_While l c cond b)
    then show ?thesis using while_reads [OF assms(1), of l c cond b rem] assms(2)
      by (simp add: call_toks_def st del: node_canon.simps)
  next
    case (Node_Function l c name ps b)
    then show ?thesis
      using function_macro_reads [OF assms(1), of name ps b False l c "''function''" rem] assms(2)
      by (simp add: call_toks_def st)
  next
    case (Node_Macro l c name ps b)
    then show ?thesis
      using function_macro_reads [OF assms(1), of name ps b True l c "''macro''" rem] assms(2)
      by (simp add: call_toks_def st)
  qed
qed

end

text \<open>With no block level left, the statements that can be read are the commands.\<close>

lemma command_reads:
  assumes "calm m 0 ctx" "node_canon m 0 nd"
  shows "parse_statement pb (unparse nd @ rem) ctx = (nd, rem, ctx)"
proof (cases nd)
  case (Node_Command l c s args)
  with assms(2) have "free_name s" "canon_args ARGS_COMMAND_DEFAULT m args" by simp_all
  with Node_Command show ?thesis
    using calm_reliable [OF assms(1)] parse_args_canon [OF _ assms(1), of ARGS_COMMAND_DEFAULT args l c rem]
    by (simp add: call_toks_def parse_statement_def Let_def match_word free_name_def cmk_keywords_def)
qed (use assms(2) in simp_all)

text \<open>Statements that read back make blocks that read back, up to any kind of end.\<close>

lemma loop_reads:
  assumes st: "\<And>nd rem. node_canon m n nd \<Longrightarrow> parse_statement pb (unparse nd @ rem) ctx = (nd, rem, ctx)"
    and c: "reliable ctx" and t: "set terms \<subseteq> set end_keywords"
  shows "list_all (node_canon m n) ns \<Longrightarrow> length ns \<le> k \<Longrightarrow>
    parse_block_loop pb k lst terms (concat (map unparse ns) @ rem) ctx =
    parse_block_loop pb (k - length ns) (lst @ ns) terms rem ctx"
proof (induction ns arbitrary: k lst)
  case (Cons nd ns)
  then obtain j where k: "k = Suc j" by (cases k) auto
  let ?rem = "concat (map unparse ns) @ rem"
  have nd: "node_canon m n nd" using Cons.prems by simp
  obtain l co s rest where h: "unparse nd @ ?rem = word_tok l co s # lparen_tok # rest"
      "\<not> list_ex (sv_eq_ci_upper s) end_keywords"
    using unparse_head [OF nd, of ?rem] by (auto simp: starts_statement_def)
  have "\<not> is_terminator terms (word_tok l co s)"
    using h(2) t by (auto simp: is_terminator_word list_ex_iff)
  moreover have "parse_statement pb (word_tok l co s # lparen_tok # rest) ctx = (nd, ?rem, ctx)"
    using st [OF nd, of ?rem] h(1) by simp
  ultimately have "parse_block_loop pb k lst terms (unparse nd @ ?rem) ctx =
      parse_block_loop pb j (lst @ [nd]) terms ?rem ctx"
    using c node_canon_nonempty [OF nd] unfolding h(1) k by (simp add: parser_append_node_def)
  with Cons k show ?case by simp
qed simp

lemma length_unparse: "list_all (node_canon m n) ns \<Longrightarrow> length ns \<le> length (concat (map unparse ns))"
proof (induction ns)
  case (Cons nd ns)
  have "1 \<le> length (unparse nd)"
    using unparse_head [of m n nd "[]"] Cons.prems by (auto simp: starts_statement_def)
  moreover have "length ns \<le> length (concat (map unparse ns))" using Cons by simp
  ultimately show ?case by simp
qed simp

lemma level_reads:
  assumes st: "\<And>nd rem ctx. calm m n ctx \<Longrightarrow> node_canon m n nd \<Longrightarrow>
      parse_statement (parse_block_level n) (unparse nd @ rem) ctx = (nd, rem, ctx)"
  shows "block_roundtrip (parse_block_level (Suc n)) m n"
proof
  fix ctx ns kw terms l c rem
  assume a: "calm m (Suc n) ctx" "list_all (node_canon m n) ns" "list_ex (sv_eq_ci_upper kw) terms"
    "set terms \<subseteq> set end_keywords"
  let ?c = "ctx\<lparr>block_depth := block_depth ctx + 1\<rparr>"
  let ?toks = "concat (map unparse ns) @ word_tok l c kw # rem"
  have c: "calm m n ?c" "reliable ?c" using a(1) by (simp_all add: calm_def)
  have le: "length ns \<le> length ?toks" using length_unparse [OF a(2)] by simp
  obtain j where "length ?toks - length ns = Suc j" using length_unparse [OF a(2)]
    by (metis Suc_diff_le add_Suc_right length_Cons length_append le_add1 le_trans)
  moreover have "is_terminator terms (word_tok l c kw)" using a(3) by (simp add: is_terminator_word)
  ultimately show "parse_block_level (Suc n) terms ?toks ctx = (ns, kw, rem, ctx)"
    using loop_reads [OF st [OF c(1)] c(2) a(4) a(2) le, of "[]" "word_tok l c kw # rem"] a(1) c
    by (simp add: calm_def del: concat_append)
qed

lemma level_roundtrip: "block_roundtrip (parse_block_level (Suc n)) m n"
proof (induction n)
  case 0
  show ?case by (rule level_reads) (rule command_reads)
next
  case (Suc n)
  show ?case by (rule level_reads) (rule block_roundtrip.statement_reads [OF Suc])
qed

interpretation lvlr: block_roundtrip "parse_block_level (Suc n)" m n for m n
  by (rule level_roundtrip)

subsection \<open>The top-level block\<close>

lemma parse_block_loop_all:
  "parse_block_loop (parse_block_level n) k lst [] toks ctx = (ns, trm, toks', ctx') \<Longrightarrow>
   length toks \<le> k \<Longrightarrow> \<not> oom ctx \<Longrightarrow> \<not> oom ctx' \<Longrightarrow> toks' = [] \<and> trm = []"
proof (induction k arbitrary: lst toks ctx)
  case (Suc k)
  show ?case
  proof (cases toks)
    case (Cons t ts)
    obtain nd t1 c1 where 1: "parse_statement (parse_block_level n) toks ctx = (nd, t1, c1)"
      by (metis prod_cases3)
    obtain ok l1 c2 where 2: "parser_append_node c1 lst nd = (ok, l1, c2)" by (metis prod_cases3)
    have l: "length t1 \<le> k"
      using moves_length [OF level.parse_statement_moves [OF 1 [unfolded Cons] Suc.prems(3)]]
        Suc.prems(2) Cons by simp
    have e: "\<not> oom (parser_emit_unexpected_token t h ctx)" for h
      using Suc.prems(3) by (simp add: parser_emit_unexpected_token_def)
    have o: "\<not> oom (leave_block c) \<Longrightarrow> \<not> oom c" for c by (simp add: leave_block_def)
    show ?thesis
      using Suc.prems Cons 1 2 l e o level.append_node_le [OF 2]
      by (auto simp: is_terminator_def split: if_splits dest: Suc.IH)
  qed (use Suc.prems in simp)
qed simp

lemma ctx_init [simp]:
  "\<not> oom (parser_ctx_init env pushes d)" "block_depth (parser_ctx_init env pushes d) = 0"
  "max_paren_depth (parser_ctx_init env pushes d) =
     parser_limit_from_env (env ''CMK2NOB_PARSER_MAX_PAREN_DEPTH'') PARSER_DEFAULT_MAX_PAREN_DEPTH 1"
  "max_block_depth (parser_ctx_init env pushes d) =
     parser_limit_from_env (env ''CMK2NOB_PARSER_MAX_BLOCK_DEPTH'') PARSER_DEFAULT_MAX_BLOCK_DEPTH 1"
  "pdiag (parser_ctx_init env pushes d) = d"
  by (simp_all add: parser_ctx_init_def)

lemma parser_limit_pos: "0 < fallback \<Longrightarrow> 0 < parser_limit_from_env e fallback 1"
  by (auto simp: parser_limit_from_env_def Let_def split: option.splits prod.splits)

subsection \<open>Properties\<close>

text \<open>
  C21. \<open>parse_block\<close> is the function the C code computes: it satisfies the C recursion
  equation, with the depth guard and the recursive calls one level deeper, and the bounds
  that its statement loop and its \<open>elseif\<close> loop carry in the model never stop them.
\<close>

theorem parse_block_is_the_c_function:
  assumes "\<not> oom ctx"
  shows "parse_block terms toks ctx =
     (if block_depth ctx \<ge> max_block_depth ctx then parse_block_too_deep terms toks ctx
      else parse_block_loop parse_block (length toks) [] terms toks (ctx\<lparr>block_depth := block_depth ctx + 1\<rparr>)) \<and>
   parse_block_loop parse_block (length toks + j) lst terms toks ctx =
     parse_block_loop parse_block (length toks) lst terms toks ctx \<and>
   parse_elseifs parse_block (Suc (length toks) + j) l c clauses trm toks ctx =
     parse_elseifs parse_block (Suc (length toks)) l c clauses trm toks ctx"
proof (intro conjI)
  show "parse_block_loop parse_block (length toks + j) lst terms toks ctx =
     parse_block_loop parse_block (length toks) lst terms toks ctx"
    by (rule pblock.parse_block_loop_bound) (use assms in simp_all)
  show "parse_elseifs parse_block (Suc (length toks) + j) l c clauses trm toks ctx =
     parse_elseifs parse_block (Suc (length toks)) l c clauses trm toks ctx"
    by (rule pblock.parse_elseifs_bound) simp_all
qed (use assms parse_block_eq [of terms toks ctx] in simp)

theorem parse_block_is_the_c_function_witness:
  "fst (parse_block [] [] (parser_ctx_init (\<lambda>_. None) None diag_init)) = []"
proof -
  have "\<not> oom (parser_ctx_init (\<lambda>_. None) None diag_init)" by simp
  from parse_block_is_the_c_function [OF this, of "[]" "[]" 0 "[]"]
  show ?thesis by (simp add: parse_block_too_deep_def)
qed

text \<open>
  C34. The parser reads its whole input whatever the input is: when no allocation failed, the
  top-level block ends with no token left, no terminator claimed and the depth counter back
  at zero.
\<close>

theorem parse_consumes_everything:
  assumes "parse_block [] toks (parser_ctx_init env pushes d) = (root, trm, toks', ctx)" "\<not> oom ctx"
  shows "toks' = [] \<and> trm = [] \<and> block_depth ctx = 0 \<and> error_count d \<le> error_count (pdiag ctx)"
proof -
  let ?c = "parser_ctx_init env pushes d"
  have "0 < max_block_depth ?c - block_depth ?c"
    using parser_limit_pos [of PARSER_DEFAULT_MAX_BLOCK_DEPTH] by (simp add: PARSER_DEFAULT_MAX_BLOCK_DEPTH_def)
  then obtain n where n: "max_block_depth ?c - block_depth ?c = Suc n" using gr0_implies_Suc by blast
  then have "parse_block_loop (parse_block_level n) (length toks) [] [] toks (?c\<lparr>block_depth := 1\<rparr>) =
      (root, trm, toks', ctx)"
    using assms(1) by (simp add: parse_block_def split: if_splits)
  then have "toks' = [] \<and> trm = []"
    by (rule parse_block_loop_all) (use assms(2) in \<open>simp_all\<close>)
  moreover have "ctx_le ?c ctx" using parse_block_moves [OF assms(1)] by (simp add: moves_def)
  ultimately show ?thesis by (simp add: ctx_le_def)
qed

definition demo_env :: "string \<Rightarrow> string option" where
  "demo_env v = (if v = ''CMK2NOB_PARSER_MAX_BLOCK_DEPTH'' \<or> v = ''CMK2NOB_PARSER_MAX_PAREN_DEPTH'' then Some ''2'' else None)"

lemma demo_limit [simp]: "parser_limit_from_env (Some ''2'') fallback (Suc 0) = 2"
  by (simp add: parser_limit_from_env_def c_strtoull_def c_isspace_def c_isdigit_def digits_value_def
      digit_val_def SIZE_MAX_def ULLONG_MAX_def)

lemma demo_reliable: "reliable (parser_ctx_init demo_env None d)"
  by (simp add: reliable_def parser_ctx_init_def demo_env_def parser_fail_after_from_env_def)

theorem parse_consumes_everything_witness:
  "fst (snd (snd (parse_block [] [lparen_tok] (parser_ctx_init demo_env None diag_init)))) = []"
proof -
  let ?r = "parse_block [] [lparen_tok] (parser_ctx_init demo_env None diag_init)"
  have "\<not> oom (snd (snd (snd ?r)))"
    by (simp add: parse_block_eq demo_env_def parser_emit_unexpected_token_def leave_block_def)
  with parse_consumes_everything [of "[lparen_tok]" demo_env None diag_init
      "fst ?r" "fst (snd ?r)" "fst (snd (snd ?r))" "snd (snd (snd ?r))"]
  show ?thesis by simp
qed

text \<open>
  C35. Every tree the parser returns is well formed: command names are valid and not empty
  (the placeholders of error recovery never leak), every argument has at least one token,
  and blocks nest at most as deep as the configured limit.
\<close>

theorem parse_tokens_well_formed:
  "list_all (node_ok (parser_limit_from_env (env ''CMK2NOB_PARSER_MAX_BLOCK_DEPTH'') PARSER_DEFAULT_MAX_BLOCK_DEPTH 1))
     (fst (parse_tokens env arena toks d))"
proof (cases arena)
  case (Some pushes)
  obtain root trm toks' ctx where r: "parse_block [] toks (parser_ctx_init env pushes d) = (root, trm, toks', ctx)"
    by (metis prod_cases4)
  then show ?thesis using lvln.pb_nodes Some by (fastforce simp: parse_tokens_def parse_block_def)
qed (simp add: parse_tokens_def)

text \<open>
  C20. The argument parser agrees with the reference reading of the parentheses: a list that
  closes within the nesting limit is accepted, with exactly the tokens before its closing
  parenthesis (semicolons at the outer level dropped) grouped one by one, and parsing
  resumes after it; any other list is refused and reported as an error.
\<close>

theorem parse_args_reference:
  assumes "reliable ctx" "tok_kind t = TOKEN_LPAREN"
  shows "case close_args (max_paren_depth ctx) 1 ts of
      Some (kept, after) \<Rightarrow>
        parse_args mode l c (t # ts) ctx = (foldl (add_tok mode) [] kept, True, after, ctx)
    | None \<Rightarrow> (case parse_args mode l c (t # ts) ctx of (_, ok, _, ctx') \<Rightarrow>
        \<not> ok \<and> error_count (pdiag ctx) < error_count (pdiag ctx'))"
proof -
  have *: "parse_args mode l c (t # ts) ctx = parse_args_loop mode l c 1 0 False True [] ts ctx"
    using assms by (simp add: parse_args_def)
  show ?thesis
  proof (cases "close_args (max_paren_depth ctx) 1 ts")
    case None
    obtain a ok u ctx' where r: "parse_args_loop mode l c 1 0 False True [] ts ctx = (a, ok, u, ctx')"
      by (metis prod_cases4)
    from parse_args_loop_open [OF r assms(1) None] show ?thesis unfolding * r None by simp
  next
    case (Some p)
    then show ?thesis using parse_args_loop_closed [OF assms(1)] unfolding * by (cases p) simp
  qed
qed

theorem parse_args_reference_witness:
  "parse_args ARGS_COMMAND_DEFAULT 1 1 [lparen_tok, word_tok 1 2 ''x'', rparen_tok] (parser_ctx_init demo_env None diag_init) =
     ([\<lparr>items = [word_tok 1 2 ''x''], arg_kind_of = ARG_UNQUOTED\<rparr>], True, [], parser_ctx_init demo_env None diag_init)"
proof -
  let ?c = "parser_ctx_init demo_env None diag_init"
  have m: "max_paren_depth ?c = 2" by (simp add: demo_env_def)
  have 2: "close_args 2 1 [word_tok 1 2 ''x'', rparen_tok] = Some ([word_tok 1 2 ''x''], [])"
    by code_simp
  have 3: "foldl (add_tok ARGS_COMMAND_DEFAULT) [] [word_tok 1 2 ''x''] =
      [\<lparr>items = [word_tok 1 2 ''x''], arg_kind_of = ARG_UNQUOTED\<rparr>]" by code_simp
  have "case close_args 2 1 [word_tok 1 2 ''x'', rparen_tok] of
      Some (kept, after) \<Rightarrow>
        parse_args ARGS_COMMAND_DEFAULT 1 1 [lparen_tok, word_tok 1 2 ''x'', rparen_tok] ?c =
          (foldl (add_tok ARGS_COMMAND_DEFAULT) [] kept, True, after, ?c)
    | None \<Rightarrow> (case parse_args ARGS_COMMAND_DEFAULT 1 1 [lparen_tok, word_tok 1 2 ''x'', rparen_tok] ?c of
        (_, ok, _, ctx') \<Rightarrow> \<not> ok \<and> error_count (pdiag ?c) < error_count (pdiag ctx'))"
    unfolding m [symmetric] by (rule parse_args_reference [OF demo_reliable]) simp
  then show ?thesis unfolding 2 option.case prod.case 3 .
qed

text \<open>
  C1. Printing and parsing again is the identity: for every canonical tree that nests below
  the limits, the parser turns its printed tokens back into that tree and emits no
  diagnostic at all.
\<close>

theorem parse_unparse:
  assumes "list_all (node_canon m n) ns"
    "parser_limit_from_env (env ''CMK2NOB_PARSER_MAX_BLOCK_DEPTH'') PARSER_DEFAULT_MAX_BLOCK_DEPTH 1 = Suc n"
    "parser_limit_from_env (env ''CMK2NOB_PARSER_MAX_PAREN_DEPTH'') PARSER_DEFAULT_MAX_PAREN_DEPTH 1 = m"
    "env ''CMK2NOB_PARSER_FAIL_APPEND_AFTER'' = None"
  shows "parse_tokens env (Some None) (concat (map unparse ns)) d = (ns, d)"
proof -
  let ?c = "parser_ctx_init env None d" and ?toks = "concat (map unparse ns)"
  let ?c1 = "?c\<lparr>block_depth := 1\<rparr>"
  have rel: "reliable ?c"
    using assms(4) by (simp add: reliable_def parser_ctx_init_def parser_fail_after_from_env_def)
  have calm: "calm m n ?c1" using rel assms(2,3) by (simp add: calm_def)
  have st: "node_canon m n nd \<Longrightarrow> parse_statement (parse_block_level n) (unparse nd @ rem) ?c1 = (nd, rem, ?c1)" for nd rem
    by (cases n) (use calm command_reads lvlr.statement_reads in blast)+
  have "parse_block_loop (parse_block_level n) (length ?toks) [] [] (?toks @ []) ?c1 =
      parse_block_loop (parse_block_level n) (length ?toks - length ns) ([] @ ns) [] [] ?c1"
    by (rule loop_reads [OF st]) (use rel assms(1) length_unparse in auto)
  also have "\<dots> = (ns, [], [], ?c)"
    by (cases "length ?toks - length ns") (simp_all add: leave_block_def parser_ctx_init_def)
  finally have "parse_block [] ?toks ?c = (ns, [], [], ?c)"
    using assms(2) by (simp add: parse_block_def)
  then show ?thesis by (simp add: parse_tokens_def)
qed

definition demo_ast :: "node list" where
  "demo_ast =
     [Node_If 1 1 [\<lparr>items = [word_tok 1 4 ''A''], arg_kind_of = ARG_UNQUOTED\<rparr>]
        [Node_Command 2 1 ''set'' [\<lparr>items = [word_tok 2 5 ''x''], arg_kind_of = ARG_UNQUOTED\<rparr>]]
        [ElseIf_Clause [\<lparr>items = [word_tok 3 8 ''B''], arg_kind_of = ARG_UNQUOTED\<rparr>] []]
        [Node_Command 5 1 ''message'' []]]"

theorem parse_unparse_witness:
  "parse_tokens demo_env (Some None) (concat (map unparse demo_ast)) diag_init = (demo_ast, diag_init)"
proof (rule parse_unparse)
  show "list_all (node_canon 2 1) demo_ast" by code_simp
qed (simp_all add: demo_env_def)

end
