(* ===== verification/Genex_Parse.thy ===== *)
theory Genex_Parse
  imports Nob_Prelude
begin

text \<open>
  Scanning helpers of the generator-expression engine, \<open>src_v2/genex/genex_parse.c\<close>: escapes,
  openers, list matching, path parts, splitting at the top level, finding the matching end,
  and the \<open>TARGET_PROPERTY\<close> stack. The index loops are recursive functions over the index.
  A \<open>Genex_Context\<close> is the record \<open>genex_context\<close>; its callbacks are functions, and the
  outcomes of arena allocations, which the code checks, are functions too.
\<close>

subsection \<open>Data\<close>

datatype genex_status = GENEX_OK | GENEX_UNSUPPORTED | GENEX_ERROR | GENEX_CYCLE_GUARD_HIT

text \<open>What a callback may return: a view, or a null pointer with a length.\<close>

datatype callback_value = View string_view | Null_Data nat

record genex_context =
  gx_config :: string_view
  current_target_name :: string_view
  platform_id :: string_view
  compile_language :: string_view
  install_prefix :: string_view
  read_target_property :: "(string_view \<Rightarrow> string_view \<Rightarrow> callback_value) option"
  read_target_file :: "(string_view \<Rightarrow> callback_value) option"
  read_target_linker_file :: "(string_view \<Rightarrow> callback_value) option"
  link_only_active :: bool
  build_interface_active :: bool
  build_local_interface_active :: bool
  install_interface_active :: bool
  target_name_case_insensitive :: bool
  max_callback_value_len :: nat
  max_depth :: nat
  max_target_property_depth :: nat
  strndup_ok :: "string_view \<Rightarrow> bool"
  alloc_ok :: "nat \<Rightarrow> bool"

record genex_result =
  gx_status :: genex_status
  gx_value :: string_view
  gx_diag :: string_view

type_synonym tp_stack = "(string_view \<times> string_view) list"

subsection \<open>Copies, comparisons, escapes\<close>

definition gx_copy_to_arena :: "genex_context \<Rightarrow> string_view \<Rightarrow> string_view" where
  "gx_copy_to_arena ctx sv =
     (if sv = [] then [] else if \<not> strndup_ok ctx sv then [] else c_str sv)"

definition gx_copy_cstr_to_arena :: "genex_context \<Rightarrow> string \<Rightarrow> string_view" where
  "gx_copy_cstr_to_arena ctx s = (if \<not> strndup_ok ctx s then [] else c_str s)"

definition gx_trim :: "string_view \<Rightarrow> string_view" where
  "gx_trim sv = nob_sv_trim sv"

definition gx_sv_eq_ci :: "string_view \<Rightarrow> string_view \<Rightarrow> bool" where
  "gx_sv_eq_ci a b =
     (if length a \<noteq> length b then False else list_all2 (\<lambda>x y. c_toupper x = c_toupper y) a b)"

definition gx_sv_ends_with_ci :: "string_view \<Rightarrow> string_view \<Rightarrow> bool" where
  "gx_sv_ends_with_ci sv suf =
     (if length suf > length sv then False else gx_sv_eq_ci (drop (length sv - length suf) sv) suf)"

definition gx_is_escaped :: "string_view \<Rightarrow> nat \<Rightarrow> bool" where
  "gx_is_escaped input idx =
     (if idx = 0 \<or> idx > length input then False
      else (length (takeWhile (\<lambda>c. c = BACKSLASH) (rev (take idx input)))) mod 2 \<noteq> 0)"

definition gx_is_genex_open_at :: "string_view \<Rightarrow> nat \<Rightarrow> bool" where
  "gx_is_genex_open_at input i =
     (if i + 1 \<ge> length input then False
      else if input ! i \<noteq> CHR ''$'' \<or> input ! (i + 1) \<noteq> CHR ''<'' then False
      else \<not> gx_is_escaped input i)"

definition gx_is_unescaped_char_at :: "string_view \<Rightarrow> nat \<Rightarrow> char \<Rightarrow> bool" where
  "gx_is_unescaped_char_at input i ch =
     (if i \<ge> length input \<or> input ! i \<noteq> ch then False else \<not> gx_is_escaped input i)"

definition gx_sv_contains_genex_unescaped :: "string_view \<Rightarrow> bool" where
  "gx_sv_contains_genex_unescaped input \<longleftrightarrow>
     list_ex (gx_is_genex_open_at input) [0..<length input - 1]"

definition gx_cmake_string_is_false :: "string_view \<Rightarrow> bool" where
  "gx_cmake_string_is_false value =
     (let v = gx_trim value in
      if v = [] then True
      else if nob_sv_eq v ''0'' then True
      else if gx_sv_eq_ci v ''FALSE'' then True
      else if gx_sv_eq_ci v ''OFF'' then True
      else if gx_sv_eq_ci v ''NO'' then True
      else if gx_sv_eq_ci v ''N'' then True
      else if gx_sv_eq_ci v ''IGNORE'' then True
      else if gx_sv_eq_ci v ''NOTFOUND'' then True
      else if gx_sv_ends_with_ci v ''-NOTFOUND'' then True
      else False)"

text \<open>The pieces of a \<open>;\<close> list in order, as the index loops of this file visit them.\<close>

fun semi_pieces :: "string_view \<Rightarrow> string_view \<Rightarrow> string_view list" where
  "semi_pieces acc [] = [acc]"
| "semi_pieces acc (c # s) = (if c = CHR '';'' then acc # semi_pieces [] s else semi_pieces (acc @ [c]) s)"

definition gx_list_matches_value_ci :: "string_view \<Rightarrow> string_view \<Rightarrow> bool" where
  "gx_list_matches_value_ci entry_list needle \<longleftrightarrow>
     list_ex (\<lambda>p. gx_trim p \<noteq> [] \<and> gx_sv_eq_ci (gx_trim p) needle) (semi_pieces [] entry_list)"

subsection \<open>Paths\<close>

definition is_path_sep :: "char \<Rightarrow> bool" where
  "is_path_sep c \<longleftrightarrow> c = CHR ''/'' \<or> c = BACKSLASH"

text \<open>The index of the last separator, found by the loops that run from the end.\<close>

fun last_sep :: "string_view \<Rightarrow> nat \<Rightarrow> nat option" where
  "last_sep path 0 = None"
| "last_sep path (Suc i) = (if is_path_sep (path ! i) then Some i else last_sep path i)"

definition gx_path_dirname :: "string_view \<Rightarrow> string_view" where
  "gx_path_dirname path =
     (if path = [] then []
      else (case last_sep path (length path) of
              None \<Rightarrow> []
            | Some i \<Rightarrow> if i = 0 then take 1 path else take i path))"

definition gx_path_basename :: "string_view \<Rightarrow> string_view" where
  "gx_path_basename path =
     (if path = [] then []
      else (let off = (case last_sep path (length path) of None \<Rightarrow> 0 | Some i \<Rightarrow> i + 1) in drop off path))"

subsection \<open>Top-level scanning\<close>

text \<open>
  The two passes of \<open>gx_split_top_level_alloc\<close>: the first counts the pieces, the second
  cuts them out; \<open>i\<close>, \<open>start\<close> and \<open>depth\<close> are the loop variables.
\<close>

definition split_here :: "string_view \<Rightarrow> char \<Rightarrow> nat \<Rightarrow> nat \<Rightarrow> bool" where
  "split_here input d i depth \<longleftrightarrow>
     \<not> (i < length input \<and> \<not> (gx_is_unescaped_char_at input i d \<and> depth = 0))"

lemma open_at_bound: "gx_is_genex_open_at input i \<Longrightarrow> i + 1 < length input"
  by (simp add: gx_is_genex_open_at_def split: if_splits)

function gx_split_count :: "string_view \<Rightarrow> char \<Rightarrow> nat \<Rightarrow> nat \<Rightarrow> nat" where
  "gx_split_count input d i depth =
     (if i > length input then 0
      else if i < length input \<and> gx_is_genex_open_at input i then gx_split_count input d (i + 2) (depth + 1)
      else if i < length input \<and> gx_is_unescaped_char_at input i CHR ''>'' \<and> depth > 0 then
        gx_split_count input d (i + 1) (depth - 1)
      else if \<not> split_here input d i depth then gx_split_count input d (i + 1) depth
      else Suc (gx_split_count input d (i + 1) depth))"
  by pat_completeness auto
termination by (relation "measure (\<lambda>(input, d, i, depth). Suc (length input) - i)") auto

function gx_split_pieces :: "string_view \<Rightarrow> char \<Rightarrow> nat \<Rightarrow> nat \<Rightarrow> nat \<Rightarrow> string_view list" where
  "gx_split_pieces input d i start depth =
     (if i > length input then []
      else if i < length input \<and> gx_is_genex_open_at input i then
        gx_split_pieces input d (i + 2) start (depth + 1)
      else if i < length input \<and> gx_is_unescaped_char_at input i CHR ''>'' \<and> depth > 0 then
        gx_split_pieces input d (i + 1) start (depth - 1)
      else if \<not> split_here input d i depth then gx_split_pieces input d (i + 1) start depth
      else take (i - start) (drop start input) # gx_split_pieces input d (i + 1) (i + 1) depth)"
  by pat_completeness auto
termination by (relation "measure (\<lambda>(input, d, i, start, depth). Suc (length input) - i)") auto

declare gx_split_count.simps [simp del] gx_split_pieces.simps [simp del]

definition gx_split_top_level_alloc :: "genex_context \<Rightarrow> string_view \<Rightarrow> char \<Rightarrow> string_view list" where
  "gx_split_top_level_alloc ctx input d =
     (let count = gx_split_count input d 0 0 in
      if count = 0 then []
      else if \<not> alloc_ok ctx (16 * count) then []
      else map gx_trim (take count (gx_split_pieces input d 0 0 0)))"

function gx_colon_loop :: "string_view \<Rightarrow> nat \<Rightarrow> nat \<Rightarrow> nat option" where
  "gx_colon_loop body i depth =
     (if i \<ge> length body then None
      else if gx_is_genex_open_at body i then gx_colon_loop body (i + 2) (depth + 1)
      else if gx_is_unescaped_char_at body i CHR ''>'' \<and> depth > 0 then gx_colon_loop body (i + 1) (depth - 1)
      else if gx_is_unescaped_char_at body i CHR '':'' \<and> depth = 0 then Some i
      else gx_colon_loop body (i + 1) depth)"
  by pat_completeness auto
termination by (relation "measure (\<lambda>(body, i, depth). length body - i)") auto

definition gx_find_top_level_colon :: "string_view \<Rightarrow> nat option" where
  "gx_find_top_level_colon body = gx_colon_loop body 0 0"

function gx_end_loop :: "string_view \<Rightarrow> nat \<Rightarrow> nat \<Rightarrow> nat option" where
  "gx_end_loop input i depth =
     (if i \<ge> length input then None
      else if gx_is_genex_open_at input i then gx_end_loop input (i + 2) (depth + 1)
      else if gx_is_unescaped_char_at input i CHR ''>'' then
        (if depth = 0 then None
         else if depth - 1 = 0 then Some i
         else gx_end_loop input (i + 1) (depth - 1))
      else gx_end_loop input (i + 1) depth)"
  by pat_completeness auto
termination by (relation "measure (\<lambda>(input, i, depth). length input - i)") auto

declare gx_colon_loop.simps [simp del] gx_end_loop.simps [simp del]

definition gx_find_matching_genex_end :: "string_view \<Rightarrow> nat \<Rightarrow> nat option" where
  "gx_find_matching_genex_end input start =
     (if start + 1 \<ge> length input then None
      else if \<not> gx_is_genex_open_at input start then None
      else gx_end_loop input (start + 2) 1)"

subsection \<open>The TARGET_PROPERTY stack\<close>

definition gx_target_name_eq :: "genex_context \<Rightarrow> string_view \<Rightarrow> string_view \<Rightarrow> bool" where
  "gx_target_name_eq ctx a b = (if target_name_case_insensitive ctx then gx_sv_eq_ci a b else nob_sv_eq a b)"

definition gx_tp_stack_contains :: "genex_context \<Rightarrow> tp_stack \<Rightarrow> string_view \<Rightarrow> string_view \<Rightarrow> bool" where
  "gx_tp_stack_contains ctx stack target prop \<longleftrightarrow>
     list_ex (\<lambda>(t, p). gx_target_name_eq ctx t target \<and> gx_sv_eq_ci p prop) stack"

definition TP_STACK_CAP :: nat where "TP_STACK_CAP = 128"

definition gx_tp_stack_push :: "tp_stack \<Rightarrow> string_view \<Rightarrow> string_view \<Rightarrow> tp_stack option" where
  "gx_tp_stack_push stack target prop =
     (if length stack \<ge> TP_STACK_CAP then None else Some (stack @ [(target, prop)]))"

definition gx_tp_stack_pop :: "tp_stack \<Rightarrow> tp_stack" where
  "gx_tp_stack_pop stack = (if stack = [] then stack else butlast stack)"

lemma gx_tp_push_pop: "gx_tp_stack_push stack t p = Some st \<Longrightarrow> gx_tp_stack_pop st = stack"
  by (auto simp: gx_tp_stack_push_def gx_tp_stack_pop_def split: if_splits)

subsection \<open>Splitting loses nothing\<close>

lemma gx_sv_eq_ci_upper: "gx_sv_eq_ci a b = sv_eq_ci_upper a b"
  by (simp add: gx_sv_eq_ci_def sv_eq_ci_upper_def)

lemma gx_split_count_pieces: "gx_split_count input d i depth = length (gx_split_pieces input d i start depth)"
proof (induction input d i depth arbitrary: start rule: gx_split_count.induct)
  case (1 input d i depth)
  then show ?case
    by (auto simp: gx_split_count.simps [of input d i] gx_split_pieces.simps [of input d i])
qed

fun join_with :: "char \<Rightarrow> string_view list \<Rightarrow> string_view" where
  "join_with d [] = []"
| "join_with d [p] = p"
| "join_with d (p # q # ps) = p @ d # join_with d (q # ps)"

lemma gx_split_pieces_join:
  "start \<le> i \<Longrightarrow> i \<le> length input \<Longrightarrow>
   gx_split_pieces input d i start depth \<noteq> [] \<and> join_with d (gx_split_pieces input d i start depth) = drop start input"
proof (induction input d i start depth rule: gx_split_pieces.induct)
  case (1 input d i start depth)
  consider (op) "i < length input" "gx_is_genex_open_at input i"
    | (cl) "i < length input" "\<not> gx_is_genex_open_at input i" "gx_is_unescaped_char_at input i CHR ''>''" "depth > 0"
    | (no) "i < length input" "\<not> gx_is_genex_open_at input i"
        "\<not> (gx_is_unescaped_char_at input i CHR ''>'' \<and> depth > 0)" "\<not> split_here input d i depth"
    | (cut) "i < length input" "\<not> gx_is_genex_open_at input i"
        "\<not> (gx_is_unescaped_char_at input i CHR ''>'' \<and> depth > 0)" "split_here input d i depth"
    | (stop) "i = length input"
    using "1.prems" by (metis le_neq_implies_less)
  then show ?case
  proof cases
    case op
    with 1 open_at_bound [OF op(2)] show ?thesis by (simp add: gx_split_pieces.simps [of input d i])
  next
    case cl
    with 1 show ?thesis by (simp add: gx_split_pieces.simps [of input d i])
  next
    case no
    with 1 show ?thesis by (auto simp: gx_split_pieces.simps [of input d i])
  next
    case cut
    let ?ps = "gx_split_pieces input d (i + 1) (i + 1) depth"
    have ps: "?ps \<noteq> []" "join_with d ?ps = drop (i + 1) input"
      using 1 cut by simp_all
    have d: "input ! i = d"
      using cut by (auto simp: split_here_def gx_is_unescaped_char_at_def split: if_splits)
    have "drop start input = take (i - start) (drop start input) @ drop i input"
      using "1.prems"(1) by (metis append_take_drop_id drop_drop le_add_diff_inverse2)
    also have "drop i input = d # drop (i + 1) input" using cut(1) d by (simp add: drop_nth_Cons)
    finally have "take (i - start) (drop start input) @ d # join_with d ?ps = drop start input"
      using ps(2) by simp
    moreover have "gx_split_pieces input d i start depth = take (i - start) (drop start input) # ?ps"
      using cut by (auto simp: gx_split_pieces.simps [of input d i])
    ultimately show ?thesis using ps(1) by (cases ?ps) simp_all
  next
    case stop
    then show ?thesis using "1.prems"
      by (simp add: gx_split_pieces.simps [of input d "length input"]
          gx_split_pieces.simps [of input d "Suc (length input)"] split_here_def)
  qed
qed

subsection \<open>The matching end\<close>

lemma gx_end_loop_bounds:
  "gx_end_loop input i depth = Some e \<Longrightarrow> i \<le> e \<and> e < length input \<and> gx_is_unescaped_char_at input e CHR ''>''"
proof (induction input i depth rule: gx_end_loop.induct)
  case (1 input i depth)
  then show ?case by (auto simp: gx_end_loop.simps [of input i] split: if_splits)
qed

lemma gx_matching_end_bounds:
  "gx_find_matching_genex_end input start = Some e \<Longrightarrow>
     start + 2 \<le> e \<and> e < length input \<and> gx_is_genex_open_at input start \<and>
     gx_is_unescaped_char_at input e CHR ''>''"
  using gx_end_loop_bounds [of input "start + 2" 1 e]
  by (simp add: gx_find_matching_genex_end_def split: if_splits)

lemma gx_colon_loop_bounds: "gx_colon_loop body i depth = Some c \<Longrightarrow> i \<le> c \<and> c < length body"
proof (induction body i depth rule: gx_colon_loop.induct)
  case (1 body i depth)
  then show ?case by (auto simp: gx_colon_loop.simps [of body i] split: if_splits)
qed

lemma gx_find_colon_bound: "gx_find_top_level_colon body = Some c \<Longrightarrow> c < length body"
  by (auto simp: gx_find_top_level_colon_def dest: gx_colon_loop_bounds)

end
