(* ===== verification/Genex_Eval.thy ===== *)
theory Genex_Eval
  imports Genex_Parse
begin

text \<open>
  The generator-expression evaluator, \<open>src_v2/genex/genex_eval.c\<close>. One definition per operator
  of \<open>gx_eval_body\<close>; each takes the evaluator of nested expressions as its argument \<open>ev\<close> and
  threads the \<open>TARGET_PROPERTY\<close> stack. \<open>gx_then\<close> is the pattern the C code repeats after every
  nested evaluation: on failure return the status and message with the raw expression as
  value, otherwise go on with the value.

  The recursion is by the number of levels left, \<open>max_depth + 1 - depth\<close>; with no level left
  the depth guard of the code holds. \<open>gx_eval_inner_eq\<close> is the recursion equation of the code.
\<close>

type_synonym evaluator = "genex_context \<Rightarrow> string_view \<Rightarrow> tp_stack \<Rightarrow> genex_result \<times> tp_stack"

definition gx_result :: "genex_status \<Rightarrow> string_view \<Rightarrow> string_view \<Rightarrow> genex_result" where
  "gx_result st v d = \<lparr>gx_status = st, gx_value = v, gx_diag = d\<rparr>"

abbreviation gx_ok :: "string_view \<Rightarrow> genex_result" where "gx_ok v \<equiv> gx_result GENEX_OK v []"

definition gx_fail :: "genex_context \<Rightarrow> genex_status \<Rightarrow> string_view \<Rightarrow> string \<Rightarrow> genex_result" where
  "gx_fail ctx st raw_expr msg = gx_result st raw_expr (gx_copy_cstr_to_arena ctx msg)"

definition gx_then ::
  "string_view \<Rightarrow> genex_result \<times> tp_stack \<Rightarrow> (string_view \<Rightarrow> tp_stack \<Rightarrow> genex_result \<times> tp_stack) \<Rightarrow>
   genex_result \<times> tp_stack" where
  "gx_then raw_expr r k =
     (case r of (res, st) \<Rightarrow>
        if gx_status res \<noteq> GENEX_OK then (gx_result (gx_status res) raw_expr (gx_diag res), st)
        else k (gx_value res) st)"

definition GX_DEFAULT_MAX_CALLBACK_VALUE_LEN :: nat where
  "GX_DEFAULT_MAX_CALLBACK_VALUE_LEN = 1024 * 1024"

definition gx_max_callback_value_len :: "genex_context \<Rightarrow> nat" where
  "gx_max_callback_value_len ctx =
     (if max_callback_value_len ctx = 0 then GX_DEFAULT_MAX_CALLBACK_VALUE_LEN else max_callback_value_len ctx)"

definition gx_validate_callback_value ::
  "genex_context \<Rightarrow> callback_value \<Rightarrow> string_view \<Rightarrow> string \<Rightarrow> genex_result" where
  "gx_validate_callback_value ctx raw_value raw_expr which_callback =
     (case raw_value of
        Null_Data n \<Rightarrow>
          if n > 0 then gx_fail ctx GENEX_ERROR raw_expr
            ''Callback returned invalid String_View (NULL data with non-zero length)''
          else gx_ok []
      | View v \<Rightarrow>
          if length v > gx_max_callback_value_len ctx then gx_fail ctx GENEX_ERROR raw_expr which_callback
          else gx_ok v)"

definition gx_eval_arg_fast :: "evaluator \<Rightarrow> evaluator" where
  "gx_eval_arg_fast ev ctx a stack =
     (let trimmed = gx_trim a in
      if \<not> gx_sv_contains_genex_unescaped trimmed then (gx_ok trimmed, stack) else ev ctx trimmed stack)"

subsection \<open>Matching operators: CONFIG, PLATFORM_ID, COMPILE_LANGUAGE\<close>

fun gx_match_args ::
  "evaluator \<Rightarrow> genex_context \<Rightarrow> string_view \<Rightarrow> string_view \<Rightarrow> string_view list \<Rightarrow> tp_stack \<Rightarrow>
   genex_result \<times> tp_stack" where
  "gx_match_args ev ctx raw_expr needle [] stack = (gx_ok ''0'', stack)"
| "gx_match_args ev ctx raw_expr needle (a # args) stack =
     gx_then raw_expr (gx_eval_arg_fast ev ctx a stack) (\<lambda>v st.
       if gx_list_matches_value_ci v needle then (gx_ok ''1'', st)
       else gx_match_args ev ctx raw_expr needle args st)"

text \<open>Split the arguments at commas; the out-of-memory check each operator makes.\<close>

definition gx_with_args ::
  "genex_context \<Rightarrow> string_view \<Rightarrow> string_view \<Rightarrow> string \<Rightarrow> tp_stack \<Rightarrow>
   (string_view list \<Rightarrow> genex_result \<times> tp_stack) \<Rightarrow> genex_result \<times> tp_stack" where
  "gx_with_args ctx args_expr raw_expr oom_msg stack k =
     (let args = gx_split_top_level_alloc ctx args_expr CHR '','' in
      if args_expr \<noteq> [] \<and> args = [] then (gx_fail ctx GENEX_ERROR raw_expr oom_msg, stack) else k args)"

definition gx_op_config :: "evaluator \<Rightarrow> genex_context \<Rightarrow> string_view \<Rightarrow> string_view \<Rightarrow> tp_stack \<Rightarrow> genex_result \<times> tp_stack" where
  "gx_op_config ev ctx args_expr raw_expr stack =
     (if args_expr = [] then (gx_ok (gx_config ctx), stack)
      else gx_with_args ctx args_expr raw_expr ''Out of memory while splitting CONFIG arguments'' stack
             (\<lambda>args. gx_match_args ev ctx raw_expr (gx_config ctx) args stack))"

definition gx_op_platform_id :: "evaluator \<Rightarrow> genex_context \<Rightarrow> string_view \<Rightarrow> string_view \<Rightarrow> tp_stack \<Rightarrow> genex_result \<times> tp_stack" where
  "gx_op_platform_id ev ctx args_expr raw_expr stack =
     (if args_expr = [] then (gx_ok (platform_id ctx), stack)
      else gx_with_args ctx args_expr raw_expr ''Out of memory while splitting PLATFORM_ID arguments'' stack
             (\<lambda>args. gx_match_args ev ctx raw_expr (platform_id ctx) args stack))"

definition gx_op_compile_language :: "evaluator \<Rightarrow> genex_context \<Rightarrow> string_view \<Rightarrow> string_view \<Rightarrow> tp_stack \<Rightarrow> genex_result \<times> tp_stack" where
  "gx_op_compile_language ev ctx args_expr raw_expr stack =
     (let lang = gx_trim (compile_language ctx) in
      if lang = [] \<or> args_expr = [] then (gx_ok ''0'', stack)
      else gx_with_args ctx args_expr raw_expr ''Out of memory while splitting COMPILE_LANGUAGE arguments'' stack
             (\<lambda>args. gx_match_args ev ctx raw_expr lang args stack))"

subsection \<open>Interface operators and LINK_ONLY, INSTALL_PREFIX\<close>

definition gx_op_when :: "bool \<Rightarrow> evaluator \<Rightarrow> genex_context \<Rightarrow> string_view \<Rightarrow> string_view \<Rightarrow> tp_stack \<Rightarrow> genex_result \<times> tp_stack" where
  "gx_op_when active ev ctx args_expr raw_expr stack =
     (if \<not> active then (gx_ok [], stack)
      else gx_then raw_expr (ev ctx args_expr stack) (\<lambda>v st. (gx_ok v, st)))"

definition gx_op_install_prefix :: "genex_context \<Rightarrow> string_view \<Rightarrow> string_view \<Rightarrow> tp_stack \<Rightarrow> genex_result \<times> tp_stack" where
  "gx_op_install_prefix ctx args_expr raw_expr stack =
     (if args_expr \<noteq> [] then (gx_fail ctx GENEX_ERROR raw_expr ''INSTALL_PREFIX does not accept arguments'', stack)
      else (gx_ok (install_prefix ctx), stack))"

subsection \<open>Target files\<close>

definition gx_finish_path ::
  "genex_context \<Rightarrow> callback_value \<Rightarrow> string_view \<Rightarrow> string \<Rightarrow> (string_view \<Rightarrow> string_view) \<Rightarrow> tp_stack \<Rightarrow>
   genex_result \<times> tp_stack" where
  "gx_finish_path ctx raw raw_expr which f st =
     (let valid = gx_validate_callback_value ctx raw raw_expr which in
      if gx_status valid \<noteq> GENEX_OK then (valid, st) else (gx_ok (f (gx_value valid)), st))"

definition gx_op_target_file :: "evaluator \<Rightarrow> genex_context \<Rightarrow> string_view \<Rightarrow> string_view \<Rightarrow> tp_stack \<Rightarrow> genex_result \<times> tp_stack" where
  "gx_op_target_file ev ctx args_expr raw_expr stack =
     (case read_target_file ctx of
        None \<Rightarrow> (gx_fail ctx GENEX_ERROR raw_expr ''TARGET_FILE callback is not configured'', stack)
      | Some rd \<Rightarrow>
          gx_then raw_expr (ev ctx args_expr stack) (\<lambda>v st.
            let target = gx_trim v in
            if target = [] then (gx_ok [], st)
            else gx_finish_path ctx (rd target) raw_expr
                   ''TARGET_FILE callback returned an invalid or too large value'' (\<lambda>p. p) st))"

definition gx_op_target_file_part :: "evaluator \<Rightarrow> genex_context \<Rightarrow> string_view \<Rightarrow> string_view \<Rightarrow> string_view \<Rightarrow> tp_stack \<Rightarrow> genex_result \<times> tp_stack" where
  "gx_op_target_file_part ev ctx op args_expr raw_expr stack =
     (case read_target_file ctx of
        None \<Rightarrow> (gx_fail ctx GENEX_ERROR raw_expr ''TARGET_FILE_* callback is not configured'', stack)
      | Some rd \<Rightarrow>
          gx_then raw_expr (ev ctx args_expr stack) (\<lambda>v st.
            let target = gx_trim v in
            if target = [] then (gx_ok [], st)
            else gx_finish_path ctx (rd target) raw_expr
                   ''TARGET_FILE callback returned an invalid or too large value''
                   (if gx_sv_eq_ci op ''TARGET_FILE_DIR'' then gx_path_dirname else gx_path_basename) st))"

definition gx_op_target_linker_file :: "evaluator \<Rightarrow> genex_context \<Rightarrow> string_view \<Rightarrow> string_view \<Rightarrow> string_view \<Rightarrow> tp_stack \<Rightarrow> genex_result \<times> tp_stack" where
  "gx_op_target_linker_file ev ctx op args_expr raw_expr stack =
     (let part = (if gx_sv_eq_ci op ''TARGET_LINKER_FILE'' then (\<lambda>p. p)
                  else if gx_sv_eq_ci op ''TARGET_LINKER_FILE_DIR'' then gx_path_dirname else gx_path_basename)
      in case (case read_target_linker_file ctx of Some rd \<Rightarrow> Some rd | None \<Rightarrow> read_target_file ctx) of
        None \<Rightarrow> (gx_fail ctx GENEX_ERROR raw_expr ''TARGET_LINKER_FILE callback is not configured'', stack)
      | Some rd \<Rightarrow>
          gx_then raw_expr (ev ctx args_expr stack) (\<lambda>v st.
            let target = gx_trim v in
            if target = [] then (gx_ok [], st)
            else gx_finish_path ctx (rd target) raw_expr
                   ''TARGET_LINKER_FILE callback returned an invalid or too large value'' part st))"

subsection \<open>Logic\<close>

definition gx_op_bool :: "evaluator \<Rightarrow> genex_context \<Rightarrow> string_view \<Rightarrow> string_view \<Rightarrow> tp_stack \<Rightarrow> genex_result \<times> tp_stack" where
  "gx_op_bool ev ctx args_expr raw_expr stack =
     gx_then raw_expr (ev ctx args_expr stack)
       (\<lambda>v st. (gx_ok (if gx_cmake_string_is_false v then ''0'' else ''1''), st))"

definition gx_op_not :: "evaluator \<Rightarrow> genex_context \<Rightarrow> string_view \<Rightarrow> string_view \<Rightarrow> tp_stack \<Rightarrow> genex_result \<times> tp_stack" where
  "gx_op_not ev ctx args_expr raw_expr stack =
     gx_then raw_expr (ev ctx args_expr stack)
       (\<lambda>v st. (gx_ok (if gx_cmake_string_is_false v then ''1'' else ''0''), st))"

fun gx_logic_args ::
  "evaluator \<Rightarrow> genex_context \<Rightarrow> string_view \<Rightarrow> bool \<Rightarrow> string_view list \<Rightarrow> tp_stack \<Rightarrow> genex_result \<times> tp_stack" where
  "gx_logic_args ev ctx raw_expr want_and [] stack = (gx_ok (if want_and then ''1'' else ''0''), stack)"
| "gx_logic_args ev ctx raw_expr want_and (a # args) stack =
     gx_then raw_expr (ev ctx a stack) (\<lambda>v st.
       let truthy = \<not> gx_cmake_string_is_false v in
       if want_and \<and> \<not> truthy then (gx_ok ''0'', st)
       else if \<not> want_and \<and> truthy then (gx_ok ''1'', st)
       else gx_logic_args ev ctx raw_expr want_and args st)"

definition gx_op_and_or :: "evaluator \<Rightarrow> genex_context \<Rightarrow> string_view \<Rightarrow> string_view \<Rightarrow> string_view \<Rightarrow> tp_stack \<Rightarrow> genex_result \<times> tp_stack" where
  "gx_op_and_or ev ctx op args_expr raw_expr stack =
     gx_with_args ctx args_expr raw_expr ''Out of memory while splitting logical operator arguments'' stack (\<lambda>args.
       if args = [] then
         (gx_fail ctx GENEX_ERROR raw_expr ''Logical generator expressions require at least one argument'', stack)
       else gx_logic_args ev ctx raw_expr (gx_sv_eq_ci op ''AND'') args stack)"

definition gx_op_strequal :: "evaluator \<Rightarrow> genex_context \<Rightarrow> string_view \<Rightarrow> string_view \<Rightarrow> tp_stack \<Rightarrow> genex_result \<times> tp_stack" where
  "gx_op_strequal ev ctx args_expr raw_expr stack =
     gx_with_args ctx args_expr raw_expr ''Out of memory while splitting STREQUAL arguments'' stack (\<lambda>args.
       case args of
         [a, b] \<Rightarrow>
           gx_then raw_expr (ev ctx a stack) (\<lambda>lhs st.
             gx_then raw_expr (ev ctx b st) (\<lambda>rhs st2.
               (gx_ok (if nob_sv_eq lhs rhs then ''1'' else ''0''), st2)))
       | _ \<Rightarrow> (gx_fail ctx GENEX_ERROR raw_expr ''STREQUAL expects 2 arguments'', stack))"

definition gx_op_if :: "evaluator \<Rightarrow> genex_context \<Rightarrow> string_view \<Rightarrow> string_view \<Rightarrow> tp_stack \<Rightarrow> genex_result \<times> tp_stack" where
  "gx_op_if ev ctx args_expr raw_expr stack =
     gx_with_args ctx args_expr raw_expr ''Out of memory while splitting IF arguments'' stack (\<lambda>args.
       case args of
         [c, a, b] \<Rightarrow>
           gx_then raw_expr (ev ctx c stack) (\<lambda>v st.
             gx_then raw_expr (ev ctx (if \<not> gx_cmake_string_is_false v then a else b) st)
               (\<lambda>w st2. (gx_ok w, st2)))
       | _ \<Rightarrow> (gx_fail ctx GENEX_ERROR raw_expr ''IF expects 3 arguments'', stack))"

subsection \<open>Re-evaluation and properties\<close>

definition gx_op_genex_eval :: "evaluator \<Rightarrow> genex_context \<Rightarrow> string_view \<Rightarrow> string_view \<Rightarrow> tp_stack \<Rightarrow> genex_result \<times> tp_stack" where
  "gx_op_genex_eval ev ctx args_expr raw_expr stack =
     gx_then raw_expr (ev ctx args_expr stack) (\<lambda>v st. ev ctx v st)"

definition gx_op_target_genex_eval :: "evaluator \<Rightarrow> genex_context \<Rightarrow> string_view \<Rightarrow> string_view \<Rightarrow> tp_stack \<Rightarrow> genex_result \<times> tp_stack" where
  "gx_op_target_genex_eval ev ctx args_expr raw_expr stack =
     gx_with_args ctx args_expr raw_expr ''Out of memory while splitting TARGET_GENEX_EVAL arguments'' stack (\<lambda>args.
       case args of
         [a, b] \<Rightarrow>
           gx_then raw_expr (ev ctx a stack) (\<lambda>v st.
             let nested_ctx = ctx\<lparr>current_target_name := gx_trim v\<rparr> in
             if current_target_name nested_ctx = [] then (gx_ok [], st)
             else gx_then raw_expr (ev nested_ctx b st) (\<lambda>w st2. (gx_ok w, st2)))
       | _ \<Rightarrow> (gx_fail ctx GENEX_ERROR raw_expr ''TARGET_GENEX_EVAL expects 2 arguments'', stack))"

text \<open>The second half of \<open>TARGET_PROPERTY\<close>: guards, push, callback, nested evaluation, pop.\<close>

definition gx_read_property ::
  "evaluator \<Rightarrow> genex_context \<Rightarrow> string_view \<Rightarrow> string_view \<Rightarrow> string_view \<Rightarrow> tp_stack \<Rightarrow> genex_result \<times> tp_stack" where
  "gx_read_property ev ctx target prop raw_expr stack =
     (if target = [] \<or> prop = [] then (gx_ok [], stack)
      else (case read_target_property ctx of
        None \<Rightarrow> (gx_fail ctx GENEX_ERROR raw_expr ''TARGET_PROPERTY callback is not configured'', stack)
      | Some rd \<Rightarrow>
          if length stack \<ge> max_target_property_depth ctx then
            (gx_fail ctx GENEX_CYCLE_GUARD_HIT raw_expr ''TARGET_PROPERTY depth guard reached'', stack)
          else if gx_tp_stack_contains ctx stack target prop then
            (gx_fail ctx GENEX_CYCLE_GUARD_HIT raw_expr ''TARGET_PROPERTY cycle detected'', stack)
          else (case gx_tp_stack_push stack target prop of
            None \<Rightarrow> (gx_fail ctx GENEX_CYCLE_GUARD_HIT raw_expr ''TARGET_PROPERTY stack overflow'', stack)
          | Some st \<Rightarrow>
              (let valid = gx_validate_callback_value ctx (rd target prop) raw_expr
                     ''TARGET_PROPERTY callback returned an invalid or too large value'' in
               if gx_status valid \<noteq> GENEX_OK then (valid, gx_tp_stack_pop st)
               else (case ev ctx (gx_value valid) st of (nested, st2) \<Rightarrow>
                 gx_then raw_expr (nested, gx_tp_stack_pop st2) (\<lambda>v st3. (gx_ok v, st3)))))))"

definition gx_op_target_property :: "evaluator \<Rightarrow> genex_context \<Rightarrow> string_view \<Rightarrow> string_view \<Rightarrow> tp_stack \<Rightarrow> genex_result \<times> tp_stack" where
  "gx_op_target_property ev ctx args_expr raw_expr stack =
     gx_with_args ctx args_expr raw_expr ''Out of memory while splitting TARGET_PROPERTY arguments'' stack (\<lambda>args.
       case args of
         [a] \<Rightarrow>
           (let target = gx_trim (current_target_name ctx) in
            gx_then raw_expr (ev ctx a stack) (\<lambda>v st.
              if target = [] then
                (gx_fail ctx GENEX_ERROR raw_expr ''TARGET_PROPERTY implicit form requires current target context'', st)
              else gx_read_property ev ctx target (gx_trim v) raw_expr st))
       | [a, b] \<Rightarrow>
           gx_then raw_expr (ev ctx a stack) (\<lambda>t st.
             gx_then raw_expr (ev ctx b st) (\<lambda>p st2.
               gx_read_property ev ctx (gx_trim t) (gx_trim p) raw_expr st2))
       | _ \<Rightarrow> (gx_fail ctx GENEX_ERROR raw_expr ''TARGET_PROPERTY expects property or target,property'', stack))"

definition gx_op_conditional :: "evaluator \<Rightarrow> genex_context \<Rightarrow> string_view \<Rightarrow> string_view \<Rightarrow> string_view \<Rightarrow> tp_stack \<Rightarrow> genex_result \<times> tp_stack" where
  "gx_op_conditional ev ctx op args_expr raw_expr stack =
     gx_then raw_expr (ev ctx op stack) (\<lambda>v st.
       if gx_cmake_string_is_false v then (gx_ok [], st)
       else gx_then raw_expr (ev ctx args_expr st) (\<lambda>w st2. (gx_ok w, st2)))"

subsection \<open>The dispatcher\<close>

definition gx_split_op :: "string_view \<Rightarrow> string_view \<times> string_view" where
  "gx_split_op body =
     (case gx_find_top_level_colon body of
        None \<Rightarrow> (gx_trim body, [])
      | Some c \<Rightarrow> (gx_trim (take c body), drop (c + 1) body))"

definition gx_eval_body :: "evaluator \<Rightarrow> genex_context \<Rightarrow> string_view \<Rightarrow> string_view \<Rightarrow> tp_stack \<Rightarrow> genex_result \<times> tp_stack" where
  "gx_eval_body ev ctx body raw_expr stack =
     (case gx_split_op body of (op, args_expr) \<Rightarrow>
      if gx_sv_eq_ci op ''CONFIG'' then gx_op_config ev ctx args_expr raw_expr stack
      else if gx_sv_eq_ci op ''PLATFORM_ID'' then gx_op_platform_id ev ctx args_expr raw_expr stack
      else if gx_sv_eq_ci op ''COMPILE_LANGUAGE'' then gx_op_compile_language ev ctx args_expr raw_expr stack
      else if gx_sv_eq_ci op ''BUILD_INTERFACE'' then
        gx_op_when (build_interface_active ctx) ev ctx args_expr raw_expr stack
      else if gx_sv_eq_ci op ''BUILD_LOCAL_INTERFACE'' then
        gx_op_when (build_local_interface_active ctx) ev ctx args_expr raw_expr stack
      else if gx_sv_eq_ci op ''INSTALL_INTERFACE'' then
        gx_op_when (install_interface_active ctx) ev ctx args_expr raw_expr stack
      else if gx_sv_eq_ci op ''INSTALL_PREFIX'' then gx_op_install_prefix ctx args_expr raw_expr stack
      else if gx_sv_eq_ci op ''LINK_ONLY'' then gx_op_when (link_only_active ctx) ev ctx args_expr raw_expr stack
      else if gx_sv_eq_ci op ''TARGET_FILE'' then gx_op_target_file ev ctx args_expr raw_expr stack
      else if gx_sv_eq_ci op ''TARGET_FILE_DIR'' \<or> gx_sv_eq_ci op ''TARGET_FILE_NAME'' then
        gx_op_target_file_part ev ctx op args_expr raw_expr stack
      else if gx_sv_eq_ci op ''TARGET_LINKER_FILE'' \<or> gx_sv_eq_ci op ''TARGET_LINKER_FILE_DIR'' \<or>
              gx_sv_eq_ci op ''TARGET_LINKER_FILE_NAME'' then
        gx_op_target_linker_file ev ctx op args_expr raw_expr stack
      else if gx_sv_eq_ci op ''BOOL'' then gx_op_bool ev ctx args_expr raw_expr stack
      else if gx_sv_eq_ci op ''NOT'' then gx_op_not ev ctx args_expr raw_expr stack
      else if gx_sv_eq_ci op ''AND'' \<or> gx_sv_eq_ci op ''OR'' then
        gx_op_and_or ev ctx op args_expr raw_expr stack
      else if gx_sv_eq_ci op ''STREQUAL'' then gx_op_strequal ev ctx args_expr raw_expr stack
      else if gx_sv_eq_ci op ''IF'' then gx_op_if ev ctx args_expr raw_expr stack
      else if gx_sv_eq_ci op ''GENEX_EVAL'' then gx_op_genex_eval ev ctx args_expr raw_expr stack
      else if gx_sv_eq_ci op ''TARGET_GENEX_EVAL'' then gx_op_target_genex_eval ev ctx args_expr raw_expr stack
      else if gx_sv_eq_ci op ''TARGET_PROPERTY'' then gx_op_target_property ev ctx args_expr raw_expr stack
      else if gx_sv_eq_ci op ''LINK_LIBRARY'' \<or> gx_sv_eq_ci op ''LINK_GROUP'' then (gx_ok raw_expr, stack)
      else if args_expr = [] \<and> length op \<ge> 3 \<and> op ! 0 = CHR ''$'' \<and> op ! 1 = CHR ''<'' \<and>
              op ! (length op - 1) = CHR ''>'' then
        gx_then raw_expr (ev ctx op stack) (\<lambda>v st. (gx_ok v, st))
      else if args_expr \<noteq> [] \<and>
              (gx_sv_contains_genex_unescaped op \<or> nob_sv_eq op ''0'' \<or> nob_sv_eq op ''1'') then
        gx_op_conditional ev ctx op args_expr raw_expr stack
      else (gx_fail ctx GENEX_UNSUPPORTED raw_expr ''Unsupported generator expression operator'', stack))"

subsection \<open>The evaluator\<close>

function gx_find_open :: "string_view \<Rightarrow> nat \<Rightarrow> nat option" where
  "gx_find_open input i =
     (if \<not> i + 1 < length input then None
      else if gx_is_genex_open_at input i then Some i
      else gx_find_open input (i + 1))"
  by pat_completeness auto
termination by (relation "measure (\<lambda>(input, i). length input - i)") auto

declare gx_find_open.simps [simp del]

lemma gx_find_open_ge: "gx_find_open input i = Some k \<Longrightarrow> i \<le> k \<and> gx_is_genex_open_at input k"
proof (induction input i rule: gx_find_open.induct)
  case (1 input i)
  then show ?case by (auto simp: gx_find_open.simps [of input i] split: if_splits)
qed

text \<open>The main loop: literal text, then one expression, from \<open>cursor\<close> to the end.\<close>

function gx_eval_loop ::
  "evaluator \<Rightarrow> genex_context \<Rightarrow> string_view \<Rightarrow> nat \<Rightarrow> string \<Rightarrow> tp_stack \<Rightarrow> genex_result \<times> tp_stack" where
  "gx_eval_loop ev ctx input cursor sb stack =
     (if \<not> cursor < length input then
        (gx_ok (if sb \<noteq> [] then gx_copy_to_arena ctx sb else []), stack)
      else (case gx_find_open input cursor of
        None \<Rightarrow>
          (let out = sb @ drop cursor input
           in (gx_ok (if out \<noteq> [] then gx_copy_to_arena ctx out else []), stack))
      | Some open \<Rightarrow>
          (case gx_find_matching_genex_end input open of
             None \<Rightarrow> (gx_fail ctx GENEX_ERROR input ''Unclosed generator expression'', stack)
           | Some close \<Rightarrow>
               (case gx_eval_body ev ctx (take (close - (open + 2)) (drop (open + 2) input))
                       (take (close - open + 1) (drop open input)) stack of (part, st) \<Rightarrow>
                  if gx_status part \<noteq> GENEX_OK then (gx_result (gx_status part) input (gx_diag part), st)
                  else gx_eval_loop ev ctx input (close + 1)
                         (sb @ take (open - cursor) (drop cursor input) @ gx_value part) st))))"
  by pat_completeness auto
termination
  by (relation "measure (\<lambda>(ev, ctx, input, cursor, sb, stack). length input - cursor)")
     (auto dest!: gx_find_open_ge gx_matching_end_bounds)

declare gx_eval_loop.simps [simp del]

definition gx_too_deep :: "evaluator" where
  "gx_too_deep ctx input stack = (gx_fail ctx GENEX_ERROR input ''Generator expression max depth exceeded'', stack)"

definition gx_eval_step :: "evaluator \<Rightarrow> evaluator" where
  "gx_eval_step ev ctx input stack =
     (if input = [] \<or> \<not> gx_sv_contains_genex_unescaped input then (gx_ok input, stack)
      else gx_eval_loop ev ctx input 0 [] stack)"

fun gx_eval_level :: "nat \<Rightarrow> evaluator" where
  "gx_eval_level 0 = gx_too_deep"
| "gx_eval_level (Suc n) = gx_eval_step (gx_eval_level n)"

definition gx_eval_inner :: "genex_context \<Rightarrow> string_view \<Rightarrow> nat \<Rightarrow> tp_stack \<Rightarrow> genex_result \<times> tp_stack" where
  "gx_eval_inner ctx input depth stack = gx_eval_level (Suc (max_depth ctx) - depth) ctx input stack"

text \<open>A null context or arena is \<open>None\<close>.\<close>

definition gx_eval_root :: "genex_context option \<Rightarrow> string_view \<Rightarrow> genex_result" where
  "gx_eval_root c input =
     (case c of None \<Rightarrow> gx_result GENEX_ERROR input ''Invalid genex context''
      | Some ctx \<Rightarrow>
          (let local1 = (if max_depth ctx = 0 then ctx\<lparr>max_depth := 64\<rparr> else ctx);
               local2 = (if max_target_property_depth local1 = 0
                         then local1\<lparr>max_target_property_depth := 64\<rparr> else local1)
           in fst (gx_eval_inner local2 input 0 [])))"

definition genex_eval :: "genex_context option \<Rightarrow> string_view \<Rightarrow> genex_result" where
  "genex_eval c input = gx_eval_root c input"

end
