(* ===== verification/Genex_Facts.thy ===== *)
theory Genex_Facts
  imports Genex_Eval
begin

text \<open>
  The evaluator's contract. \<open>balanced\<close>: an evaluator gives the \<open>TARGET_PROPERTY\<close> stack back as
  it found it and, when it fails, its input as value. \<open>interchangeable\<close>: two evaluators that
  agree on the situations an invariant describes give the same results one level up. Both are
  interpreted on the levels of the model, which yields the recursion equation of the C code
  and the guards on the stack.
\<close>

lemma gx_then_ok: "gx_status res = GENEX_OK \<Longrightarrow> gx_then raw (res, st) k = k (gx_value res) st"
  by (simp add: gx_then_def)

lemma gx_result_simps [simp]:
  "gx_status (gx_result s v d) = s" "gx_value (gx_result s v d) = v" "gx_diag (gx_result s v d) = d"
  by (simp_all add: gx_result_def)

lemma gx_fail_simps [simp]: "gx_status (gx_fail ctx s raw m) = s" "gx_value (gx_fail ctx s raw m) = raw"
  by (simp_all add: gx_fail_def)

subsection \<open>The stack is given back\<close>

lemma gx_then_stack:
  "snd r = stack \<Longrightarrow> (\<And>v st. st = stack \<Longrightarrow> snd (k v st) = stack) \<Longrightarrow> snd (gx_then raw r k) = stack"
  by (cases r) (simp add: gx_then_def)

lemma gx_with_args_stack:
  "(\<And>args. snd (k args) = stack) \<Longrightarrow> snd (gx_with_args ctx a raw m stack k) = stack"
  by (simp add: gx_with_args_def Let_def)

lemma gx_finish_path_stack [simp]: "snd (gx_finish_path ctx v raw w f st) = st"
  by (simp add: gx_finish_path_def Let_def)

locale balanced =
  fixes ev :: evaluator
  assumes stack_back [simp]: "snd (ev ctx input stack) = stack"
    and fail_value: "gx_status (fst (ev ctx input stack)) \<noteq> GENEX_OK \<Longrightarrow> gx_value (fst (ev ctx input stack)) = input"
begin

lemma arg_fast_stack [simp]: "snd (gx_eval_arg_fast ev ctx a stack) = stack"
  by (simp add: gx_eval_arg_fast_def Let_def)

lemma match_args_stack [simp]: "snd (gx_match_args ev ctx raw needle args stack) = stack"
  by (induction args) (auto intro!: gx_then_stack)

lemma logic_args_stack [simp]: "snd (gx_logic_args ev ctx raw w args stack) = stack"
  by (induction args) (auto intro!: gx_then_stack simp: Let_def)

lemma read_property_stack [simp]: "snd (gx_read_property ev ctx t p raw stack) = stack"
proof -
  have "gx_tp_stack_push stack t p = Some st \<Longrightarrow>
      snd (case ev ctx v st of (nested, st2) \<Rightarrow> gx_then raw (nested, gx_tp_stack_pop st2) (\<lambda>v st3. (gx_ok v, st3))) = stack"
    for st v
    using stack_back [of ctx v st]
    by (cases "ev ctx v st") (auto intro!: gx_then_stack simp: gx_tp_push_pop)
  then show ?thesis by (simp add: gx_read_property_def Let_def gx_tp_push_pop split: option.splits)
qed

lemma body_stack [simp]: "snd (gx_eval_body ev ctx body raw stack) = stack"
proof -
  have ops: "snd (gx_op_config ev ctx a raw stack) = stack" "snd (gx_op_platform_id ev ctx a raw stack) = stack"
    "snd (gx_op_compile_language ev ctx a raw stack) = stack" "snd (gx_op_when b ev ctx a raw stack) = stack"
    "snd (gx_op_install_prefix ctx a raw stack) = stack" "snd (gx_op_target_file ev ctx a raw stack) = stack"
    "snd (gx_op_target_file_part ev ctx opr a raw stack) = stack"
    "snd (gx_op_target_linker_file ev ctx opr a raw stack) = stack"
    "snd (gx_op_bool ev ctx a raw stack) = stack" "snd (gx_op_not ev ctx a raw stack) = stack"
    "snd (gx_op_and_or ev ctx opr a raw stack) = stack" "snd (gx_op_genex_eval ev ctx a raw stack) = stack"
    "snd (gx_op_conditional ev ctx opr a raw stack) = stack" for a b opr
    by (auto simp: gx_op_config_def gx_op_platform_id_def gx_op_compile_language_def gx_op_when_def
        gx_op_install_prefix_def gx_op_target_file_def gx_op_target_file_part_def gx_op_target_linker_file_def
        gx_op_bool_def gx_op_not_def gx_op_and_or_def gx_op_genex_eval_def gx_op_conditional_def Let_def
        split: option.splits intro!: gx_then_stack gx_with_args_stack)
  have ops2: "snd (gx_op_strequal ev ctx a raw stack) = stack" "snd (gx_op_if ev ctx a raw stack) = stack"
    "snd (gx_op_target_genex_eval ev ctx a raw stack) = stack"
    "snd (gx_op_target_property ev ctx a raw stack) = stack" for a
    by (auto simp: gx_op_strequal_def gx_op_if_def gx_op_target_genex_eval_def gx_op_target_property_def Let_def
        split: list.splits intro!: gx_then_stack gx_with_args_stack)
  show ?thesis
    by (simp add: gx_eval_body_def ops ops2 split: prod.splits) (auto intro!: gx_then_stack)
qed

lemma loop_both:
  "snd (gx_eval_loop ev ctx input cursor sb stack) = stack \<and>
   (gx_status (fst (gx_eval_loop ev ctx input cursor sb stack)) \<noteq> GENEX_OK \<longrightarrow>
    gx_value (fst (gx_eval_loop ev ctx input cursor sb stack)) = input)"
proof (induction "length input - cursor" arbitrary: cursor sb rule: less_induct)
  case less
  show ?case
  proof (cases "cursor < length input \<and> (\<exists>k e. gx_find_open input cursor = Some k \<and> gx_find_matching_genex_end input k = Some e)")
    case False
    then show ?thesis
      by (auto simp: gx_eval_loop.simps [of ev ctx input cursor] Let_def split: option.splits)
  next
    case True
    then obtain k e where c: "cursor < length input" and k: "gx_find_open input cursor = Some k"
        and e: "gx_find_matching_genex_end input k = Some e" by blast
    have lt: "length input - (e + 1) < length input - cursor"
      using gx_find_open_ge [OF k] gx_matching_end_bounds [OF e] c by auto
    obtain part st where b: "gx_eval_body ev ctx (take (e - (k + 2)) (drop (k + 2) input))
        (take (e - k + 1) (drop k input)) stack = (part, st)" by fastforce
    then have "st = stack" using body_stack by (metis snd_conv)
    with less [OF lt] c k e b show ?thesis
      by (simp add: gx_eval_loop.simps [of ev ctx input cursor])
  qed
qed

lemma step_balanced: "balanced (gx_eval_step ev)"
  by unfold_locales (auto simp: gx_eval_step_def loop_both)

end

lemma too_deep_balanced: "balanced gx_too_deep"
  by unfold_locales (simp_all add: gx_too_deep_def)

lemma level_balanced: "balanced (gx_eval_level n)"
  by (induction n) (simp_all add: too_deep_balanced balanced.step_balanced)

interpretation level: balanced "gx_eval_level n" for n
  by (rule level_balanced)

subsection \<open>Interchangeable evaluators\<close>

lemma gx_then_cong:
  "r = r' \<Longrightarrow> (\<And>v. gx_status (fst r') = GENEX_OK \<Longrightarrow> v = gx_value (fst r') \<Longrightarrow> k v (snd r') = k' v (snd r')) \<Longrightarrow>
   gx_then raw r k = gx_then raw r' k'"
  by (cases r') (simp add: gx_then_def)

lemma gx_with_args_cong:
  "(\<And>args. k args = k' args) \<Longrightarrow> gx_with_args ctx a raw m stack k = gx_with_args ctx a raw m stack k'"
  by (simp add: gx_with_args_def Let_def)

locale interchangeable = balanced +
  fixes ev' :: evaluator and Q :: "genex_context \<Rightarrow> tp_stack \<Rightarrow> bool"
  assumes agree: "Q ctx stack \<Longrightarrow> ev ctx input stack = ev' ctx input stack"
    and Q_target: "Q ctx stack \<Longrightarrow> Q (ctx\<lparr>current_target_name := t\<rparr>) stack"
    and Q_push: "Q ctx stack \<Longrightarrow> length stack < max_target_property_depth ctx \<Longrightarrow>
      \<not> gx_tp_stack_contains ctx stack t p \<Longrightarrow> gx_tp_stack_push stack t p = Some st \<Longrightarrow> Q ctx st"
begin

lemma agree_back: "Q ctx stack \<Longrightarrow> snd (ev' ctx input stack) = stack"
  using agree [of ctx stack input] stack_back [of ctx input stack] by simp

lemma arg_fast_cong: "Q ctx stack \<Longrightarrow> gx_eval_arg_fast ev ctx a stack = gx_eval_arg_fast ev' ctx a stack"
  by (simp add: gx_eval_arg_fast_def Let_def agree)

lemma arg_fast_back: "Q ctx stack \<Longrightarrow> snd (gx_eval_arg_fast ev' ctx a stack) = stack"
  by (simp add: gx_eval_arg_fast_def Let_def agree_back)

lemma match_args_cong: "Q ctx stack \<Longrightarrow> gx_match_args ev ctx raw n args stack = gx_match_args ev' ctx raw n args stack"
  by (induction args) (auto intro!: gx_then_cong arg_fast_cong simp: arg_fast_back)

lemma logic_args_cong: "Q ctx stack \<Longrightarrow> gx_logic_args ev ctx raw w args stack = gx_logic_args ev' ctx raw w args stack"
  by (induction args) (auto intro!: gx_then_cong agree simp: agree_back Let_def)

lemma read_property_cong:
  assumes "Q ctx stack"
  shows "gx_read_property ev ctx t p raw stack = gx_read_property ev' ctx t p raw stack"
proof -
  have *: "ev ctx v st = ev' ctx v st"
    if "length stack < max_target_property_depth ctx" "\<not> gx_tp_stack_contains ctx stack t p"
      "gx_tp_stack_push stack t p = Some st" for v st
    by (rule agree) (rule Q_push [OF assms that])
  show ?thesis by (auto simp: gx_read_property_def Let_def not_le * split: option.splits)
qed

lemma body_cong:
  assumes Q: "Q ctx stack"
  shows "gx_eval_body ev ctx body raw stack = gx_eval_body ev' ctx body raw stack"
proof -
  note [simp] = agree [OF Q] agree_back [OF Q]
  have ops: "gx_op_config ev ctx a raw stack = gx_op_config ev' ctx a raw stack"
    "gx_op_platform_id ev ctx a raw stack = gx_op_platform_id ev' ctx a raw stack"
    "gx_op_compile_language ev ctx a raw stack = gx_op_compile_language ev' ctx a raw stack"
    "gx_op_when b ev ctx a raw stack = gx_op_when b ev' ctx a raw stack"
    "gx_op_target_file ev ctx a raw stack = gx_op_target_file ev' ctx a raw stack"
    "gx_op_target_file_part ev ctx opr a raw stack = gx_op_target_file_part ev' ctx opr a raw stack"
    "gx_op_target_linker_file ev ctx opr a raw stack = gx_op_target_linker_file ev' ctx opr a raw stack"
    "gx_op_bool ev ctx a raw stack = gx_op_bool ev' ctx a raw stack"
    "gx_op_not ev ctx a raw stack = gx_op_not ev' ctx a raw stack" for a b opr
    by (simp_all add: gx_op_config_def gx_op_platform_id_def gx_op_compile_language_def gx_op_when_def
        gx_op_target_file_def gx_op_target_file_part_def gx_op_target_linker_file_def
        gx_op_bool_def gx_op_not_def match_args_cong [OF Q] Let_def
        split: option.split)
  have ops2: "gx_op_genex_eval ev ctx a raw stack = gx_op_genex_eval ev' ctx a raw stack"
    "gx_op_and_or ev ctx opr a raw stack = gx_op_and_or ev' ctx opr a raw stack"
    "gx_op_conditional ev ctx opr a raw stack = gx_op_conditional ev' ctx opr a raw stack"
    "gx_op_strequal ev ctx a raw stack = gx_op_strequal ev' ctx a raw stack"
    "gx_op_if ev ctx a raw stack = gx_op_if ev' ctx a raw stack"
    "gx_op_target_genex_eval ev ctx a raw stack = gx_op_target_genex_eval ev' ctx a raw stack"
    "gx_op_target_property ev ctx a raw stack = gx_op_target_property ev' ctx a raw stack" for a opr
    unfolding gx_op_genex_eval_def gx_op_conditional_def gx_op_strequal_def gx_op_if_def
      gx_op_target_genex_eval_def gx_op_target_property_def gx_op_and_or_def
    by (auto intro!: gx_with_args_cong gx_then_cong read_property_cong logic_args_cong agree Q_target Q
        split: list.splits simp: Let_def)
  show ?thesis by (simp add: gx_eval_body_def ops ops2 split: prod.splits)
qed

lemma loop_cong:
  "Q ctx stack \<Longrightarrow> gx_eval_loop ev ctx input cursor sb stack = gx_eval_loop ev' ctx input cursor sb stack"
proof (induction "length input - cursor" arbitrary: cursor sb rule: less_induct)
  case less
  show ?case
  proof (cases "cursor < length input \<and> (\<exists>k e. gx_find_open input cursor = Some k \<and> gx_find_matching_genex_end input k = Some e)")
    case False
    then show ?thesis
      by (auto simp: gx_eval_loop.simps [of _ ctx input cursor] Let_def split: option.splits)
  next
    case True
    then obtain k e where c: "cursor < length input" and k: "gx_find_open input cursor = Some k"
        and e: "gx_find_matching_genex_end input k = Some e" by blast
    have lt: "length input - (e + 1) < length input - cursor"
      using gx_find_open_ge [OF k] gx_matching_end_bounds [OF e] c by auto
    obtain part st where b: "gx_eval_body ev ctx (take (e - (k + 2)) (drop (k + 2) input))
        (take (e - k + 1) (drop k input)) stack = (part, st)" by fastforce
    then have "st = stack" using body_stack by (metis snd_conv)
    with less(1) [OF lt less(2)] c k e b body_cong [OF less(2)] show ?thesis
      by (simp add: gx_eval_loop.simps [of _ ctx input cursor])
  qed
qed

lemma step_cong: "Q ctx stack \<Longrightarrow> gx_eval_step ev ctx input stack = gx_eval_step ev' ctx input stack"
  by (simp add: gx_eval_step_def loop_cong)

end

subsection \<open>The recursion equation of the code\<close>

text \<open>A level and the evaluator one \<open>depth\<close> further in agree where \<open>max_depth\<close> fits.\<close>

interpretation deeper: interchangeable "gx_eval_level n" "\<lambda>c i s. gx_eval_inner c i (Suc d) s" "\<lambda>c s. max_depth c = n + d"
  for n d
  by unfold_locales (simp_all add: gx_eval_inner_def)

lemma gx_eval_inner_eq:
  "gx_eval_inner ctx input depth stack =
     (if depth > max_depth ctx then gx_too_deep ctx input stack
      else gx_eval_step (\<lambda>c i s. gx_eval_inner c i (depth + 1) s) ctx input stack)"
proof (cases "depth > max_depth ctx")
  case False
  then obtain n where n: "max_depth ctx = n + depth" by (metis add.commute le_Suc_ex not_less)
  then have "Suc (max_depth ctx) - depth = Suc n" by simp
  then have "gx_eval_inner ctx input depth stack = gx_eval_step (gx_eval_level n) ctx input stack"
    by (simp add: gx_eval_inner_def)
  also have "\<dots> = gx_eval_step (\<lambda>c i s. gx_eval_inner c i (Suc depth) s) ctx input stack"
    by (rule deeper.step_cong [OF n])
  finally show ?thesis using False by simp
qed (simp add: gx_eval_inner_def)

subsection \<open>The TARGET_PROPERTY guard\<close>

definition tp_same :: "genex_context \<Rightarrow> string_view \<times> string_view \<Rightarrow> string_view \<times> string_view \<Rightarrow> bool" where
  "tp_same ctx a b \<longleftrightarrow> gx_target_name_eq ctx (fst a) (fst b) \<and> gx_sv_eq_ci (snd a) (snd b)"

text \<open>Bounded by both limits, and no target/property pair is being evaluated twice.\<close>

definition stack_ok :: "genex_context \<Rightarrow> tp_stack \<Rightarrow> bool" where
  "stack_ok ctx stack \<longleftrightarrow> length stack \<le> max_target_property_depth ctx \<and> length stack \<le> 128 \<and>
     sorted_wrt (\<lambda>a b. \<not> tp_same ctx a b) stack"

lemma tp_same_target [simp]: "tp_same (ctx\<lparr>current_target_name := t\<rparr>) = tp_same ctx"
  by (intro ext) (simp add: tp_same_def gx_target_name_eq_def)

lemma gx_contains_iff: "gx_tp_stack_contains ctx stack t p \<longleftrightarrow> (\<exists>e\<in>set stack. tp_same ctx e (t, p))"
  by (force simp: gx_tp_stack_contains_def list_ex_iff tp_same_def)

interpretation guarded: interchangeable "gx_eval_level n"
  "\<lambda>c i s. if stack_ok c s then gx_eval_level n c i s else r" stack_ok for n r
  by unfold_locales
     (auto simp: stack_ok_def gx_tp_stack_push_def TP_STACK_CAP_def gx_contains_iff sorted_wrt_append
       split: if_splits)

subsection \<open>Logic\<close>

definition gx_truthy :: "evaluator \<Rightarrow> genex_context \<Rightarrow> tp_stack \<Rightarrow> string_view \<Rightarrow> bool" where
  "gx_truthy ev ctx stack a \<longleftrightarrow> \<not> gx_cmake_string_is_false (gx_value (fst (ev ctx a stack)))"

lemma gx_logic_args_value:
  "list_all (\<lambda>a. gx_status (fst (gx_eval_level n ctx a stack)) = GENEX_OK) args \<Longrightarrow>
   gx_logic_args (gx_eval_level n) ctx raw w args stack =
     (gx_ok (if w then (if list_all (gx_truthy (gx_eval_level n) ctx stack) args then ''1'' else ''0'')
             else (if list_ex (gx_truthy (gx_eval_level n) ctx stack) args then ''1'' else ''0'')), stack)"
proof (induction args)
  case (Cons a args)
  obtain res where r: "gx_eval_level n ctx a stack = (res, stack)"
    by (metis level.stack_back prod.collapse)
  with Cons show ?case by (simp add: gx_then_def Let_def gx_truthy_def)
qed simp

subsection \<open>Properties\<close>

text \<open>
  C32. No evaluation changes what it must not: the \<open>TARGET_PROPERTY\<close> stack comes back as it
  was on every path, error paths included; a failed evaluation returns the input unchanged
  as its value; and text without an unescaped \<open>$<\<close> is returned as it is.
\<close>

theorem genex_eval_preserves:
  "snd (gx_eval_inner ctx input depth stack) = stack \<and>
   (gx_status (genex_eval c input) = GENEX_OK \<or> gx_value (genex_eval c input) = input) \<and>
   (gx_sv_contains_genex_unescaped input \<or> genex_eval (Some ctx) input = gx_ok input)"
proof (intro conjI)
  show "snd (gx_eval_inner ctx input depth stack) = stack"
    by (simp add: gx_eval_inner_def)
  show "gx_status (genex_eval c input) = GENEX_OK \<or> gx_value (genex_eval c input) = input"
    using level.fail_value
    by (auto simp: genex_eval_def gx_eval_root_def gx_eval_inner_def Let_def split: option.split
        simp del: gx_eval_level.simps)
  show "gx_sv_contains_genex_unescaped input \<or> genex_eval (Some ctx) input = gx_ok input"
    by (auto simp: genex_eval_def gx_eval_root_def gx_eval_inner_def Let_def gx_eval_step_def)
qed

text \<open>
  C31. \<open>TARGET_PROPERTY\<close> evaluation cannot run away: starting from a stack within the limits
  and without repetitions, every nested evaluation happens with such a stack (the same
  result is obtained whatever a nested evaluation outside them would return), so no
  target/property pair is evaluated inside itself and the 128 entries are never overrun.
\<close>

theorem target_property_guard:
  assumes "stack_ok ctx stack"
  shows "gx_eval_level (Suc n) ctx input stack =
    gx_eval_step (\<lambda>c i s. if stack_ok c s then gx_eval_level n c i s else r) ctx input stack"
  using guarded.step_cong [OF assms] by simp

definition demo_ctx :: genex_context where
  "demo_ctx =
     \<lparr>gx_config = ''Debug'', current_target_name = ''t'', platform_id = ''Linux'', compile_language = ''C'',
      install_prefix = ''/p'',
      read_target_property = Some (\<lambda>t p. if p = ''A'' then View ''$<TARGET_PROPERTY:t,A>'' else View ''v''),
      read_target_file = None, read_target_linker_file = None, link_only_active = False,
      build_interface_active = True, build_local_interface_active = False, install_interface_active = False,
      target_name_case_insensitive = False, max_callback_value_len = 0, max_depth = 4,
      max_target_property_depth = 4, strndup_ok = (\<lambda>_. True), alloc_ok = (\<lambda>_. True)\<rparr>"

theorem target_property_guard_witness:
  "gx_eval_level 3 demo_ctx ''$<TARGET_PROPERTY:A>'' [] =
    gx_eval_step (\<lambda>c i s. if stack_ok c s then gx_eval_level 2 c i s else (gx_ok ''bad'', [])) demo_ctx
      ''$<TARGET_PROPERTY:A>'' []"
proof -
  have "stack_ok demo_ctx []" by (simp add: stack_ok_def)
  then show ?thesis using target_property_guard [of demo_ctx "[]" 2] by (simp add: numeral_3_eq_3 numeral_2_eq_2)
qed

text \<open>
  \<open>$<AND:...>\<close> and \<open>$<OR:...>\<close> compute conjunction and disjunction: when every argument
  evaluates, the result is \<open>1\<close> exactly when all of them (some of them) are true values, and
  \<open>0\<close> otherwise.
\<close>

theorem logic_operators:
  assumes "list_all (\<lambda>a. gx_status (fst (gx_eval_level n ctx a stack)) = GENEX_OK) args"
    "args = gx_split_top_level_alloc ctx args_expr CHR '',''" "args \<noteq> []"
  shows "gx_op_and_or (gx_eval_level n) ctx op args_expr raw stack =
    (gx_ok (if (if gx_sv_eq_ci op ''AND'' then list_all (gx_truthy (gx_eval_level n) ctx stack) args
               else list_ex (gx_truthy (gx_eval_level n) ctx stack) args) then ''1'' else ''0''), stack)"
  using assms(2,3) gx_logic_args_value [OF assms(1)]
  by (simp add: gx_op_and_or_def gx_with_args_def Let_def)

theorem logic_operators_witness:
  "gx_op_and_or (gx_eval_level 1) demo_ctx ''AND'' ''1,off'' ''raw'' [] = (gx_ok ''0'', [])"
proof -
  let ?args = "[''1'', ''off'']"
  have 1: "list_all (\<lambda>a. gx_status (fst (gx_eval_level 1 demo_ctx a [])) = GENEX_OK) ?args"
    by code_simp
  have 2: "?args = gx_split_top_level_alloc demo_ctx ''1,off'' CHR '',''" by code_simp
  have 3: "gx_sv_eq_ci ''AND'' ''AND''" "\<not> list_all (gx_truthy (gx_eval_level 1) demo_ctx []) ?args"
    by code_simp+
  show ?thesis using logic_operators [OF 1 2, of "''AND''" "''raw''"] 3 by simp
qed

text \<open>
  Splitting an argument list loses nothing: the pieces cut out of a text, joined again
  with the delimiter, are the text, there is at least one piece, and the number of pieces
  allocated in the first pass is the number written in the second.
\<close>

theorem split_top_level_lossless:
  "join_with d (gx_split_pieces input d 0 0 0) = input \<and> gx_split_pieces input d 0 0 0 \<noteq> [] \<and>
   gx_split_count input d 0 0 = length (gx_split_pieces input d 0 0 0)"
  using gx_split_pieces_join [of 0 0 input d 0] gx_split_count_pieces [of input d 0 0 0] by simp

end
