(* ===== verification/Genex_Scan.thy ===== *)
theory Genex_Scan
  imports Genex_Facts
begin

text \<open>
  Collecting the build configurations a generator expression mentions,
  \<open>src_v2/genex/genex_scan.c\<close>. Every function returns its success flag with the updated list.
  The mutual recursion of \<open>collect_inner\<close> and \<open>collect_body\<close> goes to shorter texts; the model
  counts levels down from the length of the input, and \<open>collect_inner_eq\<close> shows that this
  is the recursion of the code.
\<close>

type_synonym configs = "string_view list"

definition gx_known_configs_push_unique_ci :: "genex_context \<Rightarrow> configs \<Rightarrow> string_view \<Rightarrow> bool \<times> configs" where
  "gx_known_configs_push_unique_ci ctx configs config0 =
     (let config = gx_trim config0 in
      if config = [] then (True, configs)
      else if list_ex (\<lambda>k. gx_sv_eq_ci k config) configs then (True, configs)
      else (let copy = gx_copy_to_arena ctx config in
        if length copy \<noteq> length config then (False, configs)
        else if \<not> alloc_ok ctx (16 * Suc (length configs)) then (False, configs)
        else (True, configs @ [copy])))"

fun push_all :: "genex_context \<Rightarrow> configs \<Rightarrow> string_view list \<Rightarrow> bool \<times> configs" where
  "push_all ctx configs [] = (True, configs)"
| "push_all ctx configs (p # ps) =
     (case gx_known_configs_push_unique_ci ctx configs p of (ok, configs1) \<Rightarrow>
        if \<not> ok then (False, configs1) else push_all ctx configs1 ps)"

definition gx_known_configs_push_literal_list :: "genex_context \<Rightarrow> configs \<Rightarrow> string_view \<Rightarrow> bool \<times> configs" where
  "gx_known_configs_push_literal_list ctx configs value = push_all ctx configs (semi_pieces [] (gx_trim value))"

definition gx_parse_exact_expr :: "string_view \<Rightarrow> (string_view \<times> string_view) option" where
  "gx_parse_exact_expr expr0 =
     (let expr = gx_trim expr0 in
      if \<not> gx_is_genex_open_at expr 0 then None
      else (case gx_find_matching_genex_end expr 0 of
              None \<Rightarrow> None
            | Some e \<Rightarrow>
                if e + 1 \<noteq> length expr then None
                else Some (gx_split_op (take (e - 2) (drop 2 expr)))))"

definition gx_is_exact_config_value_expr :: "string_view \<Rightarrow> bool" where
  "gx_is_exact_config_value_expr expr =
     (case gx_parse_exact_expr expr of
        None \<Rightarrow> False
      | Some (op, args_expr) \<Rightarrow> gx_sv_eq_ci op ''CONFIG'' \<and> gx_trim args_expr = [])"

type_synonym collector = "string_view \<Rightarrow> configs \<Rightarrow> bool \<times> configs"

text \<open>The argument loops: of \<open>CONFIG\<close>, with the literal lists pushed, and of \<open>STREQUAL\<close>.\<close>

fun collect_config_args :: "collector \<Rightarrow> genex_context \<Rightarrow> string_view list \<Rightarrow> configs \<Rightarrow> bool \<times> configs" where
  "collect_config_args rec ctx [] configs = (True, configs)"
| "collect_config_args rec ctx (a # args) configs =
     (case rec a configs of (ok, c1) \<Rightarrow>
        if \<not> ok then (False, c1)
        else if \<not> gx_sv_contains_genex_unescaped a then
          (case gx_known_configs_push_literal_list ctx c1 a of (ok2, c2) \<Rightarrow>
             if \<not> ok2 then (False, c2) else collect_config_args rec ctx args c2)
        else collect_config_args rec ctx args c1)"

fun collect_args :: "collector \<Rightarrow> string_view list \<Rightarrow> configs \<Rightarrow> bool \<times> configs" where
  "collect_args rec [] configs = (True, configs)"
| "collect_args rec (a # args) configs =
     (case rec a configs of (ok, c1) \<Rightarrow> if \<not> ok then (False, c1) else collect_args rec args c1)"

definition collect_strequal_literal :: "genex_context \<Rightarrow> string_view list \<Rightarrow> configs \<Rightarrow> bool \<times> configs" where
  "collect_strequal_literal ctx args configs =
     (case args of
        [l, r] \<Rightarrow>
          (let lhs_is_config = gx_is_exact_config_value_expr l;
               rhs_is_config = gx_is_exact_config_value_expr r in
           if lhs_is_config \<noteq> rhs_is_config then
             (let lit = (if lhs_is_config then r else l) in
              if \<not> gx_sv_contains_genex_unescaped lit then gx_known_configs_push_unique_ci ctx configs lit
              else (True, configs))
           else (True, configs))
      | _ \<Rightarrow> (True, configs))"

definition gx_known_configs_collect_body ::
  "collector \<Rightarrow> genex_context \<Rightarrow> string_view \<Rightarrow> configs \<Rightarrow> bool \<times> configs" where
  "gx_known_configs_collect_body rec ctx body configs =
     (case gx_split_op body of (op, args_expr) \<Rightarrow>
      (case (if gx_sv_contains_genex_unescaped op then rec op configs else (True, configs)) of (ok, c1) \<Rightarrow>
         if \<not> ok then (False, c1)
         else if gx_sv_eq_ci op ''CONFIG'' then
           (if args_expr = [] then (True, c1)
            else (let args = gx_split_top_level_alloc ctx args_expr CHR '','' in
              if args_expr \<noteq> [] \<and> args = [] then (False, c1) else collect_config_args rec ctx args c1))
         else if gx_sv_eq_ci op ''STREQUAL'' then
           (let args = gx_split_top_level_alloc ctx args_expr CHR '','' in
            if args_expr \<noteq> [] \<and> args = [] then (False, c1)
            else (case collect_args rec args c1 of (ok2, c2) \<Rightarrow>
              if \<not> ok2 then (False, c2) else collect_strequal_literal ctx args c2))
         else if args_expr \<noteq> [] then rec args_expr c1
         else (True, c1)))"

function gx_known_loop :: "collector \<Rightarrow> genex_context \<Rightarrow> string_view \<Rightarrow> nat \<Rightarrow> configs \<Rightarrow> bool \<times> configs" where
  "gx_known_loop rec ctx input i configs =
     (if \<not> i + 1 < length input then (True, configs)
      else if \<not> gx_is_genex_open_at input i then gx_known_loop rec ctx input (i + 1) configs
      else (case gx_find_matching_genex_end input i of
              None \<Rightarrow> gx_known_loop rec ctx input (i + 1) configs
            | Some e \<Rightarrow>
                (case gx_known_configs_collect_body rec ctx (take (e - (i + 2)) (drop (i + 2) input)) configs of
                   (ok, c1) \<Rightarrow> if \<not> ok then (False, c1) else gx_known_loop rec ctx input (e + 1) c1)))"
  by pat_completeness auto
termination
  by (relation "measure (\<lambda>(rec, ctx, input, i, configs). length input - i)")
     (auto dest!: gx_matching_end_bounds)

declare gx_known_loop.simps [simp del]

fun gx_known_level :: "nat \<Rightarrow> genex_context \<Rightarrow> collector" where
  "gx_known_level 0 ctx input configs = (True, configs)"
| "gx_known_level (Suc n) ctx input configs = gx_known_loop (gx_known_level n ctx) ctx input 0 configs"

definition gx_known_configs_collect_inner :: "genex_context \<Rightarrow> collector" where
  "gx_known_configs_collect_inner ctx input configs = gx_known_level (length input) ctx input configs"

definition genex_collect_known_configs :: "genex_context option \<Rightarrow> string_view \<Rightarrow> configs \<Rightarrow> bool \<times> configs" where
  "genex_collect_known_configs c input configs =
     (case c of None \<Rightarrow> (False, configs) | Some ctx \<Rightarrow> gx_known_configs_collect_inner ctx input configs)"

subsection \<open>Nested texts are shorter\<close>

lemma gx_trim_length: "length (gx_trim s) \<le> length s"
  by (simp add: gx_trim_def nob_sv_trim_length)

lemma gx_split_op_length:
  "gx_split_op body = (op, args) \<Longrightarrow> length op \<le> length body \<and> length args \<le> length body"
  using gx_trim_length [of body] gx_trim_length [of "take _ body"]
  by (auto simp: gx_split_op_def split: option.splits intro: order_trans)

lemma gx_split_piece_length: "p \<in> set (gx_split_pieces input d i start depth) \<Longrightarrow> length p \<le> length input"
proof (induction input d i start depth rule: gx_split_pieces.induct)
  case (1 input d i start depth)
  then show ?case by (auto simp: gx_split_pieces.simps [of input d i] split: if_splits)
qed

lemma gx_split_alloc_length: "p \<in> set (gx_split_top_level_alloc ctx input d) \<Longrightarrow> length p \<le> length input"
  by (auto simp: gx_split_top_level_alloc_def Let_def split: if_splits dest!: in_set_takeD
      intro: order_trans [OF gx_trim_length] gx_split_piece_length)

subsection \<open>The recursion equation\<close>

lemma config_args_cong:
  "(\<And>a c. a \<in> set args \<Longrightarrow> rec a c = rec' a c) \<Longrightarrow>
   collect_config_args rec ctx args configs = collect_config_args rec' ctx args configs"
  by (induction args arbitrary: configs) (auto split: prod.splits)

lemma collect_args_cong:
  "(\<And>a c. a \<in> set args \<Longrightarrow> rec a c = rec' a c) \<Longrightarrow> collect_args rec args configs = collect_args rec' args configs"
  by (induction args arbitrary: configs) (auto split: prod.splits)

lemma collect_body_cong:
  assumes "\<And>a c. length a \<le> length body \<Longrightarrow> rec a c = rec' a c"
  shows "gx_known_configs_collect_body rec ctx body configs = gx_known_configs_collect_body rec' ctx body configs"
proof -
  obtain op args where s: "gx_split_op body = (op, args)" by fastforce
  note len = gx_split_op_length [OF s]
  let ?as = "gx_split_top_level_alloc ctx args CHR '',''"
  have a: "a \<in> set ?as \<Longrightarrow> rec a c = rec' a c" for a c
    using len gx_split_alloc_length [of a ctx args "CHR '',''"] by (auto intro!: assms)
  have c: "collect_config_args rec ctx ?as x = collect_config_args rec' ctx ?as x"
    "collect_args rec ?as x = collect_args rec' ?as x" for x
    using a by (auto intro: config_args_cong collect_args_cong)
  have o: "rec op x = rec' op x" "rec args x = rec' args x" for x
    using len by (auto intro: assms)
  show ?thesis
    by (simp add: gx_known_configs_collect_body_def s c o Let_def cong: if_cong split: prod.split)
qed

lemma loop_body_length: "gx_find_matching_genex_end input i = Some e \<Longrightarrow>
  length (take (e - (i + 2)) (drop (i + 2) input)) < length input"
  using gx_matching_end_bounds [of input i e] by auto

lemma known_loop_cong:
  assumes "\<And>a c. length a < length input \<Longrightarrow> rec a c = rec' a c"
  shows "gx_known_loop rec ctx input i configs = gx_known_loop rec' ctx input i configs"
proof (induction "length input - i" arbitrary: i configs rule: less_induct)
  case less
  have b: "gx_find_matching_genex_end input i = Some e \<Longrightarrow>
      gx_known_configs_collect_body rec ctx (take (e - (i + 2)) (drop (i + 2) input)) configs =
      gx_known_configs_collect_body rec' ctx (take (e - (i + 2)) (drop (i + 2) input)) configs" for e
    using loop_body_length [of input i e] by (intro collect_body_cong assms) linarith
  have e: "gx_find_matching_genex_end input i = Some e \<Longrightarrow> i + 1 < length input \<Longrightarrow>
      length input - (e + 1) < length input - i" for e
    using gx_matching_end_bounds [of input i e] by auto
  show ?case
    using less e b
    by (auto simp: gx_known_loop.simps [of _ ctx input i] split: option.split prod.split)
qed

lemma known_level_enough:
  "length input \<le> n \<Longrightarrow> length input \<le> m \<Longrightarrow> gx_known_level n ctx input configs = gx_known_level m ctx input configs"
proof (induction "length input" arbitrary: input n m configs rule: less_induct)
  case less
  have z: "gx_known_loop rec ctx [] 0 configs = (True, configs)" for rec
    by (simp add: gx_known_loop.simps)
  show ?case
  proof (cases "input = []")
    case True
    then show ?thesis by (cases n; cases m) (simp_all add: z)
  next
    case False
    then obtain n' m' where nm: "n = Suc n'" "m = Suc m'"
      using less.prems by (cases n; cases m) auto
    have "gx_known_level n' ctx a c = gx_known_level m' ctx a c" if "length a < length input" for a c
      using less.hyps [OF that] less.prems that nm by simp
    then show ?thesis unfolding nm gx_known_level.simps by (rule known_loop_cong)
  qed
qed

lemma collect_inner_eq:
  "gx_known_configs_collect_inner ctx input configs =
     gx_known_loop (gx_known_configs_collect_inner ctx) ctx input 0 configs"
proof -
  have "gx_known_level (length input) ctx input configs = gx_known_level (Suc (length input)) ctx input configs"
    by (rule known_level_enough) simp_all
  also have "\<dots> = gx_known_loop (gx_known_level (length input) ctx) ctx input 0 configs" by simp
  also have "\<dots> = gx_known_loop (gx_known_configs_collect_inner ctx) ctx input 0 configs"
    by (rule known_loop_cong) (simp add: gx_known_configs_collect_inner_def known_level_enough)
  finally show ?thesis by (simp add: gx_known_configs_collect_inner_def)
qed

subsection \<open>What is collected\<close>

definition configs_ok :: "configs \<Rightarrow> bool" where
  "configs_ok cs \<longleftrightarrow> list_all (\<lambda>c. c \<noteq> [] \<and> sv_trimmed c) cs \<and> sorted_wrt (\<lambda>a b. \<not> gx_sv_eq_ci a b) cs"

text \<open>A step of the collection: well-formed lists stay so, and nothing is removed.\<close>

definition grows :: "configs \<Rightarrow> configs \<Rightarrow> bool" where
  "grows cs cs' \<longleftrightarrow> (configs_ok cs \<longrightarrow> configs_ok cs') \<and> (\<exists>new. cs' = cs @ new)"

lemma grows_refl [simp]: "grows cs cs"
  by (simp add: grows_def)

lemma grows_trans: "grows a b \<Longrightarrow> grows b c \<Longrightarrow> grows a c"
  by (auto simp: grows_def)

lemma c_str_full: "length (c_str s) = length s \<Longrightarrow> c_str s = s"
  by (induction s) (auto simp: c_str_def split: if_splits)

lemma push_unique_grows: "gx_known_configs_push_unique_ci ctx cs v = (ok, cs') \<Longrightarrow> grows cs cs'"
proof -
  have "gx_copy_to_arena ctx (gx_trim v) = gx_trim v"
    if "length (gx_copy_to_arena ctx (gx_trim v)) = length (gx_trim v)"
    using that by (auto simp: gx_copy_to_arena_def c_str_full split: if_splits)
  then show "gx_known_configs_push_unique_ci ctx cs v = (ok, cs') \<Longrightarrow> grows cs cs'"
    by (auto simp: gx_known_configs_push_unique_ci_def Let_def grows_def configs_ok_def sorted_wrt_append
        list_ex_iff gx_trim_def nob_sv_trim_trimmed split: if_splits)
qed

lemma push_all_grows: "push_all ctx cs ps = (ok, cs') \<Longrightarrow> grows cs cs'"
  by (induction ps arbitrary: cs) (auto split: prod.splits if_splits dest!: push_unique_grows intro: grows_trans)

locale growing =
  fixes rec :: collector
  assumes rec_grows: "rec a cs = (ok, cs') \<Longrightarrow> grows cs cs'"
begin

lemma config_args_grows: "collect_config_args rec ctx args cs = (ok, cs') \<Longrightarrow> grows cs cs'"
proof (induction args arbitrary: cs)
  case (Cons a args)
  obtain ok1 c1 where 1: "rec a cs = (ok1, c1)" by fastforce
  obtain ok2 c2 where 2: "push_all ctx c1 (semi_pieces [] (gx_trim a)) = (ok2, c2)" by fastforce
  have g: "grows cs c1" "grows cs c2"
    using rec_grows [OF 1] push_all_grows [OF 2] by (auto intro: grows_trans)
  from Cons 1 2 g show ?case
    by (auto simp: gx_known_configs_push_literal_list_def split: if_splits intro: grows_trans)
qed simp

lemma args_grows: "collect_args rec args cs = (ok, cs') \<Longrightarrow> grows cs cs'"
  by (induction args arbitrary: cs) (auto split: prod.splits if_splits dest!: rec_grows intro: grows_trans)

lemma strequal_grows: "collect_strequal_literal ctx args cs = (ok, cs') \<Longrightarrow> grows cs cs'"
  by (auto simp: collect_strequal_literal_def Let_def split: list.splits if_splits dest: push_unique_grows)

lemma body_grows: "gx_known_configs_collect_body rec ctx body cs = (ok, cs') \<Longrightarrow> grows cs cs'"
  by (auto simp: gx_known_configs_collect_body_def Let_def split: prod.splits if_splits
      dest!: rec_grows config_args_grows args_grows strequal_grows intro: grows_trans)

lemma loop_grows: "gx_known_loop rec ctx input i cs = (ok, cs') \<Longrightarrow> grows cs cs'"
proof (induction "length input - i" arbitrary: i cs rule: less_induct)
  case less
  consider (stop) "cs' = cs"
    | (step) j where "j = i + 1" "i < length input" "gx_known_loop rec ctx input j cs = (ok, cs')"
    | (body) e c1 where "gx_find_matching_genex_end input i = Some e" "grows cs c1"
        "cs' = c1 \<or> gx_known_loop rec ctx input (e + 1) c1 = (ok, cs')"
    using less.prems
    by (auto simp: gx_known_loop.simps [of _ ctx input i] split: if_splits option.splits prod.splits
        dest!: body_grows)
  then show ?case
  proof cases
    case step
    then show ?thesis using less.hyps [of j] by auto
  next
    case (body e c1)
    then have "length input - (e + 1) < length input - i"
      using gx_matching_end_bounds [of input i e] by auto
    with body less.hyps [of "e + 1"] show ?thesis by (auto intro: grows_trans)
  qed simp
qed

end

lemma level_growing: "growing (gx_known_level n ctx)"
proof (induction n)
  case (Suc n)
  then show ?case by unfold_locales (simp add: growing.loop_grows)
qed (unfold_locales, simp)

interpretation collect: growing "gx_known_configs_collect_inner ctx" for ctx
  by unfold_locales (simp add: gx_known_configs_collect_inner_def growing.rec_grows [OF level_growing])

subsection \<open>Properties\<close>

text \<open>
  Collecting the known configurations is the recursion of the C code, and it only ever
  adds: the list it was given is kept as a prefix, and when that list held trimmed,
  non-empty names that differ up to case, so does the result.
\<close>

theorem known_configs_unique:
  "gx_known_configs_collect_inner ctx input configs =
     gx_known_loop (gx_known_configs_collect_inner ctx) ctx input 0 configs \<and>
   grows configs (snd (genex_collect_known_configs (Some ctx) input configs)) \<and>
   configs_ok (snd (genex_collect_known_configs (Some ctx) input []))"
proof -
  have g: "grows cs (snd (gx_known_configs_collect_inner ctx input cs))" for cs
    by (rule collect.rec_grows [OF prod.collapse [symmetric]])
  have "configs_ok []" by (simp add: configs_ok_def)
  then show ?thesis using g [of "[]"] g [of configs] collect_inner_eq [of ctx input configs]
    by (simp add: genex_collect_known_configs_def grows_def)
qed

end
