(* ===== verification/Cmk_Math.thy ===== *)
theory Cmk_Math
  imports Nob_Prelude "HOL-Library.Signed_Division"
begin

unbundle bit_operations_syntax

text \<open>
  \<open>math(EXPR)\<close>, \<open>src_v2/evaluator/eval_math.c\<close>: a recursive-descent evaluator over 64-bit
  integers with overflow checks. A \<open>long long\<close> is an \<open>int\<close> (all results are proved to be in
  range); \<open>/\<close> and \<open>%\<close> are the truncating \<open>sdiv\<close> and \<open>smod\<close>, a left shift is reduced modulo
  \<open>2^64\<close>. The position in the buffer is the rest of the text. \<open>Inl\<close> holds the causes of the
  diagnostics emitted, \<open>Inr\<close> the value and the rest.

  The seven parsing functions call one another in a cycle through parentheses. Here each
  takes the expression parser as its argument \<open>pe\<close>, the cycle is closed by counting
  parenthesis levels down from the length of the text, and each loop carries the length of
  its text as a bound; \<open>Cmk_Math_Facts\<close> proves the recursion equations without them.
\<close>

type_synonym math_error = "string list"
type_synonym math_result = "math_error + int \<times> string"
type_synonym math_parser = "string \<Rightarrow> math_result"

definition LLONG_MAX :: int where "LLONG_MAX = 2 ^ 63 - 1"
definition LLONG_MIN :: int where "LLONG_MIN = - (2 ^ 63)"

datatype math_output_format = MATH_OUTPUT_DECIMAL | MATH_OUTPUT_HEXADECIMAL

definition math_skip_ws :: "string \<Rightarrow> string" where
  "math_skip_ws s = dropWhile c_isspace s"

abbreviation math_emit_error :: "string \<Rightarrow> math_error + 'a" where
  "math_emit_error cause \<equiv> Inl [cause]"

subsection \<open>Checked arithmetic\<close>

definition math_checked_neg :: "int \<Rightarrow> math_error + int" where
  "math_checked_neg v =
     (if v = LLONG_MIN then math_emit_error ''Integer overflow in unary minus'' else Inr (- v))"

definition math_checked_add :: "int \<Rightarrow> int \<Rightarrow> math_error + int" where
  "math_checked_add lhs rhs =
     (if (rhs > 0 \<and> lhs > LLONG_MAX - rhs) \<or> (rhs < 0 \<and> lhs < LLONG_MIN - rhs)
      then math_emit_error ''Integer overflow in addition'' else Inr (lhs + rhs))"

definition math_checked_sub :: "int \<Rightarrow> int \<Rightarrow> math_error + int" where
  "math_checked_sub lhs rhs =
     (if (rhs > 0 \<and> lhs < LLONG_MIN + rhs) \<or> (rhs < 0 \<and> lhs > LLONG_MAX + rhs)
      then math_emit_error ''Integer overflow in subtraction'' else Inr (lhs - rhs))"

definition math_checked_mul :: "int \<Rightarrow> int \<Rightarrow> math_error + int" where
  "math_checked_mul lhs rhs =
     (let overflow = math_emit_error ''Integer overflow in multiplication'' in
      if lhs = 0 \<or> rhs = 0 then Inr 0
      else if (lhs = -1 \<and> rhs = LLONG_MIN) \<or> (rhs = -1 \<and> lhs = LLONG_MIN) then overflow
      else if lhs > 0 then
        (if rhs > 0 then (if lhs > LLONG_MAX sdiv rhs then overflow else Inr (lhs * rhs))
         else (if rhs < LLONG_MIN sdiv lhs then overflow else Inr (lhs * rhs)))
      else
        (if rhs > 0 then (if lhs < LLONG_MIN sdiv rhs then overflow else Inr (lhs * rhs))
         else (if lhs < LLONG_MAX sdiv rhs then overflow else Inr (lhs * rhs))))"

definition math_checked_div :: "int \<Rightarrow> int \<Rightarrow> math_error + int" where
  "math_checked_div lhs rhs =
     (if rhs = 0 then math_emit_error ''Division by zero''
      else if lhs = LLONG_MIN \<and> rhs = -1 then math_emit_error ''Integer overflow in division''
      else Inr (lhs sdiv rhs))"

definition math_checked_mod :: "int \<Rightarrow> int \<Rightarrow> math_error + int" where
  "math_checked_mod lhs rhs =
     (if rhs = 0 then math_emit_error ''Division by zero''
      else if lhs = LLONG_MIN \<and> rhs = -1 then math_emit_error ''Integer overflow in modulo''
      else Inr (lhs smod rhs))"

text \<open>A 64-bit two's complement reading: the conversion to \<open>long long\<close>.\<close>

definition to_llong :: "int \<Rightarrow> int" where
  "to_llong v = signed_take_bit 63 v"

definition math_shift :: "bool \<Rightarrow> int \<Rightarrow> int \<Rightarrow> math_error + int" where
  "math_shift is_shl out rhs =
     (if rhs < 0 then math_emit_error ''Negative shift count''
      else if rhs \<ge> 64 then math_emit_error ''Shift count is out of range for 64-bit integer''
      else if is_shl then
        (if rhs > 0 \<and> out \<ge> 0 \<and> out > drop_bit (nat rhs) LLONG_MAX
         then math_emit_error ''Integer overflow in left shift''
         else Inr (to_llong (push_bit (nat rhs) out)))
      else Inr (drop_bit (nat rhs) out))"

subsection \<open>Literals\<close>

definition hex_digit :: "char \<Rightarrow> bool" where
  "hex_digit c \<longleftrightarrow> c_isdigit c \<or> (97 \<le> code c \<and> code c \<le> 102) \<or> (65 \<le> code c \<and> code c \<le> 70)"

definition hex_val :: "char \<Rightarrow> int" where
  "hex_val c = (if c_isdigit c then int (code c) - 48
                else if code c \<ge> 97 then int (code c) - 87 else int (code c) - 55)"

definition oct_digit :: "char \<Rightarrow> bool" where
  "oct_digit c \<longleftrightarrow> 48 \<le> code c \<and> code c \<le> 55"

definition base_value :: "int \<Rightarrow> string \<Rightarrow> int" where
  "base_value b ds = foldl (\<lambda>v c. b * v + hex_val c) 0 ds"

text \<open>
  \<open>strtoll(s, &end, 0)\<close> on a text that starts with neither space nor sign (the callers have
  handled both): hexadecimal after \<open>0x\<close>, octal after \<open>0\<close>, decimal otherwise. \<open>None\<close> when
  there is no number; the value is not yet clipped to the range.
\<close>

definition c_strtoll0 :: "string \<Rightarrow> (int \<times> string) option" where
  "c_strtoll0 s =
     (case s of
        [] \<Rightarrow> None
      | c # t \<Rightarrow>
          if c = CHR ''0'' then
            (if t \<noteq> [] \<and> (hd t = CHR ''x'' \<or> hd t = CHR ''X'') \<and> tl t \<noteq> [] \<and> hex_digit (hd (tl t)) then
               Some (base_value 16 (takeWhile hex_digit (tl t)), dropWhile hex_digit (tl t))
             else Some (base_value 8 (takeWhile oct_digit s), dropWhile oct_digit s))
          else if c_isdigit c then Some (base_value 10 (takeWhile c_isdigit s), dropWhile c_isdigit s)
          else None)"

text \<open>Failure carries what was emitted before returning false.\<close>

definition math_parse_number :: "math_parser" where
  "math_parse_number s0 =
     (case c_strtoll0 (math_skip_ws s0) of
        None \<Rightarrow> Inl []
      | Some (v, rest) \<Rightarrow>
          if v > LLONG_MAX then math_emit_error ''Integer literal out of range in expression''
          else Inr (v, rest))"

subsection \<open>The grammar\<close>

lemma math_skip_ws_length: "length (math_skip_ws s) \<le> length s"
  by (simp add: math_skip_ws_def length_dropWhile_le)

lemma math_skip_ws_Cons: "math_skip_ws s0 = c # s \<Longrightarrow> length s < length s0"
  using math_skip_ws_length [of s0] by simp

function math_parse_factor :: "math_parser \<Rightarrow> math_parser" where
  "math_parse_factor pe s0 =
     (case math_skip_ws s0 of
        [] \<Rightarrow> math_emit_error ''Unexpected end of expression''
      | c # s \<Rightarrow>
          if c = CHR ''('' then
            (case pe s of
               Inl e \<Rightarrow> Inl e
             | Inr (v, t) \<Rightarrow>
                 (case math_skip_ws t of
                    [] \<Rightarrow> math_emit_error ''Missing ')' in expression''
                  | d # u \<Rightarrow> if d \<noteq> CHR '')'' then math_emit_error ''Missing ')' in expression'' else Inr (v, u)))
          else if c = CHR ''+'' then math_parse_factor pe s
          else if c = CHR ''-'' then
            (case math_parse_factor pe s of
               Inl e \<Rightarrow> Inl e
             | Inr (v, t) \<Rightarrow> map_sum id (\<lambda>w. (w, t)) (math_checked_neg v))
          else if c = CHR ''~'' then
            (case math_parse_factor pe s of Inl e \<Rightarrow> Inl e | Inr (v, t) \<Rightarrow> Inr (NOT v, t))
          else (case math_parse_number (c # s) of
                  Inl e \<Rightarrow> Inl (e @ [''Invalid numeric token in expression''])
                | Inr r \<Rightarrow> Inr r))"
  by pat_completeness auto
termination by (relation "measure (\<lambda>(pe, s). length s)") (auto dest: math_skip_ws_Cons)

declare math_parse_factor.simps [simp del]

text \<open>
  The loop the six binary levels share: skip white space, look for an operator of the level,
  parse the right operand with the next level, apply, repeat.
\<close>

fun math_loop ::
  "(string \<Rightarrow> ('op \<times> string) option) \<Rightarrow> math_parser \<Rightarrow> ('op \<Rightarrow> int \<Rightarrow> int \<Rightarrow> math_error + int) \<Rightarrow>
   nat \<Rightarrow> int \<Rightarrow> string \<Rightarrow> math_result" where
  "math_loop look sub ap 0 out s = Inr (out, math_skip_ws s)"
| "math_loop look sub ap (Suc k) out s =
     (case look (math_skip_ws s) of
        None \<Rightarrow> Inr (out, math_skip_ws s)
      | Some (opr, t) \<Rightarrow>
          (case sub t of
             Inl e \<Rightarrow> Inl e
           | Inr (rhs, u) \<Rightarrow>
               (case ap opr out rhs of Inl e \<Rightarrow> Inl e | Inr v \<Rightarrow> math_loop look sub ap k v u)))"

definition math_level ::
  "(string \<Rightarrow> ('op \<times> string) option) \<Rightarrow> math_parser \<Rightarrow> ('op \<Rightarrow> int \<Rightarrow> int \<Rightarrow> math_error + int) \<Rightarrow> math_parser" where
  "math_level look sub ap s =
     (case sub s of Inl e \<Rightarrow> Inl e | Inr (v, t) \<Rightarrow> math_loop look sub ap (Suc (length t)) v t)"

text \<open>An operator of one character out of a set.\<close>

definition look_char :: "char list \<Rightarrow> string \<Rightarrow> (char \<times> string) option" where
  "look_char ops s = (case s of [] \<Rightarrow> None | c # t \<Rightarrow> if c \<in> set ops then Some (c, t) else None)"

definition look_shift :: "string \<Rightarrow> (bool \<times> string) option" where
  "look_shift s =
     (case s of
        c # d # t \<Rightarrow>
          if c = CHR ''<'' \<and> d = CHR ''<'' then Some (True, t)
          else if c = CHR ''>'' \<and> d = CHR ''>'' then Some (False, t) else None
      | _ \<Rightarrow> None)"

definition apply_term :: "char \<Rightarrow> int \<Rightarrow> int \<Rightarrow> math_error + int" where
  "apply_term opr lhs rhs =
     (if opr = CHR ''*'' then math_checked_mul lhs rhs
      else if opr = CHR ''/'' then math_checked_div lhs rhs else math_checked_mod lhs rhs)"

definition apply_addsub :: "char \<Rightarrow> int \<Rightarrow> int \<Rightarrow> math_error + int" where
  "apply_addsub opr lhs rhs = (if opr = CHR ''+'' then math_checked_add lhs rhs else math_checked_sub lhs rhs)"

definition math_parse_term :: "math_parser \<Rightarrow> math_parser" where
  "math_parse_term pe = math_level (look_char [CHR ''*'', CHR ''/'', CHR ''%'']) (math_parse_factor pe) apply_term"

definition math_parse_addsub :: "math_parser \<Rightarrow> math_parser" where
  "math_parse_addsub pe = math_level (look_char [CHR ''+'', CHR ''-'']) (math_parse_term pe) apply_addsub"

definition math_parse_shift :: "math_parser \<Rightarrow> math_parser" where
  "math_parse_shift pe = math_level look_shift (math_parse_addsub pe) math_shift"

definition math_parse_bitand :: "math_parser \<Rightarrow> math_parser" where
  "math_parse_bitand pe = math_level (look_char [CHR ''&'']) (math_parse_shift pe) (\<lambda>_ a b. Inr (a AND b))"

definition math_parse_bitxor :: "math_parser \<Rightarrow> math_parser" where
  "math_parse_bitxor pe = math_level (look_char [CHR ''^'']) (math_parse_bitand pe) (\<lambda>_ a b. Inr (a XOR b))"

definition math_parse_bitor :: "math_parser \<Rightarrow> math_parser" where
  "math_parse_bitor pe = math_level (look_char [CHR ''|'']) (math_parse_bitxor pe) (\<lambda>_ a b. Inr (a OR b))"

text \<open>
  The expression parser with \<open>n\<close> parenthesis levels left; at level 0 there is no text left
  to hold a parenthesis, and the result is that of an empty text.
\<close>

fun math_expr_level :: "nat \<Rightarrow> math_parser" where
  "math_expr_level 0 s = math_emit_error ''Unexpected end of expression''"
| "math_expr_level (Suc n) s = math_parse_bitor (math_expr_level n) s"

definition math_parse_expr :: "math_parser" where
  "math_parse_expr s = math_expr_level (Suc (length s)) s"

subsection \<open>The command\<close>

fun digits_of :: "nat \<Rightarrow> nat \<Rightarrow> string" where
  "digits_of b n =
     (let d = n mod b; c = char_of (if d < 10 then 48 + d else 87 + d)
      in if b \<le> 1 \<or> n < b then [c] else digits_of b (n div b) @ [c])"

declare digits_of.simps [simp del]

text \<open>\<open>%lld\<close> and \<open>0x%llx\<close>.\<close>

definition show_lld :: "int \<Rightarrow> string" where
  "show_lld v = (if v < 0 then CHR ''-'' # digits_of 10 (nat (- v)) else digits_of 10 (nat v))"

definition show_hex :: "int \<Rightarrow> string" where
  "show_hex v = ''0x'' @ digits_of 16 (nat (v mod 2 ^ 64))"

definition math_parse_output_format_sv :: "string_view \<Rightarrow> math_output_format option" where
  "math_parse_output_format_sv sv =
     (if sv_eq_ci_upper sv ''DECIMAL'' then Some MATH_OUTPUT_DECIMAL
      else if sv_eq_ci_upper sv ''HEXADECIMAL'' then Some MATH_OUTPUT_HEXADECIMAL else None)"

text \<open>
  The outcome of the handler: the causes of the errors reported (and whether evaluation is
  asked to stop), or the variable set, its value and the format of the event.
\<close>

datatype math_outcome =
    Math_Error "string list" bool
  | Math_Set string_view string math_output_format

fun find_output_format :: "string_view list \<Rightarrow> nat option" where
  "find_output_format [] = None"
| "find_output_format (a # as) =
     (if sv_eq_ci_upper a ''OUTPUT_FORMAT'' then Some 0 else map_option Suc (find_output_format as))"

text \<open>Which arguments are the expression, and the output format; a report or both.\<close>

definition math_expr_range :: "string_view list \<Rightarrow> string + nat \<times> math_output_format" where
  "math_expr_range a =
     (case find_output_format (drop 2 a) of
        Some k \<Rightarrow>
          (let idx = 2 + k in
           if idx + 1 \<ge> length a then Inl ''math(EXPR) missing value after OUTPUT_FORMAT''
           else (case math_parse_output_format_sv (a ! (idx + 1)) of
                   None \<Rightarrow> Inl ''math(EXPR) invalid OUTPUT_FORMAT value''
                 | Some fmt \<Rightarrow>
                     if idx + 2 \<noteq> length a then Inl ''math(EXPR) has unexpected tokens after OUTPUT_FORMAT''
                     else Inr (idx, fmt)))
      | None \<Rightarrow>
          if length a \<ge> 4 then
            (case math_parse_output_format_sv (last a) of
               Some fmt \<Rightarrow> Inr (length a - 1, fmt)
             | None \<Rightarrow> Inr (length a, MATH_OUTPUT_DECIMAL))
          else Inr (length a, MATH_OUTPUT_DECIMAL))"

definition math_finish :: "string_view \<Rightarrow> string \<Rightarrow> math_output_format \<Rightarrow> math_outcome" where
  "math_finish out_var expr_sv out_fmt =
     (case math_parse_expr (c_str expr_sv) of
        Inl causes \<Rightarrow> Math_Error causes False
      | Inr (v, rest) \<Rightarrow>
          if math_skip_ws rest \<noteq> [] then Math_Error [''Unexpected trailing tokens in expression''] False
          else Math_Set out_var
                 (if out_fmt = MATH_OUTPUT_HEXADECIMAL then show_hex v else show_lld v) out_fmt)"

definition eval_handle_math :: "string_view list \<Rightarrow> math_outcome" where
  "eval_handle_math a =
     (if length a < 1 then Math_Error [''math() requires a subcommand''] False
      else if \<not> sv_eq_ci_upper (a ! 0) ''EXPR'' then Math_Error [''Unsupported math() subcommand''] True
      else if length a < 3 then Math_Error [''math(EXPR) requires output variable and expression''] False
      else (case math_expr_range a of
              Inl cause \<Rightarrow> Math_Error [cause] False
            | Inr (expr_end, out_fmt) \<Rightarrow>
                if expr_end \<le> 2 then Math_Error [''math(EXPR) requires output variable and expression''] False
                else math_finish (a ! 1) (concat (take (expr_end - 2) (drop 2 a))) out_fmt))"

end
