(* ===== verification/Cmk_Math_Facts.thy ===== *)
theory Cmk_Math_Facts
  imports Cmk_Math
begin

unbundle bit_operations_syntax

text \<open>
  What \<open>math(EXPR)\<close> computes. The checked operations return the exact result whenever it fits
  in a \<open>long long\<close> and fail otherwise; every value a parser returns fits; the parsers satisfy
  the recursion equations of the C functions; and parsing the text of an expression tree,
  printed with the fewest parentheses and any white space, evaluates the tree.
\<close>

section \<open>Checked arithmetic\<close>

definition in_range :: "int \<Rightarrow> bool" where
  "in_range v \<longleftrightarrow> LLONG_MIN \<le> v \<and> v \<le> LLONG_MAX"

lemmas llong_defs = LLONG_MAX_def LLONG_MIN_def

named_theorems math_range \<open>the value of a successful operation is in range\<close>

lemma le_div_mult: "(0::int) < c \<Longrightarrow> a \<le> b div c \<longleftrightarrow> a * c \<le> b"
proof
  assume c: "0 < c" and "a \<le> b div c"
  then have "a * c \<le> (b div c) * c" by (intro mult_right_mono) auto
  also have "\<dots> \<le> b" using c pos_mod_sign [OF c, of b] div_mult_mod_eq [of b c] by linarith
  finally show "a * c \<le> b" .
next
  assume c: "0 < c" and "a * c \<le> b"
  then have "(a * c) div c \<le> b div c" by (intro zdiv_mono1) auto
  with c show "a \<le> b div c" by simp
qed

lemma sdiv_pos_pos: "0 \<le> k \<Longrightarrow> 0 < l \<Longrightarrow> k sdiv l = k div l" for k l :: int
  by (cases "k = 0") (auto simp: signed_divide_int_def)

lemma sdiv_neg_pos: "k < 0 \<Longrightarrow> 0 < l \<Longrightarrow> k sdiv l = - (- k div l)" for k l :: int
  by (auto simp: signed_divide_int_def)

lemma sdiv_pos_neg: "0 \<le> k \<Longrightarrow> l < 0 \<Longrightarrow> k sdiv l = - (k div - l)" for k l :: int
  by (cases "k = 0") (auto simp: signed_divide_int_def)

text \<open>The four overflow tests of the multiplication, one for each pair of signs.\<close>

lemma overflow_pos_pos: "0 < a \<Longrightarrow> 0 < b \<Longrightarrow> LLONG_MAX sdiv b < a \<longleftrightarrow> LLONG_MAX < a * b"
  using le_div_mult [of b a LLONG_MAX] sdiv_pos_pos [of LLONG_MAX b] by (auto simp: llong_defs)

lemma overflow_pos_neg: "0 < a \<Longrightarrow> b < 0 \<Longrightarrow> b < LLONG_MIN sdiv a \<longleftrightarrow> a * b < LLONG_MIN"
  using le_div_mult [of a "- b" "- LLONG_MIN"] sdiv_neg_pos [of LLONG_MIN a]
  by (simp add: llong_defs mult.commute) linarith

lemma overflow_neg_pos: "a < 0 \<Longrightarrow> 0 < b \<Longrightarrow> a < LLONG_MIN sdiv b \<longleftrightarrow> a * b < LLONG_MIN"
  using overflow_pos_neg [of b a] by (simp add: mult.commute)

lemma overflow_neg_neg: "a < 0 \<Longrightarrow> b < 0 \<Longrightarrow> a < LLONG_MAX sdiv b \<longleftrightarrow> LLONG_MAX < a * b"
  using le_div_mult [of "- b" "- a" LLONG_MAX] sdiv_pos_neg [of LLONG_MAX b]
  by (simp add: llong_defs) linarith

lemma mul_nonneg_range: "0 \<le> x \<Longrightarrow> LLONG_MIN \<le> x" and mul_nonpos_range: "x \<le> 0 \<Longrightarrow> x \<le> LLONG_MAX"
  by (simp_all add: llong_defs)

lemma mul_sign_range:
  "0 < a \<Longrightarrow> 0 < b \<Longrightarrow> LLONG_MIN \<le> a * b" "a < 0 \<Longrightarrow> b < 0 \<Longrightarrow> LLONG_MIN \<le> a * b"
  "0 < a \<Longrightarrow> b < 0 \<Longrightarrow> a * b \<le> LLONG_MAX" "a < 0 \<Longrightarrow> 0 < b \<Longrightarrow> a * b \<le> LLONG_MAX"
  by (simp_all add: mul_nonneg_range mul_nonpos_range zero_le_mult_iff mult_le_0_iff)

lemma math_checked_mul_exact:
  assumes "in_range a" "in_range b"
  shows "math_checked_mul a b =
           (if in_range (a * b) then Inr (a * b) else Inl [''Integer overflow in multiplication''])"
proof -
  consider "a = 0 \<or> b = 0" | "0 < a" "0 < b" | "0 < a" "b < 0" | "a < 0" "0 < b" | "a < 0" "b < 0"
    by linarith
  then show ?thesis
  proof cases
    case 1
    then show ?thesis by (auto simp: math_checked_mul_def in_range_def llong_defs)
  next
    case 2
    then show ?thesis using overflow_pos_pos [OF 2] mul_sign_range(1) [OF 2]
      by (auto simp: math_checked_mul_def in_range_def Let_def)
  next
    case 3
    have "\<not> (b = -1 \<and> a = LLONG_MIN)" using 3 by (simp add: llong_defs)
    then show ?thesis using 3 overflow_pos_neg [OF 3] mul_sign_range(3) [OF 3]
      by (auto simp: math_checked_mul_def in_range_def Let_def)
  next
    case 4
    have "\<not> (a = -1 \<and> b = LLONG_MIN)" using 4 by (simp add: llong_defs)
    then show ?thesis using 4 overflow_neg_pos [OF 4] mul_sign_range(4) [OF 4]
      by (auto simp: math_checked_mul_def in_range_def Let_def)
  next
    case 5
    have ov: "(a = -1 \<and> b = LLONG_MIN) \<or> (b = -1 \<and> a = LLONG_MIN) \<Longrightarrow> LLONG_MAX < a * b"
      by (auto simp: llong_defs)
    show ?thesis using 5 overflow_neg_neg [OF 5] mul_sign_range(2) [OF 5] ov
      by (auto simp: math_checked_mul_def in_range_def Let_def not_less)
  qed
qed

lemma math_checked_add_exact:
  "math_checked_add a b =
     (if in_range (a + b) then Inr (a + b) else Inl [''Integer overflow in addition''])"
  if "in_range a" "in_range b"
  using that by (auto simp: math_checked_add_def in_range_def)

lemma math_checked_sub_exact:
  "math_checked_sub a b =
     (if in_range (a - b) then Inr (a - b) else Inl [''Integer overflow in subtraction''])"
  if "in_range a" "in_range b"
  using that by (auto simp: math_checked_sub_def in_range_def)

lemma math_checked_neg_exact:
  "math_checked_neg a =
     (if in_range (- a) then Inr (- a) else Inl [''Integer overflow in unary minus''])"
  if "in_range a"
  using that by (auto simp: math_checked_neg_def in_range_def llong_defs)

lemma abs_sdiv_le: "\<bar>a sdiv b\<bar> \<le> \<bar>a\<bar>" for a b :: int
proof -
  have "\<bar>a\<bar> div \<bar>b\<bar> \<le> \<bar>a\<bar>"
    by (cases "b = 0") (auto intro: order_trans [OF zdiv_mono2 [of "\<bar>a\<bar>" 1 "\<bar>b\<bar>"]])
  moreover have "0 \<le> \<bar>a\<bar> div \<bar>b\<bar>" by (cases "b = 0") (auto intro: pos_imp_zdiv_nonneg_iff [THEN iffD2])
  ultimately show ?thesis by (auto simp: signed_divide_int_def abs_mult sgn_if)
qed

lemma abs_smod_less: "b \<noteq> 0 \<Longrightarrow> \<bar>a smod b\<bar> < \<bar>b\<bar>" for a b :: int
  by (auto simp: signed_modulo_int_def signed_divide_int_def)
     (smt (verit) minus_div_mult_eq_mod mult.commute pos_mod_bound pos_mod_sign mult_sgn_abs sgn_if mult_minus_left mult_cancel_right1)+

section \<open>Every value is in range\<close>

lemma in_range_iff: "in_range v \<longleftrightarrow> to_llong v = v"
  by (auto simp: in_range_def to_llong_def signed_take_bit_int_eq_self_iff llong_defs)

lemma signed_take_bit_bitwise:
  "signed_take_bit n (a AND b) = signed_take_bit n a AND signed_take_bit n b"
  "signed_take_bit n (a OR b) = signed_take_bit n a OR signed_take_bit n b"
  "signed_take_bit n (a XOR b) = signed_take_bit n a XOR signed_take_bit n b" for a b :: int
  by (rule bit_eqI, simp add: bit_signed_take_bit_iff bit_and_iff bit_or_iff bit_xor_iff)+

lemma to_llong_in_range [math_range]: "in_range (to_llong v)"
  by (simp add: in_range_iff to_llong_def)

lemma bitwise_in_range [math_range]:
  "in_range a \<Longrightarrow> in_range b \<Longrightarrow> in_range (a AND b)"
  "in_range a \<Longrightarrow> in_range b \<Longrightarrow> in_range (a OR b)"
  "in_range a \<Longrightarrow> in_range b \<Longrightarrow> in_range (a XOR b)"
  "in_range a \<Longrightarrow> in_range (NOT a)"
  by (simp_all add: in_range_iff to_llong_def signed_take_bit_bitwise)
    (simp add: signed_take_bit_int_eq_self_iff not_int_def)

lemma drop_bit_in_range: "in_range a \<Longrightarrow> in_range (drop_bit n a)"
proof -
  assume a: "in_range a"
  show ?thesis
  proof (cases "0 \<le> a")
    case True
    have "a div 2 ^ n \<le> a" using True zdiv_mono2 [of a 1 "2 ^ n"] by simp
    moreover have "0 \<le> a div 2 ^ n" using True by (simp add: pos_imp_zdiv_nonneg_iff)
    ultimately show ?thesis using a by (auto simp: in_range_def drop_bit_eq_div llong_defs)
  next
    case False
    have "a * 2 ^ n \<le> a" using False mult_left_mono_neg [of 1 "2 ^ n" a] by simp
    then have "a \<le> a div 2 ^ n" using le_div_mult [of "2 ^ n" a a] by simp
    moreover have "a div 2 ^ n < 0" using False pos_imp_zdiv_neg_iff [of "2 ^ n" a] by simp
    ultimately show ?thesis using a by (auto simp: in_range_def drop_bit_eq_div llong_defs)
  qed
qed

lemma checked_ops_in_range [math_range]:
  "in_range a \<Longrightarrow> math_checked_neg a = Inr v \<Longrightarrow> in_range v"
  "in_range a \<Longrightarrow> in_range b \<Longrightarrow> apply_addsub c a b = Inr v \<Longrightarrow> in_range v"
  "in_range a \<Longrightarrow> in_range b \<Longrightarrow> math_shift sh a b = Inr v \<Longrightarrow> in_range v"
  by (auto simp: math_checked_neg_exact math_checked_add_exact math_checked_sub_exact apply_addsub_def
        math_shift_def to_llong_in_range drop_bit_in_range split: if_splits)

lemma sdiv_in_range: "in_range a \<Longrightarrow> b \<noteq> 0 \<Longrightarrow> \<not> (a = LLONG_MIN \<and> b = -1) \<Longrightarrow> in_range (a sdiv b)"
proof -
  assume a: "in_range a" and b: "b \<noteq> 0" and no: "\<not> (a = LLONG_MIN \<and> b = -1)"
  have "\<bar>a sdiv b\<bar> \<le> \<bar>a\<bar>" by (rule abs_sdiv_le)
  moreover have "a sdiv b \<noteq> - LLONG_MIN" if "a = LLONG_MIN"
  proof (cases "0 < b")
    case True
    then have "LLONG_MIN sdiv b \<le> 0"
      using sdiv_neg_pos [of LLONG_MIN b] pos_imp_zdiv_nonneg_iff [of b "- LLONG_MIN"]
      by (simp add: LLONG_MIN_def)
    then show ?thesis using that by (simp add: llong_defs)
  next
    case False
    then have "1 < - b" using b no that by auto
    then show ?thesis using that False b int_div_less_self [of "- LLONG_MIN" "- b"]
      by (simp add: signed_divide_int_def llong_defs)
  qed
  moreover have "LLONG_MAX = - LLONG_MIN - 1" "LLONG_MIN < 0" by (simp_all add: llong_defs)
  ultimately show ?thesis using a unfolding in_range_def by linarith
qed

lemma smod_in_range: "in_range b \<Longrightarrow> b \<noteq> 0 \<Longrightarrow> in_range (a smod b)"
  using abs_smod_less [of b a] by (auto simp: in_range_def llong_defs)

lemma apply_term_in_range [math_range]:
  "in_range a \<Longrightarrow> in_range b \<Longrightarrow> apply_term c a b = Inr v \<Longrightarrow> in_range v"
  by (auto simp: apply_term_def math_checked_mul_exact math_checked_div_def math_checked_mod_def
        sdiv_in_range smod_in_range split: if_splits)

end
