(* ===== verification/Cmk_Math_Levels.thy ===== *)
theory Cmk_Math_Levels
  imports Cmk_Math_Facts "HOL-Library.Sublist"
begin

unbundle bit_operations_syntax

text \<open>
  The seven mutually recursive functions of \<open>math(EXPR)\<close>. A locale states what one binary
  level needs of its operator test, of the next level and of its operation; inside it the
  loop is shown to need no bound, and a level to keep the contract of a parser. Interpreted
  for the six levels it yields the recursion equations of the C functions.
\<close>

section \<open>The contract of a parser\<close>

definition good_parser :: "math_parser \<Rightarrow> bool" where
  "good_parser p \<longleftrightarrow> (\<forall>s v t. p s = Inr (v, t) \<longrightarrow> in_range v \<and> strict_suffix t s)"

lemma good_parserI: "(\<And>s v t. p s = Inr (v, t) \<Longrightarrow> in_range v \<and> strict_suffix t s) \<Longrightarrow> good_parser p"
  by (simp add: good_parser_def)

lemma good_parserD: "good_parser p \<Longrightarrow> p s = Inr (v, t) \<Longrightarrow> in_range v \<and> strict_suffix t s"
  by (simp add: good_parser_def)

lemma math_skip_ws_suffix [suffix_intros]: "suffix (math_skip_ws s) s"
  unfolding math_skip_ws_def by (rule suffix_dropWhile)

lemma math_skip_ws_idem [simp]: "math_skip_ws (math_skip_ws s) = math_skip_ws s"
  by (simp add: math_skip_ws_def)

lemma strict_suffix_length: "strict_suffix t s \<Longrightarrow> length t < length s"
  by (auto simp: strict_suffix_def suffix_def)

lemma suffix_Cons_strict: "suffix (c # u) s \<Longrightarrow> strict_suffix u s"
  using suffix_ConsD [of c u s] suffix_length_le [of "c # u" s] by (auto simp: strict_suffix_def)

locale binary_level =
  fixes look :: "string \<Rightarrow> ('op \<times> string) option"
    and sub :: math_parser
    and ap :: "'op \<Rightarrow> int \<Rightarrow> int \<Rightarrow> math_error + int"
  assumes look_consumes: "look s = Some (opr, t) \<Longrightarrow> strict_suffix t s"
    and sub_good: "good_parser sub"
    and ap_range: "in_range a \<Longrightarrow> in_range b \<Longrightarrow> ap opr a b = Inr v \<Longrightarrow> in_range v"
begin

text \<open>One operator and its right operand leave less text than there was.\<close>

lemma operand_shorter:
  assumes "look (math_skip_ws s) = Some (opr, t)" "sub t = Inr (rhs, u)"
  shows "strict_suffix u s"
proof -
  have "strict_suffix t (math_skip_ws s)" "strict_suffix u t"
    using assms look_consumes sub_good good_parserD by blast+
  then show ?thesis using math_skip_ws_suffix [of s]
    by (meson suffix_order.less_le_trans suffix_order.less_trans)
qed

lemma math_loop_fuel:
  "length s < k \<Longrightarrow> length s < k' \<Longrightarrow> math_loop look sub ap k out s = math_loop look sub ap k' out s"
proof (induction k arbitrary: k' out s)
  case (Suc k)
  then obtain m where m: "k' = Suc m" by (cases k') auto
  have "math_loop look sub ap k v u = math_loop look sub ap m v u"
    if "look (math_skip_ws s) = Some (opr, t)" "sub t = Inr (rhs, u)" for opr t rhs u v
    using Suc.IH [of u m v] strict_suffix_length [OF operand_shorter [OF that]] Suc.prems m by simp
  then show ?case by (auto simp: m split: option.splits sum.splits)
qed simp

lemma math_loop_good:
  "math_loop look sub ap k out s = Inr (v, t) \<Longrightarrow> in_range out \<Longrightarrow> in_range v \<and> suffix t s"
proof (induction k arbitrary: out s)
  case 0
  then show ?case using math_skip_ws_suffix by auto
next
  case (Suc k)
  show ?case
  proof (cases "look (math_skip_ws s)")
    case None
    then show ?thesis using Suc.prems math_skip_ws_suffix by auto
  next
    case (Some p)
    then obtain opr w where look: "look (math_skip_ws s) = Some (opr, w)" by (cases p) auto
    then obtain rhs u x where "sub w = Inr (rhs, u)" "ap opr out rhs = Inr x"
      "math_loop look sub ap k x u = Inr (v, t)"
      using Suc.prems(1) by (auto split: sum.splits)
    moreover from this have "in_range rhs" "strict_suffix u s"
      using sub_good good_parserD operand_shorter [OF look] by blast+
    ultimately have "in_range v \<and> suffix t u" using Suc.IH ap_range Suc.prems(2) by blast
    then show ?thesis using \<open>strict_suffix u s\<close> by (meson suffix_order.less_imp_le suffix_order.trans)
  qed
qed

lemma math_level_good: "good_parser (math_level look sub ap)"
proof (rule good_parserI)
  fix s v t
  assume "math_level look sub ap s = Inr (v, t)"
  then obtain w u where "sub s = Inr (w, u)"
    and loop: "math_loop look sub ap (Suc (length u)) w u = Inr (v, t)"
    by (auto simp: math_level_def split: sum.splits)
  then have "in_range w" "strict_suffix u s" using sub_good good_parserD by blast+
  then show "in_range v \<and> strict_suffix t s"
    using math_loop_good [OF loop] by (meson suffix_order.le_less_trans)
qed

end

text \<open>The loop of a level with a bound that is never felt, and its equation: the C loop.\<close>

definition math_tail ::
  "(string \<Rightarrow> ('op \<times> string) option) \<Rightarrow> math_parser \<Rightarrow> ('op \<Rightarrow> int \<Rightarrow> int \<Rightarrow> math_error + int) \<Rightarrow>
   int \<Rightarrow> string \<Rightarrow> math_result" where
  "math_tail look sub ap out s = math_loop look sub ap (Suc (length s)) out s"

lemma math_level_tail:
  "math_level look sub ap s = (case sub s of Inl e \<Rightarrow> Inl e | Inr (v, t) \<Rightarrow> math_tail look sub ap v t)"
  by (auto simp: math_level_def math_tail_def split: sum.split)

lemma math_loop_skip: "math_loop look sub ap k out (math_skip_ws s) = math_loop look sub ap k out s"
  by (cases k) (auto split: option.split)

context binary_level
begin

lemma math_tail_rec:
  "math_tail look sub ap out s =
     (case look (math_skip_ws s) of
        None \<Rightarrow> Inr (out, math_skip_ws s)
      | Some (opr, t) \<Rightarrow>
          (case sub t of
             Inl e \<Rightarrow> Inl e
           | Inr (rhs, u) \<Rightarrow>
               (case ap opr out rhs of Inl e \<Rightarrow> Inl e | Inr v \<Rightarrow> math_tail look sub ap v u)))"
proof -
  have "math_loop look sub ap (length s) v u = math_loop look sub ap (Suc (length u)) v u"
    if "look (math_skip_ws s) = Some (opr, t)" "sub t = Inr (rhs, u)" for opr t rhs u v
    using math_loop_fuel [of u "length s" "Suc (length u)" v]
      strict_suffix_length [OF operand_shorter [OF that]] by simp
  then show ?thesis unfolding math_tail_def by (auto split: option.splits sum.splits)
qed

lemma math_tail_skip: "math_tail look sub ap out (math_skip_ws s) = math_tail look sub ap out s"
  using math_loop_fuel [of "math_skip_ws s" "Suc (length (math_skip_ws s))" "Suc (length s)" out]
    math_skip_ws_length [of s] by (simp add: math_tail_def math_loop_skip)

end

section \<open>The levels keep the contract\<close>

lemma look_char_consumes: "look_char ops s = Some (opr, t) \<Longrightarrow> strict_suffix t s"
  by (auto simp: look_char_def strict_suffix_def suffix_def split: list.splits if_splits)

lemma look_shift_consumes: "look_shift s = Some (opr, t) \<Longrightarrow> strict_suffix t s"
  by (auto simp: look_shift_def strict_suffix_def suffix_def split: list.splits if_splits)

lemma base_value_nonneg: "0 \<le> b \<Longrightarrow> (\<And>c. c \<in> set ds \<Longrightarrow> 0 \<le> hex_val c) \<Longrightarrow> 0 \<le> base_value b ds"
  by (induction ds rule: rev_induct) (simp_all add: base_value_def)

lemma hex_val_nonneg: "hex_digit c \<Longrightarrow> 0 \<le> hex_val c"
  by (auto simp: hex_digit_def hex_val_def c_isdigit_def)

lemma digit_hex: "c_isdigit c \<Longrightarrow> hex_digit c" "oct_digit c \<Longrightarrow> hex_digit c"
  by (auto simp: hex_digit_def c_isdigit_def oct_digit_def)

lemma base_value_takeWhile:
  "0 \<le> b \<Longrightarrow> (\<And>c. P c \<Longrightarrow> hex_digit c) \<Longrightarrow> 0 \<le> base_value b (takeWhile P s)"
  by (rule base_value_nonneg) (auto dest!: set_takeWhileD intro: hex_val_nonneg)

lemma c_strtoll0_good:
  assumes "c_strtoll0 s = Some (v, t)"
  shows "0 \<le> v \<and> strict_suffix t s"
proof -
  obtain c u where s: "s = c # u" using assms by (auto simp: c_strtoll0_def split: list.splits)
  have drop: "strict_suffix (dropWhile P s) s" if "P c" for P
    using that s suffix_dropWhile [of P u] suffix_ConsI [of "dropWhile P u" u c] suffix_length_le
    by (fastforce simp: strict_suffix_def)
  have hex: "strict_suffix (dropWhile hex_digit (tl u)) s"
    using s suffix_dropWhile [of hex_digit "tl u"] suffix_tl [of u]
    by (metis suffix_ConsI suffix_order.dual_order.trans strict_suffix_def suffix_length_le length_Cons
        Suc_n_not_le_n)
  have nonneg: "0 \<le> base_value 8 (takeWhile oct_digit s)" "0 \<le> base_value 10 (takeWhile c_isdigit s)"
    "0 \<le> base_value 16 (takeWhile hex_digit (tl u))"
    by (rule base_value_takeWhile, simp, blast intro: digit_hex)+
  have "oct_digit (CHR ''0'')" by (simp add: oct_digit_def)
  then show ?thesis using assms s drop hex nonneg
    by (auto simp: c_strtoll0_def split: if_splits)
qed

lemma math_parse_number_good: "good_parser math_parse_number"
proof (rule good_parserI)
  fix s v t
  assume "math_parse_number s = Inr (v, t)"
  then have n: "c_strtoll0 (math_skip_ws s) = Some (v, t)" "v \<le> LLONG_MAX"
    by (auto simp: math_parse_number_def split: option.splits if_splits)
  with c_strtoll0_good [OF n(1)] show "in_range v \<and> strict_suffix t s"
    using math_skip_ws_suffix [of s]
    by (auto simp: in_range_def llong_defs intro: suffix_order.less_le_trans)
qed

text \<open>The factor, by the character it starts with.\<close>

lemma factor_paren: "math_skip_ws s = CHR ''('' # u \<Longrightarrow> math_parse_factor pe s =
    (case pe u of
       Inl e \<Rightarrow> Inl e
     | Inr (v, t) \<Rightarrow>
         (case math_skip_ws t of
            [] \<Rightarrow> math_emit_error ''Missing ')' in expression''
          | d # x \<Rightarrow> if d \<noteq> CHR '')'' then math_emit_error ''Missing ')' in expression'' else Inr (v, x)))"
  by (simp add: math_parse_factor.simps [of pe s])

lemma factor_plus: "math_skip_ws s = CHR ''+'' # u \<Longrightarrow> math_parse_factor pe s = math_parse_factor pe u"
  by (simp add: math_parse_factor.simps [of pe s])

lemma factor_minus: "math_skip_ws s = CHR ''-'' # u \<Longrightarrow> math_parse_factor pe s =
    (case math_parse_factor pe u of Inl e \<Rightarrow> Inl e | Inr (v, t) \<Rightarrow> map_sum id (\<lambda>w. (w, t)) (math_checked_neg v))"
  by (simp add: math_parse_factor.simps [of pe s])

lemma factor_not: "math_skip_ws s = CHR ''~'' # u \<Longrightarrow> math_parse_factor pe s =
    (case math_parse_factor pe u of Inl e \<Rightarrow> Inl e | Inr (v, t) \<Rightarrow> Inr (NOT v, t))"
  by (simp add: math_parse_factor.simps [of pe s])

lemma factor_number: "math_skip_ws s = c # u \<Longrightarrow> c \<notin> {CHR ''('', CHR ''+'', CHR ''-'', CHR ''~''} \<Longrightarrow>
  math_parse_factor pe s =
    (case math_parse_number (c # u) of
       Inl e \<Rightarrow> Inl (e @ [''Invalid numeric token in expression'']) | Inr r \<Rightarrow> Inr r)"
  by (simp add: math_parse_factor.simps [of pe s])

lemma factor_nothing: "math_skip_ws s = [] \<Longrightarrow> math_parse_factor pe s = Inl [''Unexpected end of expression'']"
  by (simp add: math_parse_factor.simps [of pe s])

lemmas factor_eqs = factor_paren factor_plus factor_minus factor_not factor_number factor_nothing

text \<open>The functions of the grammar over an expression parser that keeps the contract.\<close>

locale inner_parser =
  fixes pe :: math_parser
  assumes pe_good: "good_parser pe"
begin

lemma factor_good: "good_parser (math_parse_factor pe)"
proof (rule good_parserI)
  fix s v t
  show "math_parse_factor pe s = Inr (v, t) \<Longrightarrow> in_range v \<and> strict_suffix t s"
  proof (induction "length s" arbitrary: s v t rule: less_induct)
    case less
    obtain c u where c: "math_skip_ws s = c # u"
      using less.prems by (cases "math_skip_ws s") (auto simp: factor_nothing)
    then have u: "strict_suffix u s"
      using math_skip_ws_suffix [of s] by (simp add: suffix_Cons_strict)
    have IH: "in_range w \<and> strict_suffix r s" if "math_parse_factor pe u = Inr (w, r)" for w r
      using less.hyps [OF strict_suffix_length [OF u] that] u by (meson suffix_order.less_trans)
    have paren_ok: "in_range w \<and> strict_suffix x s"
      if "pe u = Inr (w, r)" "math_skip_ws r = d # x" for w r d x
    proof -
      have "in_range w" "strict_suffix r u" using good_parserD [OF pe_good that(1)] by blast+
      moreover have "suffix x r" using that(2) math_skip_ws_suffix [of r] by (metis suffix_ConsD)
      ultimately show ?thesis using u by (meson suffix_order.le_less_trans suffix_order.less_trans)
    qed
    have num_ok: "in_range w \<and> strict_suffix r s" if "math_parse_number (c # u) = Inr (w, r)" for w r
      using good_parserD [OF math_parse_number_good that] math_skip_ws_suffix [of s] c
      by (metis suffix_order.less_le_trans)
    have fac: "math_parse_factor pe s = Inr (v, t)" by (rule less.prems)
    consider (paren) "c = CHR ''(''" | (sign) "c = CHR ''+''" | (neg) "c = CHR ''-''" | (cpl) "c = CHR ''~''"
      | (num) "c \<notin> {CHR ''('', CHR ''+'', CHR ''-'', CHR ''~''}" by blast
    then show ?case
    proof cases
      case paren
      then obtain w r d where "pe u = Inr (w, r)" "math_skip_ws r = d # t" "v = w"
        using fac c by (auto simp: factor_paren split: sum.splits list.splits if_splits)
      then show ?thesis using paren_ok by blast
    next
      case sign
      then show ?thesis using fac c IH by (simp add: factor_plus)
    next
      case neg
      then obtain w r where f: "math_parse_factor pe u = Inr (w, r)"
        using fac c by (auto simp: factor_minus split: sum.splits)
      then have "math_checked_neg w = Inr v" "r = t"
        using fac c neg by (cases "math_checked_neg w"; simp add: factor_minus)+
      then show ?thesis using IH [OF f] checked_ops_in_range(1) by blast
    next
      case cpl
      then obtain w where "math_parse_factor pe u = Inr (w, t)" "v = NOT w"
        using fac c by (auto simp: factor_not split: sum.splits)
      then show ?thesis using IH bitwise_in_range(4) by blast
    next
      case num
      then show ?thesis using fac c num_ok by (auto simp: factor_number split: sum.splits)
    qed
  qed
qed

end

sublocale inner_parser \<subseteq> trm: binary_level "look_char [CHR ''*'', CHR ''/'', CHR ''%'']" "math_parse_factor pe" apply_term
  by unfold_locales (auto intro: look_char_consumes factor_good math_range)

sublocale inner_parser \<subseteq> addsub: binary_level "look_char [CHR ''+'', CHR ''-'']" "math_parse_term pe" apply_addsub
  unfolding math_parse_term_def
  by unfold_locales (auto intro: look_char_consumes trm.math_level_good math_range)

sublocale inner_parser \<subseteq> shift: binary_level look_shift "math_parse_addsub pe" math_shift
  unfolding math_parse_addsub_def
  by unfold_locales (auto intro: look_shift_consumes addsub.math_level_good math_range)

sublocale inner_parser \<subseteq> bitand: binary_level "look_char [CHR ''&'']" "math_parse_shift pe" "\<lambda>_ a b. Inr (a AND b)"
  unfolding math_parse_shift_def
  by unfold_locales (auto intro: look_char_consumes shift.math_level_good math_range)

sublocale inner_parser \<subseteq> bitxor: binary_level "look_char [CHR ''^'']" "math_parse_bitand pe" "\<lambda>_ a b. Inr (a XOR b)"
  unfolding math_parse_bitand_def
  by unfold_locales (auto intro: look_char_consumes bitand.math_level_good math_range)

sublocale inner_parser \<subseteq> bitor: binary_level "look_char [CHR ''|'']" "math_parse_bitxor pe" "\<lambda>_ a b. Inr (a OR b)"
  unfolding math_parse_bitxor_def
  by unfold_locales (auto intro: look_char_consumes bitxor.math_level_good math_range)

context inner_parser
begin

lemma bitor_good: "good_parser (math_parse_bitor pe)"
  unfolding math_parse_bitor_def by (rule bitor.math_level_good)

end

lemma math_expr_level_good: "good_parser (math_expr_level n)"
proof (induction n)
  case 0
  then show ?case by (simp add: good_parser_def)
next
  case (Suc n)
  then have "inner_parser (math_expr_level n)" by unfold_locales
  then have "good_parser (math_parse_bitor (math_expr_level n))"
    by (rule inner_parser.bitor_good)
  then show ?case by (simp add: good_parser_def)
qed

section \<open>The recursion equations\<close>

text \<open>Two expression parsers that agree on every text shorter than the one at hand do as well.\<close>

definition agree_upto :: "nat \<Rightarrow> math_parser \<Rightarrow> math_parser \<Rightarrow> bool" where
  "agree_upto n p q \<longleftrightarrow> (\<forall>u. length u \<le> n \<longrightarrow> p u = q u)"

lemma agree_uptoD: "agree_upto n p q \<Longrightarrow> length u \<le> n \<Longrightarrow> p u = q u"
  by (simp add: agree_upto_def)

lemma factor_agree_at:
  "(\<And>u. length u < length s \<Longrightarrow> p u = q u) \<Longrightarrow> math_parse_factor p s = math_parse_factor q s"
proof (induction "length s" arbitrary: s rule: less_induct)
  case less
  show ?case
  proof (cases "math_skip_ws s")
    case Nil
    then show ?thesis by (simp add: factor_nothing)
  next
    case (Cons c u)
    then have u: "length u < length s" by (rule math_skip_ws_Cons)
    then have pe: "p u = q u" by (rule less.prems)
    have fac: "math_parse_factor p u = math_parse_factor q u"
      using less.hyps [OF u] less.prems u by (meson less_trans)
    consider "c = CHR ''(''" | "c = CHR ''+''" | "c = CHR ''-''" | "c = CHR ''~''"
      | "c \<notin> {CHR ''('', CHR ''+'', CHR ''-'', CHR ''~''}" by blast
    then show ?thesis using Cons pe fac by cases (simp_all add: factor_eqs)
  qed
qed

lemma factor_agree: "agree_upto n p q \<Longrightarrow> agree_upto (Suc n) (math_parse_factor p) (math_parse_factor q)"
  unfolding agree_upto_def by (auto intro!: factor_agree_at)

context binary_level
begin

lemma math_loop_agree:
  assumes "agree_upto n sub sub'"
  shows "length s \<le> n \<Longrightarrow> math_loop look sub ap k out s = math_loop look sub' ap k out s"
proof (induction k arbitrary: out s)
  case (Suc k)
  show ?case
  proof (cases "look (math_skip_ws s)")
    case (Some p)
    then obtain opr t where look: "look (math_skip_ws s) = Some (opr, t)" by (cases p) auto
    have "length t \<le> n"
      using look_consumes [OF look] math_skip_ws_length [of s] Suc.prems strict_suffix_length by fastforce
    then have sub: "sub' t = sub t" using assms by (simp add: agree_upto_def)
    have "math_loop look sub ap k v u = math_loop look sub' ap k v u" if "sub t = Inr (rhs, u)" for rhs u v
      using Suc.IH [of u v] strict_suffix_length [OF operand_shorter [OF look that]] Suc.prems by simp
    then show ?thesis by (auto simp: look sub split: sum.splits)
  qed simp
qed simp

lemma math_level_agree:
  assumes "agree_upto n sub sub'"
  shows "agree_upto n (math_level look sub ap) (math_level look sub' ap)"
  unfolding agree_upto_def
proof (intro allI impI)
  fix s :: string
  assume s: "length s \<le> n"
  have "math_loop look sub ap k v t = math_loop look sub' ap k v t" if "sub s = Inr (v, t)" for k v t
    using math_loop_agree [OF assms] good_parserD [OF sub_good that] strict_suffix_length s
    by (metis le_trans less_imp_le_nat)
  then show "math_level look sub ap s = math_level look sub' ap s"
    using assms s by (auto simp: math_level_def agree_upto_def simp del: math_loop.simps split: sum.splits)
qed

end

context inner_parser
begin

lemma bitor_agree:
  "agree_upto n pe q \<Longrightarrow> agree_upto (Suc n) (math_parse_bitor pe) (math_parse_bitor q)"
  unfolding math_parse_bitor_def math_parse_bitxor_def math_parse_bitand_def math_parse_shift_def
    math_parse_addsub_def math_parse_term_def
  by (intro bitor.math_level_agree [unfolded math_parse_bitxor_def math_parse_bitand_def math_parse_shift_def
        math_parse_addsub_def math_parse_term_def]
      bitxor.math_level_agree [unfolded math_parse_bitand_def math_parse_shift_def
        math_parse_addsub_def math_parse_term_def]
      bitand.math_level_agree [unfolded math_parse_shift_def math_parse_addsub_def math_parse_term_def]
      shift.math_level_agree [unfolded math_parse_addsub_def math_parse_term_def]
      addsub.math_level_agree [unfolded math_parse_term_def] trm.math_level_agree factor_agree)

end

lemma math_bitor_Nil: "math_parse_bitor pe [] = Inl [''Unexpected end of expression'']"
  by (simp add: math_parse_bitor_def math_parse_bitxor_def math_parse_bitand_def math_parse_shift_def
      math_parse_addsub_def math_parse_term_def math_level_def factor_nothing math_skip_ws_def)

lemma math_expr_level_enough:
  "length s < n \<Longrightarrow> length s < m \<Longrightarrow> math_expr_level n s = math_expr_level m s"
proof (induction n arbitrary: m s)
  case (Suc n)
  then obtain k where k: "m = Suc k" by (cases m) auto
  show ?case
  proof (cases "s = []")
    case True
    then show ?thesis by (simp add: k math_bitor_Nil)
  next
    case False
    have "inner_parser (math_expr_level n)" by unfold_locales (rule math_expr_level_good)
    moreover have "math_expr_level n u = math_expr_level k u" if "length u \<le> length s - 1" for u
    proof (rule Suc.IH)
      show "length u < n" "length u < k"
        using that Suc.prems k False by (cases s; simp)+
    qed
    then have "agree_upto (length s - 1) (math_expr_level n) (math_expr_level k)"
      by (simp add: agree_upto_def)
    ultimately have "agree_upto (Suc (length s - 1)) (math_parse_bitor (math_expr_level n)) (math_parse_bitor (math_expr_level k))"
      by (rule inner_parser.bitor_agree)
    then show ?thesis using k agree_uptoD [of _ _ _ s] by fastforce
  qed
qed simp

lemma math_expr_level_expr: "length s < n \<Longrightarrow> math_expr_level n s = math_parse_expr s"
  unfolding math_parse_expr_def by (rule math_expr_level_enough) auto

interpretation expr: inner_parser math_parse_expr
proof
  show "good_parser math_parse_expr"
    unfolding math_parse_expr_def using math_expr_level_good good_parserD by (intro good_parserI) blast
qed

lemma math_parse_expr_rec: "math_parse_expr s = math_parse_bitor math_parse_expr s"
proof (cases "s = []")
  case True
  then show ?thesis by (simp add: math_parse_expr_def math_bitor_Nil)
next
  case False
  have "agree_upto (length s - 1) math_parse_expr (math_expr_level (length s))"
    using False unfolding agree_upto_def
    by (metis Suc_pred' length_greater_0_conv less_Suc_eq_le math_expr_level_expr)
  from agree_uptoD [OF expr.bitor_agree [OF this], of s]
  have "math_parse_bitor math_parse_expr s = math_expr_level (Suc (length s)) s" by simp
  then show ?thesis by (simp add: math_parse_expr_def)
qed

end
