(* ===== verification/Cmk_Math_Props.thy ===== *)
theory Cmk_Math_Props
  imports Cmk_Math_Levels
begin

unbundle bit_operations_syntax

text \<open>
  The properties of \<open>math(EXPR)\<close>. An expression tree is given its meaning by the checked
  operations; \<open>show_expr\<close> prints it with the fewest parentheses the precedences allow, with
  any white space before each token; parsing the text gives the meaning of the tree.
\<close>

section \<open>Expression trees\<close>

datatype mop = Mul | Div | Mod | Add | Sub | Shl | Shr | BAnd | BXor | BOr

datatype mexpr =
    Lit bool nat
  | Pos mexpr
  | Neg mexpr
  | Cpl mexpr
  | Bin mop mexpr mexpr

fun mop_level :: "mop \<Rightarrow> nat" where
  "mop_level BOr = 0" | "mop_level BXor = 1" | "mop_level BAnd = 2"
| "mop_level Shl = 3" | "mop_level Shr = 3" | "mop_level Add = 4" | "mop_level Sub = 4"
| "mop_level Mul = 5" | "mop_level Div = 5" | "mop_level Mod = 5"

fun mop_text :: "mop \<Rightarrow> string" where
  "mop_text BOr = ''|''" | "mop_text BXor = ''^''" | "mop_text BAnd = ''&''"
| "mop_text Shl = ''<<''" | "mop_text Shr = ''>>''" | "mop_text Add = ''+''" | "mop_text Sub = ''-''"
| "mop_text Mul = ''*''" | "mop_text Div = ''/''" | "mop_text Mod = ''%''"

fun mop_apply :: "mop \<Rightarrow> int \<Rightarrow> int \<Rightarrow> math_error + int" where
  "mop_apply BOr a b = Inr (a OR b)"
| "mop_apply BXor a b = Inr (a XOR b)"
| "mop_apply BAnd a b = Inr (a AND b)"
| "mop_apply Shl a b = math_shift True a b"
| "mop_apply Shr a b = math_shift False a b"
| "mop_apply Add a b = math_checked_add a b"
| "mop_apply Sub a b = math_checked_sub a b"
| "mop_apply Mul a b = math_checked_mul a b"
| "mop_apply Div a b = math_checked_div a b"
| "mop_apply Mod a b = math_checked_mod a b"

text \<open>The meaning: the first error from the left, or the value.\<close>

fun expr_value :: "mexpr \<Rightarrow> math_error + int" where
  "expr_value (Lit hex n) = Inr (int n)"
| "expr_value (Pos e) = expr_value e"
| "expr_value (Neg e) = (case expr_value e of Inl err \<Rightarrow> Inl err | Inr v \<Rightarrow> math_checked_neg v)"
| "expr_value (Cpl e) = (case expr_value e of Inl err \<Rightarrow> Inl err | Inr v \<Rightarrow> Inr (NOT v))"
| "expr_value (Bin opr l r) =
     (case expr_value l of
        Inl err \<Rightarrow> Inl err
      | Inr v \<Rightarrow> (case expr_value r of Inl err \<Rightarrow> Inl err | Inr w \<Rightarrow> mop_apply opr v w))"

fun expr_lits_ok :: "mexpr \<Rightarrow> bool" where
  "expr_lits_ok (Lit hex n) = (int n \<le> LLONG_MAX)"
| "expr_lits_ok (Pos e) = expr_lits_ok e"
| "expr_lits_ok (Neg e) = expr_lits_ok e"
| "expr_lits_ok (Cpl e) = expr_lits_ok e"
| "expr_lits_ok (Bin opr l r) = (expr_lits_ok l \<and> expr_lits_ok r)"

fun show_expr :: "string \<Rightarrow> nat \<Rightarrow> mexpr \<Rightarrow> string" where
  "show_expr sp i (Lit hex n) = sp @ (if hex then ''0x'' @ digits_of 16 n else digits_of 10 n)"
| "show_expr sp i (Pos e) = sp @ ''+'' @ show_expr sp 6 e"
| "show_expr sp i (Neg e) = sp @ ''-'' @ show_expr sp 6 e"
| "show_expr sp i (Cpl e) = sp @ ''~'' @ show_expr sp 6 e"
| "show_expr sp i (Bin opr l r) =
     (let body = show_expr sp (mop_level opr) l @ sp @ mop_text opr @ show_expr sp (Suc (mop_level opr)) r
      in if mop_level opr < i then sp @ ''('' @ body @ sp @ '')'' else body)"

section \<open>Numbers\<close>

lemma digit_char:
  assumes "d < 16"
  shows "hex_val (char_of (if d < 10 then 48 + d else 87 + d)) = int d"
    and "hex_digit (char_of (if d < 10 then 48 + d else 87 + d))"
    and "d < 10 \<Longrightarrow> c_isdigit (char_of (if d < 10 then 48 + d else 87 + d))"
    and "char_of (if d < 10 then 48 + d else 87 + d) = CHR ''0'' \<longleftrightarrow> d = 0"
  using assms
  by (auto simp: hex_val_def hex_digit_def c_isdigit_def code_inject [symmetric] simp del: of_char_eq_iff)

lemma digit_less: "2 \<le> b \<Longrightarrow> b \<le> 16 \<Longrightarrow> n mod b < b \<and> n mod b < 16" for b n :: nat
  using mod_less_divisor [of b n] by linarith

lemma base_value_snoc: "base_value b (ds @ [c]) = b * base_value b ds + hex_val c"
  by (simp add: base_value_def)

text \<open>Digits printed in a base read back as the number, and only zero starts with a zero.\<close>

lemma digits_of_value: "2 \<le> b \<Longrightarrow> b \<le> 16 \<Longrightarrow> base_value (int b) (digits_of b n) = int n"
proof (induction b n rule: digits_of.induct)
  case (1 b n)
  have d: "n mod b < 16" using digit_less 1 by blast
  have "int b * int (n div b) + int (n mod b) = int n" by (metis mult_div_mod_eq of_nat_add of_nat_mult)
  with 1 d digit_char(1) [OF d] show ?case
    by (cases "n < b") (auto simp: digits_of.simps [of b n] base_value_snoc Let_def base_value_def)
qed

lemma digits_of_set:
  "2 \<le> b \<Longrightarrow> b \<le> 16 \<Longrightarrow> c \<in> set (digits_of b n) \<Longrightarrow> hex_digit c \<and> (b \<le> 10 \<longrightarrow> c_isdigit c)"
proof (induction b n rule: digits_of.induct)
  case (1 b n)
  have m: "n mod b < b" and d: "n mod b < 16" using digit_less 1 by blast+
  have "hex_digit (char_of (if n mod b < 10 then 48 + n mod b else 87 + n mod b)) \<and>
     (b \<le> 10 \<longrightarrow> c_isdigit (char_of (if n mod b < 10 then 48 + n mod b else 87 + n mod b)))"
    using digit_char(2,3) [OF d] m by (meson less_le_trans)
  with 1 show ?case by (auto simp: digits_of.simps [of b n] Let_def split: if_splits)
qed

lemma digits_of_not_Nil [simp]: "digits_of b n \<noteq> []"
  by (simp add: digits_of.simps [of b n] Let_def)

lemma digits_of_hd: "2 \<le> b \<Longrightarrow> b \<le> 16 \<Longrightarrow> hd (digits_of b n) = CHR ''0'' \<longleftrightarrow> n = 0"
proof (induction b n rule: digits_of.induct)
  case (1 b n)
  have d: "n mod b < 16" using digit_less 1 by blast
  show ?case
  proof (cases "n < b")
    case True
    then show ?thesis using digit_char(4) [OF d] by (auto simp: digits_of.simps [of b n] Let_def)
  next
    case False
    then have "n div b \<noteq> 0" using 1 by (simp add: div_eq_0_iff)
    then show ?thesis using 1 False by (simp add: digits_of.simps [of b n] Let_def)
  qed
qed

lemma c_strtoll0_print:
  assumes "rest = [] \<or> \<not> c_isalnum (hd rest)"
  shows "c_strtoll0 ((if hex then ''0x'' @ digits_of 16 n else digits_of 10 n) @ rest) = Some (int n, rest)"
proof (cases hex)
  case True
  have hd: "hd (digits_of 16 n @ rest) \<in> set (digits_of 16 n)" by simp
  have "\<not> hex_digit (hd rest)" if "rest \<noteq> []"
    using assms that by (auto simp: hex_digit_def c_isalnum_def c_isalpha_def c_islower_def c_isupper_def)
  then have rest: "takeWhile hex_digit rest = []" "dropWhile hex_digit rest = rest"
    by (cases rest; simp)+
  have all: "\<forall>c\<in>set (digits_of 16 n). hex_digit c" using digits_of_set [of 16] by simp
  show ?thesis using True all hd rest digits_of_value [of 16 n]
    by (simp add: c_strtoll0_def takeWhile_append2 dropWhile_append2)
next
  case False
  have "\<not> c_isdigit (hd rest)" "\<not> oct_digit (hd rest)" "hd rest \<noteq> CHR ''x''" "hd rest \<noteq> CHR ''X''" if "rest \<noteq> []"
    using assms that by (auto simp: c_isdigit_def oct_digit_def c_isalnum_def c_isalpha_def c_islower_def c_isupper_def)
  then have rest: "takeWhile c_isdigit rest = []" "dropWhile c_isdigit rest = rest"
    "takeWhile oct_digit rest = []" "dropWhile oct_digit rest = rest"
    "rest \<noteq> [] \<longrightarrow> hd rest \<noteq> CHR ''x'' \<and> hd rest \<noteq> CHR ''X''"
    by (cases rest; simp)+
  have all: "\<forall>c\<in>set (digits_of 10 n). c_isdigit c" using digits_of_set [of 10] by simp
  show ?thesis
  proof (cases "n = 0")
    case True
    have "digits_of 10 0 = ''0''"
      by (simp add: digits_of.simps [of 10 0] code_inject [symmetric] del: of_char_eq_iff)
    then show ?thesis using False True rest
      by (auto simp: c_strtoll0_def oct_digit_def base_value_def hex_val_def c_isdigit_def)
  next
    case nz: False
    then have "hd (digits_of 10 n) \<noteq> CHR ''0''" using digits_of_hd [of 10 n] by simp
    then obtain c u where cu: "digits_of 10 n = c # u" "c \<noteq> CHR ''0''" by (cases "digits_of 10 n") auto
    have "takeWhile c_isdigit (digits_of 10 n @ rest) = digits_of 10 n"
      "dropWhile c_isdigit (digits_of 10 n @ rest) = rest"
      using all rest by (simp_all add: takeWhile_append2 dropWhile_append2)
    moreover have "c_isdigit c" using all cu by simp
    ultimately show ?thesis using False cu digits_of_value [of 10 n] by (simp add: c_strtoll0_def)
  qed
qed

section \<open>The levels, by number\<close>

abbreviation "OPS_TERM \<equiv> [CHR ''*'', CHR ''/'', CHR ''%'']"
abbreviation "OPS_ADD \<equiv> [CHR ''+'', CHR ''-'']"

definition math_at :: "nat \<Rightarrow> math_parser" where
  "math_at i =
     ([math_parse_bitor, math_parse_bitxor, math_parse_bitand, math_parse_shift, math_parse_addsub,
      math_parse_term, math_parse_factor] ! i) math_parse_expr"

text \<open>What a level does after its first operand.\<close>

definition math_rest :: "nat \<Rightarrow> int \<Rightarrow> string \<Rightarrow> math_result" where
  "math_rest i =
     [math_tail (look_char [CHR ''|'']) (math_parse_bitxor math_parse_expr) (\<lambda>_ a b. Inr (a OR b)),
      math_tail (look_char [CHR ''^'']) (math_parse_bitand math_parse_expr) (\<lambda>_ a b. Inr (a XOR b)),
      math_tail (look_char [CHR ''&'']) (math_parse_shift math_parse_expr) (\<lambda>_ a b. Inr (a AND b)),
      math_tail look_shift (math_parse_addsub math_parse_expr) math_shift,
      math_tail (look_char OPS_ADD) (math_parse_term math_parse_expr) apply_addsub,
      math_tail (look_char OPS_TERM) (math_parse_factor math_parse_expr) apply_term,
      \<lambda>v s. Inr (v, s)] ! i"

lemmas level_defs = math_at_def math_rest_def

lemma level_cases: "i < 6 \<Longrightarrow> i = 0 \<or> i = 1 \<or> i = 2 \<or> i = 3 \<or> i = 4 \<or> i = 5" for i :: nat
  by arith

lemma math_parse_levels:
  "math_parse_bitor pe s =
     (case math_parse_bitxor pe s of Inl e \<Rightarrow> Inl e
      | Inr (v, t) \<Rightarrow> math_tail (look_char [CHR ''|'']) (math_parse_bitxor pe) (\<lambda>_ a b. Inr (a OR b)) v t)"
  "math_parse_bitxor pe s =
     (case math_parse_bitand pe s of Inl e \<Rightarrow> Inl e
      | Inr (v, t) \<Rightarrow> math_tail (look_char [CHR ''^'']) (math_parse_bitand pe) (\<lambda>_ a b. Inr (a XOR b)) v t)"
  "math_parse_bitand pe s =
     (case math_parse_shift pe s of Inl e \<Rightarrow> Inl e
      | Inr (v, t) \<Rightarrow> math_tail (look_char [CHR ''&'']) (math_parse_shift pe) (\<lambda>_ a b. Inr (a AND b)) v t)"
  "math_parse_shift pe s =
     (case math_parse_addsub pe s of Inl e \<Rightarrow> Inl e
      | Inr (v, t) \<Rightarrow> math_tail look_shift (math_parse_addsub pe) math_shift v t)"
  "math_parse_addsub pe s =
     (case math_parse_term pe s of Inl e \<Rightarrow> Inl e
      | Inr (v, t) \<Rightarrow> math_tail (look_char OPS_ADD) (math_parse_term pe) apply_addsub v t)"
  "math_parse_term pe s =
     (case math_parse_factor pe s of Inl e \<Rightarrow> Inl e
      | Inr (v, t) \<Rightarrow> math_tail (look_char OPS_TERM) (math_parse_factor pe) apply_term v t)"
  by (simp_all only: math_parse_bitor_def math_parse_bitxor_def math_parse_bitand_def
      math_parse_shift_def math_parse_addsub_def math_parse_term_def math_level_tail)

lemma math_at_step:
  "i < 6 \<Longrightarrow> math_at i s = (case math_at (Suc i) s of Inl e \<Rightarrow> Inl e | Inr (v, t) \<Rightarrow> math_rest i v t)"
proof -
  assume "i < 6"
  then consider "i = 0" | "i = 1" | "i = 2" | "i = 3" | "i = 4" | "i = 5" by arith
  then show ?thesis
  proof cases
    case 1 then show ?thesis by (auto simp: level_defs math_parse_levels(1) split: sum.split)
  next
    case 2 then show ?thesis by (auto simp: level_defs math_parse_levels(2) split: sum.split)
  next
    case 3 then show ?thesis by (auto simp: level_defs math_parse_levels(3) split: sum.split)
  next
    case 4 then show ?thesis by (auto simp: level_defs math_parse_levels(4) split: sum.split)
  next
    case 5 then show ?thesis by (auto simp: level_defs math_parse_levels(5) split: sum.split)
  next
    case 6 then show ?thesis by (auto simp: level_defs math_parse_levels(6) split: sum.split)
  qed
qed

lemma math_rest_skip: "i < 6 \<Longrightarrow> math_rest i v (math_skip_ws s) = math_rest i v s"
  by (drule level_cases, elim disjE)
    (simp_all add: level_defs expr.trm.math_tail_skip expr.addsub.math_tail_skip
      expr.shift.math_tail_skip expr.bitand.math_tail_skip expr.bitxor.math_tail_skip expr.bitor.math_tail_skip)

lemmas math_tail_recs = expr.trm.math_tail_rec expr.addsub.math_tail_rec
  expr.shift.math_tail_rec expr.bitand.math_tail_rec expr.bitxor.math_tail_rec expr.bitor.math_tail_rec

text \<open>At an operator of its own level a loop goes on, at anything else of the text it stops.\<close>

lemma math_rest_op:
  assumes "math_skip_ws s = mop_text opr @ u"
  shows "math_rest (mop_level opr) v s =
     (case math_at (Suc (mop_level opr)) u of
        Inl e \<Rightarrow> Inl e
      | Inr (w, t) \<Rightarrow>
          (case mop_apply opr v w of Inl e \<Rightarrow> Inl e | Inr x \<Rightarrow> math_rest (mop_level opr) x t))"
  using assms
  by (cases opr) (auto simp: level_defs math_tail_recs [of _ s] look_char_def look_shift_def
      apply_term_def apply_addsub_def split: sum.split)

definition stops :: "nat \<Rightarrow> string \<Rightarrow> bool" where
  "stops i s \<longleftrightarrow>
     math_skip_ws s = [] \<or> hd (math_skip_ws s) = CHR '')'' \<or>
     (\<exists>opr u. math_skip_ws s = mop_text opr @ u \<and> mop_level opr < i)"

lemma math_rest_stop: "i < 6 \<Longrightarrow> stops i s \<Longrightarrow> math_rest i v s = Inr (v, math_skip_ws s)"
proof -
  have op: "math_rest i v s = Inr (v, math_skip_ws s)"
    if "i < 6" "math_skip_ws s = mop_text opr @ u" "mop_level opr < i" for opr u
    using that(2,3) level_cases [OF that(1)]
    by (cases opr; elim disjE)
      (auto simp: level_defs math_tail_recs [of _ s] look_char_def look_shift_def split: list.split)
  have par: "math_rest i v s = Inr (v, math_skip_ws s)" if "i < 6" "math_skip_ws s = [] \<or> math_skip_ws s = CHR '')'' # u" for u
    using that(2) level_cases [OF that(1)]
    by (elim disjE) (auto simp: level_defs math_tail_recs [of _ s] look_char_def look_shift_def split: list.split)
  show "i < 6 \<Longrightarrow> stops i s \<Longrightarrow> math_rest i v s = Inr (v, math_skip_ws s)"
    unfolding stops_def by (metis op par list.collapse)
qed

lemma stops_mono: "stops i s \<Longrightarrow> i \<le> j \<Longrightarrow> stops j s"
  unfolding stops_def by (meson less_le_trans)

lemma math_rest_6: "math_rest 6 v s = Inr (v, s)"
  by (simp add: math_rest_def)

text \<open>Where the next level stopped, this level goes on as from the same place.\<close>

lemma math_rest_next:
  assumes "k < 6" "stops (Suc k) s"
  obtains t where "math_rest (Suc k) w s = Inr (w, t)" "\<And>x. math_rest k x t = math_rest k x s"
proof (cases "Suc k < 6")
  case True
  then show ?thesis using assms that math_rest_stop [of "Suc k" s w] math_rest_skip by simp
next
  case False
  then have "Suc k = 6" using assms(1) by simp
  then show ?thesis using that math_rest_6 by simp
qed

lemma math_at_down:
  assumes "i \<le> j" "j \<le> 6" "stops (Suc i) rest"
    and "math_at j s = (case r of Inl e \<Rightarrow> Inl e | Inr v \<Rightarrow> math_rest j v rest)"
  shows "math_at i s = (case r of Inl e \<Rightarrow> Inl e | Inr v \<Rightarrow> math_rest i v rest)"
  using assms(1)
proof (induction rule: inc_induct)
  case base
  show ?case by (rule assms(4))
next
  case (step n)
  have n: "n < 6" "stops (Suc n) rest" using step.hyps assms stops_mono [of "Suc i" rest "Suc n"] by auto
  show ?case
  proof (cases r)
    case (Inr v)
    obtain t where "math_rest (Suc n) v rest = Inr (v, t)" "math_rest n v t = math_rest n v rest"
      using math_rest_next [OF n] by metis
    then show ?thesis using step.IH Inr by (simp add: math_at_step [OF n(1)])
  qed (use step.IH in \<open>simp add: math_at_step [OF n(1)]\<close>)
qed

section \<open>Parsing the printed text\<close>

abbreviation all_space :: "string \<Rightarrow> bool" where "all_space sp \<equiv> (\<forall>c\<in>set sp. c_isspace c)"

lemma skip_space: "all_space sp \<Longrightarrow> math_skip_ws (sp @ s) = math_skip_ws s"
  by (simp add: math_skip_ws_def dropWhile_append2)

lemma skip_token: "\<not> c_isspace c \<Longrightarrow> math_skip_ws (c # s) = c # s"
  by (simp add: math_skip_ws_def)

lemma skip_op: "math_skip_ws (mop_text opr @ s) = mop_text opr @ s"
  by (cases opr) (simp_all add: skip_token c_isspace_def)

lemma stops_not_alnum: "stops i s \<Longrightarrow> s = [] \<or> \<not> c_isalnum (hd s)"
proof (cases s)
  case (Cons c u)
  assume st: "stops i s"
  have chars: "\<not> c_isalnum (CHR '')'')" "\<And>opr u. \<not> c_isalnum (hd (mop_text opr @ u))"
    by (simp add: c_isalnum_def c_isalpha_def c_isupper_def c_islower_def c_isdigit_def)
      (case_tac opr; simp add: c_isalnum_def c_isalpha_def c_isupper_def c_islower_def c_isdigit_def)
  show ?thesis
  proof (cases "c_isspace c")
    case True
    then show ?thesis
      using Cons by (auto simp: c_isalnum_def c_isalpha_def c_isupper_def c_islower_def c_isdigit_def c_isspace_def)
  next
    case False
    then have "math_skip_ws s = s" using Cons by (simp add: skip_token)
    then show ?thesis using st Cons chars unfolding stops_def by metis
  qed
qed simp

lemma stops_close: "all_space sp \<Longrightarrow> stops i (sp @ CHR '')'' # s)"
  by (simp add: stops_def skip_space skip_token c_isspace_def)

lemma stops_op: "all_space sp \<Longrightarrow> mop_level opr < i \<Longrightarrow> stops i (sp @ mop_text opr @ s)"
  unfolding stops_def by (auto simp: skip_space skip_op)

lemma factor_literal:
  assumes sp: "all_space sp" and n: "int n \<le> LLONG_MAX" and st: "stops i rest"
  shows "math_parse_factor pe (show_expr sp j (Lit hex n) @ rest) = Inr (int n, rest)"
proof -
  define d where "d = (if hex then ''0x'' @ digits_of 16 n else digits_of 10 n)"
  have "c_isdigit (CHR ''0'')" by (simp add: c_isdigit_def)
  moreover have "c_isdigit (hd (digits_of 10 n))" using digits_of_set [of 10 "hd (digits_of 10 n)" n] by simp
  ultimately have "d \<noteq> []" "c_isdigit (hd d)" by (simp_all add: d_def)
  then obtain c u where d: "d = c # u" "c_isdigit c" by (cases d) auto
  then have c: "\<not> c_isspace c" "c \<notin> {CHR ''('', CHR ''+'', CHR ''-'', CHR ''~''}"
    by (auto simp: c_isdigit_def c_isspace_def)
  have "show_expr sp j (Lit hex n) = sp @ d" by (simp add: d_def)
  then have skip: "math_skip_ws (show_expr sp j (Lit hex n) @ rest) = c # u @ rest"
    using d c by (simp add: skip_space [OF sp] skip_token)
  have "c_strtoll0 (c # u @ rest) = Some (int n, rest)"
    using c_strtoll0_print [OF stops_not_alnum [OF st], of hex n] d unfolding d_def [symmetric] by simp
  then have "math_parse_number (c # u @ rest) = Inr (int n, rest)"
    using n c(1) by (simp add: math_parse_number_def skip_token)
  with skip c(2) show ?thesis by (simp add: factor_number)
qed

lemma math_at_6: "math_at 6 = math_parse_factor math_parse_expr" and math_at_0: "math_at 0 = math_parse_expr"
  by (auto simp: math_at_def math_parse_expr_rec [symmetric])

text \<open>From the factor level down to any other.\<close>

lemma math_at_factor:
  assumes "i \<le> 6" "stops (Suc i) rest"
    and "math_parse_factor math_parse_expr s = (case r of Inl e \<Rightarrow> Inl e | Inr v \<Rightarrow> Inr (v, rest))"
  shows "math_at i s = (case r of Inl e \<Rightarrow> Inl e | Inr v \<Rightarrow> math_rest i v rest)"
  using math_at_down [of i 6 rest s r] assms by (auto simp: math_at_6 math_rest_6 split: sum.split)

lemma math_at_bin:
  assumes sp: "all_space sp" and st: "stops (Suc (mop_level opr)) rest"
    and l: "\<And>rest. stops (Suc (mop_level opr)) rest \<Longrightarrow> math_at (mop_level opr) (L @ rest) =
        (case lv of Inl e \<Rightarrow> Inl e | Inr v \<Rightarrow> math_rest (mop_level opr) v rest)"
    and r: "math_at (Suc (mop_level opr)) (R @ rest) =
        (case rv of Inl e \<Rightarrow> Inl e | Inr v \<Rightarrow> math_rest (Suc (mop_level opr)) v rest)"
  shows "math_at (mop_level opr) ((L @ sp @ mop_text opr @ R) @ rest) =
      (case (case lv of Inl err \<Rightarrow> Inl err
             | Inr v \<Rightarrow> (case rv of Inl err \<Rightarrow> Inl err | Inr w \<Rightarrow> mop_apply opr v w)) of
         Inl e \<Rightarrow> Inl e | Inr v \<Rightarrow> math_rest (mop_level opr) v rest)"
proof -
  let ?k = "mop_level opr" and ?rest = "sp @ mop_text opr @ R @ rest"
  have k: "?k < 6" by (cases opr) simp_all
  have "math_rest ?k v ?rest =
      (case rv of Inl e \<Rightarrow> Inl e
       | Inr w \<Rightarrow> (case mop_apply opr v w of Inl e \<Rightarrow> Inl e | Inr x \<Rightarrow> math_rest ?k x rest))" for v
  proof (cases rv)
    case (Inl e)
    then show ?thesis using r by (simp add: math_rest_op [where u = "R @ rest"] skip_space [OF sp] skip_op)
  next
    case (Inr w)
    obtain t where "math_rest (Suc ?k) w rest = Inr (w, t)" "\<And>x. math_rest ?k x t = math_rest ?k x rest"
      using math_rest_next [OF k st] by metis
    then show ?thesis using r Inr
      by (auto simp: math_rest_op [where u = "R @ rest"] skip_space [OF sp] skip_op split: sum.split)
  qed
  then show ?thesis using l [of ?rest] sp by (cases lv; cases rv) (simp_all add: stops_op)
qed

lemma factor_parenthesis:
  assumes sp: "all_space sp"
    and "math_at 0 (b @ sp @ CHR '')'' # rest) =
       (case r of Inl e \<Rightarrow> Inl e | Inr v \<Rightarrow> math_rest 0 v (sp @ CHR '')'' # rest))"
  shows "math_parse_factor math_parse_expr ((sp @ ''('' @ b @ sp @ '')'') @ rest) =
       (case r of Inl e \<Rightarrow> Inl e | Inr v \<Rightarrow> Inr (v, rest))"
proof -
  have "math_skip_ws ((sp @ ''('' @ b @ sp @ '')'') @ rest) = CHR ''('' # b @ sp @ CHR '')'' # rest"
    by (simp add: skip_space [OF sp] skip_token c_isspace_def)
  moreover have "math_rest 0 v (sp @ CHR '')'' # rest) = Inr (v, CHR '')'' # rest)" for v
    using math_rest_stop [OF _ stops_close [OF sp], of 0 v rest]
    by (simp add: skip_space [OF sp] skip_token c_isspace_def)
  ultimately show ?thesis using assms(2)
    by (cases r) (simp_all add: factor_paren math_at_0 skip_token c_isspace_def)
qed

lemma math_at_show_expr:
  assumes sp: "all_space sp"
  shows "expr_lits_ok e \<Longrightarrow> i \<le> 6 \<Longrightarrow> stops (Suc i) rest \<Longrightarrow>
    math_at i (show_expr sp i e @ rest) =
      (case expr_value e of Inl err \<Rightarrow> Inl err | Inr v \<Rightarrow> math_rest i v rest)"
proof (induction e arbitrary: i rest)
  case (Lit hex n)
  then show ?case using factor_literal [OF sp, of n "Suc i" rest math_parse_expr i hex]
    by (intro math_at_factor) (auto simp del: show_expr.simps)
next
  case (Pos e)
  have "stops 7 rest" using stops_mono Pos.prems by simp
  then have "math_parse_factor math_parse_expr (show_expr sp 6 e @ rest) =
      (case expr_value e of Inl err \<Rightarrow> Inl err | Inr v \<Rightarrow> Inr (v, rest))"
    using Pos.IH [of 6 rest] Pos.prems by (auto simp: math_at_6 math_rest_6 split: sum.splits)
  then show ?case using Pos.prems
    by (intro math_at_factor) (simp_all add: skip_space [OF sp] skip_token c_isspace_def factor_plus)
next
  case (Neg e)
  have "stops 7 rest" using stops_mono Neg.prems by simp
  then have "math_parse_factor math_parse_expr (show_expr sp 6 e @ rest) =
      (case expr_value e of Inl err \<Rightarrow> Inl err | Inr v \<Rightarrow> Inr (v, rest))"
    using Neg.IH [of 6 rest] Neg.prems by (auto simp: math_at_6 math_rest_6 split: sum.splits)
  then show ?case using Neg.prems
    by (intro math_at_factor) (auto simp: skip_space [OF sp] skip_token c_isspace_def factor_minus
        math_checked_neg_def split: sum.split)
next
  case (Cpl e)
  have "stops 7 rest" using stops_mono Cpl.prems by simp
  then have "math_parse_factor math_parse_expr (show_expr sp 6 e @ rest) =
      (case expr_value e of Inl err \<Rightarrow> Inl err | Inr v \<Rightarrow> Inr (v, rest))"
    using Cpl.IH [of 6 rest] Cpl.prems by (auto simp: math_at_6 math_rest_6 split: sum.splits)
  then show ?case using Cpl.prems
    by (intro math_at_factor) (auto simp: skip_space [OF sp] skip_token c_isspace_def factor_not
        split: sum.split)
next
  case (Bin opr l r)
  let ?k = "mop_level opr"
  let ?body = "show_expr sp ?k l @ sp @ mop_text opr @ show_expr sp (Suc ?k) r"
  let ?val = "expr_value (Bin opr l r)"
  have k: "?k < 6" by (cases opr) simp_all
  have core: "math_at ?k (?body @ rest) = (case ?val of Inl e \<Rightarrow> Inl e | Inr v \<Rightarrow> math_rest ?k v rest)"
    if "stops (Suc ?k) rest" for rest
    unfolding expr_value.simps using k Bin.prems(1) that stops_mono [OF that, of "Suc (Suc ?k)"]
    by (intro math_at_bin sp Bin.IH) simp_all
  show ?case
  proof (cases "?k < i")
    case True
    have "math_at 0 (?body @ sp @ CHR '')'' # rest) =
        (case ?val of Inl e \<Rightarrow> Inl e | Inr v \<Rightarrow> math_rest 0 v (sp @ CHR '')'' # rest))"
      by (rule math_at_down [of 0 ?k]) (use k core stops_close [OF sp] in auto)
    from factor_parenthesis [OF sp this] show ?thesis using True Bin.prems
      by (intro math_at_factor) (simp_all add: Let_def)
  next
    case False
    then have "math_at i (?body @ rest) = (case ?val of Inl e \<Rightarrow> Inl e | Inr v \<Rightarrow> math_rest i v rest)"
      by (intro math_at_down [of i ?k]) (use k core Bin.prems stops_mono in auto)
    then show ?thesis using False by (simp add: Let_def)
  qed
qed

text \<open>No NUL byte in a printed expression: the C string is the whole text.\<close>

lemma show_expr_no_NUL: "all_space sp \<Longrightarrow> NUL \<notin> set (show_expr sp i e)"
proof (induction e arbitrary: i)
  case (Lit hex n)
  have "NUL \<notin> set (digits_of b n)" if "2 \<le> b" "b \<le> 16" for b
    using digits_of_set [OF that, of NUL n] by (auto simp: hex_digit_def c_isdigit_def)
  with Lit show ?case by (auto simp: c_isspace_def)
next
  case (Bin opr l r)
  have "NUL \<notin> set (mop_text opr)" by (cases opr) simp_all
  with Bin show ?case by (auto simp: Let_def c_isspace_def)
qed (auto simp: c_isspace_def)

lemma math_parse_expr_show:
  assumes "all_space sp" "all_space sp'" "expr_lits_ok e"
  shows "math_parse_expr (show_expr sp 0 e @ sp') =
    (case expr_value e of Inl err \<Rightarrow> Inl err | Inr v \<Rightarrow> Inr (v, []))"
proof -
  have ws: "math_skip_ws sp' = []" using assms(2) by (simp add: math_skip_ws_def)
  then have "stops i sp'" for i by (simp add: stops_def)
  then show ?thesis
    using math_at_show_expr [OF assms(1,3), of 0 sp'] math_rest_stop [of 0 sp'] ws
    by (auto simp: math_at_0 split: sum.split)
qed

lemma drop_bit_max: "0 \<le> a \<Longrightarrow> drop_bit n LLONG_MAX < a \<longleftrightarrow> LLONG_MAX < a * 2 ^ n"
  using le_div_mult [of "2 ^ n" a LLONG_MAX] by (auto simp: drop_bit_eq_div)

lemma math_shl_exact:
  assumes "in_range a" "0 \<le> a" "0 \<le> b" "b < 64"
  shows "math_shift True a b =
      (if in_range (a * 2 ^ nat b) then Inr (a * 2 ^ nat b) else Inl [''Integer overflow in left shift''])"
proof -
  have "LLONG_MIN \<le> a * 2 ^ nat b" using assms(2) by (intro mul_nonneg_range) simp
  then have r: "in_range (a * 2 ^ nat b) \<longleftrightarrow> \<not> drop_bit (nat b) LLONG_MAX < a"
    using drop_bit_max [OF assms(2), of "nat b"] by (auto simp: in_range_def)
  show ?thesis
  proof (cases "in_range (a * 2 ^ nat b)")
    case True
    then have "to_llong (push_bit (nat b) a) = a * 2 ^ nat b"
      by (simp add: in_range_iff push_bit_eq_mult)
    with True r assms show ?thesis by (simp add: math_shift_def)
  next
    case False
    moreover from this have "b \<noteq> 0" using assms(1) by auto
    ultimately show ?thesis using r assms by (simp add: math_shift_def)
  qed
qed

section \<open>Properties\<close>

text \<open>
  C17. \<open>math(EXPR)\<close> evaluates expressions. The text of any expression tree, printed with the
  fewest parentheses the precedences and the left associativity of the operators allow, with
  any white space before each token and at the end, makes the command store the value of the
  tree in the output format, or report the first error of the checked operations and store
  nothing.
\<close>

theorem math_expr_evaluates:
  assumes "\<forall>c\<in>set sp. c_isspace c" "\<forall>c\<in>set sp'. c_isspace c" "expr_lits_ok e"
  shows "math_finish out_var (show_expr sp 0 e @ sp') fmt =
    (case expr_value e of
       Inl causes \<Rightarrow> Math_Error causes False
     | Inr v \<Rightarrow> Math_Set out_var (if fmt = MATH_OUTPUT_HEXADECIMAL then show_hex v else show_lld v) fmt)"
proof -
  have "c_str (show_expr sp 0 e @ sp') = show_expr sp 0 e @ sp'"
    using show_expr_no_NUL [OF assms(1)] assms(2) by (intro c_str_id) (auto simp: c_isspace_def)
  then show ?thesis using math_parse_expr_show [OF assms]
    by (auto simp: math_finish_def math_skip_ws_def split: sum.split)
qed

lemma math_expr_evaluates_witness:
  "math_finish ''R'' '' ( 1 - 2 - 3 ) * - 0x1f '' MATH_OUTPUT_HEXADECIMAL =
     Math_Set ''R'' ''0x7c'' MATH_OUTPUT_HEXADECIMAL"
proof -
  let ?e = "Bin Mul (Bin Sub (Bin Sub (Lit False 1) (Lit False 2)) (Lit False 3)) (Neg (Lit True 31))"
  have "show_expr '' '' 0 ?e @ '' '' = '' ( 1 - 2 - 3 ) * - 0x1f ''" by code_simp
  moreover have "expr_value ?e = Inr 124" by code_simp
  moreover have "show_hex 124 = ''0x7c''" by code_simp
  moreover have "\<forall>c\<in>set '' ''. c_isspace c" "expr_lits_ok ?e" by code_simp+
  ultimately show ?thesis
    using math_expr_evaluates [of "'' ''" "'' ''" ?e "''R''" MATH_OUTPUT_HEXADECIMAL] by simp
qed

text \<open>
  C38. The arithmetic is exact or refused: on operands in range, negation, addition,
  subtraction and multiplication return the exact result when it fits in 64 bits and the
  overflow error otherwise; division truncates and fails exactly on a zero divisor or when the
  quotient does not fit; the left shift of a non-negative number returns the exact product by
  the power of two or the error.
\<close>

theorem math_checked_ops_exact:
  assumes "LLONG_MIN \<le> a" "a \<le> LLONG_MAX" "LLONG_MIN \<le> b" "b \<le> LLONG_MAX"
  shows "math_checked_neg a = (if in_range (- a) then Inr (- a) else Inl [''Integer overflow in unary minus'']) \<and>
    math_checked_add a b = (if in_range (a + b) then Inr (a + b) else Inl [''Integer overflow in addition'']) \<and>
    math_checked_sub a b = (if in_range (a - b) then Inr (a - b) else Inl [''Integer overflow in subtraction'']) \<and>
    math_checked_mul a b = (if in_range (a * b) then Inr (a * b) else Inl [''Integer overflow in multiplication'']) \<and>
    math_checked_div a b =
      (if b = 0 then Inl [''Division by zero'']
       else if in_range (a sdiv b) then Inr (a sdiv b) else Inl [''Integer overflow in division'']) \<and>
    (0 \<le> a \<and> 0 \<le> b \<and> b < 64 \<longrightarrow> math_shift True a b =
      (if in_range (a * 2 ^ nat b) then Inr (a * 2 ^ nat b) else Inl [''Integer overflow in left shift'']))"
proof -
  have a: "in_range a" and b: "in_range b" using assms by (simp_all add: in_range_def)
  have "math_checked_div a b =
      (if b = 0 then Inl [''Division by zero'']
       else if in_range (a sdiv b) then Inr (a sdiv b) else Inl [''Integer overflow in division''])"
    using sdiv_in_range [OF a, of b]
    by (auto simp: math_checked_div_def in_range_def llong_defs signed_divide_int_def)
  then show ?thesis using math_checked_neg_exact [OF a] math_checked_add_exact [OF a b]
      math_checked_sub_exact [OF a b] math_checked_mul_exact [OF a b] math_shl_exact [OF a, of b]
    by blast
qed

text \<open>
  A successful parse yields a value that fits in a \<open>long long\<close> and leaves a proper suffix
  of the text, whatever the text.
\<close>

theorem math_value_in_range:
  assumes "math_parse_expr s = Inr (v, t)"
  shows "LLONG_MIN \<le> v \<and> v \<le> LLONG_MAX \<and> strict_suffix t s"
  using good_parserD [OF expr.pe_good assms] by (simp add: in_range_def)

lemma math_value_in_range_witness:
  "math_parse_expr ''7%-4)'' = Inr (3, '')'') \<and> strict_suffix '')'' ''7%-4)''"
proof -
  have "math_parse_expr ''7%-4)'' = Inr (3, '')'')" by code_simp
  with math_value_in_range [OF this] show ?thesis by blast
qed

lemma math_checked_ops_exact_witness:
  "math_checked_mul 4294967296 (- 2147483648) = Inr (- 9223372036854775808) \<and>
   math_checked_add 4294967296 (- 2147483648) = Inr 2147483648"
  using math_checked_ops_exact [of 4294967296 "- 2147483648"] by (simp add: in_range_def llong_defs)

text \<open>
  The seven parsing functions are those of the C file: \<open>math_parse_expr\<close> is
  \<open>math_parse_bitor\<close> over itself, and after its first operand every binary level is the
  \<open>for (;;)\<close> loop of the code, which no bound ever cuts short.
\<close>

definition is_c_loop ::
  "(string \<Rightarrow> ('op \<times> string) option) \<Rightarrow> math_parser \<Rightarrow> ('op \<Rightarrow> int \<Rightarrow> int \<Rightarrow> math_error + int) \<Rightarrow> bool" where
  "is_c_loop look sub ap \<longleftrightarrow>
     (\<forall>out s. math_tail look sub ap out s =
        (case look (math_skip_ws s) of
           None \<Rightarrow> Inr (out, math_skip_ws s)
         | Some (opr, t) \<Rightarrow>
             (case sub t of
                Inl e \<Rightarrow> Inl e
              | Inr (rhs, u) \<Rightarrow>
                  (case ap opr out rhs of Inl e \<Rightarrow> Inl e | Inr v \<Rightarrow> math_tail look sub ap v u))))"

theorem math_functions_are_the_c_functions:
  "(\<forall>s. math_parse_expr s = math_parse_bitor math_parse_expr s) \<and>
   is_c_loop (look_char [CHR ''|'']) (math_parse_bitxor math_parse_expr) (\<lambda>_ a b. Inr (a OR b)) \<and>
   is_c_loop (look_char [CHR ''^'']) (math_parse_bitand math_parse_expr) (\<lambda>_ a b. Inr (a XOR b)) \<and>
   is_c_loop (look_char [CHR ''&'']) (math_parse_shift math_parse_expr) (\<lambda>_ a b. Inr (a AND b)) \<and>
   is_c_loop look_shift (math_parse_addsub math_parse_expr) math_shift \<and>
   is_c_loop (look_char OPS_ADD) (math_parse_term math_parse_expr) apply_addsub \<and>
   is_c_loop (look_char OPS_TERM) (math_parse_factor math_parse_expr) apply_term"
  unfolding is_c_loop_def
  by (intro conjI allI math_parse_expr_rec expr.bitor.math_tail_rec expr.bitxor.math_tail_rec
      expr.bitand.math_tail_rec expr.shift.math_tail_rec expr.addsub.math_tail_rec expr.trm.math_tail_rec)

text \<open>
  What the command prints can be used in an expression again: every value but
  \<open>LLONG_MIN\<close>, printed in decimal, reads back as itself; so does a non-negative value printed
  in hexadecimal.
\<close>

theorem math_output_reads_back:
  assumes "LLONG_MIN < v" "v \<le> LLONG_MAX"
  shows "math_parse_expr (show_lld v) = Inr (v, []) \<and>
    (0 \<le> v \<longrightarrow> math_parse_expr (show_hex v) = Inr (v, []))"
proof
  show "math_parse_expr (show_lld v) = Inr (v, [])"
  proof (cases "v < 0")
    case True
    then show ?thesis using assms math_parse_expr_show [of "[]" "[]" "Neg (Lit False (nat (- v)))"]
      by (simp add: show_lld_def math_checked_neg_def llong_defs)
  next
    case False
    then show ?thesis using assms math_parse_expr_show [of "[]" "[]" "Lit False (nat v)"]
      by (simp add: show_lld_def)
  qed
  show "0 \<le> v \<longrightarrow> math_parse_expr (show_hex v) = Inr (v, [])"
    using assms math_parse_expr_show [of "[]" "[]" "Lit True (nat v)"]
    by (simp add: show_hex_def llong_defs)
qed

lemma math_output_reads_back_witness: "math_parse_expr (show_lld (- 42)) = Inr (- 42, [])"
  using math_output_reads_back [of "- 42"] by (simp add: llong_defs)

text \<open>
  Two limits of the command. The smallest value cannot be read back, since its digits alone
  are out of range; and the overflow test of the left shift covers non-negative operands only,
  so that a negative one loses its high bits without a report.
\<close>

lemma math_min_not_readable:
  "math_parse_expr ''-9223372036854775808'' =
     Inl [''Integer literal out of range in expression'', ''Invalid numeric token in expression'']"
  by code_simp

lemma math_shl_negative_wraps:
  "math_parse_expr ''-3<<63'' = Inr (- 9223372036854775808, []) \<and>
   math_parse_expr ''3<<63'' = Inl [''Integer overflow in left shift'']"
  by code_simp

end
