(* ===== verification/Bm_Records.thy ===== *)
theory Bm_Records
  imports Nob_Prelude
begin

text \<open>
  The records of the build model, \<open>src_v2/build_model/build_model_internal.h\<close> and
  \<open>build_model_types.h\<close>. Arrays are lists, identifiers are indices with \<open>UINT32_MAX\<close> for none,
  and the kinds are datatypes: that a kind is one of its enumeration's constants, which the
  validator also tests, is a matter of types here. A kind of event is its label in
  \<open>EVENT_KIND_LIST\<close>. Left out are the pointers to arenas and sinks. \<open>blank_target\<close> and its like
  are the records the code starts from, all zero.
\<close>

section \<open>Kinds\<close>

definition BM_ID_INVALID :: nat where "BM_ID_INVALID = 2 ^ 32 - 1"

datatype bm_target_kind =
    BM_TARGET_EXECUTABLE | BM_TARGET_STATIC_LIBRARY | BM_TARGET_SHARED_LIBRARY
  | BM_TARGET_MODULE_LIBRARY | BM_TARGET_INTERFACE_LIBRARY | BM_TARGET_OBJECT_LIBRARY
  | BM_TARGET_UTILITY | BM_TARGET_UNKNOWN_LIBRARY

datatype bm_target_source_kind =
    BM_TARGET_SOURCE_REGULAR | BM_TARGET_SOURCE_HEADER_FILE_SET | BM_TARGET_SOURCE_CXX_MODULE_FILE_SET

datatype bm_file_set_kind = BM_TARGET_FILE_SET_HEADERS | BM_TARGET_FILE_SET_CXX_MODULES

datatype bm_build_step_kind =
    BM_BUILD_STEP_OUTPUT_RULE | BM_BUILD_STEP_CUSTOM_TARGET | BM_BUILD_STEP_TARGET_PRE_BUILD
  | BM_BUILD_STEP_TARGET_PRE_LINK | BM_BUILD_STEP_TARGET_POST_BUILD

datatype bm_step_dependency_kind = BM_BUILD_STEP_DEP_PATH_TOKEN | BM_BUILD_STEP_DEP_TARGET_REF

datatype bm_replay_phase =
    BM_REPLAY_PHASE_CONFIGURE | BM_REPLAY_PHASE_BUILD | BM_REPLAY_PHASE_TEST | BM_REPLAY_PHASE_INSTALL
  | BM_REPLAY_PHASE_EXPORT | BM_REPLAY_PHASE_PACKAGE | BM_REPLAY_PHASE_HOST_ONLY

datatype bm_replay_action_kind =
    BM_REPLAY_ACTION_FILESYSTEM | BM_REPLAY_ACTION_PROCESS | BM_REPLAY_ACTION_PROBE
  | BM_REPLAY_ACTION_DEPENDENCY_MATERIALIZATION | BM_REPLAY_ACTION_TEST_DRIVER | BM_REPLAY_ACTION_HOST_EFFECT

datatype bm_replay_opcode =
    BM_REPLAY_OPCODE_NONE | BM_REPLAY_OPCODE_FS_MKDIR | BM_REPLAY_OPCODE_FS_WRITE_TEXT
  | BM_REPLAY_OPCODE_FS_APPEND_TEXT | BM_REPLAY_OPCODE_FS_COPY_FILE | BM_REPLAY_OPCODE_FS_COPY_TREE
  | BM_REPLAY_OPCODE_FS_REMOVE | BM_REPLAY_OPCODE_FS_REMOVE_RECURSE | BM_REPLAY_OPCODE_FS_RENAME
  | BM_REPLAY_OPCODE_FS_CREATE_LINK | BM_REPLAY_OPCODE_FS_CHMOD | BM_REPLAY_OPCODE_FS_CHMOD_RECURSE
  | BM_REPLAY_OPCODE_HOST_DOWNLOAD_LOCAL | BM_REPLAY_OPCODE_HOST_ARCHIVE_CREATE_PAXR
  | BM_REPLAY_OPCODE_HOST_ARCHIVE_EXTRACT_TAR | BM_REPLAY_OPCODE_HOST_LOCK_ACQUIRE
  | BM_REPLAY_OPCODE_HOST_LOCK_RELEASE | BM_REPLAY_OPCODE_PROBE_TRY_COMPILE_SOURCE
  | BM_REPLAY_OPCODE_PROBE_TRY_COMPILE_PROJECT | BM_REPLAY_OPCODE_PROBE_TRY_RUN
  | BM_REPLAY_OPCODE_DEPS_FETCHCONTENT_SOURCE_DIR | BM_REPLAY_OPCODE_DEPS_FETCHCONTENT_LOCAL_ARCHIVE
  | BM_REPLAY_OPCODE_TEST_DRIVER_CTEST_EMPTY_BINARY_DIRECTORY | BM_REPLAY_OPCODE_TEST_DRIVER_CTEST_START_LOCAL
  | BM_REPLAY_OPCODE_TEST_DRIVER_CTEST_CONFIGURE_SELF | BM_REPLAY_OPCODE_TEST_DRIVER_CTEST_BUILD_SELF
  | BM_REPLAY_OPCODE_TEST_DRIVER_CTEST_TEST | BM_REPLAY_OPCODE_TEST_DRIVER_CTEST_SLEEP
  | BM_REPLAY_OPCODE_TEST_DRIVER_CTEST_COVERAGE_LOCAL | BM_REPLAY_OPCODE_TEST_DRIVER_CTEST_MEMCHECK_LOCAL

datatype bm_visibility = BM_VISIBILITY_PRIVATE | BM_VISIBILITY_PUBLIC | BM_VISIBILITY_INTERFACE

datatype bm_install_rule_kind =
    BM_INSTALL_RULE_TARGET | BM_INSTALL_RULE_FILE | BM_INSTALL_RULE_PROGRAM | BM_INSTALL_RULE_DIRECTORY

datatype bm_export_kind = BM_EXPORT_INSTALL | BM_EXPORT_BUILD_TREE | BM_EXPORT_PACKAGE_REGISTRY

datatype bm_export_source_kind =
    BM_EXPORT_SOURCE_INSTALL_EXPORT | BM_EXPORT_SOURCE_TARGETS | BM_EXPORT_SOURCE_EXPORT_SET | BM_EXPORT_SOURCE_PACKAGE

datatype usage_interface_filter = EVENT_USAGE_INTERFACE_ANY | EVENT_USAGE_INTERFACE_BUILD | EVENT_USAGE_INTERFACE_INSTALL

datatype link_item_config_filter =
    EVENT_LINK_ITEM_CONFIG_ALL | EVENT_LINK_ITEM_CONFIG_DEBUG_ONLY | EVENT_LINK_ITEM_CONFIG_NONDEBUG_ONLY
  | EVENT_LINK_ITEM_CONFIG_MATCH_LIST

datatype link_item_kind =
    EVENT_LINK_ITEM_RAW_VALUE | EVENT_LINK_ITEM_TARGET_PROPERTY_IMPLICIT | EVENT_LINK_ITEM_TARGET_PROPERTY_EXPLICIT
  | EVENT_LINK_ITEM_TARGET_REF

datatype property_mutate_op =
    EVENT_PROPERTY_MUTATE_SET | EVENT_PROPERTY_MUTATE_APPEND_LIST
  | EVENT_PROPERTY_MUTATE_APPEND_STRING | EVENT_PROPERTY_MUTATE_PREPEND_LIST

section \<open>Records\<close>

record bm_provenance =
  event_seq :: nat
  event_kind :: string
  pv_file_path :: string_view
  pv_line :: nat
  pv_col :: nat

record link_item_metadata =
  lm_interface_filter :: usage_interface_filter
  lm_config_filter :: link_item_config_filter
  lm_link_only :: bool
  lm_configurations :: "string_view list"
  lm_compile_languages :: "string_view list"
  lm_platform_ids :: "string_view list"
  lm_kind :: link_item_kind
  lm_value :: string_view
  lm_target_name :: string_view
  lm_property_name :: string_view

record bm_item =
  it_value :: string_view
  it_visibility :: bm_visibility
  it_flags :: nat
  it_provenance :: bm_provenance
  it_semantic :: link_item_metadata

record bm_link_item =
  li_value :: string_view
  li_visibility :: bm_visibility
  li_flags :: nat
  li_provenance :: bm_provenance
  li_semantic :: link_item_metadata
  li_target_id :: nat

record bm_raw_property =
  rp_name :: string_view
  rp_op :: property_mutate_op
  rp_flags :: nat
  rp_items :: "string_view list"
  rp_provenance :: bm_provenance

record bm_target_source =
  src_kind :: bm_target_source_kind
  src_visibility :: bm_visibility
  src_raw_path :: string_view
  src_effective_path :: string_view
  src_file_set_name :: string_view
  src_generated :: bool
  src_header_file_only :: bool
  src_language :: string_view
  src_producer_step_id :: nat
  src_compile_definitions :: "bm_item list"
  src_compile_options :: "bm_item list"
  src_include_directories :: "bm_item list"
  src_raw_properties :: "bm_raw_property list"
  src_provenance :: bm_provenance

record bm_file_set =
  fs_name :: string_view
  fs_kind :: bm_file_set_kind
  fs_visibility :: bm_visibility
  fs_base_dirs :: "string_view list"
  fs_source_indices :: "nat list"
  fs_raw_files :: "string_view list"
  fs_effective_files :: "string_view list"
  fs_provenance :: bm_provenance

record bm_step_dependency =
  sd_kind :: bm_step_dependency_kind
  sd_raw_token :: string_view
  sd_target_name :: string_view
  sd_target_id :: nat
  sd_producer_step_id :: nat
  sd_file_dependency :: string_view

record bm_artifact_property =
  ap_name :: string_view
  ap_value :: string_view
  ap_provenance :: bm_provenance

record bm_build_step =
  st_id :: nat
  st_step_key :: string_view
  st_owner_directory_id :: nat
  st_provenance :: bm_provenance
  st_kind :: bm_build_step_kind
  st_owner_target_name :: string_view
  st_owner_target_id :: nat
  st_append :: bool
  st_verbatim :: bool
  st_uses_terminal :: bool
  st_command_expand_lists :: bool
  st_depends_explicit_only :: bool
  st_codegen :: bool
  st_working_directory :: string_view
  st_comment :: string_view
  st_main_dependency :: string_view
  st_depfile :: string_view
  st_job_pool :: string_view
  st_job_server_aware :: string_view
  st_raw_outputs :: "string_view list"
  effective_outputs :: "string_view list"
  st_raw_byproducts :: "string_view list"
  effective_byproducts :: "string_view list"
  st_raw_dependency_tokens :: "string_view list"
  st_dependencies :: "bm_step_dependency list"
  st_resolved_targets :: "nat list"
  st_resolved_producers :: "nat list"
  st_resolved_files :: "string_view list"
  st_commands :: "string_view list list"

record bm_replay_action =
  ra_id :: nat
  ra_action_key :: string_view
  ra_owner_directory_id :: nat
  ra_provenance :: bm_provenance
  ra_kind :: bm_replay_action_kind
  ra_opcode :: bm_replay_opcode
  ra_phase :: bm_replay_phase
  ra_working_directory :: string_view
  ra_inputs :: "string_view list"
  ra_outputs :: "string_view list"
  ra_argv :: "string_view list"
  ra_environment :: "string_view list"

record bm_source_mutation =
  sm_path :: string_view
  sm_directory_source_dir :: string_view
  sm_directory_binary_dir :: string_view
  sm_key :: string_view
  sm_value :: string_view
  sm_op :: property_mutate_op
  sm_provenance :: bm_provenance

record bm_source_mark =
  gm_path :: string_view
  gm_directory_source_dir :: string_view
  gm_directory_binary_dir :: string_view
  gm_generated :: bool
  gm_provenance :: bm_provenance

record bm_project =
  pj_present :: bool
  pj_name :: string_view
  pj_version :: string_view
  pj_description :: string_view
  pj_homepage_url :: string_view
  pj_languages :: "string_view list"
  pj_declaration_provenance :: bm_provenance
  pj_minimum_required_version :: string_view
  pj_minimum_required_fatal_if_too_old :: bool
  pj_minimum_required_provenance :: bm_provenance

text \<open>The usage properties of a directory, and of all of them.\<close>

record bm_properties =
  gp_include_directories :: "bm_item list"
  gp_system_include_directories :: "bm_item list"
  gp_link_libraries :: "bm_link_item list"
  gp_link_directories :: "bm_item list"
  gp_compile_definitions :: "bm_item list"
  gp_compile_options :: "bm_item list"
  gp_link_options :: "bm_item list"
  gp_raw_properties :: "bm_raw_property list"

record bm_directory =
  di_id :: nat
  di_parent_id :: nat
  di_owner_directory_id :: nat
  di_source_dir :: string_view
  di_binary_dir :: string_view
  di_provenance :: bm_provenance
  di_include_directories :: "bm_item list"
  di_system_include_directories :: "bm_item list"
  di_link_libraries :: "bm_link_item list"
  di_link_directories :: "bm_item list"
  di_compile_definitions :: "bm_item list"
  di_compile_options :: "bm_item list"
  di_link_options :: "bm_item list"
  di_raw_properties :: "bm_raw_property list"

text \<open>What an imported target says per configuration, which the freeze computes.\<close>

record bm_imported_config_map =
  imm_config :: string_view
  imm_mapped_configs :: "string_view list"

record bm_imported_config =
  imc_config :: string_view
  imc_effective_file :: string_view
  imc_effective_linker_file :: string_view
  imc_link_languages :: "string_view list"

record bm_target =
  tg_id :: nat
  tg_name :: string_view
  tg_owner_directory_id :: nat
  tg_provenance :: bm_provenance
  tg_kind :: bm_target_kind
  tg_declared :: bool
  tg_imported :: bool
  tg_imported_global :: bool
  tg_alias :: bool
  tg_alias_global :: bool
  tg_exclude_from_all :: bool
  tg_win32_executable :: bool
  tg_macosx_bundle :: bool
  tg_alias_of_name :: string_view
  tg_alias_of_id :: nat
  tg_sources :: "string_view list"
  tg_source_records :: "bm_target_source list"
  tg_file_sets :: "bm_file_set list"
  explicit_dependency_names :: "string_view list"
  tg_explicit_dependency_ids :: "nat list"
  tg_link_libraries :: "bm_link_item list"
  tg_link_options :: "bm_item list"
  tg_link_directories :: "bm_item list"
  tg_include_directories :: "bm_item list"
  tg_compile_definitions :: "bm_item list"
  tg_compile_options :: "bm_item list"
  tg_compile_features :: "bm_item list"
  tg_output_name :: string_view
  tg_prefix :: string_view
  tg_suffix :: string_view
  tg_archive_output_directory :: string_view
  tg_library_output_directory :: string_view
  tg_runtime_output_directory :: string_view
  tg_artifact_properties :: "bm_artifact_property list"
  tg_folder :: string_view
  tg_imported_config_maps :: "bm_imported_config_map list"
  tg_imported_configs :: "bm_imported_config list"
  tg_raw_properties :: "bm_raw_property list"

record bm_test =
  te_id :: nat
  te_name :: string_view
  te_owner_directory_id :: nat
  te_provenance :: bm_provenance
  te_command :: string_view
  te_working_dir :: string_view
  te_command_expand_lists :: bool
  te_configurations :: "string_view list"

record bm_install_rule =
  ir_id :: nat
  ir_kind :: bm_install_rule_kind
  ir_owner_directory_id :: nat
  ir_provenance :: bm_provenance
  ir_item :: string_view
  ir_destination :: string_view
  ir_rename :: string_view
  ir_component :: string_view
  ir_archive_component :: string_view
  ir_library_component :: string_view
  ir_runtime_component :: string_view
  ir_includes_component :: string_view
  ir_public_header_component :: string_view
  ir_namelink_component :: string_view
  ir_export_name :: string_view
  ir_archive_destination :: string_view
  ir_library_destination :: string_view
  ir_runtime_destination :: string_view
  ir_includes_destination :: string_view
  ir_public_header_destination :: string_view
  ir_resolved_target_id :: nat

record bm_export =
  ex_id :: nat
  ex_owner_directory_id :: nat
  ex_provenance :: bm_provenance
  ex_kind :: bm_export_kind
  ex_source_kind :: bm_export_source_kind
  ex_export_key :: string_view
  ex_name :: string_view
  ex_export_namespace :: string_view
  ex_destination :: string_view
  ex_file_name :: string_view
  ex_component :: string_view
  ex_output_file_path :: string_view
  ex_cxx_modules_directory :: string_view
  ex_registry_prefix :: string_view
  ex_enabled :: bool
  ex_append :: bool
  ex_target_names :: "string_view list"
  ex_target_ids :: "nat list"

record bm_package =
  pk_id :: nat
  pk_owner_directory_id :: nat
  pk_provenance :: bm_provenance
  pk_package_name :: string_view
  pk_mode :: string_view
  pk_found_path :: string_view
  pk_found :: bool
  pk_required :: bool
  pk_quiet :: bool

record bm_cpack_install_type =
  cit_id :: nat
  cit_owner_directory_id :: nat
  cit_provenance :: bm_provenance
  cit_name :: string_view
  cit_display_name :: string_view

record bm_cpack_group =
  cg_id :: nat
  cg_owner_directory_id :: nat
  cg_provenance :: bm_provenance
  cg_name :: string_view
  cg_display_name :: string_view
  cg_description :: string_view
  cg_parent_group_name :: string_view
  cg_parent_group_id :: nat
  cg_expanded :: bool
  cg_bold_title :: bool

record bm_cpack_component =
  cc_id :: nat
  cc_owner_directory_id :: nat
  cc_provenance :: bm_provenance
  cc_name :: string_view
  cc_display_name :: string_view
  cc_description :: string_view
  cc_group_name :: string_view
  cc_group_id :: nat
  cc_dependency_names :: "string_view list"
  cc_dependency_ids :: "nat list"
  cc_install_type_names :: "string_view list"
  cc_install_type_ids :: "nat list"
  cc_archive_file :: string_view
  cc_plist :: string_view
  cc_required :: bool
  cc_hidden :: bool
  cc_disabled :: bool
  cc_downloaded :: bool

record bm_cpack_package =
  cp_id :: nat
  cp_owner_directory_id :: nat
  cp_provenance :: bm_provenance
  cp_package_key :: string_view
  cp_package_name :: string_view
  cp_package_version :: string_view
  cp_package_file_name :: string_view
  cp_package_directory :: string_view
  cp_archive_file_name :: string_view
  cp_archive_file_extension :: string_view
  cp_components_grouping :: string_view
  cp_project_config_file :: string_view
  cp_generators :: "string_view list"
  cp_components_all :: "string_view list"
  cp_archive_name_overrides :: "(string_view \<times> string_view) list"
  cp_include_toplevel_directory :: bool
  cp_archive_component_install :: bool

record bm_name_index_entry =
  ne_name :: string_view
  ne_id :: nat

record build_model_draft =
  dr_has_semantic_entities :: bool
  dr_testing_enabled :: bool
  dr_project :: bm_project
  dr_global_properties :: bm_properties
  dr_directories :: "bm_directory list"
  dr_root_directory_id :: nat
  dr_targets :: "bm_target list"
  dr_build_steps :: "bm_build_step list"
  dr_replay_actions :: "bm_replay_action list"
  dr_source_marks :: "bm_source_mark list"
  dr_source_mutations :: "bm_source_mutation list"
  dr_tests :: "bm_test list"
  dr_install_rules :: "bm_install_rule list"
  dr_exports :: "bm_export list"
  dr_packages :: "bm_package list"
  dr_cpack_install_types :: "bm_cpack_install_type list"
  dr_cpack_groups :: "bm_cpack_group list"
  dr_cpack_components :: "bm_cpack_component list"
  dr_cpack_packages :: "bm_cpack_package list"
  target_name_index :: "bm_name_index_entry list"
  test_name_index :: "bm_name_index_entry list"
  package_name_index :: "bm_name_index_entry list"

record build_model =
  mo_testing_enabled :: bool
  mo_project :: bm_project
  known_configurations :: "string_view list"
  mo_global_properties :: bm_properties
  mo_directories :: "bm_directory list"
  mo_root_directory_id :: nat
  targets :: "bm_target list"
  build_steps :: "bm_build_step list"
  mo_replay_actions :: "bm_replay_action list"
  mo_tests :: "bm_test list"
  mo_install_rules :: "bm_install_rule list"
  mo_exports :: "bm_export list"
  mo_packages :: "bm_package list"
  mo_cpack_install_types :: "bm_cpack_install_type list"
  mo_cpack_groups :: "bm_cpack_group list"
  mo_cpack_components :: "bm_cpack_component list"
  mo_cpack_packages :: "bm_cpack_package list"
  mo_target_name_index :: "bm_name_index_entry list"
  mo_test_name_index :: "bm_name_index_entry list"
  mo_package_name_index :: "bm_name_index_entry list"

section \<open>Zero-initialised records\<close>

definition empty_provenance :: bm_provenance where
  "empty_provenance =
   \<lparr>event_seq = 0, event_kind = ''diag'', pv_file_path = [], pv_line = 0, pv_col = 0\<rparr>"

definition blank_semantic :: link_item_metadata where
  "blank_semantic =
   \<lparr>lm_interface_filter = EVENT_USAGE_INTERFACE_ANY, lm_config_filter = EVENT_LINK_ITEM_CONFIG_ALL, lm_link_only = False,
    lm_configurations = [], lm_compile_languages = [], lm_platform_ids = [], lm_kind = EVENT_LINK_ITEM_RAW_VALUE,
    lm_value = [], lm_target_name = [], lm_property_name = []\<rparr>"

definition blank_project :: bm_project where
  "blank_project =
   \<lparr>pj_present = False, pj_name = [], pj_version = [], pj_description = [], pj_homepage_url = [], pj_languages = [],
    pj_declaration_provenance = empty_provenance, pj_minimum_required_version = [],
    pj_minimum_required_fatal_if_too_old = False, pj_minimum_required_provenance = empty_provenance\<rparr>"

definition blank_properties :: bm_properties where
  "blank_properties =
   \<lparr>gp_include_directories = [], gp_system_include_directories = [], gp_link_libraries = [], gp_link_directories = [],
    gp_compile_definitions = [], gp_compile_options = [], gp_link_options = [], gp_raw_properties = []\<rparr>"

definition blank_target :: bm_target where
  "blank_target =
   \<lparr>tg_id = 0, tg_name = [], tg_owner_directory_id = 0, tg_provenance = empty_provenance,
    tg_kind = BM_TARGET_EXECUTABLE, tg_declared = False, tg_imported = False,
    tg_imported_global = False, tg_alias = False, tg_alias_global = False,
    tg_exclude_from_all = False, tg_win32_executable = False, tg_macosx_bundle = False,
    tg_alias_of_name = [], tg_alias_of_id = 0, tg_sources = [], tg_source_records = [],
    tg_file_sets = [], explicit_dependency_names = [], tg_explicit_dependency_ids = [],
    tg_link_libraries = [], tg_link_options = [], tg_link_directories = [],
    tg_include_directories = [], tg_compile_definitions = [], tg_compile_options = [],
    tg_compile_features = [], tg_output_name = [], tg_prefix = [], tg_suffix = [],
    tg_archive_output_directory = [], tg_library_output_directory = [],
    tg_runtime_output_directory = [], tg_artifact_properties = [], tg_folder = [],
    tg_imported_config_maps = [], tg_imported_configs = [], tg_raw_properties = []\<rparr>"

definition blank_step :: bm_build_step where
  "blank_step =
   \<lparr>st_id = 0, st_step_key = [], st_owner_directory_id = 0,
    st_provenance = empty_provenance, st_kind = BM_BUILD_STEP_OUTPUT_RULE,
    st_owner_target_name = [], st_owner_target_id = 0, st_append = False, st_verbatim = False,
    st_uses_terminal = False, st_command_expand_lists = False, st_depends_explicit_only = False,
    st_codegen = False, st_working_directory = [], st_comment = [], st_main_dependency = [],
    st_depfile = [], st_job_pool = [], st_job_server_aware = [], st_raw_outputs = [],
    effective_outputs = [], st_raw_byproducts = [], effective_byproducts = [],
    st_raw_dependency_tokens = [], st_dependencies = [], st_resolved_targets = [],
    st_resolved_producers = [], st_resolved_files = [], st_commands = []\<rparr>"

definition blank_draft :: build_model_draft where
  "blank_draft =
   \<lparr>dr_has_semantic_entities = False, dr_testing_enabled = False, dr_project = blank_project,
    dr_global_properties = blank_properties, dr_directories = [], dr_root_directory_id = 0,
    dr_targets = [], dr_build_steps = [], dr_replay_actions = [], dr_source_marks = [], dr_source_mutations = [],
    dr_tests = [], dr_install_rules = [], dr_exports = [], dr_packages = [],
    dr_cpack_install_types = [], dr_cpack_groups = [], dr_cpack_components = [],
    dr_cpack_packages = [], target_name_index = [], test_name_index = [], package_name_index = []\<rparr>"

definition blank_model :: build_model where
  "blank_model =
   \<lparr>mo_testing_enabled = False, mo_project = blank_project, known_configurations = [],
    mo_global_properties = blank_properties, mo_directories = [], mo_root_directory_id = 0,
    targets = [], build_steps = [], mo_replay_actions = [], mo_tests = [], mo_install_rules = [],
    mo_exports = [], mo_packages = [], mo_cpack_install_types = [], mo_cpack_groups = [],
    mo_cpack_components = [], mo_cpack_packages = [], mo_target_name_index = [], mo_test_name_index = [],
    mo_package_name_index = []\<rparr>"

lemma blank_target_simps [simp]:
  "tg_id blank_target = 0" "tg_name blank_target = []" "tg_owner_directory_id blank_target = 0"
  "tg_provenance blank_target = empty_provenance" "tg_kind blank_target = BM_TARGET_EXECUTABLE"
  "\<not> tg_declared blank_target" "\<not> tg_imported blank_target"
  "\<not> tg_imported_global blank_target" "\<not> tg_alias blank_target"
  "\<not> tg_alias_global blank_target" "\<not> tg_exclude_from_all blank_target"
  "\<not> tg_win32_executable blank_target" "\<not> tg_macosx_bundle blank_target"
  "tg_alias_of_name blank_target = []" "tg_alias_of_id blank_target = 0"
  "tg_sources blank_target = []" "tg_source_records blank_target = []"
  "tg_file_sets blank_target = []" "explicit_dependency_names blank_target = []"
  "tg_explicit_dependency_ids blank_target = []" "tg_link_libraries blank_target = []"
  "tg_link_options blank_target = []" "tg_link_directories blank_target = []"
  "tg_include_directories blank_target = []" "tg_compile_definitions blank_target = []"
  "tg_compile_options blank_target = []" "tg_compile_features blank_target = []"
  "tg_output_name blank_target = []" "tg_prefix blank_target = []" "tg_suffix blank_target = []"
  "tg_archive_output_directory blank_target = []" "tg_library_output_directory blank_target = []"
  "tg_runtime_output_directory blank_target = []" "tg_artifact_properties blank_target = []"
  "tg_folder blank_target = []" "tg_raw_properties blank_target = []"
  "tg_imported_config_maps blank_target = []" "tg_imported_configs blank_target = []"
  by (simp_all add: blank_target_def)

lemma blank_step_simps [simp]:
  "st_id blank_step = 0" "st_step_key blank_step = []" "st_owner_directory_id blank_step = 0"
  "st_provenance blank_step = empty_provenance" "st_kind blank_step = BM_BUILD_STEP_OUTPUT_RULE"
  "st_owner_target_name blank_step = []" "st_owner_target_id blank_step = 0"
  "\<not> st_append blank_step" "\<not> st_verbatim blank_step"
  "\<not> st_uses_terminal blank_step" "\<not> st_command_expand_lists blank_step"
  "\<not> st_depends_explicit_only blank_step" "\<not> st_codegen blank_step"
  "st_working_directory blank_step = []" "st_comment blank_step = []"
  "st_main_dependency blank_step = []" "st_depfile blank_step = []" "st_job_pool blank_step = []"
  "st_job_server_aware blank_step = []" "st_raw_outputs blank_step = []"
  "effective_outputs blank_step = []" "st_raw_byproducts blank_step = []"
  "effective_byproducts blank_step = []" "st_raw_dependency_tokens blank_step = []"
  "st_dependencies blank_step = []" "st_resolved_targets blank_step = []"
  "st_resolved_producers blank_step = []" "st_resolved_files blank_step = []"
  "st_commands blank_step = []"
  by (simp_all add: blank_step_def)

lemma blank_draft_simps [simp]:
  "\<not> dr_has_semantic_entities blank_draft" "dr_directories blank_draft = []"
  "dr_root_directory_id blank_draft = 0" "dr_targets blank_draft = []"
  "dr_build_steps blank_draft = []" "dr_replay_actions blank_draft = []"
  "dr_source_mutations blank_draft = []" "dr_tests blank_draft = []"
  "dr_install_rules blank_draft = []" "dr_exports blank_draft = []" "dr_packages blank_draft = []"
  "dr_cpack_install_types blank_draft = []" "dr_cpack_groups blank_draft = []"
  "dr_cpack_components blank_draft = []" "dr_cpack_packages blank_draft = []"
  "target_name_index blank_draft = []" "test_name_index blank_draft = []" "package_name_index blank_draft = []"
  "dr_source_marks blank_draft = []"
  by (simp_all add: blank_draft_def)

end
