(* ===== verification/Three_Colour.thy ===== *)
theory Three_Colour
  imports Bm_Records
begin

text \<open>
  The three-colour depth-first search of the build model's validators. The state is the array
  of colours, the error flag and the reports; a locale states the recursion the two searches of
  \<open>build_model_validate_cycles.c\<close> share, and shows once what such a search decides: run from
  every node in turn it fails exactly when the out-edges of some node cannot be had, and otherwise
  it raises the error flag exactly when the graph has a cycle.
\<close>

section \<open>State\<close>

text \<open>
  A report of \<open>bm_diag_emit\<close>: the severity, where, the command of the component, the cause. The
  hint, a constant for each cause, is left out.
\<close>

type_synonym bm_report = "diag_severity \<times> bm_provenance \<times> string \<times> string"

record cycle_state =
  colors :: "nat list"
  had_error :: bool
  sink :: "bm_report list"

definition bm_error :: "bm_provenance \<Rightarrow> string \<Rightarrow> string \<Rightarrow> cycle_state \<Rightarrow> cycle_state" where
  "bm_error p command cause st = st\<lparr>had_error := True, sink := sink st @ [(DIAG_SEV_ERROR, p, command, cause)]\<rparr>"

definition set_color :: "nat \<Rightarrow> nat \<Rightarrow> cycle_state \<Rightarrow> cycle_state" where
  "set_color v c st = st\<lparr>colors := (colors st)[v := c]\<rparr>"

text \<open>The loop over all nodes: skip what has a colour, stop when a visit fails.\<close>

fun visit_roots ::
  "(nat \<Rightarrow> cycle_state \<Rightarrow> bool \<times> cycle_state) \<Rightarrow> nat list \<Rightarrow> cycle_state \<Rightarrow> bool \<times> cycle_state" where
  "visit_roots visit [] st = (True, st)"
| "visit_roots visit (i # is) st =
     (if colors st ! i \<noteq> 0 then visit_roots visit is st
      else (case visit i st of
              (ok, st1) \<Rightarrow> if ok then visit_roots visit is st1 else (False, st1)))"

section \<open>The search\<close>

text \<open>
  A search over the nodes \<open>0..<n\<close> with the out-edges \<open>out v\<close>, each leading to a node or to
  nothing; they can be had if \<open>here v\<close>. \<open>visit k c v\<close> visits a white node with recursion bound \<open>k\<close> in a context \<open>c\<close>, which
  may change from node to node.
\<close>

locale three_colour =
  fixes n :: nat
    and here :: "nat \<Rightarrow> bool"
    and out :: "nat \<Rightarrow> 'e list"
    and tgt :: "'e \<Rightarrow> nat option"
    and inner :: "'c \<Rightarrow> nat \<Rightarrow> 'c"
    and visit :: "nat \<Rightarrow> 'c \<Rightarrow> nat \<Rightarrow> cycle_state \<Rightarrow> bool \<times> cycle_state"
    and edges :: "nat \<Rightarrow> 'c \<Rightarrow> nat \<Rightarrow> 'e list \<Rightarrow> cycle_state \<Rightarrow> bool \<times> cycle_state"
    and report :: "nat \<Rightarrow> cycle_state \<Rightarrow> cycle_state"
  assumes tgt_range: "v < n \<Longrightarrow> e \<in> set (out v) \<Longrightarrow> tgt e = Some w \<Longrightarrow> w < n"
    and visit_missing: "v < n \<Longrightarrow> \<not> here v \<Longrightarrow> \<not> fst (visit (Suc k) c v st)"
    and visit_Suc: "v < n \<Longrightarrow> here v \<Longrightarrow> visit (Suc k) c v st =
      (case edges k c v (out v) (set_color v 1 st) of
         (ok, st1) \<Rightarrow> if ok then (True, set_color v 2 st1) else (False, st1))"
    and edges_Nil: "edges k c v [] st = (True, st)"
    and edges_Cons: "v < n \<Longrightarrow> e \<in> set (out v) \<Longrightarrow> (\<And>w. tgt e = Some w \<Longrightarrow> colors st ! w \<le> 2) \<Longrightarrow>
      edges k c v (e # es) st =
      (case tgt e of
         None \<Rightarrow> edges k c v es st
       | Some w \<Rightarrow>
           if colors st ! w = 1 then edges k c v es (report v st)
           else if colors st ! w = 0 then
             (case visit k (inner c v) w st of
                (ok, st1) \<Rightarrow> if ok then edges k c v es st1 else (False, st1))
           else edges k c v es st)"
    and report_colors: "colors (report v st) = colors st"
    and report_error: "had_error (report v st)"

text \<open>The graph of a search.\<close>

definition edge_rel :: "nat \<Rightarrow> (nat \<Rightarrow> 'e list) \<Rightarrow> ('e \<Rightarrow> nat option) \<Rightarrow> (nat \<times> nat) set" where
  "edge_rel n out tgt = {(v, w). v < n \<and> (\<exists>e\<in>set (out v). tgt e = Some w)}"

definition wf_colors :: "nat \<Rightarrow> cycle_state \<Rightarrow> bool" where
  "wf_colors n st \<longleftrightarrow> length (colors st) = n \<and> (\<forall>v<n. colors st ! v \<le> 2)"

definition painted :: "nat \<Rightarrow> nat \<Rightarrow> cycle_state \<Rightarrow> nat set" where
  "painted n c st = {v. v < n \<and> colors st ! v = c}"

lemma painted_finite [simp]: "finite (painted n c st)"
  by (simp add: painted_def)

lemma painted_iff: "v \<in> painted n c st \<longleftrightarrow> v < n \<and> colors st ! v = c"
  by (simp add: painted_def)

lemma painted_set_color:
  "wf_colors n st \<Longrightarrow> v < n \<Longrightarrow>
   painted n d (set_color v c st) = (if c = d then insert v (painted n d st) else painted n d st - {v})"
  by (auto simp: painted_def set_color_def wf_colors_def nth_list_update)

lemma wf_set_color: "wf_colors n st \<Longrightarrow> c \<le> 2 \<Longrightarrow> wf_colors n (set_color v c st)"
  by (cases "v < length (colors st)") (auto simp: wf_colors_def set_color_def nth_list_update)

lemma had_error_set_color [simp]: "had_error (set_color v c st) = had_error st"
  by (simp add: set_color_def)

lemma painted_cover: "wf_colors n st \<Longrightarrow> {v. v < n} = painted n 0 st \<union> painted n 1 st \<union> painted n 2 st"
  by (force simp: wf_colors_def painted_def le_Suc_eq numeral_2_eq_2)

lemma painted_coverD: "wf_colors n st \<Longrightarrow> v < n \<Longrightarrow> v \<in> painted n 0 st \<union> painted n 1 st \<union> painted n 2 st"
  using painted_cover by blast

text \<open>A set closed under edges holds what its members reach.\<close>

lemma closed_rtrancl: "(v, w) \<in> r\<^sup>* \<Longrightarrow> \<forall>a\<in>B. \<forall>b. (a, b) \<in> r \<longrightarrow> b \<in> B \<Longrightarrow> v \<in> B \<Longrightarrow> w \<in> B"
  by (induction rule: rtrancl_induct) auto

text \<open>The black nodes are closed under edges and on no cycle.\<close>

definition clean :: "nat \<Rightarrow> (nat \<times> nat) set \<Rightarrow> cycle_state \<Rightarrow> bool" where
  "clean n r st \<longleftrightarrow>
     (\<forall>v\<in>painted n 2 st. \<forall>w. (v, w) \<in> r \<longrightarrow> w \<in> painted n 2 st) \<and>
     (\<forall>v\<in>painted n 2 st. (v, v) \<notin> r\<^sup>+)"

text \<open>What a piece of the search may change; \<open>H\<close> are the nodes with out-edges to be had.\<close>

definition advances :: "nat \<Rightarrow> nat set \<Rightarrow> (nat \<times> nat) set \<Rightarrow> cycle_state \<Rightarrow> cycle_state \<Rightarrow> bool" where
  "advances n H r st st' \<longleftrightarrow>
     wf_colors n st' \<and> painted n 1 st' = painted n 1 st \<and> painted n 2 st \<subseteq> painted n 2 st' \<and>
     painted n 2 st' \<subseteq> painted n 2 st \<union> H \<and>
     (had_error st \<longrightarrow> had_error st') \<and>
     (had_error st' \<longrightarrow> had_error st \<or> (\<exists>v. (v, v) \<in> r\<^sup>+)) \<and>
     (\<not> had_error st' \<longrightarrow> clean n r st \<longrightarrow> clean n r st')"

lemma advances_refl: "wf_colors n st \<Longrightarrow> advances n H r st st"
  by (simp add: advances_def)

lemma advances_trans: "advances n H r s t \<Longrightarrow> advances n H r t u \<Longrightarrow> advances n H r s u"
  by (simp add: advances_def) blast

lemma advancesD:
  assumes "advances n H r st st'"
  shows "wf_colors n st'" and "painted n 1 st' = painted n 1 st" and "painted n 2 st \<subseteq> painted n 2 st'"
    and "painted n 2 st' \<subseteq> painted n 2 st \<union> H" and "had_error st \<Longrightarrow> had_error st'"
  using assms unfolding advances_def by blast+

lemma advances_white: "wf_colors n st \<Longrightarrow> advances n H r st st' \<Longrightarrow> painted n 0 st' \<subseteq> painted n 0 st"
proof
  fix v
  assume wf: "wf_colors n st" and adv: "advances n H r st st'" and v: "v \<in> painted n 0 st'"
  have "painted n 1 st' = painted n 1 st" "painted n 2 st \<subseteq> painted n 2 st'"
    using adv by (simp_all add: advances_def)
  moreover have "v \<notin> painted n 1 st'" "v \<notin> painted n 2 st'" using v by (simp_all add: painted_iff)
  ultimately have "v \<notin> painted n 1 st" "v \<notin> painted n 2 st" by blast+
  moreover have "v \<in> painted n 0 st \<union> painted n 1 st \<union> painted n 2 st"
    using painted_coverD [OF wf] v painted_iff by blast
  ultimately show "v \<in> painted n 0 st" by blast
qed

text \<open>What a piece of the search comes to: it fails only when some out-edges cannot be had.\<close>

definition goes ::
  "nat \<Rightarrow> nat set \<Rightarrow> (nat \<times> nat) set \<Rightarrow> cycle_state \<Rightarrow> (cycle_state \<Rightarrow> bool) \<Rightarrow> bool \<times> cycle_state \<Rightarrow> bool" where
  "goes n H r st P out \<longleftrightarrow>
     (if fst out then advances n H r st (snd out) \<and> P (snd out) else \<not> {..<n} \<subseteq> H)"

lemma goes_after:
  "advances n H r st s \<Longrightarrow> goes n H r s P out \<Longrightarrow> goes n H r st (\<lambda>t. P t \<and> advances n H r s t) out"
  by (auto simp: goes_def intro: advances_trans)

lemma goes_mono: "goes n H r st P out \<Longrightarrow> (\<And>t. advances n H r st t \<Longrightarrow> P t \<Longrightarrow> Q t) \<Longrightarrow> goes n H r st Q out"
  by (simp add: goes_def split: if_splits)

lemma goes_bind:
  assumes "goes n H r st P out" "\<And>t. advances n H r st t \<Longrightarrow> P t \<Longrightarrow> goes n H r st Q (f t)"
  shows "goes n H r st Q (case out of (ok, t) \<Rightarrow> if ok then f t else (False, t))"
  using assms by (cases out) (auto simp: goes_def)

context three_colour
begin

abbreviation "E \<equiv> edge_rel n out tgt"

abbreviation "H \<equiv> {v. here v}"

lemma edgeI: "v < n \<Longrightarrow> e \<in> set (out v) \<Longrightarrow> tgt e = Some w \<Longrightarrow> (v, w) \<in> E"
  by (auto simp: edge_rel_def)

text \<open>A back edge: its source is grey, so its target reaches it.\<close>

lemma report_advances:
  assumes "wf_colors n st" "(v, v) \<in> E\<^sup>+"
  shows "advances n H E st (report u st)"
  using assms by (auto simp: advances_def wf_colors_def painted_def report_colors report_error)

text \<open>What the visits of the targets of a node give.\<close>

definition led_black :: "'e list \<Rightarrow> cycle_state \<Rightarrow> bool" where
  "led_black es st \<longleftrightarrow> had_error st \<or> (\<forall>e\<in>set es. \<forall>w. tgt e = Some w \<longrightarrow> w \<in> painted n 2 st)"

lemma led_black_Cons:
  assumes "led_black es t" "\<And>w. tgt e = Some w \<Longrightarrow> had_error t \<or> w \<in> painted n 2 t"
  shows "led_black (e # es) t"
  using assms by (auto simp: led_black_def)

lemma edges_advance:
  assumes visit: "\<And>c w st. wf_colors n st \<Longrightarrow> w \<in> painted n 0 st \<Longrightarrow>
        \<forall>g\<in>painted n 1 st. (g, w) \<in> E\<^sup>* \<Longrightarrow> card (painted n 0 st) \<le> k \<Longrightarrow>
        goes n H E st (\<lambda>t. w \<in> painted n 2 t) (visit k c w st)"
    and v: "v < n"
  shows "set es \<subseteq> set (out v) \<Longrightarrow> wf_colors n st \<Longrightarrow> v \<in> painted n 1 st \<Longrightarrow>
    \<forall>g\<in>painted n 1 st. (g, v) \<in> E\<^sup>* \<Longrightarrow> card (painted n 0 st) \<le> k \<Longrightarrow>
    goes n H E st (led_black es) (edges k c v es st)"
proof (induction es arbitrary: st)
  case Nil
  then show ?case by (simp add: edges_Nil advances_refl goes_def led_black_def)
next
  case (Cons e es)
  have e: "e \<in> set (out v)" "set es \<subseteq> set (out v)" using Cons.prems(1) by auto
  have le2: "colors st ! w \<le> 2" if "tgt e = Some w" for w
    using tgt_range [OF v e(1) that] Cons.prems(2) by (simp add: wf_colors_def)
  have step: "edges k c v (e # es) st =
      (case tgt e of
         None \<Rightarrow> edges k c v es st
       | Some w \<Rightarrow>
           if colors st ! w = 1 then edges k c v es (report v st)
           else if colors st ! w = 0 then
             (case visit k (inner c v) w st of
                (ok, st1) \<Rightarrow> if ok then edges k c v es st1 else (False, st1))
           else edges k c v es st)"
    by (rule edges_Cons [OF v e(1)]) (rule le2)
  have rest: "goes n H E st (led_black (e # es)) (edges k c v es s)"
    if adv: "advances n H E st s"
      and hd: "\<And>t w. advances n H E s t \<Longrightarrow> tgt e = Some w \<Longrightarrow> had_error t \<or> w \<in> painted n 2 t" for s
  proof -
    have wf: "wf_colors n s" and grey: "painted n 1 s = painted n 1 st" using advancesD [OF adv] by blast+
    have white: "card (painted n 0 s) \<le> k"
      using card_mono [OF painted_finite advances_white [OF Cons.prems(2) adv]] Cons.prems(5) by simp
    have "goes n H E s (led_black es) (edges k c v es s)"
      using Cons.IH [OF e(2) wf _ _ white] Cons.prems(3,4) grey by auto
    from goes_after [OF adv this] show ?thesis
      by (rule goes_mono) (elim conjE, rule led_black_Cons, assumption, erule (1) hd)
  qed
  show ?case
  proof (cases "tgt e")
    case None
    then show ?thesis using rest [OF advances_refl [OF Cons.prems(2)]] by (simp add: step)
  next
    case (Some w)
    have w: "w < n" and vw: "(v, w) \<in> E" using tgt_range edgeI v e(1) Some by auto
    consider (grey) "colors st ! w = 1" | (white) "colors st ! w = 0" | (black) "colors st ! w = 2"
      using Cons.prems(2) w by (force simp: wf_colors_def le_Suc_eq numeral_2_eq_2)
    then show ?thesis
    proof cases
      case grey
      then have "(w, v) \<in> E\<^sup>*" using Cons.prems(4) w by (simp add: painted_iff)
      then have "(v, v) \<in> E\<^sup>+" using vw by (simp add: rtrancl_into_trancl2)
      then have adv: "advances n H E st (report v st)" by (rule report_advances [OF Cons.prems(2)])
      have "goes n H E st (led_black (e # es)) (edges k c v es (report v st))"
        by (rule rest [OF adv]) (use advancesD(5) report_error in blast)
      then show ?thesis using Some grey by (simp add: step)
    next
      case white
      have "\<forall>g\<in>painted n 1 st. (g, w) \<in> E\<^sup>*"
        using Cons.prems(4) vw by (meson rtrancl.rtrancl_into_rtrancl)
      then have "goes n H E st (\<lambda>t. w \<in> painted n 2 t) (visit k (inner c v) w st)"
        using visit [of st w "inner c v"] Cons.prems(2,5) white w by (simp add: painted_iff)
      then have "goes n H E st (led_black (e # es))
          (case visit k (inner c v) w st of (ok, st1) \<Rightarrow> if ok then edges k c v es st1 else (False, st1))"
        by (rule goes_bind) (use advancesD(3) Some in \<open>fastforce intro!: rest\<close>)
      then show ?thesis using Some white by (simp add: step)
    next
      case black
      have "goes n H E st (led_black (e # es)) (edges k c v es st)"
        by (rule rest [OF advances_refl [OF Cons.prems(2)]])
          (use advancesD(3) Some black w in \<open>fastforce simp: painted_iff\<close>)
      then show ?thesis using Some black by (simp add: step)
    qed
  qed
qed

text \<open>Leaving a node: its targets are black, or an error has been raised.\<close>

lemma leave_advances:
  assumes wf: "wf_colors n st" and v: "v \<in> painted n 0 st" and here: "here v"
    and adv: "advances n H E (set_color v 1 st) t" and led: "led_black (out v) t"
  shows "advances n H E st (set_color v 2 t) \<and> v \<in> painted n 2 (set_color v 2 t)"
proof -
  let ?s = "set_color v 1 st" and ?u = "set_color v 2 t"
  have vn: "v < n" and white: "colors st ! v = 0" using v by (auto simp: painted_iff)
  have paint: "painted n 1 ?s = insert v (painted n 1 st)" "painted n 2 ?s = painted n 2 st"
    using painted_set_color [OF wf vn] white by (auto simp: painted_iff)
  have wft: "wf_colors n t" and grey: "painted n 1 t = insert v (painted n 1 st)"
    and black: "painted n 2 st \<subseteq> painted n 2 t" "painted n 2 t \<subseteq> painted n 2 st \<union> H"
    using advancesD [OF adv] unfolding paint by blast+
  have "v \<in> painted n 1 t" unfolding grey by simp
  then have vt: "v \<notin> painted n 2 t" by (simp add: painted_iff)
  have u: "painted n 1 ?u = painted n 1 st" "painted n 2 ?u = insert v (painted n 2 t)"
    unfolding painted_set_color [OF wft vn] grey using white by (simp_all add: painted_iff)
  have "clean n E ?u" if "\<not> had_error ?u" "clean n E st"
  proof -
    have "clean n E ?s" using that(2) unfolding clean_def paint(2) .
    then have ct: "clean n E t" using adv that(1) by (simp add: advances_def)
    have succ: "w \<in> painted n 2 t" if "(v, w) \<in> E" for w
      using led that \<open>\<not> had_error ?u\<close> by (auto simp: edge_rel_def led_black_def)
    have "(v, v) \<notin> E\<^sup>+"
    proof
      assume "(v, v) \<in> E\<^sup>+"
      then obtain w where w: "(v, w) \<in> E" "(w, v) \<in> E\<^sup>*" by (meson tranclD)
      have "\<forall>a\<in>painted n 2 t. \<forall>b. (a, b) \<in> E \<longrightarrow> b \<in> painted n 2 t"
        using ct by (simp add: clean_def)
      with w have "v \<in> painted n 2 t" using closed_rtrancl [OF w(2)] succ [OF w(1)] by simp
      with vt show False ..
    qed
    then show ?thesis using ct succ unfolding clean_def u(2) by blast
  qed
  moreover have "had_error st \<longrightarrow> had_error t" "had_error t \<longrightarrow> had_error st \<or> (\<exists>v. (v, v) \<in> E\<^sup>+)"
    using adv by (simp_all add: advances_def)
  moreover have "painted n 2 ?u \<subseteq> painted n 2 st \<union> H" using black(2) here unfolding u(2) by blast
  ultimately have "advances n H E st ?u"
    using wf_set_color [OF wft, of 2 v] u black(1) unfolding advances_def had_error_set_color by blast
  then show ?thesis using u(2) by simp
qed

text \<open>Visiting a white node blackens it, whatever bound is left beyond the white nodes.\<close>

lemma visit_goes:
  "wf_colors n st \<Longrightarrow> v \<in> painted n 0 st \<Longrightarrow> \<forall>g\<in>painted n 1 st. (g, v) \<in> E\<^sup>* \<Longrightarrow>
   card (painted n 0 st) \<le> k \<Longrightarrow> goes n H E st (\<lambda>t. v \<in> painted n 2 t) (visit k c v st)"
proof (induction k arbitrary: c v st)
  case 0
  then show ?case by (metis card_gt_0_iff empty_iff le_zero_eq less_numeral_extra(3) painted_finite)
next
  case (Suc k)
  let ?s = "set_color v 1 st"
  have v: "v < n" and white: "colors st ! v = 0" using Suc.prems(2) by (auto simp: painted_iff)
  show ?case
  proof (cases "here v")
    case True
    have wf: "wf_colors n ?s" by (rule wf_set_color [OF Suc.prems(1)]) simp
    have paint: "painted n 1 ?s = insert v (painted n 1 st)" "painted n 0 ?s = painted n 0 st - {v}"
      using painted_set_color [OF Suc.prems(1) v] white by (auto simp: painted_iff)
    have card: "card (painted n 0 ?s) \<le> k" using Suc.prems(2,4) unfolding paint(2) by simp
    have grey1: "v \<in> painted n 1 ?s" and path1: "\<forall>g\<in>painted n 1 ?s. (g, v) \<in> E\<^sup>*"
      unfolding paint(1) using Suc.prems(3) by simp_all
    have "goes n H E ?s (led_black (out v)) (edges k c v (out v) ?s)"
      by (rule edges_advance [OF Suc.IH v subset_refl wf grey1 path1 card])
    then show ?thesis
      using leave_advances [OF Suc.prems(1,2) True]
      by (cases "edges k c v (out v) ?s") (auto simp: goes_def visit_Suc [OF v True] split: if_splits)
  next
    case False
    then show ?thesis using visit_missing [OF v False, of k c st] v by (auto simp: goes_def)
  qed
qed

text \<open>The whole search.\<close>

lemma roots_go:
  "set is \<subseteq> {..<n} \<Longrightarrow> wf_colors n st \<Longrightarrow> painted n 1 st = {} \<Longrightarrow> n \<le> k \<Longrightarrow>
   goes n H E st (\<lambda>t. set is \<subseteq> painted n 2 t) (visit_roots (visit k c) is st)"
proof (induction "is" arbitrary: st)
  case Nil
  then show ?case by (simp add: advances_refl goes_def)
next
  case (Cons i "is")
  have i: "i < n" "set is \<subseteq> {..<n}" using Cons.prems(1) by auto
  have next_ok: "goes n H E st (\<lambda>t. set (i # is) \<subseteq> painted n 2 t) (visit_roots (visit k c) is s)"
    if adv: "advances n H E st s" and bl: "i \<in> painted n 2 s" for s
  proof -
    have grey: "painted n 1 s = {}" unfolding advancesD(2) [OF adv] by (rule Cons.prems(3))
    have "goes n H E s (\<lambda>t. set is \<subseteq> painted n 2 t) (visit_roots (visit k c) is s)"
      by (rule Cons.IH [OF i(2) advancesD(1) [OF adv] grey Cons.prems(4)])
    from goes_after [OF adv this] show ?thesis
      by (rule goes_mono) (use bl advancesD(3) in fastforce)
  qed
  show ?case
  proof (cases "colors st ! i = 0")
    case True
    have "card (painted n 0 st) \<le> card {..<n}" by (rule card_mono) (auto simp: painted_iff)
    then have card: "card (painted n 0 st) \<le> k" using Cons.prems(4) by simp
    have white: "i \<in> painted n 0 st" using True i(1) by (simp add: painted_iff)
    have grey: "\<forall>g\<in>painted n 1 st. (g, i) \<in> E\<^sup>*" unfolding Cons.prems(3) by simp
    have "goes n H E st (\<lambda>t. set (i # is) \<subseteq> painted n 2 t)
        (case visit k c i st of (ok, st1) \<Rightarrow> if ok then visit_roots (visit k c) is st1 else (False, st1))"
      by (rule goes_bind [OF visit_goes [OF Cons.prems(2) white grey card]]) (rule next_ok)
    then show ?thesis using True by simp
  next
    case False
    then have "i \<notin> painted n 0 st" by (simp add: painted_iff)
    then have "i \<in> painted n 2 st"
      using painted_coverD [OF Cons.prems(2) i(1)] unfolding Cons.prems(3) by blast
    with next_ok [OF advances_refl [OF Cons.prems(2)]] False show ?thesis by simp
  qed
qed

lemma search_decides:
  assumes "colors st = replicate n 0" "n \<le> k"
  obtains ok st' where "visit_roots (visit k c) [0..<n] st = (ok, st')"
    and "ok \<longleftrightarrow> (\<forall>v<n. here v)"
    and "ok \<Longrightarrow> had_error st' \<longleftrightarrow> had_error st \<or> (\<exists>v. (v, v) \<in> E\<^sup>+)"
proof -
  have wf: "wf_colors n st" and grey: "painted n 1 st = {}" and black: "painted n 2 st = {}"
    using assms(1) by (auto simp: wf_colors_def painted_def)
  obtain ok st' where run: "visit_roots (visit k c) [0..<n] st = (ok, st')" by (rule prod.exhaust)
  have gone: "goes n H E st (\<lambda>t. set [0..<n] \<subseteq> painted n 2 t) (ok, st')"
    using roots_go [OF _ wf grey assms(2), of "[0..<n]" c] run by (auto simp: subset_iff)
  have ok: "ok \<longleftrightarrow> (\<forall>v<n. here v)"
  proof
    assume ok
    then have "painted n 2 st' \<subseteq> H" "set [0..<n] \<subseteq> painted n 2 st'"
      using gone advancesD(4) [of n H E st st'] black by (auto simp: goes_def)
    then show "\<forall>v<n. here v" by (auto simp: subset_iff)
  qed (use gone in \<open>auto simp: goes_def split: if_splits\<close>)
  have "had_error st' \<longleftrightarrow> had_error st \<or> (\<exists>v. (v, v) \<in> E\<^sup>+)" if ok
  proof -
    have adv: "advances n H E st st'" and all: "set [0..<n] \<subseteq> painted n 2 st'"
      using gone that by (simp_all add: goes_def)
    have "had_error st'" if "(v, v) \<in> E\<^sup>+" for v
    proof (rule ccontr)
      assume "\<not> had_error st'"
      moreover have "clean n E st" by (simp add: clean_def black)
      ultimately have "clean n E st'" using adv by (simp add: advances_def)
      moreover have "v < n" using that by (auto simp: edge_rel_def dest: tranclD)
      ultimately show False using that all by (auto simp: clean_def)
    qed
    then show ?thesis using adv by (auto simp: advances_def)
  qed
  with run ok show ?thesis by (rule that)
qed

end

end
