(* ===== verification/Bm_Cycles.thy ===== *)
theory Bm_Cycles
  imports Three_Colour
begin

text \<open>
  The validators of \<open>src_v2/build_model/build_model_validate_cycles.c\<close>: the search for cycles
  among the explicit dependencies of a draft, and the checks of the frozen build graph. The
  records keep the fields the validators read. Identifiers are indices; the invalid one is
  \<open>UINT32_MAX\<close>. The two views the searches ask of \<open>build_model_query.c\<close> are parameters:
  given an identifier and an evaluation context they return the view, or fail.

  The recursion of a visit is bounded by the number of nodes, and \<open>Bm_Cycles_Props\<close> shows that
  the bound is never reached. Scratch memory is assumed to be there, and the \<open>NULL\<close> tests of
  the static functions are made once, by the functions that call them.
\<close>

section \<open>Explicit dependencies\<close>

fun find_name :: "bm_name_index_entry list \<Rightarrow> string_view \<Rightarrow> nat" where
  "find_name [] name = BM_ID_INVALID"
| "find_name (e # es) name = (if nob_sv_eq (ne_name e) name then ne_id e else find_name es name)"

definition bm_draft_find_target_id :: "build_model_draft \<Rightarrow> string_view \<Rightarrow> nat" where
  "bm_draft_find_target_id d name = find_name (target_name_index d) name"

text \<open>The loop of a visit over the dependency names, with the visit as its argument.\<close>

fun bm_cycle_deps ::
  "build_model_draft \<Rightarrow> (nat \<Rightarrow> cycle_state \<Rightarrow> bool \<times> cycle_state) \<Rightarrow> nat \<Rightarrow> string_view list \<Rightarrow>
   cycle_state \<Rightarrow> bool \<times> cycle_state" where
  "bm_cycle_deps d visit tid [] st = (True, st)"
| "bm_cycle_deps d visit tid (name # names) st =
     (let dep = bm_draft_find_target_id d name in
      if dep = BM_ID_INVALID then bm_cycle_deps d visit tid names st
      else if colors st ! dep = 1 then
        bm_cycle_deps d visit tid names
          (bm_error (tg_provenance (dr_targets d ! tid)) ''cycles'' ''explicit target dependency cycle detected'' st)
      else if colors st ! dep = 0 then
        (case visit dep st of
           (ok, st1) \<Rightarrow> if ok then bm_cycle_deps d visit tid names st1 else (False, st1))
      else bm_cycle_deps d visit tid names st)"

fun bm_cycle_visit :: "build_model_draft \<Rightarrow> nat \<Rightarrow> nat \<Rightarrow> cycle_state \<Rightarrow> bool \<times> cycle_state" where
  "bm_cycle_visit d 0 tid st = (False, st)"
| "bm_cycle_visit d (Suc k) tid st =
     (case bm_cycle_deps d (bm_cycle_visit d k) tid (explicit_dependency_names (dr_targets d ! tid))
             (set_color tid 1 st) of
        (ok, st1) \<Rightarrow> if ok then (True, set_color tid 2 st1) else (False, st1))"

definition bm_validate_explicit_cycles :: "build_model_draft option \<Rightarrow> cycle_state \<Rightarrow> bool \<times> cycle_state" where
  "bm_validate_explicit_cycles draft st =
     (case draft of
        None \<Rightarrow> (False, st)
      | Some d \<Rightarrow>
          (let n = length (dr_targets d) in
           if n = 0 then (True, st)
           else visit_roots (bm_cycle_visit d n) [0..<n] (st\<lparr>colors := replicate n 0\<rparr>)))"

section \<open>Producers and owners\<close>

definition bm_build_step_produces_path :: "bm_build_step \<Rightarrow> string_view \<Rightarrow> bool" where
  "bm_build_step_produces_path step path \<longleftrightarrow>
     list_ex (\<lambda>x. nob_sv_eq x path) (effective_outputs step) \<or>
     list_ex (\<lambda>x. nob_sv_eq x path) (effective_byproducts step)"

abbreviation freeze_error :: "bm_provenance \<Rightarrow> string \<Rightarrow> cycle_state \<Rightarrow> cycle_state" where
  "freeze_error p cause \<equiv> bm_error p ''freeze'' cause"

text \<open>The innermost loops: one report for every path of a list equal to the given one.\<close>

fun report_equal :: "bm_provenance \<Rightarrow> string \<Rightarrow> string_view \<Rightarrow> string_view list \<Rightarrow> cycle_state \<Rightarrow> cycle_state" where
  "report_equal p cause path [] st = st"
| "report_equal p cause path (x # xs) st =
     (if nob_sv_eq path x then report_equal p cause path xs (freeze_error p cause st)
      else report_equal p cause path xs st)"

definition for_upto :: "nat \<Rightarrow> (nat \<Rightarrow> cycle_state \<Rightarrow> cycle_state) \<Rightarrow> cycle_state \<Rightarrow> cycle_state" where
  "for_upto n body st = fold body [0..<n] st"

text \<open>Output \<open>j\<close> of step \<open>i\<close>, and byproduct \<open>j\<close> of step \<open>i\<close>, against every step \<open>k\<close>.\<close>

definition check_output :: "build_model \<Rightarrow> nat \<Rightarrow> nat \<Rightarrow> nat \<Rightarrow> cycle_state \<Rightarrow> cycle_state" where
  "check_output m i j k st =
     (let cause = ''duplicate build-step producer for effective output path'';
          path = effective_outputs (build_steps m ! i) ! j;
          rhs = build_steps m ! k;
          start = (if i = k then j + 1 else 0)
      in report_equal (st_provenance rhs) cause path (effective_byproducts rhs)
           (report_equal (st_provenance rhs) cause path (drop start (effective_outputs rhs)) st))"

definition check_byproduct :: "build_model \<Rightarrow> nat \<Rightarrow> nat \<Rightarrow> nat \<Rightarrow> cycle_state \<Rightarrow> cycle_state" where
  "check_byproduct m i j k st =
     (let cause = ''duplicate build-step producer for effective byproduct path'';
          path = effective_byproducts (build_steps m ! i) ! j;
          rhs = build_steps m ! k;
          start = (if i = k then j + 1 else 0)
      in report_equal (st_provenance rhs) cause path (drop start (effective_byproducts rhs))
           (report_equal (st_provenance rhs) cause path (effective_outputs rhs) st))"

definition bm_validate_duplicate_step_producers :: "build_model \<Rightarrow> cycle_state \<Rightarrow> cycle_state" where
  "bm_validate_duplicate_step_producers m st =
     (let n = length (build_steps m) in
      for_upto n (\<lambda>i st.
        for_upto (length (effective_byproducts (build_steps m ! i))) (\<lambda>j. for_upto n (check_byproduct m i j))
          (for_upto (length (effective_outputs (build_steps m ! i))) (\<lambda>j. for_upto n (check_output m i j)) st)) st)"

fun bm_target_kind_is_hook_owner :: "bm_target_kind \<Rightarrow> bool" where
  "bm_target_kind_is_hook_owner BM_TARGET_EXECUTABLE = True"
| "bm_target_kind_is_hook_owner BM_TARGET_STATIC_LIBRARY = True"
| "bm_target_kind_is_hook_owner BM_TARGET_SHARED_LIBRARY = True"
| "bm_target_kind_is_hook_owner BM_TARGET_MODULE_LIBRARY = True"
| "bm_target_kind_is_hook_owner _ = False"

definition check_step_owner :: "build_model \<Rightarrow> bm_build_step \<Rightarrow> cycle_state \<Rightarrow> cycle_state" where
  "check_step_owner m step st =
     (let tid = st_owner_target_id step in
      if tid \<noteq> BM_ID_INVALID \<and> tid \<ge> length (targets m) then
        freeze_error (st_provenance step) ''build step owner target id is invalid'' st
      else
        (let owner = (if tid \<noteq> BM_ID_INVALID then Some (targets m ! tid) else None) in
         case st_kind step of
           BM_BUILD_STEP_OUTPUT_RULE \<Rightarrow> st
         | BM_BUILD_STEP_CUSTOM_TARGET \<Rightarrow>
             (case owner of
                None \<Rightarrow> freeze_error (st_provenance step) ''custom-target build step must belong to a local utility target'' st
              | Some t \<Rightarrow>
                  if tg_kind t \<noteq> BM_TARGET_UTILITY \<or> tg_alias t \<or> tg_imported t then
                    freeze_error (st_provenance step) ''custom-target build step must belong to a local utility target'' st
                  else st)
         | _ \<Rightarrow>
             (case owner of
                None \<Rightarrow> freeze_error (st_provenance step) ''target hook build step must belong to a concrete local build target'' st
              | Some t \<Rightarrow>
                  if \<not> bm_target_kind_is_hook_owner (tg_kind t) \<or> tg_alias t \<or> tg_imported t then
                    freeze_error (st_provenance step) ''target hook build step must belong to a concrete local build target'' st
                  else st)))"

definition bm_validate_step_owner_contracts :: "build_model \<Rightarrow> cycle_state \<Rightarrow> cycle_state" where
  "bm_validate_step_owner_contracts m st = fold (check_step_owner m) (build_steps m) st"

definition check_source_producer :: "build_model \<Rightarrow> bm_target_source \<Rightarrow> cycle_state \<Rightarrow> cycle_state" where
  "check_source_producer m src st =
     (if src_producer_step_id src = BM_ID_INVALID then st
      else if src_producer_step_id src \<ge> length (build_steps m) then
        freeze_error (src_provenance src) ''target source points at an invalid producer step id'' st
      else
        (let producer = build_steps m ! src_producer_step_id src in
         if \<not> src_generated src \<or> \<not> bm_build_step_produces_path producer (src_effective_path src) then
           freeze_error (src_provenance src) ''target source producer step does not own the effective generated path'' st
         else st))"

definition bm_validate_target_source_producers :: "build_model \<Rightarrow> cycle_state \<Rightarrow> cycle_state" where
  "bm_validate_target_source_producers m st =
     fold (\<lambda>t. fold (check_source_producer m) (tg_source_records t)) (targets m) st"

section \<open>The execution graph\<close>

datatype bm_query_usage = BM_QUERY_USAGE_COMPILE | BM_QUERY_USAGE_LINK

record bm_query_ctx =
  q_config :: string_view
  q_platform_id :: string_view
  q_compile_language :: string_view
  q_install_prefix :: string_view
  q_current_target_id :: nat
  q_usage_mode :: bm_query_usage
  q_build_interface :: bool
  q_build_local_interface :: bool
  q_install_interface :: bool

datatype bm_exec_node = Exec_Target nat | Exec_Step nat

record bm_order_view =
  explicit_prerequisites :: "bm_exec_node list"
  pre_build_steps :: "bm_exec_node list"
  generated_source_steps :: "bm_exec_node list"
  link_prerequisites :: "bm_exec_node list"
  pre_link_steps :: "bm_exec_node list"
  post_build_steps :: "bm_exec_node list"
  custom_target_steps :: "bm_exec_node list"

record bm_step_view =
  target_dependencies :: "nat list"
  producer_dependencies :: "nat list"

type_synonym order_query = "nat \<Rightarrow> bm_query_ctx \<Rightarrow> bm_order_view option"
type_synonym step_query = "nat \<Rightarrow> bm_query_ctx \<Rightarrow> bm_step_view option"
type_synonym exec_visitor = "bm_query_ctx \<Rightarrow> bm_exec_node \<Rightarrow> cycle_state \<Rightarrow> bool \<times> cycle_state"

fun bm_exec_node_index :: "build_model \<Rightarrow> bm_exec_node \<Rightarrow> nat" where
  "bm_exec_node_index m (Exec_Target i) = i"
| "bm_exec_node_index m (Exec_Step i) = length (targets m) + i"

fun bm_exec_node_provenance :: "build_model \<Rightarrow> bm_exec_node \<Rightarrow> bm_provenance" where
  "bm_exec_node_provenance m (Exec_Target i) =
     (if i < length (targets m) then tg_provenance (targets m ! i) else empty_provenance)"
| "bm_exec_node_provenance m (Exec_Step i) =
     (if i < length (build_steps m) then st_provenance (build_steps m ! i) else empty_provenance)"

definition bm_exec_visit_edge ::
  "build_model \<Rightarrow> exec_visitor \<Rightarrow> bm_exec_node \<Rightarrow> bm_exec_node \<Rightarrow> bm_query_ctx \<Rightarrow> cycle_state \<Rightarrow> bool \<times> cycle_state" where
  "bm_exec_visit_edge m visit from_node to_node ctx st =
     (let i = bm_exec_node_index m to_node in
      if colors st ! i = 1 then
        (True, freeze_error (bm_exec_node_provenance m from_node)
                 ''execution dependency cycle detected in frozen build graph'' st)
      else if colors st ! i = 2 then (True, st)
      else visit ctx to_node st)"

text \<open>The loop over one span, stopping at the first failure; the spans of a view in order.\<close>

fun bm_exec_visit_order_span ::
  "build_model \<Rightarrow> exec_visitor \<Rightarrow> bm_exec_node \<Rightarrow> bm_exec_node list \<Rightarrow> bm_query_ctx \<Rightarrow> cycle_state \<Rightarrow>
   bool \<times> cycle_state" where
  "bm_exec_visit_order_span m visit owner [] ctx st = (True, st)"
| "bm_exec_visit_order_span m visit owner (node # nodes) ctx st =
     (case bm_exec_visit_edge m visit owner node ctx st of
        (ok, st1) \<Rightarrow> if ok then bm_exec_visit_order_span m visit owner nodes ctx st1 else (False, st1))"

fun bm_exec_visit_spans ::
  "build_model \<Rightarrow> exec_visitor \<Rightarrow> bm_exec_node \<Rightarrow> bm_exec_node list list \<Rightarrow> bm_query_ctx \<Rightarrow> cycle_state \<Rightarrow>
   bool \<times> cycle_state" where
  "bm_exec_visit_spans m visit owner [] ctx st = (True, st)"
| "bm_exec_visit_spans m visit owner (span # spans) ctx st =
     (case bm_exec_visit_order_span m visit owner span ctx st of
        (ok, st1) \<Rightarrow> if ok then bm_exec_visit_spans m visit owner spans ctx st1 else (False, st1))"

definition order_spans :: "bm_order_view \<Rightarrow> bm_exec_node list list" where
  "order_spans v =
     [explicit_prerequisites v, pre_build_steps v, generated_source_steps v, link_prerequisites v,
      pre_link_steps v, post_build_steps v, custom_target_steps v]"

definition target_ctx :: "bm_query_ctx \<Rightarrow> nat \<Rightarrow> bm_query_ctx" where
  "target_ctx ctx i =
     (if q_current_target_id ctx = BM_ID_INVALID then ctx\<lparr>q_current_target_id := i\<rparr> else ctx)
     \<lparr>q_usage_mode := BM_QUERY_USAGE_LINK\<rparr>"

definition bm_exec_visit_target ::
  "build_model \<Rightarrow> order_query \<Rightarrow> exec_visitor \<Rightarrow> nat \<Rightarrow> bm_query_ctx \<Rightarrow> cycle_state \<Rightarrow> bool \<times> cycle_state" where
  "bm_exec_visit_target m order_view visit i ctx st =
     (case order_view i (target_ctx ctx i) of
        None \<Rightarrow> (False, st)
      | Some view \<Rightarrow> bm_exec_visit_spans m visit (Exec_Target i) (order_spans view) (target_ctx ctx i) st)"

definition step_ctx :: "build_model \<Rightarrow> bm_query_ctx \<Rightarrow> nat \<Rightarrow> bm_query_ctx" where
  "step_ctx m ctx i =
     ctx\<lparr>q_current_target_id := st_owner_target_id (build_steps m ! i), q_usage_mode := BM_QUERY_USAGE_LINK\<rparr>"

definition bm_exec_visit_step ::
  "build_model \<Rightarrow> step_query \<Rightarrow> exec_visitor \<Rightarrow> nat \<Rightarrow> bm_query_ctx \<Rightarrow> cycle_state \<Rightarrow> bool \<times> cycle_state" where
  "bm_exec_visit_step m step_view visit i ctx st =
     (if i \<ge> length (build_steps m) then (False, st)
      else (case step_view i (step_ctx m ctx i) of
              None \<Rightarrow> (False, st)
            | Some view \<Rightarrow>
                bm_exec_visit_spans m visit (Exec_Step i)
                  [map Exec_Target (target_dependencies view), map Exec_Step (producer_dependencies view)]
                  (step_ctx m ctx i) st))"

fun bm_exec_visit_node ::
  "build_model \<Rightarrow> order_query \<Rightarrow> step_query \<Rightarrow> nat \<Rightarrow> exec_visitor" where
  "bm_exec_visit_node m order_view step_view 0 ctx node st = (False, st)"
| "bm_exec_visit_node m order_view step_view (Suc k) ctx node st =
     (let i = bm_exec_node_index m node;
          visit = bm_exec_visit_node m order_view step_view k;
          (ok, st1) = (case node of
             Exec_Target t \<Rightarrow> bm_exec_visit_target m order_view visit t ctx (set_color i 1 st)
           | Exec_Step s \<Rightarrow> bm_exec_visit_step m step_view visit s ctx (set_color i 1 st))
      in if ok then (True, set_color i 2 st1) else (False, st1))"

definition exec_node_of :: "build_model \<Rightarrow> nat \<Rightarrow> bm_exec_node" where
  "exec_node_of m i = (if i < length (targets m) then Exec_Target i else Exec_Step (i - length (targets m)))"

text \<open>The two loops over the targets and over the steps are one loop over their indices.\<close>

definition bm_validate_execution_cycles_for_context ::
  "build_model \<Rightarrow> order_query \<Rightarrow> step_query \<Rightarrow> bm_query_ctx \<Rightarrow> cycle_state \<Rightarrow> bool \<times> cycle_state" where
  "bm_validate_execution_cycles_for_context m order_view step_view ctx st =
     (let n = length (targets m) + length (build_steps m) in
      if n = 0 then (True, st)
      else visit_roots (\<lambda>i. bm_exec_visit_node m order_view step_view n ctx (exec_node_of m i)) [0..<n]
             (st\<lparr>colors := replicate n 0\<rparr>))"

definition validation_ctx :: "string_view \<Rightarrow> bm_query_ctx" where
  "validation_ctx config =
     \<lparr>q_config = config, q_platform_id = [], q_compile_language = [], q_install_prefix = [],
      q_current_target_id = BM_ID_INVALID, q_usage_mode = BM_QUERY_USAGE_LINK,
      q_build_interface = True, q_build_local_interface = True, q_install_interface = False\<rparr>"

fun validate_contexts ::
  "build_model \<Rightarrow> order_query \<Rightarrow> step_query \<Rightarrow> string_view list \<Rightarrow> cycle_state \<Rightarrow> bool \<times> cycle_state" where
  "validate_contexts m order_view step_view [] st = (True, st)"
| "validate_contexts m order_view step_view (config # configs) st =
     (case bm_validate_execution_cycles_for_context m order_view step_view (validation_ctx config) st of
        (ok, st1) \<Rightarrow> if ok then validate_contexts m order_view step_view configs st1 else (False, st1))"

definition bm_validate_execution_cycles ::
  "build_model \<Rightarrow> order_query \<Rightarrow> step_query \<Rightarrow> cycle_state \<Rightarrow> bool \<times> cycle_state" where
  "bm_validate_execution_cycles m order_view step_view st =
     validate_contexts m order_view step_view (known_configurations m @ [[]]) st"

definition bm_validate_execution_graph ::
  "build_model option \<Rightarrow> order_query \<Rightarrow> step_query \<Rightarrow> cycle_state \<Rightarrow> bool \<times> cycle_state" where
  "bm_validate_execution_graph model order_view step_view st =
     (case model of
        None \<Rightarrow> (False, st)
      | Some m \<Rightarrow>
          bm_validate_execution_cycles m order_view step_view
            (bm_validate_target_source_producers m
              (bm_validate_step_owner_contracts m
                (bm_validate_duplicate_step_producers m st))))"

end
