(* ===== verification/Bm_Cycles_Props.thy ===== *)
theory Bm_Cycles_Props
  imports Bm_Cycles
begin

text \<open>
  What the graph validators decide. Both searches are shown to be three-colour searches, so
  that they inherit the theorem of \<open>Three_Colour\<close>; the loops over producers are shown to find
  exactly the paths produced twice.
\<close>

section \<open>Explicit dependencies\<close>

definition draft_ok :: "build_model_draft \<Rightarrow> bool" where
  "draft_ok d \<longleftrightarrow>
     length (dr_targets d) \<le> BM_ID_INVALID \<and>
     (\<forall>e\<in>set (target_name_index d). ne_id e < length (dr_targets d))"

definition dep_target :: "build_model_draft \<Rightarrow> string_view \<Rightarrow> nat option" where
  "dep_target d name =
     (let i = bm_draft_find_target_id d name in if i = BM_ID_INVALID then None else Some i)"

definition dep_graph :: "build_model_draft \<Rightarrow> (nat \<times> nat) set" where
  "dep_graph d = edge_rel (length (dr_targets d)) (\<lambda>v. explicit_dependency_names (dr_targets d ! v)) (dep_target d)"

lemma find_name_in: "find_name es name = BM_ID_INVALID \<or> (\<exists>e\<in>set es. ne_id e = find_name es name)"
  by (induction es) auto

lemma dep_target_range: "draft_ok d \<Longrightarrow> dep_target d name = Some w \<Longrightarrow> w < length (dr_targets d)"
  using find_name_in [of "target_name_index d" name]
  by (auto simp: dep_target_def draft_ok_def bm_draft_find_target_id_def Let_def split: if_splits)

lemma bm_error_simps [simp]:
  "colors (bm_error p c m st) = colors st" "had_error (bm_error p c m st)"
  by (simp_all add: bm_error_def)

interpretation explicit: three_colour
  "if draft_ok d then length (dr_targets d) else 0"
  "\<lambda>v. True"
  "\<lambda>v. explicit_dependency_names (dr_targets d ! v)"
  "dep_target d"
  "\<lambda>(c :: unit) v. c"
  "\<lambda>k c. bm_cycle_visit d k"
  "\<lambda>k c. bm_cycle_deps d (bm_cycle_visit d k)"
  "\<lambda>v. bm_error (tg_provenance (dr_targets d ! v)) ''cycles'' ''explicit target dependency cycle detected''"
  for d
proof (unfold_locales, goal_cases)
  case (1 v e w)
  then show ?case using dep_target_range by (auto split: if_splits)
next
  case (5 v e st k c es)
  then show ?case by (auto simp: dep_target_def Let_def)
qed auto

section \<open>The execution graph\<close>

definition node_ok :: "build_model \<Rightarrow> bm_exec_node \<Rightarrow> bool" where
  "node_ok m node =
     (case node of Exec_Target i \<Rightarrow> i < length (targets m) | Exec_Step i \<Rightarrow> i < length (build_steps m))"

lemma exec_node_of_index: "node_ok m node \<Longrightarrow> exec_node_of m (bm_exec_node_index m node) = node"
  by (cases node) (auto simp: node_ok_def exec_node_of_def)

lemma node_index_range: "node_ok m node \<Longrightarrow> bm_exec_node_index m node < length (targets m) + length (build_steps m)"
  by (cases node) (auto simp: node_ok_def)

text \<open>
  What the searches rely on of the two queries. The order view of a target does not depend on
  the current target of the context (the query replaces it by the target asked for), and the views
  they return name existing targets and steps only. A query may fail, as it does when a generator
  expression cannot be evaluated: \<open>has_view\<close> says whether there is a view of a node.
\<close>

definition ctx_at :: "string_view \<Rightarrow> nat \<Rightarrow> bm_query_ctx" where
  "ctx_at config i = (validation_ctx config)\<lparr>q_current_target_id := i\<rparr>"

definition views_sound :: "build_model \<Rightarrow> order_query \<Rightarrow> step_query \<Rightarrow> string_view \<Rightarrow> bool" where
  "views_sound m order_view step_view config \<longleftrightarrow>
     (\<forall>i<length (targets m).
        (\<forall>c. order_view i (ctx_at config c) = order_view i (ctx_at config i)) \<and>
        (\<forall>view. order_view i (ctx_at config i) = Some view \<longrightarrow>
           (\<forall>node\<in>set (concat (order_spans view)). node_ok m node))) \<and>
     (\<forall>i<length (build_steps m).
        \<forall>view. step_view i (ctx_at config (st_owner_target_id (build_steps m ! i))) = Some view \<longrightarrow>
           (\<forall>j\<in>set (target_dependencies view). j < length (targets m)) \<and>
           (\<forall>j\<in>set (producer_dependencies view). j < length (build_steps m)))"

definition has_view :: "build_model \<Rightarrow> order_query \<Rightarrow> step_query \<Rightarrow> string_view \<Rightarrow> nat \<Rightarrow> bool" where
  "has_view m order_view step_view config v =
     (case exec_node_of m v of
        Exec_Target i \<Rightarrow> order_view i (ctx_at config i) \<noteq> None
      | Exec_Step i \<Rightarrow> step_view i (ctx_at config (st_owner_target_id (build_steps m ! i))) \<noteq> None)"

definition all_views :: "build_model \<Rightarrow> order_query \<Rightarrow> step_query \<Rightarrow> string_view \<Rightarrow> bool" where
  "all_views m order_view step_view config \<longleftrightarrow>
     (\<forall>v<length (targets m) + length (build_steps m). has_view m order_view step_view config v)"

text \<open>What a node waits for, nothing being known without a view; and the graph of a configuration.\<close>

definition exec_out :: "build_model \<Rightarrow> order_query \<Rightarrow> step_query \<Rightarrow> string_view \<Rightarrow> nat \<Rightarrow> bm_exec_node list" where
  "exec_out m order_view step_view config v =
     (case exec_node_of m v of
        Exec_Target i \<Rightarrow>
          (case order_view i (ctx_at config i) of None \<Rightarrow> [] | Some view \<Rightarrow> concat (order_spans view))
      | Exec_Step i \<Rightarrow>
          (case step_view i (ctx_at config (st_owner_target_id (build_steps m ! i))) of
             None \<Rightarrow> []
           | Some view \<Rightarrow> map Exec_Target (target_dependencies view) @ map Exec_Step (producer_dependencies view)))"

definition exec_graph :: "build_model \<Rightarrow> order_query \<Rightarrow> step_query \<Rightarrow> string_view \<Rightarrow> (nat \<times> nat) set" where
  "exec_graph m order_view step_view config =
     edge_rel (length (targets m) + length (build_steps m)) (exec_out m order_view step_view config)
       (\<lambda>node. Some (bm_exec_node_index m node))"

text \<open>The current target a visit of node \<open>v\<close> passes on.\<close>

definition inner_target :: "build_model \<Rightarrow> nat \<Rightarrow> nat \<Rightarrow> nat" where
  "inner_target m c v =
     (case exec_node_of m v of
        Exec_Target i \<Rightarrow> if c = BM_ID_INVALID then i else c
      | Exec_Step i \<Rightarrow> st_owner_target_id (build_steps m ! i))"

lemma target_ctx_at: "target_ctx (ctx_at config c) i = ctx_at config (if c = BM_ID_INVALID then i else c)"
  by (simp add: target_ctx_def ctx_at_def validation_ctx_def)

lemma step_ctx_at: "step_ctx m (ctx_at config c) i = ctx_at config (st_owner_target_id (build_steps m ! i))"
  by (simp add: step_ctx_def ctx_at_def validation_ctx_def)

lemma visit_span_append:
  "bm_exec_visit_order_span m visit owner (xs @ ys) ctx st =
     (case bm_exec_visit_order_span m visit owner xs ctx st of
        (ok, st1) \<Rightarrow> if ok then bm_exec_visit_order_span m visit owner ys ctx st1 else (False, st1))"
  by (induction xs arbitrary: st) (auto split: prod.split)

lemma visit_spans_concat:
  "bm_exec_visit_spans m visit owner spans ctx st =
     bm_exec_visit_order_span m visit owner (concat spans) ctx st"
  by (induction spans arbitrary: st) (auto simp: visit_span_append split: prod.split)

lemma exec_visit_Suc:
  assumes ok: "views_sound m ov sv config" and v: "v < length (targets m) + length (build_steps m)"
    and here: "has_view m ov sv config v"
  shows "bm_exec_visit_node m ov sv (Suc k) (ctx_at config c) (exec_node_of m v) st =
    (case bm_exec_visit_order_span m (bm_exec_visit_node m ov sv k) (exec_node_of m v)
            (exec_out m ov sv config v) (ctx_at config (inner_target m c v)) (set_color v 1 st) of
       (good, st1) \<Rightarrow> if good then (True, set_color v 2 st1) else (False, st1))"
proof (cases "v < length (targets m)")
  case True
  then obtain view where view: "ov v (ctx_at config v) = Some view"
    using here by (auto simp: has_view_def exec_node_of_def)
  moreover have "ov v (ctx_at config c) = ov v (ctx_at config v)" for c
    using ok True unfolding views_sound_def by blast
  ultimately have "\<And>c. ov v (ctx_at config c) = Some view" by simp
  then show ?thesis using True
    by (simp add: exec_node_of_def exec_out_def inner_target_def bm_exec_visit_target_def target_ctx_at
        visit_spans_concat)
next
  case False
  let ?i = "v - length (targets m)"
  have i: "?i < length (build_steps m)" using v False by simp
  obtain view where view: "sv ?i (ctx_at config (st_owner_target_id (build_steps m ! ?i))) = Some view"
    using here False by (auto simp: has_view_def exec_node_of_def)
  then show ?thesis using False i
    by (simp add: exec_node_of_def exec_out_def inner_target_def bm_exec_visit_step_def step_ctx_at
        visit_spans_concat Let_def)
qed

lemma exec_visit_missing:
  assumes ok: "views_sound m ov sv config" and v: "v < length (targets m) + length (build_steps m)"
    and missing: "\<not> has_view m ov sv config v"
  shows "\<not> fst (bm_exec_visit_node m ov sv (Suc k) (ctx_at config c) (exec_node_of m v) st)"
proof (cases "v < length (targets m)")
  case True
  have "ov v (ctx_at config c) = ov v (ctx_at config v)" for c
    using ok True unfolding views_sound_def by blast
  moreover have "ov v (ctx_at config v) = None" using missing True by (simp add: has_view_def exec_node_of_def)
  ultimately show ?thesis using True
    by (simp add: exec_node_of_def bm_exec_visit_target_def target_ctx_at)
next
  case False
  then show ?thesis using missing
    by (simp add: has_view_def exec_node_of_def bm_exec_visit_step_def step_ctx_at)
qed

lemma exec_out_ok:
  assumes ok: "views_sound m ov sv config" and v: "v < length (targets m) + length (build_steps m)"
    and e: "e \<in> set (exec_out m ov sv config v)"
  shows "node_ok m e"
proof (cases "v < length (targets m)")
  case True
  then obtain view where view: "ov v (ctx_at config v) = Some view"
    using e by (cases "ov v (ctx_at config v)") (auto simp: exec_out_def exec_node_of_def)
  have "\<forall>node\<in>set (concat (order_spans view)). node_ok m node"
    using ok True view unfolding views_sound_def by blast
  then show ?thesis using e True view by (auto simp: exec_out_def exec_node_of_def)
next
  case False
  let ?i = "v - length (targets m)"
  have i: "?i < length (build_steps m)" using v False by simp
  obtain view where view: "sv ?i (ctx_at config (st_owner_target_id (build_steps m ! ?i))) = Some view"
    using e False
    by (cases "sv ?i (ctx_at config (st_owner_target_id (build_steps m ! ?i)))") (auto simp: exec_out_def exec_node_of_def)
  have "(\<forall>j\<in>set (target_dependencies view). j < length (targets m)) \<and>
      (\<forall>j\<in>set (producer_dependencies view). j < length (build_steps m))"
    using ok i view unfolding views_sound_def by blast
  then show ?thesis using e False view by (auto simp: exec_out_def exec_node_of_def Let_def node_ok_def)
qed

interpretation exec: three_colour
  "if views_sound m ov sv config then length (targets m) + length (build_steps m) else 0"
  "has_view m ov sv config"
  "exec_out m ov sv config"
  "\<lambda>node. Some (bm_exec_node_index m node)"
  "inner_target m"
  "\<lambda>k c v. bm_exec_visit_node m ov sv k (ctx_at config c) (exec_node_of m v)"
  "\<lambda>k c v es. bm_exec_visit_order_span m (bm_exec_visit_node m ov sv k) (exec_node_of m v) es
     (ctx_at config (inner_target m c v))"
  "\<lambda>v. bm_error (bm_exec_node_provenance m (exec_node_of m v)) ''freeze''
     ''execution dependency cycle detected in frozen build graph''"
  for m ov sv config
proof (unfold_locales, goal_cases)
  case (1 v e w)
  then show ?case using exec_out_ok node_index_range by (auto split: if_splits)
next
  case (2 v k c st)
  then show ?case using exec_visit_missing by (simp split: if_splits)
next
  case (3 v k c st)
  then show ?case using exec_visit_Suc by (simp split: if_splits)
next
  case (5 v e st k c es)
  then have "exec_node_of m (bm_exec_node_index m e) = e" "colors st ! bm_exec_node_index m e \<le> 2"
    using exec_out_ok exec_node_of_index by (auto split: if_splits)
  then show ?case by (auto simp: bm_exec_visit_edge_def le_Suc_eq numeral_2_eq_2 split: prod.split)
qed auto

section \<open>Producers\<close>

text \<open>A loop raises the flag when one of its rounds does.\<close>

lemma fold_error:
  "(\<And>x st. x \<in> set xs \<Longrightarrow> had_error (f x st) \<longleftrightarrow> had_error st \<or> P x) \<Longrightarrow>
   had_error (fold f xs st) \<longleftrightarrow> had_error st \<or> (\<exists>x\<in>set xs. P x)"
  by (induction xs arbitrary: st) auto

lemma for_upto_error:
  "(\<And>i st. i < n \<Longrightarrow> had_error (f i st) \<longleftrightarrow> had_error st \<or> P i) \<Longrightarrow>
   had_error (for_upto n f st) \<longleftrightarrow> had_error st \<or> (\<exists>i<n. P i)"
  unfolding for_upto_def using fold_error [of "[0..<n]" f P st] by (simp add: Bex_def)

lemma report_equal_error [simp]:
  "had_error (report_equal p cause path xs st) \<longleftrightarrow> had_error st \<or> path \<in> set xs"
proof (induction xs arbitrary: st)
  case (Cons x xs)
  then show ?case by (cases "path = x") simp_all
qed simp

definition step_paths :: "bm_build_step \<Rightarrow> string_view list" where
  "step_paths s = effective_outputs s @ effective_byproducts s"

definition producer_paths :: "build_model \<Rightarrow> string_view list" where
  "producer_paths m = concat (map step_paths (build_steps m))"

lemma distinct_later: "distinct xs \<longleftrightarrow> (\<forall>j<length xs. xs ! j \<notin> set (drop (Suc j) xs))"
  by (induction xs) (auto simp: All_less_Suc2)

lemma later_duplicate:
  "j < length xs \<Longrightarrow> xs ! j \<in> set (drop (Suc j) xs) \<Longrightarrow> \<not> distinct xs"
  "j < length xs \<Longrightarrow> xs ! j \<in> set ys \<Longrightarrow> set xs \<inter> set ys \<noteq> {}"
  using distinct_later [of xs] nth_mem [of j xs] by blast+

lemma distinct_concat_nth:
  "distinct (concat ls) \<longleftrightarrow>
     (\<forall>i<length ls. distinct (ls ! i)) \<and>
     (\<forall>i<length ls. \<forall>k<length ls. i \<noteq> k \<longrightarrow> set (ls ! i) \<inter> set (ls ! k) = {})"
proof (induction ls)
  case (Cons l ls)
  have "set l \<inter> set (concat ls) = {} \<longleftrightarrow> (\<forall>k<length ls. set l \<inter> set (ls ! k) = {})"
    unfolding set_concat set_conv_nth [of ls] by blast
  moreover have "(\<forall>i<Suc (length ls). \<forall>k<Suc (length ls). i \<noteq> k \<longrightarrow> set ((l # ls) ! i) \<inter> set ((l # ls) ! k) = {}) \<longleftrightarrow>
      (\<forall>k<length ls. set l \<inter> set (ls ! k) = {}) \<and>
      (\<forall>i<length ls. \<forall>k<length ls. i \<noteq> k \<longrightarrow> set (ls ! i) \<inter> set (ls ! k) = {})"
    unfolding All_less_Suc2 by (simp add: Int_commute) blast
  ultimately show ?case using Cons by (simp add: All_less_Suc2) blast
qed simp

text \<open>The clashes the four innermost loops look for.\<close>

definition output_clash :: "build_model \<Rightarrow> nat \<Rightarrow> nat \<Rightarrow> nat \<Rightarrow> bool" where
  "output_clash m i j k \<longleftrightarrow>
     effective_outputs (build_steps m ! i) ! j
       \<in> set (drop (if i = k then j + 1 else 0) (effective_outputs (build_steps m ! k)))
       \<union> set (effective_byproducts (build_steps m ! k))"

definition byproduct_clash :: "build_model \<Rightarrow> nat \<Rightarrow> nat \<Rightarrow> nat \<Rightarrow> bool" where
  "byproduct_clash m i j k \<longleftrightarrow>
     effective_byproducts (build_steps m ! i) ! j
       \<in> set (drop (if i = k then j + 1 else 0) (effective_byproducts (build_steps m ! k)))
       \<union> set (effective_outputs (build_steps m ! k))"

definition step_clash :: "build_model \<Rightarrow> nat \<Rightarrow> bool" where
  "step_clash m i \<longleftrightarrow>
     (\<exists>j<length (effective_outputs (build_steps m ! i)). \<exists>k<length (build_steps m). output_clash m i j k) \<or>
     (\<exists>j<length (effective_byproducts (build_steps m ! i)). \<exists>k<length (build_steps m). byproduct_clash m i j k)"

lemma check_output_error: "had_error (check_output m i j k st) \<longleftrightarrow> had_error st \<or> output_clash m i j k"
  by (auto simp: check_output_def output_clash_def Let_def)

lemma check_byproduct_error: "had_error (check_byproduct m i j k st) \<longleftrightarrow> had_error st \<or> byproduct_clash m i j k"
  by (auto simp: check_byproduct_def byproduct_clash_def Let_def)

lemma duplicate_producers_error:
  "had_error (bm_validate_duplicate_step_producers m st) \<longleftrightarrow>
     had_error st \<or> (\<exists>i<length (build_steps m). step_clash m i)"
  unfolding bm_validate_duplicate_step_producers_def Let_def
proof (rule for_upto_error)
  fix i st
  let ?n = "length (build_steps m)"
  have o: "had_error (for_upto ?n (check_output m i j) st) \<longleftrightarrow> had_error st \<or> (\<exists>k<?n. output_clash m i j k)" for j st
    by (rule for_upto_error) (rule check_output_error)
  have b: "had_error (for_upto ?n (check_byproduct m i j) st) \<longleftrightarrow> had_error st \<or> (\<exists>k<?n. byproduct_clash m i j k)" for j st
    by (rule for_upto_error) (rule check_byproduct_error)
  show "had_error (for_upto (length (effective_byproducts (build_steps m ! i))) (\<lambda>j. for_upto ?n (check_byproduct m i j))
          (for_upto (length (effective_outputs (build_steps m ! i))) (\<lambda>j. for_upto ?n (check_output m i j)) st))
        \<longleftrightarrow> had_error st \<or> step_clash m i"
    using for_upto_error [of _ "\<lambda>j. for_upto ?n (check_output m i j)", OF o]
      for_upto_error [of _ "\<lambda>j. for_upto ?n (check_byproduct m i j)", OF b]
    by (auto simp: step_clash_def)
qed

lemma step_clash_other:
  assumes "i < length (build_steps m)" "k < length (build_steps m)" "i \<noteq> k"
    and "path \<in> set (step_paths (build_steps m ! i))" "path \<in> set (step_paths (build_steps m ! k))"
  shows "step_clash m i"
proof -
  from assms(4) consider j where "j < length (effective_outputs (build_steps m ! i))"
      "path = effective_outputs (build_steps m ! i) ! j"
    | j where "j < length (effective_byproducts (build_steps m ! i))"
      "path = effective_byproducts (build_steps m ! i) ! j"
    by (auto simp: step_paths_def in_set_conv_nth)
  then show ?thesis
    using assms(2,3,5) by cases (auto simp: step_clash_def output_clash_def byproduct_clash_def step_paths_def)
qed

lemma step_clash_same:
  assumes "i < length (build_steps m)" "\<not> distinct (step_paths (build_steps m ! i))"
  shows "step_clash m i"
proof -
  let ?s = "build_steps m ! i"
  from assms(2) consider "\<not> distinct (effective_outputs ?s)" | "\<not> distinct (effective_byproducts ?s)"
    | path where "path \<in> set (effective_outputs ?s)" "path \<in> set (effective_byproducts ?s)"
    by (auto simp: step_paths_def)
  then show ?thesis
  proof cases
    case 1
    then obtain j where "j < length (effective_outputs ?s)" "output_clash m i j i"
      by (auto simp: distinct_later [of "effective_outputs ?s"] output_clash_def)
    then show ?thesis using assms(1) by (auto simp: step_clash_def)
  next
    case 2
    then obtain j where "j < length (effective_byproducts ?s)" "byproduct_clash m i j i"
      by (auto simp: distinct_later [of "effective_byproducts ?s"] byproduct_clash_def)
    then show ?thesis using assms(1) by (auto simp: step_clash_def)
  next
    case 3
    then obtain j where "j < length (effective_outputs ?s)" "output_clash m i j i"
      by (auto simp: in_set_conv_nth [of _ "effective_outputs ?s"] output_clash_def)
    then show ?thesis using assms(1) by (auto simp: step_clash_def)
  qed
qed

lemma clash_not_distinct: "(\<exists>i<length (build_steps m). step_clash m i) \<longleftrightarrow> \<not> distinct (producer_paths m)"
proof
  let ?n = "length (build_steps m)" and ?p = "\<lambda>i. step_paths (build_steps m ! i)"
  assume "\<exists>i<?n. step_clash m i"
  then obtain i where i: "i < ?n" "step_clash m i" by blast
  have clash: "\<not> distinct (producer_paths m)"
    if "k < ?n" "path \<in> set (?p i)" "path \<in> set (?p k)" "i = k \<longrightarrow> \<not> distinct (?p i)" for k path
    using that i(1) unfolding producer_paths_def distinct_concat_nth by (cases "i = k") auto
  have out: "\<not> distinct (producer_paths m)" if "output_clash m i j k" "j < length (effective_outputs (build_steps m ! i))" "k < ?n" for j k
  proof (rule clash [OF that(3), of "effective_outputs (build_steps m ! i) ! j"])
    show "i = k \<longrightarrow> \<not> distinct (?p i)"
      using that later_duplicate [of j] by (auto simp: output_clash_def step_paths_def)
  qed (use that in \<open>auto simp: output_clash_def step_paths_def dest: in_set_dropD split: if_splits\<close>)
  have byp: "\<not> distinct (producer_paths m)" if "byproduct_clash m i j k" "j < length (effective_byproducts (build_steps m ! i))" "k < ?n" for j k
  proof (rule clash [OF that(3), of "effective_byproducts (build_steps m ! i) ! j"])
    show "i = k \<longrightarrow> \<not> distinct (?p i)"
      using that later_duplicate [of j] by (auto simp: byproduct_clash_def step_paths_def)
  qed (use that in \<open>auto simp: byproduct_clash_def step_paths_def dest: in_set_dropD split: if_splits\<close>)
  show "\<not> distinct (producer_paths m)" using i(2) out byp by (auto simp: step_clash_def)
next
  let ?n = "length (build_steps m)"
  assume "\<not> distinct (producer_paths m)"
  then consider i where "i < ?n" "\<not> distinct (step_paths (build_steps m ! i))"
    | i k path where "i < ?n" "k < ?n" "i \<noteq> k" "path \<in> set (step_paths (build_steps m ! i))"
        "path \<in> set (step_paths (build_steps m ! k))"
    unfolding producer_paths_def distinct_concat_nth by auto
  then show "\<exists>i<?n. step_clash m i"
    using step_clash_same step_clash_other by cases blast+
qed

section \<open>Owners and generated sources\<close>

definition owner_contract :: "build_model \<Rightarrow> bm_build_step \<Rightarrow> bool" where
  "owner_contract m s \<longleftrightarrow>
     (if st_owner_target_id s = BM_ID_INVALID then st_kind s = BM_BUILD_STEP_OUTPUT_RULE
      else st_owner_target_id s < length (targets m) \<and>
        (st_kind s = BM_BUILD_STEP_OUTPUT_RULE \<or>
         (let t = targets m ! st_owner_target_id s in
          \<not> tg_alias t \<and> \<not> tg_imported t \<and>
          (if st_kind s = BM_BUILD_STEP_CUSTOM_TARGET then tg_kind t = BM_TARGET_UTILITY
           else bm_target_kind_is_hook_owner (tg_kind t)))))"

definition source_contract :: "build_model \<Rightarrow> bm_target_source \<Rightarrow> bool" where
  "source_contract m src \<longleftrightarrow>
     src_producer_step_id src = BM_ID_INVALID \<or>
     (src_producer_step_id src < length (build_steps m) \<and> src_generated src \<and>
      src_effective_path src \<in> set (step_paths (build_steps m ! src_producer_step_id src)))"

lemma check_step_owner_error: "had_error (check_step_owner m s st) \<longleftrightarrow> had_error st \<or> \<not> owner_contract m s"
  by (cases "st_kind s") (auto simp: check_step_owner_def owner_contract_def Let_def)

lemma produces_path_iff: "bm_build_step_produces_path s path \<longleftrightarrow> path \<in> set (step_paths s)"
  by (auto simp: bm_build_step_produces_path_def step_paths_def list_ex_iff)

lemma check_source_producer_error:
  "had_error (check_source_producer m src st) \<longleftrightarrow> had_error st \<or> \<not> source_contract m src"
  by (auto simp: check_source_producer_def source_contract_def Let_def produces_path_iff)

lemma step_owner_contracts_error:
  "had_error (bm_validate_step_owner_contracts m st) \<longleftrightarrow>
     had_error st \<or> (\<exists>s\<in>set (build_steps m). \<not> owner_contract m s)"
  unfolding bm_validate_step_owner_contracts_def by (rule fold_error) (rule check_step_owner_error)

lemma source_producers_error:
  "had_error (bm_validate_target_source_producers m st) \<longleftrightarrow>
     had_error st \<or> (\<exists>t\<in>set (targets m). \<exists>src\<in>set (tg_source_records t). \<not> source_contract m src)"
  unfolding bm_validate_target_source_producers_def
  by (rule fold_error) (rule fold_error, rule check_source_producer_error)

section \<open>All configurations\<close>

lemma validate_context_decides:
  assumes "views_sound m ov sv config"
  shows "\<exists>ok st'. bm_validate_execution_cycles_for_context m ov sv (validation_ctx config) st = (ok, st') \<and>
    (ok \<longleftrightarrow> all_views m ov sv config) \<and>
    (ok \<longrightarrow> (had_error st' \<longleftrightarrow> had_error st \<or> (\<exists>v. (v, v) \<in> (exec_graph m ov sv config)\<^sup>+)))"
proof -
  let ?n = "length (targets m) + length (build_steps m)"
  have ctx: "validation_ctx config = ctx_at config BM_ID_INVALID"
    by (simp add: ctx_at_def validation_ctx_def)
  have "colors (st\<lparr>colors := replicate ?n 0\<rparr>) = replicate ?n 0" by simp
  note search = exec.search_decides [where m = m and ov = ov and sv = sv and config = config and c = BM_ID_INVALID,
      unfolded if_P [OF assms], OF this order_refl, unfolded all_views_def [symmetric] exec_graph_def [symmetric]]
  obtain ok st' where st': "visit_roots (\<lambda>i. bm_exec_visit_node m ov sv ?n (ctx_at config BM_ID_INVALID) (exec_node_of m i)) [0..<?n]
      (st\<lparr>colors := replicate ?n 0\<rparr>) = (ok, st')"
    "(ok \<longleftrightarrow> all_views m ov sv config) \<and>
     (ok \<longrightarrow> (had_error st' \<longleftrightarrow> had_error st \<or> (\<exists>v. (v, v) \<in> (exec_graph m ov sv config)\<^sup>+)))"
    by (rule search) simp
  show ?thesis
  proof (cases "?n = 0")
    case True
    then have "exec_graph m ov sv config = {}" "all_views m ov sv config"
      by (simp_all add: exec_graph_def edge_rel_def all_views_def)
    then show ?thesis
      by (intro exI [of _ True] exI [of _ st]) (use True in \<open>simp add: bm_validate_execution_cycles_for_context_def\<close>)
  next
    case False
    have "bm_validate_execution_cycles_for_context m ov sv (validation_ctx config) st = (ok, st')"
      unfolding bm_validate_execution_cycles_for_context_def Let_def ctx if_not_P [OF False] by (rule st'(1))
    then show ?thesis using st'(2) by blast
  qed
qed

lemma validate_contexts_decide:
  "\<forall>config\<in>set configs. views_sound m ov sv config \<Longrightarrow>
   \<exists>ok st'. validate_contexts m ov sv configs st = (ok, st') \<and>
     (ok \<longleftrightarrow> (\<forall>config\<in>set configs. all_views m ov sv config)) \<and>
     (ok \<longrightarrow> (had_error st' \<longleftrightarrow> had_error st \<or> (\<exists>config\<in>set configs. \<exists>v. (v, v) \<in> (exec_graph m ov sv config)\<^sup>+)))"
proof (induction configs arbitrary: st)
  case (Cons config configs)
  have sound: "views_sound m ov sv config" and sounds: "\<forall>config\<in>set configs. views_sound m ov sv config"
    using Cons.prems by simp_all
  obtain good s where s: "bm_validate_execution_cycles_for_context m ov sv (validation_ctx config) st = (good, s)"
    "good \<longleftrightarrow> all_views m ov sv config"
    "good \<longrightarrow> (had_error s \<longleftrightarrow> had_error st \<or> (\<exists>v. (v, v) \<in> (exec_graph m ov sv config)\<^sup>+))"
    using validate_context_decides [OF sound] by blast
  obtain ok st' where "validate_contexts m ov sv configs s = (ok, st')"
    "ok \<longleftrightarrow> (\<forall>config\<in>set configs. all_views m ov sv config)"
    "ok \<longrightarrow> (had_error st' \<longleftrightarrow> had_error s \<or> (\<exists>config\<in>set configs. \<exists>v. (v, v) \<in> (exec_graph m ov sv config)\<^sup>+))"
    using Cons.IH [OF sounds, of s] by blast
  with s show ?case by (cases good) auto
qed (simp add: exI [of _ True])

lemma explicit_cycles_search:
  assumes "draft_ok d"
  shows "\<exists>st'. bm_validate_explicit_cycles (Some d) st = (True, st') \<and>
    (had_error st' \<longleftrightarrow> had_error st \<or> (\<exists>v. (v, v) \<in> (dep_graph d)\<^sup>+))"
proof (cases "dr_targets d = []")
  case True
  then have "dep_graph d = {}" by (simp add: dep_graph_def edge_rel_def)
  then show ?thesis using True by (simp add: bm_validate_explicit_cycles_def)
next
  case False
  let ?n = "length (dr_targets d)"
  obtain st' where "visit_roots (bm_cycle_visit d ?n) [0..<?n] (st\<lparr>colors := replicate ?n 0\<rparr>) = (True, st')"
    "had_error st' \<longleftrightarrow> had_error st \<or> (\<exists>v. (v, v) \<in> (dep_graph d)\<^sup>+)"
    using explicit.search_decides [of "st\<lparr>colors := replicate ?n 0\<rparr>" d ?n] assms
    by (auto simp: dep_graph_def)
  then show ?thesis using False by (simp add: bm_validate_explicit_cycles_def)
qed

section \<open>Properties\<close>

text \<open>
  C6. The search among explicit dependencies is a decision procedure: on a draft whose name
  index points at its targets it always completes, whatever the shape of the graph, and it
  raises the error flag exactly when some target depends on itself, directly or through others.
\<close>

theorem explicit_cycles_decided:
  assumes "draft_ok d"
  shows "\<exists>st'. bm_validate_explicit_cycles (Some d) st = (True, st') \<and>
    (had_error st' \<longleftrightarrow> had_error st \<or> (\<exists>v. (v, v) \<in> (dep_graph d)\<^sup>+))"
  by (rule explicit_cycles_search [OF assms])

text \<open>
  The four nested loops over producers report a duplicate exactly when some path is
  listed twice among the outputs and byproducts of all steps together.
\<close>

theorem duplicate_producers_decided:
  "\<not> had_error (bm_validate_duplicate_step_producers m st) \<longleftrightarrow>
     \<not> had_error st \<and> distinct (producer_paths m)"
  using duplicate_producers_error clash_not_distinct by simp

lemma execution_graph_validated:
  assumes "\<forall>config\<in>set (known_configurations m @ [[]]). views_sound m order_view step_view config"
  shows "\<exists>ok st'. bm_validate_execution_graph (Some m) order_view step_view st = (ok, st') \<and>
    (ok \<longleftrightarrow> (\<forall>config\<in>set (known_configurations m @ [[]]). all_views m order_view step_view config)) \<and>
    (ok \<longrightarrow>
      (had_error st' \<longleftrightarrow>
         had_error st \<or>
         \<not> (distinct (producer_paths m) \<and>
            (\<forall>s\<in>set (build_steps m). owner_contract m s) \<and>
            (\<forall>t\<in>set (targets m). \<forall>src\<in>set (tg_source_records t). source_contract m src) \<and>
            (\<forall>config\<in>set (known_configurations m @ [[]]).
               \<forall>v. (v, v) \<notin> (exec_graph m order_view step_view config)\<^sup>+))))"
proof -
  let ?s = "bm_validate_target_source_producers m
      (bm_validate_step_owner_contracts m (bm_validate_duplicate_step_producers m st))"
  obtain ok st' where st': "validate_contexts m order_view step_view (known_configurations m @ [[]]) ?s = (ok, st')"
    "ok \<longleftrightarrow> (\<forall>config\<in>set (known_configurations m @ [[]]). all_views m order_view step_view config)"
    "ok \<longrightarrow> (had_error st' \<longleftrightarrow> had_error ?s \<or> (\<exists>config\<in>set (known_configurations m @ [[]]).
       \<exists>v. (v, v) \<in> (exec_graph m order_view step_view config)\<^sup>+))"
    using validate_contexts_decide [OF assms] by blast
  have "bm_validate_execution_graph (Some m) order_view step_view st = (ok, st')"
    using st'(1) by (simp add: bm_validate_execution_graph_def bm_validate_execution_cycles_def)
  moreover have "had_error ?s \<longleftrightarrow> had_error st \<or> \<not> distinct (producer_paths m) \<or>
      (\<exists>s\<in>set (build_steps m). \<not> owner_contract m s) \<or>
      (\<exists>t\<in>set (targets m). \<exists>src\<in>set (tg_source_records t). \<not> source_contract m src)"
    unfolding source_producers_error step_owner_contracts_error duplicate_producers_error clash_not_distinct
    by blast
  ultimately show ?thesis using st'(2,3) by blast
qed

text \<open>
  C8. The validation of the frozen graph, as a whole, provided that the views the queries return
  name existing nodes and that the order view of a target does not depend on the context's current
  target. It completes exactly when both queries return a view for every node in every
  configuration, the empty one included; a query that fails (on a generator expression that cannot
  be evaluated, say) makes it fail. When it completes, it has raised the error flag unless no path
  has two producers, every step has an owner of the kind its step kind asks for, every generated
  source is produced by the step it names, and the execution graph of no configuration has a cycle.
\<close>

theorem execution_graph_decided:
  assumes "\<forall>config\<in>set (known_configurations m @ [[]]). views_sound m order_view step_view config"
  shows "\<exists>ok st'. bm_validate_execution_graph (Some m) order_view step_view st = (ok, st') \<and>
    (ok \<longleftrightarrow> (\<forall>config\<in>set (known_configurations m @ [[]]). all_views m order_view step_view config)) \<and>
    (ok \<longrightarrow>
      (had_error st' \<longleftrightarrow>
         had_error st \<or>
         \<not> (distinct (producer_paths m) \<and>
            (\<forall>s\<in>set (build_steps m). owner_contract m s) \<and>
            (\<forall>t\<in>set (targets m). \<forall>src\<in>set (tg_source_records t). source_contract m src) \<and>
            (\<forall>config\<in>set (known_configurations m @ [[]]).
               \<forall>v. (v, v) \<notin> (exec_graph m order_view step_view config)\<^sup>+))))"
  by (rule execution_graph_validated [OF assms])

text \<open>Two targets that wait for each other, and a model with two steps.\<close>

definition demo_provenance :: bm_provenance where "demo_provenance = empty_provenance"

definition demo_target :: "string_view list \<Rightarrow> bm_target" where
  "demo_target deps =
     blank_target\<lparr>tg_provenance := demo_provenance, explicit_dependency_names := deps\<rparr>"

definition demo_draft :: build_model_draft where
  "demo_draft =
     blank_draft\<lparr>dr_targets := [demo_target [''b''], demo_target [''x'', ''a'']],
      target_name_index := [\<lparr>ne_name = ''a'', ne_id = 0\<rparr>, \<lparr>ne_name = ''b'', ne_id = 1\<rparr>]\<rparr>"

definition demo_state :: cycle_state where
  "demo_state = \<lparr>colors = [], had_error = False, sink = []\<rparr>"

lemma explicit_cycles_decided_witness:
  "\<exists>st'. bm_validate_explicit_cycles (Some demo_draft) demo_state = (True, st') \<and> had_error st'"
proof -
  have ok: "draft_ok demo_draft" by (simp add: draft_ok_def demo_draft_def BM_ID_INVALID_def)
  have "(0, 1) \<in> dep_graph demo_draft" "(1, 0) \<in> dep_graph demo_draft"
    by (auto simp: dep_graph_def edge_rel_def demo_draft_def demo_target_def dep_target_def
        bm_draft_find_target_id_def BM_ID_INVALID_def)
  then have "(0, 0) \<in> (dep_graph demo_draft)\<^sup>+" by (meson trancl.simps)
  then show ?thesis using explicit_cycles_decided [OF ok, of demo_state] by blast
qed

definition demo_step :: "string_view list \<Rightarrow> string_view list \<Rightarrow> bm_build_step" where
  "demo_step outs byps =
     blank_step\<lparr>st_provenance := demo_provenance, st_owner_target_id := BM_ID_INVALID,
      effective_outputs := outs, effective_byproducts := byps\<rparr>"

definition demo_model :: build_model where
  "demo_model =
     blank_model\<lparr>targets := [], build_steps := [demo_step [''g.c''] [''g.h''], demo_step [''g.o''] []],
      known_configurations := [''Debug'']\<rparr>"

text \<open>The second step reads what the first writes.\<close>

definition demo_step_view :: step_query where
  "demo_step_view i ctx =
     Some \<lparr>target_dependencies = [], producer_dependencies = (if i = 1 then [0] else [])\<rparr>"

lemma trancl_less_rel: "{(v, w). w < v}\<^sup>+ \<subseteq> {(v, w :: nat). w < v}"
  by (rule trancl_id [THEN equalityD1]) (auto simp: trans_def)

text \<open>A query that fails on the step \<open>i\<close>.\<close>

definition failing_step_view :: "nat \<Rightarrow> step_query" where
  "failing_step_view i j ctx = (if j = i then None else demo_step_view j ctx)"

abbreviation no_order_view :: order_query where
  "no_order_view \<equiv> (\<lambda>i ctx. None)"

lemma failing_views:
  "views_sound demo_model no_order_view (failing_step_view i) config"
  "all_views demo_model no_order_view (failing_step_view i) config \<longleftrightarrow> i \<ge> 2"
  by (auto simp: views_sound_def all_views_def has_view_def exec_node_of_def demo_model_def failing_step_view_def
      demo_step_view_def less_2_cases_iff numeral_2_eq_2 less_Suc_eq split: if_splits)

lemma execution_graph_decided_witness:
  "(\<exists>st'. bm_validate_execution_graph (Some demo_model) no_order_view (failing_step_view 2) demo_state = (True, st') \<and>
      \<not> had_error st') \<and>
   (\<exists>st'. bm_validate_execution_graph (Some demo_model) no_order_view (failing_step_view 1) demo_state = (False, st'))"
proof -
  have sound: "\<forall>config\<in>set (known_configurations demo_model @ [[]]).
      views_sound demo_model no_order_view (failing_step_view i) config" for i
    using failing_views(1) by blast
  have "exec_graph demo_model no_order_view (failing_step_view 2) config \<subseteq> {(v, w). w < v}" for config
    by (auto simp: exec_graph_def edge_rel_def exec_out_def exec_node_of_def demo_model_def failing_step_view_def
        demo_step_view_def Let_def split: if_splits)
  then have "(exec_graph demo_model no_order_view (failing_step_view 2) config)\<^sup>+ \<subseteq> {(v, w). w < v}" for config
    by (rule order_trans [OF trancl_mono_subset trancl_less_rel])
  moreover have "distinct (producer_paths demo_model)"
    by (simp add: producer_paths_def step_paths_def demo_model_def demo_step_def blank_step_def)
  moreover have "\<forall>s\<in>set (build_steps demo_model). owner_contract demo_model s"
    by (simp add: owner_contract_def demo_model_def demo_step_def blank_step_def)
  moreover have "targets demo_model = []" "\<not> had_error demo_state" by (simp_all add: demo_model_def demo_state_def)
  ultimately show ?thesis
    using execution_graph_decided [OF sound, of 2 demo_state] execution_graph_decided [OF sound, of 1 demo_state]
    by (fastforce simp: failing_views(2))
qed

end
