(* ===== verification/Bm_Validate.thy ===== *)
theory Bm_Validate
  imports Bm_Cycles
begin

text \<open>
  The validation of a finished draft, \<open>src_v2/build_model/build_model_validate.c\<close>: the
  structural, the resolution and the semantic pass around the search for dependency cycles. A
  pass threads the error flag and the reports; the state is that of the searches, with the
  colours left alone. The enumerations are datatypes, so that the tests for a kind beyond its
  last constant have nothing to find and are left out.
\<close>

section \<open>Reports\<close>

definition bm_warn :: "bm_provenance \<Rightarrow> string \<Rightarrow> string \<Rightarrow> cycle_state \<Rightarrow> cycle_state" where
  "bm_warn p command cause st = st\<lparr>sink := sink st @ [(DIAG_SEV_WARNING, p, command, cause)]\<rparr>"

definition error_if :: "bool \<Rightarrow> bm_provenance \<Rightarrow> string \<Rightarrow> string \<Rightarrow> cycle_state \<Rightarrow> cycle_state" where
  "error_if bad p command cause st = (if bad then bm_error p command cause st else st)"

definition bm_validate_contiguous_id :: "bool \<Rightarrow> bm_provenance \<Rightarrow> string \<Rightarrow> cycle_state \<Rightarrow> cycle_state" where
  "bm_validate_contiguous_id matches p cause st =
     (if matches then st else bm_error p ''structural'' cause st)"

definition bm_string_view_is_empty :: "string_view \<Rightarrow> bool" where
  "bm_string_view_is_empty sv \<longleftrightarrow> length sv = 0"

text \<open>The loops over an array, with and without the index.\<close>

definition for_each :: "('a \<Rightarrow> cycle_state \<Rightarrow> cycle_state) \<Rightarrow> 'a list \<Rightarrow> cycle_state \<Rightarrow> cycle_state" where
  "for_each body xs st = fold body xs st"

definition for_indexed :: "(nat \<Rightarrow> 'a \<Rightarrow> cycle_state \<Rightarrow> cycle_state) \<Rightarrow> 'a list \<Rightarrow> cycle_state \<Rightarrow> cycle_state" where
  "for_indexed body xs st = fold (\<lambda>(i, x). body i x) (enumerate 0 xs) st"

text \<open>The pairs \<open>i < j\<close> of a list, in the order of the two nested loops.\<close>

fun for_pairs :: "('a \<Rightarrow> 'a \<Rightarrow> cycle_state \<Rightarrow> cycle_state) \<Rightarrow> 'a list \<Rightarrow> cycle_state \<Rightarrow> cycle_state" where
  "for_pairs body [] st = st"
| "for_pairs body (x # xs) st = for_pairs body xs (for_each (body x) xs st)"

section \<open>Names\<close>

fun find_install_type :: "bm_cpack_install_type list \<Rightarrow> string_view \<Rightarrow> nat" where
  "find_install_type [] name = BM_ID_INVALID"
| "find_install_type (r # rs) name = (if nob_sv_eq (cit_name r) name then cit_id r else find_install_type rs name)"

definition bm_draft_find_install_type_id :: "build_model_draft \<Rightarrow> string_view \<Rightarrow> nat" where
  "bm_draft_find_install_type_id d name = find_install_type (dr_cpack_install_types d) name"

fun find_component_group :: "bm_cpack_group list \<Rightarrow> string_view \<Rightarrow> nat" where
  "find_component_group [] name = BM_ID_INVALID"
| "find_component_group (r # rs) name = (if nob_sv_eq (cg_name r) name then cg_id r else find_component_group rs name)"

definition bm_draft_find_component_group_id :: "build_model_draft \<Rightarrow> string_view \<Rightarrow> nat" where
  "bm_draft_find_component_group_id d name = find_component_group (dr_cpack_groups d) name"

fun find_component :: "bm_cpack_component list \<Rightarrow> string_view \<Rightarrow> nat" where
  "find_component [] name = BM_ID_INVALID"
| "find_component (r # rs) name = (if nob_sv_eq (cc_name r) name then cc_id r else find_component rs name)"

definition bm_draft_find_component_id :: "build_model_draft \<Rightarrow> string_view \<Rightarrow> nat" where
  "bm_draft_find_component_id d name = find_component (dr_cpack_components d) name"

fun find_file_set :: "bm_file_set list \<Rightarrow> string_view \<Rightarrow> bm_file_set option" where
  "find_file_set [] name = None"
| "find_file_set (r # rs) name = (if nob_sv_eq (fs_name r) name then Some r else find_file_set rs name)"

definition bm_validate_find_target_file_set :: "bm_target \<Rightarrow> string_view \<Rightarrow> bm_file_set option" where
  "bm_validate_find_target_file_set t name = find_file_set (tg_file_sets t) name"

section \<open>Directories\<close>

definition bm_validate_owner_directory ::
  "build_model_draft \<Rightarrow> nat \<Rightarrow> bm_provenance \<Rightarrow> cycle_state \<Rightarrow> cycle_state" where
  "bm_validate_owner_directory d owner p st =
     (if owner \<noteq> BM_ID_INVALID \<and> owner < length (dr_directories d) then st
      else bm_error p ''structural'' ''entity owner_directory_id is invalid'' st)"

text \<open>Following the parents from \<open>cur\<close>, after \<open>steps\<close> steps.\<close>

function parent_chain :: "bm_directory list \<Rightarrow> bm_provenance \<Rightarrow> nat \<Rightarrow> nat \<Rightarrow> cycle_state \<Rightarrow> bool \<times> cycle_state" where
  "parent_chain ds p cur steps st =
     (if cur = BM_ID_INVALID then (True, st)
      else if cur \<ge> length ds then (False, bm_error p ''structural'' ''directory parent chain is invalid'' st)
      else if Suc steps > length ds then
        (False, bm_error p ''structural'' ''directory parent chain contains a cycle'' st)
      else parent_chain ds p (di_parent_id (ds ! cur)) (Suc steps) st)"
  by pat_completeness auto

termination
  by (relation "measure (\<lambda>(ds, p, cur, steps, st). length ds - steps)") auto

declare parent_chain.simps [simp del]

definition bm_validate_directory_chain :: "build_model_draft \<Rightarrow> bm_directory \<Rightarrow> cycle_state \<Rightarrow> bool \<times> cycle_state" where
  "bm_validate_directory_chain d directory st =
     parent_chain (dr_directories d) (di_provenance directory) (di_parent_id directory) 0 st"

definition validate_directory :: "build_model_draft \<Rightarrow> nat \<Rightarrow> bm_directory \<Rightarrow> cycle_state \<Rightarrow> cycle_state" where
  "validate_directory d i r st =
     (let p = di_provenance r;
          st1 = bm_validate_contiguous_id (di_id r = i) p ''directory id mismatch'' st;
          st2 = error_if (di_owner_directory_id r \<noteq> di_id r) p ''structural''
                  ''directory owner_directory_id must equal directory id'' st1;
          st3 = error_if (di_parent_id r \<noteq> BM_ID_INVALID \<and> di_parent_id r \<ge> length (dr_directories d)) p
                  ''structural'' ''directory parent_id is invalid'' st2
      in snd (bm_validate_directory_chain d r st3))"

section \<open>Targets\<close>

definition validate_source :: "bm_target_source \<Rightarrow> cycle_state \<Rightarrow> cycle_state" where
  "validate_source s st =
     (let p = src_provenance s;
          st1 = error_if (src_kind s = BM_TARGET_SOURCE_REGULAR \<and> \<not> bm_string_view_is_empty (src_file_set_name s))
                  p ''structural'' ''regular target source may not reference a file set name'' st
      in error_if (src_kind s \<noteq> BM_TARGET_SOURCE_REGULAR \<and> bm_string_view_is_empty (src_file_set_name s))
           p ''structural'' ''file set member is missing a file set name'' st1)"

definition validate_file_set :: "bm_file_set \<Rightarrow> cycle_state \<Rightarrow> cycle_state" where
  "validate_file_set s st =
     error_if (bm_string_view_is_empty (fs_name s)) (fs_provenance s) ''structural'' ''target file set has empty name'' st"

definition validate_target :: "build_model_draft \<Rightarrow> nat \<Rightarrow> bm_target \<Rightarrow> cycle_state \<Rightarrow> cycle_state" where
  "validate_target d i t st =
     (let p = tg_provenance t;
          st1 = bm_validate_contiguous_id (tg_id t = i) p ''target id mismatch'' st;
          st2 = error_if (bm_string_view_is_empty (tg_name t)) p ''structural'' ''target has empty name'' st1;
          st3 = error_if (\<not> tg_declared t) p ''structural'' ''target placeholder was never declared'' st2;
          st4 = for_each validate_source (tg_source_records t) st3;
          st5 = for_each validate_file_set (tg_file_sets t) st4
      in bm_validate_owner_directory d (tg_owner_directory_id t) p st5)"

definition bm_validate_duplicate_target_names :: "build_model_draft \<Rightarrow> cycle_state \<Rightarrow> cycle_state" where
  "bm_validate_duplicate_target_names d st =
     for_pairs (\<lambda>a b. error_if (nob_sv_eq (tg_name a) (tg_name b)) (tg_provenance b) ''structural''
       ''duplicate target name remains in finalized draft'') (dr_targets d) st"

definition validate_source_mutation :: "bm_source_mutation \<Rightarrow> cycle_state \<Rightarrow> cycle_state" where
  "validate_source_mutation m st =
     error_if (bm_string_view_is_empty (sm_path m) \<or> bm_string_view_is_empty (sm_key m)) (sm_provenance m)
       ''structural'' ''source property mutation is missing path or property key'' st"

definition validate_build_step :: "build_model_draft \<Rightarrow> nat \<Rightarrow> bm_build_step \<Rightarrow> cycle_state \<Rightarrow> cycle_state" where
  "validate_build_step d i s st =
     (let p = st_provenance s;
          st1 = bm_validate_contiguous_id (st_id s = i) p ''build step id mismatch'' st
      in bm_validate_owner_directory d (st_owner_directory_id s) p st1)"

section \<open>Replay actions\<close>

definition opcode_fits :: "bm_replay_opcode \<Rightarrow> bm_replay_action_kind \<Rightarrow> bool" where
  "opcode_fits opcode kind \<longleftrightarrow>
     opcode = BM_REPLAY_OPCODE_NONE \<or>
     opcode \<in>
       {BM_REPLAY_OPCODE_FS_MKDIR, BM_REPLAY_OPCODE_FS_WRITE_TEXT,
        BM_REPLAY_OPCODE_FS_APPEND_TEXT, BM_REPLAY_OPCODE_FS_COPY_FILE,
        BM_REPLAY_OPCODE_FS_COPY_TREE, BM_REPLAY_OPCODE_FS_REMOVE,
        BM_REPLAY_OPCODE_FS_REMOVE_RECURSE, BM_REPLAY_OPCODE_FS_RENAME,
        BM_REPLAY_OPCODE_FS_CREATE_LINK, BM_REPLAY_OPCODE_FS_CHMOD,
        BM_REPLAY_OPCODE_FS_CHMOD_RECURSE} \<and>
       kind = BM_REPLAY_ACTION_FILESYSTEM \<or>
     opcode \<in>
       {BM_REPLAY_OPCODE_HOST_DOWNLOAD_LOCAL, BM_REPLAY_OPCODE_HOST_ARCHIVE_CREATE_PAXR,
        BM_REPLAY_OPCODE_HOST_ARCHIVE_EXTRACT_TAR, BM_REPLAY_OPCODE_HOST_LOCK_ACQUIRE,
        BM_REPLAY_OPCODE_HOST_LOCK_RELEASE} \<and>
       kind = BM_REPLAY_ACTION_HOST_EFFECT \<or>
     opcode \<in>
       {BM_REPLAY_OPCODE_PROBE_TRY_COMPILE_SOURCE, BM_REPLAY_OPCODE_PROBE_TRY_COMPILE_PROJECT,
        BM_REPLAY_OPCODE_PROBE_TRY_RUN} \<and>
       kind = BM_REPLAY_ACTION_PROBE \<or>
     opcode \<in>
       {BM_REPLAY_OPCODE_DEPS_FETCHCONTENT_SOURCE_DIR,
        BM_REPLAY_OPCODE_DEPS_FETCHCONTENT_LOCAL_ARCHIVE} \<and>
       kind = BM_REPLAY_ACTION_DEPENDENCY_MATERIALIZATION \<or>
     opcode \<in>
       {BM_REPLAY_OPCODE_TEST_DRIVER_CTEST_EMPTY_BINARY_DIRECTORY,
        BM_REPLAY_OPCODE_TEST_DRIVER_CTEST_START_LOCAL,
        BM_REPLAY_OPCODE_TEST_DRIVER_CTEST_CONFIGURE_SELF,
        BM_REPLAY_OPCODE_TEST_DRIVER_CTEST_BUILD_SELF, BM_REPLAY_OPCODE_TEST_DRIVER_CTEST_TEST,
        BM_REPLAY_OPCODE_TEST_DRIVER_CTEST_SLEEP,
        BM_REPLAY_OPCODE_TEST_DRIVER_CTEST_COVERAGE_LOCAL,
        BM_REPLAY_OPCODE_TEST_DRIVER_CTEST_MEMCHECK_LOCAL} \<and>
       kind = BM_REPLAY_ACTION_TEST_DRIVER"

definition bm_validate_replay_opcode_kind :: "bm_replay_action \<Rightarrow> cycle_state \<Rightarrow> bool \<times> cycle_state" where
  "bm_validate_replay_opcode_kind a st =
     (if opcode_fits (ra_opcode a) (ra_kind a) then (True, st)
      else (False, bm_error (ra_provenance a) ''structural''
              ''replay action opcode is incompatible with replay action kind'' st))"

text \<open>A decimal count, in a \<open>size_t\<close> that wraps around.\<close>

fun count_digits :: "string_view \<Rightarrow> nat \<Rightarrow> nat option" where
  "count_digits [] v = Some v"
| "count_digits (c # cs) v =
     (if (of_char c :: nat) < 48 \<or> (of_char c :: nat) > 57 then None
      else count_digits cs ((v * 10 + (of_char c - 48)) mod (SIZE_MAX + 1)))"

definition bm_validate_parse_count_token :: "string_view \<Rightarrow> nat option" where
  "bm_validate_parse_count_token token = (if length token = 0 then None else count_digits token 0)"

text \<open>The argument that counts the payload, and the number of arguments before it ends.\<close>

definition payload_counted :: "nat \<Rightarrow> string_view list \<Rightarrow> bool" where
  "payload_counted n argv \<longleftrightarrow>
     (case bm_validate_parse_count_token (argv ! (n - 1)) of
        None \<Rightarrow> False
      | Some k \<Rightarrow> length argv = (n + k) mod (SIZE_MAX + 1))"

text \<open>The layout of each opcode, over the numbers of inputs, outputs, arguments and variables.\<close>

fun payload_fits :: "bm_replay_opcode \<Rightarrow> nat \<Rightarrow> nat \<Rightarrow> string_view list \<Rightarrow> nat \<Rightarrow> bool" where
  "payload_fits BM_REPLAY_OPCODE_NONE ins outs argv env = True"
| "payload_fits BM_REPLAY_OPCODE_FS_MKDIR ins outs argv env \<longleftrightarrow>
     ins = 0 \<and> outs > 0 \<and> length argv = 0 \<and> env = 0"
| "payload_fits BM_REPLAY_OPCODE_FS_WRITE_TEXT ins outs argv env \<longleftrightarrow>
     ins = 0 \<and> outs = 1 \<and> length argv = 2 \<and> env = 0"
| "payload_fits BM_REPLAY_OPCODE_FS_APPEND_TEXT ins outs argv env \<longleftrightarrow>
     ins = 0 \<and> outs = 1 \<and> length argv = 1 \<and> env = 0"
| "payload_fits BM_REPLAY_OPCODE_FS_COPY_FILE ins outs argv env \<longleftrightarrow>
     ins = 1 \<and> outs = 1 \<and> length argv = 1 \<and> env = 0"
| "payload_fits BM_REPLAY_OPCODE_FS_COPY_TREE ins outs argv env \<longleftrightarrow>
     ins = 1 \<and> outs = 1 \<and> length argv = 2 \<and> env = 0"
| "payload_fits BM_REPLAY_OPCODE_FS_REMOVE ins outs argv env \<longleftrightarrow>
     ins = 0 \<and> outs > 0 \<and> length argv = 0 \<and> env = 0"
| "payload_fits BM_REPLAY_OPCODE_FS_REMOVE_RECURSE ins outs argv env \<longleftrightarrow>
     ins = 0 \<and> outs > 0 \<and> length argv = 0 \<and> env = 0"
| "payload_fits BM_REPLAY_OPCODE_FS_RENAME ins outs argv env \<longleftrightarrow>
     ins = 1 \<and> outs = 1 \<and> length argv = 2 \<and> env = 0"
| "payload_fits BM_REPLAY_OPCODE_FS_CREATE_LINK ins outs argv env \<longleftrightarrow>
     ins = 1 \<and> outs = 1 \<and> length argv = 3 \<and> env = 0"
| "payload_fits BM_REPLAY_OPCODE_FS_CHMOD ins outs argv env \<longleftrightarrow>
     ins = 0 \<and> outs > 0 \<and> length argv = 1 \<and> env = 0"
| "payload_fits BM_REPLAY_OPCODE_FS_CHMOD_RECURSE ins outs argv env \<longleftrightarrow>
     ins = 0 \<and> outs > 0 \<and> length argv = 1 \<and> env = 0"
| "payload_fits BM_REPLAY_OPCODE_HOST_DOWNLOAD_LOCAL ins outs argv env \<longleftrightarrow>
     ins = 1 \<and> outs = 1 \<and> length argv = 2 \<and> env = 0"
| "payload_fits BM_REPLAY_OPCODE_HOST_ARCHIVE_CREATE_PAXR ins outs argv env \<longleftrightarrow>
     ins > 0 \<and> outs = 1 \<and> length argv = 1 \<and> env = 0"
| "payload_fits BM_REPLAY_OPCODE_HOST_ARCHIVE_EXTRACT_TAR ins outs argv env \<longleftrightarrow>
     ins = 1 \<and> outs = 1 \<and> length argv = 0 \<and> env = 0"
| "payload_fits BM_REPLAY_OPCODE_HOST_LOCK_ACQUIRE ins outs argv env \<longleftrightarrow>
     ins = 0 \<and> outs = 1 \<and> length argv = 0 \<and> env = 0"
| "payload_fits BM_REPLAY_OPCODE_HOST_LOCK_RELEASE ins outs argv env \<longleftrightarrow>
     ins = 0 \<and> outs = 1 \<and> length argv = 0 \<and> env = 0"
| "payload_fits BM_REPLAY_OPCODE_PROBE_TRY_COMPILE_SOURCE ins outs argv env \<longleftrightarrow>
     ins > 0 \<and> outs = 1 \<and> length argv \<ge> 1 \<and> env = 0"
| "payload_fits BM_REPLAY_OPCODE_PROBE_TRY_COMPILE_PROJECT ins outs argv env \<longleftrightarrow>
     ins = 1 \<and> outs = 1 \<and> length argv \<ge> 1 \<and> env = 0"
| "payload_fits BM_REPLAY_OPCODE_PROBE_TRY_RUN ins outs argv env \<longleftrightarrow>
     ins = 0 \<and> outs = 1 \<and> length argv \<ge> 1 \<and> env = 0"
| "payload_fits BM_REPLAY_OPCODE_DEPS_FETCHCONTENT_SOURCE_DIR ins outs argv env \<longleftrightarrow>
     ins = 0 \<and> outs = 2 \<and> length argv = 1 \<and> env = 0"
| "payload_fits BM_REPLAY_OPCODE_DEPS_FETCHCONTENT_LOCAL_ARCHIVE ins outs argv env \<longleftrightarrow>
     ins = 1 \<and> outs = 2 \<and> length argv = 4 \<and> env = 0"
| "payload_fits BM_REPLAY_OPCODE_TEST_DRIVER_CTEST_EMPTY_BINARY_DIRECTORY ins outs argv env \<longleftrightarrow>
     ins = 0 \<and> outs = 1 \<and> length argv = 0 \<and> env = 0"
| "payload_fits BM_REPLAY_OPCODE_TEST_DRIVER_CTEST_START_LOCAL ins outs argv env \<longleftrightarrow>
     ins = 0 \<and> outs = 2 \<and> length argv = 3 \<and> env = 0"
| "payload_fits BM_REPLAY_OPCODE_TEST_DRIVER_CTEST_CONFIGURE_SELF ins outs argv env \<longleftrightarrow>
     ins = 0 \<and> outs = 2 \<and> length argv = 0 \<and> env = 0"
| "payload_fits BM_REPLAY_OPCODE_TEST_DRIVER_CTEST_BUILD_SELF ins outs argv env \<longleftrightarrow>
     ins = 0 \<and> outs = 1 \<and> length argv = 2 \<and> env = 0"
| "payload_fits BM_REPLAY_OPCODE_TEST_DRIVER_CTEST_TEST ins outs argv env \<longleftrightarrow>
     ins = 0 \<and> outs = 1 \<and> length argv = 2 \<and> env = 0"
| "payload_fits BM_REPLAY_OPCODE_TEST_DRIVER_CTEST_SLEEP ins outs argv env \<longleftrightarrow>
     ins = 0 \<and> outs = 0 \<and> length argv = 1 \<and> env = 0"
| "payload_fits BM_REPLAY_OPCODE_TEST_DRIVER_CTEST_COVERAGE_LOCAL ins outs argv env \<longleftrightarrow>
     outs = 1 \<and> length argv \<ge> 4 \<and> env = 0 \<and> payload_counted 4 argv"
| "payload_fits BM_REPLAY_OPCODE_TEST_DRIVER_CTEST_MEMCHECK_LOCAL ins outs argv env \<longleftrightarrow>
     ins = 2 \<and> outs = 2 \<and> length argv \<ge> 14 \<and> env = 0 \<and> payload_counted 14 argv"

definition bm_validate_replay_payload_shape :: "bm_replay_action \<Rightarrow> cycle_state \<Rightarrow> bool \<times> cycle_state" where
  "bm_validate_replay_payload_shape a st =
     (if payload_fits (ra_opcode a) (length (ra_inputs a)) (length (ra_outputs a)) (ra_argv a)
           (length (ra_environment a))
      then (True, st)
      else (False, bm_error (ra_provenance a) ''structural''
              ''replay action payload shape is invalid for opcode'' st))"

definition validate_replay_action :: "build_model_draft \<Rightarrow> nat \<Rightarrow> bm_replay_action \<Rightarrow> cycle_state \<Rightarrow> cycle_state" where
  "validate_replay_action d i a st =
     (let p = ra_provenance a;
          st1 = bm_validate_contiguous_id (ra_id a = i) p ''replay action id mismatch'' st;
          st2 = bm_validate_owner_directory d (ra_owner_directory_id a) p st1;
          st3 = error_if (bm_string_view_is_empty (ra_action_key a)) p ''structural''
                  ''replay action has empty action_key'' st2;
          st4 = snd (bm_validate_replay_opcode_kind a st3)
      in snd (bm_validate_replay_payload_shape a st4))"

section \<open>Tests, installation, exports and packages\<close>

definition validate_test :: "build_model_draft \<Rightarrow> nat \<Rightarrow> bm_test \<Rightarrow> cycle_state \<Rightarrow> cycle_state" where
  "validate_test d i r st =
     (let p = te_provenance r;
          st1 = bm_validate_contiguous_id (te_id r = i) p ''test id mismatch'' st;
          st2 = error_if (bm_string_view_is_empty (te_name r) \<or> bm_string_view_is_empty (te_command r)) p
                  ''structural'' ''test is missing required fields'' st1
      in bm_validate_owner_directory d (te_owner_directory_id r) p st2)"

definition install_rule_incomplete :: "bm_install_rule \<Rightarrow> bool" where
  "install_rule_incomplete r \<longleftrightarrow>
     bm_string_view_is_empty (ir_item r) \<or>
     ir_kind r \<noteq> BM_INSTALL_RULE_TARGET \<and> bm_string_view_is_empty (ir_destination r) \<or>
     ir_kind r = BM_INSTALL_RULE_TARGET \<and> bm_string_view_is_empty (ir_destination r) \<and>
     bm_string_view_is_empty (ir_archive_destination r) \<and> bm_string_view_is_empty (ir_library_destination r) \<and>
     bm_string_view_is_empty (ir_runtime_destination r) \<and> bm_string_view_is_empty (ir_includes_destination r) \<and>
     bm_string_view_is_empty (ir_public_header_destination r)"

definition validate_install_rule :: "build_model_draft \<Rightarrow> nat \<Rightarrow> bm_install_rule \<Rightarrow> cycle_state \<Rightarrow> cycle_state" where
  "validate_install_rule d i r st =
     (let p = ir_provenance r;
          st1 = bm_validate_contiguous_id (ir_id r = i) p ''install rule id mismatch'' st;
          st2 = error_if (install_rule_incomplete r) p ''structural'' ''install rule is missing required fields'' st1
      in bm_validate_owner_directory d (ir_owner_directory_id r) p st2)"

definition validate_export_fields :: "bm_export \<Rightarrow> cycle_state \<Rightarrow> cycle_state" where
  "validate_export_fields r st =
     (case ex_kind r of
        BM_EXPORT_INSTALL \<Rightarrow>
          error_if (bm_string_view_is_empty (ex_name r) \<or> bm_string_view_is_empty (ex_destination r)) (ex_provenance r)
            ''structural'' ''install export is missing required fields'' st
      | BM_EXPORT_BUILD_TREE \<Rightarrow>
          error_if (bm_string_view_is_empty (ex_output_file_path r)) (ex_provenance r)
            ''structural'' ''build-tree export is missing FILE'' st
      | BM_EXPORT_PACKAGE_REGISTRY \<Rightarrow>
          error_if (bm_string_view_is_empty (ex_name r) \<or> bm_string_view_is_empty (ex_registry_prefix r)) (ex_provenance r)
            ''structural'' ''package registry export is missing required fields'' st)"

definition validate_export :: "build_model_draft \<Rightarrow> nat \<Rightarrow> bm_export \<Rightarrow> cycle_state \<Rightarrow> cycle_state" where
  "validate_export d i r st =
     (let p = ex_provenance r;
          st1 = bm_validate_contiguous_id (ex_id r = i) p ''export id mismatch'' st;
          st2 = validate_export_fields r st1
      in bm_validate_owner_directory d (ex_owner_directory_id r) p st2)"

text \<open>A record with an identifier, one required name and an owner.\<close>

definition validate_named ::
  "build_model_draft \<Rightarrow> nat \<Rightarrow> nat \<Rightarrow> string_view \<Rightarrow> nat \<Rightarrow> bm_provenance \<Rightarrow> string \<Rightarrow> string \<Rightarrow> cycle_state \<Rightarrow> cycle_state" where
  "validate_named d i ident name owner p mismatch missing st =
     (let st1 = bm_validate_contiguous_id (ident = i) p mismatch st;
          st2 = error_if (bm_string_view_is_empty name) p ''structural'' missing st1
      in bm_validate_owner_directory d owner p st2)"

definition validate_package :: "build_model_draft \<Rightarrow> nat \<Rightarrow> bm_package \<Rightarrow> cycle_state \<Rightarrow> cycle_state" where
  "validate_package d i r = validate_named d i (pk_id r) (pk_package_name r) (pk_owner_directory_id r) (pk_provenance r)
     ''package id mismatch'' ''package result is missing package name''"

definition validate_cpack_install_type ::
  "build_model_draft \<Rightarrow> nat \<Rightarrow> bm_cpack_install_type \<Rightarrow> cycle_state \<Rightarrow> cycle_state" where
  "validate_cpack_install_type d i r = validate_named d i (cit_id r) (cit_name r) (cit_owner_directory_id r)
     (cit_provenance r) ''CPack install type id mismatch'' ''CPack install type is missing name''"

definition validate_cpack_group :: "build_model_draft \<Rightarrow> nat \<Rightarrow> bm_cpack_group \<Rightarrow> cycle_state \<Rightarrow> cycle_state" where
  "validate_cpack_group d i r = validate_named d i (cg_id r) (cg_name r) (cg_owner_directory_id r)
     (cg_provenance r) ''CPack component group id mismatch'' ''CPack component group is missing name''"

definition validate_cpack_component ::
  "build_model_draft \<Rightarrow> nat \<Rightarrow> bm_cpack_component \<Rightarrow> cycle_state \<Rightarrow> cycle_state" where
  "validate_cpack_component d i r = validate_named d i (cc_id r) (cc_name r) (cc_owner_directory_id r)
     (cc_provenance r) ''CPack component id mismatch'' ''CPack component is missing name''"

definition validate_cpack_package :: "build_model_draft \<Rightarrow> nat \<Rightarrow> bm_cpack_package \<Rightarrow> cycle_state \<Rightarrow> cycle_state" where
  "validate_cpack_package d i r st =
     (let p = cp_provenance r;
          grouping = cp_components_grouping r;
          st1 = bm_validate_contiguous_id (cp_id r = i) p ''CPack package id mismatch'' st;
          st2 = error_if (bm_string_view_is_empty (cp_package_key r)) p ''structural''
                  ''CPack package snapshot is missing key'' st1;
          st3 = error_if (bm_string_view_is_empty (cp_package_name r)) p ''structural''
                  ''CPack package snapshot is missing package name'' st2;
          st4 = error_if (bm_string_view_is_empty (cp_package_file_name r)) p ''structural''
                  ''CPack package snapshot is missing package file name'' st3;
          st5 = error_if (length (cp_generators r) = 0) p ''structural''
                  ''CPack package snapshot has no generators'' st4;
          st6 = error_if (\<not> bm_string_view_is_empty grouping \<and> \<not> nob_sv_eq grouping ''ONE_PER_GROUP'' \<and>
                   \<not> nob_sv_eq grouping ''IGNORE'' \<and> \<not> nob_sv_eq grouping ''ALL_COMPONENTS_IN_ONE'') p ''structural''
                  ''CPack package snapshot has unsupported CPACK_COMPONENTS_GROUPING'' st5
      in bm_validate_owner_directory d (cp_owner_directory_id r) p st6)"

section \<open>The structural pass\<close>

definition bm_validate_structural_pass :: "build_model_draft \<Rightarrow> cycle_state \<Rightarrow> cycle_state" where
  "bm_validate_structural_pass d st =
     (let st0 = error_if (dr_has_semantic_entities d \<and> dr_root_directory_id d = BM_ID_INVALID) empty_provenance
                  ''structural'' ''missing root directory for semantic model'' st;
          st1 = for_indexed (validate_directory d) (dr_directories d) st0;
          st2 = bm_validate_duplicate_target_names d (for_indexed (validate_target d) (dr_targets d) st1);
          st3 = for_each validate_source_mutation (dr_source_mutations d) st2;
          st4 = for_indexed (validate_build_step d) (dr_build_steps d) st3;
          st5 = for_indexed (validate_replay_action d) (dr_replay_actions d) st4;
          st6 = for_indexed (validate_test d) (dr_tests d) st5;
          st7 = for_indexed (validate_install_rule d) (dr_install_rules d) st6;
          st8 = for_indexed (validate_export d) (dr_exports d) st7;
          st9 = for_indexed (validate_package d) (dr_packages d) st8;
          st10 = for_indexed (validate_cpack_install_type d) (dr_cpack_install_types d) st9;
          st11 = for_indexed (validate_cpack_group d) (dr_cpack_groups d) st10;
          st12 = for_indexed (validate_cpack_component d) (dr_cpack_components d) st11
      in for_indexed (validate_cpack_package d) (dr_cpack_packages d) st12)"

section \<open>The resolution pass\<close>

definition resolve_source :: "bm_target \<Rightarrow> bm_target_source \<Rightarrow> cycle_state \<Rightarrow> cycle_state" where
  "resolve_source t s st =
     (if bm_string_view_is_empty (src_file_set_name s) then st
      else (case bm_validate_find_target_file_set t (src_file_set_name s) of
              None \<Rightarrow> bm_error (src_provenance s) ''resolution''
                        ''target source file set reference cannot be resolved'' st
            | Some fs \<Rightarrow>
                error_if (src_kind s = BM_TARGET_SOURCE_HEADER_FILE_SET \<and> fs_kind fs \<noteq> BM_TARGET_FILE_SET_HEADERS \<or>
                          src_kind s = BM_TARGET_SOURCE_CXX_MODULE_FILE_SET \<and> fs_kind fs \<noteq> BM_TARGET_FILE_SET_CXX_MODULES)
                  (src_provenance s) ''resolution'' ''target source file set kind does not match the referenced file set'' st))"

definition resolve_target :: "build_model_draft \<Rightarrow> bm_target \<Rightarrow> cycle_state \<Rightarrow> cycle_state" where
  "resolve_target d t st =
     (let p = tg_provenance t;
          st1 = (if tg_alias t \<and> bm_string_view_is_empty (tg_alias_of_name t)
                 then bm_error p ''resolution'' ''alias target is missing alias_of'' st
                 else error_if (tg_alias t \<and> bm_draft_find_target_id d (tg_alias_of_name t) = BM_ID_INVALID) p
                        ''resolution'' ''alias target references an unknown target'' st);
          st2 = for_each (\<lambda>dep. error_if (bm_draft_find_target_id d dep = BM_ID_INVALID) p ''resolution''
                  ''explicit target dependency cannot be resolved'') (explicit_dependency_names t) st1
      in for_each (resolve_source t) (tg_source_records t) st2)"

definition resolve_build_step :: "build_model_draft \<Rightarrow> bm_build_step \<Rightarrow> cycle_state \<Rightarrow> cycle_state" where
  "resolve_build_step d s st =
     error_if (\<not> bm_string_view_is_empty (st_owner_target_name s) \<and>
               bm_draft_find_target_id d (st_owner_target_name s) = BM_ID_INVALID)
       (st_provenance s) ''resolution'' ''build step owner target cannot be resolved'' st"

definition resolve_install_rule :: "build_model_draft \<Rightarrow> bm_install_rule \<Rightarrow> cycle_state \<Rightarrow> cycle_state" where
  "resolve_install_rule d r st =
     error_if (ir_kind r = BM_INSTALL_RULE_TARGET \<and> bm_draft_find_target_id d (ir_item r) = BM_ID_INVALID)
       (ir_provenance r) ''resolution'' ''install target rule references an unknown target'' st"

definition resolve_export :: "build_model_draft \<Rightarrow> bm_export \<Rightarrow> cycle_state \<Rightarrow> cycle_state" where
  "resolve_export d r st =
     (if ex_kind r = BM_EXPORT_INSTALL then
        error_if (\<not> list_ex (\<lambda>rule. ir_kind rule = BM_INSTALL_RULE_TARGET \<and> nob_sv_eq (ir_export_name rule) (ex_name r))
                    (dr_install_rules d))
          (ex_provenance r) ''resolution''
          ''install export has no associated install(TARGETS ... EXPORT ...) rules'' st
      else if ex_kind r = BM_EXPORT_BUILD_TREE then
        for_each (\<lambda>name. error_if (bm_draft_find_target_id d name = BM_ID_INVALID) (ex_provenance r) ''resolution''
          ''build-tree export references an unknown target'') (ex_target_names r) st
      else st)"

definition resolve_cpack_group :: "build_model_draft \<Rightarrow> bm_cpack_group \<Rightarrow> cycle_state \<Rightarrow> cycle_state" where
  "resolve_cpack_group d g st =
     error_if (\<not> bm_string_view_is_empty (cg_parent_group_name g) \<and>
               bm_draft_find_component_group_id d (cg_parent_group_name g) = BM_ID_INVALID)
       (cg_provenance g) ''resolution'' ''component group parent cannot be resolved'' st"

definition resolve_cpack_component :: "build_model_draft \<Rightarrow> bm_cpack_component \<Rightarrow> cycle_state \<Rightarrow> cycle_state" where
  "resolve_cpack_component d c st =
     (let p = cc_provenance c;
          st1 = error_if (\<not> bm_string_view_is_empty (cc_group_name c) \<and>
                          bm_draft_find_component_group_id d (cc_group_name c) = BM_ID_INVALID) p
                  ''resolution'' ''component group cannot be resolved'' st;
          st2 = for_each (\<lambda>name. error_if (bm_draft_find_component_id d name = BM_ID_INVALID) p ''resolution''
                  ''component dependency cannot be resolved'') (cc_dependency_names c) st1
      in for_each (\<lambda>name. error_if (bm_draft_find_install_type_id d name = BM_ID_INVALID) p ''resolution''
           ''component install type cannot be resolved'') (cc_install_type_names c) st2)"

definition bm_validate_resolution_pass :: "build_model_draft \<Rightarrow> cycle_state \<Rightarrow> cycle_state" where
  "bm_validate_resolution_pass d st =
     (let st1 = for_each (resolve_target d) (dr_targets d) st;
          st2 = for_each (resolve_build_step d) (dr_build_steps d) st1;
          st3 = for_each (resolve_install_rule d) (dr_install_rules d) st2;
          st4 = for_each (resolve_export d) (dr_exports d) st3;
          st5 = for_each (resolve_cpack_group d) (dr_cpack_groups d) st4
      in for_each (resolve_cpack_component d) (dr_cpack_components d) st5)"

section \<open>The semantic pass\<close>

definition bm_target_has_local_build_flags :: "bm_target \<Rightarrow> bool" where
  "bm_target_has_local_build_flags t \<longleftrightarrow> tg_exclude_from_all t \<or> tg_win32_executable t \<or> tg_macosx_bundle t"

definition bm_target_has_typed_payload :: "bm_target \<Rightarrow> bool" where
  "bm_target_has_typed_payload t \<longleftrightarrow>
     length (tg_link_libraries t) > 0 \<or> length (tg_link_options t) > 0 \<or> length (tg_link_directories t) > 0 \<or>
     length (tg_include_directories t) > 0 \<or> length (tg_compile_definitions t) > 0 \<or>
     length (tg_compile_options t) > 0 \<or> length (tg_compile_features t) > 0 \<or>
     \<not> bm_string_view_is_empty (tg_output_name t) \<or> \<not> bm_string_view_is_empty (tg_prefix t) \<or>
     \<not> bm_string_view_is_empty (tg_suffix t) \<or> \<not> bm_string_view_is_empty (tg_archive_output_directory t) \<or>
     \<not> bm_string_view_is_empty (tg_library_output_directory t) \<or>
     \<not> bm_string_view_is_empty (tg_runtime_output_directory t) \<or>
     length (tg_artifact_properties t) > 0 \<or> \<not> bm_string_view_is_empty (tg_folder t)"

definition alias_has_payload :: "bm_target \<Rightarrow> bool" where
  "alias_has_payload t \<longleftrightarrow>
     length (tg_sources t) > 0 \<or> length (tg_source_records t) > 0 \<or> length (tg_file_sets t) > 0 \<or>
     length (explicit_dependency_names t) > 0 \<or> bm_target_has_typed_payload t \<or>
     length (tg_raw_properties t) > 0 \<or> bm_target_has_local_build_flags t"

definition imported_has_outputs :: "bm_target \<Rightarrow> bool" where
  "imported_has_outputs t \<longleftrightarrow>
     \<not> bm_string_view_is_empty (tg_output_name t) \<or> \<not> bm_string_view_is_empty (tg_prefix t) \<or>
     \<not> bm_string_view_is_empty (tg_suffix t) \<or> \<not> bm_string_view_is_empty (tg_archive_output_directory t) \<or>
     \<not> bm_string_view_is_empty (tg_library_output_directory t) \<or>
     \<not> bm_string_view_is_empty (tg_runtime_output_directory t) \<or>
     length (tg_artifact_properties t) > 0 \<or> bm_target_has_local_build_flags t"

definition semantic_target :: "bm_target \<Rightarrow> cycle_state \<Rightarrow> cycle_state" where
  "semantic_target t st =
     (let p = tg_provenance t;
          st1 = error_if (tg_kind t = BM_TARGET_INTERFACE_LIBRARY \<and> length (tg_sources t) > 0) p ''semantic''
                  ''interface library may not own concrete source files'' st;
          st2 = (if tg_kind t = BM_TARGET_INTERFACE_LIBRARY then
                   for_each (\<lambda>l. error_if (li_visibility l = BM_VISIBILITY_PRIVATE) (li_provenance l) ''semantic''
                     ''interface library may not carry private link libraries'') (tg_link_libraries t) st1
                 else st1);
          st3 = error_if (tg_alias t \<and> alias_has_payload t) p ''semantic''
                  ''alias target may not own sources, dependencies or build payload'' st2;
          st4 = error_if (tg_imported t \<and> imported_has_outputs t) p ''semantic''
                  ''imported target may not declare local build outputs or build-only flags'' st3;
          st5 = error_if (tg_imported_global t \<and> \<not> tg_imported t) p ''semantic''
                  ''IMPORTED_GLOBAL may only be set on imported targets'' st4;
          st6 = (if tg_kind t \<noteq> BM_TARGET_INTERFACE_LIBRARY then
                   for_pairs (\<lambda>a b st. if nob_sv_eq a b
                       then bm_warn p ''semantic'' ''duplicate source path inside target'' st else st)
                     (tg_sources t) st5
                 else st5)
      in for_pairs (\<lambda>a b. error_if (nob_sv_eq (fs_name a) (fs_name b)) (fs_provenance b) ''semantic''
           ''duplicate file set name inside target'') (tg_file_sets t) st6)"

definition bm_validate_semantic_pass :: "build_model_draft \<Rightarrow> cycle_state \<Rightarrow> cycle_state" where
  "bm_validate_semantic_pass d st = for_each semantic_target (dr_targets d) st"

section \<open>The validation\<close>

definition bm_validate_draft :: "build_model_draft option \<Rightarrow> bm_report list \<Rightarrow> bool \<times> bm_report list" where
  "bm_validate_draft draft log =
     (let st0 = \<lparr>colors = [], had_error = False, sink = log\<rparr> in
      case draft of
        None \<Rightarrow> (False, sink (bm_error empty_provenance ''validate'' ''draft and scratch arena are required'' st0))
      | Some d \<Rightarrow>
          (let st1 = bm_validate_resolution_pass d (bm_validate_structural_pass d st0) in
           case bm_validate_explicit_cycles (Some d) st1 of
             (False, st2) \<Rightarrow>
               (False, sink (bm_error empty_provenance ''cycles'' ''cycle validation failed internally'' st2))
           | (True, st2) \<Rightarrow>
               (let st3 = bm_validate_semantic_pass d st2 in (\<not> had_error st3, sink st3))))"

end
