(* ===== verification/Bm_Validate_Facts.thy ===== *)
theory Bm_Validate_Facts
  imports Bm_Validate Bm_Cycles_Props
begin

text \<open>
  What each validator decides. A validator is judged by one relation between the state before
  and after: reports are only added, and the error flag goes up exactly when the condition is
  violated and exactly when an error is among the new reports. Rules for the conditionals and
  the loops put the judgements together.
\<close>

section \<open>The judgement\<close>

definition has_error :: "bm_report list \<Rightarrow> bool" where
  "has_error rs \<longleftrightarrow> (\<exists>r\<in>set rs. fst r = DIAG_SEV_ERROR)"

lemma has_error_simps [simp]:
  "\<not> has_error []" "has_error (r # rs) \<longleftrightarrow> fst r = DIAG_SEV_ERROR \<or> has_error rs"
  "has_error (xs @ ys) \<longleftrightarrow> has_error xs \<or> has_error ys"
  by (auto simp: has_error_def)

definition checks :: "bool \<Rightarrow> cycle_state \<Rightarrow> cycle_state \<Rightarrow> bool" where
  "checks P st st' \<longleftrightarrow>
     (\<exists>new. sink st' = sink st @ new \<and> (had_error st' \<longleftrightarrow> had_error st \<or> \<not> P) \<and>
        (had_error st' \<longleftrightarrow> had_error st \<or> has_error new))"

named_theorems judging \<open>rules that judge validators\<close>

lemma checks_start: "checks True st st"
  by (simp add: checks_def)

lemma checks_then: "checks P s t \<Longrightarrow> checks Q t u \<Longrightarrow> checks (P \<and> Q) s u"
  unfolding checks_def by (elim exE) (intro exI conjI, auto)

lemma checks_cong: "checks P s t \<Longrightarrow> P \<longleftrightarrow> Q \<Longrightarrow> checks Q s t"
  by simp

lemma checks_error: "checks False st (bm_error p c m st)"
  by (simp add: checks_def bm_error_def)

lemma checks_error_if: "checks (\<not> bad) st (error_if bad p c m st)"
  using checks_error checks_start by (simp add: error_if_def)

lemma checks_contiguous: "checks ok st (bm_validate_contiguous_id ok p m st)"
  using checks_error checks_start by (simp add: bm_validate_contiguous_id_def)

lemma checks_warn: "checks True st (bm_warn p c m st)"
  by (simp add: checks_def bm_warn_def)

lemma checks_if: "(b \<Longrightarrow> checks P s t) \<Longrightarrow> (\<not> b \<Longrightarrow> checks Q s u) \<Longrightarrow> checks (if b then P else Q) s (if b then t else u)"
  by simp

lemma checks_for_each:
  assumes "\<And>x st. x \<in> set xs \<Longrightarrow> checks (P x) st (f x st)"
  shows "checks (\<forall>x\<in>set xs. P x) st (for_each f xs st)"
  using assms
proof (induction xs arbitrary: st)
  case (Cons x xs)
  have "checks (P x \<and> (\<forall>y\<in>set xs. P y)) st (for_each f xs (f x st))"
    using Cons by (intro checks_then [of _ _ "f x st"]) simp_all
  then show ?case by (simp add: for_each_def)
qed (simp add: for_each_def checks_start)

lemma checks_for_indexed:
  assumes "\<And>i x st. checks (P i x) st (f i x st)"
  shows "checks (\<forall>i<length xs. P i (xs ! i)) st (for_indexed f xs st)"
proof -
  have "checks (\<forall>ix\<in>set (enumerate 0 xs). P (fst ix) (snd ix)) st
      (for_each (\<lambda>(i, x). f i x) (enumerate 0 xs) st)"
    using assms by (intro checks_for_each) auto
  moreover have "(\<forall>ix\<in>set (enumerate 0 xs). P (fst ix) (snd ix)) \<longleftrightarrow> (\<forall>i<length xs. P i (xs ! i))"
    by (simp add: Ball_def in_set_enumerate_eq split_paired_All)
  ultimately show ?thesis by (simp add: for_each_def for_indexed_def)
qed

lemma checks_for_pairs:
  assumes "\<And>x y st. checks (P x y) st (f x y st)"
  shows "checks (sorted_wrt P xs) st (for_pairs f xs st)"
proof (induction xs arbitrary: st)
  case (Cons x xs)
  have "checks ((\<forall>y\<in>set xs. P x y) \<and> sorted_wrt P xs) st (for_pairs f xs (for_each (f x) xs st))"
    using assms Cons by (intro checks_then [of _ _ "for_each (f x) xs st"] checks_for_each)
  then show ?case by simp
qed (simp add: checks_start)

lemma sorted_wrt_distinct: "sorted_wrt (\<lambda>a b. f a \<noteq> f b) xs \<longleftrightarrow> distinct (map f xs)"
  by (induction xs) (auto simp: image_iff)

lemma empty_iff [simp]: "bm_string_view_is_empty sv \<longleftrightarrow> sv = []"
  by (simp add: bm_string_view_is_empty_def)

text \<open>The primitive steps, in the form that continues a chain.\<close>

lemmas [judging] =
  checks_start
  checks_then [OF _ checks_error]
  checks_then [OF _ checks_error_if]
  checks_then [OF _ checks_contiguous]
  checks_then [OF _ checks_warn]

section \<open>Directories\<close>

text \<open>Following the parents from a directory ends at a root.\<close>

inductive chain_ends :: "bm_directory list \<Rightarrow> nat \<Rightarrow> bool" for ds where
  chain_root: "chain_ends ds BM_ID_INVALID"
| chain_parent: "cur < length ds \<Longrightarrow> cur \<noteq> BM_ID_INVALID \<Longrightarrow> chain_ends ds (di_parent_id (ds ! cur)) \<Longrightarrow>
    chain_ends ds cur"

inductive_cases chain_endsE: "chain_ends ds cur"

lemma chain_ends_step: "chain_ends ds cur \<Longrightarrow> cur \<noteq> BM_ID_INVALID \<Longrightarrow>
    cur < length ds \<and> chain_ends ds (di_parent_id (ds ! cur))"
  by (erule chain_endsE) simp_all

lemma parent_chain_checks:
  "checks (fst (parent_chain ds p cur steps st)) st (snd (parent_chain ds p cur steps st)) \<and>
   (fst (parent_chain ds p cur steps st) \<longrightarrow> chain_ends ds cur)"
proof (induction ds p cur steps st rule: parent_chain.induct)
  case (1 ds p cur steps st)
  consider "cur = BM_ID_INVALID" | "cur \<noteq> BM_ID_INVALID" "length ds \<le> cur"
    | "cur \<noteq> BM_ID_INVALID" "cur < length ds" "length ds < Suc steps"
    | "cur \<noteq> BM_ID_INVALID" "cur < length ds" "\<not> length ds < Suc steps" by linarith
  then show ?case
  proof cases
    case 4
    then have "parent_chain ds p cur steps st = parent_chain ds p (di_parent_id (ds ! cur)) (Suc steps) st"
      by (subst parent_chain.simps) simp
    then show ?thesis using 4 1 chain_parent [of cur ds] by simp
  qed (simp_all add: parent_chain.simps checks_start checks_error chain_root)
qed

text \<open>
  The chain of a tree visits no directory twice, so that it ends before the counter does.
\<close>

fun ancestor :: "bm_directory list \<Rightarrow> nat \<Rightarrow> nat \<Rightarrow> nat" where
  "ancestor ds cur 0 = cur"
| "ancestor ds cur (Suc k) = di_parent_id (ds ! ancestor ds cur k)"

lemma ancestor_Suc_right: "ancestor ds cur (Suc k) = ancestor ds (di_parent_id (ds ! cur)) k"
  by (induction k) simp_all

lemma ancestor_add: "ancestor ds cur (i + k) = ancestor ds (ancestor ds cur i) k"
  by (induction k) simp_all

text \<open>The length of a chain that ends: all before it are directories.\<close>

lemma chain_length:
  "chain_ends ds cur \<Longrightarrow>
   \<exists>n. ancestor ds cur n = BM_ID_INVALID \<and> (\<forall>k<n. ancestor ds cur k < length ds \<and> ancestor ds cur k \<noteq> BM_ID_INVALID)"
proof (induction rule: chain_ends.induct)
  case chain_root
  then show ?case by (intro exI [of _ 0]) simp
next
  case (chain_parent cur)
  then obtain n where n: "ancestor ds (di_parent_id (ds ! cur)) n = BM_ID_INVALID"
    "\<forall>k<n. ancestor ds (di_parent_id (ds ! cur)) k < length ds \<and> ancestor ds (di_parent_id (ds ! cur)) k \<noteq> BM_ID_INVALID"
    by blast
  have "ancestor ds cur k < length ds \<and> ancestor ds cur k \<noteq> BM_ID_INVALID" if "k < Suc n" for k
    using that n(2) chain_parent.hyps by (cases k) (simp_all only: ancestor_Suc_right ancestor.simps(1) less_Suc_eq_0_disj, auto)
  then show ?case using n(1) by (intro exI [of _ "Suc n"]) (simp add: ancestor_Suc_right del: ancestor.simps)
qed

lemma chain_distinct:
  assumes n: "ancestor ds cur n = BM_ID_INVALID" "\<forall>k<n. ancestor ds cur k \<noteq> BM_ID_INVALID"
  shows "inj_on (ancestor ds cur) {..<n}"
proof (rule linorder_inj_onI)
  fix i j assume ij: "i < j" "i \<in> {..<n}" "j \<in> {..<n}"
  show "ancestor ds cur i \<noteq> ancestor ds cur j"
  proof
    assume eq: "ancestor ds cur i = ancestor ds cur j"
    have "ancestor ds cur (i + (n - j)) = ancestor ds cur (j + (n - j))"
      by (simp only: ancestor_add eq)
    then have "ancestor ds cur (i + (n - j)) = BM_ID_INVALID" using n(1) ij by simp
    moreover have "i + (n - j) < n" using ij by simp
    ultimately show False using n(2) by blast
  qed
qed auto

lemma chain_short:
  assumes "chain_ends ds cur"
  shows "\<exists>n\<le>length ds. ancestor ds cur n = BM_ID_INVALID"
proof -
  obtain n where n: "ancestor ds cur n = BM_ID_INVALID"
    "\<forall>k<n. ancestor ds cur k < length ds \<and> ancestor ds cur k \<noteq> BM_ID_INVALID"
    using chain_length [OF assms] by blast
  then have "card (ancestor ds cur ` {..<n}) = n" using chain_distinct by (simp add: card_image)
  moreover have "ancestor ds cur ` {..<n} \<subseteq> {..<length ds}" using n(2) by auto
  ultimately have "n \<le> length ds" by (metis card_lessThan card_mono finite_lessThan)
  then show ?thesis using n(1) by blast
qed

lemma parent_chain_complete:
  "chain_ends ds cur \<Longrightarrow> ancestor ds cur n = BM_ID_INVALID \<Longrightarrow> steps + n \<le> length ds \<Longrightarrow>
   parent_chain ds p cur steps st = (True, st)"
proof (induction n arbitrary: cur steps)
  case 0
  then show ?case by (subst parent_chain.simps) simp
next
  case (Suc n)
  show ?case
  proof (cases "cur = BM_ID_INVALID")
    case False
    from chain_ends_step [OF Suc.prems(1) False] have "cur < length ds" "chain_ends ds (di_parent_id (ds ! cur))"
      by simp_all
    then show ?thesis using False Suc.IH [of "di_parent_id (ds ! cur)" "Suc steps"] Suc.prems
      by (subst parent_chain.simps) (simp add: ancestor_Suc_right del: ancestor.simps)
  qed (subst parent_chain.simps, simp)
qed

lemma directory_chain_checks:
  "checks (chain_ends (dr_directories d) (di_parent_id r)) st (snd (bm_validate_directory_chain d r st))"
proof (cases "chain_ends (dr_directories d) (di_parent_id r)")
  case True
  from chain_short [OF True] obtain n where "n \<le> length (dr_directories d)"
    "ancestor (dr_directories d) (di_parent_id r) n = BM_ID_INVALID" by blast
  with True show ?thesis
    using parent_chain_complete [OF True, of n 0] by (simp add: bm_validate_directory_chain_def checks_start)
next
  case False
  then show ?thesis
    using parent_chain_checks [of "dr_directories d" "di_provenance r" "di_parent_id r" 0 st]
    by (cases "fst (parent_chain (dr_directories d) (di_provenance r) (di_parent_id r) 0 st)")
      (simp_all add: bm_validate_directory_chain_def)
qed

section \<open>Loops in a chain\<close>

lemma each_then:
  "checks Q s t \<Longrightarrow> (\<And>x st. checks (P x) st (f x st)) \<Longrightarrow> checks (Q \<and> (\<forall>x\<in>set xs. P x)) s (for_each f xs t)"
  by (rule checks_then [OF _ checks_for_each])

lemma indexed_then:
  "checks Q s t \<Longrightarrow> (\<And>i x st. checks (P i x) st (f i x st)) \<Longrightarrow>
   checks (Q \<and> (\<forall>i<length xs. P i (xs ! i))) s (for_indexed f xs t)"
  by (rule checks_then [OF _ checks_for_indexed])

lemma pairs_then:
  "checks Q s t \<Longrightarrow> (\<And>x y st. checks (P x y) st (f x y st)) \<Longrightarrow>
   checks (Q \<and> sorted_wrt P xs) s (for_pairs f xs t)"
  by (rule checks_then [OF _ checks_for_pairs])

lemmas [judging] = each_then indexed_then pairs_then

section \<open>What is checked\<close>

text \<open>The conditions on the records of a draft, without the code that tests them.\<close>

definition owner_ok :: "build_model_draft \<Rightarrow> nat \<Rightarrow> bool" where
  "owner_ok d owner \<longleftrightarrow> owner \<noteq> BM_ID_INVALID \<and> owner < length (dr_directories d)"

definition directory_ok :: "build_model_draft \<Rightarrow> nat \<Rightarrow> bm_directory \<Rightarrow> bool" where
  "directory_ok d i r \<longleftrightarrow>
     di_id r = i \<and> di_owner_directory_id r = i \<and> chain_ends (dr_directories d) (di_parent_id r)"

definition target_ok :: "build_model_draft \<Rightarrow> nat \<Rightarrow> bm_target \<Rightarrow> bool" where
  "target_ok d i t \<longleftrightarrow>
     tg_id t = i \<and> tg_name t \<noteq> [] \<and> tg_declared t \<and> owner_ok d (tg_owner_directory_id t) \<and>
     (\<forall>s\<in>set (tg_source_records t). src_kind s = BM_TARGET_SOURCE_REGULAR \<longleftrightarrow> src_file_set_name s = []) \<and>
     (\<forall>fs\<in>set (tg_file_sets t). fs_name fs \<noteq> [])"

definition replay_ok :: "build_model_draft \<Rightarrow> nat \<Rightarrow> bm_replay_action \<Rightarrow> bool" where
  "replay_ok d i a \<longleftrightarrow>
     ra_id a = i \<and> ra_action_key a \<noteq> [] \<and> owner_ok d (ra_owner_directory_id a) \<and>
     opcode_fits (ra_opcode a) (ra_kind a) \<and>
     payload_fits (ra_opcode a) (length (ra_inputs a)) (length (ra_outputs a)) (ra_argv a) (length (ra_environment a))"

definition export_fields_ok :: "bm_export \<Rightarrow> bool" where
  "export_fields_ok r \<longleftrightarrow>
     (case ex_kind r of
        BM_EXPORT_INSTALL \<Rightarrow> ex_name r \<noteq> [] \<and> ex_destination r \<noteq> []
      | BM_EXPORT_BUILD_TREE \<Rightarrow> ex_output_file_path r \<noteq> []
      | BM_EXPORT_PACKAGE_REGISTRY \<Rightarrow> ex_name r \<noteq> [] \<and> ex_registry_prefix r \<noteq> [])"

definition cpack_package_ok :: "build_model_draft \<Rightarrow> nat \<Rightarrow> bm_cpack_package \<Rightarrow> bool" where
  "cpack_package_ok d i r \<longleftrightarrow>
     cp_id r = i \<and> cp_package_key r \<noteq> [] \<and> cp_package_name r \<noteq> [] \<and> cp_package_file_name r \<noteq> [] \<and>
     cp_generators r \<noteq> [] \<and> owner_ok d (cp_owner_directory_id r) \<and>
     cp_components_grouping r \<in> {[], ''ONE_PER_GROUP'', ''IGNORE'', ''ALL_COMPONENTS_IN_ONE''}"

lemma owner_checks: "checks (owner_ok d owner) st (bm_validate_owner_directory d owner p st)"
  by (auto simp: bm_validate_owner_directory_def owner_ok_def checks_start checks_error)

lemmas [judging] = checks_then [OF _ owner_checks]

lemma directory_checks: "checks (directory_ok d i r) st (validate_directory d i r st)"
  unfolding validate_directory_def Let_def
  by (rule checks_cong, (rule judging checks_then [OF _ directory_chain_checks])+)
    (auto simp: directory_ok_def dest: chain_ends_step)

lemma source_checks:
  "checks (src_kind s = BM_TARGET_SOURCE_REGULAR \<longleftrightarrow> src_file_set_name s = []) st (validate_source s st)"
  unfolding validate_source_def Let_def by (rule checks_cong, (rule judging)+) auto

lemma file_set_checks: "checks (fs_name s \<noteq> []) st (validate_file_set s st)"
  unfolding validate_file_set_def by (rule checks_cong, (rule judging)+) auto

lemma target_checks: "checks (target_ok d i t) st (validate_target d i t st)"
  unfolding validate_target_def Let_def
  by (rule checks_cong, (rule judging source_checks file_set_checks)+) (auto simp: target_ok_def)

lemma duplicate_names_checks:
  "checks (distinct (map tg_name (dr_targets d))) st (bm_validate_duplicate_target_names d st)"
  unfolding bm_validate_duplicate_target_names_def
  by (rule checks_cong, rule checks_for_pairs, rule checks_error_if) (simp add: sorted_wrt_distinct)

lemma source_mutation_checks: "checks (sm_path m \<noteq> [] \<and> sm_key m \<noteq> []) st (validate_source_mutation m st)"
  unfolding validate_source_mutation_def by (rule checks_cong, (rule judging)+) auto

lemma build_step_checks:
  "checks (st_id s = i \<and> owner_ok d (st_owner_directory_id s)) st (validate_build_step d i s st)"
  unfolding validate_build_step_def Let_def by (rule checks_cong, (rule judging)+) auto

lemma replay_checks: "checks (replay_ok d i a) st (validate_replay_action d i a st)"
proof -
  have k: "checks (opcode_fits (ra_opcode a) (ra_kind a)) st (snd (bm_validate_replay_opcode_kind a st))" for st
    by (simp add: bm_validate_replay_opcode_kind_def checks_start checks_error)
  have s: "checks (payload_fits (ra_opcode a) (length (ra_inputs a)) (length (ra_outputs a)) (ra_argv a)
      (length (ra_environment a))) st (snd (bm_validate_replay_payload_shape a st))" for st
    by (simp add: bm_validate_replay_payload_shape_def checks_start checks_error)
  show ?thesis unfolding validate_replay_action_def Let_def
    by (rule checks_cong, (rule judging checks_then [OF _ k] checks_then [OF _ s])+) (auto simp: replay_ok_def)
qed

lemma test_checks:
  "checks (te_id r = i \<and> te_name r \<noteq> [] \<and> te_command r \<noteq> [] \<and> owner_ok d (te_owner_directory_id r)) st
     (validate_test d i r st)"
  unfolding validate_test_def Let_def by (rule checks_cong, (rule judging)+) auto

lemma install_rule_checks:
  "checks (ir_id r = i \<and> \<not> install_rule_incomplete r \<and> owner_ok d (ir_owner_directory_id r)) st
     (validate_install_rule d i r st)"
  unfolding validate_install_rule_def Let_def by (rule checks_cong, (rule judging)+) auto

lemma export_checks:
  "checks (ex_id r = i \<and> export_fields_ok r \<and> owner_ok d (ex_owner_directory_id r)) st (validate_export d i r st)"
proof -
  have f: "checks (export_fields_ok r) st (validate_export_fields r st)" for st
    unfolding validate_export_fields_def export_fields_ok_def
    by (cases "ex_kind r") (auto simp: error_if_def checks_start checks_error)
  show ?thesis unfolding validate_export_def Let_def
    by (rule checks_cong, (rule judging checks_then [OF _ f])+) auto
qed

lemma named_checks:
  "checks (ident = i \<and> name \<noteq> [] \<and> owner_ok d owner) st (validate_named d i ident name owner p m1 m2 st)"
  unfolding validate_named_def Let_def by (rule checks_cong, (rule judging)+) auto

lemma cpack_package_checks: "checks (cpack_package_ok d i r) st (validate_cpack_package d i r st)"
  unfolding validate_cpack_package_def Let_def
  by (rule checks_cong, (rule judging)+) (auto simp: cpack_package_ok_def)

section \<open>The passes\<close>

definition structure_ok :: "build_model_draft \<Rightarrow> bool" where
  "structure_ok d \<longleftrightarrow>
     (dr_has_semantic_entities d \<longrightarrow> dr_root_directory_id d \<noteq> BM_ID_INVALID) \<and>
     (\<forall>i<length (dr_directories d). directory_ok d i (dr_directories d ! i)) \<and>
     (\<forall>i<length (dr_targets d). target_ok d i (dr_targets d ! i)) \<and>
     distinct (map tg_name (dr_targets d)) \<and>
     (\<forall>m\<in>set (dr_source_mutations d). sm_path m \<noteq> [] \<and> sm_key m \<noteq> []) \<and>
     (\<forall>i<length (dr_build_steps d). st_id (dr_build_steps d ! i) = i \<and>
        owner_ok d (st_owner_directory_id (dr_build_steps d ! i))) \<and>
     (\<forall>i<length (dr_replay_actions d). replay_ok d i (dr_replay_actions d ! i)) \<and>
     (\<forall>i<length (dr_tests d). te_id (dr_tests d ! i) = i \<and> te_name (dr_tests d ! i) \<noteq> [] \<and>
        te_command (dr_tests d ! i) \<noteq> [] \<and> owner_ok d (te_owner_directory_id (dr_tests d ! i))) \<and>
     (\<forall>i<length (dr_install_rules d). ir_id (dr_install_rules d ! i) = i \<and>
        \<not> install_rule_incomplete (dr_install_rules d ! i) \<and>
        owner_ok d (ir_owner_directory_id (dr_install_rules d ! i))) \<and>
     (\<forall>i<length (dr_exports d). ex_id (dr_exports d ! i) = i \<and> export_fields_ok (dr_exports d ! i) \<and>
        owner_ok d (ex_owner_directory_id (dr_exports d ! i))) \<and>
     (\<forall>i<length (dr_packages d). pk_id (dr_packages d ! i) = i \<and> pk_package_name (dr_packages d ! i) \<noteq> [] \<and>
        owner_ok d (pk_owner_directory_id (dr_packages d ! i))) \<and>
     (\<forall>i<length (dr_cpack_install_types d). cit_id (dr_cpack_install_types d ! i) = i \<and>
        cit_name (dr_cpack_install_types d ! i) \<noteq> [] \<and>
        owner_ok d (cit_owner_directory_id (dr_cpack_install_types d ! i))) \<and>
     (\<forall>i<length (dr_cpack_groups d). cg_id (dr_cpack_groups d ! i) = i \<and>
        cg_name (dr_cpack_groups d ! i) \<noteq> [] \<and> owner_ok d (cg_owner_directory_id (dr_cpack_groups d ! i))) \<and>
     (\<forall>i<length (dr_cpack_components d). cc_id (dr_cpack_components d ! i) = i \<and>
        cc_name (dr_cpack_components d ! i) \<noteq> [] \<and>
        owner_ok d (cc_owner_directory_id (dr_cpack_components d ! i))) \<and>
     (\<forall>i<length (dr_cpack_packages d). cpack_package_ok d i (dr_cpack_packages d ! i))"

lemma structural_pass_checks: "checks (structure_ok d) st (bm_validate_structural_pass d st)"
  unfolding bm_validate_structural_pass_def Let_def validate_package_def validate_cpack_install_type_def
    validate_cpack_group_def validate_cpack_component_def structure_ok_def
  by (rule checks_cong, (rule judging checks_then [OF _ duplicate_names_checks] directory_checks target_checks
      source_mutation_checks build_step_checks replay_checks test_checks install_rule_checks export_checks
      named_checks cpack_package_checks)+) (simp only: simp_thms not_not conj_assoc de_Morgan_conj imp_conv_disj)

abbreviation known_target :: "build_model_draft \<Rightarrow> string_view \<Rightarrow> bool" where
  "known_target d name \<equiv> bm_draft_find_target_id d name \<noteq> BM_ID_INVALID"

text \<open>A member of a file set names one its target has declared, of its kind.\<close>

definition file_set_member_ok :: "bm_target \<Rightarrow> bm_target_source \<Rightarrow> bool" where
  "file_set_member_ok t s \<longleftrightarrow>
     (case find_file_set (tg_file_sets t) (src_file_set_name s) of
        None \<Rightarrow> False
      | Some fs \<Rightarrow>
          (src_kind s = BM_TARGET_SOURCE_HEADER_FILE_SET \<longrightarrow> fs_kind fs = BM_TARGET_FILE_SET_HEADERS) \<and>
          (src_kind s = BM_TARGET_SOURCE_CXX_MODULE_FILE_SET \<longrightarrow> fs_kind fs = BM_TARGET_FILE_SET_CXX_MODULES))"

definition resolution_ok :: "build_model_draft \<Rightarrow> bool" where
  "resolution_ok d \<longleftrightarrow>
     (\<forall>t\<in>set (dr_targets d).
        (tg_alias t \<longrightarrow> tg_alias_of_name t \<noteq> [] \<and> known_target d (tg_alias_of_name t)) \<and>
        (\<forall>dep\<in>set (explicit_dependency_names t). known_target d dep) \<and>
        (\<forall>s\<in>set (tg_source_records t). src_file_set_name s \<noteq> [] \<longrightarrow> file_set_member_ok t s)) \<and>
     (\<forall>s\<in>set (dr_build_steps d). st_owner_target_name s \<noteq> [] \<longrightarrow> known_target d (st_owner_target_name s)) \<and>
     (\<forall>r\<in>set (dr_install_rules d). ir_kind r = BM_INSTALL_RULE_TARGET \<longrightarrow> known_target d (ir_item r)) \<and>
     (\<forall>r\<in>set (dr_exports d).
        (ex_kind r = BM_EXPORT_INSTALL \<longrightarrow>
           (\<exists>rule\<in>set (dr_install_rules d). ir_kind rule = BM_INSTALL_RULE_TARGET \<and> ir_export_name rule = ex_name r)) \<and>
        (ex_kind r = BM_EXPORT_BUILD_TREE \<longrightarrow> (\<forall>name\<in>set (ex_target_names r). known_target d name))) \<and>
     (\<forall>g\<in>set (dr_cpack_groups d). cg_parent_group_name g \<noteq> [] \<longrightarrow>
        bm_draft_find_component_group_id d (cg_parent_group_name g) \<noteq> BM_ID_INVALID) \<and>
     (\<forall>c\<in>set (dr_cpack_components d).
        (cc_group_name c \<noteq> [] \<longrightarrow> bm_draft_find_component_group_id d (cc_group_name c) \<noteq> BM_ID_INVALID) \<and>
        (\<forall>name\<in>set (cc_dependency_names c). bm_draft_find_component_id d name \<noteq> BM_ID_INVALID) \<and>
        (\<forall>name\<in>set (cc_install_type_names c). bm_draft_find_install_type_id d name \<noteq> BM_ID_INVALID))"

lemma resolve_source_checks:
  "checks (src_file_set_name s \<noteq> [] \<longrightarrow> file_set_member_ok t s) st (resolve_source t s st)"
  by (auto simp: resolve_source_def file_set_member_ok_def bm_validate_find_target_file_set_def error_if_def
      checks_start checks_error split: option.splits)

lemma resolve_target_checks:
  "checks ((tg_alias t \<longrightarrow> tg_alias_of_name t \<noteq> [] \<and> known_target d (tg_alias_of_name t)) \<and>
     (\<forall>dep\<in>set (explicit_dependency_names t). known_target d dep) \<and>
     (\<forall>s\<in>set (tg_source_records t). src_file_set_name s \<noteq> [] \<longrightarrow> file_set_member_ok t s)) st (resolve_target d t st)"
proof -
  have a: "checks (tg_alias t \<longrightarrow> tg_alias_of_name t \<noteq> [] \<and> known_target d (tg_alias_of_name t)) st
      (if tg_alias t \<and> bm_string_view_is_empty (tg_alias_of_name t) then bm_error p ''resolution'' m st
       else error_if (tg_alias t \<and> \<not> known_target d (tg_alias_of_name t)) p ''resolution'' m' st)" for p m m' st
    by (auto simp: error_if_def checks_start checks_error)
  show ?thesis unfolding resolve_target_def Let_def
    by (rule checks_cong, (rule judging checks_then [OF _ a [unfolded not_not]] resolve_source_checks checks_error_if)+) auto
qed

lemma resolve_export_checks:
  "checks ((ex_kind r = BM_EXPORT_INSTALL \<longrightarrow>
       (\<exists>rule\<in>set (dr_install_rules d). ir_kind rule = BM_INSTALL_RULE_TARGET \<and> ir_export_name rule = ex_name r)) \<and>
     (ex_kind r = BM_EXPORT_BUILD_TREE \<longrightarrow> (\<forall>name\<in>set (ex_target_names r). known_target d name))) st (resolve_export d r st)"
proof (cases "ex_kind r")
  case BM_EXPORT_BUILD_TREE
  then show ?thesis unfolding resolve_export_def
    by simp (rule checks_cong, rule checks_for_each, rule checks_error_if, auto)
next
  case BM_EXPORT_INSTALL
  then show ?thesis unfolding resolve_export_def
    by simp (rule checks_cong, rule checks_error_if, auto simp: list_ex_iff)
qed (simp add: resolve_export_def checks_start)

lemma resolution_pass_checks: "checks (resolution_ok d) st (bm_validate_resolution_pass d st)"
  unfolding bm_validate_resolution_pass_def Let_def resolve_build_step_def resolve_install_rule_def
    resolve_cpack_group_def resolve_cpack_component_def
  by (rule checks_cong, (rule judging resolve_target_checks resolve_export_checks checks_error_if)+)
    (auto simp: resolution_ok_def)

text \<open>The semantic conditions on a target.\<close>

definition semantic_ok :: "bm_target \<Rightarrow> bool" where
  "semantic_ok t \<longleftrightarrow>
     (tg_kind t = BM_TARGET_INTERFACE_LIBRARY \<longrightarrow>
        tg_sources t = [] \<and> (\<forall>l\<in>set (tg_link_libraries t). li_visibility l \<noteq> BM_VISIBILITY_PRIVATE)) \<and>
     (tg_alias t \<longrightarrow> \<not> alias_has_payload t) \<and> (tg_imported t \<longrightarrow> \<not> imported_has_outputs t) \<and>
     (tg_imported_global t \<longrightarrow> tg_imported t) \<and> distinct (map fs_name (tg_file_sets t))"

lemma if_then: "checks Q s t \<Longrightarrow> (\<And>st. checks P st (f st)) \<Longrightarrow> checks (Q \<and> (b \<longrightarrow> P)) s (if b then f t else t)"
  using checks_then [of Q s t P "f t"] by simp

lemma semantic_target_checks: "checks (semantic_ok t) st (semantic_target t st)"
proof -
  have dup: "checks True st (if nob_sv_eq a b then bm_warn p c m st else st)" for a b p c m st
    by (simp add: checks_warn checks_start)
  have links: "checks (\<forall>l\<in>set ls. \<not> li_visibility l = BM_VISIBILITY_PRIVATE) st
      (for_each (\<lambda>l. error_if (li_visibility l = BM_VISIBILITY_PRIVATE) (li_provenance l) c m) ls st)" for ls :: "bm_link_item list" and c m st
    by (rule checks_for_each, rule checks_error_if)
  have warns: "checks (sorted_wrt (\<lambda>_ _. True) xs) st
      (for_pairs (\<lambda>a b st. if nob_sv_eq a b then bm_warn p c m st else st) xs st)" for xs p c m st
    by (rule checks_for_pairs, rule dup)
  have true: "sorted_wrt (\<lambda>_ _. True) xs" for xs :: "'a list" by (induction xs) simp_all
  show ?thesis unfolding semantic_target_def Let_def
    by (rule checks_cong, (rule judging if_then [OF _ links] if_then [OF _ warns] checks_error_if)+)
      (auto simp: semantic_ok_def true sorted_wrt_distinct)
qed

lemma semantic_pass_checks: "checks (\<forall>t\<in>set (dr_targets d). semantic_ok t) st (bm_validate_semantic_pass d st)"
  unfolding bm_validate_semantic_pass_def by (rule checks_for_each, rule semantic_target_checks)

section \<open>The search among them\<close>

text \<open>The search reports as the validators do; what it decides is known already.\<close>

definition honest :: "cycle_state \<Rightarrow> cycle_state \<Rightarrow> bool" where
  "honest st st' \<longleftrightarrow>
     (\<exists>new. sink st' = sink st @ new \<and> (had_error st' \<longleftrightarrow> had_error st \<or> has_error new))"

lemma honest_refl: "honest st st"
  by (simp add: honest_def)

lemma honest_trans: "honest s t \<Longrightarrow> honest t u \<Longrightarrow> honest s u"
  unfolding honest_def by (elim exE) (intro exI conjI, auto)

lemma honest_steps:
  "honest s st \<Longrightarrow> honest s (set_color v c st)" "honest s st \<Longrightarrow> honest s (bm_error p k m st)"
  unfolding honest_def by (auto simp: set_color_def bm_error_def)

lemma cycle_deps_honest:
  assumes "\<And>v st. honest st (snd (visit v st))"
  shows "honest s st \<Longrightarrow> honest s (snd (bm_cycle_deps d visit tid names st))"
proof (induction names arbitrary: st)
  case (Cons name names)
  have "honest s (snd (visit v st))" for v using Cons.prems assms honest_trans by blast
  then show ?case using Cons.prems Cons.IH
    by (auto simp: Let_def honest_steps split: prod.splits) (metis snd_conv)+
qed simp

lemma cycle_visit_honest: "honest st (snd (bm_cycle_visit d k tid st))"
proof (induction k arbitrary: tid st)
  case (Suc k)
  have "honest st (snd (bm_cycle_deps d (bm_cycle_visit d k) tid names (set_color tid 1 st)))" for names
    by (rule cycle_deps_honest [OF Suc]) (rule honest_steps [OF honest_refl])
  then show ?case by (auto split: prod.splits intro: honest_steps) (metis snd_conv honest_steps(1))+
qed (simp add: honest_refl)

lemma visit_roots_honest:
  assumes "\<And>v st. honest st (snd (visit v st))"
  shows "honest s st \<Longrightarrow> honest s (snd (visit_roots visit vs st))"
proof (induction vs arbitrary: st)
  case (Cons v vs)
  have "honest s (snd (visit v st))" using Cons.prems assms honest_trans by blast
  then show ?case using Cons.prems Cons.IH by (auto split: prod.splits)
qed simp

lemma explicit_cycles_honest: "honest st (snd (bm_validate_explicit_cycles (Some d) st))"
proof -
  have "honest st (st\<lparr>colors := cs\<rparr>)" for cs by (simp add: honest_def)
  then show ?thesis
    by (simp add: bm_validate_explicit_cycles_def Let_def honest_refl visit_roots_honest [OF cycle_visit_honest])
qed

lemma explicit_cycles_checks:
  assumes "draft_ok d"
  shows "\<exists>st'. bm_validate_explicit_cycles (Some d) st = (True, st') \<and> checks (acyclic (dep_graph d)) st st'"
proof -
  obtain st' where s: "bm_validate_explicit_cycles (Some d) st = (True, st')"
    "had_error st' \<longleftrightarrow> had_error st \<or> (\<exists>v. (v, v) \<in> (dep_graph d)\<^sup>+)"
    using explicit_cycles_search [OF assms] by blast
  then show ?thesis using explicit_cycles_honest [of st d]
    by (auto simp: checks_def honest_def acyclic_def)
qed

end
