(* ===== verification/Bm_Validate_Props.thy ===== *)
theory Bm_Validate_Props
  imports Bm_Validate_Facts
begin

text \<open>
  What a validated draft is: the verdict of \<open>bm_validate_draft\<close> is characterised exactly, and
  an accepted draft has the properties the freeze and the queries rest on.
\<close>

section \<open>Build orders\<close>

text \<open>A finite acyclic relation can be listed so that no element depends on a later one.\<close>

lemma acyclic_has_order:
  assumes "acyclic r" "finite S"
  shows "\<exists>order. distinct order \<and> set order = S \<and> sorted_wrt (\<lambda>u v. (u, v) \<notin> r) order"
  using assms(2)
proof (induction rule: finite_psubset_induct)
  case (psubset S)
  show ?case
  proof (cases "S = {}")
    case False
    let ?r = "r \<inter> S \<times> S"
    have "finite ?r" using psubset.hyps by (intro finite_Int disjI2 finite_cartesian_product)
    moreover have "acyclic ?r" using assms(1) acyclic_subset by blast
    ultimately have "wf (?r\<inverse>)" by (rule finite_acyclic_wf_converse)
    with False obtain x where x: "x \<in> S" "\<And>y. (y, x) \<in> ?r\<inverse> \<Longrightarrow> y \<notin> S"
      unfolding wf_eq_minimal by (metis ex_in_conv)
    have "S - {x} \<subset> S" using x(1) by blast
    from psubset.IH [OF this] obtain order where
      o: "distinct order" "set order = S - {x}" "sorted_wrt (\<lambda>u v. (u, v) \<notin> r) order" by blast
    have "\<forall>y\<in>set order. (x, y) \<notin> r" using x o(2) by blast
    then show ?thesis using o x(1) by (intro exI [of _ "x # order"]) auto
  qed (intro exI [of _ "[]"], simp)
qed

lemma validate_draft_checks:
  assumes "draft_ok d"
  defines "good \<equiv> structure_ok d \<and> resolution_ok d \<and> acyclic (dep_graph d) \<and> (\<forall>t\<in>set (dr_targets d). semantic_ok t)"
  shows "\<exists>new. bm_validate_draft (Some d) log = (good, log @ new) \<and> (good \<longleftrightarrow> \<not> has_error new)"
proof -
  define st0 where "st0 = \<lparr>colors = [], had_error = False, sink = log\<rparr>"
  let ?st1 = "bm_validate_resolution_pass d (bm_validate_structural_pass d st0)"
  obtain st2 where st2: "bm_validate_explicit_cycles (Some d) ?st1 = (True, st2)"
    "checks (acyclic (dep_graph d)) ?st1 st2"
    using explicit_cycles_checks [OF assms(1)] by blast
  let ?st3 = "bm_validate_semantic_pass d st2"
  have "checks good st0 ?st3" unfolding good_def
    by (rule checks_cong [OF checks_then [OF checks_then [OF checks_then [OF structural_pass_checks
      resolution_pass_checks] st2(2)] semantic_pass_checks]]) blast
  moreover have "bm_validate_draft (Some d) log = (\<not> had_error ?st3, sink ?st3)"
    using st2(1) by (simp add: bm_validate_draft_def Let_def st0_def)
  ultimately show ?thesis by (auto simp: checks_def st0_def)
qed

text \<open>A draft with one directory and two targets, the first of which needs the second.\<close>

definition sample_dir :: bm_directory where
  "sample_dir =
     \<lparr>di_id = 0, di_parent_id = BM_ID_INVALID, di_owner_directory_id = 0, di_source_dir = ''/s'', di_binary_dir = ''/b'',
      di_provenance = empty_provenance, di_include_directories = [], di_system_include_directories = [],
      di_link_libraries = [], di_link_directories = [], di_compile_definitions = [], di_compile_options = [],
      di_link_options = [], di_raw_properties = []\<rparr>"

definition sample_draft :: build_model_draft where
  "sample_draft =
     blank_draft\<lparr>dr_directories := [sample_dir],
       dr_targets := [blank_target\<lparr>tg_id := 0, tg_name := ''app'', tg_declared := True, tg_sources := [''m.c''],
                        explicit_dependency_names := [''lib'']\<rparr>,
                      blank_target\<lparr>tg_id := 1, tg_name := ''lib'', tg_declared := True,
                        tg_kind := BM_TARGET_STATIC_LIBRARY\<rparr>],
       target_name_index := [\<lparr>ne_name = ''app'', ne_id = 0\<rparr>, \<lparr>ne_name = ''lib'', ne_id = 1\<rparr>]\<rparr>"

lemma sample_structure: "structure_ok sample_draft"
  using chain_root
  by (simp add: structure_ok_def sample_draft_def sample_dir_def directory_ok_def
      target_ok_def owner_ok_def BM_ID_INVALID_def less_Suc_eq)

lemma sample_resolution: "resolution_ok sample_draft"
  by (simp add: resolution_ok_def sample_draft_def bm_draft_find_target_id_def
      BM_ID_INVALID_def)

lemma sample_semantic: "\<forall>t\<in>set (dr_targets sample_draft). semantic_ok t"
  by (simp add: semantic_ok_def sample_draft_def)

lemma sample_draft_ok: "draft_ok sample_draft"
  by (simp add: draft_ok_def sample_draft_def BM_ID_INVALID_def)

lemma sample_acyclic: "acyclic (dep_graph sample_draft)"
proof -
  have n: "length (dr_targets sample_draft) = 2"
    and e: "explicit_dependency_names (dr_targets sample_draft ! 0) = [''lib'']"
      "explicit_dependency_names (dr_targets sample_draft ! 1) = []"
    and l: "dep_target sample_draft ''lib'' = Some 1"
    by (simp_all add: sample_draft_def dep_target_def bm_draft_find_target_id_def BM_ID_INVALID_def)
  have "(u, v) \<in> dep_graph sample_draft \<longleftrightarrow> u = 0 \<and> v = 1" for u v
    unfolding dep_graph_def edge_rel_def n using e l
    by (cases "u = 0"; cases "u = 1") auto
  then have "dep_graph sample_draft = {(0, 1)}" by auto
  then show ?thesis by (simp add: acyclic_insert wf_acyclic)
qed

section \<open>Properties\<close>

text \<open>
  C7. The verdict on a draft, exactly: \<open>bm_validate_draft\<close> accepts the drafts whose records
  satisfy the structural, the resolution and the semantic conditions and whose explicit
  dependencies have no cycle, and no others; it only adds reports, and it rejects exactly when
  there is an error among them.
\<close>

theorem validate_draft_decides:
  assumes "draft_ok d"
  shows "\<exists>ok new. bm_validate_draft (Some d) log = (ok, log @ new) \<and> (ok \<longleftrightarrow> \<not> has_error new) \<and>
    (ok \<longleftrightarrow> structure_ok d \<and> resolution_ok d \<and> acyclic (dep_graph d) \<and> (\<forall>t\<in>set (dr_targets d). semantic_ok t))"
proof -
  obtain new where
    "bm_validate_draft (Some d) log = (structure_ok d \<and> resolution_ok d \<and> acyclic (dep_graph d) \<and>
       (\<forall>t\<in>set (dr_targets d). semantic_ok t), log @ new)"
    "(structure_ok d \<and> resolution_ok d \<and> acyclic (dep_graph d) \<and> (\<forall>t\<in>set (dr_targets d). semantic_ok t)) \<longleftrightarrow>
       \<not> has_error new"
    using validate_draft_checks [OF assms, of log] by (elim exE conjE)
  then show ?thesis by (intro exI conjI) (assumption | rule refl)+
qed

theorem validate_draft_decides_witness:
  "\<exists>new. bm_validate_draft (Some sample_draft) [] = (True, new) \<and> \<not> has_error new"
  using validate_draft_decides [OF sample_draft_ok, of "[]"] sample_structure sample_resolution sample_semantic
    sample_acyclic by auto

text \<open>
  C29. What an accepted draft guarantees: identifiers are positions, target names are distinct,
  every explicit dependency resolves to a target, the targets can be listed so that none
  depends on itself or on one listed after it, and from every directory the parents lead to a
  root in at most as many steps as there are directories.
\<close>

theorem validated_draft_safe:
  assumes "draft_ok d" "fst (bm_validate_draft (Some d) log)"
  shows "(\<forall>i<length (dr_targets d). tg_id (dr_targets d ! i) = i \<and>
      (\<forall>dep\<in>set (explicit_dependency_names (dr_targets d ! i)).
         bm_draft_find_target_id d dep < length (dr_targets d))) \<and>
    distinct (map tg_name (dr_targets d)) \<and>
    (\<exists>order. distinct order \<and> set order = {..<length (dr_targets d)} \<and>
       sorted_wrt (\<lambda>u v. (u, v) \<notin> dep_graph d) order \<and> (\<forall>v. (v, v) \<notin> dep_graph d)) \<and>
    (\<forall>i<length (dr_directories d). di_id (dr_directories d ! i) = i \<and>
      (\<exists>n\<le>length (dr_directories d). ancestor (dr_directories d) i (Suc n) = BM_ID_INVALID))"
proof -
  have s: "structure_ok d" and r: "resolution_ok d" and a: "acyclic (dep_graph d)"
    using validate_draft_checks [OF assms(1), of log] assms(2) by auto
  have t: "\<forall>i<length (dr_targets d). target_ok d i (dr_targets d ! i)"
    and di: "\<forall>i<length (dr_directories d). directory_ok d i (dr_directories d ! i)"
    and n: "distinct (map tg_name (dr_targets d))" using s by (simp_all add: structure_ok_def)
  have dep: "bm_draft_find_target_id d dep < length (dr_targets d)"
    if "i < length (dr_targets d)" "dep \<in> set (explicit_dependency_names (dr_targets d ! i))" for i dep
  proof -
    have "known_target d dep" using r that nth_mem unfolding resolution_ok_def by blast
    then show ?thesis using dep_target_range [OF assms(1), of dep "bm_draft_find_target_id d dep"]
      by (simp add: dep_target_def)
  qed
  obtain order where "distinct order" "set order = {..<length (dr_targets d)}"
    "sorted_wrt (\<lambda>u v. (u, v) \<notin> dep_graph d) order"
    using acyclic_has_order [OF a, of "{..<length (dr_targets d)}"] by blast
  moreover have "(v, v) \<notin> dep_graph d" for v using a unfolding acyclic_def by blast
  moreover have "\<exists>n\<le>length (dr_directories d). ancestor (dr_directories d) i (Suc n) = BM_ID_INVALID"
    if "i < length (dr_directories d)" for i
    using di that chain_short unfolding directory_ok_def ancestor_Suc_right by blast
  ultimately show ?thesis using t di n dep unfolding target_ok_def directory_ok_def by blast
qed

theorem validated_draft_safe_witness:
  "\<exists>order. distinct order \<and> set order = {..<2 :: nat} \<and> sorted_wrt (\<lambda>u v. (u, v) \<notin> dep_graph sample_draft) order"
proof -
  have "fst (bm_validate_draft (Some sample_draft) [])"
    using validate_draft_checks [OF sample_draft_ok, of "[]"] sample_structure sample_resolution sample_semantic
      sample_acyclic by auto
  note r = validated_draft_safe [OF sample_draft_ok this]
  have "length (dr_targets sample_draft) = 2" by (simp add: sample_draft_def)
  with r show ?thesis by auto
qed

end
