(* ===== verification/Bm_Events.thy ===== *)
theory Bm_Events
  imports Bm_Validate
begin

text \<open>
  The events that describe a build, \<open>src_v2/transpiler/event_ir.h\<close>, and the stream that keeps
  them, \<open>event_ir.c\<close>. A kind of event is its label in \<open>EVENT_KIND_LIST\<close>. Of the payloads those with the
  role \<open>EVENT_ROLE_BUILD_SEMANTIC\<close> are modelled; the others are \<open>Other_Event\<close>, with their label. An array that
  may be missing is an option. The copies a stream makes of its strings and arrays are as the originals.
\<close>

section \<open>Kinds and roles\<close>

datatype event_role =
    EVENT_ROLE_TRACE | EVENT_ROLE_DIAGNOSTIC | EVENT_ROLE_RUNTIME_EFFECT | EVENT_ROLE_STATE | EVENT_ROLE_BUILD_SEMANTIC

text \<open>The label, the label of the family and the roles of each kind.\<close>

definition event_kind_list :: "(string \<times> string \<times> event_role list) list" where
  "event_kind_list =
     [(''diag'', ''diag'', [EVENT_ROLE_DIAGNOSTIC]),
      (''command_begin'', ''trace'', [EVENT_ROLE_TRACE]),
      (''command_end'', ''trace'', [EVENT_ROLE_TRACE]),
      (''include_begin'', ''trace'', [EVENT_ROLE_TRACE]),
      (''include_end'', ''trace'', [EVENT_ROLE_TRACE]),
      (''add_subdirectory_begin'', ''trace'', [EVENT_ROLE_TRACE]),
      (''add_subdirectory_end'', ''trace'', [EVENT_ROLE_TRACE]),
      (''cmake_language_call'', ''trace'', [EVENT_ROLE_TRACE]),
      (''cmake_language_eval'', ''trace'', [EVENT_ROLE_TRACE]),
      (''cmake_language_defer_queue'', ''trace'', [EVENT_ROLE_TRACE]),
      (''directory_enter'', ''directory'', [EVENT_ROLE_TRACE, EVENT_ROLE_BUILD_SEMANTIC]),
      (''directory_leave'', ''directory'', [EVENT_ROLE_TRACE, EVENT_ROLE_BUILD_SEMANTIC]),
      (''directory_property_mutate'', ''directory'', [EVENT_ROLE_STATE, EVENT_ROLE_BUILD_SEMANTIC]),
      (''global_property_mutate'', ''directory'', [EVENT_ROLE_STATE, EVENT_ROLE_BUILD_SEMANTIC]),
      (''var_set'', ''var'', [EVENT_ROLE_STATE]),
      (''var_unset'', ''var'', [EVENT_ROLE_STATE]),
      (''scope_push'', ''scope'', [EVENT_ROLE_STATE]),
      (''scope_pop'', ''scope'', [EVENT_ROLE_STATE]),
      (''policy_push'', ''policy'', [EVENT_ROLE_STATE]),
      (''policy_pop'', ''policy'', [EVENT_ROLE_STATE]),
      (''policy_set'', ''policy'', [EVENT_ROLE_STATE]),
      (''flow_return'', ''flow'', [EVENT_ROLE_TRACE, EVENT_ROLE_STATE]),
      (''flow_if_eval'', ''flow'', [EVENT_ROLE_TRACE, EVENT_ROLE_STATE]),
      (''flow_branch_taken'', ''flow'', [EVENT_ROLE_TRACE, EVENT_ROLE_STATE]),
      (''flow_loop_begin'', ''flow'', [EVENT_ROLE_TRACE, EVENT_ROLE_STATE]),
      (''flow_loop_end'', ''flow'', [EVENT_ROLE_TRACE, EVENT_ROLE_STATE]),
      (''flow_break'', ''flow'', [EVENT_ROLE_TRACE, EVENT_ROLE_STATE]),
      (''flow_continue'', ''flow'', [EVENT_ROLE_TRACE, EVENT_ROLE_STATE]),
      (''flow_defer_queue'', ''flow'', [EVENT_ROLE_TRACE, EVENT_ROLE_STATE]),
      (''flow_defer_flush'', ''flow'', [EVENT_ROLE_TRACE, EVENT_ROLE_STATE]),
      (''flow_block_begin'', ''flow'', [EVENT_ROLE_TRACE, EVENT_ROLE_STATE]),
      (''flow_block_end'', ''flow'', [EVENT_ROLE_TRACE, EVENT_ROLE_STATE]),
      (''flow_function_begin'', ''flow'', [EVENT_ROLE_TRACE, EVENT_ROLE_STATE]),
      (''flow_function_end'', ''flow'', [EVENT_ROLE_TRACE, EVENT_ROLE_STATE]),
      (''flow_macro_begin'', ''flow'', [EVENT_ROLE_TRACE, EVENT_ROLE_STATE]),
      (''flow_macro_end'', ''flow'', [EVENT_ROLE_TRACE, EVENT_ROLE_STATE]),
      (''fs_write_file'', ''fs'', [EVENT_ROLE_RUNTIME_EFFECT]),
      (''fs_append_file'', ''fs'', [EVENT_ROLE_RUNTIME_EFFECT]),
      (''fs_read_file'', ''fs'', [EVENT_ROLE_RUNTIME_EFFECT]),
      (''fs_glob'', ''fs'', [EVENT_ROLE_RUNTIME_EFFECT]),
      (''fs_mkdir'', ''fs'', [EVENT_ROLE_RUNTIME_EFFECT]),
      (''fs_remove'', ''fs'', [EVENT_ROLE_RUNTIME_EFFECT]),
      (''fs_copy'', ''fs'', [EVENT_ROLE_RUNTIME_EFFECT]),
      (''fs_rename'', ''fs'', [EVENT_ROLE_RUNTIME_EFFECT]),
      (''fs_create_link'', ''fs'', [EVENT_ROLE_RUNTIME_EFFECT]),
      (''fs_chmod'', ''fs'', [EVENT_ROLE_RUNTIME_EFFECT]),
      (''fs_archive_create'', ''fs'', [EVENT_ROLE_RUNTIME_EFFECT]),
      (''fs_archive_extract'', ''fs'', [EVENT_ROLE_RUNTIME_EFFECT]),
      (''fs_transfer_download'', ''fs'', [EVENT_ROLE_RUNTIME_EFFECT]),
      (''fs_transfer_upload'', ''fs'', [EVENT_ROLE_RUNTIME_EFFECT]),
      (''proc_exec_request'', ''proc'', [EVENT_ROLE_RUNTIME_EFFECT]),
      (''proc_exec_result'', ''proc'', [EVENT_ROLE_RUNTIME_EFFECT]),
      (''string_replace'', ''string'', [EVENT_ROLE_RUNTIME_EFFECT]),
      (''string_configure'', ''string'', [EVENT_ROLE_RUNTIME_EFFECT]),
      (''string_regex'', ''string'', [EVENT_ROLE_RUNTIME_EFFECT]),
      (''string_hash'', ''string'', [EVENT_ROLE_RUNTIME_EFFECT]),
      (''string_timestamp'', ''string'', [EVENT_ROLE_RUNTIME_EFFECT]),
      (''list_append'', ''list'', [EVENT_ROLE_RUNTIME_EFFECT]),
      (''list_prepend'', ''list'', [EVENT_ROLE_RUNTIME_EFFECT]),
      (''list_insert'', ''list'', [EVENT_ROLE_RUNTIME_EFFECT]),
      (''list_remove'', ''list'', [EVENT_ROLE_RUNTIME_EFFECT]),
      (''list_transform'', ''list'', [EVENT_ROLE_RUNTIME_EFFECT]),
      (''list_sort'', ''list'', [EVENT_ROLE_RUNTIME_EFFECT]),
      (''math_expr'', ''math'', [EVENT_ROLE_RUNTIME_EFFECT]),
      (''path_normalize'', ''path'', [EVENT_ROLE_RUNTIME_EFFECT]),
      (''path_compare'', ''path'', [EVENT_ROLE_RUNTIME_EFFECT]),
      (''path_convert'', ''path'', [EVENT_ROLE_RUNTIME_EFFECT]),
      (''test_enable'', ''test'', [EVENT_ROLE_BUILD_SEMANTIC]),
      (''test_add'', ''test'', [EVENT_ROLE_BUILD_SEMANTIC]),
      (''install_rule_add'', ''install'', [EVENT_ROLE_BUILD_SEMANTIC]),
      (''cpack_add_install_type'', ''cpack'', [EVENT_ROLE_BUILD_SEMANTIC]),
      (''cpack_add_component_group'', ''cpack'', [EVENT_ROLE_BUILD_SEMANTIC]),
      (''cpack_add_component'', ''cpack'', [EVENT_ROLE_BUILD_SEMANTIC]),
      (''cpack_package_declare'', ''cpack'', [EVENT_ROLE_BUILD_SEMANTIC]),
      (''cpack_package_add_generator'', ''cpack'', [EVENT_ROLE_BUILD_SEMANTIC]),
      (''cpack_package_archive_name_override'', ''cpack'', [EVENT_ROLE_BUILD_SEMANTIC]),
      (''package_find_result'', ''package'', [EVENT_ROLE_BUILD_SEMANTIC]),
      (''project_declare'', ''project'', [EVENT_ROLE_BUILD_SEMANTIC]),
      (''project_minimum_required'', ''project'', [EVENT_ROLE_BUILD_SEMANTIC]),
      (''target_declare'', ''target'', [EVENT_ROLE_BUILD_SEMANTIC]),
      (''target_add_source'', ''target'', [EVENT_ROLE_BUILD_SEMANTIC]),
      (''target_file_set_declare'', ''target'', [EVENT_ROLE_BUILD_SEMANTIC]),
      (''target_file_set_add_base_dir'', ''target'', [EVENT_ROLE_BUILD_SEMANTIC]),
      (''source_mark_generated'', ''build_graph'', [EVENT_ROLE_BUILD_SEMANTIC]),
      (''source_property_mutate'', ''build_graph'', [EVENT_ROLE_BUILD_SEMANTIC]),
      (''target_add_dependency'', ''target'', [EVENT_ROLE_BUILD_SEMANTIC]),
      (''build_step_declare'', ''build_graph'', [EVENT_ROLE_BUILD_SEMANTIC]),
      (''build_step_add_output'', ''build_graph'', [EVENT_ROLE_BUILD_SEMANTIC]),
      (''build_step_add_byproduct'', ''build_graph'', [EVENT_ROLE_BUILD_SEMANTIC]),
      (''build_step_add_dependency'', ''build_graph'', [EVENT_ROLE_BUILD_SEMANTIC]),
      (''build_step_add_command'', ''build_graph'', [EVENT_ROLE_BUILD_SEMANTIC]),
      (''target_prop_set'', ''target'', [EVENT_ROLE_BUILD_SEMANTIC]),
      (''target_link_libraries'', ''target'', [EVENT_ROLE_BUILD_SEMANTIC]),
      (''target_link_options'', ''target'', [EVENT_ROLE_BUILD_SEMANTIC]),
      (''target_link_directories'', ''target'', [EVENT_ROLE_BUILD_SEMANTIC]),
      (''target_include_directories'', ''target'', [EVENT_ROLE_BUILD_SEMANTIC]),
      (''target_compile_definitions'', ''target'', [EVENT_ROLE_BUILD_SEMANTIC]),
      (''target_compile_options'', ''target'', [EVENT_ROLE_BUILD_SEMANTIC]),
      (''target_compile_features'', ''target'', [EVENT_ROLE_BUILD_SEMANTIC]),
      (''export_install'', ''export'', [EVENT_ROLE_BUILD_SEMANTIC]),
      (''export_build_declare'', ''export'', [EVENT_ROLE_BUILD_SEMANTIC]),
      (''export_build_add_target'', ''export'', [EVENT_ROLE_BUILD_SEMANTIC]),
      (''export_package_registry'', ''export'', [EVENT_ROLE_BUILD_SEMANTIC]),
      (''replay_action_declare'', ''build_graph'', [EVENT_ROLE_RUNTIME_EFFECT, EVENT_ROLE_BUILD_SEMANTIC]),
      (''replay_action_add_input'', ''build_graph'', [EVENT_ROLE_RUNTIME_EFFECT, EVENT_ROLE_BUILD_SEMANTIC]),
      (''replay_action_add_output'', ''build_graph'', [EVENT_ROLE_RUNTIME_EFFECT, EVENT_ROLE_BUILD_SEMANTIC]),
      (''replay_action_add_argv'', ''build_graph'', [EVENT_ROLE_RUNTIME_EFFECT, EVENT_ROLE_BUILD_SEMANTIC]),
      (''replay_action_add_env'', ''build_graph'', [EVENT_ROLE_RUNTIME_EFFECT, EVENT_ROLE_BUILD_SEMANTIC])]"

definition event_kind_meta :: "string \<Rightarrow> (string \<times> event_role list) option" where
  "event_kind_meta kind = map_of event_kind_list kind"

definition event_kind_has_role :: "string \<Rightarrow> event_role \<Rightarrow> bool" where
  "event_kind_has_role kind role =
     (case event_kind_meta kind of None \<Rightarrow> False | Some (family, roles) \<Rightarrow> role \<in> set roles)"

definition event_kind_name :: "string \<Rightarrow> string" where
  "event_kind_name kind = (case event_kind_meta kind of None \<Rightarrow> ''unknown_event'' | Some m \<Rightarrow> kind)"

section \<open>Enumerations\<close>

datatype event_build_step_kind =
    EVENT_BUILD_STEP_OUTPUT_RULE | EVENT_BUILD_STEP_CUSTOM_TARGET | EVENT_BUILD_STEP_TARGET_PRE_BUILD
  | EVENT_BUILD_STEP_TARGET_PRE_LINK | EVENT_BUILD_STEP_TARGET_POST_BUILD

datatype event_step_dependency_kind = EVENT_BUILD_STEP_DEP_PATH_TOKEN | EVENT_BUILD_STEP_DEP_TARGET_REF

datatype event_replay_phase =
    EVENT_REPLAY_PHASE_CONFIGURE | EVENT_REPLAY_PHASE_BUILD | EVENT_REPLAY_PHASE_TEST | EVENT_REPLAY_PHASE_INSTALL
  | EVENT_REPLAY_PHASE_EXPORT | EVENT_REPLAY_PHASE_PACKAGE | EVENT_REPLAY_PHASE_HOST_ONLY

datatype event_replay_action_kind =
    EVENT_REPLAY_ACTION_FILESYSTEM | EVENT_REPLAY_ACTION_PROCESS | EVENT_REPLAY_ACTION_PROBE
  | EVENT_REPLAY_ACTION_DEPENDENCY_MATERIALIZATION | EVENT_REPLAY_ACTION_TEST_DRIVER | EVENT_REPLAY_ACTION_HOST_EFFECT

text \<open>The opcodes of the events are, constant for constant, those of the build model.\<close>

type_synonym event_replay_opcode = bm_replay_opcode

datatype event_export_source_kind =
    EVENT_EXPORT_SOURCE_INSTALL_EXPORT | EVENT_EXPORT_SOURCE_TARGETS | EVENT_EXPORT_SOURCE_EXPORT_SET
  | EVENT_EXPORT_SOURCE_PACKAGE

datatype cmake_target_property_op = EV_PROP_SET | EV_PROP_APPEND_LIST | EV_PROP_APPEND_STRING | EV_PROP_PREPEND_LIST

datatype cmake_visibility =
    EV_VISIBILITY_UNSPECIFIED | EV_VISIBILITY_PRIVATE | EV_VISIBILITY_PUBLIC | EV_VISIBILITY_INTERFACE

datatype cmake_target_type =
    EV_TARGET_EXECUTABLE | EV_TARGET_LIBRARY_STATIC | EV_TARGET_LIBRARY_SHARED | EV_TARGET_LIBRARY_MODULE
  | EV_TARGET_LIBRARY_INTERFACE | EV_TARGET_LIBRARY_OBJECT | EV_TARGET_LIBRARY_UNKNOWN

datatype event_target_source_kind =
    EVENT_TARGET_SOURCE_REGULAR | EVENT_TARGET_SOURCE_FILE_SET_HEADERS | EVENT_TARGET_SOURCE_FILE_SET_CXX_MODULES

datatype event_file_set_kind = EVENT_TARGET_FILE_SET_HEADERS | EVENT_TARGET_FILE_SET_CXX_MODULES

datatype cmake_install_rule_type =
    EV_INSTALL_RULE_TARGET | EV_INSTALL_RULE_FILE | EV_INSTALL_RULE_PROGRAM | EV_INSTALL_RULE_DIRECTORY

section \<open>Payloads\<close>

text \<open>The modifier flags of a property are the bits BEFORE (0) and SYSTEM (1).\<close>

record event_property_mutate =
  pm_property_name :: string_view
  pm_op :: property_mutate_op
  pm_modifier_flags :: nat
  pm_items :: "string_view list"
  pm_typed_items :: "string_view list"
  pm_typed_item_semantics :: "link_item_metadata list option"

record event_test_add =
  ta_name :: string_view
  ta_command :: string_view
  ta_working_dir :: string_view
  ta_command_expand_lists :: bool
  ta_configurations :: "string_view list"

record event_install_rule_add =
  ia_rule_type :: cmake_install_rule_type
  ia_item :: string_view
  ia_destination :: string_view
  ia_rename :: string_view
  ia_component :: string_view
  ia_archive_component :: string_view
  ia_library_component :: string_view
  ia_runtime_component :: string_view
  ia_includes_component :: string_view
  ia_public_header_component :: string_view
  ia_namelink_component :: string_view
  ia_export_name :: string_view
  ia_archive_destination :: string_view
  ia_library_destination :: string_view
  ia_runtime_destination :: string_view
  ia_includes_destination :: string_view
  ia_public_header_destination :: string_view

record event_export_install =
  xi_export_name :: string_view
  xi_destination :: string_view
  xi_export_namespace :: string_view
  xi_file_name :: string_view
  xi_component :: string_view

record event_export_build_declare =
  xb_export_key :: string_view
  xb_source_kind :: event_export_source_kind
  xb_logical_name :: string_view
  xb_file_path :: string_view
  xb_export_namespace :: string_view
  xb_append :: bool
  xb_cxx_modules_directory :: string_view

record event_cpack_group =
  cga_name :: string_view
  cga_display_name :: string_view
  cga_description :: string_view
  cga_parent_group :: string_view
  cga_expanded :: bool
  cga_bold_title :: bool

record event_cpack_component =
  cca_name :: string_view
  cca_display_name :: string_view
  cca_description :: string_view
  cca_group :: string_view
  cca_depends :: string_view
  cca_install_types :: string_view
  cca_archive_file :: string_view
  cca_plist :: string_view
  cca_required :: bool
  cca_hidden :: bool
  cca_disabled :: bool
  cca_downloaded :: bool

record event_cpack_package =
  cpa_package_key :: string_view
  cpa_package_name :: string_view
  cpa_package_version :: string_view
  cpa_package_file_name :: string_view
  cpa_package_directory :: string_view
  cpa_archive_file_name :: string_view
  cpa_archive_file_extension :: string_view
  cpa_components_grouping :: string_view
  cpa_project_config_file :: string_view
  cpa_include_toplevel_directory :: bool
  cpa_archive_component_install :: bool
  cpa_components_all :: string_view

record event_package_find_result =
  pf_package_name :: string_view
  pf_mode :: string_view
  pf_found_path :: string_view
  pf_found :: bool
  pf_required :: bool
  pf_quiet :: bool

record event_project_declare =
  pd_name :: string_view
  pd_version :: string_view
  pd_description :: string_view
  pd_homepage_url :: string_view
  pd_languages :: string_view

record event_target_declare =
  td_name :: string_view
  td_target_type :: cmake_target_type
  td_imported :: bool
  td_alias :: bool
  td_alias_of :: string_view

record event_target_add_source =
  as_target_name :: string_view
  as_path :: string_view
  as_visibility :: cmake_visibility
  as_source_kind :: event_target_source_kind
  as_file_set_name :: string_view

record event_source_property_mutate =
  spm_path :: string_view
  spm_directory_source_dir :: string_view
  spm_directory_binary_dir :: string_view
  spm_key :: string_view
  spm_value :: string_view
  spm_op :: cmake_target_property_op

record event_build_step_declare =
  sd_step_key :: string_view
  sd_step_kind :: event_build_step_kind
  sd_owner_target_name :: string_view
  sd_append :: bool
  sd_verbatim :: bool
  sd_uses_terminal :: bool
  sd_command_expand_lists :: bool
  sd_depends_explicit_only :: bool
  sd_codegen :: bool
  sd_working_directory :: string_view
  sd_comment :: string_view
  sd_main_dependency :: string_view
  sd_depfile :: string_view
  sd_job_pool :: string_view
  sd_job_server_aware :: string_view

record event_replay_action_declare =
  rd_action_key :: string_view
  rd_action_kind :: event_replay_action_kind
  rd_opcode :: event_replay_opcode
  rd_phase :: event_replay_phase
  rd_working_directory :: string_view

record event_target_prop_set =
  ps_target_name :: string_view
  ps_key :: string_view
  ps_value :: string_view
  ps_op :: cmake_target_property_op
  ps_typed_items :: "string_view list"
  ps_typed_item_semantics :: "link_item_metadata list option"

text \<open>The usage events of a target; the flags a kind does not have are off.\<close>

record event_target_usage =
  tu_target_name :: string_view
  tu_visibility :: cmake_visibility
  tu_item :: string_view
  tu_is_system :: bool
  tu_is_before :: bool
  tu_semantic :: link_item_metadata

datatype target_usage_kind =
    Usage_Link_Libraries | Usage_Link_Options | Usage_Link_Directories | Usage_Include_Directories
  | Usage_Compile_Definitions | Usage_Compile_Options | Usage_Compile_Features

text \<open>
  The payload decides the kind. Arguments stand in the order of the fields: directories are source and
  binary, items of a step, an action, a set or a target follow the key or the name they belong to.
  The payloads are grouped as the builder handles them.
\<close>

datatype project_event =
    Ev_Project_Declare event_project_declare
  | Ev_Project_Minimum_Required string_view bool

datatype directory_event =
    Ev_Directory_Enter string_view string_view
  | Ev_Directory_Leave string_view string_view
  | Ev_Directory_Property_Mutate event_property_mutate
  | Ev_Global_Property_Mutate event_property_mutate

datatype target_event =
    Ev_Target_Declare event_target_declare
  | Ev_Target_Add_Source event_target_add_source
  | Ev_Target_File_Set_Declare string_view string_view event_file_set_kind cmake_visibility
  | Ev_Target_File_Set_Add_Base_Dir string_view string_view string_view
  | Ev_Target_Add_Dependency string_view string_view
  | Ev_Target_Prop_Set event_target_prop_set
  | Ev_Target_Usage target_usage_kind event_target_usage

datatype build_step_item =
    Step_Output string_view
  | Step_Byproduct string_view
  | Step_Dependency string_view event_step_dependency_kind string_view
  | Step_Command nat "string_view list"

datatype build_graph_event =
    Ev_Source_Mark_Generated string_view string_view string_view bool
  | Ev_Source_Property_Mutate event_source_property_mutate
  | Ev_Build_Step_Declare event_build_step_declare
  | Ev_Build_Step_Add string_view build_step_item

datatype replay_item =
    Replay_Input string_view
  | Replay_Output string_view
  | Replay_Argv nat string_view
  | Replay_Env string_view string_view

datatype replay_event =
    Ev_Replay_Action_Declare event_replay_action_declare
  | Ev_Replay_Action_Add string_view replay_item

datatype test_event =
    Ev_Test_Enable bool
  | Ev_Test_Add event_test_add

datatype export_event =
    Ev_Export_Install event_export_install
  | Ev_Export_Build_Declare event_export_build_declare
  | Ev_Export_Build_Add_Target string_view string_view
  | Ev_Export_Package_Registry string_view string_view bool

datatype package_event =
    Ev_Package_Find_Result event_package_find_result
  | Ev_Cpack_Add_Install_Type string_view string_view
  | Ev_Cpack_Add_Component_Group event_cpack_group
  | Ev_Cpack_Add_Component event_cpack_component
  | Ev_Cpack_Package_Declare event_cpack_package
  | Ev_Cpack_Package_Add_Generator string_view string_view
  | Ev_Cpack_Package_Archive_Name_Override string_view string_view string_view

datatype event_payload =
    Project_Event project_event
  | Directory_Event directory_event
  | Target_Event target_event
  | Build_Graph_Event build_graph_event
  | Replay_Event replay_event
  | Test_Event test_event
  | Install_Event event_install_rule_add
  | Export_Event export_event
  | Package_Event package_event
  | Other_Event string

primrec usage_kind :: "target_usage_kind \<Rightarrow> string" where
  "usage_kind Usage_Link_Libraries = ''target_link_libraries''"
| "usage_kind Usage_Link_Options = ''target_link_options''"
| "usage_kind Usage_Link_Directories = ''target_link_directories''"
| "usage_kind Usage_Include_Directories = ''target_include_directories''"
| "usage_kind Usage_Compile_Definitions = ''target_compile_definitions''"
| "usage_kind Usage_Compile_Options = ''target_compile_options''"
| "usage_kind Usage_Compile_Features = ''target_compile_features''"

definition payload_kind :: "event_payload \<Rightarrow> string" where
  "payload_kind p =
     (case p of
        Project_Event e \<Rightarrow>
          (case e of Ev_Project_Declare _ \<Rightarrow> ''project_declare'' | Ev_Project_Minimum_Required _ _ \<Rightarrow> ''project_minimum_required'')
      | Directory_Event e \<Rightarrow>
          (case e of Ev_Directory_Enter _ _ \<Rightarrow> ''directory_enter'' | Ev_Directory_Leave _ _ \<Rightarrow> ''directory_leave''
           | Ev_Directory_Property_Mutate _ \<Rightarrow> ''directory_property_mutate''
           | Ev_Global_Property_Mutate _ \<Rightarrow> ''global_property_mutate'')
      | Target_Event e \<Rightarrow>
          (case e of Ev_Target_Declare _ \<Rightarrow> ''target_declare'' | Ev_Target_Add_Source _ \<Rightarrow> ''target_add_source''
           | Ev_Target_File_Set_Declare _ _ _ _ \<Rightarrow> ''target_file_set_declare''
           | Ev_Target_File_Set_Add_Base_Dir _ _ _ \<Rightarrow> ''target_file_set_add_base_dir''
           | Ev_Target_Add_Dependency _ _ \<Rightarrow> ''target_add_dependency'' | Ev_Target_Prop_Set _ \<Rightarrow> ''target_prop_set''
           | Ev_Target_Usage u _ \<Rightarrow> usage_kind u)
      | Build_Graph_Event e \<Rightarrow>
          (case e of Ev_Source_Mark_Generated _ _ _ _ \<Rightarrow> ''source_mark_generated''
           | Ev_Source_Property_Mutate _ \<Rightarrow> ''source_property_mutate'' | Ev_Build_Step_Declare _ \<Rightarrow> ''build_step_declare''
           | Ev_Build_Step_Add _ item \<Rightarrow>
               (case item of Step_Output _ \<Rightarrow> ''build_step_add_output'' | Step_Byproduct _ \<Rightarrow> ''build_step_add_byproduct''
                | Step_Dependency _ _ _ \<Rightarrow> ''build_step_add_dependency'' | Step_Command _ _ \<Rightarrow> ''build_step_add_command''))
      | Replay_Event e \<Rightarrow>
          (case e of Ev_Replay_Action_Declare _ \<Rightarrow> ''replay_action_declare''
           | Ev_Replay_Action_Add _ item \<Rightarrow>
               (case item of Replay_Input _ \<Rightarrow> ''replay_action_add_input'' | Replay_Output _ \<Rightarrow> ''replay_action_add_output''
                | Replay_Argv _ _ \<Rightarrow> ''replay_action_add_argv'' | Replay_Env _ _ \<Rightarrow> ''replay_action_add_env''))
      | Test_Event e \<Rightarrow> (case e of Ev_Test_Enable _ \<Rightarrow> ''test_enable'' | Ev_Test_Add _ \<Rightarrow> ''test_add'')
      | Install_Event e \<Rightarrow> ''install_rule_add''
      | Export_Event e \<Rightarrow>
          (case e of Ev_Export_Install _ \<Rightarrow> ''export_install'' | Ev_Export_Build_Declare _ \<Rightarrow> ''export_build_declare''
           | Ev_Export_Build_Add_Target _ _ \<Rightarrow> ''export_build_add_target''
           | Ev_Export_Package_Registry _ _ _ \<Rightarrow> ''export_package_registry'')
      | Package_Event e \<Rightarrow>
          (case e of Ev_Package_Find_Result _ \<Rightarrow> ''package_find_result''
           | Ev_Cpack_Add_Install_Type _ _ \<Rightarrow> ''cpack_add_install_type''
           | Ev_Cpack_Add_Component_Group _ \<Rightarrow> ''cpack_add_component_group''
           | Ev_Cpack_Add_Component _ \<Rightarrow> ''cpack_add_component''
           | Ev_Cpack_Package_Declare _ \<Rightarrow> ''cpack_package_declare''
           | Ev_Cpack_Package_Add_Generator _ _ \<Rightarrow> ''cpack_package_add_generator''
           | Ev_Cpack_Package_Archive_Name_Override _ _ _ \<Rightarrow> ''cpack_package_archive_name_override'')
      | Other_Event kind \<Rightarrow> kind)"

record bm_event =
  ev_version :: nat
  ev_seq :: nat
  ev_file_path :: string_view
  ev_line :: nat
  ev_col :: nat
  ev_payload :: event_payload

definition ev_kind :: "bm_event \<Rightarrow> string" where
  "ev_kind ev = payload_kind (ev_payload ev)"

section \<open>The stream\<close>

record event_stream =
  es_items :: "bm_event list"
  es_next_seq :: nat

definition event_stream_create :: event_stream where
  "event_stream_create = \<lparr>es_items = [], es_next_seq = 1\<rparr>"

text \<open>
  An event without a version gets the default one, an event without a number the next one; the
  numbers are those of a \<open>uint64_t\<close>.
\<close>

definition event_stream_push :: "bm_event \<Rightarrow> event_stream \<Rightarrow> bool \<times> event_stream" where
  "event_stream_push src s =
     (case event_kind_meta (ev_kind src) of
        None \<Rightarrow> (False, s)
      | Some m \<Rightarrow>
          (let e1 = (if ev_version src = 0 then src\<lparr>ev_version := 1\<rparr> else src);
               e2 = (if ev_seq e1 = 0 then e1\<lparr>ev_seq := es_next_seq s\<rparr> else e1)
           in (True, s\<lparr>es_items := es_items s @ [e2],
                       es_next_seq := (if es_next_seq s \<le> ev_seq e2 then (ev_seq e2 + 1) mod 2 ^ 64 else es_next_seq s)\<rparr>)))"

end
