(* ===== verification/Bm_Builder.thy ===== *)
theory Bm_Builder
  imports Bm_Events
begin

text \<open>
  The builder, \<open>src_v2/build_model/build_model_builder*.c\<close>: it replays a stream of events into a
  draft. This theory has its state, the look-ups and conversions, and the changes to records; the
  handlers are in \<open>Bm_Builder_Handlers\<close>. There is memory for every copy, so that of the failures
  those remain that the events themselves cause. The stack of directories is listed from the
  innermost outwards.
\<close>

section \<open>State\<close>

record bm_builder =
  has_fatal_error :: bool
  bb_draft :: build_model_draft
  directory_stack :: "nat list"
  bb_sink :: "bm_report list"

definition bm_builder_create :: "bm_report list \<Rightarrow> bm_builder" where
  "bm_builder_create log =
     \<lparr>has_fatal_error = False, bb_draft = blank_draft\<lparr>dr_root_directory_id := BM_ID_INVALID\<rparr>,
      directory_stack = [], bb_sink = log\<rparr>"

text \<open>An identifier is a position, in 32 bits.\<close>

definition bm_id :: "nat \<Rightarrow> nat" where
  "bm_id n = n mod 2 ^ 32"

definition bm_provenance_from_event :: "bm_event \<Rightarrow> bm_provenance" where
  "bm_provenance_from_event ev =
     \<lparr>event_seq = ev_seq ev, event_kind = ev_kind ev, pv_file_path = ev_file_path ev,
      pv_line = ev_line ev mod 2 ^ 32, pv_col = ev_col ev mod 2 ^ 32\<rparr>"

definition bm_empty_provenance :: bm_provenance where
  "bm_empty_provenance = empty_provenance\<lparr>event_kind := ''unknown_event''\<rparr>"

definition bm_builder_error :: "bm_event \<Rightarrow> string \<Rightarrow> bm_builder \<Rightarrow> bool \<times> bm_builder" where
  "bm_builder_error ev cause b =
     (False, b\<lparr>has_fatal_error := True,
       bb_sink := bb_sink b @ [(DIAG_SEV_ERROR, bm_provenance_from_event ev, event_kind_name (ev_kind ev), cause)]\<rparr>)"

text \<open>Changing the draft.\<close>

definition on_draft :: "(build_model_draft \<Rightarrow> build_model_draft) \<Rightarrow> bm_builder \<Rightarrow> bool \<times> bm_builder" where
  "on_draft f b = (True, b\<lparr>bb_draft := f (bb_draft b)\<rparr>)"

definition bm_builder_current_directory_id :: "bm_builder \<Rightarrow> nat" where
  "bm_builder_current_directory_id b = (case directory_stack b of [] \<Rightarrow> BM_ID_INVALID | d # ds \<Rightarrow> d)"

definition bm_draft_get_directory :: "build_model_draft \<Rightarrow> nat \<Rightarrow> bm_directory option" where
  "bm_draft_get_directory d i =
     (if i = BM_ID_INVALID \<or> i \<ge> length (dr_directories d) then None else Some (dr_directories d ! i))"

section \<open>Text\<close>

definition bm_sv_eq_ci_lit :: "string_view \<Rightarrow> string \<Rightarrow> bool" where
  "bm_sv_eq_ci_lit sv lit \<longleftrightarrow> sv_eq_ci_lower sv lit"

definition bm_sv_truthy :: "string_view \<Rightarrow> bool" where
  "bm_sv_truthy sv \<longleftrightarrow>
     (if length sv = 0 then False
      else bm_sv_eq_ci_lit sv ''1'' \<or> bm_sv_eq_ci_lit sv ''on'' \<or> bm_sv_eq_ci_lit sv ''yes'' \<or>
           bm_sv_eq_ci_lit sv ''true'' \<or> bm_sv_eq_ci_lit sv ''y'')"

text \<open>The pieces between semicolons, trimmed, without the empty ones.\<close>

fun split_list_loop :: "string_view \<Rightarrow> string_view \<Rightarrow> string_view list" where
  "split_list_loop cur [] = (let item = nob_sv_trim cur in if length item > 0 then [item] else [])"
| "split_list_loop cur (c # cs) =
     (if c = CHR '';'' then
        (let item = nob_sv_trim cur in (if length item > 0 then [item] else []) @ split_list_loop [] cs)
      else split_list_loop (cur @ [c]) cs)"

definition bm_split_cmake_list :: "string_view \<Rightarrow> string_view list" where
  "bm_split_cmake_list raw = (if length raw = 0 then [] else split_list_loop [] raw)"

definition bm_path_is_abs :: "string_view \<Rightarrow> bool" where
  "bm_path_is_abs path \<longleftrightarrow> length path > 0 \<and> path ! 0 = CHR ''/''"

text \<open>The scan for segments, and what each segment does to those before it.\<close>

fun bm_path_segments :: "string_view \<Rightarrow> string_view \<Rightarrow> string_view list" where
  "bm_path_segments cur [] = (if cur = [] then [] else [cur])"
| "bm_path_segments cur (c # cs) =
     (if c = CHR ''/'' then (if cur = [] then [] else [cur]) @ bm_path_segments [] cs else bm_path_segments (cur @ [c]) cs)"

definition bm_push_segment :: "bool \<Rightarrow> string_view \<Rightarrow> string_view list \<Rightarrow> string_view list" where
  "bm_push_segment absolute seg segments =
     (if nob_sv_eq seg ''.'' then segments
      else if nob_sv_eq seg ''..'' then
        (if segments \<noteq> [] \<and> \<not> nob_sv_eq (last segments) ''..'' then butlast segments
         else if \<not> absolute then segments @ [seg] else segments)
      else segments @ [seg])"

fun bm_join_segments :: "string_view list \<Rightarrow> string_view" where
  "bm_join_segments [] = []"
| "bm_join_segments [s] = s"
| "bm_join_segments (s # ss) = s @ ''/'' @ bm_join_segments ss"

definition bm_normalize_path :: "string_view \<Rightarrow> string_view" where
  "bm_normalize_path path =
     (let absolute = bm_path_is_abs path;
          segments = fold (bm_push_segment absolute) (bm_path_segments [] path) [];
          sb = (if absolute then ''/'' else []) @ bm_join_segments segments
      in c_str (if sb = [] then (if absolute then ''/'' else ''.'') else sb))"

definition bm_path_join :: "string_view \<Rightarrow> string_view \<Rightarrow> string_view" where
  "bm_path_join lhs rhs =
     bm_normalize_path (c_str (lhs @ (if length lhs > 0 \<and> last lhs \<noteq> CHR ''/'' then ''/'' else []) @ rhs))"

definition bm_path_rebase :: "string_view \<Rightarrow> string_view \<Rightarrow> string_view" where
  "bm_path_rebase base_dir path = (if bm_path_is_abs path then bm_normalize_path path else bm_path_join base_dir path)"

section \<open>Conversions\<close>

primrec bm_target_kind_from_event :: "cmake_target_type \<Rightarrow> bm_target_kind" where
  "bm_target_kind_from_event EV_TARGET_EXECUTABLE = BM_TARGET_EXECUTABLE"
| "bm_target_kind_from_event EV_TARGET_LIBRARY_STATIC = BM_TARGET_STATIC_LIBRARY"
| "bm_target_kind_from_event EV_TARGET_LIBRARY_SHARED = BM_TARGET_SHARED_LIBRARY"
| "bm_target_kind_from_event EV_TARGET_LIBRARY_MODULE = BM_TARGET_MODULE_LIBRARY"
| "bm_target_kind_from_event EV_TARGET_LIBRARY_INTERFACE = BM_TARGET_INTERFACE_LIBRARY"
| "bm_target_kind_from_event EV_TARGET_LIBRARY_OBJECT = BM_TARGET_OBJECT_LIBRARY"
| "bm_target_kind_from_event EV_TARGET_LIBRARY_UNKNOWN = BM_TARGET_UNKNOWN_LIBRARY"

primrec bm_build_step_kind_from_event :: "event_build_step_kind \<Rightarrow> bm_build_step_kind" where
  "bm_build_step_kind_from_event EVENT_BUILD_STEP_OUTPUT_RULE = BM_BUILD_STEP_OUTPUT_RULE"
| "bm_build_step_kind_from_event EVENT_BUILD_STEP_CUSTOM_TARGET = BM_BUILD_STEP_CUSTOM_TARGET"
| "bm_build_step_kind_from_event EVENT_BUILD_STEP_TARGET_PRE_BUILD = BM_BUILD_STEP_TARGET_PRE_BUILD"
| "bm_build_step_kind_from_event EVENT_BUILD_STEP_TARGET_PRE_LINK = BM_BUILD_STEP_TARGET_PRE_LINK"
| "bm_build_step_kind_from_event EVENT_BUILD_STEP_TARGET_POST_BUILD = BM_BUILD_STEP_TARGET_POST_BUILD"

primrec bm_replay_phase_from_event :: "event_replay_phase \<Rightarrow> bm_replay_phase" where
  "bm_replay_phase_from_event EVENT_REPLAY_PHASE_CONFIGURE = BM_REPLAY_PHASE_CONFIGURE"
| "bm_replay_phase_from_event EVENT_REPLAY_PHASE_BUILD = BM_REPLAY_PHASE_BUILD"
| "bm_replay_phase_from_event EVENT_REPLAY_PHASE_TEST = BM_REPLAY_PHASE_TEST"
| "bm_replay_phase_from_event EVENT_REPLAY_PHASE_INSTALL = BM_REPLAY_PHASE_INSTALL"
| "bm_replay_phase_from_event EVENT_REPLAY_PHASE_EXPORT = BM_REPLAY_PHASE_EXPORT"
| "bm_replay_phase_from_event EVENT_REPLAY_PHASE_PACKAGE = BM_REPLAY_PHASE_PACKAGE"
| "bm_replay_phase_from_event EVENT_REPLAY_PHASE_HOST_ONLY = BM_REPLAY_PHASE_HOST_ONLY"

primrec bm_replay_action_kind_from_event :: "event_replay_action_kind \<Rightarrow> bm_replay_action_kind" where
  "bm_replay_action_kind_from_event EVENT_REPLAY_ACTION_FILESYSTEM = BM_REPLAY_ACTION_FILESYSTEM"
| "bm_replay_action_kind_from_event EVENT_REPLAY_ACTION_PROCESS = BM_REPLAY_ACTION_PROCESS"
| "bm_replay_action_kind_from_event EVENT_REPLAY_ACTION_PROBE = BM_REPLAY_ACTION_PROBE"
| "bm_replay_action_kind_from_event EVENT_REPLAY_ACTION_DEPENDENCY_MATERIALIZATION =
     BM_REPLAY_ACTION_DEPENDENCY_MATERIALIZATION"
| "bm_replay_action_kind_from_event EVENT_REPLAY_ACTION_TEST_DRIVER = BM_REPLAY_ACTION_TEST_DRIVER"
| "bm_replay_action_kind_from_event EVENT_REPLAY_ACTION_HOST_EFFECT = BM_REPLAY_ACTION_HOST_EFFECT"

primrec bm_visibility_from_event :: "cmake_visibility \<Rightarrow> bm_visibility" where
  "bm_visibility_from_event EV_VISIBILITY_PUBLIC = BM_VISIBILITY_PUBLIC"
| "bm_visibility_from_event EV_VISIBILITY_INTERFACE = BM_VISIBILITY_INTERFACE"
| "bm_visibility_from_event EV_VISIBILITY_PRIVATE = BM_VISIBILITY_PRIVATE"
| "bm_visibility_from_event EV_VISIBILITY_UNSPECIFIED = BM_VISIBILITY_PRIVATE"

primrec bm_install_rule_kind_from_event :: "cmake_install_rule_type \<Rightarrow> bm_install_rule_kind" where
  "bm_install_rule_kind_from_event EV_INSTALL_RULE_TARGET = BM_INSTALL_RULE_TARGET"
| "bm_install_rule_kind_from_event EV_INSTALL_RULE_FILE = BM_INSTALL_RULE_FILE"
| "bm_install_rule_kind_from_event EV_INSTALL_RULE_PROGRAM = BM_INSTALL_RULE_PROGRAM"
| "bm_install_rule_kind_from_event EV_INSTALL_RULE_DIRECTORY = BM_INSTALL_RULE_DIRECTORY"

primrec bm_target_property_op_from_event :: "cmake_target_property_op \<Rightarrow> property_mutate_op" where
  "bm_target_property_op_from_event EV_PROP_SET = EVENT_PROPERTY_MUTATE_SET"
| "bm_target_property_op_from_event EV_PROP_PREPEND_LIST = EVENT_PROPERTY_MUTATE_PREPEND_LIST"
| "bm_target_property_op_from_event EV_PROP_APPEND_LIST = EVENT_PROPERTY_MUTATE_APPEND_LIST"
| "bm_target_property_op_from_event EV_PROP_APPEND_STRING = EVENT_PROPERTY_MUTATE_APPEND_STRING"

primrec export_source_from_event :: "event_export_source_kind \<Rightarrow> bm_export_source_kind" where
  "export_source_from_event EVENT_EXPORT_SOURCE_TARGETS = BM_EXPORT_SOURCE_TARGETS"
| "export_source_from_event EVENT_EXPORT_SOURCE_EXPORT_SET = BM_EXPORT_SOURCE_EXPORT_SET"
| "export_source_from_event EVENT_EXPORT_SOURCE_INSTALL_EXPORT = BM_EXPORT_SOURCE_INSTALL_EXPORT"
| "export_source_from_event EVENT_EXPORT_SOURCE_PACKAGE = BM_EXPORT_SOURCE_PACKAGE"

section \<open>Look-ups\<close>

text \<open>The position of the first record with a key.\<close>

fun find_position :: "('a \<Rightarrow> bool) \<Rightarrow> 'a list \<Rightarrow> nat option" where
  "find_position P [] = None"
| "find_position P (x # xs) = (if P x then Some 0 else map_option Suc (find_position P xs))"

definition bm_draft_find_build_step :: "build_model_draft \<Rightarrow> string_view \<Rightarrow> nat option" where
  "bm_draft_find_build_step d key = find_position (\<lambda>s. nob_sv_eq (st_step_key s) key) (dr_build_steps d)"

definition bm_draft_find_replay_action :: "build_model_draft \<Rightarrow> string_view \<Rightarrow> nat option" where
  "bm_draft_find_replay_action d key = find_position (\<lambda>a. nob_sv_eq (ra_action_key a) key) (dr_replay_actions d)"

definition bm_draft_find_target :: "build_model_draft \<Rightarrow> string_view \<Rightarrow> nat option" where
  "bm_draft_find_target d name =
     (let i = bm_draft_find_target_id d name in if i = BM_ID_INVALID then None else Some i)"

definition bm_builder_find_export_by_key :: "build_model_draft \<Rightarrow> string_view \<Rightarrow> nat option" where
  "bm_builder_find_export_by_key d key =
     (if length key = 0 then None else find_position (\<lambda>x. nob_sv_eq (ex_export_key x) key) (dr_exports d))"

definition bm_draft_find_cpack_package :: "build_model_draft \<Rightarrow> string_view \<Rightarrow> nat option" where
  "bm_draft_find_cpack_package d key = find_position (\<lambda>p. nob_sv_eq (cp_package_key p) key) (dr_cpack_packages d)"

definition bm_target_find_file_set :: "bm_target \<Rightarrow> string_view \<Rightarrow> nat option" where
  "bm_target_find_file_set t name = find_position (\<lambda>s. nob_sv_eq (fs_name s) name) (tg_file_sets t)"

definition update_at :: "nat \<Rightarrow> ('a \<Rightarrow> 'a) \<Rightarrow> 'a list \<Rightarrow> 'a list" where
  "update_at i f xs = xs[i := f (xs ! i)]"

definition bm_add_name_index :: "string_view \<Rightarrow> nat \<Rightarrow> bm_name_index_entry list \<Rightarrow> bm_name_index_entry list" where
  "bm_add_name_index name i idx = idx @ [\<lparr>ne_name = name, ne_id = i\<rparr>]"

section \<open>Property lists\<close>

text \<open>The code has the same function for items and for link items.\<close>

primrec bm_apply_item_mutation :: "property_mutate_op \<Rightarrow> 'a list \<Rightarrow> 'a list \<Rightarrow> 'a list" where
  "bm_apply_item_mutation EVENT_PROPERTY_MUTATE_SET its dest = its"
| "bm_apply_item_mutation EVENT_PROPERTY_MUTATE_PREPEND_LIST its dest = its @ dest"
| "bm_apply_item_mutation EVENT_PROPERTY_MUTATE_APPEND_LIST its dest = dest @ its"
| "bm_apply_item_mutation EVENT_PROPERTY_MUTATE_APPEND_STRING its dest = dest @ its"

definition bm_record_raw_property ::
  "string_view \<Rightarrow> property_mutate_op \<Rightarrow> nat \<Rightarrow> string_view list \<Rightarrow> bm_provenance \<Rightarrow> bm_raw_property list \<Rightarrow> bm_raw_property list" where
  "bm_record_raw_property name mop flags its p records =
     records @ [\<lparr>rp_name = name, rp_op = mop, rp_flags = flags, rp_items = its, rp_provenance = p\<rparr>]"

text \<open>The flags of an item, as bits, and the one a bucket is told by.\<close>

definition item_flags :: "bool \<Rightarrow> bool \<Rightarrow> nat" where
  "item_flags before system = (if before then 1 else 0) + (if system then 2 else 0)"

definition system_flag :: "nat \<Rightarrow> bool" where
  "system_flag flags = bit flags 1"

text \<open>The semantics of item \<open>i\<close>, blank when the event has none.\<close>

definition item_semantic :: "link_item_metadata list option \<Rightarrow> nat \<Rightarrow> nat \<Rightarrow> link_item_metadata" where
  "item_semantic semantics typed_count i =
     (case semantics of None \<Rightarrow> blank_semantic | Some ss \<Rightarrow> if i < typed_count then ss ! i else blank_semantic)"

definition make_item :: "bm_visibility \<Rightarrow> nat \<Rightarrow> bm_provenance \<Rightarrow> link_item_metadata \<Rightarrow> string_view \<Rightarrow> bm_item" where
  "make_item vis flags p sem v =
     \<lparr>it_value = v, it_visibility = vis, it_flags = flags, it_provenance = p, it_semantic = sem\<rparr>"

definition make_link_item ::
  "bm_visibility \<Rightarrow> nat \<Rightarrow> bm_provenance \<Rightarrow> link_item_metadata \<Rightarrow> string_view \<Rightarrow> bm_link_item" where
  "make_link_item vis flags p sem v =
     \<lparr>li_value = v, li_visibility = vis, li_flags = flags, li_provenance = p, li_semantic = sem,
      li_target_id = BM_ID_INVALID\<rparr>"

section \<open>Properties of directories\<close>

definition mutate_flags :: "event_property_mutate \<Rightarrow> nat" where
  "mutate_flags mut =
     item_flags (bit (pm_modifier_flags mut) 0 \<or> pm_op mut = EVENT_PROPERTY_MUTATE_PREPEND_LIST)
       (bit (pm_modifier_flags mut) 1)"

definition bm_directory_apply_mutation ::
  "event_property_mutate \<Rightarrow> bm_provenance \<Rightarrow> bm_item list \<Rightarrow> bm_item list" where
  "bm_directory_apply_mutation mut p dest =
     (let its = map (\<lambda>i. make_item BM_VISIBILITY_PRIVATE (mutate_flags mut) p
                          (item_semantic (pm_typed_item_semantics mut) (length (pm_typed_items mut)) i) (pm_items mut ! i))
                  [0..<length (pm_items mut)]
      in bm_apply_item_mutation (pm_op mut) its dest)"

definition bm_directory_apply_link_mutation ::
  "event_property_mutate \<Rightarrow> bm_provenance \<Rightarrow> bm_link_item list \<Rightarrow> bm_link_item list" where
  "bm_directory_apply_link_mutation mut p dest =
     (let its = map (\<lambda>i. make_link_item BM_VISIBILITY_PRIVATE (mutate_flags mut) p
                          (item_semantic (pm_typed_item_semantics mut) (length (pm_typed_items mut)) i) (pm_typed_items mut ! i))
                  [0..<length (pm_typed_items mut)]
      in bm_apply_item_mutation (pm_op mut) its dest)"

text \<open>The typed items in place of the items, when there are any.\<close>

definition typed_mutation :: "event_property_mutate \<Rightarrow> event_property_mutate" where
  "typed_mutation mut = (if length (pm_typed_items mut) > 0 then mut\<lparr>pm_items := pm_typed_items mut\<rparr> else mut)"

definition bm_apply_property_event :: "event_property_mutate \<Rightarrow> bm_provenance \<Rightarrow> bm_properties \<Rightarrow> bm_properties" where
  "bm_apply_property_event mut p props =
     (let name = pm_property_name mut;
          typed = bm_directory_apply_mutation (typed_mutation mut) p;
          raw = bm_record_raw_property name (pm_op mut) (pm_modifier_flags mut) (pm_items mut) p
      in if bm_sv_eq_ci_lit name ''INCLUDE_DIRECTORIES'' then
           (if bit (pm_modifier_flags mut) 1
            then props\<lparr>gp_system_include_directories := typed (gp_system_include_directories props)\<rparr>
            else props\<lparr>gp_include_directories := typed (gp_include_directories props)\<rparr>)
         else if bm_sv_eq_ci_lit name ''LINK_DIRECTORIES'' then
           props\<lparr>gp_link_directories := typed (gp_link_directories props)\<rparr>
         else if bm_sv_eq_ci_lit name ''LINK_LIBRARIES'' then
           props\<lparr>gp_link_libraries := bm_directory_apply_link_mutation mut p (gp_link_libraries props),
                 gp_raw_properties := raw (gp_raw_properties props)\<rparr>
         else if bm_sv_eq_ci_lit name ''COMPILE_DEFINITIONS'' then
           props\<lparr>gp_compile_definitions := typed (gp_compile_definitions props)\<rparr>
         else if bm_sv_eq_ci_lit name ''COMPILE_OPTIONS'' then
           props\<lparr>gp_compile_options := typed (gp_compile_options props)\<rparr>
         else if bm_sv_eq_ci_lit name ''LINK_OPTIONS'' then
           props\<lparr>gp_link_options := typed (gp_link_options props)\<rparr>
         else props\<lparr>gp_raw_properties := raw (gp_raw_properties props)\<rparr>)"

text \<open>The properties of a directory, as a record of their own and back.\<close>

definition properties_of :: "bm_directory \<Rightarrow> bm_properties" where
  "properties_of r =
     \<lparr>gp_include_directories = di_include_directories r, gp_system_include_directories = di_system_include_directories r,
      gp_link_libraries = di_link_libraries r, gp_link_directories = di_link_directories r,
      gp_compile_definitions = di_compile_definitions r, gp_compile_options = di_compile_options r,
      gp_link_options = di_link_options r, gp_raw_properties = di_raw_properties r\<rparr>"

definition with_properties :: "bm_properties \<Rightarrow> bm_directory \<Rightarrow> bm_directory" where
  "with_properties props r =
     r\<lparr>di_include_directories := gp_include_directories props,
       di_system_include_directories := gp_system_include_directories props,
       di_link_libraries := gp_link_libraries props, di_link_directories := gp_link_directories props,
       di_compile_definitions := gp_compile_definitions props, di_compile_options := gp_compile_options props,
       di_link_options := gp_link_options props, di_raw_properties := gp_raw_properties props\<rparr>"

section \<open>Properties of targets\<close>

definition bm_sv_ends_with_ci_lit :: "string_view \<Rightarrow> string \<Rightarrow> bool" where
  "bm_sv_ends_with_ci_lit v suf \<longleftrightarrow>
     (if length suf = 0 \<or> length v \<le> length suf then False
      else bm_sv_eq_ci_lit (drop (length v - length suf) v) suf)"

definition bm_target_artifact_property_is_supported :: "string_view \<Rightarrow> bool" where
  "bm_target_artifact_property_is_supported key \<longleftrightarrow>
     list_ex (bm_sv_eq_ci_lit key)
       [''OUTPUT_NAME'', ''PREFIX'', ''SUFFIX'', ''ARCHIVE_OUTPUT_NAME'', ''LIBRARY_OUTPUT_NAME'',
        ''RUNTIME_OUTPUT_NAME'', ''ARCHIVE_OUTPUT_DIRECTORY'', ''LIBRARY_OUTPUT_DIRECTORY'', ''RUNTIME_OUTPUT_DIRECTORY''] \<or>
     list_ex (\<lambda>pre. length key > length pre \<and> bm_sv_eq_ci_lit (take (length pre) key) pre)
       [''OUTPUT_NAME_'', ''ARCHIVE_OUTPUT_NAME_'', ''LIBRARY_OUTPUT_NAME_'', ''RUNTIME_OUTPUT_NAME_'',
        ''ARCHIVE_OUTPUT_DIRECTORY_'', ''LIBRARY_OUTPUT_DIRECTORY_'', ''RUNTIME_OUTPUT_DIRECTORY_''] \<or>
     list_ex (bm_sv_ends_with_ci_lit key)
       [''_OUTPUT_NAME'', ''_ARCHIVE_OUTPUT_NAME'', ''_LIBRARY_OUTPUT_NAME'', ''_RUNTIME_OUTPUT_NAME'']"

definition bm_target_sync_artifact_scalar :: "string_view \<Rightarrow> string_view \<Rightarrow> bm_target \<Rightarrow> bm_target" where
  "bm_target_sync_artifact_scalar name v t =
     (let t1 = (if bm_sv_eq_ci_lit name ''OUTPUT_NAME'' then t\<lparr>tg_output_name := v\<rparr> else t);
          t2 = (if bm_sv_eq_ci_lit name ''PREFIX'' then t1\<lparr>tg_prefix := v\<rparr> else t1);
          t3 = (if bm_sv_eq_ci_lit name ''SUFFIX'' then t2\<lparr>tg_suffix := v\<rparr> else t2);
          t4 = (if bm_sv_eq_ci_lit name ''ARCHIVE_OUTPUT_DIRECTORY'' then t3\<lparr>tg_archive_output_directory := v\<rparr> else t3);
          t5 = (if bm_sv_eq_ci_lit name ''LIBRARY_OUTPUT_DIRECTORY'' then t4\<lparr>tg_library_output_directory := v\<rparr> else t4)
      in if bm_sv_eq_ci_lit name ''RUNTIME_OUTPUT_DIRECTORY'' then t5\<lparr>tg_runtime_output_directory := v\<rparr> else t5)"

text \<open>Recording an artifact property: the target, and whether the property was one.\<close>

definition bm_target_record_artifact_property ::
  "event_target_prop_set \<Rightarrow> bm_provenance \<Rightarrow> bm_target \<Rightarrow> bool \<times> bm_target" where
  "bm_target_record_artifact_property e p t =
     (if \<not> bm_target_artifact_property_is_supported (ps_key e) then (False, t)
      else if ps_op e = EV_PROP_APPEND_STRING then (False, t)
      else
        (let r = \<lparr>ap_name = ps_key e, ap_value = ps_value e, ap_provenance = p\<rparr>;
             props = tg_artifact_properties t;
             t1 = t\<lparr>tg_artifact_properties :=
                (case find_position (\<lambda>a. sv_eq_ci_lower (ap_name a) (ps_key e)) props of
                   Some i \<Rightarrow> props[i := r]
                 | None \<Rightarrow> props @ [r])\<rparr>
         in (True, bm_target_sync_artifact_scalar (ps_key e) (ps_value e) t1)))"

text \<open>Replacing what a bucket of a usage list holds; the code has this for items and for link items.\<close>

definition bm_target_apply_promoted_mutation ::
  "('a \<Rightarrow> bool) \<Rightarrow> property_mutate_op \<Rightarrow> 'a list \<Rightarrow> 'a list \<Rightarrow> 'a list" where
  "bm_target_apply_promoted_mutation in_bucket mop its dest =
     (if mop \<noteq> EVENT_PROPERTY_MUTATE_SET then bm_apply_item_mutation mop its dest
      else filter (\<lambda>x. \<not> in_bucket x) dest @ its)"

definition bm_target_item_bucket_matches :: "bm_visibility \<Rightarrow> nat \<Rightarrow> bm_item \<Rightarrow> bool" where
  "bm_target_item_bucket_matches vis flags item \<longleftrightarrow>
     (if it_visibility item \<noteq> vis then False else system_flag (it_flags item) = system_flag flags)"

definition bm_target_link_item_bucket_matches :: "bm_visibility \<Rightarrow> nat \<Rightarrow> bm_link_item \<Rightarrow> bool" where
  "bm_target_link_item_bucket_matches vis flags item \<longleftrightarrow>
     (if li_visibility item \<noteq> vis then False else system_flag (li_flags item) = system_flag flags)"

text \<open>The list a property stands for, with the visibility and the flags of its items.\<close>

datatype promoted_list =
    Promoted_Include | Promoted_Definitions | Promoted_Options | Promoted_Features
  | Promoted_Link_Libraries | Promoted_Link_Options | Promoted_Link_Directories

definition promoted_property :: "string_view \<Rightarrow> (promoted_list \<times> cmake_visibility \<times> nat) option" where
  "promoted_property key =
     map_option snd (find (\<lambda>(name, target). bm_sv_eq_ci_lit key name)
       [(''INCLUDE_DIRECTORIES'', Promoted_Include, EV_VISIBILITY_PRIVATE, 0),
        (''INTERFACE_INCLUDE_DIRECTORIES'', Promoted_Include, EV_VISIBILITY_INTERFACE, 0),
        (''INTERFACE_SYSTEM_INCLUDE_DIRECTORIES'', Promoted_Include, EV_VISIBILITY_INTERFACE, item_flags False True),
        (''COMPILE_DEFINITIONS'', Promoted_Definitions, EV_VISIBILITY_PRIVATE, 0),
        (''INTERFACE_COMPILE_DEFINITIONS'', Promoted_Definitions, EV_VISIBILITY_INTERFACE, 0),
        (''COMPILE_OPTIONS'', Promoted_Options, EV_VISIBILITY_PRIVATE, 0),
        (''INTERFACE_COMPILE_OPTIONS'', Promoted_Options, EV_VISIBILITY_INTERFACE, 0),
        (''COMPILE_FEATURES'', Promoted_Features, EV_VISIBILITY_PRIVATE, 0),
        (''INTERFACE_COMPILE_FEATURES'', Promoted_Features, EV_VISIBILITY_INTERFACE, 0),
        (''LINK_LIBRARIES'', Promoted_Link_Libraries, EV_VISIBILITY_PRIVATE, 0),
        (''INTERFACE_LINK_LIBRARIES'', Promoted_Link_Libraries, EV_VISIBILITY_INTERFACE, 0),
        (''LINK_OPTIONS'', Promoted_Link_Options, EV_VISIBILITY_PRIVATE, 0),
        (''INTERFACE_LINK_OPTIONS'', Promoted_Link_Options, EV_VISIBILITY_INTERFACE, 0),
        (''LINK_DIRECTORIES'', Promoted_Link_Directories, EV_VISIBILITY_PRIVATE, 0),
        (''INTERFACE_LINK_DIRECTORIES'', Promoted_Link_Directories, EV_VISIBILITY_INTERFACE, 0)])"

definition promoted_items :: "event_target_prop_set \<Rightarrow> bm_provenance \<Rightarrow> bm_visibility \<Rightarrow> nat \<Rightarrow> bm_item list \<Rightarrow> bm_item list" where
  "promoted_items e p vis flags dest =
     bm_target_apply_promoted_mutation (bm_target_item_bucket_matches vis flags) (bm_target_property_op_from_event (ps_op e))
       (map (\<lambda>i. make_item vis flags p (item_semantic (ps_typed_item_semantics e) (length (ps_typed_items e)) i)
                   (ps_typed_items e ! i)) [0..<length (ps_typed_items e)]) dest"

definition promoted_link_items ::
  "event_target_prop_set \<Rightarrow> bm_provenance \<Rightarrow> bm_visibility \<Rightarrow> nat \<Rightarrow> bm_link_item list \<Rightarrow> bm_link_item list" where
  "promoted_link_items e p vis flags dest =
     bm_target_apply_promoted_mutation (bm_target_link_item_bucket_matches vis flags)
       (bm_target_property_op_from_event (ps_op e))
       (map (\<lambda>i. make_link_item vis flags p (item_semantic (ps_typed_item_semantics e) (length (ps_typed_items e)) i)
                   (ps_typed_items e ! i)) [0..<length (ps_typed_items e)]) dest"

definition bm_target_promote_property_set ::
  "event_target_prop_set \<Rightarrow> bm_provenance \<Rightarrow> bm_target \<Rightarrow> bool \<times> bm_target" where
  "bm_target_promote_property_set e p t =
     (if bm_target_property_op_from_event (ps_op e) = EVENT_PROPERTY_MUTATE_APPEND_STRING then (False, t)
      else
        (case promoted_property (ps_key e) of
           None \<Rightarrow> (False, t)
         | Some (which, visibility, flags) \<Rightarrow>
             (let put = promoted_items e p (bm_visibility_from_event visibility) flags in
              (True,
               (case which of
                  Promoted_Include \<Rightarrow> t\<lparr>tg_include_directories := put (tg_include_directories t)\<rparr>
                | Promoted_Definitions \<Rightarrow> t\<lparr>tg_compile_definitions := put (tg_compile_definitions t)\<rparr>
                | Promoted_Options \<Rightarrow> t\<lparr>tg_compile_options := put (tg_compile_options t)\<rparr>
                | Promoted_Features \<Rightarrow> t\<lparr>tg_compile_features := put (tg_compile_features t)\<rparr>
                | Promoted_Link_Libraries \<Rightarrow>
                    t\<lparr>tg_link_libraries :=
                        promoted_link_items e p (bm_visibility_from_event visibility) flags (tg_link_libraries t)\<rparr>
                | Promoted_Link_Options \<Rightarrow> t\<lparr>tg_link_options := put (tg_link_options t)\<rparr>
                | Promoted_Link_Directories \<Rightarrow> t\<lparr>tg_link_directories := put (tg_link_directories t)\<rparr>)))))"

definition bm_target_record_raw_set :: "event_target_prop_set \<Rightarrow> bm_provenance \<Rightarrow> bm_target \<Rightarrow> bm_target" where
  "bm_target_record_raw_set e p t =
     t\<lparr>tg_raw_properties :=
        bm_record_raw_property (ps_key e) (bm_target_property_op_from_event (ps_op e)) 0 [ps_value e] p
          (tg_raw_properties t)\<rparr>"

text \<open>Setting a property of a target.\<close>

definition target_prop_set :: "event_target_prop_set \<Rightarrow> bm_provenance \<Rightarrow> bm_target \<Rightarrow> bm_target" where
  "target_prop_set e p t =
     (case bm_target_record_artifact_property e p t of
        (True, t1) \<Rightarrow> t1
      | (False, t1) \<Rightarrow>
          if bm_sv_eq_ci_lit (ps_key e) ''FOLDER'' then t1\<lparr>tg_folder := ps_value e\<rparr>
          else if bm_sv_eq_ci_lit (ps_key e) ''EXCLUDE_FROM_ALL'' then t1\<lparr>tg_exclude_from_all := bm_sv_truthy (ps_value e)\<rparr>
          else if bm_sv_eq_ci_lit (ps_key e) ''WIN32_EXECUTABLE'' then t1\<lparr>tg_win32_executable := bm_sv_truthy (ps_value e)\<rparr>
          else if bm_sv_eq_ci_lit (ps_key e) ''MACOSX_BUNDLE'' then t1\<lparr>tg_macosx_bundle := bm_sv_truthy (ps_value e)\<rparr>
          else
            (let t2 = (if bm_sv_eq_ci_lit (ps_key e) ''IMPORTED'' then
                         t1\<lparr>tg_imported := bm_sv_truthy (ps_value e),
                            tg_imported_global := (if bm_sv_truthy (ps_value e) then tg_imported_global t1 else False)\<rparr>
                       else t1);
                 t3 = (if bm_sv_eq_ci_lit (ps_key e) ''IMPORTED_GLOBAL'' then
                         t2\<lparr>tg_imported_global := bm_sv_truthy (ps_value e)\<rparr> else t2)
             in case bm_target_promote_property_set e p t3 of
                  (True, t4) \<Rightarrow> t4
                | (False, t4) \<Rightarrow> bm_target_record_raw_set e p t4))"

section \<open>Usage of targets\<close>

definition bm_target_append_item ::
  "event_target_usage \<Rightarrow> bm_provenance \<Rightarrow> property_mutate_op \<Rightarrow> nat \<Rightarrow> bm_item list \<Rightarrow> bm_item list" where
  "bm_target_append_item e p mop flags dest =
     bm_apply_item_mutation mop
       [make_item (bm_visibility_from_event (tu_visibility e)) flags p (tu_semantic e) (tu_item e)] dest"

definition bm_target_append_link_item ::
  "event_target_usage \<Rightarrow> bm_provenance \<Rightarrow> property_mutate_op \<Rightarrow> nat \<Rightarrow> bm_link_item list \<Rightarrow> bm_link_item list" where
  "bm_target_append_link_item e p mop flags dest =
     bm_apply_item_mutation mop
       [make_link_item (bm_visibility_from_event (tu_visibility e)) flags p (tu_semantic e) (tu_item e)] dest"

definition target_usage :: "target_usage_kind \<Rightarrow> event_target_usage \<Rightarrow> bm_provenance \<Rightarrow> bm_target \<Rightarrow> bm_target" where
  "target_usage k e p t =
     (let place = (if tu_is_before e then EVENT_PROPERTY_MUTATE_PREPEND_LIST else EVENT_PROPERTY_MUTATE_APPEND_LIST);
          before = item_flags (tu_is_before e) False
      in case k of
           Usage_Link_Libraries \<Rightarrow>
             t\<lparr>tg_link_libraries := bm_target_append_link_item e p EVENT_PROPERTY_MUTATE_APPEND_LIST 0 (tg_link_libraries t)\<rparr>
         | Usage_Link_Options \<Rightarrow> t\<lparr>tg_link_options := bm_target_append_item e p place before (tg_link_options t)\<rparr>
         | Usage_Link_Directories \<Rightarrow>
             t\<lparr>tg_link_directories :=
                 bm_target_append_item e p EVENT_PROPERTY_MUTATE_APPEND_LIST 0 (tg_link_directories t)\<rparr>
         | Usage_Include_Directories \<Rightarrow>
             t\<lparr>tg_include_directories :=
                 bm_target_append_item e p place (item_flags (tu_is_before e) (tu_is_system e)) (tg_include_directories t)\<rparr>
         | Usage_Compile_Definitions \<Rightarrow>
             t\<lparr>tg_compile_definitions :=
                 bm_target_append_item e p EVENT_PROPERTY_MUTATE_APPEND_LIST 0 (tg_compile_definitions t)\<rparr>
         | Usage_Compile_Options \<Rightarrow> t\<lparr>tg_compile_options := bm_target_append_item e p place before (tg_compile_options t)\<rparr>
         | Usage_Compile_Features \<Rightarrow>
             t\<lparr>tg_compile_features :=
                 bm_target_append_item e p EVENT_PROPERTY_MUTATE_APPEND_LIST 0 (tg_compile_features t)\<rparr>)"

section \<open>Sources and file sets of targets\<close>

primrec source_kind_from_event :: "event_target_source_kind \<Rightarrow> bm_target_source_kind" where
  "source_kind_from_event EVENT_TARGET_SOURCE_FILE_SET_HEADERS = BM_TARGET_SOURCE_HEADER_FILE_SET"
| "source_kind_from_event EVENT_TARGET_SOURCE_FILE_SET_CXX_MODULES = BM_TARGET_SOURCE_CXX_MODULE_FILE_SET"
| "source_kind_from_event EVENT_TARGET_SOURCE_REGULAR = BM_TARGET_SOURCE_REGULAR"

primrec file_set_kind_from_event :: "event_file_set_kind \<Rightarrow> bm_file_set_kind" where
  "file_set_kind_from_event EVENT_TARGET_FILE_SET_CXX_MODULES = BM_TARGET_FILE_SET_CXX_MODULES"
| "file_set_kind_from_event EVENT_TARGET_FILE_SET_HEADERS = BM_TARGET_FILE_SET_HEADERS"

definition bm_target_append_source_record :: "event_target_add_source \<Rightarrow> bm_provenance \<Rightarrow> bm_target \<Rightarrow> bm_target" where
  "bm_target_append_source_record e p t =
     t\<lparr>tg_source_records := tg_source_records t @
        [\<lparr>src_kind = source_kind_from_event (as_source_kind e), src_visibility = bm_visibility_from_event (as_visibility e),
          src_raw_path = as_path e, src_effective_path = [], src_file_set_name = as_file_set_name e,
          src_generated = False, src_header_file_only = False, src_language = [],
          src_producer_step_id = BM_ID_INVALID, src_compile_definitions = [], src_compile_options = [],
          src_include_directories = [], src_raw_properties = [], src_provenance = p\<rparr>]\<rparr>"

text \<open>The operations on a target that may fail give the cause, or the target.\<close>

definition target_add_source :: "event_target_add_source \<Rightarrow> bm_provenance \<Rightarrow> bm_target \<Rightarrow> string + bm_target" where
  "target_add_source e p t =
     (if length (as_file_set_name e) > 0 \<and> bm_target_find_file_set t (as_file_set_name e) = None then
        Inl ''target source references an unknown file set''
      else
        (let t1 = (if as_source_kind e = EVENT_TARGET_SOURCE_REGULAR \<and> as_visibility e \<noteq> EV_VISIBILITY_INTERFACE
                   then t\<lparr>tg_sources := tg_sources t @ [as_path e]\<rparr> else t)
         in Inr (bm_target_append_source_record e p t1)))"

definition bm_target_ensure_file_set :: "string_view \<Rightarrow> bm_provenance \<Rightarrow> bm_target \<Rightarrow> nat \<times> bm_target" where
  "bm_target_ensure_file_set name p t =
     (case bm_target_find_file_set t name of
        Some i \<Rightarrow> (i, t)
      | None \<Rightarrow>
          (length (tg_file_sets t),
           t\<lparr>tg_file_sets := tg_file_sets t @
              [\<lparr>fs_name = name, fs_kind = BM_TARGET_FILE_SET_HEADERS, fs_visibility = BM_VISIBILITY_PRIVATE,
                fs_base_dirs = [], fs_source_indices = [], fs_raw_files = [], fs_effective_files = [],
                fs_provenance = p\<rparr>]\<rparr>))"

definition target_file_set_declare ::
  "string_view \<Rightarrow> event_file_set_kind \<Rightarrow> cmake_visibility \<Rightarrow> bm_provenance \<Rightarrow> bm_target \<Rightarrow> string + bm_target" where
  "target_file_set_declare name kind visibility p t =
     (case bm_target_ensure_file_set name p t of
        (i, t1) \<Rightarrow>
          (let fs = tg_file_sets t1 ! i in
           if length (fs_name fs) > 0 \<and> length (fs_base_dirs fs) > 0 \<and>
              (fs_kind fs \<noteq> file_set_kind_from_event kind \<or> fs_visibility fs \<noteq> bm_visibility_from_event visibility)
           then Inl ''target file set declaration conflicts with an existing file set''
           else Inr (t1\<lparr>tg_file_sets := (tg_file_sets t1)[i :=
                  fs\<lparr>fs_kind := file_set_kind_from_event kind,
                     fs_visibility := bm_visibility_from_event visibility\<rparr>]\<rparr>)))"

definition target_file_set_add_base_dir :: "string_view \<Rightarrow> string_view \<Rightarrow> bm_target \<Rightarrow> string + bm_target" where
  "target_file_set_add_base_dir name path t =
     (case bm_target_find_file_set t name of
        None \<Rightarrow> Inl ''target file set base dir references an unknown file set''
      | Some i \<Rightarrow>
          Inr (t\<lparr>tg_file_sets :=
            update_at i (\<lambda>fs. fs\<lparr>fs_base_dirs := fs_base_dirs fs @ [path]\<rparr>) (tg_file_sets t)\<rparr>))"

end
