(* ===== verification/Bm_Builder_Handlers.thy ===== *)
theory Bm_Builder_Handlers
  imports Bm_Builder
begin

text \<open>
  The handlers of the builder, one for each group of events, the dispatcher, and the replay of a
  stream: \<open>src_v2/build_model/build_model_builder*.c\<close>.
\<close>

section \<open>Projects\<close>

definition bm_builder_handle_project_event :: "bm_event \<Rightarrow> project_event \<Rightarrow> bm_builder \<Rightarrow> bool \<times> bm_builder" where
  "bm_builder_handle_project_event ev e b =
     (case e of
        Ev_Project_Declare pd \<Rightarrow>
          on_draft (\<lambda>d. d\<lparr>dr_project :=
            \<lparr>pj_present = True, pj_name = pd_name pd, pj_version = pd_version pd, pj_description = pd_description pd,
             pj_homepage_url = pd_homepage_url pd, pj_languages = bm_split_cmake_list (pd_languages pd),
             pj_declaration_provenance = bm_provenance_from_event ev,
             pj_minimum_required_version = pj_minimum_required_version (dr_project d),
             pj_minimum_required_fatal_if_too_old = pj_minimum_required_fatal_if_too_old (dr_project d),
             pj_minimum_required_provenance = pj_minimum_required_provenance (dr_project d)\<rparr>\<rparr>) b
      | Ev_Project_Minimum_Required version fatal \<Rightarrow>
          on_draft (\<lambda>d. d\<lparr>dr_project := (dr_project d)\<lparr>pj_minimum_required_version := version,
             pj_minimum_required_fatal_if_too_old := fatal,
             pj_minimum_required_provenance := bm_provenance_from_event ev\<rparr>\<rparr>) b)"

section \<open>Directories\<close>

definition enter_directory :: "string_view \<Rightarrow> string_view \<Rightarrow> bm_event \<Rightarrow> bm_builder \<Rightarrow> bm_builder" where
  "enter_directory source_dir binary_dir ev b =
     (let d = bb_draft b;
          i = bm_id (length (dr_directories d));
          r = \<lparr>di_id = i, di_parent_id = bm_builder_current_directory_id b, di_owner_directory_id = i,
               di_source_dir = source_dir, di_binary_dir = binary_dir, di_provenance = bm_provenance_from_event ev,
               di_include_directories = [], di_system_include_directories = [], di_link_libraries = [],
               di_link_directories = [], di_compile_definitions = [], di_compile_options = [],
               di_link_options = [], di_raw_properties = []\<rparr>
      in b\<lparr>bb_draft := d\<lparr>dr_directories := dr_directories d @ [r],
             dr_root_directory_id := (if dr_root_directory_id d = BM_ID_INVALID then i else dr_root_directory_id d)\<rparr>,
           directory_stack := i # directory_stack b\<rparr>)"

definition leave_directory :: "string_view \<Rightarrow> string_view \<Rightarrow> bm_event \<Rightarrow> bm_builder \<Rightarrow> bool \<times> bm_builder" where
  "leave_directory source_dir binary_dir ev b =
     (let current_id = bm_builder_current_directory_id b in
      if current_id = BM_ID_INVALID then bm_builder_error ev ''directory leave without an active directory'' b
      else
        (case bm_draft_get_directory (bb_draft b) current_id of
           None \<Rightarrow> bm_builder_error ev ''directory leave does not match active directory frame'' b
         | Some r \<Rightarrow>
             if \<not> nob_sv_eq (di_source_dir r) source_dir \<or> \<not> nob_sv_eq (di_binary_dir r) binary_dir
             then bm_builder_error ev ''directory leave does not match active directory frame'' b
             else (True, b\<lparr>directory_stack := tl (directory_stack b)\<rparr>)))"

definition bm_builder_handle_directory_event ::
  "bm_event \<Rightarrow> directory_event \<Rightarrow> bm_builder \<Rightarrow> bool \<times> bm_builder" where
  "bm_builder_handle_directory_event ev e b =
     (let p = bm_provenance_from_event ev in
      case e of
        Ev_Directory_Enter source_dir binary_dir \<Rightarrow> (True, enter_directory source_dir binary_dir ev b)
      | Ev_Directory_Leave source_dir binary_dir \<Rightarrow> leave_directory source_dir binary_dir ev b
      | Ev_Directory_Property_Mutate mut \<Rightarrow>
          (let i = bm_builder_current_directory_id b in
           case bm_draft_get_directory (bb_draft b) i of
             None \<Rightarrow> bm_builder_error ev ''directory property mutation without an active directory'' b
           | Some r \<Rightarrow>
               on_draft (\<lambda>d. d\<lparr>dr_directories := (dr_directories d)[i :=
                 with_properties (bm_apply_property_event mut p (properties_of r)) r]\<rparr>) b)
      | Ev_Global_Property_Mutate mut \<Rightarrow>
          on_draft (\<lambda>d. d\<lparr>dr_global_properties := bm_apply_property_event mut p (dr_global_properties d)\<rparr>) b)"

section \<open>Targets\<close>

definition modify_target :: "nat \<Rightarrow> (bm_target \<Rightarrow> bm_target) \<Rightarrow> build_model_draft \<Rightarrow> build_model_draft" where
  "modify_target i f d = d\<lparr>dr_targets := update_at i f (dr_targets d)\<rparr>"

text \<open>An operation on the target of a name, which may fail for a reason of its own.\<close>

definition with_target ::
  "bm_event \<Rightarrow> string_view \<Rightarrow> string \<Rightarrow> (bm_target \<Rightarrow> string + bm_target) \<Rightarrow> bm_builder \<Rightarrow> bool \<times> bm_builder" where
  "with_target ev name unknown f b =
     (case bm_draft_find_target (bb_draft b) name of
        None \<Rightarrow> bm_builder_error ev unknown b
      | Some i \<Rightarrow>
          (case f (dr_targets (bb_draft b) ! i) of
             Inl cause \<Rightarrow> bm_builder_error ev cause b
           | Inr t \<Rightarrow> on_draft (modify_target i (\<lambda>_. t)) b))"

definition bm_target_ensure_placeholder ::
  "bm_event \<Rightarrow> string_view \<Rightarrow> bm_builder \<Rightarrow> nat option \<times> bm_builder" where
  "bm_target_ensure_placeholder ev name b =
     (let d = bb_draft b; owner = bm_builder_current_directory_id b in
      case bm_draft_find_target d name of
        Some i \<Rightarrow> (Some i, b)
      | None \<Rightarrow>
          if owner = BM_ID_INVALID then (None, b)
          else
            (let n = length (dr_targets d);
                 t = blank_target\<lparr>tg_id := bm_id n, tg_owner_directory_id := owner,
                       tg_provenance := bm_provenance_from_event ev, tg_kind := BM_TARGET_UTILITY, tg_name := name\<rparr>
             in (Some n, b\<lparr>bb_draft := d\<lparr>dr_targets := dr_targets d @ [t],
                        target_name_index := bm_add_name_index name (bm_id n) (target_name_index d)\<rparr>\<rparr>)))"

definition declare_target :: "event_target_declare \<Rightarrow> nat \<Rightarrow> bm_provenance \<Rightarrow> bm_target \<Rightarrow> bm_target" where
  "declare_target e owner p t =
     t\<lparr>tg_owner_directory_id := owner, tg_provenance := p, tg_kind := bm_target_kind_from_event (td_target_type e),
       tg_imported := td_imported e,
       tg_imported_global := (if td_imported e then tg_imported_global t else False),
       tg_alias := td_alias e, tg_alias_global := False, tg_declared := True, tg_alias_of_id := BM_ID_INVALID,
       tg_alias_of_name := td_alias_of e\<rparr>"

definition handle_target_declare :: "bm_event \<Rightarrow> event_target_declare \<Rightarrow> bm_builder \<Rightarrow> bool \<times> bm_builder" where
  "handle_target_declare ev e b =
     (let owner = bm_builder_current_directory_id b;
          found = bm_draft_find_target (bb_draft b) (td_name e)
      in if owner = BM_ID_INVALID then bm_builder_error ev ''target declaration without an active directory'' b
         else if (case found of None \<Rightarrow> False | Some i \<Rightarrow> tg_declared (dr_targets (bb_draft b) ! i))
         then bm_builder_error ev ''duplicate target name'' b
         else
           (case bm_target_ensure_placeholder ev (td_name e) b of
              (None, b1) \<Rightarrow> bm_builder_error ev ''failed to append target'' b1
            | (Some i, b1) \<Rightarrow>
                on_draft (modify_target i (declare_target e owner (bm_provenance_from_event ev))) b1))"

definition handle_target_prop_set :: "bm_event \<Rightarrow> event_target_prop_set \<Rightarrow> bm_builder \<Rightarrow> bool \<times> bm_builder" where
  "handle_target_prop_set ev e b =
     (case bm_target_ensure_placeholder ev (ps_target_name e) b of
        (None, b1) \<Rightarrow> bm_builder_error ev ''target property references an unknown target'' b1
      | (Some i, b1) \<Rightarrow> on_draft (modify_target i (target_prop_set e (bm_provenance_from_event ev))) b1)"

primrec usage_unknown :: "target_usage_kind \<Rightarrow> string" where
  "usage_unknown Usage_Link_Libraries = ''target link libraries references an unknown target''"
| "usage_unknown Usage_Link_Options = ''target link options references an unknown target''"
| "usage_unknown Usage_Link_Directories = ''target link directories references an unknown target''"
| "usage_unknown Usage_Include_Directories = ''target include directories references an unknown target''"
| "usage_unknown Usage_Compile_Definitions = ''target compile definitions references an unknown target''"
| "usage_unknown Usage_Compile_Options = ''target compile options references an unknown target''"
| "usage_unknown Usage_Compile_Features = ''target compile features references an unknown target''"

definition bm_builder_handle_target_event :: "bm_event \<Rightarrow> target_event \<Rightarrow> bm_builder \<Rightarrow> bool \<times> bm_builder" where
  "bm_builder_handle_target_event ev e b =
     (let p = bm_provenance_from_event ev in
      case e of
        Ev_Target_Declare td \<Rightarrow> handle_target_declare ev td b
      | Ev_Target_Add_Source src \<Rightarrow>
          with_target ev (as_target_name src) ''target source references an unknown target'' (target_add_source src p) b
      | Ev_Target_File_Set_Declare name set_name kind visibility \<Rightarrow>
          with_target ev name ''target file set references an unknown target''
            (target_file_set_declare set_name kind visibility p) b
      | Ev_Target_File_Set_Add_Base_Dir name set_name path \<Rightarrow>
          with_target ev name ''target file set base dir references an unknown target''
            (target_file_set_add_base_dir set_name path) b
      | Ev_Target_Add_Dependency name dependency \<Rightarrow>
          with_target ev name ''target dependency references an unknown target''
            (\<lambda>t. Inr (t\<lparr>explicit_dependency_names := explicit_dependency_names t @ [dependency]\<rparr>)) b
      | Ev_Target_Prop_Set ps \<Rightarrow> handle_target_prop_set ev ps b
      | Ev_Target_Usage k u \<Rightarrow>
          with_target ev (tu_target_name u) (usage_unknown k) (\<lambda>t. Inr (target_usage k u p t)) b)"

section \<open>The build graph\<close>

definition declare_build_step :: "event_build_step_declare \<Rightarrow> nat \<Rightarrow> nat \<Rightarrow> bm_provenance \<Rightarrow> bm_build_step" where
  "declare_build_step e i owner p =
     blank_step\<lparr>st_id := i, st_step_key := sd_step_key e, st_owner_directory_id := owner, st_provenance := p,
       st_kind := bm_build_step_kind_from_event (sd_step_kind e), st_owner_target_name := sd_owner_target_name e,
       st_owner_target_id := BM_ID_INVALID, st_append := sd_append e, st_verbatim := sd_verbatim e,
       st_uses_terminal := sd_uses_terminal e, st_command_expand_lists := sd_command_expand_lists e,
       st_depends_explicit_only := sd_depends_explicit_only e, st_codegen := sd_codegen e,
       st_working_directory := sd_working_directory e, st_comment := sd_comment e,
       st_main_dependency := sd_main_dependency e, st_depfile := sd_depfile e, st_job_pool := sd_job_pool e,
       st_job_server_aware := sd_job_server_aware e\<rparr>"

definition build_step_add :: "build_step_item \<Rightarrow> bm_build_step \<Rightarrow> bm_build_step" where
  "build_step_add item s =
     (case item of
        Step_Output path \<Rightarrow> s\<lparr>st_raw_outputs := st_raw_outputs s @ [path]\<rparr>
      | Step_Byproduct path \<Rightarrow> s\<lparr>st_raw_byproducts := st_raw_byproducts s @ [path]\<rparr>
      | Step_Dependency dep kind target_name \<Rightarrow>
          s\<lparr>st_raw_dependency_tokens := st_raw_dependency_tokens s @ [dep],
            st_dependencies := st_dependencies s @
              [\<lparr>sd_kind = (case kind of EVENT_BUILD_STEP_DEP_TARGET_REF \<Rightarrow> BM_BUILD_STEP_DEP_TARGET_REF
                          | EVENT_BUILD_STEP_DEP_PATH_TOKEN \<Rightarrow> BM_BUILD_STEP_DEP_PATH_TOKEN),
                sd_raw_token = dep, sd_target_name = target_name, sd_target_id = BM_ID_INVALID,
                sd_producer_step_id = BM_ID_INVALID, sd_file_dependency = []\<rparr>]\<rparr>
      | Step_Command index argv \<Rightarrow> s\<lparr>st_commands := st_commands s @ [argv]\<rparr>)"

definition bm_builder_handle_build_graph_event ::
  "bm_event \<Rightarrow> build_graph_event \<Rightarrow> bm_builder \<Rightarrow> bool \<times> bm_builder" where
  "bm_builder_handle_build_graph_event ev e b =
     (let p = bm_provenance_from_event ev in
      case e of
        Ev_Source_Mark_Generated path source_dir binary_dir generated \<Rightarrow>
          on_draft (\<lambda>d. d\<lparr>dr_source_marks := dr_source_marks d @
            [\<lparr>gm_path = path, gm_directory_source_dir = source_dir, gm_directory_binary_dir = binary_dir,
              gm_generated = generated, gm_provenance = p\<rparr>]\<rparr>) b
      | Ev_Source_Property_Mutate mut \<Rightarrow>
          on_draft (\<lambda>d. d\<lparr>dr_source_mutations := dr_source_mutations d @
            [\<lparr>sm_path = spm_path mut, sm_directory_source_dir = spm_directory_source_dir mut,
              sm_directory_binary_dir = spm_directory_binary_dir mut, sm_key = spm_key mut, sm_value = spm_value mut,
              sm_op = bm_target_property_op_from_event (spm_op mut), sm_provenance = p\<rparr>]\<rparr>) b
      | Ev_Build_Step_Declare sd \<Rightarrow>
          (let owner = bm_builder_current_directory_id b in
           if owner = BM_ID_INVALID then bm_builder_error ev ''build step declaration without an active directory'' b
           else if bm_draft_find_build_step (bb_draft b) (sd_step_key sd) \<noteq> None
           then bm_builder_error ev ''duplicate build step key'' b
           else on_draft (\<lambda>d. d\<lparr>dr_build_steps := dr_build_steps d @
                  [declare_build_step sd (bm_id (length (dr_build_steps d))) owner p]\<rparr>) b)
      | Ev_Build_Step_Add key item \<Rightarrow>
          (case bm_draft_find_build_step (bb_draft b) key of
             None \<Rightarrow> bm_builder_error ev ''build step item references an unknown step key'' b
           | Some i \<Rightarrow> on_draft (\<lambda>d. d\<lparr>dr_build_steps := update_at i (build_step_add item) (dr_build_steps d)\<rparr>) b))"

section \<open>Replay actions\<close>

definition replay_action_add :: "replay_item \<Rightarrow> bm_replay_action \<Rightarrow> string + bm_replay_action" where
  "replay_action_add item a =
     (case item of
        Replay_Input path \<Rightarrow> Inr (a\<lparr>ra_inputs := ra_inputs a @ [path]\<rparr>)
      | Replay_Output path \<Rightarrow> Inr (a\<lparr>ra_outputs := ra_outputs a @ [path]\<rparr>)
      | Replay_Argv index v \<Rightarrow>
          (if index \<noteq> length (ra_argv a) then Inl ''replay action argv must be emitted in append order''
           else Inr (a\<lparr>ra_argv := ra_argv a @ [v]\<rparr>))
      | Replay_Env key v \<Rightarrow>
          (if bm_string_view_is_empty key then Inl ''replay action environment entry is missing a key''
           else Inr (a\<lparr>ra_environment := ra_environment a @ [c_str (key @ ''='' @ v)]\<rparr>)))"

definition bm_builder_handle_replay_event :: "bm_event \<Rightarrow> replay_event \<Rightarrow> bm_builder \<Rightarrow> bool \<times> bm_builder" where
  "bm_builder_handle_replay_event ev e b =
     (case e of
        Ev_Replay_Action_Declare rd \<Rightarrow>
          (let owner = bm_builder_current_directory_id b in
           if owner = BM_ID_INVALID then bm_builder_error ev ''replay action declaration without an active directory'' b
           else if bm_string_view_is_empty (rd_action_key rd) then bm_builder_error ev ''replay action key is empty'' b
           else if bm_draft_find_replay_action (bb_draft b) (rd_action_key rd) \<noteq> None
           then bm_builder_error ev ''duplicate replay action key'' b
           else on_draft (\<lambda>d. d\<lparr>dr_replay_actions := dr_replay_actions d @
                  [\<lparr>ra_id = bm_id (length (dr_replay_actions d)), ra_action_key = rd_action_key rd,
                    ra_owner_directory_id = owner, ra_provenance = bm_provenance_from_event ev,
                    ra_kind = bm_replay_action_kind_from_event (rd_action_kind rd), ra_opcode = rd_opcode rd,
                    ra_phase = bm_replay_phase_from_event (rd_phase rd),
                    ra_working_directory = rd_working_directory rd, ra_inputs = [], ra_outputs = [], ra_argv = [],
                    ra_environment = []\<rparr>]\<rparr>) b)
      | Ev_Replay_Action_Add key item \<Rightarrow>
          (case bm_draft_find_replay_action (bb_draft b) key of
             None \<Rightarrow> bm_builder_error ev ''replay action item references an unknown action key'' b
           | Some i \<Rightarrow>
               (case replay_action_add item (dr_replay_actions (bb_draft b) ! i) of
                  Inl cause \<Rightarrow> bm_builder_error ev cause b
                | Inr a \<Rightarrow> on_draft (\<lambda>d. d\<lparr>dr_replay_actions := (dr_replay_actions d)[i := a]\<rparr>) b)))"

section \<open>Tests and installation\<close>

definition bm_builder_handle_test_event :: "bm_event \<Rightarrow> test_event \<Rightarrow> bm_builder \<Rightarrow> bool \<times> bm_builder" where
  "bm_builder_handle_test_event ev e b =
     (case e of
        Ev_Test_Enable enabled \<Rightarrow> on_draft (\<lambda>d. d\<lparr>dr_testing_enabled := enabled\<rparr>) b
      | Ev_Test_Add ta \<Rightarrow>
          (let owner = bm_builder_current_directory_id b in
           if owner = BM_ID_INVALID then bm_builder_error ev ''test declaration without an active directory'' b
           else on_draft (\<lambda>d.
             let i = bm_id (length (dr_tests d)) in
             d\<lparr>dr_tests := dr_tests d @
                 [\<lparr>te_id = i, te_name = ta_name ta, te_owner_directory_id = owner,
                   te_provenance = bm_provenance_from_event ev, te_command = ta_command ta,
                   te_working_dir = ta_working_dir ta, te_command_expand_lists = ta_command_expand_lists ta,
                   te_configurations = ta_configurations ta\<rparr>],
               test_name_index := bm_add_name_index (ta_name ta) i (test_name_index d)\<rparr>) b))"

definition bm_builder_handle_install_event ::
  "bm_event \<Rightarrow> event_install_rule_add \<Rightarrow> bm_builder \<Rightarrow> bool \<times> bm_builder" where
  "bm_builder_handle_install_event ev e b =
     (let owner = bm_builder_current_directory_id b in
      if owner = BM_ID_INVALID then bm_builder_error ev ''install rule without an active directory'' b
      else on_draft (\<lambda>d. d\<lparr>dr_install_rules := dr_install_rules d @
        [\<lparr>ir_id = bm_id (length (dr_install_rules d)), ir_kind = bm_install_rule_kind_from_event (ia_rule_type e),
          ir_owner_directory_id = owner, ir_provenance = bm_provenance_from_event ev, ir_item = ia_item e,
          ir_destination = ia_destination e, ir_rename = ia_rename e, ir_component = ia_component e,
          ir_archive_component = ia_archive_component e, ir_library_component = ia_library_component e,
          ir_runtime_component = ia_runtime_component e, ir_includes_component = ia_includes_component e,
          ir_public_header_component = ia_public_header_component e,
          ir_namelink_component = ia_namelink_component e, ir_export_name = ia_export_name e,
          ir_archive_destination = ia_archive_destination e, ir_library_destination = ia_library_destination e,
          ir_runtime_destination = ia_runtime_destination e, ir_includes_destination = ia_includes_destination e,
          ir_public_header_destination = ia_public_header_destination e,
          ir_resolved_target_id = BM_ID_INVALID\<rparr>]\<rparr>) b)"

section \<open>Exports\<close>

definition blank_export :: "nat \<Rightarrow> nat \<Rightarrow> bm_provenance \<Rightarrow> bm_export" where
  "blank_export i owner p =
     \<lparr>ex_id = i, ex_owner_directory_id = owner, ex_provenance = p, ex_kind = BM_EXPORT_INSTALL,
      ex_source_kind = BM_EXPORT_SOURCE_INSTALL_EXPORT, ex_export_key = [], ex_name = [], ex_export_namespace = [],
      ex_destination = [], ex_file_name = [], ex_component = [], ex_output_file_path = [],
      ex_cxx_modules_directory = [], ex_registry_prefix = [], ex_enabled = False, ex_append = False,
      ex_target_names = [], ex_target_ids = []\<rparr>"

text \<open>The record an export event appends, if it appends one, and the error without a directory.\<close>

fun export_record :: "export_event \<Rightarrow> (bm_export \<Rightarrow> bm_export) \<times> string" where
  "export_record (Ev_Export_Install e) =
     (\<lambda>r. r\<lparr>ex_kind := BM_EXPORT_INSTALL, ex_source_kind := BM_EXPORT_SOURCE_INSTALL_EXPORT, ex_enabled := True,
           ex_name := xi_export_name e, ex_export_namespace := xi_export_namespace e,
           ex_destination := xi_destination e, ex_file_name := xi_file_name e, ex_component := xi_component e\<rparr>,
      ''export install without an active directory'')"
| "export_record (Ev_Export_Build_Declare e) =
     (\<lambda>r. r\<lparr>ex_kind := BM_EXPORT_BUILD_TREE, ex_source_kind := export_source_from_event (xb_source_kind e),
           ex_enabled := True, ex_append := xb_append e, ex_export_key := xb_export_key e, ex_name := xb_logical_name e,
           ex_output_file_path := xb_file_path e, ex_export_namespace := xb_export_namespace e,
           ex_cxx_modules_directory := xb_cxx_modules_directory e\<rparr>,
      ''build-tree export without an active directory'')"
| "export_record (Ev_Export_Package_Registry package_name prefix enabled) =
     (\<lambda>r. r\<lparr>ex_kind := BM_EXPORT_PACKAGE_REGISTRY, ex_source_kind := BM_EXPORT_SOURCE_PACKAGE, ex_enabled := enabled,
           ex_name := package_name, ex_registry_prefix := prefix\<rparr>,
      ''package registry export without an active directory'')"
| "export_record (Ev_Export_Build_Add_Target key name) = (\<lambda>r. r, [])"

definition bm_builder_handle_export_event :: "bm_event \<Rightarrow> export_event \<Rightarrow> bm_builder \<Rightarrow> bool \<times> bm_builder" where
  "bm_builder_handle_export_event ev e b =
     (case e of
        Ev_Export_Build_Add_Target key name \<Rightarrow>
          (case bm_builder_find_export_by_key (bb_draft b) key of
             None \<Rightarrow> bm_builder_error ev ''export target membership references an unknown export key'' b
           | Some i \<Rightarrow>
               on_draft (\<lambda>d. d\<lparr>dr_exports :=
                 update_at i (\<lambda>x. x\<lparr>ex_target_names := ex_target_names x @ [name]\<rparr>) (dr_exports d)\<rparr>) b)
      | _ \<Rightarrow>
          (let owner = bm_builder_current_directory_id b in
           if owner = BM_ID_INVALID then bm_builder_error ev (snd (export_record e)) b
           else on_draft (\<lambda>d. d\<lparr>dr_exports := dr_exports d @
             [fst (export_record e)
               (blank_export (bm_id (length (dr_exports d))) owner (bm_provenance_from_event ev))]\<rparr>) b))"

section \<open>Packages\<close>

definition record_package :: "event_package_find_result \<Rightarrow> nat \<Rightarrow> bm_provenance \<Rightarrow> build_model_draft \<Rightarrow> build_model_draft" where
  "record_package e owner p d =
     (let i = bm_id (length (dr_packages d)) in
      d\<lparr>dr_packages := dr_packages d @
          [\<lparr>pk_id = i, pk_owner_directory_id = owner, pk_provenance = p, pk_package_name = pf_package_name e,
            pk_mode = pf_mode e, pk_found_path = pf_found_path e, pk_found = pf_found e, pk_required = pf_required e,
            pk_quiet = pf_quiet e\<rparr>],
        package_name_index := bm_add_name_index (pf_package_name e) i (package_name_index d)\<rparr>)"

definition record_install_type ::
  "string_view \<Rightarrow> string_view \<Rightarrow> nat \<Rightarrow> bm_provenance \<Rightarrow> build_model_draft \<Rightarrow> build_model_draft" where
  "record_install_type name display_name owner p d =
     d\<lparr>dr_cpack_install_types := dr_cpack_install_types d @
         [\<lparr>cit_id = bm_id (length (dr_cpack_install_types d)), cit_owner_directory_id = owner, cit_provenance = p,
           cit_name = name, cit_display_name = display_name\<rparr>]\<rparr>"

definition record_component_group ::
  "event_cpack_group \<Rightarrow> nat \<Rightarrow> bm_provenance \<Rightarrow> build_model_draft \<Rightarrow> build_model_draft" where
  "record_component_group e owner p d =
     d\<lparr>dr_cpack_groups := dr_cpack_groups d @
         [\<lparr>cg_id = bm_id (length (dr_cpack_groups d)), cg_owner_directory_id = owner, cg_provenance = p,
           cg_name = cga_name e, cg_display_name = cga_display_name e, cg_description = cga_description e,
           cg_parent_group_name = cga_parent_group e, cg_parent_group_id = BM_ID_INVALID,
           cg_expanded = cga_expanded e, cg_bold_title = cga_bold_title e\<rparr>]\<rparr>"

definition record_component ::
  "event_cpack_component \<Rightarrow> nat \<Rightarrow> bm_provenance \<Rightarrow> build_model_draft \<Rightarrow> build_model_draft" where
  "record_component e owner p d =
     d\<lparr>dr_cpack_components := dr_cpack_components d @
         [\<lparr>cc_id = bm_id (length (dr_cpack_components d)), cc_owner_directory_id = owner, cc_provenance = p,
           cc_name = cca_name e, cc_display_name = cca_display_name e, cc_description = cca_description e,
           cc_group_name = cca_group e, cc_group_id = BM_ID_INVALID,
           cc_dependency_names = bm_split_cmake_list (cca_depends e), cc_dependency_ids = [],
           cc_install_type_names = bm_split_cmake_list (cca_install_types e), cc_install_type_ids = [],
           cc_archive_file = cca_archive_file e, cc_plist = cca_plist e, cc_required = cca_required e,
           cc_hidden = cca_hidden e, cc_disabled = cca_disabled e, cc_downloaded = cca_downloaded e\<rparr>]\<rparr>"

definition record_cpack_package ::
  "event_cpack_package \<Rightarrow> nat \<Rightarrow> bm_provenance \<Rightarrow> build_model_draft \<Rightarrow> build_model_draft" where
  "record_cpack_package e owner p d =
     d\<lparr>dr_cpack_packages := dr_cpack_packages d @
         [\<lparr>cp_id = bm_id (length (dr_cpack_packages d)), cp_owner_directory_id = owner, cp_provenance = p,
           cp_package_key = cpa_package_key e, cp_package_name = cpa_package_name e,
           cp_package_version = cpa_package_version e, cp_package_file_name = cpa_package_file_name e,
           cp_package_directory = cpa_package_directory e, cp_archive_file_name = cpa_archive_file_name e,
           cp_archive_file_extension = cpa_archive_file_extension e,
           cp_components_grouping = cpa_components_grouping e, cp_project_config_file = cpa_project_config_file e,
           cp_generators = [], cp_components_all = bm_split_cmake_list (cpa_components_all e),
           cp_archive_name_overrides = [], cp_include_toplevel_directory = cpa_include_toplevel_directory e,
           cp_archive_component_install = cpa_archive_component_install e\<rparr>]\<rparr>"

definition bm_builder_handle_package_event :: "bm_event \<Rightarrow> package_event \<Rightarrow> bm_builder \<Rightarrow> bool \<times> bm_builder" where
  "bm_builder_handle_package_event ev e b =
     (let owner = bm_builder_current_directory_id b;
          p = bm_provenance_from_event ev;
          modify_package = (\<lambda>i f. on_draft (\<lambda>d. d\<lparr>dr_cpack_packages := update_at i f (dr_cpack_packages d)\<rparr>) b)
      in if owner = BM_ID_INVALID then bm_builder_error ev ''package or CPack event without an active directory'' b
         else
           (case e of
              Ev_Package_Find_Result pf \<Rightarrow> on_draft (record_package pf owner p) b
            | Ev_Cpack_Add_Install_Type name display_name \<Rightarrow> on_draft (record_install_type name display_name owner p) b
            | Ev_Cpack_Add_Component_Group g \<Rightarrow> on_draft (record_component_group g owner p) b
            | Ev_Cpack_Add_Component c \<Rightarrow> on_draft (record_component c owner p) b
            | Ev_Cpack_Package_Declare pkg \<Rightarrow> on_draft (record_cpack_package pkg owner p) b
            | Ev_Cpack_Package_Add_Generator key generator \<Rightarrow>
                (case bm_draft_find_cpack_package (bb_draft b) key of
                   None \<Rightarrow> bm_builder_error ev ''CPack package generator referenced unknown package plan'' b
                 | Some i \<Rightarrow> modify_package i (\<lambda>r. r\<lparr>cp_generators := cp_generators r @ [generator]\<rparr>))
            | Ev_Cpack_Package_Archive_Name_Override key archive_key file_name \<Rightarrow>
                (case bm_draft_find_cpack_package (bb_draft b) key of
                   None \<Rightarrow> bm_builder_error ev ''CPack archive name override referenced unknown package plan'' b
                 | Some i \<Rightarrow> modify_package i
                     (\<lambda>r. r\<lparr>cp_archive_name_overrides := cp_archive_name_overrides r @ [(archive_key, file_name)]\<rparr>))))"

section \<open>Dispatch and replay\<close>

definition bm_is_supported_build_event :: "string \<Rightarrow> bool" where
  "bm_is_supported_build_event kind \<longleftrightarrow>
     kind \<in> set
       [''project_declare'', ''project_minimum_required'', ''directory_enter'', ''directory_leave'',
        ''directory_property_mutate'', ''global_property_mutate'', ''target_declare'', ''target_add_source'',
        ''target_file_set_declare'', ''target_file_set_add_base_dir'', ''source_mark_generated'',
        ''source_property_mutate'', ''target_add_dependency'', ''build_step_declare'', ''build_step_add_output'',
        ''build_step_add_byproduct'', ''build_step_add_dependency'', ''build_step_add_command'',
        ''replay_action_declare'', ''replay_action_add_input'', ''replay_action_add_output'',
        ''replay_action_add_argv'', ''replay_action_add_env'', ''target_prop_set'', ''target_link_libraries'',
        ''target_link_options'', ''target_link_directories'', ''target_include_directories'',
        ''target_compile_definitions'', ''target_compile_options'', ''target_compile_features'', ''test_enable'',
        ''test_add'', ''install_rule_add'', ''export_install'', ''export_build_declare'', ''export_build_add_target'',
        ''export_package_registry'', ''cpack_add_install_type'', ''cpack_add_component_group'',
        ''cpack_add_component'', ''cpack_package_declare'', ''cpack_package_add_generator'',
        ''cpack_package_archive_name_override'', ''package_find_result'']"

definition handle_event :: "bm_event \<Rightarrow> bm_builder \<Rightarrow> bool \<times> bm_builder" where
  "handle_event ev b =
     (case ev_payload ev of
        Project_Event e \<Rightarrow> bm_builder_handle_project_event ev e b
      | Directory_Event e \<Rightarrow> bm_builder_handle_directory_event ev e b
      | Target_Event e \<Rightarrow> bm_builder_handle_target_event ev e b
      | Build_Graph_Event e \<Rightarrow> bm_builder_handle_build_graph_event ev e b
      | Replay_Event e \<Rightarrow> bm_builder_handle_replay_event ev e b
      | Test_Event e \<Rightarrow> bm_builder_handle_test_event ev e b
      | Install_Event e \<Rightarrow> bm_builder_handle_install_event ev e b
      | Export_Event e \<Rightarrow> bm_builder_handle_export_event ev e b
      | Package_Event e \<Rightarrow> bm_builder_handle_package_event ev e b
      | Other_Event kind \<Rightarrow> bm_builder_error ev ''unexpected builder dispatch fallthrough'' b)"

definition bm_builder_apply_event :: "bm_event \<Rightarrow> bm_builder \<Rightarrow> bool \<times> bm_builder" where
  "bm_builder_apply_event ev b =
     (if has_fatal_error b then (False, b)
      else if \<not> event_kind_has_role (ev_kind ev) EVENT_ROLE_BUILD_SEMANTIC then (True, b)
      else if \<not> bm_is_supported_build_event (ev_kind ev)
      then bm_builder_error ev ''unsupported build-semantic event kind'' b
      else handle_event ev (b\<lparr>bb_draft := (bb_draft b)\<lparr>dr_has_semantic_entities := True\<rparr>\<rparr>))"

text \<open>The loop over the stream; it stops at the first failure.\<close>

fun apply_events :: "bm_event list \<Rightarrow> bm_builder \<Rightarrow> bool \<times> bm_builder" where
  "apply_events [] b = (True, b)"
| "apply_events (ev # evs) b =
     (case bm_builder_apply_event ev b of (ok, b1) \<Rightarrow> if ok then apply_events evs b1 else (False, b1))"

definition bm_builder_apply_stream :: "event_stream \<Rightarrow> bm_builder \<Rightarrow> bool \<times> bm_builder" where
  "bm_builder_apply_stream stream b = apply_events (es_items stream) b"

definition bm_builder_finalize :: "bm_builder \<Rightarrow> build_model_draft option \<times> bm_builder" where
  "bm_builder_finalize b =
     (if has_fatal_error b then (None, b)
      else if length (directory_stack b) \<noteq> 0 then
        (None, b\<lparr>has_fatal_error := True,
           bb_sink := bb_sink b @
             [(DIAG_SEV_ERROR, bm_empty_provenance, ''finalize'', ''directory stack not empty at end of stream'')]\<rparr>)
      else (Some (bb_draft b), b))"

end
