(* ===== verification/Bm_Builder_Facts.thy ===== *)
theory Bm_Builder_Facts
  imports Bm_Builder_Handlers Bm_Validate_Facts
begin

text \<open>
  The invariant of the builder: in every table of the draft identifiers are positions and owners
  are directories, the index of targets mirrors their list, keys and names are told apart, a parent
  comes before its children, and the open directories exist. Every event keeps it.
\<close>

named_theorems built_simps \<open>what the operations on records leave alone\<close>

section \<open>Tables\<close>

text \<open>Identifiers are positions, and owners lie among the first \<open>n\<close> directories.\<close>

definition rows :: "('a \<Rightarrow> nat) \<Rightarrow> ('a \<Rightarrow> nat) \<Rightarrow> nat \<Rightarrow> 'a list \<Rightarrow> bool" where
  "rows ident owner n xs \<longleftrightarrow> (\<forall>i<length xs. ident (xs ! i) = i \<and> owner (xs ! i) < n)"

lemma rows_Nil [simp]: "rows ident owner n []"
  by (simp add: rows_def)

lemma rows_snoc: "rows ident owner n xs \<Longrightarrow> ident x = length xs \<Longrightarrow> owner x < n \<Longrightarrow> rows ident owner n (xs @ [x])"
  by (auto simp: rows_def nth_append less_Suc_eq)

lemma rows_update:
  assumes "rows ident owner n xs" "ident x = i" "owner x < n"
  shows "rows ident owner n (xs[i := x])"
  unfolding rows_def
proof (intro allI impI)
  fix j assume "j < length (xs[i := x])"
  then show "ident (xs[i := x] ! j) = j \<and> owner (xs[i := x] ! j) < n"
    using assms by (cases "j = i") (auto simp: rows_def)
qed

lemma rows_nth: "rows ident owner n xs \<Longrightarrow> i < length xs \<Longrightarrow> ident (xs ! i) = i \<and> owner (xs ! i) < n"
  by (simp add: rows_def)

lemma rows_mono: "rows ident owner n xs \<Longrightarrow> n \<le> m \<Longrightarrow> rows ident owner m xs"
  by (auto simp: rows_def intro: less_le_trans)

lemma rows_update_at:
  "rows ident owner n xs \<Longrightarrow> (\<And>x. ident (f x) = ident x) \<Longrightarrow> (\<And>x. owner (f x) = owner x) \<Longrightarrow>
   rows ident owner n (update_at i f xs)"
  unfolding update_at_def by (cases "i < length xs") (auto simp: rows_def nth_list_update)

lemma length_update_at [simp]: "length (update_at i f xs) = length xs"
  by (simp add: update_at_def)

lemma map_update_same:
  assumes "f x = f (xs ! i)"
  shows "map f (xs[i := x]) = map f xs"
  using assms by (cases "i < length xs") (simp_all add: map_update list_update_same_conv list_update_beyond)

lemma map_update_at: "(\<And>x. f (g x) = f x) \<Longrightarrow> map f (update_at i g xs) = map f xs"
  by (simp add: update_at_def map_update_same)

lemma find_position_Some:
  "find_position P xs = Some i \<Longrightarrow> i < length xs \<and> P (xs ! i) \<and> (\<forall>j<i. \<not> P (xs ! j))"
  by (induction xs arbitrary: i) (auto split: if_splits simp: less_Suc_eq_0_disj)

lemma find_position_None: "find_position P xs = None \<longleftrightarrow> (\<forall>x\<in>set xs. \<not> P x)"
  by (induction xs) auto

section \<open>The parts of the invariant\<close>

definition dirs_built :: "bm_directory list \<Rightarrow> nat list \<Rightarrow> nat \<Rightarrow> bool" where
  "dirs_built ds stack root \<longleftrightarrow>
     (\<forall>i<length ds. di_id (ds ! i) = i \<and> di_owner_directory_id (ds ! i) = i \<and>
        (di_parent_id (ds ! i) = BM_ID_INVALID \<or> di_parent_id (ds ! i) < i)) \<and>
     (\<forall>i\<in>set stack. i < length ds) \<and> root = (if ds = [] then BM_ID_INVALID else 0)"

definition index_built :: "string_view list \<Rightarrow> bm_name_index_entry list \<Rightarrow> bool" where
  "index_built names idx \<longleftrightarrow> map ne_name idx = names \<and> map ne_id idx = [0..<length names]"

definition file_sets_built :: "bm_target \<Rightarrow> bool" where
  "file_sets_built t \<longleftrightarrow>
     distinct (map fs_name (tg_file_sets t)) \<and>
     (\<forall>s\<in>set (tg_source_records t). src_file_set_name s \<noteq> [] \<longrightarrow> src_file_set_name s \<in> set (map fs_name (tg_file_sets t)))"

definition targets_built :: "nat \<Rightarrow> bm_target list \<Rightarrow> bm_name_index_entry list \<Rightarrow> bool" where
  "targets_built n ts idx \<longleftrightarrow>
     rows tg_id tg_owner_directory_id n ts \<and> distinct (map tg_name ts) \<and> index_built (map tg_name ts) idx \<and>
     (\<forall>t\<in>set ts. file_sets_built t)"

definition steps_built :: "nat \<Rightarrow> bm_build_step list \<Rightarrow> bool" where
  "steps_built n ss \<longleftrightarrow> rows st_id st_owner_directory_id n ss \<and> distinct (map st_step_key ss)"

definition actions_built :: "nat \<Rightarrow> bm_replay_action list \<Rightarrow> bool" where
  "actions_built n as' \<longleftrightarrow>
     rows ra_id ra_owner_directory_id n as' \<and> distinct (map ra_action_key as') \<and> [] \<notin> set (map ra_action_key as')"

definition tables_built :: "nat \<Rightarrow> build_model_draft \<Rightarrow> bool" where
  "tables_built n d \<longleftrightarrow>
     targets_built n (dr_targets d) (target_name_index d) \<and>
     steps_built n (dr_build_steps d) \<and> actions_built n (dr_replay_actions d) \<and>
     rows te_id te_owner_directory_id n (dr_tests d) \<and> index_built (map te_name (dr_tests d)) (test_name_index d) \<and>
     rows ir_id ir_owner_directory_id n (dr_install_rules d) \<and> rows ex_id ex_owner_directory_id n (dr_exports d) \<and>
     rows pk_id pk_owner_directory_id n (dr_packages d) \<and>
     index_built (map pk_package_name (dr_packages d)) (package_name_index d) \<and>
     rows cit_id cit_owner_directory_id n (dr_cpack_install_types d) \<and>
     rows cg_id cg_owner_directory_id n (dr_cpack_groups d) \<and>
     rows cc_id cc_owner_directory_id n (dr_cpack_components d) \<and>
     rows cp_id cp_owner_directory_id n (dr_cpack_packages d)"

text \<open>After \<open>k\<close> events no table has more than \<open>k\<close> records.\<close>

definition small :: "nat \<Rightarrow> build_model_draft \<Rightarrow> bool" where
  "small k d \<longleftrightarrow>
     length (dr_directories d) \<le> k \<and> length (dr_targets d) \<le> k \<and> length (dr_build_steps d) \<le> k \<and>
     length (dr_replay_actions d) \<le> k \<and> length (dr_tests d) \<le> k \<and> length (dr_install_rules d) \<le> k \<and>
     length (dr_exports d) \<le> k \<and> length (dr_packages d) \<le> k \<and> length (dr_cpack_install_types d) \<le> k \<and>
     length (dr_cpack_groups d) \<le> k \<and> length (dr_cpack_components d) \<le> k \<and> length (dr_cpack_packages d) \<le> k"

definition built :: "nat \<Rightarrow> bm_builder \<Rightarrow> bool" where
  "built k b \<longleftrightarrow>
     dirs_built (dr_directories (bb_draft b)) (directory_stack b) (dr_root_directory_id (bb_draft b)) \<and>
     tables_built (length (dr_directories (bb_draft b))) (bb_draft b) \<and> small k (bb_draft b)"

lemma built_create: "built 0 (bm_builder_create log)"
  by (simp add: built_def bm_builder_create_def dirs_built_def tables_built_def targets_built_def steps_built_def
      actions_built_def index_built_def small_def)

lemma small_mono: "small k d \<Longrightarrow> k \<le> m \<Longrightarrow> small m d"
  by (auto simp: small_def)

lemma built_mono: "built k b \<Longrightarrow> k \<le> m \<Longrightarrow> built m b"
  using small_mono by (auto simp: built_def)

lemma built_error [simp]: "built k (snd (bm_builder_error ev cause b)) = built k b"
  by (simp add: built_def bm_builder_error_def)

lemma bm_id_small: "n \<le> k \<Longrightarrow> k < BM_ID_INVALID \<Longrightarrow> bm_id n = n"
  by (simp add: bm_id_def BM_ID_INVALID_def)

lemma current_directory:
  assumes "built k b" "bm_builder_current_directory_id b \<noteq> BM_ID_INVALID"
  shows "bm_builder_current_directory_id b < length (dr_directories (bb_draft b))"
  using assms by (auto simp: bm_builder_current_directory_id_def built_def dirs_built_def split: list.splits)

section \<open>Finding targets\<close>

lemma find_name_built:
  assumes "index_built names idx" "length names \<le> BM_ID_INVALID"
  shows "find_name idx name = (case find_position (\<lambda>x. x = name) names of None \<Rightarrow> BM_ID_INVALID | Some i \<Rightarrow> i)"
proof -
  have "find_name idx name = (case find_position (\<lambda>x. x = name) (map ne_name idx) of None \<Rightarrow> BM_ID_INVALID | Some i \<Rightarrow> m + i)"
    if "map ne_id idx = [m..<m + length idx]" for idx m
    using that
  proof (induction idx arbitrary: m)
    case (Cons e idx)
    have m: "ne_id e = m" "map ne_id idx = [Suc m..<Suc m + length idx]"
      using Cons.prems by (simp_all add: upt_conv_Cons del: upt_Suc)
    from Cons.IH [OF m(2)] m(1) show ?case by (auto split: option.splits)
  qed simp
  note by_name = this [of idx 0]
  have "map ne_name idx = names" "map ne_id idx = [0..<length idx]"
    using assms(1) by (auto simp: index_built_def)
  with by_name show ?thesis by (simp split: option.splits)
qed

lemma find_target_built:
  assumes "targets_built n (dr_targets d) (target_name_index d)" "length (dr_targets d) \<le> BM_ID_INVALID"
  shows "bm_draft_find_target_id d name =
    (case find_position (\<lambda>x. x = name) (map tg_name (dr_targets d)) of None \<Rightarrow> BM_ID_INVALID | Some i \<Rightarrow> i)"
  using assms find_name_built by (simp add: bm_draft_find_target_id_def targets_built_def)

lemma find_target_cases:
  assumes "targets_built n (dr_targets d) (target_name_index d)" "length (dr_targets d) \<le> BM_ID_INVALID"
  shows "bm_draft_find_target d name = Some i \<Longrightarrow> i < length (dr_targets d) \<and> tg_name (dr_targets d ! i) = name"
    and "bm_draft_find_target d name = None \<Longrightarrow> name \<notin> tg_name ` set (dr_targets d)"
    and "known_target d name \<longleftrightarrow> name \<in> tg_name ` set (dr_targets d)"
proof -
  let ?p = "find_position (\<lambda>x. x = name) (map tg_name (dr_targets d))"
  have p: "i < length (dr_targets d) \<and> tg_name (dr_targets d ! i) = name" if "?p = Some i" for i
    using find_position_Some [OF that] by auto
  have none: "?p = None \<longleftrightarrow> name \<notin> tg_name ` set (dr_targets d)" by (auto simp: find_position_None)
  note f = find_target_built [OF assms, of name]
  show "i < length (dr_targets d) \<and> tg_name (dr_targets d ! i) = name" if "bm_draft_find_target d name = Some i"
    using that p f by (cases ?p) (auto simp: bm_draft_find_target_def split: if_splits)
  show "name \<notin> tg_name ` set (dr_targets d)" if "bm_draft_find_target d name = None"
    using that p f none assms(2) by (cases ?p) (auto simp: bm_draft_find_target_def Let_def split: if_splits)
  show "known_target d name \<longleftrightarrow> name \<in> tg_name ` set (dr_targets d)"
  proof (cases ?p)
    case None
    then show ?thesis using f none by simp
  next
    case (Some i)
    then show ?thesis using f none p [OF Some] assms(2) by simp
  qed
qed

section \<open>What operations on targets keep\<close>

lemma target_usage_keeps [built_simps]:
  "tg_id (target_usage k e p t) = tg_id t" "tg_name (target_usage k e p t) = tg_name t"
  "tg_owner_directory_id (target_usage k e p t) = tg_owner_directory_id t"
  "tg_file_sets (target_usage k e p t) = tg_file_sets t"
  "tg_source_records (target_usage k e p t) = tg_source_records t"
  by (cases k; simp add: target_usage_def Let_def)+

lemma sync_scalar_keeps [built_simps]:
  "tg_id (bm_target_sync_artifact_scalar name v t) = tg_id t"
  "tg_name (bm_target_sync_artifact_scalar name v t) = tg_name t"
  "tg_owner_directory_id (bm_target_sync_artifact_scalar name v t) = tg_owner_directory_id t"
  "tg_file_sets (bm_target_sync_artifact_scalar name v t) = tg_file_sets t"
  "tg_source_records (bm_target_sync_artifact_scalar name v t) = tg_source_records t"
  by (simp_all add: bm_target_sync_artifact_scalar_def Let_def)

lemma artifact_property_keeps [built_simps]:
  "tg_id (snd (bm_target_record_artifact_property e p t)) = tg_id t"
  "tg_name (snd (bm_target_record_artifact_property e p t)) = tg_name t"
  "tg_owner_directory_id (snd (bm_target_record_artifact_property e p t)) = tg_owner_directory_id t"
  "tg_file_sets (snd (bm_target_record_artifact_property e p t)) = tg_file_sets t"
  "tg_source_records (snd (bm_target_record_artifact_property e p t)) = tg_source_records t"
  by (simp_all add: bm_target_record_artifact_property_def Let_def built_simps)

lemma promote_keeps [built_simps]:
  "tg_id (snd (bm_target_promote_property_set e p t)) = tg_id t"
  "tg_name (snd (bm_target_promote_property_set e p t)) = tg_name t"
  "tg_owner_directory_id (snd (bm_target_promote_property_set e p t)) = tg_owner_directory_id t"
  "tg_file_sets (snd (bm_target_promote_property_set e p t)) = tg_file_sets t"
  "tg_source_records (snd (bm_target_promote_property_set e p t)) = tg_source_records t"
  by (auto simp: bm_target_promote_property_set_def Let_def split: option.split promoted_list.split)

lemma target_prop_set_keeps [built_simps]:
  "tg_id (target_prop_set e p t) = tg_id t" "tg_name (target_prop_set e p t) = tg_name t"
  "tg_owner_directory_id (target_prop_set e p t) = tg_owner_directory_id t"
  "tg_file_sets (target_prop_set e p t) = tg_file_sets t"
  "tg_source_records (target_prop_set e p t) = tg_source_records t"
proof -
  obtain ok t1 where r: "bm_target_record_artifact_property e p t = (ok, t1)" by (rule prod.exhaust)
  have keeps: "tg_id t1 = tg_id t" "tg_name t1 = tg_name t" "tg_owner_directory_id t1 = tg_owner_directory_id t"
    "tg_file_sets t1 = tg_file_sets t" "tg_source_records t1 = tg_source_records t"
    using artifact_property_keeps [of e p t] r by simp_all
  define put where "put t' = (case bm_target_promote_property_set e p t' of (True, t4) \<Rightarrow> t4
    | (False, t4) \<Rightarrow> bm_target_record_raw_set e p t4)" for t'
  have put: "tg_id (put t') = tg_id t'" "tg_name (put t') = tg_name t'"
    "tg_owner_directory_id (put t') = tg_owner_directory_id t'" "tg_file_sets (put t') = tg_file_sets t'"
    "tg_source_records (put t') = tg_source_records t'" for t'
    using promote_keeps [of e p t'] unfolding put_def
    by (auto simp: bm_target_record_raw_set_def split: prod.split bool.split)
  show "tg_id (target_prop_set e p t) = tg_id t" "tg_name (target_prop_set e p t) = tg_name t"
    "tg_owner_directory_id (target_prop_set e p t) = tg_owner_directory_id t"
    "tg_file_sets (target_prop_set e p t) = tg_file_sets t"
    "tg_source_records (target_prop_set e p t) = tg_source_records t"
    unfolding target_prop_set_def r put_def [symmetric] by (cases ok; simp add: keeps put Let_def)+
qed

lemma file_sets_same:
  "map fs_name (tg_file_sets t') = map fs_name (tg_file_sets t) \<Longrightarrow> tg_source_records t' = tg_source_records t \<Longrightarrow>
   file_sets_built t' = file_sets_built t"
  by (simp only: file_sets_built_def)

text \<open>The operations that may fail: what they keep when they succeed.\<close>

definition keeps_target :: "bm_target \<Rightarrow> bm_target \<Rightarrow> bool" where
  "keeps_target t t' \<longleftrightarrow>
     tg_id t' = tg_id t \<and> tg_name t' = tg_name t \<and> tg_owner_directory_id t' = tg_owner_directory_id t \<and>
     (file_sets_built t \<longrightarrow> file_sets_built t')"

lemma add_source_keeps: "target_add_source e p t = Inr t' \<Longrightarrow> keeps_target t t'"
  by ((auto simp: target_add_source_def bm_target_append_source_record_def keeps_target_def file_sets_built_def Let_def
      bm_target_find_file_set_def find_position_None split: if_splits); force)

lemma file_set_declare_keeps:
  assumes "target_file_set_declare name kind visibility p t = Inr t'"
  shows "keeps_target t t'"
proof -
  obtain i t1 where e: "bm_target_ensure_file_set name p t = (i, t1)" by (rule prod.exhaust)
  have i: "i < length (tg_file_sets t1)" and t1: "keeps_target t t1"
    using e by (auto simp: bm_target_ensure_file_set_def bm_target_find_file_set_def keeps_target_def file_sets_built_def
        find_position_None dest: find_position_Some split: option.splits)
  define fs where "fs = (tg_file_sets t1 ! i)\<lparr>fs_kind := file_set_kind_from_event kind,
    fs_visibility := bm_visibility_from_event visibility\<rparr>"
  have t': "t' = t1\<lparr>tg_file_sets := (tg_file_sets t1)[i := fs]\<rparr>"
    using assms by (simp add: target_file_set_declare_def e fs_def Let_def split: if_splits)
  have "map fs_name ((tg_file_sets t1)[i := fs]) = map fs_name (tg_file_sets t1)"
    by (rule map_update_same) (simp add: fs_def)
  then have "keeps_target t1 t'"
    unfolding t' keeps_target_def using file_sets_same [of "t1\<lparr>tg_file_sets := (tg_file_sets t1)[i := fs]\<rparr>" t1] by simp
  with t1 show ?thesis by (auto simp: keeps_target_def)
qed

lemma add_base_dir_keeps:
  assumes "target_file_set_add_base_dir name path t = Inr t'"
  shows "keeps_target t t'"
proof -
  obtain i where t': "t' = t\<lparr>tg_file_sets := update_at i (\<lambda>fs. fs\<lparr>fs_base_dirs := fs_base_dirs fs @ [path]\<rparr>) (tg_file_sets t)\<rparr>"
    using assms by (auto simp: target_file_set_add_base_dir_def split: option.splits)
  have "map fs_name (update_at i (\<lambda>fs. fs\<lparr>fs_base_dirs := fs_base_dirs fs @ [path]\<rparr>) (tg_file_sets t)) = map fs_name (tg_file_sets t)"
    by (rule map_update_at) simp
  then show ?thesis unfolding t' keeps_target_def
    using file_sets_same [of "t\<lparr>tg_file_sets := update_at i (\<lambda>fs. fs\<lparr>fs_base_dirs := fs_base_dirs fs @ [path]\<rparr>) (tg_file_sets t)\<rparr>" t]
    by simp
qed

section \<open>Events keep the invariant\<close>

lemma targets_built_update:
  assumes "targets_built n ts idx" "i < length ts" "tg_id t = tg_id (ts ! i)" "tg_name t = tg_name (ts ! i)"
    "tg_owner_directory_id t < n" "file_sets_built t"
  shows "targets_built n (ts[i := t]) idx"
proof -
  have "tg_id (ts ! i) = i" using assms(1,2) by (simp add: targets_built_def rows_def)
  moreover have "map tg_name (ts[i := t]) = map tg_name ts" by (rule map_update_same) (rule assms(4))
  moreover have "\<forall>x\<in>set (ts[i := t]). file_sets_built x"
    using assms(1,6) set_update_subset_insert [of ts i t] by (auto simp: targets_built_def)
  ultimately show ?thesis using assms unfolding targets_built_def by (auto intro: rows_update)
qed

lemma index_built_snoc:
  "index_built ns idx \<Longrightarrow> i = length ns \<Longrightarrow> index_built (ns @ [name]) (bm_add_name_index name i idx)"
  by (simp add: index_built_def bm_add_name_index_def)

lemma built_modify_target:
  assumes "built k b" "i < length (dr_targets (bb_draft b))" "keeps_target (dr_targets (bb_draft b) ! i) t"
  shows "built k (snd (on_draft (modify_target i (\<lambda>_. t)) b))"
proof -
  let ?ts = "dr_targets (bb_draft b)"
  have tb: "targets_built (length (dr_directories (bb_draft b))) ?ts (target_name_index (bb_draft b))"
    using assms(1) by (simp add: built_def tables_built_def)
  then have "tg_owner_directory_id (?ts ! i) < length (dr_directories (bb_draft b))" "file_sets_built (?ts ! i)"
    using assms(2) by (simp_all add: targets_built_def rows_def)
  with tb assms(2,3) have "targets_built (length (dr_directories (bb_draft b))) (?ts[i := t]) (target_name_index (bb_draft b))"
    by (intro targets_built_update) (simp_all add: keeps_target_def)
  with assms(1) show ?thesis
    by (simp add: built_def tables_built_def small_def on_draft_def modify_target_def update_at_def)
qed

lemma built_targets:
  assumes "built k b" "k < BM_ID_INVALID"
  shows "targets_built (length (dr_directories (bb_draft b))) (dr_targets (bb_draft b)) (target_name_index (bb_draft b))"
    and "length (dr_targets (bb_draft b)) \<le> BM_ID_INVALID"
  using assms by (auto simp: built_def tables_built_def small_def)

lemma built_with_target:
  assumes "built k b" "k < BM_ID_INVALID" "\<And>t t'. f t = Inr t' \<Longrightarrow> keeps_target t t'"
  shows "built k (snd (with_target ev name unknown f b))"
proof (cases "bm_draft_find_target (bb_draft b) name")
  case (Some i)
  have "i < length (dr_targets (bb_draft b))" using find_target_cases(1) [OF built_targets [OF assms(1,2)] Some] by simp
  with assms show ?thesis
    by (cases "f (dr_targets (bb_draft b) ! i)") (simp_all add: with_target_def Some built_modify_target)
qed (simp add: with_target_def assms)

lemma built_placeholder:
  assumes "built k b" "k < BM_ID_INVALID"
  shows "built (Suc k) (snd (bm_target_ensure_placeholder ev name b))"
    and "fst (bm_target_ensure_placeholder ev name b) = Some i \<Longrightarrow>
      i < length (dr_targets (bb_draft (snd (bm_target_ensure_placeholder ev name b))))"
proof -
  note t = built_targets [OF assms]
  let ?d = "bb_draft b"
  have id: "bm_id (length (dr_targets ?d)) = length (dr_targets ?d)"
    using assms by (intro bm_id_small [of _ k]) (simp_all add: built_def small_def)
  show "built (Suc k) (snd (bm_target_ensure_placeholder ev name b))"
  proof (cases "bm_draft_find_target ?d name = None \<and> bm_builder_current_directory_id b \<noteq> BM_ID_INVALID")
    case True
    define new where "new = blank_target\<lparr>tg_id := length (dr_targets ?d), tg_owner_directory_id := bm_builder_current_directory_id b,
      tg_provenance := bm_provenance_from_event ev, tg_kind := BM_TARGET_UTILITY, tg_name := name\<rparr>"
    have fresh: "name \<notin> tg_name ` set (dr_targets ?d)" using find_target_cases(2) [OF t] True by blast
    have owner: "bm_builder_current_directory_id b < length (dr_directories ?d)"
      using current_directory [OF assms(1)] True by blast
    have n: "tg_id new = length (dr_targets ?d)" "tg_name new = name" "file_sets_built new"
      "tg_owner_directory_id new = bm_builder_current_directory_id b"
      by (simp_all add: new_def file_sets_built_def)
    have new: "targets_built (length (dr_directories ?d)) (dr_targets ?d @ [new])
        (bm_add_name_index name (length (dr_targets ?d)) (target_name_index ?d))"
      using t(1) fresh owner n index_built_snoc [of "map tg_name (dr_targets ?d)" "target_name_index ?d"]
      by (auto simp: targets_built_def intro!: rows_snoc)
    have "snd (bm_target_ensure_placeholder ev name b) = b\<lparr>bb_draft := ?d\<lparr>dr_targets := dr_targets ?d @ [new],
        target_name_index := bm_add_name_index name (length (dr_targets ?d)) (target_name_index ?d)\<rparr>\<rparr>"
      using True by (simp add: bm_target_ensure_placeholder_def Let_def id new_def)
    with new assms(1) show ?thesis
      by (auto simp: built_def tables_built_def small_def)
  next
    case False
    then have "snd (bm_target_ensure_placeholder ev name b) = b"
      by (auto simp: bm_target_ensure_placeholder_def Let_def split: option.split)
    with built_mono [OF assms(1), of "Suc k"] show ?thesis by simp
  qed
  show "i < length (dr_targets (bb_draft (snd (bm_target_ensure_placeholder ev name b))))"
    if "fst (bm_target_ensure_placeholder ev name b) = Some i"
    using that find_target_cases(1) [OF t]
    by (cases "bm_draft_find_target ?d name") (auto simp: bm_target_ensure_placeholder_def Let_def split: if_splits)
qed

lemma on_draft_simps [simp]: "fst (on_draft f b)" "snd (on_draft f b) = b\<lparr>bb_draft := f (bb_draft b)\<rparr>"
  by (simp_all add: on_draft_def)

lemma built_modify:
  assumes "built k b" "i < length (dr_targets (bb_draft b))"
    "\<And>t. tg_id (f t) = tg_id t" "\<And>t. tg_name (f t) = tg_name t" "\<And>t. file_sets_built (f t) = file_sets_built t"
    "\<And>t. tg_owner_directory_id t < length (dr_directories (bb_draft b)) \<Longrightarrow>
       tg_owner_directory_id (f t) < length (dr_directories (bb_draft b))"
  shows "built k (snd (on_draft (modify_target i f) b))"
proof -
  let ?ts = "dr_targets (bb_draft b)"
  have tb: "targets_built (length (dr_directories (bb_draft b))) ?ts (target_name_index (bb_draft b))"
    using assms(1) by (simp add: built_def tables_built_def)
  then have "tg_owner_directory_id (?ts ! i) < length (dr_directories (bb_draft b))" "file_sets_built (?ts ! i)"
    using assms(2) by (simp_all add: targets_built_def rows_def)
  with tb assms(2-6) have "targets_built (length (dr_directories (bb_draft b))) (?ts[i := f (?ts ! i)]) (target_name_index (bb_draft b))"
    by (intro targets_built_update) simp_all
  with assms(1) show ?thesis
    by (simp add: built_def tables_built_def small_def modify_target_def update_at_def)
qed

lemma ensure_placeholder_stack [simp]:
  "directory_stack (snd (bm_target_ensure_placeholder ev name b)) = directory_stack b"
  "dr_directories (bb_draft (snd (bm_target_ensure_placeholder ev name b))) = dr_directories (bb_draft b)"
  by (auto simp: bm_target_ensure_placeholder_def Let_def split: option.split)

lemma built_target_event:
  assumes "built k b" "k < BM_ID_INVALID"
  shows "built (Suc k) (snd (bm_builder_handle_target_event ev e b))"
proof -
  note up = built_mono [of k _ "Suc k"]
  have keeps: "keeps_target t (target_usage u us p t)"
    "keeps_target t (t\<lparr>explicit_dependency_names := explicit_dependency_names t @ [dep]\<rparr>)" for t u us p dep
    using file_sets_same [of "target_usage u us p t" t]
      file_sets_same [of "t\<lparr>explicit_dependency_names := explicit_dependency_names t @ [dep]\<rparr>" t]
    by (simp_all add: keeps_target_def built_simps)
  have error: "built (Suc k) (snd (bm_builder_error ev cause b))" for cause using up assms(1) by simp
  have placed: "built (Suc k) b1 \<and> (\<forall>i. r = Some i \<longrightarrow> i < length (dr_targets (bb_draft b1))) \<and>
      directory_stack b1 = directory_stack b \<and> dr_directories (bb_draft b1) = dr_directories (bb_draft b)"
    if "bm_target_ensure_placeholder ev name b = (r, b1)" for name r b1
    using built_placeholder [OF assms, of ev name] ensure_placeholder_stack [of ev name b] that by simp
  show ?thesis
  proof (cases e)
    case (Ev_Target_Declare td)
    obtain r b1 where p: "bm_target_ensure_placeholder ev (td_name td) b = (r, b1)" by (rule prod.exhaust)
    note b1 = placed [OF p]
    have decl: "built (Suc k) (snd (on_draft (modify_target i (declare_target td (bm_builder_current_directory_id b) pr)) b1))"
      if "r = Some i" "bm_builder_current_directory_id b \<noteq> BM_ID_INVALID" for i pr
      using b1 that current_directory [OF assms(1) that(2)]
      by (intro built_modify) (simp_all add: declare_target_def file_sets_built_def)
    show ?thesis unfolding Ev_Target_Declare bm_builder_handle_target_event_def Let_def
      using error decl b1 p by (simp add: handle_target_declare_def Let_def split: option.split)
  next
    case (Ev_Target_Prop_Set ps)
    obtain r b1 where p: "bm_target_ensure_placeholder ev (ps_target_name ps) b = (r, b1)" by (rule prod.exhaust)
    note b1 = placed [OF p]
    have same: "file_sets_built (target_prop_set ps pr t) = file_sets_built t" for t pr
      by (rule file_sets_same) (simp_all add: built_simps)
    have set_prop: "built (Suc k) (snd (on_draft (modify_target i (target_prop_set ps pr)) b1))" if "r = Some i" for i pr
      using b1 that by (intro built_modify) (simp_all add: built_simps same)
    show ?thesis unfolding Ev_Target_Prop_Set bm_builder_handle_target_event_def Let_def
      using error set_prop b1 p by (simp add: handle_target_prop_set_def split: option.split)
  qed (simp_all add: bm_builder_handle_target_event_def Let_def, (rule up, rule built_with_target [OF assms],
      auto dest: add_source_keeps file_set_declare_keeps add_base_dir_keeps simp: keeps)+)
qed

lemma built_project_event: "built k b \<Longrightarrow> built (Suc k) (snd (bm_builder_handle_project_event ev e b))"
  by (drule built_mono [of k b "Suc k"]) (cases e; simp add: bm_builder_handle_project_event_def built_def tables_built_def small_def)+

lemma dirs_built_snoc:
  assumes "dirs_built ds stack root" "di_id r = length ds" "di_owner_directory_id r = length ds"
    "di_parent_id r = BM_ID_INVALID \<or> di_parent_id r < length ds"
  shows "dirs_built (ds @ [r]) (length ds # stack) (if root = BM_ID_INVALID then length ds else root)"
  using assms by (auto simp: dirs_built_def nth_append less_Suc_eq BM_ID_INVALID_def)

lemma tables_built_mono: "tables_built n d \<Longrightarrow> n \<le> m \<Longrightarrow> tables_built m d"
  unfolding tables_built_def targets_built_def steps_built_def actions_built_def by (blast intro: rows_mono)

lemma built_enter:
  assumes "built k b" "k < BM_ID_INVALID"
  shows "built (Suc k) (enter_directory source_dir binary_dir ev b)"
proof -
  let ?d = "bb_draft b" and ?ds = "dr_directories (bb_draft b)"
  have id: "bm_id (length ?ds) = length ?ds"
    using assms by (intro bm_id_small [of _ k]) (simp_all add: built_def small_def)
  have parent: "bm_builder_current_directory_id b = BM_ID_INVALID \<or> bm_builder_current_directory_id b < length ?ds"
    using current_directory [OF assms(1)] by blast
  have "dirs_built ?ds (directory_stack b) (dr_root_directory_id ?d)" "tables_built (length ?ds) ?d" "small k ?d"
    using assms(1) by (simp_all add: built_def)
  then show ?thesis
    unfolding enter_directory_def Let_def id
    using dirs_built_snoc [of ?ds "directory_stack b" "dr_root_directory_id ?d"] parent
      tables_built_mono [of "length ?ds" ?d "Suc (length ?ds)"]
    by (simp add: built_def tables_built_def small_def)
qed

lemma built_directory_event:
  assumes "built k b" "k < BM_ID_INVALID"
  shows "built (Suc k) (snd (bm_builder_handle_directory_event ev e b))"
proof -
  have up: "built (Suc k) b" using built_mono [OF assms(1)] by simp
  have leave: "built (Suc k) (b\<lparr>directory_stack := tl (directory_stack b)\<rparr>)"
    using up by (cases "directory_stack b") (auto simp: built_def dirs_built_def)
  have mutate: "built (Suc k) (b\<lparr>bb_draft := (bb_draft b)\<lparr>dr_directories := (dr_directories (bb_draft b))[i :=
      with_properties props (dr_directories (bb_draft b) ! i)]\<rparr>\<rparr>)" if "i < length (dr_directories (bb_draft b))" for i props
    using up that by (auto simp: built_def dirs_built_def tables_built_def small_def with_properties_def nth_list_update)
  have glob: "built (Suc k) (b\<lparr>bb_draft := (bb_draft b)\<lparr>dr_global_properties := g\<rparr>\<rparr>)" for g
    using up by (simp add: built_def tables_built_def small_def)
  show ?thesis
    using up leave mutate glob built_enter [OF assms]
    by (cases e) (auto simp: bm_builder_handle_directory_event_def leave_directory_def bm_draft_get_directory_def Let_def
        split: option.split)
qed

text \<open>The other groups append a record to one table, or change one in place.\<close>

lemma distinct_snoc: "distinct (map f (xs @ [x])) \<longleftrightarrow> distinct (map f xs) \<and> f x \<notin> f ` set xs"
  by auto

lemma small_ids:
  assumes "built k b" "k < BM_ID_INVALID"
  shows "bm_id (length (dr_build_steps (bb_draft b))) = length (dr_build_steps (bb_draft b))"
    "bm_id (length (dr_replay_actions (bb_draft b))) = length (dr_replay_actions (bb_draft b))"
    "bm_id (length (dr_tests (bb_draft b))) = length (dr_tests (bb_draft b))"
    "bm_id (length (dr_install_rules (bb_draft b))) = length (dr_install_rules (bb_draft b))"
    "bm_id (length (dr_exports (bb_draft b))) = length (dr_exports (bb_draft b))"
    "bm_id (length (dr_packages (bb_draft b))) = length (dr_packages (bb_draft b))"
    "bm_id (length (dr_cpack_install_types (bb_draft b))) = length (dr_cpack_install_types (bb_draft b))"
    "bm_id (length (dr_cpack_groups (bb_draft b))) = length (dr_cpack_groups (bb_draft b))"
    "bm_id (length (dr_cpack_components (bb_draft b))) = length (dr_cpack_components (bb_draft b))"
    "bm_id (length (dr_cpack_packages (bb_draft b))) = length (dr_cpack_packages (bb_draft b))"
  using assms by (auto simp: built_def small_def intro!: bm_id_small [of _ k])

lemma declare_step_fields [simp]:
  "st_id (declare_build_step e i owner p) = i" "st_step_key (declare_build_step e i owner p) = sd_step_key e"
  "st_owner_directory_id (declare_build_step e i owner p) = owner"
  by (simp_all add: declare_build_step_def)

lemma step_add_fields [simp]:
  "st_id (build_step_add item s) = st_id s" "st_step_key (build_step_add item s) = st_step_key s"
  "st_owner_directory_id (build_step_add item s) = st_owner_directory_id s"
  by (cases item; simp add: build_step_add_def)+

lemma built_graph_event:
  assumes "built k b" "k < BM_ID_INVALID"
  shows "built (Suc k) (snd (bm_builder_handle_build_graph_event ev e b))"
proof -
  have up: "built (Suc k) b" using built_mono [OF assms(1)] by simp
  have append: "built (Suc k) (b\<lparr>bb_draft := (bb_draft b)\<lparr>dr_build_steps := dr_build_steps (bb_draft b) @ [s]\<rparr>\<rparr>)"
    if "st_id s = length (dr_build_steps (bb_draft b))" "st_owner_directory_id s < length (dr_directories (bb_draft b))"
      "st_step_key s \<notin> st_step_key ` set (dr_build_steps (bb_draft b))" for s
    using assms(1) that by (auto simp: built_def tables_built_def steps_built_def small_def intro!: rows_snoc)
  have update: "built (Suc k) (b\<lparr>bb_draft := (bb_draft b)\<lparr>dr_build_steps := update_at i (build_step_add item) (dr_build_steps (bb_draft b))\<rparr>\<rparr>)"
    for i item using up map_update_at [of st_step_key "build_step_add item"]
    by (auto simp: built_def tables_built_def steps_built_def small_def intro!: rows_update_at)
  have other: "built (Suc k) (b\<lparr>bb_draft := (bb_draft b)\<lparr>dr_source_marks := ms\<rparr>\<rparr>)"
    "built (Suc k) (b\<lparr>bb_draft := (bb_draft b)\<lparr>dr_source_mutations := mu\<rparr>\<rparr>)" for ms mu
    using up by (simp_all add: built_def tables_built_def small_def)
  show ?thesis
    using up other update small_ids(1) [OF assms] current_directory [OF assms(1)]
    by (cases e) (auto simp: bm_builder_handle_build_graph_event_def Let_def bm_draft_find_build_step_def find_position_None
        intro!: append split: option.split)
qed

lemma built_replay_event:
  assumes "built k b" "k < BM_ID_INVALID"
  shows "built (Suc k) (snd (bm_builder_handle_replay_event ev e b))"
proof -
  have up: "built (Suc k) b" using built_mono [OF assms(1)] by simp
  have append: "built (Suc k) (b\<lparr>bb_draft := (bb_draft b)\<lparr>dr_replay_actions := dr_replay_actions (bb_draft b) @ [a]\<rparr>\<rparr>)"
    if "ra_id a = length (dr_replay_actions (bb_draft b))" "ra_owner_directory_id a < length (dr_directories (bb_draft b))"
      "ra_action_key a \<notin> ra_action_key ` set (dr_replay_actions (bb_draft b))" "ra_action_key a \<noteq> []" for a
    using assms(1) that by (auto simp: built_def tables_built_def actions_built_def small_def intro!: rows_snoc)
  have update: "built (Suc k) (b\<lparr>bb_draft := (bb_draft b)\<lparr>dr_replay_actions := (dr_replay_actions (bb_draft b))[i := a]\<rparr>\<rparr>)"
    if "i < length (dr_replay_actions (bb_draft b))" "replay_action_add item (dr_replay_actions (bb_draft b) ! i) = Inr a" for i item a
  proof -
    let ?as = "dr_replay_actions (bb_draft b)"
    have a: "ra_id a = ra_id (?as ! i)" "ra_action_key a = ra_action_key (?as ! i)"
      "ra_owner_directory_id a = ra_owner_directory_id (?as ! i)"
      using that(2) by (auto simp: replay_action_add_def split: replay_item.splits if_splits)
    have keys: "map ra_action_key (?as[i := a]) = map ra_action_key ?as" by (rule map_update_same) (rule a(2))
    have "actions_built (length (dr_directories (bb_draft b))) ?as" using up by (simp add: built_def tables_built_def)
    then have "actions_built (length (dr_directories (bb_draft b))) (?as[i := a])"
      using that(1) a(1,3) rows_nth [of ra_id ra_owner_directory_id _ ?as i]
      unfolding actions_built_def keys by (auto intro!: rows_update)
    with up show ?thesis by (simp add: built_def tables_built_def small_def)
  qed
  show ?thesis
    using up small_ids(2) [OF assms] current_directory [OF assms(1)]
    by (cases e) (auto simp: bm_builder_handle_replay_event_def Let_def bm_draft_find_replay_action_def find_position_None
        bm_string_view_is_empty_def intro!: append update dest: find_position_Some split: option.split sum.split)
qed

text \<open>Appending to the tables without keys.\<close>

lemma built_append:
  assumes "built k b"
  defines "d \<equiv> bb_draft b" and "n \<equiv> length (dr_directories (bb_draft b))"
  shows "te_id t = length (dr_tests d) \<Longrightarrow> name = te_name t \<Longrightarrow> te_owner_directory_id t < n \<Longrightarrow>
      built (Suc k) (b\<lparr>bb_draft := d\<lparr>dr_tests := dr_tests d @ [t],
        test_name_index := bm_add_name_index name (length (dr_tests d)) (test_name_index d)\<rparr>\<rparr>)"
    and "ir_id r = length (dr_install_rules d) \<Longrightarrow> ir_owner_directory_id r < n \<Longrightarrow>
      built (Suc k) (b\<lparr>bb_draft := d\<lparr>dr_install_rules := dr_install_rules d @ [r]\<rparr>\<rparr>)"
    and "ex_id x = length (dr_exports d) \<Longrightarrow> ex_owner_directory_id x < n \<Longrightarrow>
      built (Suc k) (b\<lparr>bb_draft := d\<lparr>dr_exports := dr_exports d @ [x]\<rparr>\<rparr>)"
    and "pk_id pk = length (dr_packages d) \<Longrightarrow> name = pk_package_name pk \<Longrightarrow> pk_owner_directory_id pk < n \<Longrightarrow>
      built (Suc k) (b\<lparr>bb_draft := d\<lparr>dr_packages := dr_packages d @ [pk],
        package_name_index := bm_add_name_index name (length (dr_packages d)) (package_name_index d)\<rparr>\<rparr>)"
    and "cit_id ci = length (dr_cpack_install_types d) \<Longrightarrow> cit_owner_directory_id ci < n \<Longrightarrow>
      built (Suc k) (b\<lparr>bb_draft := d\<lparr>dr_cpack_install_types := dr_cpack_install_types d @ [ci]\<rparr>\<rparr>)"
    and "cg_id g = length (dr_cpack_groups d) \<Longrightarrow> cg_owner_directory_id g < n \<Longrightarrow>
      built (Suc k) (b\<lparr>bb_draft := d\<lparr>dr_cpack_groups := dr_cpack_groups d @ [g]\<rparr>\<rparr>)"
    and "cc_id c = length (dr_cpack_components d) \<Longrightarrow> cc_owner_directory_id c < n \<Longrightarrow>
      built (Suc k) (b\<lparr>bb_draft := d\<lparr>dr_cpack_components := dr_cpack_components d @ [c]\<rparr>\<rparr>)"
    and "cp_id p = length (dr_cpack_packages d) \<Longrightarrow> cp_owner_directory_id p < n \<Longrightarrow>
      built (Suc k) (b\<lparr>bb_draft := d\<lparr>dr_cpack_packages := dr_cpack_packages d @ [p]\<rparr>\<rparr>)"
  using assms(1) unfolding d_def n_def built_def tables_built_def small_def
  by (simp_all add: rows_snoc index_built_snoc)

lemma built_test_event:
  assumes "built k b" "k < BM_ID_INVALID"
  shows "built (Suc k) (snd (bm_builder_handle_test_event ev e b))"
proof -
  have enable: "built (Suc k) (b\<lparr>bb_draft := (bb_draft b)\<lparr>dr_testing_enabled := x\<rparr>\<rparr>)" for x
    using built_mono [OF assms(1), of "Suc k"] by (simp add: built_def tables_built_def small_def)
  show ?thesis
    using enable built_mono [OF assms(1), of "Suc k"] small_ids(3) [OF assms] current_directory [OF assms(1)]
    by (cases e) (auto simp: bm_builder_handle_test_event_def Let_def intro!: built_append(1) [OF assms(1)])
qed

lemma built_install_event:
  assumes "built k b" "k < BM_ID_INVALID"
  shows "built (Suc k) (snd (bm_builder_handle_install_event ev e b))"
  using built_mono [OF assms(1), of "Suc k"] small_ids(4) [OF assms] current_directory [OF assms(1)]
    built_append(2) [OF assms(1)]
  by (simp add: bm_builder_handle_install_event_def Let_def)

lemma export_record_fields [simp]:
  "ex_id (fst (export_record e) r) = ex_id r" "ex_owner_directory_id (fst (export_record e) r) = ex_owner_directory_id r"
  by (cases e; simp)+

lemma blank_export_fields [simp]: "ex_id (blank_export i owner p) = i" "ex_owner_directory_id (blank_export i owner p) = owner"
  by (simp_all add: blank_export_def)

lemma built_export_event:
  assumes "built k b" "k < BM_ID_INVALID"
  shows "built (Suc k) (snd (bm_builder_handle_export_event ev e b))"
proof -
  have up: "built (Suc k) b" using built_mono [OF assms(1)] by simp
  have update: "built (Suc k) (b\<lparr>bb_draft := (bb_draft b)\<lparr>dr_exports :=
      update_at i (\<lambda>x. x\<lparr>ex_target_names := ex_target_names x @ [name]\<rparr>) (dr_exports (bb_draft b))\<rparr>\<rparr>)" for i name
    using up unfolding built_def tables_built_def small_def by (simp add: rows_update_at)
  show ?thesis
    using up update small_ids(5) [OF assms] current_directory [OF assms(1)] built_append(3) [OF assms(1)]
    by (cases e) (simp_all add: bm_builder_handle_export_event_def Let_def split: option.split del: export_record.simps)
qed

lemma built_package_event:
  assumes "built k b" "k < BM_ID_INVALID"
  shows "built (Suc k) (snd (bm_builder_handle_package_event ev e b))"
proof -
  have up: "built (Suc k) b" using built_mono [OF assms(1)] by simp
  have update: "built (Suc k) (b\<lparr>bb_draft := (bb_draft b)\<lparr>dr_cpack_packages :=
      update_at i f (dr_cpack_packages (bb_draft b))\<rparr>\<rparr>)"
    if "\<And>r. cp_id (f r) = cp_id r" "\<And>r. cp_owner_directory_id (f r) = cp_owner_directory_id r" for i f
    using up that unfolding built_def tables_built_def small_def by (simp add: rows_update_at)
  show ?thesis
    using up update small_ids(6-) [OF assms] current_directory [OF assms(1)]
    by (cases e) (auto simp: bm_builder_handle_package_event_def Let_def record_package_def record_install_type_def
        record_component_group_def record_component_def record_cpack_package_def
        intro!: built_append(4-) [OF assms(1)] split: option.split)
qed

lemma built_apply_event:
  assumes "built k b" "k < BM_ID_INVALID"
  shows "built (Suc k) (snd (bm_builder_apply_event ev b))"
proof -
  let ?b = "b\<lparr>bb_draft := (bb_draft b)\<lparr>dr_has_semantic_entities := True\<rparr>\<rparr>"
  have b: "built k ?b" using assms(1) by (simp add: built_def tables_built_def small_def)
  have "built (Suc k) (snd (handle_event ev ?b))"
    using built_mono [OF b, of "Suc k"]
    by (simp add: handle_event_def built_project_event [OF b] built_directory_event [OF b assms(2)]
        built_target_event [OF b assms(2)] built_graph_event [OF b assms(2)] built_replay_event [OF b assms(2)]
        built_test_event [OF b assms(2)] built_install_event [OF b assms(2)] built_export_event [OF b assms(2)]
        built_package_event [OF b assms(2)] split: event_payload.split)
  then show ?thesis using built_mono [OF assms(1), of "Suc k"] by (simp add: bm_builder_apply_event_def)
qed

lemma built_apply_events:
  "built k b \<Longrightarrow> k + length evs \<le> BM_ID_INVALID \<Longrightarrow> built (k + length evs) (snd (apply_events evs b))"
proof (induction evs arbitrary: k b)
  case (Cons ev evs)
  obtain ok b1 where a: "bm_builder_apply_event ev b = (ok, b1)" by (rule prod.exhaust)
  have b1: "built (Suc k) b1" using built_apply_event [OF Cons.prems(1), of ev] Cons.prems(2) a by simp
  then have "built (k + length (ev # evs)) b1" by (rule built_mono) simp
  with Cons.IH [OF b1] Cons.prems(2) a show ?case by simp
qed simp

end
