(* ===== verification/Bm_Builder_Props.thy ===== *)
theory Bm_Builder_Props
  imports Bm_Builder_Facts Bm_Validate_Props
begin

text \<open>
  What a replay guarantees: the directories of an accepted stream form a forest and are listed in
  its order, an event that fails leaves the draft alone, and of the conditions of the validation
  only those are left to test that concern what the events say.
\<close>

section \<open>Failures\<close>

definition semantic_kinds :: "string list" where
  "semantic_kinds =
     [''directory_enter'', ''directory_leave'', ''directory_property_mutate'', ''global_property_mutate'',
      ''test_enable'', ''test_add'', ''install_rule_add'', ''cpack_add_install_type'',
      ''cpack_add_component_group'', ''cpack_add_component'', ''cpack_package_declare'',
      ''cpack_package_add_generator'', ''cpack_package_archive_name_override'', ''package_find_result'',
      ''project_declare'', ''project_minimum_required'', ''target_declare'', ''target_add_source'',
      ''target_file_set_declare'', ''target_file_set_add_base_dir'', ''source_mark_generated'',
      ''source_property_mutate'', ''target_add_dependency'', ''build_step_declare'',
      ''build_step_add_output'', ''build_step_add_byproduct'', ''build_step_add_dependency'',
      ''build_step_add_command'', ''target_prop_set'', ''target_link_libraries'', ''target_link_options'',
      ''target_link_directories'', ''target_include_directories'', ''target_compile_definitions'',
      ''target_compile_options'', ''target_compile_features'', ''export_install'', ''export_build_declare'',
      ''export_build_add_target'', ''export_package_registry'', ''replay_action_declare'',
      ''replay_action_add_input'', ''replay_action_add_output'', ''replay_action_add_argv'',
      ''replay_action_add_env'']"

lemma semantic_kinds_listed: "map fst (filter (\<lambda>(kind, family, roles). EVENT_ROLE_BUILD_SEMANTIC \<in> set roles) event_kind_list) = semantic_kinds"
  by (simp add: event_kind_list_def semantic_kinds_def)

lemma semantic_kinds_supported: "set semantic_kinds \<subseteq> Collect bm_is_supported_build_event"
  unfolding semantic_kinds_def bm_is_supported_build_event_def
  by (simp only: list.set insert_subset empty_subsetI mem_Collect_eq simp_thms) (intro conjI; (rule insertI1 | rule insertI2)+)

lemma semantic_supported: "event_kind_has_role kind EVENT_ROLE_BUILD_SEMANTIC \<Longrightarrow> bm_is_supported_build_event kind"
proof -
  assume "event_kind_has_role kind EVENT_ROLE_BUILD_SEMANTIC"
  then obtain family roles where "(kind, family, roles) \<in> set event_kind_list" "EVENT_ROLE_BUILD_SEMANTIC \<in> set roles"
    by (auto simp: event_kind_has_role_def event_kind_meta_def split: option.splits dest!: map_of_SomeD)
  then have "kind \<in> set (map fst (filter (\<lambda>(kind, family, roles). EVENT_ROLE_BUILD_SEMANTIC \<in> set roles) event_kind_list))"
    by force
  then show ?thesis unfolding semantic_kinds_listed using semantic_kinds_supported by blast
qed

definition reported :: "bm_event \<Rightarrow> bm_builder \<Rightarrow> bm_builder \<Rightarrow> bool" where
  "reported ev b b' \<longleftrightarrow>
     (\<exists>cause. b' = b\<lparr>has_fatal_error := True,
        bb_sink := bb_sink b @ [(DIAG_SEV_ERROR, bm_provenance_from_event ev, event_kind_name (ev_kind ev), cause)]\<rparr>)"

definition fails_cleanly :: "bm_event \<Rightarrow> bm_builder \<Rightarrow> bool \<times> bm_builder \<Rightarrow> bool" where
  "fails_cleanly ev b r \<longleftrightarrow> (if fst r then has_fatal_error (snd r) = has_fatal_error b else reported ev b (snd r))"

lemma fails_error [simp]: "fails_cleanly ev b (bm_builder_error ev cause b)"
  by (auto simp: fails_cleanly_def bm_builder_error_def reported_def)

lemma fails_done [simp]: "fails_cleanly ev b (on_draft f b)" "fails_cleanly ev b (True, b\<lparr>directory_stack := ds\<rparr>)"
  "fails_cleanly ev b (True, b\<lparr>bb_draft := d, directory_stack := ds\<rparr>)"
  by (simp_all add: fails_cleanly_def)

lemma fails_target [simp]: "fails_cleanly ev b (with_target ev name unknown f b)"
  by (simp add: with_target_def split: option.split sum.split)

lemma ensure_placeholder_cases:
  "(fst (bm_target_ensure_placeholder ev name b) = None \<longrightarrow> snd (bm_target_ensure_placeholder ev name b) = b) \<and>
   has_fatal_error (snd (bm_target_ensure_placeholder ev name b)) = has_fatal_error b"
  by (simp add: bm_target_ensure_placeholder_def Let_def split: option.split)

lemma fails_placeholder:
  "fails_cleanly ev b (case bm_target_ensure_placeholder ev name b of
     (None, b1) \<Rightarrow> bm_builder_error ev cause b1 | (Some i, b1) \<Rightarrow> on_draft (f i) b1)"
proof -
  obtain r b1 where p: "bm_target_ensure_placeholder ev name b = (r, b1)" by (rule prod.exhaust)
  have "fails_cleanly ev b (on_draft (f i) b1)" for i
    using ensure_placeholder_cases [of ev name b] p by (simp add: fails_cleanly_def)
  then show ?thesis using ensure_placeholder_cases [of ev name b] p by (cases r) auto
qed

lemma fails_handle_event: "fails_cleanly ev b (handle_event ev b)"
  unfolding handle_event_def bm_builder_handle_project_event_def bm_builder_handle_directory_event_def
    bm_builder_handle_target_event_def bm_builder_handle_build_graph_event_def bm_builder_handle_replay_event_def
    bm_builder_handle_test_event_def bm_builder_handle_install_event_def bm_builder_handle_export_event_def
    bm_builder_handle_package_event_def handle_target_declare_def handle_target_prop_set_def leave_directory_def
    enter_directory_def Let_def
  by (auto split: event_payload.split project_event.split directory_event.split target_event.split
      build_graph_event.split replay_event.split test_event.split export_event.split package_event.split
      option.split sum.split intro!: fails_placeholder)


section \<open>Directories\<close>

text \<open>A directory with its subdirectories, and what entering and leaving it all looks like.\<close>

datatype dir_tree = Dir string_view string_view "dir_tree list"

primrec dir_events :: "dir_tree \<Rightarrow> directory_event list" where
  "dir_events (Dir s b subs) = Ev_Directory_Enter s b # concat (map dir_events subs) @ [Ev_Directory_Leave s b]"

definition forest_events :: "dir_tree list \<Rightarrow> directory_event list" where
  "forest_events ts = concat (map dir_events ts)"

text \<open>
  The directories in the order of entering, with their parents; \<open>n\<close> directories have been listed
  before, and \<open>p\<close> is the parent of the roots.
\<close>

fun tree_rows :: "nat \<Rightarrow> nat \<Rightarrow> dir_tree list \<Rightarrow> (string_view \<times> string_view \<times> nat) list" where
  "tree_rows p n [] = []"
| "tree_rows p n (Dir s b subs # ts) =
     (s, b, p) # tree_rows n (Suc n) subs @ tree_rows p (n + Suc (length (tree_rows n (Suc n) subs))) ts"

text \<open>The events of a stream that enter and leave directories.\<close>

definition walk_of :: "bm_event list \<Rightarrow> directory_event list" where
  "walk_of evs = concat (map (\<lambda>ev.
     case ev_payload ev of
       Directory_Event e \<Rightarrow>
         (case e of Ev_Directory_Enter s b \<Rightarrow> [e] | Ev_Directory_Leave s b \<Rightarrow> [e] | _ \<Rightarrow> [])
     | _ \<Rightarrow> []) evs)"

definition row_of :: "bm_directory \<Rightarrow> string_view \<times> string_view \<times> nat" where
  "row_of r = (di_source_dir r, di_binary_dir r, di_parent_id r)"

text \<open>
  In between, the directories left so far hang off the open ones: each open directory comes with
  its finished subdirectories, the innermost first, and there are finished trees outside of them.
\<close>

type_synonym open_dir = "string_view \<times> string_view \<times> dir_tree list"

fun open_events :: "dir_tree list \<Rightarrow> open_dir list \<Rightarrow> directory_event list" where
  "open_events ts [] = forest_events ts"
| "open_events ts ((s, b, subs) # fs) = open_events ts fs @ [Ev_Directory_Enter s b] @ forest_events subs"

fun open_rows :: "dir_tree list \<Rightarrow> open_dir list \<Rightarrow> (string_view \<times> string_view \<times> nat) list"
and open_ids :: "dir_tree list \<Rightarrow> open_dir list \<Rightarrow> nat list" where
  "open_rows ts [] = tree_rows BM_ID_INVALID 0 ts"
| "open_rows ts ((s, b, subs) # fs) =
     (let before = open_rows ts fs; n = length before in
      before @ [(s, b, case open_ids ts fs of [] \<Rightarrow> BM_ID_INVALID | i # is \<Rightarrow> i)] @ tree_rows n (Suc n) subs)"
| "open_ids ts [] = []"
| "open_ids ts (f # fs) = length (open_rows ts fs) # open_ids ts fs"

lemma forest_events_append [simp]: "forest_events (ts @ us) = forest_events ts @ forest_events us"
  by (simp add: forest_events_def)

lemma forest_events_single [simp]:
  "forest_events [Dir s b subs] = Ev_Directory_Enter s b # forest_events subs @ [Ev_Directory_Leave s b]"
  by (simp add: forest_events_def)

lemma tree_rows_append:
  "tree_rows p n (ts @ us) = tree_rows p n ts @ tree_rows p (n + length (tree_rows p n ts)) us"
  by (induction p n ts rule: tree_rows.induct) (simp_all add: add.assoc Let_def)

text \<open>Leaving a directory hangs it off the one around it.\<close>

fun close_open :: "dir_tree list \<Rightarrow> open_dir list \<Rightarrow> dir_tree list \<times> open_dir list" where
  "close_open ts [] = (ts, [])"
| "close_open ts [(s, b, subs)] = (ts @ [Dir s b subs], [])"
| "close_open ts ((s, b, subs) # (s', b', subs') # fs) = (ts, (s', b', subs' @ [Dir s b subs]) # fs)"

lemma close_open_keeps:
  assumes "close_open ts ((s, b, subs) # fs) = (ts', fs')"
  shows "open_events ts' fs' = open_events ts ((s, b, subs) # fs) @ [Ev_Directory_Leave s b]"
    and "open_rows ts' fs' = open_rows ts ((s, b, subs) # fs)"
    and "open_ids ts' fs' = open_ids ts fs"
proof -
  have "open_events ts' fs' = open_events ts ((s, b, subs) # fs) @ [Ev_Directory_Leave s b] \<and>
    open_rows ts' fs' = open_rows ts ((s, b, subs) # fs) \<and> open_ids ts' fs' = open_ids ts fs"
    using assms by (cases "(ts, (s, b, subs) # fs)" rule: close_open.cases)
      (auto simp: tree_rows_append Let_def)
  then show "open_events ts' fs' = open_events ts ((s, b, subs) # fs) @ [Ev_Directory_Leave s b]"
    "open_rows ts' fs' = open_rows ts ((s, b, subs) # fs)" "open_ids ts' fs' = open_ids ts fs"
    by blast+
qed

definition nested :: "directory_event list \<Rightarrow> bm_builder \<Rightarrow> bool" where
  "nested walk b \<longleftrightarrow>
     (\<exists>ts fs. walk = open_events ts fs \<and> map row_of (dr_directories (bb_draft b)) = open_rows ts fs \<and>
        directory_stack b = open_ids ts fs)"

definition same_dirs :: "bm_builder \<Rightarrow> bm_builder \<Rightarrow> bool" where
  "same_dirs b b' \<longleftrightarrow>
     map row_of (dr_directories (bb_draft b')) = map row_of (dr_directories (bb_draft b)) \<and>
     directory_stack b' = directory_stack b"

lemma same_dirs_error [simp]: "same_dirs b (snd (bm_builder_error ev cause b))"
  by (simp add: same_dirs_def bm_builder_error_def)

lemma same_dirs_target [simp]: "same_dirs b (snd (with_target ev name unknown f b))"
  by (simp add: with_target_def same_dirs_def bm_builder_error_def modify_target_def split: option.split sum.split)

lemma same_dirs_placeholder:
  assumes "\<And>i d. dr_directories (f i d) = dr_directories d"
  shows "same_dirs b (snd (case bm_target_ensure_placeholder ev name b of
     (None, b1) \<Rightarrow> bm_builder_error ev cause b1 | (Some i, b1) \<Rightarrow> on_draft (f i) b1))"
proof -
  obtain r b1 where p: "bm_target_ensure_placeholder ev name b = (r, b1)" by (rule prod.exhaust)
  then have "directory_stack b1 = directory_stack b" "dr_directories (bb_draft b1) = dr_directories (bb_draft b)"
    using ensure_placeholder_stack [of ev name b] by simp_all
  then show ?thesis using p assms by (cases r) (auto simp: same_dirs_def bm_builder_error_def)
qed

lemma modify_target_dirs [simp]: "dr_directories (modify_target i f d) = dr_directories d"
  by (simp add: modify_target_def)

lemma same_dirs_refl [simp]: "same_dirs b b"
  by (simp add: same_dirs_def)

text \<open>Only entering and leaving concerns the directories.\<close>

lemma other_events_keep_dirs:
  assumes "walk_of [ev] = []"
  shows "same_dirs b (snd (handle_event ev b))"
proof -
  have props: "row_of (with_properties ps r) = row_of r" for ps r by (simp add: row_of_def with_properties_def)
  have mutate: "map row_of (ds[i := with_properties ps (ds ! i)]) = map row_of ds" for ds i ps
    by (rule map_update_same) (rule props)
  show ?thesis
  proof (cases "ev_payload ev")
    case (Directory_Event e)
    with assms show ?thesis
      by (cases e) (auto simp: handle_event_def bm_builder_handle_directory_event_def Let_def walk_of_def same_dirs_def
          bm_draft_get_directory_def mutate bm_builder_error_def)
  next
    case (Target_Event e)
    then show ?thesis
      by (cases e) (auto simp: handle_event_def bm_builder_handle_target_event_def Let_def handle_target_declare_def
          handle_target_prop_set_def intro!: same_dirs_placeholder)
  next
    case (Build_Graph_Event e)
    then show ?thesis
      by (cases e) (auto simp: handle_event_def bm_builder_handle_build_graph_event_def Let_def same_dirs_def
          bm_builder_error_def split: option.split)
  next
    case (Export_Event e)
    then show ?thesis
      by (cases e) (auto simp: handle_event_def bm_builder_handle_export_event_def Let_def same_dirs_def
          bm_builder_error_def split: option.split)
  next
    case (Package_Event e)
    then show ?thesis
      by (cases e) (auto simp: handle_event_def bm_builder_handle_package_event_def Let_def same_dirs_def
          record_package_def record_install_type_def record_component_group_def record_component_def
          record_cpack_package_def bm_builder_error_def split: option.split)
  next
    case (Replay_Event e)
    then show ?thesis
      by (cases e) (auto simp: handle_event_def bm_builder_handle_replay_event_def Let_def same_dirs_def
          bm_builder_error_def split: option.split sum.split)
  next
    case (Test_Event e)
    then show ?thesis
      by (cases e) (auto simp: handle_event_def bm_builder_handle_test_event_def Let_def same_dirs_def bm_builder_error_def)
  next
    case (Project_Event e)
    then show ?thesis
      by (cases e) (auto simp: handle_event_def bm_builder_handle_project_event_def same_dirs_def)
  qed (auto simp: handle_event_def bm_builder_handle_install_event_def Let_def same_dirs_def bm_builder_error_def)
qed

lemma walk_of_simps:
  "walk_of [] = []" "walk_of (ev # evs) = walk_of [ev] @ walk_of evs"
  by (simp_all add: walk_of_def)

lemma walk_not_semantic:
  assumes "walk_of [ev] \<noteq> []"
  shows "event_kind_has_role (ev_kind ev) EVENT_ROLE_BUILD_SEMANTIC"
proof -
  have "event_kind_has_role ''directory_enter'' EVENT_ROLE_BUILD_SEMANTIC"
    "event_kind_has_role ''directory_leave'' EVENT_ROLE_BUILD_SEMANTIC" by code_simp+
  then show ?thesis using assms
    by (auto simp: walk_of_def ev_kind_def payload_kind_def split: event_payload.splits directory_event.splits)
qed

lemma nested_create: "nested [] (bm_builder_create log)"
  unfolding nested_def by (rule exI [of _ "[]"], rule exI [of _ "[]"]) (simp add: bm_builder_create_def forest_events_def)

lemma nested_event:
  assumes "nested walk b" "built k b" "k < BM_ID_INVALID" "bm_builder_apply_event ev b = (True, b')"
  shows "nested (walk @ walk_of [ev]) b'"
proof (cases "walk_of [ev] = []")
  case True
  let ?b = "b\<lparr>bb_draft := (bb_draft b)\<lparr>dr_has_semantic_entities := True\<rparr>\<rparr>"
  have "same_dirs b (snd (handle_event ev ?b))" using other_events_keep_dirs [OF True, of ?b] by (simp add: same_dirs_def)
  then have "same_dirs b b'"
    using assms(4) by (auto simp: bm_builder_apply_event_def bm_builder_error_def split: if_splits)
  then show ?thesis using assms(1) True by (simp add: nested_def same_dirs_def)
next
  case False
  let ?b = "b\<lparr>bb_draft := (bb_draft b)\<lparr>dr_has_semantic_entities := True\<rparr>\<rparr>"
  obtain ts fs where z: "walk = open_events ts fs" "map row_of (dr_directories (bb_draft b)) = open_rows ts fs"
    "directory_stack b = open_ids ts fs" using assms(1) unfolding nested_def by blast
  have n: "length (dr_directories (bb_draft b)) = length (open_rows ts fs)" using arg_cong [OF z(2), of length] by simp
  have small: "bm_id (length (open_rows ts fs)) = length (open_rows ts fs)" "length (open_rows ts fs) < BM_ID_INVALID"
    using assms(2,3) n by (auto simp: built_def small_def intro!: bm_id_small [of _ k])
  have step: "handle_event ev ?b = (True, b')"
    using assms(4) walk_not_semantic [OF False] semantic_supported [OF walk_not_semantic [OF False]]
    by (simp add: bm_builder_apply_event_def split: if_splits)
  consider (enter) s d where "ev_payload ev = Directory_Event (Ev_Directory_Enter s d)"
    | (leave) s d where "ev_payload ev = Directory_Event (Ev_Directory_Leave s d)"
    using False by (auto simp: walk_of_def split: event_payload.splits directory_event.splits)
  then show ?thesis
  proof cases
    case enter
    have b': "b' = enter_directory s d ev ?b"
      using step enter by (simp add: handle_event_def bm_builder_handle_directory_event_def Let_def)
    have "walk @ walk_of [ev] = open_events ts ((s, d, []) # fs)"
      using z(1) enter by (simp add: walk_of_def forest_events_def)
    moreover have "map row_of (dr_directories (bb_draft b')) = open_rows ts ((s, d, []) # fs)"
      using z(2,3) by (simp add: b' enter_directory_def Let_def row_of_def bm_builder_current_directory_id_def)
    moreover have "directory_stack b' = open_ids ts ((s, d, []) # fs)"
      using z(3) small n by (simp add: b' enter_directory_def Let_def)
    ultimately show ?thesis unfolding nested_def by blast
  next
    case leave
    have h: "leave_directory s d ev ?b = (True, b')"
      using step leave by (simp add: handle_event_def bm_builder_handle_directory_event_def)
    then have "fs \<noteq> []"
      using z(3) by (auto simp: leave_directory_def Let_def bm_builder_current_directory_id_def bm_builder_error_def)
    then obtain s' d' subs fs1 where fs: "fs = (s', d', subs) # fs1" by (metis list.exhaust prod_cases3)
    let ?i = "length (open_rows ts fs1)"
    have i: "directory_stack b = ?i # open_ids ts fs1" "?i < length (open_rows ts fs)"
      using z(3) by (simp_all add: fs Let_def)
    have "map row_of (dr_directories (bb_draft b)) ! ?i = (s', d', case open_ids ts fs1 of [] \<Rightarrow> BM_ID_INVALID | j # js \<Rightarrow> j)"
      unfolding z(2) by (simp add: fs Let_def nth_append)
    then have row: "di_source_dir (dr_directories (bb_draft b) ! ?i) = s'" "di_binary_dir (dr_directories (bb_draft b) ! ?i) = d'"
      using i(2) n by (simp_all add: row_of_def)
    have "s' = s \<and> d' = d \<and> b' = ?b\<lparr>directory_stack := open_ids ts fs1\<rparr>"
      using h i n small row
      by (auto simp: leave_directory_def Let_def bm_builder_current_directory_id_def bm_draft_get_directory_def
          bm_builder_error_def split: if_splits)
    then have e: "s' = s" "d' = d" "bb_draft b' = (bb_draft b)\<lparr>dr_has_semantic_entities := True\<rparr>"
      "directory_stack b' = open_ids ts fs1" by simp_all
    obtain ts' fs' where c: "close_open ts ((s, d, subs) # fs1) = (ts', fs')" by (rule prod.exhaust)
    note k = close_open_keeps [OF c]
    have "walk @ walk_of [ev] = open_events ts' fs'" using z(1) k(1) leave e(1,2) fs by (simp add: walk_of_def)
    moreover have "map row_of (dr_directories (bb_draft b')) = open_rows ts' fs'" using z(2) k(2) e fs by simp
    moreover have "directory_stack b' = open_ids ts' fs'" using k(3) e(4) by simp
    ultimately show ?thesis unfolding nested_def by blast
  qed
qed

lemma nested_events:
  "nested walk b \<Longrightarrow> built k b \<Longrightarrow> k + length evs \<le> BM_ID_INVALID \<Longrightarrow> apply_events evs b = (True, b') \<Longrightarrow>
   nested (walk @ walk_of evs) b'"
proof (induction evs arbitrary: walk k b)
  case Nil
  then show ?case by (simp add: walk_of_def)
next
  case (Cons ev evs)
  from Cons.prems(4) obtain b1 where a: "bm_builder_apply_event ev b = (True, b1)" "apply_events evs b1 = (True, b')"
    by (auto split: prod.splits if_splits)
  have k: "k < BM_ID_INVALID" "Suc k + length evs \<le> BM_ID_INVALID" using Cons.prems(3) by simp_all
  have "built (Suc k) b1" using built_apply_event [OF Cons.prems(2) k(1), of ev] a(1) by simp
  from Cons.IH [OF nested_event [OF Cons.prems(1,2) k(1) a(1)] this k(2) a(2)]
  show ?case by (subst walk_of_simps(2)) simp
qed

section \<open>What is left to validate\<close>

text \<open>The conditions on single records that the builder does not see to.\<close>

definition complete :: "build_model_draft \<Rightarrow> bool" where
  "complete d \<longleftrightarrow>
     (dr_has_semantic_entities d \<longrightarrow> dr_directories d \<noteq> []) \<and>
     (\<forall>t\<in>set (dr_targets d). tg_name t \<noteq> [] \<and> tg_declared t \<and>
        (\<forall>s\<in>set (tg_source_records t). src_kind s = BM_TARGET_SOURCE_REGULAR \<longleftrightarrow> src_file_set_name s = []) \<and>
        (\<forall>fs\<in>set (tg_file_sets t). fs_name fs \<noteq> [])) \<and>
     (\<forall>m\<in>set (dr_source_mutations d). sm_path m \<noteq> [] \<and> sm_key m \<noteq> []) \<and>
     (\<forall>a\<in>set (dr_replay_actions d). opcode_fits (ra_opcode a) (ra_kind a) \<and>
        payload_fits (ra_opcode a) (length (ra_inputs a)) (length (ra_outputs a)) (ra_argv a) (length (ra_environment a))) \<and>
     (\<forall>t\<in>set (dr_tests d). te_name t \<noteq> [] \<and> te_command t \<noteq> []) \<and>
     (\<forall>r\<in>set (dr_install_rules d). \<not> install_rule_incomplete r) \<and>
     (\<forall>x\<in>set (dr_exports d). export_fields_ok x) \<and>
     (\<forall>p\<in>set (dr_packages d). pk_package_name p \<noteq> []) \<and>
     (\<forall>c\<in>set (dr_cpack_install_types d). cit_name c \<noteq> []) \<and> (\<forall>g\<in>set (dr_cpack_groups d). cg_name g \<noteq> []) \<and>
     (\<forall>c\<in>set (dr_cpack_components d). cc_name c \<noteq> []) \<and>
     (\<forall>p\<in>set (dr_cpack_packages d). cp_package_key p \<noteq> [] \<and> cp_package_name p \<noteq> [] \<and>
        cp_package_file_name p \<noteq> [] \<and> cp_generators p \<noteq> [] \<and>
        cp_components_grouping p \<in> {[], ''ONE_PER_GROUP'', ''IGNORE'', ''ALL_COMPONENTS_IN_ONE''})"

text \<open>Every name that refers to a record is the name of one.\<close>

definition resolves :: "build_model_draft \<Rightarrow> bool" where
  "resolves d \<longleftrightarrow>
     (let names = tg_name ` set (dr_targets d);
          groups = cg_name ` set (dr_cpack_groups d)
      in (\<forall>t\<in>set (dr_targets d).
            (tg_alias t \<longrightarrow> tg_alias_of_name t \<noteq> [] \<and> tg_alias_of_name t \<in> names) \<and>
            set (explicit_dependency_names t) \<subseteq> names \<and>
            (\<forall>s\<in>set (tg_source_records t). \<forall>fs\<in>set (tg_file_sets t).
               fs_name fs = src_file_set_name s \<and> src_file_set_name s \<noteq> [] \<longrightarrow>
               (src_kind s = BM_TARGET_SOURCE_HEADER_FILE_SET \<longrightarrow> fs_kind fs = BM_TARGET_FILE_SET_HEADERS) \<and>
               (src_kind s = BM_TARGET_SOURCE_CXX_MODULE_FILE_SET \<longrightarrow> fs_kind fs = BM_TARGET_FILE_SET_CXX_MODULES))) \<and>
         (\<forall>s\<in>set (dr_build_steps d). st_owner_target_name s \<noteq> [] \<longrightarrow> st_owner_target_name s \<in> names) \<and>
         (\<forall>r\<in>set (dr_install_rules d). ir_kind r = BM_INSTALL_RULE_TARGET \<longrightarrow> ir_item r \<in> names) \<and>
         (\<forall>x\<in>set (dr_exports d).
            (ex_kind x = BM_EXPORT_INSTALL \<longrightarrow>
               (\<exists>r\<in>set (dr_install_rules d). ir_kind r = BM_INSTALL_RULE_TARGET \<and> ir_export_name r = ex_name x)) \<and>
            (ex_kind x = BM_EXPORT_BUILD_TREE \<longrightarrow> set (ex_target_names x) \<subseteq> names)) \<and>
         (\<forall>g\<in>set (dr_cpack_groups d). cg_parent_group_name g \<noteq> [] \<longrightarrow> cg_parent_group_name g \<in> groups) \<and>
         (\<forall>c\<in>set (dr_cpack_components d).
            (cc_group_name c \<noteq> [] \<longrightarrow> cc_group_name c \<in> groups) \<and>
            set (cc_dependency_names c) \<subseteq> cc_name ` set (dr_cpack_components d) \<and>
            set (cc_install_type_names c) \<subseteq> cit_name ` set (dr_cpack_install_types d)))"

definition sound_target :: "bm_target \<Rightarrow> bool" where
  "sound_target t \<longleftrightarrow>
     (tg_kind t = BM_TARGET_INTERFACE_LIBRARY \<longrightarrow>
        tg_sources t = [] \<and> (\<forall>l\<in>set (tg_link_libraries t). li_visibility l \<noteq> BM_VISIBILITY_PRIVATE)) \<and>
     (tg_alias t \<longrightarrow> \<not> alias_has_payload t) \<and> (tg_imported t \<longrightarrow> \<not> imported_has_outputs t) \<and>
     (tg_imported_global t \<longrightarrow> tg_imported t)"

lemma all_nth: "(\<forall>i<length xs. P (xs ! i)) \<longleftrightarrow> (\<forall>x\<in>set xs. P x)"
  by (simp add: all_set_conv_all_nth)

lemma rows_all:
  "rows ident owner n xs \<Longrightarrow>
   (\<forall>i<length xs. ident (xs ! i) = i \<and> P (xs ! i) \<and> owner (xs ! i) < n) \<longleftrightarrow> (\<forall>x\<in>set xs. P x)"
  by (auto simp: rows_def all_set_conv_all_nth)

lemma dirs_built_ok:
  assumes "dirs_built ds stack root" "ds = dr_directories d"
  shows "\<forall>i<length ds. directory_ok d i (ds ! i)"
proof (intro allI impI)
  have chain: "i < length ds \<Longrightarrow> chain_ends ds (di_parent_id (ds ! i))" for i
  proof (induction i rule: less_induct)
    case (less i)
    show ?case
    proof (cases "di_parent_id (ds ! i) = BM_ID_INVALID")
      case True
      then show ?thesis by (simp add: chain_root)
    next
      case False
      then have p: "di_parent_id (ds ! i) < i" using assms(1) less.prems by (auto simp: dirs_built_def)
      have "chain_ends ds (di_parent_id (ds ! di_parent_id (ds ! i)))"
        by (rule less.IH [OF p]) (use p less.prems in simp)
      then show ?thesis using p less.prems False chain_parent by (meson less_trans)
    qed
  qed
  fix i assume i: "i < length ds"
  then have "di_id (ds ! i) = i" "di_owner_directory_id (ds ! i) = i" using assms(1) by (simp_all add: dirs_built_def)
  then show "directory_ok d i (ds ! i)" using chain [OF i] by (simp add: directory_ok_def assms(2))
qed

lemma rows_ids: "rows ident owner n xs \<Longrightarrow> length xs \<le> BM_ID_INVALID \<Longrightarrow> x \<in> set xs \<Longrightarrow> ident x \<noteq> BM_ID_INVALID"
  by (auto simp: rows_def in_set_conv_nth)

lemma find_install_type_names:
  "(\<And>r. r \<in> set rs \<Longrightarrow> cit_id r \<noteq> BM_ID_INVALID) \<Longrightarrow>
   find_install_type rs name \<noteq> BM_ID_INVALID \<longleftrightarrow> name \<in> cit_name ` set rs"
  by (induction rs) auto

lemma find_component_group_names:
  "(\<And>r. r \<in> set rs \<Longrightarrow> cg_id r \<noteq> BM_ID_INVALID) \<Longrightarrow>
   find_component_group rs name \<noteq> BM_ID_INVALID \<longleftrightarrow> name \<in> cg_name ` set rs"
  by (induction rs) auto

lemma find_component_names:
  "(\<And>r. r \<in> set rs \<Longrightarrow> cc_id r \<noteq> BM_ID_INVALID) \<Longrightarrow>
   find_component rs name \<noteq> BM_ID_INVALID \<longleftrightarrow> name \<in> cc_name ` set rs"
  by (induction rs) auto

lemma find_file_set_None: "find_file_set rs name = None \<longleftrightarrow> name \<notin> fs_name ` set rs"
  by (induction rs) auto

lemma find_file_set_Some:
  "distinct (map fs_name rs) \<Longrightarrow> find_file_set rs name = Some r \<longleftrightarrow> r \<in> set rs \<and> fs_name r = name"
  by (induction rs) (auto simp: image_iff)

lemma member_built:
  assumes "file_sets_built t" "s \<in> set (tg_source_records t)"
  shows "(src_file_set_name s \<noteq> [] \<longrightarrow> file_set_member_ok t s) \<longleftrightarrow>
    (\<forall>fs\<in>set (tg_file_sets t). fs_name fs = src_file_set_name s \<and> src_file_set_name s \<noteq> [] \<longrightarrow>
       (src_kind s = BM_TARGET_SOURCE_HEADER_FILE_SET \<longrightarrow> fs_kind fs = BM_TARGET_FILE_SET_HEADERS) \<and>
       (src_kind s = BM_TARGET_SOURCE_CXX_MODULE_FILE_SET \<longrightarrow> fs_kind fs = BM_TARGET_FILE_SET_CXX_MODULES))"
proof (cases "src_file_set_name s = []")
  case False
  then obtain fs where fs: "find_file_set (tg_file_sets t) (src_file_set_name s) = Some fs"
    using assms find_file_set_None [of "tg_file_sets t" "src_file_set_name s"] by (auto simp: file_sets_built_def)
  have d: "distinct (map fs_name (tg_file_sets t))" using assms(1) by (simp add: file_sets_built_def)
  let ?K = "\<lambda>g. (src_kind s = BM_TARGET_SOURCE_HEADER_FILE_SET \<longrightarrow> fs_kind g = BM_TARGET_FILE_SET_HEADERS) \<and>
    (src_kind s = BM_TARGET_SOURCE_CXX_MODULE_FILE_SET \<longrightarrow> fs_kind g = BM_TARGET_FILE_SET_CXX_MODULES)"
  have only: "g = fs" if "g \<in> set (tg_file_sets t)" "fs_name g = src_file_set_name s" for g
    using find_file_set_Some [OF d, of "src_file_set_name s" g] that fs by simp
  have fs_in: "fs \<in> set (tg_file_sets t)" "fs_name fs = src_file_set_name s"
    using find_file_set_Some [OF d] fs by blast+
  have "(\<forall>g\<in>set (tg_file_sets t). fs_name g = src_file_set_name s \<and> src_file_set_name s \<noteq> [] \<longrightarrow> ?K g) \<longleftrightarrow> ?K fs"
    using only fs_in False by blast
  then show ?thesis unfolding file_set_member_ok_def fs using False by simp
qed simp

text \<open>What the invariant says of a draft on its own.\<close>

definition draft_built :: "build_model_draft \<Rightarrow> bool" where
  "draft_built d \<longleftrightarrow>
     dirs_built (dr_directories d) [] (dr_root_directory_id d) \<and> tables_built (length (dr_directories d)) d \<and>
     small BM_ID_INVALID d"

lemma built_draft: "built k b \<Longrightarrow> k \<le> BM_ID_INVALID \<Longrightarrow> directory_stack b = [] \<Longrightarrow> draft_built (bb_draft b)"
  using small_mono by (auto simp: built_def draft_built_def)

lemma draft_built_targets:
  assumes "draft_built d"
  shows "targets_built (length (dr_directories d)) (dr_targets d) (target_name_index d)"
    "length (dr_targets d) \<le> BM_ID_INVALID"
  using assms by (simp_all add: draft_built_def tables_built_def small_def)

lemma draft_built_owner:
  assumes "draft_built d"
  shows "owner_ok d owner \<longleftrightarrow> owner < length (dr_directories d)"
  using assms by (auto simp: draft_built_def small_def owner_ok_def)

lemma structure_built:
  assumes "draft_built d"
  shows "structure_ok d \<longleftrightarrow> complete d"
proof -
  let ?n = "length (dr_directories d)"
  have t: "tables_built ?n d" and dirs: "dirs_built (dr_directories d) [] (dr_root_directory_id d)"
    using assms by (simp_all add: draft_built_def)
  have root: "dr_root_directory_id d \<noteq> BM_ID_INVALID \<longleftrightarrow> dr_directories d \<noteq> []"
    using dirs by (simp add: dirs_built_def BM_ID_INVALID_def)
  have names: "distinct (map tg_name (dr_targets d))" using t by (simp add: tables_built_def targets_built_def)
  have keys: "\<And>i. i < length (dr_replay_actions d) \<Longrightarrow> ra_action_key (dr_replay_actions d ! i) \<noteq> []"
    using t by (auto simp: tables_built_def actions_built_def) (metis image_eqI nth_mem)
  have r: "rows tg_id tg_owner_directory_id ?n (dr_targets d)" "rows st_id st_owner_directory_id ?n (dr_build_steps d)"
    "rows ra_id ra_owner_directory_id ?n (dr_replay_actions d)" "rows te_id te_owner_directory_id ?n (dr_tests d)"
    "rows ir_id ir_owner_directory_id ?n (dr_install_rules d)" "rows ex_id ex_owner_directory_id ?n (dr_exports d)"
    "rows pk_id pk_owner_directory_id ?n (dr_packages d)" "rows cit_id cit_owner_directory_id ?n (dr_cpack_install_types d)"
    "rows cg_id cg_owner_directory_id ?n (dr_cpack_groups d)" "rows cc_id cc_owner_directory_id ?n (dr_cpack_components d)"
    "rows cp_id cp_owner_directory_id ?n (dr_cpack_packages d)"
    using t by (simp_all add: tables_built_def targets_built_def steps_built_def actions_built_def)
  show ?thesis
    unfolding structure_ok_def complete_def target_ok_def replay_ok_def cpack_package_ok_def draft_built_owner [OF assms]
      all_nth [symmetric]
    using root names keys dirs_built_ok [OF dirs refl] r [unfolded rows_def] by simp
qed

lemma resolution_built:
  assumes "draft_built d"
  shows "resolution_ok d \<longleftrightarrow> resolves d"
proof -
  note known = find_target_cases(3) [OF draft_built_targets [OF assms]]
  have t: "tables_built (length (dr_directories d)) d" using assms by (simp add: draft_built_def)
  have r: "rows cg_id cg_owner_directory_id (length (dr_directories d)) (dr_cpack_groups d)"
    "rows cc_id cc_owner_directory_id (length (dr_directories d)) (dr_cpack_components d)"
    "rows cit_id cit_owner_directory_id (length (dr_directories d)) (dr_cpack_install_types d)"
    using t by (simp_all add: tables_built_def)
  have n: "length (dr_cpack_groups d) \<le> BM_ID_INVALID" "length (dr_cpack_components d) \<le> BM_ID_INVALID"
    "length (dr_cpack_install_types d) \<le> BM_ID_INVALID" using assms by (simp_all add: draft_built_def small_def)
  have groups: "bm_draft_find_component_group_id d name \<noteq> BM_ID_INVALID \<longleftrightarrow> name \<in> cg_name ` set (dr_cpack_groups d)" for name
    unfolding bm_draft_find_component_group_id_def
    by (rule find_component_group_names) (rule rows_ids [OF r(1) n(1)])
  have components: "bm_draft_find_component_id d name \<noteq> BM_ID_INVALID \<longleftrightarrow> name \<in> cc_name ` set (dr_cpack_components d)" for name
    unfolding bm_draft_find_component_id_def
    by (rule find_component_names) (rule rows_ids [OF r(2) n(2)])
  have types: "bm_draft_find_install_type_id d name \<noteq> BM_ID_INVALID \<longleftrightarrow> name \<in> cit_name ` set (dr_cpack_install_types d)" for name
    unfolding bm_draft_find_install_type_id_def
    by (rule find_install_type_names) (rule rows_ids [OF r(3) n(3)])
  have sets: "\<And>x. x \<in> set (dr_targets d) \<Longrightarrow> file_sets_built x"
    using t by (simp add: tables_built_def targets_built_def)
  have members: "(\<forall>s\<in>set (tg_source_records x). src_file_set_name s \<noteq> [] \<longrightarrow> file_set_member_ok x s) \<longleftrightarrow>
      (\<forall>s\<in>set (tg_source_records x). \<forall>fs\<in>set (tg_file_sets x). fs_name fs = src_file_set_name s \<and> src_file_set_name s \<noteq> [] \<longrightarrow>
         (src_kind s = BM_TARGET_SOURCE_HEADER_FILE_SET \<longrightarrow> fs_kind fs = BM_TARGET_FILE_SET_HEADERS) \<and>
         (src_kind s = BM_TARGET_SOURCE_CXX_MODULE_FILE_SET \<longrightarrow> fs_kind fs = BM_TARGET_FILE_SET_CXX_MODULES))"
    if "x \<in> set (dr_targets d)" for x
    by (rule ball_cong [OF refl]) (rule member_built [OF sets [OF that]])
  show ?thesis
    unfolding resolution_ok_def resolves_def Let_def known groups components types subset_iff Ball_def [symmetric]
    using members by (simp cong: ball_cong)
qed

lemma semantic_built: "file_sets_built t \<Longrightarrow> semantic_ok t \<longleftrightarrow> sound_target t"
  by (simp add: semantic_ok_def sound_target_def file_sets_built_def)

lemma draft_ok_built:
  assumes "draft_built d"
  shows "draft_ok d"
proof -
  note t = draft_built_targets [OF assms]
  have "map ne_id (target_name_index d) = [0..<length (dr_targets d)]"
    using t(1) by (simp add: targets_built_def index_built_def)
  then have "ne_id e \<in> set [0..<length (dr_targets d)]" if "e \<in> set (target_name_index d)" for e
    using that by (metis image_eqI list.set_map)
  with t(2) show ?thesis by (simp add: draft_ok_def)
qed

lemma finalized:
  assumes "bm_builder_apply_stream s (bm_builder_create log) = (True, b)" "bm_builder_finalize b = (Some d, b')"
    "length (es_items s) \<le> BM_ID_INVALID"
  shows "draft_built d" "nested (walk_of (es_items s)) b" "directory_stack b = []" "d = bb_draft b"
proof -
  show fin: "directory_stack b = []" "d = bb_draft b"
    using assms(2) by (auto simp: bm_builder_finalize_def split: if_splits)
  have "built (length (es_items s)) b"
    using built_apply_events [OF built_create, of "es_items s" log] assms(1,3) by (simp add: bm_builder_apply_stream_def)
  then show "draft_built d" using built_draft [OF _ assms(3) fin(1)] fin(2) by simp
  show "nested (walk_of (es_items s)) b"
    using nested_events [OF nested_create built_create, of "es_items s" log b] assms(1,3)
    by (simp add: bm_builder_apply_stream_def)
qed

section \<open>Properties\<close>

text \<open>
  C14. A failing event does no harm: when \<open>bm_builder_apply_event\<close> fails, draft and directory stack
  are what they were, except for the mark that the draft has semantic entities, exactly one error is
  reported, with the origin and the kind of the event, and nothing happens after it; when it
  succeeds, the builder is still in order.
\<close>

theorem event_failure_harmless:
  assumes "\<not> has_fatal_error b"
  shows "case bm_builder_apply_event ev b of (ok, b') \<Rightarrow>
    if ok then \<not> has_fatal_error b'
    else bb_draft b' = (bb_draft b)\<lparr>dr_has_semantic_entities := True\<rparr> \<and> directory_stack b' = directory_stack b \<and>
      (\<exists>cause. bb_sink b' = bb_sink b @ [(DIAG_SEV_ERROR, bm_provenance_from_event ev, event_kind_name (ev_kind ev), cause)]) \<and>
      (\<forall>evs. apply_events evs b' = (evs = [], b')) \<and> bm_builder_finalize b' = (None, b')"
proof -
  let ?b = "b\<lparr>bb_draft := (bb_draft b)\<lparr>dr_has_semantic_entities := True\<rparr>\<rparr>"
  have stuck: "apply_events evs c = (evs = [], c)" if "has_fatal_error c" for evs c
    using that by (cases evs) (simp_all add: bm_builder_apply_event_def)
  show ?thesis
  proof (cases "event_kind_has_role (ev_kind ev) EVENT_ROLE_BUILD_SEMANTIC")
    case True
    obtain ok b' where h: "handle_event ev ?b = (ok, b')" by (rule prod.exhaust)
    then have a: "bm_builder_apply_event ev b = (ok, b')"
      using assms True semantic_supported [OF True] by (simp add: bm_builder_apply_event_def)
    have "fails_cleanly ev ?b (ok, b')" using fails_handle_event [of ev ?b] h by simp
    then show ?thesis unfolding a
      using assms stuck by (cases ok) (auto simp: fails_cleanly_def reported_def bm_builder_finalize_def)
  qed (simp add: bm_builder_apply_event_def assms)
qed

text \<open>Two directories, one in the other, and a target with a source.\<close>

definition sample_event :: "nat \<Rightarrow> event_payload \<Rightarrow> bm_event" where
  "sample_event n p = \<lparr>ev_version = 1, ev_seq = n, ev_file_path = ''CMakeLists.txt'', ev_line = n, ev_col = 1, ev_payload = p\<rparr>"

definition sample_stream :: event_stream where
  "sample_stream =
     \<lparr>es_items =
        [sample_event 1 (Directory_Event (Ev_Directory_Enter ''/s'' ''/b'')),
         sample_event 2 (Target_Event (Ev_Target_Declare \<lparr>td_name = ''app'', td_target_type = EV_TARGET_EXECUTABLE,
           td_imported = False, td_alias = False, td_alias_of = []\<rparr>)),
         sample_event 3 (Target_Event (Ev_Target_Add_Source \<lparr>as_target_name = ''app'', as_path = ''/s/m.c'',
           as_visibility = EV_VISIBILITY_PRIVATE, as_source_kind = EVENT_TARGET_SOURCE_REGULAR, as_file_set_name = []\<rparr>)),
         sample_event 4 (Directory_Event (Ev_Directory_Enter ''/s/sub'' ''/b/sub'')),
         sample_event 5 (Directory_Event (Ev_Directory_Leave ''/s/sub'' ''/b/sub'')),
         sample_event 6 (Directory_Event (Ev_Directory_Leave ''/s'' ''/b''))],
      es_next_seq = 7\<rparr>"

lemma sample_roles:
  "event_kind_has_role ''directory_enter'' EVENT_ROLE_BUILD_SEMANTIC" "event_kind_has_role ''directory_leave'' EVENT_ROLE_BUILD_SEMANTIC"
  "event_kind_has_role ''target_declare'' EVENT_ROLE_BUILD_SEMANTIC" "event_kind_has_role ''target_add_source'' EVENT_ROLE_BUILD_SEMANTIC"
  by code_simp+

lemma sample_run:
  "\<exists>b. bm_builder_apply_stream sample_stream (bm_builder_create []) = (True, b) \<and> bm_builder_finalize b = (Some (bb_draft b), b) \<and>
     complete (bb_draft b) \<and> resolves (bb_draft b) \<and> (\<forall>t\<in>set (dr_targets (bb_draft b)). sound_target t) \<and>
     length (dr_targets (bb_draft b)) = 1 \<and> explicit_dependency_names (dr_targets (bb_draft b) ! 0) = [] \<and>
     map row_of (dr_directories (bb_draft b)) = [(''/s'', ''/b'', BM_ID_INVALID), (''/s/sub'', ''/b/sub'', 0)]"
  by (simp add: bm_builder_apply_stream_def sample_stream_def bm_builder_apply_event_def sample_event_def ev_kind_def payload_kind_def
    sample_roles semantic_supported handle_event_def bm_builder_create_def bm_builder_handle_directory_event_def Let_def
    enter_directory_def leave_directory_def bm_builder_handle_target_event_def handle_target_declare_def
    bm_draft_find_target_def bm_draft_find_target_id_def bm_target_ensure_placeholder_def bm_builder_current_directory_id_def
    modify_target_def update_at_def with_target_def target_add_source_def bm_target_append_source_record_def bm_id_def
    bm_draft_get_directory_def BM_ID_INVALID_def bm_add_name_index_def declare_target_def on_draft_def
    bm_builder_finalize_def complete_def resolves_def sound_target_def row_of_def)

theorem event_failure_harmless_witness:
  "\<exists>b'. bm_builder_apply_event (sample_event 1 (Directory_Event (Ev_Directory_Leave ''/s'' ''/b''))) (bm_builder_create []) = (False, b') \<and>
     (\<exists>report. bb_sink b' = [report]) \<and> bm_builder_finalize b' = (None, b')"
proof -
  let ?ev = "sample_event 1 (Directory_Event (Ev_Directory_Leave ''/s'' ''/b''))"
  have "\<not> has_fatal_error (bm_builder_create [])" by (simp add: bm_builder_create_def)
  note h = event_failure_harmless [OF this, of ?ev]
  have "\<not> fst (bm_builder_apply_event ?ev (bm_builder_create []))"
    by (simp add: bm_builder_apply_event_def sample_event_def ev_kind_def payload_kind_def sample_roles semantic_supported
        handle_event_def bm_builder_create_def bm_builder_handle_directory_event_def Let_def leave_directory_def
        bm_builder_current_directory_id_def bm_builder_error_def)
  with h show ?thesis by (auto simp: bm_builder_create_def split: prod.splits)
qed

text \<open>
  C12. The directories of a replayed stream: \<open>bm_builder_apply_stream\<close> and \<open>bm_builder_finalize\<close>
  accept a stream only if its enter and leave events are those of walking a forest of directories,
  and then the directories of the draft are the nodes of that forest in the order of the walk, each
  with its parent; a directory without one is a root.
\<close>

theorem replayed_directories:
  assumes "bm_builder_apply_stream s (bm_builder_create log) = (True, b)" "bm_builder_finalize b = (Some d, b')"
    "length (es_items s) \<le> BM_ID_INVALID"
  shows "\<exists>ts. walk_of (es_items s) = forest_events ts \<and> map row_of (dr_directories d) = tree_rows BM_ID_INVALID 0 ts"
proof -
  obtain ts fs where z: "walk_of (es_items s) = open_events ts fs" "map row_of (dr_directories d) = open_rows ts fs"
    "open_ids ts fs = []"
    using finalized(2-4) [OF assms] unfolding nested_def by metis
  then have "fs = []" by (cases fs) simp_all
  with z show ?thesis by auto
qed

theorem replayed_directories_witness:
  "\<exists>ts. forest_events ts = [Ev_Directory_Enter ''/s'' ''/b'', Ev_Directory_Enter ''/s/sub'' ''/b/sub'',
      Ev_Directory_Leave ''/s/sub'' ''/b/sub'', Ev_Directory_Leave ''/s'' ''/b''] \<and>
     tree_rows BM_ID_INVALID 0 ts = [(''/s'', ''/b'', BM_ID_INVALID), (''/s/sub'', ''/b/sub'', 0)]"
proof -
  obtain b where run: "bm_builder_apply_stream sample_stream (bm_builder_create []) = (True, b)"
    "bm_builder_finalize b = (Some (bb_draft b), b)"
    "map row_of (dr_directories (bb_draft b)) = [(''/s'', ''/b'', BM_ID_INVALID), (''/s/sub'', ''/b/sub'', 0)]"
    using sample_run by (elim exE conjE) (rule that)
  have "length (es_items sample_stream) \<le> BM_ID_INVALID" by (simp add: sample_stream_def BM_ID_INVALID_def)
  from replayed_directories [OF run(1,2) this] run(3) show ?thesis
    by (auto simp: walk_of_def sample_stream_def sample_event_def)
qed

text \<open>
  C9. Replaying and validating together: on the draft of a replayed stream \<open>bm_validate_draft\<close>
  tests only what the events say. It accepts exactly the drafts that are complete (no record lacks a
  required field, every target was declared), in which every name resolves, whose dependencies have
  no cycle and whose targets are sound; identifiers, owners, parents, the index of targets and the
  names of targets and file sets are in order already.
\<close>

theorem replayed_draft_verdict:
  assumes "bm_builder_apply_stream s (bm_builder_create log) = (True, b)" "bm_builder_finalize b = (Some d, b')"
    "length (es_items s) \<le> BM_ID_INVALID"
  shows "\<exists>ok new. bm_validate_draft (Some d) log' = (ok, log' @ new) \<and>
    (ok \<longleftrightarrow> complete d \<and> resolves d \<and> acyclic (dep_graph d) \<and> (\<forall>t\<in>set (dr_targets d). sound_target t))"
proof -
  note d = finalized(1) [OF assms]
  have sets: "\<And>t. t \<in> set (dr_targets d) \<Longrightarrow> file_sets_built t"
    using draft_built_targets(1) [OF d] by (simp add: targets_built_def)
  show ?thesis
    using validate_draft_checks [OF draft_ok_built [OF d], of log'] sets
    unfolding structure_built [OF d] resolution_built [OF d] by (auto simp: semantic_built)
qed

theorem replayed_draft_verdict_witness:
  "\<exists>b new. bm_builder_apply_stream sample_stream (bm_builder_create []) = (True, b) \<and>
     bm_validate_draft (Some (bb_draft b)) [] = (True, new)"
proof -
  obtain b where run: "bm_builder_apply_stream sample_stream (bm_builder_create []) = (True, b)"
    "bm_builder_finalize b = (Some (bb_draft b), b)" "complete (bb_draft b)" "resolves (bb_draft b)"
    "\<forall>t\<in>set (dr_targets (bb_draft b)). sound_target t" "length (dr_targets (bb_draft b)) = 1"
    "explicit_dependency_names (dr_targets (bb_draft b) ! 0) = []"
    using sample_run by (elim exE conjE) (rule that)
  have n: "length (es_items sample_stream) \<le> BM_ID_INVALID" by (simp add: sample_stream_def BM_ID_INVALID_def)
  have "dep_graph (bb_draft b) = {}" using run(6,7) by (auto simp: dep_graph_def edge_rel_def)
  then have "acyclic (dep_graph (bb_draft b))" by (simp add: acyclic_def)
  with replayed_draft_verdict [OF run(1,2) n, of "[]"] run show ?thesis by auto
qed

end
