(* ===== verification/Bm_Freeze.thy ===== *)
theory Bm_Freeze
  imports Bm_Builder Bm_Validate Genex_Scan
begin

text \<open>
  The freeze, \<open>src_v2/build_model/build_model_freeze.c\<close>: it copies a validated draft into a build
  model, resolving names to identifiers and raw paths to effective ones on the way, and hands the
  model to the checks of the build graph. Copies are the records themselves; a copying function
  appears only where it changes a field. A step returns the changed model, or the reason of its
  failure: a place and a cause for the diagnostic, or nothing when the code fails without one. The
  two views that the checks ask of \<open>build_model_query.c\<close> are parameters, here of the model too.
\<close>

section \<open>Failures\<close>

type_synonym freeze_failure = "(bm_provenance \<times> string) option"

abbreviation refuse :: "bm_provenance \<Rightarrow> string \<Rightarrow> freeze_failure + 'a" where
  "refuse p cause \<equiv> Inl (Some (p, cause))"

fun and_then :: "'e + 'a \<Rightarrow> ('a \<Rightarrow> 'e + 'b) \<Rightarrow> 'e + 'b" where
  "and_then (Inl e) f = Inl e"
| "and_then (Inr x) f = f x"

text \<open>The loops over an array that end at the first failure, building an array or a state.\<close>

fun map_until :: "('a \<Rightarrow> 'e + 'b) \<Rightarrow> 'a list \<Rightarrow> 'e + 'b list" where
  "map_until f [] = Inr []"
| "map_until f (x # xs) = and_then (f x) (\<lambda>y. and_then (map_until f xs) (\<lambda>ys. Inr (y # ys)))"

fun fold_until :: "('a \<Rightarrow> 's \<Rightarrow> 'e + 's) \<Rightarrow> 'a list \<Rightarrow> 's \<Rightarrow> 'e + 's" where
  "fold_until f [] s = Inr s"
| "fold_until f (x # xs) s = and_then (f x s) (fold_until f xs)"

section \<open>Invariants of the draft\<close>

fun each_row :: "('a \<Rightarrow> bm_provenance) \<Rightarrow> (nat \<Rightarrow> 'a \<Rightarrow> string option) \<Rightarrow> nat \<Rightarrow> 'a list \<Rightarrow> freeze_failure + unit" where
  "each_row pv fault i [] = Inr ()"
| "each_row pv fault i (x # xs) = (case fault i x of Some cause \<Rightarrow> refuse (pv x) cause | None \<Rightarrow> each_row pv fault (Suc i) xs)"

definition row_fault ::
  "build_model_draft \<Rightarrow> ('a \<Rightarrow> nat) \<Rightarrow> ('a \<Rightarrow> nat) \<Rightarrow> string \<Rightarrow> string \<Rightarrow> nat \<Rightarrow> 'a \<Rightarrow> string option" where
  "row_fault d ident owner mismatch invalid i x =
     (if ident x \<noteq> i then Some mismatch
      else if owner x \<noteq> BM_ID_INVALID \<and> owner x \<ge> length (dr_directories d) then Some invalid
      else None)"

definition bm_freeze_check_invariants :: "build_model_draft \<Rightarrow> freeze_failure + unit" where
  "bm_freeze_check_invariants d =
     (if dr_has_semantic_entities d \<and> dr_root_directory_id d = BM_ID_INVALID then
        refuse empty_provenance ''draft is missing root directory''
      else and_then (each_row di_provenance
        (\<lambda>i r. if di_id r \<noteq> i then Some ''directory ids are not contiguous'' else None) 0 (dr_directories d)) (\<lambda>_.
      and_then (each_row tg_provenance
        (row_fault d tg_id tg_owner_directory_id ''target ids are not contiguous''
          ''target owner_directory_id is invalid'') 0 (dr_targets d)) (\<lambda>_.
      and_then (each_row st_provenance
        (row_fault d st_id st_owner_directory_id ''build step ids are not contiguous''
          ''build step owner_directory_id is invalid'') 0 (dr_build_steps d)) (\<lambda>_.
      and_then (each_row ra_provenance
        (row_fault d ra_id ra_owner_directory_id ''replay action ids are not contiguous''
          ''replay action owner_directory_id is invalid'') 0 (dr_replay_actions d)) (\<lambda>_.
      each_row ex_provenance
        (row_fault d ex_id ex_owner_directory_id ''export ids are not contiguous''
          ''export owner_directory_id is invalid'') 0 (dr_exports d))))))"

section \<open>Copies\<close>

text \<open>A name that has to resolve, with the cause to report when it does not.\<close>

definition resolved :: "(string_view \<Rightarrow> nat) \<Rightarrow> bm_provenance \<Rightarrow> string \<Rightarrow> string_view \<Rightarrow> freeze_failure + nat" where
  "resolved look p cause name = (let i = look name in if i = BM_ID_INVALID then refuse p cause else Inr i)"

text \<open>The same for a name that may be empty, for none.\<close>

definition resolved_if ::
  "(string_view \<Rightarrow> nat) \<Rightarrow> bm_provenance \<Rightarrow> string \<Rightarrow> string_view \<Rightarrow> freeze_failure + nat" where
  "resolved_if look p cause name =
     (if bm_string_view_is_empty name then Inr BM_ID_INVALID else resolved look p cause name)"

definition bm_clone_target_source_record :: "bm_target_source \<Rightarrow> bm_target_source" where
  "bm_clone_target_source_record s = s\<lparr>src_producer_step_id := BM_ID_INVALID\<rparr>"

definition bm_clone_target_file_set :: "bm_file_set \<Rightarrow> bm_file_set" where
  "bm_clone_target_file_set fs = fs\<lparr>fs_source_indices := [], fs_raw_files := [], fs_effective_files := []\<rparr>"

definition bm_clone_build_step_dependency :: "bm_step_dependency \<Rightarrow> bm_step_dependency" where
  "bm_clone_build_step_dependency dep =
     dep\<lparr>sd_target_id := BM_ID_INVALID, sd_producer_step_id := BM_ID_INVALID, sd_file_dependency := []\<rparr>"

definition clone_alias :: "build_model_draft \<Rightarrow> bm_target \<Rightarrow> bm_target \<Rightarrow> freeze_failure + bm_target" where
  "clone_alias d src t =
     (if bm_string_view_is_empty (tg_alias_of_name src) then Inr t
      else and_then (resolved (bm_draft_find_target_id d) (tg_provenance src)
                      ''alias target could not be resolved during freeze'' (tg_alias_of_name src)) (\<lambda>i.
        let aliased = dr_targets d ! i in
        Inr (t\<lparr>tg_alias_of_id := i, tg_kind := tg_kind aliased,
               tg_alias_global := (if tg_imported aliased then tg_imported_global aliased else True)\<rparr>)))"

definition clone_target :: "build_model_draft \<Rightarrow> bm_target \<Rightarrow> freeze_failure + bm_target" where
  "clone_target d src =
     and_then (clone_alias d src
       (src\<lparr>tg_alias_of_id := BM_ID_INVALID,
            tg_source_records := map bm_clone_target_source_record (tg_source_records src),
            tg_file_sets := map bm_clone_target_file_set (tg_file_sets src)\<rparr>)) (\<lambda>t.
     and_then (map_until (resolved (bm_draft_find_target_id d) (tg_provenance src)
                           ''target dependency could not be resolved during freeze'')
                (explicit_dependency_names src)) (\<lambda>deps.
     Inr (t\<lparr>tg_explicit_dependency_ids := deps\<rparr>)))"

definition bm_clone_targets :: "build_model_draft \<Rightarrow> build_model \<Rightarrow> freeze_failure + build_model" where
  "bm_clone_targets d m =
     and_then (map_until (clone_target d) (dr_targets d)) (\<lambda>ts.
     Inr (m\<lparr>targets := ts,
            mo_target_name_index := fold (\<lambda>t. bm_add_name_index (tg_name t) (tg_id t)) ts (mo_target_name_index m)\<rparr>))"

definition clone_build_step :: "bm_build_step \<Rightarrow> bm_build_step" where
  "clone_build_step s =
     s\<lparr>st_owner_target_id := BM_ID_INVALID, st_resolved_targets := [], st_resolved_producers := [],
       st_resolved_files := [], st_dependencies := map bm_clone_build_step_dependency (st_dependencies s)\<rparr>"

definition bm_clone_build_steps :: "build_model_draft \<Rightarrow> build_model \<Rightarrow> build_model" where
  "bm_clone_build_steps d m = m\<lparr>build_steps := map clone_build_step (dr_build_steps d)\<rparr>"

definition bm_clone_replay_actions :: "build_model_draft \<Rightarrow> build_model \<Rightarrow> build_model" where
  "bm_clone_replay_actions d m = m\<lparr>mo_replay_actions := map (\<lambda>a. a\<lparr>ra_action_key := []\<rparr>) (dr_replay_actions d)\<rparr>"

definition bm_clone_tests :: "build_model_draft \<Rightarrow> build_model \<Rightarrow> build_model" where
  "bm_clone_tests d m =
     m\<lparr>mo_tests := dr_tests d,
       mo_test_name_index := fold (\<lambda>t. bm_add_name_index (te_name t) (te_id t)) (dr_tests d) (mo_test_name_index m)\<rparr>"

definition clone_install_rule :: "build_model_draft \<Rightarrow> bm_install_rule \<Rightarrow> freeze_failure + bm_install_rule" where
  "clone_install_rule d src =
     (if ir_kind src = BM_INSTALL_RULE_TARGET then
        and_then (resolved (bm_draft_find_target_id d) (ir_provenance src)
                   ''install rule target could not be resolved during freeze'' (ir_item src)) (\<lambda>i.
        Inr (src\<lparr>ir_resolved_target_id := i\<rparr>))
      else Inr (src\<lparr>ir_resolved_target_id := BM_ID_INVALID\<rparr>))"

definition bm_clone_install_rules :: "build_model_draft \<Rightarrow> build_model \<Rightarrow> freeze_failure + build_model" where
  "bm_clone_install_rules d m =
     and_then (map_until (clone_install_rule d) (dr_install_rules d)) (\<lambda>rules. Inr (m\<lparr>mo_install_rules := rules\<rparr>))"

text \<open>The targets of an exported set: those of its install rules, or those named.\<close>

definition export_rule_target :: "string_view \<Rightarrow> bm_install_rule \<Rightarrow> nat list \<Rightarrow> freeze_failure + nat list" where
  "export_rule_target name rule ids =
     (if ir_kind rule \<noteq> BM_INSTALL_RULE_TARGET \<or> \<not> nob_sv_eq (ir_export_name rule) name then Inr ids
      else if ir_resolved_target_id rule = BM_ID_INVALID then
        refuse (ir_provenance rule) ''install export target could not be resolved during freeze''
      else Inr (ids @ [ir_resolved_target_id rule]))"

definition clone_export :: "build_model_draft \<Rightarrow> build_model \<Rightarrow> bm_export \<Rightarrow> freeze_failure + bm_export" where
  "clone_export d m src =
     and_then
       (case ex_kind src of
          BM_EXPORT_INSTALL \<Rightarrow> fold_until (export_rule_target (ex_name src)) (mo_install_rules m) []
        | BM_EXPORT_BUILD_TREE \<Rightarrow>
            map_until (resolved (bm_draft_find_target_id d) (ex_provenance src)
                        ''build-tree export target could not be resolved during freeze'') (ex_target_names src)
        | BM_EXPORT_PACKAGE_REGISTRY \<Rightarrow> Inr [])
       (\<lambda>ids. Inr (src\<lparr>ex_target_ids := ids\<rparr>))"

definition bm_clone_exports :: "build_model_draft \<Rightarrow> build_model \<Rightarrow> freeze_failure + build_model" where
  "bm_clone_exports d m = and_then (map_until (clone_export d m) (dr_exports d)) (\<lambda>xs. Inr (m\<lparr>mo_exports := xs\<rparr>))"

definition bm_clone_packages :: "build_model_draft \<Rightarrow> build_model \<Rightarrow> build_model" where
  "bm_clone_packages d m =
     m\<lparr>mo_packages := dr_packages d,
       mo_package_name_index := fold (\<lambda>p. bm_add_name_index (pk_package_name p) (pk_id p)) (dr_packages d) (mo_package_name_index m)\<rparr>"

definition clone_cpack_group :: "build_model_draft \<Rightarrow> bm_cpack_group \<Rightarrow> freeze_failure + bm_cpack_group" where
  "clone_cpack_group d src =
     and_then (resolved_if (bm_draft_find_component_group_id d) (cg_provenance src)
                ''component group parent could not be resolved during freeze'' (cg_parent_group_name src)) (\<lambda>i.
     Inr (src\<lparr>cg_parent_group_id := i\<rparr>))"

definition clone_cpack_component :: "build_model_draft \<Rightarrow> bm_cpack_component \<Rightarrow> freeze_failure + bm_cpack_component" where
  "clone_cpack_component d src =
     and_then (resolved_if (bm_draft_find_component_group_id d) (cc_provenance src)
                ''component group could not be resolved during freeze'' (cc_group_name src)) (\<lambda>g.
     and_then (map_until (resolved (bm_draft_find_component_id d) (cc_provenance src)
                ''component dependency could not be resolved during freeze'') (cc_dependency_names src)) (\<lambda>deps.
     and_then (map_until (resolved (bm_draft_find_install_type_id d) (cc_provenance src)
                ''component install type could not be resolved during freeze'') (cc_install_type_names src)) (\<lambda>types.
     Inr (src\<lparr>cc_group_id := g, cc_dependency_ids := deps, cc_install_type_ids := types\<rparr>))))"

definition bm_clone_cpack :: "build_model_draft \<Rightarrow> build_model \<Rightarrow> freeze_failure + build_model" where
  "bm_clone_cpack d m =
     and_then (map_until (clone_cpack_group d) (dr_cpack_groups d)) (\<lambda>gs.
     and_then (map_until (clone_cpack_component d) (dr_cpack_components d)) (\<lambda>cs.
     Inr (m\<lparr>mo_cpack_install_types := dr_cpack_install_types d, mo_cpack_groups := gs, mo_cpack_components := cs,
            mo_cpack_packages := dr_cpack_packages d\<rparr>)))"

section \<open>Effective paths of build steps\<close>

definition rebase_if_set :: "string_view \<Rightarrow> string_view \<Rightarrow> string_view" where
  "rebase_if_set base path = (if bm_string_view_is_empty path then path else bm_path_rebase base path)"

definition step_effective_paths ::
  "build_model_draft \<Rightarrow> bm_directory list \<Rightarrow> bm_build_step \<Rightarrow> freeze_failure + bm_build_step" where
  "step_effective_paths d ds s =
     (if st_owner_directory_id s \<ge> length ds then Inl None
      else and_then
        (if bm_string_view_is_empty (st_owner_target_name s) then Inr (st_owner_target_id s)
         else resolved (bm_draft_find_target_id d) (st_provenance s)
                ''build step owner target could not be resolved during freeze'' (st_owner_target_name s)) (\<lambda>i.
        let base = di_binary_dir (ds ! st_owner_directory_id s) in
        Inr (s\<lparr>st_owner_target_id := i,
               st_working_directory := rebase_if_set base (st_working_directory s),
               st_depfile := rebase_if_set base (st_depfile s),
               effective_outputs := effective_outputs s @ map (bm_path_rebase base) (st_raw_outputs s),
               effective_byproducts := effective_byproducts s @ map (bm_path_rebase base) (st_raw_byproducts s)\<rparr>)))"

definition bm_resolve_build_step_effective_paths ::
  "build_model_draft \<Rightarrow> build_model \<Rightarrow> freeze_failure + build_model" where
  "bm_resolve_build_step_effective_paths d m =
     and_then (map_until (step_effective_paths d (mo_directories m)) (build_steps m)) (\<lambda>ss. Inr (m\<lparr>build_steps := ss\<rparr>))"

section \<open>Targets of link items\<close>

fun follow_alias :: "bm_target list \<Rightarrow> nat \<Rightarrow> nat \<Rightarrow> nat" where
  "follow_alias ts 0 cur = BM_ID_INVALID"
| "follow_alias ts (Suc remaining) cur =
     (if cur = BM_ID_INVALID then BM_ID_INVALID
      else if \<not> tg_alias (ts ! cur) then cur
      else follow_alias ts remaining (tg_alias_of_id (ts ! cur)))"

definition bm_freeze_resolve_alias_target_id :: "build_model \<Rightarrow> nat \<Rightarrow> nat" where
  "bm_freeze_resolve_alias_target_id m i = follow_alias (targets m) (length (targets m)) i"

text \<open>The target a name stands for, behind its aliases.\<close>

definition referenced_target :: "build_model_draft \<Rightarrow> build_model \<Rightarrow> string_view \<Rightarrow> nat" where
  "referenced_target d m name =
     (let i = bm_draft_find_target_id d name in
      if i \<noteq> BM_ID_INVALID then bm_freeze_resolve_alias_target_id m i else i)"

definition resolve_link_item :: "build_model_draft \<Rightarrow> build_model \<Rightarrow> bm_link_item \<Rightarrow> bm_link_item" where
  "resolve_link_item d m l =
     (if lm_kind (li_semantic l) \<noteq> EVENT_LINK_ITEM_TARGET_REF \<or> length (lm_target_name (li_semantic l)) = 0 then l
      else l\<lparr>li_target_id := referenced_target d m (lm_target_name (li_semantic l))\<rparr>)"

definition bm_resolve_link_item_target_ids :: "build_model_draft \<Rightarrow> build_model \<Rightarrow> build_model" where
  "bm_resolve_link_item_target_ids d m =
     (let resolve = map (resolve_link_item d m) in
      m\<lparr>targets := map (\<lambda>t. t\<lparr>tg_link_libraries := resolve (tg_link_libraries t)\<rparr>) (targets m),
        mo_directories := map (\<lambda>r. r\<lparr>di_link_libraries := resolve (di_link_libraries r)\<rparr>) (mo_directories m),
        mo_global_properties := (mo_global_properties m)
          \<lparr>gp_link_libraries := resolve (gp_link_libraries (mo_global_properties m))\<rparr>\<rparr>)"

section \<open>Imported targets\<close>

fun on_imported_config ::
  "string_view \<Rightarrow> (bm_imported_config \<Rightarrow> bm_imported_config) \<Rightarrow> bm_imported_config list \<Rightarrow> bm_imported_config list" where
  "on_imported_config config f [] =
     [f \<lparr>imc_config = config, imc_effective_file = [], imc_effective_linker_file = [], imc_link_languages = []\<rparr>]"
| "on_imported_config config f (r # rs) =
     (if nob_sv_eq (imc_config r) config then f r # rs else r # on_imported_config config f rs)"

fun on_imported_config_map ::
  "string_view \<Rightarrow> (bm_imported_config_map \<Rightarrow> bm_imported_config_map) \<Rightarrow> bm_imported_config_map list \<Rightarrow> bm_imported_config_map list" where
  "on_imported_config_map config f [] = [f \<lparr>imm_config = config, imm_mapped_configs = []\<rparr>]"
| "on_imported_config_map config f (r # rs) =
     (if nob_sv_eq (imm_config r) config then f r # rs else r # on_imported_config_map config f rs)"

fun bm_freeze_trim_current_dir_prefixes :: "string_view \<Rightarrow> string_view" where
  "bm_freeze_trim_current_dir_prefixes (a # b # path) =
     (if a = CHR ''.'' \<and> (b = CHR ''/'' \<or> b = BACKSLASH) then bm_freeze_trim_current_dir_prefixes path
      else a # b # path)"
| "bm_freeze_trim_current_dir_prefixes path = path"

definition bm_freeze_path_has_prefix :: "string_view \<Rightarrow> string_view \<Rightarrow> bool" where
  "bm_freeze_path_has_prefix path0 pre0 =
     (let path = bm_freeze_trim_current_dir_prefixes path0;
          pre = bm_freeze_trim_current_dir_prefixes pre0
      in if length pre = 0 \<or> length path < length pre then False
         else if \<not> nob_sv_starts_with path pre then False
         else if length path = length pre then True
         else path ! length pre = CHR ''/'' \<or> path ! length pre = BACKSLASH)"

definition bm_imported_config_set_path :: "string_view \<Rightarrow> string_view \<Rightarrow> string_view \<Rightarrow> string_view" where
  "bm_imported_config_set_path source_dir raw dest =
     (if length dest > 0 then dest
      else if bm_path_is_abs raw \<or> bm_freeze_path_has_prefix raw source_dir then bm_normalize_path raw
      else bm_path_rebase source_dir raw)"

definition proper_prefix :: "string \<Rightarrow> string_view \<Rightarrow> bool" where
  "proper_prefix pre name \<longleftrightarrow> length name > length pre \<and> take (length pre) name = pre"

definition split_items :: "string_view list \<Rightarrow> string_view list" where
  "split_items its = concat (map bm_split_cmake_list its)"

definition imported_property :: "string_view \<Rightarrow> bm_raw_property \<Rightarrow> bm_target \<Rightarrow> bm_target" where
  "imported_property source_dir prop t =
     (let name = rp_name prop;
          v = (case rp_items prop of [] \<Rightarrow> [] | x # xs \<Rightarrow> x);
          set_file = (\<lambda>r. r\<lparr>imc_effective_file := bm_imported_config_set_path source_dir v (imc_effective_file r)\<rparr>);
          set_linker_file =
            (\<lambda>r. r\<lparr>imc_effective_linker_file := bm_imported_config_set_path source_dir v (imc_effective_linker_file r)\<rparr>);
          add_languages = (\<lambda>r. r\<lparr>imc_link_languages := imc_link_languages r @ split_items (rp_items prop)\<rparr>);
          on_config = (\<lambda>config f. t\<lparr>tg_imported_configs := on_imported_config config f (tg_imported_configs t)\<rparr>);
          rest = (\<lambda>pre. drop (length pre) name)
      in if bm_sv_eq_ci_lit name ''IMPORTED_LOCATION'' then on_config [] set_file
         else if bm_sv_eq_ci_lit name ''IMPORTED_IMPLIB'' then on_config [] set_linker_file
         else if bm_sv_eq_ci_lit name ''IMPORTED_LINK_INTERFACE_LANGUAGES'' then on_config [] add_languages
         else if proper_prefix ''IMPORTED_LOCATION_'' name then on_config (rest ''IMPORTED_LOCATION_'') set_file
         else if proper_prefix ''IMPORTED_IMPLIB_'' name then on_config (rest ''IMPORTED_IMPLIB_'') set_linker_file
         else if proper_prefix ''IMPORTED_LINK_INTERFACE_LANGUAGES_'' name then
           on_config (rest ''IMPORTED_LINK_INTERFACE_LANGUAGES_'') add_languages
         else if proper_prefix ''MAP_IMPORTED_CONFIG_'' name then
           t\<lparr>tg_imported_config_maps :=
               on_imported_config_map (rest ''MAP_IMPORTED_CONFIG_'')
                 (\<lambda>r. r\<lparr>imm_mapped_configs := imm_mapped_configs r @ split_items (rp_items prop)\<rparr>)
                 (tg_imported_config_maps t)\<rparr>
         else t)"

definition bm_query_directory_source_dir :: "build_model \<Rightarrow> nat \<Rightarrow> string_view" where
  "bm_query_directory_source_dir m i =
     (if i = BM_ID_INVALID \<or> i \<ge> length (mo_directories m) then [] else di_source_dir (mo_directories m ! i))"

definition bm_materialize_imported_target_metadata :: "build_model \<Rightarrow> build_model" where
  "bm_materialize_imported_target_metadata m =
     m\<lparr>targets := map (\<lambda>t.
         if \<not> tg_imported t then t
         else fold (imported_property (bm_query_directory_source_dir m (tg_owner_directory_id t))) (tg_raw_properties t) t)
       (targets m)\<rparr>"

section \<open>Custom targets\<close>

definition promote_step_owner :: "bm_build_step \<Rightarrow> bm_target list \<Rightarrow> freeze_failure + bm_target list" where
  "promote_step_owner s ts =
     (if st_kind s \<noteq> BM_BUILD_STEP_CUSTOM_TARGET then Inr ts
      else if st_owner_target_id s = BM_ID_INVALID then Inr ts
      else if st_owner_target_id s \<ge> length ts then Inl None
      else (let t = ts ! st_owner_target_id s in
            if \<not> tg_alias t \<and> \<not> tg_imported t \<and> tg_kind t = BM_TARGET_UNKNOWN_LIBRARY
            then Inr (ts[st_owner_target_id s := t\<lparr>tg_kind := BM_TARGET_UTILITY\<rparr>])
            else Inr ts))"

definition bm_promote_custom_target_kinds :: "build_model \<Rightarrow> freeze_failure + build_model" where
  "bm_promote_custom_target_kinds m =
     and_then (fold_until promote_step_owner (build_steps m) (targets m)) (\<lambda>ts. Inr (m\<lparr>targets := ts\<rparr>))"

section \<open>Producers\<close>

fun find_producer :: "bm_build_step list \<Rightarrow> string_view \<Rightarrow> nat" where
  "find_producer [] path = BM_ID_INVALID"
| "find_producer (s # ss) path =
     (if list_ex (\<lambda>x. nob_sv_eq x path) (effective_outputs s) then st_id s
      else if list_ex (\<lambda>x. nob_sv_eq x path) (effective_byproducts s) then st_id s
      else find_producer ss path)"

definition bm_find_producer_step_id_by_path :: "build_model \<Rightarrow> string_view \<Rightarrow> nat" where
  "bm_find_producer_step_id_by_path m path = find_producer (build_steps m) path"

fun bm_find_generated_source_mark :: "bm_source_mark list \<Rightarrow> string_view \<Rightarrow> bm_source_mark option" where
  "bm_find_generated_source_mark [] path = None"
| "bm_find_generated_source_mark (mk # mks) path =
     (if nob_sv_eq (gm_path mk) path then Some mk else bm_find_generated_source_mark mks path)"

definition bm_sv_has_path_prefix :: "string_view \<Rightarrow> string_view \<Rightarrow> bool" where
  "bm_sv_has_path_prefix v pre =
     (if length pre = 0 \<or> length v < length pre then False
      else if take (length pre) v \<noteq> pre then False
      else length v = length pre \<or> v ! length pre = CHR ''/'')"

definition bm_path_rebase_if_needed :: "string_view \<Rightarrow> string_view \<Rightarrow> string_view" where
  "bm_path_rebase_if_needed base v =
     (let normalized = bm_normalize_path v in
      if bm_path_is_abs v then normalized
      else if bm_sv_has_path_prefix normalized (bm_normalize_path base) then normalized
      else bm_path_rebase base v)"

definition bm_path_strip_prefix :: "string_view \<Rightarrow> string_view \<Rightarrow> string_view" where
  "bm_path_strip_prefix v pre =
     (let nv = bm_normalize_path v; np = bm_normalize_path pre in
      if \<not> bm_sv_has_path_prefix nv np then []
      else if length nv = length np then ''.''
      else drop (Suc (length np)) nv)"

section \<open>Dependencies of build steps\<close>

text \<open>A dependency and the step that collects what it resolves to.\<close>

definition resolve_step_dependency ::
  "build_model_draft \<Rightarrow> build_model \<Rightarrow> string_view \<Rightarrow> bm_step_dependency \<Rightarrow> bm_build_step \<Rightarrow>
   bm_step_dependency \<times> bm_build_step" where
  "resolve_step_dependency d m source_dir dep s =
     (case sd_kind dep of
        BM_BUILD_STEP_DEP_TARGET_REF \<Rightarrow>
          (let i = referenced_target d m (sd_target_name dep) in
           (dep\<lparr>sd_target_id := i\<rparr>,
            if i = BM_ID_INVALID then s else s\<lparr>st_resolved_targets := st_resolved_targets s @ [i]\<rparr>))
      | BM_BUILD_STEP_DEP_PATH_TOKEN \<Rightarrow>
          (let produced = (\<lambda>i. (dep\<lparr>sd_producer_step_id := i\<rparr>, s\<lparr>st_resolved_producers := st_resolved_producers s @ [i]\<rparr>));
               i = bm_find_producer_step_id_by_path m (bm_normalize_path (sd_raw_token dep))
           in if i \<noteq> BM_ID_INVALID then produced i
              else (let effective = bm_path_rebase_if_needed source_dir (sd_raw_token dep);
                        j = bm_find_producer_step_id_by_path m effective
                    in if j \<noteq> BM_ID_INVALID then produced j
                       else (dep\<lparr>sd_file_dependency := effective\<rparr>, s\<lparr>st_resolved_files := st_resolved_files s @ [effective]\<rparr>))))"

fun resolve_step_dependencies ::
  "build_model_draft \<Rightarrow> build_model \<Rightarrow> string_view \<Rightarrow> bm_step_dependency list \<Rightarrow> bm_build_step \<Rightarrow>
   bm_step_dependency list \<times> bm_build_step" where
  "resolve_step_dependencies d m source_dir [] s = ([], s)"
| "resolve_step_dependencies d m source_dir (dep # deps) s =
     (case resolve_step_dependency d m source_dir dep s of (dep1, s1) \<Rightarrow>
       (case resolve_step_dependencies d m source_dir deps s1 of (deps1, s2) \<Rightarrow> (dep1 # deps1, s2)))"

definition bm_resolve_build_step_dependencies :: "build_model_draft \<Rightarrow> build_model \<Rightarrow> build_model" where
  "bm_resolve_build_step_dependencies d m =
     m\<lparr>build_steps := map (\<lambda>s.
         case resolve_step_dependencies d m (di_source_dir (mo_directories m ! st_owner_directory_id s)) (st_dependencies s) s of
           (deps, s1) \<Rightarrow> s1\<lparr>st_dependencies := deps\<rparr>) (build_steps m)\<rparr>"

section \<open>Sources of targets\<close>

text \<open>
  Four paths a source may be known by: its own, the ones below the source and the binary directory,
  and the one below the source directory without that prefix.
\<close>

definition candidate_paths :: "string_view \<Rightarrow> string_view \<Rightarrow> string_view \<Rightarrow> string_view \<times> string_view \<times> string_view \<times> string_view" where
  "candidate_paths source_dir binary_dir raw =
     (let from_source = bm_path_rebase_if_needed source_dir raw in
      (bm_normalize_path raw, from_source, bm_path_rebase_if_needed binary_dir raw,
       bm_path_strip_prefix from_source source_dir))"

definition usable_path :: "string_view \<Rightarrow> bool" where
  "usable_path path \<longleftrightarrow> length path > 0 \<and> \<not> nob_sv_eq path ''.''"

text \<open>
  The producers and the marks of the four, the stripped one counting only when it is usable, decide
  the effective path first, and the producer after it.
\<close>

definition resolve_source_record ::
  "bm_source_mark list \<Rightarrow> build_model \<Rightarrow> bm_directory \<Rightarrow> bm_target_source \<Rightarrow> bm_target_source" where
  "resolve_source_record marks m dir s =
     (case candidate_paths (di_source_dir dir) (di_binary_dir dir) (src_raw_path s) of
        (direct, from_source, from_binary, stripped) \<Rightarrow>
        (let producer = bm_find_producer_step_id_by_path m;
             mark = bm_find_generated_source_mark marks;
             direct_producer = producer direct; source_producer = producer from_source; binary_producer = producer from_binary;
             stripped_producer = (if usable_path stripped then producer stripped else BM_ID_INVALID);
             direct_mark = mark direct; source_mark = mark from_source; binary_mark = mark from_binary;
             stripped_mark = (if usable_path stripped then mark stripped else None);
             effective =
               (if direct_producer \<noteq> BM_ID_INVALID \<or> direct_mark \<noteq> None then direct
                else if stripped_producer \<noteq> BM_ID_INVALID \<or> stripped_mark \<noteq> None then stripped
                else if binary_producer \<noteq> BM_ID_INVALID \<or> binary_mark \<noteq> None then from_binary
                else from_source);
             s1 = s\<lparr>src_effective_path := effective\<rparr>;
             produced = (\<lambda>i. s1\<lparr>src_generated := True, src_producer_step_id := i\<rparr>);
             marked = (\<lambda>mk. s1\<lparr>src_generated := gm_generated mk\<rparr>)
         in if direct_producer \<noteq> BM_ID_INVALID then produced direct_producer
            else if stripped_producer \<noteq> BM_ID_INVALID then produced stripped_producer
            else if binary_producer \<noteq> BM_ID_INVALID then produced binary_producer
            else if source_producer \<noteq> BM_ID_INVALID then produced source_producer
            else (case direct_mark of Some mk \<Rightarrow> marked mk
                  | None \<Rightarrow> (case stripped_mark of Some mk \<Rightarrow> marked mk
                  | None \<Rightarrow> (case binary_mark of Some mk \<Rightarrow> marked mk
                  | None \<Rightarrow> (case source_mark of Some mk \<Rightarrow> marked mk
                  | None \<Rightarrow> s1))))))"

definition on_sources :: "(bm_target \<Rightarrow> bm_target_source \<Rightarrow> bm_target_source) \<Rightarrow> build_model \<Rightarrow> build_model" where
  "on_sources f m = m\<lparr>targets := map (\<lambda>t. t\<lparr>tg_source_records := map (f t) (tg_source_records t)\<rparr>) (targets m)\<rparr>"

definition bm_resolve_target_source_records :: "build_model_draft \<Rightarrow> build_model \<Rightarrow> build_model" where
  "bm_resolve_target_source_records d m =
     on_sources (\<lambda>t. resolve_source_record (dr_source_marks d) m (mo_directories m ! tg_owner_directory_id t)) m"

definition apply_source_mark :: "bm_source_mark \<Rightarrow> bm_target_source \<Rightarrow> bm_target_source" where
  "apply_source_mark mk s =
     (if \<not> nob_sv_eq (src_effective_path s) (gm_path mk) then s
      else s\<lparr>src_generated := gm_generated mk \<or> src_generated s\<rparr>)"

definition bm_apply_generated_source_marks :: "build_model_draft \<Rightarrow> build_model \<Rightarrow> build_model" where
  "bm_apply_generated_source_marks d m = fold (\<lambda>mk. on_sources (\<lambda>t. apply_source_mark mk)) (dr_source_marks d) m"

section \<open>Properties of sources\<close>

definition bm_sv_eq_ci_freeze :: "string_view \<Rightarrow> string_view \<Rightarrow> bool" where
  "bm_sv_eq_ci_freeze a b = sv_eq_ci_lower a b"

definition path_list :: "string_view \<times> string_view \<times> string_view \<times> string_view \<Rightarrow> string_view list" where
  "path_list p = (case p of (a, b, c, e) \<Rightarrow> [a, b, c, e])"

definition bm_source_property_matches_target_source ::
  "bm_directory \<Rightarrow> bm_target_source \<Rightarrow> bm_source_mutation \<Rightarrow> bool" where
  "bm_source_property_matches_target_source dir s mut \<longleftrightarrow>
     list_ex (\<lambda>a. usable_path a \<and> list_ex (\<lambda>b. usable_path b \<and> nob_sv_eq a b)
       (path_list (candidate_paths (sm_directory_source_dir mut) (sm_directory_binary_dir mut) (sm_path mut))))
     (path_list (candidate_paths (di_source_dir dir) (di_binary_dir dir) (src_raw_path s)))"

definition bm_source_property_apply_item_mutation ::
  "bm_source_mutation \<Rightarrow> string_view list \<Rightarrow> bm_item list \<Rightarrow> bm_item list" where
  "bm_source_property_apply_item_mutation mut vs dest =
     bm_apply_item_mutation (sm_op mut)
       (map (make_item BM_VISIBILITY_PRIVATE (item_flags (sm_op mut = EVENT_PROPERTY_MUTATE_PREPEND_LIST) False)
              (sm_provenance mut) blank_semantic) vs) dest"

definition bm_source_property_apply :: "bm_source_mutation \<Rightarrow> bm_target_source \<Rightarrow> bm_target_source" where
  "bm_source_property_apply mut s0 =
     (let key_is = (\<lambda>lit. bm_sv_eq_ci_freeze (sm_key mut) lit);
          s = s0\<lparr>src_raw_properties :=
                  bm_record_raw_property (sm_key mut) (sm_op mut) 0 [sm_value mut] (sm_provenance mut) (src_raw_properties s0)\<rparr>;
          vs = (if sm_op mut = EVENT_PROPERTY_MUTATE_APPEND_STRING then [sm_value mut] else bm_split_cmake_list (sm_value mut))
      in if key_is ''GENERATED'' then s\<lparr>src_generated := bm_sv_truthy (sm_value mut)\<rparr>
         else if key_is ''HEADER_FILE_ONLY'' then s\<lparr>src_header_file_only := bm_sv_truthy (sm_value mut)\<rparr>
         else if key_is ''LANGUAGE'' then s\<lparr>src_language := sm_value mut\<rparr>
         else if key_is ''COMPILE_DEFINITIONS'' then
           s\<lparr>src_compile_definitions := bm_source_property_apply_item_mutation mut vs (src_compile_definitions s)\<rparr>
         else if key_is ''COMPILE_OPTIONS'' then
           s\<lparr>src_compile_options := bm_source_property_apply_item_mutation mut vs (src_compile_options s)\<rparr>
         else if key_is ''INCLUDE_DIRECTORIES'' then
           s\<lparr>src_include_directories := bm_source_property_apply_item_mutation mut vs (src_include_directories s)\<rparr>
         else s)"

definition apply_source_mutation :: "bm_directory list \<Rightarrow> bm_source_mutation \<Rightarrow> bm_target \<Rightarrow> bm_target_source \<Rightarrow> bm_target_source" where
  "apply_source_mutation ds mut t s =
     (if bm_source_property_matches_target_source (ds ! tg_owner_directory_id t) s mut
      then bm_source_property_apply mut s else s)"

definition bm_apply_source_property_mutations :: "build_model_draft \<Rightarrow> build_model \<Rightarrow> build_model" where
  "bm_apply_source_property_mutations d m =
     fold (\<lambda>mut. on_sources (apply_source_mutation (mo_directories m) mut)) (dr_source_mutations d) m"

section \<open>File sets\<close>

definition populate_file_set :: "bm_target_source list \<Rightarrow> bm_file_set \<Rightarrow> bm_file_set" where
  "populate_file_set srcs fs =
     (let members = filter (\<lambda>(i, s). nob_sv_eq (src_file_set_name s) (fs_name fs)) (enumerate 0 srcs) in
      fs\<lparr>fs_source_indices := fs_source_indices fs @ map fst members,
         fs_raw_files := fs_raw_files fs @ map (\<lambda>(i, s). src_raw_path s) members,
         fs_effective_files := fs_effective_files fs @ map (\<lambda>(i, s). src_effective_path s) members\<rparr>)"

definition bm_populate_target_file_sets :: "build_model \<Rightarrow> build_model" where
  "bm_populate_target_file_sets m =
     m\<lparr>targets := map (\<lambda>t. t\<lparr>tg_file_sets := map (populate_file_set (tg_source_records t)) (tg_file_sets t)\<rparr>) (targets m)\<rparr>"

section \<open>Known configurations\<close>

definition bm_known_config_canonical_name :: "string_view \<Rightarrow> string_view" where
  "bm_known_config_canonical_name config =
     (if bm_sv_eq_ci_freeze config ''DEBUG'' then ''Debug''
      else if bm_sv_eq_ci_freeze config ''RELEASE'' then ''Release''
      else if bm_sv_eq_ci_freeze config ''RELWITHDEBINFO'' then ''RelWithDebInfo''
      else if bm_sv_eq_ci_freeze config ''MINSIZEREL'' then ''MinSizeRel''
      else config)"

definition bm_known_config_has_lowercase :: "string_view \<Rightarrow> bool" where
  "bm_known_config_has_lowercase config \<longleftrightarrow> list_ex c_islower config"

definition bm_known_config_should_replace :: "string_view \<Rightarrow> string_view \<Rightarrow> bool" where
  "bm_known_config_should_replace existing candidate =
     (if bm_known_config_has_lowercase existing then False else bm_known_config_has_lowercase candidate)"

fun push_known :: "string_view \<Rightarrow> configs \<Rightarrow> configs" where
  "push_known config [] = [config]"
| "push_known config (c # cs) =
     (if sv_eq_ci_lower c config then
        (if \<not> nob_sv_eq (bm_known_config_canonical_name c) c then bm_known_config_canonical_name c
         else if bm_known_config_should_replace c config then config else c) # cs
      else c # push_known config cs)"

definition bm_known_configs_push_unique_ci :: "string_view \<Rightarrow> configs \<Rightarrow> configs" where
  "bm_known_configs_push_unique_ci config cs =
     (if length config = 0 then cs else push_known (bm_known_config_canonical_name config) cs)"

text \<open>
  The functions that collect are lists of what they do: scan a text for the configurations its
  generator expressions name, or add a configuration. They are carried out in order, up to the
  first text whose scan fails.
\<close>

datatype config_job = Scan_Text string_view | Push_Config string_view

definition freeze_genex_context :: genex_context where
  "freeze_genex_context =
     \<lparr>gx_config = [], current_target_name = [], platform_id = [], compile_language = [], install_prefix = [],
      read_target_property = None, read_target_file = None, read_target_linker_file = None, link_only_active = False,
      build_interface_active = False, build_local_interface_active = False, install_interface_active = False,
      target_name_case_insensitive = False, max_callback_value_len = 0, max_depth = 0, max_target_property_depth = 0,
      strndup_ok = (\<lambda>_. True), alloc_ok = (\<lambda>_. True)\<rparr>"

fun run_config_jobs :: "config_job list \<Rightarrow> configs \<Rightarrow> configs option" where
  "run_config_jobs [] cs = Some cs"
| "run_config_jobs (Scan_Text text # jobs) cs =
     (case genex_collect_known_configs (Some freeze_genex_context) text cs of
        (ok, cs1) \<Rightarrow> if ok then run_config_jobs jobs cs1 else None)"
| "run_config_jobs (Push_Config config # jobs) cs = run_config_jobs jobs (bm_known_configs_push_unique_ci config cs)"

definition bm_known_configs_scan_string_array :: "string_view list \<Rightarrow> config_job list" where
  "bm_known_configs_scan_string_array vs = map Scan_Text vs"

definition bm_known_configs_scan_item_array :: "bm_item list \<Rightarrow> config_job list" where
  "bm_known_configs_scan_item_array its = map (\<lambda>i. Scan_Text (it_value i)) its"

definition bm_known_configs_scan_link_item_array :: "bm_link_item list \<Rightarrow> config_job list" where
  "bm_known_configs_scan_link_item_array its = map (\<lambda>i. Scan_Text (li_value i)) its"

definition bm_known_configs_scan_raw_properties :: "bm_raw_property list \<Rightarrow> config_job list" where
  "bm_known_configs_scan_raw_properties ps = concat (map (\<lambda>p. bm_known_configs_scan_string_array (rp_items p)) ps)"

definition bm_sv_starts_with_ci_freeze :: "string_view \<Rightarrow> string \<Rightarrow> bool" where
  "bm_sv_starts_with_ci_freeze v pre =
     (if length v \<le> length pre then False else bm_sv_eq_ci_freeze (take (length pre) v) pre)"

definition bm_sv_ends_with_ci_freeze :: "string_view \<Rightarrow> string \<Rightarrow> bool" where
  "bm_sv_ends_with_ci_freeze v suf =
     (if length v \<le> length suf then False else bm_sv_eq_ci_freeze (drop (length v - length suf) v) suf)"

definition bm_known_configs_scan_artifact_property_name :: "string_view \<Rightarrow> config_job list" where
  "bm_known_configs_scan_artifact_property_name name =
     concat (map (\<lambda>pre. if bm_sv_starts_with_ci_freeze name pre then [Push_Config (drop (length pre) name)] else [])
       [''OUTPUT_NAME_'', ''ARCHIVE_OUTPUT_NAME_'', ''LIBRARY_OUTPUT_NAME_'', ''RUNTIME_OUTPUT_NAME_'',
        ''ARCHIVE_OUTPUT_DIRECTORY_'', ''LIBRARY_OUTPUT_DIRECTORY_'', ''RUNTIME_OUTPUT_DIRECTORY_'']) @
     concat (map (\<lambda>suf. if bm_sv_ends_with_ci_freeze name suf then [Push_Config (take (length name - length suf) name)] else [])
       [''_OUTPUT_NAME'', ''_ARCHIVE_OUTPUT_NAME'', ''_LIBRARY_OUTPUT_NAME'', ''_RUNTIME_OUTPUT_NAME''])"

definition bm_known_configs_scan_artifact_properties :: "bm_artifact_property list \<Rightarrow> config_job list" where
  "bm_known_configs_scan_artifact_properties ps =
     concat (map (\<lambda>p. bm_known_configs_scan_artifact_property_name (ap_name p) @ [Scan_Text (ap_value p)]) ps)"

definition scan_global_properties :: "bm_properties \<Rightarrow> config_job list" where
  "scan_global_properties p =
     bm_known_configs_scan_item_array (gp_include_directories p) @
     bm_known_configs_scan_item_array (gp_system_include_directories p) @
     bm_known_configs_scan_item_array (gp_compile_definitions p) @
     bm_known_configs_scan_item_array (gp_compile_options p) @
     bm_known_configs_scan_item_array (gp_link_options p) @
     bm_known_configs_scan_item_array (gp_link_directories p) @
     bm_known_configs_scan_link_item_array (gp_link_libraries p) @
     bm_known_configs_scan_raw_properties (gp_raw_properties p)"

definition scan_directory :: "bm_directory \<Rightarrow> config_job list" where
  "scan_directory r =
     bm_known_configs_scan_item_array (di_include_directories r) @
     bm_known_configs_scan_item_array (di_system_include_directories r) @
     bm_known_configs_scan_link_item_array (di_link_libraries r) @
     bm_known_configs_scan_item_array (di_link_directories r) @
     bm_known_configs_scan_item_array (di_compile_definitions r) @
     bm_known_configs_scan_item_array (di_compile_options r) @
     bm_known_configs_scan_item_array (di_link_options r) @
     bm_known_configs_scan_raw_properties (di_raw_properties r)"

definition scan_source :: "bm_target_source \<Rightarrow> config_job list" where
  "scan_source s =
     bm_known_configs_scan_item_array (src_compile_definitions s) @
     bm_known_configs_scan_item_array (src_compile_options s) @
     bm_known_configs_scan_item_array (src_include_directories s) @
     bm_known_configs_scan_raw_properties (src_raw_properties s)"

definition scan_target :: "bm_target \<Rightarrow> config_job list" where
  "scan_target t =
     bm_known_configs_scan_item_array (tg_include_directories t) @
     bm_known_configs_scan_item_array (tg_compile_definitions t) @
     bm_known_configs_scan_item_array (tg_compile_options t) @
     bm_known_configs_scan_item_array (tg_compile_features t) @
     bm_known_configs_scan_link_item_array (tg_link_libraries t) @
     bm_known_configs_scan_item_array (tg_link_options t) @
     bm_known_configs_scan_item_array (tg_link_directories t) @
     bm_known_configs_scan_artifact_properties (tg_artifact_properties t) @
     bm_known_configs_scan_raw_properties (tg_raw_properties t) @
     concat (map scan_source (tg_source_records t)) @
     map (\<lambda>c. Push_Config (imc_config c)) (tg_imported_configs t) @
     concat (map (\<lambda>c. Push_Config (imm_config c) # map Push_Config (imm_mapped_configs c)) (tg_imported_config_maps t))"

definition scan_install_rule :: "bm_install_rule \<Rightarrow> config_job list" where
  "scan_install_rule r =
     map Scan_Text [ir_item r, ir_destination r, ir_rename r, ir_archive_destination r, ir_library_destination r,
       ir_runtime_destination r, ir_includes_destination r, ir_public_header_destination r]"

definition scan_export :: "bm_export \<Rightarrow> config_job list" where
  "scan_export r = map Scan_Text [ex_output_file_path r, ex_destination r, ex_file_name r, ex_cxx_modules_directory r]"

definition scan_replay_action :: "bm_replay_action \<Rightarrow> config_job list" where
  "scan_replay_action a =
     Scan_Text (ra_working_directory a) # bm_known_configs_scan_string_array (ra_inputs a) @
     bm_known_configs_scan_string_array (ra_outputs a) @ bm_known_configs_scan_string_array (ra_argv a) @
     bm_known_configs_scan_string_array (ra_environment a)"

definition scan_build_step :: "bm_build_step \<Rightarrow> config_job list" where
  "scan_build_step s =
     map Scan_Text [st_working_directory s, st_depfile s, st_comment s] @
     bm_known_configs_scan_string_array (st_raw_outputs s) @ bm_known_configs_scan_string_array (st_raw_byproducts s) @
     bm_known_configs_scan_string_array (st_raw_dependency_tokens s) @
     concat (map bm_known_configs_scan_string_array (st_commands s))"

definition config_jobs :: "build_model \<Rightarrow> config_job list" where
  "config_jobs m =
     scan_global_properties (mo_global_properties m) @
     concat (map scan_directory (mo_directories m)) @
     concat (map scan_target (targets m)) @
     concat (map (\<lambda>t. map Push_Config (te_configurations t)) (mo_tests m)) @
     concat (map scan_install_rule (mo_install_rules m)) @
     concat (map scan_export (mo_exports m)) @
     concat (map scan_replay_action (mo_replay_actions m)) @
     concat (map scan_build_step (build_steps m))"

definition bm_collect_known_configurations :: "build_model \<Rightarrow> freeze_failure + build_model" where
  "bm_collect_known_configurations m =
     (case run_config_jobs (config_jobs m) [] of None \<Rightarrow> Inl None | Some cs \<Rightarrow> Inr (m\<lparr>known_configurations := cs\<rparr>))"

section \<open>The freeze\<close>

definition copy_draft :: "build_model_draft \<Rightarrow> freeze_failure + build_model" where
  "copy_draft d =
     and_then (bm_clone_targets d
       (blank_model\<lparr>mo_testing_enabled := dr_testing_enabled d, mo_root_directory_id := dr_root_directory_id d,
          mo_project := dr_project d, mo_global_properties := dr_global_properties d,
          mo_directories := dr_directories d\<rparr>)) (\<lambda>m.
     and_then (bm_clone_install_rules d
       (bm_clone_tests d (bm_clone_replay_actions d (bm_clone_build_steps d m)))) (\<lambda>m.
     and_then (bm_clone_exports d m) (\<lambda>m.
     bm_clone_cpack d (bm_clone_packages d m))))"

definition resolve_model :: "build_model_draft \<Rightarrow> build_model \<Rightarrow> freeze_failure + build_model" where
  "resolve_model d m =
     and_then (bm_resolve_build_step_effective_paths d m) (\<lambda>m.
     and_then (bm_promote_custom_target_kinds
       (bm_materialize_imported_target_metadata (bm_resolve_link_item_target_ids d m))) (\<lambda>m.
     Inr (bm_populate_target_file_sets
       (bm_apply_source_property_mutations d
         (bm_apply_generated_source_marks d
           (bm_resolve_target_source_records d
             (bm_resolve_build_step_dependencies d m)))))))"

definition resolved_model :: "build_model_draft \<Rightarrow> freeze_failure + build_model" where
  "resolved_model d =
     and_then (bm_freeze_check_invariants d) (\<lambda>_. and_then (copy_draft d) (resolve_model d))"

definition frozen_model :: "build_model_draft \<Rightarrow> freeze_failure + build_model" where
  "frozen_model d = and_then (resolved_model d) bm_collect_known_configurations"

definition bm_freeze_draft ::
  "build_model_draft option \<Rightarrow> (build_model \<Rightarrow> order_query) \<Rightarrow> (build_model \<Rightarrow> step_query) \<Rightarrow> bm_report list \<Rightarrow>
   build_model option \<times> bm_report list" where
  "bm_freeze_draft draft order_view step_view log =
     (case draft of
        None \<Rightarrow> (None, log)
      | Some d \<Rightarrow>
          (case frozen_model d of
             Inl None \<Rightarrow> (None, log)
           | Inl (Some (p, cause)) \<Rightarrow> (None, log @ [(DIAG_SEV_ERROR, p, ''freeze'', cause)])
           | Inr m \<Rightarrow>
               (case bm_validate_execution_graph (Some m) (order_view m) (step_view m)
                       \<lparr>colors = [], had_error = False, sink = log\<rparr> of
                  (ok, st) \<Rightarrow> (if ok \<and> \<not> had_error st then Some m else None, sink st))))"

end
