(* ===== verification/Bm_Freeze_Facts.thy ===== *)
theory Bm_Freeze_Facts
  imports Bm_Freeze Bm_Builder_Props
begin

text \<open>
  How the steps of the freeze build on one another: the loops that may fail, what each step leaves
  alone, and which identifiers and paths it writes.
\<close>

section \<open>Loops that may fail\<close>

lemma and_then_Inr: "and_then x f = Inr y \<longleftrightarrow> (\<exists>z. x = Inr z \<and> f z = Inr y)"
  by (cases x) auto

lemma map_until_Inr: "map_until f xs = Inr ys \<longleftrightarrow> list_all2 (\<lambda>x y. f x = Inr y) xs ys"
  by (induction xs arbitrary: ys) (auto simp: and_then_Inr list_all2_Cons1)

lemma map_until_total: "(\<And>x. x \<in> set xs \<Longrightarrow> \<exists>y. f x = Inr y) \<Longrightarrow> \<exists>ys. map_until f xs = Inr ys"
proof (induction xs)
  case (Cons x xs)
  obtain y where "f x = Inr y" using Cons.prems by auto
  moreover obtain ys where "map_until f xs = Inr ys" using Cons by auto
  ultimately show ?case by simp
qed simp

lemma map_until_in: "map_until f xs = Inr ys \<Longrightarrow> y \<in> set ys \<Longrightarrow> \<exists>x\<in>set xs. f x = Inr y"
  by (induction xs arbitrary: ys) (auto simp: and_then_Inr)

lemma map_until_same: "map_until f xs = Inr ys \<Longrightarrow> (\<And>x y. f x = Inr y \<Longrightarrow> g y = h x) \<Longrightarrow> map g ys = map h xs"
  by (induction xs arbitrary: ys) (auto simp: and_then_Inr)

lemma fold_until_total: "(\<And>x s. x \<in> set xs \<Longrightarrow> P s \<Longrightarrow> \<exists>t. f x s = Inr t \<and> P t) \<Longrightarrow> P s \<Longrightarrow> \<exists>t. fold_until f xs s = Inr t \<and> P t"
proof (induction xs arbitrary: s)
  case (Cons x xs)
  obtain t where "f x s = Inr t" "P t" using Cons.prems by force
  moreover have "\<exists>u. fold_until f xs t = Inr u \<and> P u" using Cons \<open>P t\<close> by simp
  ultimately show ?case by auto
qed simp

lemma fold_until_same: "fold_until f xs s = Inr t \<Longrightarrow> (\<And>x s t. f x s = Inr t \<Longrightarrow> g t = g s) \<Longrightarrow> g t = g s"
  by (induction xs arbitrary: s) (auto simp: and_then_Inr)

lemma each_row_Inr:
  "each_row pv fault i xs = Inr () \<longleftrightarrow> (\<forall>j<length xs. fault (i + j) (xs ! j) = None)"
proof (induction xs arbitrary: i)
  case (Cons x xs)
  show ?case by (cases "fault i x") (auto simp: Cons.IH All_less_Suc2)
qed simp

lemma resolved_Inr: "resolved look p cause name = Inr i \<longleftrightarrow> look name = i \<and> i \<noteq> BM_ID_INVALID"
  by (auto simp: resolved_def Let_def)

lemma resolved_total: "look name \<noteq> BM_ID_INVALID \<Longrightarrow> \<exists>i. resolved look p cause name = Inr i"
  by (simp add: resolved_def)

lemma resolved_if_total: "(name \<noteq> [] \<longrightarrow> look name \<noteq> BM_ID_INVALID) \<Longrightarrow> \<exists>i. resolved_if look p cause name = Inr i"
  by (auto simp: resolved_if_def resolved_def bm_string_view_is_empty_def)

section \<open>What the steps leave alone\<close>

text \<open>The part of a target that says whom it stands for and whom it needs.\<close>

definition refs_of :: "bm_target \<Rightarrow> nat \<times> nat \<times> bool \<times> nat \<times> nat list" where
  "refs_of t = (tg_id t, tg_owner_directory_id t, tg_alias t, tg_alias_of_id t, tg_explicit_dependency_ids t)"

definition real_target :: "build_model \<Rightarrow> nat \<Rightarrow> bool" where
  "real_target m i \<longleftrightarrow> i < length (targets m) \<and> \<not> tg_alias (targets m ! i)"

lemma refs_nth:
  assumes "map refs_of ts = map refs_of us"
  shows "length ts = length us" "i < length us \<Longrightarrow> refs_of (ts ! i) = refs_of (us ! i)"
  using assms by (auto dest: map_eq_imp_length_eq) (metis map_eq_imp_length_eq nth_map)

lemma real_target_cong: "map refs_of (targets m) = map refs_of (targets m') \<Longrightarrow> real_target m = real_target m'"
proof (rule ext)
  fix i assume "map refs_of (targets m) = map refs_of (targets m')"
  from refs_nth [OF this] show "real_target m i = real_target m' i"
    unfolding real_target_def by (metis refs_of_def prod.inject)
qed

named_theorems frame \<open>what a step of the freeze leaves alone\<close>

lemma on_sources_frame [frame]:
  "build_steps (on_sources f m) = build_steps m" "mo_directories (on_sources f m) = mo_directories m"
  "mo_global_properties (on_sources f m) = mo_global_properties m"
  "map refs_of (targets (on_sources f m)) = map refs_of (targets m)"
  "map tg_link_libraries (targets (on_sources f m)) = map tg_link_libraries (targets m)"
  "length (targets (on_sources f m)) = length (targets m)"
  by (simp_all add: on_sources_def refs_of_def)

lemma fold_sources_frame [frame]:
  "build_steps (fold (\<lambda>x. on_sources (f x)) xs m) = build_steps m"
  "mo_directories (fold (\<lambda>x. on_sources (f x)) xs m) = mo_directories m"
  "mo_global_properties (fold (\<lambda>x. on_sources (f x)) xs m) = mo_global_properties m"
  "map refs_of (targets (fold (\<lambda>x. on_sources (f x)) xs m)) = map refs_of (targets m)"
  "map tg_link_libraries (targets (fold (\<lambda>x. on_sources (f x)) xs m)) = map tg_link_libraries (targets m)"
  by (induction xs arbitrary: m) (simp_all add: frame)

lemma source_steps_frame [frame]:
  "build_steps (bm_resolve_target_source_records d m) = build_steps m"
  "mo_directories (bm_resolve_target_source_records d m) = mo_directories m"
  "mo_global_properties (bm_resolve_target_source_records d m) = mo_global_properties m"
  "map refs_of (targets (bm_resolve_target_source_records d m)) = map refs_of (targets m)"
  "map tg_link_libraries (targets (bm_resolve_target_source_records d m)) = map tg_link_libraries (targets m)"
  "build_steps (bm_apply_generated_source_marks d m) = build_steps m"
  "mo_directories (bm_apply_generated_source_marks d m) = mo_directories m"
  "mo_global_properties (bm_apply_generated_source_marks d m) = mo_global_properties m"
  "map refs_of (targets (bm_apply_generated_source_marks d m)) = map refs_of (targets m)"
  "map tg_link_libraries (targets (bm_apply_generated_source_marks d m)) = map tg_link_libraries (targets m)"
  "build_steps (bm_apply_source_property_mutations d m) = build_steps m"
  "mo_directories (bm_apply_source_property_mutations d m) = mo_directories m"
  "mo_global_properties (bm_apply_source_property_mutations d m) = mo_global_properties m"
  "map refs_of (targets (bm_apply_source_property_mutations d m)) = map refs_of (targets m)"
  "map tg_link_libraries (targets (bm_apply_source_property_mutations d m)) = map tg_link_libraries (targets m)"
  by (simp_all add: bm_resolve_target_source_records_def bm_apply_generated_source_marks_def
      bm_apply_source_property_mutations_def frame)

lemma file_sets_frame [frame]:
  "build_steps (bm_populate_target_file_sets m) = build_steps m"
  "mo_directories (bm_populate_target_file_sets m) = mo_directories m"
  "mo_global_properties (bm_populate_target_file_sets m) = mo_global_properties m"
  "map refs_of (targets (bm_populate_target_file_sets m)) = map refs_of (targets m)"
  "map tg_link_libraries (targets (bm_populate_target_file_sets m)) = map tg_link_libraries (targets m)"
  "map tg_source_records (targets (bm_populate_target_file_sets m)) = map tg_source_records (targets m)"
  by (simp_all add: bm_populate_target_file_sets_def refs_of_def)

lemma step_dependencies_frame [frame]:
  "targets (bm_resolve_build_step_dependencies d m) = targets m"
  "mo_directories (bm_resolve_build_step_dependencies d m) = mo_directories m"
  "mo_global_properties (bm_resolve_build_step_dependencies d m) = mo_global_properties m"
  by (simp_all add: bm_resolve_build_step_dependencies_def)

lemma imported_property_frame:
  "refs_of (imported_property sd prop t) = refs_of t"
  "tg_link_libraries (imported_property sd prop t) = tg_link_libraries t"
  "tg_source_records (imported_property sd prop t) = tg_source_records t"
  by (simp_all add: imported_property_def refs_of_def Let_def)

lemma imported_frame [frame]:
  "build_steps (bm_materialize_imported_target_metadata m) = build_steps m"
  "mo_directories (bm_materialize_imported_target_metadata m) = mo_directories m"
  "mo_global_properties (bm_materialize_imported_target_metadata m) = mo_global_properties m"
  "map refs_of (targets (bm_materialize_imported_target_metadata m)) = map refs_of (targets m)"
  "map tg_link_libraries (targets (bm_materialize_imported_target_metadata m)) = map tg_link_libraries (targets m)"
  "map tg_source_records (targets (bm_materialize_imported_target_metadata m)) = map tg_source_records (targets m)"
proof -
  have "refs_of (fold (imported_property sd) ps t) = refs_of t \<and>
      tg_link_libraries (fold (imported_property sd) ps t) = tg_link_libraries t \<and>
      tg_source_records (fold (imported_property sd) ps t) = tg_source_records t" for sd ps t
    by (induction ps arbitrary: t) (simp_all add: imported_property_frame)
  then show "map refs_of (targets (bm_materialize_imported_target_metadata m)) = map refs_of (targets m)"
    "map tg_link_libraries (targets (bm_materialize_imported_target_metadata m)) = map tg_link_libraries (targets m)"
    "map tg_source_records (targets (bm_materialize_imported_target_metadata m)) = map tg_source_records (targets m)"
    by (simp_all add: bm_materialize_imported_target_metadata_def)
qed (simp_all add: bm_materialize_imported_target_metadata_def)

lemma link_items_frame [frame]:
  "build_steps (bm_resolve_link_item_target_ids d m) = build_steps m"
  "map refs_of (targets (bm_resolve_link_item_target_ids d m)) = map refs_of (targets m)"
  "map tg_source_records (targets (bm_resolve_link_item_target_ids d m)) = map tg_source_records (targets m)"
  "length (mo_directories (bm_resolve_link_item_target_ids d m)) = length (mo_directories m)"
  by (simp_all add: bm_resolve_link_item_target_ids_def refs_of_def Let_def)

lemma promote_step_owner_frame:
  assumes "promote_step_owner s ts = Inr us"
  shows "map refs_of us = map refs_of ts" "map tg_link_libraries us = map tg_link_libraries ts"
    "map tg_source_records us = map tg_source_records ts"
  using assms by (auto simp: promote_step_owner_def Let_def refs_of_def map_update_same split: if_splits)

lemma promote_frame:
  assumes "bm_promote_custom_target_kinds m = Inr m'"
  shows "map refs_of (targets m') = map refs_of (targets m)"
    "map tg_link_libraries (targets m') = map tg_link_libraries (targets m)"
    "map tg_source_records (targets m') = map tg_source_records (targets m)"
    "build_steps m' = build_steps m" "mo_directories m' = mo_directories m" "mo_global_properties m' = mo_global_properties m"
proof -
  obtain ts where ts: "fold_until promote_step_owner (build_steps m) (targets m) = Inr ts" "m' = m\<lparr>targets := ts\<rparr>"
    using assms by (auto simp: bm_promote_custom_target_kinds_def and_then_Inr)
  note same = fold_until_same [OF ts(1)]
  show "map refs_of (targets m') = map refs_of (targets m)"
    "map tg_link_libraries (targets m') = map tg_link_libraries (targets m)"
    "map tg_source_records (targets m') = map tg_source_records (targets m)"
    unfolding ts(2) using same [of "map refs_of"] same [of "map tg_link_libraries"] same [of "map tg_source_records"]
      promote_step_owner_frame by simp_all
  show "build_steps m' = build_steps m" "mo_directories m' = mo_directories m" "mo_global_properties m' = mo_global_properties m"
    unfolding ts(2) by simp_all
qed

section \<open>The stages of the freeze\<close>

lemma copied:
  assumes "copy_draft d = Inr m"
  shows "map_until (clone_target d) (dr_targets d) = Inr (targets m)"
    "build_steps m = map clone_build_step (dr_build_steps d)" "mo_directories m = dr_directories d"
    "mo_global_properties m = dr_global_properties d"
  using assms by (auto simp: copy_draft_def and_then_Inr bm_clone_targets_def bm_clone_install_rules_def bm_clone_exports_def
      bm_clone_cpack_def bm_clone_packages_def bm_clone_tests_def bm_clone_replay_actions_def bm_clone_build_steps_def)

text \<open>
  Up to the promotion of custom targets (\<open>m1\<close> to \<open>m4\<close>) and from there: after it the steps of the
  build are changed once, then only the sources and the file sets of targets.
\<close>

lemma stages:
  assumes "resolved_model d = Inr m"
  obtains m0 m1 m4 where "bm_freeze_check_invariants d = Inr ()" "copy_draft d = Inr m0"
    "bm_resolve_build_step_effective_paths d m0 = Inr m1"
    "bm_promote_custom_target_kinds (bm_materialize_imported_target_metadata (bm_resolve_link_item_target_ids d m1)) = Inr m4"
    "m = bm_populate_target_file_sets (bm_apply_source_property_mutations d (bm_apply_generated_source_marks d
           (bm_resolve_target_source_records d (bm_resolve_build_step_dependencies d m4))))"
  using assms that by (auto simp: resolved_model_def resolve_model_def and_then_Inr)

lemma effective_paths_frame:
  assumes "bm_resolve_build_step_effective_paths d m0 = Inr m1"
  shows "targets m1 = targets m0" "mo_directories m1 = mo_directories m0" "mo_global_properties m1 = mo_global_properties m0"
    "map_until (step_effective_paths d (mo_directories m0)) (build_steps m0) = Inr (build_steps m1)"
  using assms by (auto simp: bm_resolve_build_step_effective_paths_def and_then_Inr)

section \<open>References\<close>

lemma found_target: "draft_ok d \<Longrightarrow> bm_draft_find_target_id d name \<noteq> BM_ID_INVALID \<Longrightarrow> bm_draft_find_target_id d name < length (dr_targets d)"
  using dep_target_range [of d name] by (simp add: dep_target_def)

text \<open>A copied target refers to targets of the draft.\<close>

definition refs_in_range :: "nat \<Rightarrow> bm_target \<Rightarrow> bool" where
  "refs_in_range n t \<longleftrightarrow>
     (tg_alias_of_id t = BM_ID_INVALID \<or> tg_alias_of_id t < n) \<and> (\<forall>i\<in>set (tg_explicit_dependency_ids t). i < n)"

lemma clone_target_refs:
  assumes "draft_ok d" "clone_target d src = Inr t"
  shows "refs_in_range (length (dr_targets d)) t"
proof -
  obtain t1 deps where t1: "clone_alias d src (src\<lparr>tg_alias_of_id := BM_ID_INVALID,
      tg_source_records := map bm_clone_target_source_record (tg_source_records src),
      tg_file_sets := map bm_clone_target_file_set (tg_file_sets src)\<rparr>) = Inr t1"
    and deps: "map_until (resolved (bm_draft_find_target_id d) (tg_provenance src)
      ''target dependency could not be resolved during freeze'') (explicit_dependency_names src) = Inr deps"
    and t: "t = t1\<lparr>tg_explicit_dependency_ids := deps\<rparr>"
    using assms(2) unfolding clone_target_def and_then_Inr by auto
  have "i < length (dr_targets d)" if "i \<in> set deps" for i
    using map_until_in [OF deps that] found_target [OF assms(1)] by (auto simp: resolved_Inr)
  moreover have "tg_alias_of_id t1 = BM_ID_INVALID \<or> tg_alias_of_id t1 < length (dr_targets d)"
    using t1 found_target [OF assms(1)] by (auto simp: clone_alias_def and_then_Inr resolved_Inr Let_def split: if_splits)
  ultimately show ?thesis by (simp add: refs_in_range_def t)
qed

lemma refs_in_range_cong: "map refs_of ts = map refs_of us \<Longrightarrow> (\<forall>t\<in>set ts. refs_in_range n t) \<longleftrightarrow> (\<forall>t\<in>set us. refs_in_range n t)"
proof -
  have r: "(\<forall>t\<in>set ts. refs_in_range n t) \<longleftrightarrow>
      (\<forall>x\<in>set (map refs_of ts). case x of (a, b, c, i, deps) \<Rightarrow> (i = BM_ID_INVALID \<or> i < n) \<and> (\<forall>j\<in>set deps. j < n))" for ts
    by (simp add: refs_in_range_def refs_of_def)
  show "map refs_of ts = map refs_of us \<Longrightarrow> ?thesis" unfolding r by simp
qed

lemma follow_alias_real:
  assumes "\<forall>t\<in>set ts. refs_in_range (length ts) t"
  shows "cur = BM_ID_INVALID \<or> cur < length ts \<Longrightarrow>
    (case follow_alias ts n cur of i \<Rightarrow> i = BM_ID_INVALID \<or> i < length ts \<and> \<not> tg_alias (ts ! i))"
proof (induction n arbitrary: cur)
  case (Suc n)
  have "tg_alias_of_id (ts ! cur) = BM_ID_INVALID \<or> tg_alias_of_id (ts ! cur) < length ts" if "cur < length ts"
    using assms that by (simp add: refs_in_range_def)
  with Suc show ?case by auto
qed simp

text \<open>What a reference by name becomes: no target, or one that is no alias.\<close>

lemma referenced_target_real:
  assumes "draft_ok d" "length (targets m) = length (dr_targets d)"
    "\<forall>t\<in>set (targets m). refs_in_range (length (targets m)) t"
  shows "referenced_target d m name = BM_ID_INVALID \<or> real_target m (referenced_target d m name)"
  using follow_alias_real [OF assms(3), of "bm_draft_find_target_id d name" "length (targets m)"]
    found_target [OF assms(1), of name] assms(2)
  by (auto simp: referenced_target_def bm_freeze_resolve_alias_target_id_def real_target_def Let_def)

section \<open>Producers\<close>

lemma find_producer_Some:
  assumes "\<forall>j<length ss. st_id (ss ! j) = i0 + j" "find_producer ss path = i" "i \<noteq> BM_ID_INVALID"
  shows "i0 \<le> i \<and> i < i0 + length ss \<and> path \<in> set (step_paths (ss ! (i - i0)))"
  using assms
proof (induction ss arbitrary: i0)
  case (Cons s ss)
  show ?case
  proof (cases "path \<in> set (step_paths s)")
    case True
    then have "i = st_id s" using Cons.prems(2) by (auto simp: step_paths_def list_ex_iff)
    with Cons.prems(1) True show ?thesis by auto
  next
    case False
    then have "find_producer ss path = i" using Cons.prems(2) by (auto simp: step_paths_def list_ex_iff split: if_splits)
    moreover have "\<forall>j<length ss. st_id (ss ! j) = Suc i0 + j" using Cons.prems(1) by auto
    ultimately have "Suc i0 \<le> i \<and> i < Suc i0 + length ss \<and> path \<in> set (step_paths (ss ! (i - Suc i0)))"
      using Cons by blast
    then show ?thesis by (simp add: nth_Cons' )
  qed
qed simp

definition steps_numbered :: "bm_build_step list \<Rightarrow> bool" where
  "steps_numbered ss \<longleftrightarrow> (\<forall>j<length ss. st_id (ss ! j) = j)"

lemma producer_found:
  "steps_numbered (build_steps m) \<Longrightarrow> bm_find_producer_step_id_by_path m path \<noteq> BM_ID_INVALID \<Longrightarrow>
   bm_find_producer_step_id_by_path m path < length (build_steps m) \<and>
   path \<in> set (step_paths (build_steps m ! bm_find_producer_step_id_by_path m path))"
  using find_producer_Some [of "build_steps m" 0 path] by (simp add: bm_find_producer_step_id_by_path_def steps_numbered_def)

lemma checked_steps:
  assumes "bm_freeze_check_invariants d = Inr ()"
  shows "steps_numbered (dr_build_steps d)"
  using assms by (auto simp: bm_freeze_check_invariants_def and_then_Inr each_row_Inr row_fault_def steps_numbered_def
      split: if_splits)

lemma steps_numbered_cong: "map st_id ss = map st_id us \<Longrightarrow> steps_numbered ss = steps_numbered us"
  by (metis map_eq_imp_length_eq nth_map steps_numbered_def)

lemma effective_paths_ids:
  assumes "bm_resolve_build_step_effective_paths d m0 = Inr m1"
  shows "map st_id (build_steps m1) = map st_id (build_steps m0)"
proof (rule map_until_same [OF effective_paths_frame(4) [OF assms]])
  show "step_effective_paths d (mo_directories m0) s = Inr s' \<Longrightarrow> st_id s' = st_id s" for s s'
    by (auto simp: step_effective_paths_def and_then_Inr Let_def split: if_splits)
qed

section \<open>Dependencies of build steps\<close>

text \<open>A dependency that resolved names a target that is no alias, or a step that makes its path.\<close>

definition dependency_ok :: "build_model \<Rightarrow> string_view \<Rightarrow> bm_step_dependency \<Rightarrow> bool" where
  "dependency_ok m source_dir dep \<longleftrightarrow>
     (sd_target_id dep = BM_ID_INVALID \<or> real_target m (sd_target_id dep)) \<and>
     (sd_producer_step_id dep = BM_ID_INVALID \<or>
        sd_producer_step_id dep < length (build_steps m) \<and>
        {bm_normalize_path (sd_raw_token dep), bm_path_rebase_if_needed source_dir (sd_raw_token dep)} \<inter>
          set (step_paths (build_steps m ! sd_producer_step_id dep)) \<noteq> {})"

definition collected_ok :: "build_model \<Rightarrow> bm_build_step \<Rightarrow> bool" where
  "collected_ok m s \<longleftrightarrow>
     (\<forall>i\<in>set (st_resolved_targets s). real_target m i) \<and> (\<forall>i\<in>set (st_resolved_producers s). i < length (build_steps m))"

text \<open>What collecting dependencies does not change in a step.\<close>

definition same_step :: "bm_build_step \<Rightarrow> bm_build_step \<Rightarrow> bool" where
  "same_step s s' \<longleftrightarrow>
     st_id s' = st_id s \<and> step_paths s' = step_paths s \<and> st_owner_directory_id s' = st_owner_directory_id s \<and>
     st_owner_target_id s' = st_owner_target_id s \<and> st_kind s' = st_kind s"

lemma same_step_trans: "same_step s t \<Longrightarrow> same_step t u \<Longrightarrow> same_step s u"
  by (simp add: same_step_def)

lemma resolve_step_dependency_ok:
  assumes "steps_numbered (build_steps m)"
    "\<And>name. referenced_target d m name = BM_ID_INVALID \<or> real_target m (referenced_target d m name)"
    "sd_target_id dep = BM_ID_INVALID" "sd_producer_step_id dep = BM_ID_INVALID" "collected_ok m s"
    "resolve_step_dependency d m source_dir dep s = (dep', s')"
  shows "dependency_ok m source_dir dep'" "collected_ok m s'" "same_step s s'"
proof -
  let ?p = "bm_find_producer_step_id_by_path m"
  note made = producer_found [OF assms(1)]
  show "dependency_ok m source_dir dep'" "collected_ok m s'" "same_step s s'"
    using assms(2) [of "sd_target_name dep"] assms(3-6) made [of "bm_normalize_path (sd_raw_token dep)"]
      made [of "bm_path_rebase_if_needed source_dir (sd_raw_token dep)"]
    by (auto simp: resolve_step_dependency_def dependency_ok_def collected_ok_def same_step_def step_paths_def Let_def
        split: bm_step_dependency_kind.splits if_splits)
qed

lemma resolve_step_dependencies_ok:
  assumes "steps_numbered (build_steps m)"
    "\<And>name. referenced_target d m name = BM_ID_INVALID \<or> real_target m (referenced_target d m name)"
  shows "\<forall>dep\<in>set deps. sd_target_id dep = BM_ID_INVALID \<and> sd_producer_step_id dep = BM_ID_INVALID \<Longrightarrow> collected_ok m s \<Longrightarrow>
    resolve_step_dependencies d m source_dir deps s = (deps', s') \<Longrightarrow>
    (\<forall>dep\<in>set deps'. dependency_ok m source_dir dep) \<and> collected_ok m s' \<and> same_step s s'"
proof (induction deps arbitrary: s deps' s')
  case Nil
  then show ?case by (simp add: same_step_def)
next
  case (Cons dep deps)
  obtain dep1 s1 where 1: "resolve_step_dependency d m source_dir dep s = (dep1, s1)" by fastforce
  obtain deps1 s2 where 2: "resolve_step_dependencies d m source_dir deps s1 = (deps1, s2)" by fastforce
  have "sd_target_id dep = BM_ID_INVALID" "sd_producer_step_id dep = BM_ID_INVALID" using Cons.prems(1) by simp_all
  note one = resolve_step_dependency_ok [OF assms this Cons.prems(2) 1]
  have "(\<forall>dep\<in>set deps1. dependency_ok m source_dir dep) \<and> collected_ok m s2 \<and> same_step s1 s2"
    using Cons.IH [OF _ one(2) 2] Cons.prems(1) by simp
  then show ?case using Cons.prems(3) 1 2 one same_step_trans by auto
qed

section \<open>Sources\<close>

lemma on_sources_all:
  assumes "\<forall>t\<in>set (targets m). \<forall>s\<in>set (tg_source_records t). P s" "\<And>t s. P s \<Longrightarrow> Q (f t s)"
  shows "\<forall>t\<in>set (targets (on_sources f m)). \<forall>s\<in>set (tg_source_records t). Q s"
  using assms by (auto simp: on_sources_def)

lemma fold_sources_all:
  "\<forall>t\<in>set (targets m). \<forall>s\<in>set (tg_source_records t). P s \<Longrightarrow> (\<And>x t s. x \<in> set xs \<Longrightarrow> P s \<Longrightarrow> P (f x t s)) \<Longrightarrow>
   \<forall>t\<in>set (targets (fold (\<lambda>x. on_sources (f x)) xs m)). \<forall>s\<in>set (tg_source_records t). P s"
proof (induction xs arbitrary: m)
  case (Cons x xs)
  have "\<forall>t\<in>set (targets (on_sources (f x) m)). \<forall>s\<in>set (tg_source_records t). P s"
    by (rule on_sources_all [of _ P]) (use Cons.prems in auto)
  from Cons.IH [OF this] Cons.prems(2) show ?case by simp
qed simp

lemma sources_cong: "map tg_source_records (ts :: bm_target list) = map tg_source_records (us :: bm_target list) \<Longrightarrow>
  (\<forall>t\<in>set ts. \<forall>s\<in>set (tg_source_records t). P s) \<longleftrightarrow> (\<forall>t\<in>set us. \<forall>s\<in>set (tg_source_records t). P s)"
proof -
  have r: "(\<forall>t\<in>set ts. \<forall>s\<in>set (tg_source_records t). P s) \<longleftrightarrow> (\<forall>ss\<in>set (map tg_source_records ts). \<forall>s\<in>set ss. P s)"
    for ts :: "bm_target list" by simp
  show "map tg_source_records ts = map tg_source_records us \<Longrightarrow> ?thesis" unfolding r by simp
qed

lemma source_property_apply_keeps:
  "src_producer_step_id (bm_source_property_apply mut s) = src_producer_step_id s"
  "src_effective_path (bm_source_property_apply mut s) = src_effective_path s"
  "src_generated (bm_source_property_apply mut s) =
     (if bm_sv_eq_ci_freeze (sm_key mut) ''GENERATED'' then bm_sv_truthy (sm_value mut) else src_generated s)"
  by (simp_all add: bm_source_property_apply_def Let_def)

text \<open>The producer of a source is a step that makes one of the paths it may be known by.\<close>

lemma resolve_source_producer:
  assumes "steps_numbered (build_steps m)" "src_producer_step_id s = BM_ID_INVALID"
    "s' = resolve_source_record marks m dir s"
  shows "src_producer_step_id s' = BM_ID_INVALID \<or> src_producer_step_id s' < length (build_steps m)"
  using producer_found [OF assms(1)] assms(2)
  unfolding assms(3) resolve_source_record_def candidate_paths_def Let_def
  by (auto split: option.splits if_splits)

text \<open>It makes the effective path when every mark is for a path that some step makes.\<close>

lemma find_mark_in: "bm_find_generated_source_mark mks path = Some mk \<Longrightarrow> mk \<in> set mks \<and> gm_path mk = path"
  by (induction mks) (auto split: if_splits)

lemma resolve_source_contract:
  assumes "steps_numbered (build_steps m)" "src_producer_step_id s = BM_ID_INVALID"
    "\<forall>mk\<in>set marks. bm_find_producer_step_id_by_path m (gm_path mk) \<noteq> BM_ID_INVALID"
  shows "source_contract m (resolve_source_record marks m dir s)"
proof -
  have mark: "bm_find_producer_step_id_by_path m path \<noteq> BM_ID_INVALID" if "bm_find_generated_source_mark marks path \<noteq> None" for path
    using that assms(3) find_mark_in by fastforce
  show ?thesis
    using producer_found [OF assms(1)] assms(2) mark
    unfolding resolve_source_record_def candidate_paths_def Let_def source_contract_def
    by (simp split: option.split)
qed

section \<open>Scanning for configurations\<close>

text \<open>With memory there, only a NUL byte in the text can stop a scan.\<close>

definition nul_free :: "string_view \<Rightarrow> bool" where
  "nul_free v \<longleftrightarrow> NUL \<notin> set v"

lemma nul_free_sub: "set a \<subseteq> set b \<Longrightarrow> nul_free b \<Longrightarrow> nul_free a"
  by (auto simp: nul_free_def)

lemma clean_trim: "nul_free s \<Longrightarrow> nul_free (gx_trim s)"
  using set_nob_sv_trim [of s] by (auto simp: nul_free_def gx_trim_def)

lemma split_pieces_set: "p \<in> set (gx_split_pieces input d i start depth) \<Longrightarrow> set p \<subseteq> set input"
proof (induction input d i start depth rule: gx_split_pieces.induct)
  case (1 input d i start depth)
  have "set (take (i - start) (drop start input)) \<subseteq> set input" by (meson order_trans set_drop_subset set_take_subset)
  with 1 show ?case by (auto simp: gx_split_pieces.simps [of input d i] split: if_splits)
qed

lemma split_pieces_some: "i \<le> length input \<Longrightarrow> gx_split_pieces input d i start depth \<noteq> []"
proof (induction input d i start depth rule: gx_split_pieces.induct)
  case (1 input d i start depth)
  then show ?case using open_at_bound [of input i]
    by (auto simp: gx_split_pieces.simps [of input d i] split_here_def split: if_splits)
qed

lemma split_alloc_clean:
  "nul_free input \<Longrightarrow> gx_split_top_level_alloc freeze_genex_context input d \<noteq> []"
  "nul_free input \<Longrightarrow> p \<in> set (gx_split_top_level_alloc freeze_genex_context input d) \<Longrightarrow> nul_free p"
  using split_pieces_some [of 0 input d 0 0] gx_split_count_pieces [of input d 0 0 0]
  by (auto simp: gx_split_top_level_alloc_def freeze_genex_context_def Let_def
      intro!: clean_trim intro: nul_free_sub [OF split_pieces_set] dest!: in_set_takeD)

lemma push_unique_clean: "nul_free v \<Longrightarrow> fst (gx_known_configs_push_unique_ci freeze_genex_context cs v)"
  using clean_trim [of v]
  by (simp add: gx_known_configs_push_unique_ci_def gx_copy_to_arena_def freeze_genex_context_def Let_def nul_free_def c_str_id)

lemma semi_pieces_clean: "nul_free acc \<Longrightarrow> nul_free s \<Longrightarrow> p \<in> set (semi_pieces acc s) \<Longrightarrow> nul_free p"
  by (induction acc s rule: semi_pieces.induct) (auto simp: nul_free_def split: if_splits)

lemma push_all_clean: "(\<And>p. p \<in> set ps \<Longrightarrow> nul_free p) \<Longrightarrow> fst (push_all freeze_genex_context cs ps)"
proof (induction ps arbitrary: cs)
  case (Cons p ps)
  obtain c1 where "gx_known_configs_push_unique_ci freeze_genex_context cs p = (True, c1)"
    using push_unique_clean [of p cs] Cons.prems [of p]
    by (cases "gx_known_configs_push_unique_ci freeze_genex_context cs p") simp
  with Cons show ?case by simp
qed simp

lemma push_literals_clean: "nul_free v \<Longrightarrow> fst (gx_known_configs_push_literal_list freeze_genex_context cs v)"
  unfolding gx_known_configs_push_literal_list_def
  by (rule push_all_clean) (rule semi_pieces_clean [of "[]" "gx_trim v"], simp_all add: clean_trim, simp add: nul_free_def)

lemma split_op_clean: "nul_free body \<Longrightarrow> gx_split_op body = (op, args) \<Longrightarrow> nul_free op \<and> nul_free args"
  using nul_free_sub [OF set_take_subset] nul_free_sub [OF set_drop_subset]
  by (auto simp: gx_split_op_def nul_free_def [of "[]"] split: option.splits intro!: clean_trim)

lemma config_args_clean:
  "(\<And>a c. a \<in> set args \<Longrightarrow> nul_free a \<and> fst (rec a c)) \<Longrightarrow> fst (collect_config_args rec freeze_genex_context args cs)"
proof (induction args arbitrary: cs)
  case (Cons a args)
  obtain c1 where 1: "rec a cs = (True, c1)" using Cons.prems [of a cs] by (cases "rec a cs") simp
  obtain c2 where "gx_known_configs_push_literal_list freeze_genex_context c1 a = (True, c2)"
    using push_literals_clean [of a c1] Cons.prems [of a] by (cases "gx_known_configs_push_literal_list freeze_genex_context c1 a") simp
  with 1 Cons show ?case by simp
qed simp

lemma args_clean: "(\<And>a c. a \<in> set args \<Longrightarrow> fst (rec a c)) \<Longrightarrow> fst (collect_args rec args cs)"
proof (induction args arbitrary: cs)
  case (Cons a args)
  obtain c1 where "rec a cs = (True, c1)" using Cons.prems [of a cs] by (cases "rec a cs") simp
  with Cons show ?case by simp
qed simp

lemma strequal_clean: "(\<And>a. a \<in> set args \<Longrightarrow> nul_free a) \<Longrightarrow> fst (collect_strequal_literal freeze_genex_context args cs)"
  by (auto simp: collect_strequal_literal_def Let_def push_unique_clean split: list.split)

lemma body_clean:
  assumes "\<And>a c. length a \<le> length body \<Longrightarrow> nul_free a \<Longrightarrow> fst (rec a c)" "nul_free body"
  shows "fst (gx_known_configs_collect_body rec freeze_genex_context body cs)"
proof -
  obtain op args where s: "gx_split_op body = (op, args)" by fastforce
  note len = gx_split_op_length [OF s] and cl = split_op_clean [OF assms(2) s]
  let ?as = "gx_split_top_level_alloc freeze_genex_context args CHR '',''"
  have a: "nul_free a \<and> fst (rec a c)" if "a \<in> set ?as" for a c
    using that len cl gx_split_alloc_length [of a freeze_genex_context args "CHR '',''"] split_alloc_clean(2) [of args a]
    by (auto intro!: assms(1))
  have rec: "fst (rec op c)" "fst (rec args c)" for c using len cl by (auto intro!: assms(1))
  have "fst (collect_config_args rec freeze_genex_context ?as c)" "fst (collect_args rec ?as c)"
    "fst (collect_strequal_literal freeze_genex_context ?as c)" for c
    using a by (auto intro!: config_args_clean args_clean strequal_clean)
  with rec have ok:
    "\<exists>f. \<forall>c. collect_config_args rec freeze_genex_context ?as c = (True, f c)" "\<exists>f. \<forall>c. collect_args rec ?as c = (True, f c)"
    "\<exists>f. \<forall>c. collect_strequal_literal freeze_genex_context ?as c = (True, f c)"
    "\<exists>f. \<forall>c. rec op c = (True, f c)" "\<exists>f. \<forall>c. rec args c = (True, f c)"
    by (simp_all add: prod_eq_iff) (rule exI [of _ "\<lambda>c. snd (_ c)"], rule allI, rule refl)+
  obtain f g h k l where ok: "\<And>c. collect_config_args rec freeze_genex_context ?as c = (True, f c)"
    "\<And>c. collect_args rec ?as c = (True, g c)" "\<And>c. collect_strequal_literal freeze_genex_context ?as c = (True, h c)"
    "\<And>c. rec op c = (True, k c)" "\<And>c. rec args c = (True, l c)"
    using ok by (elim exE) (rule that, blast+)
  have n: "?as \<noteq> []" using split_alloc_clean(1) cl by simp
  show ?thesis
    using ok n unfolding gx_known_configs_collect_body_def s Let_def prod.case by (cases "args = []") simp_all
qed

lemma loop_clean:
  assumes "\<And>a c. length a < length input \<Longrightarrow> nul_free a \<Longrightarrow> fst (rec a c)" "nul_free input"
  shows "fst (gx_known_loop rec freeze_genex_context input i cs)"
proof (induction "length input - i" arbitrary: i cs rule: less_induct)
  case less
  have b: "fst (gx_known_configs_collect_body rec freeze_genex_context (take (e - (i + 2)) (drop (i + 2) input)) cs)"
    if "gx_find_matching_genex_end input i = Some e" for e
  proof (rule body_clean)
    show "nul_free (take (e - (i + 2)) (drop (i + 2) input))"
      by (rule nul_free_sub [OF _ assms(2)]) (meson order_trans set_drop_subset set_take_subset)
  qed (use loop_body_length [OF that] assms(1) in auto)
  have e: "gx_find_matching_genex_end input i = Some e \<Longrightarrow> i + 1 < length input \<Longrightarrow>
      length input - (e + 1) < length input - i" for e
    using gx_matching_end_bounds [of input i e] by auto
  show ?case
    using less e b by (fastforce simp: gx_known_loop.simps [of _ _ input i] split: option.split prod.split)
qed

lemma scan_clean: "nul_free v \<Longrightarrow> fst (gx_known_configs_collect_inner freeze_genex_context v cs)"
proof (induction "length v" arbitrary: v cs rule: less_induct)
  case less
  show ?case unfolding collect_inner_eq [of _ v cs] by (rule loop_clean) (use less in auto)
qed

lemma run_config_jobs_clean: "(\<And>v. Scan_Text v \<in> set jobs \<Longrightarrow> nul_free v) \<Longrightarrow> \<exists>cs'. run_config_jobs jobs cs = Some cs'"
proof (induction jobs cs rule: run_config_jobs.induct)
  case (2 v jobs cs)
  then have "nul_free v" by simp
  then obtain cs1 where "genex_collect_known_configs (Some freeze_genex_context) v cs = (True, cs1)"
    using scan_clean [of v cs] unfolding genex_collect_known_configs_def
    by (cases "gx_known_configs_collect_inner freeze_genex_context v cs") simp
  with 2 show ?case by simp
qed simp_all

end
