(* ===== verification/Bm_Freeze_Model.thy ===== *)
theory Bm_Freeze_Model
  imports Bm_Freeze_Facts
begin

text \<open>
  The model as the steps of the freeze leave it: what its references and the producers of its
  sources are, why a validated draft gets through every step, and the verdict on the result.
\<close>

section \<open>References\<close>

definition link_ok :: "build_model \<Rightarrow> bm_link_item \<Rightarrow> bool" where
  "link_ok m l \<longleftrightarrow>
     (lm_kind (li_semantic l) = EVENT_LINK_ITEM_TARGET_REF \<and> lm_target_name (li_semantic l) \<noteq> [] \<longrightarrow>
        li_target_id l = BM_ID_INVALID \<or> real_target m (li_target_id l))"

definition step_refs_ok :: "build_model \<Rightarrow> bm_build_step \<Rightarrow> bool" where
  "step_refs_ok m s \<longleftrightarrow>
     (st_owner_target_id s = BM_ID_INVALID \<or> st_owner_target_id s < length (targets m)) \<and> collected_ok m s \<and>
     (\<forall>dep\<in>set (st_dependencies s). dependency_ok m (di_source_dir (mo_directories m ! st_owner_directory_id s)) dep)"

definition references_ok :: "build_model \<Rightarrow> bool" where
  "references_ok m \<longleftrightarrow>
     (\<forall>t\<in>set (targets m). refs_in_range (length (targets m)) t \<and> (\<forall>l\<in>set (tg_link_libraries t). link_ok m l) \<and>
        (\<forall>s\<in>set (tg_source_records t).
           src_producer_step_id s = BM_ID_INVALID \<or> src_producer_step_id s < length (build_steps m))) \<and>
     (\<forall>r\<in>set (mo_directories m). \<forall>l\<in>set (di_link_libraries r). link_ok m l) \<and>
     (\<forall>l\<in>set (gp_link_libraries (mo_global_properties m)). link_ok m l) \<and>
     (\<forall>s\<in>set (build_steps m). step_refs_ok m s)"

lemma clone_sources:
  assumes "clone_target d src = Inr t" "s \<in> set (tg_source_records t)"
  shows "src_producer_step_id s = BM_ID_INVALID"
proof -
  have "tg_source_records t = map bm_clone_target_source_record (tg_source_records src)"
    using assms(1) by (auto simp: clone_target_def clone_alias_def and_then_Inr Let_def split: if_splits)
  with assms(2) show ?thesis by (auto simp: bm_clone_target_source_record_def)
qed

definition fresh_step :: "nat \<Rightarrow> bm_build_step \<Rightarrow> bool" where
  "fresh_step n s \<longleftrightarrow>
     st_resolved_targets s = [] \<and> st_resolved_producers s = [] \<and>
     (st_owner_target_id s = BM_ID_INVALID \<or> st_owner_target_id s < n) \<and>
     (\<forall>dep\<in>set (st_dependencies s). sd_target_id dep = BM_ID_INVALID \<and> sd_producer_step_id dep = BM_ID_INVALID)"

lemma fresh_clone: "fresh_step n (clone_build_step s)"
  by (auto simp: fresh_step_def clone_build_step_def bm_clone_build_step_dependency_def)

lemma fresh_paths:
  assumes "draft_ok d" "fresh_step (length (dr_targets d)) s" "step_effective_paths d ds s = Inr s'"
  shows "fresh_step (length (dr_targets d)) s'"
proof -
  have "st_resolved_targets s' = st_resolved_targets s \<and> st_resolved_producers s' = st_resolved_producers s \<and>
      st_dependencies s' = st_dependencies s"
    "st_owner_target_id s' = st_owner_target_id s \<or> st_owner_target_id s' < length (dr_targets d)"
    using assms(3) found_target [OF assms(1)]
    by (auto simp: step_effective_paths_def and_then_Inr resolved_Inr Let_def split: if_splits)
  with assms(2) show ?thesis by (auto simp: fresh_step_def)
qed

text \<open>The model before the dependencies of steps are resolved, \<open>m4\<close> of \<open>stages\<close>.\<close>

lemma promoted_model:
  assumes "draft_ok d" "bm_freeze_check_invariants d = Inr ()" "copy_draft d = Inr m0"
    "bm_resolve_build_step_effective_paths d m0 = Inr m1"
    "bm_promote_custom_target_kinds (bm_materialize_imported_target_metadata (bm_resolve_link_item_target_ids d m1)) = Inr m4"
  shows "length (targets m4) = length (dr_targets d)" (is ?len)
    "\<forall>t\<in>set (targets m4). refs_in_range (length (targets m4)) t" (is ?refs)
    "referenced_target d m4 name = BM_ID_INVALID \<or> real_target m4 (referenced_target d m4 name)" (is ?real)
    "\<forall>t\<in>set (targets m4). \<forall>s\<in>set (tg_source_records t). src_producer_step_id s = BM_ID_INVALID" (is ?srcs)
    "steps_numbered (build_steps m4)" (is ?steps)
    "build_steps m4 = build_steps m1"
    "\<forall>s\<in>set (build_steps m1). fresh_step (length (targets m4)) s" (is ?own)
    "map refs_of (targets m4) = map refs_of (targets m1)"
proof -
  let ?m3 = "bm_materialize_imported_target_metadata (bm_resolve_link_item_target_ids d m1)"
  note c = copied [OF assms(3)] and e = effective_paths_frame [OF assms(4)] and p = promote_frame [OF assms(5)]
  show refs: "map refs_of (targets m4) = map refs_of (targets m1)" by (simp add: p frame)
  have l: "length (targets m1) = length (dr_targets d)"
    using c(1) e(1) by (simp add: map_until_Inr list_all2_lengthD)
  then show len: ?len using refs_nth(1) [OF refs] by simp
  have "\<forall>t\<in>set (targets m1). refs_in_range (length (dr_targets d)) t"
    unfolding e(1) using map_until_in [OF c(1)] clone_target_refs [OF assms(1)] by blast
  then show range: ?refs using refs_in_range_cong [OF refs] len by simp
  show ?real by (rule referenced_target_real [OF assms(1) len range])
  have "\<forall>t\<in>set (targets m1). \<forall>s\<in>set (tg_source_records t). src_producer_step_id s = BM_ID_INVALID"
    unfolding e(1) using map_until_in [OF c(1)] clone_sources by blast
  moreover have "map tg_source_records (targets m4) = map tg_source_records (targets m1)" by (simp add: p frame)
  ultimately show ?srcs using sources_cong [of "targets m4" "targets m1" "\<lambda>s. src_producer_step_id s = BM_ID_INVALID"] by simp
  show b: "build_steps m4 = build_steps m1" by (simp add: p frame)
  have "map st_id (build_steps m1) = map st_id (dr_build_steps d)"
    using effective_paths_ids [OF assms(4)] c(2) by (simp add: clone_build_step_def comp_def)
  then show ?steps unfolding b using steps_numbered_cong checked_steps [OF assms(2)] by blast
  have "\<forall>s\<in>set (build_steps m0). fresh_step (length (dr_targets d)) s" using c(2) fresh_clone by auto
  then show ?own unfolding len using map_until_in [OF e(4)] fresh_paths [OF assms(1)] by blast
qed

text \<open>The dependencies resolved: the steps of the final model.\<close>

lemma resolved_steps:
  assumes "steps_numbered (build_steps m)"
    "\<And>name. referenced_target d m name = BM_ID_INVALID \<or> real_target m (referenced_target d m name)"
    "\<forall>s\<in>set (build_steps m). fresh_step (length (targets m)) s"
  shows "(\<forall>s\<in>set (build_steps (bm_resolve_build_step_dependencies d m)). step_refs_ok m s) \<and>
    map step_paths (build_steps (bm_resolve_build_step_dependencies d m)) = map step_paths (build_steps m) \<and>
    map st_id (build_steps (bm_resolve_build_step_dependencies d m)) = map st_id (build_steps m)"
proof -
  let ?dir = "\<lambda>s. di_source_dir (mo_directories m ! st_owner_directory_id s)"
  let ?f = "\<lambda>s. case resolve_step_dependencies d m (?dir s) (st_dependencies s) s of (deps, s1) \<Rightarrow> s1\<lparr>st_dependencies := deps\<rparr>"
  have one: "step_refs_ok m (?f s) \<and> same_step s (?f s)" if "s \<in> set (build_steps m)" for s
  proof -
    obtain deps s1 where r: "resolve_step_dependencies d m (?dir s) (st_dependencies s) s = (deps, s1)" by fastforce
    have "\<forall>dep\<in>set (st_dependencies s). sd_target_id dep = BM_ID_INVALID \<and> sd_producer_step_id dep = BM_ID_INVALID"
      and "collected_ok m s" using assms(3) that by (auto simp: fresh_step_def collected_ok_def)
    from resolve_step_dependencies_ok [OF assms(1,2) this r] assms(3) that show ?thesis
      by (simp add: r step_refs_ok_def same_step_def collected_ok_def step_paths_def fresh_step_def)
  qed
  then show ?thesis by (auto simp: bm_resolve_build_step_dependencies_def same_step_def)
qed

lemma step_refs_cong:
  assumes "map refs_of (targets m) = map refs_of (targets m')" "map step_paths (build_steps m) = map step_paths (build_steps m')"
    "mo_directories m = mo_directories m'"
  shows "step_refs_ok m = step_refs_ok m'"
proof -
  have n: "length (targets m) = length (targets m')" "length (build_steps m) = length (build_steps m')"
    using assms(1,2) by (auto dest: map_eq_imp_length_eq)
  have p: "step_paths (build_steps m ! i) = step_paths (build_steps m' ! i)" if "i < length (build_steps m')" for i
    using assms(2) n(2) that by (metis nth_map)
  have "dependency_ok m sd dep = dependency_ok m' sd dep" for sd dep
    unfolding dependency_ok_def real_target_cong [OF assms(1)] n using p by auto
  then show ?thesis
    unfolding step_refs_ok_def fun_eq_iff collected_ok_def real_target_cong [OF assms(1)] n assms(3) by simp
qed

lemma link_ok_cong: "real_target m = real_target m' \<Longrightarrow> link_ok m = link_ok m'"
  by (simp add: link_ok_def fun_eq_iff)

lemma resolved_link_items:
  assumes "\<And>name. referenced_target d m1 name = BM_ID_INVALID \<or> real_target m1 (referenced_target d m1 name)"
    "m2 = bm_resolve_link_item_target_ids d m1"
  shows "\<forall>ls\<in>set (map tg_link_libraries (targets m2)). \<forall>l\<in>set ls. link_ok m1 l"
    "\<forall>r\<in>set (mo_directories m2). \<forall>l\<in>set (di_link_libraries r). link_ok m1 l"
    "\<forall>l\<in>set (gp_link_libraries (mo_global_properties m2)). link_ok m1 l"
proof -
  have "link_ok m1 (resolve_link_item d m1 l)" for l
    using assms(1) by (auto simp: resolve_link_item_def link_ok_def)
  then show "\<forall>ls\<in>set (map tg_link_libraries (targets m2)). \<forall>l\<in>set ls. link_ok m1 l"
    "\<forall>r\<in>set (mo_directories m2). \<forall>l\<in>set (di_link_libraries r). link_ok m1 l"
    "\<forall>l\<in>set (gp_link_libraries (mo_global_properties m2)). link_ok m1 l"
    unfolding assms(2) by (auto simp: bm_resolve_link_item_target_ids_def Let_def)
qed

text \<open>From a predicate that the resolution of sources establishes and the later steps keep.\<close>

lemma final_sources:
  assumes "\<forall>t\<in>set (targets m5). \<forall>s\<in>set (tg_source_records t). P s"
    "\<And>marks dir s. marks = dr_source_marks d \<Longrightarrow> P s \<Longrightarrow> Q (resolve_source_record marks m5 dir s)"
    "\<And>mk s. mk \<in> set (dr_source_marks d) \<Longrightarrow> Q s \<Longrightarrow> Q (apply_source_mark mk s)"
    "\<And>mut s. mut \<in> set (dr_source_mutations d) \<Longrightarrow> Q s \<Longrightarrow> Q (bm_source_property_apply mut s)"
    "m = bm_populate_target_file_sets (bm_apply_source_property_mutations d (bm_apply_generated_source_marks d
           (bm_resolve_target_source_records d m5)))"
  shows "\<forall>t\<in>set (targets m). \<forall>s\<in>set (tg_source_records t). Q s"
proof -
  let ?m6 = "bm_resolve_target_source_records d m5"
  let ?m7 = "bm_apply_generated_source_marks d ?m6"
  let ?m8 = "bm_apply_source_property_mutations d ?m7"
  have "\<forall>t\<in>set (targets ?m6). \<forall>s\<in>set (tg_source_records t). Q s"
    unfolding bm_resolve_target_source_records_def by (rule on_sources_all [OF assms(1)]) (rule assms(2) [OF refl])
  then have "\<forall>t\<in>set (targets ?m7). \<forall>s\<in>set (tg_source_records t). Q s"
    unfolding bm_apply_generated_source_marks_def by (rule fold_sources_all) (rule assms(3))
  then have "\<forall>t\<in>set (targets ?m8). \<forall>s\<in>set (tg_source_records t). Q s"
    unfolding bm_apply_source_property_mutations_def
    by (rule fold_sources_all) (simp add: apply_source_mutation_def assms(4))
  moreover have "map tg_source_records (targets m) = map tg_source_records (targets ?m8)"
    unfolding assms(5) by (rule file_sets_frame)
  ultimately show ?thesis using sources_cong [of "targets m" "targets ?m8" Q] by simp
qed

lemma resolved_references:
  assumes "draft_ok d" "resolved_model d = Inr m"
  shows "references_ok m"
proof -
  obtain m0 m1 m4 where st: "bm_freeze_check_invariants d = Inr ()" "copy_draft d = Inr m0"
    "bm_resolve_build_step_effective_paths d m0 = Inr m1"
    "bm_promote_custom_target_kinds (bm_materialize_imported_target_metadata (bm_resolve_link_item_target_ids d m1)) = Inr m4"
    and m: "m = bm_populate_target_file_sets (bm_apply_source_property_mutations d (bm_apply_generated_source_marks d
           (bm_resolve_target_source_records d (bm_resolve_build_step_dependencies d m4))))"
    using assms(2) by (rule stages)
  let ?m2 = "bm_resolve_link_item_target_ids d m1" and ?m5 = "bm_resolve_build_step_dependencies d m4"
  note p = promoted_model [OF assms(1) st] and f = promote_frame [OF st(4)]
  have r4: "map refs_of (targets m) = map refs_of (targets m4)" unfolding m by (simp add: frame)
  have r1: "map refs_of (targets m) = map refs_of (targets m1)" using r4 p(8) by simp
  have n: "length (targets m) = length (targets m4)" "length (targets m1) = length (dr_targets d)"
    using refs_nth(1) [OF r4] refs_nth(1) [OF r1] p(1) by simp_all
  have "\<forall>t\<in>set (targets m1). refs_in_range (length (targets m1)) t"
    using p(2) refs_in_range_cong [OF p(8)] p(1) n(2) by simp
  note real = referenced_target_real [OF assms(1) n(2) this]
  note links = resolved_link_items [OF real refl] and same = link_ok_cong [OF real_target_cong [OF r1]]
  have frames: "map tg_link_libraries (targets m) = map tg_link_libraries (targets ?m2)" "mo_directories m = mo_directories ?m2"
    "mo_global_properties m = mo_global_properties ?m2" unfolding m by (simp_all add: frame f)
  have steps: "step_refs_ok m4 = step_refs_ok m" "\<forall>s\<in>set (build_steps m). step_refs_ok m4 s"
    "steps_numbered (build_steps ?m5)" "build_steps m = build_steps ?m5"
  proof -
    have own: "\<forall>s\<in>set (build_steps m4). fresh_step (length (targets m4)) s" using p(6,7) by simp
    note rs = resolved_steps [OF p(5,3) own]
    show b: "build_steps m = build_steps ?m5" unfolding m by (simp add: frame)
    show "steps_numbered (build_steps ?m5)" using rs p(5) steps_numbered_cong by blast
    show "\<forall>s\<in>set (build_steps m). step_refs_ok m4 s" unfolding b using rs by blast
    show "step_refs_ok m4 = step_refs_ok m"
      by (rule step_refs_cong) (use r4 rs b in \<open>simp_all add: m frame\<close>)
  qed
  have "\<forall>t\<in>set (targets m). \<forall>s\<in>set (tg_source_records t).
      src_producer_step_id s = BM_ID_INVALID \<or> src_producer_step_id s < length (build_steps m)"
    unfolding steps(4)
  proof (rule final_sources [OF _ _ _ _ m])
    show "\<forall>t\<in>set (targets ?m5). \<forall>s\<in>set (tg_source_records t). src_producer_step_id s = BM_ID_INVALID"
      using p(4) by (simp add: frame)
  qed (use resolve_source_producer [OF steps(3)] in \<open>auto simp: apply_source_mark_def source_property_apply_keeps\<close>)
  moreover have "\<forall>t\<in>set (targets m). refs_in_range (length (targets m)) t"
    using p(2) refs_in_range_cong [OF r4] n(1) by simp
  moreover have "\<forall>t\<in>set (targets m). \<forall>l\<in>set (tg_link_libraries t). link_ok m l"
    using links(1) unfolding same [symmetric] frames(1) [symmetric] by simp
  ultimately show ?thesis
    using links(2,3) steps(1,2) unfolding references_ok_def same frames(2,3) by auto
qed

section \<open>Producers of sources\<close>

lemma source_contract_cong: "build_steps m = build_steps m' \<Longrightarrow> source_contract m = source_contract m'"
  by (simp add: source_contract_def fun_eq_iff)

lemma paths_same_contract:
  "map step_paths (build_steps m) = map step_paths (build_steps m') \<Longrightarrow> source_contract m = source_contract m'"
  unfolding source_contract_def fun_eq_iff by (metis map_eq_imp_length_eq nth_map)

lemma find_producer_same:
  "map st_id ss = map st_id us \<Longrightarrow> map step_paths ss = map step_paths us \<Longrightarrow> find_producer ss path = find_producer us path"
proof (induction ss arbitrary: us)
  case (Cons s ss)
  then obtain u us' where us: "us = u # us'" by (cases us) auto
  have "set (step_paths s) = set (step_paths u)" using Cons.prems(2) us by simp
  then have "path \<in> set (effective_outputs s) \<or> path \<in> set (effective_byproducts s) \<longleftrightarrow>
      path \<in> set (effective_outputs u) \<or> path \<in> set (effective_byproducts u)" by (auto simp: step_paths_def)
  with Cons us show ?case by (auto simp: list_ex_iff)
qed simp

lemma resolved_contracts:
  assumes "draft_ok d" "resolved_model d = Inr m"
    "\<forall>mk\<in>set (dr_source_marks d). bm_find_producer_step_id_by_path m (gm_path mk) \<noteq> BM_ID_INVALID"
    "\<forall>mut\<in>set (dr_source_mutations d). bm_sv_eq_ci_freeze (sm_key mut) ''GENERATED'' \<longrightarrow> bm_sv_truthy (sm_value mut)"
  shows "\<forall>t\<in>set (targets m). \<forall>s\<in>set (tg_source_records t). source_contract m s"
proof -
  obtain m0 m1 m4 where st: "bm_freeze_check_invariants d = Inr ()" "copy_draft d = Inr m0"
    "bm_resolve_build_step_effective_paths d m0 = Inr m1"
    "bm_promote_custom_target_kinds (bm_materialize_imported_target_metadata (bm_resolve_link_item_target_ids d m1)) = Inr m4"
    and m: "m = bm_populate_target_file_sets (bm_apply_source_property_mutations d (bm_apply_generated_source_marks d
           (bm_resolve_target_source_records d (bm_resolve_build_step_dependencies d m4))))"
    using assms(2) by (rule stages)
  let ?m5 = "bm_resolve_build_step_dependencies d m4"
  note p = promoted_model [OF assms(1) st]
  have own: "\<forall>s\<in>set (build_steps m4). fresh_step (length (targets m4)) s" using p(6,7) by simp
  have n: "steps_numbered (build_steps ?m5)" using resolved_steps [OF p(5,3) own] p(5) steps_numbered_cong by blast
  have b: "build_steps m = build_steps ?m5" unfolding m by (simp add: frame)
  have marks: "\<forall>mk\<in>set (dr_source_marks d). bm_find_producer_step_id_by_path ?m5 (gm_path mk) \<noteq> BM_ID_INVALID"
    using assms(3) by (simp add: bm_find_producer_step_id_by_path_def b)
  show ?thesis unfolding source_contract_cong [OF b]
  proof (rule final_sources [OF _ _ _ _ m])
    show "\<forall>t\<in>set (targets ?m5). \<forall>s\<in>set (tg_source_records t). src_producer_step_id s = BM_ID_INVALID"
      using p(4) by (simp add: frame)
    show "source_contract ?m5 (resolve_source_record marks' ?m5 dir s)"
      if "marks' = dr_source_marks d" "src_producer_step_id s = BM_ID_INVALID" for marks' dir s
      using resolve_source_contract [OF n that(2) marks] that(1) by simp
    show "source_contract ?m5 (bm_source_property_apply mut s)"
      if "mut \<in> set (dr_source_mutations d)" "source_contract ?m5 s" for mut s
      using that assms(4) by (auto simp: source_contract_def source_property_apply_keeps)
  qed (auto simp: source_contract_def apply_source_mark_def)
qed

section \<open>Validated drafts\<close>

lemma invariants_hold:
  assumes "structure_ok d"
  shows "bm_freeze_check_invariants d = Inr ()"
  using assms
  by (auto simp: structure_ok_def bm_freeze_check_invariants_def and_then_Inr each_row_Inr row_fault_def directory_ok_def
      target_ok_def replay_ok_def owner_ok_def)

definition aliases_known :: "build_model_draft \<Rightarrow> bool" where
  "aliases_known d \<longleftrightarrow> (\<forall>t\<in>set (dr_targets d). tg_alias_of_name t \<noteq> [] \<longrightarrow> known_target d (tg_alias_of_name t))"

lemma targets_cloned:
  assumes "resolution_ok d" "aliases_known d"
  shows "\<exists>ts. map_until (clone_target d) (dr_targets d) = Inr ts"
proof (rule map_until_total)
  fix t assume t: "t \<in> set (dr_targets d)"
  have "\<exists>t1. clone_alias d t u = Inr t1" for u
    using assms(2) t resolved_total [of "bm_draft_find_target_id d" "tg_alias_of_name t"]
    by (auto simp: clone_alias_def aliases_known_def bm_string_view_is_empty_def and_then_Inr Let_def)
  moreover have "\<exists>deps. map_until (resolved (bm_draft_find_target_id d) p c) (explicit_dependency_names t) = Inr deps" for p c
    using assms(1) t by (intro map_until_total resolved_total) (simp add: resolution_ok_def)
  ultimately show "\<exists>u. clone_target d t = Inr u" unfolding clone_target_def and_then_Inr by metis
qed

lemma install_rules_cloned:
  assumes "resolution_ok d"
  shows "\<exists>rules. map_until (clone_install_rule d) (dr_install_rules d) = Inr rules"
proof (rule map_until_total)
  fix r assume "r \<in> set (dr_install_rules d)"
  then have "ir_kind r = BM_INSTALL_RULE_TARGET \<Longrightarrow> known_target d (ir_item r)" using assms by (simp add: resolution_ok_def)
  then show "\<exists>r'. clone_install_rule d r = Inr r'"
    by (auto simp: clone_install_rule_def and_then_Inr resolved_Inr)
qed

lemma cloned_rule_resolved:
  "clone_install_rule d r = Inr r' \<Longrightarrow> ir_kind r' = BM_INSTALL_RULE_TARGET \<Longrightarrow> ir_resolved_target_id r' \<noteq> BM_ID_INVALID"
  by (auto simp: clone_install_rule_def and_then_Inr resolved_Inr split: if_splits)

lemma exports_cloned:
  assumes "resolution_ok d" "map_until (clone_install_rule d) (dr_install_rules d) = Inr (mo_install_rules m)"
  shows "\<exists>xs. map_until (clone_export d m) (dr_exports d) = Inr xs"
proof (rule map_until_total)
  fix x assume x: "x \<in> set (dr_exports d)"
  have "\<exists>ids. fold_until (export_rule_target name) (mo_install_rules m) [] = Inr ids \<and> True" for name
    by (rule fold_until_total)
      (use map_until_in [OF assms(2)] cloned_rule_resolved in \<open>auto simp: export_rule_target_def\<close>)
  moreover have "\<exists>ids. map_until (resolved (bm_draft_find_target_id d) p c) (ex_target_names x) = Inr ids"
    if "ex_kind x = BM_EXPORT_BUILD_TREE" for p c
    using assms(1) x that by (intro map_until_total resolved_total) (simp add: resolution_ok_def)
  ultimately show "\<exists>y. clone_export d m x = Inr y"
    by (cases "ex_kind x") (auto simp: clone_export_def and_then_Inr)
qed

lemma cpack_cloned:
  assumes "resolution_ok d"
  shows "\<exists>m'. bm_clone_cpack d m = Inr m'"
proof -
  have "\<exists>g'. clone_cpack_group d g = Inr g'" if "g \<in> set (dr_cpack_groups d)" for g
    using assms that resolved_if_total [of "cg_parent_group_name g" "bm_draft_find_component_group_id d"]
    unfolding clone_cpack_group_def and_then_Inr resolution_ok_def by metis
  then obtain gs where gs: "map_until (clone_cpack_group d) (dr_cpack_groups d) = Inr gs" using map_until_total by blast
  have "\<exists>c'. clone_cpack_component d c = Inr c'" if c: "c \<in> set (dr_cpack_components d)" for c
  proof -
    have r: "cc_group_name c \<noteq> [] \<longrightarrow> bm_draft_find_component_group_id d (cc_group_name c) \<noteq> BM_ID_INVALID"
      "\<forall>name\<in>set (cc_dependency_names c). bm_draft_find_component_id d name \<noteq> BM_ID_INVALID"
      "\<forall>name\<in>set (cc_install_type_names c). bm_draft_find_install_type_id d name \<noteq> BM_ID_INVALID"
      using assms c by (simp_all add: resolution_ok_def)
    have "\<exists>i. resolved_if (bm_draft_find_component_group_id d) p q (cc_group_name c) = Inr i" for p q
      by (rule resolved_if_total) (rule r(1))
    moreover have "\<exists>is. map_until (resolved (bm_draft_find_component_id d) p q) (cc_dependency_names c) = Inr is" for p q
      using r(2) by (intro map_until_total resolved_total) simp
    moreover have "\<exists>is. map_until (resolved (bm_draft_find_install_type_id d) p q) (cc_install_type_names c) = Inr is" for p q
      using r(3) by (intro map_until_total resolved_total) simp
    ultimately show ?thesis unfolding clone_cpack_component_def and_then_Inr by metis
  qed
  then obtain cs where "map_until (clone_cpack_component d) (dr_cpack_components d) = Inr cs" using map_until_total by blast
  with gs show ?thesis by (simp add: bm_clone_cpack_def)
qed

lemma draft_copied:
  assumes "resolution_ok d" "aliases_known d"
  shows "\<exists>m. copy_draft d = Inr m"
proof -
  obtain ts where ts: "map_until (clone_target d) (dr_targets d) = Inr ts" using targets_cloned [OF assms] by blast
  obtain rules where rules: "map_until (clone_install_rule d) (dr_install_rules d) = Inr rules"
    using install_rules_cloned [OF assms(1)] by blast
  have "\<exists>m'. and_then (bm_clone_exports d m) (\<lambda>m. bm_clone_cpack d (bm_clone_packages d m)) = Inr m'"
    if same: "mo_install_rules m = rules" for m
  proof -
    obtain xs where "map_until (clone_export d m) (dr_exports d) = Inr xs"
      using exports_cloned [OF assms(1), of m] rules unfolding same by blast
    then show ?thesis using cpack_cloned [OF assms(1)] by (simp add: bm_clone_exports_def)
  qed
  then show ?thesis
    by (simp add: copy_draft_def bm_clone_targets_def ts bm_clone_install_rules_def
        bm_clone_tests_def bm_clone_replay_actions_def bm_clone_build_steps_def rules)
qed

lemma promotion_total:
  assumes "\<forall>s\<in>set ss. st_owner_target_id s = BM_ID_INVALID \<or> st_owner_target_id s < length ts"
  shows "\<exists>us. fold_until promote_step_owner ss ts = Inr us"
proof -
  have "\<exists>us. fold_until promote_step_owner ss ts = Inr us \<and> length us = length ts"
    by (rule fold_until_total) (use assms in \<open>auto simp: promote_step_owner_def Let_def\<close>)
  then show ?thesis by blast
qed

lemma validated_resolves:
  assumes "draft_ok d" "structure_ok d" "resolution_ok d" "aliases_known d"
  shows "\<exists>m. resolved_model d = Inr m"
proof -
  obtain m0 where m0: "copy_draft d = Inr m0" using draft_copied [OF assms(3,4)] by blast
  note c = copied [OF m0]
  have "\<exists>s'. step_effective_paths d (mo_directories m0) s = Inr s'" if "s \<in> set (build_steps m0)" for s
  proof -
    obtain s0 where s0: "s0 \<in> set (dr_build_steps d)" "s = clone_build_step s0" using \<open>s \<in> _\<close> c(2) by auto
    have "st_owner_directory_id s0 < length (dr_directories d)"
      using assms(2) s0(1) by (auto simp: structure_ok_def owner_ok_def in_set_conv_nth)
    moreover have "st_owner_target_name s0 \<noteq> [] \<longrightarrow> known_target d (st_owner_target_name s0)"
      using assms(3) s0(1) by (simp add: resolution_ok_def)
    ultimately show ?thesis
      using c(3) by (auto simp: step_effective_paths_def s0(2) clone_build_step_def bm_string_view_is_empty_def and_then_Inr
          resolved_Inr Let_def)
  qed
  then obtain ss where "map_until (step_effective_paths d (mo_directories m0)) (build_steps m0) = Inr ss"
    using map_until_total by blast
  then obtain m1 where m1: "bm_resolve_build_step_effective_paths d m0 = Inr m1" "build_steps m1 = ss"
    by (simp add: bm_resolve_build_step_effective_paths_def)
  note e = effective_paths_frame [OF m1(1)]
  let ?m3 = "bm_materialize_imported_target_metadata (bm_resolve_link_item_target_ids d m1)"
  have n: "length (targets ?m3) = length (dr_targets d)"
    using c(1) e(1) by (simp add: bm_materialize_imported_target_metadata_def bm_resolve_link_item_target_ids_def Let_def
        map_until_Inr list_all2_lengthD)
  have "\<forall>s\<in>set (build_steps m0). fresh_step (length (dr_targets d)) s" using c(2) fresh_clone by auto
  then have "\<forall>s\<in>set (build_steps m1). fresh_step (length (dr_targets d)) s"
    using map_until_in [OF e(4)] fresh_paths [OF assms(1)] by blast
  then have "\<exists>us. fold_until promote_step_owner (build_steps ?m3) (targets ?m3) = Inr us"
    by (intro promotion_total) (simp add: frame n fresh_step_def)
  then show ?thesis
    by (auto simp: resolved_model_def resolve_model_def invariants_hold [OF assms(2)] m0 m1 and_then_Inr
        bm_promote_custom_target_kinds_def)
qed

definition graph_accepted :: "build_model \<Rightarrow> order_query \<Rightarrow> step_query \<Rightarrow> bool" where
  "graph_accepted m order_view step_view \<longleftrightarrow>
     distinct (producer_paths m) \<and> (\<forall>s\<in>set (build_steps m). owner_contract m s) \<and>
     (\<forall>t\<in>set (targets m). \<forall>src\<in>set (tg_source_records t). source_contract m src) \<and>
     (\<forall>config\<in>set (known_configurations m @ [[]]). \<forall>v. (v, v) \<notin> (exec_graph m order_view step_view config)\<^sup>+)"

lemma frozen_verdict:
  assumes "frozen_model d = Inr m"
    "\<forall>config\<in>set (known_configurations m @ [[]]). views_sound m (order_view m) (step_view m) config"
  shows "fst (bm_freeze_draft (Some d) order_view step_view log) =
    (if (\<forall>config\<in>set (known_configurations m @ [[]]). all_views m (order_view m) (step_view m) config) \<and>
       graph_accepted m (order_view m) (step_view m) then Some m else None)"
proof -
  let ?st = "\<lparr>colors = [], had_error = False, sink = log\<rparr>"
  obtain ok st where st: "bm_validate_execution_graph (Some m) (order_view m) (step_view m) ?st = (ok, st)"
    "ok \<longleftrightarrow> (\<forall>config\<in>set (known_configurations m @ [[]]). all_views m (order_view m) (step_view m) config)"
    "ok \<longrightarrow> (had_error st \<longleftrightarrow> had_error ?st \<or> \<not> graph_accepted m (order_view m) (step_view m))"
    using execution_graph_validated [OF assms(2), of ?st, folded graph_accepted_def] by (elim exE conjE) (rule that)
  have "fst (bm_freeze_draft (Some d) order_view step_view log) = (if ok \<and> \<not> had_error st then Some m else None)"
    using st(1) assms(1) by (simp add: bm_freeze_draft_def)
  also have "ok \<and> \<not> had_error st \<longleftrightarrow>
      (\<forall>config\<in>set (known_configurations m @ [[]]). all_views m (order_view m) (step_view m) config) \<and>
      graph_accepted m (order_view m) (step_view m)"
    using st(2,3) by (cases ok) simp_all
  finally show ?thesis .
qed

lemma freeze_result:
  assumes "fst (bm_freeze_draft (Some d) order_view step_view log) = Some m"
  shows "\<exists>m0 configs. resolved_model d = Inr m0 \<and> m = m0\<lparr>known_configurations := configs\<rparr>"
  using assms
  by (auto simp: bm_freeze_draft_def frozen_model_def and_then_Inr bm_collect_known_configurations_def
      split: sum.splits option.splits prod.splits if_splits)

lemma references_configs: "references_ok (m\<lparr>known_configurations := configs\<rparr>) = references_ok m"
  by (simp add: references_ok_def link_ok_def step_refs_ok_def collected_ok_def dependency_ok_def real_target_def)

end
