(* ===== verification/Bm_Freeze_Props.thy ===== *)
theory Bm_Freeze_Props
  imports Bm_Freeze_Model
begin

text \<open>
  What the freeze guarantees: the references of a frozen model are in range, the sources it calls
  generated have the producers it says, and a validated draft is refused by nothing but the checks
  of the build graph. The properties are applied to a draft with a generated source, an alias and a
  link to it.
\<close>

section \<open>A draft to freeze\<close>

text \<open>
  The target \<open>a\<close> has the source \<open>g\<close>, which a build step writes to the binary directory, and links
  to \<open>L\<close>, an alias of \<open>l\<close>.
\<close>

definition freeze_link :: bm_link_item where
  "freeze_link =
     \<lparr>li_value = ''L'', li_visibility = BM_VISIBILITY_PRIVATE, li_flags = 0, li_provenance = empty_provenance,
      li_semantic = blank_semantic\<lparr>lm_kind := EVENT_LINK_ITEM_TARGET_REF, lm_target_name := ''L''\<rparr>,
      li_target_id = BM_ID_INVALID\<rparr>"

definition freeze_source :: bm_target_source where
  "freeze_source =
     \<lparr>src_kind = BM_TARGET_SOURCE_REGULAR, src_visibility = BM_VISIBILITY_PRIVATE, src_raw_path = ''g'',
      src_effective_path = [], src_file_set_name = [], src_generated = False, src_header_file_only = False,
      src_language = [], src_producer_step_id = BM_ID_INVALID, src_compile_definitions = [], src_compile_options = [],
      src_include_directories = [], src_raw_properties = [], src_provenance = empty_provenance\<rparr>"

definition draft_app :: bm_target where
  "draft_app = blank_target\<lparr>tg_name := ''a'', tg_declared := True, tg_source_records := [freeze_source],
     tg_link_libraries := [freeze_link]\<rparr>"

definition draft_lib :: bm_target where
  "draft_lib = blank_target\<lparr>tg_id := 1, tg_name := ''l'', tg_declared := True, tg_kind := BM_TARGET_STATIC_LIBRARY\<rparr>"

definition draft_alias :: bm_target where
  "draft_alias = blank_target\<lparr>tg_id := 2, tg_name := ''L'', tg_declared := True, tg_alias := True, tg_alias_of_name := ''l''\<rparr>"

definition sample_mark :: bm_source_mark where
  "sample_mark = \<lparr>gm_path = ''/b/g'', gm_directory_source_dir = ''/s'', gm_directory_binary_dir = ''/b'',
     gm_generated = True, gm_provenance = empty_provenance\<rparr>"

definition freeze_sample :: build_model_draft where
  "freeze_sample =
     blank_draft\<lparr>dr_directories := [sample_dir], dr_targets := [draft_app, draft_lib, draft_alias],
       dr_build_steps := [blank_step\<lparr>st_raw_outputs := [''g'']\<rparr>],
       dr_source_marks := [sample_mark],
       target_name_index := [\<lparr>ne_name = ''a'', ne_id = 0\<rparr>, \<lparr>ne_name = ''l'', ne_id = 1\<rparr>, \<lparr>ne_name = ''L'', ne_id = 2\<rparr>]\<rparr>"

lemma freeze_sample_fields:
  "dr_directories freeze_sample = [sample_dir]" "dr_source_mutations freeze_sample = []" "dr_tests freeze_sample = []"
  "dr_install_rules freeze_sample = []" "dr_exports freeze_sample = []" "dr_packages freeze_sample = []"
  "dr_cpack_groups freeze_sample = []" "dr_cpack_components freeze_sample = []" "dr_replay_actions freeze_sample = []"
  "dr_global_properties freeze_sample = blank_properties" "\<not> dr_has_semantic_entities freeze_sample"
  "dr_build_steps freeze_sample = [blank_step\<lparr>st_raw_outputs := [''g'']\<rparr>]"
  "dr_source_marks freeze_sample = [sample_mark]"
  by (simp_all add: freeze_sample_def blank_draft_def)

lemma freeze_sample_targets: "dr_targets freeze_sample = [draft_app, draft_lib, draft_alias]"
  by (simp add: freeze_sample_def)

lemma freeze_sample_names:
  "bm_draft_find_target_id freeze_sample ''a'' = 0" "bm_draft_find_target_id freeze_sample ''l'' = Suc 0"
  "bm_draft_find_target_id freeze_sample ''L'' = 2"
  by (simp_all add: freeze_sample_def bm_draft_find_target_id_def)

lemma few_ids: "BM_ID_INVALID \<noteq> 0" "0 \<noteq> BM_ID_INVALID" "Suc 0 \<noteq> BM_ID_INVALID" "2 \<noteq> BM_ID_INVALID" "\<not> BM_ID_INVALID \<le> 0"
  by (simp_all add: BM_ID_INVALID_def)

lemma sample_paths:
  "bm_path_rebase ''/b'' ''g'' = ''/b/g''" "candidate_paths ''/s'' ''/b'' ''g'' = (''g'', ''/s/g'', ''/b/g'', ''g'')"
  by (simp_all add: bm_path_rebase_def bm_path_is_abs_def bm_path_join_def bm_normalize_path_def bm_push_segment_def c_str_def
      bm_path_rebase_if_needed_def bm_path_strip_prefix_def bm_sv_has_path_prefix_def candidate_paths_def)

lemma sample_check: "bm_freeze_check_invariants freeze_sample = Inr ()"
  by (simp add: bm_freeze_check_invariants_def row_fault_def freeze_sample_fields freeze_sample_targets sample_dir_def draft_app_def draft_lib_def draft_alias_def)


definition sample_targets :: "bm_target list" where
  "sample_targets =
     [draft_app\<lparr>tg_alias_of_id := BM_ID_INVALID\<rparr>, draft_lib\<lparr>tg_alias_of_id := BM_ID_INVALID\<rparr>,
      draft_alias\<lparr>tg_alias_of_id := 1, tg_kind := BM_TARGET_STATIC_LIBRARY, tg_alias_global := True\<rparr>]"

lemma sample_targets_cloned: "map_until (clone_target freeze_sample) (dr_targets freeze_sample) = Inr sample_targets"
proof -
  have "clone_target freeze_sample draft_app = Inr (draft_app\<lparr>tg_alias_of_id := BM_ID_INVALID\<rparr>)"
    "clone_target freeze_sample draft_lib = Inr (draft_lib\<lparr>tg_alias_of_id := BM_ID_INVALID\<rparr>)"
    by (simp_all add: clone_target_def clone_alias_def bm_string_view_is_empty_def draft_app_def draft_lib_def
        bm_clone_target_source_record_def freeze_source_def blank_target_def)
  moreover have "clone_target freeze_sample draft_alias =
      Inr (draft_alias\<lparr>tg_alias_of_id := 1, tg_kind := BM_TARGET_STATIC_LIBRARY, tg_alias_global := True\<rparr>)"
    by (simp add: clone_target_def clone_alias_def bm_string_view_is_empty_def draft_alias_def draft_lib_def resolved_def
        freeze_sample_names freeze_sample_targets few_ids blank_target_def)
  ultimately show ?thesis by (simp add: freeze_sample_targets sample_targets_def)
qed

lemma sample_copied:
  "\<exists>m. copy_draft freeze_sample = Inr m \<and> targets m = sample_targets \<and> mo_directories m = [sample_dir] \<and>
     mo_global_properties m = blank_properties \<and> known_configurations m = [] \<and> mo_tests m = [] \<and> mo_install_rules m = [] \<and>
     mo_exports m = [] \<and> mo_replay_actions m = [] \<and>
     build_steps m = [blank_step\<lparr>st_raw_outputs := [''g''], st_owner_target_id := BM_ID_INVALID\<rparr>]"
  by (simp add: copy_draft_def freeze_sample_fields bm_clone_targets_def sample_targets_cloned bm_clone_install_rules_def
      bm_clone_exports_def bm_clone_cpack_def bm_clone_packages_def bm_clone_tests_def bm_clone_replay_actions_def
      bm_clone_build_steps_def clone_build_step_def blank_model_def blank_step_def)

text \<open>What the freeze makes of it.\<close>

definition sample_model :: "build_model \<Rightarrow> bool" where
  "sample_model m \<longleftrightarrow>
     map step_paths (build_steps m) = [[''/b/g'']] \<and> map st_kind (build_steps m) = [BM_BUILD_STEP_OUTPUT_RULE] \<and>
     map st_owner_target_id (build_steps m) = [BM_ID_INVALID] \<and> map st_id (build_steps m) = [0] \<and>
     map (\<lambda>t. map li_target_id (tg_link_libraries t)) (targets m) = [[1], [], []] \<and>
     map (\<lambda>t. map (\<lambda>s. (src_effective_path s, src_producer_step_id s, src_generated s)) (tg_source_records t)) (targets m) =
       [[(''/b/g'', 0, True)], [], []]"

lemma sample_resolved:
  assumes "targets m = sample_targets" "mo_directories m = [sample_dir]" "mo_global_properties m = blank_properties"
    "known_configurations m = []" "mo_tests m = []" "mo_install_rules m = []" "mo_exports m = []" "mo_replay_actions m = []"
    "build_steps m = [blank_step\<lparr>st_raw_outputs := [''g''], st_owner_target_id := BM_ID_INVALID\<rparr>]"
  shows "\<exists>m'. resolve_model freeze_sample m = Inr m' \<and> sample_model m' \<and>
     (\<forall>v. Scan_Text v \<in> set (config_jobs m') \<longrightarrow> NUL \<notin> set v)"
  apply (simp add: assms resolve_model_def bm_resolve_build_step_effective_paths_def step_effective_paths_def rebase_if_set_def
     bm_string_view_is_empty_def sample_dir_def sample_paths)
  apply (simp add: bm_resolve_link_item_target_ids_def Let_def assms bm_materialize_imported_target_metadata_def
    sample_targets_def draft_app_def draft_lib_def draft_alias_def blank_properties_def bm_promote_custom_target_kinds_def
    promote_step_owner_def freeze_link_def resolve_link_item_def referenced_target_def freeze_sample_names few_ids
    bm_freeze_resolve_alias_target_id_def)
  apply (simp add: bm_resolve_build_step_dependencies_def promote_step_owner_def Let_def)
  apply (simp add: bm_resolve_target_source_records_def on_sources_def freeze_source_def)
  apply (simp add: resolve_source_record_def sample_paths usable_path_def bm_find_producer_step_id_by_path_def few_ids
    sample_dir_def Let_def freeze_sample_fields sample_mark_def)
  apply (simp add: bm_apply_generated_source_marks_def bm_apply_source_property_mutations_def freeze_sample_fields on_sources_def
    bm_populate_target_file_sets_def sample_mark_def apply_source_mark_def)
  by (simp add: sample_model_def step_paths_def config_jobs_def scan_global_properties_def scan_directory_def scan_target_def scan_source_def
    scan_build_step_def bm_known_configs_scan_item_array_def bm_known_configs_scan_link_item_array_def
    bm_known_configs_scan_raw_properties_def bm_known_configs_scan_string_array_def
    bm_known_configs_scan_artifact_properties_def assms)

text \<open>The queries see the step behind the source of the first target.\<close>

definition sample_order_view :: "build_model \<Rightarrow> order_query" where
  "sample_order_view m i ctx =
     Some \<lparr>explicit_prerequisites = [], pre_build_steps = [], generated_source_steps = (if i = 0 then [Exec_Step 0] else []),
           link_prerequisites = [], pre_link_steps = [], post_build_steps = [], custom_target_steps = []\<rparr>"

definition sample_step_view :: "build_model \<Rightarrow> step_query" where
  "sample_step_view m i ctx = Some \<lparr>target_dependencies = [], producer_dependencies = []\<rparr>"

lemma sample_lengths: "sample_model m \<Longrightarrow> length (targets m) = 3 \<and> length (build_steps m) = 1"
  by (auto simp: sample_model_def dest!: map_eq_Cons_D)

lemma sample_views:
  "sample_model m \<Longrightarrow> views_sound m (sample_order_view m) (sample_step_view m) config"
  "sample_model m \<Longrightarrow> all_views m (sample_order_view m) (sample_step_view m) config"
  using sample_lengths [of m]
  by (simp_all add: views_sound_def all_views_def has_view_def exec_node_of_def sample_order_view_def
      sample_step_view_def order_spans_def node_ok_def)

lemma sample_accepted:
  assumes "sample_model m"
  shows "graph_accepted m (sample_order_view m) (sample_step_view m)"
proof -
  obtain s where s: "build_steps m = [s]" "st_owner_target_id s = BM_ID_INVALID" "st_kind s = BM_BUILD_STEP_OUTPUT_RULE"
    "step_paths s = [''/b/g'']" using assms by (auto simp: sample_model_def)
  have "exec_graph m (sample_order_view m) (sample_step_view m) config \<subseteq> {(v, w). v < w}" for config
    using sample_lengths [OF assms]
    by (auto simp: exec_graph_def edge_rel_def exec_out_def exec_node_of_def sample_order_view_def sample_step_view_def
        order_spans_def Let_def split: if_splits)
  then have "(exec_graph m (sample_order_view m) (sample_step_view m) config)\<^sup>+ \<subseteq> {(v, w). v < w}" for config
    using trancl_mono_subset [of _ "{(v, w :: nat). v < w}"] trancl_id [of "{(v, w :: nat). v < w}"] by (auto simp: trans_def)
  moreover have "source_contract m src" if "t \<in> set (targets m)" "src \<in> set (tg_source_records t)" for t src
    using assms that s(1,4) by (auto simp: sample_model_def source_contract_def)
  ultimately show ?thesis
    using s by (fastforce simp: graph_accepted_def producer_paths_def owner_contract_def)
qed

lemma sample_valid:
  "draft_ok freeze_sample" "aliases_known freeze_sample" "fst (bm_validate_draft (Some freeze_sample) log)"
proof -
  show ok: "draft_ok freeze_sample" by (simp add: draft_ok_def freeze_sample_targets freeze_sample_def BM_ID_INVALID_def)
  show "aliases_known freeze_sample"
    by (simp add: aliases_known_def freeze_sample_targets draft_app_def draft_lib_def draft_alias_def freeze_sample_names few_ids)
  have "structure_ok freeze_sample" using chain_root
    by (simp add: structure_ok_def freeze_sample_def sample_dir_def directory_ok_def draft_app_def draft_lib_def draft_alias_def
      freeze_source_def target_ok_def owner_ok_def BM_ID_INVALID_def less_Suc_eq)
  moreover have "resolution_ok freeze_sample"
    by (simp add: resolution_ok_def freeze_sample_targets freeze_sample_fields freeze_sample_names few_ids
        draft_app_def draft_lib_def draft_alias_def freeze_source_def)
  moreover have "dep_graph freeze_sample = {}"
    by (auto simp: dep_graph_def edge_rel_def freeze_sample_targets less_Suc_eq draft_app_def draft_lib_def draft_alias_def nth_Cons'
        split: if_splits)
  moreover have "\<forall>t\<in>set (dr_targets freeze_sample). semantic_ok t"
    by (simp add: freeze_sample_targets semantic_ok_def draft_app_def draft_lib_def draft_alias_def alias_has_payload_def
        bm_target_has_typed_payload_def bm_target_has_local_build_flags_def bm_string_view_is_empty_def)
  ultimately show "fst (bm_validate_draft (Some freeze_sample) log)"
    using validate_draft_checks [OF ok, of log] by (auto simp: acyclic_def)
qed

lemma sample_model_made:
  "\<exists>m. resolved_model freeze_sample = Inr m \<and> sample_model m \<and> (\<forall>v. Scan_Text v \<in> set (config_jobs m) \<longrightarrow> NUL \<notin> set v)"
proof -
  obtain m where m: "copy_draft freeze_sample = Inr m" "targets m = sample_targets" "mo_directories m = [sample_dir]"
    "mo_global_properties m = blank_properties" "known_configurations m = []" "mo_tests m = []" "mo_install_rules m = []"
    "mo_exports m = []" "mo_replay_actions m = []"
    "build_steps m = [blank_step\<lparr>st_raw_outputs := [''g''], st_owner_target_id := BM_ID_INVALID\<rparr>]"
    using sample_copied by (elim exE conjE) (rule that)
  from sample_resolved [OF m(2-)] show ?thesis by (simp add: resolved_model_def sample_check m(1))
qed

lemma sample_configs: "sample_model (m\<lparr>known_configurations := configs\<rparr>) = sample_model m"
  by (simp add: sample_model_def)

lemma sample_frozen:
  "\<exists>m. frozen_model freeze_sample = Inr m \<and> sample_model m \<and>
     fst (bm_freeze_draft (Some freeze_sample) sample_order_view sample_step_view []) = Some m"
proof -
  obtain m where m: "resolved_model freeze_sample = Inr m" "sample_model m"
    "\<forall>v. Scan_Text v \<in> set (config_jobs m) \<longrightarrow> NUL \<notin> set v" using sample_model_made by blast
  obtain configs where "run_config_jobs (config_jobs m) [] = Some configs"
    using run_config_jobs_clean [of "config_jobs m" "[]"] m(3) by (auto simp: nul_free_def)
  then have f: "frozen_model freeze_sample = Inr (m\<lparr>known_configurations := configs\<rparr>)"
    using m(1) by (simp add: frozen_model_def bm_collect_known_configurations_def)
  from frozen_verdict [OF f, of sample_order_view sample_step_view "[]"] f m(2) sample_views sample_accepted
  show ?thesis by (simp add: sample_configs)
qed

section \<open>Properties\<close>

text \<open>
  C11. Every reference of a frozen model is in range: when \<open>bm_freeze_draft\<close> returns a model, aliases
  and explicit dependencies are targets of the model, a link item that names a target has either no
  target or one that is no alias, the targets a build step waits for are no aliases, each of its
  producers is a step that makes the path of the dependency, as written or below the source
  directory, and owners of steps and producers of sources exist. Nothing is assumed of the draft
  but that its index of target names is in range.
\<close>

theorem frozen_references:
  assumes "draft_ok d" "fst (bm_freeze_draft (Some d) order_view step_view log) = Some m"
  shows "references_ok m"
proof -
  obtain m0 configs where "resolved_model d = Inr m0" "m = m0\<lparr>known_configurations := configs\<rparr>"
    using freeze_result [OF assms(2)] by blast
  then show ?thesis using resolved_references [OF assms(1)] by (simp add: references_configs)
qed

theorem frozen_references_witness:
  "\<exists>m. fst (bm_freeze_draft (Some freeze_sample) sample_order_view sample_step_view []) = Some m \<and> references_ok m \<and>
     map (\<lambda>t. map li_target_id (tg_link_libraries t)) (targets m) = [[1], [], []]"
proof -
  obtain m where m: "fst (bm_freeze_draft (Some freeze_sample) sample_order_view sample_step_view []) = Some m"
    "sample_model m" using sample_frozen by blast
  from frozen_references [OF sample_valid(1) m(1)] m show ?thesis by (auto simp: sample_model_def)
qed

text \<open>
  C30. The producers of sources agree by construction: if every path marked as generated is made by
  some step and no property turns GENERATED off, the model that \<open>bm_freeze_draft\<close> hands to
  \<open>bm_validate_execution_graph\<close> passes its check of sources, since every source with a producer is
  generated and its effective path is one that the producer makes.
\<close>

theorem frozen_sources_produced:
  assumes "draft_ok d" "frozen_model d = Inr m"
    "\<forall>mk\<in>set (dr_source_marks d). bm_find_producer_step_id_by_path m (gm_path mk) \<noteq> BM_ID_INVALID"
    "\<forall>mut\<in>set (dr_source_mutations d). bm_sv_eq_ci_freeze (sm_key mut) ''GENERATED'' \<longrightarrow> bm_sv_truthy (sm_value mut)"
  shows "had_error (bm_validate_target_source_producers m st) = had_error st"
proof -
  obtain m0 configs where m: "resolved_model d = Inr m0" "m = m0\<lparr>known_configurations := configs\<rparr>"
    using assms(2) by (auto simp: frozen_model_def and_then_Inr bm_collect_known_configurations_def split: option.splits)
  have "\<forall>t\<in>set (targets m0). \<forall>s\<in>set (tg_source_records t). source_contract m0 s"
    by (rule resolved_contracts [OF assms(1) m(1) _ assms(4)])
      (use assms(3) in \<open>simp add: m(2) bm_find_producer_step_id_by_path_def\<close>)
  moreover have "source_contract m = source_contract m0" by (rule source_contract_cong) (simp add: m(2))
  ultimately show ?thesis by (simp add: source_producers_error m(2))
qed

theorem frozen_sources_produced_witness:
  "\<exists>m. frozen_model freeze_sample = Inr m \<and> \<not> had_error (bm_validate_target_source_producers m demo_state)"
proof -
  obtain m where m: "frozen_model freeze_sample = Inr m" "sample_model m" using sample_frozen by blast
  obtain s where s: "build_steps m = [s]" "st_id s = 0" "step_paths s = [''/b/g'']"
    using m(2) by (auto simp: sample_model_def)
  have "''/b/g'' \<in> set (effective_outputs s) \<or> ''/b/g'' \<in> set (effective_byproducts s)"
    using s(3) by (auto simp: step_paths_def append_eq_Cons_conv)
  then have "bm_find_producer_step_id_by_path m ''/b/g'' = 0"
    by (auto simp: bm_find_producer_step_id_by_path_def s list_ex_iff)
  then show ?thesis
    using frozen_sources_produced [OF sample_valid(1) m(1), of demo_state] m(1)
    by (simp add: freeze_sample_fields sample_mark_def few_ids demo_state_def)
qed

text \<open>
  C10. Freezing a validated draft: when \<open>bm_validate_draft\<close> accepts it and the targets its records
  call aliased exist, every name resolves and every identifier and owner passes, so that
  \<open>bm_freeze_draft\<close> refuses it for two reasons only. A text with a NUL byte can stop the collection of
  configurations, silently; without one, and when the views the queries return name existing nodes
  (that of a target whatever the current target is), the draft is frozen exactly if the queries have a
  view of every node in every configuration, no path has two producers, owners of steps and producers
  of sources are of the right kind, and no configuration has a cycle.
\<close>

theorem validated_draft_freezes:
  assumes "draft_ok d" "fst (bm_validate_draft (Some d) log)" "aliases_known d"
  shows "\<exists>m. resolved_model d = Inr m \<and>
    ((\<forall>v. Scan_Text v \<in> set (config_jobs m) \<longrightarrow> NUL \<notin> set v) \<longrightarrow>
      (\<exists>configs. run_config_jobs (config_jobs m) [] = Some configs \<and>
        (let f = m\<lparr>known_configurations := configs\<rparr> in
          (\<forall>config\<in>set (configs @ [[]]). views_sound f (order_view f) (step_view f) config) \<longrightarrow>
          fst (bm_freeze_draft (Some d) order_view step_view log') =
            (if (\<forall>config\<in>set (configs @ [[]]). all_views f (order_view f) (step_view f) config) \<and> graph_accepted f (order_view f) (step_view f) then Some f else None))))"
proof -
  have "structure_ok d" "resolution_ok d" using validate_draft_checks [OF assms(1), of log] assms(2) by auto
  then obtain m where m: "resolved_model d = Inr m" using validated_resolves [OF assms(1) _ _ assms(3)] by blast
  have "\<exists>configs. run_config_jobs (config_jobs m) [] = Some configs \<and>
      (let f = m\<lparr>known_configurations := configs\<rparr> in
        (\<forall>config\<in>set (configs @ [[]]). views_sound f (order_view f) (step_view f) config) \<longrightarrow>
        fst (bm_freeze_draft (Some d) order_view step_view log') =
          (if (\<forall>config\<in>set (configs @ [[]]). all_views f (order_view f) (step_view f) config) \<and> graph_accepted f (order_view f) (step_view f) then Some f else None))"
    if "\<forall>v. Scan_Text v \<in> set (config_jobs m) \<longrightarrow> NUL \<notin> set v"
  proof -
    obtain configs where c: "run_config_jobs (config_jobs m) [] = Some configs"
      using run_config_jobs_clean [of "config_jobs m" "[]"] \<open>\<forall>v. _\<close> by (auto simp: nul_free_def)
    then have "frozen_model d = Inr (m\<lparr>known_configurations := configs\<rparr>)"
      using m by (simp add: frozen_model_def bm_collect_known_configurations_def)
    from frozen_verdict [OF this] c show ?thesis by (auto simp: Let_def)
  qed
  with m show ?thesis by blast
qed

theorem validated_draft_freezes_witness:
  "\<exists>m. fst (bm_freeze_draft (Some freeze_sample) sample_order_view sample_step_view []) = Some m \<and> sample_model m"
proof -
  obtain m where m: "resolved_model freeze_sample = Inr m"
    "(\<forall>v. Scan_Text v \<in> set (config_jobs m) \<longrightarrow> NUL \<notin> set v) \<longrightarrow>
      (\<exists>configs. run_config_jobs (config_jobs m) [] = Some configs \<and>
        (let f = m\<lparr>known_configurations := configs\<rparr> in
          (\<forall>config\<in>set (configs @ [[]]). views_sound f (sample_order_view f) (sample_step_view f) config) \<longrightarrow>
          fst (bm_freeze_draft (Some freeze_sample) sample_order_view sample_step_view []) =
            (if (\<forall>config\<in>set (configs @ [[]]). all_views f (sample_order_view f) (sample_step_view f) config) \<and> graph_accepted f (sample_order_view f) (sample_step_view f) then Some f else None)))"
    using validated_draft_freezes [OF sample_valid(1,3,2)] by blast
  then have "sample_model m" "\<forall>v. Scan_Text v \<in> set (config_jobs m) \<longrightarrow> NUL \<notin> set v"
    using sample_model_made by auto
  with m(2) sample_views sample_accepted show ?thesis by (auto simp: Let_def sample_configs)
qed

end
