(* ===== verification/Eval_State.thy ===== *)
theory Eval_State
  imports Nob_Prelude
begin

text \<open>
  The part of the evaluator's state that expressions and conditions work on,
  \<open>src_v2/evaluator/evaluator.c\<close> and its neighbours: the variable scopes with the cache behind
  them, the macro frames, the watched variables, the environment, and the diagnostics with
  what they do to the run. Visible scopes, macro frames and visible policy levels are listed
  from the innermost outwards. The tables of \<open>stb_ds.h\<close> are keyed by C strings, so that a key counts up to its
  first NUL. There is memory for every copy.
\<close>

section \<open>State\<close>

datatype compat_profile = EVAL_PROFILE_PERMISSIVE | EVAL_PROFILE_STRICT | EVAL_PROFILE_CI_STRICT

datatype unsupported_policy = EVAL_UNSUPPORTED_WARN | EVAL_UNSUPPORTED_ERROR | EVAL_UNSUPPORTED_NOOP_WARN

datatype policy_slot = POLICY_SLOT_INHERIT | POLICY_SLOT_OLD | POLICY_SLOT_NEW | POLICY_SLOT_UNSET_SHADOW

text \<open>The slots of a policy level, by number; a fresh level inherits everything.\<close>

type_synonym policy_level = "nat \<Rightarrow> policy_slot"

record cache_value =
  cv_data :: string_view
  cv_type :: string_view
  cv_doc :: string_view

text \<open>A diagnostic: the effective severity, the command and the cause.\<close>

type_synonym eval_diag = "diag_severity \<times> string \<times> string"

record eval_ctx =
  scopes :: "(string \<rightharpoonup> string_view) list"
  cache_entries :: "string \<rightharpoonup> cache_value"
  macro_frames :: "(string_view \<times> string_view) list list"
  watched_variables :: "string_view list"
  watched_variable_commands :: "string_view list"
  in_variable_watch_notification :: bool
  env_overrides :: "string \<rightharpoonup> string option"
  process_env :: "string \<rightharpoonup> string"
  policy_levels :: "policy_level list"
  profile :: compat_profile
  unsupported :: unsupported_policy
  error_budget :: nat
  continue_on_error :: bool
  diag_strict :: bool
  error_total :: nat
  stop_requested :: bool
  diags :: "eval_diag list"

definition eval_sv_key_eq :: "string_view \<Rightarrow> string_view \<Rightarrow> bool" where
  "eval_sv_key_eq a b \<longleftrightarrow> (if length a \<noteq> length b then False else a = b)"

text \<open>Copies into an arena end at a NUL.\<close>

definition sv_copy_to_arena :: "string_view \<Rightarrow> string_view" where
  "sv_copy_to_arena sv = c_str sv"

section \<open>Diagnostics\<close>

definition eval_should_stop :: "eval_ctx \<Rightarrow> bool" where
  "eval_should_stop ctx = stop_requested ctx"

definition eval_compat_effective_severity :: "eval_ctx \<Rightarrow> diag_severity \<Rightarrow> diag_severity" where
  "eval_compat_effective_severity ctx sev =
     (if sev = DIAG_SEV_WARNING \<and> (profile ctx = EVAL_PROFILE_STRICT \<or> profile ctx = EVAL_PROFILE_CI_STRICT)
      then DIAG_SEV_ERROR else sev)"

definition eval_request_stop_on_error :: "eval_ctx \<Rightarrow> eval_ctx" where
  "eval_request_stop_on_error ctx = (if continue_on_error ctx then ctx else ctx\<lparr>stop_requested := True\<rparr>)"

definition eval_compat_decide_on_diag :: "diag_severity \<Rightarrow> eval_ctx \<Rightarrow> eval_ctx" where
  "eval_compat_decide_on_diag sev ctx =
     (if sev \<noteq> DIAG_SEV_ERROR then ctx
      else if profile ctx = EVAL_PROFILE_PERMISSIVE then
        (if error_budget ctx > 0 \<and> error_total ctx \<ge> error_budget ctx then ctx\<lparr>stop_requested := True\<rparr> else ctx)
      else eval_request_stop_on_error ctx)"

text \<open>
  The codes emitted by the modelled code are never counted as unsupported; \<open>diag_strict\<close> is the
  strict mode of the diagnostics. The result says that the run goes on.
\<close>

definition eval_emit_diag :: "diag_severity \<Rightarrow> string \<Rightarrow> string \<Rightarrow> eval_ctx \<Rightarrow> bool \<times> eval_ctx" where
  "eval_emit_diag sev command cause ctx =
     (if eval_should_stop ctx then (False, ctx)
      else
        (let input_sev = eval_compat_effective_severity ctx sev;
             eff = (if diag_strict ctx \<and> input_sev = DIAG_SEV_WARNING then DIAG_SEV_ERROR else input_sev);
             ctx1 = ctx\<lparr>diags := diags ctx @ [(eff, command, cause)],
                        error_total := (if eff = DIAG_SEV_ERROR then error_total ctx + 1 else error_total ctx)\<rparr>;
             ctx2 = eval_compat_decide_on_diag eff ctx1
         in (\<not> eval_should_stop ctx2, ctx2)))"

section \<open>Variables\<close>

fun scope_find :: "(string \<rightharpoonup> string_view) list \<Rightarrow> string \<Rightarrow> string_view option" where
  "scope_find [] k = None"
| "scope_find (s # ss) k = (case s k of Some v \<Rightarrow> Some v | None \<Rightarrow> scope_find ss k)"

definition eval_var_get_visible :: "eval_ctx \<Rightarrow> string_view \<Rightarrow> string_view" where
  "eval_var_get_visible ctx key =
     (if scopes ctx = [] then []
      else (case scope_find (scopes ctx) (c_str key) of
              Some v \<Rightarrow> v
            | None \<Rightarrow> (case cache_entries ctx (c_str key) of Some e \<Rightarrow> cv_data e | None \<Rightarrow> [])))"

definition eval_var_defined_visible :: "eval_ctx \<Rightarrow> string_view \<Rightarrow> bool" where
  "eval_var_defined_visible ctx key \<longleftrightarrow>
     scopes ctx \<noteq> [] \<and> (scope_find (scopes ctx) (c_str key) \<noteq> None \<or> cache_entries ctx (c_str key) \<noteq> None)"

definition eval_var_defined_current :: "eval_ctx \<Rightarrow> string_view \<Rightarrow> bool" where
  "eval_var_defined_current ctx key \<longleftrightarrow> (case scopes ctx of [] \<Rightarrow> False | s # ss \<Rightarrow> s (c_str key) \<noteq> None)"

text \<open>Storing in the innermost scope, without the notification.\<close>

definition store_current :: "string_view \<Rightarrow> string_view \<Rightarrow> eval_ctx \<Rightarrow> eval_ctx" where
  "store_current key value ctx =
     ctx\<lparr>scopes := (hd (scopes ctx))(c_str key \<mapsto> sv_copy_to_arena value) # tl (scopes ctx)\<rparr>"

definition can_set :: "eval_ctx \<Rightarrow> bool" where
  "can_set ctx \<longleftrightarrow> scopes ctx \<noteq> [] \<and> \<not> eval_should_stop ctx"

text \<open>The command watching a variable: \<open>None\<close> when it is not watched.\<close>

fun watch_find :: "string_view list \<Rightarrow> string_view list \<Rightarrow> string_view \<Rightarrow> string_view option" where
  "watch_find [] cmds key = None"
| "watch_find (v # vs) cmds key =
     (if eval_sv_key_eq v key then Some (case cmds of [] \<Rightarrow> [] | c # cs \<Rightarrow> c) else watch_find vs (tl cmds) key)"

text \<open>
  The assignments a notification makes come while the notification flag is up, so that they
  notify nobody; each stops the chain when it fails.
\<close>

fun store_all :: "(string \<times> string_view) list \<Rightarrow> eval_ctx \<Rightarrow> bool \<times> eval_ctx" where
  "store_all [] ctx = (True, ctx)"
| "store_all ((k, v) # kvs) ctx =
     (if can_set ctx then store_all kvs (store_current k v ctx) else (False, ctx))"

definition eval_variable_watch_notify ::
  "string_view \<Rightarrow> string \<Rightarrow> string_view \<Rightarrow> eval_ctx \<Rightarrow> bool \<times> eval_ctx" where
  "eval_variable_watch_notify key action value ctx =
     (if in_variable_watch_notification ctx \<or> length key = 0 then (True, ctx)
      else if nob_sv_starts_with key ''NOBIFY_VARIABLE_WATCH_'' then (True, ctx)
      else (case watch_find (watched_variables ctx) (watched_variable_commands ctx) key of
              None \<Rightarrow> (True, ctx)
            | Some command \<Rightarrow>
                (let kvs = [(''NOBIFY_VARIABLE_WATCH_LAST_VAR'', key),
                            (''NOBIFY_VARIABLE_WATCH_LAST_ACTION'', action),
                            (''NOBIFY_VARIABLE_WATCH_LAST_VALUE'', value)]
                           @ (if length command > 0 then [(''NOBIFY_VARIABLE_WATCH_LAST_COMMAND'', command)] else [])
                 in case store_all kvs (ctx\<lparr>in_variable_watch_notification := True\<rparr>) of
                      (ok, ctx1) \<Rightarrow>
                        (case (if ok then eval_emit_diag DIAG_SEV_WARNING ''variable_watch''
                                 ''variable_watch() observed a watched variable mutation'' ctx1
                               else (False, ctx1)) of
                           (ok2, ctx2) \<Rightarrow> (ok2, ctx2\<lparr>in_variable_watch_notification := False\<rparr>)))))"

definition eval_var_set_current :: "string_view \<Rightarrow> string_view \<Rightarrow> eval_ctx \<Rightarrow> bool \<times> eval_ctx" where
  "eval_var_set_current key value ctx =
     (if \<not> can_set ctx then (False, ctx)
      else eval_variable_watch_notify key ''SET'' value (store_current key value ctx))"

definition eval_var_unset_current :: "string_view \<Rightarrow> eval_ctx \<Rightarrow> bool \<times> eval_ctx" where
  "eval_var_unset_current key ctx =
     (if \<not> can_set ctx then (False, ctx)
      else
        (let old_value = eval_var_get_visible ctx key;
             ctx1 = ctx\<lparr>scopes := (hd (scopes ctx))(c_str key := None) # tl (scopes ctx)\<rparr>
         in eval_variable_watch_notify key ''UNSET'' old_value ctx1))"

definition eval_scope_push :: "eval_ctx \<Rightarrow> eval_ctx" where
  "eval_scope_push ctx = ctx\<lparr>scopes := Map.empty # scopes ctx\<rparr>"

definition eval_scope_pop :: "eval_ctx \<Rightarrow> eval_ctx" where
  "eval_scope_pop ctx = (if length (scopes ctx) > 1 then ctx\<lparr>scopes := tl (scopes ctx)\<rparr> else ctx)"

definition eval_cache_defined :: "eval_ctx \<Rightarrow> string_view \<Rightarrow> bool" where
  "eval_cache_defined ctx key \<longleftrightarrow> length key \<noteq> 0 \<and> cache_entries ctx (c_str key) \<noteq> None"

definition eval_cache_set ::
  "string_view \<Rightarrow> string_view \<Rightarrow> string_view \<Rightarrow> string_view \<Rightarrow> eval_ctx \<Rightarrow> bool \<times> eval_ctx" where
  "eval_cache_set key value type doc ctx =
     (if length key = 0 \<or> eval_should_stop ctx then (False, ctx)
      else (True, ctx\<lparr>cache_entries := (cache_entries ctx)(c_str key \<mapsto>
        \<lparr>cv_data = sv_copy_to_arena value, cv_type = sv_copy_to_arena type, cv_doc = sv_copy_to_arena doc\<rparr>)\<rparr>))"

section \<open>Macro frames\<close>

definition eval_macro_frame_push :: "eval_ctx \<Rightarrow> eval_ctx" where
  "eval_macro_frame_push ctx = ctx\<lparr>macro_frames := [] # macro_frames ctx\<rparr>"

definition eval_macro_frame_pop :: "eval_ctx \<Rightarrow> eval_ctx" where
  "eval_macro_frame_pop ctx = ctx\<lparr>macro_frames := tl (macro_frames ctx)\<rparr>"

text \<open>The last binding of a frame that has the key.\<close>

fun binding_find :: "(string_view \<times> string_view) list \<Rightarrow> string_view \<Rightarrow> string_view option" where
  "binding_find [] key = None"
| "binding_find ((k, v) # bs) key =
     (case binding_find bs key of
        Some w \<Rightarrow> Some w
      | None \<Rightarrow> if eval_sv_key_eq k key then Some v else None)"

fun binding_replace :: "(string_view \<times> string_view) list \<Rightarrow> string_view \<Rightarrow> string_view \<Rightarrow> (string_view \<times> string_view) list" where
  "binding_replace [] key value = []"
| "binding_replace ((k, v) # bs) key value =
     (if binding_find bs key = None \<and> eval_sv_key_eq k key then (k, value) # bs
      else (k, v) # binding_replace bs key value)"

definition eval_macro_bind_set :: "string_view \<Rightarrow> string_view \<Rightarrow> eval_ctx \<Rightarrow> bool \<times> eval_ctx" where
  "eval_macro_bind_set key0 value0 ctx =
     (case macro_frames ctx of
        [] \<Rightarrow> (False, ctx)
      | frame # rest \<Rightarrow>
          (let key = sv_copy_to_arena key0; value = sv_copy_to_arena value0 in
           if eval_should_stop ctx then (False, ctx)
           else (True, ctx\<lparr>macro_frames :=
             (if binding_find frame key \<noteq> None then binding_replace frame key value else frame @ [(key, value)]) # rest\<rparr>)))"

fun frames_find :: "(string_view \<times> string_view) list list \<Rightarrow> string_view \<Rightarrow> string_view option" where
  "frames_find [] key = None"
| "frames_find (f # fs) key = (case binding_find f key of Some v \<Rightarrow> Some v | None \<Rightarrow> frames_find fs key)"

definition eval_macro_bind_get :: "eval_ctx \<Rightarrow> string_view \<Rightarrow> string_view option" where
  "eval_macro_bind_get ctx key = frames_find (macro_frames ctx) key"

section \<open>The environment\<close>

definition eval_getenv :: "eval_ctx \<Rightarrow> string \<Rightarrow> string option" where
  "eval_getenv ctx name0 =
     (let name = c_str name0 in
      if name = [] then None
      else (case env_overrides ctx name of
              Some v \<Rightarrow> map_option c_str v
            | None \<Rightarrow> if eval_should_stop ctx then None else process_env ctx name))"

definition eval_has_env :: "eval_ctx \<Rightarrow> string \<Rightarrow> bool" where
  "eval_has_env ctx name \<longleftrightarrow> eval_getenv ctx name \<noteq> None"

end
