(* ===== verification/Eval_State_Props.thy ===== *)
theory Eval_State_Props
  imports Eval_State
begin

text \<open>
  The variables as an interface: what a lookup gives after an assignment, and what a scope that is
  pushed and popped leaves behind. A watched variable is announced in variables of its own, whose
  names begin with \<open>NOBIFY_VARIABLE_WATCH_\<close>; the laws are about the other names.
\<close>

section \<open>The interface\<close>

definition announced :: "string_view \<Rightarrow> bool" where
  "announced key \<longleftrightarrow> nob_sv_starts_with (c_str key) ''NOBIFY_VARIABLE_WATCH_''"

text \<open>
  \<open>put\<close> says whether it succeeded; a name counts up to its first NUL, and so does a value.
\<close>

locale variable_store =
  fixes get :: "'ctx \<Rightarrow> string_view \<Rightarrow> string_view"
    and put :: "string_view \<Rightarrow> string_view \<Rightarrow> 'ctx \<Rightarrow> bool \<times> 'ctx"
  assumes get_put: "put k v ctx = (True, ctx') \<Longrightarrow> \<not> announced k \<Longrightarrow> get ctx' k = c_str v"
    and get_other: "put k v ctx = (ok, ctx') \<Longrightarrow> \<not> announced j \<Longrightarrow> c_str j \<noteq> c_str k \<Longrightarrow> get ctx' j = get ctx j"
begin

text \<open>Assignments one after the other, up to the first that fails.\<close>

primrec puts :: "(string_view \<times> string_view) list \<Rightarrow> 'ctx \<Rightarrow> bool \<times> 'ctx" where
  "puts [] ctx = (True, ctx)"
| "puts (kv # kvs) ctx =
     (case put (fst kv) (snd kv) ctx of (ok, ctx1) \<Rightarrow> if ok then puts kvs ctx1 else (False, ctx1))"

lemma puts_other:
  "puts kvs ctx = (ok, ctx') \<Longrightarrow> \<not> announced j \<Longrightarrow> c_str j \<notin> c_str ` fst ` set kvs \<Longrightarrow> get ctx' j = get ctx j"
proof (induction kvs arbitrary: ctx)
  case (Cons kv kvs)
  then show ?case
    by (cases "put (fst kv) (snd kv) ctx") (auto split: if_splits dest: get_other [where j = j])
qed simp

lemma puts_get:
  "puts kvs ctx = (True, ctx') \<Longrightarrow> distinct (map (c_str \<circ> fst) kvs) \<Longrightarrow> (k, v) \<in> set kvs \<Longrightarrow> \<not> announced k \<Longrightarrow>
    get ctx' k = c_str v"
proof (induction kvs arbitrary: ctx)
  case (Cons kv kvs)
  obtain ok ctx1 where p: "put (fst kv) (snd kv) ctx = (ok, ctx1)" by (cases "put (fst kv) (snd kv) ctx")
  with Cons.prems(1) have ok: ok "puts kvs ctx1 = (True, ctx')" by (auto split: if_splits)
  show ?case
  proof (cases "(k, v) \<in> set kvs")
    case True
    then show ?thesis using Cons.IH [OF ok(2)] Cons.prems by simp
  next
    case False
    then have kv: "kv = (k, v)" using Cons.prems(3) by auto
    then have "get ctx1 k = c_str v" using p ok(1) Cons.prems(4) by (auto intro: get_put)
    moreover have "c_str k \<notin> c_str ` fst ` set kvs" using Cons.prems(2) kv by (auto simp: image_iff)
    ultimately show ?thesis using puts_other [OF ok(2) Cons.prems(4)] by simp
  qed
qed simp

end

section \<open>The model provides it\<close>

lemma scope_find_update:
  "scope_find ((s(k := x)) # ss) j = (if j = k then (case x of Some v \<Rightarrow> Some v | None \<Rightarrow> scope_find ss k) else scope_find (s # ss) j)"
  by (simp split: option.split)

lemma get_cong:
  assumes "scopes ctx \<noteq> []" "scopes ctx' \<noteq> []" "cache_entries ctx' = cache_entries ctx"
    and "scope_find (scopes ctx') (c_str j) = scope_find (scopes ctx) (c_str j)"
  shows "eval_var_get_visible ctx' j = eval_var_get_visible ctx j"
  using assms by (simp add: eval_var_get_visible_def split: option.split)

text \<open>What the operations on variables leave alone.\<close>

definition outer_kept :: "eval_ctx \<Rightarrow> eval_ctx \<Rightarrow> bool" where
  "outer_kept ctx ctx' \<longleftrightarrow>
     length (scopes ctx') = length (scopes ctx) \<and> tl (scopes ctx') = tl (scopes ctx) \<and>
     cache_entries ctx' = cache_entries ctx \<and> macro_frames ctx' = macro_frames ctx \<and>
     env_overrides ctx' = env_overrides ctx \<and> process_env ctx' = process_env ctx"

lemma outer_kept_refl [simp]: "outer_kept ctx ctx"
  by (simp add: outer_kept_def)

lemma outer_kept_trans [trans]: "outer_kept a b \<Longrightarrow> outer_kept b c \<Longrightarrow> outer_kept a c"
  by (simp add: outer_kept_def)

lemma store_current_kept: "scopes ctx \<noteq> [] \<Longrightarrow> outer_kept ctx (store_current k v ctx)"
  by (simp add: outer_kept_def store_current_def)

lemma store_all_kept: "outer_kept ctx (snd (store_all kvs ctx))"
proof (induction kvs ctx rule: store_all.induct)
  case (2 k v kvs ctx)
  then show ?case using store_current_kept [of ctx k v] outer_kept_trans by (auto simp: can_set_def)
qed simp

lemma emit_fields:
  "scopes (snd (eval_emit_diag sev cmd cause ctx)) = scopes ctx"
  "cache_entries (snd (eval_emit_diag sev cmd cause ctx)) = cache_entries ctx"
  "macro_frames (snd (eval_emit_diag sev cmd cause ctx)) = macro_frames ctx"
  "env_overrides (snd (eval_emit_diag sev cmd cause ctx)) = env_overrides ctx"
  "process_env (snd (eval_emit_diag sev cmd cause ctx)) = process_env ctx"
  by (simp_all add: eval_emit_diag_def eval_compat_decide_on_diag_def eval_request_stop_on_error_def Let_def)

lemma emit_kept: "outer_kept ctx (snd (eval_emit_diag sev cmd cause ctx))"
  by (simp add: outer_kept_def emit_fields)

lemma flag_kept: "outer_kept ctx (ctx\<lparr>in_variable_watch_notification := b\<rparr>)"
  by (simp add: outer_kept_def)

text \<open>A notification: the announcements, a diagnostic, and the flag down again.\<close>

lemma notify_kept: "outer_kept ctx (snd (eval_variable_watch_notify key action value ctx))"
proof -
  have flag: "outer_kept ctx b \<Longrightarrow> outer_kept ctx (b\<lparr>in_variable_watch_notification := False\<rparr>)" for b
    by (rule outer_kept_trans [OF _ flag_kept])
  have all: "outer_kept ctx (snd (store_all kvs (ctx\<lparr>in_variable_watch_notification := True\<rparr>)))" for kvs
    by (rule outer_kept_trans [OF flag_kept store_all_kept])
  have emit: "outer_kept ctx (snd (store_all kvs (ctx\<lparr>in_variable_watch_notification := True\<rparr>))) \<Longrightarrow>
    outer_kept ctx (snd (eval_emit_diag sev cmd cause (snd (store_all kvs (ctx\<lparr>in_variable_watch_notification := True\<rparr>)))))"
    for kvs sev cmd cause by (rule outer_kept_trans [OF _ emit_kept])
  show ?thesis
    unfolding eval_variable_watch_notify_def Let_def
    using flag all emit by (auto split: option.split simp: case_prod_beta simp del: store_all.simps)
qed

lemma set_kept: "outer_kept ctx (snd (eval_var_set_current k v ctx))"
  using outer_kept_trans [OF store_current_kept notify_kept]
  by (simp add: eval_var_set_current_def can_set_def)

lemma unset_kept: "outer_kept ctx (snd (eval_var_unset_current k ctx))"
proof -
  have "scopes ctx \<noteq> [] \<Longrightarrow> outer_kept ctx (ctx\<lparr>scopes := (hd (scopes ctx))(c_str k := None) # tl (scopes ctx)\<rparr>)"
    by (simp add: outer_kept_def)
  then show ?thesis using outer_kept_trans notify_kept
    by (auto simp: eval_var_unset_current_def can_set_def Let_def)
qed

text \<open>The names a notification assigns are announcements.\<close>

lemma store_all_find:
  assumes "\<forall>kv \<in> set kvs. c_str (fst kv) \<noteq> c_str j" "scopes ctx \<noteq> []"
  shows "scope_find (scopes (snd (store_all kvs ctx))) (c_str j) = scope_find (scopes ctx) (c_str j)
    \<and> scopes (snd (store_all kvs ctx)) \<noteq> []"
  using assms
proof (induction kvs ctx rule: store_all.induct)
  case (2 k v kvs ctx)
  have "scope_find (scopes (store_current k v ctx)) (c_str j) = scope_find (scopes ctx) (c_str j)"
    using 2(2,3) by (cases "scopes ctx") (auto simp: store_current_def)
  moreover have "scopes (store_current k v ctx) \<noteq> []" by (simp add: store_current_def)
  ultimately show ?case using 2 by auto
qed simp

lemma notify_find:
  assumes "\<not> announced j" "scopes ctx \<noteq> []"
  shows "scope_find (scopes (snd (eval_variable_watch_notify key action value ctx))) (c_str j) = scope_find (scopes ctx) (c_str j)"
proof -
  have names: "c_str j \<noteq> ''NOBIFY_VARIABLE_WATCH_LAST_VAR''" "c_str j \<noteq> ''NOBIFY_VARIABLE_WATCH_LAST_ACTION''"
    "c_str j \<noteq> ''NOBIFY_VARIABLE_WATCH_LAST_VALUE''" "c_str j \<noteq> ''NOBIFY_VARIABLE_WATCH_LAST_COMMAND''"
    using assms(1) by (auto simp: announced_def nob_sv_starts_with_def)
  let ?kvs = "\<lambda>command. [(''NOBIFY_VARIABLE_WATCH_LAST_VAR'', key), (''NOBIFY_VARIABLE_WATCH_LAST_ACTION'', action),
    (''NOBIFY_VARIABLE_WATCH_LAST_VALUE'', value)]
    @ (if length command > 0 then [(''NOBIFY_VARIABLE_WATCH_LAST_COMMAND'', command)] else [])"
  have found: "scope_find (scopes (snd (store_all (?kvs command) (ctx\<lparr>in_variable_watch_notification := True\<rparr>)))) (c_str j)
    = scope_find (scopes ctx) (c_str j)" for command
    using store_all_find [of "?kvs command" j "ctx\<lparr>in_variable_watch_notification := True\<rparr>"] names assms(2)
    by (auto simp: c_str_id eq_commute)
  show ?thesis
    unfolding eval_variable_watch_notify_def Let_def
    using found by (auto split: option.split simp: case_prod_beta emit_fields simp del: store_all.simps)
qed

lemma set_find:
  assumes "can_set ctx" "\<not> announced j"
  shows "scope_find (scopes (snd (eval_var_set_current k v ctx))) (c_str j)
    = (if c_str j = c_str k then Some (c_str v) else scope_find (scopes ctx) (c_str j))"
proof -
  have "scope_find (scopes (snd (eval_var_set_current k v ctx))) (c_str j)
    = scope_find (scopes (store_current k v ctx)) (c_str j)"
    using assms notify_find [of j "store_current k v ctx" k "''SET''" v]
    by (simp add: eval_var_set_current_def store_current_def)
  also have "\<dots> = (if c_str j = c_str k then Some (c_str v) else scope_find (scopes ctx) (c_str j))"
    using assms(1) by (cases "scopes ctx") (simp_all add: store_current_def sv_copy_to_arena_def can_set_def)
  finally show ?thesis .
qed

lemma set_scopes: "can_set ctx \<Longrightarrow> scopes (snd (eval_var_set_current k v ctx)) \<noteq> []"
  using set_kept [of ctx k v] by (auto simp: can_set_def outer_kept_def)

interpretation variables: variable_store eval_var_get_visible eval_var_set_current
proof
  fix k v :: string_view and ctx ctx'
  assume put: "eval_var_set_current k v ctx = (True, ctx')" and k: "\<not> announced k"
  then have can: "can_set ctx" by (auto simp: eval_var_set_current_def split: if_splits)
  show "eval_var_get_visible ctx' k = c_str v"
    using set_find [OF can k, of k v] set_scopes [OF can, of k v] put by (simp add: eval_var_get_visible_def)
next
  fix k v j :: string_view and ok ctx ctx'
  assume put: "eval_var_set_current k v ctx = (ok, ctx')" and j: "\<not> announced j" "c_str j \<noteq> c_str k"
  show "eval_var_get_visible ctx' j = eval_var_get_visible ctx j"
  proof (cases "can_set ctx")
    case True
    have "scope_find (scopes ctx') (c_str j) = scope_find (scopes ctx) (c_str j)"
      using set_find [OF True j(1), of k v] j(2) put by simp
    moreover have "scopes ctx' \<noteq> []" "cache_entries ctx' = cache_entries ctx"
      using set_scopes [OF True, of k v] set_kept [of ctx k v] put by (simp_all add: outer_kept_def)
    moreover have "scopes ctx \<noteq> []" using True by (simp add: can_set_def)
    ultimately show ?thesis by (intro get_cong)
  next
    case False
    then show ?thesis using put by (simp add: eval_var_set_current_def)
  qed
qed

section \<open>Scopes\<close>

text \<open>What happens while a scope is open: assignments, removals, and scopes of its own.\<close>

datatype scope_op =
    Set_Var string_view string_view
  | Unset_Var string_view
  | Scope "scope_op list"

fun in_turn :: "(eval_ctx \<Rightarrow> eval_ctx) list \<Rightarrow> eval_ctx \<Rightarrow> eval_ctx" where
  "in_turn [] ctx = ctx"
| "in_turn (f # fs) ctx = in_turn fs (f ctx)"

primrec run_op :: "scope_op \<Rightarrow> eval_ctx \<Rightarrow> eval_ctx" where
  "run_op (Set_Var k v) = (\<lambda>ctx. snd (eval_var_set_current k v ctx))"
| "run_op (Unset_Var k) = (\<lambda>ctx. snd (eval_var_unset_current k ctx))"
| "run_op (Scope ops) = (\<lambda>ctx. eval_scope_pop (in_turn (map run_op ops) (eval_scope_push ctx)))"

lemma in_turn_kept:
  "(\<And>op ctx. op \<in> set ops \<Longrightarrow> scopes ctx \<noteq> [] \<Longrightarrow> outer_kept ctx (run_op op ctx)) \<Longrightarrow> scopes ctx \<noteq> [] \<Longrightarrow>
    outer_kept ctx (in_turn (map run_op ops) ctx)"
proof (induction ops arbitrary: ctx)
  case (Cons op ops)
  then have step: "outer_kept ctx (run_op op ctx)" by simp
  then have "scopes (run_op op ctx) \<noteq> []" using Cons.prems(2) by (auto simp: outer_kept_def)
  then have "outer_kept (run_op op ctx) (in_turn (map run_op ops) (run_op op ctx))" using Cons by simp
  then show ?case using step by (auto intro: outer_kept_trans)
qed simp

lemma scope_kept:
  assumes "outer_kept (eval_scope_push ctx) inner" "scopes ctx \<noteq> []"
  shows "outer_kept ctx (eval_scope_pop inner)" and "scopes (eval_scope_pop inner) = scopes ctx"
proof -
  have "length (scopes inner) > 1" "tl (scopes inner) = scopes ctx"
    using assms by (auto simp: outer_kept_def eval_scope_push_def)
  then show "outer_kept ctx (eval_scope_pop inner)" "scopes (eval_scope_pop inner) = scopes ctx"
    using assms by (auto simp: outer_kept_def eval_scope_push_def eval_scope_pop_def)
qed

lemma run_op_kept: "scopes ctx \<noteq> [] \<Longrightarrow> outer_kept ctx (run_op op ctx)"
proof (induction op arbitrary: ctx)
  case (Scope ops)
  have "outer_kept (eval_scope_push ctx) (in_turn (map run_op ops) (eval_scope_push ctx))"
    using Scope.IH by (intro in_turn_kept) (auto simp: eval_scope_push_def)
  then show ?case using scope_kept(1) Scope.prems by simp
qed (simp_all add: set_kept unset_kept)

text \<open>
  C22. Setting and removing variables of the current scope, watched ones included, and opening and
  closing scopes inside in which the same is done: closing the scope brings the scopes back as they
  were, so that every lookup gives what it gave before, and cache and macro arguments are untouched.
  (Assignments to a parent scope, propagation out of a block and cache entries, whose purpose is to
  be seen outside, are not among these operations; for propagation see \<open>block_left\<close>.)
\<close>

theorem scope_isolates:
  assumes "scopes ctx \<noteq> []"
  shows "scopes (run_op (Scope ops) ctx) = scopes ctx
    \<and> cache_entries (run_op (Scope ops) ctx) = cache_entries ctx
    \<and> macro_frames (run_op (Scope ops) ctx) = macro_frames ctx
    \<and> eval_var_get_visible (run_op (Scope ops) ctx) key = eval_var_get_visible ctx key
    \<and> eval_var_defined_visible (run_op (Scope ops) ctx) key = eval_var_defined_visible ctx key"
proof -
  let ?inner = "in_turn (map run_op ops) (eval_scope_push ctx)"
  have "outer_kept (eval_scope_push ctx) ?inner"
    by (intro in_turn_kept run_op_kept) (auto simp: eval_scope_push_def)
  then have scopes: "scopes (run_op (Scope ops) ctx) = scopes ctx" using scope_kept(2) assms by simp
  moreover have "outer_kept ctx (run_op (Scope ops) ctx)" using assms by (rule run_op_kept)
  ultimately show ?thesis using assms
    by (auto simp: outer_kept_def eval_var_defined_visible_def intro: get_cong)
qed

text \<open>A context with one scope, for concrete inputs.\<close>

definition one_scope :: "(string \<rightharpoonup> string_view) \<Rightarrow> eval_ctx" where
  "one_scope vars =
     \<lparr>scopes = [vars], cache_entries = Map.empty, macro_frames = [], watched_variables = [],
      watched_variable_commands = [], in_variable_watch_notification = False, env_overrides = Map.empty,
      process_env = Map.empty, policy_levels = [],
      profile = EVAL_PROFILE_PERMISSIVE, unsupported = EVAL_UNSUPPORTED_WARN, error_budget = 0, continue_on_error = True,
      diag_strict = False, error_total = 0, stop_requested = False, diags = []\<rparr>"

lemma one_scope_simps [simp]:
  "scopes (one_scope vars) = [vars]"
  "\<not> eval_should_stop (one_scope vars)"
  "eval_var_get_visible (one_scope vars) k = (case vars (c_str k) of Some v \<Rightarrow> v | None \<Rightarrow> [])"
  "eval_macro_bind_get (one_scope vars) k = None"
  "eval_getenv (one_scope vars) k = None"
  by (simp_all add: one_scope_def eval_should_stop_def eval_var_get_visible_def eval_macro_bind_get_def eval_getenv_def
      Let_def split: option.split)

lemma scope_isolates_witness:
  "eval_var_get_visible (run_op (Scope [Set_Var ''X'' ''inner'', Scope [Unset_Var ''X'']]) (one_scope [''X'' \<mapsto> ''outer''])) ''X''
    = ''outer''"
  using scope_isolates [of "one_scope [''X'' \<mapsto> ''outer'']" "[Set_Var ''X'' ''inner'', Scope [Unset_Var ''X'']]" "''X''"]
  by (simp add: c_str_def)

end
