(* ===== verification/Eval_Expand.thy ===== *)
theory Eval_Expand
  imports Eval_State Cmk_Parser
begin

text \<open>
  Variable references and arguments: \<open>eval_expand_vars\<close> of \<open>src_v2/evaluator/eval_expr.c\<close>,
  and \<open>eval_resolve_args\<close> of \<open>evaluator.c\<close>, which turns the arguments of the parser into the
  strings a command sees. Two characters stand for text in flight: 31 for an escaped dollar
  sign, 30 for a literal backslash before one.
\<close>

definition ESCAPED_DOLLAR :: char where "ESCAPED_DOLLAR = char_of (31 :: nat)"
definition LITERAL_BS :: char where "LITERAL_BS = char_of (30 :: nat)"
definition EVAL_EXPAND_MAX_RECURSION :: nat where "EVAL_EXPAND_MAX_RECURSION = 100"
definition EVAL_EXPAND_MAX_RECURSION_HARD_CAP :: nat where "EVAL_EXPAND_MAX_RECURSION_HARD_CAP = 10000"

section \<open>The recursion limit\<close>

definition LONG_MAX :: int where "LONG_MAX = 2 ^ 63 - 1"
definition LONG_MIN :: int where "LONG_MIN = - (2 ^ 63)"

text \<open>
  \<open>strtol(s, &end, 10)\<close>: the value, clamped to a \<open>long\<close>, and the text at \<open>end\<close>, which is all of
  it when there is no number.
\<close>

definition c_strtol :: "string \<Rightarrow> int \<times> string" where
  "c_strtol s =
     (let t = dropWhile c_isspace s;
          neg = (t \<noteq> [] \<and> hd t = CHR ''-'');
          u = (if t \<noteq> [] \<and> (hd t = CHR ''-'' \<or> hd t = CHR ''+'') then tl t else t);
          ds = takeWhile c_isdigit u;
          v = (if neg then - int (digits_value ds) else int (digits_value ds))
      in if ds = [] then (0, s)
         else (if v > LONG_MAX then LONG_MAX else if v < LONG_MIN then LONG_MIN else v, dropWhile c_isdigit u))"

definition sv_parse_positive_int :: "string_view \<Rightarrow> nat option" where
  "sv_parse_positive_int sv =
     (if length sv = 0 \<or> length sv \<ge> 64 then None
      else (case c_strtol (c_str sv) of
              (v, rest) \<Rightarrow>
                if rest \<noteq> [] \<or> v \<le> 0 \<or> v > int EVAL_EXPAND_MAX_RECURSION_HARD_CAP then None else Some (nat v)))"

definition eval_expand_limit :: "eval_ctx \<Rightarrow> nat" where
  "eval_expand_limit ctx =
     (let limit0 = EVAL_EXPAND_MAX_RECURSION;
          limit1 = (case sv_parse_positive_int (eval_var_get_visible ctx ''CMAKE_NOBIFY_EXPAND_MAX_RECURSION'') of
                      Some n \<Rightarrow> n | None \<Rightarrow> limit0)
      in case eval_getenv ctx ''NOBIFY_EVAL_EXPAND_MAX_RECURSION'' of
           None \<Rightarrow> limit1
         | Some env \<Rightarrow>
             if env = [] then limit1
             else (case sv_parse_positive_int env of Some n \<Rightarrow> n | None \<Rightarrow> limit1))"

section \<open>References\<close>

definition expand_restore_escaped_dollar :: "string_view \<Rightarrow> string_view" where
  "expand_restore_escaped_dollar sv =
     (if list_ex (\<lambda>c. c = ESCAPED_DOLLAR) sv
      then map (\<lambda>c. if c = ESCAPED_DOLLAR then CHR ''$'' else c) sv else sv)"

text \<open>
  The text up to the brace that closes \<open>n\<close> open ones, and the text after it; the scan for an
  environment reference stops at the first closing brace.
\<close>

fun close_braces :: "nat \<Rightarrow> string \<Rightarrow> (string \<times> string) option" where
  "close_braces n [] = None"
| "close_braces n (c # cs) =
     (if c = CHR ''}'' \<and> n = 1 then Some ([], cs)
      else map_option (apfst (Cons c))
        (close_braces (if c = CHR ''{'' then n + 1 else if c = CHR ''}'' then n - 1 else n) cs))"

fun until_brace :: "string \<Rightarrow> (string \<times> string) option" where
  "until_brace [] = None"
| "until_brace (c # cs) = (if c = CHR ''}'' then Some ([], cs) else map_option (apfst (Cons c)) (until_brace cs))"

lemma close_braces_length: "close_braces n cs = Some (inner, rest) \<Longrightarrow> length inner + length rest < length cs"
  by (induction cs arbitrary: n inner) (auto split: if_splits)

lemma until_brace_length: "until_brace cs = Some (name, rest) \<Longrightarrow> length name + length rest < length cs"
  by (induction cs arbitrary: name) (auto split: if_splits)

definition has_dollar :: "string \<Rightarrow> bool" where
  "has_dollar cs = list_ex (\<lambda>c. c = CHR ''$'') cs"

text \<open>The value of a reference: a macro argument, or else a variable.\<close>

definition reference_value :: "eval_ctx \<Rightarrow> string_view \<Rightarrow> string_view" where
  "reference_value ctx name =
     (case eval_macro_bind_get ctx name of Some v \<Rightarrow> v | None \<Rightarrow> eval_var_get_visible ctx name)"

text \<open>Putting a piece in front of what the rest of the scan gives.\<close>

definition prepend :: "string \<Rightarrow> string option \<times> eval_ctx \<Rightarrow> string option \<times> eval_ctx" where
  "prepend s r = (case r of (out, ctx) \<Rightarrow> (map_option ((@) s) out, ctx))"

lemma c_str_length: "length (c_str s) \<le> length s"
  by (simp add: c_str_def length_takeWhile_le)

lemma reference_length:
  "(if b then close_braces 1 (tl cs) else None) = Some (inner, rest) \<Longrightarrow> length inner + length rest < length cs"
  using close_braces_length [of 1 "tl cs" inner rest] by (cases cs) (auto split: if_splits)

lemma environment_length:
  "(if b then until_brace (drop 4 cs) else None) = Some (name, rest) \<Longrightarrow> length name + length rest < length cs"
  using until_brace_length [of "drop 4 cs" name rest] by (auto split: if_splits)

text \<open>
  \<open>scan\<close> is the loop of \<open>expand_once\<close> over the text still to be read, \<open>None\<close> being the return
  that drops everything when the run has been stopped; \<open>eval_expand_vars_depth\<close> is called for
  the name inside a reference.
\<close>

function (sequential) scan :: "nat \<Rightarrow> string \<Rightarrow> eval_ctx \<Rightarrow> string option \<times> eval_ctx"
and eval_expand_vars_depth :: "nat \<Rightarrow> string \<Rightarrow> eval_ctx \<Rightarrow> string_view \<times> eval_ctx"
where
  "scan depth [] ctx = (Some [], ctx)"
| "scan depth (c # cs) ctx =
     (if c = CHR 0x5C \<and> cs \<noteq> [] \<and> hd cs = CHR ''$'' then
        prepend [ESCAPED_DOLLAR] (scan depth (tl cs) ctx)
      else
        (case (if c = CHR ''$'' \<and> nob_sv_starts_with cs ''ENV{'' then until_brace (drop 4 cs) else None) of
           Some (name, rest) \<Rightarrow>
             if eval_should_stop ctx then (None, ctx)
             else prepend (case eval_getenv ctx name of Some v \<Rightarrow> v | None \<Rightarrow> []) (scan depth rest ctx)
         | None \<Rightarrow>
             (case (if c = CHR ''$'' \<and> cs \<noteq> [] \<and> hd cs = CHR ''{'' then close_braces 1 (tl cs) else None) of
                Some (inner0, rest) \<Rightarrow>
                  (case eval_expand_vars_depth (Suc depth) inner0 ctx of
                     (inner, ctx1) \<Rightarrow> prepend (reference_value ctx1 inner) (scan depth rest ctx1))
              | None \<Rightarrow> prepend [c] (scan depth cs ctx))))"
| "eval_expand_vars_depth depth input ctx =
     (if eval_should_stop ctx then ([], ctx)
      else if depth > eval_expand_limit ctx then
        (expand_restore_escaped_dollar input,
         snd (eval_emit_diag DIAG_SEV_WARNING ''expand_vars'' ''Recursion limit exceeded'' ctx))
      else
        (let cur = sv_copy_to_arena input in
         if \<not> has_dollar cur then (expand_restore_escaped_dollar cur, ctx)
         else (case scan depth cur ctx of
                 (out, ctx1) \<Rightarrow>
                   (expand_restore_escaped_dollar (case out of Some s \<Rightarrow> c_str s | None \<Rightarrow> []), ctx1))))"
  by pat_completeness auto

termination
proof (relation "measure (\<lambda>x. case x of Inl (d, cs, ctx) \<Rightarrow> 2 * length cs | Inr (d, s, ctx) \<Rightarrow> 2 * length s + 1)", goal_cases)
  case (2 depth c cs ctx)
  then show ?case by (cases cs) auto
next
  case (4 depth c cs ctx x2 inner rest)
  then show ?case using reference_length [of _ cs inner rest] by fastforce
next
  case (5 depth c cs ctx x2 inner rest y z)
  then show ?case using reference_length [of _ cs inner rest] by fastforce
next
  case (6 depth c cs ctx x2 name rest)
  then show ?case using environment_length [of _ cs name rest] by fastforce
next
  case (7 depth input ctx)
  then show ?case using c_str_length [of input] by (simp add: sv_copy_to_arena_def)
qed auto

declare scan.simps [simp del] eval_expand_vars_depth.simps [simp del]

definition eval_expand_vars :: "string_view \<Rightarrow> eval_ctx \<Rightarrow> string_view \<times> eval_ctx" where
  "eval_expand_vars input ctx = eval_expand_vars_depth 0 input ctx"

section \<open>Arguments\<close>

text \<open>The tokens of an argument in one buffer, which is read up to a NUL.\<close>

definition arg_to_sv_flat :: "arg \<Rightarrow> string_view" where
  "arg_to_sv_flat a = c_str (concat (map tok_text (items a)))"

definition arg_restore_literal_bs_sentinel :: "string_view \<Rightarrow> string_view" where
  "arg_restore_literal_bs_sentinel sv =
     (if list_ex (\<lambda>c. c = LITERAL_BS) sv then map (\<lambda>c. if c = LITERAL_BS then CHR 0x5C else c) sv else sv)"

text \<open>What an escape in a quoted argument stands for, a run of backslashes before \<open>$\<close> apart.\<close>

definition unescaped :: "char \<Rightarrow> string \<Rightarrow> string \<times> string" where
  "unescaped ch rest =
     (if ch = CHR ''t'' then ([CHR 0x09], rest)
      else if ch = CHR ''r'' then ([CHR 0x0D], rest)
      else if ch = CHR ''n'' then ([CHR 0x0A], rest)
      else if ch = CHR '';'' then ([CHR '';''], rest)
      else if ch = CHR 0x22 then ([CHR 0x22], rest)
      else if ch = CHR 0x5C then ([CHR 0x5C], rest)
      else if ch = CHR ''$'' then ([CHR 0x5C, CHR ''$''], rest)
      else if ch = CHR 0x0A then ([], rest)
      else if ch = CHR 0x0D then ([], if rest \<noteq> [] \<and> hd rest = CHR 0x0A then tl rest else rest)
      else ([CHR 0x5C, ch], rest))"

lemma unescaped_length: "length (snd (unescaped ch rest)) \<le> length rest"
  by (simp add: unescaped_def)

function (sequential) unescape :: "string \<Rightarrow> string" where
  "unescape [] = []"
| "unescape (c # cs) =
     (if c \<noteq> CHR 0x5C then c # unescape cs
      else (case cs of
              [] \<Rightarrow> [c]
            | ch # rest \<Rightarrow>
                (let slashes = length (takeWhile (\<lambda>x. x = CHR 0x5C) (c # cs));
                     after = dropWhile (\<lambda>x. x = CHR 0x5C) (c # cs)
                 in if after \<noteq> [] \<and> hd after = CHR ''$'' then
                      replicate (slashes div 2) LITERAL_BS
                      @ (if slashes mod 2 \<noteq> 0 then [CHR 0x5C, CHR ''$''] @ unescape (tl after) else unescape after)
                    else fst (unescaped ch rest) @ unescape (snd (unescaped ch rest)))))"
  by pat_completeness auto

termination
proof (relation "measure length", goal_cases)
  case (3 c cs ch rest)
  have "length (dropWhile (\<lambda>x. x = CHR 0x5C) (c # cs)) \<le> length (c # cs)" by (rule length_dropWhile_le)
  then show ?case using 3 by (cases "dropWhile (\<lambda>x. x = CHR 0x5C) (c # cs)") auto
next
  case (4 c cs ch rest)
  have "length (dropWhile (\<lambda>x. x = CHR 0x5C) cs) \<le> length cs" by (rule length_dropWhile_le)
  then show ?case using 4 by simp
next
  case (5 c cs ch rest)
  then show ?case using unescaped_length [of ch rest] by simp
qed auto

definition arg_process_quoted_literal :: "string_view \<Rightarrow> string_view" where
  "arg_process_quoted_literal sv =
     (let inner = (if length sv \<ge> 2 \<and> hd sv = CHR 0x22 \<and> last sv = CHR 0x22 then butlast (tl sv) else sv) in
      if list_ex (\<lambda>c. c = CHR 0x5C) inner then unescape inner else inner)"

definition eval_resolve_quoted_arg :: "bool \<Rightarrow> string_view \<Rightarrow> eval_ctx \<Rightarrow> string_view \<times> eval_ctx" where
  "eval_resolve_quoted_arg expand_vars flat ctx =
     (let value = arg_process_quoted_literal flat in
      case (if expand_vars then eval_expand_vars value ctx else (value, ctx)) of
        (v, ctx1) \<Rightarrow> (arg_restore_literal_bs_sentinel v, ctx1))"

text \<open>The text between the brackets of a bracket argument, or the text itself.\<close>

definition sv_strip_cmake_bracket_arg :: "string_view \<Rightarrow> string_view" where
  "sv_strip_cmake_bracket_arg sv =
     (if length sv < 4 \<or> hd sv \<noteq> CHR ''['' then sv
      else
        (let eq_count = length (takeWhile (\<lambda>c. c = CHR ''='') (tl sv));
             i = 1 + eq_count
         in if i \<ge> length sv \<or> sv ! i \<noteq> CHR ''['' then sv
            else
              (let open_len = i + 1 in
               if length sv < open_len + 2 + eq_count then sv
               else
                 (let close_pos = length sv - (eq_count + 2) in
                  if sv ! close_pos \<noteq> CHR '']'' then sv
                  else if list_ex (\<lambda>k. sv ! (close_pos + 1 + k) \<noteq> CHR ''='') [0..<eq_count] then sv
                  else if last sv \<noteq> CHR '']'' \<or> close_pos < open_len then sv
                  else take (close_pos - open_len) (drop open_len sv)))))"

text \<open>
  Splitting at semicolons outside generator expressions and not behind an odd number of
  backslashes; \<open>cur\<close> is the item so far. An empty last item is dropped, others are kept.
\<close>

fun split_semicolons :: "nat \<Rightarrow> string \<Rightarrow> string \<Rightarrow> string_view list" where
  "split_semicolons depth cur [] = (if cur \<noteq> [] then [cur] else [])"
| "split_semicolons depth cur (c # cs) =
     (if c = CHR ''$'' \<and> cs \<noteq> [] \<and> hd cs = CHR ''<'' then
        (case cs of [] \<Rightarrow> [] | d # ds \<Rightarrow> split_semicolons (depth + 1) (cur @ [c, d]) ds)
      else if c = CHR ''>'' \<and> depth > 0 then split_semicolons (depth - 1) (cur @ [c]) cs
      else if c = CHR '';'' \<and> depth = 0 \<and>
              length (takeWhile (\<lambda>x. x = CHR 0x5C) (rev cur)) mod 2 \<noteq> 1 then
        cur # split_semicolons 0 [] cs
      else split_semicolons depth (cur @ [c]) cs)"

definition eval_sv_split_semicolon_genex_aware :: "string_view \<Rightarrow> string_view list" where
  "eval_sv_split_semicolon_genex_aware input = (if length input = 0 then [] else split_semicolons 0 [] input)"

fun resolve_args_loop :: "bool \<Rightarrow> bool \<Rightarrow> arg list \<Rightarrow> string_view list \<Rightarrow> eval_ctx \<Rightarrow> string_view list \<times> eval_ctx" where
  "resolve_args_loop expand_vars split_lists [] out ctx = (out, ctx)"
| "resolve_args_loop expand_vars split_lists (a # args) out ctx =
     (let flat = arg_to_sv_flat a in
      case arg_kind_of a of
        ARG_QUOTED \<Rightarrow>
          (case eval_resolve_quoted_arg expand_vars flat ctx of
             (v, ctx1) \<Rightarrow>
               if eval_should_stop ctx1 then ([], ctx1)
               else resolve_args_loop expand_vars split_lists args (out @ [v]) ctx1)
      | ARG_BRACKET \<Rightarrow>
          (case (if expand_vars then eval_expand_vars flat ctx else (flat, ctx)) of
             (v, ctx1) \<Rightarrow>
               if eval_should_stop ctx1 then ([], ctx1)
               else resolve_args_loop expand_vars split_lists args (out @ [sv_strip_cmake_bracket_arg v]) ctx1)
      | ARG_UNQUOTED \<Rightarrow>
          (case (if expand_vars then eval_expand_vars flat ctx else (flat, ctx)) of
             (v, ctx1) \<Rightarrow>
               if eval_should_stop ctx1 then ([], ctx1)
               else resolve_args_loop expand_vars split_lists args
                 (out @ (if \<not> split_lists then [v]
                         else if length v = 0 then [] else eval_sv_split_semicolon_genex_aware v)) ctx1))"

definition eval_resolve_args_impl :: "bool \<Rightarrow> bool \<Rightarrow> arg list \<Rightarrow> eval_ctx \<Rightarrow> string_view list \<times> eval_ctx" where
  "eval_resolve_args_impl expand_vars split_lists args ctx =
     (if eval_should_stop ctx then ([], ctx) else resolve_args_loop expand_vars split_lists args [] ctx)"

definition eval_resolve_args :: "arg list \<Rightarrow> eval_ctx \<Rightarrow> string_view list \<times> eval_ctx" where
  "eval_resolve_args = eval_resolve_args_impl True True"

definition eval_resolve_args_literal :: "arg list \<Rightarrow> eval_ctx \<Rightarrow> string_view list \<times> eval_ctx" where
  "eval_resolve_args_literal = eval_resolve_args_impl False False"

end
