(* ===== verification/Eval_Expand_Props.thy ===== *)
theory Eval_Expand_Props
  imports Eval_Expand Eval_State_Props
begin

text \<open>
  Expansion against a reference semantics. A template is a text with references, nested as deep
  as one likes; \<open>written\<close> is how a script spells it, \<open>meaning\<close> what it stands for in a context. The
  scanner of \<open>eval_expand_vars\<close> gives the meaning, and what it substitutes is not read again.
\<close>

section \<open>Text without references\<close>

definition plain_text :: "string \<Rightarrow> bool" where
  "plain_text s \<longleftrightarrow> list_all (\<lambda>c. c \<noteq> CHR ''$'' \<and> c \<noteq> NUL \<and> c \<noteq> ESCAPED_DOLLAR) s"

lemma restore_map: "expand_restore_escaped_dollar s = map (\<lambda>c. if c = ESCAPED_DOLLAR then CHR ''$'' else c) s"
  by (induction s) (auto simp: expand_restore_escaped_dollar_def list_ex_iff)

lemma restore_append: "expand_restore_escaped_dollar (a @ b) = expand_restore_escaped_dollar a @ expand_restore_escaped_dollar b"
  by (simp add: restore_map)

lemma plain_text_copy: "plain_text s \<Longrightarrow> c_str s = s"
  by (rule c_str_id) (auto simp: plain_text_def list_all_iff)

lemma plain_text_restore: "plain_text s \<Longrightarrow> expand_restore_escaped_dollar s = s"
  by (induction s) (auto simp: plain_text_def restore_map)

lemma plain_text_no_dollar: "plain_text s \<Longrightarrow> \<not> has_dollar s"
  by (auto simp: plain_text_def has_dollar_def list_all_iff list_ex_iff)

lemma expand_plain: "plain_text s \<Longrightarrow> \<not> eval_should_stop ctx \<Longrightarrow> eval_expand_vars s ctx = (s, ctx)"
  by (simp add: eval_expand_vars_def eval_expand_vars_depth.simps sv_copy_to_arena_def
      plain_text_copy plain_text_restore plain_text_no_dollar)

text \<open>Words of an unquoted argument that stay one word.\<close>

definition plain_word :: "string \<Rightarrow> bool" where
  "plain_word s \<longleftrightarrow> s \<noteq> [] \<and> plain_text s \<and> list_all (\<lambda>c. c \<noteq> CHR '';'') s"

lemma split_plain:
  "list_all (\<lambda>c. c \<noteq> CHR '';'' \<and> c \<noteq> CHR ''$'') s \<Longrightarrow>
    split_semicolons 0 cur s = (if cur @ s \<noteq> [] then [cur @ s] else [])"
  by (induction s arbitrary: cur) auto

definition unquoted :: "string \<Rightarrow> arg" where
  "unquoted s = \<lparr>items = [\<lparr>tok_kind = TOKEN_IDENTIFIER, tok_text = s, tok_line = 1, tok_col = 1, has_space_left = True\<rparr>],
     arg_kind_of = ARG_UNQUOTED\<rparr>"

lemma flat_unquoted: "plain_text s \<Longrightarrow> arg_to_sv_flat (unquoted s) = s"
  by (simp add: arg_to_sv_flat_def unquoted_def plain_text_copy)

lemma resolve_loop_plain:
  "list_all plain_word ts \<Longrightarrow> \<not> eval_should_stop ctx \<Longrightarrow>
    resolve_args_loop True True (map unquoted ts) out ctx = (out @ ts, ctx)"
proof (induction ts arbitrary: out)
  case (Cons t ts)
  have t: "plain_text t" "t \<noteq> []" "list_all (\<lambda>c. c \<noteq> CHR '';'' \<and> c \<noteq> CHR ''$'') t"
    using Cons.prems by (auto simp: plain_word_def plain_text_def list_all_iff)
  have kind: "arg_kind_of (unquoted t) = ARG_UNQUOTED" by (simp add: unquoted_def)
  show ?case
    using t Cons by (simp add: kind flat_unquoted expand_plain eval_sv_split_semicolon_genex_aware_def split_plain)
qed simp

lemma resolve_plain:
  "list_all plain_word ts \<Longrightarrow> \<not> eval_should_stop ctx \<Longrightarrow> eval_resolve_args (map unquoted ts) ctx = (ts, ctx)"
  by (simp add: eval_resolve_args_def eval_resolve_args_impl_def resolve_loop_plain)

section \<open>Templates\<close>

datatype piece =
    Text string
  | Escaped_Dollar
  | Env string
  | Ref "piece list"

text \<open>A reference; the opening brace of an environment reference closes at the first brace.\<close>

primrec written :: "piece \<Rightarrow> string" where
  "written (Text s) = s"
| "written Escaped_Dollar = [CHR 0x5C, CHR ''$'']"
| "written (Env n) = ''$ENV{'' @ n @ ''}''"
| "written (Ref ps) = ''${'' @ concat (map written ps) @ ''}''"

definition written_all :: "piece list \<Rightarrow> string" where
  "written_all ps = concat (map written ps)"

text \<open>Text holds no character with a meaning of its own, and no brace inside a reference.\<close>

definition ordinary_char :: "char \<Rightarrow> bool" where
  "ordinary_char c \<longleftrightarrow> c \<noteq> CHR ''$'' \<and> c \<noteq> CHR 0x5C \<and> c \<noteq> NUL"

definition braceless :: "string \<Rightarrow> bool" where
  "braceless s \<longleftrightarrow> list_all (\<lambda>c. c \<noteq> CHR ''{'' \<and> c \<noteq> CHR ''}'') s"

primrec inner_piece :: "piece \<Rightarrow> bool" where
  "inner_piece (Text s) \<longleftrightarrow> list_all ordinary_char s \<and> braceless s"
| "inner_piece Escaped_Dollar \<longleftrightarrow> True"
| "inner_piece (Env n) \<longleftrightarrow> list_all ordinary_char n \<and> braceless n"
| "inner_piece (Ref ps) \<longleftrightarrow> list_all id (map inner_piece ps)"

primrec outer_piece :: "piece \<Rightarrow> bool" where
  "outer_piece (Text s) \<longleftrightarrow> list_all ordinary_char s"
| "outer_piece Escaped_Dollar \<longleftrightarrow> True"
| "outer_piece (Env n) \<longleftrightarrow> list_all ordinary_char n \<and> braceless n"
| "outer_piece (Ref ps) \<longleftrightarrow> list_all inner_piece ps"

primrec ref_depth :: "piece \<Rightarrow> nat" where
  "ref_depth (Text s) = 0"
| "ref_depth Escaped_Dollar = 0"
| "ref_depth (Env n) = 0"
| "ref_depth (Ref ps) = Suc (foldr max (map ref_depth ps) 0)"

text \<open>
  What a piece leaves in the buffer, and what a template stands for: the buffer up to a NUL, its
  sentinels turned back into dollar signs. The name of a reference is itself a template.
\<close>

primrec raw_value :: "eval_ctx \<Rightarrow> piece \<Rightarrow> string" where
  "raw_value ctx (Text s) = s"
| "raw_value ctx Escaped_Dollar = [ESCAPED_DOLLAR]"
| "raw_value ctx (Env n) = (case eval_getenv ctx n of Some v \<Rightarrow> v | None \<Rightarrow> [])"
| "raw_value ctx (Ref ps) =
     reference_value ctx (expand_restore_escaped_dollar (c_str (concat (map (raw_value ctx) ps))))"

definition meaning :: "eval_ctx \<Rightarrow> piece list \<Rightarrow> string" where
  "meaning ctx ps = expand_restore_escaped_dollar (c_str (concat (map (raw_value ctx) ps)))"

lemma inner_outer: "inner_piece p \<Longrightarrow> outer_piece p"
  by (cases p) (simp_all add: list_all_iff)

section \<open>Braces\<close>

definition ahead :: "string \<Rightarrow> (string \<times> string) option \<Rightarrow> (string \<times> string) option" where
  "ahead s r = map_option (apfst ((@) s)) r"

lemma ahead_Nil [simp]: "ahead [] r = r"
  by (cases r) (auto simp: ahead_def apfst_def)

lemma ahead_ahead [simp]: "ahead a (ahead b r) = ahead (a @ b) r"
  by (cases r) (auto simp: ahead_def apfst_def)

lemma ahead_None [simp]: "ahead a None = None"
  by (simp add: ahead_def)

lemma ahead_Some [simp]: "ahead a (Some (x, y)) = Some (a @ x, y)"
  by (simp add: ahead_def)

lemma map_option_ahead: "map_option (apfst (Cons c)) r = ahead [c] r"
  by (cases r) (simp_all add: ahead_def)

lemma close_braces_text:
  "braceless s \<Longrightarrow> close_braces (Suc n) (s @ cs) = ahead s (close_braces (Suc n) cs)"
  by (induction s) (simp_all add: braceless_def map_option_ahead)

lemma close_braces_open:
  "close_braces (Suc n) (CHR ''{'' # cs) = ahead ''{'' (close_braces (Suc (Suc n)) cs)"
  by (simp add: map_option_ahead)

lemma close_braces_close:
  "close_braces (Suc (Suc n)) (CHR ''}'' # cs) = ahead ''}'' (close_braces (Suc n) cs)"
  by (simp add: map_option_ahead)

lemma close_braces_char:
  "c \<noteq> CHR ''{'' \<Longrightarrow> c \<noteq> CHR ''}'' \<Longrightarrow>
    close_braces (Suc n) (c # cs) = ahead [c] (close_braces (Suc n) cs)"
  by (simp add: map_option_ahead)

lemma close_braces_piece:
  "inner_piece p \<Longrightarrow> close_braces (Suc n) (written p @ cs) = ahead (written p) (close_braces (Suc n) cs)"
proof (induction p arbitrary: n cs)
  case (Ref ps)
  have all: "list_all inner_piece qs \<Longrightarrow> set qs \<subseteq> set ps \<Longrightarrow>
    close_braces (Suc m) (concat (map written qs) @ ds)
      = ahead (concat (map written qs)) (close_braces (Suc m) ds)" for qs m ds
  proof (induction qs arbitrary: ds)
    case (Cons q qs)
    then show ?case using Ref.IH [of q m "concat (map written qs) @ ds"] by (simp del: close_braces.simps)
  qed simp
  then show ?case using Ref.prems
    by (simp add: close_braces_char close_braces_open close_braces_close list.pred_map list_all_iff del: close_braces.simps)
qed (simp_all add: close_braces_text close_braces_char close_braces_open close_braces_close braceless_def del: close_braces.simps)

lemma until_brace_name: "braceless n \<Longrightarrow> until_brace (n @ CHR ''}'' # cs) = Some (n, cs)"
  by (induction n) (auto simp: braceless_def)

lemma close_braces_all:
  "list_all inner_piece ps \<Longrightarrow> close_braces 1 (written_all ps @ CHR ''}'' # cs) = Some (written_all ps, cs)"
proof -
  assume ps: "list_all inner_piece ps"
  have "close_braces (Suc 0) (written_all ps @ ds) = ahead (written_all ps) (close_braces (Suc 0) ds)" for ds
    using ps unfolding written_all_def
  proof (induction ps arbitrary: ds)
    case (Cons q qs)
    then show ?case by (simp add: close_braces_piece)
  qed simp
  then show ?thesis by simp
qed

section \<open>The scanner\<close>

lemma prepend_prepend [simp]: "prepend a (prepend b r) = prepend (a @ b) r"
  by (cases r; cases "fst r") (auto simp: prepend_def)

lemma prepend_Nil [simp]: "prepend [] r = r"
  by (cases r; cases "fst r") (auto simp: prepend_def)

lemma prepend_Some [simp]: "prepend s (Some t, ctx) = (Some (s @ t), ctx)"
  by (simp add: prepend_def)

lemma scan_text:
  "list_all ordinary_char s \<Longrightarrow> scan d (s @ cs) ctx = prepend s (scan d cs ctx)"
  by (induction s) (simp_all add: scan.simps ordinary_char_def)

lemma scan_escaped: "scan d (written Escaped_Dollar @ cs) ctx = prepend [ESCAPED_DOLLAR] (scan d cs ctx)"
  by (simp add: scan.simps)

lemma scan_env:
  assumes "braceless n" "\<not> eval_should_stop ctx"
  shows "scan d (written (Env n) @ cs) ctx = prepend (raw_value ctx (Env n)) (scan d cs ctx)"
  using assms by (simp add: scan.simps(2) [of d "CHR ''$''"] nob_sv_starts_with_def until_brace_name)

lemma scan_ref:
  assumes "list_all inner_piece ps"
    and "eval_expand_vars_depth (Suc d) (written_all ps) ctx = (inner, ctx)"
  shows "scan d (written (Ref ps) @ cs) ctx = prepend (reference_value ctx inner) (scan d cs ctx)"
proof -
  have w: "written (Ref ps) @ cs = CHR ''$'' # CHR ''{'' # written_all ps @ CHR ''}'' # cs"
    by (simp add: written_all_def)
  show ?thesis unfolding w
    using assms(2) close_braces_all [OF assms(1), of cs]
    by (simp add: scan.simps(2) [of d "CHR ''$''"] nob_sv_starts_with_def del: One_nat_def)
qed

lemma scan_pieces:
  "(\<And>p cs. p \<in> set ps \<Longrightarrow> scan d (written p @ cs) ctx = prepend (raw_value ctx p) (scan d cs ctx)) \<Longrightarrow>
    scan d (written_all ps) ctx = (Some (concat (map (raw_value ctx) ps)), ctx)"
  unfolding written_all_def
proof (induction ps)
  case Nil
  then show ?case by (simp add: scan.simps)
next
  case (Cons p ps)
  then show ?case by simp
qed

lemma written_no_nul: "outer_piece p \<Longrightarrow> NUL \<notin> set (written p)"
proof (induction p)
  case (Ref ps)
  then show ?case using inner_outer by (fastforce simp: list_all_iff)
qed (auto simp: ordinary_char_def list_all_iff)

lemma written_all_copy: "list_all outer_piece ps \<Longrightarrow> c_str (written_all ps) = written_all ps"
  using written_no_nul by (intro c_str_id) (auto simp: written_all_def list_all_iff)

lemma written_plain: "\<not> has_dollar (written p) \<Longrightarrow> raw_value ctx p = written p"
  by (cases p) (simp_all add: has_dollar_def)

lemma written_all_plain: "\<not> has_dollar (written_all ps) \<Longrightarrow> concat (map (raw_value ctx) ps) = written_all ps"
  by (induction ps) (auto simp: written_all_def has_dollar_def written_plain)

lemma expand_from_scan:
  assumes "list_all outer_piece ps" "\<not> eval_should_stop ctx" "d \<le> eval_expand_limit ctx"
    and "scan d (written_all ps) ctx = (Some (concat (map (raw_value ctx) ps)), ctx)"
  shows "eval_expand_vars_depth d (written_all ps) ctx = (meaning ctx ps, ctx)"
proof (cases "has_dollar (written_all ps)")
  case True
  then show ?thesis using assms
    by (simp add: eval_expand_vars_depth.simps sv_copy_to_arena_def written_all_copy meaning_def)
next
  case False
  then show ?thesis using assms
    by (simp add: eval_expand_vars_depth.simps sv_copy_to_arena_def written_all_copy meaning_def written_all_plain)
qed

lemma scan_piece:
  assumes "\<not> eval_should_stop ctx"
  shows "outer_piece p \<Longrightarrow> d + ref_depth p \<le> eval_expand_limit ctx \<Longrightarrow>
    scan d (written p @ cs) ctx = prepend (raw_value ctx p) (scan d cs ctx)"
proof (induction p arbitrary: d cs)
  case (Text s)
  then show ?case by (simp add: scan_text)
next
  case Escaped_Dollar
  show ?case by (simp only: scan_escaped raw_value.simps)
next
  case (Env n)
  then show ?case using scan_env [OF _ assms, of n d cs] by simp
next
  case (Ref ps)
  have inner: "list_all inner_piece ps" using Ref.prems by simp
  then have outer: "list_all outer_piece ps" using inner_outer by (auto simp: list_all_iff)
  have deep: "d + Suc (ref_depth q) \<le> eval_expand_limit ctx" if "q \<in> set ps" for q
    using Ref.prems(2) foldr_max_ge [of "ref_depth q" "map ref_depth ps"] that by simp
  have "scan (Suc d) (written_all ps) ctx = (Some (concat (map (raw_value ctx) ps)), ctx)"
    using Ref.IH outer deep by (intro scan_pieces) (auto simp: list_all_iff)
  then have "eval_expand_vars_depth (Suc d) (written_all ps) ctx = (meaning ctx ps, ctx)"
    using outer assms Ref.prems(2) by (intro expand_from_scan) simp_all
  then show ?case using scan_ref [OF inner, of d ctx _ cs] by (simp add: meaning_def)
qed

definition nesting :: "piece list \<Rightarrow> nat" where
  "nesting ps = foldr max (map ref_depth ps) 0"

section \<open>Properties\<close>

text \<open>
  C15. A template whose references nest no deeper than the recursion limit expands to its
  meaning, and the context is left as it was: references to macro arguments come before
  variables, an unset one stands for nothing, the name of a reference is expanded first, escaped
  dollar signs start no reference, and the text a reference brings in is not expanded again.
\<close>

theorem expansion_meaning:
  assumes "list_all outer_piece ps" and "nesting ps \<le> eval_expand_limit ctx" and "\<not> eval_should_stop ctx"
  shows "eval_expand_vars (written_all ps) ctx = (meaning ctx ps, ctx)"
proof -
  have "ref_depth p \<le> eval_expand_limit ctx" if "p \<in> set ps" for p
    using foldr_max_ge [of "ref_depth p" "map ref_depth ps"] that assms(2) by (simp add: nesting_def)
  then have "scan 0 (written_all ps) ctx = (Some (concat (map (raw_value ctx) ps)), ctx)"
    using assms by (intro scan_pieces scan_piece) (auto simp: list_all_iff)
  then show ?thesis unfolding eval_expand_vars_def using assms by (intro expand_from_scan) simp_all
qed

lemma ESCAPED_DOLLAR_char: "ESCAPED_DOLLAR = CHR 0x1F"
  by code_simp

lemma expansion_meaning_witness:
  "eval_expand_vars ''a${V_${X}}'' (one_scope [''X'' \<mapsto> ''Y'', ''V_Y'' \<mapsto> ''${X};'']) =
    (''a${X};'', one_scope [''X'' \<mapsto> ''Y'', ''V_Y'' \<mapsto> ''${X};''])"
  using expansion_meaning [of "[Text ''a'', Ref [Text ''V_'', Ref [Text ''X'']]]"
      "one_scope [''X'' \<mapsto> ''Y'', ''V_Y'' \<mapsto> ''${X};'']"]
  by (simp add: written_all_def nesting_def meaning_def reference_value_def ordinary_char_def braceless_def
      eval_expand_limit_def EVAL_EXPAND_MAX_RECURSION_def c_str_def restore_map ESCAPED_DOLLAR_char sv_parse_positive_int_def)

end
