(* ===== verification/Eval_Compare.thy ===== *)
theory Eval_Compare
  imports Eval_Expand
begin

text \<open>
  What the conditions of \<open>src_v2/evaluator/eval_expr.c\<close> compare: numbers, strings, version
  numbers, list items, normalised paths, and the truth of a word. Policy identifiers are those
  of \<open>eval_policy_engine.c\<close>.
\<close>

definition eval_sv_eq_ci_lit :: "string_view \<Rightarrow> string \<Rightarrow> bool" where
  "eval_sv_eq_ci_lit a lit = sv_eq_ci_upper a lit"

definition sv_eq :: "string_view \<Rightarrow> string_view \<Rightarrow> bool" where
  "sv_eq a b = nob_sv_eq a b"

definition sv_ends_with_ci_lit :: "string_view \<Rightarrow> string \<Rightarrow> bool" where
  "sv_ends_with_ci_lit sv suf =
     (if length suf > length sv then False
      else list_all2 (\<lambda>x y. c_tolower x = c_tolower y) (drop (length sv - length suf) sv) suf)"

section \<open>Numbers\<close>

definition sv_is_number :: "string_view \<Rightarrow> int option" where
  "sv_is_number sv =
     (if length sv = 0 \<or> length sv \<ge> 128 then None
      else (case c_strtol (c_str sv) of (v, rest) \<Rightarrow> if rest \<noteq> [] then None else Some v))"

definition c_isxdigit :: "char \<Rightarrow> bool" where
  "c_isxdigit c \<longleftrightarrow> c_isdigit c \<or> (let d = code (c_tolower c) in 97 \<le> d \<and> d \<le> 102)"

definition hexdigit_val :: "char \<Rightarrow> nat" where
  "hexdigit_val c = (if c_isdigit c then code c - 48 else code (c_tolower c) - 87)"

text \<open>
  The digits of a number with an optional point: their value without the point, how many stand
  after it, how many there are, and the rest of the text.
\<close>

definition scan_mantissa :: "(char \<Rightarrow> bool) \<Rightarrow> (char \<Rightarrow> nat) \<Rightarrow> nat \<Rightarrow> string \<Rightarrow> nat \<times> nat \<times> nat \<times> string" where
  "scan_mantissa isd val base s =
     (let ip = takeWhile isd s;
          r = dropWhile isd s;
          fp = (if r \<noteq> [] \<and> hd r = CHR ''.'' then takeWhile isd (tl r) else []);
          r2 = (if r \<noteq> [] \<and> hd r = CHR ''.'' \<and> (ip \<noteq> [] \<or> fp \<noteq> []) then dropWhile isd (tl r) else r)
      in (foldl (\<lambda>n c. base * n + val c) 0 (ip @ fp), length fp, length ip + length fp, r2))"

text \<open>An exponent is read only when it has digits.\<close>

definition scan_exponent :: "char \<Rightarrow> string \<Rightarrow> int \<times> string" where
  "scan_exponent e s =
     (if s \<noteq> [] \<and> c_tolower (hd s) = e then
        (let t = tl s;
             neg = (t \<noteq> [] \<and> hd t = CHR ''-'');
             u = (if t \<noteq> [] \<and> (hd t = CHR ''-'' \<or> hd t = CHR ''+'') then tl t else t);
             ds = takeWhile c_isdigit u
         in if ds = [] then (0, s)
            else (if neg then - int (digits_value ds) else int (digits_value ds), dropWhile c_isdigit u))
      else (0, s))"

text \<open>
  Whether \<open>m * b ^ e\<close> is not rounded to zero: it is above half of the smallest subnormal,
  \<open>2 ^ -1075\<close>.
\<close>

definition double_nonzero :: "nat \<Rightarrow> nat \<Rightarrow> int \<Rightarrow> bool" where
  "double_nonzero m b e \<longleftrightarrow> (if m = 0 then False else if e \<ge> 0 then True else m * 2 ^ 1075 > b ^ nat (- e))"

definition starts_ci :: "string \<Rightarrow> string \<Rightarrow> bool" where
  "starts_ci p s \<longleftrightarrow> length p \<le> length s \<and> map c_tolower (take (length p) s) = p"

text \<open>
  \<open>strtod(s, &end)\<close>, of which the callers use whether the value differs from zero and the text
  at \<open>end\<close>; without a number that is all of \<open>s\<close>, with the value zero.
\<close>

definition c_strtod :: "string \<Rightarrow> bool \<times> string" where
  "c_strtod s =
     (let t = dropWhile c_isspace s;
          u = (if t \<noteq> [] \<and> (hd t = CHR ''-'' \<or> hd t = CHR ''+'') then tl t else t)
      in if starts_ci ''infinity'' u then (True, drop 8 u)
         else if starts_ci ''inf'' u then (True, drop 3 u)
         else if starts_ci ''nan'' u then
           (True,
            (let r = drop 3 u;
                 q = dropWhile (\<lambda>c. c_isalnum c \<or> c = CHR ''_'') (tl r)
             in if r \<noteq> [] \<and> hd r = CHR ''('' \<and> q \<noteq> [] \<and> hd q = CHR '')'' then tl q else r))
         else
           (case (if starts_ci ''0x'' u then scan_mantissa c_isxdigit hexdigit_val 16 (drop 2 u) else (0, 0, 0, u)) of
              (m, f, n, r) \<Rightarrow>
                if n > 0 then
                  (case scan_exponent CHR ''p'' r of (e, r2) \<Rightarrow> (double_nonzero m 2 (e - 4 * int f), r2))
                else
                  (case scan_mantissa c_isdigit digit_val 10 u of
                     (m, f, n, r) \<Rightarrow>
                       if n = 0 then (False, s)
                       else (case scan_exponent CHR ''e'' r of (e, r2) \<Rightarrow> (double_nonzero m 10 (e - int f), r2)))))"

text \<open>\<open>None\<close>: not a number; otherwise whether it differs from zero.\<close>

definition sv_is_numeric_nonzero :: "string_view \<Rightarrow> bool option" where
  "sv_is_numeric_nonzero sv =
     (if length sv = 0 \<or> length sv \<ge> 128 then None
      else (case c_strtod (c_str sv) of (nz, rest) \<Rightarrow> if rest \<noteq> [] then None else Some nz))"

section \<open>Order of strings\<close>

fun memcmp :: "string \<Rightarrow> string \<Rightarrow> int" where
  "memcmp (a # as) (b # bs) = (if a = b then memcmp as bs else if code a < code b then - 1 else 1)"
| "memcmp _ _ = 0"

definition sv_lex_cmp :: "string_view \<Rightarrow> string_view \<Rightarrow> int" where
  "sv_lex_cmp a b =
     (let n = min (length a) (length b);
          c = (if n > 0 then memcmp (take n a) (take n b) else 0)
      in if c \<noteq> 0 then c else if length a < length b then - 1 else if length a > length b then 1 else 0)"

section \<open>Versions\<close>

definition sv_is_digits :: "string_view \<Rightarrow> bool" where
  "sv_is_digits sv \<longleftrightarrow> length sv \<noteq> 0 \<and> list_all c_isdigit sv"

definition sv_numeric_cmp_digits :: "string_view \<Rightarrow> string_view \<Rightarrow> int" where
  "sv_numeric_cmp_digits a b =
     (let a1 = dropWhile (\<lambda>c. c = CHR ''0'') a; b1 = dropWhile (\<lambda>c. c = CHR ''0'') b in
      if length a1 < length b1 then - 1
      else if length a1 > length b1 then 1
      else if length a1 = 0 then 0
      else (let c = memcmp a1 b1 in if c < 0 then - 1 else if c > 0 then 1 else 0))"

text \<open>
  The next component and what is left behind its point; \<open>None\<close> at the end of the text. A point
  at the end leaves nothing.
\<close>

definition sv_next_version_part :: "string_view \<Rightarrow> (string_view \<times> string_view) option" where
  "sv_next_version_part sv =
     (if sv = [] then None
      else Some (takeWhile (\<lambda>c. c \<noteq> CHR ''.'') sv, drop 1 (dropWhile (\<lambda>c. c \<noteq> CHR ''.'') sv)))"

definition version_part :: "string_view \<Rightarrow> string_view" where
  "version_part sv = (case sv_next_version_part sv of Some (p, _) \<Rightarrow> p | None \<Rightarrow> [])"

definition version_rest :: "string_view \<Rightarrow> string_view" where
  "version_rest sv = (case sv_next_version_part sv of Some (_, r) \<Rightarrow> r | None \<Rightarrow> [])"

definition version_part_cmp :: "string_view \<Rightarrow> string_view \<Rightarrow> int" where
  "version_part_cmp ca cb =
     (if sv_is_digits ca \<and> sv_is_digits cb then sv_numeric_cmp_digits ca cb else sv_lex_cmp ca cb)"

lemma version_rest_length: "length (version_rest sv) \<le> length sv - 1"
proof (cases "sv = []")
  case False
  then show ?thesis
    using length_dropWhile_le [of "\<lambda>c. c \<noteq> CHR ''.''" sv]
    by (auto simp: version_rest_def sv_next_version_part_def)
qed (simp add: version_rest_def sv_next_version_part_def)

function sv_version_cmp :: "string_view \<Rightarrow> string_view \<Rightarrow> int" where
  "sv_version_cmp a b =
     (if sv_next_version_part a = None \<and> sv_next_version_part b = None then 0
      else if version_part_cmp (version_part a) (version_part b) \<noteq> 0
      then version_part_cmp (version_part a) (version_part b)
      else sv_version_cmp (version_rest a) (version_rest b))"
  by pat_completeness auto

termination
proof (relation "measure (\<lambda>(a, b). length a + length b)", goal_cases)
  case (2 a b)
  then have "a \<noteq> [] \<or> b \<noteq> []" by (auto simp: sv_next_version_part_def)
  then show ?case using version_rest_length [of a] version_rest_length [of b]
    by (cases a; cases b) auto
qed simp

declare sv_version_cmp.simps [simp del]

section \<open>Lists\<close>

fun sv_list_contains_from :: "string \<Rightarrow> string \<Rightarrow> string_view \<Rightarrow> bool" where
  "sv_list_contains_from item [] needle = sv_eq item needle"
| "sv_list_contains_from item (c # cs) needle =
     (if c = CHR '';'' then sv_eq item needle \<or> sv_list_contains_from [] cs needle
      else sv_list_contains_from (item @ [c]) cs needle)"

definition sv_list_contains_item :: "string_view \<Rightarrow> string_view \<Rightarrow> bool" where
  "sv_list_contains_item list_text needle = sv_list_contains_from [] list_text needle"

section \<open>Policies\<close>

definition POLICY_INTRO_RANGES :: "(nat \<times> nat \<times> nat \<times> nat \<times> nat) list" where
  "POLICY_INTRO_RANGES =
     [(0, 11, 2, 6, 0), (12, 23, 2, 8, 0), (24, 50, 3, 0, 0), (51, 54, 3, 1, 0), (55, 56, 3, 2, 0),
      (57, 63, 3, 3, 0), (64, 65, 3, 4, 0), (66, 66, 3, 7, 0), (67, 67, 3, 8, 0), (68, 69, 3, 9, 0),
      (70, 71, 3, 10, 0), (72, 72, 3, 11, 0), (73, 75, 3, 12, 0), (76, 81, 3, 13, 0), (82, 88, 3, 14, 0),
      (89, 94, 3, 15, 0), (95, 97, 3, 16, 0), (98, 102, 3, 17, 0), (103, 108, 3, 18, 0), (109, 114, 3, 19, 0),
      (115, 120, 3, 20, 0), (121, 126, 3, 21, 0), (127, 128, 3, 22, 0), (129, 129, 3, 23, 0),
      (130, 139, 3, 24, 0), (140, 142, 3, 25, 0), (143, 143, 3, 26, 0), (144, 151, 3, 27, 0), (152, 155, 3, 28, 0)]"

definition eval_policy_is_id :: "string_view \<Rightarrow> bool" where
  "eval_policy_is_id p \<longleftrightarrow>
     length p = 7 \<and> (p ! 0 = CHR ''C'' \<or> p ! 0 = CHR ''c'') \<and> (p ! 1 = CHR ''M'' \<or> p ! 1 = CHR ''m'') \<and>
     (p ! 2 = CHR ''P'' \<or> p ! 2 = CHR ''p'') \<and> list_all c_isdigit (drop 3 p)"

definition policy_parse_id_number :: "string_view \<Rightarrow> nat option" where
  "policy_parse_id_number p = (if \<not> eval_policy_is_id p then None else Some (digits_value (drop 3 p)))"

definition policy_get_intro_for_number :: "nat \<Rightarrow> (nat \<times> nat \<times> nat) option" where
  "policy_get_intro_for_number n = map_option (\<lambda>(first, last, v). v)
     (find (\<lambda>(first, last, v). \<not> (n < first \<or> n > last)) POLICY_INTRO_RANGES)"

definition eval_policy_is_known :: "string_view \<Rightarrow> bool" where
  "eval_policy_is_known p \<longleftrightarrow>
     (case policy_parse_id_number p of
        None \<Rightarrow> False
      | Some n \<Rightarrow> if n > 155 then False else policy_get_intro_for_number n \<noteq> None)"

definition eval_policy_get_intro_version :: "string_view \<Rightarrow> (nat \<times> nat \<times> nat) option" where
  "eval_policy_get_intro_version p =
     (case policy_parse_id_number p of None \<Rightarrow> None | Some n \<Rightarrow> policy_get_intro_for_number n)"

section \<open>Words\<close>

definition sv_lookup_if_var :: "eval_ctx \<Rightarrow> string_view \<Rightarrow> string_view" where
  "sv_lookup_if_var ctx tok =
     (if length tok = 0 then tok
      else (case eval_macro_bind_get ctx tok of
              Some v \<Rightarrow> v
            | None \<Rightarrow> if eval_var_defined_visible ctx tok then eval_var_get_visible ctx tok else tok))"

text \<open>The truth of a constant; \<open>None\<close> when it is not one.\<close>

definition eval_truthy_constant_only :: "string_view \<Rightarrow> bool option" where
  "eval_truthy_constant_only v =
     (if length v = 0 then Some False
      else if eval_sv_eq_ci_lit v ''1'' \<or> eval_sv_eq_ci_lit v ''ON'' \<or> eval_sv_eq_ci_lit v ''YES'' \<or>
              eval_sv_eq_ci_lit v ''TRUE'' \<or> eval_sv_eq_ci_lit v ''Y'' then Some True
      else if eval_sv_eq_ci_lit v ''0'' \<or> eval_sv_eq_ci_lit v ''OFF'' \<or> eval_sv_eq_ci_lit v ''NO'' \<or>
              eval_sv_eq_ci_lit v ''FALSE'' \<or> eval_sv_eq_ci_lit v ''N'' \<or> eval_sv_eq_ci_lit v ''IGNORE'' \<or>
              eval_sv_eq_ci_lit v ''NOTFOUND'' then Some False
      else if sv_ends_with_ci_lit v ''-NOTFOUND'' then Some False
      else sv_is_numeric_nonzero v)"

text \<open>The value of a macro argument or a variable counts as false when it is no constant.\<close>

definition eval_truthy :: "eval_ctx \<Rightarrow> string_view \<Rightarrow> bool" where
  "eval_truthy ctx v =
     (case eval_truthy_constant_only v of
        Some b \<Rightarrow> b
      | None \<Rightarrow>
          (case eval_macro_bind_get ctx v of
             Some w \<Rightarrow> eval_truthy_constant_only w = Some True
           | None \<Rightarrow>
               if eval_var_defined_visible ctx v
               then eval_truthy_constant_only (eval_var_get_visible ctx v) = Some True
               else True))"

end
