(* ===== verification/Eval_Compare_Props.thy ===== *)
theory Eval_Compare_Props
  imports Eval_Compare
begin

text \<open>
  Version comparison against numbers. On versions made of decimal components the code compares
  the lists of numbers the components stand for, component by component, and a version that ends
  first is the smaller one.
\<close>

section \<open>Numbers of any length\<close>

abbreviation all_digits :: "string \<Rightarrow> bool" where
  "all_digits s \<equiv> list_all c_isdigit s"

lemma digits_value_snoc: "digits_value (s @ [c]) = 10 * digits_value s + digit_val c"
  by (simp add: digits_value_def)

lemma digits_value_Nil [simp]: "digits_value [] = 0"
  by (simp add: digits_value_def)

lemma digit_val_less: "c_isdigit c \<Longrightarrow> digit_val c < 10"
  unfolding digit_val_def c_isdigit_def by linarith

lemma digits_value_less: "all_digits s \<Longrightarrow> digits_value s < 10 ^ length s"
proof (induction s rule: rev_induct)
  case (snoc c s)
  then have "digits_value s < 10 ^ length s" "digit_val c < 10" by (simp_all add: digit_val_less)
  then show ?case by (simp add: digits_value_snoc)
qed simp

lemma digits_value_Cons: "digits_value (c # s) = digit_val c * 10 ^ length s + digits_value s"
proof (induction s rule: rev_induct)
  case Nil
  show ?case by (simp add: digits_value_def)
next
  case (snoc d s)
  have "digits_value (c # s @ [d]) = 10 * digits_value (c # s) + digit_val d"
    using digits_value_snoc [of "c # s" d] by simp
  then show ?case using snoc by (simp add: digits_value_snoc algebra_simps)
qed

lemma digits_value_zeros: "digits_value (dropWhile (\<lambda>c. c = CHR ''0'') s) = digits_value s"
  by (induction s) (simp_all add: digits_value_Cons digit_val_def)

lemma digit_code: "c_isdigit a \<Longrightarrow> c_isdigit b \<Longrightarrow> (digit_val a < digit_val b) = (code a < code b)"
  by (auto simp: digit_val_def c_isdigit_def)

lemma digits_head_less:
  assumes "all_digits xs" "all_digits ys" "length xs = length ys" "digit_val a < digit_val b"
  shows "digits_value (a # xs) < digits_value (b # ys)"
proof -
  have "digits_value (a # xs) < Suc (digit_val a) * 10 ^ length xs"
    using digits_value_less [OF assms(1)] by (simp add: digits_value_Cons)
  also have "\<dots> \<le> digit_val b * 10 ^ length xs" using assms(4) by (intro mult_right_mono) simp_all
  also have "\<dots> \<le> digits_value (b # ys)" using assms(3) by (simp add: digits_value_Cons)
  finally show ?thesis .
qed

text \<open>Strings of digits of one length compare as their numbers do.\<close>

lemma memcmp_digits:
  "all_digits xs \<Longrightarrow> all_digits ys \<Longrightarrow> length xs = length ys \<Longrightarrow>
    memcmp xs ys = (if digits_value xs < digits_value ys then - 1 else if digits_value xs = digits_value ys then 0 else 1)"
proof (induction xs ys rule: memcmp.induct)
  case (1 a xs b ys)
  show ?case
  proof (cases "a = b")
    case True
    then show ?thesis using 1 by (simp add: digits_value_Cons)
  next
    case False
    then consider "digit_val a < digit_val b" "code a < code b" | "digit_val b < digit_val a" "\<not> code a < code b"
      using 1(2,3) digit_code [of a b] digit_code [of b a] code_inject [of a b] by (fastforce simp: not_less_iff_gr_or_eq)
    then show ?thesis
      using digits_head_less [of xs ys a b] digits_head_less [of ys xs b a] 1(2-4) False by cases auto
  qed
qed auto

lemma no_leading_zero:
  assumes "all_digits s" "s \<noteq> []" "hd s \<noteq> CHR ''0''"
  shows "10 ^ (length s - 1) \<le> digits_value s"
proof -
  obtain c t where s: "s = c # t" using assms(2) by (cases s) auto
  have "code c \<noteq> 48" using assms(3) s code_inject [of c "CHR ''0''"] by simp
  moreover have "48 \<le> code c" using assms(1) s by (simp add: c_isdigit_def)
  ultimately have "1 \<le> digit_val c" unfolding digit_val_def by linarith
  then have "1 * 10 ^ length t \<le> digit_val c * 10 ^ length t" by (rule mult_right_mono) simp
  then have "10 ^ length t \<le> digit_val c * 10 ^ length t + digits_value t"
    unfolding mult_1 by (rule trans_le_add1)
  moreover have "length s - 1 = length t" by (simp add: s)
  ultimately show ?thesis unfolding s digits_value_Cons by simp
qed

lemma longer_is_greater:
  assumes "all_digits s" "all_digits t" "length s < length t" "hd t \<noteq> CHR ''0''"
  shows "digits_value s < digits_value t"
proof -
  have "digits_value s < 10 ^ length s" using assms(1) by (rule digits_value_less)
  also have "(10::nat) ^ length s \<le> 10 ^ (length t - 1)" using assms(3) by (intro power_increasing) simp_all
  also have "\<dots> \<le> digits_value t" using assms by (intro no_leading_zero) auto
  finally show ?thesis .
qed

definition three_way :: "nat \<Rightarrow> nat \<Rightarrow> int" where
  "three_way m n = (if m < n then - 1 else if m = n then 0 else 1)"

lemma stripped_cmp:
  assumes "all_digits a" "all_digits b" "a \<noteq> [] \<longrightarrow> hd a \<noteq> CHR ''0''" "b \<noteq> [] \<longrightarrow> hd b \<noteq> CHR ''0''"
  shows "(if length a < length b then - 1 else if length b < length a then 1 else memcmp a b)
    = three_way (digits_value a) (digits_value b)"
proof -
  consider "length a < length b" | "length b < length a" | "length a = length b" by linarith
  then show ?thesis
  proof cases
    case 1
    then have "b \<noteq> []" by auto
    then have "digits_value a < digits_value b" using longer_is_greater [OF assms(1,2) 1] assms(4) by simp
    then show ?thesis using 1 by (simp add: three_way_def)
  next
    case 2
    then have "a \<noteq> []" by auto
    then have "digits_value b < digits_value a" using longer_is_greater [OF assms(2,1) 2] assms(3) by simp
    then show ?thesis using 2 by (simp add: three_way_def)
  next
    case 3
    then show ?thesis using memcmp_digits [OF assms(1,2) 3] by (simp add: three_way_def)
  qed
qed

lemma memcmp_sign: "memcmp a b \<in> {- 1, 0, 1}"
  by (induction a b rule: memcmp.induct) auto

lemma numeric_cmp_stripped:
  "sv_numeric_cmp_digits a b =
    (let a1 = dropWhile (\<lambda>c. c = CHR ''0'') a; b1 = dropWhile (\<lambda>c. c = CHR ''0'') b in
     if length a1 < length b1 then - 1 else if length b1 < length a1 then 1 else memcmp a1 b1)"
  using memcmp_sign [of "dropWhile (\<lambda>c. c = CHR ''0'') a" "dropWhile (\<lambda>c. c = CHR ''0'') b"]
  unfolding sv_numeric_cmp_digits_def Let_def by (auto simp del: dropWhile_eq_Nil_conv)

lemma numeric_cmp_value:
  assumes "all_digits a" "all_digits b"
  shows "sv_numeric_cmp_digits a b = three_way (digits_value a) (digits_value b)"
proof -
  let ?z = "\<lambda>c. c = CHR ''0''"
  have digits: "all_digits (dropWhile ?z a)" "all_digits (dropWhile ?z b)"
    using assms set_dropWhileD by (fastforce simp: list_all_iff)+
  have heads: "dropWhile ?z a \<noteq> [] \<longrightarrow> hd (dropWhile ?z a) \<noteq> CHR ''0''" "dropWhile ?z b \<noteq> [] \<longrightarrow> hd (dropWhile ?z b) \<noteq> CHR ''0''"
    using hd_dropWhile [of ?z a] hd_dropWhile [of ?z b] by blast+
  show ?thesis
    unfolding numeric_cmp_stripped Let_def
    using stripped_cmp [OF digits heads] by (simp only: digits_value_zeros)
qed

section \<open>Versions\<close>

fun version_text :: "string list \<Rightarrow> string" where
  "version_text [] = []"
| "version_text [c] = c"
| "version_text (c # d # cs) = c @ CHR ''.'' # version_text (d # cs)"

text \<open>The order of the numbers, the shorter list before its extensions.\<close>

fun number_lists_cmp :: "nat list \<Rightarrow> nat list \<Rightarrow> int" where
  "number_lists_cmp [] [] = 0"
| "number_lists_cmp [] (n # ns) = - 1"
| "number_lists_cmp (m # ms) [] = 1"
| "number_lists_cmp (m # ms) (n # ns) = (if m < n then - 1 else if m > n then 1 else number_lists_cmp ms ns)"

definition version_components :: "string list \<Rightarrow> bool" where
  "version_components cs \<longleftrightarrow> list_all (\<lambda>c. c \<noteq> [] \<and> all_digits c) cs"

lemma digits_no_point: "all_digits c \<Longrightarrow> list_all (\<lambda>x. x \<noteq> CHR ''.'') c"
  by (auto simp: list_all_iff c_isdigit_def)

lemma first_part:
  assumes "all_digits c" "c \<noteq> []"
  shows "sv_next_version_part (version_text (c # cs)) = Some (c, version_text cs)"
proof (cases cs)
  case Nil
  have "takeWhile (\<lambda>x. x \<noteq> CHR ''.'') c = c" "dropWhile (\<lambda>x. x \<noteq> CHR ''.'') c = []"
    using digits_no_point [OF assms(1)] by (simp_all add: list_all_iff takeWhile_eq_all_conv dropWhile_eq_Nil_conv)
  then show ?thesis using Nil assms
    by (simp add: sv_next_version_part_def del: dropWhile_eq_Nil_conv takeWhile_eq_all_conv)
next
  case (Cons d ds)
  have "takeWhile (\<lambda>x. x \<noteq> CHR ''.'') (c @ CHR ''.'' # t) = c" "dropWhile (\<lambda>x. x \<noteq> CHR ''.'') (c @ CHR ''.'' # t) = CHR ''.'' # t" for t
    using digits_no_point [OF assms(1)] by (simp_all add: list_all_iff takeWhile_append2 dropWhile_append2)
  then show ?thesis using Cons assms by (simp add: sv_next_version_part_def)
qed

lemma no_part: "sv_next_version_part (version_text []) = None"
  by (simp add: sv_next_version_part_def)

lemma part_digits: "c \<noteq> [] \<Longrightarrow> sv_is_digits c = all_digits c"
  by (simp add: sv_is_digits_def)

lemma missing_part_less: "c \<noteq> [] \<Longrightarrow> version_part_cmp [] c = - 1" "c \<noteq> [] \<Longrightarrow> version_part_cmp c [] = 1"
  by (simp_all add: version_part_cmp_def sv_is_digits_def sv_lex_cmp_def)

text \<open>
  C39. For versions of decimal components, of any number and length and with leading zeros or
  without, \<open>VERSION_LESS\<close> and its relatives compare the sequences of numbers; a version that is a
  proper beginning of another is the smaller one.
\<close>

theorem version_cmp_numbers:
  assumes "version_components as" "version_components bs"
  shows "sv_version_cmp (version_text as) (version_text bs)
    = number_lists_cmp (map digits_value as) (map digits_value bs)"
  using assms
proof (induction as arbitrary: bs)
  case Nil
  then show ?case
    by (cases bs) (simp_all add: sv_version_cmp.simps [of "version_text []"] no_part first_part version_components_def
        version_part_def missing_part_less del: version_text.simps)
next
  case (Cons a as)
  then have a: "a \<noteq> []" "all_digits a" by (simp_all add: version_components_def)
  show ?case
  proof (cases bs)
    case Nil
    then show ?thesis using a
      by (simp add: sv_version_cmp.simps [of "version_text (a # as)"] no_part first_part
          version_part_def missing_part_less del: version_text.simps)
  next
    case (Cons b bs')
    then have b: "b \<noteq> []" "all_digits b" using Cons.prems by (simp_all add: version_components_def)
    have rest: "sv_version_cmp (version_text as) (version_text bs')
      = number_lists_cmp (map digits_value as) (map digits_value bs')"
      using Cons.IH Cons.prems Cons by (simp add: version_components_def)
    have "version_part_cmp a b = three_way (digits_value a) (digits_value b)"
      using a b numeric_cmp_value by (simp add: version_part_cmp_def part_digits)
    then show ?thesis using a b rest Cons
      by (simp add: sv_version_cmp.simps [of "version_text (a # as)"] first_part version_part_def version_rest_def
          three_way_def del: version_text.simps)
  qed
qed

lemma version_cmp_numbers_witness:
  "sv_version_cmp ''3.09.10'' ''3.9.2'' = 1"
  using version_cmp_numbers [of "[''3'', ''09'', ''10'']" "[''3'', ''9'', ''2'']"]
  by (simp add: version_components_def c_isdigit_def digits_value_def digit_val_def)

end
