(* ===== verification/Eval_Path.thy ===== *)
theory Eval_Path
  imports Eval_Compare
begin

text \<open>
  The comparison form of a path, \<open>sv_path_normalize_temp\<close> of \<open>src_v2/evaluator/eval_expr.c\<close>.
  The segments kept so far are a stack; the code keeps them in one buffer with their positions
  and lengths.
\<close>

datatype root_kind = Root_Relative | Root_Slash | Root_Drive char | Root_Drive_Relative char

definition svu_is_path_sep :: "char \<Rightarrow> bool" where
  "svu_is_path_sep c \<longleftrightarrow> c = CHR ''/'' \<or> c = CHR 0x5C"

definition sv_is_drive_root :: "string_view \<Rightarrow> bool" where
  "sv_is_drive_root sv \<longleftrightarrow> length sv = 3 \<and> c_isalpha (sv ! 0) \<and> sv ! 1 = CHR '':'' \<and> sv ! 2 = CHR ''/''"

definition eval_sv_is_abs_path :: "string_view \<Rightarrow> bool" where
  "eval_sv_is_abs_path p =
     (if length p = 0 then False
      else if length p \<ge> 2 \<and> (p ! 0 = CHR ''/'' \<or> p ! 0 = CHR 0x5C) \<and> (p ! 1 = CHR ''/'' \<or> p ! 1 = CHR 0x5C) then True
      else if length p > 1 \<and> p ! 1 = CHR '':'' then True
      else if p ! 0 = CHR ''/'' \<or> p ! 0 = CHR 0x5C then True
      else False)"

definition path_root :: "string_view \<Rightarrow> root_kind \<times> string" where
  "path_root sv =
     (if svu_is_path_sep (hd sv) then (Root_Slash, dropWhile svu_is_path_sep sv)
      else if length sv \<ge> 2 \<and> c_isalpha (sv ! 0) \<and> sv ! 1 = CHR '':'' then
        (if length sv > 2 \<and> svu_is_path_sep (sv ! 2)
         then (Root_Drive (hd sv), dropWhile svu_is_path_sep (drop 2 sv))
         else (Root_Drive_Relative (hd sv), drop 2 sv))
      else (Root_Relative, sv))"

definition root_absolute :: "root_kind \<Rightarrow> bool" where
  "root_absolute r \<longleftrightarrow> (case r of Root_Slash \<Rightarrow> True | Root_Drive _ \<Rightarrow> True | _ \<Rightarrow> False)"

text \<open>One segment, with the kept ones from the last to the first.\<close>

definition push_segment :: "root_kind \<Rightarrow> string \<Rightarrow> string list \<Rightarrow> string list" where
  "push_segment r seg segs =
     (if seg = ''.'' then segs
      else if seg = ''..'' \<and> segs \<noteq> [] \<and> hd segs \<noteq> ''..'' then tl segs
      else if seg = ''..'' \<and> root_absolute r then segs
      else seg # segs)"

lemma path_rest_length:
  "cs \<noteq> [] \<Longrightarrow> length (dropWhile svu_is_path_sep (dropWhile (\<lambda>c. \<not> svu_is_path_sep c) cs)) < length cs"
proof (induction cs)
  case (Cons c cs)
  have "length (dropWhile svu_is_path_sep (dropWhile (\<lambda>c. \<not> svu_is_path_sep c) cs)) \<le> length cs"
    by (meson le_trans length_dropWhile_le)
  then show ?case using length_dropWhile_le [of svu_is_path_sep cs] by simp
qed simp

function path_segments :: "root_kind \<Rightarrow> string \<Rightarrow> string list \<Rightarrow> string list" where
  "path_segments r cs segs =
     (if cs = [] then segs
      else
        (let seg = takeWhile (\<lambda>c. \<not> svu_is_path_sep c) cs;
             rest = dropWhile svu_is_path_sep (dropWhile (\<lambda>c. \<not> svu_is_path_sep c) cs)
         in path_segments r rest (if length seg = 0 then segs else push_segment r seg segs)))"
  by pat_completeness auto

termination
  by (relation "measure (\<lambda>(r, cs, segs). length cs)") (auto intro: path_rest_length)

declare path_segments.simps [simp del]

definition root_text :: "root_kind \<Rightarrow> string" where
  "root_text r =
     (case r of
        Root_Relative \<Rightarrow> []
      | Root_Slash \<Rightarrow> ''/''
      | Root_Drive d \<Rightarrow> [d, CHR '':'', CHR ''/'']
      | Root_Drive_Relative d \<Rightarrow> [d, CHR '':''])"

fun join_segments :: "string list \<Rightarrow> string" where
  "join_segments [] = []"
| "join_segments [s] = s"
| "join_segments (s # t # ts) = s @ CHR ''/'' # join_segments (t # ts)"

definition sv_path_normalize :: "string_view \<Rightarrow> string_view" where
  "sv_path_normalize sv =
     (if length sv = 0 then sv
      else
        (case path_root sv of
           (r, body) \<Rightarrow>
             (let out = root_text r @ join_segments (rev (path_segments r body [])) in
              if out = [] then []
              else if length out > 1 \<and> last out = CHR ''/'' \<and> \<not> sv_is_drive_root out then butlast out else out)))"

end
