(* ===== verification/Eval_Path_Props.thy ===== *)
theory Eval_Path_Props
  imports Eval_Path
begin

text \<open>
  The comparison form of a path is a normal form of it: it comes from the segments of the path by
  leaving out \<open>.\<close>, a name followed by \<open>..\<close>, and \<open>..\<close> at an absolute root, until none of these is
  left. Normalising it again changes nothing, as long as it still reads as a path of the same kind.
\<close>

section \<open>Normal forms\<close>

definition plain_segment :: "string \<Rightarrow> bool" where
  "plain_segment s \<longleftrightarrow> s \<noteq> [] \<and> list_all (\<lambda>c. \<not> svu_is_path_sep c) s"

text \<open>Segments kept so far, the last one first.\<close>

fun normal_stack :: "root_kind \<Rightarrow> string list \<Rightarrow> bool" where
  "normal_stack r [] \<longleftrightarrow> True"
| "normal_stack r (s # ss) \<longleftrightarrow>
     plain_segment s \<and> s \<noteq> ''.'' \<and> normal_stack r ss \<and>
     (if s = ''..'' then \<not> root_absolute r \<and> (ss = [] \<or> hd ss = ''..'') else True)"

definition normal_segments :: "root_kind \<Rightarrow> string list \<Rightarrow> bool" where
  "normal_segments r segs \<longleftrightarrow> normal_stack r (rev segs)"

lemma push_segment_normal:
  "plain_segment s \<Longrightarrow> normal_stack r ss \<Longrightarrow> normal_stack r (push_segment r s ss)"
  by (cases ss) (auto simp: push_segment_def)

lemma taken_segment: "takeWhile (\<lambda>c. \<not> svu_is_path_sep c) cs \<noteq> [] \<Longrightarrow> plain_segment (takeWhile (\<lambda>c. \<not> svu_is_path_sep c) cs)"
  by (auto simp: plain_segment_def list_all_iff dest: set_takeWhileD)

lemma path_segments_normal: "normal_stack r segs \<Longrightarrow> normal_stack r (path_segments r cs segs)"
proof (induction r cs segs rule: path_segments.induct)
  case (1 r cs segs)
  show ?case
  proof (cases "cs = []")
    case True
    then show ?thesis using 1 by (simp add: path_segments.simps)
  next
    case False
    let ?seg = "takeWhile (\<lambda>c. \<not> svu_is_path_sep c) cs"
    have "normal_stack r (if length ?seg = 0 then segs else push_segment r ?seg segs)"
      using 1(2) taken_segment [of cs] by (auto intro: push_segment_normal)
    then show ?thesis
      using 1(1) [OF False refl refl] False by (subst path_segments.simps) (simp only: Let_def if_False)
  qed
qed

section \<open>Reading a normal form again\<close>

lemma segment_then_end: "plain_segment s \<Longrightarrow> path_segments r s segs = push_segment r s segs"
  by (subst path_segments.simps)
    (auto simp: plain_segment_def list_all_iff path_segments.simps [of r "[]"] takeWhile_eq_all_conv [THEN iffD2]
      dropWhile_eq_Nil_conv [THEN iffD2] Let_def)

lemma take_segment:
  assumes "plain_segment s"
  shows "takeWhile (\<lambda>c. \<not> svu_is_path_sep c) (s @ CHR ''/'' # t) = s"
    and "dropWhile (\<lambda>c. \<not> svu_is_path_sep c) (s @ CHR ''/'' # t) = CHR ''/'' # t"
  using assms by (simp_all add: plain_segment_def list_all_iff takeWhile_append2 dropWhile_append2 svu_is_path_sep_def)

lemma join_starts_plain:
  assumes "list_all plain_segment (s # ss)"
  shows "join_segments (s # ss) \<noteq> []" and "\<not> svu_is_path_sep (hd (join_segments (s # ss)))"
proof -
  obtain c t where "s = c # t" using assms by (cases s) (auto simp: plain_segment_def)
  then show "join_segments (s # ss) \<noteq> []" "\<not> svu_is_path_sep (hd (join_segments (s # ss)))"
    using assms by (cases ss; simp add: plain_segment_def)+
qed

lemma join_ends_plain:
  "list_all plain_segment (s # ss) \<Longrightarrow> \<not> svu_is_path_sep (last (join_segments (s # ss)))"
proof (induction ss arbitrary: s)
  case Nil
  then show ?case by (auto simp: plain_segment_def list_all_iff)
next
  case (Cons t ss)
  then show ?case using join_starts_plain(1) [of t ss] by simp
qed

lemma path_segments_join:
  "list_all plain_segment segs \<Longrightarrow> path_segments r (join_segments segs) acc = fold (push_segment r) segs acc"
proof (induction segs arbitrary: acc rule: join_segments.induct)
  case 1
  show ?case by (simp add: path_segments.simps)
next
  case (2 s)
  then show ?case by (simp add: segment_then_end)
next
  case (3 s t ts)
  let ?j = "join_segments (t # ts)"
  have s: "plain_segment s" and rest: "list_all plain_segment (t # ts)" using 3(2) by simp_all
  have j: "svu_is_path_sep (CHR ''/'')" "dropWhile svu_is_path_sep ?j = ?j"
    using join_starts_plain [OF rest] by (simp add: svu_is_path_sep_def, cases ?j) simp_all
  have "path_segments r (s @ CHR ''/'' # ?j) acc = path_segments r ?j (push_segment r s acc)"
    using s by (subst path_segments.simps) (simp add: Let_def take_segment [OF s] j plain_segment_def)
  then show ?case using 3(1) [OF rest] by simp
qed

lemma normal_stack_plain: "normal_stack r ss \<Longrightarrow> list_all plain_segment ss"
  by (induction ss) auto

lemma fold_push_normal: "normal_stack r (rev segs) \<Longrightarrow> fold (push_segment r) segs [] = rev segs"
proof (induction segs rule: rev_induct)
  case (snoc s segs)
  then have "fold (push_segment r) segs [] = rev segs" by simp
  moreover have "push_segment r s (rev segs) = s # rev segs"
    using snoc.prems by (auto simp: push_segment_def split: if_splits)
  ultimately show ?case by simp
qed simp

lemma segments_again:
  "normal_segments r segs \<Longrightarrow> path_segments r (join_segments segs) [] = rev segs"
  unfolding normal_segments_def
  using path_segments_join [of segs r "[]"] normal_stack_plain [of r "rev segs"] fold_push_normal [of r segs]
  by (simp add: list_all_iff)

section \<open>Where the segments come from\<close>

text \<open>The segments of a text, read character by character: the runs between separators.\<close>

fun parts :: "string \<Rightarrow> string \<Rightarrow> string list" where
  "parts run [] = (if run = [] then [] else [rev run])"
| "parts run (c # cs) =
     (if svu_is_path_sep c then (if run = [] then [] else [rev run]) @ parts [] cs else parts (c # run) cs)"

text \<open>What may be left out of a path without changing where it leads.\<close>

inductive path_step :: "root_kind \<Rightarrow> string list \<Rightarrow> string list \<Rightarrow> bool" for r where
  dot: "path_step r (xs @ ''.'' # ys) (xs @ ys)"
| up: "s \<noteq> ''.'' \<Longrightarrow> s \<noteq> ''..'' \<Longrightarrow> path_step r (xs @ s # ''..'' # ys) (xs @ ys)"
| above: "root_absolute r \<Longrightarrow> path_step r (''..'' # ys) ys"

lemma parts_run:
  "parts run cs = (let seg = rev run @ takeWhile (\<lambda>c. \<not> svu_is_path_sep c) cs in
     (if seg = [] then [] else [seg]) @
     parts [] (dropWhile svu_is_path_sep (dropWhile (\<lambda>c. \<not> svu_is_path_sep c) cs)))"
proof (induction cs arbitrary: run)
  case (Cons c cs)
  have skip: "parts [] cs = parts [] (dropWhile svu_is_path_sep cs)" for cs by (induction cs) auto
  show ?case using Cons [of "c # run"] skip [of cs] by (simp add: Let_def)
qed (simp add: Let_def)

lemma path_segments_parts: "path_segments r cs segs = fold (push_segment r) (parts [] cs) segs"
proof (induction r cs segs rule: path_segments.induct)
  case (1 r cs segs)
  show ?case
  proof (cases "cs = []")
    case False
    then show ?thesis using 1 [OF False refl refl]
      by (subst path_segments.simps, subst parts_run) (simp add: Let_def)
  qed (simp add: path_segments.simps)
qed

lemma absolute_no_up: "normal_stack r ss \<Longrightarrow> root_absolute r \<Longrightarrow> ''..'' \<notin> set ss"
  by (induction ss) auto

lemma push_segment_steps:
  assumes "normal_stack r segs"
  shows "(path_step r)\<^sup>*\<^sup>* (rev segs @ s # ys) (rev (push_segment r s segs) @ ys)"
proof -
  consider "s = ''.''" | t ts where "s = ''..''" "segs = t # ts" "t \<noteq> ''..''"
    | "s = ''..''" "root_absolute r" "segs = [] \<or> hd segs = ''..''" | "push_segment r s segs = s # segs"
    unfolding push_segment_def by (cases segs) (fastforce split: if_splits)+
  then show ?thesis
  proof cases
    case 1
    then show ?thesis using path_step.dot [of r "rev segs" ys] by (auto simp: push_segment_def)
  next
    case (2 t ts)
    then have "t \<noteq> ''.''" using assms by auto
    then show ?thesis using 2 path_step.up [of t r "rev ts" ys] by (auto simp: push_segment_def)
  next
    case 3
    then have "segs = []" using absolute_no_up [OF assms] by (cases segs) auto
    then show ?thesis using 3 path_step.above [of r ys] by (auto simp: push_segment_def)
  qed simp
qed

lemma parts_plain: "list_all (\<lambda>c. \<not> svu_is_path_sep c) run \<Longrightarrow> s \<in> set (parts run cs) \<Longrightarrow> plain_segment s"
proof (induction run cs rule: parts.induct)
  case (1 run)
  then show ?case by (cases "run = []") (simp_all add: plain_segment_def)
next
  case (2 run c cs)
  then show ?case
    by (cases "svu_is_path_sep c"; cases "run = []") (auto simp: plain_segment_def)
qed

lemma fold_push_steps:
  "normal_stack r segs \<Longrightarrow> list_all plain_segment ys \<Longrightarrow>
    (path_step r)\<^sup>*\<^sup>* (rev segs @ ys) (rev (fold (push_segment r) ys segs))"
proof (induction ys arbitrary: segs)
  case (Cons y ys)
  have "(path_step r)\<^sup>*\<^sup>* (rev segs @ y # ys) (rev (push_segment r y segs) @ ys)"
    by (rule push_segment_steps [OF Cons.prems(1)])
  also have "(path_step r)\<^sup>*\<^sup>* (rev (push_segment r y segs) @ ys) (rev (fold (push_segment r) ys (push_segment r y segs)))"
    using Cons.prems push_segment_normal by (intro Cons.IH) simp_all
  finally show ?case by simp
qed simp

lemma path_segments_steps: "(path_step r)\<^sup>*\<^sup>* (parts [] cs) (rev (path_segments r cs []))"
  using fold_push_steps [of r "[]" "parts [] cs"] parts_plain [of "[]" _ cs]
  by (simp add: path_segments_parts list_all_iff)

section \<open>The whole path\<close>

definition root_ok :: "root_kind \<Rightarrow> bool" where
  "root_ok r \<longleftrightarrow> (case r of Root_Drive d \<Rightarrow> c_isalpha d | Root_Drive_Relative d \<Rightarrow> c_isalpha d | _ \<Rightarrow> True)"

lemma path_root_ok: "p \<noteq> [] \<Longrightarrow> root_ok (fst (path_root p))"
  by (cases p) (auto simp: path_root_def root_ok_def)

lemma normalize_form:
  assumes "p \<noteq> []" "path_root p = (r, body)"
  shows "sv_path_normalize p = root_text r @ join_segments (rev (path_segments r body []))"
proof -
  let ?segs = "rev (path_segments r body [])"
  let ?out = "root_text r @ join_segments ?segs"
  have plain: "list_all plain_segment ?segs"
    using normal_stack_plain [OF path_segments_normal [of r "[]" body]] by (simp add: list_all_iff)
  have ok: "root_ok r" using path_root_ok [OF assms(1)] assms(2) by simp
  have "length ?out > 1 \<and> last ?out = CHR ''/'' \<Longrightarrow> sv_is_drive_root ?out"
  proof (cases ?segs)
    case Nil
    assume "length ?out > 1 \<and> last ?out = CHR ''/''"
    then show ?thesis using Nil ok by (cases r) (simp_all add: root_text_def sv_is_drive_root_def root_ok_def)
  next
    case (Cons s ss)
    have "\<not> svu_is_path_sep (last ?out)"
      using join_ends_plain [of s ss] join_starts_plain(1) [of s ss] plain unfolding Cons by simp
    moreover assume "length ?out > 1 \<and> last ?out = CHR ''/''"
    ultimately show ?thesis by (simp add: svu_is_path_sep_def)
  qed
  then show ?thesis using assms unfolding sv_path_normalize_def by (simp add: Let_def) blast
qed


text \<open>A normal form is read with the root it was written with, unless a relative one looks like a drive.\<close>

lemma join_skips_separators:
  "list_all plain_segment segs \<Longrightarrow> dropWhile svu_is_path_sep (join_segments segs) = join_segments segs"
proof (cases segs)
  case (Cons s ss)
  assume "list_all plain_segment segs"
  then show ?thesis using join_starts_plain [of s ss] Cons by (cases "join_segments (s # ss)") simp_all
qed simp

lemma root_again:
  assumes plain: "list_all plain_segment segs" and ok: "root_ok r"
    and kind: "r = Root_Relative \<Longrightarrow> fst (path_root (join_segments segs)) = Root_Relative"
  shows "path_root (root_text r @ join_segments segs) = (r, join_segments segs)"
proof (cases r)
  case Root_Relative
  then show ?thesis using kind by (auto simp: root_text_def path_root_def split: if_splits)
next
  case Root_Slash
  then show ?thesis using join_skips_separators [OF plain]
    by (simp add: root_text_def path_root_def svu_is_path_sep_def [of "CHR ''/''"])
next
  case (Root_Drive d)
  then have "\<not> svu_is_path_sep d" using ok by (auto simp: root_ok_def svu_is_path_sep_def c_isalpha_def c_isupper_def c_islower_def)
  then show ?thesis using Root_Drive ok join_skips_separators [OF plain]
    by (simp add: root_text_def path_root_def svu_is_path_sep_def [of "CHR ''/''"] root_ok_def)
next
  case (Root_Drive_Relative d)
  then have d: "\<not> svu_is_path_sep d" "c_isalpha d"
    using ok by (auto simp: root_ok_def svu_is_path_sep_def c_isalpha_def c_isupper_def c_islower_def)
  show ?thesis
  proof (cases segs)
    case Nil
    then show ?thesis using d Root_Drive_Relative by (simp add: root_text_def path_root_def)
  next
    case (Cons s ss)
    then obtain c t where "join_segments segs = c # t" "\<not> svu_is_path_sep c"
      using join_starts_plain [of s ss] plain by (cases "join_segments segs") auto
    then show ?thesis using d Root_Drive_Relative by (simp add: root_text_def path_root_def)
  qed
qed

text \<open>
  C40. The path a comparison uses is the root of the path followed by a normal form of its segments:
  it is reached from them by leaving out dots, names followed by two dots, and two dots at an
  absolute root, and nothing can be left out any more (two dots stand only at the beginning and only
  when the path is not absolute; no segment is empty). If the result reads as a path with the same
  root, normalising it again gives it back; it need not otherwise (\<open>./c:./a\<close> turns into \<open>c:./a\<close>).
\<close>

theorem path_normal_form:
  assumes "p \<noteq> []" and "path_root p = (r, body)"
  shows "(\<exists>segs. sv_path_normalize p = root_text r @ join_segments segs
      \<and> (path_step r)\<^sup>*\<^sup>* (parts [] body) segs \<and> normal_segments r segs)
    \<and> (sv_path_normalize p \<noteq> [] \<and> fst (path_root (sv_path_normalize p)) = r \<longrightarrow>
         sv_path_normalize (sv_path_normalize p) = sv_path_normalize p)"
proof -
  let ?segs = "rev (path_segments r body [])"
  have form: "sv_path_normalize p = root_text r @ join_segments ?segs"
    by (rule normalize_form [OF assms])
  have normal: "normal_segments r ?segs"
    using path_segments_normal [of r "[]" body] by (simp add: normal_segments_def)
  have plain: "list_all plain_segment ?segs"
    using normal_stack_plain [OF path_segments_normal [of r "[]" body]] by (simp add: list_all_iff)
  have "sv_path_normalize (sv_path_normalize p) = sv_path_normalize p"
    if ne: "sv_path_normalize p \<noteq> []" and kind: "fst (path_root (sv_path_normalize p)) = r"
  proof -
    have "path_root (sv_path_normalize p) = (r, join_segments ?segs)"
      unfolding form
    proof (rule root_again [OF plain])
      show "root_ok r" using path_root_ok [OF assms(1)] assms(2) by simp
      show "fst (path_root (join_segments ?segs)) = Root_Relative" if "r = Root_Relative"
        using kind that unfolding form by (simp add: root_text_def)
    qed
    from normalize_form [OF ne this] show ?thesis unfolding form segments_again [OF normal] by simp
  qed
  then show ?thesis using form normal path_segments_steps [of r body] by blast
qed

lemma path_normal_form_witness:
  "sv_path_normalize ''c:/a//../b/.'' = ''c:/b'' \<and> sv_path_normalize ''c:/b'' = ''c:/b'' \<and>
   (\<exists>segs. join_segments segs = ''b'' \<and> (path_step (Root_Drive CHR ''c''))\<^sup>*\<^sup>* [''a'', ''..'', ''b'', ''.''] segs)"
proof -
  have n: "sv_path_normalize ''c:/a//../b/.'' = ''c:/b''" by code_simp
  have root: "path_root ''c:/a//../b/.'' = (Root_Drive CHR ''c'', ''a//../b/.'')" by code_simp
  have again: "fst (path_root ''c:/b'') = Root_Drive CHR ''c''" by code_simp
  have p: "parts [] ''a//../b/.'' = [''a'', ''..'', ''b'', ''.'']" by code_simp
  show ?thesis using path_normal_form [OF _ root] again unfolding n p by (auto simp: root_text_def)
qed

end
