(* ===== verification/Eval_Cond.thy ===== *)
theory Eval_Cond
  imports Eval_Path
begin

text \<open>
  Conditions: the recursive descent of \<open>src_v2/evaluator/eval_expr.c\<close> over the resolved tokens of
  an \<open>if\<close> or a \<open>while\<close>. A parsing function takes the tokens from the current position on and
  gives the truth value, the tokens it has left and the context, which a \<open>MATCHES\<close> changes; nothing
  is short-circuited. The file system and the regular expressions are a record of functions, and
  so are the tables of targets, commands and tests that the conditions only read.
\<close>

section \<open>What conditions consult\<close>

datatype access_mode = R_OK | W_OK | X_OK

record target_record =
  tr_name :: string_view
  tr_imported :: bool
  tr_imported_global :: bool
  tr_alias :: bool
  tr_alias_global :: bool
  tr_declared_dir :: string_view

text \<open>
  \<open>stat_path\<close> is \<open>stat\<close>: whether the file is a directory, and its time of change. \<open>is_link\<close> is
  \<open>lstat\<close> with \<open>S_ISLNK\<close>. \<open>regex\<close> is \<open>regcomp\<close> with \<open>regexec\<close>: \<open>None\<close> when the pattern does not compile,
  \<open>Some None\<close> when it does not match, and the offsets of the groups when it does.
  \<open>current_dir_below\<close> decides whether the current directory lies in or below a given one.
  Names in \<open>native_commands\<close> are the keys of the registry, in upper case.
\<close>

record cond_world =
  stat_path :: "string \<Rightarrow> (bool \<times> int) option"
  is_link :: "string \<Rightarrow> bool"
  access_ok :: "access_mode \<Rightarrow> string \<Rightarrow> bool"
  regex :: "string \<Rightarrow> string \<Rightarrow> (int \<times> int) list option option"
  current_dir_below :: "string_view \<Rightarrow> bool"
  target_records :: "target_record list"
  native_commands :: "string list"
  user_commands :: "string_view list"
  test_names :: "string_view list"

definition path_exists_cstr :: "cond_world \<Rightarrow> string \<Rightarrow> bool" where
  "path_exists_cstr w path = (if path = [] then False else stat_path w path \<noteq> None)"

definition path_is_dir_cstr :: "cond_world \<Rightarrow> string \<Rightarrow> bool" where
  "path_is_dir_cstr w path =
     (if path = [] then False else (case stat_path w path of None \<Rightarrow> False | Some (dir, _) \<Rightarrow> dir))"

definition path_is_symlink_cstr :: "cond_world \<Rightarrow> string \<Rightarrow> bool" where
  "path_is_symlink_cstr w path = (if path = [] then False else is_link w path)"

definition path_is_accessible :: "access_mode \<Rightarrow> cond_world \<Rightarrow> string \<Rightarrow> bool" where
  "path_is_accessible mode w path \<longleftrightarrow> path \<noteq> [] \<and> access_ok w mode path"

definition path_is_newer_than_cstr :: "cond_world \<Rightarrow> string \<Rightarrow> string \<Rightarrow> bool" where
  "path_is_newer_than_cstr w lhs rhs =
     (if lhs = [] \<or> rhs = [] then False
      else (case (stat_path w lhs, stat_path w rhs) of
              (Some (_, lt), Some (_, rt)) \<Rightarrow> lt > rt
            | _ \<Rightarrow> False))"

definition eval_target_find_record :: "cond_world \<Rightarrow> string_view \<Rightarrow> target_record option" where
  "eval_target_find_record w name = find (\<lambda>r. eval_sv_key_eq (tr_name r) name) (target_records w)"

definition eval_target_visible :: "cond_world \<Rightarrow> string_view \<Rightarrow> bool" where
  "eval_target_visible w name =
     (case eval_target_find_record w name of
        None \<Rightarrow> False
      | Some r \<Rightarrow>
          if \<not> tr_imported r \<and> \<not> (tr_alias r \<and> \<not> tr_alias_global r) then True
          else if tr_imported r \<and> tr_imported_global r then True
          else if tr_alias r \<and> tr_alias_global r then True
          else current_dir_below w (tr_declared_dir r))"

definition eval_dispatcher_is_known_command :: "cond_world \<Rightarrow> string_view \<Rightarrow> bool" where
  "eval_dispatcher_is_known_command w name \<longleftrightarrow>
     name \<noteq> [] \<and> list_ex (\<lambda>k. k = c_str (map c_toupper name)) (native_commands w)"

definition eval_user_cmd_known :: "cond_world \<Rightarrow> string_view \<Rightarrow> bool" where
  "eval_user_cmd_known w name = list_ex (\<lambda>n. sv_eq_ci_upper n name) (user_commands w)"

definition eval_test_known :: "cond_world \<Rightarrow> string_view \<Rightarrow> bool" where
  "eval_test_known w name = list_ex (\<lambda>n. eval_sv_key_eq n name) (test_names w)"

section \<open>The variables of a match\<close>

fun set_in_order :: "(string \<times> string_view) list \<Rightarrow> eval_ctx \<Rightarrow> bool \<times> eval_ctx" where
  "set_in_order [] ctx = (True, ctx)"
| "set_in_order ((k, v) # kvs) ctx =
     (case eval_var_set_current k v ctx of (ok, ctx1) \<Rightarrow> if ok then set_in_order kvs ctx1 else (False, ctx1))"

definition digit_text :: "nat \<Rightarrow> string" where
  "digit_text n = [char_of (48 + n)]"

definition MAX_REGEX_MATCHES :: nat where "MAX_REGEX_MATCHES = 10"

text \<open>A group that took part; the array starts out with \<open>-1\<close> everywhere.\<close>

definition group_span :: "(int \<times> int) list option \<Rightarrow> nat \<Rightarrow> (nat \<times> nat) option" where
  "group_span m i =
     (case m of
        None \<Rightarrow> None
      | Some spans \<Rightarrow>
          (case (if i < length spans then spans ! i else (- 1, - 1)) of
             (so, eo) \<Rightarrow> if so \<ge> 0 \<and> eo \<ge> so then Some (nat so, nat eo) else None))"

definition group_text :: "string \<Rightarrow> (int \<times> int) list option \<Rightarrow> nat \<Rightarrow> string" where
  "group_text subject m i =
     (case group_span m i of None \<Rightarrow> [] | Some (so, eo) \<Rightarrow> take (eo - so) (drop so subject))"

definition highest_group :: "(int \<times> int) list option \<Rightarrow> nat" where
  "highest_group m =
     fold (\<lambda>i best. if group_span m i \<noteq> None then i else best) [1..<MAX_REGEX_MATCHES] 0"

definition eval_set_regex_match_vars ::
  "string \<Rightarrow> (int \<times> int) list option \<Rightarrow> eval_ctx \<Rightarrow> bool \<times> eval_ctx" where
  "eval_set_regex_match_vars subject m ctx =
     set_in_order
       (map (\<lambda>i. (''CMAKE_MATCH_'' @ digit_text i, group_text subject m i)) [0..<MAX_REGEX_MATCHES]
        @ [(''CMAKE_MATCH_COUNT'', digit_text (highest_group m))]) ctx"

section \<open>Tests on one operand\<close>

definition eval_defined :: "eval_ctx \<Rightarrow> string_view \<Rightarrow> bool" where
  "eval_defined ctx var_name =
     (if length var_name > 4 \<and> take 4 var_name = ''ENV{'' \<and> last var_name = CHR ''}''
      then eval_has_env ctx (take (length var_name - 5) (drop 4 var_name))
      else eval_var_defined_visible ctx var_name)"

definition unary_test :: "cond_world \<Rightarrow> eval_ctx \<Rightarrow> string_view \<Rightarrow> (string_view \<Rightarrow> bool) option" where
  "unary_test w ctx tok =
     (if eval_sv_eq_ci_lit tok ''DEFINED'' then Some (eval_defined ctx)
      else if eval_sv_eq_ci_lit tok ''TARGET'' then Some (eval_target_visible w)
      else if eval_sv_eq_ci_lit tok ''COMMAND'' then
        Some (\<lambda>name. eval_dispatcher_is_known_command w name \<or> eval_user_cmd_known w name)
      else if eval_sv_eq_ci_lit tok ''POLICY'' then Some eval_policy_is_known
      else if eval_sv_eq_ci_lit tok ''EXISTS'' then Some (\<lambda>p. path_exists_cstr w (c_str p))
      else if eval_sv_eq_ci_lit tok ''IS_DIRECTORY'' then Some (\<lambda>p. path_is_dir_cstr w (c_str p))
      else if eval_sv_eq_ci_lit tok ''IS_SYMLINK'' then Some (\<lambda>p. path_is_symlink_cstr w (c_str p))
      else if eval_sv_eq_ci_lit tok ''IS_ABSOLUTE'' then Some eval_sv_is_abs_path
      else if eval_sv_eq_ci_lit tok ''IS_READABLE'' then Some (\<lambda>p. path_is_accessible R_OK w (c_str p))
      else if eval_sv_eq_ci_lit tok ''IS_WRITABLE'' then Some (\<lambda>p. path_is_accessible W_OK w (c_str p))
      else if eval_sv_eq_ci_lit tok ''IS_EXECUTABLE'' then Some (\<lambda>p. path_is_accessible X_OK w (c_str p))
      else if eval_sv_eq_ci_lit tok ''TEST'' then Some (eval_test_known w)
      else None)"

section \<open>Comparisons\<close>

definition number_cmp :: "(int \<Rightarrow> int \<Rightarrow> bool) \<Rightarrow> string_view \<Rightarrow> string_view \<Rightarrow> bool" where
  "number_cmp cmp lhs rhs =
     (case (sv_is_number lhs, sv_is_number rhs) of (Some a, Some b) \<Rightarrow> cmp a b | _ \<Rightarrow> False)"

definition eval_matches ::
  "cond_world \<Rightarrow> string_view \<Rightarrow> string_view \<Rightarrow> eval_ctx \<Rightarrow> bool \<times> eval_ctx" where
  "eval_matches w lhs rhs ctx =
     (let subj = c_str lhs in
      case regex w (c_str rhs) subj of
        None \<Rightarrow> (False, ctx)
      | Some m \<Rightarrow>
          (case eval_set_regex_match_vars subj m ctx of
             (ok, ctx1) \<Rightarrow> if \<not> ok then (False, ctx1) else (m \<noteq> None, ctx1)))"

text \<open>
  The comparison an operator makes of the two operands, each already replaced by the value of
  the variable it names, if it names one.
\<close>

definition compare_op ::
  "cond_world \<Rightarrow> string_view \<Rightarrow> (string_view \<Rightarrow> string_view \<Rightarrow> eval_ctx \<Rightarrow> bool \<times> eval_ctx) option" where
  "compare_op w op =
     (if eval_sv_eq_ci_lit op ''STREQUAL'' then Some (\<lambda>l r ctx. (sv_eq l r, ctx))
      else if eval_sv_eq_ci_lit op ''EQUAL'' then Some (\<lambda>l r ctx. (number_cmp (=) l r, ctx))
      else if eval_sv_eq_ci_lit op ''LESS'' then Some (\<lambda>l r ctx. (number_cmp (<) l r, ctx))
      else if eval_sv_eq_ci_lit op ''GREATER'' then Some (\<lambda>l r ctx. (number_cmp (>) l r, ctx))
      else if eval_sv_eq_ci_lit op ''LESS_EQUAL'' then Some (\<lambda>l r ctx. (number_cmp (\<le>) l r, ctx))
      else if eval_sv_eq_ci_lit op ''GREATER_EQUAL'' then Some (\<lambda>l r ctx. (number_cmp (\<ge>) l r, ctx))
      else if eval_sv_eq_ci_lit op ''STRLESS'' then Some (\<lambda>l r ctx. (sv_lex_cmp l r < 0, ctx))
      else if eval_sv_eq_ci_lit op ''STRGREATER'' then Some (\<lambda>l r ctx. (sv_lex_cmp l r > 0, ctx))
      else if eval_sv_eq_ci_lit op ''STRLESS_EQUAL'' then Some (\<lambda>l r ctx. (sv_lex_cmp l r \<le> 0, ctx))
      else if eval_sv_eq_ci_lit op ''STRGREATER_EQUAL'' then Some (\<lambda>l r ctx. (sv_lex_cmp l r \<ge> 0, ctx))
      else if eval_sv_eq_ci_lit op ''VERSION_LESS'' then Some (\<lambda>l r ctx. (sv_version_cmp l r < 0, ctx))
      else if eval_sv_eq_ci_lit op ''VERSION_GREATER'' then Some (\<lambda>l r ctx. (sv_version_cmp l r > 0, ctx))
      else if eval_sv_eq_ci_lit op ''VERSION_EQUAL'' then Some (\<lambda>l r ctx. (sv_version_cmp l r = 0, ctx))
      else if eval_sv_eq_ci_lit op ''VERSION_LESS_EQUAL'' then Some (\<lambda>l r ctx. (sv_version_cmp l r \<le> 0, ctx))
      else if eval_sv_eq_ci_lit op ''VERSION_GREATER_EQUAL'' then Some (\<lambda>l r ctx. (sv_version_cmp l r \<ge> 0, ctx))
      else if eval_sv_eq_ci_lit op ''MATCHES'' then Some (eval_matches w)
      else if eval_sv_eq_ci_lit op ''IN_LIST'' then Some (\<lambda>l r ctx. (sv_list_contains_item r l, ctx))
      else if eval_sv_eq_ci_lit op ''PATH_EQUAL'' then
        Some (\<lambda>l r ctx. (if eval_should_stop ctx then False else sv_eq (sv_path_normalize l) (sv_path_normalize r), ctx))
      else if eval_sv_eq_ci_lit op ''IS_NEWER_THAN'' then
        Some (\<lambda>l r ctx. (path_is_newer_than_cstr w (c_str l) (c_str r), ctx))
      else None)"

section \<open>The descent\<close>

type_synonym parsed = "bool \<times> string_view list \<times> eval_ctx"
type_synonym cond_parser = "string_view list \<Rightarrow> eval_ctx \<Rightarrow> parsed"

text \<open>\<open>pe\<close> parses the expression inside parentheses.\<close>

definition parse_primary :: "cond_parser \<Rightarrow> cond_parser" where
  "parse_primary pe toks ctx =
     (case toks of
        [] \<Rightarrow> (False, [], ctx)
      | tok # rest \<Rightarrow>
          if eval_sv_eq_ci_lit tok ''('' then
            (case pe rest ctx of
               (v, rest1, ctx1) \<Rightarrow>
                 (case rest1 of
                    [] \<Rightarrow> (v, [], snd (eval_emit_diag DIAG_SEV_ERROR ''if'' ''Missing ) in expression'' ctx1))
                  | t # rest2 \<Rightarrow>
                      if eval_sv_eq_ci_lit t '')'' then (v, rest2, ctx1)
                      else (v, rest1, snd (eval_emit_diag DIAG_SEV_ERROR ''if'' ''Missing ) in expression'' ctx1))))
          else (eval_truthy ctx tok, rest, ctx))"

definition unary_word :: "string_view \<Rightarrow> bool" where
  "unary_word tok \<longleftrightarrow>
     list_ex (eval_sv_eq_ci_lit tok)
       [''('', ''NOT'', ''DEFINED'', ''TARGET'', ''COMMAND'', ''POLICY'', ''EXISTS'', ''IS_DIRECTORY'', ''IS_SYMLINK'',
        ''IS_ABSOLUTE'', ''IS_READABLE'', ''IS_WRITABLE'', ''IS_EXECUTABLE'', ''TEST'']"

definition parse_comparison :: "cond_world \<Rightarrow> string_view \<Rightarrow> cond_parser" where
  "parse_comparison w lhs toks ctx =
     (case toks of
        [] \<Rightarrow> (eval_truthy ctx lhs, [], ctx)
      | op # rest \<Rightarrow>
          (case compare_op w op of
             None \<Rightarrow> (eval_truthy ctx lhs, toks, ctx)
           | Some f \<Rightarrow>
               (case rest of
                  [] \<Rightarrow> (False, [], ctx)
                | rhs # rest1 \<Rightarrow>
                    (case f (sv_lookup_if_var ctx lhs) (sv_lookup_if_var ctx rhs) ctx of
                       (v, ctx1) \<Rightarrow> (v, rest1, ctx1)))))"

function (sequential) parse_cmp :: "cond_world \<Rightarrow> cond_parser \<Rightarrow> cond_parser"
and parse_unary :: "cond_world \<Rightarrow> cond_parser \<Rightarrow> cond_parser"
where
  "parse_cmp w pe [] ctx = (False, [], ctx)"
| "parse_cmp w pe (first # rest) ctx =
     (if unary_word first then parse_unary w pe (first # rest) ctx
      else parse_comparison w first rest ctx)"
| "parse_unary w pe [] ctx = (False, [], ctx)"
| "parse_unary w pe (tok # rest) ctx =
     (if eval_sv_eq_ci_lit tok ''NOT'' then
        (case parse_cmp w pe rest ctx of (v, rest1, ctx1) \<Rightarrow> (\<not> v, rest1, ctx1))
      else
        (case unary_test w ctx tok of
           Some test \<Rightarrow> (case rest of [] \<Rightarrow> (False, [], ctx) | x # rest1 \<Rightarrow> (test x, rest1, ctx))
         | None \<Rightarrow> parse_primary pe (tok # rest) ctx))"
  by pat_completeness auto

termination
  by (relation "measure (\<lambda>x. case x of Inl (w, pe, toks, ctx) \<Rightarrow> 2 * length toks + 1 | Inr (w, pe, toks, ctx) \<Rightarrow> 2 * length toks)")
    auto

declare parse_cmp.simps [simp del] parse_unary.simps [simp del]

text \<open>
  A loop over operands joined by a word; \<open>n\<close> bounds the rounds, each of which reads the word.
\<close>

fun and_loop :: "cond_world \<Rightarrow> cond_parser \<Rightarrow> nat \<Rightarrow> parsed \<Rightarrow> parsed" where
  "and_loop w pe 0 r = r"
| "and_loop w pe (Suc n) (lhs, toks, ctx) =
     (case toks of
        [] \<Rightarrow> (lhs, toks, ctx)
      | t # rest \<Rightarrow>
          if eval_sv_eq_ci_lit t ''AND'' then
            (case parse_cmp w pe rest ctx of (rhs, rest1, ctx1) \<Rightarrow> and_loop w pe n (lhs \<and> rhs, rest1, ctx1))
          else (lhs, toks, ctx))"

definition parse_and :: "cond_world \<Rightarrow> cond_parser \<Rightarrow> cond_parser" where
  "parse_and w pe toks ctx = and_loop w pe (length toks) (parse_cmp w pe toks ctx)"

fun or_loop :: "cond_world \<Rightarrow> cond_parser \<Rightarrow> nat \<Rightarrow> parsed \<Rightarrow> parsed" where
  "or_loop w pe 0 r = r"
| "or_loop w pe (Suc n) (lhs, toks, ctx) =
     (case toks of
        [] \<Rightarrow> (lhs, toks, ctx)
      | t # rest \<Rightarrow>
          if eval_sv_eq_ci_lit t ''OR'' then
            (case parse_and w pe rest ctx of (rhs, rest1, ctx1) \<Rightarrow> or_loop w pe n (lhs \<or> rhs, rest1, ctx1))
          else (lhs, toks, ctx))"

text \<open>The first argument bounds the nesting of parentheses.\<close>

primrec parse_expr :: "nat \<Rightarrow> cond_world \<Rightarrow> cond_parser" where
  "parse_expr 0 = (\<lambda>w toks ctx. (False, toks, ctx))"
| "parse_expr (Suc k) =
     (\<lambda>w toks ctx. or_loop w (parse_expr k w) (length toks) (parse_and w (parse_expr k w) toks ctx))"

definition eval_condition :: "cond_world \<Rightarrow> arg list \<Rightarrow> eval_ctx \<Rightarrow> bool \<times> eval_ctx" where
  "eval_condition w raw_condition ctx =
     (case eval_resolve_args raw_condition ctx of
        (toks, ctx1) \<Rightarrow>
          if eval_should_stop ctx1 \<or> toks = [] then (False, ctx1)
          else
            (case parse_expr (Suc (length toks)) w toks ctx1 of
               (v, rest, ctx2) \<Rightarrow>
                 if rest \<noteq> [] then (False, snd (eval_emit_diag DIAG_SEV_ERROR ''if'' ''Invalid if() syntax'' ctx2))
                 else (v, ctx2)))"

end
