(* ===== verification/Eval_Cond_Props.thy ===== *)
theory Eval_Cond_Props
  imports Eval_Cond Eval_Expand_Props
begin

text \<open>
  Conditions as trees. A condition is a disjunction of conjunctions; \<open>tokens_of\<close> writes it the way
  \<open>if\<close> takes it, \<open>holds\<close> says what it means, evaluating every part from left to right. The descent
  over the tokens of a well-formed condition gives that meaning, and the bounds on its loops and
  on the nesting never cut it short.
\<close>

section \<open>Words\<close>

lemma eq_ci_lit_map: "eval_sv_eq_ci_lit a lit \<longleftrightarrow> map c_toupper a = map c_toupper lit"
  by (simp add: eval_sv_eq_ci_lit_def sv_eq_ci_upper_map)

text \<open>Words that differ when folded exclude each other.\<close>

lemma eq_ci_lit_other:
  "eval_sv_eq_ci_lit t a \<Longrightarrow> map c_toupper a \<noteq> map c_toupper b \<Longrightarrow> \<not> eval_sv_eq_ci_lit t b"
  by (simp add: eq_ci_lit_map)

section \<open>The loops stop by their own tests\<close>

text \<open>A parser reads forwards.\<close>

definition reads_on :: "cond_parser \<Rightarrow> bool" where
  "reads_on p \<longleftrightarrow> (\<forall>toks ctx. length (fst (snd (p toks ctx))) \<le> length toks)"

lemma reads_on_elim: "reads_on p \<Longrightarrow> p toks ctx = (v, rest, ctx1) \<Longrightarrow> length rest \<le> length toks"
  by (metis fst_conv reads_on_def snd_conv)

lemma parse_primary_reads: "reads_on pe \<Longrightarrow> reads_on (parse_primary pe)"
  unfolding reads_on_def [of "parse_primary pe"] parse_primary_def
  by (auto split: list.splits prod.splits dest!: reads_on_elim)

lemma parse_comparison_reads: "reads_on (parse_comparison w lhs)"
  unfolding reads_on_def parse_comparison_def
  by (auto split: list.splits prod.splits option.splits)

lemma unary_reads_step:
  assumes "reads_on pe" and "length (fst (snd (parse_cmp w pe rest ctx))) \<le> length rest"
  shows "length (fst (snd (parse_unary w pe (tok # rest) ctx))) \<le> length (tok # rest)"
proof (cases "eval_sv_eq_ci_lit tok ''NOT''")
  case True
  then show ?thesis using assms(2) by (cases "parse_cmp w pe rest ctx") (simp add: parse_unary.simps)
next
  case not: False
  show ?thesis
  proof (cases "unary_test w ctx tok")
    case None
    then show ?thesis using not parse_primary_reads [OF assms(1)]
      by (simp add: parse_unary.simps reads_on_def del: list.size)
  next
    case (Some test)
    then show ?thesis using not by (simp add: parse_unary.simps split: list.split)
  qed
qed

lemma parse_cmp_reads_both:
  assumes "reads_on pe"
  shows "length (fst (snd (parse_cmp w pe toks ctx))) \<le> length toks
    \<and> length (fst (snd (parse_unary w pe toks ctx))) \<le> length toks"
proof (induction toks)
  case (Cons tok rest)
  have u: "length (fst (snd (parse_unary w pe (tok # rest) ctx))) \<le> length (tok # rest)"
    using unary_reads_step [OF assms] Cons by blast
  have "length (fst (snd (parse_comparison w tok rest ctx))) \<le> length rest"
    using parse_comparison_reads by (simp add: reads_on_def)
  with u show ?case by (simp add: parse_cmp.simps)
qed (simp add: parse_cmp.simps parse_unary.simps)

lemma parse_cmp_reads: "reads_on pe \<Longrightarrow> reads_on (parse_cmp w pe)"
  using parse_cmp_reads_both by (simp add: reads_on_def)

lemma and_loop_reads:
  assumes "reads_on pe"
  shows "length (fst (snd (and_loop w pe n (lhs, toks, ctx)))) \<le> length toks"
proof (induction n arbitrary: lhs toks ctx)
  case (Suc n)
  show ?case
  proof (cases "toks \<noteq> [] \<and> eval_sv_eq_ci_lit (hd toks) ''AND''")
    case True
    then obtain t rest where t: "toks = t # rest" "eval_sv_eq_ci_lit t ''AND''" by (cases toks) auto
    obtain rhs rest1 ctx1 where c: "parse_cmp w pe rest ctx = (rhs, rest1, ctx1)" by (rule prod_cases3)
    have "length rest1 \<le> length rest" using c by (rule reads_on_elim [OF parse_cmp_reads [OF assms]])
    then show ?thesis using t c Suc [of "lhs \<and> rhs" rest1 ctx1] by simp
  next
    case False
    then show ?thesis by (cases toks) auto
  qed
qed simp

lemma parse_and_reads:
  assumes "reads_on pe"
  shows "reads_on (parse_and w pe)"
  unfolding reads_on_def
proof (intro allI)
  fix toks ctx
  obtain v rest ctx1 where c: "parse_cmp w pe toks ctx = (v, rest, ctx1)" by (rule prod_cases3)
  have "length rest \<le> length toks" using c by (rule reads_on_elim [OF parse_cmp_reads [OF assms]])
  then show "length (fst (snd (parse_and w pe toks ctx))) \<le> length toks"
    using and_loop_reads [OF assms, of w "length toks" v rest ctx1] c by (simp add: parse_and_def)
qed

lemma or_loop_reads:
  assumes "reads_on pe"
  shows "length (fst (snd (or_loop w pe n (lhs, toks, ctx)))) \<le> length toks"
proof (induction n arbitrary: lhs toks ctx)
  case (Suc n)
  show ?case
  proof (cases "toks \<noteq> [] \<and> eval_sv_eq_ci_lit (hd toks) ''OR''")
    case True
    then obtain t rest where t: "toks = t # rest" "eval_sv_eq_ci_lit t ''OR''" by (cases toks) auto
    obtain rhs rest1 ctx1 where c: "parse_and w pe rest ctx = (rhs, rest1, ctx1)" by (rule prod_cases3)
    have "length rest1 \<le> length rest" using c by (rule reads_on_elim [OF parse_and_reads [OF assms]])
    then show ?thesis using t c Suc [of "lhs \<or> rhs" rest1 ctx1] by simp
  next
    case False
    then show ?thesis by (cases toks) auto
  qed
qed simp

lemma parse_expr_reads: "reads_on (parse_expr k w)"
proof (induction k)
  case (Suc k)
  show ?case unfolding reads_on_def
  proof (intro allI)
    fix toks ctx
    obtain v rest ctx1 where p: "parse_and w (parse_expr k w) toks ctx = (v, rest, ctx1)" by (rule prod_cases3)
    have "length rest \<le> length toks" using p by (rule reads_on_elim [OF parse_and_reads [OF Suc]])
    then show "length (fst (snd (parse_expr (Suc k) w toks ctx))) \<le> length toks"
      using or_loop_reads [OF Suc, of w "length toks" v rest ctx1] p by simp
  qed
qed (simp add: reads_on_def)

text \<open>Two parsers that agree on shorter texts, and one bound as good as another.\<close>

definition agree :: "nat \<Rightarrow> cond_parser \<Rightarrow> cond_parser \<Rightarrow> bool" where
  "agree n p q \<longleftrightarrow> (\<forall>toks ctx. length toks < n \<longrightarrow> p toks ctx = q toks ctx)"

lemma agreeD: "agree n p q \<Longrightarrow> length toks < n \<Longrightarrow> p toks ctx = q toks ctx"
  by (simp add: agree_def)

lemma parse_cmp_agree:
  assumes "agree n p q"
  shows "length toks \<le> n \<Longrightarrow>
    parse_cmp w p toks ctx = parse_cmp w q toks ctx \<and> parse_unary w p toks ctx = parse_unary w q toks ctx"
proof (induction toks)
  case (Cons tok rest)
  have "parse_primary p (tok # rest) ctx = parse_primary q (tok # rest) ctx"
    using agreeD [OF assms, of rest ctx] Cons.prems by (simp add: parse_primary_def)
  then have "parse_unary w p (tok # rest) ctx = parse_unary w q (tok # rest) ctx"
    using Cons by (simp add: parse_unary.simps cong: option.case_cong)
  then show ?case by (simp add: parse_cmp.simps)
qed (simp add: parse_cmp.simps parse_unary.simps)

lemma and_loop_agree:
  assumes "agree n p q" "reads_on q"
  shows "length toks \<le> n \<Longrightarrow> length toks \<le> i \<Longrightarrow> length toks \<le> j \<Longrightarrow>
    and_loop w p i (lhs, toks, ctx) = and_loop w q j (lhs, toks, ctx)"
proof (induction i arbitrary: j lhs toks ctx)
  case 0
  then show ?case by (cases j) auto
next
  case (Suc i)
  show ?case
  proof (cases toks)
    case Nil
    then show ?thesis by (cases j) auto
  next
    case (Cons t rest)
    then obtain j' where j: "j = Suc j'" using Suc.prems by (cases j) auto
    obtain rhs rest1 ctx1 where c: "parse_cmp w q rest ctx = (rhs, rest1, ctx1)" by (rule prod_cases3)
    moreover have "parse_cmp w p rest ctx = parse_cmp w q rest ctx"
      using parse_cmp_agree [OF assms(1)] Suc.prems Cons by simp
    moreover have "length rest1 \<le> length rest" using c by (rule reads_on_elim [OF parse_cmp_reads [OF assms(2)]])
    ultimately show ?thesis using Suc.IH [of rest1 j' "lhs \<and> rhs" ctx1] Suc.prems j Cons by simp
  qed
qed

lemma parse_and_agree:
  assumes "agree n p q" "reads_on q" "length toks \<le> n"
  shows "parse_and w p toks ctx = parse_and w q toks ctx"
proof -
  obtain v rest ctx1 where c: "parse_cmp w q toks ctx = (v, rest, ctx1)" by (rule prod_cases3)
  then have "length rest \<le> length toks" by (rule reads_on_elim [OF parse_cmp_reads [OF assms(2)]])
  then show ?thesis using parse_cmp_agree [OF assms(1)] and_loop_agree [OF assms(1,2)] assms(3) c
    by (simp add: parse_and_def)
qed

lemma or_loop_agree:
  assumes "agree n p q" "reads_on q"
  shows "length toks \<le> n \<Longrightarrow> length toks \<le> i \<Longrightarrow> length toks \<le> j \<Longrightarrow>
    or_loop w p i (lhs, toks, ctx) = or_loop w q j (lhs, toks, ctx)"
proof (induction i arbitrary: j lhs toks ctx)
  case 0
  then show ?case by (cases j) auto
next
  case (Suc i)
  show ?case
  proof (cases toks)
    case Nil
    then show ?thesis by (cases j) auto
  next
    case (Cons t rest)
    then obtain j' where j: "j = Suc j'" using Suc.prems by (cases j) auto
    obtain rhs rest1 ctx1 where c: "parse_and w q rest ctx = (rhs, rest1, ctx1)" by (rule prod_cases3)
    moreover have "parse_and w p rest ctx = parse_and w q rest ctx"
      using parse_and_agree [OF assms] Suc.prems Cons by simp
    moreover have "length rest1 \<le> length rest" using c by (rule reads_on_elim [OF parse_and_reads [OF assms(2)]])
    ultimately show ?thesis using Suc.IH [of rest1 j' "lhs \<or> rhs" ctx1] Suc.prems j Cons by simp
  qed
qed

lemma parse_expr_enough:
  "length toks < k \<Longrightarrow> length toks < m \<Longrightarrow> parse_expr k w toks ctx = parse_expr m w toks ctx"
proof (induction "length toks" arbitrary: k m toks ctx rule: less_induct)
  case less
  obtain k' m' where k: "k = Suc k'" "m = Suc m'" using less.prems by (cases k; cases m) auto
  have a: "agree (length toks) (parse_expr k' w) (parse_expr m' w)"
    unfolding agree_def
  proof (intro allI impI)
    fix ts :: "string_view list" and c assume "length ts < length toks"
    then show "parse_expr k' w ts c = parse_expr m' w ts c"
      using less.prems k by (intro less.hyps) simp_all
  qed
  obtain v rest ctx1 where c: "parse_and w (parse_expr m' w) toks ctx = (v, rest, ctx1)" by (rule prod_cases3)
  then have r: "length rest \<le> length toks" by (rule reads_on_elim [OF parse_and_reads [OF parse_expr_reads]])
  have d: "parse_and w (parse_expr k' w) toks ctx = (v, rest, ctx1)"
    unfolding parse_and_agree [OF a parse_expr_reads order_refl] by (rule c)
  show ?case
    unfolding k parse_expr.simps c d by (rule or_loop_agree [OF a parse_expr_reads r r r])
qed

section \<open>Conditions as trees\<close>

datatype cond =
    Word string_view
  | Test string_view string_view
  | Compare string_view string_view string_view
  | Not cond
  | Group "cond list list"

fun joined :: "string_view \<Rightarrow> string_view list list \<Rightarrow> string_view list" where
  "joined word [] = []"
| "joined word (t # ts) = t @ concat (map (Cons word) ts)"

primrec tokens_of :: "cond \<Rightarrow> string_view list" where
  "tokens_of (Word x) = [x]"
| "tokens_of (Test k x) = [k, x]"
| "tokens_of (Compare l op r) = [l, op, r]"
| "tokens_of (Not c) = ''NOT'' # tokens_of c"
| "tokens_of (Group d) = ''('' # joined ''OR'' (map (joined ''AND'') (map (map tokens_of) d)) @ ['')'']"

definition disj_tokens :: "cond list list \<Rightarrow> string_view list" where
  "disj_tokens d = joined ''OR'' (map (joined ''AND'') (map (map tokens_of) d))"

text \<open>Every part is evaluated, in order.\<close>

fun all_of :: "(eval_ctx \<Rightarrow> bool \<times> eval_ctx) list \<Rightarrow> eval_ctx \<Rightarrow> bool \<times> eval_ctx" where
  "all_of [] ctx = (True, ctx)"
| "all_of (f # fs) ctx = (case f ctx of (v, ctx1) \<Rightarrow> case all_of fs ctx1 of (u, ctx2) \<Rightarrow> (v \<and> u, ctx2))"

fun any_of :: "(eval_ctx \<Rightarrow> bool \<times> eval_ctx) list \<Rightarrow> eval_ctx \<Rightarrow> bool \<times> eval_ctx" where
  "any_of [] ctx = (False, ctx)"
| "any_of (f # fs) ctx = (case f ctx of (v, ctx1) \<Rightarrow> case any_of fs ctx1 of (u, ctx2) \<Rightarrow> (v \<or> u, ctx2))"

primrec holds :: "cond_world \<Rightarrow> cond \<Rightarrow> eval_ctx \<Rightarrow> bool \<times> eval_ctx" where
  "holds w (Word x) = (\<lambda>ctx. (eval_truthy ctx x, ctx))"
| "holds w (Test k x) = (\<lambda>ctx. (case unary_test w ctx k of Some test \<Rightarrow> test x | None \<Rightarrow> False, ctx))"
| "holds w (Compare l op r) =
     (\<lambda>ctx. case compare_op w op of
              Some f \<Rightarrow> f (sv_lookup_if_var ctx l) (sv_lookup_if_var ctx r) ctx
            | None \<Rightarrow> (False, ctx))"
| "holds w (Not c) = (\<lambda>ctx. case holds w c ctx of (v, ctx1) \<Rightarrow> (\<not> v, ctx1))"
| "holds w (Group d) = any_of (map all_of (map (map (holds w)) d))"

definition disj_holds :: "cond_world \<Rightarrow> cond list list \<Rightarrow> eval_ctx \<Rightarrow> bool \<times> eval_ctx" where
  "disj_holds w d = any_of (map all_of (map (map (holds w)) d))"

text \<open>A word that starts no other form, a test by one of its words, a comparison by an operator.\<close>

definition comparison_word :: "string_view \<Rightarrow> bool" where
  "comparison_word op \<longleftrightarrow>
     list_ex (eval_sv_eq_ci_lit op)
       [''STREQUAL'', ''EQUAL'', ''LESS'', ''GREATER'', ''LESS_EQUAL'', ''GREATER_EQUAL'', ''STRLESS'', ''STRGREATER'',
        ''STRLESS_EQUAL'', ''STRGREATER_EQUAL'', ''VERSION_LESS'', ''VERSION_GREATER'', ''VERSION_EQUAL'',
        ''VERSION_LESS_EQUAL'', ''VERSION_GREATER_EQUAL'', ''MATCHES'', ''IN_LIST'', ''PATH_EQUAL'', ''IS_NEWER_THAN'']"

primrec well_formed :: "cond \<Rightarrow> bool" where
  "well_formed (Word x) \<longleftrightarrow> \<not> unary_word x"
| "well_formed (Test k x) \<longleftrightarrow>
     unary_word k \<and> \<not> eval_sv_eq_ci_lit k ''('' \<and> \<not> eval_sv_eq_ci_lit k ''NOT''"
| "well_formed (Compare l op r) \<longleftrightarrow> \<not> unary_word l \<and> comparison_word op"
| "well_formed (Not c) \<longleftrightarrow> well_formed c"
| "well_formed (Group d) \<longleftrightarrow> d \<noteq> [] \<and> list_all (\<lambda>bs. bs \<noteq> [] \<and> list_all id bs) (map (map well_formed) d)"

definition disj_well_formed :: "cond list list \<Rightarrow> bool" where
  "disj_well_formed d \<longleftrightarrow> d \<noteq> [] \<and> list_all (\<lambda>bs. bs \<noteq> [] \<and> list_all id bs) (map (map well_formed) d)"

lemma compare_op_word: "compare_op w op = None \<longleftrightarrow> \<not> comparison_word op"
  by (simp add: compare_op_def comparison_word_def)

lemma unary_test_word:
  "unary_word k \<Longrightarrow> \<not> eval_sv_eq_ci_lit k ''('' \<Longrightarrow> \<not> eval_sv_eq_ci_lit k ''NOT'' \<Longrightarrow> unary_test w ctx k \<noteq> None"
  by (auto simp: unary_word_def unary_test_def)

text \<open>What may follow an operand.\<close>

definition follows :: "string list \<Rightarrow> string_view list \<Rightarrow> bool" where
  "follows ws rest \<longleftrightarrow> rest = [] \<or> hd rest \<in> set ws"

lemma no_comparison: "compare_op w ''AND'' = None" "compare_op w ''OR'' = None" "compare_op w '')'' = None"
  by (simp_all add: compare_op_word comparison_word_def eq_ci_lit_map)

lemma parse_word:
  "\<not> unary_word x \<Longrightarrow> follows [''AND'', ''OR'', '')''] rest \<Longrightarrow>
    parse_cmp w pe (x # rest) ctx = (eval_truthy ctx x, rest, ctx)"
  by (cases rest) (auto simp: parse_cmp.simps parse_comparison_def follows_def no_comparison)

lemma parse_test:
  assumes "well_formed (Test k x)"
  shows "parse_cmp w pe (k # x # rest) ctx = (fst (holds w (Test k x) ctx), rest, ctx)"
  using assms unary_test_word [of k w ctx] by (auto simp: parse_cmp.simps parse_unary.simps)

lemma parse_compare:
  assumes "well_formed (Compare l op r)"
  shows "parse_cmp w pe (l # op # r # rest) ctx =
    (fst (holds w (Compare l op r) ctx), rest, snd (holds w (Compare l op r) ctx))"
  using assms compare_op_word [of w op]
  by (cases "compare_op w op") (simp_all add: parse_cmp.simps parse_comparison_def split: prod.split)

lemma word_not: "unary_word ''NOT''" "unary_word ''(''" "\<not> eval_sv_eq_ci_lit ''('' ''NOT''" "unary_test w ctx ''('' = None"
  by (simp_all add: unary_word_def unary_test_def eq_ci_lit_map)

text \<open>A value, the tokens left and the context.\<close>

definition gives :: "bool \<times> eval_ctx \<Rightarrow> string_view list \<Rightarrow> parsed" where
  "gives r rest = (fst r, rest, snd r)"

definition item_read :: "cond_world \<Rightarrow> cond_parser \<Rightarrow> cond \<Rightarrow> bool" where
  "item_read w pe c \<longleftrightarrow>
     (\<forall>rest ctx. follows [''AND'', ''OR'', '')''] rest \<longrightarrow>
        parse_cmp w pe (tokens_of c @ rest) ctx = gives (holds w c ctx) rest)"

lemma item_readD:
  "item_read w pe c \<Longrightarrow> follows [''AND'', ''OR'', '')''] rest \<Longrightarrow>
    parse_cmp w pe (tokens_of c @ rest) ctx = gives (holds w c ctx) rest"
  by (simp add: item_read_def)

lemma follows_weaken: "follows ws rest \<Longrightarrow> set ws \<subseteq> set vs \<Longrightarrow> follows vs rest"
  by (auto simp: follows_def)

lemma not_and: "follows [''OR'', '')''] rest \<Longrightarrow> rest = t # ts \<Longrightarrow> \<not> eval_sv_eq_ci_lit t ''AND''"
  by (auto simp: follows_def eq_ci_lit_map)

lemma not_or: "follows ['')''] rest \<Longrightarrow> rest = t # ts \<Longrightarrow> \<not> eval_sv_eq_ci_lit t ''OR''"
  by (auto simp: follows_def eq_ci_lit_map)

lemma and_loop_items:
  assumes "follows [''OR'', '')''] rest"
  shows "list_all (item_read w pe) cs \<Longrightarrow> length cs \<le> n \<Longrightarrow>
    and_loop w pe n (lhs, concat (map (Cons ''AND'') (map tokens_of cs)) @ rest, ctx)
      = gives (case all_of (map (holds w) cs) ctx of (v, ctx1) \<Rightarrow> (lhs \<and> v, ctx1)) rest"
proof (induction cs arbitrary: n lhs ctx)
  case Nil
  show ?case
  proof (cases n)
    case (Suc m)
    then show ?thesis using not_and [OF assms] by (cases rest) (simp_all add: gives_def)
  qed (simp add: gives_def)
next
  case (Cons c cs)
  then obtain m where n: "n = Suc m" by (cases n) auto
  let ?more = "concat (map (Cons ''AND'') (map tokens_of cs)) @ rest"
  have "follows [''AND'', ''OR'', '')''] ?more"
    using follows_weaken [OF assms, of "[''AND'', ''OR'', '')'']"] by (cases cs) (auto simp: follows_def)
  then have item: "parse_cmp w pe (tokens_of c @ ?more) ctx = gives (holds w c ctx) ?more"
    using Cons.prems(1) by (auto intro: item_readD)
  obtain v ctx1 where v: "holds w c ctx = (v, ctx1)" by (cases "holds w c ctx")
  have "and_loop w pe m (lhs \<and> v, ?more, ctx1)
    = gives (case all_of (map (holds w) cs) ctx1 of (u, ctx2) \<Rightarrow> ((lhs \<and> v) \<and> u, ctx2)) rest"
    using Cons.prems n by (intro Cons.IH) auto
  then show ?case using item v unfolding n
    by (simp add: gives_def eq_ci_lit_map split: prod.split)
qed

lemma concat_tokens_length: "length cs \<le> length (concat (map (Cons word) (map tokens_of cs)))"
  by (induction cs) auto

lemma parse_and_items:
  assumes "follows [''OR'', '')''] rest" "cs \<noteq> []" "list_all (item_read w pe) cs"
  shows "parse_and w pe (joined ''AND'' (map tokens_of cs) @ rest) ctx = gives (all_of (map (holds w) cs) ctx) rest"
proof -
  obtain c ds where cs: "cs = c # ds" using assms(2) by (cases cs) auto
  let ?more = "concat (map (Cons ''AND'') (map tokens_of ds)) @ rest"
  have "follows [''AND'', ''OR'', '')''] ?more"
    using follows_weaken [OF assms(1), of "[''AND'', ''OR'', '')'']"] by (cases ds) (auto simp: follows_def)
  then have item: "parse_cmp w pe (tokens_of c @ ?more) ctx = gives (holds w c ctx) ?more"
    using assms(3) cs by (auto intro: item_readD)
  obtain v ctx1 where v: "holds w c ctx = (v, ctx1)" by (cases "holds w c ctx")
  have "length ds \<le> length (tokens_of c @ ?more)"
    using concat_tokens_length [of ds "''AND''"] by (simp add: trans_le_add2 le_add1 order_trans)
  then have "and_loop w pe (length (tokens_of c @ ?more)) (v, ?more, ctx1)
    = gives (case all_of (map (holds w) ds) ctx1 of (u, ctx2) \<Rightarrow> (v \<and> u, ctx2)) rest"
    using assms(1,3) cs by (intro and_loop_items) auto
  then show ?thesis using item v unfolding cs parse_and_def
    by (simp add: gives_def split: prod.split)
qed

definition conj_read :: "cond_world \<Rightarrow> cond_parser \<Rightarrow> cond list \<Rightarrow> bool" where
  "conj_read w pe cs \<longleftrightarrow> cs \<noteq> [] \<and> list_all (item_read w pe) cs"

definition conj_tokens :: "cond list \<Rightarrow> string_view list" where
  "conj_tokens cs = joined ''AND'' (map tokens_of cs)"

definition conj_holds :: "cond_world \<Rightarrow> cond list \<Rightarrow> eval_ctx \<Rightarrow> bool \<times> eval_ctx" where
  "conj_holds w cs = all_of (map (holds w) cs)"

lemma parse_and_conj:
  "follows [''OR'', '')''] rest \<Longrightarrow> conj_read w pe cs \<Longrightarrow>
    parse_and w pe (conj_tokens cs @ rest) ctx = gives (conj_holds w cs ctx) rest"
  by (simp add: conj_tokens_def conj_holds_def conj_read_def parse_and_items)

lemma or_loop_items:
  assumes "follows ['')''] rest"
  shows "list_all (conj_read w pe) d \<Longrightarrow> length d \<le> n \<Longrightarrow>
    or_loop w pe n (lhs, concat (map (Cons ''OR'') (map conj_tokens d)) @ rest, ctx)
      = gives (case any_of (map (conj_holds w) d) ctx of (v, ctx1) \<Rightarrow> (lhs \<or> v, ctx1)) rest"
proof (induction d arbitrary: n lhs ctx)
  case Nil
  show ?case
  proof (cases n)
    case (Suc m)
    then show ?thesis using not_or [OF assms] by (cases rest) (simp_all add: gives_def)
  qed (simp add: gives_def)
next
  case (Cons c cs)
  then obtain m where n: "n = Suc m" by (cases n) auto
  let ?more = "concat (map (Cons ''OR'') (map conj_tokens cs)) @ rest"
  have "follows [''OR'', '')''] ?more"
    using follows_weaken [OF assms, of "[''OR'', '')'']"] by (cases cs) (auto simp: follows_def)
  then have item: "parse_and w pe (conj_tokens c @ ?more) ctx = gives (conj_holds w c ctx) ?more"
    using Cons.prems(1) by (auto intro: parse_and_conj)
  obtain v ctx1 where v: "conj_holds w c ctx = (v, ctx1)" by (cases "conj_holds w c ctx")
  have "or_loop w pe m (lhs \<or> v, ?more, ctx1)
    = gives (case any_of (map (conj_holds w) cs) ctx1 of (u, ctx2) \<Rightarrow> ((lhs \<or> v) \<or> u, ctx2)) rest"
    using Cons.prems n by (intro Cons.IH) auto
  then show ?case using item v unfolding n
    by (simp add: gives_def eq_ci_lit_map split: prod.split)
qed

lemma concat_conj_length: "length d \<le> length (concat (map (Cons word) (map conj_tokens d)))"
  by (induction d) auto

lemma disj_tokens_joined: "disj_tokens d = joined ''OR'' (map conj_tokens d)"
  by (simp add: disj_tokens_def conj_tokens_def [abs_def] comp_def)

lemma disj_holds_any: "disj_holds w d = any_of (map (conj_holds w) d)"
  by (simp add: disj_holds_def conj_holds_def [abs_def] comp_def)

lemma parse_expr_disj:
  assumes "follows ['')''] rest" "d \<noteq> []" "list_all (conj_read w (parse_expr k w)) d"
  shows "parse_expr (Suc k) w (disj_tokens d @ rest) ctx = gives (disj_holds w d ctx) rest"
proof -
  let ?pe = "parse_expr k w"
  obtain c ds where d: "d = c # ds" using assms(2) by (cases d) auto
  let ?more = "concat (map (Cons ''OR'') (map conj_tokens ds)) @ rest"
  have "follows [''OR'', '')''] ?more"
    using follows_weaken [OF assms(1), of "[''OR'', '')'']"] by (cases ds) (auto simp: follows_def)
  then have item: "parse_and w ?pe (conj_tokens c @ ?more) ctx = gives (conj_holds w c ctx) ?more"
    using assms(3) d by (auto intro: parse_and_conj)
  obtain v ctx1 where v: "conj_holds w c ctx = (v, ctx1)" by (cases "conj_holds w c ctx")
  have "length ds \<le> length (conj_tokens c @ ?more)"
    using concat_conj_length [of ds "''OR''"] by (simp add: trans_le_add2 le_add1 order_trans)
  then have "or_loop w ?pe (length (conj_tokens c @ ?more)) (v, ?more, ctx1)
    = gives (case any_of (map (conj_holds w) ds) ctx1 of (u, ctx2) \<Rightarrow> (v \<or> u, ctx2)) rest"
    using assms(1,3) d by (intro or_loop_items) auto
  then show ?thesis using item v unfolding d disj_tokens_joined disj_holds_any
    by (simp add: gives_def split: prod.split)
qed

lemma item_length:
  "c \<in> set cs \<Longrightarrow> cs \<in> set d \<Longrightarrow> length (tokens_of c) \<le> length (disj_tokens d)"
proof -
  have joined: "t \<in> set ts \<Longrightarrow> length t \<le> length (joined word ts)" for t word and ts :: "string_view list list"
  proof (induction ts)
    case (Cons a ts)
    have "t \<in> set ts \<Longrightarrow> length t \<le> length (concat (map (Cons word) ts))" for ts :: "string_view list list"
      by (induction ts) auto
    then show ?case using Cons.prems by (auto intro: trans_le_add1 trans_le_add2)
  qed simp
  assume c: "c \<in> set cs" "cs \<in> set d"
  have "length (tokens_of c) \<le> length (conj_tokens cs)" unfolding conj_tokens_def using c(1) by (intro joined) auto
  also have "\<dots> \<le> length (disj_tokens d)" unfolding disj_tokens_joined using c(2) by (intro joined) auto
  finally show ?thesis .
qed

lemma parse_group:
  assumes "well_formed (Group d)" "length (tokens_of (Group d)) \<le> k"
    and items: "\<And>cs c k. cs \<in> set d \<Longrightarrow> c \<in> set cs \<Longrightarrow> well_formed c \<Longrightarrow> length (tokens_of c) \<le> k \<Longrightarrow> item_read w (parse_expr k w) c"
  shows "item_read w (parse_expr k w) (Group d)"
proof -
  have tok: "tokens_of (Group d) = ''('' # disj_tokens d @ ['')'']" by (simp add: disj_tokens_def)
  obtain j where k: "k = Suc j" using assms(2) by (cases k) auto
  have j: "length (disj_tokens d) \<le> j" using assms(2) unfolding tok k by simp
  have "conj_read w (parse_expr j w) cs" if cs: "cs \<in> set d" for cs
    unfolding conj_read_def list_all_iff
  proof (intro conjI ballI)
    show "cs \<noteq> []" using assms(1) cs by (auto simp: list_all_iff)
    fix c assume c: "c \<in> set cs"
    moreover have "well_formed c" using assms(1) cs c by (auto simp: list_all_iff)
    ultimately show "item_read w (parse_expr j w) c"
      using items [OF cs c] item_length [OF c cs] j by auto
  qed
  then have "parse_expr k w (disj_tokens d @ '')'' # rest) ctx = gives (disj_holds w d ctx) ('')'' # rest)" for rest ctx
    unfolding k using assms(1) by (intro parse_expr_disj) (auto simp: follows_def list_all_iff)
  then show ?thesis
    unfolding item_read_def tok
    using word_not
    by (simp add: parse_cmp.simps parse_unary.simps parse_primary_def gives_def eq_ci_lit_map disj_holds_def)
qed

lemma condition_read:
  "well_formed c \<Longrightarrow> length (tokens_of c) \<le> k \<Longrightarrow> item_read w (parse_expr k w) c"
proof (induction c arbitrary: k)
  case (Word x)
  then show ?case by (simp add: item_read_def parse_word gives_def)
next
  case (Test t x)
  then show ?case using parse_test [of t x] by (simp add: item_read_def gives_def)
next
  case (Compare l op r)
  then show ?case using parse_compare [of l op r] by (simp add: item_read_def gives_def)
next
  case (Not c)
  then have "item_read w (parse_expr k w) c" by simp
  then show ?case
    using word_not by (auto simp: item_read_def parse_cmp.simps parse_unary.simps eq_ci_lit_map gives_def split: prod.split)
next
  case (Group d)
  show ?case using Group.prems by (rule parse_group) (rule Group.IH)
qed

section \<open>Properties\<close>

text \<open>
  C5. Whenever the arguments of an \<open>if\<close> or a \<open>while\<close> resolve to the tokens of a well-formed condition,
  the code computes its meaning: \<open>OR\<close> binds weaker than \<open>AND\<close>, that weaker than \<open>NOT\<close>, which reaches over a whole
  comparison; parentheses group, to any depth; every operand is evaluated once, from left to right,
  and the context passes through them.
\<close>

theorem eval_condition_meaning:
  assumes "disj_well_formed d" and "eval_resolve_args raw ctx = (disj_tokens d, ctx1)" and "\<not> eval_should_stop ctx1"
  shows "eval_condition w raw ctx = disj_holds w d ctx1"
proof -
  let ?k = "length (disj_tokens d)"
  have "conj_read w (parse_expr ?k w) cs" if cs: "cs \<in> set d" for cs
    unfolding conj_read_def list_all_iff
  proof (intro conjI ballI)
    show "cs \<noteq> []" using assms(1) cs by (auto simp: disj_well_formed_def list_all_iff)
    fix c assume c: "c \<in> set cs"
    then have "well_formed c" using assms(1) cs by (auto simp: disj_well_formed_def list_all_iff)
    then show "item_read w (parse_expr ?k w) c" using item_length [OF c cs] by (rule condition_read)
  qed
  moreover have "d \<noteq> []" using assms(1) by (simp add: disj_well_formed_def)
  ultimately have "parse_expr (Suc ?k) w (disj_tokens d @ []) ctx1 = gives (disj_holds w d ctx1) []"
    by (intro parse_expr_disj) (auto simp: follows_def list_all_iff)
  moreover have "disj_tokens d \<noteq> []"
  proof -
    obtain cs ds where d: "d = cs # ds" using \<open>d \<noteq> []\<close> by (cases d) auto
    then obtain c cs' where "cs = c # cs'" using assms(1) by (cases cs) (auto simp: disj_well_formed_def)
    then show ?thesis unfolding d disj_tokens_joined conj_tokens_def by (cases c) auto
  qed
  ultimately show ?thesis using assms(2,3) by (simp add: eval_condition_def gives_def del: parse_expr.simps)
qed

text \<open>A file system with nothing in it, no targets, no commands, and literal patterns.\<close>

definition empty_world :: cond_world where
  "empty_world =
     \<lparr>stat_path = (\<lambda>p. None), is_link = (\<lambda>p. False), access_ok = (\<lambda>m p. False),
      regex = (\<lambda>pat s. Some (if pat = s then Some [(0, int (length s))] else None)),
      current_dir_below = (\<lambda>d. False), target_records = [], native_commands = [], user_commands = [], test_names = []\<rparr>"

lemma eval_condition_meaning_witness:
  "eval_condition empty_world
     (map unquoted [''('', ''V'', ''STREQUAL'', ''b'', ''OR'', ''OFF'', '')'', ''AND'', ''NOT'', ''EXISTS'', ''f''])
     (one_scope [''V'' \<mapsto> ''b'']) = (True, one_scope [''V'' \<mapsto> ''b''])"
proof -
  let ?d = "[[Group [[Compare ''V'' ''STREQUAL'' ''b''], [Word ''OFF'']], Not (Test ''EXISTS'' ''f'')]]"
  let ?ctx = "one_scope [''V'' \<mapsto> ''b'']"
  have tokens: "disj_tokens ?d = [''('', ''V'', ''STREQUAL'', ''b'', ''OR'', ''OFF'', '')'', ''AND'', ''NOT'', ''EXISTS'', ''f'']"
    by (simp add: disj_tokens_def)
  have wf: "disj_well_formed ?d" by code_simp
  have resolved: "eval_resolve_args (map unquoted (disj_tokens ?d)) ?ctx = (disj_tokens ?d, ?ctx)"
    unfolding tokens by (rule resolve_plain) (simp_all add: plain_word_def plain_text_def ESCAPED_DOLLAR_char)
  have "disj_holds empty_world ?d ?ctx = (True, ?ctx)"
    by (simp add: disj_holds_def compare_op_def eq_ci_lit_map sv_eq_def sv_lookup_if_var_def eval_var_defined_visible_def
        one_scope_def c_str_def eval_var_get_visible_def eval_macro_bind_get_def unary_test_def path_exists_cstr_def
        empty_world_def c_toupper_def c_islower_def split: prod.split)
  then show ?thesis using eval_condition_meaning [OF wf resolved, of empty_world] unfolding tokens by simp
qed

text \<open>
  The bounds of the model never show: with any nesting bound above the number of tokens the
  descent gives the same result, whatever the tokens are, so that the loops and the recursion end
  by the tests of the code alone.
\<close>

theorem condition_descent_ends:
  assumes "length toks < k"
  shows "parse_expr k w toks ctx = parse_expr (Suc (length toks)) w toks ctx"
  using assms by (intro parse_expr_enough) simp_all

lemma condition_descent_ends_witness:
  "parse_expr 9 empty_world [''('', ''('', '')''] (one_scope Map.empty)
    = parse_expr (Suc (length [''('', ''('', '')''])) empty_world [''('', ''('', '')''] (one_scope Map.empty)"
  by (rule condition_descent_ends) simp

section \<open>The variables of a match\<close>

lemma set_in_order_puts: "set_in_order kvs ctx = variables.puts kvs ctx"
  by (induction kvs arbitrary: ctx) (auto split: prod.split)

definition match_names :: "string list" where
  "match_names = map (\<lambda>i. ''CMAKE_MATCH_'' @ digit_text i) [0..<MAX_REGEX_MATCHES] @ [''CMAKE_MATCH_COUNT'']"

lemma match_names_distinct: "distinct (map c_str match_names)"
  by code_simp

lemma match_names_free: "list_all (\<lambda>k. \<not> announced k) match_names"
  by code_simp

text \<open>
  After a match the ten group variables hold the text of their groups, empty for a group that
  took no part, and the count the number of the last group that did; no other variable has
  changed, except those in which a watched variable is announced.
\<close>

theorem match_sets_groups:
  assumes "eval_set_regex_match_vars subject m ctx = (True, ctx')" and "i < MAX_REGEX_MATCHES"
  shows "eval_var_get_visible ctx' (''CMAKE_MATCH_'' @ digit_text i) = c_str (group_text subject m i)
    \<and> eval_var_get_visible ctx' ''CMAKE_MATCH_COUNT'' = c_str (digit_text (highest_group m))
    \<and> (announced key \<or> c_str key \<in> c_str ` set match_names \<or>
       eval_var_get_visible ctx' key = eval_var_get_visible ctx key)"
proof -
  let ?kvs = "map (\<lambda>i. (''CMAKE_MATCH_'' @ digit_text i, group_text subject m i)) [0..<MAX_REGEX_MATCHES]
    @ [(''CMAKE_MATCH_COUNT'', digit_text (highest_group m))]"
  have names: "map fst ?kvs = match_names" by (simp add: match_names_def comp_def)
  have puts: "variables.puts ?kvs ctx = (True, ctx')"
    using assms(1) by (simp add: eval_set_regex_match_vars_def set_in_order_puts)
  have dist: "distinct (map (c_str \<circ> fst) ?kvs)"
    using match_names_distinct unfolding names [symmetric] by (simp only: map_map)
  have free: "\<not> announced k" if "k \<in> set match_names" for k
    using match_names_free that by (auto simp: list_all_iff)
  have get: "eval_var_get_visible ctx' k = c_str v" if kv: "(k, v) \<in> set ?kvs" for k v
  proof -
    have "k \<in> set match_names" unfolding names [symmetric] using kv by force
    then show ?thesis using variables.puts_get [OF puts dist kv] free by blast
  qed
  have other: "announced key \<or> c_str key \<in> c_str ` set match_names \<or>
       eval_var_get_visible ctx' key = eval_var_get_visible ctx key"
    using variables.puts_other [OF puts, of key] unfolding names [symmetric] by (metis image_set)
  show ?thesis using get other assms(2) by auto
qed

lemma unwatched_set:
  "watched_variables ctx = [] \<Longrightarrow> can_set ctx \<Longrightarrow> eval_var_set_current k v ctx = (True, store_current k v ctx)"
  by (simp add: eval_var_set_current_def eval_variable_watch_notify_def store_current_def)

lemma unwatched_set_in_order:
  "watched_variables ctx = [] \<Longrightarrow> can_set ctx \<Longrightarrow> fst (set_in_order kvs ctx)"
proof (induction kvs arbitrary: ctx)
  case (Cons kv kvs)
  have "can_set (store_current k v ctx)" "watched_variables (store_current k v ctx) = []" for k v
    using Cons.prems by (simp_all add: can_set_def store_current_def eval_should_stop_def)
  then show ?case using Cons by (cases kv) (simp add: unwatched_set)
qed simp

lemma match_sets_groups_witness:
  "eval_var_get_visible (snd (eval_set_regex_match_vars ''ab'' (Some [(0, 2), (1, 2)]) (one_scope Map.empty))) ''CMAKE_MATCH_1'' = ''b''"
proof -
  let ?r = "eval_set_regex_match_vars ''ab'' (Some [(0, 2), (1, 2)]) (one_scope Map.empty)"
  have "fst ?r" unfolding eval_set_regex_match_vars_def
    by (rule unwatched_set_in_order) (simp_all add: one_scope_def can_set_def eval_should_stop_def)
  then have "?r = (True, snd ?r)" by (cases ?r) simp
  moreover have "''CMAKE_MATCH_'' @ digit_text 1 = ''CMAKE_MATCH_1''" "c_str (group_text ''ab'' (Some [(0, 2), (1, 2)]) 1) = ''b''"
    by code_simp+
  ultimately show ?thesis using match_sets_groups [of "''ab''" "Some [(0, 2), (1, 2)]" "one_scope Map.empty" "snd ?r" 1]
    by (simp add: MAX_REGEX_MATCHES_def)
qed

end
