(* ===== verification/Eval_Policy.thy ===== *)
theory Eval_Policy
  imports Eval_Compare
begin

text \<open>
  The policy stack of \<open>src_v2/evaluator/eval_policy_engine.c\<close>: which policies exist, the levels
  that \<open>block\<close> and \<open>cmake_policy\<close> push and pop, setting a policy and reading its effective value.
  The stack comes into being when it is first used; its depth is mirrored in a variable.
\<close>

datatype policy_status = POLICY_STATUS_UNSET | POLICY_STATUS_OLD | POLICY_STATUS_NEW

definition POLICY_KNOWN_MAX_ID :: nat where "POLICY_KNOWN_MAX_ID = 155"

definition eval_policy_status_to_sv :: "policy_status \<Rightarrow> string_view" where
  "eval_policy_status_to_sv st =
     (case st of POLICY_STATUS_OLD \<Rightarrow> ''OLD'' | POLICY_STATUS_NEW \<Rightarrow> ''NEW'' | POLICY_STATUS_UNSET \<Rightarrow> [])"

definition policy_status_from_sv :: "string_view \<Rightarrow> policy_status" where
  "policy_status_from_sv v =
     (if eval_sv_eq_ci_lit v ''NEW'' then POLICY_STATUS_NEW
      else if eval_sv_eq_ci_lit v ''OLD'' then POLICY_STATUS_OLD
      else POLICY_STATUS_UNSET)"

definition policy_slot_from_status :: "policy_status \<Rightarrow> policy_slot" where
  "policy_slot_from_status st =
     (case st of
        POLICY_STATUS_OLD \<Rightarrow> POLICY_SLOT_OLD
      | POLICY_STATUS_NEW \<Rightarrow> POLICY_SLOT_NEW
      | POLICY_STATUS_UNSET \<Rightarrow> POLICY_SLOT_UNSET_SHADOW)"

section \<open>The stack\<close>

text \<open>\<open>snprintf\<close> of an unsigned number, and with leading zeros to a width.\<close>

fun nat_text :: "nat \<Rightarrow> string" where
  "nat_text n = (if n < 10 then [char_of (48 + n)] else nat_text (n div 10) @ [char_of (48 + n mod 10)])"

declare nat_text.simps [simp del]

definition padded_text :: "nat \<Rightarrow> nat \<Rightarrow> string" where
  "padded_text width n = replicate (width - length (nat_text n)) (CHR ''0'') @ nat_text n"

definition policy_set_depth_var :: "eval_ctx \<Rightarrow> bool \<times> eval_ctx" where
  "policy_set_depth_var ctx =
     (if policy_levels ctx = [] then (False, ctx)
      else eval_var_set_current ''NOBIFY_POLICY_STACK_DEPTH'' (nat_text (length (policy_levels ctx))) ctx)"

definition fresh_level :: policy_level where
  "fresh_level = (\<lambda>n. POLICY_SLOT_INHERIT)"

definition policy_stack_bootstrap :: "eval_ctx \<Rightarrow> bool \<times> eval_ctx" where
  "policy_stack_bootstrap ctx =
     (if eval_should_stop ctx then (False, ctx)
      else if policy_levels ctx = [] then policy_set_depth_var (ctx\<lparr>policy_levels := [fresh_level]\<rparr>)
      else (True, ctx))"

definition eval_policy_push :: "eval_ctx \<Rightarrow> bool \<times> eval_ctx" where
  "eval_policy_push ctx =
     (if eval_should_stop ctx then (False, ctx)
      else
        (case policy_stack_bootstrap ctx of
           (ok, ctx1) \<Rightarrow>
             if \<not> ok then (False, ctx1)
             else policy_set_depth_var (ctx1\<lparr>policy_levels := fresh_level # policy_levels ctx1\<rparr>)))"

definition eval_policy_pop :: "eval_ctx \<Rightarrow> bool \<times> eval_ctx" where
  "eval_policy_pop ctx =
     (if eval_should_stop ctx then (False, ctx)
      else
        (case policy_stack_bootstrap ctx of
           (ok, ctx1) \<Rightarrow>
             if \<not> ok then (False, ctx1)
             else if length (policy_levels ctx1) \<le> 1 then (False, ctx1)
             else policy_set_depth_var (ctx1\<lparr>policy_levels := tl (policy_levels ctx1)\<rparr>)))"

section \<open>Setting and reading a policy\<close>

text \<open>The slot of a policy in the innermost level.\<close>

definition set_slot :: "nat \<Rightarrow> policy_slot \<Rightarrow> policy_level list \<Rightarrow> policy_level list" where
  "set_slot n slot levels = (case levels of [] \<Rightarrow> [] | l # ls \<Rightarrow> l(n := slot) # ls)"

definition eval_policy_set_status :: "string_view \<Rightarrow> policy_status \<Rightarrow> eval_ctx \<Rightarrow> bool \<times> eval_ctx" where
  "eval_policy_set_status policy_id status ctx =
     (if eval_should_stop ctx then (False, ctx)
      else if \<not> eval_policy_is_known policy_id then (False, ctx)
      else
        (case policy_stack_bootstrap ctx of
           (ok, ctx1) \<Rightarrow>
             if \<not> ok then (False, ctx1)
             else
               (case policy_parse_id_number policy_id of
                  None \<Rightarrow> (False, ctx1)
                | Some n \<Rightarrow>
                    if n > POLICY_KNOWN_MAX_ID then (False, ctx1)
                    else
                      (let ctx2 = ctx1\<lparr>policy_levels := set_slot n (policy_slot_from_status status) (policy_levels ctx1)\<rparr>
                       in eval_var_set_current (''CMAKE_POLICY_CMP'' @ padded_text 4 n) (eval_policy_status_to_sv status) ctx2))))"

definition eval_policy_set :: "string_view \<Rightarrow> string_view \<Rightarrow> eval_ctx \<Rightarrow> bool \<times> eval_ctx" where
  "eval_policy_set policy_id value ctx =
     (let normalized = policy_status_from_sv value in
      if normalized = POLICY_STATUS_UNSET then (False, ctx) else eval_policy_set_status policy_id normalized ctx)"

text \<open>The first level, from the inside, that does not inherit.\<close>

fun find_slot :: "nat \<Rightarrow> policy_level list \<Rightarrow> policy_slot option" where
  "find_slot n [] = None"
| "find_slot n (l # ls) = (if l n = POLICY_SLOT_INHERIT then find_slot n ls else Some (l n))"

definition INT_MAX :: nat where "INT_MAX = 2147483647"

fun semver_accumulate :: "nat \<Rightarrow> string \<Rightarrow> nat option" where
  "semver_accumulate acc [] = Some acc"
| "semver_accumulate acc (c # cs) =
     (if code c < 48 \<or> code c > 57 then None
      else (let acc1 = acc * 10 + (code c - 48) in if acc1 > INT_MAX then None else semver_accumulate acc1 cs))"

definition eval_semver_parse_component :: "string_view \<Rightarrow> nat option" where
  "eval_semver_parse_component sv = (if length sv = 0 then None else semver_accumulate 0 sv)"

function semver_components :: "nat \<Rightarrow> string \<Rightarrow> nat list option" where
  "semver_components used_parts sv =
     (if sv = [] then Some []
      else if used_parts \<ge> 4 then None
      else
        (case eval_semver_parse_component (takeWhile (\<lambda>c. c \<noteq> CHR ''.'') sv) of
           None \<Rightarrow> None
         | Some v \<Rightarrow>
             (case dropWhile (\<lambda>c. c \<noteq> CHR ''.'') sv of
                [] \<Rightarrow> Some [v]
              | p # rest \<Rightarrow>
                  if rest = [] then None
                  else map_option (Cons v) (semver_components (used_parts + 1) rest))))"
  by pat_completeness auto

termination
proof (relation "measure (\<lambda>(n, sv). length sv)", goal_cases)
  case (2 n sv v p rest)
  then show ?case using length_dropWhile_le [of "\<lambda>c. c \<noteq> CHR ''.''" sv] by simp
qed simp

declare semver_components.simps [simp del]

text \<open>Major, minor, patch and tweak; what is not given is zero.\<close>

definition eval_semver_parse_strict :: "string_view \<Rightarrow> (nat \<times> nat \<times> nat \<times> nat) option" where
  "eval_semver_parse_strict version_token =
     (if length version_token = 0 then None
      else
        (case semver_components 0 version_token of
           None \<Rightarrow> None
         | Some vs \<Rightarrow>
             (case vs of
                [a, b] \<Rightarrow> Some (a, b, 0, 0)
              | [a, b, c] \<Rightarrow> Some (a, b, c, 0)
              | [a, b, c, d] \<Rightarrow> Some (a, b, c, d)
              | _ \<Rightarrow> None)))"

definition eval_semver_compare :: "nat \<times> nat \<times> nat \<times> nat \<Rightarrow> nat \<times> nat \<times> nat \<times> nat \<Rightarrow> int" where
  "eval_semver_compare l r =
     (case (l, r) of
        ((a, b, c, d), (e, f, g, h)) \<Rightarrow>
          if a \<noteq> e then (if a < e then - 1 else 1)
          else if b \<noteq> f then (if b < f then - 1 else 1)
          else if c \<noteq> g then (if c < g then - 1 else 1)
          else if d \<noteq> h then (if d < h then - 1 else 1)
          else 0)"

text \<open>The value of a policy that no level sets: its default, or what the policy version implies.\<close>

definition policy_default :: "eval_ctx \<Rightarrow> nat \<Rightarrow> string_view" where
  "policy_default ctx n =
     (let default_key = ''CMAKE_POLICY_DEFAULT_CMP'' @ padded_text 4 n in
      if eval_var_defined_visible ctx default_key then
        eval_policy_status_to_sv (policy_status_from_sv (eval_var_get_visible ctx default_key))
      else
        (case eval_semver_parse_strict (eval_var_get_visible ctx ''CMAKE_POLICY_VERSION'') of
           None \<Rightarrow> []
         | Some cur \<Rightarrow>
             (case policy_get_intro_for_number n of
                None \<Rightarrow> []
              | Some (a, b, c) \<Rightarrow> if eval_semver_compare cur (a, b, c, 0) \<ge> 0 then ''NEW'' else [])))"

definition eval_policy_get_effective :: "string_view \<Rightarrow> eval_ctx \<Rightarrow> string_view \<times> eval_ctx" where
  "eval_policy_get_effective policy_id ctx =
     (if eval_should_stop ctx then ([], ctx)
      else if \<not> eval_policy_is_known policy_id then ([], ctx)
      else
        (case policy_stack_bootstrap ctx of
           (ok, ctx1) \<Rightarrow>
             if \<not> ok then ([], ctx1)
             else
               (case policy_parse_id_number policy_id of
                  None \<Rightarrow> ([], ctx1)
                | Some n \<Rightarrow>
                    if n > POLICY_KNOWN_MAX_ID then ([], ctx1)
                    else
                      ((case find_slot n (policy_levels ctx1) of
                          None \<Rightarrow> policy_default ctx1 n
                        | Some POLICY_SLOT_OLD \<Rightarrow> ''OLD''
                        | Some POLICY_SLOT_NEW \<Rightarrow> ''NEW''
                        | Some _ \<Rightarrow> []), ctx1))))"

definition eval_policy_is_new :: "string_view \<Rightarrow> eval_ctx \<Rightarrow> bool \<times> eval_ctx" where
  "eval_policy_is_new policy_id ctx =
     (case eval_policy_get_effective policy_id ctx of (v, ctx1) \<Rightarrow> (eval_sv_eq_ci_lit v ''NEW'', ctx1))"

end
