(* ===== verification/Eval_Frame.thy ===== *)
theory Eval_Frame
  imports Eval_Policy Eval_Cond Eval_State_Props
begin

text \<open>
  What evaluating arguments and conditions leaves alone: everything \<open>outer_kept\<close> lists and the
  policy levels; and a run that has been stopped stays stopped. When a variable cannot be set
  although there is a scope, the run has been stopped.
\<close>

definition steady :: "eval_ctx \<Rightarrow> eval_ctx \<Rightarrow> bool" where
  "steady ctx ctx' \<longleftrightarrow>
     outer_kept ctx ctx' \<and> policy_levels ctx' = policy_levels ctx \<and> (stop_requested ctx \<longrightarrow> stop_requested ctx')"

lemma steady_refl [simp]: "steady ctx ctx"
  by (simp add: steady_def)

lemma steady_trans [trans]: "steady a b \<Longrightarrow> steady b c \<Longrightarrow> steady a c"
  by (auto simp: steady_def intro: outer_kept_trans)

lemma emit_steady: "steady ctx (snd (eval_emit_diag sev cmd cause ctx))"
  unfolding steady_def
  by (simp add: emit_kept)
    (simp add: eval_emit_diag_def eval_compat_decide_on_diag_def eval_request_stop_on_error_def Let_def eval_should_stop_def)

lemma emit_running: "fst (eval_emit_diag sev cmd cause ctx) = (\<not> stop_requested (snd (eval_emit_diag sev cmd cause ctx)))"
  by (simp add: eval_emit_diag_def Let_def eval_should_stop_def)

lemma store_all_steady: "steady ctx (snd (store_all kvs ctx))"
proof (induction kvs ctx rule: store_all.induct)
  case (2 k v kvs ctx)
  have "can_set ctx \<Longrightarrow> steady ctx (store_current k v ctx)"
    using store_current_kept [of ctx k v] by (simp add: steady_def can_set_def store_current_def)
  then show ?case using 2 steady_trans by auto
qed simp

lemma store_all_failed:
  "\<not> fst (store_all kvs ctx) \<Longrightarrow> scopes ctx \<noteq> [] \<Longrightarrow> stop_requested (snd (store_all kvs ctx))"
proof (induction kvs ctx rule: store_all.induct)
  case (2 k v kvs ctx)
  then show ?case by (cases "can_set ctx") (auto simp: can_set_def eval_should_stop_def store_current_def)
qed simp

lemma flag_steady: "steady ctx (c\<lparr>in_variable_watch_notification := b\<rparr>) = steady ctx c"
  "steady (c\<lparr>in_variable_watch_notification := b\<rparr>) ctx = steady c ctx"
  by (simp_all add: steady_def outer_kept_def)

lemma notify_frame:
  assumes "eval_variable_watch_notify key action value ctx = (ok, ctx')"
  shows "steady ctx ctx'" and "scopes ctx \<noteq> [] \<Longrightarrow> ok \<or> stop_requested ctx'"
proof -
  define up where "up = ctx\<lparr>in_variable_watch_notification := True\<rparr>"
  have all: "steady ctx (snd (store_all kvs up))" for kvs
    using store_all_steady [of up kvs] unfolding up_def by (simp add: flag_steady)
  have emit: "steady ctx (snd (eval_emit_diag sev cmd cause (snd (store_all kvs up))))" for kvs sev cmd cause
    by (rule steady_trans [OF all emit_steady])
  have fail: "\<not> fst (store_all kvs up) \<Longrightarrow> stop_requested (snd (store_all kvs up))" if "scopes ctx \<noteq> []" for kvs
    using store_all_failed [of kvs up] that unfolding up_def by simp
  show "steady ctx ctx'"
    using assms all emit unfolding eval_variable_watch_notify_def Let_def up_def [symmetric]
    by (auto simp: case_prod_beta flag_steady simp del: store_all.simps split: if_splits option.splits)
  show "ok \<or> stop_requested ctx'" if "scopes ctx \<noteq> []"
    using assms unfolding eval_variable_watch_notify_def Let_def up_def [symmetric]
    by (auto simp: case_prod_beta emit_running simp del: store_all.simps split: if_splits option.splits
        dest: fail [OF that])
qed

lemma set_frame:
  assumes "eval_var_set_current key value ctx = (ok, ctx')"
  shows "steady ctx ctx'" and "scopes ctx \<noteq> [] \<Longrightarrow> ok \<or> stop_requested ctx'"
proof -
  have s: "can_set ctx \<Longrightarrow> steady ctx (store_current key value ctx)" "scopes (store_current key value ctx) \<noteq> []"
    using store_current_kept [of ctx key] by (auto simp: steady_def can_set_def store_current_def)
  show "steady ctx ctx'"
    using assms s(1) notify_frame(1) by (auto simp: eval_var_set_current_def split: if_splits intro: steady_trans)
  show "ok \<or> stop_requested ctx'" if "scopes ctx \<noteq> []"
    using assms that notify_frame(2) [OF _ s(2)]
    by (auto simp: eval_var_set_current_def can_set_def eval_should_stop_def split: if_splits)
qed

lemma unset_frame:
  assumes "eval_var_unset_current key ctx = (ok, ctx')"
  shows "steady ctx ctx'"
proof -
  have "can_set ctx \<Longrightarrow> steady ctx (ctx\<lparr>scopes := (hd (scopes ctx))(c_str key := None) # tl (scopes ctx)\<rparr>)"
    by (simp add: steady_def outer_kept_def can_set_def)
  then show ?thesis
    using assms notify_frame(1) by (auto simp: eval_var_unset_current_def Let_def split: if_splits intro: steady_trans)
qed

lemma set_in_order_frame: "set_in_order kvs ctx = (ok, ctx') \<Longrightarrow> steady ctx ctx'"
  by (induction kvs ctx arbitrary: ok ctx' rule: set_in_order.induct)
    (auto split: if_splits prod.splits dest!: set_frame(1) intro: steady_trans)

lemma prepend_snd [simp]: "snd (prepend s r) = snd r"
  by (simp add: prepend_def split: prod.split)

lemma steady_through:
  assumes "q = (x, c)" "steady ctx (snd q)" "steady c c'"
  shows "steady ctx c'"
  using assms steady_trans by simp

lemma expand_frame:
  "steady ctx (snd (scan d cs ctx))"
  "steady ctx (snd (eval_expand_vars_depth d s ctx))"
proof (induction d cs ctx and d s ctx rule: scan_eval_expand_vars_depth.induct)
  case (2 depth c cs ctx)
  define env where "env = (if c = CHR ''$'' \<and> nob_sv_starts_with cs ''ENV{'' then until_brace (drop 4 cs) else None)"
  define ref where "ref = (if c = CHR ''$'' \<and> cs \<noteq> [] \<and> hd cs = CHR ''{'' then close_braces 1 (tl cs) else None)"
  show ?case
  proof (cases "c = CHR 0x5C \<and> cs \<noteq> [] \<and> hd cs = CHR ''$''")
    case True
    then show ?thesis using 2(1) by (simp add: scan.simps)
  next
    case esc: False
    show ?thesis
    proof (cases env)
      case (Some nr)
      then have "\<not> eval_should_stop ctx \<Longrightarrow> steady ctx (snd (scan depth (snd nr) ctx))"
        using 2(5) [OF esc, folded env_def, of nr "fst nr" "snd nr"] by simp
      then show ?thesis using Some
        by (subst scan.simps, subst if_not_P [OF esc]) (simp add: env_def [symmetric] case_prod_beta)
    next
      case none: None
      show ?thesis
      proof (cases ref)
        case None
        then show ?thesis using none 2(2) [OF esc, folded env_def ref_def]
          by (subst scan.simps, subst if_not_P [OF esc]) (simp add: env_def [symmetric] ref_def [symmetric])
      next
        case (Some ir)
        obtain inner rest where ir: "ir = (inner, rest)" by (rule prod.exhaust)
        obtain v c1 where e: "eval_expand_vars_depth (Suc depth) inner ctx = (v, c1)" by (rule prod.exhaust)
        have "steady ctx c1" "steady c1 (snd (scan depth rest c1))"
          using 2(3,4) [OF esc, folded env_def ref_def, OF none Some ir [symmetric]] e by simp_all
        then show ?thesis using none Some ir e steady_trans
          by (subst scan.simps, subst if_not_P [OF esc]) (simp add: env_def [symmetric] ref_def [symmetric])
      qed
    qed
  qed
next
  case (3 depth input ctx)
  then show ?case
    by (subst eval_expand_vars_depth.simps)
      (auto simp: Let_def emit_steady split: prod.split)
qed (simp add: scan.simps)

lemma expand_vars_frame: "eval_expand_vars s ctx = (v, ctx') \<Longrightarrow> steady ctx ctx'"
  using expand_frame(2) [of ctx 0 s] by (simp add: eval_expand_vars_def)

lemma quoted_frame: "eval_resolve_quoted_arg b s ctx = (v, ctx') \<Longrightarrow> steady ctx ctx'"
  by (auto simp: eval_resolve_quoted_arg_def Let_def split: prod.splits if_splits dest: expand_vars_frame)

lemma resolve_loop_frame: "resolve_args_loop ex sp args out ctx = (vals, ctx') \<Longrightarrow> steady ctx ctx'"
proof (induction args arbitrary: out ctx)
  case (Cons a args)
  then show ?case
    by (auto simp: Let_def split: arg_kind.splits prod.splits if_splits
        dest!: quoted_frame expand_vars_frame dest: Cons.IH intro: steady_trans)
qed simp

lemma resolve_frame: "eval_resolve_args_impl ex sp args ctx = (vals, ctx') \<Longrightarrow> steady ctx ctx'"
  by (auto simp: eval_resolve_args_impl_def split: if_splits dest: resolve_loop_frame)

section \<open>Conditions\<close>

definition parser_steady :: "cond_parser \<Rightarrow> bool" where
  "parser_steady pe \<longleftrightarrow> (\<forall>toks ctx. steady ctx (snd (snd (pe toks ctx))))"

lemma parser_steadyD: "parser_steady pe \<Longrightarrow> pe toks ctx = (v, rest, ctx') \<Longrightarrow> steady ctx ctx'"
  by (auto simp: parser_steady_def dest: spec [of _ toks])
    (metis snd_conv)

lemma parser_steadyI: "(\<And>toks ctx v rest ctx'. pe toks ctx = (v, rest, ctx') \<Longrightarrow> steady ctx ctx') \<Longrightarrow> parser_steady pe"
  unfolding parser_steady_def by (metis prod.exhaust_sel)

lemma emit_after: "steady ctx c \<Longrightarrow> steady ctx (snd (eval_emit_diag sev cmd cause c))"
  by (rule steady_trans [OF _ emit_steady])

lemma parse_primary_steady: "parser_steady pe \<Longrightarrow> parser_steady (parse_primary pe)"
  by (rule parser_steadyI)
    (auto simp: parse_primary_def split: list.splits if_splits prod.splits
      dest: parser_steadyD intro: emit_after)

lemma eval_matches_frame: "eval_matches w l r ctx = (v, ctx') \<Longrightarrow> steady ctx ctx'"
  by (auto simp: eval_matches_def eval_set_regex_match_vars_def Let_def simp del: set_in_order.simps
      split: option.splits prod.splits if_splits dest: set_in_order_frame)

lemma compare_op_frame:
  assumes "compare_op w op = Some f"
  shows "f l r ctx = (v, ctx') \<Longrightarrow> steady ctx ctx'"
proof (cases "eval_sv_eq_ci_lit op ''MATCHES'' \<and> f = eval_matches w")
  case True
  then show "f l r ctx = (v, ctx') \<Longrightarrow> steady ctx ctx'" using eval_matches_frame by simp
next
  case False
  have "snd (f l r ctx) = ctx"
    using assms False unfolding compare_op_def
    by (auto split: if_splits)
  then show "f l r ctx = (v, ctx') \<Longrightarrow> steady ctx ctx'" by simp
qed

lemma parse_comparison_steady: "parser_steady (parse_comparison w lhs)"
  by (rule parser_steadyI)
    (auto simp: parse_comparison_def split: list.splits option.splits prod.splits dest: compare_op_frame)

lemma parse_cmp_steady_both:
  assumes pe: "parser_steady pe"
  shows "steady ctx (snd (snd (parse_cmp w pe toks ctx)))"
    and "steady ctx (snd (snd (parse_unary w pe toks ctx)))"
  using pe
proof (induction w pe toks ctx and w pe toks ctx rule: parse_cmp_parse_unary.induct)
  case (2 w pe first rest ctx)
  then show ?case using parse_comparison_steady [of w first] by (simp add: parse_cmp.simps parser_steady_def)
next
  case (4 w pe tok rest ctx)
  then show ?case using parse_primary_steady [of pe]
    by (auto simp: parse_unary.simps parser_steady_def split: prod.split option.split list.split)
qed (simp_all add: parse_cmp.simps parse_unary.simps)

lemma parse_cmp_steady: "parser_steady pe \<Longrightarrow> parser_steady (parse_cmp w pe)"
  using parse_cmp_steady_both(1) by (simp add: parser_steady_def)

lemma and_loop_steady:
  assumes "parser_steady pe" "and_loop w pe n (lhs, toks, ctx) = (v, rest, ctx')"
  shows "steady ctx ctx'"
  using assms(2)
proof (induction n arbitrary: lhs toks ctx)
  case (Suc n)
  then show ?case
    by (auto split: list.splits if_splits prod.splits intro: steady_trans
        dest!: parser_steadyD [OF parse_cmp_steady [OF assms(1)]] Suc.IH)
qed simp

lemma parse_and_steady:
  assumes "parser_steady pe"
  shows "parser_steady (parse_and w pe)"
proof (rule parser_steadyI)
  fix toks ctx v rest ctx'
  assume a: "parse_and w pe toks ctx = (v, rest, ctx')"
  obtain l t c where c: "parse_cmp w pe toks ctx = (l, t, c)" by (rule prod_cases3)
  have "steady c ctx'" using and_loop_steady [OF assms] a c by (simp add: parse_and_def)
  then show "steady ctx ctx'" using parser_steadyD [OF parse_cmp_steady [OF assms] c] by (blast intro: steady_trans)
qed

lemma or_loop_steady:
  assumes "parser_steady pe" "or_loop w pe n (lhs, toks, ctx) = (v, rest, ctx')"
  shows "steady ctx ctx'"
  using assms(2)
proof (induction n arbitrary: lhs toks ctx)
  case (Suc n)
  then show ?case
    by (auto split: list.splits if_splits prod.splits intro: steady_trans
        dest!: parser_steadyD [OF parse_and_steady [OF assms(1)]] Suc.IH)
qed simp

lemma parse_expr_steady: "parser_steady (parse_expr k w)"
proof (induction k)
  case (Suc k)
  show ?case
  proof (rule parser_steadyI)
    fix toks ctx v rest ctx'
    assume a: "parse_expr (Suc k) w toks ctx = (v, rest, ctx')"
    obtain l t c where c: "parse_and w (parse_expr k w) toks ctx = (l, t, c)" by (rule prod_cases3)
    have "steady c ctx'" using or_loop_steady [OF Suc] a c by simp
    then show "steady ctx ctx'" using parser_steadyD [OF parse_and_steady [OF Suc] c] by (blast intro: steady_trans)
  qed
qed (simp add: parser_steady_def)

lemma condition_frame:
  assumes "eval_condition w args ctx = (v, ctx')"
  shows "steady ctx ctx'"
proof -
  obtain toks c1 where r: "eval_resolve_args args ctx = (toks, c1)" by (rule prod.exhaust)
  have s1: "steady ctx c1" using resolve_frame r by (simp add: eval_resolve_args_def)
  obtain u rest c2 where e: "parse_expr (Suc (length toks)) w toks c1 = (u, rest, c2)" by (rule prod_cases3)
  have "steady ctx c2" using steady_trans [OF s1 parser_steadyD [OF parse_expr_steady e]] .
  then show ?thesis using assms r e s1 emit_after
    unfolding eval_condition_def by (auto simp del: parse_expr.simps split: if_splits)
qed

end
