(* ===== verification/Eval_Policy_Props.thy ===== *)
theory Eval_Policy_Props
  imports Eval_Frame
begin

text \<open>
  The policy levels as nested scopes: what is set in a level is what is read there, and popping the
  level brings back every value there was before it was pushed.
\<close>

section \<open>Names\<close>

lemma digit_not_nul: "d < 10 \<Longrightarrow> char_of (48 + d) \<noteq> NUL" for d :: nat
proof
  assume d: "d < 10" and "char_of (48 + d) = NUL"
  from arg_cong [OF this(2), of "of_char :: char \<Rightarrow> nat"] d show False by simp
qed

lemma nat_text_no_nul: "NUL \<notin> set (nat_text n)"
proof (induction n rule: nat_text.induct)
  case (1 n)
  show ?case
  proof (cases "n < 10")
    case True
    then show ?thesis using digit_not_nul [OF True] by (subst nat_text.simps) (simp del: char_of_nat)
  next
    case False
    have "char_of (48 + n mod 10) \<noteq> NUL" by (rule digit_not_nul) simp
    then show ?thesis using False 1 by (subst nat_text.simps) simp
  qed
qed

lemma padded_no_nul: "NUL \<notin> set (padded_text w n)"
  using nat_text_no_nul by (auto simp: padded_text_def)

lemma policy_var_name:
  "c_str (''CMAKE_POLICY_CMP'' @ padded_text 4 n) = ''CMAKE_POLICY_CMP'' @ padded_text 4 n"
  "take 14 (''CMAKE_POLICY_CMP'' @ padded_text 4 n) = ''CMAKE_POLICY_C''"
  using padded_no_nul by (auto intro!: c_str_id)

lemma default_var_name:
  "c_str (''CMAKE_POLICY_DEFAULT_CMP'' @ padded_text 4 n) = ''CMAKE_POLICY_DEFAULT_CMP'' @ padded_text 4 n"
  "take 14 (''CMAKE_POLICY_DEFAULT_CMP'' @ padded_text 4 n) = ''CMAKE_POLICY_D''"
  using padded_no_nul by (auto intro!: c_str_id)

section \<open>Defaults\<close>

text \<open>The variables the defaults are read from.\<close>

definition default_name :: "string_view \<Rightarrow> bool" where
  "default_name j \<longleftrightarrow> j = ''CMAKE_POLICY_VERSION'' \<or> (\<exists>n. j = ''CMAKE_POLICY_DEFAULT_CMP'' @ padded_text 4 n)"

text \<open>The variables the policy operations assign.\<close>

definition policy_name :: "string_view \<Rightarrow> bool" where
  "policy_name k \<longleftrightarrow> k = ''NOBIFY_POLICY_STACK_DEPTH'' \<or> (\<exists>n. k = ''CMAKE_POLICY_CMP'' @ padded_text 4 n)"

lemma default_begins: "default_name j \<Longrightarrow> take 14 (c_str j) = ''CMAKE_POLICY_V'' \<or> take 14 (c_str j) = ''CMAKE_POLICY_D''"
  unfolding default_name_def
proof (elim disjE exE)
  fix n assume "j = ''CMAKE_POLICY_DEFAULT_CMP'' @ padded_text 4 n"
  then show ?thesis using default_var_name [of n] by (simp del: append_Cons)
qed (simp add: c_str_id)

lemma policy_begins: "policy_name k \<Longrightarrow> take 14 (c_str k) = ''NOBIFY_POLICY_'' \<or> take 14 (c_str k) = ''CMAKE_POLICY_C''"
  unfolding policy_name_def
proof (elim disjE exE)
  fix n assume "k = ''CMAKE_POLICY_CMP'' @ padded_text 4 n"
  then show ?thesis using policy_var_name [of n] by (simp del: append_Cons)
qed (simp add: c_str_id)

lemma names_apart: "default_name j \<Longrightarrow> policy_name k \<Longrightarrow> c_str j \<noteq> c_str k"
  using default_begins policy_begins by fastforce

lemma default_not_announced:
  assumes "default_name j"
  shows "\<not> announced j"
proof
  assume "announced j"
  then have "take 22 (c_str j) = ''NOBIFY_VARIABLE_WATCH_''" 
    by (auto simp: announced_def nob_sv_starts_with_def nob_sv_eq_def eval_nat_numeral split: if_splits)
  then have "take 14 (take 22 (c_str j)) = ''NOBIFY_VARIABL''" by simp
  then show False using default_begins [OF assms] by simp
qed

definition same_defaults :: "eval_ctx \<Rightarrow> eval_ctx \<Rightarrow> bool" where
  "same_defaults c c' \<longleftrightarrow> (\<forall>n. policy_default c' n = policy_default c n)"

lemma set_same_defaults:
  assumes "eval_var_set_current k v c = (ok, c')" "policy_name k"
  shows "same_defaults c c'"
proof (cases "can_set c")
  case True
  have find: "scope_find (scopes c') (c_str j) = scope_find (scopes c) (c_str j)" if "default_name j" for j
    using set_find [OF True default_not_announced [OF that], of k v] names_apart [OF that assms(2)] assms(1) by simp
  have ne: "scopes c \<noteq> []" "scopes c' \<noteq> []" "cache_entries c' = cache_entries c"
    using True set_scopes [OF True, of k v] set_kept [of c k v] assms(1) by (auto simp: can_set_def outer_kept_def)
  have "eval_var_get_visible c' j = eval_var_get_visible c j" "eval_var_defined_visible c' j = eval_var_defined_visible c j"
    if "default_name j" for j
    using get_cong [OF ne find [OF that]] find [OF that] ne by (simp_all add: eval_var_defined_visible_def)
  moreover have "default_name (''CMAKE_POLICY_DEFAULT_CMP'' @ padded_text 4 n)" "default_name ''CMAKE_POLICY_VERSION''" for n
    by (auto simp: default_name_def)
  ultimately show ?thesis unfolding same_defaults_def policy_default_def Let_def by simp
next
  case False
  then show ?thesis using assms by (simp add: eval_var_set_current_def same_defaults_def)
qed

lemma policy_default_levels [simp]: "policy_default (d\<lparr>policy_levels := l\<rparr>) n = policy_default d n"
proof -
  have "eval_var_get_visible (d\<lparr>policy_levels := l\<rparr>) = eval_var_get_visible d"
    "eval_var_defined_visible (d\<lparr>policy_levels := l\<rparr>) = eval_var_defined_visible d"
    by (auto simp: fun_eq_iff eval_var_get_visible_def eval_var_defined_visible_def split: option.split)
  then show ?thesis by (simp only: policy_default_def)
qed

lemma same_defaults_levels [simp]: "same_defaults c (d\<lparr>policy_levels := l\<rparr>) = same_defaults c d"
  "same_defaults (d\<lparr>policy_levels := l\<rparr>) c = same_defaults d c"
  by (simp_all add: same_defaults_def)

lemma same_defaults_trans: "same_defaults a b \<Longrightarrow> same_defaults b c \<Longrightarrow> same_defaults a c"
  by (simp add: same_defaults_def)

section \<open>The operations on the levels\<close>

lemma notify_running:
  "eval_variable_watch_notify key action v c = (True, c') \<Longrightarrow> \<not> stop_requested c \<Longrightarrow> \<not> stop_requested c'"
  unfolding eval_variable_watch_notify_def Let_def
  using emit_running
  by (auto simp: case_prod_beta simp del: store_all.simps split: if_splits option.splits)

lemma set_running: "eval_var_set_current k v c = (True, c') \<Longrightarrow> \<not> stop_requested c'"
  by (auto simp: eval_var_set_current_def can_set_def eval_should_stop_def store_current_def split: if_splits
      dest: notify_running)

text \<open>A state in which the levels are at hand, and the stack of levels it has.\<close>

definition levels_of :: "eval_ctx \<Rightarrow> policy_level list" where
  "levels_of c = (if policy_levels c = [] then [fresh_level] else policy_levels c)"

lemma depth_var_ok:
  assumes "policy_set_depth_var c = (True, c')"
  shows "policy_levels c' = policy_levels c" "\<not> stop_requested c'" "same_defaults c c'" "policy_levels c \<noteq> []"
  using assms set_running set_frame(1) set_same_defaults
  by (auto simp: policy_set_depth_var_def policy_name_def steady_def split: if_splits)

lemma bootstrap_ok:
  assumes "policy_stack_bootstrap c = (True, b)"
  shows "policy_levels b = levels_of c" "\<not> stop_requested b" "same_defaults c b" "policy_levels b \<noteq> []"
  using assms depth_var_ok [of "c\<lparr>policy_levels := [fresh_level]\<rparr>" b]
  by (auto simp: policy_stack_bootstrap_def levels_of_def eval_should_stop_def same_defaults_def split: if_splits)

lemma push_ok:
  assumes "eval_policy_push c = (True, c')"
  shows "\<exists>b. policy_stack_bootstrap c = (True, b)" "policy_levels c' = fresh_level # levels_of c"
    "\<not> stop_requested c'" "same_defaults c c'"
proof -
  obtain b where b: "policy_stack_bootstrap c = (True, b)"
    "policy_set_depth_var (b\<lparr>policy_levels := fresh_level # policy_levels b\<rparr>) = (True, c')"
    using assms by (auto simp: eval_policy_push_def split: if_splits prod.splits)
  show "\<exists>b. policy_stack_bootstrap c = (True, b)" "policy_levels c' = fresh_level # levels_of c"
    "\<not> stop_requested c'" "same_defaults c c'"
    using b bootstrap_ok [OF b(1)] depth_var_ok [OF b(2)] same_defaults_trans by auto
qed

lemma bootstrap_done: "policy_levels c \<noteq> [] \<Longrightarrow> \<not> stop_requested c \<Longrightarrow> policy_stack_bootstrap c = (True, c)"
  by (simp add: policy_stack_bootstrap_def eval_should_stop_def)

lemma set_status_ok:
  assumes "eval_policy_set_status pol st c = (True, c')" "policy_levels c \<noteq> []"
  shows "\<exists>n. policy_parse_id_number pol = Some n \<and> n \<le> POLICY_KNOWN_MAX_ID \<and> eval_policy_is_known pol \<and>
      policy_levels c' = set_slot n (policy_slot_from_status st) (policy_levels c)"
    "\<not> stop_requested c'" "same_defaults c c'"
proof -
  have run: "\<not> stop_requested c" "eval_policy_is_known pol"
    using assms(1) by (auto simp: eval_policy_set_status_def eval_should_stop_def split: if_splits)
  obtain n where n: "policy_parse_id_number pol = Some n" "n \<le> POLICY_KNOWN_MAX_ID"
    and set: "eval_var_set_current (''CMAKE_POLICY_CMP'' @ padded_text 4 n) (eval_policy_status_to_sv st)
      (c\<lparr>policy_levels := set_slot n (policy_slot_from_status st) (policy_levels c)\<rparr>) = (True, c')"
    using assms(1) run bootstrap_done [OF assms(2) run(1)]
    by (auto simp: eval_policy_set_status_def Let_def split: if_splits option.splits)
  have "policy_name (''CMAKE_POLICY_CMP'' @ padded_text 4 n)" by (auto simp: policy_name_def)
  then show "\<exists>n. policy_parse_id_number pol = Some n \<and> n \<le> POLICY_KNOWN_MAX_ID \<and> eval_policy_is_known pol \<and>
      policy_levels c' = set_slot n (policy_slot_from_status st) (policy_levels c)"
    "\<not> stop_requested c'" "same_defaults c c'"
    using n run set_frame(1) [OF set] set_running [OF set] set_same_defaults [OF set] by (auto simp: steady_def)
qed

lemma pop_ok:
  assumes "eval_policy_pop c = (True, c')" "policy_levels c \<noteq> []"
  shows "policy_levels c' = tl (policy_levels c)" "\<not> stop_requested c'" "same_defaults c c'" "policy_levels c' \<noteq> []"
proof -
  have "\<not> stop_requested c" using assms(1) by (auto simp: eval_policy_pop_def eval_should_stop_def split: if_splits)
  then have "policy_set_depth_var (c\<lparr>policy_levels := tl (policy_levels c)\<rparr>) = (True, c')"
    using assms bootstrap_done by (auto simp: eval_policy_pop_def split: if_splits)
  from depth_var_ok [OF this]
  show "policy_levels c' = tl (policy_levels c)" "\<not> stop_requested c'" "same_defaults c c'" "policy_levels c' \<noteq> []"
    by simp_all
qed

section \<open>Levels as scopes\<close>

text \<open>What is read in a state, in terms of its levels.\<close>

definition level_value :: "policy_level list \<Rightarrow> eval_ctx \<Rightarrow> string_view \<Rightarrow> string_view" where
  "level_value ls c q =
     (if \<not> eval_policy_is_known q then []
      else (case policy_parse_id_number q of
              None \<Rightarrow> []
            | Some n \<Rightarrow> if n > POLICY_KNOWN_MAX_ID then []
                else (case find_slot n ls of
                        None \<Rightarrow> policy_default c n
                      | Some POLICY_SLOT_OLD \<Rightarrow> ''OLD''
                      | Some POLICY_SLOT_NEW \<Rightarrow> ''NEW''
                      | Some _ \<Rightarrow> [])))"

lemma effective_value:
  assumes "policy_stack_bootstrap c = (True, b)"
  shows "fst (eval_policy_get_effective q c) = level_value (levels_of c) c q"
proof -
  have run: "\<not> eval_should_stop c" using assms by (auto simp: policy_stack_bootstrap_def)
  have "policy_default b n = policy_default c n" for n using bootstrap_ok(3) [OF assms] by (simp add: same_defaults_def)
  then show ?thesis
    using assms run bootstrap_ok(1) [OF assms]
    by (simp add: eval_policy_get_effective_def level_value_def split: option.split)
qed

lemma level_value_same: "same_defaults c c' \<Longrightarrow> level_value ls c' q = level_value ls c q"
  by (simp only: level_value_def same_defaults_def)

text \<open>
  C26. A policy level is a scope. After a push, setting a policy makes that its effective value; and
  popping the level brings back, for every policy, the value it had before the push.
\<close>

theorem policy_level_scope:
  assumes "eval_policy_push ctx = (True, c1)" and "eval_policy_set pol v c1 = (True, c2)"
    and "eval_policy_pop c2 = (True, c3)"
  shows "fst (eval_policy_get_effective pol c2) = eval_policy_status_to_sv (policy_status_from_sv v)
    \<and> fst (eval_policy_get_effective q c3) = fst (eval_policy_get_effective q ctx)"
proof -
  define st where "st = policy_status_from_sv v"
  have st: "st = POLICY_STATUS_OLD \<or> st = POLICY_STATUS_NEW" and set: "eval_policy_set_status pol st c1 = (True, c2)"
    using assms(2) by (cases st; simp add: eval_policy_set_def st_def Let_def)+
  obtain b where b: "policy_stack_bootstrap ctx = (True, b)" using push_ok(1) [OF assms(1)] by blast
  note p = push_ok(2,3,4) [OF assms(1)]
  have ne1: "policy_levels c1 \<noteq> []" using p(1) by simp
  obtain n where n: "policy_parse_id_number pol = Some n" "n \<le> POLICY_KNOWN_MAX_ID" "eval_policy_is_known pol"
    "policy_levels c2 = set_slot n (policy_slot_from_status st) (policy_levels c1)"
    using set_status_ok(1) [OF set ne1] by blast
  note s = set_status_ok(2,3) [OF set ne1]
  have l2: "policy_levels c2 = fresh_level(n := policy_slot_from_status st) # levels_of ctx"
    using n(4) p(1) by (simp add: set_slot_def)
  then have ne2: "policy_levels c2 \<noteq> []" by simp
  note o = pop_ok [OF assms(3) ne2]
  have "fst (eval_policy_get_effective pol c2) = level_value (policy_levels c2) c2 pol"
    using effective_value [OF bootstrap_done [OF ne2 s(1)]] ne2 by (simp add: levels_of_def)
  also have "\<dots> = eval_policy_status_to_sv st"
    using st n(1,2,3) l2 by (auto simp: level_value_def eval_policy_status_to_sv_def policy_slot_from_status_def)
  finally have "fst (eval_policy_get_effective pol c2) = eval_policy_status_to_sv st" .
  moreover have "fst (eval_policy_get_effective q c3) = level_value (levels_of ctx) c3 q"
    using effective_value [OF bootstrap_done [OF o(4,2)]] o(1,4) l2 by (simp add: levels_of_def)
  moreover have "same_defaults ctx c3" using p(3) s(2) o(3) same_defaults_trans by blast
  ultimately show ?thesis using effective_value [OF b] level_value_same unfolding st_def by simp
qed

lemma policy_level_scope_witness:
  "\<exists>c1 c2 c3. eval_policy_push (one_scope Map.empty) = (True, c1) \<and> eval_policy_set ''CMP0054'' ''old'' c1 = (True, c2) \<and>
     eval_policy_pop c2 = (True, c3) \<and> fst (eval_policy_get_effective ''CMP0054'' c2) = ''OLD'' \<and>
     fst (eval_policy_get_effective ''CMP0054'' c3) = fst (eval_policy_get_effective ''CMP0054'' (one_scope Map.empty))"
proof -
  let ?r1 = "eval_policy_push (one_scope Map.empty)"
  let ?r2 = "eval_policy_set ''CMP0054'' ''old'' (snd ?r1)"
  let ?r3 = "eval_policy_pop (snd ?r2)"
  have "fst ?r1" by code_simp
  moreover have "fst ?r2" by code_simp
  moreover have "fst ?r3" by code_simp
  ultimately have r: "?r1 = (True, snd ?r1)" "?r2 = (True, snd ?r2)" "?r3 = (True, snd ?r3)"
    by (simp_all only: prod_eq_iff fst_conv snd_conv)
  have "eval_policy_status_to_sv (policy_status_from_sv ''old'') = ''OLD''" by code_simp
  with policy_level_scope [OF r, of "''CMP0054''"] r show ?thesis by metis
qed

end
