(* ===== verification/Eval_Exec.thy ===== *)
theory Eval_Exec
  imports Eval_Policy Eval_Cond
begin

text \<open>
  The state a script runs in, and the commands that steer it. Execution frames (files, functions,
  macros, blocks) with the loop depth and the pending signal of each, block frames, the commands a
  script defines, the event stream and the transactions around commands, from
  \<open>src_v2/evaluator/evaluator.c\<close>; \<open>break\<close>, \<open>continue\<close>, \<open>return\<close>, \<open>block\<close> and \<open>endblock\<close> from
  \<open>eval_flow_block.c\<close>.

  The array of execution frames is kept whole, with the number of frames in use: a loop holds on to
  the index of its frame, and reads there even when the frame has been popped meanwhile. The
  directories and the file name of a frame are left out. \<open>'sem\<close> is what else commands change.
\<close>

section \<open>State\<close>

datatype eval_result = EVAL_RESULT_OK | EVAL_RESULT_SOFT_ERROR | EVAL_RESULT_FATAL

datatype flow_signal = EVAL_FLOW_NONE | EVAL_FLOW_BREAK | EVAL_FLOW_CONTINUE | EVAL_FLOW_RETURN

datatype exec_kind =
    EVAL_EXEC_CTX_ROOT | EVAL_EXEC_CTX_INCLUDE | EVAL_EXEC_CTX_SUBDIRECTORY | EVAL_EXEC_CTX_FUNCTION
  | EVAL_EXEC_CTX_MACRO | EVAL_EXEC_CTX_BLOCK | EVAL_EXEC_CTX_DEFERRED

record exec_frame =
  frame_kind :: exec_kind
  loop_depth :: nat
  pending_flow :: flow_signal

record block_frame =
  variable_scope_pushed :: bool
  policy_scope_pushed :: bool
  propagate_vars :: "string_view list"
  propagate_on_return :: bool

datatype user_kind = USER_CMD_FUNCTION | USER_CMD_MACRO

record user_command =
  uc_name :: string_view
  uc_kind :: user_kind
  uc_params :: "string_view list"
  uc_body :: "node list"

datatype dispatch_kind =
    EVENT_COMMAND_DISPATCH_BUILTIN | EVENT_COMMAND_DISPATCH_FUNCTION
  | EVENT_COMMAND_DISPATCH_MACRO | EVENT_COMMAND_DISPATCH_UNKNOWN

datatype command_status = EVENT_COMMAND_STATUS_SUCCESS | EVENT_COMMAND_STATUS_ERROR | EVENT_COMMAND_STATUS_UNSUPPORTED

datatype list_event =
    EVENT_LIST_APPEND | EVENT_LIST_PREPEND | EVENT_LIST_INSERT | EVENT_LIST_REMOVE | EVENT_LIST_TRANSFORM
  | EVENT_LIST_SORT

text \<open>
  The events of control flow, of \<open>list\<close> and of \<open>math\<close>; \<open>Event_Other\<close> stands for those of the other
  commands.
\<close>

datatype event =
    Event_Command_Begin string_view dispatch_kind nat
  | Event_Command_End string_view dispatch_kind nat command_status
  | Event_If_Eval bool
  | Event_Branch_Taken string_view
  | Event_Loop_Begin string_view
  | Event_Loop_End string_view nat
  | Event_Break nat
  | Event_Continue nat
  | Event_Block_Begin bool bool bool
  | Event_Block_End bool bool
  | Event_Function_Begin string_view nat
  | Event_Function_End string_view bool
  | Event_Macro_Begin string_view nat
  | Event_Macro_End string_view bool
  | Event_List list_event string_view
  | Event_Math_Expr string_view string_view
  | Event_Other string_view

text \<open>
  A transaction: the events it holds back, and whether the variables are to survive a failure. The
  copies of the state it takes at the beginning are the state before, which the functions at its end
  are given.
\<close>

record transaction =
  held_events :: "event list"
  preserve_scope_vars_on_failure :: bool

text \<open>
  Block frames and commands are listed from the last to the first, the transactions from the
  innermost (the active one) outwards.
\<close>

record 'sem interp =
  ev :: eval_ctx
  exec_contexts :: "exec_frame list"
  exec_depth :: nat
  block_frames :: "block_frame list"
  return_propagate_vars :: "string_view list"
  commands :: "user_command list"
  stream :: "event list"
  transactions :: "transaction list"
  semantic :: 'sem

text \<open>An operation on the variables and diagnostics, as an operation on the whole state.\<close>

definition on_ev :: "(eval_ctx \<Rightarrow> 'a \<times> eval_ctx) \<Rightarrow> 'sem interp \<Rightarrow> 'a \<times> 'sem interp" where
  "on_ev f s = (case f (ev s) of (r, c) \<Rightarrow> (r, s\<lparr>ev := c\<rparr>))"

definition stopped :: "'sem interp \<Rightarrow> bool" where
  "stopped s = eval_should_stop (ev s)"

text \<open>A diagnostic of error severity from the flow commands, its result dropped.\<close>

definition flow_error :: "string_view \<Rightarrow> string \<Rightarrow> 'sem interp \<Rightarrow> 'sem interp" where
  "flow_error command cause s = snd (on_ev (eval_emit_diag DIAG_SEV_ERROR command cause) s)"

definition eval_result_merge :: "eval_result \<Rightarrow> eval_result \<Rightarrow> eval_result" where
  "eval_result_merge lhs rhs =
     (case (lhs, rhs) of
        (EVAL_RESULT_OK, _) \<Rightarrow> rhs
      | (EVAL_RESULT_SOFT_ERROR, EVAL_RESULT_FATAL) \<Rightarrow> rhs
      | _ \<Rightarrow> lhs)"

definition eval_result_from_ctx :: "'sem interp \<Rightarrow> eval_result" where
  "eval_result_from_ctx s =
     (if stopped s then EVAL_RESULT_FATAL
      else if error_total (ev s) > 0 then EVAL_RESULT_SOFT_ERROR else EVAL_RESULT_OK)"

definition eval_result_ok_if_running :: "'sem interp \<Rightarrow> eval_result" where
  "eval_result_ok_if_running s = (if stopped s then EVAL_RESULT_FATAL else EVAL_RESULT_OK)"

section \<open>Events and transactions\<close>

definition u32 :: "nat \<Rightarrow> nat" where
  "u32 n = n mod 2 ^ 32"

definition eval_emit_event_direct :: "event \<Rightarrow> 'sem interp \<Rightarrow> 'sem interp" where
  "eval_emit_event_direct e s = s\<lparr>stream := stream s @ [e]\<rparr>"

definition emits_immediately :: "event \<Rightarrow> bool" where
  "emits_immediately e = (case e of Event_Command_Begin _ _ _ \<Rightarrow> True | _ \<Rightarrow> False)"

definition eval_command_tx_push_event :: "bool \<Rightarrow> event \<Rightarrow> 'sem interp \<Rightarrow> bool \<times> 'sem interp" where
  "eval_command_tx_push_event allow_stopped e s =
     (if \<not> allow_stopped \<and> stopped s then (False, s)
      else (True,
        (case transactions s of
           [] \<Rightarrow> eval_emit_event_direct e s
         | t # ts \<Rightarrow>
             if emits_immediately e then eval_emit_event_direct e s
             else s\<lparr>transactions := t\<lparr>held_events := held_events t @ [e]\<rparr> # ts\<rparr>)))"

definition emit_event :: "event \<Rightarrow> 'sem interp \<Rightarrow> bool \<times> 'sem interp" where
  "emit_event e s = eval_command_tx_push_event False e s"

definition eval_emit_command_end ::
  "string_view \<Rightarrow> dispatch_kind \<Rightarrow> nat \<Rightarrow> command_status \<Rightarrow> 'sem interp \<Rightarrow> bool \<times> 'sem interp" where
  "eval_emit_command_end name kind argc status s =
     eval_command_tx_push_event True (Event_Command_End name kind argc status) s"

definition keep_on_failure :: "event \<Rightarrow> bool" where
  "keep_on_failure e =
     (case e of Event_Command_Begin _ _ _ \<Rightarrow> True | Event_Command_End _ _ _ _ \<Rightarrow> True | _ \<Rightarrow> False)"

definition eval_command_tx_begin :: "'sem interp \<Rightarrow> 'sem interp" where
  "eval_command_tx_begin s =
     s\<lparr>transactions := \<lparr>held_events = [], preserve_scope_vars_on_failure = False\<rparr> # transactions s\<rparr>"

text \<open>What a command calls whose changes to the variables are to survive its failure.\<close>

definition eval_command_tx_preserve_scope_vars_on_failure :: "'sem interp \<Rightarrow> 'sem interp" where
  "eval_command_tx_preserve_scope_vars_on_failure s =
     (case transactions s of
        [] \<Rightarrow> s
      | t # ts \<Rightarrow> s\<lparr>transactions := t\<lparr>preserve_scope_vars_on_failure := True\<rparr> # ts\<rparr>)"

text \<open>
  The scopes as many as before: surplus ones are dropped, missing ones are empty. \<open>before\<close> is the
  state at the beginning, which the code copies table by table.
\<close>

definition scopes_to_depth :: "nat \<Rightarrow> (string \<rightharpoonup> string_view) list \<Rightarrow> (string \<rightharpoonup> string_view) list" where
  "scopes_to_depth n ss =
     (if length ss \<ge> n then drop (length ss - n) ss else replicate (n - length ss) Map.empty @ ss)"

definition restore_state :: "bool \<Rightarrow> 'sem interp \<Rightarrow> 'sem interp \<Rightarrow> 'sem interp" where
  "restore_state preserve_scope_vars before s =
     (let b = ev before; c = ev s in
      s\<lparr>ev := c\<lparr>scopes := (if preserve_scope_vars then scopes_to_depth (length (scopes b)) (scopes c) else scopes b),
                cache_entries := cache_entries b,
                env_overrides := env_overrides b,
                watched_variables := watched_variables b,
                watched_variable_commands := watched_variable_commands b\<rparr>,
        commands := commands before,
        semantic := semantic before\<rparr>)"

definition eval_command_tx_finish :: "'sem interp \<Rightarrow> bool \<Rightarrow> 'sem interp \<Rightarrow> 'sem interp" where
  "eval_command_tx_finish before commit_state s =
     (case transactions s of
        [] \<Rightarrow> s
      | t # ts \<Rightarrow>
          (let s1 = (if commit_state then s else restore_state (preserve_scope_vars_on_failure t) before s);
               kept = (if commit_state then held_events t else filter keep_on_failure (held_events t))
           in s1\<lparr>stream := stream s1 @ kept, transactions := ts\<rparr>))"

section \<open>Execution frames\<close>

definition eval_exec_current :: "'sem interp \<Rightarrow> exec_frame option" where
  "eval_exec_current s = (if exec_depth s = 0 then None else Some (exec_contexts s ! (exec_depth s - 1)))"

definition update_frame :: "nat \<Rightarrow> (exec_frame \<Rightarrow> exec_frame) \<Rightarrow> 'sem interp \<Rightarrow> 'sem interp" where
  "update_frame i f s = s\<lparr>exec_contexts := (exec_contexts s)[i := f (exec_contexts s ! i)]\<rparr>"

definition new_frame :: "exec_kind \<Rightarrow> exec_frame" where
  "new_frame k = \<lparr>frame_kind = k, loop_depth = 0, pending_flow = EVAL_FLOW_NONE\<rparr>"

definition eval_exec_push :: "exec_frame \<Rightarrow> 'sem interp \<Rightarrow> 'sem interp" where
  "eval_exec_push frame s =
     (let n = exec_depth s in
      s\<lparr>exec_contexts := (if n < length (exec_contexts s) then (exec_contexts s)[n := frame] else exec_contexts s @ [frame]),
        exec_depth := n + 1\<rparr>)"

definition eval_exec_pop :: "'sem interp \<Rightarrow> 'sem interp" where
  "eval_exec_pop s = (if exec_depth s = 0 then s else s\<lparr>exec_depth := exec_depth s - 1\<rparr>)"

text \<open>The innermost frame, below a number of frames, that is inside a loop.\<close>

fun loop_target_below :: "exec_frame list \<Rightarrow> nat \<Rightarrow> nat option" where
  "loop_target_below fs 0 = None"
| "loop_target_below fs (Suc i) = (if loop_depth (fs ! i) > 0 then Some i else loop_target_below fs i)"

definition eval_exec_find_loop_target :: "'sem interp \<Rightarrow> nat option" where
  "eval_exec_find_loop_target s = loop_target_below (exec_contexts s) (exec_depth s)"

definition request_in_loop :: "flow_signal \<Rightarrow> 'sem interp \<Rightarrow> bool \<times> 'sem interp" where
  "request_in_loop sig s =
     (case eval_exec_find_loop_target s of
        None \<Rightarrow> (False, s)
      | Some i \<Rightarrow> (True, update_frame i (\<lambda>f. f\<lparr>pending_flow := sig\<rparr>) s))"

definition eval_exec_request_break :: "'sem interp \<Rightarrow> bool \<times> 'sem interp" where
  "eval_exec_request_break s = request_in_loop EVAL_FLOW_BREAK s"

definition eval_exec_request_continue :: "'sem interp \<Rightarrow> bool \<times> 'sem interp" where
  "eval_exec_request_continue s = request_in_loop EVAL_FLOW_CONTINUE s"

text \<open>A return marks the blocks on top and the frame around them.\<close>

fun return_below :: "nat \<Rightarrow> exec_frame list \<Rightarrow> exec_frame list" where
  "return_below 0 fs = fs"
| "return_below (Suc i) fs =
     (let fs1 = fs[i := (fs ! i)\<lparr>pending_flow := EVAL_FLOW_RETURN\<rparr>] in
      if frame_kind (fs ! i) \<noteq> EVAL_EXEC_CTX_BLOCK then fs1 else return_below i fs1)"

definition eval_exec_request_return :: "'sem interp \<Rightarrow> bool \<times> 'sem interp" where
  "eval_exec_request_return s =
     (if exec_depth s = 0 then (False, s)
      else (True, s\<lparr>exec_contexts := return_below (exec_depth s) (exec_contexts s)\<rparr>))"

definition eval_exec_pending_flow :: "'sem interp \<Rightarrow> flow_signal" where
  "eval_exec_pending_flow s =
     (case eval_exec_current s of Some f \<Rightarrow> pending_flow f | None \<Rightarrow> EVAL_FLOW_NONE)"

definition eval_exec_current_loop_depth :: "'sem interp \<Rightarrow> nat" where
  "eval_exec_current_loop_depth s =
     (case eval_exec_find_loop_target s of Some i \<Rightarrow> loop_depth (exec_contexts s ! i) | None \<Rightarrow> 0)"

definition eval_clear_return_state :: "'sem interp \<Rightarrow> 'sem interp" where
  "eval_clear_return_state s =
     (let s1 = (case eval_exec_current s of
                  None \<Rightarrow> s
                | Some f \<Rightarrow>
                    if pending_flow f = EVAL_FLOW_RETURN
                    then update_frame (exec_depth s - 1) (\<lambda>f. f\<lparr>pending_flow := EVAL_FLOW_NONE\<rparr>) s else s)
      in s1\<lparr>return_propagate_vars := []\<rparr>)"

section \<open>Blocks\<close>

fun block_depth_below :: "exec_frame list \<Rightarrow> nat \<Rightarrow> nat" where
  "block_depth_below fs 0 = 0"
| "block_depth_below fs (Suc i) =
     (if frame_kind (fs ! i) \<noteq> EVAL_EXEC_CTX_BLOCK then 0 else block_depth_below fs i + 1)"

definition block_active_exec_depth :: "'sem interp \<Rightarrow> nat" where
  "block_active_exec_depth s = block_depth_below (exec_contexts s) (exec_depth s)"

definition blank_block_frame :: block_frame where
  "blank_block_frame =
     \<lparr>variable_scope_pushed = False, policy_scope_pushed = False, propagate_vars = [], propagate_on_return = False\<rparr>"

text \<open>The words behind \<open>SCOPE_FOR\<close>: the frame, whether there was one, and the arguments left.\<close>

fun scope_for_items :: "string_view list \<Rightarrow> block_frame \<Rightarrow> bool \<Rightarrow> block_frame \<times> bool \<times> string_view list" where
  "scope_for_items [] frame has_item = (frame, has_item, [])"
| "scope_for_items (a # args) frame has_item =
     (if eval_sv_eq_ci_lit a ''VARIABLES'' then scope_for_items args (frame\<lparr>variable_scope_pushed := True\<rparr>) True
      else if eval_sv_eq_ci_lit a ''POLICIES'' then scope_for_items args (frame\<lparr>policy_scope_pushed := True\<rparr>) True
      else (frame, has_item, a # args))"

text \<open>
  The frame an option list describes. On an error the frame is left blank; the result says
  whether the command goes on.
\<close>

definition block_option_error :: "string_view \<Rightarrow> string \<Rightarrow> 'sem interp \<Rightarrow> bool \<times> block_frame \<times> 'sem interp" where
  "block_option_error name cause s =
     (let s1 = flow_error name cause s in (\<not> stopped s1, blank_block_frame, s1))"

definition block_parse_options ::
  "string_view \<Rightarrow> string_view list \<Rightarrow> 'sem interp \<Rightarrow> bool \<times> block_frame \<times> 'sem interp" where
  "block_parse_options name args s =
     (let frame0 = blank_block_frame\<lparr>variable_scope_pushed := True, policy_scope_pushed := True\<rparr>;
          scoped = (args \<noteq> [] \<and> eval_sv_eq_ci_lit (hd args) ''SCOPE_FOR'')
      in case (if scoped then scope_for_items (tl args) blank_block_frame False else (frame0, True, args)) of
           (frame, has_item, rest) \<Rightarrow>
             if \<not> has_item then
               block_option_error name ''block(SCOPE_FOR ...) requires VARIABLES and/or POLICIES'' s
             else if rest \<noteq> [] \<and> eval_sv_eq_ci_lit (hd rest) ''PROPAGATE'' then
               (if tl rest = [] then
                  block_option_error name ''block(PROPAGATE ...) requires at least one variable name'' s
                else if \<not> variable_scope_pushed frame then
                  block_option_error name ''block(PROPAGATE ...) requires variable scope'' s
                else (True, frame\<lparr>propagate_vars := map sv_copy_to_arena (tl rest)\<rparr>, s))
             else if rest \<noteq> [] then
               block_option_error name ''block() received unsupported argument'' s
             else (True, frame, s))"

text \<open>Running with the innermost scope hidden, which is there again afterwards.\<close>

definition in_parent_view :: "(eval_ctx \<Rightarrow> 'a \<times> eval_ctx) \<Rightarrow> eval_ctx \<Rightarrow> 'a \<times> eval_ctx" where
  "in_parent_view f ctx =
     (case f (ctx\<lparr>scopes := tl (scopes ctx)\<rparr>) of (r, c) \<Rightarrow> (r, c\<lparr>scopes := hd (scopes ctx) # scopes c\<rparr>))"

fun propagate_all :: "string_view list \<Rightarrow> eval_ctx \<Rightarrow> bool \<times> eval_ctx" where
  "propagate_all [] ctx = (True, ctx)"
| "propagate_all (key # keys) ctx =
     (if \<not> eval_var_defined_current ctx key then propagate_all keys ctx
      else
        (case in_parent_view (eval_var_set_current key (eval_var_get_visible ctx key)) ctx of
           (ok, ctx1) \<Rightarrow> if ok then propagate_all keys ctx1 else (False, ctx1)))"

definition block_propagate_to_parent_scope :: "block_frame \<Rightarrow> eval_ctx \<Rightarrow> bool \<times> eval_ctx" where
  "block_propagate_to_parent_scope frame ctx =
     (if propagate_vars frame = [] \<or> \<not> variable_scope_pushed frame \<or> length (scopes ctx) \<le> 1 then (True, ctx)
      else propagate_all (propagate_vars frame) ctx)"

text \<open>Leaving a block: the frame that ended, blank when there was none.\<close>

definition block_pop_frame :: "string_view \<Rightarrow> bool \<Rightarrow> 'sem interp \<Rightarrow> bool \<times> block_frame \<times> 'sem interp" where
  "block_pop_frame name for_return s =
     (case block_frames s of
        [] \<Rightarrow> (True, blank_block_frame, s)
      | frame # frames \<Rightarrow>
          if map_option frame_kind (eval_exec_current s) \<noteq> Some EVAL_EXEC_CTX_BLOCK then
            (False, blank_block_frame, flow_error name ''block() frame mismatch across execution contexts'' s)
          else
            (let s1 = s\<lparr>block_frames := frames\<rparr>;
                 vars = (if for_return \<and> return_propagate_vars s1 \<noteq> [] then return_propagate_vars s1 else propagate_vars frame)
             in case (if \<not> for_return \<or> propagate_on_return frame
                      then on_ev (block_propagate_to_parent_scope (frame\<lparr>propagate_vars := vars\<rparr>)) s1
                      else (True, s1)) of
                  (ok, s2) \<Rightarrow>
                    if \<not> ok then (False, frame, s2)
                    else
                      (case (if policy_scope_pushed frame then on_ev eval_policy_pop s2 else (True, s2)) of
                         (popped, s3) \<Rightarrow>
                           if \<not> popped then (False, frame, flow_error name ''Failed to restore policy scope'' s3)
                           else
                             (let s4 = (if variable_scope_pushed frame then s3\<lparr>ev := eval_scope_pop (ev s3)\<rparr> else s3)
                              in (True, frame, eval_exec_pop s4)))))"

text \<open>
  Leaving all blocks on a return. The loop goes on as long as blocks are on top of the frames,
  so it is a partial function: \<open>None\<close> when it does not end.
\<close>

partial_function (option) eval_unwind_blocks_for_return :: "'sem interp \<Rightarrow> (bool \<times> 'sem interp) option" where
  "eval_unwind_blocks_for_return s =
     (if block_active_exec_depth s = 0 then Some (True, s)
      else
        (case block_pop_frame ''return'' True s of
           (ok, ended, s1) \<Rightarrow>
             if \<not> ok then Some (False, s1)
             else
               (case emit_event (Event_Block_End (propagate_on_return ended) (propagate_vars ended \<noteq> [])) s1 of
                  (ok1, s2) \<Rightarrow> if ok1 then eval_unwind_blocks_for_return s2 else Some (False, s2))))"

declare eval_unwind_blocks_for_return.simps [code]

end
