(* ===== verification/Eval_Run.thy ===== *)
theory Eval_Run
  imports Eval_Exec
begin

text \<open>
  Running a script: \<open>eval_execute_node_list\<close> and what it calls in
  \<open>src_v2/evaluator/eval_exec_core.c\<close>, the flow commands of \<open>eval_flow_block.c\<close>, the commands a
  script defines (\<open>eval_user_command.c\<close>), the dispatcher (\<open>eval_dispatcher.c\<close>) and the reading of
  the compatibility variables (\<open>eval_compat.c\<close>).

  The code is mutually recursive through the bodies of commands, loops and conditionals. Each
  function here takes the runner of node lists it calls as an argument; \<open>eval_run\<close> ties the knot,
  with a number that bounds the nesting of such calls. \<open>None\<close> means that the number was too small,
  or that the run does not end.
\<close>

section \<open>Results of diagnostics\<close>

definition eval_diag_effective_input_severity :: "bool \<Rightarrow> eval_ctx \<Rightarrow> diag_severity \<Rightarrow> diag_severity" where
  "eval_diag_effective_input_severity counts_as_unsupported ctx sev =
     (let out = eval_compat_effective_severity ctx sev in
      if out = DIAG_SEV_WARNING \<and> counts_as_unsupported \<and> unsupported ctx = EVAL_UNSUPPORTED_ERROR
      then DIAG_SEV_ERROR else out)"

definition eval_emit_diag_result ::
  "bool \<Rightarrow> diag_severity \<Rightarrow> string \<Rightarrow> string \<Rightarrow> eval_ctx \<Rightarrow> eval_result \<times> eval_ctx" where
  "eval_emit_diag_result counts_as_unsupported sev command cause ctx =
     (case eval_emit_diag (eval_diag_effective_input_severity counts_as_unsupported ctx sev) command cause ctx of
        (running, ctx1) \<Rightarrow>
          (if \<not> running then EVAL_RESULT_FATAL
           else if error_total ctx1 > error_total ctx then EVAL_RESULT_SOFT_ERROR else EVAL_RESULT_OK, ctx1))"

section \<open>Compatibility variables\<close>

definition eval_profile_from_sv :: "string_view \<Rightarrow> compat_profile" where
  "eval_profile_from_sv v =
     (if eval_sv_eq_ci_lit v ''STRICT'' then EVAL_PROFILE_STRICT
      else if eval_sv_eq_ci_lit v ''CI_STRICT'' then EVAL_PROFILE_CI_STRICT
      else EVAL_PROFILE_PERMISSIVE)"

definition eval_unsupported_policy_from_sv :: "string_view \<Rightarrow> unsupported_policy" where
  "eval_unsupported_policy_from_sv v =
     (if eval_sv_eq_ci_lit v ''ERROR'' then EVAL_UNSUPPORTED_ERROR
      else if eval_sv_eq_ci_lit v ''NOOP_WARN'' then EVAL_UNSUPPORTED_NOOP_WARN
      else EVAL_UNSUPPORTED_WARN)"

definition eval_sv_ends_with_ci_lit :: "string_view \<Rightarrow> string \<Rightarrow> bool" where
  "eval_sv_ends_with_ci_lit v suf =
     (if length v < length suf then False else eval_sv_eq_ci_lit (drop (length v - length suf) v) suf)"

definition eval_compat_truthy_sv :: "string_view \<Rightarrow> bool" where
  "eval_compat_truthy_sv v =
     (if length v = 0 then False
      else if eval_sv_eq_ci_lit v ''1'' \<or> eval_sv_eq_ci_lit v ''ON'' \<or> eval_sv_eq_ci_lit v ''YES'' \<or>
              eval_sv_eq_ci_lit v ''TRUE'' \<or> eval_sv_eq_ci_lit v ''Y'' then True
      else if eval_sv_eq_ci_lit v ''0'' \<or> eval_sv_eq_ci_lit v ''OFF'' \<or> eval_sv_eq_ci_lit v ''NO'' \<or>
              eval_sv_eq_ci_lit v ''FALSE'' \<or> eval_sv_eq_ci_lit v ''N'' \<or> eval_sv_eq_ci_lit v ''IGNORE'' \<or>
              eval_sv_eq_ci_lit v ''NOTFOUND'' \<or> eval_sv_ends_with_ci_lit v ''-NOTFOUND'' then False
      else if length v < 64 then
        (case c_strtod (c_str v) of (nonzero, rest) \<Rightarrow> if rest = [] then nonzero else True)
      else True)"

text \<open>The base is ten. A text without a number is only accepted when it is empty up to its NUL.\<close>

definition eval_parse_size_t_sv :: "string_view \<Rightarrow> nat option" where
  "eval_parse_size_t_sv v =
     (if length v = 0 \<or> length v \<ge> 64 then None
      else (case c_strtoull (c_str v) of
              None \<Rightarrow> if c_str v = [] then Some 0 else None
            | Some (raw, rest) \<Rightarrow> if rest \<noteq> [] then None else Some raw))"

definition eval_refresh_runtime_compat :: "eval_ctx \<Rightarrow> eval_ctx" where
  "eval_refresh_runtime_compat ctx =
     (if scopes ctx = [] then ctx
      else
        (let prof = eval_var_get_visible ctx ''CMAKE_NOBIFY_COMPAT_PROFILE'';
             policy = eval_var_get_visible ctx ''CMAKE_NOBIFY_UNSUPPORTED_POLICY'';
             budget = eval_parse_size_t_sv (eval_var_get_visible ctx ''CMAKE_NOBIFY_ERROR_BUDGET'');
             go_on = eval_var_get_visible ctx ''CMAKE_NOBIFY_CONTINUE_ON_ERROR''
         in ctx\<lparr>profile := (if length prof > 0 then eval_profile_from_sv prof else profile ctx),
                unsupported := (if length policy > 0 then eval_unsupported_policy_from_sv policy else unsupported ctx),
                error_budget := (case budget of Some n \<Rightarrow> n | None \<Rightarrow> error_budget ctx),
                continue_on_error := (if length go_on > 0 then eval_compat_truthy_sv go_on else continue_on_error ctx)\<rparr>))"

section \<open>Runners, handlers and the surroundings\<close>

type_synonym 'sem outcome = "(eval_result \<times> 'sem interp) option"
type_synonym 'sem runner = "node list \<Rightarrow> 'sem interp \<Rightarrow> 'sem outcome"
type_synonym 'sem handler = "'sem runner \<Rightarrow> string_view \<Rightarrow> arg list \<Rightarrow> 'sem interp \<Rightarrow> 'sem outcome"

text \<open>
  The handlers of the native commands, under their names in upper case, and what conditions see
  of the outside.
\<close>

record 'sem platform =
  natives :: "string \<rightharpoonup> 'sem handler"
  world :: "'sem interp \<Rightarrow> cond_world"

definition fatal :: "'sem interp \<Rightarrow> 'sem outcome" where
  "fatal s = Some (EVAL_RESULT_FATAL, s)"

definition result_from :: "'sem interp \<Rightarrow> 'sem outcome" where
  "result_from s = Some (eval_result_from_ctx s, s)"

text \<open>Emitting an event and going on, or giving up.\<close>

definition emit_then :: "event \<Rightarrow> 'sem interp \<Rightarrow> ('sem interp \<Rightarrow> 'sem outcome) \<Rightarrow> 'sem outcome" where
  "emit_then e s k = (case emit_event e s of (ok, s1) \<Rightarrow> if ok then k s1 else fatal s1)"

section \<open>The flow commands\<close>

definition flow_require_no_args :: "string_view \<Rightarrow> arg list \<Rightarrow> 'sem interp \<Rightarrow> bool \<times> 'sem interp" where
  "flow_require_no_args name args s =
     (case on_ev (eval_resolve_args args) s of
        (vals, s1) \<Rightarrow>
          if stopped s1 then (False, s1)
          else if vals = [] then (True, s1)
          else (False, flow_error name ''Command does not accept arguments'' s1))"

definition eval_handle_break :: "'sem handler" where
  "eval_handle_break run name args s =
     (if stopped s then fatal s
      else
        (case flow_require_no_args name args s of
           (ok, s1) \<Rightarrow>
             if \<not> ok then result_from s1
             else if eval_exec_current_loop_depth s1 = 0 then
               result_from (flow_error name ''break() used outside of a loop'' s1)
             else
               (case eval_exec_request_break s1 of
                  (requested, s2) \<Rightarrow>
                    if \<not> requested then fatal s2
                    else emit_then (Event_Break (u32 (eval_exec_current_loop_depth s2))) s2
                           (\<lambda>s3. Some (EVAL_RESULT_OK, s3)))))"

definition eval_handle_continue :: "'sem handler" where
  "eval_handle_continue run name args s =
     (if stopped s then fatal s
      else
        (case flow_require_no_args name args s of
           (ok, s1) \<Rightarrow>
             if \<not> ok then result_from s1
             else if eval_exec_current_loop_depth s1 = 0 then
               result_from (flow_error name ''continue() used outside of a loop'' s1)
             else
               (case eval_exec_request_continue s1 of
                  (requested, s2) \<Rightarrow>
                    if \<not> requested then fatal s2
                    else emit_then (Event_Continue (u32 (eval_exec_current_loop_depth s2))) s2
                           (\<lambda>s3. Some (EVAL_RESULT_OK, s3)))))"

text \<open>The blocks of the current execution frame: all of those that are on top.\<close>

definition mark_blocks :: "'sem interp \<Rightarrow> 'sem interp" where
  "mark_blocks s =
     (let total_blocks = length (block_frames s);
          active = block_active_exec_depth s;
          n = (if active \<le> total_blocks then active else total_blocks)
      in s\<lparr>block_frames := map (\<lambda>b. b\<lparr>propagate_on_return := True\<rparr>) (take n (block_frames s)) @ drop n (block_frames s)\<rparr>)"

definition eval_handle_return :: "'sem handler" where
  "eval_handle_return run name args s =
     (if stopped s then fatal s
      else
        (case on_ev (eval_resolve_args args) s of
           (vals, s1) \<Rightarrow>
             if stopped s1 then result_from s1
             else
               (case on_ev (eval_policy_is_new ''CMP0140'') (eval_clear_return_state s1) of
                  (cmp0140_new, s2) \<Rightarrow>
                    if cmp0140_new \<and> vals \<noteq> [] \<and> \<not> eval_sv_eq_ci_lit (hd vals) ''PROPAGATE'' then
                      result_from (flow_error name ''return() received unsupported arguments'' s2)
                    else if cmp0140_new \<and> vals \<noteq> [] \<and> length vals < 2 then
                      result_from (flow_error name ''return(PROPAGATE ...) requires at least one variable'' s2)
                    else
                      (let s3 = (if cmp0140_new \<and> vals \<noteq> []
                                 then s2\<lparr>return_propagate_vars := return_propagate_vars s2 @ map sv_copy_to_arena (tl vals)\<rparr>
                                 else s2);
                           s4 = (if return_propagate_vars s3 \<noteq> [] then mark_blocks s3 else s3)
                       in case eval_exec_request_return s4 of
                            (ok, s5) \<Rightarrow> if ok then Some (EVAL_RESULT_OK, s5) else fatal s5))))"

definition eval_handle_block :: "'sem handler" where
  "eval_handle_block run name args s =
     (if stopped s then fatal s
      else
        (case on_ev (eval_resolve_args args) s of
           (vals, s1) \<Rightarrow>
             if stopped s1 then result_from s1
             else
               (case block_parse_options name vals s1 of
                  (ok, frame, s2) \<Rightarrow>
                    if \<not> ok then result_from s2
                    else
                      (let s3 = (if variable_scope_pushed frame then s2\<lparr>ev := eval_scope_push (ev s2)\<rparr> else s2)
                       in case (if policy_scope_pushed frame then on_ev eval_policy_push s3 else (True, s3)) of
                            (pushed, s4) \<Rightarrow>
                              if \<not> pushed then
                                result_from (if variable_scope_pushed frame then s4\<lparr>ev := eval_scope_pop (ev s4)\<rparr> else s4)
                              else
                                (case emit_event
                                        (Event_Block_Begin (variable_scope_pushed frame) (policy_scope_pushed frame)
                                           (propagate_vars frame \<noteq> []))
                                        (eval_exec_push (new_frame EVAL_EXEC_CTX_BLOCK) (s4\<lparr>block_frames := frame # block_frames s4\<rparr>)) of
                                   (emitted, s5) \<Rightarrow>
                                     if emitted then result_from s5
                                     else
                                       (let s6 = eval_exec_pop s5;
                                            s7 = s6\<lparr>block_frames := tl (block_frames s6)\<rparr>;
                                            s8 = (if policy_scope_pushed frame then snd (on_ev eval_policy_pop s7) else s7)
                                        in result_from
                                             (if variable_scope_pushed frame then s8\<lparr>ev := eval_scope_pop (ev s8)\<rparr> else s8)))))))"

definition eval_handle_endblock :: "'sem handler" where
  "eval_handle_endblock run name args s =
     (if stopped s then fatal s
      else
        (case flow_require_no_args name args s of
           (ok, s1) \<Rightarrow>
             if \<not> ok then result_from s1
             else if block_frames s1 = [] then
               result_from (flow_error name ''endblock() called without matching block()'' s1)
             else
               (case block_pop_frame name False s1 of
                  (popped, ended, s2) \<Rightarrow>
                    if \<not> popped then result_from s2
                    else
                      (case emit_event (Event_Block_End (propagate_on_return ended) (propagate_vars ended \<noteq> [])) s2 of
                         (emitted, s3) \<Rightarrow> result_from s3))))"

definition flow_natives :: "string \<rightharpoonup> 'sem handler" where
  "flow_natives =
     [''BREAK'' \<mapsto> eval_handle_break, ''CONTINUE'' \<mapsto> eval_handle_continue, ''RETURN'' \<mapsto> eval_handle_return,
      ''BLOCK'' \<mapsto> eval_handle_block, ''ENDBLOCK'' \<mapsto> eval_handle_endblock]"

end
