(* ===== verification/Eval_Interp.thy ===== *)
theory Eval_Interp
  imports Eval_Run
begin

text \<open>
  Conditionals, loops, the commands a script defines, the dispatcher and the node lists, over a
  runner for the node lists below them; at the end \<open>eval_run\<close>, which is its own runner with one
  level of nesting less. From \<open>eval_exec_core.c\<close>, \<open>eval_user_command.c\<close> and \<open>eval_dispatcher.c\<close>.
\<close>

section \<open>Conditionals\<close>

fun elseif_chain ::
  "'sem platform \<Rightarrow> 'sem runner \<Rightarrow> elseif_clause list \<Rightarrow> node list \<Rightarrow> 'sem interp \<Rightarrow> 'sem outcome" where
  "elseif_chain p run [] else_block s =
     (if else_block \<noteq> [] then emit_then (Event_Branch_Taken ''else'') s (run else_block)
      else run else_block s)"
| "elseif_chain p run (ElseIf_Clause condition block # clauses) else_block s =
     (case on_ev (eval_condition (world p s) condition) s of
        (cond, s1) \<Rightarrow>
          emit_then (Event_If_Eval cond) s1
            (\<lambda>s2. if cond then emit_then (Event_Branch_Taken ''elseif'') s2 (run block)
                  else elseif_chain p run clauses else_block s2))"

definition eval_if ::
  "'sem platform \<Rightarrow> 'sem runner \<Rightarrow> arg list \<Rightarrow> node list \<Rightarrow> elseif_clause list \<Rightarrow> node list \<Rightarrow>
   'sem interp \<Rightarrow> 'sem outcome" where
  "eval_if p run condition then_block clauses else_block s =
     (case on_ev (eval_condition (world p s) condition) s of
        (cond, s1) \<Rightarrow>
          emit_then (Event_If_Eval cond) s1
            (\<lambda>s2. if cond then emit_then (Event_Branch_Taken ''then'') s2 (run then_block)
                  else elseif_chain p run clauses else_block s2))"

section \<open>The items of a \<open>foreach\<close>\<close>

definition exec_core_parse_long :: "string_view \<Rightarrow> int option" where
  "exec_core_parse_long sv =
     (if length sv = 0 \<or> length sv \<ge> 128 then None
      else (case c_strtol (c_str sv) of (v, rest) \<Rightarrow> if rest \<noteq> [] then None else Some v))"

definition int_text :: "int \<Rightarrow> string" where
  "int_text v = (if v < 0 then CHR ''-'' # nat_text (nat (- v)) else nat_text (nat v))"

text \<open>
  The numbers from \<open>v\<close> on. In the code \<open>v + step\<close> may leave the range of \<open>long\<close>, which has no
  meaning there; here it has no range.
\<close>

function range_items :: "int \<Rightarrow> int \<Rightarrow> int \<Rightarrow> string_view list" where
  "range_items v last_one step =
     int_text v # (if step = 0 \<or> (step > 0 \<and> v + step > last_one) \<or> (step < 0 \<and> v + step < last_one) then []
                   else range_items (v + step) last_one step)"
  by pat_completeness auto

termination
  by (relation "measure (\<lambda>(v, l, d). if d > 0 then nat (l - v) else nat (v - l))") auto

declare range_items.simps [simp del]

fun join_semi :: "string_view list \<Rightarrow> string_view" where
  "join_semi [] = []"
| "join_semi [x] = x"
| "join_semi (x # xs) = x @ CHR '';'' # join_semi xs"

definition zip_row :: "string_view list list \<Rightarrow> nat \<Rightarrow> string_view" where
  "zip_row columns row =
     sv_copy_to_arena (join_semi (map (\<lambda>col. if row < length col then col ! row else []) columns))"

definition zip_items :: "string_view list list \<Rightarrow> string_view list" where
  "zip_items columns = map (zip_row columns) [0..<Max (set (0 # map length columns))]"

datatype foreach_items =
    Items "string_view list"
  | No_Items
  | Items_Fatal
  | Items_Error string

definition range_arguments :: "string_view list \<Rightarrow> foreach_items" where
  "range_arguments a =
     (if length a < 1 \<or> length a > 3 then Items_Error ''foreach(RANGE ...) expects 1..3 numeric arguments''
      else
        (case (if length a = 1 then (Some 0, exec_core_parse_long (a ! 0), Some 1)
               else (exec_core_parse_long (a ! 0), exec_core_parse_long (a ! 1),
                     if length a = 3 then exec_core_parse_long (a ! 2) else Some 1)) of
           (Some start, Some last_one, Some step) \<Rightarrow>
             if step = 0 then Items_Error ''foreach(RANGE ...) step must be non-zero''
             else if (step > 0 \<and> start > last_one) \<or> (step < 0 \<and> start < last_one) then No_Items
             else Items (range_items start last_one step)
         | _ \<Rightarrow> Items_Fatal))"

text \<open>What follows the loop variable.\<close>

definition foreach_items_of :: "eval_ctx \<Rightarrow> string_view list \<Rightarrow> foreach_items" where
  "foreach_items_of ctx rest =
     (if rest \<noteq> [] \<and> eval_sv_eq_ci_lit (hd rest) ''RANGE'' then range_arguments (tl rest)
      else if rest \<noteq> [] \<and> eval_sv_eq_ci_lit (hd rest) ''IN'' then
        (let a = tl rest in
         if a \<noteq> [] \<and> eval_sv_eq_ci_lit (hd a) ''ITEMS'' then Items (tl a)
         else if a \<noteq> [] \<and> eval_sv_eq_ci_lit (hd a) ''LISTS'' then
           Items (concat (map (\<lambda>v. eval_sv_split_semicolon_genex_aware (eval_var_get_visible ctx v)) (tl a)))
         else if a \<noteq> [] \<and> eval_sv_eq_ci_lit (hd a) ''ZIP_LISTS'' then
           Items (zip_items (map (\<lambda>v. eval_sv_split_semicolon_genex_aware (eval_var_get_visible ctx v)) (tl a)))
         else Items a)
      else Items rest)"

section \<open>Loops\<close>

text \<open>
  A loop keeps the index of the execution frame it started in, and reads and writes there. The
  loop depth is a \<open>size_t\<close>: taking one from zero wraps.
\<close>

definition enter_loop :: "nat \<Rightarrow> 'sem interp \<Rightarrow> 'sem interp" where
  "enter_loop i s = update_frame i (\<lambda>f. f\<lparr>loop_depth := (loop_depth f + 1) mod 2 ^ 64\<rparr>) s"

definition leave_loop :: "nat \<Rightarrow> 'sem interp \<Rightarrow> 'sem interp" where
  "leave_loop i s = update_frame i (\<lambda>f. f\<lparr>loop_depth := (if loop_depth f = 0 then SIZE_MAX else loop_depth f - 1)\<rparr>) s"

definition flow_at :: "nat \<Rightarrow> 'sem interp \<Rightarrow> flow_signal" where
  "flow_at i s = pending_flow (exec_contexts s ! i)"

definition clear_flow_at :: "nat \<Rightarrow> 'sem interp \<Rightarrow> 'sem interp" where
  "clear_flow_at i s = update_frame i (\<lambda>f. f\<lparr>pending_flow := EVAL_FLOW_NONE\<rparr>) s"

datatype loop_exit = Loop_Fatal | Loop_Return | Loop_Ended | Loop_Limit

text \<open>How a loop ended, how often its body was begun, the results so far, and the state.\<close>

type_synonym 'sem loop_outcome = "(loop_exit \<times> nat \<times> eval_result \<times> 'sem interp) option"

primrec foreach_loop ::
  "'sem runner \<Rightarrow> nat \<Rightarrow> string_view \<Rightarrow> node list \<Rightarrow> string_view list \<Rightarrow> nat \<Rightarrow> eval_result \<Rightarrow>
   'sem interp \<Rightarrow> 'sem loop_outcome" where
  "foreach_loop run i var body [] iter_count aggregate s = Some (Loop_Ended, iter_count, aggregate, s)"
| "foreach_loop run i var body (item # rest) iter_count aggregate s =
     (case on_ev (eval_var_set_current var item) s of
        (ok, s1) \<Rightarrow>
          if \<not> ok then Some (Loop_Fatal, iter_count + 1, EVAL_RESULT_FATAL, s1)
          else
            (case run body s1 of
               None \<Rightarrow> None
             | Some (r, s2) \<Rightarrow>
                 if r = EVAL_RESULT_FATAL then Some (Loop_Fatal, iter_count + 1, r, s2)
                 else
                   (let agg = eval_result_merge aggregate r in
                    case flow_at i s2 of
                      EVAL_FLOW_RETURN \<Rightarrow> Some (Loop_Return, iter_count + 1, agg, s2)
                    | EVAL_FLOW_BREAK \<Rightarrow> Some (Loop_Ended, iter_count + 1, agg, clear_flow_at i s2)
                    | EVAL_FLOW_CONTINUE \<Rightarrow> foreach_loop run i var body rest (iter_count + 1) agg (clear_flow_at i s2)
                    | EVAL_FLOW_NONE \<Rightarrow> foreach_loop run i var body rest (iter_count + 1) agg s2)))"

text \<open>The variable gets back what it had; without a value it had before, \<open>CMP0124\<close> decides.\<close>

definition restore_loop_var :: "bool \<Rightarrow> bool \<Rightarrow> string_view \<Rightarrow> string_view \<Rightarrow> eval_ctx \<Rightarrow> bool \<times> eval_ctx" where
  "restore_loop_var cmp0124_new loop_old_defined loop_old var ctx =
     (if loop_old_defined then eval_var_set_current var loop_old ctx
      else if cmp0124_new then eval_var_unset_current var ctx
      else eval_var_set_current var [] ctx)"

definition run_foreach ::
  "'sem runner \<Rightarrow> bool \<Rightarrow> string_view \<Rightarrow> string_view list \<Rightarrow> node list \<Rightarrow> 'sem interp \<Rightarrow> 'sem outcome" where
  "run_foreach run cmp0124_new var items_list body s =
     (let loop_old = eval_var_get_visible (ev s) var;
          loop_old_defined = eval_var_defined_visible (ev s) var
      in emit_then (Event_Loop_Begin ''foreach'') s
           (\<lambda>s1. if exec_depth s1 = 0 then fatal s1
                 else
                   (let i = exec_depth s1 - 1 in
                    case foreach_loop run i var body items_list 0 EVAL_RESULT_OK (enter_loop i s1) of
                      None \<Rightarrow> None
                    | Some (how, iter_count, aggregate, s2) \<Rightarrow>
                        (let s3 = leave_loop i s2 in
                         if how \<noteq> Loop_Ended then Some (aggregate, s3)
                         else emit_then (Event_Loop_End ''foreach'' (u32 iter_count)) s3
                                (\<lambda>s4. case on_ev (restore_loop_var cmp0124_new loop_old_defined loop_old var) s4 of
                                        (ok, s5) \<Rightarrow>
                                          if \<not> ok then fatal s5
                                          else Some (eval_result_merge aggregate (eval_result_ok_if_running s5), s5))))))"

definition eval_foreach :: "'sem runner \<Rightarrow> arg list \<Rightarrow> node list \<Rightarrow> 'sem interp \<Rightarrow> 'sem outcome" where
  "eval_foreach run args body s =
     (case on_ev (eval_resolve_args args) s of
        (a, s1) \<Rightarrow>
          if a = [] then result_from (flow_error ''foreach'' ''foreach() expects at least one argument'' s1)
          else
            (case on_ev (eval_policy_is_new ''CMP0124'') s1 of
               (cmp0124_new, s2) \<Rightarrow>
                 (case foreach_items_of (ev s2) (tl a) of
                    Items items_list \<Rightarrow> run_foreach run cmp0124_new (hd a) items_list body s2
                  | No_Items \<Rightarrow> Some (EVAL_RESULT_OK, s2)
                  | Items_Fatal \<Rightarrow> fatal s2
                  | Items_Error cause \<Rightarrow> result_from (flow_error ''foreach'' cause s2))))"

text \<open>\<open>errno\<close> is set when the digits exceed the range, whatever the sign.\<close>

definition strtoull_overflows :: "string \<Rightarrow> bool" where
  "strtoull_overflows s =
     (let t = dropWhile c_isspace s;
          u = (if t \<noteq> [] \<and> (hd t = CHR ''-'' \<or> hd t = CHR ''+'') then tl t else t)
      in digits_value (takeWhile c_isdigit u) > ULLONG_MAX)"

definition exec_core_parse_positive_size :: "string_view \<Rightarrow> nat option" where
  "exec_core_parse_positive_size sv =
     (if length sv = 0 \<or> length sv \<ge> 64 then None
      else (case c_strtoull (c_str sv) of
              None \<Rightarrow> None
            | Some (v, rest) \<Rightarrow>
                if strtoull_overflows (c_str sv) \<or> rest \<noteq> [] \<or> v = 0 then None else Some v))"

definition default_while_limit :: nat where "default_while_limit = 10000"

definition eval_while_iteration_limit :: "'sem interp \<Rightarrow> eval_result \<times> nat \<times> 'sem interp" where
  "eval_while_iteration_limit s =
     (let raw = eval_var_get_visible (ev s) ''CMAKE_NOBIFY_WHILE_MAX_ITERATIONS'' in
      if length raw = 0 then (EVAL_RESULT_OK, default_while_limit, s)
      else (case exec_core_parse_positive_size raw of
              Some n \<Rightarrow> (EVAL_RESULT_OK, n, s)
            | None \<Rightarrow>
                (case on_ev (eval_emit_diag_result False DIAG_SEV_WARNING ''while''
                               ''CMAKE_NOBIFY_WHILE_MAX_ITERATIONS must be a positive integer'') s of
                   (r, s1) \<Rightarrow> (r, default_while_limit, s1))))"

text \<open>The number is that of the iterations the limit still allows.\<close>

primrec while_loop ::
  "'sem platform \<Rightarrow> 'sem runner \<Rightarrow> nat \<Rightarrow> arg list \<Rightarrow> node list \<Rightarrow> nat \<Rightarrow> nat \<Rightarrow> eval_result \<Rightarrow>
   'sem interp \<Rightarrow> 'sem loop_outcome" where
  "while_loop p run i condition body 0 iter_count aggregate s = Some (Loop_Limit, iter_count, aggregate, s)"
| "while_loop p run i condition body (Suc allowed) iter_count aggregate s =
     (case on_ev (eval_condition (world p s) condition) s of
        (cond, s1) \<Rightarrow>
          (case emit_event (Event_If_Eval cond) s1 of
             (emitted, s2) \<Rightarrow>
               if \<not> emitted then Some (Loop_Fatal, iter_count, EVAL_RESULT_FATAL, s2)
               else if \<not> cond then Some (Loop_Ended, iter_count, aggregate, s2)
               else
                 (case run body s2 of
                    None \<Rightarrow> None
                  | Some (r, s3) \<Rightarrow>
                      if r = EVAL_RESULT_FATAL then Some (Loop_Fatal, iter_count + 1, r, s3)
                      else
                        (let agg = eval_result_merge aggregate r in
                         case flow_at i s3 of
                           EVAL_FLOW_RETURN \<Rightarrow> Some (Loop_Return, iter_count + 1, agg, s3)
                         | EVAL_FLOW_BREAK \<Rightarrow> Some (Loop_Ended, iter_count + 1, agg, clear_flow_at i s3)
                         | EVAL_FLOW_CONTINUE \<Rightarrow>
                             while_loop p run i condition body allowed (iter_count + 1) agg (clear_flow_at i s3)
                         | EVAL_FLOW_NONE \<Rightarrow> while_loop p run i condition body allowed (iter_count + 1) agg s3))))"

definition eval_while ::
  "'sem platform \<Rightarrow> 'sem runner \<Rightarrow> arg list \<Rightarrow> node list \<Rightarrow> 'sem interp \<Rightarrow> 'sem outcome" where
  "eval_while p run condition body s =
     (case eval_while_iteration_limit s of
        (aggregate0, max_iter, s1) \<Rightarrow>
          if aggregate0 = EVAL_RESULT_FATAL \<or> stopped s1 then fatal s1
          else emit_then (Event_Loop_Begin ''while'') s1
            (\<lambda>s2. if exec_depth s2 = 0 then fatal s2
                  else
                    (let i = exec_depth s2 - 1 in
                     case while_loop p run i condition body max_iter 0 aggregate0 (enter_loop i s2) of
                       None \<Rightarrow> None
                     | Some (how, iter_count, aggregate, s3) \<Rightarrow>
                         (let s4 = leave_loop i s3 in
                          case how of
                            Loop_Ended \<Rightarrow>
                              emit_then (Event_Loop_End ''while'' (u32 iter_count)) s4 (\<lambda>s5. Some (aggregate, s5))
                          | Loop_Limit \<Rightarrow>
                              (case on_ev (eval_emit_diag_result False DIAG_SEV_ERROR ''while''
                                             ''Iteration limit exceeded'') s4 of
                                 (r, s5) \<Rightarrow> Some (eval_result_merge EVAL_RESULT_SOFT_ERROR r, s5))
                          | _ \<Rightarrow> Some (aggregate, s4)))))"

end
