(* ===== verification/Eval_Dispatch.thy ===== *)
theory Eval_Dispatch
  imports Eval_Interp
begin

text \<open>
  The commands a script defines and how they are invoked (\<open>eval_user_command.c\<close>), the dispatcher
  with its transactions (\<open>eval_dispatcher.c\<close>), nodes and node lists (\<open>eval_exec_core.c\<close>).
\<close>

section \<open>Defining commands\<close>

text \<open>A definition keeps a copy of its body.\<close>

definition clone_token :: "token \<Rightarrow> token" where
  "clone_token t = t\<lparr>tok_text := sv_copy_to_arena (tok_text t)\<rparr>"

definition clone_arg :: "arg \<Rightarrow> arg" where
  "clone_arg a = a\<lparr>items := map clone_token (items a)\<rparr>"

primrec clone_node :: "node \<Rightarrow> node"
and clone_elseif :: "elseif_clause \<Rightarrow> elseif_clause"
where
  "clone_node (Node_Command l c name args) = Node_Command l c (sv_copy_to_arena name) (map clone_arg args)"
| "clone_node (Node_If l c cond then_block clauses else_block) =
     Node_If l c (map clone_arg cond) (map clone_node then_block) (map clone_elseif clauses) (map clone_node else_block)"
| "clone_node (Node_Foreach l c args body) = Node_Foreach l c (map clone_arg args) (map clone_node body)"
| "clone_node (Node_While l c cond body) = Node_While l c (map clone_arg cond) (map clone_node body)"
| "clone_node (Node_Function l c name params body) =
     Node_Function l c (sv_copy_to_arena name) (map clone_arg params) (map clone_node body)"
| "clone_node (Node_Macro l c name params body) =
     Node_Macro l c (sv_copy_to_arena name) (map clone_arg params) (map clone_node body)"
| "clone_elseif (ElseIf_Clause cond block) = ElseIf_Clause (map clone_arg cond) (map clone_node block)"

definition param_name :: "arg \<Rightarrow> string_view" where
  "param_name param = (case items param of [] \<Rightarrow> [] | t # ts \<Rightarrow> sv_copy_to_arena (tok_text t))"

definition eval_user_cmd_register ::
  "user_kind \<Rightarrow> string_view \<Rightarrow> arg list \<Rightarrow> node list \<Rightarrow> 'sem interp \<Rightarrow> bool \<times> 'sem interp" where
  "eval_user_cmd_register kind name params body s =
     (if stopped s then (False, s)
      else (True, s\<lparr>commands :=
        \<lparr>uc_name = sv_copy_to_arena name, uc_kind = kind, uc_params = map param_name params,
         uc_body = map clone_node body\<rparr> # commands s\<rparr>))"

definition user_cmd_sv_eq_ci :: "string_view \<Rightarrow> string_view \<Rightarrow> bool" where
  "user_cmd_sv_eq_ci a b \<longleftrightarrow> (if length a \<noteq> length b then False else map c_toupper a = map c_toupper b)"

definition eval_user_cmd_find :: "string_view \<Rightarrow> 'sem interp \<Rightarrow> user_command option" where
  "eval_user_cmd_find name s = find (\<lambda>c. user_cmd_sv_eq_ci (uc_name c) name) (commands s)"

section \<open>Invoking them\<close>

definition eval_sv_join_semi_temp :: "string_view list \<Rightarrow> string_view" where
  "eval_sv_join_semi_temp xs = c_str (join_semi xs)"

text \<open>What the body finds: the parameters, then the counted and the collected arguments.\<close>

definition invocation_bindings :: "string_view list \<Rightarrow> string_view list \<Rightarrow> (string_view \<times> string_view) list" where
  "invocation_bindings params args =
     zip params (map (\<lambda>i. if i < length args then args ! i else []) [0..<length params]) @
     [(''ARGC'', nat_text (length args)),
      (''ARGV'', eval_sv_join_semi_temp args),
      (''ARGN'', if length args > length params then eval_sv_join_semi_temp (drop (length params) args) else [])] @
     map (\<lambda>i. (''ARGV'' @ nat_text i, args ! i)) [0..<length args]"

fun bind_all :: "(string_view \<Rightarrow> string_view \<Rightarrow> eval_ctx \<Rightarrow> bool \<times> eval_ctx) \<Rightarrow> (string_view \<times> string_view) list \<Rightarrow>
    eval_ctx \<Rightarrow> bool \<times> eval_ctx" where
  "bind_all bind [] ctx = (True, ctx)"
| "bind_all bind ((k, v) # kvs) ctx =
     (case bind k v ctx of (ok, ctx1) \<Rightarrow> if ok then bind_all bind kvs ctx1 else (False, ctx1))"

text \<open>Unlike at the end of a block, a failing variable does not stop the others.\<close>

fun propagate_return :: "string_view list \<Rightarrow> eval_ctx \<Rightarrow> bool \<times> eval_ctx" where
  "propagate_return [] ctx = (True, ctx)"
| "propagate_return (key # keys) ctx =
     (if \<not> eval_var_defined_current ctx key then propagate_return keys ctx
      else if length (scopes ctx) \<le> 1 then (case propagate_return keys ctx of (ok, ctx1) \<Rightarrow> (False, ctx1))
      else
        (case in_parent_view (eval_var_set_current key (eval_var_get_visible ctx key)) ctx of
           (ok_set, ctx1) \<Rightarrow>
             (case propagate_return keys ctx1 of (ok, ctx2) \<Rightarrow> (ok_set \<and> ok, ctx2))))"

text \<open>The end of an invocation, which its failures reach as well.\<close>

definition invoke_cleanup :: "user_kind \<Rightarrow> string_view \<Rightarrow> bool \<Rightarrow> 'sem interp \<Rightarrow> bool \<times> 'sem interp" where
  "invoke_cleanup kind name ok s =
     (let is_function = (kind = USER_CMD_FUNCTION);
          did_return = (eval_exec_pending_flow s = EVAL_FLOW_RETURN)
      in case (if did_return \<and> return_propagate_vars s \<noteq> [] \<and> is_function \<and> length (scopes (ev s)) > 1
               then on_ev (propagate_return (return_propagate_vars s)) s else (True, s)) of
           (propagated, s1) \<Rightarrow>
             (let ok1 = (ok \<and> propagated);
                  s2 = (if \<not> is_function \<and> did_return then s1 else eval_clear_return_state s1);
                  s3 = eval_exec_pop s2;
                  s4 = s3\<lparr>ev := (if is_function then eval_scope_pop (ev s3) else eval_macro_frame_pop (ev s3))\<rparr>
              in case emit_event (if is_function then Event_Function_End name did_return
                                  else Event_Macro_End name did_return) s4 of
                   (emitted, s5) \<Rightarrow>
                     if \<not> emitted then (False, s5)
                     else if is_function \<or> \<not> did_return then (ok1, s5)
                     else (case eval_exec_request_return s5 of
                             (requested, s6) \<Rightarrow> (ok1 \<and> requested, s6))))"

definition eval_user_cmd_invoke ::
  "'sem runner \<Rightarrow> string_view \<Rightarrow> string_view list \<Rightarrow> 'sem interp \<Rightarrow> (bool \<times> 'sem interp) option" where
  "eval_user_cmd_invoke run name args s =
     (if stopped s then Some (False, s)
      else
        (case eval_user_cmd_find name s of
           None \<Rightarrow> Some (False, s)
         | Some cmd \<Rightarrow>
             (let is_function = (uc_kind cmd = USER_CMD_FUNCTION);
                  argc = u32 (length args);
                  s1 = s\<lparr>ev := (if is_function then eval_scope_push (ev s) else eval_macro_frame_push (ev s))\<rparr>;
                  s2 = eval_exec_push (new_frame (if is_function then EVAL_EXEC_CTX_FUNCTION else EVAL_EXEC_CTX_MACRO)) s1
              in case emit_event (if is_function then Event_Function_Begin name argc else Event_Macro_Begin name argc) s2 of
                   (emitted, s3) \<Rightarrow>
                     if \<not> emitted then
                       (let s4 = eval_exec_pop s3 in
                        Some (False, s4\<lparr>ev := (if is_function then eval_scope_pop (ev s4) else eval_macro_frame_pop (ev s4))\<rparr>))
                     else
                       (case on_ev (bind_all (if is_function then eval_var_set_current else eval_macro_bind_set)
                                             (invocation_bindings (uc_params cmd) args)) s3 of
                          (bound, s4) \<Rightarrow>
                            if \<not> bound then Some (invoke_cleanup (uc_kind cmd) name False s4)
                            else
                              (case run (uc_body cmd) s4 of
                                 None \<Rightarrow> None
                               | Some (r, s5) \<Rightarrow>
                                   Some (invoke_cleanup (uc_kind cmd) name (r \<noteq> EVAL_RESULT_FATAL) s5))))))"

section \<open>Dispatching\<close>

definition no_new_errors :: "'sem interp \<Rightarrow> 'sem interp \<Rightarrow> bool" where
  "no_new_errors before s \<longleftrightarrow> error_total (ev s) = error_total (ev before)"

text \<open>Ending a command: the end event and the end of its transaction.\<close>

definition close_command ::
  "'sem interp \<Rightarrow> string_view \<Rightarrow> dispatch_kind \<Rightarrow> nat \<Rightarrow> command_status \<Rightarrow> bool \<Rightarrow> 'sem interp \<Rightarrow> 'sem interp" where
  "close_command before name kind argc status commit s =
     (case eval_emit_command_end name kind argc status s of
        (ok, s1) \<Rightarrow> eval_command_tx_finish before commit s1)"

text \<open>Beginning one; the transactions of user commands keep the variables from the start.\<close>

definition open_command :: "bool \<Rightarrow> string_view \<Rightarrow> dispatch_kind \<Rightarrow> nat \<Rightarrow> 'sem interp \<Rightarrow> bool \<times> 'sem interp" where
  "open_command preserve name kind argc s =
     (let s1 = eval_command_tx_begin s in
      emit_event (Event_Command_Begin name kind argc)
        (if preserve then eval_command_tx_preserve_scope_vars_on_failure s1 else s1))"

definition dispatch_native ::
  "'sem handler \<Rightarrow> 'sem runner \<Rightarrow> string_view \<Rightarrow> arg list \<Rightarrow> 'sem interp \<Rightarrow> 'sem outcome" where
  "dispatch_native handler run name args s =
     (let kind = EVENT_COMMAND_DISPATCH_BUILTIN; argc = u32 (length args) in
      case open_command False name kind argc s of
        (opened, s1) \<Rightarrow>
          if \<not> opened then fatal (eval_command_tx_finish s False s1)
          else
            (case handler run name args s1 of
               None \<Rightarrow> None
             | Some (native_result, s2) \<Rightarrow>
                 (let running_result = eval_result_ok_if_running s2;
                      succeeded = (native_result \<noteq> EVAL_RESULT_FATAL \<and> running_result \<noteq> EVAL_RESULT_FATAL \<and> no_new_errors s s2)
                  in Some (eval_result_merge native_result running_result,
                           close_command s name kind argc
                             (if succeeded then EVENT_COMMAND_STATUS_SUCCESS else EVENT_COMMAND_STATUS_ERROR) succeeded s2))))"

definition dispatch_user ::
  "'sem runner \<Rightarrow> user_command \<Rightarrow> string_view \<Rightarrow> arg list \<Rightarrow> 'sem interp \<Rightarrow> 'sem outcome" where
  "dispatch_user run user name args s =
     (let kind = (if uc_kind user = USER_CMD_MACRO then EVENT_COMMAND_DISPATCH_MACRO else EVENT_COMMAND_DISPATCH_FUNCTION);
          argc = u32 (length args)
      in case open_command True name kind argc s of
           (opened, s1) \<Rightarrow>
             if \<not> opened then fatal (eval_command_tx_finish s False s1)
             else
               (case on_ev (if uc_kind user = USER_CMD_MACRO then eval_resolve_args_literal args else eval_resolve_args args) s1 of
                  (vals, s2) \<Rightarrow>
                    if stopped s2 then fatal (close_command s name kind argc EVENT_COMMAND_STATUS_ERROR False s2)
                    else
                      (case eval_user_cmd_invoke run name vals s2 of
                         None \<Rightarrow> None
                       | Some (True, s3) \<Rightarrow>
                           (let running_result = eval_result_ok_if_running s3;
                                succeeded = (running_result \<noteq> EVAL_RESULT_FATAL \<and> no_new_errors s s3)
                            in Some (running_result,
                                     close_command s name kind argc
                                       (if succeeded then EVENT_COMMAND_STATUS_SUCCESS else EVENT_COMMAND_STATUS_ERROR)
                                       succeeded s3))
                       | Some (False, s3) \<Rightarrow>
                           result_from (close_command s name kind argc EVENT_COMMAND_STATUS_ERROR False s3))))"

definition dispatch_unknown :: "string_view \<Rightarrow> arg list \<Rightarrow> 'sem interp \<Rightarrow> 'sem outcome" where
  "dispatch_unknown name args s =
     (let kind = EVENT_COMMAND_DISPATCH_UNKNOWN; argc = u32 (length args) in
      case open_command False name kind argc s of
        (opened, s1) \<Rightarrow>
          if \<not> opened then fatal (eval_command_tx_finish s False s1)
          else
            (case on_ev (eval_emit_diag_result True DIAG_SEV_WARNING name ''Unknown command'') s1 of
               (diag_result, s2) \<Rightarrow>
                 Some (diag_result,
                       close_command s name kind argc EVENT_COMMAND_STATUS_UNSUPPORTED
                         (no_new_errors s s2 \<and> diag_result \<noteq> EVAL_RESULT_FATAL) s2)))"

text \<open>The registry finds a native command by its name in upper case.\<close>

definition eval_native_cmd_find :: "'sem platform \<Rightarrow> string_view \<Rightarrow> 'sem handler option" where
  "eval_native_cmd_find p name = (if length name = 0 then None else natives p (map c_toupper (c_str name)))"

definition eval_dispatch_command ::
  "'sem platform \<Rightarrow> 'sem runner \<Rightarrow> string_view \<Rightarrow> arg list \<Rightarrow> 'sem interp \<Rightarrow> 'sem outcome" where
  "eval_dispatch_command p run name args s =
     (if stopped s then fatal s
      else
        (case eval_native_cmd_find p name of
           Some handler \<Rightarrow> dispatch_native handler run name args s
         | None \<Rightarrow>
             (case eval_user_cmd_find name s of
                Some user \<Rightarrow> dispatch_user run user name args s
              | None \<Rightarrow> dispatch_unknown name args s)))"

section \<open>Nodes\<close>

primrec node_line :: "node \<Rightarrow> nat" where
  "node_line (Node_Command l c name args) = l"
| "node_line (Node_If l c cond then_block clauses else_block) = l"
| "node_line (Node_Foreach l c args body) = l"
| "node_line (Node_While l c cond body) = l"
| "node_line (Node_Function l c name params body) = l"
| "node_line (Node_Macro l c name params body) = l"

definition register_node ::
  "user_kind \<Rightarrow> string_view \<Rightarrow> arg list \<Rightarrow> node list \<Rightarrow> 'sem interp \<Rightarrow> 'sem outcome" where
  "register_node kind name params body s =
     (case eval_user_cmd_register kind name params body s of
        (ok, s1) \<Rightarrow> if ok then result_from s1 else fatal s1)"

definition run_node :: "'sem platform \<Rightarrow> 'sem runner \<Rightarrow> node \<Rightarrow> 'sem interp \<Rightarrow> 'sem outcome" where
  "run_node p run nd s =
     (case nd of
        Node_Command l c name args \<Rightarrow>
          if length name > 0 then eval_dispatch_command p run name args s else Some (EVAL_RESULT_OK, s)
      | Node_If l c cond then_block clauses else_block \<Rightarrow> eval_if p run cond then_block clauses else_block s
      | Node_Foreach l c args body \<Rightarrow> eval_foreach run args body s
      | Node_While l c cond body \<Rightarrow> eval_while p run cond body s
      | Node_Function l c name params body \<Rightarrow> register_node USER_CMD_FUNCTION name params body s
      | Node_Macro l c name params body \<Rightarrow> register_node USER_CMD_MACRO name params body s)"

definition eval_node :: "'sem platform \<Rightarrow> 'sem runner \<Rightarrow> node \<Rightarrow> 'sem interp \<Rightarrow> 'sem outcome" where
  "eval_node p run nd s =
     (if stopped s then fatal s
      else
        (let s1 = s\<lparr>ev := eval_refresh_runtime_compat (ev s)\<rparr> in
         if stopped s1 then fatal s1
         else
           (case on_ev (eval_var_set_current ''CMAKE_CURRENT_LIST_LINE'' (nat_text (node_line nd))) s1 of
              (ok, s2) \<Rightarrow>
                if \<not> ok then fatal s2
                else
                  (case run_node p run nd s2 of
                     None \<Rightarrow> None
                   | Some (r, s3) \<Rightarrow> Some (eval_result_merge r (eval_result_ok_if_running s3), s3)))))"

primrec node_list :: "'sem platform \<Rightarrow> 'sem runner \<Rightarrow> node list \<Rightarrow> eval_result \<Rightarrow> 'sem interp \<Rightarrow> 'sem outcome" where
  "node_list p run [] aggregate s = Some (aggregate, s)"
| "node_list p run (nd # nds) aggregate s =
     (case eval_node p run nd s of
        None \<Rightarrow> None
      | Some (r, s1) \<Rightarrow>
          if r = EVAL_RESULT_FATAL then Some (r, s1)
          else
            (let agg = eval_result_merge aggregate r in
             case eval_exec_pending_flow s1 of
               EVAL_FLOW_RETURN \<Rightarrow>
                 (case eval_unwind_blocks_for_return s1 of
                    None \<Rightarrow> None
                  | Some (ok, s2) \<Rightarrow> if ok then Some (agg, s2) else fatal s2)
             | EVAL_FLOW_BREAK \<Rightarrow> Some (agg, s1)
             | EVAL_FLOW_CONTINUE \<Rightarrow> Some (agg, s1)
             | EVAL_FLOW_NONE \<Rightarrow> node_list p run nds agg s1))"

text \<open>\<open>eval_execute_node_list\<close> with a bound on the nesting of its own calls.\<close>

primrec eval_run :: "nat \<Rightarrow> 'sem platform \<Rightarrow> node list \<Rightarrow> 'sem interp \<Rightarrow> 'sem outcome" where
  "eval_run 0 p nds s = None"
| "eval_run (Suc n) p nds s = node_list p (eval_run n p) nds EVAL_RESULT_OK s"

end
