(* ===== verification/Eval_Trace.thy ===== *)
theory Eval_Trace
  imports Eval_Dispatch Eval_State_Props
begin

text \<open>
  The event stream of a run. The beginning of a command goes into the stream at once, everything
  else waits in the command's transaction, and a failing transaction drops what it holds. Still,
  the beginnings and ends of commands in the stream are well nested, however a run comes out.
\<close>

named_theorems traced_intros \<open>operations that keep the events of commands well nested\<close>

section \<open>Well nested events\<close>

text \<open>The commands that are open after some events, the innermost first.\<close>

fun open_commands ::
  "event list \<Rightarrow> (string_view \<times> dispatch_kind \<times> nat) list \<Rightarrow> (string_view \<times> dispatch_kind \<times> nat) list option" where
  "open_commands [] st = Some st"
| "open_commands (Event_Command_Begin n k a # es) st = open_commands es ((n, k, a) # st)"
| "open_commands (Event_Command_End n k a status # es) st =
     (case st of [] \<Rightarrow> None | x # st' \<Rightarrow> if x = (n, k, a) then open_commands es st' else None)"
| "open_commands (e # es) st = open_commands es st"

definition well_nested :: "event list \<Rightarrow> bool" where
  "well_nested es \<longleftrightarrow> open_commands es [] = Some []"

definition quiet :: "event \<Rightarrow> bool" where
  "quiet e \<longleftrightarrow> \<not> keep_on_failure e"

lemma open_commands_append:
  "open_commands (xs @ ys) st = (case open_commands xs st of None \<Rightarrow> None | Some st1 \<Rightarrow> open_commands ys st1)"
proof (induction xs arbitrary: st)
  case (Cons e xs)
  then show ?case by (cases e) (auto split: list.split)
qed simp

lemma open_commands_below: "open_commands xs st = Some st1 \<Longrightarrow> open_commands xs (st @ below) = Some (st1 @ below)"
proof (induction xs arbitrary: st)
  case (Cons e xs)
  then show ?case by (cases e) (auto dest!: Cons.IH split: list.splits if_splits)
qed simp

lemma well_nested_above: "well_nested es \<Longrightarrow> open_commands es st = Some st"
  using open_commands_below [of es "[]" "[]" st] by (simp add: well_nested_def)

lemma well_nested_append: "well_nested xs \<Longrightarrow> well_nested ys \<Longrightarrow> well_nested (xs @ ys)"
  by (simp add: well_nested_def open_commands_append)

lemma well_nested_Nil [simp]: "well_nested []"
  by (simp add: well_nested_def)

lemma quiet_nested: "list_all quiet es \<Longrightarrow> open_commands es st = Some st"
proof (induction es arbitrary: st)
  case (Cons e es)
  then show ?case by (cases e) (auto simp: quiet_def keep_on_failure_def)
qed simp

lemma bracketed_nested:
  assumes "well_nested es" "list_all quiet held"
  shows "well_nested (Event_Command_Begin n k a # es @ held @ [Event_Command_End n k a status])"
  using assms by (simp add: well_nested_def open_commands_append well_nested_above quiet_nested)

section \<open>States that only add well nested events\<close>

text \<open>What may happen to the open transactions: the innermost holds back more, and may ask to keep variables.\<close>

definition later :: "event list \<Rightarrow> bool \<Rightarrow> transaction list \<Rightarrow> transaction list" where
  "later held keep tx =
     (case tx of
        [] \<Rightarrow> []
      | t # ts \<Rightarrow>
          \<lparr>held_events = held_events t @ held,
           preserve_scope_vars_on_failure = (preserve_scope_vars_on_failure t \<or> keep)\<rparr> # ts)"

lemma later_trans [simp]: "later kept b (later held a tx) = later (held @ kept) (a \<or> b) tx"
  by (simp add: later_def disj_assoc split: list.split)

lemma later_same [simp]: "later [] False tx = tx"
  by (simp add: later_def split: list.split)

lemma later_Nil [simp]: "later held keep [] = []"
  by (simp add: later_def)

definition traced :: "'sem interp \<Rightarrow> 'sem interp \<Rightarrow> bool" where
  "traced s s' \<longleftrightarrow>
     (\<exists>es held keep. well_nested es \<and> list_all quiet held \<and> stream s' = stream s @ es \<and>
        transactions s' = later held keep (transactions s))"

lemma tracedI:
  assumes "well_nested es" "list_all quiet held" "stream s' = stream s @ es" "transactions s' = later held keep (transactions s)"
  shows "traced s s'"
  unfolding traced_def using assms by blast

lemma traced_same [traced_intros]:
  assumes "stream s' = stream s" "transactions s' = transactions s"
  shows "traced s s'"
  by (rule tracedI [of "[]" "[]" _ _ False]) (simp_all add: assms)

lemma traced_refl [simp]: "traced s s"
  by (rule traced_same) simp_all

lemma traced_trans:
  assumes "traced s s1" "traced s1 s2"
  shows "traced s s2"
proof -
  obtain es held ka where a: "well_nested es" "list_all quiet held" "stream s1 = stream s @ es"
    "transactions s1 = later held ka (transactions s)"
    using assms(1) unfolding traced_def by blast
  obtain fs kept kb where b: "well_nested fs" "list_all quiet kept" "stream s2 = stream s1 @ fs"
    "transactions s2 = later kept kb (transactions s1)"
    using assms(2) unfolding traced_def by blast
  show ?thesis
    by (rule tracedI [of "es @ fs" "held @ kept" _ _ "ka \<or> kb"]) (use a b in \<open>simp_all add: well_nested_append\<close>)
qed

text \<open>Asking to keep the variables is invisible to the events.\<close>

lemma preserve_traced [traced_intros]: "traced s (eval_command_tx_preserve_scope_vars_on_failure s)"
  by (rule tracedI [of "[]" "[]" _ _ True])
    (simp_all add: eval_command_tx_preserve_scope_vars_on_failure_def later_def split: list.split)

text \<open>Operations that touch neither the stream nor the transactions.\<close>

definition same_events :: "'sem interp \<Rightarrow> 'sem interp \<Rightarrow> bool" where
  "same_events s s' \<longleftrightarrow> stream s' = stream s \<and> transactions s' = transactions s"

lemma traced_after_same: "traced s0 s \<Longrightarrow> same_events s s' \<Longrightarrow> traced s0 s'"
  by (erule traced_trans) (simp add: same_events_def traced_same)

lemma same_events_trans: "same_events s s1 \<Longrightarrow> same_events s1 s2 \<Longrightarrow> same_events s s2"
  by (simp add: same_events_def)

lemma same_events_fields [simp]:
  "same_events s s"
  "same_events s (t\<lparr>ev := c\<rparr>) = same_events s t"
  "same_events s (t\<lparr>block_frames := b\<rparr>) = same_events s t"
  "same_events s (t\<lparr>exec_contexts := x\<rparr>) = same_events s t"
  "same_events s (t\<lparr>exec_depth := n\<rparr>) = same_events s t"
  "same_events s (t\<lparr>return_propagate_vars := v\<rparr>) = same_events s t"
  "same_events s (t\<lparr>commands := cs\<rparr>) = same_events s t"
  by (simp_all add: same_events_def)

lemma same_events_on_ev [simp]: "same_events s (snd (on_ev f t)) = same_events s t"
  by (simp add: on_ev_def split: prod.split)

lemma on_ev_same: "on_ev f s = (r, s') \<Longrightarrow> same_events s s'"
  by (auto simp: on_ev_def split: prod.splits)

lemma same_events_ops [simp]:
  "same_events s (flow_error name cause t) = same_events s t"
  "same_events s (update_frame i f t) = same_events s t"
  "same_events s (eval_exec_push fr t) = same_events s t"
  "same_events s (eval_exec_pop t) = same_events s t"
  "same_events s (enter_loop i t) = same_events s t"
  "same_events s (leave_loop i t) = same_events s t"
  "same_events s (clear_flow_at i t) = same_events s t"
  "same_events s (mark_blocks t) = same_events s t"
  by (simp_all add: flow_error_def update_frame_def eval_exec_push_def eval_exec_pop_def enter_loop_def
      leave_loop_def clear_flow_at_def mark_blocks_def Let_def)

lemma same_events_clear_return [simp]: "same_events s (eval_clear_return_state t) = same_events s t"
  by (simp add: eval_clear_return_state_def Let_def split: option.split)

lemma traced_ops [simp]:
  "traced s (leave_loop i t) = traced s t"
  "traced s (enter_loop i t) = traced s t"
  "traced s (clear_flow_at i t) = traced s t"
  by (simp_all add: traced_def enter_loop_def leave_loop_def clear_flow_at_def update_frame_def)

lemma same_events_request:
  "request_in_loop sig s = (ok, s') \<Longrightarrow> same_events s s'"
  "eval_exec_request_return s = (ok, s') \<Longrightarrow> same_events s s'"
  "eval_exec_request_break s = (ok, s') \<Longrightarrow> same_events s s'"
  "eval_exec_request_continue s = (ok, s') \<Longrightarrow> same_events s s'"
  by (auto simp: request_in_loop_def eval_exec_request_return_def eval_exec_request_break_def
      eval_exec_request_continue_def split: option.splits if_splits)

lemma emit_event_traced:
  assumes "emit_event e s = (ok, s')" "quiet e"
  shows "traced s s'"
proof -
  have q: "\<not> emits_immediately e" and n: "well_nested [e]"
    using assms(2) quiet_nested [of "[e]" "[]"]
    by (cases e; simp add: quiet_def keep_on_failure_def emits_immediately_def well_nested_def)+
  have "s' = s \<or> (transactions s = [] \<and> s' = s\<lparr>stream := stream s @ [e]\<rparr>) \<or>
    (\<exists>t ts. transactions s = t # ts \<and> s' = s\<lparr>transactions := t\<lparr>held_events := held_events t @ [e]\<rparr> # ts\<rparr>)"
    using assms(1) q
    by (auto simp: emit_event_def eval_command_tx_push_event_def eval_emit_event_direct_def
        split: if_splits list.splits)
  then show ?thesis
  proof (elim disjE exE conjE)
    assume "transactions s = []" "s' = s\<lparr>stream := stream s @ [e]\<rparr>"
    then show ?thesis by (intro tracedI [of "[e]" "[]" _ _ False]) (simp_all add: n)
  next
    fix t ts assume "transactions s = t # ts" "s' = s\<lparr>transactions := t\<lparr>held_events := held_events t @ [e]\<rparr> # ts\<rparr>"
    then show ?thesis using assms(2) by (intro tracedI [of "[]" "[e]" _ _ False]) (simp_all add: later_def)
  qed simp
qed

lemma quiet_events [simp]:
  "quiet (Event_If_Eval b)" "quiet (Event_Branch_Taken w)" "quiet (Event_Loop_Begin w)"
  "quiet (Event_Loop_End w n)" "quiet (Event_Break n)" "quiet (Event_Continue n)"
  "quiet (Event_Block_Begin a b d)" "quiet (Event_Block_End a b)" "quiet (Event_Function_Begin w n)"
  "quiet (Event_Function_End w b)" "quiet (Event_Macro_Begin w n)" "quiet (Event_Macro_End w b)"
  "quiet (Event_List k w)" "quiet (Event_Math_Expr w w')" "quiet (Event_Other w)"
  by (simp_all add: quiet_def keep_on_failure_def)


section \<open>Outcomes\<close>

definition trace_ok :: "'sem interp \<Rightarrow> 'sem outcome \<Rightarrow> bool" where
  "trace_ok s0 out \<longleftrightarrow> (case out of None \<Rightarrow> True | Some (r, s') \<Rightarrow> traced s0 s')"

lemma trace_ok_simps [simp]:
  "trace_ok s0 None"
  "trace_ok s0 (Some (r, s)) = traced s0 s"
  "trace_ok s0 (fatal s) = traced s0 s"
  "trace_ok s0 (result_from s) = traced s0 s"
  by (simp_all add: trace_ok_def fatal_def result_from_def)

lemma emit_then_traced:
  assumes "traced s0 s" "quiet e" "\<And>s1. traced s0 s1 \<Longrightarrow> trace_ok s0 (k s1)"
  shows "trace_ok s0 (emit_then e s k)"
proof (cases "emit_event e s")
  case (Pair ok s1)
  then have "traced s0 s1" using emit_event_traced [OF Pair assms(2)] assms(1) by (blast intro: traced_trans)
  then show ?thesis using assms(3) Pair by (simp add: emit_then_def)
qed

lemma trace_ok_splits:
  "(b \<Longrightarrow> trace_ok s0 x) \<Longrightarrow> (\<not> b \<Longrightarrow> trace_ok s0 y) \<Longrightarrow> trace_ok s0 (if b then x else y)"
  "(\<And>u v. q = (u, v) \<Longrightarrow> trace_ok s0 (f u v)) \<Longrightarrow> trace_ok s0 (case q of (u, v) \<Rightarrow> f u v)"
  by (simp_all split: prod.split)

definition runner_traced :: "'sem runner \<Rightarrow> bool" where
  "runner_traced run \<longleftrightarrow> (\<forall>nds t. trace_ok t (run nds t))"

lemma run_traced: "runner_traced run \<Longrightarrow> traced s0 s \<Longrightarrow> trace_ok s0 (run nds s)"
  unfolding trace_ok_def runner_traced_def using traced_trans by (fastforce split: option.splits)

section \<open>Conditionals and loops\<close>

lemma elseif_chain_traced:
  assumes run: "runner_traced run"
  shows "traced s0 s \<Longrightarrow> trace_ok s0 (elseif_chain p run clauses else_block s)"
proof (induction clauses arbitrary: s)
  case Nil
  then show ?case using run_traced [OF run] by (auto intro!: emit_then_traced)
next
  case (Cons cl clauses)
  obtain condition block where cl: "cl = ElseIf_Clause condition block" by (cases cl)
  obtain cond s1 where c: "on_ev (eval_condition (world p s) condition) s = (cond, s1)" by (rule prod.exhaust)
  then have "traced s0 s1" using traced_after_same [OF Cons.prems on_ev_same [OF c]] by simp
  then show ?case using c cl Cons.IH run_traced [OF run] by (auto intro!: emit_then_traced)
qed

lemma eval_if_traced:
  assumes run: "runner_traced run" and s: "traced s0 s"
  shows "trace_ok s0 (eval_if p run condition then_block clauses else_block s)"
proof -
  obtain cond s1 where c: "on_ev (eval_condition (world p s) condition) s = (cond, s1)" by (rule prod.exhaust)
  then have "traced s0 s1" using traced_after_same [OF s on_ev_same [OF c]] by simp
  then show ?thesis using c run_traced [OF run] elseif_chain_traced [OF run]
    by (auto simp: eval_if_def intro!: emit_then_traced)
qed

definition loop_trace_ok :: "'sem interp \<Rightarrow> 'sem loop_outcome \<Rightarrow> bool" where
  "loop_trace_ok s0 out \<longleftrightarrow> (case out of None \<Rightarrow> True | Some (how, n, r, s') \<Rightarrow> traced s0 s')"

lemma loop_trace_ok_simps [simp]:
  "loop_trace_ok s0 None"
  "loop_trace_ok s0 (Some (how, n, r, s)) = traced s0 s"
  by (simp_all add: loop_trace_ok_def)

lemma foreach_loop_traced:
  assumes run: "runner_traced run"
  shows "traced s0 s \<Longrightarrow> loop_trace_ok s0 (foreach_loop run i var body its n agg s)"
proof (induction its arbitrary: s n agg)
  case (Cons item rest)
  obtain ok s1 where o: "on_ev (eval_var_set_current var item) s = (ok, s1)" by (rule prod.exhaust)
  have s1: "traced s0 s1" using traced_after_same [OF Cons.prems on_ev_same [OF o]] .
  show ?case
  proof (cases "run body s1")
    case (Some out)
    obtain r s2 where out: "out = (r, s2)" by (rule prod.exhaust)
    have s2: "traced s0 s2" using run_traced [OF run s1, of body] Some out by simp
    then have "traced s0 (clear_flow_at i s2)" by (rule traced_after_same) simp
    then show ?thesis using o s1 s2 Some out Cons.IH
      by (simp add: Let_def split: flow_signal.split)
  qed (use o s1 in simp)
qed simp

lemma while_loop_traced:
  assumes run: "runner_traced run"
  shows "traced s0 s \<Longrightarrow> loop_trace_ok s0 (while_loop p run i condition body limit n agg s)"
proof (induction limit arbitrary: s n agg)
  case (Suc allowed)
  obtain cond s1 where c: "on_ev (eval_condition (world p s) condition) s = (cond, s1)" by (rule prod.exhaust)
  have s1: "traced s0 s1" using traced_after_same [OF Suc.prems on_ev_same [OF c]] .
  obtain ok s2 where e: "emit_event (Event_If_Eval cond) s1 = (ok, s2)" by (rule prod.exhaust)
  have s2: "traced s0 s2" using s1 emit_event_traced [OF e] by (auto intro: traced_trans)
  show ?case
  proof (cases "run body s2")
    case (Some out)
    obtain r s3 where out: "out = (r, s3)" by (rule prod.exhaust)
    have s3: "traced s0 s3" using run_traced [OF run s2, of body] Some out by simp
    then have "traced s0 (clear_flow_at i s3)" by (rule traced_after_same) simp
    then show ?thesis using c e s2 s3 Some out Suc.IH
      by (simp add: Let_def split: flow_signal.split)
  qed (use c e s2 in simp)
qed simp

lemma run_foreach_traced:
  assumes run: "runner_traced run" and s: "traced s0 s"
  shows "trace_ok s0 (run_foreach run new var its body s)"
  unfolding run_foreach_def Let_def
proof (rule emit_then_traced [OF s])
  fix s1 assume s1: "traced s0 s1"
  define i where "i = exec_depth s1 - 1"
  have "traced s0 (enter_loop i s1)" using s1 by (rule traced_after_same) simp
  from foreach_loop_traced [OF run this, of i var body its 0 EVAL_RESULT_OK]
  show "trace_ok s0
    (if exec_depth s1 = 0 then fatal s1
     else case foreach_loop run (exec_depth s1 - 1) var body its 0 EVAL_RESULT_OK (enter_loop (exec_depth s1 - 1) s1) of
            None \<Rightarrow> None
          | Some (how, iter_count, aggregate, s2) \<Rightarrow>
              if how \<noteq> Loop_Ended then Some (aggregate, leave_loop (exec_depth s1 - 1) s2)
              else emit_then (Event_Loop_End ''foreach'' (u32 iter_count)) (leave_loop (exec_depth s1 - 1) s2)
                     (\<lambda>s4. case on_ev (restore_loop_var new (eval_var_defined_visible (ev s) var)
                                         (eval_var_get_visible (ev s) var) var) s4 of
                              (ok, s5) \<Rightarrow> if \<not> ok then fatal s5
                                else Some (eval_result_merge aggregate (eval_result_ok_if_running s5), s5)))"
    unfolding i_def [symmetric]
    by (auto simp: s1 split: option.split prod.split intro!: emit_then_traced
        intro: traced_after_same dest!: on_ev_same)
qed simp

lemma eval_foreach_traced:
  assumes run: "runner_traced run" and s: "traced s0 s"
  shows "trace_ok s0 (eval_foreach run args body s)"
proof -
  obtain a s1 where a: "on_ev (eval_resolve_args args) s = (a, s1)" by (rule prod.exhaust)
  have s1: "traced s0 s1" using traced_after_same [OF s on_ev_same [OF a]] .
  obtain new s2 where n: "on_ev (eval_policy_is_new ''CMP0124'') s1 = (new, s2)" by (rule prod.exhaust)
  have s2: "traced s0 s2" using traced_after_same [OF s1 on_ev_same [OF n]] .
  then show ?thesis using a n s1 run_foreach_traced [OF run]
    by (auto simp: eval_foreach_def split: foreach_items.split intro: traced_after_same)
qed

lemma eval_while_traced:
  assumes run: "runner_traced run" and s: "traced s0 s"
  shows "trace_ok s0 (eval_while p run condition body s)"
proof -
  obtain agg n s1 where l: "eval_while_iteration_limit s = (agg, n, s1)" by (rule prod_cases3)
  have s1: "traced s0 s1" using l s
    by (auto simp: eval_while_iteration_limit_def Let_def split: if_splits option.splits prod.splits
        intro: traced_after_same dest!: on_ev_same)
  have body: "loop_trace_ok s0 (while_loop p run i condition body n 0 agg (enter_loop i s2))"
    if "traced s0 s2" for i s2
    by (rule while_loop_traced [OF run traced_after_same [OF that]]) simp
  have k: "trace_ok s0
     (case while_loop p run i condition body n 0 agg (enter_loop i s2) of
        None \<Rightarrow> None
      | Some (how, iter_count, aggregate, s3) \<Rightarrow>
          (case how of
             Loop_Ended \<Rightarrow> emit_then (Event_Loop_End ''while'' (u32 iter_count)) (leave_loop i s3) (\<lambda>s5. Some (aggregate, s5))
           | Loop_Limit \<Rightarrow>
               (case on_ev (eval_emit_diag_result False DIAG_SEV_ERROR ''while'' ''Iteration limit exceeded'') (leave_loop i s3) of
                  (r, s5) \<Rightarrow> Some (eval_result_merge EVAL_RESULT_SOFT_ERROR r, s5))
           | _ \<Rightarrow> Some (aggregate, leave_loop i s3)))"
    if "traced s0 s2" for i s2
    using body [OF that, of i]
    by (auto split: option.split prod.split loop_exit.split intro!: emit_then_traced
        intro: traced_after_same [rotated] dest!: on_ev_same)
  show ?thesis
    unfolding eval_while_def Let_def using l s1 k by (auto simp del: One_nat_def intro!: emit_then_traced)
qed

section \<open>Blocks and the flow commands\<close>

lemma same_fields:
  "stream (eval_exec_pop t) = stream t" "transactions (eval_exec_pop t) = transactions t"
  "stream (flow_error name cause t) = stream t" "transactions (flow_error name cause t) = transactions t"
  using same_events_ops(4) [of t t] same_events_ops(1) [of t name cause t] by (simp_all add: same_events_def)

lemma on_ev_fields: "on_ev f s = (r, s') \<Longrightarrow> stream s' = stream s \<and> transactions s' = transactions s"
  using on_ev_same [of f s r s'] by (simp add: same_events_def)

lemma block_pop_frame_same: "block_pop_frame name for_return s = (ok, ended, s') \<Longrightarrow> same_events s s'"
  by (auto simp: block_pop_frame_def Let_def same_events_def same_fields split: list.splits if_splits prod.splits
      dest!: on_ev_fields)

lemma unwind_step_traced:
  assumes "eval_unwind_blocks_for_return s = Some y"
  shows "traced s (snd y)"
proof (rule eval_unwind_blocks_for_return.raw_induct [of "\<lambda>s y. traced s (snd y)", OF _ assms], goal_cases)
  case (1 rec s y)
  obtain popped ended s1 where b: "block_pop_frame ''return'' True s = (popped, ended, s1)" by (rule prod_cases3)
  have s1: "traced s s1" using block_pop_frame_same [OF b] by (rule traced_after_same [OF traced_refl])
  obtain emitted s2 where e: "emit_event (Event_Block_End (propagate_on_return ended) (propagate_vars ended \<noteq> [])) s1 = (emitted, s2)"
    by (rule prod.exhaust)
  have s2: "traced s s2" using emit_event_traced [OF e] s1 by (auto intro: traced_trans)
  show ?case
    using "1"(1) [of s2 y] "1"(2) b e s1 s2 traced_trans [OF s2, of "snd y"]
    by (cases popped; cases emitted; cases "block_active_exec_depth s = 0") auto
qed

lemma unwind_traced: "eval_unwind_blocks_for_return s = Some (ok, s') \<Longrightarrow> traced s s'"
  using unwind_step_traced by fastforce

lemma flow_require_no_args_same: "flow_require_no_args name args s = (ok, s') \<Longrightarrow> same_events s s'"
  by (auto simp: flow_require_no_args_def same_events_def same_fields split: prod.splits if_splits dest!: on_ev_fields)

lemma break_traced: "trace_ok s (eval_handle_break run name args s)"
proof -
  obtain ok s1 where a: "flow_require_no_args name args s = (ok, s1)" by (rule prod.exhaust)
  have s1: "traced s s1" by (rule traced_after_same [OF traced_refl flow_require_no_args_same [OF a]])
  obtain req s2 where r: "eval_exec_request_break s1 = (req, s2)" by (rule prod.exhaust)
  have s2: "traced s s2" by (rule traced_after_same [OF s1 same_events_request(3) [OF r]])
  show ?thesis using a r s1 s2
    by (auto simp: eval_handle_break_def intro!: emit_then_traced intro: traced_after_same)
qed

lemma continue_traced: "trace_ok s (eval_handle_continue run name args s)"
proof -
  obtain ok s1 where a: "flow_require_no_args name args s = (ok, s1)" by (rule prod.exhaust)
  have s1: "traced s s1" by (rule traced_after_same [OF traced_refl flow_require_no_args_same [OF a]])
  obtain req s2 where r: "eval_exec_request_continue s1 = (req, s2)" by (rule prod.exhaust)
  have s2: "traced s s2" by (rule traced_after_same [OF s1 same_events_request(4) [OF r]])
  show ?thesis using a r s1 s2
    by (auto simp: eval_handle_continue_def intro!: emit_then_traced intro: traced_after_same)
qed

lemma return_traced: "trace_ok s (eval_handle_return run name args s)"
proof -
  obtain vals s1 where a: "on_ev (eval_resolve_args args) s = (vals, s1)" by (rule prod.exhaust)
  have s1: "traced s s1" by (rule traced_after_same [OF traced_refl on_ev_same [OF a]])
  obtain new s2 where n: "on_ev (eval_policy_is_new ''CMP0140'') (eval_clear_return_state s1) = (new, s2)" by (rule prod.exhaust)
  have s2: "traced s s2" by (rule traced_after_same [OF s1]) (use on_ev_same [OF n] in \<open>simp add: same_events_trans [of s1 "eval_clear_return_state s1"]\<close>)
  have s5: "traced s s5"
    if "eval_exec_request_return (if return_propagate_vars s3 \<noteq> [] then mark_blocks s3 else s3) = (ok, s5)" "same_events s2 s3"
    for s3 ok s5
    using traced_after_same [OF s2 same_events_trans [OF _ same_events_request(2) [OF that(1)]]] that(2) by simp
  show ?thesis
    unfolding eval_handle_return_def Let_def a n prod.case
    by (intro trace_ok_splits) (auto simp: s1 s2 dest!: s5 intro: traced_after_same [OF s2])
qed

lemma block_parse_options_same: "block_parse_options name args s = (ok, frame, s') \<Longrightarrow> same_events s s'"
  by (auto simp: block_parse_options_def block_option_error_def Let_def split: if_splits prod.splits)

lemma block_traced: "trace_ok s (eval_handle_block run name args s)"
proof -
  obtain vals s1 where a: "on_ev (eval_resolve_args args) s = (vals, s1)" by (rule prod.exhaust)
  have s1: "traced s s1" by (rule traced_after_same [OF traced_refl on_ev_same [OF a]])
  obtain ok frame s2 where b: "block_parse_options name vals s1 = (ok, frame, s2)" by (rule prod_cases3)
  have s2: "traced s s2" by (rule traced_after_same [OF s1 block_parse_options_same [OF b]])
  define s3 where "s3 = (if variable_scope_pushed frame then s2\<lparr>ev := eval_scope_push (ev s2)\<rparr> else s2)"
  obtain pushed s4 where c: "(if policy_scope_pushed frame then on_ev eval_policy_push s3 else (True, s3)) = (pushed, s4)"
    by (rule prod.exhaust)
  have "same_events s2 s3" by (simp add: s3_def)
  moreover have "same_events s3 s4" using c by (auto split: if_splits dest: on_ev_same)
  ultimately have s4: "traced s s4" using traced_after_same [OF s2] same_events_trans by blast
  define s4' where "s4' = eval_exec_push (new_frame EVAL_EXEC_CTX_BLOCK) (s4\<lparr>block_frames := frame # block_frames s4\<rparr>)"
  have s4': "traced s s4'" by (rule traced_after_same [OF s4]) (simp add: s4'_def)
  obtain emitted s5 where e: "emit_event (Event_Block_Begin (variable_scope_pushed frame) (policy_scope_pushed frame)
      (propagate_vars frame \<noteq> [])) s4' = (emitted, s5)" by (rule prod.exhaust)
  have s5: "traced s s5" using traced_trans [OF s4' emit_event_traced [OF e]] by simp
  show ?thesis
    unfolding eval_handle_block_def Let_def
    using a b s1 s2 s4 s5 c [unfolded s3_def] e [unfolded s4'_def]
    by (auto intro: traced_after_same)
qed

lemma endblock_traced: "trace_ok s (eval_handle_endblock run name args s)"
proof -
  obtain ok s1 where a: "flow_require_no_args name args s = (ok, s1)" by (rule prod.exhaust)
  have s1: "traced s s1" by (rule traced_after_same [OF traced_refl flow_require_no_args_same [OF a]])
  obtain popped ended s2 where b: "block_pop_frame name False s1 = (popped, ended, s2)" by (rule prod_cases3)
  have s2: "traced s s2" by (rule traced_after_same [OF s1 block_pop_frame_same [OF b]])
  obtain emitted s3 where e: "emit_event (Event_Block_End (propagate_on_return ended) (propagate_vars ended \<noteq> [])) s2 = (emitted, s3)"
    by (rule prod.exhaust)
  have s3: "traced s s3" using traced_trans [OF s2 emit_event_traced [OF e]] by simp
  show ?thesis using a b e s1 s2 s3
    by (auto simp: eval_handle_endblock_def intro: traced_after_same)
qed

lemma flow_natives_traced: "flow_natives name = Some h \<Longrightarrow> trace_ok s (h run cmd args s)"
  by (auto simp: flow_natives_def break_traced continue_traced return_traced block_traced endblock_traced
      split: if_splits)

section \<open>Invoking and dispatching\<close>

lemma invoke_cleanup_traced:
  assumes "invoke_cleanup kind name ok s = (r, s')" "traced s0 s"
  shows "traced s0 s'"
proof -
  define fn where "fn = (kind = USER_CMD_FUNCTION)"
  define did where "did = (eval_exec_pending_flow s = EVAL_FLOW_RETURN)"
  obtain pr s1 where p: "(if did \<and> return_propagate_vars s \<noteq> [] \<and> fn \<and> length (scopes (ev s)) > 1
      then on_ev (propagate_return (return_propagate_vars s)) s else (True, s)) = (pr, s1)" by (rule prod.exhaust)
  have s1: "same_events s s1" using p by (auto split: if_splits dest: on_ev_same)
  define s2 where "s2 = (if \<not> fn \<and> did then s1 else eval_clear_return_state s1)"
  define s3 where "s3 = eval_exec_pop s2"
  define s4 where "s4 = s3\<lparr>ev := (if fn then eval_scope_pop (ev s3) else eval_macro_frame_pop (ev s3))\<rparr>"
  have "same_events s s4" using s1 by (simp add: s4_def s3_def s2_def)
  then have s4: "traced s0 s4" by (rule traced_after_same [OF assms(2)])
  obtain em s5 where e: "emit_event (if fn then Event_Function_End name did else Event_Macro_End name did) s4 = (em, s5)"
    by (rule prod.exhaust)
  have s5: "traced s0 s5" using traced_trans [OF s4 emit_event_traced [OF e]] by simp
  have "invoke_cleanup kind name ok s =
     (if \<not> em then (False, s5) else if fn \<or> \<not> did then (ok \<and> pr, s5)
      else (case eval_exec_request_return s5 of (requested, s6) \<Rightarrow> ((ok \<and> pr) \<and> requested, s6)))"
    unfolding invoke_cleanup_def Let_def fn_def [symmetric] did_def [symmetric] p prod.case
      s2_def [symmetric] s3_def [symmetric] s4_def [symmetric] e ..
  then show ?thesis using assms(1) s5
    by (auto split: if_splits prod.splits dest: same_events_request(2) intro: traced_after_same)
qed

lemma user_cmd_invoke_traced:
  assumes run: "runner_traced run" and s: "traced s0 s"
    and inv: "eval_user_cmd_invoke run name args s = Some (r, s')"
  shows "traced s0 s'"
proof (cases "stopped s \<or> eval_user_cmd_find name s = None")
  case True
  then have "eval_user_cmd_invoke run name args s = Some (False, s)"
    by (rule disjE) (simp_all add: eval_user_cmd_invoke_def)
  then show ?thesis using inv s by simp
next
  case False
  then obtain cmd where cmd: "eval_user_cmd_find name s = Some cmd" by auto
  define fn where "fn = (uc_kind cmd = USER_CMD_FUNCTION)"
  define s2 where "s2 = eval_exec_push (new_frame (if fn then EVAL_EXEC_CTX_FUNCTION else EVAL_EXEC_CTX_MACRO))
    (s\<lparr>ev := (if fn then eval_scope_push (ev s) else eval_macro_frame_push (ev s))\<rparr>)"
  have s2: "traced s0 s2" by (rule traced_after_same [OF s]) (simp add: s2_def)
  obtain em s3 where e: "emit_event (if fn then Event_Function_Begin name (u32 (length args))
    else Event_Macro_Begin name (u32 (length args))) s2 = (em, s3)" by (rule prod.exhaust)
  have s3: "traced s0 s3" using traced_trans [OF s2 emit_event_traced [OF e]] by simp
  obtain bound s4 where b: "on_ev (bind_all (if fn then eval_var_set_current else eval_macro_bind_set)
    (invocation_bindings (uc_params cmd) args)) s3 = (bound, s4)" by (rule prod.exhaust)
  have s4: "traced s0 s4" by (rule traced_after_same [OF s3 on_ev_same [OF b]])
  have body: "trace_ok s0 (run (uc_body cmd) s4)" by (rule run_traced [OF run s4])
  have eq: "eval_user_cmd_invoke run name args s =
      (if \<not> em then
         Some (False, (eval_exec_pop s3)\<lparr>ev := (if fn then eval_scope_pop (ev (eval_exec_pop s3))
                                                else eval_macro_frame_pop (ev (eval_exec_pop s3)))\<rparr>)
       else if \<not> bound then Some (invoke_cleanup (uc_kind cmd) name False s4)
       else (case run (uc_body cmd) s4 of
               None \<Rightarrow> None
             | Some (r, s5) \<Rightarrow> Some (invoke_cleanup (uc_kind cmd) name (r \<noteq> EVAL_RESULT_FATAL) s5)))"
    using False cmd
    unfolding eval_user_cmd_invoke_def Let_def
    by (simp add: fn_def [symmetric] s2_def [symmetric] e b)
  have "traced s0 ((eval_exec_pop s3)\<lparr>ev := c\<rparr>)" for c
    by (rule traced_after_same [OF s3]) simp
  then show ?thesis using inv body s4
    unfolding eq by (auto split: if_splits option.splits dest: invoke_cleanup_traced)
qed

definition blank_transaction :: "bool \<Rightarrow> transaction" where
  "blank_transaction preserve = \<lparr>held_events = [], preserve_scope_vars_on_failure = preserve\<rparr>"

lemma open_command_fields:
  assumes "open_command preserve name kind argc s = (opened, s1)"
  shows "opened \<longleftrightarrow> \<not> stopped s" and "ev s1 = ev s"
    and "transactions s1 = blank_transaction preserve # transactions s"
    and "stream s1 = stream s @ (if opened then [Event_Command_Begin name kind argc] else [])"
  using assms
  by (auto simp: open_command_def emit_event_def eval_command_tx_push_event_def eval_command_tx_begin_def Let_def
      eval_emit_event_direct_def emits_immediately_def eval_command_tx_preserve_scope_vars_on_failure_def
      blank_transaction_def stopped_def split: if_splits)

lemma tx_finish_fields:
  assumes "transactions s = t # ts"
  shows "stream (eval_command_tx_finish before commit s) =
      stream s @ (if commit then held_events t else filter keep_on_failure (held_events t))"
    and "transactions (eval_command_tx_finish before commit s) = ts"
  using assms by (simp_all add: eval_command_tx_finish_def restore_state_def Let_def)

lemma quiet_dropped: "list_all quiet es \<Longrightarrow> filter keep_on_failure es = []"
  by (induction es) (auto simp: quiet_def)

text \<open>A command that could not be opened leaves nothing in the stream.\<close>

lemma not_opened_traced:
  assumes "open_command preserve name kind argc s = (False, s1)" "traced s0 s"
  shows "traced s0 (eval_command_tx_finish s False s1)"
proof -
  have "same_events s (eval_command_tx_finish s False s1)"
    using open_command_fields [OF assms(1)] by (simp add: same_events_def tx_finish_fields blank_transaction_def)
  then show ?thesis by (rule traced_after_same [OF assms(2)])
qed

text \<open>The state in which a command's transaction is finished: its end event is held back, too.\<close>

lemma close_command_held:
  assumes "transactions s2 = t # ts"
  shows "close_command s name kind argc status commit s2 =
    eval_command_tx_finish s commit
      (s2\<lparr>transactions := t\<lparr>held_events := held_events t @ [Event_Command_End name kind argc status]\<rparr> # ts\<rparr>)"
  using assms
  by (simp add: close_command_def eval_emit_command_end_def eval_command_tx_push_event_def emits_immediately_def)

lemma close_command_traced:
  assumes o: "open_command preserve name kind argc s = (opened, s1)" and opened: opened
    and s: "traced s0 s" and t: "traced s1 s2"
  shows "traced s0 (close_command s name kind argc status commit s2)"
proof -
  obtain es held keep where n: "well_nested es" "list_all quiet held"
    and s2: "stream s2 = stream s @ Event_Command_Begin name kind argc # es"
      "transactions s2 = \<lparr>held_events = held, preserve_scope_vars_on_failure = keep\<rparr> # transactions s"
    using t open_command_fields [OF o] opened unfolding traced_def by (auto simp: later_def blank_transaction_def)
  define e where "e = Event_Command_End name kind argc status"
  have k: "keep_on_failure e" by (simp add: e_def keep_on_failure_def)
  define s' where "s' = close_command s name kind argc status commit s2"
  define kept where "kept = (if commit then held else [])"
  have fin: "stream s' = stream s @ (Event_Command_Begin name kind argc # es @ kept @ [e])" "transactions s' = transactions s"
    using k s2 n(2)
    by (simp_all add: s'_def close_command_held [OF s2(2)] tx_finish_fields kept_def quiet_dropped e_def [symmetric])
  have "well_nested (Event_Command_Begin name kind argc # es @ kept @ [e])"
    unfolding e_def by (rule bracketed_nested) (use n in \<open>simp_all add: kept_def\<close>)
  then have "traced s s'" using fin by (intro tracedI [of _ "[]" _ _ False]) simp_all
  then show ?thesis unfolding s'_def by (rule traced_trans [OF s])
qed

lemma dispatch_native_traced:
  assumes "\<And>t. trace_ok t (h run name args t)" and s: "traced s0 s"
  shows "trace_ok s0 (dispatch_native h run name args s)"
proof -
  obtain opened s1 where o: "open_command False name EVENT_COMMAND_DISPATCH_BUILTIN (u32 (length args)) s = (opened, s1)"
    by (rule prod.exhaust)
  show ?thesis
  proof (cases opened)
    case True
    have "trace_ok s1 (h run name args s1)" by (rule assms(1))
    then show ?thesis using o True close_command_traced [OF o True s]
      by (cases "h run name args s1") (auto simp: dispatch_native_def Let_def)
  qed (use o s not_opened_traced in \<open>auto simp: dispatch_native_def Let_def\<close>)
qed

lemma dispatch_user_traced:
  assumes run: "runner_traced run" and s: "traced s0 s"
  shows "trace_ok s0 (dispatch_user run user name args s)"
proof -
  define kind where "kind = (if uc_kind user = USER_CMD_MACRO then EVENT_COMMAND_DISPATCH_MACRO else EVENT_COMMAND_DISPATCH_FUNCTION)"
  define resolve where "resolve = (if uc_kind user = USER_CMD_MACRO then eval_resolve_args_literal args else eval_resolve_args args)"
  obtain opened s1 where o: "open_command True name kind (u32 (length args)) s = (opened, s1)" by (rule prod.exhaust)
  show ?thesis
  proof (cases opened)
    case True
    obtain vals s2 where a: "on_ev resolve s1 = (vals, s2)" by (rule prod.exhaust)
    have s2: "traced s1 s2" by (rule traced_after_same [OF traced_refl on_ev_same [OF a]])
    note close = close_command_traced [OF o True s]
    show ?thesis
    proof (cases "eval_user_cmd_invoke run name vals s2")
      case None
      then show ?thesis unfolding dispatch_user_def Let_def kind_def [symmetric] resolve_def [symmetric]
        using o True a s2 close by (simp del: One_nat_def)
    next
      case (Some out)
      obtain ok s3 where out: "out = (ok, s3)" by (rule prod.exhaust)
      have s3: "traced s1 s3" using user_cmd_invoke_traced [OF run s2] Some out by simp
      show ?thesis unfolding dispatch_user_def Let_def kind_def [symmetric] resolve_def [symmetric]
        using o True a s2 s3 Some out close by (cases ok) simp_all
    qed
  next
    case False
    then show ?thesis unfolding dispatch_user_def Let_def kind_def [symmetric] resolve_def [symmetric]
      using o s not_opened_traced by auto
  qed
qed

lemma dispatch_unknown_traced:
  assumes s: "traced s0 s"
  shows "trace_ok s0 (dispatch_unknown name args s)"
proof -
  obtain opened s1 where o: "open_command False name EVENT_COMMAND_DISPATCH_UNKNOWN (u32 (length args)) s = (opened, s1)"
    by (rule prod.exhaust)
  obtain r s2 where d: "on_ev (eval_emit_diag_result True DIAG_SEV_WARNING name ''Unknown command'') s1 = (r, s2)"
    by (rule prod.exhaust)
  have s2: "traced s1 s2" by (rule traced_after_same [OF traced_refl on_ev_same [OF d]])
  show ?thesis
  proof (cases opened)
    case True
    then show ?thesis using o d s2 close_command_traced [OF o True s s2]
      by (simp add: dispatch_unknown_def Let_def)
  qed (use o s not_opened_traced in \<open>auto simp: dispatch_unknown_def Let_def\<close>)
qed

section \<open>Platforms\<close>

text \<open>Native commands that keep the discipline when their runner does.\<close>

locale traced_platform =
  fixes p :: "'sem platform"
  assumes natives_traced:
    "natives p name = Some h \<Longrightarrow> runner_traced run \<Longrightarrow> trace_ok s (h run cmd args s)"
begin

lemma dispatch_traced:
  assumes "runner_traced run" "traced s0 s"
  shows "trace_ok s0 (eval_dispatch_command p run name args s)"
  using assms natives_traced
  by (auto simp: eval_dispatch_command_def eval_native_cmd_find_def
      split: option.split intro: dispatch_native_traced dispatch_user_traced dispatch_unknown_traced)

lemma run_node_traced:
  assumes "runner_traced run" "traced s0 s"
  shows "trace_ok s0 (run_node p run nd s)"
proof -
  have reg: "trace_ok s0 (register_node kind name params body s)" for kind name params body
    using assms(2) by (auto simp: register_node_def eval_user_cmd_register_def intro: traced_after_same)
  show ?thesis
    using assms reg
    by (cases nd) (simp_all add: run_node_def dispatch_traced eval_if_traced eval_foreach_traced eval_while_traced)
qed

lemma eval_node_traced:
  assumes run: "runner_traced run" and s: "traced s0 s"
  shows "trace_ok s0 (eval_node p run nd s)"
proof -
  define s1 where "s1 = s\<lparr>ev := eval_refresh_runtime_compat (ev s)\<rparr>"
  have s1: "traced s0 s1" by (rule traced_after_same [OF s]) (simp add: s1_def)
  obtain ok s2 where a: "on_ev (eval_var_set_current ''CMAKE_CURRENT_LIST_LINE'' (nat_text (node_line nd))) s1 = (ok, s2)"
    by (rule prod.exhaust)
  have s2: "traced s0 s2" by (rule traced_after_same [OF s1 on_ev_same [OF a]])
  show ?thesis
    unfolding eval_node_def Let_def s1_def [symmetric]
    using s s1 s2 a run_node_traced [OF run s2, of nd]
    by (auto split: option.split)
qed

lemma node_list_traced:
  assumes run: "runner_traced run"
  shows "traced s0 s \<Longrightarrow> trace_ok s0 (node_list p run nds agg s)"
proof (induction nds arbitrary: agg s)
  case (Cons nd nds)
  have "trace_ok s0 (eval_node p run nd s)" by (rule eval_node_traced [OF run Cons.prems])
  then show ?case using Cons.IH
    by (auto simp: Let_def split: option.split flow_signal.split dest!: unwind_traced intro: traced_trans)
qed simp

lemma eval_run_traced: "runner_traced (eval_run n p)"
proof (induction n)
  case (Suc n)
  then show ?case using node_list_traced [OF Suc traced_refl] by (simp add: runner_traced_def)
qed (simp add: runner_traced_def)

end

text \<open>The platform whose native commands are the flow commands.\<close>

definition flow_platform :: "('sem interp \<Rightarrow> cond_world) \<Rightarrow> 'sem platform" where
  "flow_platform w = \<lparr>natives = flow_natives, world = w\<rparr>"

interpretation flow: traced_platform "flow_platform w" for w
  by unfold_locales (auto simp: flow_platform_def dest: flow_natives_traced)

end
