(* ===== verification/Eval_Ends.thy ===== *)
theory Eval_Ends
  imports Eval_Trace Eval_Frame
begin

text \<open>
  Scripts that define no commands and call only commands that keep the frames in order come to an
  end. The frames are in order when every execution
  frame of a block has its block frame, and every block frame that pushed a policy level has one
  to pop; the flow commands keep that, so that a return always gets out of its blocks.
\<close>

section \<open>Frames in order\<close>

definition kinds :: "'sem interp \<Rightarrow> exec_kind list" where
  "kinds s = map frame_kind (take (exec_depth s) (exec_contexts s))"

definition nblocks :: "'sem interp \<Rightarrow> nat" where
  "nblocks s = length (filter (\<lambda>k. k = EVAL_EXEC_CTX_BLOCK) (kinds s))"

definition npolicies :: "block_frame list \<Rightarrow> nat" where
  "npolicies bs = length (filter policy_scope_pushed bs)"

definition in_order :: "'sem interp \<Rightarrow> bool" where
  "in_order s \<longleftrightarrow>
     commands s = [] \<and> exec_depth s \<le> length (exec_contexts s) \<and> scopes (ev s) \<noteq> [] \<and>
     nblocks s \<le> length (block_frames s) \<and> npolicies (block_frames s) \<le> length (policy_levels (ev s)) - 1"

text \<open>What \<open>in_order\<close> looks at.\<close>

lemma in_order_cong:
  assumes "in_order s" "commands s' = []" "exec_depth s' \<le> length (exec_contexts s')" "kinds s' = kinds s"
    "block_frames s' = block_frames s" "length (scopes (ev s')) = length (scopes (ev s))"
    "length (policy_levels (ev s')) - 1 = length (policy_levels (ev s)) - 1"
  shows "in_order s'"
proof -
  have "scopes (ev s') \<noteq> []" using assms(1,6) by (auto simp: in_order_def)
  then show ?thesis using assms by (simp add: in_order_def nblocks_def)
qed

lemma in_order_ev:
  assumes "in_order s" "length (scopes c) = length (scopes (ev s))" "length (policy_levels c) - 1 = length (policy_levels (ev s)) - 1"
  shows "in_order (s\<lparr>ev := c\<rparr>)"
  by (rule in_order_cong [OF assms(1)]) (use assms in \<open>simp_all add: in_order_def kinds_def\<close>)

lemma in_order_on_ev:
  assumes "on_ev f s = (r, s')" "in_order s" "\<And>r c. f (ev s) = (r, c) \<Longrightarrow> steady (ev s) c"
  shows "in_order s'"
  using assms by (auto simp: on_ev_def steady_def outer_kept_def split: prod.splits intro: in_order_ev)

lemma in_order_fields [simp]:
  "in_order (s\<lparr>stream := x\<rparr>) = in_order s"
  "in_order (s\<lparr>transactions := t\<rparr>) = in_order s"
  "in_order (s\<lparr>return_propagate_vars := v\<rparr>) = in_order s"
  "in_order (s\<lparr>semantic := m\<rparr>) = in_order s"
  by (simp_all add: in_order_def nblocks_def kinds_def)

lemma in_order_emit: "emit_event e s = (ok, s') \<Longrightarrow> in_order s' = in_order s \<and> (ok \<longleftrightarrow> \<not> stopped s) \<and> ev s' = ev s"
  by (auto simp: emit_event_def eval_command_tx_push_event_def eval_emit_event_direct_def
      split: if_splits list.splits)

lemma in_order_flow_error: "in_order s \<Longrightarrow> in_order (flow_error name cause s)"
  unfolding flow_error_def
  by (rule in_order_on_ev [OF prod.collapse [symmetric]]) (use emit_steady in \<open>auto simp: prod_eq_iff\<close>)

lemma same_kind_update:
  assumes "frame_kind x = frame_kind (fs ! i)"
  shows "map frame_kind (fs[i := x]) = map frame_kind fs"
proof (cases "i < length fs")
  case True
  then show ?thesis using assms list_update_id [of "map frame_kind fs" i] by (simp add: map_update)
qed (simp add: list_update_beyond)

lemma kinds_update: "(\<And>x. frame_kind (f x) = frame_kind x) \<Longrightarrow> kinds (update_frame i f s) = kinds s"
  by (simp add: kinds_def update_frame_def take_map [symmetric] same_kind_update)

lemma in_order_update: "(\<And>x. frame_kind (f x) = frame_kind x) \<Longrightarrow> in_order s \<Longrightarrow> in_order (update_frame i f s)"
  by (rule in_order_cong [of s]) (auto simp: kinds_update, simp_all add: update_frame_def in_order_def)

lemma in_order_loop [simp]:
  assumes "in_order s"
  shows "in_order (enter_loop i s)" "in_order (leave_loop i s)" "in_order (clear_flow_at i s)"
  using assms by (simp_all add: enter_loop_def leave_loop_def clear_flow_at_def in_order_update)

lemma stopped_update [simp]:
  "stopped (update_frame i f s) = stopped s"
  "stopped (enter_loop i s) = stopped s" "stopped (leave_loop i s) = stopped s" "stopped (clear_flow_at i s) = stopped s"
  by (simp_all add: stopped_def update_frame_def enter_loop_def leave_loop_def clear_flow_at_def)

lemma in_order_request:
  assumes "request_in_loop sig s = (ok, s')" "in_order s"
  shows "in_order s'"
  using assms by (auto simp: request_in_loop_def split: option.splits intro: in_order_update)

lemma return_below_kinds: "map frame_kind (return_below n fs) = map frame_kind fs" "length (return_below n fs) = length fs"
  by (induction n fs rule: return_below.induct) (simp_all add: Let_def same_kind_update)

lemma in_order_request_return:
  assumes "eval_exec_request_return s = (ok, s')" "in_order s"
  shows "in_order s'"
  using assms
  by (auto simp: eval_exec_request_return_def in_order_def nblocks_def kinds_def take_map [symmetric] return_below_kinds
      split: if_splits)

lemma in_order_clear_return: "in_order s \<Longrightarrow> in_order (eval_clear_return_state s)"
  by (auto simp: eval_clear_return_state_def Let_def split: option.split intro!: in_order_update)

lemma in_order_mark: "in_order s \<Longrightarrow> in_order (mark_blocks s)"
proof -
  have f: "npolicies (map (\<lambda>b. b\<lparr>propagate_on_return := True\<rparr>) xs @ ys) = npolicies (xs @ ys)" for xs ys
    by (induction xs) (simp_all add: npolicies_def)
  have "npolicies (block_frames (mark_blocks s)) = npolicies (block_frames s)"
    unfolding mark_blocks_def Let_def by (simp add: f)
  then show "in_order s \<Longrightarrow> in_order (mark_blocks s)"
    by (simp add: in_order_def nblocks_def kinds_def mark_blocks_def Let_def)
qed

section \<open>Policies\<close>

text \<open>
  How the policy operations change the levels. They fail only when the run has been stopped, a
  pop also when there is nothing left to pop.
\<close>

lemma depth_var_frame:
  assumes "policy_set_depth_var ctx = (ok, ctx')"
  shows "steady ctx ctx'" and "scopes ctx \<noteq> [] \<Longrightarrow> policy_levels ctx \<noteq> [] \<Longrightarrow> ok \<or> stop_requested ctx'"
  using assms set_frame(1)
  by (auto simp: policy_set_depth_var_def split: if_splits dest: set_frame(2))

lemma bootstrap_frame:
  assumes "policy_stack_bootstrap ctx = (ok, ctx')" "scopes ctx \<noteq> []"
  shows "outer_kept ctx ctx'" and "ok \<or> stop_requested ctx'"
    and "length (policy_levels ctx') - 1 = length (policy_levels ctx) - 1"
    and "ok \<Longrightarrow> length (policy_levels ctx') = max 1 (length (policy_levels ctx))"
    and "stop_requested ctx \<Longrightarrow> stop_requested ctx'"
proof -
  have "outer_kept ctx c \<and> (r \<or> stop_requested c) \<and> length (policy_levels c) = 1 \<and> (stop_requested ctx \<longrightarrow> stop_requested c)"
    if "policy_set_depth_var (ctx\<lparr>policy_levels := [fresh_level]\<rparr>) = (r, c)" for r c
    using depth_var_frame [OF that] assms(2) by (simp add: steady_def outer_kept_def)
  then show "outer_kept ctx ctx'" "ok \<or> stop_requested ctx'"
    "length (policy_levels ctx') - 1 = length (policy_levels ctx) - 1"
    "ok \<Longrightarrow> length (policy_levels ctx') = max 1 (length (policy_levels ctx))"
    "stop_requested ctx \<Longrightarrow> stop_requested ctx'"
    using assms(1) by (auto simp: policy_stack_bootstrap_def eval_should_stop_def Suc_le_eq split: if_splits)
qed

lemma push_frame:
  assumes "eval_policy_push ctx = (ok, ctx')" "scopes ctx \<noteq> []"
  shows "outer_kept ctx ctx'" and "ok \<or> stop_requested ctx'"
    and "ok \<Longrightarrow> length (policy_levels ctx') = Suc (max 1 (length (policy_levels ctx)))"
proof -
  obtain b c where c: "policy_stack_bootstrap ctx = (b, c)" by (rule prod.exhaust)
  note boot = bootstrap_frame [OF c assms(2)]
  have cs: "scopes c \<noteq> []" using boot(1) assms(2) by (auto simp: outer_kept_def)
  obtain r d where d: "policy_set_depth_var (c\<lparr>policy_levels := fresh_level # policy_levels c\<rparr>) = (r, d)" by (rule prod.exhaust)
  have "outer_kept c d" "r \<or> stop_requested d" "length (policy_levels d) = Suc (length (policy_levels c))"
    using depth_var_frame [OF d] cs by (simp_all add: steady_def outer_kept_def)
  then show "outer_kept ctx ctx'" "ok \<or> stop_requested ctx'"
    "ok \<Longrightarrow> length (policy_levels ctx') = Suc (max 1 (length (policy_levels ctx)))"
    using assms(1) c d boot by (auto simp: eval_policy_push_def eval_should_stop_def split: if_splits intro: outer_kept_trans)
qed

lemma pop_frame:
  assumes "eval_policy_pop ctx = (ok, ctx')" "scopes ctx \<noteq> []" "length (policy_levels ctx) \<ge> 2"
  shows "outer_kept ctx ctx'" and "ok \<or> stop_requested ctx'"
    and "ok \<Longrightarrow> length (policy_levels ctx') = length (policy_levels ctx) - 1"
proof -
  have "policy_levels ctx \<noteq> []" using assms(3) by auto
  then have boot: "policy_stack_bootstrap ctx = (\<not> stop_requested ctx, ctx)"
    by (simp add: policy_stack_bootstrap_def eval_should_stop_def)
  obtain r d where d: "policy_set_depth_var (ctx\<lparr>policy_levels := tl (policy_levels ctx)\<rparr>) = (r, d)" by (rule prod.exhaust)
  have "tl (policy_levels ctx) \<noteq> []" using assms(3) by (cases "policy_levels ctx"; cases "tl (policy_levels ctx)") auto
  then have "outer_kept ctx d" "r \<or> stop_requested d" "length (policy_levels d) = length (policy_levels ctx) - 1"
    using depth_var_frame [OF d] assms(2) by (simp_all add: steady_def outer_kept_def)
  then show "outer_kept ctx ctx'" "ok \<or> stop_requested ctx'"
    "ok \<Longrightarrow> length (policy_levels ctx') = length (policy_levels ctx) - 1"
    using assms boot d by (auto simp: eval_policy_pop_def eval_should_stop_def split: if_splits)
qed

lemma is_new_frame:
  assumes "eval_policy_is_new pol ctx = (v, ctx')" "scopes ctx \<noteq> []"
  shows "outer_kept ctx ctx'" and "length (policy_levels ctx') - 1 = length (policy_levels ctx) - 1"
proof -
  obtain b c where c: "policy_stack_bootstrap ctx = (b, c)" by (rule prod.exhaust)
  have "ctx' = ctx \<or> ctx' = c"
    using assms(1) c
    by (auto simp: eval_policy_is_new_def eval_policy_get_effective_def split: if_splits prod.splits option.splits)
  then show "outer_kept ctx ctx'" "length (policy_levels ctx') - 1 = length (policy_levels ctx) - 1"
    using bootstrap_frame [OF c assms(2)] by auto
qed

lemma in_order_is_new:
  assumes "on_ev (eval_policy_is_new pol) s = (v, s')" "in_order s"
  shows "in_order s'"
proof -
  obtain c where c: "eval_policy_is_new pol (ev s) = (v, c)" "s' = s\<lparr>ev := c\<rparr>"
    using assms(1) by (auto simp: on_ev_def split: prod.splits)
  have "scopes (ev s) \<noteq> []" using assms(2) by (simp add: in_order_def)
  from is_new_frame [OF c(1) this] show ?thesis
    unfolding c(2) by (intro in_order_ev [OF assms(2)]) (simp_all add: outer_kept_def)
qed

section \<open>Leaving blocks\<close>

lemma parent_view_frame:
  assumes "in_parent_view (eval_var_set_current key v) ctx = (ok, ctx')" "length (scopes ctx) > 1"
  shows "length (scopes ctx') = length (scopes ctx)" and "policy_levels ctx' = policy_levels ctx" and "ok \<or> stop_requested ctx'"
proof -
  have ne: "scopes (ctx\<lparr>scopes := tl (scopes ctx)\<rparr>) \<noteq> []" using assms(2) by (cases "scopes ctx") auto
  obtain r c where c: "eval_var_set_current key v (ctx\<lparr>scopes := tl (scopes ctx)\<rparr>) = (r, c)" by (rule prod.exhaust)
  note f = set_frame(1) [OF c] set_frame(2) [OF c ne]
  show "length (scopes ctx') = length (scopes ctx)" "policy_levels ctx' = policy_levels ctx" "ok \<or> stop_requested ctx'"
    using assms c f by (auto simp: in_parent_view_def steady_def outer_kept_def)
qed

lemma propagate_all_frame:
  "propagate_all ks ctx = (ok, ctx') \<Longrightarrow> length (scopes ctx) > 1 \<Longrightarrow>
    length (scopes ctx') = length (scopes ctx) \<and> policy_levels ctx' = policy_levels ctx \<and> (ok \<or> stop_requested ctx')"
proof (induction ks arbitrary: ctx)
  case (Cons key ks)
  obtain r c where c: "in_parent_view (eval_var_set_current key (eval_var_get_visible ctx key)) ctx = (r, c)" by (rule prod.exhaust)
  note f = parent_view_frame [OF c Cons.prems(2)]
  show ?case using Cons.prems Cons.IH [of ctx] Cons.IH [of c] c f by (auto split: if_splits)
qed simp

lemma block_propagate_frame:
  assumes "block_propagate_to_parent_scope frame ctx = (ok, ctx')"
  shows "length (scopes ctx') = length (scopes ctx) \<and> policy_levels ctx' = policy_levels ctx \<and> (ok \<or> stop_requested ctx')"
  using assms propagate_all_frame [of "propagate_vars frame" ctx ok ctx']
  by (auto simp: block_propagate_to_parent_scope_def split: if_splits)

lemma scope_pop_ne: "scopes c \<noteq> [] \<Longrightarrow> scopes (eval_scope_pop c) \<noteq> []"
  by (cases "scopes c"; cases "tl (scopes c)") (auto simp: eval_scope_pop_def)

lemma scope_pop_levels [simp]:
  "policy_levels (eval_scope_pop c) = policy_levels c" "stop_requested (eval_scope_pop c) = stop_requested c"
  by (simp_all add: eval_scope_pop_def)

lemma kinds_pop: "exec_depth s \<le> length (exec_contexts s) \<Longrightarrow> kinds (eval_exec_pop s) = butlast (kinds s)"
  by (auto simp: kinds_def eval_exec_pop_def butlast_take map_butlast [symmetric])

lemma kinds_last:
  assumes "exec_depth s \<le> length (exec_contexts s)" "map_option frame_kind (eval_exec_current s) = Some k"
  shows "kinds s \<noteq> []" and "last (kinds s) = k"
proof -
  have d: "0 < exec_depth s" "frame_kind (exec_contexts s ! (exec_depth s - 1)) = k"
    using assms(2) by (auto simp: eval_exec_current_def split: if_splits)
  then show ne: "kinds s \<noteq> []" using assms(1) by (auto simp: kinds_def)
  have "length (kinds s) = exec_depth s" using assms(1) by (simp add: kinds_def)
  then show "last (kinds s) = k" using d assms(1) last_conv_nth [OF ne] by (simp add: kinds_def)
qed

lemma nblocks_pop:
  assumes "exec_depth s \<le> length (exec_contexts s)" "map_option frame_kind (eval_exec_current s) = Some EVAL_EXEC_CTX_BLOCK"
  shows "nblocks s = Suc (nblocks (eval_exec_pop s))"
proof -
  have "kinds s = butlast (kinds s) @ [EVAL_EXEC_CTX_BLOCK]"
    using append_butlast_last_id [OF kinds_last(1) [OF assms]] kinds_last(2) [OF assms] by simp
  then have "nblocks s = length (filter (\<lambda>k. k = EVAL_EXEC_CTX_BLOCK) (butlast (kinds s) @ [EVAL_EXEC_CTX_BLOCK]))"
    unfolding nblocks_def by simp
  then show ?thesis by (simp add: nblocks_def kinds_pop [OF assms(1)])
qed

text \<open>A block that is left gives back its frames; if that fails, the run has been stopped.\<close>

lemma block_pop_in_order:
  assumes pop: "block_pop_frame name for_return s = (ok, ended, s')" and s: "in_order s" and ne: "block_frames s \<noteq> []"
  shows "if ok then in_order s' \<and> length (block_frames s') < length (block_frames s) else in_order s' \<or> stopped s'"
proof -
  obtain frame frames where bf: "block_frames s = frame # frames" using ne by (cases "block_frames s") auto
  show ?thesis
  proof (cases "map_option frame_kind (eval_exec_current s) = Some EVAL_EXEC_CTX_BLOCK")
    case False
    then show ?thesis using pop bf in_order_flow_error [OF s] by (auto simp: block_pop_frame_def)
  next
    case cur: True
    define s1 where "s1 = s\<lparr>block_frames := frames\<rparr>"
    define vars where "vars = (if for_return \<and> return_propagate_vars s1 \<noteq> [] then return_propagate_vars s1 else propagate_vars frame)"
    obtain r s2 where p: "(if \<not> for_return \<or> propagate_on_return frame
        then on_ev (block_propagate_to_parent_scope (frame\<lparr>propagate_vars := vars\<rparr>)) s1 else (True, s1)) = (r, s2)"
      by (rule prod.exhaust)
    have s2: "length (scopes (ev s2)) = length (scopes (ev s)) \<and> policy_levels (ev s2) = policy_levels (ev s) \<and> (r \<or> stopped s2) \<and>
        s2\<lparr>ev := ev s\<rparr> = s1"
      using p by (auto simp: on_ev_def s1_def stopped_def eval_should_stop_def split: if_splits prod.splits
          dest!: block_propagate_frame)
    obtain popped s3 where q: "(if policy_scope_pushed frame then on_ev eval_policy_pop s2 else (True, s2)) = (popped, s3)"
      by (rule prod.exhaust)
    have pol: "policy_scope_pushed frame \<Longrightarrow> length (policy_levels (ev s2)) \<ge> 2"
      using s s2 bf by (auto simp: in_order_def npolicies_def)
    have sc: "scopes (ev s2) \<noteq> []" using s s2 by (auto simp: in_order_def)
    have s3: "length (scopes (ev s3)) = length (scopes (ev s)) \<and> (popped \<or> stopped s3) \<and> s3\<lparr>ev := ev s\<rparr> = s1 \<and>
        (popped \<longrightarrow> length (policy_levels (ev s3)) = length (policy_levels (ev s)) - (if policy_scope_pushed frame then 1 else 0))"
    proof (cases "policy_scope_pushed frame")
      case True
      obtain c where c: "eval_policy_pop (ev s2) = (popped, c)" "s3 = s2\<lparr>ev := c\<rparr>"
        using q True by (auto simp: on_ev_def split: prod.splits)
      show ?thesis using pop_frame [OF c(1) sc pol [OF True]] s2 True
        by (auto simp: c(2) stopped_def eval_should_stop_def outer_kept_def)
    qed (use q s2 in auto)
    define s4 where "s4 = (if variable_scope_pushed frame then s3\<lparr>ev := eval_scope_pop (ev s3)\<rparr> else s3)"
    have eq: "block_pop_frame name for_return s =
        (if \<not> r then (False, frame, s2)
         else if \<not> popped then (False, frame, flow_error name ''Failed to restore policy scope'' s3)
         else (True, frame, eval_exec_pop s4))"
      using cur unfolding block_pop_frame_def bf Let_def list.case s1_def [symmetric] vars_def [symmetric] p prod.case q s4_def
      by simp
    have err: "stopped s3 \<Longrightarrow> stopped (flow_error name ''Failed to restore policy scope'' s3)"
      using emit_steady [of "ev s3"] by (simp add: flow_error_def on_ev_def stopped_def eval_should_stop_def steady_def case_prod_beta)
    have e: "s3\<lparr>ev := ev s\<rparr> = s1" using s3 by simp
    have ne3: "scopes (ev s3) \<noteq> []" using s arg_cong [OF conjunct1 [OF s3], of "\<lambda>n. n = 0"] by (simp add: in_order_def)
    have s4: "exec_contexts s4 = exec_contexts s" "exec_depth s4 = exec_depth s" "block_frames s4 = frames" "commands s4 = commands s"
      using arg_cong [OF e, of exec_contexts] arg_cong [OF e, of exec_depth]
        arg_cong [OF e, of block_frames] arg_cong [OF e, of commands]
      unfolding s4_def s1_def by simp_all
    have "nblocks s = Suc (nblocks (eval_exec_pop s4))"
      using nblocks_pop [OF _ cur] s s4 by (simp add: in_order_def nblocks_def kinds_def eval_exec_pop_def)
    moreover have "scopes (ev s4) \<noteq> []" using scope_pop_ne [OF ne3] ne3 by (simp add: s4_def)
    moreover have "policy_levels (ev s4) = policy_levels (ev s3)" by (simp add: s4_def)
    ultimately have fine: "in_order (eval_exec_pop s4)" if popped
      using s s3 s4(1,2,3,4) that bf
      by (cases "policy_scope_pushed frame") (auto simp: in_order_def npolicies_def eval_exec_pop_def)
    have left_over: "block_frames (eval_exec_pop s4) = frames" using s4(3) by (simp add: eval_exec_pop_def)
    show ?thesis
    proof (cases "r \<and> popped")
      case True
      then show ?thesis using pop eq fine left_over bf by simp
    next
      case False
      then show ?thesis using pop eq s2 s3 err by (cases r) simp_all
    qed
  qed
qed

lemma active_block_on_top:
  "block_active_exec_depth s > 0 \<Longrightarrow> map_option frame_kind (eval_exec_current s) = Some EVAL_EXEC_CTX_BLOCK"
  by (cases "exec_depth s") (auto simp: block_active_exec_depth_def eval_exec_current_def split: if_splits)

lemma active_block_has_frame: "in_order s \<Longrightarrow> block_active_exec_depth s > 0 \<Longrightarrow> block_frames s \<noteq> []"
  using nblocks_pop [OF _ active_block_on_top, of s] by (auto simp: in_order_def)

lemma unwind_ends:
  "in_order s \<Longrightarrow> \<exists>ok s'. eval_unwind_blocks_for_return s = Some (ok, s') \<and> (ok \<longrightarrow> in_order s')"
proof (induction "length (block_frames s)" arbitrary: s rule: less_induct)
  case less
  show ?case
  proof (cases "block_active_exec_depth s = 0")
    case True
    then show ?thesis using less.prems by (auto simp: eval_unwind_blocks_for_return.simps)
  next
    case False
    obtain popped ended s1 where p: "block_pop_frame ''return'' True s = (popped, ended, s1)" by (rule prod_cases3)
    obtain emitted s2 where e: "emit_event (Event_Block_End (propagate_on_return ended) (propagate_vars ended \<noteq> [])) s1 = (emitted, s2)"
      by (rule prod.exhaust)
    have unfolded: "eval_unwind_blocks_for_return s =
        (if \<not> popped then Some (False, s1) else if emitted then eval_unwind_blocks_for_return s2 else Some (False, s2))"
      using False p e by (subst eval_unwind_blocks_for_return.simps) simp
    show ?thesis
    proof (cases "popped \<and> emitted")
      case True
      have "in_order s1" "length (block_frames s1) < length (block_frames s)"
        using block_pop_in_order [OF p less.prems active_block_has_frame [OF less.prems]] False True by simp_all
      moreover have "block_frames s2 = block_frames s1" "in_order s2 = in_order s1"
        using e in_order_emit [OF e]
        by (auto simp: emit_event_def eval_command_tx_push_event_def eval_emit_event_direct_def split: if_splits list.splits)
      ultimately show ?thesis using less.hyps [of s2] True unfolded by simp
    qed (use unfolded in auto)
  qed
qed

section \<open>Outcomes\<close>

definition ends :: "'sem outcome \<Rightarrow> bool" where
  "ends out \<longleftrightarrow> (\<exists>r s'. out = Some (r, s') \<and> (r \<noteq> EVAL_RESULT_FATAL \<longrightarrow> in_order s'))"

lemma ends_simps [simp]:
  "\<not> ends None"
  "ends (Some (r, s)) = (r \<noteq> EVAL_RESULT_FATAL \<longrightarrow> in_order s)"
  "ends (fatal s)"
  "ends (result_from s) = (stopped s \<or> in_order s)"
  by (auto simp: ends_def fatal_def result_from_def eval_result_from_ctx_def)

lemma emit_then_ends: "in_order s \<Longrightarrow> (\<And>s1. in_order s1 \<Longrightarrow> ends (k s1)) \<Longrightarrow> ends (emit_then e s k)"
  using in_order_emit [OF prod.collapse [symmetric], of e s] by (simp add: emit_then_def case_prod_beta)

lemma ends_splits:
  "(b \<Longrightarrow> ends x) \<Longrightarrow> (\<not> b \<Longrightarrow> ends y) \<Longrightarrow> ends (if b then x else y)"
  "(\<And>u v. q = (u, v) \<Longrightarrow> ends (f u v)) \<Longrightarrow> ends (case q of (u, v) \<Rightarrow> f u v)"
  by (simp_all split: prod.split)

definition loop_ends :: "'sem loop_outcome \<Rightarrow> bool" where
  "loop_ends out \<longleftrightarrow> (\<exists>how n r s'. out = Some (how, n, r, s') \<and> (r \<noteq> EVAL_RESULT_FATAL \<longrightarrow> in_order s') \<and>
     (r = EVAL_RESULT_FATAL \<longrightarrow> how = Loop_Fatal))"

lemma loop_ends_simps [simp]:
  "\<not> loop_ends None"
  "loop_ends (Some (how, n, r, s)) = ((r \<noteq> EVAL_RESULT_FATAL \<longrightarrow> in_order s) \<and> (r = EVAL_RESULT_FATAL \<longrightarrow> how = Loop_Fatal))"
  by (simp_all add: loop_ends_def)

lemma merge_not_fatal [simp]: "eval_result_merge a b = EVAL_RESULT_FATAL \<longleftrightarrow> a = EVAL_RESULT_FATAL \<or> b = EVAL_RESULT_FATAL"
  by (cases a; cases b) (simp_all add: eval_result_merge_def)

lemma in_order_set:
  assumes "on_ev (eval_var_set_current k v) s = (ok, s')" "in_order s"
  shows "in_order s'"
  using assms set_frame(1) by (rule in_order_on_ev)

lemma in_order_condition:
  assumes "on_ev (eval_condition w args) s = (c, s')" "in_order s"
  shows "in_order s'"
  using assms condition_frame by (rule in_order_on_ev)

lemma in_order_resolve:
  assumes "on_ev (eval_resolve_args args) s = (vals, s')" "in_order s"
  shows "in_order s'"
  using assms by (rule in_order_on_ev) (simp add: eval_resolve_args_def resolve_frame)

lemma in_order_diag:
  assumes "on_ev (eval_emit_diag_result b sev cmd cause) s = (r, s')" "in_order s"
  shows "in_order s'"
  using assms
proof (rule in_order_on_ev)
  fix r c assume "eval_emit_diag_result b sev cmd cause (ev s) = (r, c)"
  then have "c = snd (eval_emit_diag (eval_diag_effective_input_severity b (ev s) sev) cmd cause (ev s))"
    by (simp add: eval_emit_diag_result_def case_prod_beta prod_eq_iff)
  then show "steady (ev s) c" using emit_steady by simp
qed

section \<open>Conditionals and loops\<close>

definition runs_on :: "'sem runner \<Rightarrow> node list \<Rightarrow> bool" where
  "runs_on run nds \<longleftrightarrow> (\<forall>s. in_order s \<longrightarrow> ends (run nds s))"

lemma runs_onD: "runs_on run nds \<Longrightarrow> in_order s \<Longrightarrow> ends (run nds s)"
  by (simp add: runs_on_def)

primrec clause_block :: "elseif_clause \<Rightarrow> node list" where
  "clause_block (ElseIf_Clause condition block) = block"

lemma elseif_chain_ends:
  assumes "runs_on run else_block"
  shows "in_order s \<Longrightarrow> (\<And>cl. cl \<in> set clauses \<Longrightarrow> runs_on run (clause_block cl)) \<Longrightarrow>
    ends (elseif_chain p run clauses else_block s)"
proof (induction clauses arbitrary: s)
  case Nil
  then show ?case using runs_onD [OF assms] by (auto intro!: emit_then_ends)
next
  case (Cons cl clauses)
  obtain condition block where cl: "cl = ElseIf_Clause condition block" by (cases cl)
  obtain cond s1 where c: "on_ev (eval_condition (world p s) condition) s = (cond, s1)" by (rule prod.exhaust)
  have s1: "in_order s1" by (rule in_order_condition [OF c Cons.prems(1)])
  have "runs_on run block" using Cons.prems(2) [of cl] cl by simp
  moreover have "ends (elseif_chain p run clauses else_block s)" if "in_order s" for s
    using Cons.IH that Cons.prems(2) by simp
  ultimately show ?case using c cl s1 by (auto intro!: emit_then_ends intro: runs_onD)
qed

lemma eval_if_ends:
  assumes "runs_on run then_block" "runs_on run else_block" "\<And>cl. cl \<in> set clauses \<Longrightarrow> runs_on run (clause_block cl)"
    and s: "in_order s"
  shows "ends (eval_if p run condition then_block clauses else_block s)"
proof -
  obtain cond s1 where c: "on_ev (eval_condition (world p s) condition) s = (cond, s1)" by (rule prod.exhaust)
  have s1: "in_order s1" by (rule in_order_condition [OF c s])
  have "ends (run then_block t)" "ends (elseif_chain p run clauses else_block t)" if "in_order t" for t
    using runs_onD [OF assms(1) that] elseif_chain_ends [OF assms(2) that assms(3)] by simp_all
  then show ?thesis using c s1 by (auto simp: eval_if_def intro!: emit_then_ends)
qed

lemma foreach_loop_ends:
  assumes run: "runs_on run body"
  shows "in_order s \<Longrightarrow> agg \<noteq> EVAL_RESULT_FATAL \<Longrightarrow> loop_ends (foreach_loop run i var body its n agg s)"
proof (induction its arbitrary: s n agg)
  case (Cons item rest)
  obtain ok s1 where o: "on_ev (eval_var_set_current var item) s = (ok, s1)" by (rule prod.exhaust)
  obtain r s2 where "run body s1 = Some (r, s2)" "r \<noteq> EVAL_RESULT_FATAL \<longrightarrow> in_order s2"
    using runs_onD [OF run in_order_set [OF o Cons.prems(1)]] unfolding ends_def by blast
  then show ?case using o Cons.prems(2) Cons.IH by (simp add: Let_def split: flow_signal.split)
qed simp

lemma while_loop_ends:
  assumes run: "runs_on run body"
  shows "in_order s \<Longrightarrow> agg \<noteq> EVAL_RESULT_FATAL \<Longrightarrow> loop_ends (while_loop p run i condition body limit n agg s)"
proof (induction limit arbitrary: s n agg)
  case (Suc allowed)
  obtain cond s1 where c: "on_ev (eval_condition (world p s) condition) s = (cond, s1)" by (rule prod.exhaust)
  obtain ok s2 where e: "emit_event (Event_If_Eval cond) s1 = (ok, s2)" by (rule prod.exhaust)
  have s2: "in_order s2" using in_order_emit [OF e] in_order_condition [OF c Suc.prems(1)] by simp
  then obtain r s3 where "run body s2 = Some (r, s3)" "r \<noteq> EVAL_RESULT_FATAL \<longrightarrow> in_order s3"
    using runs_onD [OF run s2] unfolding ends_def by blast
  then show ?case using c e s2 Suc.prems(2) Suc.IH by (simp add: Let_def split: flow_signal.split)
qed simp

lemma run_foreach_ends:
  fixes run :: "'sem runner"
  assumes run: "runs_on run body" and s: "in_order s"
  shows "ends (run_foreach run new var its body s)"
  unfolding run_foreach_def Let_def
proof (rule emit_then_ends [OF s])
  fix s1 :: "'sem interp" assume s1: "in_order s1"
  define i where "i = exec_depth s1 - 1"
  have "loop_ends (foreach_loop run i var body its 0 EVAL_RESULT_OK (enter_loop i s1))"
    by (rule foreach_loop_ends [OF run]) (simp_all add: s1)
  then obtain how n r s2 where l: "foreach_loop run i var body its 0 EVAL_RESULT_OK (enter_loop i s1) = Some (how, n, r, s2)"
      "r \<noteq> EVAL_RESULT_FATAL \<longrightarrow> in_order s2" "r = EVAL_RESULT_FATAL \<longrightarrow> how = Loop_Fatal"
    unfolding loop_ends_def by blast
  have restored: "in_order s5" if "on_ev (restore_loop_var new d old var) s4 = (ok, s5)" "in_order s4" for d old ok and s4 s5 :: "'sem interp"
    by (rule in_order_on_ev [OF that])
      (auto simp: restore_loop_var_def split: if_splits dest: set_frame(1) unset_frame)
  show "ends
    (if exec_depth s1 = 0 then fatal s1
     else case foreach_loop run (exec_depth s1 - 1) var body its 0 EVAL_RESULT_OK (enter_loop (exec_depth s1 - 1) s1) of
            None \<Rightarrow> None
          | Some (how, iter_count, aggregate, s2) \<Rightarrow>
              if how \<noteq> Loop_Ended then Some (aggregate, leave_loop (exec_depth s1 - 1) s2)
              else emit_then (Event_Loop_End ''foreach'' (u32 iter_count)) (leave_loop (exec_depth s1 - 1) s2)
                     (\<lambda>s4. case on_ev (restore_loop_var new (eval_var_defined_visible (ev s) var)
                                         (eval_var_get_visible (ev s) var) var) s4 of
                              (ok, s5) \<Rightarrow> if \<not> ok then fatal s5
                                else Some (eval_result_merge aggregate (eval_result_ok_if_running s5), s5)))"
    unfolding i_def [symmetric] l(1)
    by (cases "how = Loop_Ended") (use l(2,3) restored in \<open>auto intro!: emit_then_ends ends_splits\<close>)
qed

lemma eval_foreach_ends:
  assumes run: "runs_on run body" and s: "in_order s"
  shows "ends (eval_foreach run args body s)"
proof -
  obtain a s1 where a: "on_ev (eval_resolve_args args) s = (a, s1)" by (rule prod.exhaust)
  have s1: "in_order s1" by (rule in_order_resolve [OF a s])
  obtain new s2 where n: "on_ev (eval_policy_is_new ''CMP0124'') s1 = (new, s2)" by (rule prod.exhaust)
  have s2: "in_order s2" by (rule in_order_is_new [OF n s1])
  then show ?thesis using a n s1 run_foreach_ends [OF run]
    by (auto simp: eval_foreach_def in_order_flow_error split: foreach_items.split)
qed

lemma eval_while_ends:
  assumes run: "runs_on run body" and s: "in_order s"
  shows "ends (eval_while p run condition body s)"
proof -
  obtain agg n s1 where l: "eval_while_iteration_limit s = (agg, n, s1)" by (rule prod_cases3)
  have s1: "in_order s1" using l s
    by (auto simp: eval_while_iteration_limit_def Let_def split: if_splits option.splits prod.splits dest: in_order_diag)
  have k: "ends
     (case while_loop p run i condition body n 0 agg (enter_loop i s2) of
        None \<Rightarrow> None
      | Some (how, iter_count, aggregate, s3) \<Rightarrow>
          (case how of
             Loop_Ended \<Rightarrow> emit_then (Event_Loop_End ''while'' (u32 iter_count)) (leave_loop i s3) (\<lambda>s5. Some (aggregate, s5))
           | Loop_Limit \<Rightarrow>
               (case on_ev (eval_emit_diag_result False DIAG_SEV_ERROR ''while'' ''Iteration limit exceeded'') (leave_loop i s3) of
                  (r, s5) \<Rightarrow> Some (eval_result_merge EVAL_RESULT_SOFT_ERROR r, s5))
           | _ \<Rightarrow> Some (aggregate, leave_loop i s3)))"
    if s2: "in_order s2" and agg: "agg \<noteq> EVAL_RESULT_FATAL" for i s2
  proof -
    have "loop_ends (while_loop p run i condition body n 0 agg (enter_loop i s2))"
      by (rule while_loop_ends [OF run]) (simp_all add: s2 agg)
    then obtain how m r s3 where w: "while_loop p run i condition body n 0 agg (enter_loop i s2) = Some (how, m, r, s3)"
      "r \<noteq> EVAL_RESULT_FATAL \<longrightarrow> in_order s3" "r = EVAL_RESULT_FATAL \<longrightarrow> how = Loop_Fatal"
      unfolding loop_ends_def by blast
    then show ?thesis by (cases how) (auto intro!: emit_then_ends ends_splits dest: in_order_diag)
  qed
  show ?thesis
    unfolding eval_while_def Let_def using l s1 k by (auto simp del: One_nat_def intro!: emit_then_ends)
qed

section \<open>Scripts that define nothing and call certain commands\<close>

primrec node_depth :: "node \<Rightarrow> nat"
and clause_depth :: "elseif_clause \<Rightarrow> nat"
where
  "node_depth (Node_Command l c name args) = 0"
| "node_depth (Node_If l c cond then_block clauses else_block) =
     Suc (foldr max (map node_depth then_block @ map clause_depth clauses @ map node_depth else_block) 0)"
| "node_depth (Node_Foreach l c args body) = Suc (foldr max (map node_depth body) 0)"
| "node_depth (Node_While l c cond body) = Suc (foldr max (map node_depth body) 0)"
| "node_depth (Node_Function l c name params body) = 0"
| "node_depth (Node_Macro l c name params body) = 0"
| "clause_depth (ElseIf_Clause cond block) = foldr max (map node_depth block) 0"

text \<open>Nothing is defined, and every command called has one of some names, in upper case.\<close>

primrec calls_within :: "string set \<Rightarrow> node \<Rightarrow> bool"
and clause_calls_within :: "string set \<Rightarrow> elseif_clause \<Rightarrow> bool"
where
  "calls_within K (Node_Command l c name args) = (map c_toupper (c_str name) \<in> K)"
| "calls_within K (Node_If l c cond then_block clauses else_block) =
     (list_all (\<lambda>b. b) (map (calls_within K) then_block) \<and> list_all (\<lambda>b. b) (map (clause_calls_within K) clauses) \<and>
      list_all (\<lambda>b. b) (map (calls_within K) else_block))"
| "calls_within K (Node_Foreach l c args body) = list_all (\<lambda>b. b) (map (calls_within K) body)"
| "calls_within K (Node_While l c cond body) = list_all (\<lambda>b. b) (map (calls_within K) body)"
| "calls_within K (Node_Function l c name params body) = False"
| "calls_within K (Node_Macro l c name params body) = False"
| "clause_calls_within K (ElseIf_Clause cond block) = list_all (\<lambda>b. b) (map (calls_within K) block)"

text \<open>A script within a depth, defining nothing and calling nothing else.\<close>

definition shallow :: "string set \<Rightarrow> nat \<Rightarrow> node list \<Rightarrow> bool" where
  "shallow K n nds \<longleftrightarrow> list_all (calls_within K) nds \<and> list_all (\<lambda>nd. node_depth nd \<le> n) nds"

lemma foldr_max_le: "foldr max xs (0::nat) \<le> n \<Longrightarrow> x \<in> set xs \<Longrightarrow> x \<le> n"
  using foldr_max_ge [of x xs] by simp

lemma shallow_foreach:
  "shallow K (Suc n) [Node_Foreach l c args body] \<Longrightarrow> shallow K n body"
  "shallow K (Suc n) [Node_While l c args body] \<Longrightarrow> shallow K n body"
  by (auto simp: shallow_def list_all_iff intro: foldr_max_le)

lemma shallow_nesting: "shallow K n [nd] \<Longrightarrow> node_depth nd > 0 \<Longrightarrow> n = Suc (n - 1)"
  by (simp add: shallow_def)

lemma shallow_if:
  assumes "shallow K (Suc n) [Node_If l c cond then_block clauses else_block]"
  shows "shallow K n then_block" "shallow K n else_block" "cl \<in> set clauses \<Longrightarrow> shallow K n (clause_block cl)"
proof -
  have d: "x \<le> n" if "x \<in> set (map node_depth then_block @ map clause_depth clauses @ map node_depth else_block)" for x
    using assms foldr_max_le [OF _ that] by (simp add: shallow_def)
  show "shallow K n then_block" "shallow K n else_block" using assms d by (auto simp: shallow_def list_all_iff)
  assume cl: "cl \<in> set clauses"
  obtain cd block where b: "cl = ElseIf_Clause cd block" by (cases cl)
  have "clause_depth cl \<le> n" "clause_calls_within K cl" using assms d cl by (auto simp: shallow_def list_all_iff)
  then show "shallow K n (clause_block cl)"
    unfolding b by (auto simp: shallow_def list_all_iff intro: foldr_max_le)
qed

lemma length_scopes_to_depth: "length (scopes_to_depth n ss) = n"
  by (simp add: scopes_to_depth_def)

text \<open>A runner that gets through the scripts of less depth.\<close>

definition runs_below :: "string set \<Rightarrow> nat \<Rightarrow> 'sem runner \<Rightarrow> bool" where
  "runs_below K n run \<longleftrightarrow> (\<forall>m body. n = Suc m \<longrightarrow> shallow K m body \<longrightarrow> runs_on run body)"

text \<open>Native commands of some names that return and leave the frames in order.\<close>

locale orderly_platform =
  fixes p :: "'sem platform" and K :: "string set"
  assumes natives_end: "name \<in> K \<Longrightarrow> natives p name = Some h \<Longrightarrow> in_order s \<Longrightarrow> ends (h run cmd args s)"
begin

lemma open_in_order: "open_command preserve name kind argc s = (ok, s1) \<Longrightarrow> in_order s \<Longrightarrow> in_order s1"
  by (auto simp: open_command_def eval_command_tx_begin_def Let_def eval_command_tx_preserve_scope_vars_on_failure_def
      dest!: in_order_emit split: if_splits)

lemma close_in_order:
  assumes "in_order s" "in_order s2"
  shows "in_order (close_command s name kind argc status commit s2)"
proof -
  obtain ok s3 where e: "eval_emit_command_end name kind argc status s2 = (ok, s3)" by (rule prod.exhaust)
  have s3: "in_order s3"
    using e assms(2)
    by (auto simp: eval_emit_command_end_def eval_command_tx_push_event_def eval_emit_event_direct_def split: list.splits if_splits)
  have "in_order (restore_state pres s s3)" for pres
    using assms(1) s3 length_scopes_to_depth [of "length (scopes (ev s))" "scopes (ev s3)"]
    by (auto simp: in_order_def restore_state_def Let_def nblocks_def kinds_def)
  then show ?thesis using s3 e
    by (auto simp: close_command_def eval_command_tx_finish_def Let_def split: list.split)
qed

lemma dispatch_ends:
  assumes k: "map c_toupper (c_str name) \<in> K" and s: "in_order s"
  shows "ends (eval_dispatch_command p run name args s)"
proof -
  have native: "ends (dispatch_native h run name args s)" if h: "natives p (map c_toupper (c_str name)) = Some h" for h
  proof -
    obtain opened s1 where o: "open_command False name EVENT_COMMAND_DISPATCH_BUILTIN (u32 (length args)) s = (opened, s1)"
      by (rule prod.exhaust)
    have "ends (h run name args s1)" by (rule natives_end [OF k h open_in_order [OF o s]])
    then obtain r s2 where "h run name args s1 = Some (r, s2)" "r \<noteq> EVAL_RESULT_FATAL \<longrightarrow> in_order s2"
      unfolding ends_def by blast
    then show ?thesis using o close_in_order [OF s] by (simp add: dispatch_native_def Let_def)
  qed
  have unknown: "ends (dispatch_unknown name args s)"
  proof -
    obtain opened s1 where o: "open_command False name EVENT_COMMAND_DISPATCH_UNKNOWN (u32 (length args)) s = (opened, s1)"
      by (rule prod.exhaust)
    obtain r s2 where d: "on_ev (eval_emit_diag_result True DIAG_SEV_WARNING name ''Unknown command'') s1 = (r, s2)"
      by (rule prod.exhaust)
    have "in_order s2" by (rule in_order_diag [OF d open_in_order [OF o s]])
    then show ?thesis using o d close_in_order [OF s] by (simp add: dispatch_unknown_def Let_def)
  qed
  have "eval_user_cmd_find name s = None" using s by (simp add: eval_user_cmd_find_def in_order_def)
  then show ?thesis using native unknown
    by (auto simp: eval_dispatch_command_def eval_native_cmd_find_def split: option.split)
qed

lemma run_node_ends:
  assumes run: "runs_below K n run" and nd: "shallow K n [nd]" and s: "in_order s"
  shows "ends (run_node p run nd s)"
proof (cases "node_depth nd > 0")
  case True
  then obtain m where m: "n = Suc m" using shallow_nesting [OF nd] by blast
  have sub: "runs_on run body" if "shallow K m body" for body using run that m by (simp add: runs_below_def)
  show ?thesis
  proof (cases nd)
    case (Node_If l c cond tb cls eb)
    note b = shallow_if [OF nd [unfolded m Node_If]]
    have "ends (eval_if p run cond tb cls eb s)"
      by (rule eval_if_ends [OF sub [OF b(1)] sub [OF b(2)] sub [OF b(3)] s])
    then show ?thesis by (simp add: run_node_def Node_If)
  next
    case (Node_Foreach l c args body)
    have "ends (eval_foreach run args body s)"
      by (rule eval_foreach_ends [OF sub [OF shallow_foreach(1) [OF nd [unfolded m Node_Foreach]]] s])
    then show ?thesis by (simp add: run_node_def Node_Foreach)
  next
    case (Node_While l c args body)
    have "ends (eval_while p run args body s)"
      by (rule eval_while_ends [OF sub [OF shallow_foreach(2) [OF nd [unfolded m Node_While]]] s])
    then show ?thesis by (simp add: run_node_def Node_While)
  qed (use True in simp_all)
next
  case False
  then show ?thesis using nd s by (cases nd) (simp_all add: run_node_def shallow_def dispatch_ends)
qed

lemma node_list_ends:
  assumes run: "runs_below K n run"
  shows "shallow K n nds \<Longrightarrow> in_order s \<Longrightarrow> agg \<noteq> EVAL_RESULT_FATAL \<Longrightarrow> ends (node_list p run nds agg s)"
proof (induction nds arbitrary: agg s)
  case (Cons nd nds)
  have nd: "shallow K n [nd]" and nds: "shallow K n nds" using Cons.prems(1) by (simp_all add: shallow_def)
  define s1 where "s1 = s\<lparr>ev := eval_refresh_runtime_compat (ev s)\<rparr>"
  have s1: "in_order s1" unfolding s1_def
    by (rule in_order_ev [OF Cons.prems(2)]) (simp_all add: eval_refresh_runtime_compat_def Let_def)
  obtain ok s2 where a: "on_ev (eval_var_set_current ''CMAKE_CURRENT_LIST_LINE'' (nat_text (node_line nd))) s1 = (ok, s2)"
    by (rule prod.exhaust)
  obtain r s3 where r: "run_node p run nd s2 = Some (r, s3)" "r \<noteq> EVAL_RESULT_FATAL \<longrightarrow> in_order s3"
    using run_node_ends [OF run nd in_order_set [OF a s1]] unfolding ends_def by blast
  have "ends (eval_node p run nd s)"
    unfolding eval_node_def Let_def s1_def [symmetric] using a r by simp
  then obtain q s4 where q: "eval_node p run nd s = Some (q, s4)" "q \<noteq> EVAL_RESULT_FATAL \<longrightarrow> in_order s4"
    unfolding ends_def by blast
  show ?case
  proof (cases "q = EVAL_RESULT_FATAL")
    case True
    then show ?thesis using q by simp
  next
    case False
    then have s4: "in_order s4" using q by simp
    obtain uok s5 where u: "eval_unwind_blocks_for_return s4 = Some (uok, s5)" "uok \<longrightarrow> in_order s5"
      using unwind_ends [OF s4] by blast
    show ?thesis using False q s4 u Cons.IH [OF nds s4] Cons.prems(3)
      by (cases "eval_exec_pending_flow s4") (simp_all add: Let_def)
  qed
qed simp

lemma eval_run_ends: "shallow K n nds \<Longrightarrow> in_order s \<Longrightarrow> ends (eval_run (Suc n) p nds s)"
proof (induction n arbitrary: nds s)
  case 0
  have "runs_below K 0 (eval_run 0 p)" by (simp add: runs_below_def)
  from node_list_ends [OF this 0, of EVAL_RESULT_OK] show ?case by simp
next
  case (Suc n)
  have "runs_below K (Suc n) (eval_run (Suc n) p)" using Suc.IH by (simp add: runs_below_def runs_on_def)
  from node_list_ends [OF this Suc.prems, of EVAL_RESULT_OK] show ?case by simp
qed

end

section \<open>The flow commands\<close>

lemma no_args_in_order:
  assumes "flow_require_no_args name args s = (ok, s')" "in_order s"
  shows "in_order s'"
  using assms
  by (auto simp: flow_require_no_args_def in_order_flow_error split: prod.splits if_splits dest: in_order_resolve)

lemma break_ends:
  assumes "in_order s"
  shows "ends (eval_handle_break run name args s)"
proof -
  obtain ok s1 where a: "flow_require_no_args name args s = (ok, s1)" by (rule prod.exhaust)
  have s1: "in_order s1" by (rule no_args_in_order [OF a assms])
  obtain req s2 where r: "eval_exec_request_break s1 = (req, s2)" by (rule prod.exhaust)
  have "in_order s2" by (rule in_order_request [OF r [unfolded eval_exec_request_break_def] s1])
  then show ?thesis using a r s1
    by (auto simp: eval_handle_break_def in_order_flow_error intro!: emit_then_ends)
qed

lemma continue_ends:
  assumes "in_order s"
  shows "ends (eval_handle_continue run name args s)"
proof -
  obtain ok s1 where a: "flow_require_no_args name args s = (ok, s1)" by (rule prod.exhaust)
  have s1: "in_order s1" by (rule no_args_in_order [OF a assms])
  obtain req s2 where r: "eval_exec_request_continue s1 = (req, s2)" by (rule prod.exhaust)
  have "in_order s2" by (rule in_order_request [OF r [unfolded eval_exec_request_continue_def] s1])
  then show ?thesis using a r s1
    by (auto simp: eval_handle_continue_def in_order_flow_error intro!: emit_then_ends)
qed

lemma return_ends:
  assumes "in_order s"
  shows "ends (eval_handle_return run name args s)"
proof -
  obtain vals s1 where a: "on_ev (eval_resolve_args args) s = (vals, s1)" by (rule prod.exhaust)
  have s1: "in_order s1" by (rule in_order_resolve [OF a assms])
  obtain new s2 where n: "on_ev (eval_policy_is_new ''CMP0140'') (eval_clear_return_state s1) = (new, s2)" by (rule prod.exhaust)
  have s2: "in_order s2" by (rule in_order_is_new [OF n in_order_clear_return [OF s1]])
  have s5: "in_order s5"
    if "eval_exec_request_return (if return_propagate_vars s3 \<noteq> [] then mark_blocks s3 else s3) = (ok, s5)" "in_order s3"
    for s3 s5 :: "'a interp" and ok
    by (rule in_order_request_return [OF that(1)]) (simp add: that(2) in_order_mark)
  show ?thesis
    unfolding eval_handle_return_def Let_def a n prod.case
    by (intro ends_splits) (auto simp: s1 s2 in_order_flow_error dest!: s5)
qed

lemma block_parse_in_order:
  assumes "block_parse_options name args s = (ok, frame, s')" "in_order s"
  shows "in_order s'"
  using assms
  by (auto simp: block_parse_options_def block_option_error_def Let_def in_order_flow_error split: if_splits prod.splits)

lemma kinds_push:
  "exec_depth s \<le> length (exec_contexts s) \<Longrightarrow> kinds (eval_exec_push fr s) = kinds s @ [frame_kind fr]"
  by (auto simp: kinds_def eval_exec_push_def Let_def take_Suc_conv_app_nth)

lemma in_order_enter_block:
  assumes "in_order s" "policy_scope_pushed frame \<longrightarrow> npolicies (block_frames s) < length (policy_levels (ev s)) - 1"
  shows "in_order (eval_exec_push (new_frame EVAL_EXEC_CTX_BLOCK) (s\<lparr>block_frames := frame # block_frames s\<rparr>))"
proof -
  define t where "t = s\<lparr>block_frames := frame # block_frames s\<rparr>"
  define u where "u = eval_exec_push (new_frame EVAL_EXEC_CTX_BLOCK) t"
  have "kinds u = kinds t @ [EVAL_EXEC_CTX_BLOCK]"
    using assms(1) kinds_push [of t "new_frame EVAL_EXEC_CTX_BLOCK"] by (simp add: u_def t_def in_order_def new_frame_def)
  then have "nblocks u = Suc (nblocks s)" by (simp add: nblocks_def t_def kinds_def)
  moreover have "exec_depth u \<le> length (exec_contexts u)"
    using assms(1) by (auto simp: u_def t_def eval_exec_push_def Let_def in_order_def)
  moreover have "block_frames u = frame # block_frames s" "ev u = ev s" "commands u = commands s"
    by (simp_all add: u_def t_def eval_exec_push_def Let_def)
  ultimately have "in_order u" using assms by (auto simp: in_order_def npolicies_def)
  then show ?thesis by (simp add: u_def t_def)
qed

lemma block_ends:
  assumes "in_order s"
  shows "ends (eval_handle_block run name args s)"
proof -
  obtain vals s1 where a: "on_ev (eval_resolve_args args) s = (vals, s1)" by (rule prod.exhaust)
  have s1: "in_order s1" by (rule in_order_resolve [OF a assms])
  obtain ok frame s2 where b: "block_parse_options name vals s1 = (ok, frame, s2)" by (rule prod_cases3)
  have s2: "in_order s2" by (rule block_parse_in_order [OF b s1])
  define s3 where "s3 = (if variable_scope_pushed frame then s2\<lparr>ev := eval_scope_push (ev s2)\<rparr> else s2)"
  have s3: "in_order s3" using s2 by (simp add: s3_def in_order_def nblocks_def kinds_def eval_scope_push_def)
  obtain pushed s4 where c: "(if policy_scope_pushed frame then on_ev eval_policy_push s3 else (True, s3)) = (pushed, s4)"
    by (rule prod.exhaust)
  have s4: "(pushed \<or> stopped s4) \<and> (pushed \<longrightarrow> in_order s4 \<and>
      (policy_scope_pushed frame \<longrightarrow> npolicies (block_frames s4) < length (policy_levels (ev s4)) - 1))"
  proof (cases "policy_scope_pushed frame")
    case True
    obtain d where d: "eval_policy_push (ev s3) = (pushed, d)" "s4 = s3\<lparr>ev := d\<rparr>"
      using c True by (auto simp: on_ev_def split: prod.splits)
    have "scopes (ev s3) \<noteq> []" using s3 by (simp add: in_order_def)
    note f = push_frame [OF d(1) this]
    have "scopes d \<noteq> []" using f(1) s3 by (auto simp: in_order_def outer_kept_def)
    then show ?thesis using f(2,3) s3
      by (auto simp: d(2) in_order_def nblocks_def kinds_def stopped_def eval_should_stop_def)
  qed (use c s3 in auto)
  define s4' where "s4' = eval_exec_push (new_frame EVAL_EXEC_CTX_BLOCK) (s4\<lparr>block_frames := frame # block_frames s4\<rparr>)"
  have s4': "in_order s4'" if pushed unfolding s4'_def using s4 that by (intro in_order_enter_block) auto
  obtain emitted s5 where e: "emit_event (Event_Block_Begin (variable_scope_pushed frame) (policy_scope_pushed frame)
      (propagate_vars frame \<noteq> [])) s4' = (emitted, s5)" by (rule prod.exhaust)
  note em = in_order_emit [OF e]
  have undone: "stopped (if v then s8\<lparr>ev := eval_scope_pop (ev s8)\<rparr> else s8) = stopped s8" for v and s8 :: "'a interp"
    by (simp add: stopped_def eval_should_stop_def)
  have popped: "stopped (snd (on_ev eval_policy_pop t))" if "stopped t" for t :: "'a interp"
    using that by (simp add: on_ev_def eval_policy_pop_def stopped_def eval_should_stop_def)
  have s5: "stopped s5" if "\<not> emitted" using em that by (simp add: stopped_def)
  show ?thesis
  proof (cases "stopped s \<or> stopped s1 \<or> \<not> ok \<or> \<not> pushed")
    case True
    then show ?thesis
      unfolding eval_handle_block_def Let_def
      using a b s1 s2 s4 c [unfolded s3_def] undone by auto
  next
    case False
    define s7 where "s7 = (eval_exec_pop s5)\<lparr>block_frames := tl (block_frames (eval_exec_pop s5))\<rparr>"
    have eq: "eval_handle_block run name args s =
      (if emitted then result_from s5
       else result_from (let s8 = (if policy_scope_pushed frame then snd (on_ev eval_policy_pop s7) else s7) in
                         if variable_scope_pushed frame then s8\<lparr>ev := eval_scope_pop (ev s8)\<rparr> else s8))"
      unfolding eval_handle_block_def Let_def s7_def
      using False a b c [unfolded s3_def] e [unfolded s4'_def] by simp
    have "stopped s7 = stopped s5" by (simp add: s7_def stopped_def eval_exec_pop_def)
    then show ?thesis
      unfolding eq Let_def using False s4' em s5 undone popped by (cases emitted) (simp_all add: popped)
  qed
qed

lemma endblock_ends:
  assumes "in_order s"
  shows "ends (eval_handle_endblock run name args s)"
proof -
  obtain ok s1 where a: "flow_require_no_args name args s = (ok, s1)" by (rule prod.exhaust)
  have s1: "in_order s1" by (rule no_args_in_order [OF a assms])
  obtain popped ended s2 where b: "block_pop_frame name False s1 = (popped, ended, s2)" by (rule prod_cases3)
  obtain emitted s3 where e: "emit_event (Event_Block_End (propagate_on_return ended) (propagate_vars ended \<noteq> [])) s2 = (emitted, s3)"
    by (rule prod.exhaust)
  have "block_frames s1 \<noteq> [] \<Longrightarrow> if popped then in_order s2 else in_order s2 \<or> stopped s2"
    using block_pop_in_order [OF b s1] by (auto split: if_splits)
  then show ?thesis using a b e s1 in_order_emit [OF e]
    by (auto simp: eval_handle_endblock_def in_order_flow_error split: if_splits)
qed

lemma flow_natives_end: "flow_natives name = Some h \<Longrightarrow> in_order s \<Longrightarrow> ends (h run cmd args s)"
  by (auto simp: flow_natives_def break_ends continue_ends return_ends block_ends endblock_ends split: if_splits)

interpretation flow_order: orderly_platform "flow_platform w" UNIV for w
  by unfold_locales (auto simp: flow_platform_def dest: flow_natives_end)

end
