(* ===== verification/Eval_Fuel.thy ===== *)
theory Eval_Fuel
  imports Eval_Dispatch
begin

text \<open>
  The bound on the nesting of runs does not matter once it is large enough: whatever a run gives
  with some bound it gives with every larger one. Every part of the interpreter is monotone in the
  runner it is given, no result being below every result.
\<close>

named_theorems le_intros \<open>monotonicity in the runner\<close>

definition le :: "'b option \<Rightarrow> 'b option \<Rightarrow> bool" where
  "le x y \<longleftrightarrow> x = None \<or> x = y"

definition runner_le :: "'sem runner \<Rightarrow> 'sem runner \<Rightarrow> bool" where
  "runner_le run run' \<longleftrightarrow> (\<forall>nds s. le (run nds s) (run' nds s))"

lemma le_refl [le_intros]: "le x x"
  by (simp add: le_def)

lemma leD: "le x y \<Longrightarrow> x = Some z \<Longrightarrow> y = Some z"
  by (simp add: le_def)

lemma le_run: "runner_le run run' \<Longrightarrow> le (run nds s) (run' nds s)"
  by (simp add: runner_le_def)

lemma le_if [le_intros]: "(b \<Longrightarrow> le x x') \<Longrightarrow> (\<not> b \<Longrightarrow> le y y') \<Longrightarrow> le (if b then x else y) (if b then x' else y')"
  by simp

lemma le_pair [le_intros]:
  "(\<And>u v. le (f u v) (g u v)) \<Longrightarrow> le (case q of (u, v) \<Rightarrow> f u v) (case q of (u, v) \<Rightarrow> g u v)"
  by (simp split: prod.split)

lemma le_bind [le_intros]:
  "le x y \<Longrightarrow> (\<And>u. le (f u) (g u)) \<Longrightarrow>
   le (case x of None \<Rightarrow> None | Some u \<Rightarrow> f u) (case y of None \<Rightarrow> None | Some u \<Rightarrow> g u)"
  by (auto simp: le_def split: option.split)

lemma le_emit [le_intros]: "(\<And>s1. le (k s1) (k' s1)) \<Longrightarrow> le (emit_then e s k) (emit_then e s k')"
  by (simp add: emit_then_def le_pair le_if le_refl)

lemma le_case_flow [le_intros]:
  "le a a' \<Longrightarrow> le b b' \<Longrightarrow> le c c' \<Longrightarrow> le d d' \<Longrightarrow>
   le (case q of EVAL_FLOW_NONE \<Rightarrow> a | EVAL_FLOW_BREAK \<Rightarrow> b | EVAL_FLOW_CONTINUE \<Rightarrow> c | EVAL_FLOW_RETURN \<Rightarrow> d)
      (case q of EVAL_FLOW_NONE \<Rightarrow> a' | EVAL_FLOW_BREAK \<Rightarrow> b' | EVAL_FLOW_CONTINUE \<Rightarrow> c' | EVAL_FLOW_RETURN \<Rightarrow> d')"
  by (cases q) simp_all

lemma elseif_chain_le:
  assumes run: "runner_le run run'"
  shows "le (elseif_chain p run cls eb s) (elseif_chain p run' cls eb s)"
proof (induction cls arbitrary: s)
  case Nil
  show ?case unfolding elseif_chain.simps by (intro le_intros le_run [OF run])
next
  case (Cons cl cls)
  obtain condition block where cl: "cl = ElseIf_Clause condition block" by (cases cl)
  show ?case unfolding cl elseif_chain.simps by (intro le_intros le_run [OF run] Cons.IH)
qed

lemma eval_if_le:
  assumes run: "runner_le run run'"
  shows "le (eval_if p run c tb cls eb s) (eval_if p run' c tb cls eb s)"
  unfolding eval_if_def by (intro le_intros elseif_chain_le run le_run [OF run])

lemma foreach_loop_le:
  assumes run: "runner_le run run'"
  shows "le (foreach_loop run i v body its n agg s) (foreach_loop run' i v body its n agg s)"
proof (induction its arbitrary: n agg s)
  case (Cons item rest)
  show ?case unfolding foreach_loop.simps Let_def by (intro le_intros le_run [OF run] Cons.IH)
qed (simp add: le_refl)

lemma while_loop_le:
  assumes run: "runner_le run run'"
  shows "le (while_loop p run i c body limit n agg s) (while_loop p run' i c body limit n agg s)"
proof (induction limit arbitrary: n agg s)
  case (Suc allowed)
  show ?case unfolding while_loop.simps Let_def by (intro le_intros le_run [OF run] Suc.IH)
qed (simp add: le_refl)

lemma eval_foreach_le:
  assumes run: "runner_le run run'"
  shows "le (eval_foreach run args body s) (eval_foreach run' args body s)"
proof -
  have "le (run_foreach run new v its body t) (run_foreach run' new v its body t)" for new v its t
    unfolding run_foreach_def Let_def by (intro le_intros foreach_loop_le run)
  then show ?thesis
    unfolding eval_foreach_def by (intro le_intros) (simp add: le_refl split: foreach_items.split)
qed

lemma le_case_exit:
  "le a a' \<Longrightarrow> le b b' \<Longrightarrow> le c c' \<Longrightarrow> le d d' \<Longrightarrow>
   le (case q of Loop_Fatal \<Rightarrow> a | Loop_Return \<Rightarrow> b | Loop_Ended \<Rightarrow> c | Loop_Limit \<Rightarrow> d)
      (case q of Loop_Fatal \<Rightarrow> a' | Loop_Return \<Rightarrow> b' | Loop_Ended \<Rightarrow> c' | Loop_Limit \<Rightarrow> d')"
  by (cases q) simp_all

lemma eval_while_le:
  assumes run: "runner_le run run'"
  shows "le (eval_while p run c body s) (eval_while p run' c body s)"
  unfolding eval_while_def Let_def by (intro le_intros while_loop_le le_case_exit run)

lemma invoke_le:
  assumes run: "runner_le run run'"
  shows "le (eval_user_cmd_invoke run name args s) (eval_user_cmd_invoke run' name args s)"
proof (cases "eval_user_cmd_find name s")
  case (Some cmd)
  show ?thesis unfolding eval_user_cmd_invoke_def Let_def Some option.case
    by (intro le_intros le_run [OF run])
qed (simp add: eval_user_cmd_invoke_def le_refl)

lemma dispatch_native_le:
  assumes "\<And>t. le (h run name args t) (h run' name args t)"
  shows "le (dispatch_native h run name args s) (dispatch_native h run' name args s)"
  unfolding dispatch_native_def Let_def by (intro le_intros assms)

lemma dispatch_user_le:
  assumes run: "runner_le run run'"
  shows "le (dispatch_user run u name args s) (dispatch_user run' u name args s)"
  unfolding dispatch_user_def Let_def by (intro le_intros invoke_le run)

text \<open>Native commands that use their runner monotonically.\<close>

locale monotone_platform =
  fixes p :: "'sem platform"
  assumes natives_le: "natives p name = Some h \<Longrightarrow> runner_le run run' \<Longrightarrow> le (h run cmd args s) (h run' cmd args s)"
begin

lemma dispatch_le: "runner_le run run' \<Longrightarrow> le (eval_dispatch_command p run name args s) (eval_dispatch_command p run' name args s)"
  by (auto simp: eval_dispatch_command_def eval_native_cmd_find_def le_refl split: option.split
      intro: dispatch_native_le dispatch_user_le natives_le)

lemma eval_node_le: "runner_le run run' \<Longrightarrow> le (eval_node p run nd s) (eval_node p run' nd s)"
proof -
  assume run: "runner_le run run'"
  have "le (run_node p run nd t) (run_node p run' nd t)" for t
    using run
    by (cases nd) (simp_all add: run_node_def le_refl dispatch_le eval_if_le eval_foreach_le eval_while_le)
  then show ?thesis unfolding eval_node_def Let_def by (intro le_intros)
qed

lemma node_list_le: "runner_le run run' \<Longrightarrow> le (node_list p run nds agg s) (node_list p run' nds agg s)"
proof (induction nds arbitrary: agg s)
  case (Cons nd nds)
  have "le (eval_node p run nd s) (eval_node p run' nd s)" by (rule eval_node_le [OF Cons.prems])
  then show ?case unfolding node_list.simps Let_def by (intro le_intros Cons.IH Cons.prems)
qed (simp add: le_refl)

lemma eval_run_le_Suc: "runner_le (eval_run n p) (eval_run (Suc n) p)"
proof (induction n)
  case (Suc n)
  show ?case unfolding runner_le_def eval_run.simps(2) using node_list_le [OF Suc] by (simp add: eval_run.simps)
qed (simp add: runner_le_def le_def)

lemma eval_run_le: "le (eval_run n p nds s) (eval_run (n + k) p nds s)"
proof (induction k)
  case (Suc k)
  have "le (eval_run (n + k) p nds s) (eval_run (Suc (n + k)) p nds s)" by (rule le_run [OF eval_run_le_Suc])
  then show ?case using Suc unfolding le_def by fastforce
qed (simp add: le_refl)

text \<open>The bound decides only whether there is a result.\<close>

lemma run_bound_irrelevant:
  assumes "eval_run n p nds s = Some out" and "eval_run m p nds s = Some out'"
  shows "out = out'"
proof -
  have "eval_run (n + m) p nds s = Some out" "eval_run (m + n) p nds s = Some out'"
    using leD [OF eval_run_le assms(1)] leD [OF eval_run_le assms(2)] by blast+
  then show ?thesis by (simp add: add.commute)
qed

end

lemma flow_natives_le: "flow_natives name = Some h \<Longrightarrow> le (h run cmd args s) (h run' cmd args s)"
  by (auto simp: flow_natives_def le_refl eval_handle_break_def eval_handle_continue_def eval_handle_return_def
      eval_handle_block_def eval_handle_endblock_def split: if_splits)

end
