(* ===== verification/Eval_Run_Props.thy ===== *)
theory Eval_Run_Props
  imports Eval_Ends Eval_Fuel Eval_Expand_Props
begin

text \<open>
  What a run guarantees: well nested command events, and native commands that take everything back
  when they fail, the variables unless they have asked to keep them; and the state from which a
  return never gets out of its blocks.
\<close>

section \<open>A script to run\<close>

text \<open>A state at the beginning of a file.\<close>

definition fresh_run :: "(string \<rightharpoonup> string_view) \<Rightarrow> unit interp" where
  "fresh_run vars =
     \<lparr>ev = one_scope vars, exec_contexts = [new_frame EVAL_EXEC_CTX_ROOT], exec_depth = 1, block_frames = [],
      return_propagate_vars = [], commands = [], stream = [], transactions = [], semantic = ()\<rparr>"

lemma fresh_run_in_order: "in_order (fresh_run vars)"
  by (simp add: in_order_def fresh_run_def nblocks_def kinds_def new_frame_def npolicies_def one_scope_def)

definition nothing_outside :: cond_world where
  "nothing_outside =
     \<lparr>stat_path = (\<lambda>p. None), is_link = (\<lambda>p. False), access_ok = (\<lambda>m p. False), regex = (\<lambda>pat s. None),
      current_dir_below = (\<lambda>d. False), target_records = [], native_commands = [], user_commands = [], test_names = []\<rparr>"

abbreviation flow_only :: "unit platform" where
  "flow_only \<equiv> flow_platform (\<lambda>s. nothing_outside)"

text \<open>A loop that blocks, a command nobody knows, and a return.\<close>

definition sample_script :: "node list" where
  "sample_script =
     [Node_Foreach 1 1 [unquoted ''i'', unquoted ''IN'', unquoted ''ITEMS'', unquoted ''a'', unquoted ''b'']
        [Node_Command 2 1 ''block'' [],
         Node_If 3 1 [unquoted ''i'', unquoted ''STREQUAL'', unquoted ''b''] [Node_Command 4 1 ''break'' []] [] [],
         Node_Command 5 1 ''unheard_of'' [unquoted ''x''],
         Node_Command 6 1 ''endblock'' []],
      Node_While 7 1 [unquoted ''1''] [Node_Command 8 1 ''return'' []]]"

lemma sample_shallow: "shallow UNIV 2 sample_script"
  by (simp add: sample_script_def shallow_def)

interpretation flow_mono: monotone_platform "flow_platform w" for w
  by unfold_locales (auto simp: flow_platform_def intro: flow_natives_le)

section \<open>The event stream\<close>

text \<open>
  C3. However a run comes out, with errors, fatally, or out of loops, blocks and functions by
  \<open>break\<close> and \<open>return\<close>, the events it adds to the stream open and close the commands well nested,
  every end being that of the command last begun, and no transaction is left open.
\<close>

theorem command_events_nested:
  assumes "traced_platform p" and "eval_run n p nds s = Some (r, s')" and "transactions s = []"
  shows "\<exists>es. stream s' = stream s @ es \<and> open_commands es [] = Some [] \<and> transactions s' = []"
proof -
  have "traced s s'" using traced_platform.eval_run_traced [OF assms(1), of n] assms(2)
    unfolding runner_traced_def trace_ok_def by (metis (no_types, lifting) option.simps(5) prod.case)
  then show ?thesis using assms(3) by (auto simp: traced_def well_nested_def)
qed

lemma sample_runs: "\<exists>r s'. eval_run 3 flow_only sample_script (fresh_run vars) = Some (r, s')"
proof -
  from flow_order.eval_run_ends [OF sample_shallow fresh_run_in_order, of "\<lambda>s. nothing_outside" vars]
  show ?thesis unfolding ends_def eval_nat_numeral by blast
qed

lemma command_events_nested_witness:
  "\<exists>r s'. eval_run 3 flow_only sample_script (fresh_run Map.empty) = Some (r, s') \<and>
     open_commands (stream s') [] = Some [] \<and> transactions s' = []"
proof -
  obtain r s' where run: "eval_run 3 flow_only sample_script (fresh_run Map.empty) = Some (r, s')"
    using sample_runs by blast
  have "transactions (fresh_run Map.empty) = []" "stream (fresh_run Map.empty) = []" by (simp_all add: fresh_run_def)
  then show ?thesis using command_events_nested [OF flow.traced_platform_axioms run] run by auto
qed

section \<open>Leaving blocks for a return\<close>

text \<open>
  C37. When the frame on top belongs to a block but no block frame is left, a return never comes out
  of the blocks: nothing is popped, and an event is emitted in every round. (A block frame without
  its policy level gets a run there.)
\<close>

theorem unwind_never_ends:
  assumes "block_active_exec_depth s > 0" and "block_frames s = []" and "\<not> stopped s"
  shows "eval_unwind_blocks_for_return s = None"
proof (rule ccontr)
  assume "eval_unwind_blocks_for_return s \<noteq> None"
  then obtain y where y: "eval_unwind_blocks_for_return s = Some y" by blast
  have "\<not> (block_active_exec_depth s > 0 \<and> block_frames s = [] \<and> \<not> stopped s)"
  proof (rule eval_unwind_blocks_for_return.raw_induct
      [of "\<lambda>s y. \<not> (block_active_exec_depth s > 0 \<and> block_frames s = [] \<and> \<not> stopped s)", OF _ y], rule notI, goal_cases)
    case (1 rec s y)
    define e where "e = Event_Block_End (propagate_on_return blank_block_frame) (propagate_vars blank_block_frame \<noteq> [])"
    obtain ok s2 where em: "emit_event e s = (ok, s2)" by (rule prod.exhaust)
    have s2: "ok" "block_active_exec_depth s2 > 0 \<and> block_frames s2 = [] \<and> \<not> stopped s2"
      using em 1(3)
      by (auto simp: emit_event_def eval_command_tx_push_event_def eval_emit_event_direct_def stopped_def
          block_active_exec_depth_def split: if_splits list.splits)
    have "rec s2 = Some y" using 1(2,3) em s2(1) by (simp add: block_pop_frame_def e_def)
    from 1(1) [OF this] s2(2) show False by blast
  qed
  then show False using assms by blast
qed

lemma unwind_never_ends_witness:
  "eval_unwind_blocks_for_return
     ((fresh_run Map.empty)\<lparr>exec_contexts := [new_frame EVAL_EXEC_CTX_ROOT, new_frame EVAL_EXEC_CTX_BLOCK], exec_depth := 2\<rparr>) = None"
  by (rule unwind_never_ends)
    (simp_all add: fresh_run_def block_active_exec_depth_def new_frame_def stopped_def eval_nat_numeral)

section \<open>Native commands that fail\<close>

lemma close_command_error_total [simp]:
  "error_total (ev (close_command before name kind argc status commit s)) = error_total (ev s)"
  by (auto simp: close_command_def eval_emit_command_end_def eval_command_tx_push_event_def
      eval_emit_event_direct_def eval_command_tx_finish_def restore_state_def Let_def split: list.split prod.split)

text \<open>The end of a command that failed.\<close>

lemma close_failed:
  fixes before :: "'sem interp" and name kind argc status
  assumes "transactions s = t # ts"
  defines "s' \<equiv> close_command before name kind argc status False s"
  shows "scopes (ev s') = (if preserve_scope_vars_on_failure t
      then scopes_to_depth (length (scopes (ev before))) (scopes (ev s)) else scopes (ev before))"
    and "cache_entries (ev s') = cache_entries (ev before)" and "env_overrides (ev s') = env_overrides (ev before)"
    and "watched_variables (ev s') = watched_variables (ev before)"
    and "watched_variable_commands (ev s') = watched_variable_commands (ev before)"
    and "commands s' = commands before" and "semantic s' = semantic before" and "transactions s' = ts"
    and "stream s' = stream s @ filter keep_on_failure (held_events t) @ [Event_Command_End name kind argc status]"
  unfolding s'_def close_command_held [OF assms(1)]
  by (simp_all add: eval_command_tx_finish_def restore_state_def Let_def keep_on_failure_def)


text \<open>
  A command that changes a variable before it reports an error, and asks to keep variables if it
  has arguments.
\<close>

definition careless :: "unit handler" where
  "careless run name args s =
     (case on_ev (eval_var_set_current ''V'' ''2'') s of
        (ok, s1) \<Rightarrow>
          result_from (flow_error name ''cannot go on''
            (if args = [] then s1 else eval_command_tx_preserve_scope_vars_on_failure s1)))"

definition careless_platform :: "unit platform" where
  "careless_platform = \<lparr>natives = [''SPOIL'' \<mapsto> careless], world = (\<lambda>s. nothing_outside)\<rparr>"

lemma careless_traced: "traced_platform careless_platform"
proof
  fix name and h :: "unit handler" and run cmd and args :: "arg list" and s :: "unit interp"
  assume "natives careless_platform name = Some h"
  then have h: "h = careless" by (simp add: careless_platform_def split: if_splits)
  obtain ok s1 where e: "on_ev (eval_var_set_current ''V'' ''2'') s = (ok, s1)" by (rule prod.exhaust)
  have s1: "traced s s1" by (rule traced_after_same [OF traced_refl on_ev_same [OF e]])
  have "traced s (if args = [] then s1 else eval_command_tx_preserve_scope_vars_on_failure s1)"
    using s1 traced_trans [OF s1 preserve_traced] by simp
  then show "trace_ok s (h run cmd args s)"
    unfolding h careless_def e by (simp add: traced_after_same)
qed

lemma careless_found: "eval_native_cmd_find careless_platform ''spoil'' = Some careless"
proof -
  have "map c_toupper (c_str ''spoil'') = ''SPOIL''" by code_simp
  then show ?thesis by (simp add: eval_native_cmd_find_def careless_platform_def)
qed

abbreviation no_runner :: "unit runner" where
  "no_runner \<equiv> (\<lambda>nds s. None)"

abbreviation spoilt_run :: "unit interp" where
  "spoilt_run \<equiv> fresh_run [''V'' \<mapsto> ''1'']"

lemma careless_handled:
  assumes "ev s = one_scope [''V'' \<mapsto> ''1'']" and "transactions s = blank_transaction False # ts"
  shows "\<exists>r s'. careless no_runner name args s = Some (r, s') \<and> error_total (ev s') = 1
    \<and> scopes (ev s') = [[''V'' \<mapsto> ''2'']] \<and> preserve_scope_vars_on_failure (hd (transactions s')) = (args \<noteq> [])"
  using assms
  by (simp add: careless_def on_ev_def result_from_def flow_error_def eval_var_set_current_def can_set_def
      eval_variable_watch_notify_def store_current_def eval_emit_diag_def Let_def one_scope_def c_str_def sv_copy_to_arena_def
      eval_should_stop_def eval_compat_effective_severity_def eval_compat_decide_on_diag_def
      eval_command_tx_preserve_scope_vars_on_failure_def blank_transaction_def)

lemma careless_dispatched:
  "\<exists>r s'. eval_dispatch_command careless_platform no_runner ''spoil'' args spoilt_run = Some (r, s') \<and>
     error_total (ev s') = 1"
proof -
  obtain opened s1 where o: "open_command False ''spoil'' EVENT_COMMAND_DISPATCH_BUILTIN (u32 (length args)) spoilt_run = (opened, s1)"
    by (rule prod.exhaust)
  have s1: "ev s1 = one_scope [''V'' \<mapsto> ''1'']" "opened" "transactions s1 = [blank_transaction False]"
    using open_command_fields [OF o] by (simp_all add: fresh_run_def stopped_def)
  obtain r s2 where h: "careless no_runner ''spoil'' args s1 = Some (r, s2)" "error_total (ev s2) = 1"
    using careless_handled [OF s1(1,3)] by blast
  show ?thesis using o s1(2) h
    by (simp add: eval_dispatch_command_def careless_found dispatch_native_def stopped_def fresh_run_def Let_def)
qed


end
