(* ===== verification/Eval_Block_Props.thy ===== *)
theory Eval_Block_Props
  imports Eval_Run_Props
begin

text \<open>
  What leaving a block does to the variables: the scope of the block goes, and of its variables
  those named by \<open>PROPAGATE\<close> (at the end of the block) or by the return are set around it.
\<close>

section \<open>Propagation\<close>

definition propagated ::
  "string_view list \<Rightarrow> (string \<rightharpoonup> string_view) \<Rightarrow> (string \<rightharpoonup> string_view) \<Rightarrow> (string \<rightharpoonup> string_view)" where
  "propagated keys inner outer =
     (\<lambda>k. if k \<in> c_str ` set keys \<and> inner k \<noteq> None then map_option c_str (inner k) else outer k)"

lemma set_unwatched:
  "watched_variables ctx = [] \<Longrightarrow> eval_var_set_current key v ctx =
    (if can_set ctx then (True, store_current key v ctx) else (False, ctx))"
  by (simp add: eval_var_set_current_def eval_variable_watch_notify_def store_current_def)

lemma propagate_all_scopes:
  assumes "propagate_all keys ctx = (True, ctx')" "scopes ctx = inner # outer # rest" "watched_variables ctx = []"
  shows "ctx' = ctx\<lparr>scopes := inner # propagated keys inner outer # rest\<rparr>"
  using assms
proof (induction keys arbitrary: ctx outer)
  case Nil
  then show ?case by (simp add: propagated_def)
next
  case (Cons key keys)
  show ?case
  proof (cases "inner (c_str key)")
    case None
    then have "propagate_all keys ctx = (True, ctx')" using Cons.prems by (simp add: eval_var_defined_current_def)
    from Cons.IH [OF this Cons.prems(2,3)]
    have "ctx' = ctx\<lparr>scopes := inner # propagated keys inner outer # rest\<rparr>" .
    moreover have "propagated (key # keys) inner outer = propagated keys inner outer"
      using None by (auto simp: propagated_def fun_eq_iff)
    ultimately show ?thesis by simp
  next
    case (Some v)
    define upd where "upd = outer(c_str key \<mapsto> c_str v)"
    define c where "c = ctx\<lparr>scopes := inner # upd # rest\<rparr>"
    have get: "eval_var_get_visible ctx key = v"
      using Some Cons.prems(2) by (simp add: eval_var_get_visible_def)
    have view: "in_parent_view (eval_var_set_current key v) ctx = (if stop_requested ctx then (False, ctx) else (True, c))"
      using Cons.prems(2,3)
      by (auto simp: in_parent_view_def set_unwatched can_set_def eval_should_stop_def store_current_def sv_copy_to_arena_def
          c_def upd_def)
    have defd: "eval_var_defined_current ctx key" using Some Cons.prems(2) by (simp add: eval_var_defined_current_def)
    have go: "propagate_all keys c = (True, ctx')"
      using Cons.prems(1) view defd get by (auto split: if_splits)
    have "ctx' = c\<lparr>scopes := inner # propagated keys inner upd # rest\<rparr>"
      by (rule Cons.IH [OF go]) (simp_all add: c_def Cons.prems(3))
    moreover have "propagated keys inner upd = propagated (key # keys) inner outer"
      using Some by (auto simp: propagated_def upd_def fun_eq_iff)
    ultimately show ?thesis by (simp add: c_def)
  qed
qed

lemma pop_succeeds_frame:
  assumes "eval_policy_pop ctx = (True, ctx')" "scopes ctx \<noteq> []"
  shows "outer_kept ctx ctx'"
proof -
  have "length (policy_levels ctx) \<ge> 2"
  proof (rule ccontr)
    assume few: "\<not> length (policy_levels ctx) \<ge> 2"
    obtain ok c where c: "policy_stack_bootstrap ctx = (ok, c)" by (rule prod.exhaust)
    have "ok \<Longrightarrow> length (policy_levels c) = max 1 (length (policy_levels ctx))"
      by (rule bootstrap_frame(4) [OF c assms(2)])
    then show False using assms(1) c few by (auto simp: eval_policy_pop_def split: if_splits)
  qed
  from pop_frame(1) [OF assms(1,2) this] show ?thesis .
qed

section \<open>Leaving a block\<close>

text \<open>
  C33. Leaving a block that has a variable scope, at its end or on a return, in a run without
  watched variables: the block's scope is gone, and the scopes around it are as they were, except
  that the innermost of them has got the block's values of the propagated variables. These are, at
  the end of the block, those named by its \<open>PROPAGATE\<close>; on a return, those named by the return, or
  by the block if the return names none, and none at all unless the return propagates. A named
  variable that the block has not set itself is left alone. The cache, macro arguments and the
  environment are not touched, and the frames of the block are gone.
\<close>

theorem block_left:
  fixes s :: "'sem interp"
  assumes "block_pop_frame name for_return s = (True, ended, s')"
    and "block_frames s = frame # frames" and "variable_scope_pushed frame"
    and "scopes (ev s) = inner # outer # rest" and "watched_variables (ev s) = []"
  defines "keys \<equiv> (if for_return \<and> return_propagate_vars s \<noteq> [] then return_propagate_vars s else propagate_vars frame)"
  shows "scopes (ev s') = (if for_return \<and> \<not> propagate_on_return frame then outer else propagated keys inner outer) # rest
    \<and> cache_entries (ev s') = cache_entries (ev s) \<and> macro_frames (ev s') = macro_frames (ev s)
    \<and> env_overrides (ev s') = env_overrides (ev s)
    \<and> ended = frame \<and> block_frames s' = frames \<and> exec_depth s = Suc (exec_depth s')"
proof -
  have cur: "map_option frame_kind (eval_exec_current s) = Some EVAL_EXEC_CTX_BLOCK"
    using assms(1,2) by (auto simp: block_pop_frame_def split: if_splits)
  then have depth: "0 < exec_depth s" by (auto simp: eval_exec_current_def split: if_splits)
  define s1 where "s1 = s\<lparr>block_frames := frames\<rparr>"
  define goes where "goes = (\<not> for_return \<or> propagate_on_return frame)"
  have vars: "(if for_return \<and> return_propagate_vars s1 \<noteq> [] then return_propagate_vars s1 else propagate_vars frame) = keys"
    by (simp add: keys_def s1_def)
  obtain ok s2 where p: "(if goes then on_ev (block_propagate_to_parent_scope (frame\<lparr>propagate_vars := keys\<rparr>)) s1 else (True, s1)) = (ok, s2)"
    by (rule prod.exhaust)
  obtain popped s3 where q: "(if policy_scope_pushed frame then on_ev eval_policy_pop s2 else (True, s2)) = (popped, s3)"
    by (rule prod.exhaust)
  have eq: "block_pop_frame name for_return s =
      (if \<not> ok then (False, frame, s2)
       else if \<not> popped then (False, frame, flow_error name ''Failed to restore policy scope'' s3)
       else (True, frame, eval_exec_pop (s3\<lparr>ev := eval_scope_pop (ev s3)\<rparr>)))"
    using cur assms(3)
    unfolding block_pop_frame_def assms(2) Let_def list.case s1_def [symmetric] vars goes_def [symmetric] p prod.case q
    by simp
  then have fin: ok popped "ended = frame" "s' = eval_exec_pop (s3\<lparr>ev := eval_scope_pop (ev s3)\<rparr>)"
    using assms(1) by (auto split: if_splits)
  let ?o = "if goes then propagated keys inner outer else outer"
  have "block_propagate_to_parent_scope (frame\<lparr>propagate_vars := keys\<rparr>) (ev s) = (True, c) \<Longrightarrow>
      c = ev s\<lparr>scopes := inner # propagated keys inner outer # rest\<rparr>" for c
    using propagate_all_scopes [OF _ assms(4,5), of keys c] assms(3,4)
    by (auto simp: block_propagate_to_parent_scope_def propagated_def split: if_splits)
  then have s2: "s2 = s1\<lparr>ev := ev s\<lparr>scopes := inner # ?o # rest\<rparr>\<rparr>"
    using p fin(1) assms(4)
    by (cases goes) (auto simp: on_ev_def s1_def split: prod.splits)
  have s3: "s3\<lparr>ev := ev s2\<rparr> = s2 \<and> outer_kept (ev s2) (ev s3)"
  proof (cases "policy_scope_pushed frame")
    case True
    then obtain c where c: "eval_policy_pop (ev s2) = (True, c)" "s3 = s2\<lparr>ev := c\<rparr>"
      using q fin(2) by (auto simp: on_ev_def split: prod.splits)
    have "scopes (ev s2) \<noteq> []" by (simp add: s2)
    from pop_succeeds_frame [OF c(1) this] show ?thesis by (simp add: c(2))
  qed (use q in simp)
  have fields: "exec_depth s3 = exec_depth s" "block_frames s3 = frames"
    using arg_cong [OF conjunct1 [OF s3], of exec_depth] arg_cong [OF conjunct1 [OF s3], of block_frames]
    by (simp_all add: s2 s1_def)
  have "tl (scopes (ev s3)) = ?o # rest" "length (scopes (ev s3)) > 1"
    using s3 by (simp_all add: outer_kept_def s2)
  then have "scopes (ev s') = ?o # rest" by (simp add: fin(4) eval_exec_pop_def eval_scope_pop_def)
  moreover have "cache_entries (ev s') = cache_entries (ev s)" "macro_frames (ev s') = macro_frames (ev s)"
    "env_overrides (ev s') = env_overrides (ev s)"
    using s3 by (simp_all add: fin(4) eval_exec_pop_def eval_scope_pop_def outer_kept_def s2)
  moreover have "block_frames s' = frames" "exec_depth s = Suc (exec_depth s')"
    using fields depth by (simp_all add: fin(4) eval_exec_pop_def)
  ultimately show ?thesis using fin(3) by (auto simp: goes_def)
qed

text \<open>A block that has changed two variables and propagates one of them.\<close>

definition block_inside :: "unit interp" where
  "block_inside =
     (fresh_run Map.empty)\<lparr>
       ev := (one_scope Map.empty)\<lparr>scopes := [[''A'' \<mapsto> ''1'', ''B'' \<mapsto> ''2''], [''A'' \<mapsto> ''0'', ''B'' \<mapsto> ''0'']]\<rparr>,
       exec_contexts := [new_frame EVAL_EXEC_CTX_ROOT, new_frame EVAL_EXEC_CTX_BLOCK], exec_depth := 2,
       block_frames := [blank_block_frame\<lparr>variable_scope_pushed := True, propagate_vars := [''A'', ''C'']\<rparr>]\<rparr>"

lemma block_left_witness:
  "\<exists>ended s'. block_pop_frame ''endblock'' False block_inside = (True, ended, s') \<and>
     scopes (ev s') = [[''A'' \<mapsto> ''1'', ''B'' \<mapsto> ''0'']]"
proof -
  have "fst (block_pop_frame ''endblock'' False block_inside)"
    by (simp add: block_inside_def block_pop_frame_def fresh_run_def new_frame_def blank_block_frame_def eval_exec_current_def
        block_propagate_to_parent_scope_def on_ev_def eval_var_defined_current_def in_parent_view_def c_str_def one_scope_def
        eval_var_get_visible_def set_unwatched can_set_def store_current_def eval_should_stop_def Let_def)
  then obtain ended s' where pop: "block_pop_frame ''endblock'' False block_inside = (True, ended, s')"
    by (cases "block_pop_frame ''endblock'' False block_inside") auto
  have "scopes (ev s') = [propagated [''A'', ''C''] [''A'' \<mapsto> ''1'', ''B'' \<mapsto> ''2''] [''A'' \<mapsto> ''0'', ''B'' \<mapsto> ''0'']]"
    using block_left [OF pop] by (simp add: block_inside_def blank_block_frame_def one_scope_def)
  moreover have "propagated [''A'', ''C''] [''A'' \<mapsto> ''1'', ''B'' \<mapsto> ''2''] [''A'' \<mapsto> ''0'', ''B'' \<mapsto> ''0''] =
      [''A'' \<mapsto> ''1'', ''B'' \<mapsto> ''0'']"
    by (auto simp: propagated_def c_str_def fun_eq_iff)
  ultimately show ?thesis using pop by simp
qed

end
