(* ===== verification/Eval_List.thy ===== *)
theory Eval_List
  imports Eval_Dispatch Cmk_Math
begin

text \<open>
  The functions on lists behind \<open>list()\<close>, \<open>src_v2/evaluator/eval_list_helpers.c\<close>: splitting and joining at
  semicolons, indices, the transformations of an item and the three comparisons of sorting. A pointer
  into a text is the rest of the text from there. The engine of regular expressions (\<open>pcre2posix.h\<close>) is
  a parameter: \<open>regcomp\<close> of a pattern is \<open>None\<close> when it does not compile, and otherwise the matcher, which
  gives for a subject the offsets of the groups, at most ten, when it matches.
\<close>

type_synonym regex_matcher = "string \<Rightarrow> (int \<times> int) list option"
type_synonym regex_engine = "string \<Rightarrow> regex_matcher option"

section \<open>Items\<close>

definition list_count_items :: "string_view \<Rightarrow> nat" where
  "list_count_items list_sv =
     (if length list_sv = 0 then 0 else 1 + length (filter (\<lambda>c. c = CHR '';'') list_sv))"

definition list_item_in_set :: "string_view \<Rightarrow> string_view list \<Rightarrow> bool" where
  "list_item_in_set item xs = list_ex (\<lambda>x. eval_sv_key_eq item x) xs"

text \<open>From \<open>p\<close> to the next semicolon, or to the end.\<close>

function items_from :: "string \<Rightarrow> string_view list" where
  "items_from p =
     (let item = takeWhile (\<lambda>c. c \<noteq> CHR '';'') p; q = dropWhile (\<lambda>c. c \<noteq> CHR '';'') p
      in if q = [] then [item] else item # items_from (tl q))"
  by pat_completeness auto
termination
proof (relation "measure length", simp, goal_cases)
  case (1 p item q)
  then have "length q \<noteq> 0" "length q \<le> length p" by (simp_all add: length_dropWhile_le)
  then show ?case by (cases q) auto
qed

declare items_from.simps [simp del]

definition list_split_semicolon_preserve_empty :: "string_view \<Rightarrow> string_view list" where
  "list_split_semicolon_preserve_empty input = (if length input = 0 then [] else items_from input)"

definition list_sv_parse_i64 :: "string_view \<Rightarrow> int option" where
  "list_sv_parse_i64 sv =
     (if length sv = 0 \<or> length sv \<ge> 64 then None
      else (case c_strtol (c_str sv) of (v, rest) \<Rightarrow> if rest \<noteq> [] then None else Some v))"

definition list_join_items_temp :: "string_view list \<Rightarrow> string_view" where
  "list_join_items_temp xs = (if xs = [] then [] else eval_sv_join_semi_temp xs)"

definition list_set_var_from_items :: "string_view \<Rightarrow> string_view list \<Rightarrow> eval_ctx \<Rightarrow> bool \<times> eval_ctx" where
  "list_set_var_from_items var xs ctx =
     (if eval_should_stop ctx then (False, ctx) else eval_var_set_current var (list_join_items_temp xs) ctx)"

definition list_load_var_items :: "string_view \<Rightarrow> eval_ctx \<Rightarrow> string_view list" where
  "list_load_var_items var ctx = list_split_semicolon_preserve_empty (eval_var_get_visible ctx var)"

definition list_normalize_index :: "nat \<Rightarrow> int \<Rightarrow> bool \<Rightarrow> nat option" where
  "list_normalize_index item_count raw_index allow_end =
     (if int item_count > LLONG_MAX then None
      else
        (let idx = (if raw_index < 0 then int item_count + raw_index else raw_index);
             hi = (if allow_end then int item_count else int item_count - 1)
         in if item_count = 0 \<and> \<not> allow_end then None
            else if idx < 0 \<or> idx > hi then None
            else Some (nat idx)))"

section \<open>Transforming an item\<close>

definition list_concat_temp :: "string_view \<Rightarrow> string_view \<Rightarrow> string_view" where
  "list_concat_temp a b = c_str (a @ b)"

definition list_to_case_temp :: "string_view \<Rightarrow> bool \<Rightarrow> string_view" where
  "list_to_case_temp s upper = c_str (map (if upper then c_toupper else c_tolower) s)"

definition list_strip_ws_view :: "string_view \<Rightarrow> string_view" where
  "list_strip_ws_view s = (let t = dropWhile c_isspace s in rev (dropWhile c_isspace (rev t)))"

text \<open>Behind the end of a generator expression, or at the end of the text.\<close>

fun skip_genex :: "nat \<Rightarrow> string \<Rightarrow> string" where
  "skip_genex 0 s = s"
| "skip_genex (Suc d) [] = []"
| "skip_genex (Suc d) (c # cs) =
     (if c = CHR ''$'' \<and> cs \<noteq> [] \<and> hd cs = CHR ''<'' then
        (case cs of [] \<Rightarrow> [] | x # xs \<Rightarrow> skip_genex (Suc (Suc d)) xs)
      else if c = CHR ''>'' then skip_genex d cs
      else skip_genex (Suc d) cs)"

lemma skip_genex_length: "length (skip_genex d s) \<le> length s"
proof (induction d s rule: skip_genex.induct)
  case (3 d c cs)
  show ?case
  proof (cases "c = CHR ''$'' \<and> cs \<noteq> [] \<and> hd cs = CHR ''<''")
    case True
    then obtain x xs where "cs = x # xs" by (cases cs) auto
    with True 3(1) [of x xs] show ?thesis by simp
  next
    case False
    then have "skip_genex (Suc d) (c # cs) = (if c = CHR ''>'' then skip_genex d cs else skip_genex (Suc d) cs)"
      by (simp only: skip_genex.simps(3) if_False)
    with False 3(2,3) show ?thesis by (cases "c = CHR ''>''") auto
  qed
qed simp_all

function genex_strip :: "string \<Rightarrow> string" where
  "genex_strip [] = []"
| "genex_strip (c # cs) =
     (if c = CHR ''$'' \<and> cs \<noteq> [] \<and> hd cs = CHR ''<'' then genex_strip (skip_genex 1 (tl cs))
      else c # genex_strip cs)"
  by pat_completeness auto
termination
proof (relation "measure length", simp_all, goal_cases)
  case (1 cs)
  then show ?case using skip_genex_length [of "Suc 0" "tl cs"] by (cases cs) auto
qed

definition list_genex_strip_temp :: "string_view \<Rightarrow> string_view" where
  "list_genex_strip_temp s = c_str (genex_strip s)"

subsection \<open>Replacing matches\<close>

text \<open>A group nobody filled in has no offsets.\<close>

definition match_group :: "(int \<times> int) list \<Rightarrow> nat \<Rightarrow> int \<times> int" where
  "match_group m i = (if i < length m then m ! i else (-1, -1))"

definition matched_part :: "string \<Rightarrow> int \<times> int \<Rightarrow> string" where
  "matched_part here g = (case g of (so, eo) \<Rightarrow> take (nat (eo - so)) (drop (nat so) here))"

fun expand_replacement :: "(int \<times> int) list \<Rightarrow> string \<Rightarrow> string \<Rightarrow> string" where
  "expand_replacement m here [] = []"
| "expand_replacement m here [c] = [c]"
| "expand_replacement m here (c # n # rest) =
     (if c = BACKSLASH then
        (if c_isdigit n then
           (let g = match_group m (code n - 48) in
            (if fst g \<ge> 0 \<and> snd g \<ge> fst g then matched_part here g else []) @ expand_replacement m here rest)
         else n # expand_replacement m here rest)
      else c # expand_replacement m here (n # rest))"

text \<open>
  The loop over the matches from \<open>here\<close> (the code's \<open>cursor\<close>) on. An engine that reports a match past the end of the
  subject would make the code read behind it; the loop ends there.
\<close>

function replace_matches :: "regex_matcher \<Rightarrow> string \<Rightarrow> string \<Rightarrow> string" where
  "replace_matches re replacement here =
     (case re here of
        None \<Rightarrow> here
      | Some m \<Rightarrow>
          (case match_group m 0 of
             (so, eo) \<Rightarrow>
               if so < 0 \<or> eo < so then here
               else if nat eo > length here then here
               else
                 take (nat so) here @ expand_replacement m here replacement @
                 (if eo = 0 then
                    (if here = [] then [] else hd here # replace_matches re replacement (tl here))
                  else replace_matches re replacement (drop (nat eo) here))))"
  by pat_completeness auto
termination
  by (relation "measure (\<lambda>(re, replacement, here). length here)") auto

declare replace_matches.simps [simp del]

definition list_regex_replace_one_temp :: "regex_matcher \<Rightarrow> string_view \<Rightarrow> string_view \<Rightarrow> string_view" where
  "list_regex_replace_one_temp re replacement input = c_str (replace_matches re replacement (c_str input))"

section \<open>Comparing items\<close>

datatype list_sort_compare = LIST_SORT_COMPARE_STRING | LIST_SORT_COMPARE_FILE_BASENAME | LIST_SORT_COMPARE_NATURAL

datatype list_sort_case = LIST_SORT_CASE_SENSITIVE | LIST_SORT_CASE_INSENSITIVE

datatype list_sort_order = LIST_SORT_ORDER_ASCENDING | LIST_SORT_ORDER_DESCENDING

record list_sort_options =
  sort_compare :: list_sort_compare
  sort_case_mode :: list_sort_case
  sort_order :: list_sort_order

definition list_path_basename :: "string_view \<Rightarrow> string_view" where
  "list_path_basename s = rev (takeWhile (\<lambda>c. \<not> (c = CHR ''/'' \<or> c = BACKSLASH)) (rev s))"

definition list_char_cmp :: "char \<Rightarrow> char \<Rightarrow> bool \<Rightarrow> int" where
  "list_char_cmp a b case_sensitive =
     (let ua = code (if case_sensitive then a else c_tolower a);
          ub = code (if case_sensitive then b else c_tolower b)
      in if ua < ub then -1 else if ua > ub then 1 else 0)"

text \<open>The first difference among the common positions.\<close>

fun common_cmp :: "bool \<Rightarrow> string \<Rightarrow> string \<Rightarrow> int" where
  "common_cmp case_sensitive (x # xs) (y # ys) =
     (let c = list_char_cmp x y case_sensitive in if c \<noteq> 0 then c else common_cmp case_sensitive xs ys)"
| "common_cmp case_sensitive _ _ = 0"

definition list_sv_lex_cmp :: "string_view \<Rightarrow> string_view \<Rightarrow> bool \<Rightarrow> int" where
  "list_sv_lex_cmp a b case_sensitive =
     (let c = common_cmp case_sensitive a b in
      if c \<noteq> 0 then c else if length a < length b then -1 else if length a > length b then 1 else 0)"

definition list_is_digit :: "char \<Rightarrow> bool" where
  "list_is_digit c \<longleftrightarrow> code c \<ge> code (CHR ''0'') \<and> code c \<le> code (CHR ''9'')"

definition significant_digits :: "string \<Rightarrow> string" where
  "significant_digits s = takeWhile list_is_digit (dropWhile (\<lambda>c. c = CHR ''0'') s)"

definition behind_digits :: "string \<Rightarrow> string" where
  "behind_digits s = dropWhile list_is_digit (dropWhile (\<lambda>c. c = CHR ''0'') s)"

lemma behind_digits_length: "length (behind_digits s) \<le> length s"
  by (metis behind_digits_def le_trans length_dropWhile_le)

lemma behind_digits_Cons: "list_is_digit x \<Longrightarrow> length (behind_digits (x # xs)) \<le> length xs"
  by (auto simp: behind_digits_def intro: order_trans [OF length_dropWhile_le])

function list_sv_natural_cmp :: "string_view \<Rightarrow> string_view \<Rightarrow> bool \<Rightarrow> int" where
  "list_sv_natural_cmp [] [] case_sensitive = 0"
| "list_sv_natural_cmp (x # xs) [] case_sensitive = 1"
| "list_sv_natural_cmp [] (y # ys) case_sensitive = -1"
| "list_sv_natural_cmp (x # xs) (y # ys) case_sensitive =
     (if list_is_digit x \<and> list_is_digit y then
        (let da = significant_digits (x # xs); db = significant_digits (y # ys);
             runa = length (x # xs) - length (behind_digits (x # xs));
             runb = length (y # ys) - length (behind_digits (y # ys));
             c = common_cmp True da db
         in if length da \<noteq> length db then (if length da < length db then -1 else 1)
            else if c \<noteq> 0 then c
            else if runa \<noteq> runb then (if runa < runb then -1 else 1)
            else list_sv_natural_cmp (behind_digits (x # xs)) (behind_digits (y # ys)) case_sensitive)
      else
        (let c = list_char_cmp x y case_sensitive in
         if c \<noteq> 0 then c else list_sv_natural_cmp xs ys case_sensitive))"
  by pat_completeness auto
termination
  by (relation "measure (\<lambda>(a, b, case_sensitive). length a)") (auto simp: le_imp_less_Suc behind_digits_Cons)

definition list_sort_item_cmp :: "list_sort_options \<Rightarrow> string_view \<Rightarrow> string_view \<Rightarrow> int" where
  "list_sort_item_cmp opt a0 b0 =
     (let case_sensitive = (sort_case_mode opt = LIST_SORT_CASE_SENSITIVE);
          base = (sort_compare opt = LIST_SORT_COMPARE_FILE_BASENAME);
          a = (if base then list_path_basename a0 else a0);
          b = (if base then list_path_basename b0 else b0);
          cmp = (if sort_compare opt = LIST_SORT_COMPARE_NATURAL then list_sv_natural_cmp a b case_sensitive
                 else list_sv_lex_cmp a b case_sensitive)
      in if sort_order opt = LIST_SORT_ORDER_DESCENDING then - cmp else cmp)"

end
