(* ===== verification/Eval_List_Command.thy ===== *)
theory Eval_List_Command
  imports Eval_List
begin

text \<open>
  The command \<open>list()\<close>, \<open>src_v2/evaluator/eval_list.c\<close>: one definition per subcommand, the loops of the code
  over arrays as recursions on the indices, and the handler; and the handler of \<open>math()\<close>, whose
  evaluation is in \<open>Cmk_Math\<close>. \<open>name\<close> is the name the command was called by, \<open>a\<close> its arguments.
\<close>

section \<open>Setting variables and reporting\<close>

definition list_error :: "string_view \<Rightarrow> string \<Rightarrow> 'sem interp \<Rightarrow> 'sem outcome" where
  "list_error name cause s = result_from (flow_error name cause s)"

definition set_var :: "string_view \<Rightarrow> string_view \<Rightarrow> 'sem interp \<Rightarrow> 'sem interp" where
  "set_var var value s = snd (on_ev (eval_var_set_current var value) s)"

definition set_var_items :: "string_view \<Rightarrow> string_view list \<Rightarrow> 'sem interp \<Rightarrow> 'sem interp" where
  "set_var_items var xs s = snd (on_ev (list_set_var_from_items var xs) s)"

definition emit_list :: "list_event \<Rightarrow> string_view \<Rightarrow> 'sem interp \<Rightarrow> 'sem outcome" where
  "emit_list kind var s = emit_then (Event_List kind (sv_copy_to_arena var)) s result_from"

type_synonym 'sem subcommand = "string_view \<Rightarrow> string_view list \<Rightarrow> 'sem interp \<Rightarrow> 'sem outcome"

section \<open>Adding and removing items\<close>

definition list_append_prepend :: "'sem subcommand" where
  "list_append_prepend name a s =
     (if length a < 2 then list_error name ''list(APPEND/PREPEND) requires list variable name'' s
      else if length a = 2 then result_from s
      else
        (let is_append = eval_sv_eq_ci_lit (a ! 0) ''APPEND'';
             kind = (if is_append then EVENT_LIST_APPEND else EVENT_LIST_PREPEND);
             var = a ! 1;
             existing = eval_var_get_visible (ev s) var;
             incoming = eval_sv_join_semi_temp (drop 2 a);
             left = (if is_append then existing else incoming);
             right = (if is_append then incoming else existing)
         in if length existing = 0 then emit_list kind var (set_var var incoming s)
            else emit_list kind var (set_var var (c_str (left @ CHR '';'' # right)) s)))"

definition list_insert :: "'sem subcommand" where
  "list_insert name a s =
     (if length a < 4 then list_error name ''list(INSERT) requires list variable, index and at least one element'' s
      else
        (case list_sv_parse_i64 (a ! 2) of
           None \<Rightarrow> list_error name ''list(INSERT) index must be a non-negative integer'' s
         | Some raw_index \<Rightarrow>
             if raw_index < 0 then list_error name ''list(INSERT) index must be a non-negative integer'' s
             else
               (let var = a ! 1; xs = list_load_var_items var (ev s); index = nat raw_index in
                if index > length xs then list_error name ''list(INSERT) index out of range'' s
                else emit_list EVENT_LIST_INSERT var (set_var_items var (take index xs @ drop 3 a @ drop index xs) s))))"

definition list_remove_item :: "'sem subcommand" where
  "list_remove_item name a s =
     (if length a < 3 then list_error name ''list(REMOVE_ITEM) requires list variable and at least one item'' s
      else
        (let var = a ! 1; current = eval_var_get_visible (ev s) var in
         if length current = 0 then result_from s
         else
           (let kept = filter (\<lambda>item. \<not> list_item_in_set item (drop 2 a)) (items_from current) in
            if kept = [] then result_from (set_var var [] s)
            else emit_list EVENT_LIST_REMOVE var (set_var var (c_str (join_semi kept)) s))))"

text \<open>Marking items by their indices; a bad index is reported with the cause.\<close>

fun mark_indices :: "string \<Rightarrow> string_view list \<Rightarrow> bool list \<Rightarrow> string + bool list" where
  "mark_indices cause [] marks = Inr marks"
| "mark_indices cause (x # xs) marks =
     (case Option.bind (list_sv_parse_i64 x) (\<lambda>raw_idx. list_normalize_index (length marks) raw_idx False) of
        None \<Rightarrow> Inl cause
      | Some idx \<Rightarrow> mark_indices cause xs (marks[idx := True]))"

fun keep_unmarked :: "bool list \<Rightarrow> string_view list \<Rightarrow> string_view list" where
  "keep_unmarked (m # ms) (x # xs) = (if \<not> m then x # keep_unmarked ms xs else keep_unmarked ms xs)"
| "keep_unmarked _ _ = []"

definition list_remove_at :: "'sem subcommand" where
  "list_remove_at name a s =
     (if length a < 3 then list_error name ''list(REMOVE_AT) requires list variable and at least one index'' s
      else
        (let var = a ! 1; xs = list_load_var_items var (ev s) in
         case mark_indices ''list(REMOVE_AT) index out of range'' (drop 2 a) (replicate (length xs) False) of
           Inl cause \<Rightarrow> list_error name cause s
         | Inr marks \<Rightarrow> emit_list EVENT_LIST_REMOVE var (set_var_items var (keep_unmarked marks xs) s)))"

fun first_of_each :: "string_view list \<Rightarrow> string_view list \<Rightarrow> string_view list" where
  "first_of_each out [] = out"
| "first_of_each out (x # xs) =
     (if list_ex (\<lambda>y. eval_sv_key_eq x y) out then first_of_each out xs else first_of_each (out @ [x]) xs)"

definition list_remove_duplicates :: "'sem subcommand" where
  "list_remove_duplicates name a s =
     (if length a \<noteq> 2 then list_error name ''list(REMOVE_DUPLICATES) requires only the list variable'' s
      else
        (let var = a ! 1; xs = list_load_var_items var (ev s) in
         if xs = [] \<and> \<not> eval_var_defined_visible (ev s) var then result_from s
         else emit_list EVENT_LIST_REMOVE var (set_var_items var (first_of_each [] xs) s)))"

text \<open>The variables popped into are set one after the other, then the list.\<close>

fun pop_into :: "string_view list \<Rightarrow> string_view list \<Rightarrow> 'sem interp \<Rightarrow> 'sem interp" where
  "pop_into (v # vs) (x # xs) s = pop_into vs xs (set_var v x s)"
| "pop_into _ _ s = s"

definition list_pop :: "'sem subcommand" where
  "list_pop name a s =
     (if length a < 2 then list_error name ''list(POP_BACK/POP_FRONT) requires list variable'' s
      else
        (let pop_front = eval_sv_eq_ci_lit (a ! 0) ''POP_FRONT'';
             var = a ! 1;
             pop_n = (if length a = 2 then 1 else length a - 2);
             xs = list_load_var_items var (ev s)
         in if length xs < pop_n then
              list_error name ''list(POP_BACK/POP_FRONT) cannot pop more items than list size'' s
            else
              (let s1 = pop_into (drop 2 a) (if pop_front then xs else rev xs) s;
                   remain_count = length xs - pop_n
               in if remain_count = 0 then result_from (set_var var [] s1)
                  else result_from
                    (set_var_items var (take remain_count (if pop_front then drop pop_n xs else xs)) s1))))"

section \<open>Asking\<close>

definition list_length :: "'sem subcommand" where
  "list_length name a s =
     (if length a \<noteq> 3 then list_error name ''list(LENGTH) requires list variable and output variable'' s
      else result_from (set_var (a ! 2) (nat_text (list_count_items (eval_var_get_visible (ev s) (a ! 1)))) s))"

fun pick_items :: "string_view list \<Rightarrow> string_view list \<Rightarrow> string + string_view list" where
  "pick_items xs [] = Inr []"
| "pick_items xs (i # is) =
     (case list_sv_parse_i64 i of
        None \<Rightarrow> Inl ''list(GET) index is not a valid integer''
      | Some raw_idx \<Rightarrow>
          (case list_normalize_index (length xs) raw_idx False of
             None \<Rightarrow> Inl ''list(GET) index out of range''
           | Some idx \<Rightarrow> map_sum id (\<lambda>ys. xs ! idx # ys) (pick_items xs is)))"

definition list_get :: "'sem subcommand" where
  "list_get name a s =
     (if length a < 4 then list_error name ''list(GET) requires list variable, index(es) and output variable'' s
      else
        (case pick_items (list_load_var_items (a ! 1) (ev s)) (butlast (drop 2 a)) of
           Inl cause \<Rightarrow> list_error name cause s
         | Inr picked \<Rightarrow> result_from (set_var (last a) (eval_sv_join_semi_temp picked) s)))"

fun find_from :: "nat \<Rightarrow> string_view \<Rightarrow> string_view list \<Rightarrow> int" where
  "find_from i needle [] = -1"
| "find_from i needle (x # xs) = (if eval_sv_key_eq x needle then int i else find_from (i + 1) needle xs)"

definition list_find :: "'sem subcommand" where
  "list_find name a s =
     (if length a \<noteq> 4 then list_error name ''list(FIND) requires list variable, value and output variable'' s
      else result_from (set_var (a ! 3) (show_lld (find_from 0 (a ! 2) (list_load_var_items (a ! 1) (ev s)))) s))"

fun glue_items :: "string_view \<Rightarrow> string_view list \<Rightarrow> string" where
  "glue_items glue [] = []"
| "glue_items glue [x] = x"
| "glue_items glue (x # xs) = x @ glue @ glue_items glue xs"

definition list_join :: "'sem subcommand" where
  "list_join name a s =
     (if length a \<noteq> 4 then list_error name ''list(JOIN) requires list variable, glue and output variable'' s
      else result_from (set_var (a ! 3) (c_str (glue_items (a ! 2) (list_load_var_items (a ! 1) (ev s)))) s))"

definition list_sublist :: "'sem subcommand" where
  "list_sublist name a s =
     (if length a \<noteq> 5 then list_error name ''list(SUBLIST) requires list variable, begin, length and output variable'' s
      else
        (case (list_sv_parse_i64 (a ! 2), list_sv_parse_i64 (a ! 3)) of
           (Some begin, Some len) \<Rightarrow>
             if begin < 0 \<or> len < -1 then
               list_error name ''list(SUBLIST) begin must be >= 0 and length >= -1'' s
             else
               (let xs = list_load_var_items (a ! 1) (ev s); out_var = a ! 4; start = nat begin in
                if start > length xs then list_error name ''list(SUBLIST) begin index out of range'' s
                else if start = length xs \<or> len = 0 then result_from (set_var out_var [] s)
                else
                  (let stop = (if len \<ge> 0 \<and> start + nat len < length xs then start + nat len else length xs)
                   in result_from (set_var out_var (list_join_items_temp (take (stop - start) (drop start xs))) s)))
         | _ \<Rightarrow> list_error name ''list(SUBLIST) begin/length must be integers'' s))"

section \<open>Reordering\<close>

definition list_filter :: "regex_engine \<Rightarrow> 'sem subcommand" where
  "list_filter regcomp name a s =
     (if length a \<noteq> 5 then list_error name ''list(FILTER) requires list variable, mode and regex'' s
      else if \<not> eval_sv_eq_ci_lit (a ! 3) ''REGEX'' then
        list_error name ''list(FILTER) currently supports only REGEX mode'' s
      else if \<not> eval_sv_eq_ci_lit (a ! 2) ''INCLUDE'' \<and> \<not> eval_sv_eq_ci_lit (a ! 2) ''EXCLUDE'' then
        list_error name ''list(FILTER) mode must be INCLUDE or EXCLUDE'' s
      else
        (let include_mode = eval_sv_eq_ci_lit (a ! 2) ''INCLUDE'';
             var = a ! 1;
             xs = list_load_var_items var (ev s)
         in if xs = [] \<and> \<not> eval_var_defined_visible (ev s) var then result_from s
            else
              (case regcomp (c_str (a ! 4)) of
                 None \<Rightarrow> list_error name ''Invalid regex pattern'' s
               | Some re \<Rightarrow>
                   result_from (set_var_items var (filter (\<lambda>x. (re (c_str x) \<noteq> None) = include_mode) xs) s))))"

fun swap_ends :: "nat \<Rightarrow> nat \<Rightarrow> string_view list \<Rightarrow> string_view list" where
  "swap_ends i 0 xs = xs"
| "swap_ends i (Suc n) xs =
     swap_ends (i + 1) n (xs[i := xs ! (length xs - 1 - i), length xs - 1 - i := xs ! i])"

definition list_reverse :: "'sem subcommand" where
  "list_reverse name a s =
     (if length a \<noteq> 2 then list_error name ''list(REVERSE) requires only the list variable'' s
      else
        (let var = a ! 1; xs = list_load_var_items var (ev s) in
         if xs = [] \<and> \<not> eval_var_defined_visible (ev s) var then result_from s
         else emit_list EVENT_LIST_SORT var (set_var_items var (swap_ends 0 (length xs div 2) xs) s)))"

fun parse_sort_options :: "string_view list \<Rightarrow> list_sort_options \<Rightarrow> string + list_sort_options" where
  "parse_sort_options [] opt = Inr opt"
| "parse_sort_options (tok # rest) opt =
     (if eval_sv_eq_ci_lit tok ''COMPARE'' then
        (case rest of
           [] \<Rightarrow> Inl ''list(SORT COMPARE) missing value''
         | v # rest1 \<Rightarrow>
             if eval_sv_eq_ci_lit v ''STRING'' then
               parse_sort_options rest1 (opt\<lparr>sort_compare := LIST_SORT_COMPARE_STRING\<rparr>)
             else if eval_sv_eq_ci_lit v ''FILE_BASENAME'' then
               parse_sort_options rest1 (opt\<lparr>sort_compare := LIST_SORT_COMPARE_FILE_BASENAME\<rparr>)
             else if eval_sv_eq_ci_lit v ''NATURAL'' then
               parse_sort_options rest1 (opt\<lparr>sort_compare := LIST_SORT_COMPARE_NATURAL\<rparr>)
             else Inl ''list(SORT COMPARE) received unsupported value'')
      else if eval_sv_eq_ci_lit tok ''CASE'' then
        (case rest of
           [] \<Rightarrow> Inl ''list(SORT CASE) missing value''
         | v # rest1 \<Rightarrow>
             if eval_sv_eq_ci_lit v ''SENSITIVE'' then
               parse_sort_options rest1 (opt\<lparr>sort_case_mode := LIST_SORT_CASE_SENSITIVE\<rparr>)
             else if eval_sv_eq_ci_lit v ''INSENSITIVE'' then
               parse_sort_options rest1 (opt\<lparr>sort_case_mode := LIST_SORT_CASE_INSENSITIVE\<rparr>)
             else Inl ''list(SORT CASE) received unsupported value'')
      else if eval_sv_eq_ci_lit tok ''ORDER'' then
        (case rest of
           [] \<Rightarrow> Inl ''list(SORT ORDER) missing value''
         | v # rest1 \<Rightarrow>
             if eval_sv_eq_ci_lit v ''ASCENDING'' then
               parse_sort_options rest1 (opt\<lparr>sort_order := LIST_SORT_ORDER_ASCENDING\<rparr>)
             else if eval_sv_eq_ci_lit v ''DESCENDING'' then
               parse_sort_options rest1 (opt\<lparr>sort_order := LIST_SORT_ORDER_DESCENDING\<rparr>)
             else Inl ''list(SORT ORDER) received unsupported value'')
      else Inl ''list(SORT) received unsupported option token'')"

definition default_sort_options :: list_sort_options where
  "default_sort_options =
     \<lparr>sort_compare = LIST_SORT_COMPARE_STRING, sort_case_mode = LIST_SORT_CASE_SENSITIVE,
      sort_order = LIST_SORT_ORDER_ASCENDING\<rparr>"

text \<open>The key moves down past the items greater than it; then the next one.\<close>

fun shift_down :: "list_sort_options \<Rightarrow> string_view \<Rightarrow> nat \<Rightarrow> string_view list \<Rightarrow> string_view list" where
  "shift_down opt key 0 xs = xs[0 := key]"
| "shift_down opt key (Suc j) xs =
     (if list_sort_item_cmp opt (xs ! j) key > 0 then shift_down opt key j (xs[Suc j := xs ! j])
      else xs[Suc j := key])"

definition insertion_sort :: "list_sort_options \<Rightarrow> string_view list \<Rightarrow> string_view list" where
  "insertion_sort opt xs = fold (\<lambda>i ys. shift_down opt (ys ! i) i ys) [1..<length xs] xs"

definition list_sort :: "'sem subcommand" where
  "list_sort name a s =
     (if length a < 2 then list_error name ''list(SORT) requires list variable'' s
      else
        (case parse_sort_options (drop 2 a) default_sort_options of
           Inl cause \<Rightarrow> list_error name cause s
         | Inr opt \<Rightarrow>
             (let var = a ! 1; xs = list_load_var_items var (ev s) in
              if xs = [] \<and> \<not> eval_var_defined_visible (ev s) var then result_from s
              else result_from (set_var_items var (insertion_sort opt xs) s))))"

end
