(* ===== verification/Eval_List_Transform.thy ===== *)
theory Eval_List_Transform
  imports Eval_List_Command
begin

text \<open>
  \<open>list(TRANSFORM)\<close> and the handlers of \<open>list()\<close> and \<open>math()\<close>, \<open>src_v2/evaluator/eval_list.c\<close> and
  \<open>eval_math.c\<close>; and the platform whose native commands are these and the flow commands. The action is read
  first, then the selector marks the items, then the marked items are changed.
\<close>

section \<open>The action\<close>

datatype list_transform_action =
    LIST_TRANSFORM_APPEND | LIST_TRANSFORM_PREPEND | LIST_TRANSFORM_TOLOWER | LIST_TRANSFORM_TOUPPER
  | LIST_TRANSFORM_STRIP | LIST_TRANSFORM_GENEX_STRIP | LIST_TRANSFORM_REPLACE

text \<open>With its two arguments, and the index of the argument behind them.\<close>

definition transform_action ::
  "string_view list \<Rightarrow> string + list_transform_action \<times> string_view \<times> string_view \<times> nat" where
  "transform_action a =
     (let act = a ! 2 in
      if eval_sv_eq_ci_lit act ''APPEND'' then
        (if 3 \<ge> length a then Inl ''list(TRANSFORM APPEND) missing suffix''
         else Inr (LIST_TRANSFORM_APPEND, a ! 3, [], 4))
      else if eval_sv_eq_ci_lit act ''PREPEND'' then
        (if 3 \<ge> length a then Inl ''list(TRANSFORM PREPEND) missing prefix''
         else Inr (LIST_TRANSFORM_PREPEND, a ! 3, [], 4))
      else if eval_sv_eq_ci_lit act ''TOLOWER'' then Inr (LIST_TRANSFORM_TOLOWER, [], [], 3)
      else if eval_sv_eq_ci_lit act ''TOUPPER'' then Inr (LIST_TRANSFORM_TOUPPER, [], [], 3)
      else if eval_sv_eq_ci_lit act ''STRIP'' then Inr (LIST_TRANSFORM_STRIP, [], [], 3)
      else if eval_sv_eq_ci_lit act ''GENEX_STRIP'' then Inr (LIST_TRANSFORM_GENEX_STRIP, [], [], 3)
      else if eval_sv_eq_ci_lit act ''REPLACE'' then
        (if 4 \<ge> length a then Inl ''list(TRANSFORM REPLACE) requires regex and replacement''
         else Inr (LIST_TRANSFORM_REPLACE, a ! 3, a ! 4, 5))
      else Inl ''Unsupported list(TRANSFORM) action'')"

section \<open>The selector\<close>

text \<open>The first \<open>OUTPUT_VARIABLE\<close> from an index on: where the selector ends, and the variable.\<close>

fun index_of_output :: "nat \<Rightarrow> string_view list \<Rightarrow> nat option" where
  "index_of_output i [] = None"
| "index_of_output i (x # xs) = (if eval_sv_eq_ci_lit x ''OUTPUT_VARIABLE'' then Some i else index_of_output (i + 1) xs)"

definition output_variable_from :: "nat \<Rightarrow> string_view list \<Rightarrow> string + nat \<times> string_view option" where
  "output_variable_from k a =
     (case index_of_output k (drop k a) of
        None \<Rightarrow> Inr (length a, None)
      | Some i \<Rightarrow>
          if i + 2 \<noteq> length a then Inl ''list(TRANSFORM OUTPUT_VARIABLE) expects exactly one output variable''
          else Inr (i, Some (a ! (i + 1))))"

text \<open>The indices of \<open>FOR\<close>, upwards and downwards; \<open>step\<close> is positive.\<close>

function for_up :: "nat \<Rightarrow> nat \<Rightarrow> nat \<Rightarrow> nat list" where
  "for_up i stop step =
     (if i > stop then []
      else i # (if step = 0 \<or> stop - i < step then [] else for_up (i + step) stop step))"
  by pat_completeness auto
termination
  by (relation "measure (\<lambda>(i, stop, step). Suc stop - i)") auto

function for_down :: "nat \<Rightarrow> nat \<Rightarrow> nat \<Rightarrow> nat list" where
  "for_down i stop step =
     i # (if step = 0 \<or> i \<le> stop \<or> i - stop < step then [] else for_down (i - step) stop step)"
  by pat_completeness auto
termination
  by (relation "measure (\<lambda>(i, stop, step). i)") auto

declare for_up.simps [simp del] for_down.simps [simp del]

definition for_range :: "string_view list \<Rightarrow> nat \<Rightarrow> string + nat list" where
  "for_range args n =
     (case (list_sv_parse_i64 (args ! 0), list_sv_parse_i64 (args ! 1)) of
        (Some start, Some stop) \<Rightarrow>
          (case (if length args = 3 then list_sv_parse_i64 (args ! 2) else Some 1) of
             None \<Rightarrow> Inl ''list(TRANSFORM FOR) step must be an integer''
           | Some step \<Rightarrow>
               if step \<le> 0 then Inl ''list(TRANSFORM FOR) step must be greater than zero''
               else
                 (case (list_normalize_index n start False, list_normalize_index n stop False) of
                    (Some start_idx, Some stop_idx) \<Rightarrow>
                      Inr (if start_idx \<le> stop_idx then for_up start_idx stop_idx (nat step)
                           else for_down start_idx stop_idx (nat step))
                  | _ \<Rightarrow> Inl ''list(TRANSFORM FOR) range out of bounds''))
      | _ \<Rightarrow> Inl ''list(TRANSFORM FOR) start/stop must be integers'')"

definition mark_all :: "nat list \<Rightarrow> bool list \<Rightarrow> bool list" where
  "mark_all is marks = fold (\<lambda>i ms. ms[i := True]) is marks"

definition transform_selected ::
  "regex_engine \<Rightarrow> string_view list \<Rightarrow> nat \<Rightarrow> string_view list \<Rightarrow> string + bool list \<times> string_view option" where
  "transform_selected regcomp a next xs =
     (let none = replicate (length xs) False; every = replicate (length xs) True in
      if next = length a then Inr (every, None)
      else if eval_sv_eq_ci_lit (a ! next) ''OUTPUT_VARIABLE'' then
        (if next + 2 \<noteq> length a then Inl ''list(TRANSFORM OUTPUT_VARIABLE) expects exactly one output variable''
         else Inr (every, Some (a ! (next + 1))))
      else if eval_sv_eq_ci_lit (a ! next) ''AT'' then
        (case output_variable_from (next + 1) a of
           Inl cause \<Rightarrow> Inl cause
         | Inr (stop, out_var) \<Rightarrow>
             if next + 1 \<ge> stop then Inl ''list(TRANSFORM AT) requires at least one index''
             else map_sum id (\<lambda>marks. (marks, out_var))
               (mark_indices ''list(TRANSFORM AT) index out of range'' (take (stop - (next + 1)) (drop (next + 1) a)) none))
      else if eval_sv_eq_ci_lit (a ! next) ''FOR'' then
        (case output_variable_from (next + 1) a of
           Inl cause \<Rightarrow> Inl cause
         | Inr (stop, out_var) \<Rightarrow>
             if stop < next + 3 \<or> stop > next + 4 then Inl ''list(TRANSFORM FOR) expects start stop [step]''
             else map_sum id (\<lambda>is. (mark_all is none, out_var))
               (for_range (take (stop - (next + 1)) (drop (next + 1) a)) (length xs)))
      else if eval_sv_eq_ci_lit (a ! next) ''REGEX'' then
        (case output_variable_from (next + 2) a of
           Inl cause \<Rightarrow> Inl cause
         | Inr (stop, out_var) \<Rightarrow>
             if stop \<noteq> next + 2 then Inl ''list(TRANSFORM REGEX) expects exactly one regex argument''
             else
               (case regcomp (c_str (a ! (next + 1))) of
                  None \<Rightarrow> Inl ''Invalid regex pattern''
                | Some sel_re \<Rightarrow> Inr (map (\<lambda>x. sel_re (c_str x) \<noteq> None) xs, out_var)))
      else Inl ''list(TRANSFORM) received unsupported selector'')"

section \<open>The command\<close>

definition transform_item ::
  "list_transform_action \<Rightarrow> string_view \<Rightarrow> string_view \<Rightarrow> regex_matcher \<Rightarrow> string_view \<Rightarrow> string_view" where
  "transform_item action arg1 arg2 replace_re item =
     (case action of
        LIST_TRANSFORM_APPEND \<Rightarrow> list_concat_temp item arg1
      | LIST_TRANSFORM_PREPEND \<Rightarrow> list_concat_temp arg1 item
      | LIST_TRANSFORM_TOLOWER \<Rightarrow> list_to_case_temp item False
      | LIST_TRANSFORM_TOUPPER \<Rightarrow> list_to_case_temp item True
      | LIST_TRANSFORM_STRIP \<Rightarrow> list_strip_ws_view item
      | LIST_TRANSFORM_GENEX_STRIP \<Rightarrow> list_genex_strip_temp item
      | LIST_TRANSFORM_REPLACE \<Rightarrow> list_regex_replace_one_temp replace_re arg2 item)"

text \<open>The matcher is compiled for \<open>REPLACE\<close> only; elsewhere it is not used.\<close>

definition replace_matcher :: "regex_engine \<Rightarrow> list_transform_action \<Rightarrow> string_view \<Rightarrow> regex_matcher option" where
  "replace_matcher regcomp action pattern =
     (if action = LIST_TRANSFORM_REPLACE then regcomp (c_str pattern) else Some (\<lambda>s. None))"

fun transform_marked :: "(string_view \<Rightarrow> string_view) \<Rightarrow> bool list \<Rightarrow> string_view list \<Rightarrow> string_view list" where
  "transform_marked f (m # ms) (x # xs) = (if m then f x else x) # transform_marked f ms xs"
| "transform_marked f _ xs = xs"

definition list_transform :: "regex_engine \<Rightarrow> 'sem subcommand" where
  "list_transform regcomp name a s =
     (if length a < 3 then list_error name ''list(TRANSFORM) requires list variable and action'' s
      else
        (let var = a ! 1; xs = list_load_var_items var (ev s) in
         case transform_action a of
           Inl cause \<Rightarrow> list_error name cause s
         | Inr (action, arg1, arg2, next) \<Rightarrow>
             (case transform_selected regcomp a next xs of
                Inl cause \<Rightarrow> list_error name cause s
              | Inr (selected, out_var) \<Rightarrow>
                  (case replace_matcher regcomp action arg1 of
                     None \<Rightarrow> list_error name ''Invalid regex pattern'' s
                   | Some replace_re \<Rightarrow>
                       (let ys = transform_marked (transform_item action arg1 arg2 replace_re) selected xs in
                        case out_var of
                          Some out \<Rightarrow> emit_list EVENT_LIST_TRANSFORM var (set_var_items out ys s)
                        | None \<Rightarrow>
                            if ys = [] \<and> \<not> eval_var_defined_visible (ev s) var then result_from s
                            else emit_list EVENT_LIST_TRANSFORM var (set_var_items var ys s))))))"

definition unsupported_subcommand :: "'sem subcommand" where
  "unsupported_subcommand name a s =
     (let s1 = flow_error name ''Unsupported list() subcommand'' s
      in result_from (s1\<lparr>ev := eval_request_stop_on_error (ev s1)\<rparr>))"

definition list_subcommand :: "regex_engine \<Rightarrow> 'sem subcommand" where
  "list_subcommand regcomp name a s =
     (let sub = a ! 0 in
      if eval_sv_eq_ci_lit sub ''APPEND'' \<or> eval_sv_eq_ci_lit sub ''PREPEND'' then list_append_prepend name a s
      else if eval_sv_eq_ci_lit sub ''INSERT'' then list_insert name a s
      else if eval_sv_eq_ci_lit sub ''REMOVE_ITEM'' then list_remove_item name a s
      else if eval_sv_eq_ci_lit sub ''REMOVE_AT'' then list_remove_at name a s
      else if eval_sv_eq_ci_lit sub ''REMOVE_DUPLICATES'' then list_remove_duplicates name a s
      else if eval_sv_eq_ci_lit sub ''LENGTH'' then list_length name a s
      else if eval_sv_eq_ci_lit sub ''GET'' then list_get name a s
      else if eval_sv_eq_ci_lit sub ''FIND'' then list_find name a s
      else if eval_sv_eq_ci_lit sub ''JOIN'' then list_join name a s
      else if eval_sv_eq_ci_lit sub ''SUBLIST'' then list_sublist name a s
      else if eval_sv_eq_ci_lit sub ''POP_BACK'' \<or> eval_sv_eq_ci_lit sub ''POP_FRONT'' then list_pop name a s
      else if eval_sv_eq_ci_lit sub ''FILTER'' then list_filter regcomp name a s
      else if eval_sv_eq_ci_lit sub ''REVERSE'' then list_reverse name a s
      else if eval_sv_eq_ci_lit sub ''SORT'' then list_sort name a s
      else if eval_sv_eq_ci_lit sub ''TRANSFORM'' then list_transform regcomp name a s
      else unsupported_subcommand name a s)"

text \<open>What the handlers begin with: nothing after a stop, then the arguments.\<close>

definition with_args :: "(string_view list \<Rightarrow> 'sem interp \<Rightarrow> 'sem outcome) \<Rightarrow> arg list \<Rightarrow> 'sem interp \<Rightarrow> 'sem outcome" where
  "with_args body args s =
     (if stopped s then result_from s
      else (case on_ev (eval_resolve_args args) s of (a, s1) \<Rightarrow> if stopped s1 then result_from s1 else body a s1))"

definition eval_handle_list :: "regex_engine \<Rightarrow> 'sem handler" where
  "eval_handle_list regcomp run name args s =
     with_args (\<lambda>a s1. if length a < 1 then result_from s1 else list_subcommand regcomp name a s1) args s"

definition math_finished :: "string_view \<Rightarrow> math_outcome \<Rightarrow> 'sem interp \<Rightarrow> 'sem outcome" where
  "math_finished name out s =
     (case out of
        Math_Error causes stop \<Rightarrow>
          (let s1 = fold (flow_error name) causes s
           in result_from (if stop then s1\<lparr>ev := eval_request_stop_on_error (ev s1)\<rparr> else s1))
      | Math_Set var value fmt \<Rightarrow>
          emit_then
            (Event_Math_Expr (sv_copy_to_arena var)
               (if fmt = MATH_OUTPUT_HEXADECIMAL then ''HEXADECIMAL'' else ''DECIMAL''))
            (set_var var value s) result_from)"

definition math_command :: "'sem handler" where
  "math_command run name args s = with_args (\<lambda>a s1. math_finished name (eval_handle_math a) s1) args s"

section \<open>The platform\<close>

definition text_natives :: "regex_engine \<Rightarrow> string \<rightharpoonup> 'sem handler" where
  "text_natives regcomp = flow_natives(''LIST'' \<mapsto> eval_handle_list regcomp, ''MATH'' \<mapsto> math_command)"

definition text_platform :: "regex_engine \<Rightarrow> ('sem interp \<Rightarrow> cond_world) \<Rightarrow> 'sem platform" where
  "text_platform regcomp w = \<lparr>natives = text_natives regcomp, world = w\<rparr>"

end
