(* ===== verification/Eval_List_Sort.thy ===== *)
theory Eval_List_Sort
  imports Eval_List_Facts
begin

text \<open>
  Sorting: every comparison of \<open>list(SORT)\<close> is the lexicographic order of keys, lists of numbers, and the
  insertion sort over the array is the stable sort of the list library by these keys.
\<close>

section \<open>Keys\<close>

definition order_sign :: "'a :: linorder \<Rightarrow> 'a \<Rightarrow> int" where
  "order_sign x y = (if x < y then -1 else if y < x then 1 else 0)"

lemma order_sign_Nil [simp]:
  "order_sign ([] :: nat list) [] = 0" "order_sign [] (y # ys :: nat list) = -1" "order_sign (x # xs :: nat list) [] = 1"
  by (simp_all add: order_sign_def)

lemma order_sign_Cons:
  "order_sign (x # xs) (y # ys :: nat list) = (if order_sign x y \<noteq> 0 then order_sign x y else order_sign xs ys)"
  by (auto simp: order_sign_def)

definition char_key :: "bool \<Rightarrow> char \<Rightarrow> nat" where
  "char_key case_sensitive c = code (if case_sensitive then c else c_tolower c)"

definition text_key :: "bool \<Rightarrow> string \<Rightarrow> nat list" where
  "text_key case_sensitive s = map (char_key case_sensitive) s"

text \<open>
  A run of digits counts by its significant digits, as a number, and then by its length; all runs
  take the place of the digit \<open>0\<close> among the characters.
\<close>

function natural_key :: "bool \<Rightarrow> string \<Rightarrow> nat list" where
  "natural_key case_sensitive [] = []"
| "natural_key case_sensitive (x # xs) =
     (if list_is_digit x then
        (let ds = significant_digits (x # xs); rest = behind_digits (x # xs) in
         48 # length ds # map code ds @ (length (x # xs) - length rest) # natural_key case_sensitive rest)
      else char_key case_sensitive x # natural_key case_sensitive xs)"
  by pat_completeness auto
termination
  by (relation "measure (\<lambda>(case_sensitive, s). length s)") (auto simp: le_imp_less_Suc behind_digits_Cons)

definition sort_key_of :: "list_sort_options \<Rightarrow> string_view \<Rightarrow> nat list" where
  "sort_key_of opt s =
     (let case_sensitive = (sort_case_mode opt = LIST_SORT_CASE_SENSITIVE) in
      case sort_compare opt of
        LIST_SORT_COMPARE_STRING \<Rightarrow> text_key case_sensitive s
      | LIST_SORT_COMPARE_FILE_BASENAME \<Rightarrow> text_key case_sensitive (list_path_basename s)
      | LIST_SORT_COMPARE_NATURAL \<Rightarrow> natural_key case_sensitive s)"

lemma list_char_cmp_key: "list_char_cmp a b cs = order_sign (char_key cs a) (char_key cs b)"
  by (simp add: list_char_cmp_def order_sign_def char_key_def Let_def)

lemma list_sv_lex_cmp_Cons:
  "list_sv_lex_cmp (x # xs) (y # ys) cs =
     (let c = list_char_cmp x y cs in if c \<noteq> 0 then c else list_sv_lex_cmp xs ys cs)"
  by (simp add: list_sv_lex_cmp_def Let_def)

lemma list_sv_lex_cmp_key: "list_sv_lex_cmp a b cs = order_sign (text_key cs a) (text_key cs b)"
proof (induction a arbitrary: b)
  case Nil
  then show ?case by (cases b) (simp_all add: list_sv_lex_cmp_def text_key_def)
next
  case (Cons x a)
  show ?case
  proof (cases b)
    case (Cons y ys)
    then show ?thesis using Cons.IH [of ys]
      by (simp add: list_sv_lex_cmp_Cons text_key_def order_sign_Cons list_char_cmp_key Let_def)
  qed (simp add: list_sv_lex_cmp_def text_key_def)
qed

text \<open>Runs of the same number of digits, whatever follows them.\<close>

lemma common_cmp_key:
  "length da = length db \<Longrightarrow>
     order_sign (map code da @ p) (map code db @ q :: nat list) =
       (if common_cmp True da db \<noteq> 0 then common_cmp True da db else order_sign p q)"
  by (induction da db rule: list_induct2) (simp_all add: order_sign_Cons list_char_cmp_key char_key_def Let_def)

lemma digit_fold: "list_is_digit x \<Longrightarrow> char_key cs x = code x"
  by (auto simp: list_is_digit_def char_key_def c_tolower_def c_isupper_def)

lemma digit_range: "list_is_digit x \<longleftrightarrow> 48 \<le> char_key cs x \<and> char_key cs x \<le> 57"
proof
  assume "list_is_digit x"
  then show "48 \<le> char_key cs x \<and> char_key cs x \<le> 57" by (simp add: digit_fold) (simp add: list_is_digit_def)
next
  assume "48 \<le> char_key cs x \<and> char_key cs x \<le> 57"
  moreover have "code (c_tolower x) = (if c_isupper x then code x + 32 else code x)"
    by (simp add: c_tolower_def c_isupper_def)
  ultimately show "list_is_digit x"
    by (auto simp: char_key_def list_is_digit_def c_isupper_def split: if_splits)
qed

text \<open>A digit against another character: the run may stand for its first digit.\<close>

lemma order_sign_mixed:
  assumes "list_is_digit x \<noteq> list_is_digit y"
  shows "order_sign (char_key cs x) (char_key cs y) \<noteq> 0"
    "list_is_digit x \<Longrightarrow> order_sign (char_key cs x) (char_key cs y) = order_sign 48 (char_key cs y)"
    "list_is_digit y \<Longrightarrow> order_sign (char_key cs x) (char_key cs y) = order_sign (char_key cs x) 48"
  using assms digit_range [of x cs] digit_range [of y cs] by (auto simp: order_sign_def)

lemma list_sv_natural_cmp_key: "list_sv_natural_cmp a b cs = order_sign (natural_key cs a) (natural_key cs b)"
proof (induction a b cs rule: list_sv_natural_cmp.induct)
  case (2 x xs cs)
  then show ?case by (cases "natural_key cs (x # xs)") (simp_all add: Let_def split: if_splits)
next
  case (3 y ys cs)
  then show ?case by (cases "natural_key cs (y # ys)") (simp_all add: Let_def split: if_splits)
next
  case (4 x xs y ys cs)
  show ?case
  proof (cases "list_is_digit x \<and> list_is_digit y")
    case True
    let ?da = "significant_digits (x # xs)" and ?db = "significant_digits (y # ys)"
    have IH: "length ?da = length ?db \<Longrightarrow> common_cmp True ?da ?db = 0 \<Longrightarrow>
      length (x # xs) - length (behind_digits (x # xs)) = length (y # ys) - length (behind_digits (y # ys)) \<Longrightarrow>
      list_sv_natural_cmp (behind_digits (x # xs)) (behind_digits (y # ys)) cs =
        order_sign (natural_key cs (behind_digits (x # xs))) (natural_key cs (behind_digits (y # ys)))"
      using 4(1) True by auto
    show ?thesis
    proof (cases "length ?da = length ?db")
      case True
      then show ?thesis using \<open>list_is_digit x \<and> list_is_digit y\<close> IH
        by (simp add: Let_def order_sign_Cons common_cmp_key) (simp add: order_sign_def)
    next
      case False
      then show ?thesis using True by (simp add: Let_def order_sign_Cons) (simp add: order_sign_def)
    qed
  next
    case False
    show ?thesis
    proof (cases "list_is_digit x \<or> list_is_digit y")
      case True
      with False have m: "list_is_digit x \<noteq> list_is_digit y" by blast
      show ?thesis using False True order_sign_mixed [OF m, of cs]
        by (cases "list_is_digit x") (simp_all add: Let_def list_char_cmp_key order_sign_Cons)
    next
      case neither: False
      then show ?thesis using 4(2) by (simp add: Let_def list_char_cmp_key order_sign_Cons)
    qed
  qed
qed simp

lemma list_sort_item_cmp_key:
  "list_sort_item_cmp opt a b =
     (if sort_order opt = LIST_SORT_ORDER_DESCENDING then order_sign (sort_key_of opt b) (sort_key_of opt a)
      else order_sign (sort_key_of opt a) (sort_key_of opt b))"
proof -
  have flip: "- order_sign x y = order_sign y (x :: nat list)" for x y
    by (auto simp: order_sign_def)
  show ?thesis
    by (cases "sort_compare opt")
      (simp_all add: list_sort_item_cmp_def sort_key_of_def Let_def list_sv_lex_cmp_key list_sv_natural_cmp_key flip)
qed

section \<open>The sort\<close>

text \<open>Into a list kept backwards, behind the items the key passes.\<close>

fun insert_passing :: "(string_view \<Rightarrow> bool) \<Rightarrow> string_view \<Rightarrow> string_view list \<Rightarrow> string_view list" where
  "insert_passing passes key [] = [key]"
| "insert_passing passes key (y # ys) = (if passes y then y # insert_passing passes key ys else key # y # ys)"

lemma length_shift_down [simp]: "length (shift_down opt key j xs) = length xs"
  by (induction j arbitrary: xs) simp_all

lemma shift_down_insert:
  "j < length xs \<Longrightarrow>
     shift_down opt key j xs =
       rev (insert_passing (\<lambda>y. list_sort_item_cmp opt y key > 0) key (rev (take j xs))) @ drop (Suc j) xs"
proof (induction j arbitrary: xs)
  case 0
  then show ?case by (cases xs) simp_all
next
  case (Suc j)
  have rev: "rev (take (Suc j) xs) = xs ! j # rev (take j xs)" using Suc.prems by (simp add: take_Suc_conv_app_nth)
  let ?xs = "xs[Suc j := xs ! j]"
  have shifted: "take j ?xs = take j xs" "drop (Suc j) ?xs = xs ! j # drop (Suc (Suc j)) xs"
    using Suc.prems by (simp_all add: drop_update_swap upd_conv_take_nth_drop)
  show ?case
  proof (cases "list_sort_item_cmp opt (xs ! j) key > 0")
    case True
    then show ?thesis using Suc.IH [of ?xs] Suc.prems rev shifted by simp
  next
    case False
    then show ?thesis using Suc.prems rev by (simp add: upd_conv_take_nth_drop take_Suc_conv_app_nth)
  qed
qed

definition insert_all :: "list_sort_options \<Rightarrow> string_view list \<Rightarrow> string_view list" where
  "insert_all opt xs = fold (\<lambda>key ys. insert_passing (\<lambda>y. list_sort_item_cmp opt y key > 0) key ys) xs []"

lemma insertion_sort_prefix:
  assumes "Suc n \<le> length xs"
  shows "fold (\<lambda>i ys. shift_down opt (ys ! i) i ys) [1..<Suc n] xs = rev (insert_all opt (take (Suc n) xs)) @ drop (Suc n) xs"
  using assms
proof (induction n)
  case 0
  then show ?case by (cases xs) (simp_all add: insert_all_def)
next
  case (Suc n)
  let ?ys = "rev (insert_all opt (take (Suc n) xs)) @ drop (Suc n) xs"
  have len: "length (insert_passing P k zs) = Suc (length zs)" for P k zs by (induction zs) simp_all
  have "length (fold (\<lambda>key ys. insert_passing (P key) key ys) zs acc) = length zs + length acc" for P zs acc
    by (induction zs arbitrary: acc) (simp_all add: len)
  then have l: "length (insert_all opt (take (Suc n) xs)) = Suc n"
    using Suc.prems by (simp add: insert_all_def min_def)
  have nth: "?ys ! Suc n = xs ! Suc n" and tl: "take (Suc n) ?ys = rev (insert_all opt (take (Suc n) xs))"
    "drop (Suc (Suc n)) ?ys = drop (Suc (Suc n)) xs"
    using Suc.prems l by (simp_all add: nth_append)
  have "fold (\<lambda>i ys. shift_down opt (ys ! i) i ys) [1..<Suc (Suc n)] xs = shift_down opt (?ys ! Suc n) (Suc n) ?ys"
    using Suc by simp
  also have "\<dots> = rev (insert_passing (\<lambda>y. list_sort_item_cmp opt y (xs ! Suc n) > 0) (xs ! Suc n)
      (insert_all opt (take (Suc n) xs))) @ drop (Suc (Suc n)) xs"
    using shift_down_insert [of "Suc n" ?ys opt] Suc.prems l nth tl by simp
  also have "\<dots> = rev (insert_all opt (take (Suc (Suc n)) xs)) @ drop (Suc (Suc n)) xs"
    using Suc.prems by (simp add: insert_all_def take_Suc_conv_app_nth [of "Suc n"])
  finally show ?case .
qed

lemma insertion_sort_insert_all: "insertion_sort opt xs = rev (insert_all opt xs)"
proof (cases xs)
  case (Cons x ys)
  then show ?thesis using insertion_sort_prefix [of "length ys" xs opt] by (simp add: insertion_sort_def)
qed (simp add: insertion_sort_def insert_all_def)

text \<open>Downwards, the backwards list is sorted as the library sorts it.\<close>

lemma insert_passing_insort: "insert_passing (\<lambda>y. k y < k key) key ys = insort_key (k :: _ \<Rightarrow> nat list) key ys"
  by (induction ys) (auto simp: not_le [symmetric])

lemma descending_insert_all:
  assumes "sort_order opt = LIST_SORT_ORDER_DESCENDING"
  shows "insert_all opt xs = sort_key (sort_key_of opt) (rev xs)"
proof -
  have "list_sort_item_cmp opt y key > 0 \<longleftrightarrow> sort_key_of opt y < sort_key_of opt key" for y key
    using assms by (auto simp: list_sort_item_cmp_key order_sign_def)
  then show ?thesis
    by (simp add: insert_all_def insert_passing_insort sort_key_def foldr_conv_fold)
qed

text \<open>Upwards, the list backwards: sorted, and of equal keys the last first.\<close>

lemma insert_passing_mset: "mset (insert_passing passes key ys) = add_mset key (mset ys)"
  by (induction ys) auto

lemma insert_passing_sorted:
  fixes k :: "string_view \<Rightarrow> nat list"
  assumes "sorted_wrt (\<lambda>a b. k b \<le> k a) ys"
  shows "sorted_wrt (\<lambda>a b. k b \<le> k a) (insert_passing (\<lambda>y. k key < k y) key ys)"
proof -
  have set: "set (insert_passing p key zs) = insert key (set zs)" for p zs
    by (metis insert_passing_mset set_mset_add_mset_insert set_mset_mset)
  show ?thesis using assms by (induction ys) (auto simp: set not_less intro: order_trans)
qed

lemma insert_passing_segment:
  fixes k :: "string_view \<Rightarrow> nat list"
  assumes "sorted_wrt (\<lambda>a b. k b \<le> k a) ys"
  shows "filter (\<lambda>x. v = k x) (insert_passing (\<lambda>y. k key < k y) key ys) = filter (\<lambda>x. v = k x) (key # ys)"
  using assms by (induction ys) auto

lemma ascending_insert_all:
  assumes "sort_order opt \<noteq> LIST_SORT_ORDER_DESCENDING"
  shows "sort_key (sort_key_of opt) xs = rev (insert_all opt xs)"
proof -
  let ?k = "sort_key_of opt"
  have passes: "list_sort_item_cmp opt y key > 0 \<longleftrightarrow> ?k key < ?k y" for y key
    using assms by (auto simp: list_sort_item_cmp_key order_sign_def)
  have "sorted_wrt (\<lambda>a b. ?k b \<le> ?k a) (insert_all opt xs) \<and> mset (insert_all opt xs) = mset xs \<and>
    (\<forall>v. filter (\<lambda>x. v = ?k x) (insert_all opt xs) = rev (filter (\<lambda>x. v = ?k x) xs))"
  proof (induction xs rule: rev_induct)
    case (snoc x xs)
    then show ?case
      by (simp add: insert_all_def passes insert_passing_sorted insert_passing_mset insert_passing_segment)
  qed (simp add: insert_all_def)
  then show ?thesis
    by (intro properties_for_sort_key) (simp_all add: rev_filter [symmetric] sorted_wrt_rev sorted_wrt_map)
qed

lemma insertion_sort_stable:
  "insertion_sort opt xs =
     (if sort_order opt = LIST_SORT_ORDER_DESCENDING then rev (sort_key (sort_key_of opt) (rev xs))
      else sort_key (sort_key_of opt) xs)"
  by (simp add: insertion_sort_insert_all descending_insert_all ascending_insert_all)

end
