(* ===== verification/Eval_List_Spec.thy ===== *)
theory Eval_List_Spec
  imports Eval_List_Sort
begin

text \<open>
  What \<open>list()\<close> is to do, over lists of items: from the arguments and the value of the variable, the cause of
  an error or the assignments to make. The subcommands are shown to do this, each by a lemma on top of
  \<open>Eval_List_Facts\<close> and \<open>Eval_List_Sort\<close>.
\<close>

section \<open>The specification\<close>

definition item_indices :: "nat \<Rightarrow> string_view list \<Rightarrow> nat list option" where
  "item_indices n args =
     those (map (\<lambda>x. Option.bind (list_sv_parse_i64 x) (\<lambda>v. list_normalize_index n v False)) args)"

text \<open>The indices \<open>FOR\<close> selects.\<close>

definition for_indices :: "nat \<Rightarrow> nat \<Rightarrow> nat \<Rightarrow> nat set" where
  "for_indices start stop step =
     (if start \<le> stop then {k. start \<le> k \<and> k \<le> stop \<and> step dvd (k - start)}
      else {k. stop \<le> k \<and> k \<le> start \<and> step dvd (start - k)})"

definition for_selection :: "string_view list \<Rightarrow> nat \<Rightarrow> string + nat set" where
  "for_selection args n =
     (case (list_sv_parse_i64 (args ! 0), list_sv_parse_i64 (args ! 1)) of
        (Some start, Some stop) \<Rightarrow>
          (case (if length args = 3 then list_sv_parse_i64 (args ! 2) else Some 1) of
             None \<Rightarrow> Inl ''list(TRANSFORM FOR) step must be an integer''
           | Some step \<Rightarrow>
               if step \<le> 0 then Inl ''list(TRANSFORM FOR) step must be greater than zero''
               else
                 (case (list_normalize_index n start False, list_normalize_index n stop False) of
                    (Some i, Some j) \<Rightarrow> Inr (for_indices i j (nat step))
                  | _ \<Rightarrow> Inl ''list(TRANSFORM FOR) range out of bounds''))
      | _ \<Rightarrow> Inl ''list(TRANSFORM FOR) start/stop must be integers'')"

definition selection ::
  "regex_engine \<Rightarrow> string_view list \<Rightarrow> nat \<Rightarrow> string_view list \<Rightarrow> string + nat set \<times> string_view option" where
  "selection regcomp a next xs =
     (if next = length a then Inr (UNIV, None)
      else if eval_sv_eq_ci_lit (a ! next) ''OUTPUT_VARIABLE'' then
        (if next + 2 \<noteq> length a then Inl ''list(TRANSFORM OUTPUT_VARIABLE) expects exactly one output variable''
         else Inr (UNIV, Some (a ! (next + 1))))
      else if eval_sv_eq_ci_lit (a ! next) ''AT'' then
        (case output_variable_from (next + 1) a of
           Inl cause \<Rightarrow> Inl cause
         | Inr (stop, out_var) \<Rightarrow>
             if next + 1 \<ge> stop then Inl ''list(TRANSFORM AT) requires at least one index''
             else
               (case item_indices (length xs) (take (stop - (next + 1)) (drop (next + 1) a)) of
                  None \<Rightarrow> Inl ''list(TRANSFORM AT) index out of range''
                | Some is \<Rightarrow> Inr (set is, out_var)))
      else if eval_sv_eq_ci_lit (a ! next) ''FOR'' then
        (case output_variable_from (next + 1) a of
           Inl cause \<Rightarrow> Inl cause
         | Inr (stop, out_var) \<Rightarrow>
             if stop < next + 3 \<or> stop > next + 4 then Inl ''list(TRANSFORM FOR) expects start stop [step]''
             else map_sum id (\<lambda>is. (is, out_var))
               (for_selection (take (stop - (next + 1)) (drop (next + 1) a)) (length xs)))
      else if eval_sv_eq_ci_lit (a ! next) ''REGEX'' then
        (case output_variable_from (next + 2) a of
           Inl cause \<Rightarrow> Inl cause
         | Inr (stop, out_var) \<Rightarrow>
             if stop \<noteq> next + 2 then Inl ''list(TRANSFORM REGEX) expects exactly one regex argument''
             else
               (case regcomp (c_str (a ! (next + 1))) of
                  None \<Rightarrow> Inl ''Invalid regex pattern''
                | Some re \<Rightarrow> Inr ({i. i < length xs \<and> re (c_str (xs ! i)) \<noteq> None}, out_var)))
      else Inl ''list(TRANSFORM) received unsupported selector'')"

definition transformed ::
  "regex_engine \<Rightarrow> string_view list \<Rightarrow> string_view list \<Rightarrow> string + string_view option \<times> string_view list" where
  "transformed regcomp a xs =
     (case transform_action a of
        Inl cause \<Rightarrow> Inl cause
      | Inr (action, arg1, arg2, next) \<Rightarrow>
          (case selection regcomp a next xs of
             Inl cause \<Rightarrow> Inl cause
           | Inr (is, out_var) \<Rightarrow>
               (case replace_matcher regcomp action arg1 of
                  None \<Rightarrow> Inl ''Invalid regex pattern''
                | Some re \<Rightarrow>
                    Inr (out_var,
                      map (\<lambda>i. if i \<in> is then transform_item action arg1 arg2 re (xs ! i) else xs ! i) [0..<length xs]))))"

text \<open>
  One specification for each subcommand, from the arguments, the items \<open>xs\<close> of the variable, and
  whether it is defined: a list without items that is not defined stays so.
\<close>

type_synonym list_result = "string + (string_view \<times> string_view) list"

definition update :: "string_view list \<Rightarrow> string_view list \<Rightarrow> bool \<Rightarrow> string_view list \<Rightarrow> list_result" where
  "update a xs defined ys = Inr (if xs = [] \<and> \<not> defined then [] else [(a ! 1, join_semi ys)])"

definition append_spec :: "string_view list \<Rightarrow> string_view list \<Rightarrow> list_result" where
  "append_spec a xs =
     (if length a < 2 then Inl ''list(APPEND/PREPEND) requires list variable name''
      else Inr (if length a = 2 then []
        else [(a ! 1, join_semi (if eval_sv_eq_ci_lit (a ! 0) ''APPEND'' then xs @ drop 2 a else drop 2 a @ xs))]))"

definition insert_spec :: "string_view list \<Rightarrow> string_view list \<Rightarrow> list_result" where
  "insert_spec a xs =
     (if length a < 4 then Inl ''list(INSERT) requires list variable, index and at least one element''
      else
        (case list_sv_parse_i64 (a ! 2) of
           None \<Rightarrow> Inl ''list(INSERT) index must be a non-negative integer''
         | Some i \<Rightarrow>
             if i < 0 then Inl ''list(INSERT) index must be a non-negative integer''
             else if nat i > length xs then Inl ''list(INSERT) index out of range''
             else Inr [(a ! 1, join_semi (take (nat i) xs @ drop 3 a @ drop (nat i) xs))]))"

definition remove_item_spec :: "string_view list \<Rightarrow> string_view list \<Rightarrow> list_result" where
  "remove_item_spec a xs =
     (if length a < 3 then Inl ''list(REMOVE_ITEM) requires list variable and at least one item''
      else Inr (if xs = [] then [] else [(a ! 1, join_semi (filter (\<lambda>x. x \<notin> set (drop 2 a)) xs))]))"

definition remove_at_spec :: "string_view list \<Rightarrow> string_view list \<Rightarrow> list_result" where
  "remove_at_spec a xs =
     (if length a < 3 then Inl ''list(REMOVE_AT) requires list variable and at least one index''
      else
        (case item_indices (length xs) (drop 2 a) of
           None \<Rightarrow> Inl ''list(REMOVE_AT) index out of range''
         | Some is \<Rightarrow> Inr [(a ! 1, join_semi (nths xs (- set is)))]))"

definition remove_duplicates_spec :: "string_view list \<Rightarrow> string_view list \<Rightarrow> bool \<Rightarrow> list_result" where
  "remove_duplicates_spec a xs defined =
     (if length a \<noteq> 2 then Inl ''list(REMOVE_DUPLICATES) requires only the list variable''
      else update a xs defined (rev (remdups (rev xs))))"

definition length_spec :: "string_view list \<Rightarrow> string_view list \<Rightarrow> list_result" where
  "length_spec a xs =
     (if length a \<noteq> 3 then Inl ''list(LENGTH) requires list variable and output variable''
      else Inr [(a ! 2, nat_text (length xs))])"

definition get_spec :: "string_view list \<Rightarrow> string_view list \<Rightarrow> list_result" where
  "get_spec a xs =
     (if length a < 4 then Inl ''list(GET) requires list variable, index(es) and output variable''
      else map_sum id (\<lambda>ys. [(last a, join_semi ys)]) (pick_items xs (butlast (drop 2 a))))"

definition find_spec :: "string_view list \<Rightarrow> string_view list \<Rightarrow> list_result" where
  "find_spec a xs =
     (if length a \<noteq> 4 then Inl ''list(FIND) requires list variable, value and output variable''
      else Inr [(a ! 3, show_lld (if a ! 2 \<in> set xs then int (length (takeWhile (\<lambda>x. x \<noteq> a ! 2) xs)) else -1))])"

definition join_spec :: "string_view list \<Rightarrow> string_view list \<Rightarrow> list_result" where
  "join_spec a xs =
     (if length a \<noteq> 4 then Inl ''list(JOIN) requires list variable, glue and output variable''
      else Inr [(a ! 3, if xs = [] then [] else hd xs @ concat (map (\<lambda>x. a ! 2 @ x) (tl xs)))])"

definition sublist_spec :: "string_view list \<Rightarrow> string_view list \<Rightarrow> list_result" where
  "sublist_spec a xs =
     (if length a \<noteq> 5 then Inl ''list(SUBLIST) requires list variable, begin, length and output variable''
      else
        (case (list_sv_parse_i64 (a ! 2), list_sv_parse_i64 (a ! 3)) of
           (Some i, Some l) \<Rightarrow>
             if i < 0 \<or> l < -1 then Inl ''list(SUBLIST) begin must be >= 0 and length >= -1''
             else if nat i > length xs then Inl ''list(SUBLIST) begin index out of range''
             else Inr [(a ! 4, join_semi (take (if l < 0 then length xs else nat l) (drop (nat i) xs)))]
         | _ \<Rightarrow> Inl ''list(SUBLIST) begin/length must be integers''))"

definition pop_spec :: "string_view list \<Rightarrow> string_view list \<Rightarrow> list_result" where
  "pop_spec a xs =
     (let k = (if length a = 2 then 1 else length a - 2); front = eval_sv_eq_ci_lit (a ! 0) ''POP_FRONT'' in
      if length a < 2 then Inl ''list(POP_BACK/POP_FRONT) requires list variable''
      else if length xs < k then Inl ''list(POP_BACK/POP_FRONT) cannot pop more items than list size''
      else Inr (zip (drop 2 a) (if front then xs else rev xs) @
        [(a ! 1, join_semi (if front then drop k xs else take (length xs - k) xs))]))"

definition filter_spec :: "regex_engine \<Rightarrow> string_view list \<Rightarrow> string_view list \<Rightarrow> bool \<Rightarrow> list_result" where
  "filter_spec regcomp a xs defined =
     (if length a \<noteq> 5 then Inl ''list(FILTER) requires list variable, mode and regex''
      else if \<not> eval_sv_eq_ci_lit (a ! 3) ''REGEX'' then Inl ''list(FILTER) currently supports only REGEX mode''
      else if \<not> eval_sv_eq_ci_lit (a ! 2) ''INCLUDE'' \<and> \<not> eval_sv_eq_ci_lit (a ! 2) ''EXCLUDE'' then
        Inl ''list(FILTER) mode must be INCLUDE or EXCLUDE''
      else if xs = [] \<and> \<not> defined then Inr []
      else
        (case regcomp (c_str (a ! 4)) of
           None \<Rightarrow> Inl ''Invalid regex pattern''
         | Some re \<Rightarrow>
             update a xs defined
               (if eval_sv_eq_ci_lit (a ! 2) ''INCLUDE'' then filter (\<lambda>x. re (c_str x) \<noteq> None) xs
                else filter (\<lambda>x. re (c_str x) = None) xs)))"

definition reverse_spec :: "string_view list \<Rightarrow> string_view list \<Rightarrow> bool \<Rightarrow> list_result" where
  "reverse_spec a xs defined =
     (if length a \<noteq> 2 then Inl ''list(REVERSE) requires only the list variable'' else update a xs defined (rev xs))"

definition sort_spec :: "string_view list \<Rightarrow> string_view list \<Rightarrow> bool \<Rightarrow> list_result" where
  "sort_spec a xs defined =
     (if length a < 2 then Inl ''list(SORT) requires list variable''
      else
        (case parse_sort_options (drop 2 a) default_sort_options of
           Inl cause \<Rightarrow> Inl cause
         | Inr opt \<Rightarrow>
             update a xs defined
               (if sort_order opt = LIST_SORT_ORDER_DESCENDING then rev (sort_key (sort_key_of opt) (rev xs))
                else sort_key (sort_key_of opt) xs)))"

definition transform_spec :: "regex_engine \<Rightarrow> string_view list \<Rightarrow> string_view list \<Rightarrow> bool \<Rightarrow> list_result" where
  "transform_spec regcomp a xs defined =
     (if length a < 3 then Inl ''list(TRANSFORM) requires list variable and action''
      else
        (case transformed regcomp a xs of
           Inl cause \<Rightarrow> Inl cause
         | Inr (out_var, ys) \<Rightarrow>
             (case out_var of Some out \<Rightarrow> Inr [(out, join_semi ys)] | None \<Rightarrow> update a xs defined ys)))"

definition list_spec :: "regex_engine \<Rightarrow> string_view list \<Rightarrow> string_view list \<Rightarrow> bool \<Rightarrow> list_result" where
  "list_spec regcomp a xs defined =
     (let sub = a ! 0 in
      if eval_sv_eq_ci_lit sub ''APPEND'' \<or> eval_sv_eq_ci_lit sub ''PREPEND'' then append_spec a xs
      else if eval_sv_eq_ci_lit sub ''INSERT'' then insert_spec a xs
      else if eval_sv_eq_ci_lit sub ''REMOVE_ITEM'' then remove_item_spec a xs
      else if eval_sv_eq_ci_lit sub ''REMOVE_AT'' then remove_at_spec a xs
      else if eval_sv_eq_ci_lit sub ''REMOVE_DUPLICATES'' then remove_duplicates_spec a xs defined
      else if eval_sv_eq_ci_lit sub ''LENGTH'' then length_spec a xs
      else if eval_sv_eq_ci_lit sub ''GET'' then get_spec a xs
      else if eval_sv_eq_ci_lit sub ''FIND'' then find_spec a xs
      else if eval_sv_eq_ci_lit sub ''JOIN'' then join_spec a xs
      else if eval_sv_eq_ci_lit sub ''SUBLIST'' then sublist_spec a xs
      else if eval_sv_eq_ci_lit sub ''POP_BACK'' \<or> eval_sv_eq_ci_lit sub ''POP_FRONT'' then pop_spec a xs
      else if eval_sv_eq_ci_lit sub ''FILTER'' then filter_spec regcomp a xs defined
      else if eval_sv_eq_ci_lit sub ''REVERSE'' then reverse_spec a xs defined
      else if eval_sv_eq_ci_lit sub ''SORT'' then sort_spec a xs defined
      else if eval_sv_eq_ci_lit sub ''TRANSFORM'' then transform_spec regcomp a xs defined
      else Inl ''Unsupported list() subcommand'')"

definition assign :: "(string_view \<times> string_view) list \<Rightarrow> eval_ctx \<Rightarrow> eval_ctx" where
  "assign kvs ctx = fold (\<lambda>(k, v) c. snd (eval_var_set_current k v c)) kvs ctx"

end
