(* ===== verification/Eval_List_Props.thy ===== *)
theory Eval_List_Props
  imports Eval_List_Spec Eval_Run_Props
begin

text \<open>
  Every subcommand of \<open>list()\<close> makes the assignments its specification asks for and no others, or
  reports the error and sets nothing; lists survive being stored in a variable; sorting is stable
  and by keys; and scripts over the platform with \<open>list()\<close> and \<open>math()\<close> end, keep the event stream nested and
  do not depend on the bound.
\<close>

section \<open>Texts without NUL\<close>

lemma c_str_no_nul [simp]: "NUL \<notin> set (c_str s)"
  by (auto simp: c_str_def dest: set_takeWhileD)

lemma join_semi_nul: "NUL \<in> set (join_semi xs) \<longleftrightarrow> (\<exists>x \<in> set xs. NUL \<in> set x)"
  by (induction xs rule: join_semi.induct) auto

lemma c_str_join: "\<forall>x \<in> set xs. NUL \<notin> set x \<Longrightarrow> c_str (join_semi xs) = join_semi xs"
  by (rule c_str_id) (simp add: join_semi_nul)

lemma split_nul: "NUL \<notin> set value \<Longrightarrow> x \<in> set (list_split_semicolon_preserve_empty value) \<Longrightarrow> NUL \<notin> set x"
  using set_items_from [of x "value"] by (auto simp: list_split_semicolon_preserve_empty_def split: if_splits)

lemma join_items_text: "\<forall>x \<in> set xs. NUL \<notin> set x \<Longrightarrow> list_join_items_temp xs = join_semi xs"
  by (simp add: list_join_items_temp_def eval_sv_join_semi_temp_def c_str_join)

lemma transform_item_no_nul: "NUL \<notin> set x \<Longrightarrow> NUL \<notin> set (transform_item action arg1 arg2 re x)"
  by (cases action)
    (auto simp: transform_item_def list_concat_temp_def list_to_case_temp_def list_genex_strip_temp_def
      list_regex_replace_one_temp_def list_strip_ws_view_def Let_def dest!: set_dropWhileD)

section \<open>Outcomes\<close>

definition meets :: "string_view \<Rightarrow> 'sem interp \<Rightarrow> string + (string_view \<times> string_view) list \<Rightarrow> 'sem outcome \<Rightarrow> bool" where
  "meets name s spec out \<longleftrightarrow>
     (case spec of
        Inl cause \<Rightarrow> out = list_error name cause s
      | Inr kvs \<Rightarrow> (\<exists>r s'. out = Some (r, s') \<and> ev s' = assign kvs (ev s)))"

lemma emit_list_ev: "\<exists>r s'. emit_list kind var s = Some (r, s') \<and> ev s' = ev s"
proof -
  obtain ok s1 where e: "emit_event (Event_List kind (sv_copy_to_arena var)) s = (ok, s1)" by (rule prod.exhaust)
  have "ev s1 = ev s" using e
    by (auto simp: emit_event_def eval_command_tx_push_event_def eval_emit_event_direct_def split: if_splits list.splits)
  then show ?thesis using e by (simp add: emit_list_def emit_then_def fatal_def result_from_def)
qed

lemma ev_set_var [simp]: "ev (set_var k v s) = snd (eval_var_set_current k v (ev s))"
  by (simp add: set_var_def on_ev_def split: prod.split)

lemma set_var_items_text: "\<forall>x \<in> set xs. NUL \<notin> set x \<Longrightarrow> set_var_items var xs s = set_var var (join_semi xs) s"
  by (auto simp: set_var_items_def set_var_def on_ev_def list_set_var_from_items_def join_items_text
      eval_var_set_current_def can_set_def)

lemma meets_error: "meets name s (Inl cause) (list_error name cause s)"
  by (simp add: meets_def)

lemma meets_nothing: "meets name s (Inr []) (result_from s)"
  by (simp add: meets_def assign_def result_from_def)

lemma meets_set: "meets name s (Inr [(k, v)]) (result_from (set_var k v s))"
  by (simp add: meets_def assign_def result_from_def)

lemma meets_emit: "meets name s (Inr [(k, v)]) (emit_list kind w (set_var k v s))"
  using emit_list_ev [of kind w "set_var k v s"] by (auto simp: meets_def assign_def)

lemmas meets_intros = meets_error meets_nothing meets_set meets_emit

section \<open>Indices\<close>

lemma mark_indices_spec:
  "mark_indices cause args marks =
     (case item_indices (length marks) args of None \<Rightarrow> Inl cause | Some is \<Rightarrow> Inr (mark_all is marks))"
  by (induction args arbitrary: marks)
    (auto simp: item_indices_def mark_all_def split: option.split bind_split)

lemma length_mark_all [simp]: "length (mark_all is marks) = length marks"
  by (induction "is" arbitrary: marks) (simp_all add: mark_all_def)

lemma mark_all_nth: "i < length marks \<Longrightarrow> mark_all is marks ! i \<longleftrightarrow> i \<in> set is \<or> marks ! i"
proof (induction "is" arbitrary: marks)
  case (Cons j js)
  then show ?case by (cases "i = j") (auto simp: mark_all_def)
qed (simp add: mark_all_def)

lemma keep_unmarked_spec:
  "keep_unmarked (mark_all is (replicate (length xs) False)) xs = nths xs (- set is)"
proof -
  have "nths xs {i. \<not> mark_all is (replicate (length xs) False) ! i} = nths xs (- set is)"
    unfolding nths_def
    by (rule arg_cong [of _ _ "map fst"], rule filter_cong) (auto simp: mark_all_nth in_set_zip dest!: set_zip_rightD)
  then show ?thesis using keep_unmarked_nths [of "mark_all is (replicate (length xs) False)" xs] by simp
qed

lemma set_for_up:
  "0 < step \<Longrightarrow> set (for_up i stop step) = {k. \<exists>m. k = i + m * step \<and> k \<le> stop}"
proof (induction i stop step rule: for_up.induct)
  case (1 i stop step)
  show ?case
  proof (cases "i > stop \<or> stop - i < step")
    case True
    have "m = 0" if "i + m * step \<le> stop" for m
    proof (rule ccontr)
      assume "m \<noteq> 0"
      then have "step \<le> m * step" by simp
      with that True show False by linarith
    qed
    then show ?thesis using True by (subst for_up.simps) auto
  next
    case False
    then have IH: "set (for_up (i + step) stop step) = {k. \<exists>m. k = i + step + m * step \<and> k \<le> stop}"
      using 1 by auto
    have "(\<exists>m. k = i + m * step) \<longleftrightarrow> k = i \<or> (\<exists>m. k = i + step + m * step)" for k
      by (metis add.assoc add.right_neutral mult_Suc mult_zero_left not0_implies_Suc)
    then show ?thesis using False IH 1(2) by (subst for_up.simps) auto
  qed
qed

lemma set_for_down:
  "0 < step \<Longrightarrow> stop \<le> i \<Longrightarrow> set (for_down i stop step) = {k. \<exists>m. i = k + m * step \<and> stop \<le> k}"
proof (induction i stop step rule: for_down.induct)
  case (1 i stop step)
  show ?case
  proof (cases "i - stop < step")
    case True
    have "m = 0" if "i = k + m * step" "stop \<le> k" for k m
    proof (rule ccontr)
      assume "m \<noteq> 0"
      then have "step \<le> m * step" by simp
      with that True show False by linarith
    qed
    then show ?thesis using True 1(3) by (subst for_down.simps) fastforce
  next
    case False
    then have IH: "set (for_down (i - step) stop step) = {k. \<exists>m. i - step = k + m * step \<and> stop \<le> k}"
      using 1 by auto
    have "(\<exists>m. i = k + m * step) \<longleftrightarrow> k = i \<or> (\<exists>m. i - step = k + m * step)" for k
    proof
      assume "\<exists>m. i = k + m * step"
      then obtain m where m: "i = k + m * step" by blast
      show "k = i \<or> (\<exists>m. i - step = k + m * step)"
      proof (cases m)
        case (Suc n)
        then have "i - step = k + n * step" using m by simp
        then show ?thesis by blast
      qed (use m in simp)
    next
      assume "k = i \<or> (\<exists>m. i - step = k + m * step)"
      then show "\<exists>m. i = k + m * step"
      proof
        assume "\<exists>m. i - step = k + m * step"
        then obtain m where "i - step = k + m * step" by blast
        then have "i = k + Suc m * step" using False by simp
        then show ?thesis by blast
      qed (auto intro: exI [of _ 0])
    qed
    then show ?thesis using False IH 1(2,3) by (subst for_down.simps) auto
  qed
qed

lemma for_indices_set:
  assumes "0 < step"
  shows "set (if i \<le> j then for_up i j step else for_down i j step) = for_indices i j step"
proof -
  have "step dvd (k - i) \<longleftrightarrow> (\<exists>m. k = i + m * step)" if "i \<le> k" for i k
    using that by (auto simp: dvd_def le_iff_add mult.commute)
  then show ?thesis
    using assms by (auto simp: set_for_up set_for_down for_indices_def)
qed

section \<open>The subcommands\<close>

definition texts_ok :: "string_view list \<Rightarrow> 'sem interp \<Rightarrow> bool" where
  "texts_ok a s \<longleftrightarrow> (\<forall>x \<in> set a. NUL \<notin> set x) \<and> NUL \<notin> set (eval_var_get_visible (ev s) (a ! 1))"

abbreviation value_of :: "string_view list \<Rightarrow> 'sem interp \<Rightarrow> string_view" where
  "value_of a s \<equiv> eval_var_get_visible (ev s) (a ! 1)"

abbreviation items_of :: "string_view list \<Rightarrow> 'sem interp \<Rightarrow> string_view list" where
  "items_of a s \<equiv> list_load_var_items (a ! 1) (ev s)"

abbreviation defined_of :: "string_view list \<Rightarrow> 'sem interp \<Rightarrow> bool" where
  "defined_of a s \<equiv> eval_var_defined_visible (ev s) (a ! 1)"

lemma loaded_nul: "texts_ok a s \<Longrightarrow> x \<in> set (items_of a s) \<Longrightarrow> NUL \<notin> set x"
  by (auto simp: texts_ok_def list_load_var_items_def dest: split_nul)

lemma argument_nul: "texts_ok a s \<Longrightarrow> x \<in> set (drop n a) \<Longrightarrow> NUL \<notin> set x"
  by (auto simp: texts_ok_def dest: in_set_dropD)

lemma append_meets:
  assumes "texts_ok a s"
  shows "meets name s (append_spec a (items_of a s)) (list_append_prepend name a s)"
proof -
  let ?e = "value_of a s" and ?new = "drop 2 a"
  have new: "eval_sv_join_semi_temp ?new = join_semi ?new"
    using argument_nul [OF assms(1)] by (simp add: eval_sv_join_semi_temp_def c_str_join)
  have e: "NUL \<notin> set ?e" using assms(1) by (simp add: texts_ok_def)
  have join: "NUL \<notin> set (join_semi ?new)" using argument_nul [OF assms(1)] by (auto simp: join_semi_nul)
  have ends: "join_semi (list_split_semicolon_preserve_empty ?e @ ?new) = ?e @ CHR '';'' # join_semi ?new"
    "join_semi (?new @ list_split_semicolon_preserve_empty ?e) = join_semi ?new @ CHR '';'' # ?e"
    if "?e \<noteq> []" "?new \<noteq> []"
    using that join_semi_append [of "list_split_semicolon_preserve_empty ?e" ?new]
      join_semi_append [of ?new "list_split_semicolon_preserve_empty ?e"]
    by (simp_all add: list_split_semicolon_preserve_empty_def)
  show ?thesis
    using new e join ends
    by (auto simp: append_spec_def list_load_var_items_def list_append_prepend_def Let_def c_str_id
        list_split_semicolon_preserve_empty_def intro!: meets_intros)
qed

lemma insert_meets:
  assumes "texts_ok a s"
  shows "meets name s (insert_spec a (items_of a s)) (list_insert name a s)"
proof -
  have "set_var_items v (take i (items_of a s) @ drop 3 a @ drop i (items_of a s)) s =
    set_var v (join_semi (take i (items_of a s) @ drop 3 a @ drop i (items_of a s))) s" for v i
    using loaded_nul [OF assms] argument_nul [OF assms, of _ 3]
    by (intro set_var_items_text) (auto dest: in_set_takeD in_set_dropD)
  then show ?thesis
    by (auto simp: insert_spec_def list_insert_def Let_def split: option.split intro!: meets_intros)
qed

lemma remove_item_meets:
  assumes "texts_ok a s"
  shows "meets name s (remove_item_spec a (items_of a s)) (list_remove_item name a s)"
proof -
  have "c_str (join_semi (filter P (items_of a s))) = join_semi (filter P (items_of a s))" for P
    using loaded_nul [OF assms] by (intro c_str_join) auto
  then show ?thesis
    by (auto simp: remove_item_spec_def list_remove_item_def Let_def list_item_in_set_iff list_load_var_items_def
        list_split_semicolon_preserve_empty_def intro!: meets_intros)
qed

lemma remove_at_meets:
  assumes "texts_ok a s"
  shows "meets name s (remove_at_spec a (items_of a s)) (list_remove_at name a s)"
proof -
  have "set_var_items v (nths (items_of a s) A) s = set_var v (join_semi (nths (items_of a s) A)) s" for v A
    using loaded_nul [OF assms] by (intro set_var_items_text) (auto dest: in_set_nthsD)
  then show ?thesis
    by (auto simp: remove_at_spec_def list_remove_at_def Let_def mark_indices_spec keep_unmarked_spec
        split: option.split intro!: meets_intros)
qed

lemma remove_duplicates_meets:
  assumes "texts_ok a s"
  shows "meets name s (remove_duplicates_spec a (items_of a s) (defined_of a s)) (list_remove_duplicates name a s)"
proof -
  have "set_var_items v (rev (remdups (rev (items_of a s)))) s = set_var v (join_semi (rev (remdups (rev (items_of a s))))) s" for v
    using loaded_nul [OF assms] by (intro set_var_items_text) auto
  then show ?thesis
    by (auto simp: remove_duplicates_spec_def list_remove_duplicates_def update_def Let_def first_of_each_remdups
        intro!: meets_intros)
qed

lemma length_meets: "meets name s (length_spec a (items_of a s)) (list_length name a s)"
  by (auto simp: length_spec_def list_length_def list_count_items_length list_load_var_items_def intro!: meets_intros)

lemma picked_in: "pick_items xs is = Inr ys \<Longrightarrow> set ys \<subseteq> set xs"
proof (induction "is" arbitrary: ys)
  case (Cons i js)
  then show ?case
    by (cases "pick_items xs js")
      (fastforce simp: list_normalize_index_def Let_def split: option.splits if_splits)+
qed simp

lemma get_meets:
  assumes "texts_ok a s"
  shows "meets name s (get_spec a (items_of a s)) (list_get name a s)"
proof (cases "pick_items (items_of a s) (butlast (drop 2 a))")
  case (Inr ys)
  have "\<forall>y \<in> set ys. NUL \<notin> set y" using picked_in [OF Inr] loaded_nul [OF assms] by blast
  then show ?thesis using Inr
    by (auto simp: get_spec_def list_get_def eval_sv_join_semi_temp_def c_str_join intro!: meets_intros)
qed (auto simp: get_spec_def list_get_def intro!: meets_intros)

lemma find_meets: "meets name s (find_spec a (items_of a s)) (list_find name a s)"
  by (auto simp: find_spec_def list_find_def find_from_first intro!: meets_intros)

lemma join_meets:
  assumes "texts_ok a s"
  shows "meets name s (join_spec a (items_of a s)) (list_join name a s)"
proof (cases "length a = 4")
  case True
  then have "a ! 2 \<in> set a" by simp
  then have glue: "NUL \<notin> set (a ! 2)" using assms by (simp add: texts_ok_def)
  have "NUL \<notin> set (glue_items (a ! 2) (items_of a s))"
    using glue loaded_nul [OF assms] by (auto simp: glue_items_concat dest: list.set_sel(1,2))
  then show ?thesis using True
    by (auto simp: join_spec_def list_join_def c_str_id glue_items_concat intro!: meets_intros)
qed (auto simp: join_spec_def list_join_def intro!: meets_intros)

lemma sublist_meets:
  assumes "texts_ok a s"
  shows "meets name s (sublist_spec a (items_of a s)) (list_sublist name a s)"
proof -
  let ?xs = "items_of a s"
  have joined: "list_join_items_temp (take m (drop n ?xs)) = join_semi (take m (drop n ?xs))" for m n
    using loaded_nul [OF assms] by (intro join_items_text) (auto dest: in_set_takeD in_set_dropD)
  have whole: "take (length ?xs) (drop n ?xs) = take (length ?xs - n) (drop n ?xs)" for n by simp
  have part: "take l (drop n ?xs) = take (if n + l < length ?xs then l else length ?xs - n) (drop n ?xs)" for l n by simp
  show ?thesis
    using joined whole part
    by (auto simp: sublist_spec_def list_sublist_def Let_def split: option.split intro!: meets_intros)
qed

lemma ev_pop_into:
  "length vs \<le> length xs \<Longrightarrow> ev (pop_into vs xs s) = assign (zip vs xs) (ev s)"
  by (induction vs xs s rule: pop_into.induct) (simp_all add: assign_def)

lemma meets_pop:
  "length vs \<le> length xs \<Longrightarrow>
     meets name s (Inr (zip vs xs @ [(k, v)])) (result_from (set_var k v (pop_into vs xs s)))"
  by (simp add: meets_def result_from_def assign_def ev_pop_into)

lemma pop_meets:
  assumes "texts_ok a s"
  shows "meets name s (pop_spec a (items_of a s)) (list_pop name a s)"
proof -
  let ?xs = "items_of a s" and ?k = "if length a = 2 then 1 else length a - 2"
  let ?front = "eval_sv_eq_ci_lit (a ! 0) ''POP_FRONT''"
  define rest where "rest = (if ?front then drop ?k ?xs else take (length ?xs - ?k) ?xs)"
  define popped where "popped = (if ?front then ?xs else rev ?xs)"
  define t where "t = pop_into (drop 2 a) popped s"
  have rest: "take (length ?xs - ?k) (if ?front then drop ?k ?xs else ?xs) = rest" by (simp add: rest_def)
  have stored: "set_var_items v rest t = set_var v (join_semi rest) t" for v
    using loaded_nul [OF assms] by (intro set_var_items_text) (auto simp: rest_def dest: in_set_takeD in_set_dropD)
  have empty: "rest = [] \<longleftrightarrow> length ?xs - ?k = 0" by (auto simp: rest_def)
  show ?thesis
  proof (cases "length a < 2 \<or> length ?xs < ?k")
    case True
    then show ?thesis by (auto simp: pop_spec_def list_pop_def Let_def intro!: meets_intros)
  next
    case False
    then have l: "length (drop 2 a) \<le> length popped" by (auto simp: popped_def split: if_splits)
    have handler: "list_pop name a s = result_from (set_var (a ! 1) (join_semi rest) t)"
      using False empty stored
      by (cases "rest = []")
        (simp_all add: list_pop_def Let_def rest popped_def [symmetric] t_def [symmetric] del: One_nat_def split: if_splits)
    have spec: "pop_spec a ?xs = Inr (zip (drop 2 a) popped @ [(a ! 1, join_semi rest)])"
      using False by (simp add: pop_spec_def Let_def rest_def popped_def)
    show ?thesis unfolding handler spec t_def by (rule meets_pop [OF l])
  qed
qed

lemma filter_meets:
  assumes "texts_ok a s"
  shows "meets name s (filter_spec regcomp a (items_of a s) (defined_of a s)) (list_filter regcomp name a s)"
proof -
  have "set_var_items v (filter P (items_of a s)) s = set_var v (join_semi (filter P (items_of a s))) s" for v P
    using loaded_nul [OF assms] by (intro set_var_items_text) auto
  then show ?thesis
    by (auto simp: filter_spec_def list_filter_def update_def Let_def split: option.split intro!: meets_intros)
qed

lemma reverse_meets:
  assumes "texts_ok a s"
  shows "meets name s (reverse_spec a (items_of a s) (defined_of a s)) (list_reverse name a s)"
proof -
  have "set_var_items v (rev (items_of a s)) s = set_var v (join_semi (rev (items_of a s))) s" for v
    using loaded_nul [OF assms] by (intro set_var_items_text) auto
  then show ?thesis
    by (auto simp: reverse_spec_def list_reverse_def update_def swap_ends_rev Let_def intro!: meets_intros)
qed

lemma sort_meets:
  assumes "texts_ok a s"
  shows "meets name s (sort_spec a (items_of a s) (defined_of a s)) (list_sort name a s)"
proof (cases "parse_sort_options (drop 2 a) default_sort_options")
  case (Inr opt)
  have "set (insertion_sort opt xs) = set xs" for xs by (simp add: insertion_sort_stable)
  then have "set_var_items v (insertion_sort opt (items_of a s)) s = set_var v (join_semi (insertion_sort opt (items_of a s))) s" for v
    using loaded_nul [OF assms] by (intro set_var_items_text) auto
  then have "length a < 2 \<or> meets name s (update a (items_of a s) (defined_of a s) (insertion_sort opt (items_of a s))) (list_sort name a s)"
    using Inr by (auto simp: list_sort_def update_def Let_def intro!: meets_intros)
  then show ?thesis using Inr
    by (auto simp: sort_spec_def insertion_sort_stable list_sort_def intro!: meets_error split: if_splits)
qed (auto simp: sort_spec_def list_sort_def intro!: meets_intros)

text \<open>The marks of the code are the selected indices.\<close>

lemma for_range_spec:
  "for_selection args n = map_sum id set (for_range args n)"
  by (auto simp: for_selection_def for_range_def for_indices_set split: option.split)

text \<open>A selector of the code and a selection agree.\<close>

definition selects_same ::
  "nat \<Rightarrow> string + bool list \<times> string_view option \<Rightarrow> string + nat set \<times> string_view option \<Rightarrow> bool" where
  "selects_same n sel spec \<longleftrightarrow>
     (case sel of
        Inl cause \<Rightarrow> spec = Inl cause
      | Inr (marks, out_var) \<Rightarrow>
          length marks = n \<and> (\<exists>is. spec = Inr (is, out_var) \<and> (\<forall>i < n. marks ! i \<longleftrightarrow> i \<in> is)))"

lemma selects_Inl [intro]: "selects_same n (Inl cause) (Inl cause)"
  by (simp add: selects_same_def)

lemma selects_all: "selects_same n (Inr (replicate n True, out_var)) (Inr (UNIV, out_var))"
  by (simp add: selects_same_def)

lemma selects_at:
  "selects_same n (map_sum id (\<lambda>marks. (marks, out_var)) (mark_indices cause args (replicate n False)))
     (case item_indices n args of None \<Rightarrow> Inl cause | Some is \<Rightarrow> Inr (set is, out_var))"
  by (auto simp: selects_same_def mark_indices_spec mark_all_nth split: option.split)

lemma selects_for:
  "selects_same n (map_sum id (\<lambda>is. (mark_all is (replicate n False), out_var)) (for_range args n))
     (map_sum id (\<lambda>is. (is, out_var)) (for_selection args n))"
  by (cases "for_range args n") (auto simp: selects_same_def for_range_spec mark_all_nth)

lemma selects_regex:
  "selects_same (length xs) (Inr (map P xs, out_var)) (Inr ({i. i < length xs \<and> P (xs ! i)}, out_var))"
  by (auto simp: selects_same_def)

lemma selects_if:
  "(b \<Longrightarrow> selects_same n x y) \<Longrightarrow> (\<not> b \<Longrightarrow> selects_same n x' y') \<Longrightarrow> selects_same n (if b then x else x') (if b then y else y')"
  by simp

lemma selects_output:
  "(\<And>stop v. selects_same n (f stop v) (g stop v)) \<Longrightarrow>
     selects_same n (case out of Inl cause \<Rightarrow> Inl cause | Inr (stop, v) \<Rightarrow> f stop v)
       (case out of Inl cause \<Rightarrow> Inl cause | Inr (stop, v) \<Rightarrow> g stop v)"
  by (auto simp: selects_Inl split: sum.split)

lemma selects_compiled:
  "(\<And>re. selects_same n (f re) (g re)) \<Longrightarrow>
     selects_same n (case r of None \<Rightarrow> Inl cause | Some re \<Rightarrow> f re) (case r of None \<Rightarrow> Inl cause | Some re \<Rightarrow> g re)"
  by (auto simp: selects_Inl split: option.split)

lemmas selects_intros = selects_if selects_output selects_compiled selects_at selects_for selects_regex selects_all selects_Inl

lemma transform_selected_spec: "selects_same (length xs) (transform_selected regcomp a next xs) (selection regcomp a next xs)"
  unfolding transform_selected_def selection_def Let_def by (intro selects_intros)

lemma transform_meets:
  assumes "texts_ok a s"
  shows "meets name s (transform_spec regcomp a (items_of a s) (defined_of a s)) (list_transform regcomp name a s)"
proof (cases "length a < 3")
  case True
  then show ?thesis by (simp add: transform_spec_def list_transform_def meets_error)
next
  case len: False
  let ?xs = "items_of a s"
  show ?thesis
  proof (cases "transform_action a")
    case (Inl cause)
    then show ?thesis using len by (simp add: transform_spec_def list_transform_def transformed_def meets_error)
  next
    case (Inr p)
    obtain action arg1 arg2 k where p: "transform_action a = Inr (action, arg1, arg2, k)" using Inr by (cases p) auto
    note agreed = transform_selected_spec [of ?xs regcomp a k]
    show ?thesis
    proof (cases "transform_selected regcomp a k ?xs")
      case (Inl cause)
      then show ?thesis using len p agreed
        by (simp add: transform_spec_def list_transform_def transformed_def selects_same_def meets_error)
    next
      case (Inr q)
      obtain marks out_var where q: "transform_selected regcomp a k ?xs = Inr (marks, out_var)" using Inr by (cases q) auto
      then obtain "is" where sel: "length marks = length ?xs" "selection regcomp a k ?xs = Inr (is, out_var)"
        "\<forall>i < length ?xs. marks ! i \<longleftrightarrow> i \<in> is"
        using agreed by (auto simp: selects_same_def)
      show ?thesis
      proof (cases "replace_matcher regcomp action arg1")
        case None
        then show ?thesis using len p q sel
          by (simp add: transform_spec_def list_transform_def transformed_def meets_error)
      next
        case (Some re)
        define ys where "ys = transform_marked (transform_item action arg1 arg2 re) marks ?xs"
        have ys: "ys = map (\<lambda>i. if i \<in> is then transform_item action arg1 arg2 re (?xs ! i) else ?xs ! i) [0..<length ?xs]"
          using sel by (simp add: ys_def transform_marked_nth)
        have "\<forall>y \<in> set ys. NUL \<notin> set y"
          using loaded_nul [OF assms] transform_item_no_nul by (auto simp: ys)
        then have stored: "set_var_items v ys s = set_var v (join_semi ys) s" for v by (rule set_var_items_text)
        have spec: "transform_spec regcomp a ?xs (defined_of a s) =
          (case out_var of Some out \<Rightarrow> Inr [(out, join_semi ys)] | None \<Rightarrow> update a ?xs (defined_of a s) ys)"
          using len p q sel Some by (simp add: transform_spec_def transformed_def ys [symmetric] del: One_nat_def)
        have handler: "list_transform regcomp name a s =
          (case out_var of Some out \<Rightarrow> emit_list EVENT_LIST_TRANSFORM (a ! 1) (set_var_items out ys s)
           | None \<Rightarrow> if ys = [] \<and> \<not> defined_of a s then result_from s
               else emit_list EVENT_LIST_TRANSFORM (a ! 1) (set_var_items (a ! 1) ys s))"
          using len p q sel Some by (cases out_var) (simp_all add: list_transform_def Let_def ys_def [symmetric] del: One_nat_def)
        have "ys = [] \<longleftrightarrow> ?xs = []" by (simp add: ys)
        then show ?thesis unfolding spec handler stored
          by (auto simp: update_def split: option.split intro!: meets_intros)
      qed
    qed
  qed
qed

text \<open>Through the chain of words, to the subcommand nobody knows.\<close>

definition handled ::
  "string_view \<Rightarrow> string_view list \<Rightarrow> 'sem interp \<Rightarrow> list_result \<Rightarrow> 'sem outcome \<Rightarrow> bool" where
  "handled name a s spec out \<longleftrightarrow>
     meets name s spec out \<or>
     spec = Inl ''Unsupported list() subcommand'' \<and> out = unsupported_subcommand name a s"

lemma handled_if:
  "(b \<Longrightarrow> meets name s x y) \<Longrightarrow> (\<not> b \<Longrightarrow> handled name a s x' y') \<Longrightarrow>
     handled name a s (if b then x else x') (if b then y else y')"
  by (simp add: handled_def)

lemma subcommand_handled:
  assumes "texts_ok a s"
  shows "handled name a s (list_spec regcomp a (items_of a s) (defined_of a s)) (list_subcommand regcomp name a s)"
  unfolding list_spec_def list_subcommand_def Let_def
  by (intro handled_if append_meets insert_meets remove_item_meets remove_at_meets remove_duplicates_meets length_meets
      get_meets find_meets join_meets sublist_meets pop_meets filter_meets reverse_meets sort_meets transform_meets assms)
    (simp add: handled_def)

lemma error_reported:
  assumes "\<not> stopped s"
  shows "diags (ev (flow_error name cause s)) = diags (ev s) @ [(DIAG_SEV_ERROR, name, cause)]"
    "scopes (ev (flow_error name cause s)) = scopes (ev s)"
    "cache_entries (ev (flow_error name cause s)) = cache_entries (ev s)"
  using assms
  by (auto simp: flow_error_def on_ev_def eval_emit_diag_def eval_compat_effective_severity_def
      eval_compat_decide_on_diag_def eval_request_stop_on_error_def stopped_def Let_def)

section \<open>The command\<close>

text \<open>
  C16. The command \<open>list()\<close> does what is specified for its subcommand over lists of items: when the
  specification names assignments, the variables after it are those after these assignments, and when
  it names an error, that error is reported and no variable has changed. (The texts have no NUL in them.)
\<close>

theorem list_command_meets_spec:
  assumes "\<not> stopped s" "texts_ok a s"
  shows "\<exists>r s'. list_subcommand regcomp name a s = Some (r, s') \<and>
    (case list_spec regcomp a (list_load_var_items (a ! 1) (ev s)) (eval_var_defined_visible (ev s) (a ! 1)) of
       Inl cause \<Rightarrow>
         diags (ev s') = diags (ev s) @ [(DIAG_SEV_ERROR, name, cause)] \<and>
         scopes (ev s') = scopes (ev s) \<and> cache_entries (ev s') = cache_entries (ev s)
     | Inr kvs \<Rightarrow> ev s' = assign kvs (ev s))"
  using subcommand_handled [OF assms(2), of name regcomp] unfolding handled_def
proof (elim disjE conjE)
  assume "meets name s (list_spec regcomp a (items_of a s) (defined_of a s)) (list_subcommand regcomp name a s)"
  then show ?thesis
    using error_reported [OF assms(1)] by (auto simp: meets_def list_error_def result_from_def split: sum.splits)
next
  assume "list_spec regcomp a (items_of a s) (defined_of a s) = Inl ''Unsupported list() subcommand''"
    "list_subcommand regcomp name a s = unsupported_subcommand name a s"
  then show ?thesis
    using error_reported [OF assms(1)]
    by (auto simp: unsupported_subcommand_def eval_request_stop_on_error_def result_from_def Let_def)
qed

definition no_engine :: regex_engine where
  "no_engine pattern = None"

lemma sample_spec:
  "list_spec no_engine [''remove_at'', ''V'', ''-1'', ''0''] [''a'', ''b'', ''c'', ''b''] True = Inr [(''V'', ''b;c'')]"
proof -
  have words: "\<not> eval_sv_eq_ci_lit ''remove_at'' ''APPEND''" "\<not> eval_sv_eq_ci_lit ''remove_at'' ''PREPEND''"
    "\<not> eval_sv_eq_ci_lit ''remove_at'' ''INSERT''" "\<not> eval_sv_eq_ci_lit ''remove_at'' ''REMOVE_ITEM''"
    "eval_sv_eq_ci_lit ''remove_at'' ''REMOVE_AT''"
    by code_simp+
  have indices: "item_indices (Suc (Suc (Suc (Suc 0)))) [''-1'', ''0''] = Some [3, 0]" by code_simp
  show ?thesis
    by (simp add: list_spec_def words remove_at_spec_def indices nths_Cons)
qed

lemma sample_items: "list_split_semicolon_preserve_empty ''a;b;c;b'' = [''a'', ''b'', ''c'', ''b'']"
  by code_simp

lemma sample_value:
  "eval_var_get_visible (ev (fresh_run [''V'' \<mapsto> v])) ''V'' = v" "eval_var_defined_visible (ev (fresh_run [''V'' \<mapsto> v])) ''V''"
  by (simp_all add: fresh_run_def one_scope_def eval_var_get_visible_def eval_var_defined_visible_def c_str_def)

lemma list_command_meets_spec_witness:
  "\<exists>r s'. list_subcommand no_engine ''list'' [''remove_at'', ''V'', ''-1'', ''0''] (fresh_run [''V'' \<mapsto> ''a;b;c;b'']) = Some (r, s') \<and>
     ev s' = assign [(''V'', ''b;c'')] (ev (fresh_run [''V'' \<mapsto> ''a;b;c;b'']))"
proof -
  let ?a = "[''remove_at'', ''V'', ''-1'', ''0'']" and ?s = "fresh_run [''V'' \<mapsto> ''a;b;c;b'']"
  have run: "\<not> stopped ?s" by (simp add: stopped_def fresh_run_def one_scope_def eval_should_stop_def)
  have ok: "texts_ok ?a ?s" by (simp add: texts_ok_def sample_value)
  have items: "list_load_var_items (?a ! 1) (ev ?s) = [''a'', ''b'', ''c'', ''b'']"
    "eval_var_defined_visible (ev ?s) (?a ! 1)"
    by (simp_all add: list_load_var_items_def sample_value sample_items)
  show ?thesis using list_command_meets_spec [OF run ok, where name = "''list''" and regcomp = no_engine] by (simp only: items sample_spec sum.case)
qed

section \<open>Lists in variables\<close>

text \<open>
  C24. A list stored in a variable reads back as the same items, empty ones at the front, inside and at the
  end included, as long as no item has a semicolon (or a NUL) in it and the list is not a
  single empty item, which is stored like no items at all.
\<close>

theorem stored_list_reads_back:
  assumes "can_set ctx" "\<not> announced v"
    and "\<forall>x \<in> set xs. CHR '';'' \<notin> set x \<and> NUL \<notin> set x" "xs \<noteq> [[]]"
  shows "list_load_var_items v (snd (list_set_var_from_items v xs ctx)) = xs"
proof -
  have stored: "snd (list_set_var_from_items v xs ctx) = snd (eval_var_set_current v (join_semi xs) ctx)"
    using assms(1,3) by (simp add: list_set_var_from_items_def can_set_def join_items_text)
  have "eval_var_get_visible (snd (eval_var_set_current v (join_semi xs) ctx)) v = c_str (join_semi xs)"
    using set_find [OF assms(1,2), of v "join_semi xs"] set_scopes [OF assms(1), of v "join_semi xs"]
    by (simp add: eval_var_get_visible_def)
  also have "\<dots> = join_semi xs" using assms(3) by (simp add: c_str_join)
  finally show ?thesis using assms(3,4) by (simp add: stored list_load_var_items_def split_join)
qed

lemma stored_list_reads_back_witness:
  "list_load_var_items ''V'' (snd (list_set_var_from_items ''V'' [[], ''a'', [], []] (one_scope Map.empty))) = [[], ''a'', [], []]"
  by (rule stored_list_reads_back)
    (simp_all add: can_set_def one_scope_def eval_should_stop_def announced_def nob_sv_starts_with_def c_str_def)

section \<open>Sorting\<close>

text \<open>
  C23. Whatever the options, \<open>list(SORT)\<close> leaves the items in the order of its comparison, the earlier
  never greater than the later, with each item as often as before; and items it cannot tell apart stay
  in their order.
\<close>

theorem list_sort_sorts:
  "sorted_wrt (\<lambda>a b. list_sort_item_cmp opt a b \<le> 0) (insertion_sort opt xs)
    \<and> mset (insertion_sort opt xs) = mset xs
    \<and> filter (\<lambda>x. list_sort_item_cmp opt y x = 0) (insertion_sort opt xs) = filter (\<lambda>x. list_sort_item_cmp opt y x = 0) xs"
proof -
  let ?k = "sort_key_of opt"
  have up: "sorted_wrt (\<lambda>a b. ?k a \<le> ?k b) (sort_key ?k zs)" for zs
    using sorted_sort_key [of ?k zs] by (simp add: sorted_wrt_map)
  have same: "list_sort_item_cmp opt y x = 0 \<longleftrightarrow> ?k x = ?k y" for x
    by (auto simp: list_sort_item_cmp_key order_sign_def)
  have stable: "filter (\<lambda>x. ?k x = ?k y) (sort_key ?k zs) = filter (\<lambda>x. ?k x = ?k y) zs" for zs
    by (rule sort_key_stable)
  have le: "list_sort_item_cmp opt a b \<le> 0 \<longleftrightarrow>
      (if sort_order opt = LIST_SORT_ORDER_DESCENDING then ?k b \<le> ?k a else ?k a \<le> ?k b)" for a b
    by (auto simp: list_sort_item_cmp_key order_sign_def)
  show ?thesis
    using up stable by (simp add: insertion_sort_stable le same sorted_wrt_rev rev_filter [symmetric])
qed

end
