(* ===== verification/Eval_Text_Platform.thy ===== *)
theory Eval_Text_Platform
  imports Eval_List_Transform Eval_Run_Props
begin

text \<open>
  Commands on text: those that do no more than work on variables and diagnostics and emit events of their
  own. Their interface is enough for scripts that use them to end, to keep the event stream nested and not
  to depend on the bound; \<open>list()\<close> and \<open>math()\<close> provide it.
\<close>

section \<open>The interface\<close>

inductive text_steps :: "'sem interp \<Rightarrow> 'sem interp \<Rightarrow> bool" where
  start: "text_steps s s"
| variables: "text_steps s t \<Longrightarrow> steady (ev t) c \<Longrightarrow> text_steps s (t\<lparr>ev := c\<rparr>)"
| emission: "text_steps s t \<Longrightarrow> quiet e \<Longrightarrow> emit_event e t = (ok, u) \<Longrightarrow> text_steps s u"

definition text_outcome :: "'sem interp \<Rightarrow> 'sem outcome \<Rightarrow> bool" where
  "text_outcome s out \<longleftrightarrow> (\<exists>r s'. out = Some (r, s') \<and> text_steps s s')"

lemma text_steps_traced: "text_steps s u \<Longrightarrow> traced s0 s \<Longrightarrow> traced s0 u"
proof (induction rule: text_steps.induct)
  case (variables s t c)
  then show ?case by (metis same_events_fields(1,2) traced_after_same)
next
  case (emission s t e ok u)
  then show ?case by (metis emit_event_traced traced_trans)
qed simp

lemma text_steps_in_order: "text_steps s u \<Longrightarrow> in_order s \<Longrightarrow> in_order u"
proof (induction rule: text_steps.induct)
  case (variables s t c)
  then show ?case by (auto simp: steady_def outer_kept_def intro: in_order_ev)
next
  case (emission s t e ok u)
  then show ?case using in_order_emit by blast
qed simp

locale text_command =
  fixes h :: "'sem handler"
  assumes outcome: "text_outcome s (h run cmd args s)"
    and alone: "h run cmd args s = h run' cmd args s"
begin

lemma command_traced: "trace_ok s (h run cmd args s)"
  using outcome [of s run cmd args] text_steps_traced [OF _ traced_refl] by (auto simp: text_outcome_def)

lemma command_ends: "in_order s \<Longrightarrow> ends (h run cmd args s)"
  using outcome [of s run cmd args] text_steps_in_order by (auto simp: text_outcome_def)

lemma command_le: "le (h run cmd args s) (h run' cmd args s)"
  using alone [of run cmd args s run'] by (simp add: le_refl)

end

section \<open>Commands that provide it\<close>

named_theorems text_intros \<open>outcomes of commands on text\<close>

lemma text_on_ev: "text_steps s t \<Longrightarrow> steady (ev t) (snd (f (ev t))) \<Longrightarrow> text_steps s (snd (on_ev f t))"
  by (simp add: on_ev_def case_prod_beta text_steps.variables)

lemma text_flow_error [text_intros]: "text_steps s t \<Longrightarrow> text_steps s (flow_error name cause t)"
  by (simp add: flow_error_def text_on_ev emit_steady)

lemma text_set_var [text_intros]: "text_steps s t \<Longrightarrow> text_steps s (set_var k v t)"
  unfolding set_var_def by (erule text_on_ev) (rule set_frame(1) [OF prod.collapse [symmetric]])

lemma text_set_var_items [text_intros]: "text_steps s t \<Longrightarrow> text_steps s (set_var_items k xs t)"
  unfolding set_var_items_def
  by (erule text_on_ev) (auto simp: list_set_var_from_items_def intro: set_frame(1) [OF prod.collapse [symmetric]])

lemma text_pop_into [text_intros]: "text_steps s t \<Longrightarrow> text_steps s (pop_into vs xs t)"
  by (induction vs xs t rule: pop_into.induct) (auto intro: text_intros)

lemma text_request_stop [text_intros]: "text_steps s t \<Longrightarrow> text_steps s (t\<lparr>ev := eval_request_stop_on_error (ev t)\<rparr>)"
  by (erule text_steps.variables) (auto simp: eval_request_stop_on_error_def steady_def outer_kept_def)

lemma text_result [text_intros]: "text_steps s t \<Longrightarrow> text_outcome s (result_from t)"
  by (simp add: text_outcome_def result_from_def)

lemma text_list_error [text_intros]: "text_steps s t \<Longrightarrow> text_outcome s (list_error name cause t)"
  by (simp add: list_error_def text_intros)

lemma text_emit [text_intros]: "quiet e \<Longrightarrow> text_steps s t \<Longrightarrow> text_outcome s (emit_then e t result_from)"
proof -
  assume "quiet e" "text_steps s t"
  then have "text_steps s (snd (emit_event e t))" by (metis prod.collapse text_steps.emission)
  then show ?thesis by (simp add: emit_then_def case_prod_beta text_intros text_outcome_def fatal_def result_from_def)
qed

lemma text_emit_list [text_intros]: "text_steps s t \<Longrightarrow> text_outcome s (emit_list kind var t)"
  by (simp add: emit_list_def text_emit)

lemma text_if [text_intros]:
  "(b \<Longrightarrow> text_outcome s x) \<Longrightarrow> (\<not> b \<Longrightarrow> text_outcome s y) \<Longrightarrow> text_outcome s (if b then x else y)"
  "(\<And>v. text_outcome s (f v)) \<Longrightarrow> text_outcome s y \<Longrightarrow> text_outcome s (case p of None \<Rightarrow> y | Some v \<Rightarrow> f v)"
  "(\<And>c. text_outcome s (g c)) \<Longrightarrow> (\<And>v. text_outcome s (f' v)) \<Longrightarrow> text_outcome s (case q of Inl c \<Rightarrow> g c | Inr v \<Rightarrow> f' v)"
  "(\<And>u v. text_outcome s (f'' u v)) \<Longrightarrow> text_outcome s (case w of (u, v) \<Rightarrow> f'' u v)"
  by (auto split: option.split sum.split prod.split)

lemma text_let [text_intros]: "text_outcome s (f x) \<Longrightarrow> text_outcome s (Let x f)"
  by simp

lemma adding_text [text_intros]:
  assumes "text_steps s t"
  shows "text_outcome s (list_append_prepend name a t)" "text_outcome s (list_insert name a t)"
    "text_outcome s (list_remove_item name a t)" "text_outcome s (list_remove_at name a t)"
    "text_outcome s (list_remove_duplicates name a t)" "text_outcome s (list_pop name a t)"
  unfolding list_append_prepend_def list_insert_def list_remove_item_def list_remove_at_def list_remove_duplicates_def list_pop_def
  by (intro text_intros assms)+

lemma asking_text [text_intros]:
  assumes "text_steps s t"
  shows "text_outcome s (list_length name a t)" "text_outcome s (list_get name a t)" "text_outcome s (list_find name a t)"
    "text_outcome s (list_join name a t)" "text_outcome s (list_sublist name a t)"
  unfolding list_length_def list_get_def list_find_def list_join_def list_sublist_def
  by (intro text_intros assms)+

lemma reordering_text [text_intros]:
  assumes "text_steps s t"
  shows "text_outcome s (list_filter regcomp name a t)" "text_outcome s (list_reverse name a t)"
    "text_outcome s (list_sort name a t)" "text_outcome s (list_transform regcomp name a t)"
    "text_outcome s (unsupported_subcommand name a t)"
  unfolding list_filter_def list_reverse_def list_sort_def list_transform_def unsupported_subcommand_def
  by (intro text_intros assms)+

lemma list_subcommand_text [text_intros]: "text_steps s t \<Longrightarrow> text_outcome s (list_subcommand regcomp name a t)"
  unfolding list_subcommand_def by (intro text_let text_if(1) adding_text asking_text reordering_text)

lemma math_finished_text [text_intros]:
  assumes "text_steps s t"
  shows "text_outcome s (math_finished name out t)"
proof -
  have "text_steps s (fold (flow_error name) causes t)" for causes
    using assms by (induction causes arbitrary: t) (simp_all add: text_flow_error)
  then show ?thesis using assms by (cases out) (simp_all add: math_finished_def Let_def text_intros)
qed

lemma with_args_text:
  assumes "\<And>a t. text_steps s t \<Longrightarrow> text_outcome s (body a t)"
  shows "text_outcome s (with_args body args s)"
proof -
  have "text_steps s (snd (on_ev (eval_resolve_args args) s))"
    by (rule text_on_ev [OF text_steps.start]) (metis eval_resolve_args_def prod.collapse resolve_frame)
  then show ?thesis using assms text_steps.start [of s]
    by (simp add: with_args_def case_prod_beta text_result)
qed

interpretation list_cmd: text_command "eval_handle_list regcomp" for regcomp
proof
  fix s :: "'a interp" and run run' cmd args
  show "text_outcome s (eval_handle_list regcomp run cmd args s)"
    unfolding eval_handle_list_def by (intro with_args_text text_if(1) text_result list_subcommand_text)
  show "eval_handle_list regcomp run cmd args s = eval_handle_list regcomp run' cmd args s"
    by (simp add: eval_handle_list_def)
qed

interpretation math_cmd: text_command math_command
proof
  fix s :: "'a interp" and run run' cmd args
  show "text_outcome s (math_command run cmd args s)"
    unfolding math_command_def by (intro with_args_text math_finished_text)
  show "math_command run cmd args s = math_command run' cmd args s"
    by (simp add: math_command_def)
qed

section \<open>The platform\<close>

lemma text_natives_cases:
  assumes "text_natives regcomp name = Some h"
  shows "flow_natives name = Some h \<or> h = eval_handle_list regcomp \<or> h = math_command"
  using assms by (auto simp: text_natives_def split: if_splits)

lemma text_natives_keep:
  assumes "text_natives regcomp name = Some h"
  shows "trace_ok s (h run cmd args s)" "in_order s \<Longrightarrow> ends (h run cmd args s)"
    "le (h run cmd args s) (h run' cmd args s)"
  using text_natives_cases [OF assms] flow_natives_traced flow_natives_end flow_natives_le
    list_cmd.command_traced math_cmd.command_traced list_cmd.command_ends math_cmd.command_ends
    list_cmd.command_le math_cmd.command_le
  by metis+

interpretation text_traced: traced_platform "text_platform regcomp w" for regcomp w
  by unfold_locales (simp add: text_platform_def text_natives_keep)

interpretation text_order: orderly_platform "text_platform regcomp w" UNIV for regcomp w
  by unfold_locales (simp add: text_platform_def text_natives_keep)

interpretation text_mono: monotone_platform "text_platform regcomp w" for regcomp w
  by unfold_locales (simp add: text_platform_def text_natives_keep)

section \<open>An end\<close>

text \<open>
  C2. A script comes to an end if it defines no functions and macros and calls only \<open>break\<close>,
  \<open>continue\<close>, \<open>return\<close>, \<open>block\<close>, \<open>endblock\<close>, \<open>list\<close> and \<open>math\<close> and commands nobody knows, whatever
  other commands there are: the loops are bounded, and a return gets out of the blocks around it.
  The nesting of the script's conditionals and loops is enough as the bound; and unless the result
  is fatal, the frames are in order again. (Other commands can break this: after \<open>cmake_policy(POP)\<close>
  inside a block a return need not end, see \<open>unwind_never_ends\<close>.)
\<close>

theorem script_ends:
  fixes p :: "'sem platform"
  assumes "in_order s" and "\<forall>key \<in> K. natives p key = text_natives regcomp key"
    and "list_all (calls_within K) nds" and "list_all (\<lambda>nd. node_depth nd \<le> n) nds"
  shows "\<exists>r s'. eval_run (Suc n) p nds s = Some (r, s') \<and> (r \<noteq> EVAL_RESULT_FATAL \<longrightarrow> in_order s')"
proof -
  have ordered: "orderly_platform p K"
    by unfold_locales (use assms(2) text_natives_keep(2) in fastforce)
  have "shallow K n nds" using assms(3,4) by (simp add: shallow_def)
  from orderly_platform.eval_run_ends [OF ordered this assms(1)] show ?thesis by (simp add: ends_def)
qed

text \<open>The modelled commands among others, and a script that blocks, loops, computes and returns.\<close>

definition wider_platform :: "unit platform" where
  "wider_platform = \<lparr>natives = (text_natives (\<lambda>pat. None))(''SPOIL'' \<mapsto> careless), world = (\<lambda>s. nothing_outside)\<rparr>"

definition ending_script :: "node list" where
  "ending_script =
     [Node_Command 1 1 ''list'' [unquoted ''APPEND'', unquoted ''L'', unquoted ''a'', unquoted ''b''],
      Node_Foreach 2 1 [unquoted ''i'', unquoted ''IN'', unquoted ''LISTS'', unquoted ''L'']
        [Node_Command 3 1 ''block'' [],
         Node_If 4 1 [unquoted ''i'', unquoted ''STREQUAL'', unquoted ''b''] [Node_Command 5 1 ''return'' []] [] [],
         Node_Command 6 1 ''math'' [unquoted ''EXPR'', unquoted ''n'', unquoted ''6*7''],
         Node_Command 7 1 ''unheard_of'' [],
         Node_Command 8 1 ''endblock'' []],
      Node_While 9 1 [unquoted ''1''] [Node_Command 10 1 ''break'' []]]"

definition called :: "string set" where
  "called = {''LIST'', ''BLOCK'', ''RETURN'', ''MATH'', ''UNHEARD_OF'', ''ENDBLOCK'', ''BREAK''}"

lemma ending_script_calls: "list_all (calls_within called) ending_script"
proof -
  have "map (\<lambda>w. map c_toupper (c_str w))
      [''list'', ''block'', ''return'', ''math'', ''unheard_of'', ''endblock'', ''break''] =
    [''LIST'', ''BLOCK'', ''RETURN'', ''MATH'', ''UNHEARD_OF'', ''ENDBLOCK'', ''BREAK'']"
    by code_simp
  then show ?thesis by (simp add: ending_script_def called_def)
qed

lemma script_ends_witness:
  "\<exists>r s'. eval_run 3 wider_platform ending_script (fresh_run Map.empty) = Some (r, s') \<and>
     (r \<noteq> EVAL_RESULT_FATAL \<longrightarrow> in_order s')"
proof -
  have "\<forall>key \<in> called. natives wider_platform key = text_natives (\<lambda>pat. None) key"
    by (simp add: called_def wider_platform_def)
  moreover have "list_all (\<lambda>nd. node_depth nd \<le> 2) ending_script" by (simp add: ending_script_def)
  ultimately show ?thesis
    using script_ends [OF fresh_run_in_order _ ending_script_calls] by (simp add: eval_nat_numeral del: eval_run.simps)
qed

end
