(* ===== verification/Arena.thy ===== *)
theory Arena
  imports Nob_Prelude
begin

unbundle bit_operations_syntax

text \<open>
  The arena allocator, \<open>src_v2/arena/arena.c\<close>. The chain of blocks is the list it stands for;
  a block is its capacity, its watermark and its payload bytes. An address inside the arena is
  the index of a block with an offset into its payload: blocks are separate objects, so that
  this is all a comparison of addresses can see. \<open>malloc\<close> is a parameter: for a number of
  bytes it returns \<open>None\<close>, or the bytes the new memory happens to hold. A cleanup is named by
  the address of its node, with the callback and its argument as numbers; the cleanups that
  have run are logged. Sizes are numbers up to \<open>SIZE_MAX\<close>.
\<close>

type_synonym arena_ptr = "nat \<times> nat"
type_synonym malloc = "nat \<Rightarrow> (nat \<Rightarrow> char) option"

record arena_block =
  capacity :: nat
  used :: nat
  payload :: "nat \<Rightarrow> char"

record cleanup_node =
  node_at :: arena_ptr
  node_fn :: nat
  node_data :: nat

record arena =
  blocks :: "arena_block list"
  current :: nat
  min_block_size :: nat
  cleanups :: "cleanup_node list"
  ran :: "(nat \<times> nat) list"

record arena_mark_t =
  mk_block :: nat
  mk_used :: nat
  mk_cleanup :: "arena_ptr option"

text \<open>The sizes of the structures on the 64-bit platforms the sources are built for.\<close>

definition SIZEOF_BLOCK :: nat where "SIZEOF_BLOCK = 64"
definition SIZEOF_ARENA :: nat where "SIZEOF_ARENA = 32"
definition SIZEOF_CLEANUP :: nat where "SIZEOF_CLEANUP = 24"
definition ARENA_ALIGNMENT :: nat where "ARENA_ALIGNMENT = 16"

section \<open>Sizes\<close>

definition arena_add_overflow :: "nat \<Rightarrow> nat \<Rightarrow> nat option" where
  "arena_add_overflow a b = (if a > SIZE_MAX - b then None else Some (a + b))"

text \<open>Rounding up is done on 64-bit words, with the low bits masked off.\<close>

definition arena_align_up :: "nat \<Rightarrow> nat option" where
  "arena_align_up n =
     (case arena_add_overflow n (ARENA_ALIGNMENT - 1) of
        None \<Rightarrow> None
      | Some tmp \<Rightarrow> Some (unat ((of_nat tmp :: 64 word) AND NOT (of_nat (ARENA_ALIGNMENT - 1)))))"

section \<open>Blocks\<close>

definition arena_block_create :: "malloc \<Rightarrow> nat \<Rightarrow> arena_block option" where
  "arena_block_create m cap =
     (case arena_add_overflow SIZEOF_BLOCK cap of
        None \<Rightarrow> None
      | Some bytes \<Rightarrow> map_option (\<lambda>junk. \<lparr>capacity = cap, used = 0, payload = junk\<rparr>) (m bytes))"

definition arena_create :: "malloc \<Rightarrow> nat \<Rightarrow> arena option" where
  "arena_create m initial_capacity =
     (case m SIZEOF_ARENA of
        None \<Rightarrow> None
      | Some _ \<Rightarrow>
          (let min_size = (if initial_capacity < 4096 then 4096 else initial_capacity) in
           case arena_block_create m min_size of
             None \<Rightarrow> None
           | Some b \<Rightarrow>
               Some \<lparr>blocks = [b], current = 0, min_block_size = min_size, cleanups = [], ran = []\<rparr>))"

definition arena_alloc_from_block :: "arena_block \<Rightarrow> nat \<Rightarrow> nat option \<times> arena_block" where
  "arena_alloc_from_block b size0 =
     (case arena_align_up size0 of
        None \<Rightarrow> (None, b)
      | Some sz \<Rightarrow>
          (case arena_add_overflow (used b) sz of
             None \<Rightarrow> (None, b)
           | Some new_used \<Rightarrow>
               if new_used > capacity b then (None, b) else (Some (used b), b\<lparr>used := new_used\<rparr>)))"

text \<open>The first of the given blocks that has room, by its position.\<close>

fun arena_find_reusable_block :: "arena_block list \<Rightarrow> nat \<Rightarrow> nat option" where
  "arena_find_reusable_block [] size0 = None"
| "arena_find_reusable_block (b # bs) size0 =
     (if arena_add_overflow (used b) size0 \<noteq> None \<and> capacity b \<ge> size0 \<and> used b + size0 \<le> capacity b
      then Some 0 else map_option Suc (arena_find_reusable_block bs size0))"

text \<open>Allocating from block \<open>i\<close>, which becomes the current one when \<open>move\<close> is set.\<close>

definition alloc_in :: "nat \<Rightarrow> nat \<Rightarrow> arena \<Rightarrow> arena_ptr option \<times> arena" where
  "alloc_in i size0 a =
     (case arena_alloc_from_block (blocks a ! i) size0 of
        (off, b) \<Rightarrow> (map_option (Pair i) off, a\<lparr>blocks := (blocks a)[i := b]\<rparr>))"

definition new_block_capacity :: "arena \<Rightarrow> nat \<Rightarrow> nat" where
  "new_block_capacity a aligned_size =
     (let c0 = capacity (blocks a ! current a);
          c1 = (if c0 \<le> SIZE_MAX div 2 then c0 * 2 else SIZE_MAX);
          c2 = (if c1 < aligned_size then aligned_size else c1)
      in if c2 < min_block_size a then min_block_size a else c2)"

text \<open>The slow path: a new block at the end of the chain.\<close>

definition alloc_new_block :: "malloc \<Rightarrow> nat \<Rightarrow> arena \<Rightarrow> arena_ptr option \<times> arena" where
  "alloc_new_block m aligned_size a =
     (case arena_block_create m (new_block_capacity a aligned_size) of
        None \<Rightarrow> (None, a)
      | Some b \<Rightarrow>
          alloc_in (length (blocks a)) aligned_size
            (a\<lparr>blocks := blocks a @ [b], current := length (blocks a)\<rparr>))"

definition arena_alloc :: "malloc \<Rightarrow> arena \<Rightarrow> nat \<Rightarrow> arena_ptr option \<times> arena" where
  "arena_alloc m a size0 =
     (if size0 = 0 then (None, a)
      else (case arena_align_up size0 of
              None \<Rightarrow> (None, a)
            | Some aligned_size \<Rightarrow>
                (case alloc_in (current a) aligned_size a of
                   (Some p, a1) \<Rightarrow> (Some p, a1)
                 | (None, a1) \<Rightarrow>
                     (case arena_find_reusable_block (drop (Suc (current a1)) (blocks a1)) aligned_size of
                        Some k \<Rightarrow>
                          (let a2 = a1\<lparr>current := Suc (current a1) + k\<rparr> in
                           case alloc_in (current a2) aligned_size a2 of
                             (Some p, a3) \<Rightarrow> (Some p, a3)
                           | (None, a3) \<Rightarrow> alloc_new_block m aligned_size a3)
                      | None \<Rightarrow> alloc_new_block m aligned_size a1))))"

section \<open>Bytes\<close>

definition read_bytes :: "arena \<Rightarrow> arena_ptr \<Rightarrow> nat \<Rightarrow> string" where
  "read_bytes a p n = map (payload (blocks a ! fst p)) [snd p..<snd p + n]"

definition write_bytes :: "arena_ptr \<Rightarrow> string \<Rightarrow> arena \<Rightarrow> arena" where
  "write_bytes p xs a =
     (let b = blocks a ! fst p in
      a\<lparr>blocks := (blocks a)[fst p := b\<lparr>payload := (\<lambda>i.
          if snd p \<le> i \<and> i < snd p + length xs then xs ! (i - snd p) else payload b i)\<rparr>]\<rparr>)"

definition arena_alloc_zero :: "malloc \<Rightarrow> arena \<Rightarrow> nat \<Rightarrow> arena_ptr option \<times> arena" where
  "arena_alloc_zero m a size0 =
     (case arena_alloc m a size0 of
        (Some p, a1) \<Rightarrow> (Some p, write_bytes p (replicate size0 NUL) a1)
      | (None, a1) \<Rightarrow> (None, a1))"

text \<open>
  Copies of outside memory: \<open>xs\<close> is what the source pointer shows, for a C string with
  everything after its NUL left out; \<open>None\<close> is the null pointer.
\<close>

definition copy_in :: "malloc \<Rightarrow> arena \<Rightarrow> string \<Rightarrow> arena_ptr option \<times> arena" where
  "copy_in m a xs =
     (case arena_alloc m a (length xs) of
        (Some p, a1) \<Rightarrow> (Some p, write_bytes p xs a1)
      | (None, a1) \<Rightarrow> (None, a1))"

definition arena_strdup :: "malloc \<Rightarrow> arena \<Rightarrow> string option \<Rightarrow> arena_ptr option \<times> arena" where
  "arena_strdup m a str = (case str of None \<Rightarrow> (None, a) | Some s \<Rightarrow> copy_in m a (c_str s @ [NUL]))"

definition arena_strndup :: "malloc \<Rightarrow> arena \<Rightarrow> string option \<Rightarrow> nat \<Rightarrow> arena_ptr option \<times> arena" where
  "arena_strndup m a str max_len =
     (case str of None \<Rightarrow> (None, a) | Some s \<Rightarrow> copy_in m a (take max_len (c_str s) @ [NUL]))"

definition arena_memdup :: "malloc \<Rightarrow> arena \<Rightarrow> string option \<Rightarrow> nat \<Rightarrow> arena_ptr option \<times> arena" where
  "arena_memdup m a src size0 =
     (case src of None \<Rightarrow> (None, a) | Some s \<Rightarrow> if size0 = 0 then (None, a) else copy_in m a (take size0 s))"

section \<open>Resizing\<close>

text \<open>The block an address lies in, at or below its watermark; the offset is in the address.\<close>

fun find_block_from :: "nat \<Rightarrow> arena_block list \<Rightarrow> arena_ptr \<Rightarrow> nat option" where
  "find_block_from i [] p = None"
| "find_block_from i (b # bs) p =
     (if fst p = i \<and> snd p \<le> used b then Some i else find_block_from (Suc i) bs p)"

definition arena_find_block_for_ptr :: "arena \<Rightarrow> arena_ptr \<Rightarrow> nat option" where
  "arena_find_block_for_ptr a p = find_block_from 0 (blocks a) p"

text \<open>Growing or shrinking the last allocation where it is, when \<open>p\<close> is that allocation.\<close>

definition resize_in_place :: "arena \<Rightarrow> arena_ptr \<Rightarrow> nat \<Rightarrow> nat \<Rightarrow> arena option" where
  "resize_in_place a p old_aligned new_aligned =
     (let b = blocks a ! current a in
      if old_aligned \<le> used b \<and> p = (current a, used b - old_aligned) \<and>
         new_aligned \<le> capacity b - (used b - old_aligned)
      then Some (a\<lparr>blocks := (blocks a)[current a := b\<lparr>used := used b - old_aligned + new_aligned\<rparr>]\<rparr>)
      else None)"

definition copy_old :: "arena_ptr \<Rightarrow> arena_ptr \<Rightarrow> nat \<Rightarrow> nat \<Rightarrow> arena \<Rightarrow> arena" where
  "copy_old p new_p old_size new_size a =
     (let readable = (case arena_find_block_for_ptr a p of
                        None \<Rightarrow> 0
                      | Some i \<Rightarrow> if snd p \<le> used (blocks a ! i) then used (blocks a ! i) - snd p else 0);
          copy_size = min (min old_size new_size) readable
      in if copy_size > 0 then write_bytes new_p (read_bytes a p copy_size) a else a)"

definition arena_realloc_last ::
  "malloc \<Rightarrow> arena \<Rightarrow> arena_ptr option \<Rightarrow> nat \<Rightarrow> nat \<Rightarrow> arena_ptr option \<times> arena" where
  "arena_realloc_last m a ptr old_size new_size =
     (case ptr of
        None \<Rightarrow> arena_alloc m a new_size
      | Some p \<Rightarrow>
          if new_size = 0 then (None, a)
          else
            (case (arena_align_up old_size, arena_align_up new_size) of
               (Some old_aligned, Some new_aligned) \<Rightarrow>
                 (case resize_in_place a p old_aligned new_aligned of
                    Some a1 \<Rightarrow> (Some p, a1)
                  | None \<Rightarrow>
                      (case arena_alloc m a new_aligned of
                         (Some q, a1) \<Rightarrow>
                           (Some q, if old_size > 0 then copy_old p q old_size new_size a1 else a1)
                       | (None, a1) \<Rightarrow> (None, a1)))
             | _ \<Rightarrow> (None, a)))"

section \<open>Cleanups, marks and reset\<close>

text \<open>The null function is the number zero.\<close>

definition arena_on_destroy :: "malloc \<Rightarrow> arena \<Rightarrow> nat \<Rightarrow> nat \<Rightarrow> bool \<times> arena" where
  "arena_on_destroy m a fn userdata =
     (if fn = 0 then (False, a)
      else (case arena_alloc m a SIZEOF_CLEANUP of
              (Some p, a1) \<Rightarrow>
                (True, a1\<lparr>cleanups := \<lparr>node_at = p, node_fn = fn, node_data = userdata\<rparr> # cleanups a1\<rparr>)
            | (None, a1) \<Rightarrow> (False, a1)))"

definition cleanup_head :: "arena \<Rightarrow> arena_ptr option" where
  "cleanup_head a = (case cleanups a of [] \<Rightarrow> None | c # cs \<Rightarrow> Some (node_at c))"

text \<open>The stack above the node to stop at: what runs, and what stays.\<close>

fun cleanups_until :: "arena_ptr option \<Rightarrow> cleanup_node list \<Rightarrow> (nat \<times> nat) list \<times> cleanup_node list" where
  "cleanups_until stop [] = ([], [])"
| "cleanups_until stop (c # cs) =
     (if stop = Some (node_at c) then ([], c # cs)
      else (case cleanups_until stop cs of (rs, rest) \<Rightarrow> ((node_fn c, node_data c) # rs, rest)))"

definition arena_run_cleanups_until :: "arena_ptr option \<Rightarrow> arena \<Rightarrow> arena" where
  "arena_run_cleanups_until stop a =
     (case cleanups_until stop (cleanups a) of
        (rs, rest) \<Rightarrow> a\<lparr>cleanups := rest, ran := ran a @ rs\<rparr>)"

definition arena_reset_blocks_only :: "arena \<Rightarrow> arena" where
  "arena_reset_blocks_only a = a\<lparr>blocks := map (\<lambda>b. b\<lparr>used := 0\<rparr>) (blocks a), current := 0\<rparr>"

definition arena_reset :: "arena \<Rightarrow> arena" where
  "arena_reset a = arena_reset_blocks_only (arena_run_cleanups_until None a)"

text \<open>Destroying runs the cleanups; the blocks are freed, so that none is left.\<close>

definition arena_destroy :: "arena \<Rightarrow> (nat \<times> nat) list" where
  "arena_destroy a = ran (arena_run_cleanups_until None a)"

definition arena_total_allocated :: "arena \<Rightarrow> nat" where
  "arena_total_allocated a = foldl (\<lambda>t b. (t + used b) mod (SIZE_MAX + 1)) 0 (blocks a)"

definition arena_total_capacity :: "arena \<Rightarrow> nat" where
  "arena_total_capacity a = foldl (\<lambda>t b. (t + capacity b) mod (SIZE_MAX + 1)) 0 (blocks a)"

definition arena_mark :: "arena \<Rightarrow> arena_mark_t" where
  "arena_mark a =
     \<lparr>mk_block = current a, mk_used = used (blocks a ! current a), mk_cleanup = cleanup_head a\<rparr>"

definition arena_rewind :: "arena \<Rightarrow> arena_mark_t \<Rightarrow> arena" where
  "arena_rewind a mark =
     (let a1 = arena_run_cleanups_until (mk_cleanup mark) a in
      if mk_block mark \<ge> length (blocks a1) \<or> mk_used mark > capacity (blocks a1 ! mk_block mark) then
        arena_reset_blocks_only (arena_run_cleanups_until None a1)
      else
        a1\<lparr>blocks := take (mk_block mark) (blocks a1)
             @ (blocks a1 ! mk_block mark)\<lparr>used := mk_used mark\<rparr>
             # map (\<lambda>b. b\<lparr>used := 0\<rparr>) (drop (Suc (mk_block mark)) (blocks a1)),
           current := mk_block mark\<rparr>)"

end
