(* ===== verification/Arena_Facts.thy ===== *)
theory Arena_Facts
  imports Arena
begin

unbundle bit_operations_syntax

text \<open>
  The invariant of an arena and what one allocation does to it. The bytes in use are those
  below the watermarks; an allocation returns an aligned region outside them, and changes
  nothing inside.
\<close>

section \<open>Rounding\<close>

lemma bit_nat_bound: "n < 2 ^ k \<Longrightarrow> bit n j \<Longrightarrow> j < k" for n :: nat
proof (rule ccontr)
  assume n: "n < 2 ^ k" and b: "bit n j" and "\<not> j < k"
  then have "n < 2 ^ j" by (meson leI le_trans one_le_numeral order_less_le_trans power_increasing)
  then show False using b by (simp add: bit_iff_odd)
qed

lemma word_mask_low:
  assumes "n < 2 ^ 64"
  shows "unat ((of_nat n :: 64 word) AND NOT (of_nat 15)) = n div 16 * 16"
proof -
  have low: "bit (of_nat 15 :: 64 word) k \<longleftrightarrow> k < 4" for k
  proof -
    have "(of_nat 15 :: 64 word) = mask 4" by (simp add: mask_eq_exp_minus_1)
    then show ?thesis by (simp only: bit_mask_iff) (auto simp: possible_bit_word)
  qed
  have "unat ((of_nat n :: 64 word) AND NOT (of_nat 15)) = push_bit 4 (drop_bit 4 n)"
  proof (rule bit_eqI)
    fix k
    show "bit (unat ((of_nat n :: 64 word) AND NOT (of_nat 15))) k \<longleftrightarrow> bit (push_bit 4 (drop_bit 4 n)) k"
      unfolding bit_unsigned_iff bit_and_iff bit_not_iff low
      using bit_nat_bound [OF assms, of k]
      by (auto simp: bit_push_bit_iff bit_drop_bit_eq bit_of_nat_iff possible_bit_word)
  qed
  then show ?thesis by (simp add: push_bit_eq_mult drop_bit_eq_div)
qed

lemma align_minus_one: "16 - 1 = (15 :: nat)"
  by simp

lemma arena_align_up_Some:
  "arena_align_up n = Some s \<longleftrightarrow> n \<le> SIZE_MAX - 15 \<and> s = (n + 15) div 16 * 16"
proof (cases "n \<le> SIZE_MAX - 15")
  case True
  then have lt: "n + 15 < 2 ^ 64" and nlt: "\<not> SIZE_MAX - 15 < n" by (simp_all add: SIZE_MAX_def)
  have "arena_align_up n = Some ((n + 15) div 16 * 16)"
    unfolding arena_align_up_def arena_add_overflow_def ARENA_ALIGNMENT_def align_minus_one if_not_P [OF nlt]
      option.case word_mask_low [OF lt] ..
  then show ?thesis using True by auto
next
  case False
  then show ?thesis by (simp add: arena_align_up_def arena_add_overflow_def ARENA_ALIGNMENT_def)
qed

definition rounded :: "nat \<Rightarrow> nat" where "rounded n = (n + 15) div 16 * 16"

lemma arena_align_up_eq: "arena_align_up n = (if n \<le> SIZE_MAX - 15 then Some (rounded n) else None)"
  using arena_align_up_Some [of n] by (cases "arena_align_up n") (auto simp: rounded_def)

lemma rounded_facts: "n \<le> rounded n" "16 dvd rounded n" "rounded (rounded n) = rounded n"
proof -
  show "16 dvd rounded n" by (simp add: rounded_def)
  have "n + 15 = (n + 15) div 16 * 16 + (n + 15) mod 16" "(n + 15) mod 16 \<le> 15" by simp_all
  then show "n \<le> rounded n" unfolding rounded_def by linarith
  show "rounded (rounded n) = rounded n" by (simp add: rounded_def)
qed

lemma rounded_pos: "0 < n \<Longrightarrow> 0 < rounded n"
  using rounded_facts(1) [of n] by simp

lemma rounded_bound: "n \<le> SIZE_MAX - 15 \<Longrightarrow> rounded n \<le> SIZE_MAX - 15"
proof -
  assume "n \<le> SIZE_MAX - 15"
  then have "(n + 15) div 16 \<le> (SIZE_MAX - 15 + 15) div 16" by (intro div_le_mono) simp
  also have "\<dots> = 1152921504606846975" by (simp add: SIZE_MAX_def)
  finally show ?thesis by (simp add: rounded_def SIZE_MAX_def)
qed

section \<open>The invariant\<close>

definition block_ok :: "arena_block \<Rightarrow> bool" where
  "block_ok b \<longleftrightarrow> used b \<le> capacity b \<and> capacity b \<le> SIZE_MAX \<and> 16 dvd used b"

text \<open>Blocks after the current one are empty: they are there to be reused.\<close>

definition arena_inv :: "arena \<Rightarrow> bool" where
  "arena_inv a \<longleftrightarrow>
     current a < length (blocks a) \<and> (\<forall>b\<in>set (blocks a). block_ok b) \<and>
     (\<forall>i<length (blocks a). current a < i \<longrightarrow> used (blocks a ! i) = 0)"

definition in_use :: "arena \<Rightarrow> arena_ptr set" where
  "in_use a = {(i, k). i < length (blocks a) \<and> k < used (blocks a ! i)}"

definition byte_at :: "arena \<Rightarrow> arena_ptr \<Rightarrow> char" where
  "byte_at a x = payload (blocks a ! fst x) (snd x)"

definition region :: "arena_ptr \<Rightarrow> nat \<Rightarrow> arena_ptr set" where
  "region p n = {fst p} \<times> {snd p..<snd p + n}"

lemma arena_inv_block: "arena_inv a \<Longrightarrow> i < length (blocks a) \<Longrightarrow> block_ok (blocks a ! i)"
  by (simp add: arena_inv_def)

lemma arena_block_create_ok:
  "arena_block_create m cap = Some b \<Longrightarrow> capacity b = cap \<and> used b = 0 \<and> block_ok b"
  by (auto simp: arena_block_create_def arena_add_overflow_def block_ok_def SIZEOF_BLOCK_def
      split: if_splits option.splits)

lemma alloc_in_eq:
  assumes "block_ok (blocks a ! i)" "n \<le> SIZE_MAX - 15"
  shows "alloc_in i (rounded n) a =
    (let b = blocks a ! i in
     if used b + rounded n \<le> capacity b
     then (Some (i, used b), a\<lparr>blocks := (blocks a)[i := b\<lparr>used := used b + rounded n\<rparr>]\<rparr>)
     else (None, a))"
  using assms rounded_bound [OF assms(2)]
  by (auto simp: alloc_in_def arena_alloc_from_block_def arena_align_up_eq rounded_facts arena_add_overflow_def
      block_ok_def Let_def)

lemma find_reusable_Some:
  "arena_find_reusable_block bs s = Some k \<Longrightarrow> k < length bs \<and> used (bs ! k) + s \<le> capacity (bs ! k)"
  by (induction bs arbitrary: k) (auto split: if_splits)

lemma new_block_capacity_ge: "rounded n \<le> new_block_capacity a (rounded n)"
  by (auto simp: new_block_capacity_def Let_def)

text \<open>
  What an allocation does, in one equation: it takes the next bytes of the current block, of a
  later one, or of a new one at the end, and makes that block current.
\<close>

definition takes :: "arena \<Rightarrow> nat \<Rightarrow> arena_ptr \<Rightarrow> arena \<Rightarrow> bool" where
  "takes a n p a' \<longleftrightarrow>
     0 < n \<and> n \<le> SIZE_MAX - 15 \<and>
     (\<exists>bs. (bs = blocks a \<or> (\<exists>b. bs = blocks a @ [b] \<and> used b = 0 \<and> block_ok b)) \<and>
        current a \<le> fst p \<and> fst p < length bs \<and> snd p = used (bs ! fst p) \<and>
        (current a < fst p \<longrightarrow> snd p = 0) \<and>
        snd p + rounded n \<le> capacity (bs ! fst p) \<and>
        a' = a\<lparr>blocks := bs[fst p := (bs ! fst p)\<lparr>used := snd p + rounded n\<rparr>], current := fst p\<rparr>)"

lemma alloc_new_block_takes:
  assumes inv: "arena_inv a" and n: "0 < n" "n \<le> SIZE_MAX - 15"
  shows "case alloc_new_block m (rounded n) a of
      (Some p, a') \<Rightarrow> takes a n p a'
    | (None, a') \<Rightarrow> a' = a \<and> arena_block_create m (new_block_capacity a (rounded n)) = None"
proof (cases "arena_block_create m (new_block_capacity a (rounded n))")
  case None
  then show ?thesis by (simp add: alloc_new_block_def)
next
  case (Some b)
  note b = arena_block_create_ok [OF Some]
  let ?bs = "blocks a @ [b]"
  let ?a = "a\<lparr>blocks := ?bs, current := length (blocks a)\<rparr>"
  have "alloc_in (length (blocks a)) (rounded n) ?a =
      (Some (length (blocks a), 0), ?a\<lparr>blocks := ?bs[length (blocks a) := b\<lparr>used := rounded n\<rparr>]\<rparr>)"
    using b new_block_capacity_ge [of n a] n by (subst alloc_in_eq) (auto simp: nth_append)
  moreover have "takes a n (length (blocks a), 0) (?a\<lparr>blocks := ?bs[length (blocks a) := b\<lparr>used := rounded n\<rparr>]\<rparr>)"
    unfolding takes_def using n b inv new_block_capacity_ge [of n a]
    by (intro conjI exI [of _ ?bs]) (auto simp: arena_inv_def nth_append)
  ultimately show ?thesis by (simp add: alloc_new_block_def Some)
qed

lemma arena_alloc_takes:
  assumes inv: "arena_inv a"
  shows "case arena_alloc m a n of
      (Some p, a') \<Rightarrow> takes a n p a'
    | (None, a') \<Rightarrow> a' = a \<and>
        (n = 0 \<or> SIZE_MAX - 15 < n \<or> arena_block_create m (new_block_capacity a (rounded n)) = None)"
proof (cases "n = 0 \<or> SIZE_MAX - 15 < n")
  case True
  then show ?thesis by (auto simp: arena_alloc_def arena_align_up_eq)
next
  case False
  then have n: "0 < n" "n \<le> SIZE_MAX - 15" by simp_all
  have cur: "current a < length (blocks a)" using inv by (simp add: arena_inv_def)
  let ?b = "blocks a ! current a"
  note in_cur = alloc_in_eq [OF arena_inv_block [OF inv cur] n(2), unfolded Let_def]
  show ?thesis
  proof (cases "used ?b + rounded n \<le> capacity ?b")
    case True
    have "takes a n (current a, used ?b) (a\<lparr>blocks := (blocks a)[current a := ?b\<lparr>used := used ?b + rounded n\<rparr>]\<rparr>)"
      unfolding takes_def using n cur True by (intro conjI exI [of _ "blocks a"]) auto
    then show ?thesis using n True by (simp add: arena_alloc_def arena_align_up_eq in_cur)
  next
    case full: False
    show ?thesis
    proof (cases "arena_find_reusable_block (drop (Suc (current a)) (blocks a)) (rounded n)")
      case None
      then show ?thesis using n full alloc_new_block_takes [OF inv n, of m]
        by (auto simp: arena_alloc_def arena_align_up_eq in_cur split: prod.splits option.splits)
    next
      case (Some k)
      let ?i = "Suc (current a) + k"
      have i: "?i < length (blocks a)" "used (blocks a ! ?i) + rounded n \<le> capacity (blocks a ! ?i)"
        using find_reusable_Some [OF Some] by (auto simp: less_diff_conv)
      then have z: "used (blocks a ! ?i) = 0" using inv by (simp add: arena_inv_def)
      have "alloc_in ?i (rounded n) (a\<lparr>current := ?i\<rparr>) =
          (Some (?i, 0), a\<lparr>current := ?i, blocks := (blocks a)[?i := (blocks a ! ?i)\<lparr>used := rounded n\<rparr>]\<rparr>)"
        using i z n arena_inv_block [OF inv i(1)] by (subst alloc_in_eq) auto
      moreover have "takes a n (?i, 0)
          (a\<lparr>current := ?i, blocks := (blocks a)[?i := (blocks a ! ?i)\<lparr>used := rounded n\<rparr>]\<rparr>)"
        unfolding takes_def using n i z by (intro conjI exI [of _ "blocks a"]) auto
      ultimately show ?thesis using n full Some by (simp add: arena_alloc_def arena_align_up_eq in_cur)
    qed
  qed
qed

section \<open>What an allocation means\<close>

text \<open>
  The frame: the bytes in use before stay in use and keep their values, the blocks before the
  current one are as they were. This is what a mark relies on.
\<close>

definition extends :: "arena \<Rightarrow> arena \<Rightarrow> bool" where
  "extends a a' \<longleftrightarrow>
     current a \<le> current a' \<and> length (blocks a) \<le> length (blocks a') \<and>
     (\<forall>i<length (blocks a). capacity (blocks a' ! i) = capacity (blocks a ! i)) \<and>
     (\<forall>i<current a. used (blocks a' ! i) = used (blocks a ! i)) \<and>
     used (blocks a ! current a) \<le> used (blocks a' ! current a) \<and>
     (\<forall>x\<in>in_use a. byte_at a' x = byte_at a x)"

lemma extends_refl: "extends a a"
  by (simp add: extends_def)

lemma in_use_iff: "(i, k) \<in> in_use a \<longleftrightarrow> i < length (blocks a) \<and> k < used (blocks a ! i)"
  by (simp add: in_use_def)

lemma extends_in_use: "arena_inv a \<Longrightarrow> extends a a' \<Longrightarrow> in_use a \<subseteq> in_use a'"
proof
  fix x
  assume inv: "arena_inv a" and ext: "extends a a'" and x: "x \<in> in_use a"
  obtain i k where ik: "x = (i, k)" by (cases x)
  then have i: "i < length (blocks a)" "k < used (blocks a ! i)" using x by (simp_all add: in_use_iff)
  then have "i \<le> current a" using inv by (force simp: arena_inv_def not_le)
  then have "used (blocks a ! i) \<le> used (blocks a' ! i)" using ext by (auto simp: extends_def le_less)
  then show "x \<in> in_use a'" using i ext by (simp add: ik in_use_iff extends_def)
qed

lemma extends_trans:
  assumes inv: "arena_inv a" "arena_inv b" and ab: "extends a b" and bc: "extends b c"
  shows "extends a c"
proof -
  have cur: "current a < length (blocks a)" using inv(1) by (simp add: arena_inv_def)
  have "used (blocks b ! current a) \<le> used (blocks c ! current a)"
    using ab bc by (cases "current a = current b") (simp_all add: extends_def)
  then have "used (blocks a ! current a) \<le> used (blocks c ! current a)"
    using ab by (simp add: extends_def)
  moreover have "byte_at c x = byte_at a x" if x: "x \<in> in_use a" for x
  proof -
    have "x \<in> in_use b" using x extends_in_use [OF inv(1) ab] by blast
    then have "byte_at c x = byte_at b x" using bc by (simp add: extends_def)
    also have "\<dots> = byte_at a x" using x ab by (simp add: extends_def)
    finally show ?thesis .
  qed
  moreover have "\<forall>i<current a. used (blocks c ! i) = used (blocks a ! i)"
    "\<forall>i<length (blocks a). capacity (blocks c ! i) = capacity (blocks a ! i)"
    "current a \<le> current c" "length (blocks a) \<le> length (blocks c)"
    using ab bc by (simp_all add: extends_def)
  ultimately show ?thesis by (simp add: extends_def)
qed

lemma takes_facts:
  assumes inv: "arena_inv a" and t: "takes a n p a'"
  shows "arena_inv a'" and "extends a a'"
    and "in_use a' = in_use a \<union> region p (rounded n)" and "in_use a \<inter> region p (rounded n) = {}"
    and "cleanups a' = cleanups a" and "16 dvd snd p" and "ran a' = ran a"
proof -
  from t obtain bs where bs: "bs = blocks a \<or> (\<exists>b. bs = blocks a @ [b] \<and> used b = 0 \<and> block_ok b)"
    and p: "current a \<le> fst p" "fst p < length bs" "snd p = used (bs ! fst p)"
      "current a < fst p \<longrightarrow> snd p = 0" "snd p + rounded n \<le> capacity (bs ! fst p)"
    and a': "a' = a\<lparr>blocks := bs[fst p := (bs ! fst p)\<lparr>used := snd p + rounded n\<rparr>], current := fst p\<rparr>"
    unfolding takes_def by blast
  have cur: "current a < length (blocks a)" using inv by (simp add: arena_inv_def)
  have ok: "\<forall>b\<in>set bs. block_ok b" using bs inv by (auto simp: arena_inv_def)
  have old: "i < length (blocks a) \<Longrightarrow> bs ! i = blocks a ! i" for i using bs by (auto simp: nth_append)
  have len: "length (blocks a) \<le> length bs" using bs by auto
  have later: "used (bs ! i) = 0" if "i < length bs" "current a < i" for i
    using bs that inv by (auto simp: arena_inv_def nth_append less_Suc_eq)
  have okp: "block_ok (bs ! fst p)" using ok p(2) by simp
  show al: "16 dvd snd p" using okp by (simp add: block_ok_def p(3))
  show "arena_inv a'"
  proof -
    have "block_ok ((bs ! fst p)\<lparr>used := snd p + rounded n\<rparr>)"
      using okp p(5) al rounded_facts(2) [of n] by (simp add: block_ok_def)
    then have "\<forall>i<length bs. block_ok (bs[fst p := (bs ! fst p)\<lparr>used := snd p + rounded n\<rparr>] ! i)"
      using ok p(2) by (auto simp: nth_list_update)
    moreover have "used (bs[fst p := (bs ! fst p)\<lparr>used := snd p + rounded n\<rparr>] ! i) = 0"
      if "i < length bs" "fst p < i" for i
      using later that p(1) by simp
    ultimately show ?thesis using p(2) by (simp add: arena_inv_def a' all_set_conv_all_nth)
  qed
  have use': "in_use a' = {(i, k). i < length bs \<and> k < (if i = fst p then snd p + rounded n else used (bs ! i))}"
    using p(2) by (auto simp: in_use_def a' nth_list_update split: if_splits)
  have use: "in_use a = {(i, k). i < length bs \<and> k < used (bs ! i)}"
    using bs by (auto simp: in_use_def nth_append less_Suc_eq)
  show "in_use a' = in_use a \<union> region p (rounded n)"
    unfolding use' use region_def using p(2,3) by (cases p) (auto split: if_splits)
  show "in_use a \<inter> region p (rounded n) = {}"
    unfolding use region_def using p(3) by auto
  show "cleanups a' = cleanups a" "ran a' = ran a" by (simp_all add: a')
  have "byte_at a' x = byte_at a x" if "x \<in> in_use a" for x
    using that old p(2) by (auto simp: byte_at_def a' in_use_def nth_list_update)
  then show "extends a a'"
    using p old len cur by (auto simp: extends_def a' nth_list_update)
qed

end
