(* ===== verification/Arena_Props.thy ===== *)
theory Arena_Props
  imports Arena_Facts
begin

text \<open>
  What a client of the arena may rely on: an allocation is fresh, aligned and disjoint from
  everything in use; a rewind to a mark gives back exactly the bytes, the position and the
  cleanups there were when the mark was taken; a resized allocation keeps its contents.
\<close>

section \<open>Writing\<close>

lemma write_bytes_simps [simp]:
  "length (blocks (write_bytes p xs a)) = length (blocks a)"
  "current (write_bytes p xs a) = current a"
  "cleanups (write_bytes p xs a) = cleanups a"
  "ran (write_bytes p xs a) = ran a"
  by (simp_all add: write_bytes_def Let_def)

lemma write_bytes_block:
  "i < length (blocks a) \<Longrightarrow>
   used (blocks (write_bytes p xs a) ! i) = used (blocks a ! i) \<and>
   capacity (blocks (write_bytes p xs a) ! i) = capacity (blocks a ! i)"
  by (cases "fst p = i") (simp_all add: write_bytes_def Let_def)

lemma write_bytes_in_use [simp]: "in_use (write_bytes p xs a) = in_use a"
  by (auto simp: in_use_def write_bytes_block)

lemma write_bytes_inv: "arena_inv a \<Longrightarrow> arena_inv (write_bytes p xs a)"
  by (simp add: arena_inv_def all_set_conv_all_nth block_ok_def write_bytes_block)

lemma byte_at_write:
  assumes "fst p < length (blocks a)"
  shows "byte_at (write_bytes p xs a) x =
    (if x \<in> region p (length xs) then xs ! (snd x - snd p) else byte_at a x)"
  using assms by (cases x; cases p) (auto simp: byte_at_def write_bytes_def region_def Let_def nth_list_update)

lemma byte_at_write_other:
  assumes "x \<notin> region p (length xs)"
  shows "byte_at (write_bytes p xs a) x = byte_at a x"
proof (cases "fst p < length (blocks a)")
  case True
  then show ?thesis using assms by (simp add: byte_at_write)
next
  case False
  then show ?thesis by (simp add: byte_at_def write_bytes_def Let_def list_update_beyond)
qed

lemma extends_write:
  assumes inv: "arena_inv a" and ext: "extends a b" and dis: "region p (length xs) \<inter> in_use a = {}"
  shows "extends a (write_bytes p xs b)"
proof -
  have len: "length (blocks a) \<le> length (blocks b)" "current a < length (blocks a)"
    using inv ext by (simp_all add: extends_def arena_inv_def)
  have "byte_at (write_bytes p xs b) x = byte_at a x" if "x \<in> in_use a" for x
    using that dis ext byte_at_write_other [of x p xs b] by (auto simp: extends_def)
  then show ?thesis using ext len by (simp add: extends_def write_bytes_block)
qed

section \<open>Cleanups and rewinding\<close>

definition cleanups_ok :: "arena \<Rightarrow> bool" where
  "cleanups_ok a \<longleftrightarrow>
     (\<forall>c\<in>set (cleanups a). node_at c \<in> in_use a) \<and> distinct (map node_at (cleanups a))"

abbreviation ran_of :: "cleanup_node list \<Rightarrow> (nat \<times> nat) list" where
  "ran_of cs \<equiv> map (\<lambda>c. (node_fn c, node_data c)) cs"

lemma cleanups_until_None: "cleanups_until None cs = (ran_of cs, [])"
  by (induction cs) auto

lemma cleanups_until_split:
  "distinct (map node_at (new @ c # cs)) \<Longrightarrow>
   cleanups_until (Some (node_at c)) (new @ c # cs) = (ran_of new, c # cs)"
  by (induction new) auto

lemma run_cleanups_to_head:
  assumes "cleanups c = new @ cleanups b" "cleanups_ok c"
  shows "arena_run_cleanups_until (cleanup_head b) c = c\<lparr>cleanups := cleanups b, ran := ran c @ ran_of new\<rparr>"
proof (cases "cleanups b")
  case Nil
  then show ?thesis using assms(1)
    by (simp add: arena_run_cleanups_until_def cleanup_head_def cleanups_until_None)
next
  case (Cons x xs)
  then have "distinct (map node_at (new @ x # xs))" using assms by (simp add: cleanups_ok_def)
  from cleanups_until_split [OF this] show ?thesis using assms(1) Cons
    by (simp add: arena_run_cleanups_until_def cleanup_head_def)
qed

text \<open>Rewinding an arena that extends the marked one.\<close>

lemma rewind_facts:
  assumes inv: "arena_inv b" and ext: "extends b c" and inv': "arena_inv c"
    and cl: "cleanups c = new @ cleanups b" "cleanups_ok c"
  defines "d \<equiv> arena_rewind c (arena_mark b)"
  shows "current d = current b" and "in_use d = in_use b" and "cleanups d = cleanups b"
    and "ran d = ran c @ ran_of new" and "arena_inv d" and "extends b d"
proof -
  let ?k = "current b"
  let ?bs = "blocks c"
  have k: "?k < length (blocks b)" using inv by (simp add: arena_inv_def)
  have len: "length (blocks b) \<le> length ?bs" and k': "?k < length ?bs" using ext k by (simp_all add: extends_def)
  have okb: "block_ok (blocks b ! ?k)" by (rule arena_inv_block [OF inv k])
  have cap: "capacity (?bs ! ?k) = capacity (blocks b ! ?k)" using ext k by (simp add: extends_def)
  define nb where "nb = take ?k ?bs @ (?bs ! ?k)\<lparr>used := used (blocks b ! ?k)\<rparr> # map (\<lambda>x. x\<lparr>used := 0\<rparr>) (drop (Suc ?k) ?bs)"
  have d: "d = c\<lparr>cleanups := cleanups b, ran := ran c @ ran_of new, blocks := nb, current := ?k\<rparr>"
    using k' okb cap unfolding d_def arena_rewind_def
    by (simp add: arena_mark_def run_cleanups_to_head [OF cl] Let_def block_ok_def nb_def)
  have at: "nb ! i = (if i < ?k then ?bs ! i
      else if i = ?k then (?bs ! ?k)\<lparr>used := used (blocks b ! ?k)\<rparr> else (?bs ! i)\<lparr>used := 0\<rparr>)"
    if "i < length ?bs" for i
    using that k' by (auto simp: nb_def nth_append nth_Cons')
  have before: "used (?bs ! i) = used (blocks b ! i)" if "i < ?k" for i using ext that by (simp add: extends_def)
  have after: "used (blocks b ! i) = 0" if "i < length (blocks b)" "?k < i" for i
    using inv that by (simp add: arena_inv_def)
  have lnew: "length nb = length ?bs" using k' by (simp add: nb_def)
  have same: "used (nb ! i) = used (blocks b ! i)" if "i < length (blocks b)" for i
    using at [of i] that len before after by (cases "i < ?k"; cases "i = ?k") auto
  have zero: "used (nb ! i) = 0" if "?k < i" "i < length ?bs" for i using at [of i] that by simp
  show cur: "current d = ?k" and "cleanups d = cleanups b" and "ran d = ran c @ ran_of new"
    by (simp_all add: d)
  show use: "in_use d = in_use b"
  proof (intro equalityI subsetI)
    fix x assume "x \<in> in_use d"
    then obtain i j where x: "x = (i, j)" "i < length ?bs" "j < used (nb ! i)"
      using lnew by (cases x) (simp add: d in_use_iff)
    have "i < length (blocks b)" using x(2,3) zero [of i] k by (cases "?k < i") auto
    then show "x \<in> in_use b" using x same by (simp add: in_use_iff)
  next
    fix x assume "x \<in> in_use b"
    then show "x \<in> in_use d" using same lnew len by (cases x) (simp add: d in_use_iff)
  qed
  have okd: "block_ok (nb ! i)" if "i < length ?bs" for i
    using at [OF that] arena_inv_block [OF inv' that] okb cap by (auto simp: block_ok_def)
  then show "arena_inv d"
    using zero k' lnew by (simp add: arena_inv_def d all_set_conv_all_nth)
  have pay: "payload (nb ! i) = payload (?bs ! i)" if "i < length ?bs" for i using at [OF that] by simp
  have capd: "capacity (nb ! i) = capacity (?bs ! i)" if "i < length ?bs" for i using at [OF that] by simp
  have "byte_at d x = byte_at b x" if "x \<in> in_use b" for x
  proof -
    have i: "fst x < length ?bs" using that len by (cases x) (simp add: in_use_iff)
    have "byte_at d x = byte_at c x" by (simp add: byte_at_def d pay [OF i])
    also have "\<dots> = byte_at b x" using ext that by (simp add: extends_def)
    finally show ?thesis .
  qed
  moreover have "\<forall>i<length (blocks b). capacity (blocks d ! i) = capacity (blocks b ! i)"
    using capd ext len by (auto simp: d extends_def)
  moreover have "length (blocks d) = length ?bs" using lnew by (simp add: d)
  ultimately show "extends b d" using same k len by (simp add: extends_def cur) (simp add: d)
qed

section \<open>Resizing\<close>

lemma region_mono: "n \<le> k \<Longrightarrow> region p n \<subseteq> region p k"
  by (auto simp: region_def)

lemma region_in_use:
  "0 < n \<Longrightarrow> region p n \<subseteq> in_use a \<longleftrightarrow> fst p < length (blocks a) \<and> snd p + n \<le> used (blocks a ! fst p)"
proof -
  assume n: "0 < n"
  show ?thesis
  proof
    assume s: "region p n \<subseteq> in_use a"
    have "(fst p, snd p + (n - 1)) \<in> region p n" using n by (simp add: region_def)
    with s show "fst p < length (blocks a) \<and> snd p + n \<le> used (blocks a ! fst p)" by (auto simp: in_use_def)
  qed (auto simp: region_def in_use_def)
qed

lemma find_block_from_Some:
  "find_block_from i bs p = (if i \<le> fst p \<and> fst p < i + length bs \<and> snd p \<le> used (bs ! (fst p - i))
     then Some (fst p) else None)"
proof (induction bs arbitrary: i)
  case (Cons b bs)
  show ?case by (cases "i < fst p") (auto simp: Cons.IH nth_Cons' Suc_diff_Suc)
qed simp

lemma copy_old_eq:
  assumes "region p n \<subseteq> in_use a" "0 < n" "old \<le> n" "0 < old" "0 < new"
  shows "copy_old p q old new a = write_bytes q (read_bytes a p (min old new)) a"
proof -
  have p: "fst p < length (blocks a)" "snd p + n \<le> used (blocks a ! fst p)"
    using assms(1) region_in_use [OF assms(2)] by auto
  then have "arena_find_block_for_ptr a p = Some (fst p)"
    by (simp add: arena_find_block_for_ptr_def find_block_from_Some)
  then show ?thesis using p assms(3-) by (auto simp: copy_old_def min_def Let_def)
qed

lemma read_bytes_nth: "i < n \<Longrightarrow> read_bytes a p n ! i = byte_at a (fst p, snd p + i)"
  by (simp add: read_bytes_def byte_at_def)

lemma length_read_bytes [simp]: "length (read_bytes a p n) = n"
  by (simp add: read_bytes_def)

text \<open>What resizing the bytes at \<open>p\<close> promises.\<close>

definition resized :: "arena \<Rightarrow> arena_ptr \<Rightarrow> nat \<Rightarrow> nat \<Rightarrow> arena_ptr \<Rightarrow> arena \<Rightarrow> bool" where
  "resized a p old new q b \<longleftrightarrow>
     (let others = in_use a - region p (rounded old) in
      arena_inv b \<and> others \<subseteq> in_use b \<and> (\<forall>x\<in>others. byte_at b x = byte_at a x) \<and>
      region q (rounded new) \<subseteq> in_use b \<and> region q (rounded new) \<inter> others = {} \<and>
      (\<forall>i<min old new. byte_at b (fst q, snd q + i) = byte_at a (fst p, snd p + i)) \<and>
      cleanups b = cleanups a)"

lemma resize_in_place_resized:
  assumes inv: "arena_inv a" and n: "0 < new" and r: "resize_in_place a p (rounded old) (rounded new) = Some b"
  shows "resized a p old new p b"
proof -
  let ?k = "current a"
  let ?b = "blocks a ! ?k"
  let ?b' = "?b\<lparr>used := used ?b - rounded old + rounded new\<rparr>"
  have k: "?k < length (blocks a)" using inv by (simp add: arena_inv_def)
  have p: "rounded old \<le> used ?b" "p = (?k, used ?b - rounded old)"
      "rounded new \<le> capacity ?b - (used ?b - rounded old)"
    and b: "b = a\<lparr>blocks := (blocks a)[?k := ?b']\<rparr>"
    using r by (auto simp: resize_in_place_def Let_def split: if_splits)
  have okb: "block_ok ?b" by (rule arena_inv_block [OF inv k])
  have "block_ok ?b'"
    using okb p rounded_facts(2) [of old] rounded_facts(2) [of new] by (auto simp: block_ok_def)
  then have "\<forall>i<length (blocks a). block_ok ((blocks a)[?k := ?b'] ! i)"
    using arena_inv_block [OF inv] by (metis nth_list_update_eq nth_list_update_neq)
  then have "arena_inv b" using inv by (simp add: arena_inv_def b all_set_conv_all_nth)
  moreover have "in_use b = in_use a - region p (rounded old) \<union> region p (rounded new)"
    using k p(1) rounded_facts(1) [of new]
    by (auto simp: in_use_def b p(2) region_def nth_list_update split: if_splits)
  moreover have "region p (rounded new) \<inter> (in_use a - region p (rounded old)) = {}"
    using p(1) by (auto simp: in_use_def p(2) region_def)
  moreover have "byte_at b x = byte_at a x" for x
    using k by (cases "fst x = ?k") (simp_all add: byte_at_def b)
  ultimately show ?thesis by (simp add: resized_def b)
qed

lemma takes_resized:
  assumes inv: "arena_inv a" and n: "0 < new" and p: "region p (rounded old) \<subseteq> in_use a"
    and t: "takes a (rounded new) q b"
  shows "resized a p old new q (if old > 0 then copy_old p q old new b else b)"
proof (cases "old = 0")
  case True
  then show ?thesis using takes_facts [OF inv t, unfolded rounded_facts]
    by (auto simp: resized_def Let_def extends_def region_def rounded_def)
next
  case old: False
  then have n: "0 < new" "0 < old" using n by simp_all
  note tf = takes_facts [OF inv t, unfolded rounded_facts]
  have use: "in_use a \<subseteq> in_use b" using tf(3) by blast
  then have pb: "region p (rounded old) \<subseteq> in_use b" using p by blast
  let ?xs = "read_bytes b p (min old new)"
  have eq: "copy_old p q old new b = write_bytes q ?xs b"
    by (rule copy_old_eq [OF pb rounded_pos [OF n(2)] rounded_facts(1) n(2,1)])
  have "region q (length ?xs) \<subseteq> region q (rounded new)"
    using rounded_facts(1) [of new] by (intro region_mono) simp
  then have dis: "region q (length ?xs) \<inter> in_use a = {}" using tf(4) by blast
  have "fst q < length (blocks b)" using region_in_use [OF rounded_pos [OF n(1)], of q b] tf(3) by auto
  then have "byte_at (write_bytes q ?xs b) (fst q, snd q + i) = byte_at b (fst p, snd p + i)"
    if "i < min old new" for i
    using that by (simp add: byte_at_write region_def read_bytes_nth)
  moreover have "byte_at b (fst p, snd p + i) = byte_at a (fst p, snd p + i)" if "i < min old new" for i
  proof -
    have "(fst p, snd p + i) \<in> region p (rounded old)"
      using that rounded_facts(1) [of old] by (simp add: region_def)
    then show ?thesis using p tf(2) by (auto simp: extends_def)
  qed
  moreover have "byte_at (write_bytes q ?xs b) x = byte_at a x" if "x \<in> in_use a" for x
    using that byte_at_write_other [of x q ?xs b] dis tf(2) by (auto simp: extends_def)
  ultimately show ?thesis using write_bytes_inv [OF tf(1)] tf(3,4,5) unfolding eq
    using n by (auto simp: resized_def Let_def)
qed

lemma realloc_last_resized:
  assumes inv: "arena_inv a" and p: "region p (rounded old) \<subseteq> in_use a"
  shows "case arena_realloc_last m a (Some p) old new of
      (Some q, b) \<Rightarrow> 0 < new \<and> resized a p old new q b | (None, b) \<Rightarrow> b = a"
proof (cases "new = 0 \<or> SIZE_MAX - 15 < new \<or> SIZE_MAX - 15 < old")
  case True
  then show ?thesis by (auto simp: arena_realloc_last_def arena_align_up_eq)
next
  case False
  then have new: "0 < new" and al: "arena_align_up old = Some (rounded old)" "arena_align_up new = Some (rounded new)"
    by (simp_all add: arena_align_up_eq)
  show ?thesis
  proof (cases "resize_in_place a p (rounded old) (rounded new)")
    case (Some b)
    then show ?thesis using new al resize_in_place_resized [OF inv new Some]
      by (simp add: arena_realloc_last_def)
  next
    case None
    then show ?thesis
      using new al takes_resized [OF inv new p] arena_alloc_takes [OF inv, where m = m and n = "rounded new"]
      by (auto simp: arena_realloc_last_def split: prod.splits option.splits)
  qed
qed

section \<open>Scopes\<close>

text \<open>
  What the code between a mark and its rewind does to the arena: it allocates, registers
  cleanups, resizes and writes to what it has allocated itself (the nodes of the cleanups are
  not its own), and opens scopes.
\<close>

inductive uses :: "malloc \<Rightarrow> arena \<Rightarrow> arena \<Rightarrow> bool" for m where
  uses_nothing: "uses m a a"
| uses_alloc: "uses m a b \<Longrightarrow> uses m a (snd (arena_alloc m b n))"
| uses_on_destroy: "uses m a b \<Longrightarrow> uses m a (snd (arena_on_destroy m b fn dt))"
| uses_realloc: "uses m a b \<Longrightarrow> region p (rounded old) \<subseteq> in_use b - in_use a \<Longrightarrow>
    \<forall>c\<in>set (cleanups b). node_at c \<notin> region p (rounded old) \<Longrightarrow>
    uses m a (snd (arena_realloc_last m b (Some p) old new))"
| uses_write: "uses m a b \<Longrightarrow> region p (length xs) \<inter> in_use a = {} \<Longrightarrow> uses m a (write_bytes p xs b)"
| uses_scope: "uses m a b \<Longrightarrow> uses m b c \<Longrightarrow> uses m a (arena_rewind c (arena_mark b))"

text \<open>What holds of an arena after such a use, with the cleanups it has added.\<close>

definition scoped :: "arena \<Rightarrow> arena \<Rightarrow> bool" where
  "scoped a b \<longleftrightarrow> arena_inv b \<and> cleanups_ok b \<and> extends a b \<and> (\<exists>new. cleanups b = new @ cleanups a)"

lemma extends_cong:
  "blocks b' = blocks b \<Longrightarrow> current b' = current b \<Longrightarrow> extends a b \<Longrightarrow> extends a b'"
  by (simp add: extends_def byte_at_def)

lemma inv_cong: "blocks b' = blocks b \<Longrightarrow> current b' = current b \<Longrightarrow> arena_inv b \<Longrightarrow> arena_inv b'"
  by (simp add: arena_inv_def)

lemma in_use_cleanups [simp]: "in_use (a\<lparr>cleanups := cs\<rparr>) = in_use a"
  by (simp add: in_use_def)

lemma cleanups_ok_mono: "cleanups_ok a \<Longrightarrow> cleanups b = cleanups a \<Longrightarrow> in_use a \<subseteq> in_use b \<Longrightarrow> cleanups_ok b"
  by (auto simp: cleanups_ok_def)

lemma takes_scoped:
  assumes "arena_inv a" "arena_inv b" "scoped a b" "takes b n p c"
  shows "scoped a c"
proof -
  note t = takes_facts [OF assms(2,4)]
  have "extends a c" using extends_trans [OF assms(1,2) _ t(2)] assms(3) by (simp add: scoped_def)
  moreover have "cleanups_ok c"
    using assms(3) t(3,5) by (auto simp: scoped_def intro: cleanups_ok_mono [of b])
  ultimately show ?thesis using assms(3) t(1,5) by (simp add: scoped_def)
qed

lemma alloc_scoped:
  assumes "arena_inv a" "scoped a b"
  shows "scoped a (snd (arena_alloc m b n))"
proof -
  have b: "arena_inv b" using assms(2) by (simp add: scoped_def)
  show ?thesis using arena_alloc_takes [OF b, where m = m and n = n] assms takes_scoped [OF assms(1) b assms(2)]
    by (auto split: prod.splits option.splits)
qed

lemma on_destroy_scoped:
  assumes "arena_inv a" "scoped a b"
  shows "scoped a (snd (arena_on_destroy m b fn dt))"
proof (cases "fn = 0")
  case True
  then show ?thesis using assms(2) by (simp add: arena_on_destroy_def)
next
  case False
  obtain r c where Pair: "arena_alloc m b SIZEOF_CLEANUP = (r, c)" by (cases "arena_alloc m b SIZEOF_CLEANUP")
  have b: "arena_inv b" "cleanups_ok b" using assms(2) by (simp_all add: scoped_def)
  show ?thesis
  proof (cases r)
    case None
    then show ?thesis
      using assms(2) False Pair arena_alloc_takes [OF b(1), where m = m and n = SIZEOF_CLEANUP] by (simp add: arena_on_destroy_def)
  next
    case (Some p)
    then have t: "takes b SIZEOF_CLEANUP p c"
      using Pair arena_alloc_takes [OF b(1), where m = m and n = SIZEOF_CLEANUP] by simp
    note tf = takes_facts [OF b(1) t]
    let ?c = "c\<lparr>cleanups := \<lparr>node_at = p, node_fn = fn, node_data = dt\<rparr> # cleanups c\<rparr>"
    have "p \<in> region p (rounded SIZEOF_CLEANUP)"
      by (cases p) (simp add: region_def rounded_def SIZEOF_CLEANUP_def)
    then have "p \<in> in_use c" "p \<notin> in_use b" using tf(3,4) by blast+
    then have "cleanups_ok ?c"
      using b(2) tf(3,5) by (auto simp: cleanups_ok_def)
    moreover have "scoped a c" by (rule takes_scoped [OF assms(1) b(1) assms(2) t])
    then have "arena_inv ?c" "extends a ?c"
      by (auto simp: scoped_def intro: inv_cong [of ?c c] extends_cong [of ?c c])
    ultimately show ?thesis using assms(2) tf(5) Pair Some False by (auto simp: scoped_def arena_on_destroy_def)
  qed
qed

lemma write_scoped:
  assumes "arena_inv a" "scoped a b" "region p (length xs) \<inter> in_use a = {}"
  shows "scoped a (write_bytes p xs b)"
  using assms extends_write [of a b p xs] write_bytes_inv [of b p xs]
  by (auto simp: scoped_def cleanups_ok_def)

lemma resize_in_place_extends:
  assumes ext: "extends a b" and inv: "arena_inv b" and own: "region p (rounded old) \<inter> in_use a = {}"
    and a: "arena_inv a" and r: "resize_in_place b p (rounded old) (rounded new) = Some c"
  shows "extends a c"
proof -
  let ?k = "current b"
  let ?u = "used (blocks b ! ?k)"
  have k: "?k < length (blocks b)" using inv by (simp add: arena_inv_def)
  have p: "rounded old \<le> ?u" "p = (?k, ?u - rounded old)"
    and c: "c = b\<lparr>blocks := (blocks b)[?k := (blocks b ! ?k)\<lparr>used := ?u - rounded old + rounded new\<rparr>]\<rparr>"
    using r by (auto simp: resize_in_place_def Let_def split: if_splits)
  have "used (blocks a ! ?k) \<le> ?u - rounded old" if "current a = ?k"
  proof (cases "rounded old = 0")
    case True
    then show ?thesis using ext that by (simp add: extends_def)
  next
    case False
    then have "p \<in> region p (rounded old)" by (cases p) (simp add: region_def)
    then have "p \<notin> in_use a" using own by blast
    then show ?thesis using a that p(2) by (simp add: in_use_iff arena_inv_def)
  qed
  moreover have "byte_at c x = byte_at b x" for x
    using k by (cases "fst x = ?k") (simp_all add: byte_at_def c)
  ultimately show ?thesis using ext k by (auto simp: extends_def c nth_list_update)
qed

lemma realloc_scoped:
  assumes a: "arena_inv a" and ab: "scoped a b" and own: "region p (rounded old) \<subseteq> in_use b - in_use a"
    and nodes: "\<forall>c\<in>set (cleanups b). node_at c \<notin> region p (rounded old)"
  shows "scoped a (snd (arena_realloc_last m b (Some p) old new))"
proof (cases "new = 0 \<or> SIZE_MAX - 15 < new \<or> SIZE_MAX - 15 < old")
  case True
  then show ?thesis using ab by (auto simp: arena_realloc_last_def arena_align_up_eq)
next
  case False
  then have new: "0 < new" and al: "arena_align_up old = Some (rounded old)" "arena_align_up new = Some (rounded new)"
    by (simp_all add: arena_align_up_eq)
  have b: "arena_inv b" "extends a b" "cleanups_ok b" using ab by (simp_all add: scoped_def)
  have keep: "scoped a c" if "resized b p old new q c" "extends a c" for q c
    using that ab nodes by (auto simp: resized_def Let_def scoped_def cleanups_ok_def)
  show ?thesis
  proof (cases "resize_in_place b p (rounded old) (rounded new)")
    case (Some c)
    have "extends a c" using own by (intro resize_in_place_extends [OF b(2,1) _ a Some]) blast
    then show ?thesis using keep [OF resize_in_place_resized [OF b(1) new Some]] al new Some
      by (simp add: arena_realloc_last_def)
  next
    case None
    show ?thesis
    proof (cases "arena_alloc m b (rounded new)")
      case (Pair r c)
      note al' = arena_alloc_takes [OF b(1), where m = m and n = "rounded new"]
      show ?thesis
      proof (cases r)
        case None
        then show ?thesis using \<open>resize_in_place b p _ _ = None\<close> Pair al new al' ab
          by (simp add: arena_realloc_last_def)
      next
        case (Some q)
        then have t: "takes b (rounded new) q c" using al' Pair by simp
        let ?c = "if old > 0 then copy_old p q old new c else c"
        have c: "extends a c" using takes_scoped [OF a b(1) ab t] by (simp add: scoped_def)
        have pb: "region p (rounded old) \<subseteq> in_use b" using own by blast
        note rs = takes_resized [OF b(1) new pb t]
        have "extends a ?c"
        proof (cases "old = 0")
          case False
          note tf = takes_facts [OF b(1) t, unfolded rounded_facts]
          have "region p (rounded old) \<subseteq> in_use c" using pb tf(3) by blast
          then have eq: "copy_old p q old new c = write_bytes q (read_bytes c p (min old new)) c"
            using False new by (intro copy_old_eq [where n = "rounded old"]) (simp_all add: rounded_pos rounded_facts)
          have "region q (min old new) \<subseteq> region q (rounded new)"
            using rounded_facts(1) [of new] by (intro region_mono) simp
          then have "region q (min old new) \<inter> in_use a = {}"
            using tf(4) extends_in_use [OF a b(2)] by blast
          then show ?thesis using c False unfolding eq by (simp add: extends_write [OF a])
        qed (simp add: c)
        then show ?thesis using keep [OF rs] \<open>resize_in_place b p _ _ = None\<close> Pair Some al new
          by (simp add: arena_realloc_last_def)
      qed
    qed
  qed
qed

lemma rewind_scoped:
  assumes "arena_inv a" "scoped a b" "scoped b c"
  shows "scoped a (arena_rewind c (arena_mark b))"
proof -
  have b: "arena_inv b" "extends a b" "cleanups_ok b" using assms(2) by (simp_all add: scoped_def)
  from assms(3) obtain new where c: "extends b c" "arena_inv c" "cleanups c = new @ cleanups b" "cleanups_ok c"
    by (auto simp: scoped_def)
  note r = rewind_facts [OF b(1) c]
  have "cleanups_ok (arena_rewind c (arena_mark b))"
    using b(3) r(2,3) by (simp add: cleanups_ok_def)
  then show ?thesis
    using assms(2) r(3,5) extends_trans [OF assms(1) b(1,2) r(6)] by (simp add: scoped_def)
qed

lemma uses_scoped: "uses m a b \<Longrightarrow> arena_inv a \<Longrightarrow> cleanups_ok a \<Longrightarrow> scoped a b"
proof (induction rule: uses.induct)
  case uses_nothing
  then show ?case by (simp add: scoped_def extends_refl)
next
  case (uses_alloc a b n)
  then show ?case by (simp add: alloc_scoped)
next
  case (uses_on_destroy a b fn dt)
  then show ?case by (simp add: on_destroy_scoped)
next
  case (uses_realloc a b p old new)
  then show ?case by (intro realloc_scoped) simp_all
next
  case (uses_write a b p xs)
  then show ?case by (simp add: write_scoped)
next
  case (uses_scope a b c)
  then have "scoped a b" by simp
  moreover from this have "arena_inv b" "cleanups_ok b" by (simp_all add: scoped_def)
  ultimately show ?case using uses_scope by (simp add: rewind_scoped)
qed

section \<open>Reachable arenas\<close>

definition reachable_arena :: "malloc \<Rightarrow> arena \<Rightarrow> bool" where
  "reachable_arena m a \<longleftrightarrow> (\<exists>n a0. arena_create m n = Some a0 \<and> uses m a0 a)"

lemma arena_create_inv:
  "arena_create m n = Some a \<Longrightarrow> arena_inv a \<and> cleanups_ok a \<and> in_use a = {} \<and> cleanups a = []"
  by (auto simp: arena_create_def arena_inv_def cleanups_ok_def in_use_def Let_def
      dest: arena_block_create_ok split: option.splits)

lemma reachable_arena_inv:
  assumes "reachable_arena m a"
  shows "arena_inv a" and "cleanups_ok a"
proof -
  obtain n a0 where a0: "arena_create m n = Some a0" "uses m a0 a"
    using assms by (auto simp: reachable_arena_def)
  have "scoped a0 a" using arena_create_inv [OF a0(1)] uses_scoped [OF a0(2)] by simp
  then show "arena_inv a" "cleanups_ok a" by (simp_all add: scoped_def)
qed

lemma foldl_used:
  "s \<le> SIZE_MAX \<Longrightarrow> foldl (\<lambda>t b. (t + used b) mod (SIZE_MAX + 1)) s bs =
    (s + (\<Sum>i<length bs. used (bs ! i))) mod (SIZE_MAX + 1)"
proof (induction bs arbitrary: s)
  case (Cons b bs)
  have "(s + used b) mod (SIZE_MAX + 1) \<le> SIZE_MAX" using less_Suc_eq_le by fastforce
  from Cons.IH [OF this] show ?case
    by (simp add: sum.lessThan_Suc_shift mod_simps add.assoc del: sum.lessThan_Suc)
qed simp

lemma total_allocated_card: "arena_total_allocated a = card (in_use a) mod (SIZE_MAX + 1)"
proof -
  have "in_use a = Sigma {..<length (blocks a)} (\<lambda>i. {..<used (blocks a ! i)})"
    by (auto simp: in_use_def)
  then show ?thesis using foldl_used [of 0 "blocks a"] by (simp add: arena_total_allocated_def)
qed

lemma card_region [simp]: "card (region p n) = n"
  by (simp add: region_def card_cartesian_product)

lemma finite_in_use [simp]: "finite (in_use a)"
  by (rule finite_subset [of _ "Sigma {..<length (blocks a)} (\<lambda>i. {..<used (blocks a ! i)})"])
    (auto simp: in_use_def)

lemma finite_region [simp]: "finite (region p n)"
  by (simp add: region_def)

section \<open>Properties\<close>

definition sample_malloc :: malloc where "sample_malloc n = (if n \<le> 100000 then Some (\<lambda>_. NUL) else None)"

definition sample_arena :: arena where
  "sample_arena =
     \<lparr>blocks = [\<lparr>capacity = 4096, used = 0, payload = (\<lambda>_. NUL)\<rparr>], current = 0, min_block_size = 4096,
      cleanups = [], ran = []\<rparr>"

lemma sample_created: "arena_create sample_malloc 100 = Some sample_arena"
  by (simp add: arena_create_def sample_malloc_def SIZEOF_ARENA_def arena_block_create_def
      arena_add_overflow_def SIZE_MAX_def SIZEOF_BLOCK_def sample_arena_def)

lemma sample_reachable: "reachable_arena sample_malloc sample_arena"
  unfolding reachable_arena_def using sample_created uses_nothing by blast

lemma sample_alloc:
  "fst (arena_alloc sample_malloc sample_arena 20) = Some (0, 0)"
  "in_use (snd (arena_alloc sample_malloc sample_arena 20)) = region (0, 0) 32"
  by (auto simp: arena_alloc_def arena_align_up_eq rounded_def SIZE_MAX_def alloc_in_def sample_arena_def
      arena_alloc_from_block_def arena_add_overflow_def in_use_def region_def)

text \<open>
  C18. Allocation. From an arena as the program can reach it, \<open>arena_alloc\<close> returns an aligned
  region of at least the bytes asked for that overlaps nothing in use, adds exactly that region
  to what is in use, and leaves every byte in use, every cleanup and the mark position alone;
  it fails, changing nothing, only for size zero, for a size that cannot be rounded up, or
  when the system has no memory for the new block it needs.
\<close>

theorem arena_alloc_contract:
  assumes "reachable_arena m a"
  shows "case arena_alloc m a n of
      (Some p, b) \<Rightarrow>
        reachable_arena m b \<and> 0 < n \<and> n \<le> rounded n \<and> 16 dvd snd p \<and>
        in_use b = in_use a \<union> region p (rounded n) \<and> in_use a \<inter> region p (rounded n) = {} \<and>
        extends a b \<and> cleanups b = cleanups a \<and>
        arena_total_allocated b = (arena_total_allocated a + rounded n) mod (SIZE_MAX + 1)
    | (None, b) \<Rightarrow> b = a \<and>
        (n = 0 \<or> SIZE_MAX - 15 < n \<or> arena_block_create m (new_block_capacity a (rounded n)) = None)"
proof (cases "arena_alloc m a n")
  case (Pair r b)
  note inv = reachable_arena_inv(1) [OF assms]
  have b: "reachable_arena m b"
    using assms uses_alloc [of m _ a n] Pair by (auto simp: reachable_arena_def)
  show ?thesis
  proof (cases r)
    case None
    then show ?thesis using arena_alloc_takes [OF inv, where m = m and n = n] Pair by simp
  next
    case (Some p)
    then have t: "takes a n p b" using arena_alloc_takes [OF inv, where m = m and n = n] Pair by simp
    note tf = takes_facts [OF inv t]
    have "arena_total_allocated b = (arena_total_allocated a + rounded n) mod (SIZE_MAX + 1)"
      using tf(3,4) by (simp add: total_allocated_card card_Un_disjoint mod_simps)
    then show ?thesis using tf b Some Pair rounded_facts(1) [of n] t by (simp add: takes_def)
  qed
qed

theorem arena_alloc_contract_witness:
  "\<exists>b. arena_alloc sample_malloc sample_arena 20 = (Some (0, 0), b) \<and>
     reachable_arena sample_malloc b \<and> arena_total_allocated b = 32"
  using arena_alloc_contract [OF sample_reachable, of 20] sample_alloc arena_create_inv [OF sample_created]
  by (cases "arena_alloc sample_malloc sample_arena 20") (auto simp: total_allocated_card rounded_def SIZE_MAX_def)

text \<open>
  C25. Scopes. Whatever is done to an arena between a mark and its rewind - allocating,
  registering cleanups, resizing and writing what was not in use at the mark, opening scopes -
  rewinding brings back the bytes that were in use, with their contents, the position and the
  cleanups; it runs exactly the cleanups registered since, newest first, and nothing twice.
\<close>

theorem rewind_restores:
  assumes "reachable_arena m a" "uses m a b"
  shows "\<exists>new. cleanups b = new @ cleanups a \<and>
    (let c = arena_rewind b (arena_mark a) in
     in_use c = in_use a \<and> (\<forall>x\<in>in_use a. byte_at c x = byte_at a x) \<and> current c = current a \<and>
     cleanups c = cleanups a \<and> ran c = ran b @ map (\<lambda>c. (node_fn c, node_data c)) new \<and>
     arena_total_allocated c = arena_total_allocated a)"
proof -
  note a = reachable_arena_inv [OF assms(1)]
  from uses_scoped [OF assms(2) a] obtain new where b: "extends a b" "arena_inv b"
      "cleanups b = new @ cleanups a" "cleanups_ok b"
    by (auto simp: scoped_def)
  note r = rewind_facts [OF a(1) b]
  show ?thesis using b(3) r by (intro exI [of _ new]) (simp add: Let_def extends_def total_allocated_card)
qed

theorem rewind_restores_witness:
  "let b = snd (arena_on_destroy sample_malloc sample_arena 7 9); c = arena_rewind b (arena_mark sample_arena)
   in in_use c = {} \<and> ran c = [(7, 9)] \<and> cleanups c = []"
proof -
  have "uses sample_malloc sample_arena (snd (arena_on_destroy sample_malloc sample_arena 7 9))"
    by (rule uses_on_destroy [OF uses_nothing])
  note r = rewind_restores [OF sample_reachable this]
  have "map ran_pair (cleanups (snd (arena_on_destroy sample_malloc sample_arena 7 9))) = [ran_pair \<lparr>node_at = (0, 0), node_fn = 7, node_data = 9\<rparr>]"
    "ran (snd (arena_on_destroy sample_malloc sample_arena 7 9)) = []" for ran_pair :: "cleanup_node \<Rightarrow> nat \<times> nat"
    by (simp_all add: arena_on_destroy_def SIZEOF_CLEANUP_def arena_alloc_def arena_align_up_eq rounded_def SIZE_MAX_def
      alloc_in_def sample_arena_def arena_alloc_from_block_def arena_add_overflow_def)
  then show ?thesis using r arena_create_inv [OF sample_created] by (auto simp: Let_def sample_arena_def)
qed

text \<open>
  Resizing. \<open>arena_realloc_last\<close> on an allocation of a reachable arena either fails and
  changes nothing, or returns memory of the new size that holds the old contents up to the
  smaller of the two sizes, shares no byte with any other allocation, and leaves the bytes of
  all others as they were - in place, shrinking or growing, or by moving, whether or not the
  allocation is the last one.
\<close>

theorem realloc_last_keeps:
  assumes "reachable_arena m a" "region p (rounded old) \<subseteq> in_use a"
  shows "case arena_realloc_last m a (Some p) old new of
      (Some q, b) \<Rightarrow>
        0 < new \<and> arena_inv b \<and> cleanups b = cleanups a \<and> region q (rounded new) \<subseteq> in_use b \<and>
        (\<forall>i<min old new. byte_at b (fst q, snd q + i) = byte_at a (fst p, snd p + i)) \<and>
        (\<forall>x\<in>in_use a - region p (rounded old).
           x \<in> in_use b \<and> x \<notin> region q (rounded new) \<and> byte_at b x = byte_at a x)
    | (None, b) \<Rightarrow> b = a"
  using realloc_last_resized [OF reachable_arena_inv(1) [OF assms(1)] assms(2), where m = m and new = new]
  by (auto simp: resized_def Let_def split: prod.splits option.splits)

theorem realloc_last_keeps_witness:
  "let a = snd (arena_alloc sample_malloc sample_arena 20) in
   region (0, 0) 32 \<subseteq> in_use a \<and>
   (case arena_realloc_last sample_malloc a (Some (0, 0)) 20 40 of
      (Some q, b) \<Rightarrow> region q 48 \<subseteq> in_use b \<and> q = (0, 0) | (None, b) \<Rightarrow> False)"
proof -
  define a where "a = snd (arena_alloc sample_malloc sample_arena 20)"
  have r: "reachable_arena sample_malloc a"
    using sample_created uses_alloc [OF uses_nothing] unfolding reachable_arena_def a_def by blast
  have in_place: "fst (arena_realloc_last sample_malloc a (Some (0, 0)) 20 40) = Some (0, 0)"
    by (simp add: a_def arena_alloc_def arena_align_up_eq rounded_def SIZE_MAX_def alloc_in_def sample_arena_def
      arena_alloc_from_block_def arena_add_overflow_def arena_realloc_last_def resize_in_place_def)
  have u: "rounded 20 = 32" "rounded 40 = 48" by (simp_all add: rounded_def)
  have "region (0, 0) (rounded 20) \<subseteq> in_use a" by (simp add: a_def sample_alloc u)
  from realloc_last_keeps [OF r this, where new = 40] this in_place show ?thesis
    by (simp add: a_def [symmetric] u split: prod.splits option.splits)
qed

end
