(* ===== verification/Arena_Dyn.thy ===== *)
theory Arena_Dyn
  imports Arena_Props
begin

text \<open>
  The growable arrays of \<open>src_v2/arena/arena_dyn.h\<close>. An array is the address of its first
  element, right after a header that is kept in the arena: eight bytes of capacity, eight of
  count, and the padding of a \<open>max_align_t\<close>. The operations read and write that header in the
  bytes of the arena, and grow with \<open>arena_realloc_last\<close>. They return the slot or the flag of
  the code, the arena, and the array pointer the code stores back through its argument.
\<close>

definition ARENA_ARR_INIT_CAPACITY :: nat where "ARENA_ARR_INIT_CAPACITY = 8"
definition SIZEOF_ARR_HEADER :: nat where "SIZEOF_ARR_HEADER = 48"

text \<open>A \<open>size_t\<close> in memory, least significant byte first.\<close>

fun size_bytes :: "nat \<Rightarrow> nat \<Rightarrow> string" where
  "size_bytes 0 n = []"
| "size_bytes (Suc k) n = char_of (n mod 256) # size_bytes k (n div 256)"

fun bytes_size :: "string \<Rightarrow> nat" where
  "bytes_size [] = 0"
| "bytes_size (c # cs) = of_char c + 256 * bytes_size cs"

type_synonym arr = "arena_ptr option"

definition ptr_add :: "arena_ptr \<Rightarrow> nat \<Rightarrow> arena_ptr" where
  "ptr_add p k = (fst p, snd p + k)"

definition arena_arr__hdr :: "arena_ptr \<Rightarrow> arena_ptr" where
  "arena_arr__hdr p = (fst p, snd p - SIZEOF_ARR_HEADER)"

definition hdr_capacity :: "arena \<Rightarrow> arena_ptr \<Rightarrow> nat" where
  "hdr_capacity a h = bytes_size (read_bytes a h 8)"

definition hdr_count :: "arena \<Rightarrow> arena_ptr \<Rightarrow> nat" where
  "hdr_count a h = bytes_size (read_bytes a (ptr_add h 8) 8)"

definition set_hdr_capacity :: "arena_ptr \<Rightarrow> nat \<Rightarrow> arena \<Rightarrow> arena" where
  "set_hdr_capacity h n = write_bytes h (size_bytes 8 n)"

definition set_hdr_count :: "arena_ptr \<Rightarrow> nat \<Rightarrow> arena \<Rightarrow> arena" where
  "set_hdr_count h n = write_bytes (ptr_add h 8) (size_bytes 8 n)"

definition arena_arr_len :: "arena \<Rightarrow> arr \<Rightarrow> nat" where
  "arena_arr_len a r = (case r of None \<Rightarrow> 0 | Some p \<Rightarrow> hdr_count a (arena_arr__hdr p))"

definition arena_arr_cap :: "arena \<Rightarrow> arr \<Rightarrow> nat" where
  "arena_arr_cap a r = (case r of None \<Rightarrow> 0 | Some p \<Rightarrow> hdr_capacity a (arena_arr__hdr p))"

definition arena_arr_empty :: "arena \<Rightarrow> arr \<Rightarrow> bool" where
  "arena_arr_empty a r \<longleftrightarrow> arena_arr_len a r = 0"

text \<open>The doubling loop; from a capacity of zero it would not end.\<close>

partial_function (option) grow_loop :: "nat \<Rightarrow> nat \<Rightarrow> nat option" where
  "grow_loop min_count new_cap =
     (if new_cap < min_count then
        (if new_cap > SIZE_MAX div 2 then Some min_count else grow_loop min_count (new_cap * 2))
      else Some new_cap)"

definition grown_capacity :: "nat \<Rightarrow> nat \<Rightarrow> nat option" where
  "grown_capacity min_count cap = grow_loop min_count (if cap = 0 then ARENA_ARR_INIT_CAPACITY else cap)"

text \<open>
  The legacy arrays without a header: items and capacity are the caller's. \<open>None\<close> is a loop
  that does not end.
\<close>

definition arena_da_reserve ::
  "malloc \<Rightarrow> arena \<Rightarrow> arr \<Rightarrow> nat \<Rightarrow> nat \<Rightarrow> nat \<Rightarrow> (bool \<times> arena \<times> arr \<times> nat) option" where
  "arena_da_reserve m a items cap item_size min_count =
     (if item_size = 0 then Some (False, a, items, cap)
      else if min_count \<le> cap then Some (True, a, items, cap)
      else map_option (\<lambda>new_cap.
        if new_cap < min_count then (False, a, items, cap)
        else if new_cap > SIZE_MAX div item_size then (False, a, items, cap)
        else (case arena_alloc m a (new_cap * item_size) of
                (None, a1) \<Rightarrow> (False, a1, items, cap)
              | (Some q, a1) \<Rightarrow>
                  (True,
                   (case items of
                      Some p \<Rightarrow> if cap > 0 then write_bytes q (read_bytes a1 p (cap * item_size)) a1 else a1
                    | None \<Rightarrow> a1),
                   Some q, new_cap)))
        (grown_capacity min_count cap))"

definition arena_arr__grow ::
  "malloc \<Rightarrow> arena \<Rightarrow> arr \<Rightarrow> nat \<Rightarrow> nat \<Rightarrow> (bool \<times> arena \<times> arr) option" where
  "arena_arr__grow m a r item_size min_capacity =
     (if item_size = 0 then Some (False, a, r)
      else
        (let current_cap = arena_arr_cap a r in
         if min_capacity \<le> current_cap then Some (True, a, r)
         else map_option (\<lambda>new_cap.
           if new_cap < min_capacity then (False, a, r)
           else if new_cap > (SIZE_MAX - SIZEOF_ARR_HEADER) div item_size then (False, a, r)
           else
             (let old_count = arena_arr_len a r;
                  old_cap = current_cap;
                  old_bytes = (if old_cap = 0 then 0 else SIZEOF_ARR_HEADER + old_cap * item_size);
                  new_bytes = SIZEOF_ARR_HEADER + new_cap * item_size
              in case arena_realloc_last m a (map_option arena_arr__hdr r) old_bytes new_bytes of
                   (None, a1) \<Rightarrow> (False, a1, r)
                 | (Some h, a1) \<Rightarrow>
                     (True, set_hdr_count h old_count (set_hdr_capacity h new_cap a1),
                      Some (ptr_add h SIZEOF_ARR_HEADER))))
           (grown_capacity min_capacity current_cap)))"

definition arena_arr__append_n ::
  "malloc \<Rightarrow> arena \<Rightarrow> arr \<Rightarrow> nat \<Rightarrow> nat \<Rightarrow> (arena_ptr option \<times> arena \<times> arr) option" where
  "arena_arr__append_n m a r item_size count =
     (if item_size = 0 then Some (None, a, r)
      else if count = 0 then Some (r, a, r)
      else
        (let old_count = arena_arr_len a r in
         if count > SIZE_MAX - old_count then Some (None, a, r)
         else
           (let new_count = old_count + count in
            map_option (\<lambda>res. case res of
                (True, a1, Some p) \<Rightarrow>
                  (Some (ptr_add p (old_count * item_size)),
                   set_hdr_count (arena_arr__hdr p) new_count a1, Some p)
              | (_, a1, r1) \<Rightarrow> (None, a1, r1))
              (arena_arr__grow m a r item_size new_count))))"

text \<open>The macro \<open>arena_arr_push\<close>; the value is the bytes of one item.\<close>

definition arena_arr_push ::
  "malloc \<Rightarrow> arena \<Rightarrow> arr \<Rightarrow> string \<Rightarrow> (bool \<times> arena \<times> arr) option" where
  "arena_arr_push m a r v =
     map_option (\<lambda>res. case res of
         (None, a1, r1) \<Rightarrow> (False, a1, r1)
       | (Some slot, a1, r1) \<Rightarrow> (True, write_bytes slot v a1, r1))
       (arena_arr__append_n m a r (length v) 1)"

definition arena_arr__fit_impl :: "malloc \<Rightarrow> arena \<Rightarrow> arr \<Rightarrow> nat \<Rightarrow> bool \<times> arena \<times> arr" where
  "arena_arr__fit_impl m a r item_size =
     (case r of
        None \<Rightarrow> (False, a, r)
      | Some p \<Rightarrow>
          if item_size = 0 then (False, a, r)
          else
            (let count = arena_arr_len a r; cap = arena_arr_cap a r in
             if count = cap then (True, a, r)
             else
               (let old_bytes = SIZEOF_ARR_HEADER + cap * item_size;
                    new_bytes = SIZEOF_ARR_HEADER + count * item_size
                in case arena_realloc_last m a (Some (arena_arr__hdr p)) old_bytes new_bytes of
                     (None, a1) \<Rightarrow> (False, a1, r)
                   | (Some h, a1) \<Rightarrow>
                       (True, set_hdr_capacity h count a1, Some (ptr_add h SIZEOF_ARR_HEADER)))))"

end
