(* ===== verification/Arena_Dyn_Props.thy ===== *)
theory Arena_Dyn_Props
  imports Arena_Dyn
begin

text \<open>
  An array in the arena is the list of its items: growing and fitting keep the list, pushing
  appends to it, and nothing else in the arena is touched.
\<close>

section \<open>Sizes in memory\<close>

lemma length_size_bytes [simp]: "length (size_bytes k n) = k"
  by (induction k arbitrary: n) simp_all

lemma bytes_size_bytes: "n < 256 ^ k \<Longrightarrow> bytes_size (size_bytes k n) = n"
proof (induction k arbitrary: n)
  case (Suc k)
  then have "n div 256 < 256 ^ k" by (simp add: less_mult_imp_div_less mult.commute)
  then show ?case using Suc.IH by (simp)
qed simp

lemma bytes_size_8: "n \<le> SIZE_MAX \<Longrightarrow> bytes_size (size_bytes 8 n) = n"
  by (rule bytes_size_bytes) (simp add: SIZE_MAX_def)

section \<open>Reading what was written\<close>

lemma read_bytes_cong:
  assumes "\<And>i. i < n \<Longrightarrow> byte_at b (fst q, snd q + i) = byte_at a (fst p, snd p + i)"
  shows "read_bytes b q n = read_bytes a p n"
  by (rule nth_equalityI) (simp_all add: read_bytes_nth assms)

lemma read_write_same:
  assumes "fst p < length (blocks a)"
  shows "read_bytes (write_bytes p xs a) p (length xs) = xs"
  by (rule nth_equalityI) (simp_all add: read_bytes_nth byte_at_write [OF assms] region_def)

lemma read_write_other:
  assumes "region p (length xs) \<inter> region q n = {}"
  shows "read_bytes (write_bytes p xs a) q n = read_bytes a q n"
proof (rule read_bytes_cong)
  fix i assume "i < n"
  then have "(fst q, snd q + i) \<in> region q n" by (simp add: region_def)
  then show "byte_at (write_bytes p xs a) (fst q, snd q + i) = byte_at a (fst q, snd q + i)"
    using assms by (intro byte_at_write_other) blast
qed

section \<open>Arrays\<close>

definition elems :: "arena \<Rightarrow> arena_ptr \<Rightarrow> nat \<Rightarrow> nat \<Rightarrow> string list" where
  "elems a p isz n = map (\<lambda>i. read_bytes a (ptr_add p (i * isz)) isz) [0..<n]"

text \<open>The bytes an array owns, and the list of items it stands for.\<close>

definition arr_bytes :: "nat \<Rightarrow> nat \<Rightarrow> nat" where
  "arr_bytes isz c = SIZEOF_ARR_HEADER + c * isz"

definition own :: "arena \<Rightarrow> nat \<Rightarrow> arr \<Rightarrow> arena_ptr set" where
  "own a isz r =
     (case r of None \<Rightarrow> {} | Some p \<Rightarrow> region (arena_arr__hdr p) (rounded (arr_bytes isz (arena_arr_cap a r))))"

definition arr_at :: "arena \<Rightarrow> nat \<Rightarrow> arr \<Rightarrow> string list \<Rightarrow> bool" where
  "arr_at a isz r vs \<longleftrightarrow>
     (case r of
        None \<Rightarrow> vs = []
      | Some p \<Rightarrow>
          SIZEOF_ARR_HEADER \<le> snd p \<and> arena_arr_len a r = length vs \<and> length vs \<le> arena_arr_cap a r \<and>
          arr_bytes isz (arena_arr_cap a r) \<le> SIZE_MAX \<and> own a isz r \<subseteq> in_use a \<and>
          elems a p isz (length vs) = vs)"

lemma length_elems [simp]: "length (elems a p isz n) = n"
  by (simp add: elems_def)

lemma elems_Suc: "elems a p isz (Suc n) = elems a p isz n @ [read_bytes a (ptr_add p (n * isz)) isz]"
  by (simp add: elems_def)

lemma item_in_range: "i < n \<Longrightarrow> j < isz \<Longrightarrow> i * isz + j < n * isz" for i j n isz :: nat
proof -
  assume "i < n" "j < isz"
  then have "i * isz + j < Suc i * isz" by simp
  also have "\<dots> \<le> n * isz" using \<open>i < n\<close> by (intro mult_le_mono1) simp
  finally show ?thesis .
qed

lemma elems_cong:
  assumes "\<And>k. k < n * isz \<Longrightarrow> byte_at b (fst q, snd q + k) = byte_at a (fst p, snd p + k)"
  shows "elems b q isz n = elems a p isz n"
  unfolding elems_def
proof (rule map_cong [OF refl], rule read_bytes_cong)
  fix i j assume "i \<in> set [0..<n]" "j < isz"
  then show "byte_at b (fst (ptr_add q (i * isz)), snd (ptr_add q (i * isz)) + j) =
      byte_at a (fst (ptr_add p (i * isz)), snd (ptr_add p (i * isz)) + j)"
    using assms [of "i * isz + j"] item_in_range [of i n j isz] by (simp add: ptr_add_def add.assoc)
qed

lemma elems_write_other:
  assumes "region q (length xs) \<inter> region p (n * isz) = {}"
  shows "elems (write_bytes q xs a) p isz n = elems a p isz n"
proof (rule elems_cong)
  fix k assume "k < n * isz"
  then have "(fst p, snd p + k) \<in> region p (n * isz)" by (simp add: region_def)
  then show "byte_at (write_bytes q xs a) (fst p, snd p + k) = byte_at a (fst p, snd p + k)"
    using assms by (intro byte_at_write_other) blast
qed

section \<open>Moving an array\<close>

lemma hdr_of_ptr_add [simp]: "arena_arr__hdr (ptr_add h SIZEOF_ARR_HEADER) = h"
  by (cases h) (simp add: arena_arr__hdr_def ptr_add_def)

lemma arr_bytes_mono: "c \<le> d \<Longrightarrow> arr_bytes isz c \<le> arr_bytes isz d"
  by (simp add: arr_bytes_def)

lemma header_region:
  "k \<le> SIZEOF_ARR_HEADER \<Longrightarrow> region h k \<subseteq> region h (rounded (arr_bytes isz c))"
  using rounded_facts(1) [of "arr_bytes isz c"] by (intro region_mono) (simp add: arr_bytes_def)

text \<open>
  An array whose bytes have been resized, with a header that says the new capacity and the old
  count: the same list. The frame is that of \<open>resized\<close>.
\<close>

lemma arr_at_resized:
  assumes at: "arr_at a isz r vs" and rs: "resized a h0 old (arr_bytes isz c) h a1"
    and cap: "arr_bytes isz c \<le> SIZE_MAX" "length vs \<le> c"
    and src: "vs \<noteq> [] \<Longrightarrow> r = Some (ptr_add h0 SIZEOF_ARR_HEADER) \<and> arr_bytes isz (length vs) \<le> old"
    and hdr: "hdr_capacity b h = c" "hdr_count b h = length vs"
    and b: "in_use b = in_use a1" "\<And>x. x \<notin> region h 16 \<Longrightarrow> byte_at b x = byte_at a1 x"
  shows "arr_at b isz (Some (ptr_add h SIZEOF_ARR_HEADER)) vs"
proof -
  have "elems b (ptr_add h SIZEOF_ARR_HEADER) isz (length vs) = vs"
  proof (cases "vs = []")
    case True
    then show ?thesis by (simp add: elems_def)
  next
    case False
    note s = src [OF False]
    have "elems a (ptr_add h0 SIZEOF_ARR_HEADER) isz (length vs) = vs" using at s by (simp add: arr_at_def)
    moreover have "elems b (ptr_add h SIZEOF_ARR_HEADER) isz (length vs) =
        elems a (ptr_add h0 SIZEOF_ARR_HEADER) isz (length vs)"
    proof (rule elems_cong)
      fix k assume k: "k < length vs * isz"
      have "k < c * isz" using k mult_le_mono1 [OF cap(2), of isz] by (rule order_less_le_trans)
      then have "SIZEOF_ARR_HEADER + k < min old (arr_bytes isz c)" using k s by (simp add: arr_bytes_def)
      then have "byte_at a1 (fst h, snd h + (SIZEOF_ARR_HEADER + k)) = byte_at a (fst h0, snd h0 + (SIZEOF_ARR_HEADER + k))"
        using rs by (simp add: resized_def Let_def)
      then show "byte_at b (fst (ptr_add h SIZEOF_ARR_HEADER), snd (ptr_add h SIZEOF_ARR_HEADER) + k) =
          byte_at a (fst (ptr_add h0 SIZEOF_ARR_HEADER), snd (ptr_add h0 SIZEOF_ARR_HEADER) + k)"
        using b(2) by (simp add: ptr_add_def region_def SIZEOF_ARR_HEADER_def add.assoc)
    qed
    ultimately show ?thesis by simp
  qed
  moreover have "region h (rounded (arr_bytes isz c)) \<subseteq> in_use b"
    using rs b(1) by (simp add: resized_def Let_def)
  ultimately show ?thesis using hdr cap
    by (simp add: arr_at_def own_def arena_arr_len_def arena_arr_cap_def) (simp add: ptr_add_def)
qed

text \<open>Writing the header.\<close>

lemma write_header:
  assumes "fst h < length (blocks a)" "n \<le> SIZE_MAX"
  shows "hdr_capacity (set_hdr_capacity h n a) h = n" "hdr_count (set_hdr_capacity h n a) h = hdr_count a h"
    "hdr_count (set_hdr_count h n a) h = n" "hdr_capacity (set_hdr_count h n a) h = hdr_capacity a h"
proof -
  have dis: "region h 8 \<inter> region (ptr_add h 8) 8 = {}" by (auto simp: region_def ptr_add_def)
  have p: "fst (ptr_add h 8) < length (blocks a)" using assms(1) by (simp add: ptr_add_def)
  show "hdr_capacity (set_hdr_capacity h n a) h = n"
    using read_write_same [OF assms(1), of "size_bytes 8 n"] assms(2)
    by (simp add: hdr_capacity_def set_hdr_capacity_def bytes_size_8)
  show "hdr_count (set_hdr_capacity h n a) h = hdr_count a h"
    using dis by (simp add: hdr_count_def set_hdr_capacity_def read_write_other)
  show "hdr_count (set_hdr_count h n a) h = n"
    using read_write_same [OF p, of "size_bytes 8 n"] assms(2)
    by (simp add: hdr_count_def set_hdr_count_def bytes_size_8)
  show "hdr_capacity (set_hdr_count h n a) h = hdr_capacity a h"
    using dis by (simp add: hdr_capacity_def set_hdr_count_def read_write_other Int_commute)
qed

lemma set_hdr_simps [simp]:
  "in_use (set_hdr_capacity h n a) = in_use a" "in_use (set_hdr_count h n a) = in_use a"
  "length (blocks (set_hdr_capacity h n a)) = length (blocks a)"
  "length (blocks (set_hdr_count h n a)) = length (blocks a)"
  "cleanups (set_hdr_capacity h n a) = cleanups a" "cleanups (set_hdr_count h n a) = cleanups a"
  by (simp_all add: set_hdr_capacity_def set_hdr_count_def)

lemma set_hdr_inv:
  "arena_inv a \<Longrightarrow> arena_inv (set_hdr_capacity h n a)" "arena_inv a \<Longrightarrow> arena_inv (set_hdr_count h n a)"
  by (simp_all add: set_hdr_capacity_def set_hdr_count_def write_bytes_inv)

lemma set_hdr_byte:
  assumes "x \<notin> region h 16"
  shows "byte_at (set_hdr_capacity h n a) x = byte_at a x" "byte_at (set_hdr_count h n a) x = byte_at a x"
proof -
  have "region h 8 \<subseteq> region h 16" "region (ptr_add h 8) 8 \<subseteq> region h 16"
    by (auto simp: region_def ptr_add_def)
  then show "byte_at (set_hdr_capacity h n a) x = byte_at a x" "byte_at (set_hdr_count h n a) x = byte_at a x"
    using assms by (auto simp: set_hdr_capacity_def set_hdr_count_def intro!: byte_at_write_other)
qed

section \<open>Growing\<close>

lemma grow_loop_bound:
  "0 < cap \<Longrightarrow> \<exists>c. grow_loop n cap = Some c \<and> n \<le> c \<and> (c = cap \<or> c < 2 * n) \<and> (cap \<le> c \<or> n \<le> cap)"
proof (induction "n - cap" arbitrary: cap rule: less_induct)
  case less
  show ?case
  proof (cases "n \<le> cap \<or> SIZE_MAX div 2 < cap")
    case True
    then show ?thesis using less.prems by (subst grow_loop.simps) auto
  next
    case False
    then have step: "grow_loop n cap = grow_loop n (cap * 2)" by (subst grow_loop.simps) simp
    have "n - cap * 2 < n - cap" "0 < cap * 2" using less.prems False by linarith+
    from less.hyps [OF this] obtain c where
      "grow_loop n (cap * 2) = Some c" "n \<le> c" "c = cap * 2 \<or> c < 2 * n" "cap * 2 \<le> c \<or> n \<le> cap * 2"
      by blast
    then show ?thesis using False step by auto
  qed
qed

lemma grown_capacity_Some:
  "\<exists>c. grown_capacity n cap = Some c \<and> n \<le> c \<and> (cap < n \<longrightarrow> c \<le> max ARENA_ARR_INIT_CAPACITY (2 * n))"
  using grow_loop_bound [of cap n] grow_loop_bound [of 8 n]
  by (auto simp: grown_capacity_def ARENA_ARR_INIT_CAPACITY_def max_def)

text \<open>What an operation on one array leaves alone.\<close>

definition framed :: "arena \<Rightarrow> nat \<Rightarrow> arr \<Rightarrow> arena \<Rightarrow> arr \<Rightarrow> bool" where
  "framed a isz r b r' \<longleftrightarrow>
     arena_inv b \<and> cleanups b = cleanups a \<and>
     (\<forall>x\<in>in_use a - own a isz r. x \<in> in_use b - own b isz r' \<and> byte_at b x = byte_at a x)"

lemma framed_refl: "arena_inv a \<Longrightarrow> framed a isz r a r"
  by (simp add: framed_def)

lemma framed_trans: "framed a isz r b r' \<Longrightarrow> framed b isz r' c r'' \<Longrightarrow> framed a isz r c r''"
  by (auto simp: framed_def)

lemma region_zero [simp]: "region p 0 = {}"
  by (simp add: region_def)

lemma rounded_0 [simp]: "rounded 0 = 0"
  by (simp add: rounded_def)

lemma arena_alloc_resized:
  assumes "arena_inv a"
  shows "case arena_alloc m a new of (Some q, b) \<Rightarrow> resized a p 0 new q b | (None, b) \<Rightarrow> b = a"
proof (cases "arena_alloc m a new")
  case (Pair r b)
  then show ?thesis
    using arena_alloc_takes [OF assms, where m = m and n = new] takes_facts [OF assms, of new "the r" b]
    by (cases r) (auto simp: resized_def Let_def extends_def)
qed

text \<open>
  Resizing an array's bytes: for a null array an allocation, for one of capacity zero an
  allocation too, since the code then gives its old size as zero.
\<close>

lemma realloc_array:
  assumes inv: "arena_inv a" and own: "own a isz r \<subseteq> in_use a"
    and old: "old = arr_bytes isz (arena_arr_cap a r) \<or> old = 0 \<and> arena_arr_cap a r = 0" "r = None \<Longrightarrow> old = 0"
    and rl: "arena_realloc_last m a (map_option arena_arr__hdr r) old new = (q, a1)"
  shows "case q of None \<Rightarrow> a1 = a
    | Some h \<Rightarrow> \<exists>h0. resized a h0 old new h a1 \<and> (\<forall>p. r = Some p \<longrightarrow> h0 = arena_arr__hdr p) \<and>
        region h0 (rounded old) \<subseteq> own a isz r"
proof (cases r)
  case None
  then show ?thesis using rl old arena_alloc_resized [OF inv, where m = m and new = new]
    by (auto simp: arena_realloc_last_def split: option.splits)
next
  case (Some p)
  have sub: "region (arena_arr__hdr p) (rounded old) \<subseteq> own a isz r"
    using old(1) Some by (auto simp: own_def)
  then have "region (arena_arr__hdr p) (rounded old) \<subseteq> in_use a" using own by blast
  then show ?thesis
    using rl Some sub realloc_last_resized [OF inv, of "arena_arr__hdr p" old, where m = m and new = new]
    by (auto split: option.splits intro!: exI [of _ "arena_arr__hdr p"] simp del: split_paired_Ex)
qed

lemma resized_framed:
  assumes rs: "resized a h0 old (arr_bytes isz c) h a1" and sub: "region h0 (rounded old) \<subseteq> own a isz r"
    and hdr: "hdr_capacity b h = c" and b: "in_use b = in_use a1" "arena_inv b" "cleanups b = cleanups a1"
      "\<And>x. x \<notin> region h 16 \<Longrightarrow> byte_at b x = byte_at a1 x"
  shows "framed a isz r b (Some (ptr_add h SIZEOF_ARR_HEADER))"
proof -
  have own: "own b isz (Some (ptr_add h SIZEOF_ARR_HEADER)) = region h (rounded (arr_bytes isz c))"
    by (simp add: own_def arena_arr_cap_def hdr)
  have r16: "region h 16 \<subseteq> region h (rounded (arr_bytes isz c))"
    by (rule header_region) (simp add: SIZEOF_ARR_HEADER_def)
  have "x \<in> in_use b - region h (rounded (arr_bytes isz c)) \<and> byte_at b x = byte_at a x"
    if "x \<in> in_use a - own a isz r" for x
  proof -
    have x: "x \<in> in_use a - region h0 (rounded old)" using that sub by blast
    then have "x \<in> in_use a1" "x \<notin> region h (rounded (arr_bytes isz c))" "byte_at a1 x = byte_at a x"
      using rs by (auto simp: resized_def Let_def)
    moreover have "byte_at b x = byte_at a1 x" using calculation(2) r16 by (intro b(4)) blast
    ultimately show ?thesis using b(1) by simp
  qed
  then show ?thesis using b rs by (simp add: framed_def own resized_def Let_def)
qed

lemma arr_bytes_bound: "0 < isz \<Longrightarrow> c \<le> (SIZE_MAX - SIZEOF_ARR_HEADER) div isz \<Longrightarrow> arr_bytes isz c \<le> SIZE_MAX"
proof -
  assume "0 < isz" "c \<le> (SIZE_MAX - SIZEOF_ARR_HEADER) div isz"
  then have "c * isz \<le> SIZE_MAX - SIZEOF_ARR_HEADER" by (simp add: less_eq_div_iff_mult_less_eq)
  then show ?thesis by (simp add: arr_bytes_def SIZE_MAX_def SIZEOF_ARR_HEADER_def)
qed

lemma cap_bound: "0 < isz \<Longrightarrow> arr_bytes isz c \<le> SIZE_MAX \<Longrightarrow> c \<le> SIZE_MAX"
proof -
  assume "0 < isz" "arr_bytes isz c \<le> SIZE_MAX"
  moreover have "c * 1 \<le> c * isz" using \<open>0 < isz\<close> by (intro mult_le_mono2) simp
  ultimately show ?thesis unfolding arr_bytes_def by linarith
qed

lemma resized_block: "resized a h0 old new h b \<Longrightarrow> 0 < new \<Longrightarrow> fst h < length (blocks b)"
  using region_in_use [OF rounded_pos, of new h b] by (auto simp: resized_def Let_def)

section \<open>The operations\<close>

lemma arr_at_own: "arr_at a isz r vs \<Longrightarrow> own a isz r \<subseteq> in_use a"
  by (auto simp: arr_at_def own_def split: option.splits)

lemma arr_at_len: "arr_at a isz r vs \<Longrightarrow> arena_arr_len a r = length vs"
  by (auto simp: arr_at_def arena_arr_len_def split: option.splits)

lemma arr_at_cap: "arr_at a isz r vs \<Longrightarrow> length vs \<le> arena_arr_cap a r"
  by (auto simp: arr_at_def split: option.splits)

lemma arr_ptr: "arr_at a isz (Some p) vs \<Longrightarrow> ptr_add (arena_arr__hdr p) SIZEOF_ARR_HEADER = p"
  by (cases p) (simp add: arr_at_def ptr_add_def arena_arr__hdr_def)

lemma arr_at_src:
  "arr_at a isz r vs \<Longrightarrow> vs \<noteq> [] \<Longrightarrow> \<forall>p. r = Some p \<longrightarrow> h0 = arena_arr__hdr p \<Longrightarrow>
   r = Some (ptr_add h0 SIZEOF_ARR_HEADER)"
  by (cases r) (auto simp: arr_at_def arr_ptr dest: arr_ptr)

text \<open>Moving the array to a new capacity and writing the header, as growing and fitting do.\<close>

lemma move_array:
  assumes inv: "arena_inv a" and at: "arr_at a isz r vs" and isz: "0 < isz"
    and old: "old = arr_bytes isz (arena_arr_cap a r) \<or> old = 0 \<and> arena_arr_cap a r = 0" "r = None \<Longrightarrow> old = 0"
    and cap: "arr_bytes isz c \<le> SIZE_MAX" "length vs \<le> c"
    and rl: "arena_realloc_last m a (map_option arena_arr__hdr r) old (arr_bytes isz c) = (Some h, a1)"
  defines "b \<equiv> set_hdr_count h (length vs) (set_hdr_capacity h c a1)"
  shows "arr_at b isz (Some (ptr_add h SIZEOF_ARR_HEADER)) vs"
    and "arena_arr_cap b (Some (ptr_add h SIZEOF_ARR_HEADER)) = c"
    and "framed a isz r b (Some (ptr_add h SIZEOF_ARR_HEADER))"
proof -
  from realloc_array [OF inv arr_at_own [OF at] old rl] obtain h0 where
    rs: "resized a h0 old (arr_bytes isz c) h a1" and h0: "\<forall>p. r = Some p \<longrightarrow> h0 = arena_arr__hdr p"
    and sub: "region h0 (rounded old) \<subseteq> own a isz r"
    by auto
  have inv1: "arena_inv a1" using rs by (simp add: resized_def Let_def)
  have "0 < arr_bytes isz c" by (simp add: arr_bytes_def SIZEOF_ARR_HEADER_def)
  note blk = resized_block [OF rs this]
  have c: "c \<le> SIZE_MAX" by (rule cap_bound [OF isz cap(1)])
  have hdr: "hdr_capacity b h = c" "hdr_count b h = length vs"
    using blk c cap(2) by (simp_all add: b_def write_header)
  have frame: "in_use b = in_use a1" "arena_inv b" "cleanups b = cleanups a1"
    "\<And>x. x \<notin> region h 16 \<Longrightarrow> byte_at b x = byte_at a1 x"
    using inv1 by (simp_all add: b_def set_hdr_inv set_hdr_byte)
  have src: "r = Some (ptr_add h0 SIZEOF_ARR_HEADER) \<and> arr_bytes isz (length vs) \<le> old" if "vs \<noteq> []"
  proof -
    have "0 < arena_arr_cap a r" using that arr_at_cap [OF at] by (cases vs) auto
    then have "arr_bytes isz (length vs) \<le> old" using old(1) arr_bytes_mono [OF arr_at_cap [OF at]] by simp
    then show ?thesis using arr_at_src [OF at that h0] by simp
  qed
  show "arr_at b isz (Some (ptr_add h SIZEOF_ARR_HEADER)) vs"
    by (rule arr_at_resized [OF at rs cap src hdr frame(1,4)])
  show "framed a isz r b (Some (ptr_add h SIZEOF_ARR_HEADER))"
    by (rule resized_framed [OF rs sub hdr(1) frame])
  show "arena_arr_cap b (Some (ptr_add h SIZEOF_ARR_HEADER)) = c"
    using hdr by (simp add: arena_arr_cap_def)
qed

lemma grow_facts:
  assumes inv: "arena_inv a" and at: "arr_at a isz r vs" and isz: "0 < isz"
  shows "\<exists>ok b r'. arena_arr__grow m a r isz n = Some (ok, b, r') \<and>
    (if ok then arr_at b isz r' vs \<and> n \<le> arena_arr_cap b r' \<and> framed a isz r b r' else b = a \<and> r' = r)"
proof (cases "n \<le> arena_arr_cap a r")
  case True
  then show ?thesis using isz at framed_refl [OF inv]
    by (intro exI [of _ True]) (simp add: arena_arr__grow_def Let_def)
next
  case False
  let ?cap = "arena_arr_cap a r"
  let ?old = "if ?cap = 0 then 0 else SIZEOF_ARR_HEADER + ?cap * isz"
  obtain c where c: "grown_capacity n ?cap = Some c" "n \<le> c" using grown_capacity_Some by blast
  show ?thesis
  proof (cases "c > (SIZE_MAX - SIZEOF_ARR_HEADER) div isz")
    case True
    then show ?thesis using False isz c
      by (intro exI [of _ False]) (simp add: arena_arr__grow_def Let_def)
  next
    case fits: False
    then have bound: "arr_bytes isz c \<le> SIZE_MAX" using isz by (intro arr_bytes_bound) simp_all
    have len: "length vs \<le> c" using arr_at_cap [OF at] False c(2) by linarith
    obtain q a1 where rl: "arena_realloc_last m a (map_option arena_arr__hdr r) ?old (arr_bytes isz c) = (q, a1)"
      by (cases "arena_realloc_last m a (map_option arena_arr__hdr r) ?old (arr_bytes isz c)")
    have old: "?old = arr_bytes isz ?cap \<or> ?old = 0 \<and> ?cap = 0" "r = None \<Longrightarrow> ?old = 0"
      by (auto simp: arr_bytes_def arena_arr_cap_def)
    show ?thesis
    proof (cases q)
      case None
      then have "a1 = a" using realloc_array [OF inv arr_at_own [OF at] old rl] by simp
      then show ?thesis using False isz c fits rl None
        by (intro exI [of _ False]) (simp add: arena_arr__grow_def Let_def arr_bytes_def)
    next
      case (Some h)
      note mv = move_array [OF inv at isz old bound len rl [unfolded Some]]
      have "arena_arr__grow m a r isz n =
          Some (True, set_hdr_count h (length vs) (set_hdr_capacity h c a1), Some (ptr_add h SIZEOF_ARR_HEADER))"
        using False isz c fits rl Some arr_at_len [OF at]
        by (simp add: arena_arr__grow_def Let_def arr_bytes_def)
      then show ?thesis using mv c(2) by (intro exI [of _ True]) simp
    qed
  qed
qed

text \<open>Reserving: the count goes up over items that hold whatever was there.\<close>

lemma elems_prefix: "k \<le> n \<Longrightarrow> \<exists>new. elems a p isz n = elems a p isz k @ new"
proof -
  assume "k \<le> n"
  then have "[0..<n] = [0..<k] @ [k..<n]" by (metis le_add_diff_inverse upt_add_eq_append zero_le)
  then show ?thesis by (simp add: elems_def)
qed

lemma arr_bytes_region:
  assumes "n \<le> c"
  shows "region (ptr_add h SIZEOF_ARR_HEADER) (n * isz) \<subseteq> region h (rounded (arr_bytes isz c))"
proof -
  have "SIZEOF_ARR_HEADER + n * isz \<le> rounded (arr_bytes isz c)"
    using mult_le_mono1 [OF assms, of isz] rounded_facts(1) [of "arr_bytes isz c"]
    unfolding arr_bytes_def by linarith
  then show ?thesis by (auto simp: region_def ptr_add_def)
qed

lemma framed_write:
  assumes inv: "arena_inv a" and q: "region q (length xs) \<subseteq> own a isz r"
    and cap: "arena_arr_cap (write_bytes q xs a) r = arena_arr_cap a r"
  shows "framed a isz r (write_bytes q xs a) r"
proof -
  have "own (write_bytes q xs a) isz r = own a isz r" unfolding own_def cap ..
  moreover have "byte_at (write_bytes q xs a) x = byte_at a x" if "x \<notin> own a isz r" for x
    using that q by (intro byte_at_write_other) blast
  ultimately show ?thesis using inv by (simp add: framed_def write_bytes_inv)
qed

lemma arr_block: "arr_at a isz (Some p) vs \<Longrightarrow> fst p < length (blocks a)"
proof -
  assume at: "arr_at a isz (Some p) vs"
  have "region (arena_arr__hdr p) SIZEOF_ARR_HEADER \<subseteq> in_use a"
    using arr_at_own [OF at] header_region [of SIZEOF_ARR_HEADER "arena_arr__hdr p" isz "arena_arr_cap a (Some p)"]
    by (auto simp: own_def)
  then show ?thesis
    using region_in_use [of SIZEOF_ARR_HEADER "arena_arr__hdr p" a]
    by (simp add: SIZEOF_ARR_HEADER_def) (simp add: arena_arr__hdr_def)
qed

lemma arr_at_set_count:
  assumes inv: "arena_inv a" and at: "arr_at a isz (Some p) vs" and isz: "0 < isz"
    and n: "n \<le> arena_arr_cap a (Some p)"
  defines "b \<equiv> set_hdr_count (arena_arr__hdr p) n a"
  shows "arr_at b isz (Some p) (elems a p isz n)" and "framed a isz (Some p) b (Some p)"
proof -
  define h where "h = arena_arr__hdr p"
  have blk: "fst h < length (blocks a)" using arr_block [OF at] by (simp add: h_def arena_arr__hdr_def)
  have p: "ptr_add h SIZEOF_ARR_HEADER = p" unfolding h_def by (rule arr_ptr [OF at])
  have "arr_bytes isz (arena_arr_cap a (Some p)) \<le> SIZE_MAX" using at by (simp add: arr_at_def)
  then have "arena_arr_cap a (Some p) \<le> SIZE_MAX" by (rule cap_bound [OF isz])
  then have "n \<le> SIZE_MAX" using n by simp
  note w = write_header [OF blk this]
  have cap: "arena_arr_cap b (Some p) = arena_arr_cap a (Some p)" using w by (simp add: arena_arr_cap_def b_def h_def)
  have dis: "region (ptr_add h 8) 8 \<inter> region p (n * isz) = {}"
    unfolding p [symmetric] by (auto simp: region_def ptr_add_def SIZEOF_ARR_HEADER_def)
  then have "elems b p isz n = elems a p isz n"
    unfolding b_def set_hdr_count_def h_def [symmetric] by (intro elems_write_other) simp
  then show "arr_at b isz (Some p) (elems a p isz n)"
    using at cap n w by (simp add: arr_at_def own_def arena_arr_len_def b_def h_def)
  have "region (ptr_add h 8) 8 \<subseteq> region h SIZEOF_ARR_HEADER"
    by (auto simp: region_def ptr_add_def SIZEOF_ARR_HEADER_def)
  then have "region (ptr_add h 8) (length (size_bytes 8 n)) \<subseteq> own a isz (Some p)"
    using header_region [of SIZEOF_ARR_HEADER h isz "arena_arr_cap a (Some p)"] by (auto simp: own_def h_def)
  then show "framed a isz (Some p) b (Some p)"
    using inv cap unfolding b_def set_hdr_count_def h_def [symmetric] by (intro framed_write) simp_all
qed

text \<open>Storing an item.\<close>

lemma arr_at_store:
  assumes inv: "arena_inv a" and at: "arr_at a isz (Some p) vs" and i: "i < length vs" and v: "length v = isz"
  defines "b \<equiv> write_bytes (ptr_add p (i * isz)) v a"
  shows "arr_at b isz (Some p) (vs[i := v])" and "framed a isz (Some p) b (Some p)"
proof -
  define h where "h = arena_arr__hdr p"
  let ?q = "ptr_add p (i * isz)"
  have p: "ptr_add h SIZEOF_ARR_HEADER = p" unfolding h_def by (rule arr_ptr [OF at])
  have blk: "fst ?q < length (blocks a)" using arr_block [OF at] by (simp add: ptr_add_def)
  have "region ?q (length v) \<inter> region h 16 = {}" unfolding p [symmetric] v
    by (auto simp: region_def ptr_add_def SIZEOF_ARR_HEADER_def)
  moreover have "region h 8 \<subseteq> region h 16" "region (ptr_add h 8) 8 \<subseteq> region h 16"
    by (auto simp: region_def ptr_add_def)
  ultimately have "region ?q (length v) \<inter> region h 8 = {}" "region ?q (length v) \<inter> region (ptr_add h 8) 8 = {}"
    by blast+
  then have cap: "arena_arr_cap b (Some p) = arena_arr_cap a (Some p)"
    and len: "arena_arr_len b (Some p) = arena_arr_len a (Some p)"
    by (simp_all add: arena_arr_cap_def arena_arr_len_def hdr_capacity_def hdr_count_def b_def h_def read_write_other)
  have "elems b p isz (length vs) = (elems a p isz (length vs))[i := v]"
  proof (rule nth_equalityI)
    fix j assume "j < length (elems b p isz (length vs))"
    then have j: "j < length vs" by simp
    show "elems b p isz (length vs) ! j = (elems a p isz (length vs))[i := v] ! j"
    proof (cases "j = i")
      case True
      then show ?thesis using i read_write_same [OF blk, of v] v by (simp add: elems_def b_def)
    next
      case False
      then have "Suc i * isz \<le> j * isz \<or> Suc j * isz \<le> i * isz"
        by (metis Suc_leI mult_le_mono1 nat_neq_iff)
      then have "region ?q (length v) \<inter> region (ptr_add p (j * isz)) isz = {}"
        by (auto simp: region_def ptr_add_def v)
      then show ?thesis using False i j by (simp add: elems_def b_def read_write_other)
    qed
  qed simp
  then show "arr_at b isz (Some p) (vs[i := v])"
    using at cap len by (simp add: arr_at_def own_def b_def)
  have "Suc i * isz \<le> length vs * isz" using i by (intro mult_le_mono1) simp
  then have "region ?q (length v) \<subseteq> region p (length vs * isz)"
    by (auto simp: region_def ptr_add_def v)
  then have "region ?q (length v) \<subseteq> own a isz (Some p)"
    using arr_bytes_region [OF arr_at_cap [OF at], of h isz] unfolding p by (auto simp: own_def h_def)
  then show "framed a isz (Some p) b (Some p)" using inv cap unfolding b_def by (intro framed_write)
qed

lemma append_n_facts:
  assumes inv: "arena_inv a" and at: "arr_at a isz r vs" and isz: "0 < isz" and k: "0 < k"
  shows "\<exists>s b r'. arena_arr__append_n m a r isz k = Some (s, b, r') \<and>
    (case s of None \<Rightarrow> b = a \<and> r' = r
     | Some q \<Rightarrow> \<exists>p new. r' = Some p \<and> q = ptr_add p (length vs * isz) \<and> length new = k \<and>
         arr_at b isz r' (vs @ new) \<and> framed a isz r b r')"
proof (cases "k > SIZE_MAX - length vs")
  case True
  then show ?thesis using isz k arr_at_len [OF at] by (simp add: arena_arr__append_n_def)
next
  case False
  let ?n = "length vs + k"
  from grow_facts [OF inv at isz, of m ?n] obtain ok b r' where
    g: "arena_arr__grow m a r isz ?n = Some (ok, b, r')" and
    res: "if ok then arr_at b isz r' vs \<and> ?n \<le> arena_arr_cap b r' \<and> framed a isz r b r' else b = a \<and> r' = r"
    by blast
  show ?thesis
  proof (cases ok)
    case False
    then show ?thesis using res g isz k \<open>\<not> k > SIZE_MAX - length vs\<close> arr_at_len [OF at]
      by (simp add: arena_arr__append_n_def)
  next
    case True
    then have b: "arr_at b isz r' vs" "?n \<le> arena_arr_cap b r'" "framed a isz r b r'" using res by simp_all
    then obtain p where p: "r' = Some p" using k by (cases r') (auto simp: arena_arr_cap_def)
    have invb: "arena_inv b" using b(3) by (simp add: framed_def)
    note sc = arr_at_set_count [OF invb b(1) [unfolded p] isz b(2) [unfolded p]]
    obtain new where new: "elems b p isz ?n = vs @ new"
      using elems_prefix [of "length vs" ?n b p isz] b(1) by (auto simp: arr_at_def p)
    then have "length new = k" by (metis add_left_cancel length_append length_elems)
    moreover have "arena_arr__append_n m a r isz k =
        Some (Some (ptr_add p (length vs * isz)), set_hdr_count (arena_arr__hdr p) ?n b, r')"
      using g p True isz k \<open>\<not> k > SIZE_MAX - length vs\<close> arr_at_len [OF at]
      by (simp add: arena_arr__append_n_def Let_def)
    ultimately show ?thesis using sc new p framed_trans [OF b(3)] by auto
  qed
qed

lemma push_facts:
  assumes inv: "arena_inv a" and at: "arr_at a (length v) r vs" and v: "0 < length v"
  shows "\<exists>ok b r'. arena_arr_push m a r v = Some (ok, b, r') \<and>
    (if ok then arr_at b (length v) r' (vs @ [v]) \<and> framed a (length v) r b r' else b = a \<and> r' = r)"
proof -
  from append_n_facts [OF inv at v zero_less_one, of m] obtain s b r' where
    ap: "arena_arr__append_n m a r (length v) 1 = Some (s, b, r')" and
    res: "case s of None \<Rightarrow> b = a \<and> r' = r
     | Some q \<Rightarrow> \<exists>p new. r' = Some p \<and> q = ptr_add p (length vs * length v) \<and> length new = 1 \<and>
         arr_at b (length v) r' (vs @ new) \<and> framed a (length v) r b r'"
    by blast
  show ?thesis
  proof (cases s)
    case None
    then show ?thesis using ap res by (intro exI [of _ False]) (simp add: arena_arr_push_def)
  next
    case (Some q)
    then obtain p new where p: "r' = Some p" "q = ptr_add p (length vs * length v)" "length new = 1"
      "arr_at b (length v) (Some p) (vs @ new)" "framed a (length v) r b (Some p)"
      using res by auto
    then obtain w where w: "new = [w]" by (cases new) auto
    have "arena_inv b" using p(5) by (simp add: framed_def)
    from arr_at_store [OF this p(4) _ refl, of "length vs"] p(5) show ?thesis
      using ap Some p(1,2) by (intro exI [of _ True]) (auto simp: arena_arr_push_def w intro: framed_trans)
  qed
qed

text \<open>Fitting writes only the capacity; the count has come with the bytes.\<close>

lemma write_same: "length xs = n \<Longrightarrow> fst p < length (blocks a) \<Longrightarrow> read_bytes a p n = xs \<Longrightarrow> write_bytes p xs a = a"
proof -
  assume xs: "length xs = n" "read_bytes a p n = xs" and p: "fst p < length (blocks a)"
  let ?b = "blocks a ! fst p"
  have "(if snd p \<le> i \<and> i < snd p + length xs then xs ! (i - snd p) else payload ?b i) = payload ?b i" for i
    using read_bytes_nth [of "i - snd p" n a p] xs by (auto simp: byte_at_def)
  then show ?thesis using p by (simp add: write_bytes_def Let_def)
qed

lemma set_count_same:
  assumes "fst h < length (blocks a)" "read_bytes a (ptr_add h 8) 8 = size_bytes 8 n"
  shows "set_hdr_count h n a = a"
  unfolding set_hdr_count_def using assms by (intro write_same) (simp_all add: ptr_add_def)

lemma size_bytes_size: "size_bytes (length cs) (bytes_size cs) = cs"
proof (induction cs)
  case (Cons c cs)
  have "(of_char c :: nat) < 256" by simp
  then show ?case using Cons by simp
qed simp

lemma fit_facts:
  assumes inv: "arena_inv a" and at: "arr_at a isz (Some p) vs" and isz: "0 < isz"
  shows "case arena_arr__fit_impl m a (Some p) isz of (ok, b, r') \<Rightarrow>
    if ok then arr_at b isz r' vs \<and> arena_arr_cap b r' = length vs \<and> framed a isz (Some p) b r'
    else b = a \<and> r' = Some p"
proof (cases "length vs = arena_arr_cap a (Some p)")
  case True
  then show ?thesis using isz at arr_at_len [OF at] framed_refl [OF inv] by (simp add: arena_arr__fit_impl_def)
next
  case False
  let ?h = "arena_arr__hdr p"
  let ?old = "arr_bytes isz (arena_arr_cap a (Some p))"
  obtain q a1 where "arena_realloc_last m a (Some ?h) ?old (arr_bytes isz (length vs)) = (q, a1)"
    by (cases "arena_realloc_last m a (Some ?h) ?old (arr_bytes isz (length vs))")
  then have rl: "arena_realloc_last m a (map_option arena_arr__hdr (Some p)) ?old (arr_bytes isz (length vs)) = (q, a1)"
    by simp
  have bound: "arr_bytes isz (length vs) \<le> SIZE_MAX"
    using at arr_bytes_mono [OF arr_at_cap [OF at], of isz] by (simp add: arr_at_def)
  note ra = realloc_array [OF inv arr_at_own [OF at] _ _ rl]
  show ?thesis
  proof (cases q)
    case None
    then show ?thesis using False isz rl ra arr_at_len [OF at]
      by (simp add: arena_arr__fit_impl_def Let_def arr_bytes_def)
  next
    case (Some h)
    note mv = move_array [OF inv at isz _ _ bound order.refl rl [unfolded Some]]
    have rs: "resized a ?h ?old (arr_bytes isz (length vs)) h a1" using ra Some by auto
    have blk: "fst h < length (blocks a1)"
      using resized_block [OF rs] by (simp add: arr_bytes_def SIZEOF_ARR_HEADER_def)
    have "read_bytes a1 (ptr_add h 8) 8 = read_bytes a (ptr_add ?h 8) 8"
    proof (rule read_bytes_cong)
      fix i :: nat assume "i < 8"
      then have "8 + i < min ?old (arr_bytes isz (length vs))"
        by (simp add: arr_bytes_def SIZEOF_ARR_HEADER_def)
      then have "byte_at a1 (fst h, snd h + (8 + i)) = byte_at a (fst ?h, snd ?h + (8 + i))"
        using rs by (simp only: resized_def Let_def)
      then show "byte_at a1 (fst (ptr_add h 8), snd (ptr_add h 8) + i) =
          byte_at a (fst (ptr_add ?h 8), snd (ptr_add ?h 8) + i)"
        by (simp add: ptr_add_def add.assoc)
    qed
    moreover have "read_bytes a (ptr_add ?h 8) 8 = size_bytes 8 (length vs)"
      using size_bytes_size [of "read_bytes a (ptr_add ?h 8) 8"] arr_at_len [OF at]
      by (simp add: arena_arr_len_def hdr_count_def)
    moreover have "read_bytes (set_hdr_capacity h (length vs) a1) (ptr_add h 8) 8 = read_bytes a1 (ptr_add h 8) 8"
      unfolding set_hdr_capacity_def by (rule read_write_other) (auto simp: region_def ptr_add_def)
    ultimately have "set_hdr_count h (length vs) (set_hdr_capacity h (length vs) a1) = set_hdr_capacity h (length vs) a1"
      using blk by (intro set_count_same) simp_all
    moreover have "arena_arr__fit_impl m a (Some p) isz =
        (True, set_hdr_capacity h (length vs) a1, Some (ptr_add h SIZEOF_ARR_HEADER))"
      using False isz rl Some arr_at_len [OF at] by (simp add: arena_arr__fit_impl_def Let_def arr_bytes_def)
    ultimately show ?thesis using mv by simp
  qed
qed

section \<open>Properties\<close>

lemma sample_push: "map_option fst (arena_arr_push sample_malloc sample_arena None ''ab'') = Some True"
proof -
  have "grow_loop 1 8 = Some 8" by (subst grow_loop.simps) simp
  then show ?thesis
    by (simp add: arena_arr_push_def arena_arr__append_n_def arena_arr__grow_def arena_arr_len_def arena_arr_cap_def
      grown_capacity_def ARENA_ARR_INIT_CAPACITY_def SIZE_MAX_def SIZEOF_ARR_HEADER_def arena_realloc_last_def
      arena_alloc_def arena_align_up_eq rounded_def alloc_in_def sample_arena_def arena_alloc_from_block_def
      arena_add_overflow_def) (simp flip: numeral_2_eq_2)
qed

text \<open>
  C19. Arrays are lists. If the array \<open>r\<close> in the arena stands for the items \<open>vs\<close>, then
  \<open>arena_arr_push\<close> comes back - the doubling loop ends - and either fails with nothing changed,
  or leaves an array that stands for \<open>vs @ [v]\<close>, whether it was null, had room, grew in place
  or moved; no byte outside the array has changed, and none of them belongs to it now.
\<close>

theorem arr_push_appends:
  assumes "arena_inv a" "arr_at a (length v) r vs" "0 < length v"
  shows "\<exists>ok b r'. arena_arr_push m a r v = Some (ok, b, r') \<and>
    (if ok then arr_at b (length v) r' (vs @ [v]) \<and> arena_arr_len b r' = Suc (length vs) \<and> arena_inv b \<and>
       (\<forall>x\<in>in_use a - own a (length v) r.
          x \<in> in_use b - own b (length v) r' \<and> byte_at b x = byte_at a x)
     else b = a \<and> r' = r)"
proof -
  from push_facts [OF assms, of m] obtain ok b r' where
    p: "arena_arr_push m a r v = Some (ok, b, r')" and
    res: "if ok then arr_at b (length v) r' (vs @ [v]) \<and> framed a (length v) r b r' else b = a \<and> r' = r"
    by blast
  then show ?thesis
    by (intro exI [of _ ok] exI [of _ b] exI [of _ r']) (auto simp: framed_def arr_at_len split: if_splits)
qed

theorem arr_push_appends_witness:
  "\<exists>b r'. arena_arr_push sample_malloc sample_arena None ''ab'' = Some (True, b, r') \<and> arr_at b 2 r' [''ab'']"
proof -
  have "arr_at sample_arena (length ''ab'') None []" "0 < length ''ab''" by (simp_all add: arr_at_def)
  moreover have "arena_inv sample_arena" using arena_create_inv [OF sample_created] by simp
  ultimately obtain k b r' where
    p: "arena_arr_push sample_malloc sample_arena None ''ab'' = Some (k, b, r')" and
    k: "if k then arr_at b (length ''ab'') r' ([] @ [''ab'']) \<and> arena_arr_len b r' = Suc (length ([] :: string list)) \<and> arena_inv b \<and>
       (\<forall>x\<in>in_use sample_arena - own sample_arena (length ''ab'') None.
          x \<in> in_use b - own b (length ''ab'') r' \<and> byte_at b x = byte_at sample_arena x)
     else b = sample_arena \<and> r' = None"
    using arr_push_appends [of sample_arena "''ab''" None "[]" sample_malloc] by blast
  have "k" using sample_push p by simp
  then show ?thesis using p k by (simp add: numeral_2_eq_2)
qed

text \<open>
  Growing and fitting keep the list. \<open>arena_arr__grow\<close> comes back with at least the capacity
  asked for and the same items, or unchanged; \<open>arena_arr__fit_impl\<close> brings the capacity down to
  the count and keeps the items, also when the array is not the last allocation and has to move.
\<close>

theorem arr_grow_fit_keep:
  assumes "arena_inv a" "arr_at a isz (Some p) vs" "0 < isz"
  shows "(\<exists>ok b r'. arena_arr__grow m a (Some p) isz n = Some (ok, b, r') \<and>
      (if ok then arr_at b isz r' vs \<and> n \<le> arena_arr_cap b r' \<and> framed a isz (Some p) b r'
       else b = a \<and> r' = Some p)) \<and>
    (case arena_arr__fit_impl m a (Some p) isz of (ok, b, r') \<Rightarrow>
      (if ok then arr_at b isz r' vs \<and> arena_arr_cap b r' = length vs \<and> framed a isz (Some p) b r'
       else b = a \<and> r' = Some p))"
  using grow_facts [OF assms, of m n] fit_facts [OF assms, of m] by simp

theorem arr_grow_fit_keep_witness:
  "\<exists>a p. arr_at a 2 (Some p) [''ab''] \<and>
     (case arena_arr__fit_impl sample_malloc a (Some p) 2 of
        (ok, b, r') \<Rightarrow> ok \<longrightarrow> arr_at b 2 r' [''ab''] \<and> arena_arr_cap b r' = 1)"
proof -
  have "arr_at sample_arena (length ''ab'') None []" "0 < length ''ab''" by (simp_all add: arr_at_def)
  moreover have "arena_inv sample_arena" using arena_create_inv [OF sample_created] by simp
  ultimately obtain b r' where
    "arr_at b (length ''ab'') r' ([] @ [''ab''])" "framed sample_arena (length ''ab'') None b r'"
    using push_facts [of sample_arena "''ab''" None "[]" sample_malloc] sample_push by (auto split: if_splits)
  then have b: "arr_at b 2 r' [''ab'']" "arena_inv b" by (simp_all add: numeral_2_eq_2 framed_def)
  then obtain p where p: "r' = Some p" by (cases r') (auto simp: arr_at_def)
  from arr_grow_fit_keep [OF b(2) b(1) [unfolded p], of sample_malloc 1] b(1) p show ?thesis
    by (intro exI [of _ b] exI [of _ p]) (auto split: prod.splits)
qed

end
