(* ===== verification/Spec2Isabelle.thy ===== *)
theory Spec2Isabelle
  imports Nob_Prelude Cmk_Lexer Cmk_Lexer_Facts Cmk_Lexer_Grammar Cmk_Lexer_Props
    Diagnostics Cmk_Parser Cmk_Parser_Facts Cmk_Parser_Props
    Genex_Parse Genex_Eval Genex_Facts Genex_Scan
    Cmk_Math Cmk_Math_Facts Cmk_Math_Levels Cmk_Math_Props
    Bm_Records Three_Colour Bm_Cycles Bm_Cycles_Props Bm_Validate Bm_Validate_Facts Bm_Validate_Props
    Bm_Events Bm_Builder Bm_Builder_Handlers Bm_Builder_Facts Bm_Builder_Props
    Bm_Freeze Bm_Freeze_Facts Bm_Freeze_Model Bm_Freeze_Props
    Eval_State Eval_State_Props Eval_Expand Eval_Expand_Props Eval_Compare Eval_Compare_Props Eval_Path Eval_Path_Props
    Eval_Cond Eval_Cond_Props Eval_Policy Eval_Frame Eval_Policy_Props
    Eval_Exec Eval_Run Eval_Interp Eval_Dispatch Eval_Trace Eval_Ends Eval_Fuel Eval_Run_Props Eval_Block_Props
    Eval_List Eval_List_Command Eval_List_Transform Eval_List_Facts Eval_List_Sort Eval_List_Spec Eval_List_Props Eval_Text_Platform
    Arena Arena_Facts Arena_Props Arena_Dyn Arena_Dyn_Props
begin

text \<open>
  Nobify translates a CMake project into a C program that builds it. The sources under
  \<open>src/src_v2\<close> are a chain of parts: the lexer (\<open>lexer/\<close>) cuts a script into tokens, the parser
  (\<open>parser/\<close>) makes a tree of them, the evaluator (\<open>evaluator/\<close>) runs the tree and emits a stream of
  events (\<open>transpiler/event_ir.h\<close>), the builder (\<open>build_model/\<close>) makes a draft of the build model
  from the events, which is validated, frozen and queried, and the code generator (\<open>codegen/\<close>)
  writes the program. Generator expressions (\<open>genex/\<close>) are evaluated when the model is queried; the
  arena (\<open>arena/\<close>) holds the memory of all of them, and diagnostics (\<open>diagnostics/\<close>) are counted in
  one place.

  This development models the core of that chain: what a script means, from its bytes to the
  events, how events become a draft, what a draft must satisfy, and how it is frozen. Names are those
  of the sources. A \<open>String_View\<close> is a list of bytes; a text that passes through a C string ends at its first NUL, and the model cuts it there.
  \<open>size_t\<close> is \<open>nat\<close>, signed integers are \<open>int\<close>, and the bounds are written out where the code meets
  them. Out of memory is modelled where the code is about memory (arena, growing arrays, the
  parser's injected failures); elsewhere there is memory.

  Theories and sources.

  \<^item> \<open>Nob_Prelude\<close>: bytes, ctype predicates, string views (\<open>vendor/nob.h\<close>), lists by index.
  \<^item> \<open>Cmk_Lexer\<close>: \<open>lexer/lexer.c\<close>. \<open>Cmk_Lexer_Facts\<close> and \<open>Cmk_Lexer_Grammar\<close> relate the scanners to
    grammars of comments, quoted, bracket and unquoted arguments; \<open>Cmk_Lexer_Props\<close>: tokens and
    trivia tile the input, the tokens are those of the grammar, positions are right.
  \<^item> \<open>Diagnostics\<close>: \<open>diagnostics/diagnostics.c\<close>.
  \<^item> \<open>Cmk_Parser\<close>: \<open>parser/parser.c\<close>, errors and their recovery included. \<open>Cmk_Parser_Facts\<close>,
    \<open>Cmk_Parser_Props\<close>: printing and parsing, the recursion equations of the C functions, total
    consumption, well-formed trees, the reference reading of parentheses.
  \<^item> \<open>Genex_Parse\<close>, \<open>Genex_Eval\<close>, \<open>Genex_Scan\<close>: \<open>genex/\<close>. \<open>Genex_Facts\<close>: the recursion equation of the code, the
    guards against cycles and depth, what evaluation leaves alone, the logical operators.
  \<^item> \<open>Cmk_Math\<close>: \<open>evaluator/eval_math.c\<close>. \<open>Cmk_Math_Facts\<close>, \<open>Cmk_Math_Levels\<close>, \<open>Cmk_Math_Props\<close>: the
    expression grammar, exactness and overflow, printing and reading.
  \<^item> \<open>Bm_Records\<close>, \<open>Bm_Validate\<close>, \<open>Bm_Cycles\<close>: the draft and frozen records and
    \<open>build_model_validate.c\<close>, \<open>build_model_validate_cycles.c\<close>. \<open>Three_Colour\<close>: depth-first search in
    general, over nodes whose out-edges may not be had. \<open>Bm_Validate_Props\<close>, \<open>Bm_Cycles_Props\<close>: the validators decide the conditions they stand for.
  \<^item> \<open>Bm_Events\<close>: the table of event kinds and the payloads with semantics (\<open>transpiler/event_ir.h\<close>,
    \<open>event_ir.c\<close>). \<open>Bm_Builder\<close>, \<open>Bm_Builder_Handlers\<close>: the builder (\<open>build_model_builder*.c\<close>), its state the
    draft, the stack of open directories and the reports. \<open>Bm_Builder_Facts\<close>: the invariant \<open>built\<close> and that
    every event keeps it; \<open>Bm_Builder_Props\<close>: failures do no harm, the directories are those of a walk,
    and what is left for the validation to test.
  \<^item> \<open>Bm_Freeze\<close>: \<open>build_model_freeze.c\<close>, from the draft to the model: copies, effective paths, targets of
    names behind aliases, producers of paths, sources and their properties, file sets, configurations.
    \<open>Bm_Freeze_Facts\<close>, \<open>Bm_Freeze_Model\<close>: what each step leaves alone and what it writes;
    \<open>Bm_Freeze_Props\<close>: references are in range, sources agree with their producers, validated drafts
    are frozen. The queries its graph checks use are parameters, which may fail on any node.
  \<^item> \<open>Arena\<close>, \<open>Arena_Dyn\<close>: \<open>arena/arena.c\<close>, \<open>arena_dyn.h\<close>. \<open>Arena_Props\<close>, \<open>Arena_Dyn_Props\<close>: allocations
    are fresh and disjoint, rewinding restores, growing arrays refine lists.
  \<^item> \<open>Eval_State\<close>: scopes, cache, macro frames, watched variables, environment and the decision to
    stop (\<open>evaluator.c\<close>). \<open>Eval_State_Props\<close>: the locale \<open>variable_store\<close> and its interpretation;
    scopes isolate.
  \<^item> \<open>Eval_Expand\<close>: references and arguments (\<open>eval_expr.c\<close>, \<open>evaluator.c\<close>); \<open>Eval_Compare\<close>, \<open>Eval_Path\<close>:
    numbers, versions, lists, words, paths; \<open>Eval_Cond\<close>: \<open>eval_condition\<close>. Their \<open>_Props\<close> relate each to
    its meaning.
  \<^item> \<open>Eval_Policy\<close>: \<open>eval_policy_engine.c\<close>; \<open>Eval_Policy_Props\<close>: levels are scopes. \<open>Eval_Frame\<close>: what
    evaluating arguments and conditions leaves alone.
  \<^item> \<open>Eval_Exec\<close>: execution frames, blocks, events and transactions (\<open>evaluator.c\<close>,
    \<open>eval_flow_block.c\<close>). \<open>Eval_Run\<close>: the flow commands and the compatibility variables
    (\<open>eval_compat.c\<close>). \<open>Eval_Interp\<close>: conditionals and loops (\<open>eval_exec_core.c\<close>). \<open>Eval_Dispatch\<close>:
    user commands (\<open>eval_user_command.c\<close>), the dispatcher (\<open>eval_dispatcher.c\<close>), nodes.
    \<open>Eval_Trace\<close>, \<open>Eval_Ends\<close>, \<open>Eval_Fuel\<close>: the locales \<open>traced_platform\<close>, \<open>orderly_platform\<close> and
    \<open>monotone_platform\<close> state what native commands must keep (the second for commands of certain
    names), and are interpreted on the platform of the flow commands; \<open>Eval_Run_Props\<close> has the theorems
    about runs and about native commands that fail, \<open>Eval_Block_Props\<close> what leaving a block does to variables.
  \<^item> \<open>Eval_List\<close>, \<open>Eval_List_Command\<close>, \<open>Eval_List_Transform\<close>: the command \<open>list()\<close> (\<open>eval_list_helpers.c\<close>,
    \<open>eval_list.c\<close>) and the handler of \<open>math()\<close>. \<open>Eval_List_Facts\<close>: the loops over arrays are functions of the
    list library. \<open>Eval_List_Sort\<close>: the comparisons are orders of keys, the insertion sort is the stable sort by
    them. \<open>Eval_List_Spec\<close> says what each subcommand is to do over lists of items; \<open>Eval_List_Props\<close>: it does
    that. \<open>Eval_Text_Platform\<close>: the locale \<open>text_command\<close> of commands that work on variables and diagnostics
    only, its interpretations on \<open>list()\<close> and \<open>math()\<close>, the platform that has them, and that scripts over
    these commands and unknown ones come to an end, whatever else a platform has.

  How the evaluator's state corresponds to the code. \<open>eval_ctx\<close> is the part expressions read
  (\<open>Eval_Scope_State\<close>, the runtime state, the policy levels); \<open>interp\<close> adds the frames
  (\<open>Eval_Exec_Context\<close>, with the loop depth and the pending signal of each), the block frames, the user
  commands, the stream and the transactions, each with the events it holds back and the mark by which a
  command asks to keep its variables on failure; its type parameter is what else
  the transactions save. Lists of scopes, macro frames, policy levels, block frames and user
  commands are turned round, the innermost first. \<open>platform\<close> has the native commands and the world
  conditions ask about. A command's transaction keeps the state at its beginning instead of copies of
  every table. A transaction ends with the command that began it only if that command's handler closes
  what it opens; \<open>traced_platform\<close> states it, and the theorems that need it name it.

  Bounds. The scanners of the lexer recurse on the rest of the input. The parser's loops carry the number of tokens left, the
  generator expressions and \<open>math\<close> their depth, the condition parser the number of tokens; in each
  case a theorem says that the C function's own equation holds, so that the bound is never met. A run
  of a script carries the nesting of node lists: \<open>run_bound_irrelevant\<close> says that it decides only
  whether there is a result, and \<open>script_ends\<close> that the nesting of the tree is enough for a script
  that defines no commands and calls only flow control, \<open>list\<close>, \<open>math\<close> and unknown commands. With recursive functions a run need not end, in the model as in the code.
  \<open>eval_unwind_blocks_for_return\<close> is a partial function of its own, as its loop can run forever.

  Assumptions. Array pointers the loops of \<open>eval_foreach\<close> and \<open>eval_while\<close> hold stay valid (see the
  findings for what happens when they do not). \<open>foreach(RANGE)\<close> stays within a \<open>long\<close>. The file
  system, regular expressions and targets that conditions ask about are the parameter
  \<open>cond_world\<close>, the regular expressions of \<open>list()\<close> the parameter \<open>regex_engine\<close>. The origin of events, file locks and the directories of frames are left out.

  Not modelled. The native commands other than those of control flow, \<open>list()\<close> and \<open>math()\<close>: they are many, most of them
  record facts in the semantic state or do input and output, and the dispatcher is modelled for any
  of them. The queries of the build model; the text dump and the deep copies of events; the code
  generator; the command line, the test runner and the vendored headers.
\<close>

end
